(* ===== verification/Prelude.thy ===== *)
theory Prelude
  imports Main "HOL-Library.Word" "HOL-Library.Monad_Syntax"
begin

text \<open>
  Shared vocabulary of the development: the named theorem collections, generic facts on lists and
  association lists, and the model of \<^verbatim>\<open>std::map\<close> (an association list kept sorted by the map's
  comparator) with the laws its clients rely on, stated once for any strict total order in the
  locale \<open>strict_order\<close>.
\<close>

named_theorems level_defs \<comment> \<open>definitions of the price-level operations\<close>
named_theorems book_defs \<comment> \<open>definitions of the order-book operations\<close>
named_theorems event_simps \<comment> \<open>projections of event streams\<close>

section \<open>Lists\<close>

lemma map_filter_append [simp]:
  "List.map_filter f (xs @ ys) = List.map_filter f xs @ List.map_filter f ys"
  by (simp add: List.map_filter_def)

lemma sum_list_remove1:
  fixes f :: "'a \<Rightarrow> int"
  shows "x \<in> set xs \<Longrightarrow> (\<Sum>y\<leftarrow>remove1 x xs. f y) = (\<Sum>y\<leftarrow>xs. f y) - f x"
  by (induction xs) auto

lemma sum_list_pos:
  fixes f :: "'a \<Rightarrow> int"
  shows "\<forall>x\<in>set xs. 0 < f x \<Longrightarrow> 0 \<le> (\<Sum>x\<leftarrow>xs. f x)"
  by (induction xs) force+

lemma sum_list_cong_set:
  "(\<And>x. x \<in> set xs \<Longrightarrow> f x = g x) \<Longrightarrow> (\<Sum>x\<leftarrow>xs. f x) = (\<Sum>x\<leftarrow>xs. g x)"
  by (induction xs) auto

lemma length_filter_map_filter:
  "length (List.map_filter f xs) = length (filter (\<lambda>x. f x \<noteq> None) xs)"
  by (induction xs) (auto simp: List.map_filter_simps split: option.splits)

section \<open>Sorted association lists\<close>

text \<open>
  \<^verbatim>\<open>std::map<K, V, Compare>\<close> as the list of its entries in iteration order.
  \<open>smap_emplace\<close> is \<^verbatim>\<open>try_emplace\<close>: it leaves an existing entry alone.
\<close>

fun smap_emplace :: "('k \<Rightarrow> 'k \<Rightarrow> bool) \<Rightarrow> 'k \<Rightarrow> 'v \<Rightarrow> ('k \<times> 'v) list \<Rightarrow> ('k \<times> 'v) list" where
  "smap_emplace lt k v [] = [(k, v)]"
| "smap_emplace lt k v ((k', v') # xs) =
     (if lt k k' then (k, v) # (k', v') # xs
      else if k = k' then (k', v') # xs
      else (k', v') # smap_emplace lt k v xs)"

definition smap_put :: "'k \<Rightarrow> 'v \<Rightarrow> ('k \<times> 'v) list \<Rightarrow> ('k \<times> 'v) list" where
  "smap_put k v xs = map (\<lambda>(k', v'). if k' = k then (k', v) else (k', v')) xs"

definition smap_erase :: "'k \<Rightarrow> ('k \<times> 'v) list \<Rightarrow> ('k \<times> 'v) list" where
  "smap_erase k xs = filter (\<lambda>(k', v'). k' \<noteq> k) xs"

lemma smap_put_Nil [simp]: "smap_put k v [] = []"
  by (simp add: smap_put_def)

lemma smap_put_Cons [simp]:
  "smap_put k v ((k', v') # xs) = (if k' = k then (k', v) else (k', v')) # smap_put k v xs"
  by (simp add: smap_put_def)

lemma smap_erase_Nil [simp]: "smap_erase k [] = []"
  by (simp add: smap_erase_def)

lemma smap_erase_Cons [simp]:
  "smap_erase k ((k', v') # xs) = (if k' = k then smap_erase k xs else (k', v') # smap_erase k xs)"
  by (simp add: smap_erase_def)

lemma keys_smap_put [simp]: "map fst (smap_put k v xs) = map fst xs"
  by (induction xs) auto

lemma keys_smap_erase: "map fst (smap_erase k xs) = filter (\<lambda>k'. k' \<noteq> k) (map fst xs)"
  by (induction xs) auto

lemma smap_put_notin: "k \<notin> fst ` set xs \<Longrightarrow> smap_put k v xs = xs"
  by (induction xs) auto

lemma smap_erase_notin: "k \<notin> fst ` set xs \<Longrightarrow> smap_erase k xs = xs"
  by (induction xs) auto

lemma smap_put_append [simp]: "smap_put k v (xs @ ys) = smap_put k v xs @ smap_put k v ys"
  by (simp add: smap_put_def)

lemma smap_erase_append [simp]: "smap_erase k (xs @ ys) = smap_erase k xs @ smap_erase k ys"
  by (simp add: smap_erase_def)

lemma map_of_smap_put: "map_of (smap_put k v xs) k' =
   (if k' = k \<and> k \<in> fst ` set xs then Some v else map_of xs k')"
proof (induction xs)
  case (Cons x xs)
  obtain a b where x: "x = (a, b)" by (cases x)
  show ?case
  proof (cases "a = k")
    case True
    with x show ?thesis using Cons.IH by auto
  next
    case False
    with x show ?thesis using Cons.IH by (cases "k' = k") auto
  qed
qed simp

lemma map_of_smap_erase: "map_of (smap_erase k xs) k' = (if k' = k then None else map_of xs k')"
  by (induction xs) auto

lemma smap_split:
  assumes "map_of xs k = Some v"
  obtains ys zs where "xs = ys @ (k, v) # zs" and "k \<notin> fst ` set ys"
proof -
  from assms have "\<exists>ys zs. xs = ys @ (k, v) # zs \<and> k \<notin> fst ` set ys"
  proof (induction xs)
    case (Cons x xs)
    obtain k' v' where x: "x = (k', v')" by (cases x)
    show ?case
    proof (cases "k' = k")
      case True
      with Cons.prems x have "x # xs = [] @ (k, v) # xs \<and> k \<notin> fst ` set []" by simp
      then show ?thesis by blast
    next
      case False
      with Cons x obtain ys zs where "xs = ys @ (k, v) # zs" "k \<notin> fst ` set ys" by auto
      with False x have "x # xs = (x # ys) @ (k, v) # zs \<and> k \<notin> fst ` set (x # ys)" by auto
      then show ?thesis by blast
    qed
  qed simp
  with that show thesis by blast
qed

lemma smap_split_unique:
  "xs @ (k, v) # ys = xs' @ (k, v') # ys' \<Longrightarrow> k \<notin> fst ` set xs \<Longrightarrow> k \<notin> fst ` set xs' \<Longrightarrow>
     xs = xs' \<and> v = v' \<and> ys = ys'"
proof (induction xs arbitrary: xs')
  case Nil
  then show ?case by (cases xs') auto
next
  case (Cons x xs)
  then show ?case by (cases xs') auto
qed

lemma map_of_append_notin: "k \<notin> fst ` set xs \<Longrightarrow> map_of (xs @ ys) k = map_of ys k"
  by (induction xs) auto

text \<open>
  The contract of the comparator (a strict total order) and what follows for the map: emplacing
  keeps the entries sorted, adds exactly the new key, and puts it in one place.
\<close>

locale strict_order =
  fixes lt :: "'k \<Rightarrow> 'k \<Rightarrow> bool"
  assumes irrefl: "\<not> lt a a"
    and trans: "lt a b \<Longrightarrow> lt b c \<Longrightarrow> lt a c"
    and total: "a \<noteq> b \<Longrightarrow> lt a b \<or> lt b a"
begin

lemma asym: "lt a b \<Longrightarrow> \<not> lt b a"
  using irrefl trans by blast

lemma sorted_distinct: "sorted_wrt lt ks \<Longrightarrow> distinct ks"
  using irrefl by (induction ks) auto

lemma emplace_keys: "fst ` set (smap_emplace lt k v xs) = insert k (fst ` set xs)"
proof (induction xs)
  case (Cons x xs)
  then show ?case by (cases x) (simp add: insert_commute insert_absorb)
qed simp

lemma emplace_existing:
  "sorted_wrt lt (map fst xs) \<Longrightarrow> k \<in> fst ` set xs \<Longrightarrow> smap_emplace lt k v xs = xs"
proof (induction xs)
  case (Cons x xs)
  then show ?case by (cases x) (auto dest: asym)
qed simp

lemma emplace_sorted:
  "sorted_wrt lt (map fst xs) \<Longrightarrow> sorted_wrt lt (map fst (smap_emplace lt k v xs))"
proof (induction xs)
  case (Cons x xs)
  obtain k' v' where x: "x = (k', v')" by (cases x)
  have "\<forall>y\<in>set (map fst (smap_emplace lt k v xs)). lt k' y" if "\<not> lt k k'" "k \<noteq> k'"
  proof -
    have "set (map fst (smap_emplace lt k v xs)) = insert k (set (map fst xs))"
      using emplace_keys [of k v xs] by simp
    with that Cons.prems x total [of k k'] show ?thesis by auto
  qed
  with Cons x show ?case by (auto intro: trans)
qed simp

lemma emplace_split:
  assumes "sorted_wrt lt (map fst xs)" and "k \<notin> fst ` set xs"
  obtains ys zs where "xs = ys @ zs" and "smap_emplace lt k v xs = ys @ (k, v) # zs"
    and "\<forall>y\<in>fst ` set ys. lt y k" and "\<forall>z\<in>fst ` set zs. lt k z"
proof -
  from assms have "\<exists>ys zs. xs = ys @ zs \<and> smap_emplace lt k v xs = ys @ (k, v) # zs \<and>
      (\<forall>y\<in>fst ` set ys. lt y k) \<and> (\<forall>z\<in>fst ` set zs. lt k z)"
  proof (induction xs)
    case (Cons x xs)
    obtain k' v' where x: "x = (k', v')" by (cases x)
    show ?case
    proof (cases "lt k k'")
      case True
      with Cons.prems x have "x # xs = [] @ x # xs \<and>
          smap_emplace lt k v (x # xs) = [] @ (k, v) # x # xs \<and>
          (\<forall>y\<in>fst ` set []. lt y k) \<and> (\<forall>z\<in>fst ` set (x # xs). lt k z)"
        by (auto intro: trans)
      then show ?thesis by (intro exI [of _ "[]"] exI [of _ "x # xs"])
    next
      case False
      with Cons.prems x total [of k k'] have "lt k' k" by simp
      from Cons.prems x have "sorted_wrt lt (map fst xs)" "k \<notin> fst ` set xs" by simp_all
      with Cons.IH obtain ys zs where ih: "xs = ys @ zs"
        "smap_emplace lt k v xs = ys @ (k, v) # zs"
        "\<forall>y\<in>fst ` set ys. lt y k" "\<forall>z\<in>fst ` set zs. lt k z" by blast
      have "smap_emplace lt k v (x # xs) = (x # ys) @ (k, v) # zs"
        using False Cons.prems x ih(2) by auto
      moreover have "\<forall>y\<in>fst ` set (x # ys). lt y k"
        using ih(3) x \<open>lt k' k\<close> by simp
      ultimately show ?thesis using ih(1,4) by (metis append_Cons)
    qed
  qed simp
  with that show thesis by blast
qed

lemma sorted_append:
  "sorted_wrt lt (ks @ ks') \<longleftrightarrow>
     sorted_wrt lt ks \<and> sorted_wrt lt ks' \<and> (\<forall>a\<in>set ks. \<forall>b\<in>set ks'. lt a b)"
  by (rule sorted_wrt_append)

lemma erase_sorted: "sorted_wrt lt (map fst xs) \<Longrightarrow> sorted_wrt lt (map fst (smap_erase k xs))"
  by (simp add: keys_smap_erase sorted_wrt_filter)

end

end
