(* ===== verification/Mpsc_Queue.thy ===== *)
theory Mpsc_Queue
  imports Prelude "HOL-Library.Monad_Syntax"
begin

text \<open>
  \<^verbatim>\<open>src/common/mpsc_queue.h\<close>: the lock-free queue between the network threads and the engine thread.  The
  nodes live in a heap of allocated addresses; each access to shared memory is one action, the
  actions of any number of producers and of the consumer interleave, and an access to a node that is not
  allocated is \<open>None\<close>.  Actions are atomic and seen by all threads in one order, which the
  release/acquire orderings of the code provide for the accesses that matter here (the node's contents
  before its publication in \<^verbatim>\<open>prev->next\<close>).
\<close>

section \<open>The queue and its memory accesses\<close>

record 'a Node =
  node_data :: 'a
  node_next :: "nat option"

record 'a MPSCQueue =
  mq_nodes :: "nat \<rightharpoonup> 'a Node"
  mq_head :: nat
  mq_tail :: nat

definition MPSCQueue_new :: "'a \<Rightarrow> nat \<Rightarrow> 'a MPSCQueue" where
  "MPSCQueue_new default_data sentinel =
     \<lparr>mq_nodes = Map.empty(sentinel \<mapsto> \<lparr>node_data = default_data, node_next = None\<rparr>), mq_head = sentinel, mq_tail = sentinel\<rparr>"

definition new_node :: "nat \<Rightarrow> 'a \<Rightarrow> 'a MPSCQueue \<Rightarrow> 'a MPSCQueue" where
  "new_node n v q = q\<lparr>mq_nodes := (mq_nodes q)(n \<mapsto> \<lparr>node_data = v, node_next = None\<rparr>)\<rparr>"

definition exchange_head :: "nat \<Rightarrow> 'a MPSCQueue \<Rightarrow> nat \<times> 'a MPSCQueue" where
  "exchange_head n q = (mq_head q, q\<lparr>mq_head := n\<rparr>)"

definition store_next :: "nat \<Rightarrow> nat \<Rightarrow> 'a MPSCQueue \<Rightarrow> 'a MPSCQueue option" where
  "store_next prev n q = do {
     nd \<leftarrow> mq_nodes q prev;
     Some (q\<lparr>mq_nodes := (mq_nodes q)(prev \<mapsto> nd\<lparr>node_next := Some n\<rparr>)\<rparr>)
   }"

definition load_next :: "nat \<Rightarrow> 'a MPSCQueue \<Rightarrow> nat option option" where
  "load_next n q = map_option node_next (mq_nodes q n)"

definition take_data :: "nat \<Rightarrow> 'a MPSCQueue \<Rightarrow> ('a \<times> 'a MPSCQueue) option" where
  "take_data n q = map_option (\<lambda>nd. (node_data nd, q\<lparr>mq_tail := n\<rparr>)) (mq_nodes q n)"

definition delete_node :: "nat \<Rightarrow> 'a MPSCQueue \<Rightarrow> 'a MPSCQueue option" where
  "delete_node n q = (if n \<in> dom (mq_nodes q) then Some (q\<lparr>mq_nodes := (mq_nodes q)(n := None)\<rparr>) else None)"

section \<open>The operations, run without interruption\<close>

definition pushNode :: "nat \<Rightarrow> 'a MPSCQueue \<Rightarrow> 'a MPSCQueue option" where
  "pushNode n q = (let (prev, q) = exchange_head n q in store_next prev n q)"

text \<open>\<open>n\<close> is the address of the node that \<^verbatim>\<open>new\<close> returns.\<close>

definition mpsc_push :: "nat \<Rightarrow> 'a \<Rightarrow> 'a MPSCQueue \<Rightarrow> 'a MPSCQueue option" where
  "mpsc_push n v q = pushNode n (new_node n v q)"

definition mpsc_tryPop :: "'a MPSCQueue \<Rightarrow> ('a option \<times> 'a MPSCQueue) option" where
  "mpsc_tryPop q = do {
     let sentinel = mq_tail q;
     nx \<leftarrow> load_next sentinel q;
     (case nx of
        None \<Rightarrow> Some (None, q)
      | Some n \<Rightarrow> do {
          (v, q) \<leftarrow> take_data n q;
          q \<leftarrow> delete_node sentinel q;
          Some (Some v, q)
        })
   }"

definition mpsc_empty :: "'a MPSCQueue \<Rightarrow> bool option" where
  "mpsc_empty q = map_option (\<lambda>nx. nx = None) (load_next (mq_tail q) q)"

text \<open>The consumer's loop that pops until nothing is left, and the destructor.\<close>

partial_function (option) mpsc_drain :: "'a MPSCQueue \<Rightarrow> ('a list \<times> 'a MPSCQueue) option" where
  "mpsc_drain q = do {
     (v, q) \<leftarrow> mpsc_tryPop q;
     (case v of
        None \<Rightarrow> Some ([], q)
      | Some x \<Rightarrow> do { (xs, q) \<leftarrow> mpsc_drain q; Some (x # xs, q) })
   }"

definition mpsc_destroy :: "'a MPSCQueue \<Rightarrow> 'a MPSCQueue option" where
  "mpsc_destroy q = do { (xs, q) \<leftarrow> mpsc_drain q; delete_node (mq_tail q) q }"

section \<open>Interleavings\<close>

text \<open>Where a producer is in \<^verbatim>\<open>push\<close>, and the consumer in \<^verbatim>\<open>tryPop\<close>.\<close>

datatype producer = Idle | Created nat | Swapped nat nat
datatype consumer = Ready | Loaded nat nat | Taken nat

text \<open>\<open>pushed\<close> and \<open>popped\<close> record the values in the order of the exchanges and of the pops.\<close>

record 'a mpsc =
  mq :: "'a MPSCQueue"
  producers :: "nat \<Rightarrow> producer"
  consumer :: consumer
  pushed :: "'a list"
  popped :: "'a list"

datatype 'a mpsc_action = NewNode nat nat 'a | SwapHead nat | LinkNext nat | LoadNext | TakeData | FreeNode

fun may_act :: "'a mpsc_action \<Rightarrow> 'a mpsc \<Rightarrow> bool" where
  "may_act (NewNode p n v) s \<longleftrightarrow> producers s p = Idle \<and> n \<notin> dom (mq_nodes (mq s))"
| "may_act (SwapHead p) s \<longleftrightarrow> (case producers s p of Created n \<Rightarrow> True | _ \<Rightarrow> False)"
| "may_act (LinkNext p) s \<longleftrightarrow> (case producers s p of Swapped a n \<Rightarrow> True | _ \<Rightarrow> False)"
| "may_act LoadNext s \<longleftrightarrow> consumer s = Ready"
| "may_act TakeData s \<longleftrightarrow> (case consumer s of Loaded t n \<Rightarrow> True | _ \<Rightarrow> False)"
| "may_act FreeNode s \<longleftrightarrow> (case consumer s of Taken t \<Rightarrow> True | _ \<Rightarrow> False)"

fun act :: "'a mpsc_action \<Rightarrow> 'a mpsc \<Rightarrow> 'a mpsc option" where
  "act (NewNode p n v) s = Some (s\<lparr>mq := new_node n v (mq s), producers := (producers s)(p := Created n)\<rparr>)"
| "act (SwapHead p) s = (case producers s p of
     Created n \<Rightarrow> do {
       let (prev, q) = exchange_head n (mq s);
       nd \<leftarrow> mq_nodes q n;
       Some (s\<lparr>mq := q, producers := (producers s)(p := Swapped prev n), pushed := pushed s @ [node_data nd]\<rparr>)
     } | _ \<Rightarrow> None)"
| "act (LinkNext p) s = (case producers s p of
     Swapped prev n \<Rightarrow> do {
       q \<leftarrow> store_next prev n (mq s);
       Some (s\<lparr>mq := q, producers := (producers s)(p := Idle)\<rparr>)
     } | _ \<Rightarrow> None)"
| "act LoadNext s = do {
     nx \<leftarrow> load_next (mq_tail (mq s)) (mq s);
     Some (case nx of None \<Rightarrow> s | Some n \<Rightarrow> s\<lparr>consumer := Loaded (mq_tail (mq s)) n\<rparr>)
   }"
| "act TakeData s = (case consumer s of
     Loaded t n \<Rightarrow> do {
       (v, q) \<leftarrow> take_data n (mq s);
       Some (s\<lparr>mq := q, consumer := Taken t, popped := popped s @ [v]\<rparr>)
     } | _ \<Rightarrow> None)"
| "act FreeNode s = (case consumer s of
     Taken t \<Rightarrow> do {
       q \<leftarrow> delete_node t (mq s);
       Some (s\<lparr>mq := q, consumer := Ready\<rparr>)
     } | _ \<Rightarrow> None)"

definition mpsc_start :: "'a \<Rightarrow> nat \<Rightarrow> 'a mpsc" where
  "mpsc_start d n = \<lparr>mq = MPSCQueue_new d n, producers = (\<lambda>_. Idle), consumer = Ready, pushed = [], popped = []\<rparr>"

inductive mpsc_reach :: "'a mpsc \<Rightarrow> bool" where
  mpsc_init: "mpsc_reach (mpsc_start d n)"
| mpsc_act: "mpsc_reach s \<Longrightarrow> may_act a s \<Longrightarrow> act a s = Some s' \<Longrightarrow> mpsc_reach s'"

text \<open>A given sequence of actions; \<open>None\<close> if a thread is not where the action belongs.\<close>

fun run_actions :: "'a mpsc_action list \<Rightarrow> 'a mpsc \<Rightarrow> 'a mpsc option" where
  "run_actions [] s = Some s"
| "run_actions (a # as) s = (if may_act a s then do { s \<leftarrow> act a s; run_actions as s } else None)"

lemma run_actions_reach: "mpsc_reach s \<Longrightarrow> run_actions as s = Some s' \<Longrightarrow> mpsc_reach s'"
  by (induction as arbitrary: s) (auto simp: bind_eq_Some_conv split: if_splits intro: mpsc_act)

section \<open>The invariant\<close>

definition nxt :: "'a mpsc \<Rightarrow> nat \<Rightarrow> nat option" where
  "nxt s n = Option.bind (mq_nodes (mq s) n) node_next"

text \<open>
  \<open>ns\<close>: the nodes from the sentinel to the newest one, in the order of the exchanges.  Each points to
  the following one, or its producer is about to make it so.
\<close>

definition list_ok :: "'a mpsc \<Rightarrow> nat list \<Rightarrow> bool" where
  "list_ok s ns \<longleftrightarrow> distinct ns \<and> ns \<noteq> [] \<and> hd ns = mq_tail (mq s) \<and> last ns = mq_head (mq s) \<and>
     set ns \<subseteq> dom (mq_nodes (mq s)) \<and> nxt s (last ns) = None"

definition links_ok :: "'a mpsc \<Rightarrow> nat list \<Rightarrow> bool" where
  "links_ok s ns \<longleftrightarrow> (\<forall>i. Suc i < length ns \<longrightarrow> nxt s (ns ! i) = Some (ns ! Suc i) \<or>
     nxt s (ns ! i) = None \<and> (\<exists>p. producers s p = Swapped (ns ! i) (ns ! Suc i)))"

definition created_ok :: "'a mpsc \<Rightarrow> nat list \<Rightarrow> bool" where
  "created_ok s ns \<longleftrightarrow> (\<forall>p n. producers s p = Created n \<longrightarrow> n \<in> dom (mq_nodes (mq s)) \<and> n \<notin> set ns \<and>
     nxt s n = None \<and> (\<forall>r. producers s r = Created n \<longrightarrow> r = p))"

definition swapped_ok :: "'a mpsc \<Rightarrow> nat list \<Rightarrow> bool" where
  "swapped_ok s ns \<longleftrightarrow> (\<forall>p a b. producers s p = Swapped a b \<longrightarrow> nxt s a = None \<and>
     (\<exists>i. Suc i < length ns \<and> a = ns ! i \<and> b = ns ! Suc i) \<and> (\<forall>r c. producers s r = Swapped a c \<longrightarrow> r = p))"

definition consumer_ok :: "'a mpsc \<Rightarrow> nat list \<Rightarrow> bool" where
  "consumer_ok s ns \<longleftrightarrow> (case consumer s of Ready \<Rightarrow> True
     | Loaded t n \<Rightarrow> t = hd ns \<and> nxt s t = Some n
     | Taken t \<Rightarrow> t \<in> dom (mq_nodes (mq s)) \<and> t \<notin> set ns \<and> (\<forall>p. producers s p \<noteq> Created t))"

definition contents :: "'a mpsc \<Rightarrow> nat list \<Rightarrow> 'a list" where
  "contents s ns = map (\<lambda>n. node_data (the (mq_nodes (mq s) n))) (tl ns)"

definition no_leak :: "'a mpsc \<Rightarrow> nat list \<Rightarrow> bool" where
  "no_leak s ns \<longleftrightarrow> dom (mq_nodes (mq s)) \<subseteq> set ns \<union> {n. \<exists>p. producers s p = Created n} \<union> {t. consumer s = Taken t}"

definition mpsc_inv :: "'a mpsc \<Rightarrow> nat list \<Rightarrow> bool" where
  "mpsc_inv s ns \<longleftrightarrow> list_ok s ns \<and> links_ok s ns \<and> created_ok s ns \<and> swapped_ok s ns \<and> consumer_ok s ns \<and>
     no_leak s ns \<and> pushed s = popped s @ contents s ns"

lemmas mpsc_inv_defs = mpsc_inv_def list_ok_def links_ok_def created_ok_def swapped_ok_def consumer_ok_def no_leak_def

lemma no_leak_step:
  assumes "mpsc_inv s ns" and "dom (mq_nodes (mq s')) = dom (mq_nodes (mq s))" and "consumer s' = consumer s"
    and "set ns \<subseteq> set ns'" and "\<And>r m. producers s r = Created m \<Longrightarrow> m \<notin> set ns' \<Longrightarrow> producers s' r = Created m"
  shows "no_leak s' ns'"
  unfolding no_leak_def
proof
  fix m assume "m \<in> dom (mq_nodes (mq s'))"
  then have "m \<in> set ns \<or> (\<exists>r. producers s r = Created m) \<or> consumer s = Taken m"
    using assms(1,2) by (auto simp: mpsc_inv_def no_leak_def)
  then show "m \<in> set ns' \<union> {n. \<exists>p. producers s' p = Created n} \<union> {t. consumer s' = Taken t}"
    using assms(3-5) by (cases "m \<in> set ns'") auto
qed

lemma start_inv: "mpsc_inv (mpsc_start d n) [n]"
  by (simp add: mpsc_inv_defs contents_def nxt_def mpsc_start_def MPSCQueue_new_def)

lemma new_inv:
  assumes inv: "mpsc_inv s ns" and m: "may_act (NewNode p n v) s" and a: "act (NewNode p n v) s = Some s'"
  shows "mpsc_inv s' ns"
proof -
  have s': "s' = s\<lparr>mq := new_node n v (mq s), producers := (producers s)(p := Created n)\<rparr>" using a by simp
  have n: "n \<notin> dom (mq_nodes (mq s))" "producers s p = Idle" using m by simp_all
  have nxt: "nxt s' m = nxt s m" for m using n(1) by (auto simp: s' nxt_def new_node_def domIff)
  have ns: "n \<notin> set ns" using inv n(1) by (auto simp: mpsc_inv_defs)
  have nodes: "mq_nodes (mq s') = (mq_nodes (mq s))(n \<mapsto> \<lparr>node_data = v, node_next = None\<rparr>)"
    "mq_tail (mq s') = mq_tail (mq s)" "mq_head (mq s') = mq_head (mq s)" "producers s' = (producers s)(p := Created n)"
    "consumer s' = consumer s" "pushed s' = pushed s" "popped s' = popped s"
    by (simp_all add: s' new_node_def)
  have "list_ok s' ns" using inv by (auto simp: mpsc_inv_def list_ok_def nodes nxt)
  moreover have "links_ok s' ns" using inv n(2) unfolding mpsc_inv_def links_ok_def nxt nodes
    by (metis fun_upd_apply producer.distinct(3))
  moreover have "created_ok s' ns" using inv n ns by (auto simp: mpsc_inv_def created_ok_def nodes nxt) (auto simp: nxt_def domIff)
  moreover have "swapped_ok s' ns" using inv n(2) unfolding mpsc_inv_def swapped_ok_def nxt nodes
    by (auto split: if_splits)
  moreover have "consumer_ok s' ns" using inv n(1) unfolding mpsc_inv_def consumer_ok_def nxt nodes
    by (auto split: consumer.splits)
  moreover have "no_leak s' ns"
  proof -
    have "producers s' r = Created m" if "producers s r = Created m" for r m using that n(2) by (auto simp: nodes)
    moreover have "producers s' p = Created n" by (simp add: nodes)
    ultimately show ?thesis using inv unfolding mpsc_inv_def no_leak_def nodes(1,5) by (simp add: subset_iff) blast
  qed
  moreover have "contents s' ns = contents s ns" using ns by (cases ns) (auto simp: contents_def nodes)
  ultimately show ?thesis using inv by (simp add: mpsc_inv_def nodes)
qed

lemma swap_inv:
  assumes inv: "mpsc_inv s ns" and p: "producers s p = Created n"
  shows "\<exists>s'. act (SwapHead p) s = Some s' \<and> mpsc_inv s' (ns @ [n])"
proof -
  note l = inv [unfolded mpsc_inv_def, THEN conjunct1, unfolded list_ok_def]
  have c: "n \<in> dom (mq_nodes (mq s))" "n \<notin> set ns" "nxt s n = None" "\<forall>r. producers s r = Created n \<longrightarrow> r = p"
    using inv p by (auto simp: mpsc_inv_def created_ok_def)
  then obtain nd where nd: "mq_nodes (mq s) n = Some nd" by blast
  let ?s = "s\<lparr>mq := (mq s)\<lparr>mq_head := n\<rparr>, producers := (producers s)(p := Swapped (mq_head (mq s)) n),
     pushed := pushed s @ [node_data nd]\<rparr>"
  have nxt: "nxt ?s m = nxt s m" for m by (simp add: nxt_def)
  have li: "ns ! i = last ns \<longleftrightarrow> Suc i = length ns" if "i < length ns" for i
    using l that nth_eq_iff_index_eq [of ns i "length ns - 1"] by (auto simp: last_conv_nth)
  have sw: "\<exists>i. Suc i < length ns \<and> a = ns ! i \<and> b = ns ! Suc i" "nxt s a = None" "producers s r' = Swapped a c \<Longrightarrow> r' = r"
    if "producers s r = Swapped a b" for r r' a b c
    using inv that unfolding mpsc_inv_def swapped_ok_def by blast+
  have "list_ok ?s (ns @ [n])" using l c nxt by (auto simp: list_ok_def)
  moreover have "links_ok ?s (ns @ [n])"
    unfolding links_ok_def nxt
  proof (intro allI impI)
    fix i assume i: "Suc i < length (ns @ [n])"
    show "nxt s ((ns @ [n]) ! i) = Some ((ns @ [n]) ! Suc i) \<or> nxt s ((ns @ [n]) ! i) = None \<and>
        (\<exists>r. producers ?s r = Swapped ((ns @ [n]) ! i) ((ns @ [n]) ! Suc i))"
    proof (cases "Suc i < length ns")
      case True
      then have "nxt s (ns ! i) = Some (ns ! Suc i) \<or> nxt s (ns ! i) = None \<and> (\<exists>r. producers s r = Swapped (ns ! i) (ns ! Suc i))"
        using inv by (simp add: mpsc_inv_def links_ok_def)
      then show ?thesis using True p by (auto simp: nth_append) (metis producer.distinct(5))
    next
      case False
      with i have "Suc i = length ns" by simp
      moreover from this have "ns ! i = last ns" using li [of i] by simp
      ultimately show ?thesis using l by (auto simp: nth_append)
    qed
  qed
  moreover have "created_ok ?s (ns @ [n])"
    using inv c p unfolding mpsc_inv_def created_ok_def nxt by (auto split: if_splits)
  moreover have "swapped_ok ?s (ns @ [n])"
    unfolding swapped_ok_def nxt
  proof (intro allI impI)
    fix r a b assume r: "producers ?s r = Swapped a b"
    have notlast: "a' \<noteq> last ns" if "producers s r' = Swapped a' b'" for r' a' b' using sw(1) [OF that] li by fastforce
    show "nxt s a = None \<and> (\<exists>i. Suc i < length (ns @ [n]) \<and> a = (ns @ [n]) ! i \<and> b = (ns @ [n]) ! Suc i) \<and>
        (\<forall>r' c. producers ?s r' = Swapped a c \<longrightarrow> r' = r)"
    proof (cases "r = p")
      case True
      then have ab: "a = last ns" "b = n" using r l by simp_all
      have "a = (ns @ [n]) ! (length ns - 1) \<and> b = (ns @ [n]) ! Suc (length ns - 1) \<and> Suc (length ns - 1) < length (ns @ [n])"
        using ab l by (auto simp: nth_append last_conv_nth)
      moreover have "\<forall>r' c. producers ?s r' = Swapped a c \<longrightarrow> r' = r" using notlast ab(1) True by auto
      moreover have "nxt s a = None" using l ab(1) by metis
      ultimately show ?thesis by blast
    next
      case False
      then have r': "producers s r = Swapped a b" using r by simp
      then obtain i where i: "Suc i < length ns" "a = ns ! i" "b = ns ! Suc i" using sw(1) by blast
      then have "Suc i < length (ns @ [n]) \<and> a = (ns @ [n]) ! i \<and> b = (ns @ [n]) ! Suc i" by (auto simp: nth_append)
      moreover have "\<forall>r' c. producers ?s r' = Swapped a c \<longrightarrow> r' = r" using sw(3) [OF r'] notlast [OF r'] l by auto
      ultimately show ?thesis using sw(2) [OF r'] by blast
    qed
  qed
  moreover have "consumer_ok ?s (ns @ [n])"
    using inv p l unfolding mpsc_inv_def consumer_ok_def nxt by (auto split: consumer.splits if_splits)
  moreover have "no_leak ?s (ns @ [n])"
    by (rule no_leak_step [OF inv]) (use p in auto)
  moreover have "contents ?s (ns @ [n]) = contents s ns @ [node_data nd]" using l nd by (simp add: contents_def)
  moreover have "act (SwapHead p) s = Some ?s" using p nd by (simp add: exchange_head_def)
  ultimately show ?thesis using inv by (auto simp: mpsc_inv_def)
qed

lemma link_inv:
  assumes inv: "mpsc_inv s ns" and p: "producers s p = Swapped a b"
  shows "\<exists>s'. act (LinkNext p) s = Some s' \<and> mpsc_inv s' ns"
proof -
  note l = inv [unfolded mpsc_inv_def, THEN conjunct1, unfolded list_ok_def]
  obtain i where i: "Suc i < length ns" "a = ns ! i" "b = ns ! Suc i" and na: "nxt s a = None"
    and un: "\<forall>r c. producers s r = Swapped a c \<longrightarrow> r = p"
    using inv p unfolding mpsc_inv_def swapped_ok_def by blast
  have a: "a \<in> set ns" using i by simp
  then obtain nd where nd: "mq_nodes (mq s) a = Some nd" using l by blast
  let ?s = "s\<lparr>mq := (mq s)\<lparr>mq_nodes := (mq_nodes (mq s))(a \<mapsto> nd\<lparr>node_next := Some b\<rparr>)\<rparr>, producers := (producers s)(p := Idle)\<rparr>"
  have nxt: "nxt ?s m = (if m = a then Some b else nxt s m)" for m by (simp add: nxt_def)
  have dom: "dom (mq_nodes (mq ?s)) = dom (mq_nodes (mq s))" using nd by auto
  have "a \<noteq> last ns" using i l nth_eq_iff_index_eq [of ns i "length ns - 1"] by (auto simp: last_conv_nth)
  then have "list_ok ?s ns" using l unfolding list_ok_def nxt dom by auto
  moreover have "links_ok ?s ns"
    unfolding links_ok_def nxt
  proof (intro allI impI)
    fix j assume j: "Suc j < length ns"
    show "(if ns ! j = a then Some b else nxt s (ns ! j)) = Some (ns ! Suc j) \<or>
      (if ns ! j = a then Some b else nxt s (ns ! j)) = None \<and> (\<exists>r. producers ?s r = Swapped (ns ! j) (ns ! Suc j))"
    proof (cases "ns ! j = a")
      case True
      then have "j = i" using i j l nth_eq_iff_index_eq [of ns j i] by simp
      then show ?thesis using i by simp
    next
      case False
      have "nxt s (ns ! j) = Some (ns ! Suc j) \<or> nxt s (ns ! j) = None \<and> (\<exists>r. producers s r = Swapped (ns ! j) (ns ! Suc j))"
        using inv j by (simp add: mpsc_inv_def links_ok_def)
      then show ?thesis using False p by auto (metis producer.inject(2))
    qed
  qed
  moreover have "created_ok ?s ns"
    using inv a unfolding mpsc_inv_def created_ok_def nxt dom by (auto split: if_splits)
  moreover have "swapped_ok ?s ns"
    using inv un unfolding mpsc_inv_def swapped_ok_def nxt by (auto split: if_splits)
  moreover have "consumer_ok ?s ns"
    using inv na unfolding mpsc_inv_def consumer_ok_def nxt dom by (auto split: consumer.splits)
  moreover have "no_leak ?s ns"
    by (rule no_leak_step [OF inv dom]) (use p in auto)
  moreover have "contents ?s ns = contents s ns" using nd by (auto simp: contents_def)
  moreover have "act (LinkNext p) s = Some ?s" using p nd by (simp add: store_next_def)
  ultimately show ?thesis using inv by (auto simp: mpsc_inv_def)
qed

lemma load_inv:
  assumes inv: "mpsc_inv s ns" and c: "consumer s = Ready"
  shows "\<exists>s'. act LoadNext s = Some s' \<and> mpsc_inv s' ns \<and>
    s' = (case nxt s (hd ns) of None \<Rightarrow> s | Some n \<Rightarrow> s\<lparr>consumer := Loaded (hd ns) n\<rparr>)"
proof -
  note l = inv [unfolded mpsc_inv_def, THEN conjunct1, unfolded list_ok_def]
  obtain nd where nd: "mq_nodes (mq s) (hd ns) = Some nd" using l by (metis domD hd_in_set subsetD)
  have nx: "nxt s (hd ns) = node_next nd" by (simp add: nxt_def nd)
  have nxt: "nxt (s\<lparr>consumer := c'\<rparr>) = nxt s" "contents (s\<lparr>consumer := c'\<rparr>) = contents s" for c'
    by (auto simp: nxt_def contents_def fun_eq_iff)
  then have "list_ok (s\<lparr>consumer := c'\<rparr>) = list_ok s" "links_ok (s\<lparr>consumer := c'\<rparr>) = links_ok s"
    "created_ok (s\<lparr>consumer := c'\<rparr>) = created_ok s" "swapped_ok (s\<lparr>consumer := c'\<rparr>) = swapped_ok s" for c'
    by (auto simp: fun_eq_iff list_ok_def links_ok_def created_ok_def swapped_ok_def)
  moreover have "no_leak (s\<lparr>consumer := c'\<rparr>) ns" for c' using inv c by (auto simp: mpsc_inv_def no_leak_def)
  ultimately have "mpsc_inv (s\<lparr>consumer := Loaded (hd ns) n\<rparr>) ns" if "nxt s (hd ns) = Some n" for n
    using inv that by (simp add: mpsc_inv_def nxt consumer_ok_def)
  moreover have "act LoadNext s = Some (case nxt s (hd ns) of None \<Rightarrow> s | Some n \<Rightarrow> s\<lparr>consumer := Loaded (hd ns) n\<rparr>)"
    using l nd nx by (simp add: load_next_def split: option.splits)
  ultimately show ?thesis using inv by (cases "nxt s (hd ns)") auto
qed

lemma second_node:
  assumes inv: "mpsc_inv s ns" and n: "nxt s (hd ns) = Some n"
  obtains rest where "ns = hd ns # n # rest"
proof -
  note l = inv [unfolded mpsc_inv_def, THEN conjunct1, unfolded list_ok_def]
  from l obtain t ms where ns: "ns = t # ms" by (cases ns) auto
  show ?thesis
  proof (cases ms)
    case Nil
    then have "nxt s t = None" using l ns by (metis last.simps)
    with n ns show ?thesis by simp
  next
    case (Cons m rest)
    have "nxt s (ns ! 0) = Some (ns ! Suc 0) \<or> nxt s (ns ! 0) = None"
      using inv ns Cons unfolding mpsc_inv_def links_ok_def by (metis One_nat_def Suc_less_eq length_Cons zero_less_Suc)
    then have "m = n" using n ns Cons by auto
    then show ?thesis using ns Cons that by simp
  qed
qed

lemma take_inv:
  assumes inv: "mpsc_inv s ns" and c: "consumer s = Loaded t n"
  shows "\<exists>s'. act TakeData s = Some s' \<and> mpsc_inv s' (tl ns)"
proof -
  note l = inv [unfolded mpsc_inv_def, THEN conjunct1, unfolded list_ok_def]
  have t: "t = hd ns" "nxt s t = Some n" using inv c by (auto simp: mpsc_inv_def consumer_ok_def)
  then obtain rest where ns: "ns = t # n # rest" using second_node [OF inv] by metis
  then obtain nd where nd: "mq_nodes (mq s) n = Some nd" using l by auto
  let ?s = "s\<lparr>mq := (mq s)\<lparr>mq_tail := n\<rparr>, consumer := Taken t, popped := popped s @ [node_data nd]\<rparr>"
  have nxt: "nxt ?s m = nxt s m" for m by (simp add: nxt_def)
  have "list_ok ?s (n # rest)" using l ns unfolding list_ok_def nxt by auto
  moreover have "links_ok ?s (n # rest)"
    unfolding links_ok_def nxt
  proof (intro allI impI)
    fix i assume "Suc i < length (n # rest)"
    then have "Suc (Suc i) < length ns" using ns by simp
    then have "nxt s (ns ! Suc i) = Some (ns ! Suc (Suc i)) \<or>
        nxt s (ns ! Suc i) = None \<and> (\<exists>p. producers s p = Swapped (ns ! Suc i) (ns ! Suc (Suc i)))"
      using inv unfolding mpsc_inv_def links_ok_def by blast
    then show "nxt s ((n # rest) ! i) = Some ((n # rest) ! Suc i) \<or> nxt s ((n # rest) ! i) = None \<and>
        (\<exists>p. producers ?s p = Swapped ((n # rest) ! i) ((n # rest) ! Suc i))" using ns by simp
  qed
  moreover have "created_ok ?s (n # rest)" using inv ns unfolding mpsc_inv_def created_ok_def nxt by auto
  moreover have "swapped_ok ?s (n # rest)"
    unfolding swapped_ok_def nxt
  proof (intro allI impI)
    fix p a b assume "producers ?s p = Swapped a b"
    then have p: "producers s p = Swapped a b" by simp
    then obtain i where i: "Suc i < length ns" "a = ns ! i" "b = ns ! Suc i" and na: "nxt s a = None"
      and un: "\<forall>r c. producers s r = Swapped a c \<longrightarrow> r = p"
      using inv unfolding mpsc_inv_def swapped_ok_def by blast
    have "i \<noteq> 0" using na t(2) i(2) ns by (metis nth_Cons_0 option.distinct(1))
    then obtain j where "i = Suc j" by (cases i) auto
    then have "Suc j < length (n # rest) \<and> a = (n # rest) ! j \<and> b = (n # rest) ! Suc j" using i ns by simp
    with na un show "nxt s a = None \<and> (\<exists>i. Suc i < length (n # rest) \<and> a = (n # rest) ! i \<and> b = (n # rest) ! Suc i) \<and>
        (\<forall>r c. producers ?s r = Swapped a c \<longrightarrow> r = p)" by auto
  qed
  moreover have "consumer_ok ?s (n # rest)" using l inv ns unfolding mpsc_inv_def consumer_ok_def created_ok_def by auto
  moreover have "no_leak ?s (n # rest)" using inv ns c by (auto simp: mpsc_inv_def no_leak_def)
  moreover have "contents s ns = node_data nd # contents ?s (n # rest)" using ns nd by (simp add: contents_def)
  moreover have "act TakeData s = Some ?s" using c nd by (simp add: take_data_def)
  ultimately show ?thesis using inv ns by (auto simp: mpsc_inv_def)
qed

lemma free_inv:
  assumes inv: "mpsc_inv s ns" and c: "consumer s = Taken t"
  shows "\<exists>s'. act FreeNode s = Some s' \<and> mpsc_inv s' ns"
proof -
  note l = inv [unfolded mpsc_inv_def, THEN conjunct1, unfolded list_ok_def]
  have t: "t \<in> dom (mq_nodes (mq s))" "t \<notin> set ns" "\<forall>p. producers s p \<noteq> Created t"
    using inv c by (simp_all add: mpsc_inv_def consumer_ok_def)
  let ?s = "s\<lparr>mq := (mq s)\<lparr>mq_nodes := (mq_nodes (mq s))(t := None)\<rparr>, consumer := Ready\<rparr>"
  have nxt: "nxt ?s m = (if m = t then None else nxt s m)" for m by (simp add: nxt_def)
  have set: "m \<noteq> t" if "m \<in> set ns" for m using that t(2) by blast
  have "list_ok ?s ns" using l t(2) unfolding list_ok_def nxt by auto
  moreover have "links_ok ?s ns"
    using inv set unfolding mpsc_inv_def links_ok_def nxt by (simp add: Suc_lessD)
  moreover have "created_ok ?s ns" using inv t(3) unfolding mpsc_inv_def created_ok_def nxt by auto
  moreover have "swapped_ok ?s ns" using inv unfolding mpsc_inv_def swapped_ok_def nxt by auto
  moreover have "consumer_ok ?s ns" by (simp add: consumer_ok_def)
  moreover have "no_leak ?s ns" using inv c unfolding mpsc_inv_def no_leak_def by auto
  moreover have "contents ?s ns = contents s ns" using t(2) by (cases ns) (auto simp: contents_def)
  moreover have "act FreeNode s = Some ?s" using c t(1) by (simp add: delete_node_def)
  ultimately show ?thesis using inv by (auto simp: mpsc_inv_def)
qed

lemma act_inv:
  assumes inv: "mpsc_inv s ns" and m: "may_act a s"
  shows "\<exists>s' ns'. act a s = Some s' \<and> mpsc_inv s' ns'"
proof (cases a)
  case (NewNode p n v)
  then show ?thesis using new_inv [OF inv] m by fastforce
next
  case (SwapHead p)
  then obtain n where "producers s p = Created n" using m by (auto split: producer.splits)
  then show ?thesis using swap_inv [OF inv] SwapHead by blast
next
  case (LinkNext p)
  then obtain x n where "producers s p = Swapped x n" using m by (auto split: producer.splits)
  then show ?thesis using link_inv [OF inv] LinkNext by blast
next
  case LoadNext
  then show ?thesis using load_inv [OF inv] m by auto
next
  case TakeData
  then obtain t n where "consumer s = Loaded t n" using m by (auto split: consumer.splits)
  then show ?thesis using take_inv [OF inv] TakeData by blast
next
  case FreeNode
  then obtain t where "consumer s = Taken t" using m by (auto split: consumer.splits)
  then show ?thesis using free_inv [OF inv] FreeNode by blast
qed

lemma reach_inv: "mpsc_reach s \<Longrightarrow> \<exists>ns. mpsc_inv s ns"
proof (induction rule: mpsc_reach.induct)
  case (mpsc_init d n)
  then show ?case using start_inv by (rule exI)
next
  case (mpsc_act s a s')
  then show ?case using act_inv by (metis option.inject)
qed

text \<open>
  C10.  The command queue is linearizable and memory safe.  However the producers' and the consumer's accesses
  interleave: the values popped so far are a prefix of the values pushed, in the order of the producers'
  exchanges (none lost, none twice, none out of order); no access touches a node that was freed or not
  yet allocated; and when no push or pop is half done, the consumer finds the queue empty exactly if every
  pushed value has been popped.
\<close>

theorem mpsc_linearizable:
  assumes "mpsc_reach s"
  shows "(\<exists>rest. pushed s = popped s @ rest) \<and> (\<forall>a. may_act a s \<longrightarrow> act a s \<noteq> None) \<and>
    ((\<forall>p. producers s p = Idle) \<and> consumer s = Ready \<longrightarrow> (act LoadNext s = Some s \<longleftrightarrow> popped s = pushed s))"
proof -
  obtain ns where inv: "mpsc_inv s ns" using reach_inv [OF assms] by blast
  have "act LoadNext s = Some s \<longleftrightarrow> popped s = pushed s" if "\<forall>p. producers s p = Idle" "consumer s = Ready"
  proof -
    note load = load_inv [OF inv that(2)]
    show ?thesis
    proof (cases "nxt s (hd ns)")
      case None
      have "ns = [hd ns]"
      proof (rule ccontr)
        assume "ns \<noteq> [hd ns]"
        moreover have "ns \<noteq> []" using inv by (simp add: mpsc_inv_def list_ok_def)
        ultimately obtain t m rest where ns: "ns = t # m # rest" by (metis list.collapse)
        have "Suc 0 < length ns" using ns by simp
        then have "nxt s (ns ! 0) = Some (ns ! Suc 0) \<or> (\<exists>p. producers s p = Swapped (ns ! 0) (ns ! Suc 0))"
          using inv unfolding mpsc_inv_def links_ok_def by blast
        with None ns that(1) show False by simp
      qed
      then have "contents s ns = []" by (metis contents_def list.sel(3) list.simps(8))
      then show ?thesis using load None inv by (auto simp: mpsc_inv_def)
    next
      case (Some n)
      then obtain rest where ns: "ns = hd ns # n # rest" using second_node [OF inv] by blast
      then have "contents s ns \<noteq> []" by (metis contents_def list.discI list.sel(3) map_is_Nil_conv)
      moreover have "s\<lparr>consumer := Loaded (hd ns) n\<rparr> \<noteq> s"
        using that(2) by (metis consumer.distinct(1) mpsc.select_convs(3) mpsc.surjective mpsc.update_convs(3))
      ultimately show ?thesis using load Some inv by (auto simp: mpsc_inv_def)
    qed
  qed
  with inv act_inv [OF inv] show ?thesis by (auto simp: mpsc_inv_def)
qed

text \<open>Two producers in the middle of their pushes, the second one ahead of the first.\<close>

definition ex_race :: "int mpsc" where
  "ex_race = the (run_actions [NewNode 1 10 5, NewNode 2 11 6, SwapHead 2, SwapHead 1, LinkNext 2, LoadNext, TakeData] (mpsc_start 0 0))"

lemma ex_race_run:
  "run_actions [NewNode 1 10 5, NewNode 2 11 6, SwapHead 2, SwapHead 1, LinkNext 2, LoadNext, TakeData] (mpsc_start 0 0) = Some ex_race"
  by (simp add: ex_race_def mpsc_start_def MPSCQueue_new_def new_node_def exchange_head_def store_next_def load_next_def take_data_def)

lemma ex_race_reach: "mpsc_reach ex_race"
  by (rule run_actions_reach [OF mpsc_init ex_race_run])

theorem mpsc_linearizable_witness:
  "mpsc_reach ex_race \<and> pushed ex_race = [6, 5] \<and> popped ex_race = [6] \<and> (\<exists>rest. pushed ex_race = popped ex_race @ rest) \<and>
   act FreeNode ex_race \<noteq> None \<and> act (LinkNext 1) ex_race \<noteq> None"
proof -
  note d = ex_race_def mpsc_start_def MPSCQueue_new_def new_node_def exchange_head_def store_next_def load_next_def take_data_def
  have "may_act FreeNode ex_race" "may_act (LinkNext 1) ex_race" "pushed ex_race = [6, 5]" "popped ex_race = [6]"
    by (simp_all add: d)
  with mpsc_linearizable [OF ex_race_reach] ex_race_reach show ?thesis by blast
qed

section \<open>Whole operations\<close>

text \<open>The queue at rest, holding \<open>xs\<close>; the gateway's model keeps just \<open>xs\<close>.\<close>

definition at_rest :: "'a MPSCQueue \<Rightarrow> 'a list \<Rightarrow> 'a mpsc" where
  "at_rest q xs = \<lparr>mq = q, producers = (\<lambda>_. Idle), consumer = Ready, pushed = xs, popped = []\<rparr>"

definition queue_holds :: "'a MPSCQueue \<Rightarrow> 'a list \<Rightarrow> bool" where
  "queue_holds q xs \<longleftrightarrow> (\<exists>ns. mpsc_inv (at_rest q xs) ns)"

lemma at_rest_simps [simp]:
  "mq (at_rest q xs) = q" "producers (at_rest q xs) p = Idle" "consumer (at_rest q xs) = Ready"
  "pushed (at_rest q xs) = xs" "popped (at_rest q xs) = []"
  by (simp_all add: at_rest_def)

lemma new_queue_holds: "queue_holds (MPSCQueue_new d n) []"
  using start_inv [of d n] by (auto simp: queue_holds_def at_rest_def mpsc_start_def)

lemma push_holds:
  assumes "queue_holds q xs" and n: "n \<notin> dom (mq_nodes q)"
  shows "\<exists>q'. mpsc_push n v q = Some q' \<and> queue_holds q' (xs @ [v])"
proof -
  obtain ns where inv: "mpsc_inv (at_rest q xs) ns" using assms(1) by (auto simp: queue_holds_def)
  let ?s1 = "(at_rest q xs)\<lparr>mq := new_node n v q, producers := (\<lambda>_. Idle)(0 := Created n)\<rparr>"
  have "mpsc_inv ?s1 ns" by (rule new_inv [OF inv, of 0 n v]) (use n in \<open>simp_all add: at_rest_def\<close>)
  then obtain s2 where s2: "act (SwapHead 0) ?s1 = Some s2" "mpsc_inv s2 (ns @ [n])" using swap_inv [of ?s1 ns 0 n] by auto
  have s2': "s2 = \<lparr>mq = (new_node n v q)\<lparr>mq_head := n\<rparr>, producers = (\<lambda>_. Idle)(0 := Swapped (mq_head q) n),
      consumer = Ready, pushed = xs @ [v], popped = []\<rparr>"
    using s2(1) by (simp add: at_rest_def exchange_head_def new_node_def)
  then obtain s3 where s3: "act (LinkNext 0) s2 = Some s3" "mpsc_inv s3 (ns @ [n])"
    using link_inv [OF s2(2), of 0 "mq_head q" n] by auto
  then obtain q' where q': "store_next (mq_head q) n ((new_node n v q)\<lparr>mq_head := n\<rparr>) = Some q'" "s3 = at_rest q' (xs @ [v])"
    by (auto simp: s2' at_rest_def bind_eq_Some_conv fun_eq_iff)
  then have "mpsc_push n v q = Some q'" by (simp add: mpsc_push_def pushNode_def exchange_head_def new_node_def)
  then show ?thesis using s3(2) q'(2) by (auto simp: queue_holds_def)
qed

lemma drop_popped:
  "mpsc_inv s ns \<Longrightarrow> pushed s = popped s @ xs \<Longrightarrow> mpsc_inv (s\<lparr>pushed := xs, popped := []\<rparr>) ns"
proof -
  have "nxt (s\<lparr>pushed := xs, popped := []\<rparr>) = nxt s" "contents (s\<lparr>pushed := xs, popped := []\<rparr>) = contents s"
    by (auto simp: nxt_def contents_def fun_eq_iff)
  then have "list_ok (s\<lparr>pushed := xs, popped := []\<rparr>) ns = list_ok s ns" "links_ok (s\<lparr>pushed := xs, popped := []\<rparr>) ns = links_ok s ns"
    "created_ok (s\<lparr>pushed := xs, popped := []\<rparr>) ns = created_ok s ns" "swapped_ok (s\<lparr>pushed := xs, popped := []\<rparr>) ns = swapped_ok s ns"
    "consumer_ok (s\<lparr>pushed := xs, popped := []\<rparr>) ns = consumer_ok s ns" "no_leak (s\<lparr>pushed := xs, popped := []\<rparr>) ns = no_leak s ns"
    "contents (s\<lparr>pushed := xs, popped := []\<rparr>) ns = contents s ns"
    by (simp_all add: list_ok_def links_ok_def created_ok_def swapped_ok_def consumer_ok_def no_leak_def cong: consumer.case_cong)
  then show "mpsc_inv s ns \<Longrightarrow> pushed s = popped s @ xs \<Longrightarrow> ?thesis" by (simp add: mpsc_inv_def)
qed

lemma rest_next:
  assumes "mpsc_inv (at_rest q xs) ns"
  shows "load_next (mq_tail q) q = Some (nxt (at_rest q xs) (hd ns))" and "hd ns = mq_tail q"
    and "nxt (at_rest q xs) (hd ns) = None \<longleftrightarrow> xs = []"
proof -
  have l: "hd ns = mq_tail q" "ns \<noteq> []" "set ns \<subseteq> dom (mq_nodes q)" "nxt (at_rest q xs) (last ns) = None"
    using assms by (auto simp: mpsc_inv_def list_ok_def)
  then obtain nd where "mq_nodes q (hd ns) = Some nd" by (metis domD hd_in_set subsetD)
  then show "load_next (mq_tail q) q = Some (nxt (at_rest q xs) (hd ns))" by (simp add: load_next_def nxt_def flip: l(1))
  show "hd ns = mq_tail q" by fact
  have xs: "xs = contents (at_rest q xs) ns" using assms by (simp add: mpsc_inv_def)
  obtain t ms where ns: "ns = t # ms" using l(2) by (cases ns) auto
  show "nxt (at_rest q xs) (hd ns) = None \<longleftrightarrow> xs = []"
  proof (cases ms)
    case Nil
    then show ?thesis using l(4) ns xs by (auto simp: contents_def)
  next
    case (Cons m rest)
    have "Suc 0 < length ns" using ns Cons by simp
    then have "nxt (at_rest q xs) (ns ! 0) = Some (ns ! Suc 0)" using assms unfolding mpsc_inv_def links_ok_def by fastforce
    moreover have "xs \<noteq> []" using ns Cons by (subst xs) (simp add: contents_def)
    ultimately show ?thesis using ns by simp
  qed
qed

lemma pop_empty:
  assumes "queue_holds q []"
  shows "mpsc_tryPop q = Some (None, q)"
proof -
  obtain ns where "mpsc_inv (at_rest q []) ns" using assms by (auto simp: queue_holds_def)
  from rest_next(1,3) [OF this] show ?thesis by (simp add: mpsc_tryPop_def)
qed

lemma pop_first:
  assumes "queue_holds q (x # xs)"
  shows "\<exists>q'. mpsc_tryPop q = Some (Some x, q') \<and> queue_holds q' xs"
proof -
  let ?s = "at_rest q (x # xs)"
  obtain ns where inv: "mpsc_inv ?s ns" using assms by (auto simp: queue_holds_def)
  note r = rest_next [OF inv]
  then obtain n where n: "nxt ?s (hd ns) = Some n" by auto
  obtain s1 where s1: "mpsc_inv s1 ns" "s1 = ?s\<lparr>consumer := Loaded (hd ns) n\<rparr>"
    using load_inv [OF inv at_rest_simps(3)] n by auto
  then obtain s2 where s2: "act TakeData s1 = Some s2" "mpsc_inv s2 (tl ns)" using take_inv [OF s1(1), of "hd ns" n] by auto
  then obtain v q1 where t: "take_data n q = Some (v, q1)"
    and s2': "s2 = \<lparr>mq = q1, producers = (\<lambda>_. Idle), consumer = Taken (hd ns), pushed = x # xs, popped = [v]\<rparr>"
    using s1(2) by (auto simp: at_rest_def bind_eq_Some_conv)
  from s2(2) have v: "x = v" and rest: "xs = contents s2 (tl ns)" by (auto simp: mpsc_inv_def s2')
  obtain s3 where s3: "act FreeNode s2 = Some s3" "mpsc_inv s3 (tl ns)" using free_inv [OF s2(2), of "hd ns"] s2' by auto
  then obtain q' where d: "delete_node (hd ns) q1 = Some q'"
    and s3': "s3 = \<lparr>mq = q', producers = (\<lambda>_. Idle), consumer = Ready, pushed = x # xs, popped = [v]\<rparr>"
    by (auto simp: s2' bind_eq_Some_conv)
  have "mpsc_inv (at_rest q' xs) (tl ns)" using drop_popped [OF s3(2), of xs] v by (simp add: s3' at_rest_def)
  moreover have "mpsc_tryPop q = Some (Some x, q')" using r n t d v by (simp add: mpsc_tryPop_def)
  ultimately show ?thesis by (auto simp: queue_holds_def)
qed

lemma drain_holds: "queue_holds q xs \<Longrightarrow> \<exists>q'. mpsc_drain q = Some (xs, q') \<and> queue_holds q' []"
proof (induction xs arbitrary: q)
  case Nil
  have "mpsc_drain q = Some ([], q)" by (subst mpsc_drain.simps) (simp add: pop_empty [OF Nil])
  then show ?case using Nil by blast
next
  case (Cons x xs)
  obtain q1 where 1: "mpsc_tryPop q = Some (Some x, q1)" "queue_holds q1 xs" using pop_first [OF Cons.prems] by blast
  obtain q' where "mpsc_drain q1 = Some (xs, q')" "queue_holds q' []" using Cons.IH [OF 1(2)] by blast
  moreover from this 1 have "mpsc_drain q = Some (x # xs, q')" by (subst mpsc_drain.simps) simp
  ultimately show ?case by blast
qed

lemma destroy_frees:
  assumes "queue_holds q xs"
  shows "\<exists>q'. mpsc_destroy q = Some q' \<and> mq_nodes q' = Map.empty"
proof -
  obtain q1 where 1: "mpsc_drain q = Some (xs, q1)" "queue_holds q1 []" using drain_holds [OF assms] by blast
  then obtain ns where inv: "mpsc_inv (at_rest q1 []) ns" by (auto simp: queue_holds_def)
  have "tl ns = []" using inv by (simp add: mpsc_inv_def contents_def)
  moreover have "ns \<noteq> []" "hd ns = mq_tail q1" "set ns \<subseteq> dom (mq_nodes q1)" "dom (mq_nodes q1) \<subseteq> set ns"
    using inv by (auto simp: mpsc_inv_def list_ok_def no_leak_def)
  ultimately have "dom (mq_nodes q1) = {mq_tail q1}" by (metis list.collapse list.set(1) list.simps(15) subset_antisym)
  then have "delete_node (mq_tail q1) q1 = Some (q1\<lparr>mq_nodes := Map.empty\<rparr>)"
    by (auto simp: delete_node_def fun_eq_iff dom_eq_singleton_conv)
  with 1 show ?thesis by (simp add: mpsc_destroy_def)
qed

lemma dom_push: "mpsc_push n v q = Some q' \<Longrightarrow> dom (mq_nodes q') = insert n (dom (mq_nodes q))"
  by (auto simp: mpsc_push_def pushNode_def exchange_head_def store_next_def new_node_def bind_eq_Some_conv split: if_splits)

fun mpsc_pushes :: "(nat \<times> 'a) list \<Rightarrow> 'a MPSCQueue \<Rightarrow> 'a MPSCQueue option" where
  "mpsc_pushes [] q = Some q"
| "mpsc_pushes ((n, v) # ps) q = do { q \<leftarrow> mpsc_push n v q; mpsc_pushes ps q }"

lemma pushes_hold:
  "queue_holds q xs \<Longrightarrow> distinct (map fst ps) \<Longrightarrow> dom (mq_nodes q) \<inter> set (map fst ps) = {} \<Longrightarrow>
     \<exists>q'. mpsc_pushes ps q = Some q' \<and> queue_holds q' (xs @ map snd ps)"
proof (induction ps arbitrary: q xs)
  case (Cons p ps)
  obtain n v where p: "p = (n, v)" by (cases p)
  then have "n \<notin> dom (mq_nodes q)" using Cons.prems(3) by auto
  then obtain q1 where 1: "mpsc_push n v q = Some q1" "queue_holds q1 (xs @ [v])" using push_holds [OF Cons.prems(1)] by blast
  then have "dom (mq_nodes q1) \<inter> set (map fst ps) = {}" using Cons.prems(2,3) p by (auto simp: dom_push)
  then obtain q' where "mpsc_pushes ps q1 = Some q'" "queue_holds q' ((xs @ [v]) @ map snd ps)"
    using Cons.IH [OF 1(2)] Cons.prems(2) by auto
  with 1 p show ?case by auto
qed simp

text \<open>
  C11.  Draining terminates and gets everything: after any pushes onto a new queue, the consumer's loop returns
  and yields all values in the order of insertion, and the destructor returns and frees every node.
\<close>

theorem mpsc_delivers:
  assumes "distinct (sentinel # map fst ps)"
  shows "\<exists>q q' q''. mpsc_pushes ps (MPSCQueue_new d sentinel) = Some q \<and> mpsc_drain q = Some (map snd ps, q') \<and>
    mpsc_empty q' = Some True \<and> mpsc_destroy q = Some q'' \<and> mq_nodes q'' = Map.empty"
proof -
  have "dom (mq_nodes (MPSCQueue_new d sentinel)) \<inter> set (map fst ps) = {}" using assms by (auto simp: MPSCQueue_new_def)
  then obtain q where q: "mpsc_pushes ps (MPSCQueue_new d sentinel) = Some q" "queue_holds q (map snd ps)"
    using pushes_hold [OF new_queue_holds, of ps d sentinel] assms by auto
  then obtain q' where q': "mpsc_drain q = Some (map snd ps, q')" "queue_holds q' []" using drain_holds by blast
  then obtain ns where "mpsc_inv (at_rest q' []) ns" by (auto simp: queue_holds_def)
  from rest_next(1,3) [OF this] have "mpsc_empty q' = Some True" by (simp add: mpsc_empty_def)
  with q q' destroy_frees [OF q(2)] show ?thesis by blast
qed

theorem mpsc_delivers_witness:
  "distinct (0 # map fst [(1 :: nat, ''a''), (2, ''b'')]) \<and>
   (\<exists>q q'. mpsc_pushes [(1, ''a''), (2, ''b'')] (MPSCQueue_new [] 0) = Some q \<and> mpsc_drain q = Some ([''a'', ''b''], q'))"
  using mpsc_delivers [of 0 "[(1, ''a''), (2, ''b'')]" "[]"] by auto

end
