(* ===== verification/Buffer_Pool.thy ===== *)
theory Buffer_Pool
  imports Prelude
begin

text \<open>
  \<^verbatim>\<open>src/common/buffer_pool.h\<close>: the pool of fixed-size buffers with its lock-free free list.

  A thread runs through the atomic actions of \<^verbatim>\<open>acquire\<close> and \<^verbatim>\<open>release\<close> one at a time, so that those of
  different threads interleave in every way.  List nodes are heap objects: an address is either allocated or
  not, \<^verbatim>\<open>new\<close> may return any address that is not, and reading or writing a node that is not allocated is the
  fault \<open>None\<close>.  A compare-and-swap may fail although the value is the expected one.
\<close>

section \<open>State\<close>

record PoolBuffer =
  pb_data :: nat
  pb_capacity :: nat
  pb_length :: nat

record FreeNode =
  fn_buffer :: nat
  fn_next :: "nat option"

text \<open>Where a thread stands: the values of its local variables \<^verbatim>\<open>head\<close>, \<^verbatim>\<open>head->next\<close> and \<^verbatim>\<open>node\<close>.\<close>

datatype PoolPc =
    Outside
  | Pop_head nat
  | Pop_next nat "nat option"
  | Pop_taken nat
  | Push_new nat
  | Push_linked nat

record BufferPool =
  bp_buffers :: "PoolBuffer list"
  bp_nodes :: "nat \<rightharpoonup> FreeNode"
  bp_free :: "nat option"
  bp_pc :: "nat \<Rightarrow> PoolPc"
  bp_held :: "nat \<Rightarrow> nat list"

section \<open>Operations\<close>

text \<open>The constructor, with the node of buffer \<open>i\<close> at address \<open>i\<close>; each is pushed before the next is made.\<close>

fun pool_nodes :: "nat \<Rightarrow> nat \<rightharpoonup> FreeNode" where
  "pool_nodes 0 = Map.empty"
| "pool_nodes (Suc n) = (pool_nodes n)(n \<mapsto> \<lparr>fn_buffer = n, fn_next = (if n = 0 then None else Some (n - 1))\<rparr>)"

definition BufferPool_new :: "nat \<Rightarrow> nat \<Rightarrow> BufferPool" where
  "BufferPool_new count buffer_size =
     \<lparr>bp_buffers = map (\<lambda>i. \<lparr>pb_data = i * buffer_size, pb_capacity = buffer_size, pb_length = 0\<rparr>) [0..<count],
      bp_nodes = pool_nodes count, bp_free = (if count = 0 then None else Some (count - 1)),
      bp_pc = (\<lambda>t. Outside), bp_held = (\<lambda>t. [])\<rparr>"

definition buffer_reset :: "nat \<Rightarrow> BufferPool \<Rightarrow> BufferPool" where
  "buffer_reset b p = p\<lparr>bp_buffers := (bp_buffers p)[b := (bp_buffers p ! b)\<lparr>pb_length := 0\<rparr>]\<rparr>"

definition set_pc :: "nat \<Rightarrow> PoolPc \<Rightarrow> BufferPool \<Rightarrow> BufferPool" where
  "set_pc t pc p = p\<lparr>bp_pc := (bp_pc p)(t := pc)\<rparr>"

text \<open>
  The atomic actions of thread \<open>t\<close>: loading the head, reading \<^verbatim>\<open>head->next\<close>, the compare-and-swap of
  \<^verbatim>\<open>popFreeList\<close> (\<open>weak\<close>: it fails spuriously), and the rest of \<^verbatim>\<open>acquire\<close>; entering \<^verbatim>\<open>release\<close> with a
  buffer and the address \<^verbatim>\<open>new\<close> returns, linking the node, and the compare-and-swap of \<^verbatim>\<open>pushFreeList\<close>.
\<close>

datatype PoolAction =
    Load_head | Read_next | Swap_head bool | Take_node | Release nat nat | Link_node | Swap_node bool

definition load_head :: "nat \<Rightarrow> BufferPool \<Rightarrow> BufferPool" where
  "load_head t p = set_pc t (case bp_free p of None \<Rightarrow> Outside | Some a \<Rightarrow> Pop_head a) p"

definition read_next :: "nat \<Rightarrow> nat \<Rightarrow> BufferPool \<Rightarrow> BufferPool option" where
  "read_next t a p = map_option (\<lambda>n. set_pc t (Pop_next a (fn_next n)) p) (bp_nodes p a)"

definition swap_head :: "nat \<Rightarrow> nat \<Rightarrow> nat option \<Rightarrow> bool \<Rightarrow> BufferPool \<Rightarrow> BufferPool" where
  "swap_head t a nx weak p =
     (if bp_free p = Some a \<and> \<not> weak then set_pc t (Pop_taken a) (p\<lparr>bp_free := nx\<rparr>) else load_head t p)"

definition take_node :: "nat \<Rightarrow> nat \<Rightarrow> BufferPool \<Rightarrow> BufferPool option" where
  "take_node t a p =
     (case bp_nodes p a of
        None \<Rightarrow> None
      | Some n \<Rightarrow>
          let p = buffer_reset (fn_buffer n) p;
              p = p\<lparr>bp_nodes := (bp_nodes p)(a := None)\<rparr>
          in Some (set_pc t Outside (p\<lparr>bp_held := (bp_held p)(t := fn_buffer n # bp_held p t)\<rparr>)))"

definition release_buffer :: "nat \<Rightarrow> nat \<Rightarrow> nat \<Rightarrow> BufferPool \<Rightarrow> BufferPool" where
  "release_buffer t b a p =
     (let p = buffer_reset b p;
          p = p\<lparr>bp_nodes := (bp_nodes p)(a \<mapsto> \<lparr>fn_buffer = b, fn_next = None\<rparr>)\<rparr>
      in set_pc t (Push_new a) (p\<lparr>bp_held := (bp_held p)(t := remove1 b (bp_held p t))\<rparr>))"

definition link_node :: "nat \<Rightarrow> nat \<Rightarrow> BufferPool \<Rightarrow> BufferPool option" where
  "link_node t a p = map_option (\<lambda>n. set_pc t (Push_linked a)
     (p\<lparr>bp_nodes := (bp_nodes p)(a \<mapsto> n\<lparr>fn_next := bp_free p\<rparr>)\<rparr>)) (bp_nodes p a)"

definition swap_node :: "nat \<Rightarrow> nat \<Rightarrow> bool \<Rightarrow> BufferPool \<Rightarrow> BufferPool option" where
  "swap_node t a weak p =
     (case bp_nodes p a of
        None \<Rightarrow> None
      | Some n \<Rightarrow>
          if bp_free p = fn_next n \<and> \<not> weak then Some (set_pc t Outside (p\<lparr>bp_free := Some a\<rparr>))
          else Some (p\<lparr>bp_nodes := (bp_nodes p)(a \<mapsto> n\<lparr>fn_next := bp_free p\<rparr>)\<rparr>))"

text \<open>The destructor frees the list from its head; the result is what is left of the nodes.\<close>

partial_function (option) drain_free :: "(nat \<rightharpoonup> FreeNode) \<Rightarrow> nat option \<Rightarrow> (nat \<rightharpoonup> FreeNode) option" where
  "drain_free N node =
     (case node of
        None \<Rightarrow> Some N
      | Some a \<Rightarrow> (case N a of None \<Rightarrow> None | Some n \<Rightarrow> drain_free (N(a := None)) (fn_next n)))"

definition pool_destroy :: "BufferPool \<Rightarrow> (nat \<rightharpoonup> FreeNode) option" where
  "pool_destroy p = drain_free (bp_nodes p) (bp_free p)"

text \<open>
  Whether thread \<open>t\<close> can do an action next: its position, and for a release that it holds the buffer and
  the address is free.
\<close>

fun pool_enabled :: "nat \<Rightarrow> PoolAction \<Rightarrow> BufferPool \<Rightarrow> bool" where
  "pool_enabled t Load_head p = (bp_pc p t = Outside)"
| "pool_enabled t Read_next p = (case bp_pc p t of Pop_head a \<Rightarrow> True | _ \<Rightarrow> False)"
| "pool_enabled t (Swap_head weak) p = (case bp_pc p t of Pop_next a nx \<Rightarrow> True | _ \<Rightarrow> False)"
| "pool_enabled t Take_node p = (case bp_pc p t of Pop_taken a \<Rightarrow> True | _ \<Rightarrow> False)"
| "pool_enabled t (Release b a) p = (bp_pc p t = Outside \<and> b \<in> set (bp_held p t) \<and> bp_nodes p a = None)"
| "pool_enabled t Link_node p = (case bp_pc p t of Push_new a \<Rightarrow> True | _ \<Rightarrow> False)"
| "pool_enabled t (Swap_node weak) p = (case bp_pc p t of Push_linked a \<Rightarrow> True | _ \<Rightarrow> False)"

fun pool_action :: "nat \<Rightarrow> PoolAction \<Rightarrow> BufferPool \<Rightarrow> BufferPool option" where
  "pool_action t Load_head p = Some (load_head t p)"
| "pool_action t Read_next p = (case bp_pc p t of Pop_head a \<Rightarrow> read_next t a p | _ \<Rightarrow> Some p)"
| "pool_action t (Swap_head weak) p = (case bp_pc p t of Pop_next a nx \<Rightarrow> Some (swap_head t a nx weak p) | _ \<Rightarrow> Some p)"
| "pool_action t Take_node p = (case bp_pc p t of Pop_taken a \<Rightarrow> take_node t a p | _ \<Rightarrow> Some p)"
| "pool_action t (Release b a) p = Some (release_buffer t b a p)"
| "pool_action t Link_node p = (case bp_pc p t of Push_new a \<Rightarrow> link_node t a p | _ \<Rightarrow> Some p)"
| "pool_action t (Swap_node weak) p = (case bp_pc p t of Push_linked a \<Rightarrow> swap_node t a weak p | _ \<Rightarrow> Some p)"

text \<open>States reached when only the threads in \<open>acq\<close> ever call \<^verbatim>\<open>acquire\<close>; any thread may release.\<close>

inductive pool_reach :: "nat \<Rightarrow> nat \<Rightarrow> nat set \<Rightarrow> BufferPool \<Rightarrow> bool" for count buffer_size acq where
  pool_init: "pool_reach count buffer_size acq (BufferPool_new count buffer_size)"
| pool_step: "pool_reach count buffer_size acq p \<Longrightarrow> pool_enabled t act p \<Longrightarrow> (act = Load_head \<longrightarrow> t \<in> acq) \<Longrightarrow>
    pool_action t act p = Some p' \<Longrightarrow> pool_reach count buffer_size acq p'"
| pool_pass: "pool_reach count buffer_size acq p \<Longrightarrow> b \<in> set (bp_held p t) \<Longrightarrow> t \<noteq> t' \<Longrightarrow>
    pool_reach count buffer_size acq (p\<lparr>bp_held := (bp_held p)(t := remove1 b (bp_held p t), t' := b # bp_held p t')\<rparr>)"

section \<open>The invariant with one acquiring thread\<close>

text \<open>The free list, followed from its head.\<close>

fun chain :: "(nat \<rightharpoonup> FreeNode) \<Rightarrow> nat option \<Rightarrow> nat list \<Rightarrow> bool" where
  "chain N p [] = (p = None)"
| "chain N p (a # xs) = (p = Some a \<and> (\<exists>n. N a = Some n \<and> chain N (fn_next n) xs))"

lemma chain_update [simp]: "a \<notin> set xs \<Longrightarrow> chain (N(a := v)) p xs = chain N p xs"
  by (induction xs arbitrary: p) auto

lemma chain_nodes: "chain N p xs \<Longrightarrow> a \<in> set xs \<Longrightarrow> N a \<noteq> None"
  by (induction xs arbitrary: p) auto

text \<open>The node a thread has to itself, and whether it is inside \<^verbatim>\<open>acquire\<close>.\<close>

fun own :: "PoolPc \<Rightarrow> nat option" where
  "own (Pop_taken a) = Some a"
| "own (Push_new a) = Some a"
| "own (Push_linked a) = Some a"
| "own _ = None"

fun popping :: "PoolPc \<Rightarrow> bool" where
  "popping (Pop_head a) = True"
| "popping (Pop_next a nx) = True"
| "popping (Pop_taken a) = True"
| "popping _ = False"

text \<open>What a thread inside the loop of \<^verbatim>\<open>popFreeList\<close> relies on.\<close>

fun expects :: "(nat \<rightharpoonup> FreeNode) \<Rightarrow> nat list \<Rightarrow> PoolPc \<Rightarrow> bool" where
  "expects N xs (Pop_head a) = (a \<in> set xs)"
| "expects N xs (Pop_next a nx) = (a \<in> set xs \<and> map_option fn_next (N a) = Some nx)"
| "expects N xs _ = True"

definition list_inv :: "nat \<Rightarrow> (nat \<rightharpoonup> FreeNode) \<Rightarrow> nat option \<Rightarrow> (nat \<Rightarrow> PoolPc) \<Rightarrow> nat list \<Rightarrow> bool" where
  "list_inv c N free pc xs \<longleftrightarrow> chain N free xs \<and> distinct xs \<and>
     (\<forall>t a. own (pc t) = Some a \<longrightarrow> N a \<noteq> None \<and> a \<notin> set xs) \<and>
     (\<forall>t t' a. own (pc t) = Some a \<and> own (pc t') = Some a \<longrightarrow> t = t') \<and>
     (\<forall>a. N a \<noteq> None \<longrightarrow> a \<in> set xs \<or> (\<exists>t. own (pc t) = Some a)) \<and>
     (\<forall>t. popping (pc t) \<longrightarrow> t = c) \<and> (\<forall>t. expects N xs (pc t))"

text \<open>Which buffers are where: each is in exactly one place, in a list node or in the hands of a thread.\<close>

datatype place = In_node nat | With_thread nat

fun buffers_at :: "(nat \<rightharpoonup> nat) \<Rightarrow> (nat \<Rightarrow> nat list) \<Rightarrow> place \<Rightarrow> nat set" where
  "buffers_at B held (In_node a) = set_option (B a)"
| "buffers_at B held (With_thread t) = set (held t)"

definition placed :: "nat \<Rightarrow> (place \<Rightarrow> nat set) \<Rightarrow> bool" where
  "placed count f \<longleftrightarrow> (\<forall>b q. b \<in> f q \<longrightarrow> b < count) \<and> (\<forall>b<count. \<exists>!q. b \<in> f q)"

lemma placedD: "placed count f \<Longrightarrow> b \<in> f q \<Longrightarrow> b \<in> f q' \<Longrightarrow> q = q'"
  unfolding placed_def by blast

lemma placed_move:
  assumes p: "placed count f" and "b \<in> f q" and "q \<noteq> q'"
  shows "placed count (f(q := f q - {b}, q' := insert b (f q')))"
proof -
  define g where "g = f(q := f q - {b}, q' := insert b (f q'))"
  have only: "b \<notin> f r" if "r \<noteq> q" for r using placedD [OF p assms(2), of r] that by blast
  have gb: "b \<in> g r \<longleftrightarrow> r = q'" for r using only [of r] assms(3) by (simp add: g_def)
  have go: "b' \<in> g r \<longleftrightarrow> b' \<in> f r" if "b' \<noteq> b" for b' r using that assms(3) by (simp add: g_def)
  have "b < count" using p assms(2) unfolding placed_def by blast
  then have "b' < count" if "b' \<in> g r" for b' r
    using that p go unfolding placed_def by (cases "b' = b") blast+
  moreover have "\<exists>!r. b' \<in> g r" if "b' < count" for b'
  proof (cases "b' = b")
    case True
    then show ?thesis by (simp add: gb)
  next
    case False
    then show ?thesis using go p that unfolding placed_def by simp
  qed
  ultimately show ?thesis unfolding placed_def g_def [symmetric] by blast
qed

definition buffers_inv :: "nat \<Rightarrow> (nat \<rightharpoonup> nat) \<Rightarrow> (nat \<Rightarrow> nat list) \<Rightarrow> bool" where
  "buffers_inv count B held \<longleftrightarrow> placed count (buffers_at B held) \<and> (\<forall>t. distinct (held t))"

definition pool_inv :: "nat \<Rightarrow> nat \<Rightarrow> BufferPool \<Rightarrow> bool" where
  "pool_inv c count p \<longleftrightarrow> (\<exists>xs. list_inv c (bp_nodes p) (bp_free p) (bp_pc p) xs) \<and>
     buffers_inv count (map_option fn_buffer \<circ> bp_nodes p) (bp_held p)"

lemma buffers_take:
  assumes inv: "buffers_inv count B held" and "B a = Some b"
  shows "buffers_inv count (B(a := None)) (held(t := b # held t))"
proof -
  let ?f = "buffers_at B held"
  have p: "placed count ?f" using inv by (simp add: buffers_inv_def)
  have b: "b \<in> ?f (In_node a)" using assms(2) by simp
  have "buffers_at (B(a := None)) (held(t := b # held t)) =
      ?f(In_node a := ?f (In_node a) - {b}, With_thread t := insert b (?f (With_thread t)))" (is "?g = ?h")
  proof
    fix q show "?g q = ?h q" using assms(2) by (cases q) auto
  qed
  moreover have "b \<notin> set (held t)" using placedD [OF p b, of "With_thread t"] by auto
  ultimately show ?thesis using placed_move [OF p b, of "With_thread t"] inv by (simp add: buffers_inv_def)
qed

lemma buffers_release:
  assumes inv: "buffers_inv count B held" and "B a = None" and b: "b \<in> set (held t)"
  shows "buffers_inv count (B(a \<mapsto> b)) (held(t := remove1 b (held t)))"
proof -
  let ?f = "buffers_at B held"
  have p: "placed count ?f" and d: "distinct (held s)" for s using inv by (simp_all add: buffers_inv_def)
  have "buffers_at (B(a \<mapsto> b)) (held(t := remove1 b (held t))) =
      ?f(With_thread t := ?f (With_thread t) - {b}, In_node a := insert b (?f (In_node a)))" (is "?g = ?h")
  proof
    fix q show "?g q = ?h q" using assms(2) d [of t] by (cases q) (auto simp: set_remove1_eq)
  qed
  with placed_move [OF p, of b "With_thread t" "In_node a"] b d show ?thesis by (simp add: buffers_inv_def)
qed

lemma buffers_pass:
  assumes inv: "buffers_inv count B held" and b: "b \<in> set (held t)" and "t \<noteq> t'"
  shows "buffers_inv count B (held(t := remove1 b (held t), t' := b # held t'))"
proof -
  let ?f = "buffers_at B held"
  have p: "placed count ?f" and d: "distinct (held s)" for s using inv by (simp_all add: buffers_inv_def)
  have "buffers_at B (held(t := remove1 b (held t), t' := b # held t')) =
      ?f(With_thread t := ?f (With_thread t) - {b}, With_thread t' := insert b (?f (With_thread t')))" (is "?g = ?h")
  proof
    fix q show "?g q = ?h q" using d [of t] assms(3) by (cases q) (auto simp: set_remove1_eq)
  qed
  moreover have "b \<notin> set (held t')" using placedD [OF p, of b "With_thread t" "With_thread t'"] b assms(3) by auto
  ultimately show ?thesis using placed_move [OF p, of b "With_thread t" "With_thread t'"] b d assms(3)
    by (simp add: buffers_inv_def)
qed

section \<open>Preservation\<close>

lemma list_invD:
  assumes "list_inv c N free pc xs"
  shows "chain N free xs" and "distinct xs" and "own (pc t) = Some a \<Longrightarrow> N a \<noteq> None"
    and "own (pc t) = Some a \<Longrightarrow> a \<notin> set xs" and "own (pc t) = Some a \<Longrightarrow> own (pc t') = Some a \<Longrightarrow> t = t'"
    and "N a \<noteq> None \<Longrightarrow> a \<in> set xs \<or> (\<exists>t. own (pc t) = Some a)" and "popping (pc t) \<Longrightarrow> t = c" and "expects N xs (pc t)"
  using assms unfolding list_inv_def by blast+

text \<open>A thread that owns nothing moves to a position where it still owns nothing.\<close>

lemma list_inv_pc:
  assumes inv: "list_inv c N free pc xs" and "own (pc t) = own q" and "popping q \<Longrightarrow> t = c" and "expects N xs q"
  shows "list_inv c N free (pc(t := q)) xs"
proof -
  have o: "own ((pc(t := q)) s) = own (pc s)" for s using assms(2) by simp
  show ?thesis using inv assms(3,4) unfolding list_inv_def o by auto
qed

lemma expects_update [simp]: "a \<notin> set xs \<Longrightarrow> expects (N(a := v)) xs q = expects N xs q"
  by (cases q) auto

lemma expects_mono: "expects N xs q \<Longrightarrow> expects N (a # xs) q"
  by (cases q) auto

lemma not_popping: "\<not> popping q \<Longrightarrow> expects N xs q"
  by (cases q) auto

lemma chain_head: "chain N (Some a) xs \<Longrightarrow> \<exists>n ys. xs = a # ys \<and> N a = Some n \<and> chain N (fn_next n) ys"
  by (cases xs) auto

text \<open>A thread writes the node it owns.\<close>

lemma list_inv_node:
  assumes inv: "list_inv c N free pc xs" and o: "own (pc t) = Some a"
  shows "list_inv c (N(a \<mapsto> n)) free pc xs"
proof -
  have a: "a \<notin> set xs" using list_invD(4) [OF inv o] .
  have "b \<in> set xs \<or> (\<exists>s. own (pc s) = Some b)" if "(N(a \<mapsto> n)) b \<noteq> None" for b
    using that list_invD(6) [OF inv, of b] o by (cases "b = a") auto
  then show ?thesis using inv a unfolding list_inv_def by simp
qed

text \<open>The acquiring thread takes the first node off the list.\<close>

lemma list_inv_pop:
  assumes inv: "list_inv c N (Some a) pc xs" and q: "pc t = Pop_next a nx"
  shows "\<exists>ys. list_inv c N nx (pc(t := Pop_taken a)) ys"
proof -
  obtain n ys where xs: "xs = a # ys" and n: "N a = Some n" and ch: "chain N (fn_next n) ys"
    using chain_head [OF list_invD(1) [OF inv]] by blast
  have nx: "fn_next n = nx" using list_invD(8) [OF inv, of t] q n by simp
  have t: "t = c" using list_invD(7) [OF inv, of t] q by simp
  have d: "a \<notin> set ys" "distinct ys" using list_invD(2) [OF inv] xs by simp_all
  let ?pc = "pc(t := Pop_taken a)"
  have o: "own (?pc s) = Some b \<longleftrightarrow> (if s = t then b = a else own (pc s) = Some b)" for s b by auto
  have na: "own (pc s) \<noteq> Some a" for s using list_invD(4) [OF inv, of s a] xs by auto
  have "N b \<noteq> None \<and> b \<notin> set ys" if "own (?pc s) = Some b" for s b
    using that list_invD(3,4) [OF inv, of s b] n d xs unfolding o by (auto split: if_splits)
  moreover have "s = s'" if "own (?pc s) = Some b" "own (?pc s') = Some b" for s s' b
    using that na list_invD(5) [OF inv, of s b s'] unfolding o by (auto split: if_splits)
  moreover have "b \<in> set ys \<or> (\<exists>s. own (?pc s) = Some b)" if nb: "N b \<noteq> None" for b
  proof -
    consider "b = a" | "b \<in> set ys" | s where "own (pc s) = Some b" using list_invD(6) [OF inv nb] xs by auto
    then show ?thesis
    proof cases
      case 1
      then show ?thesis unfolding o by (intro disjI2 exI [where x = t]) simp
    next
      case (3 s)
      then have "s \<noteq> t" using q by auto
      with 3 show ?thesis unfolding o by auto
    qed simp
  qed
  moreover have "popping (?pc s) \<longrightarrow> s = c" "expects N ys (?pc s)" for s
    using list_invD(7) [OF inv, of s] t not_popping [of "pc s" N ys] by auto
  ultimately have "list_inv c N nx ?pc ys" using ch nx d unfolding list_inv_def by blast
  then show ?thesis ..
qed

text \<open>A node is freed, allocated, or put in front of the list.\<close>

lemma list_inv_free:
  assumes inv: "list_inv c N free pc xs" and q: "own (pc t) = Some a"
  shows "list_inv c (N(a := None)) free (pc(t := Outside)) xs"
proof -
  have a: "a \<notin> set xs" using list_invD(4) [OF inv q] .
  let ?pc = "pc(t := Outside)"
  have o: "own (?pc s) = Some b \<longleftrightarrow> s \<noteq> t \<and> own (pc s) = Some b" for s b by auto
  have ne: "b \<noteq> a" if "s \<noteq> t" "own (pc s) = Some b" for s b using that list_invD(5) [OF inv _ q, of s] by auto
  have "(N(a := None)) b \<noteq> None \<and> b \<notin> set xs" if "own (?pc s) = Some b" for s b
    using that ne [of s b] list_invD(3,4) [OF inv, of s b] unfolding o by simp
  moreover have "s = s'" if "own (?pc s) = Some b" "own (?pc s') = Some b" for s s' b
    using that list_invD(5) [OF inv, of s b s'] unfolding o by blast
  moreover have "b \<in> set xs \<or> (\<exists>s. own (?pc s) = Some b)" if "(N(a := None)) b \<noteq> None" for b
  proof -
    have "b \<noteq> a" "N b \<noteq> None" using that by (auto split: if_splits)
    then show ?thesis using list_invD(6) [OF inv, of b] q unfolding o by (metis option.inject)
  qed
  moreover have "popping (?pc s) \<longrightarrow> s = c" "expects (N(a := None)) xs (?pc s)" for s
    using list_invD(7,8) [OF inv, of s] a by auto
  moreover have "chain (N(a := None)) free xs" using list_invD(1) [OF inv] a by simp
  ultimately show ?thesis using list_invD(2) [OF inv] unfolding list_inv_def by blast
qed

lemma list_inv_alloc:
  assumes inv: "list_inv c N free pc xs" and q: "pc t = Outside" and a: "N a = None"
  shows "list_inv c (N(a \<mapsto> n)) free (pc(t := Push_new a)) xs"
proof -
  have ax: "a \<notin> set xs" using chain_nodes [OF list_invD(1) [OF inv]] a by blast
  let ?pc = "pc(t := Push_new a)"
  have o: "own (?pc s) = Some b \<longleftrightarrow> (if s = t then b = a else own (pc s) = Some b)" for s b by auto
  have na: "own (pc s) \<noteq> Some a" for s using list_invD(3) [OF inv, of s a] a by auto
  have "(N(a \<mapsto> n)) b \<noteq> None \<and> b \<notin> set xs" if "own (?pc s) = Some b" for s b
    using that list_invD(3,4) [OF inv, of s b] ax unfolding o by (auto split: if_splits)
  moreover have "s = s'" if "own (?pc s) = Some b" "own (?pc s') = Some b" for s s' b
    using that na list_invD(5) [OF inv, of s b s'] unfolding o by (auto split: if_splits)
  moreover have "b \<in> set xs \<or> (\<exists>s. own (?pc s) = Some b)" if nb: "(N(a \<mapsto> n)) b \<noteq> None" for b
  proof (cases "b = a")
    case True
    then show ?thesis unfolding o by (intro disjI2 exI [where x = t]) simp
  next
    case False
    then consider "b \<in> set xs" | s where "own (pc s) = Some b" using nb list_invD(6) [OF inv, of b] by auto
    then show ?thesis
    proof cases
      case (2 s)
      then have "s \<noteq> t" using q by auto
      with 2 show ?thesis unfolding o by auto
    qed simp
  qed
  moreover have "popping (?pc s) \<longrightarrow> s = c" "expects (N(a \<mapsto> n)) xs (?pc s)" for s
    using list_invD(7,8) [OF inv, of s] ax by auto
  moreover have "chain (N(a \<mapsto> n)) free xs" using list_invD(1) [OF inv] ax by simp
  ultimately show ?thesis using list_invD(2) [OF inv] unfolding list_inv_def by blast
qed

lemma list_inv_push:
  assumes inv: "list_inv c N free pc xs" and q: "own (pc t) = Some a" and n: "N a = Some n" "fn_next n = free"
  shows "list_inv c N (Some a) (pc(t := Outside)) (a # xs)"
proof -
  have ax: "a \<notin> set xs" using list_invD(4) [OF inv q] .
  let ?pc = "pc(t := Outside)"
  have o: "own (?pc s) = Some b \<longleftrightarrow> s \<noteq> t \<and> own (pc s) = Some b" for s b by auto
  have ne: "b \<noteq> a" if "s \<noteq> t" "own (pc s) = Some b" for s b using that list_invD(5) [OF inv _ q, of s] by auto
  have "N b \<noteq> None \<and> b \<notin> set (a # xs)" if "own (?pc s) = Some b" for s b
    using that ne [of s b] list_invD(3,4) [OF inv, of s b] unfolding o by simp
  moreover have "s = s'" if "own (?pc s) = Some b" "own (?pc s') = Some b" for s s' b
    using that list_invD(5) [OF inv, of s b s'] unfolding o by blast
  moreover have "b \<in> set (a # xs) \<or> (\<exists>s. own (?pc s) = Some b)" if "N b \<noteq> None" for b
    using list_invD(6) [OF inv that] q unfolding o by (metis list.set_intros option.inject)
  moreover have "popping (?pc s) \<longrightarrow> s = c" "expects N (a # xs) (?pc s)" for s
    using list_invD(7,8) [OF inv, of s] expects_mono by auto
  moreover have "chain N (Some a) (a # xs)" "distinct (a # xs)" using list_invD(1,2) [OF inv] ax n by simp_all
  ultimately show ?thesis unfolding list_inv_def by blast
qed

lemma buffer_reset_sel [simp]:
  "bp_nodes (buffer_reset b p) = bp_nodes p" "bp_free (buffer_reset b p) = bp_free p" "bp_pc (buffer_reset b p) = bp_pc p"
  "bp_held (buffer_reset b p) = bp_held p"
  by (simp_all add: buffer_reset_def)

lemma set_pc_sel [simp]:
  "bp_nodes (set_pc t q p) = bp_nodes p" "bp_free (set_pc t q p) = bp_free p" "bp_pc (set_pc t q p) = (bp_pc p)(t := q)"
  "bp_held (set_pc t q p) = bp_held p"
  by (simp_all add: set_pc_def)

lemma same_buffers: "N a = Some n \<Longrightarrow> map_option fn_buffer \<circ> N(a \<mapsto> n\<lparr>fn_next := x\<rparr>) = map_option fn_buffer \<circ> N"
  by (auto simp: fun_eq_iff)

lemma comp_upd: "map_option f \<circ> N(a := v) = (map_option f \<circ> N)(a := map_option f v)"
  by (auto simp: fun_eq_iff)

lemma load_head_inv:
  assumes "pool_inv c count p" and "t = c" and "own (bp_pc p t) = None"
  shows "pool_inv c count (load_head t p)"
proof -
  obtain xs where xs: "list_inv c (bp_nodes p) (bp_free p) (bp_pc p) xs" using assms(1) by (auto simp: pool_inv_def)
  let ?q = "case bp_free p of None \<Rightarrow> Outside | Some a \<Rightarrow> Pop_head a"
  have "expects (bp_nodes p) xs ?q" using chain_head list_invD(1) [OF xs] by (fastforce split: option.splits)
  moreover have "own ?q = None" by (simp split: option.splits)
  ultimately have "list_inv c (bp_nodes p) (bp_free p) ((bp_pc p)(t := ?q)) xs"
    using list_inv_pc [OF xs, of t ?q] assms(2,3) by simp
  then show ?thesis using assms(1) by (auto simp: pool_inv_def load_head_def)
qed

text \<open>An enabled action of a permitted thread never faults, and preserves the invariant.\<close>

fun acquiring :: "PoolAction \<Rightarrow> bool" where
  "acquiring Load_head = True"
| "acquiring Read_next = True"
| "acquiring (Swap_head weak) = True"
| "acquiring Take_node = True"
| "acquiring _ = False"

lemma acquire_step:
  assumes inv: "pool_inv c count p" and en: "pool_enabled t act p" and "acquiring act" and who: "act = Load_head \<longrightarrow> t = c"
  shows "\<exists>p'. pool_action t act p = Some p' \<and> pool_inv c count p'"
proof -
  obtain xs where xs: "list_inv c (bp_nodes p) (bp_free p) (bp_pc p) xs"
    and b: "buffers_inv count (map_option fn_buffer \<circ> bp_nodes p) (bp_held p)" using inv by (auto simp: pool_inv_def)
  show ?thesis
  proof (cases act)
    case Load_head
    then show ?thesis using load_head_inv [OF inv] who en by simp
  next
    case Read_next
    then obtain a where q: "bp_pc p t = Pop_head a" using en by (auto split: PoolPc.splits)
    then have a: "a \<in> set xs" using list_invD(8) [OF xs, of t] by simp
    then obtain n where n: "bp_nodes p a = Some n" using chain_nodes [OF list_invD(1) [OF xs]] by blast
    have "list_inv c (bp_nodes p) (bp_free p) ((bp_pc p)(t := Pop_next a (fn_next n))) xs"
    proof (rule list_inv_pc [OF xs])
      show "t = c" using list_invD(7) [OF xs, of t] q by simp
    qed (simp_all add: q a n)
    then show ?thesis using Read_next q n b by (auto simp: read_next_def pool_inv_def)
  next
    case (Swap_head weak)
    then obtain a nx where q: "bp_pc p t = Pop_next a nx" using en by (auto split: PoolPc.splits)
    show ?thesis
    proof (cases "bp_free p = Some a \<and> \<not> weak")
      case True
      then show ?thesis using list_inv_pop [of c "bp_nodes p" a "bp_pc p" xs t nx] xs q b Swap_head
        by (auto simp: swap_head_def pool_inv_def)
    next
      case False
      have "t = c" using list_invD(7) [OF xs, of t] q by simp
      with False show ?thesis using load_head_inv [OF inv] q Swap_head by (auto simp: swap_head_def)
    qed
  next
    case Take_node
    then obtain a where q: "bp_pc p t = Pop_taken a" using en by (auto split: PoolPc.splits)
    then have o: "own (bp_pc p t) = Some a" by simp
    obtain n where n: "bp_nodes p a = Some n" using list_invD(3) [OF xs o] by blast
    let ?p = "(buffer_reset (fn_buffer n) p)\<lparr>bp_nodes := (bp_nodes p)(a := None)\<rparr>"
    let ?p' = "set_pc t Outside (?p\<lparr>bp_held := (bp_held p)(t := fn_buffer n # bp_held p t)\<rparr>)"
    have "pool_action t act p = Some ?p'" using n q Take_node by (simp add: take_node_def Let_def)
    moreover have "buffers_inv count (map_option fn_buffer \<circ> bp_nodes ?p') (bp_held ?p')"
      using buffers_take [OF b, of a "fn_buffer n" t] n by (simp add: comp_upd)
    moreover have "list_inv c (bp_nodes ?p') (bp_free ?p') (bp_pc ?p') xs" using list_inv_free [OF xs o] by simp
    ultimately show ?thesis unfolding pool_inv_def by blast
  qed (use assms(3) in simp_all)
qed

lemma release_step:
  assumes inv: "pool_inv c count p" and en: "pool_enabled t act p" and "\<not> acquiring act"
  shows "\<exists>p'. pool_action t act p = Some p' \<and> pool_inv c count p'"
proof -
  obtain xs where xs: "list_inv c (bp_nodes p) (bp_free p) (bp_pc p) xs"
    and b: "buffers_inv count (map_option fn_buffer \<circ> bp_nodes p) (bp_held p)" using inv by (auto simp: pool_inv_def)
  show ?thesis
  proof (cases act)
    case (Release bf a)
    then have q: "bp_pc p t = Outside" and h: "bf \<in> set (bp_held p t)" and a: "bp_nodes p a = None" using en by simp_all
    let ?p = "(buffer_reset bf p)\<lparr>bp_nodes := (bp_nodes p)(a \<mapsto> \<lparr>fn_buffer = bf, fn_next = None\<rparr>)\<rparr>"
    let ?p' = "set_pc t (Push_new a) (?p\<lparr>bp_held := (bp_held p)(t := remove1 bf (bp_held p t))\<rparr>)"
    have "pool_action t act p = Some ?p'" using Release by (simp add: release_buffer_def Let_def)
    moreover have "buffers_inv count (map_option fn_buffer \<circ> bp_nodes ?p') (bp_held ?p')"
      using buffers_release [OF b, of a bf t] h a by (simp add: comp_upd)
    moreover have "list_inv c (bp_nodes ?p') (bp_free ?p') (bp_pc ?p') xs" using list_inv_alloc [OF xs q a] by simp
    ultimately show ?thesis unfolding pool_inv_def by blast
  next
    case Link_node
    then obtain a where q: "bp_pc p t = Push_new a" using en by (auto split: PoolPc.splits)
    then have o: "own (bp_pc p t) = Some a" by simp
    obtain n where n: "bp_nodes p a = Some n" using list_invD(3) [OF xs o] by blast
    let ?n = "n\<lparr>fn_next := bp_free p\<rparr>"
    have "list_inv c ((bp_nodes p)(a \<mapsto> ?n)) (bp_free p) ((bp_pc p)(t := Push_linked a)) xs"
      using list_inv_pc [OF list_inv_node [OF xs o, of ?n], of t "Push_linked a"] q by simp
    then show ?thesis using q n b same_buffers [of "bp_nodes p" a n, OF n] Link_node by (auto simp: link_node_def pool_inv_def)
  next
    case (Swap_node weak)
    then obtain a where q: "bp_pc p t = Push_linked a" using en by (auto split: PoolPc.splits)
    then have o: "own (bp_pc p t) = Some a" by simp
    obtain n where n: "bp_nodes p a = Some n" using list_invD(3) [OF xs o] by blast
    show ?thesis
    proof (cases "bp_free p = fn_next n \<and> \<not> weak")
      case True
      then show ?thesis using list_inv_push [OF xs o n] q n b Swap_node by (auto simp: swap_node_def pool_inv_def)
    next
      case False
      then show ?thesis using list_inv_node [OF xs o, of "n\<lparr>fn_next := bp_free p\<rparr>"] q n b same_buffers [of "bp_nodes p" a n, OF n] Swap_node
        by (auto simp: swap_node_def pool_inv_def)
    qed
  qed (use assms(3) in simp_all)
qed

lemma pool_action_ok:
  assumes "pool_inv c count p" and "pool_enabled t act p" and "act = Load_head \<longrightarrow> t = c"
  shows "\<exists>p'. pool_action t act p = Some p' \<and> pool_inv c count p'"
  using acquire_step [OF assms(1,2) _ assms(3)] release_step [OF assms(1,2)] by blast

lemma pool_nodes_eq: "pool_nodes n a = (if a < n then Some \<lparr>fn_buffer = a, fn_next = (if a = 0 then None else Some (a - 1))\<rparr> else None)"
  by (induction n) (auto simp: less_Suc_eq)

lemma pool_nodes_chain: "n \<le> m \<Longrightarrow> chain (pool_nodes m) (if n = 0 then None else Some (n - 1)) (rev [0..<n])"
  by (induction n) (auto simp: pool_nodes_eq)

lemma pool_init_inv: "pool_inv c count (BufferPool_new count sz)"
proof -
  have "list_inv c (pool_nodes count) (if count = 0 then None else Some (count - 1)) (\<lambda>t. Outside) (rev [0..<count])"
    using pool_nodes_chain [of count count] by (simp add: list_inv_def pool_nodes_eq)
  moreover have "placed count (buffers_at (map_option fn_buffer \<circ> pool_nodes count) (\<lambda>t. []))"
  proof -
    have "b \<in> buffers_at (map_option fn_buffer \<circ> pool_nodes count) (\<lambda>t. []) q \<longleftrightarrow> b < count \<and> q = In_node b" for b q
      by (cases q) (auto simp: pool_nodes_eq)
    then show ?thesis unfolding placed_def by auto
  qed
  ultimately show ?thesis by (auto simp: pool_inv_def BufferPool_new_def buffers_inv_def)
qed

lemma pool_reach_inv: "pool_reach count sz {c} p \<Longrightarrow> pool_inv c count p"
proof (induction rule: pool_reach.induct)
  case pool_init
  show ?case by (rule pool_init_inv)
next
  case (pool_step p t act p')
  then show ?case using pool_action_ok [OF pool_step.IH pool_step.hyps(2)] by auto
next
  case (pool_pass p b t t')
  then show ?case using buffers_pass by (auto simp: pool_inv_def)
qed

lemma drain_chain:
  "chain N p xs \<Longrightarrow> distinct xs \<Longrightarrow> drain_free N p = Some (\<lambda>a. if a \<in> set xs then None else N a)"
proof (induction xs arbitrary: N p)
  case Nil
  then show ?case by (simp add: drain_free.simps)
next
  case (Cons a xs)
  then obtain n where n: "p = Some a" "N a = Some n" "chain N (fn_next n) xs" "a \<notin> set xs" "distinct xs" by auto
  then have "drain_free N p = drain_free (N(a := None)) (fn_next n)" by (subst drain_free.simps) simp
  moreover have "chain (N(a := None)) (fn_next n) xs" using n(3,4) by (simp only: chain_update not_False_eq_True)
  from Cons.IH [OF this n(5)] have "drain_free (N(a := None)) (fn_next n) = Some (\<lambda>b. if b \<in> set xs then None else (N(a := None)) b)" .
  ultimately show ?case by (auto simp: fun_eq_iff)
qed

section \<open>Who may acquire\<close>

definition buffer_places :: "BufferPool \<Rightarrow> place \<Rightarrow> nat set" where
  "buffer_places p = buffers_at (map_option fn_buffer \<circ> bp_nodes p) (bp_held p)"

text \<open>The run that fails: both threads have read the head when one of them takes and frees the node.\<close>

definition ex_pool_run :: "(nat \<times> PoolAction) list" where
  "ex_pool_run = [(0, Load_head), (1, Load_head), (1, Read_next), (1, Swap_head False), (1, Take_node)]"

fun run_pool :: "(nat \<times> PoolAction) list \<Rightarrow> BufferPool \<Rightarrow> BufferPool option" where
  "run_pool [] p = Some p"
| "run_pool ((t, act) # acts) p = (if pool_enabled t act p then Option.bind (pool_action t act p) (run_pool acts) else None)"

lemma run_pool_reach:
  "run_pool acts p = Some p' \<Longrightarrow> pool_reach count sz acq p \<Longrightarrow> fst ` set acts \<subseteq> acq \<Longrightarrow> pool_reach count sz acq p'"
proof (induction acts p rule: run_pool.induct)
  case (2 t act acts p)
  then obtain p1 where p1: "pool_enabled t act p" "pool_action t act p = Some p1" "run_pool acts p1 = Some p'"
    by (auto simp: bind_eq_Some_conv split: if_splits)
  have "pool_reach count sz acq p1" using pool_step [OF 2(3) p1(1) _ p1(2)] 2(4) by simp
  with 2(1) [OF p1(1,2,3)] 2(4) show ?case by simp
qed simp

lemma two_acquirers_fault:
  "\<exists>p. pool_reach 1 64 {0, 1} p \<and> pool_enabled 0 Read_next p \<and> pool_action 0 Read_next p = None"
proof -
  obtain p where p: "run_pool ex_pool_run (BufferPool_new 1 64) = Some p" "bp_pc p 0 = Pop_head 0" "bp_nodes p 0 = None"
    by (simp add: ex_pool_run_def BufferPool_new_def load_head_def read_next_def swap_head_def take_node_def Let_def)
  have "pool_reach 1 64 {0, 1} p"
    by (rule run_pool_reach [OF p(1) pool_init]) (auto simp: ex_pool_run_def)
  with p(2,3) show ?thesis by (intro exI [where x = p]) (simp add: read_next_def)
qed

text \<open>
  C24.  The buffer pool works for one acquiring thread.  If a single thread acquires, while any thread may release
  any buffer it has been given, then in every reachable state no action touches a list node that is not
  allocated; every buffer is in exactly one place, held by one thread, on its way back, or in the free
  list, so none is handed out twice and none is lost; and when no thread is inside an operation the free
  list holds exactly the buffers that no thread holds, and destroying the pool frees every node.  With two acquiring threads this fails already for a pool of
  one buffer: a thread can read the \<^verbatim>\<open>next\<close> pointer of a node that the other has freed.
\<close>

theorem buffer_pool_acquirers:
  "(\<forall>count sz c p. pool_reach count sz {c} p \<longrightarrow>
     (\<forall>t act. pool_enabled t act p \<longrightarrow> (act = Load_head \<longrightarrow> t = c) \<longrightarrow> pool_action t act p \<noteq> None) \<and>
     (\<forall>b<count. \<exists>!q. b \<in> buffer_places p q) \<and> (\<forall>t. distinct (bp_held p t)) \<and>
     ((\<forall>t. bp_pc p t = Outside) \<longrightarrow>
        (\<exists>xs. chain (bp_nodes p) (bp_free p) xs \<and> distinct xs \<and>
           (\<forall>b<count. (\<exists>a\<in>set xs. b \<in> buffer_places p (In_node a)) \<longleftrightarrow> (\<forall>t. b \<notin> set (bp_held p t)))) \<and>
        pool_destroy p = Some Map.empty)) \<and>
   (\<exists>p. pool_reach 1 64 {0, 1} p \<and> pool_enabled 0 Read_next p \<and> pool_action 0 Read_next p = None)"
proof (intro conjI allI impI)
  fix count sz c p assume r: "pool_reach count sz {c} p"
  note inv = pool_reach_inv [OF r]
  then obtain xs where xs: "list_inv c (bp_nodes p) (bp_free p) (bp_pc p) xs"
    and b: "placed count (buffer_places p)" "\<forall>t. distinct (bp_held p t)"
    by (auto simp: pool_inv_def buffers_inv_def buffer_places_def)
  show "pool_action t act p \<noteq> None" if "pool_enabled t act p" "act = Load_head \<longrightarrow> t = c" for t act
    using pool_action_ok [OF inv that] by auto
  show "\<exists>!q. b \<in> buffer_places p q" if "b < count" for b using b(1) that by (simp add: placed_def)
  show "distinct (bp_held p t)" for t using b(2) by simp
  assume idle: "\<forall>t. bp_pc p t = Outside"
  have "bp_nodes p a = None" if "a \<notin> set xs" for a using list_invD(6) [OF xs, of a] that idle by fastforce
  then have "(\<lambda>a. if a \<in> set xs then None else bp_nodes p a) = Map.empty" by auto
  then show "pool_destroy p = Some Map.empty"
    using drain_chain [OF list_invD(1,2) [OF xs]] by (simp add: pool_destroy_def)
  have "(\<exists>a\<in>set xs. b \<in> buffer_places p (In_node a)) \<longleftrightarrow> (\<forall>t. b \<notin> set (bp_held p t))" if bc: "b < count" for b
  proof
    assume "\<exists>a\<in>set xs. b \<in> buffer_places p (In_node a)"
    then obtain a where "b \<in> buffer_places p (In_node a)" by blast
    then show "\<forall>t. b \<notin> set (bp_held p t)"
      using placedD [OF b(1), of b "In_node a" "With_thread t" for t] by (auto simp: buffer_places_def)
  next
    assume none: "\<forall>t. b \<notin> set (bp_held p t)"
    obtain q where q: "b \<in> buffer_places p q" using b(1) bc unfolding placed_def by blast
    then obtain a where a: "q = In_node a" using none by (cases q) (auto simp: buffer_places_def)
    then have "bp_nodes p a \<noteq> None" using q by (auto simp: buffer_places_def)
    then have "a \<in> set xs" using list_invD(6) [OF xs, of a] idle by simp
    with q a show "\<exists>a\<in>set xs. b \<in> buffer_places p (In_node a)" by blast
  qed
  then show "\<exists>xs. chain (bp_nodes p) (bp_free p) xs \<and> distinct xs \<and>
      (\<forall>b<count. (\<exists>a\<in>set xs. b \<in> buffer_places p (In_node a)) \<longleftrightarrow> (\<forall>t. b \<notin> set (bp_held p t)))"
    using list_invD(1,2) [OF xs] by blast
qed (rule two_acquirers_fault)

text \<open>Thread 0 acquires one of two buffers, after a spurious failure, and passes it to thread 1.\<close>

theorem buffer_pool_acquirers_witness:
  "\<exists>p. pool_reach 2 64 {0} p \<and> bp_held p 1 = [1] \<and> (\<exists>!q. 1 \<in> buffer_places p q)"
proof -
  obtain p where p: "run_pool [(0, Load_head), (0, Read_next), (0, Swap_head True), (0, Read_next), (0, Swap_head False), (0, Take_node)]
      (BufferPool_new 2 64) = Some p" "bp_held p = (\<lambda>t. [])(0 := [1])"
    by (simp add: BufferPool_new_def load_head_def read_next_def swap_head_def take_node_def Let_def numeral_2_eq_2)
  have "pool_reach 2 64 {0} p" by (rule run_pool_reach [OF p(1) pool_init]) auto
  then have r: "pool_reach 2 64 {0} (p\<lparr>bp_held := (bp_held p)(0 := remove1 1 (bp_held p 0), 1 := 1 # bp_held p 1)\<rparr>)" (is "pool_reach _ _ _ ?p")
    by (rule pool_pass) (simp_all add: p(2))
  have "\<forall>b<2. \<exists>!q. b \<in> buffer_places ?p q" using buffer_pool_acquirers r by blast
  then have "\<exists>!q. 1 \<in> buffer_places ?p q" by simp
  moreover have "bp_held ?p 1 = [1]" by (simp add: p(2))
  ultimately show ?thesis using r by blast
qed

end
