(* ===== verification/Double.thy ===== *)
theory Double
  imports Prelude "HOL-Library.Signed_Division"
begin

text \<open>
  IEEE 754 double-precision numbers as the configuration uses them: a finite one is a significand times a power of
  two; there are the two infinities and NaN, which a configuration file can also hold.  The code
  applies three operations to them: comparison (false whenever NaN is involved), multiplication rounded to
  53 significant bits (ties to even, infinite beyond the exponent range), and the conversion to an
  integer, which truncates.  Small products keep 53 bits where a double becomes subnormal.

  The conversion is undefined in C++ when the truncated value does not fit into 64 bits; here its result is then
  not a 64-bit integer either, so that a theorem with the hypothesis \<open>int64\<close> excludes the case.
\<close>

datatype double = Double (significand: int) (binexp: int) | Infinite (is_negative: bool) | NaN

fun bit_length :: "nat \<Rightarrow> nat" where
  "bit_length n = (if n = 0 then 0 else Suc (bit_length (n div 2)))"

declare bit_length.simps [simp del]

text \<open>Rounding \<open>m * 2 ^ e\<close>.\<close>

definition round_double :: "int \<Rightarrow> int \<Rightarrow> double" where
  "round_double m e =
     (let a = nat \<bar>m\<bar>; k = bit_length a - 53;
          q = a div 2 ^ k; r = a mod 2 ^ k;
          q = (if k \<noteq> 0 \<and> (2 ^ k < 2 * r \<or> 2 * r = 2 ^ k \<and> odd q) then q + 1 else q);
          e = e + int k
      in if q \<noteq> 0 \<and> 1024 < int (bit_length q) + e then Infinite (m < 0) else Double (sgn m * int q) e)"

fun times_double :: "double \<Rightarrow> double \<Rightarrow> double" where
  "times_double (Double m e) (Double n f) = round_double (m * n) (e + f)"
| "times_double (Double m e) (Infinite neg) = (if m = 0 then NaN else Infinite ((m < 0) \<noteq> neg))"
| "times_double (Infinite neg) (Double n f) = (if n = 0 then NaN else Infinite (neg \<noteq> (n < 0)))"
| "times_double (Infinite neg) (Infinite neg') = Infinite (neg \<noteq> neg')"
| "times_double NaN _ = NaN"
| "times_double _ NaN = NaN"

fun int64_of_double :: "double \<Rightarrow> int" where
  "int64_of_double (Double m e) =
     (if 0 \<le> e then m * 2 ^ nat e else sgn m * (\<bar>m\<bar> div 2 ^ nat (- e)))"
| "int64_of_double _ = 2 ^ 63"

fun less_eq_double :: "double \<Rightarrow> double \<Rightarrow> bool" where
  "less_eq_double (Double m e) (Double n f) \<longleftrightarrow> m * 2 ^ nat (e - min e f) \<le> n * 2 ^ nat (f - min e f)"
| "less_eq_double (Double m e) (Infinite neg) \<longleftrightarrow> \<not> neg"
| "less_eq_double (Infinite neg) (Double n f) \<longleftrightarrow> neg"
| "less_eq_double (Infinite neg) (Infinite neg') \<longleftrightarrow> neg \<or> \<not> neg'"
| "less_eq_double NaN _ \<longleftrightarrow> False"
| "less_eq_double _ NaN \<longleftrightarrow> False"

definition less_double :: "double \<Rightarrow> double \<Rightarrow> bool" where
  "less_double a b \<longleftrightarrow> a \<noteq> NaN \<and> b \<noteq> NaN \<and> \<not> less_eq_double b a"

text \<open>A double that is an integer, as a literal such as \<^verbatim>\<open>1e9\<close> is.\<close>

definition double_of_int :: "int \<Rightarrow> double" where
  "double_of_int n = Double n 0"

text \<open>What a test \<^verbatim>\<open>x <= 0.0\<close> lets pass.\<close>

lemma less_eq_double_NaN [simp]: "\<not> less_eq_double a NaN" "\<not> less_double NaN a" "\<not> less_double a NaN"
  by (cases a) (simp_all add: less_double_def)

lemma double_of_int_not_NaN [simp]: "double_of_int n \<noteq> NaN" "NaN \<noteq> double_of_int n"
  by (simp_all add: double_of_int_def)

lemma not_less_eq_double: "\<not> less_eq_double a (double_of_int n) \<longleftrightarrow> a = NaN \<or> less_double (double_of_int n) a"
  by (auto simp: less_double_def)

lemma not_less_double:
  "\<not> less_double a (double_of_int n) \<longleftrightarrow> a = NaN \<or> less_eq_double (double_of_int n) a"
  "\<not> less_double (double_of_int n) a \<longleftrightarrow> a = NaN \<or> less_eq_double a (double_of_int n)"
  by (auto simp: less_double_def)

section \<open>Exactness of small products\<close>

lemma bit_length_le: "n < 2 ^ k \<Longrightarrow> bit_length n \<le> k"
proof (induction n arbitrary: k rule: less_induct)
  case (less n)
  show ?case
  proof (cases k)
    case 0
    with less.prems show ?thesis by (simp add: bit_length.simps [of 0])
  next
    case (Suc k')
    with less.prems have "n div 2 < 2 ^ k'" by auto
    then have "n \<noteq> 0 \<Longrightarrow> bit_length (n div 2) \<le> k'" by (intro less.IH) auto
    then show ?thesis using Suc by (simp add: bit_length.simps [of n])
  qed
qed

lemma bit_length_eq: "2 ^ k \<le> n \<Longrightarrow> n < 2 ^ Suc k \<Longrightarrow> bit_length n = Suc k"
proof (induction k arbitrary: n)
  case 0
  then have "n = 1" by simp
  then show ?case by (simp add: bit_length.simps)
next
  case (Suc k)
  then have "2 ^ k \<le> n div 2" "n div 2 < 2 ^ Suc k" by auto
  with Suc.IH have "bit_length (n div 2) = Suc k" by blast
  moreover have "n \<noteq> 0" using Suc.prems(1) by (metis not_numeral_le_zero power_eq_0_iff le_zero_eq zero_neq_numeral)
  ultimately show ?case by (simp add: bit_length.simps [of n])
qed

lemma times_double_exact:
  assumes "\<bar>m * n\<bar> < 2 ^ 53" and "e + f \<le> 971"
  shows "times_double (Double m e) (Double n f) = Double (m * n) (e + f)"
proof -
  have l: "bit_length (nat \<bar>m * n\<bar>) \<le> 53" using assms(1) by (intro bit_length_le) (simp add: nat_less_iff)
  then have "\<not> 1024 < int (bit_length (nat \<bar>m * n\<bar>)) + (e + f)" using assms(2) by linarith
  with l show ?thesis by (simp add: round_double_def Let_def sgn_mult_abs)
qed

end
