(* ===== verification/Exchange_Config.thy ===== *)
theory Exchange_Config
  imports Double
begin

text \<open>
  \<^verbatim>\<open>src/config/exchange_config.h\<close>, \<^verbatim>\<open>channel_config.h\<close> and \<^verbatim>\<open>validateConfig\<close> of \<^verbatim>\<open>config_loader.cpp\<close>: the
  configuration, its defaults and its validation.  A thrown \<^verbatim>\<open>ConfigValidationError\<close> is the left value of
  a sum; its constructors are the texts of the messages, in the order of the checks.
\<close>

section \<open>Configuration data\<close>

record NetworkConfig =
  tcp_listen_address :: string
  tcp_listen_port :: "16 word"
  multicast_base_address :: string
  multicast_base_port :: "16 word"
  io_threads :: int

definition NetworkConfig_default :: NetworkConfig where
  "NetworkConfig_default = \<lparr>tcp_listen_address = ''0.0.0.0'', tcp_listen_port = 9563,
     multicast_base_address = ''239.1.1'', multicast_base_port = 14310, io_threads = 2\<rparr>"

record FeedConfig =
  address_a :: string
  port_a :: "16 word"
  address_b :: string
  port_b :: "16 word"

definition FeedConfig_default :: FeedConfig where
  "FeedConfig_default = \<lparr>address_a = '''', port_a = 0, address_b = '''', port_b = 0\<rparr>"

record ChannelConfig =
  cc_channel_id :: int
  cc_name :: string
  cc_incremental_feed :: FeedConfig
  cc_snapshot_feed :: FeedConfig
  cc_instrument_def_feed :: FeedConfig
  cc_symbols :: "string list"

definition ChannelConfig_default :: ChannelConfig where
  "ChannelConfig_default = \<lparr>cc_channel_id = 0, cc_name = '''', cc_incremental_feed = FeedConfig_default,
     cc_snapshot_feed = FeedConfig_default, cc_instrument_def_feed = FeedConfig_default, cc_symbols = []\<rparr>"

text \<open>The double nearest to \<open>0.01\<close>, and to \<open>0.1\<close>.\<close>

definition double_0_01 :: double where "double_0_01 = Double 5764607523034235 (- 59)"
definition double_0_10 :: double where "double_0_10 = Double 3602879701896397 (- 55)"

record InstrumentConfig =
  ic_symbol :: string
  ic_security_id :: int
  ic_channel_id :: int
  ic_tick_size :: double
  ic_contract_multiplier :: double
  ic_min_price_increment_amount :: double
  ic_min_trade_vol :: int
  ic_max_trade_vol :: int
  ic_maturity_month_year :: string
  ic_display_factor :: double

definition InstrumentConfig_default :: InstrumentConfig where
  "InstrumentConfig_default = \<lparr>ic_symbol = '''', ic_security_id = 0, ic_channel_id = 0,
     ic_tick_size = double_of_int 0, ic_contract_multiplier = double_of_int 0,
     ic_min_price_increment_amount = double_of_int 0, ic_min_trade_vol = 1, ic_max_trade_vol = 10000,
     ic_maturity_month_year = '''', ic_display_factor = double_0_01\<rparr>"

record EngineConfig =
  mode :: string
  pcap_path :: string
  synthetic_fill_probability :: double
  synthetic_fill_latency_ns :: "64 word"

definition EngineConfig_default :: EngineConfig where
  "EngineConfig_default = \<lparr>mode = ''full_matching'', pcap_path = '''',
     synthetic_fill_probability = double_of_int 1, synthetic_fill_latency_ns = 1000\<rparr>"

record RiskConfig =
  max_order_qty :: int
  max_price_deviation_pct :: double
  max_orders_per_second :: int
  max_position_per_session :: int

definition RiskConfig_default :: RiskConfig where
  "RiskConfig_default = \<lparr>max_order_qty = 10000, max_price_deviation_pct = double_of_int 10,
     max_orders_per_second = 1000, max_position_per_session = 50000\<rparr>"

record SessionConfig =
  cfg_hmac_enabled :: bool
  cfg_hmac_key :: string
  cfg_keep_alive_interval_ms :: "32 word"
  cfg_max_sessions :: int
  cfg_retransmit_buffer_size :: int

definition SessionConfig_default :: SessionConfig where
  "SessionConfig_default = \<lparr>cfg_hmac_enabled = False, cfg_hmac_key = ''test_key'',
     cfg_keep_alive_interval_ms = 30000, cfg_max_sessions = 100, cfg_retransmit_buffer_size = 10000\<rparr>"

record ExchangeConfig =
  network :: NetworkConfig
  channels :: "ChannelConfig list"
  instruments :: "InstrumentConfig list"
  engine :: EngineConfig
  risk :: RiskConfig
  session_config :: SessionConfig
  log_level :: string

definition ExchangeConfig_default :: ExchangeConfig where
  "ExchangeConfig_default = \<lparr>network = NetworkConfig_default, channels = [], instruments = [],
     engine = EngineConfig_default, risk = RiskConfig_default, session_config = SessionConfig_default,
     log_level = ''info''\<rparr>"

section \<open>Defaults\<close>

definition default_channel :: "int \<Rightarrow> string \<Rightarrow> 16 word \<Rightarrow> string list \<Rightarrow> ChannelConfig" where
  "default_channel cid nm port syms =
     \<lparr>cc_channel_id = cid, cc_name = nm,
      cc_incremental_feed = \<lparr>address_a = ''239.1.1.1'', port_a = 14000 + port, address_b = ''239.1.1.4'', port_b = 14000 + port\<rparr>,
      cc_snapshot_feed = \<lparr>address_a = ''239.1.1.2'', port_a = 15000 + port, address_b = ''239.1.1.5'', port_b = 15000 + port\<rparr>,
      cc_instrument_def_feed = \<lparr>address_a = ''239.1.1.3'', port_a = 16000 + port, address_b = ''239.1.1.6'', port_b = 16000 + port\<rparr>,
      cc_symbols = syms\<rparr>"

definition createDefaultChannels :: "ChannelConfig list" where
  "createDefaultChannels =
     [default_channel 310 ''ES/MES'' 310 [''ESH5'', ''ESM5'', ''MESH5'', ''MESM5''],
      default_channel 311 ''NQ/MNQ'' 311 [''NQH5'', ''NQM5'', ''MNQH5'', ''MNQM5''],
      default_channel 312 ''YM/MYM'' 312 [''YMH5'', ''YMM5'', ''MYMH5'', ''MYMM5''],
      default_channel 313 ''RTY/M2K'' 313 [''RTYH5'', ''RTYM5'', ''M2KH5'', ''M2KM5'']]"

definition default_instrument :: "string \<Rightarrow> int \<Rightarrow> int \<Rightarrow> double \<Rightarrow> double \<Rightarrow> double \<Rightarrow> string \<Rightarrow> InstrumentConfig" where
  "default_instrument symb sid cid tick mult amount maturity =
     \<lparr>ic_symbol = symb, ic_security_id = sid, ic_channel_id = cid, ic_tick_size = tick,
      ic_contract_multiplier = mult, ic_min_price_increment_amount = amount, ic_min_trade_vol = 1,
      ic_max_trade_vol = 10000, ic_maturity_month_year = maturity, ic_display_factor = double_0_01\<rparr>"

text \<open>The quarter tick \<open>0.25\<close> and the amounts are exact doubles.\<close>

definition createDefaultInstruments :: "InstrumentConfig list" where
  "createDefaultInstruments =
     [default_instrument ''ESH5'' 1 310 (Double 1 (- 2)) (double_of_int 50) (Double 25 (- 1)) ''202503'',
      default_instrument ''ESM5'' 2 310 (Double 1 (- 2)) (double_of_int 50) (Double 25 (- 1)) ''202506'',
      default_instrument ''MESH5'' 3 310 (Double 1 (- 2)) (double_of_int 5) (Double 5 (- 2)) ''202503'',
      default_instrument ''MESM5'' 4 310 (Double 1 (- 2)) (double_of_int 5) (Double 5 (- 2)) ''202506'',
      default_instrument ''NQH5'' 5 311 (Double 1 (- 2)) (double_of_int 20) (double_of_int 5) ''202503'',
      default_instrument ''NQM5'' 6 311 (Double 1 (- 2)) (double_of_int 20) (double_of_int 5) ''202506'',
      default_instrument ''MNQH5'' 7 311 (Double 1 (- 2)) (double_of_int 2) (Double 1 (- 1)) ''202503'',
      default_instrument ''MNQM5'' 8 311 (Double 1 (- 2)) (double_of_int 2) (Double 1 (- 1)) ''202506'',
      default_instrument ''YMH5'' 9 312 (double_of_int 1) (double_of_int 5) (double_of_int 5) ''202503'',
      default_instrument ''YMM5'' 10 312 (double_of_int 1) (double_of_int 5) (double_of_int 5) ''202506'',
      default_instrument ''MYMH5'' 11 312 (double_of_int 1) (Double 1 (- 1)) (Double 1 (- 1)) ''202503'',
      default_instrument ''MYMM5'' 12 312 (double_of_int 1) (Double 1 (- 1)) (Double 1 (- 1)) ''202506'',
      default_instrument ''RTYH5'' 13 313 double_0_10 (double_of_int 50) (double_of_int 5) ''202503'',
      default_instrument ''RTYM5'' 14 313 double_0_10 (double_of_int 50) (double_of_int 5) ''202506'',
      default_instrument ''M2KH5'' 15 313 double_0_10 (double_of_int 5) (Double 1 (- 1)) ''202503'',
      default_instrument ''M2KM5'' 16 313 double_0_10 (double_of_int 5) (Double 1 (- 1)) ''202506'']"

definition createDefaultConfig :: ExchangeConfig where
  "createDefaultConfig =
     ExchangeConfig_default\<lparr>channels := createDefaultChannels, instruments := createDefaultInstruments\<rparr>"

section \<open>Validation\<close>

datatype ConfigValidationError =
    Port_zero | Too_few_io_threads | Bad_mode string | Pcap_path_required | Bad_fill_probability
  | Bad_max_order_qty | Bad_price_deviation | Bad_order_rate | Bad_max_sessions | Bad_buffer_size
  | Bad_channel_id | Duplicate_channel_id int | No_symbols int
  | Empty_symbol | Duplicate_symbol string | Bad_security_id string | Duplicate_security_id int
  | Bad_tick_size string | Bad_multiplier string | Bad_min_trade_vol string | Bad_max_trade_vol string
  | Unknown_channel string int | Bad_log_level string

type_synonym 'a validated = "ConfigValidationError + 'a"

definition throw_if :: "bool \<Rightarrow> ConfigValidationError \<Rightarrow> unit validated \<Rightarrow> unit validated" where
  "throw_if b e rest = (if b then Inl e else rest)"

text \<open>The channel loop, with the set of ids seen so far; it returns the final set.\<close>

fun validate_channels :: "int set \<Rightarrow> ChannelConfig list \<Rightarrow> int set validated" where
  "validate_channels ids [] = Inr ids"
| "validate_channels ids (ch # chs) =
     (if cc_channel_id ch \<le> 0 then Inl Bad_channel_id
      else if cc_channel_id ch \<in> ids then Inl (Duplicate_channel_id (cc_channel_id ch))
      else if cc_symbols ch = [] then Inl (No_symbols (cc_channel_id ch))
      else validate_channels (insert (cc_channel_id ch) ids) chs)"

text \<open>The instrument loop, with the symbols and security ids seen so far.\<close>

fun validate_instruments ::
  "int set \<Rightarrow> bool \<Rightarrow> string set \<Rightarrow> int set \<Rightarrow> InstrumentConfig list \<Rightarrow> unit validated" where
  "validate_instruments channel_ids no_channels symbols security_ids [] = Inr ()"
| "validate_instruments channel_ids no_channels symbols security_ids (ic # ics) =
     (if ic_symbol ic = [] then Inl Empty_symbol
      else if ic_symbol ic \<in> symbols then Inl (Duplicate_symbol (ic_symbol ic))
      else if ic_security_id ic \<le> 0 then Inl (Bad_security_id (ic_symbol ic))
      else if ic_security_id ic \<in> security_ids then Inl (Duplicate_security_id (ic_security_id ic))
      else if less_eq_double (ic_tick_size ic) (double_of_int 0) then Inl (Bad_tick_size (ic_symbol ic))
      else if less_eq_double (ic_contract_multiplier ic) (double_of_int 0) then Inl (Bad_multiplier (ic_symbol ic))
      else if ic_min_trade_vol ic \<le> 0 then Inl (Bad_min_trade_vol (ic_symbol ic))
      else if ic_max_trade_vol ic < ic_min_trade_vol ic then Inl (Bad_max_trade_vol (ic_symbol ic))
      else if ic_channel_id ic \<notin> channel_ids \<and> \<not> no_channels
        then Inl (Unknown_channel (ic_symbol ic) (ic_channel_id ic))
      else validate_instruments channel_ids no_channels (insert (ic_symbol ic) symbols)
             (insert (ic_security_id ic) security_ids) ics)"

definition valid_levels :: "string list" where
  "valid_levels = [''trace'', ''debug'', ''info'', ''warn'', ''error'', ''critical'', ''off'']"

definition validateConfig :: "ExchangeConfig \<Rightarrow> unit validated" where
  "validateConfig config =
     throw_if (tcp_listen_port (network config) = 0) Port_zero (
     throw_if (io_threads (network config) < 1) Too_few_io_threads (
     throw_if (mode (engine config) \<noteq> ''full_matching'' \<and> mode (engine config) \<noteq> ''synthetic'')
       (Bad_mode (mode (engine config))) (
     throw_if (mode (engine config) = ''synthetic'' \<and> pcap_path (engine config) = []) Pcap_path_required (
     throw_if (less_double (synthetic_fill_probability (engine config)) (double_of_int 0) \<or>
               less_double (double_of_int 1) (synthetic_fill_probability (engine config))) Bad_fill_probability (
     throw_if (max_order_qty (risk config) \<le> 0) Bad_max_order_qty (
     throw_if (less_eq_double (max_price_deviation_pct (risk config)) (double_of_int 0)) Bad_price_deviation (
     throw_if (max_orders_per_second (risk config) \<le> 0) Bad_order_rate (
     throw_if (cfg_max_sessions (session_config config) \<le> 0) Bad_max_sessions (
     throw_if (cfg_retransmit_buffer_size (session_config config) \<le> 0) Bad_buffer_size (
     case validate_channels {} (channels config) of
       Inl e \<Rightarrow> Inl e
     | Inr channel_ids \<Rightarrow>
         (case validate_instruments channel_ids (channels config = []) {} {} (instruments config) of
            Inl e \<Rightarrow> Inl e
          | Inr _ \<Rightarrow> throw_if (log_level config \<notin> set valid_levels) (Bad_log_level (log_level config)) (Inr ()))))))))))))"

section \<open>What a valid configuration is\<close>

lemma throw_if_Inr [simp]: "throw_if b e rest = Inr u \<longleftrightarrow> \<not> b \<and> rest = Inr u"
  by (simp add: throw_if_def)

lemma validate_channels_iff:
  "validate_channels ids chs = Inr r \<longleftrightarrow>
     r = ids \<union> cc_channel_id ` set chs \<and> distinct (map cc_channel_id chs) \<and>
     (\<forall>ch\<in>set chs. 0 < cc_channel_id ch \<and> cc_channel_id ch \<notin> ids \<and> cc_symbols ch \<noteq> [])"
  by (induction ids chs rule: validate_channels.induct) (auto, (metis imageI)+)

text \<open>What the tests on floating-point values let pass: every comparison with NaN is false.\<close>

definition positive_or_NaN :: "double \<Rightarrow> bool" where
  "positive_or_NaN d \<longleftrightarrow> d = NaN \<or> less_double (double_of_int 0) d"

definition fraction_or_NaN :: "double \<Rightarrow> bool" where
  "fraction_or_NaN d \<longleftrightarrow> d = NaN \<or> less_eq_double (double_of_int 0) d \<and> less_eq_double d (double_of_int 1)"

text \<open>One instrument's own conditions.\<close>

definition instrument_ok :: "InstrumentConfig \<Rightarrow> bool" where
  "instrument_ok ic \<longleftrightarrow> ic_symbol ic \<noteq> [] \<and> 0 < ic_security_id ic \<and> positive_or_NaN (ic_tick_size ic) \<and>
     positive_or_NaN (ic_contract_multiplier ic) \<and> 0 < ic_min_trade_vol ic \<and>
     ic_min_trade_vol ic \<le> ic_max_trade_vol ic"

lemma validate_instruments_iff:
  "validate_instruments cids none syms sids ics = Inr () \<longleftrightarrow>
     distinct (map ic_symbol ics) \<and> distinct (map ic_security_id ics) \<and>
     (\<forall>ic\<in>set ics. instrument_ok ic \<and> ic_symbol ic \<notin> syms \<and> ic_security_id ic \<notin> sids \<and>
        (ic_channel_id ic \<in> cids \<or> none))"
  by (induction cids none syms sids ics rule: validate_instruments.induct)
    (auto simp: instrument_ok_def positive_or_NaN_def not_less_eq_double [symmetric] not_le not_less, (metis imageI)+)

lemma validateConfig_iff:
  "validateConfig config = Inr () \<longleftrightarrow>
     tcp_listen_port (network config) \<noteq> 0 \<and> 1 \<le> io_threads (network config) \<and>
     mode (engine config) \<in> {''full_matching'', ''synthetic''} \<and>
     (mode (engine config) = ''synthetic'' \<longrightarrow> pcap_path (engine config) \<noteq> []) \<and>
     fraction_or_NaN (synthetic_fill_probability (engine config)) \<and>
     0 < max_order_qty (risk config) \<and> positive_or_NaN (max_price_deviation_pct (risk config)) \<and>
     0 < max_orders_per_second (risk config) \<and> 0 < cfg_max_sessions (session_config config) \<and>
     0 < cfg_retransmit_buffer_size (session_config config) \<and>
     distinct (map cc_channel_id (channels config)) \<and>
     (\<forall>ch\<in>set (channels config). 0 < cc_channel_id ch \<and> cc_symbols ch \<noteq> []) \<and>
     distinct (map ic_symbol (instruments config)) \<and> distinct (map ic_security_id (instruments config)) \<and>
     (\<forall>ic\<in>set (instruments config). instrument_ok ic \<and>
        (channels config = [] \<or> ic_channel_id ic \<in> cc_channel_id ` set (channels config))) \<and>
     log_level config \<in> set valid_levels"
proof -
  have "(case validate_channels {} (channels config) of Inl e \<Rightarrow> Inl e
       | Inr cids \<Rightarrow> (case validate_instruments cids (channels config = []) {} {} (instruments config) of
            Inl e \<Rightarrow> Inl e | Inr _ \<Rightarrow> throw_if (log_level config \<notin> set valid_levels) e' (Inr ()))) = Inr () \<longleftrightarrow>
     distinct (map cc_channel_id (channels config)) \<and>
     (\<forall>ch\<in>set (channels config). 0 < cc_channel_id ch \<and> cc_symbols ch \<noteq> []) \<and>
     distinct (map ic_symbol (instruments config)) \<and> distinct (map ic_security_id (instruments config)) \<and>
     (\<forall>ic\<in>set (instruments config). instrument_ok ic \<and>
        (channels config = [] \<or> ic_channel_id ic \<in> cc_channel_id ` set (channels config))) \<and>
     log_level config \<in> set valid_levels" for e'
  proof (cases "validate_channels {} (channels config)")
    case (Inl e)
    then have "\<not> (distinct (map cc_channel_id (channels config)) \<and>
        (\<forall>ch\<in>set (channels config). 0 < cc_channel_id ch \<and> cc_symbols ch \<noteq> []))"
      using validate_channels_iff [of "{}" "channels config" "cc_channel_id ` set (channels config)"] by auto
    then show ?thesis unfolding Inl sum.case by blast
  next
    case (Inr cids)
    then have c: "cids = cc_channel_id ` set (channels config)" "distinct (map cc_channel_id (channels config))"
      "\<forall>ch\<in>set (channels config). 0 < cc_channel_id ch \<and> cc_symbols ch \<noteq> []"
      using validate_channels_iff [of "{}" "channels config" cids] by auto
    show ?thesis
      unfolding Inr sum.case using c validate_instruments_iff [of cids "channels config = []" "{}" "{}" "instruments config"]
      by (cases "validate_instruments cids (channels config = []) {} {} (instruments config)") auto
  qed
  then show ?thesis
    by (auto simp: validateConfig_def positive_or_NaN_def fraction_or_NaN_def not_less_eq_double not_less_double not_le)
qed

lemma valid_distinct:
  assumes "validateConfig config = Inr ()"
  shows "distinct (map cc_channel_id (channels config))" "distinct (map ic_symbol (instruments config))"
    "distinct (map ic_security_id (instruments config))"
  using assms unfolding validateConfig_iff by blast+

lemma default_config_valid: "validateConfig createDefaultConfig = Inr ()"
  unfolding validateConfig_iff by code_simp

text \<open>
  C36.  What validation decides: a configuration is accepted if and only if the
  port is non-zero, there is an I/O thread, the engine mode is known and complete, the fill probability is
  between 0 and 1 or NaN, the integer limits are positive, the price deviation is positive or NaN, channel ids, security
  ids and symbols are positive or non-empty and unique, every instrument is well formed (its tick size and
  multiplier positive or NaN) and refers to a configured channel, and the log level is known.  The conditions are the
  documented ones but for NaN, which passes all four tests of floating-point values.
\<close>

theorem validateConfig_decides:
  "validateConfig config = Inr () \<longleftrightarrow>
     tcp_listen_port (network config) \<noteq> 0 \<and> 1 \<le> io_threads (network config) \<and>
     mode (engine config) \<in> {''full_matching'', ''synthetic''} \<and>
     (mode (engine config) = ''synthetic'' \<longrightarrow> pcap_path (engine config) \<noteq> []) \<and>
     fraction_or_NaN (synthetic_fill_probability (engine config)) \<and>
     0 < max_order_qty (risk config) \<and> positive_or_NaN (max_price_deviation_pct (risk config)) \<and>
     0 < max_orders_per_second (risk config) \<and> 0 < cfg_max_sessions (session_config config) \<and>
     0 < cfg_retransmit_buffer_size (session_config config) \<and>
     distinct (map cc_channel_id (channels config)) \<and>
     (\<forall>ch\<in>set (channels config). 0 < cc_channel_id ch \<and> cc_symbols ch \<noteq> []) \<and>
     distinct (map ic_symbol (instruments config)) \<and> distinct (map ic_security_id (instruments config)) \<and>
     (\<forall>ic\<in>set (instruments config). instrument_ok ic \<and>
        (channels config = [] \<or> ic_channel_id ic \<in> cc_channel_id ` set (channels config))) \<and>
     log_level config \<in> set valid_levels"
  by (rule validateConfig_iff)

theorem validateConfig_decides_witness: "validateConfig createDefaultConfig = Inr ()"
  unfolding validateConfig_decides by code_simp

text \<open>So a configuration with NaN in all four places is accepted.\<close>

definition nan_config :: ExchangeConfig where
  "nan_config = createDefaultConfig
     \<lparr>engine := EngineConfig_default\<lparr>synthetic_fill_probability := NaN\<rparr>,
      risk := RiskConfig_default\<lparr>max_price_deviation_pct := NaN\<rparr>,
      instruments := map (\<lambda>ic. ic\<lparr>ic_tick_size := NaN, ic_contract_multiplier := NaN\<rparr>) createDefaultInstruments\<rparr>"

lemma nan_config_accepted: "validateConfig nan_config = Inr ()"
  unfolding validateConfig_iff by code_simp

end
