(* ===== verification/Config_Loader.thy ===== *)
theory Config_Loader
  imports Exchange_Config "HOL-Library.Monad_Syntax"
begin

text \<open>
  \<^verbatim>\<open>loadConfig\<close> and the parse functions of \<^verbatim>\<open>src/config/config_loader.cpp\<close>.

  The YAML library is not part of the program: a document is a value of an arbitrary type \<open>'n\<close> of nodes, and
  the library's operations are the fields of a record that every function takes as its first argument.  A
  node of type \<open>'n\<close> is a defined node; an undefined one is \<open>None\<close>.  An operation that throws returns \<open>None\<close> in its
  outer option, and so does a parse function when an exception of the library leaves it.
\<close>

section \<open>The YAML library as a parameter\<close>

record 'n yaml =
  y_get :: "'n \<Rightarrow> string \<Rightarrow> 'n option option"
  y_is_map :: "'n \<Rightarrow> bool"
  y_is_sequence :: "'n \<Rightarrow> bool"
  y_items :: "'n \<Rightarrow> 'n list"
  as_string :: "'n \<Rightarrow> string option"
  as_int :: "'n \<Rightarrow> int option"
  as_uint16 :: "'n \<Rightarrow> 16 word option"
  as_uint32 :: "'n \<Rightarrow> 32 word option"
  as_uint64 :: "'n \<Rightarrow> 64 word option"
  as_int64 :: "'n \<Rightarrow> int option"
  as_double :: "'n \<Rightarrow> double option"
  as_bool :: "'n \<Rightarrow> bool option"

text \<open>The statement \<^verbatim>\<open>if (node["k"]) c.f = node["k"].as<T>();\<close>, with the conversion and the assignment as arguments.\<close>

definition set_key :: "'n yaml \<Rightarrow> 'n \<Rightarrow> string \<Rightarrow> ('n \<Rightarrow> 'v option) \<Rightarrow> ('v \<Rightarrow> 'c \<Rightarrow> 'c) \<Rightarrow> 'c \<Rightarrow> 'c option" where
  "set_key y n k conv assign c =
     (case y_get y n k of
        None \<Rightarrow> None
      | Some None \<Rightarrow> Some c
      | Some (Some m) \<Rightarrow> map_option (\<lambda>v. assign v c) (conv m))"

section \<open>Parse functions\<close>

definition parseFeed :: "'n yaml \<Rightarrow> 'n \<Rightarrow> FeedConfig option" where
  "parseFeed y node =
     (if \<not> y_is_map y node then Some FeedConfig_default
      else do {
        feed \<leftarrow> set_key y node ''address_a'' (as_string y) (\<lambda>v feed. feed\<lparr>address_a := v\<rparr>) FeedConfig_default;
        feed \<leftarrow> set_key y node ''port_a'' (as_uint16 y) (\<lambda>v feed. feed\<lparr>port_a := v\<rparr>) feed;
        feed \<leftarrow> set_key y node ''address_b'' (as_string y) (\<lambda>v feed. feed\<lparr>address_b := v\<rparr>) feed;
        set_key y node ''port_b'' (as_uint16 y) (\<lambda>v feed. feed\<lparr>port_b := v\<rparr>) feed
      })"

text \<open>The conversion of a list of nodes, one after the other.\<close>

primrec parse_all :: "('n \<Rightarrow> 'v option) \<Rightarrow> 'n list \<Rightarrow> 'v list option" where
  "parse_all conv [] = Some []"
| "parse_all conv (n # ns) = do { v \<leftarrow> conv n; vs \<leftarrow> parse_all conv ns; Some (v # vs) }"

text \<open>The list under a key: \<open>dflt\<close> when there is none or it is not a sequence.\<close>

definition parse_list :: "'n yaml \<Rightarrow> 'n \<Rightarrow> string \<Rightarrow> ('n \<Rightarrow> 'v option) \<Rightarrow> 'v list \<Rightarrow> 'v list option" where
  "parse_list y n k conv dflt =
     (case y_get y n k of
        None \<Rightarrow> None
      | Some None \<Rightarrow> Some dflt
      | Some (Some m) \<Rightarrow> if y_is_sequence y m then parse_all conv (y_items y m) else Some dflt)"

definition parseChannel :: "'n yaml \<Rightarrow> 'n \<Rightarrow> ChannelConfig option" where
  "parseChannel y node = do {
     ch \<leftarrow> set_key y node ''channel_id'' (as_int y) (\<lambda>v ch. ch\<lparr>cc_channel_id := v\<rparr>) ChannelConfig_default;
     ch \<leftarrow> set_key y node ''name'' (as_string y) (\<lambda>v ch. ch\<lparr>cc_name := v\<rparr>) ch;
     ch \<leftarrow> set_key y node ''incremental_feed'' (parseFeed y) (\<lambda>v ch. ch\<lparr>cc_incremental_feed := v\<rparr>) ch;
     ch \<leftarrow> set_key y node ''snapshot_feed'' (parseFeed y) (\<lambda>v ch. ch\<lparr>cc_snapshot_feed := v\<rparr>) ch;
     ch \<leftarrow> set_key y node ''instrument_def_feed'' (parseFeed y) (\<lambda>v ch. ch\<lparr>cc_instrument_def_feed := v\<rparr>) ch;
     syms \<leftarrow> parse_list y node ''symbols'' (as_string y) [];
     Some (ch\<lparr>cc_symbols := syms\<rparr>)
   }"

definition parseInstrument :: "'n yaml \<Rightarrow> 'n \<Rightarrow> InstrumentConfig option" where
  "parseInstrument y node = do {
     inst \<leftarrow> set_key y node ''symbol'' (as_string y) (\<lambda>v inst. inst\<lparr>ic_symbol := v\<rparr>) InstrumentConfig_default;
     inst \<leftarrow> set_key y node ''security_id'' (as_int y) (\<lambda>v inst. inst\<lparr>ic_security_id := v\<rparr>) inst;
     inst \<leftarrow> set_key y node ''channel_id'' (as_int y) (\<lambda>v inst. inst\<lparr>ic_channel_id := v\<rparr>) inst;
     inst \<leftarrow> set_key y node ''tick_size'' (as_double y) (\<lambda>v inst. inst\<lparr>ic_tick_size := v\<rparr>) inst;
     inst \<leftarrow> set_key y node ''contract_multiplier'' (as_double y) (\<lambda>v inst. inst\<lparr>ic_contract_multiplier := v\<rparr>) inst;
     inst \<leftarrow> set_key y node ''min_price_increment_amount'' (as_double y) (\<lambda>v inst. inst\<lparr>ic_min_price_increment_amount := v\<rparr>) inst;
     inst \<leftarrow> set_key y node ''min_trade_vol'' (as_int y) (\<lambda>v inst. inst\<lparr>ic_min_trade_vol := v\<rparr>) inst;
     inst \<leftarrow> set_key y node ''max_trade_vol'' (as_int y) (\<lambda>v inst. inst\<lparr>ic_max_trade_vol := v\<rparr>) inst;
     inst \<leftarrow> set_key y node ''maturity_month_year'' (as_string y) (\<lambda>v inst. inst\<lparr>ic_maturity_month_year := v\<rparr>) inst;
     set_key y node ''display_factor'' (as_double y) (\<lambda>v inst. inst\<lparr>ic_display_factor := v\<rparr>) inst
   }"

definition parseNetwork :: "'n yaml \<Rightarrow> 'n \<Rightarrow> NetworkConfig option" where
  "parseNetwork y node =
     (if \<not> y_is_map y node then Some NetworkConfig_default
      else do {
        net \<leftarrow> set_key y node ''tcp_listen_address'' (as_string y) (\<lambda>v net. net\<lparr>tcp_listen_address := v\<rparr>) NetworkConfig_default;
        net \<leftarrow> set_key y node ''tcp_listen_port'' (as_uint16 y) (\<lambda>v net. net\<lparr>tcp_listen_port := v\<rparr>) net;
        net \<leftarrow> set_key y node ''multicast_base_address'' (as_string y) (\<lambda>v net. net\<lparr>multicast_base_address := v\<rparr>) net;
        net \<leftarrow> set_key y node ''multicast_base_port'' (as_uint16 y) (\<lambda>v net. net\<lparr>multicast_base_port := v\<rparr>) net;
        set_key y node ''io_threads'' (as_int y) (\<lambda>v net. net\<lparr>io_threads := v\<rparr>) net
      })"

definition parseEngine :: "'n yaml \<Rightarrow> 'n \<Rightarrow> EngineConfig option" where
  "parseEngine y node =
     (if \<not> y_is_map y node then Some EngineConfig_default
      else do {
        eng \<leftarrow> set_key y node ''mode'' (as_string y) (\<lambda>v eng. eng\<lparr>mode := v\<rparr>) EngineConfig_default;
        eng \<leftarrow> set_key y node ''pcap_path'' (as_string y) (\<lambda>v eng. eng\<lparr>pcap_path := v\<rparr>) eng;
        eng \<leftarrow> set_key y node ''synthetic_fill_probability'' (as_double y) (\<lambda>v eng. eng\<lparr>synthetic_fill_probability := v\<rparr>) eng;
        set_key y node ''synthetic_fill_latency_ns'' (as_uint64 y) (\<lambda>v eng. eng\<lparr>synthetic_fill_latency_ns := v\<rparr>) eng
      })"

definition parseRisk :: "'n yaml \<Rightarrow> 'n \<Rightarrow> RiskConfig option" where
  "parseRisk y node =
     (if \<not> y_is_map y node then Some RiskConfig_default
      else do {
        rsk \<leftarrow> set_key y node ''max_order_qty'' (as_int y) (\<lambda>v rsk. rsk\<lparr>max_order_qty := v\<rparr>) RiskConfig_default;
        rsk \<leftarrow> set_key y node ''max_price_deviation_pct'' (as_double y) (\<lambda>v rsk. rsk\<lparr>max_price_deviation_pct := v\<rparr>) rsk;
        rsk \<leftarrow> set_key y node ''max_orders_per_second'' (as_int y) (\<lambda>v rsk. rsk\<lparr>max_orders_per_second := v\<rparr>) rsk;
        set_key y node ''max_position_per_session'' (as_int64 y) (\<lambda>v rsk. rsk\<lparr>max_position_per_session := v\<rparr>) rsk
      })"

definition parseSession :: "'n yaml \<Rightarrow> 'n \<Rightarrow> SessionConfig option" where
  "parseSession y node =
     (if \<not> y_is_map y node then Some SessionConfig_default
      else do {
        sess \<leftarrow> set_key y node ''hmac_enabled'' (as_bool y) (\<lambda>v sess. sess\<lparr>cfg_hmac_enabled := v\<rparr>) SessionConfig_default;
        sess \<leftarrow> set_key y node ''hmac_key'' (as_string y) (\<lambda>v sess. sess\<lparr>cfg_hmac_key := v\<rparr>) sess;
        sess \<leftarrow> set_key y node ''keep_alive_interval_ms'' (as_uint32 y) (\<lambda>v sess. sess\<lparr>cfg_keep_alive_interval_ms := v\<rparr>) sess;
        sess \<leftarrow> set_key y node ''max_sessions'' (as_int y) (\<lambda>v sess. sess\<lparr>cfg_max_sessions := v\<rparr>) sess;
        set_key y node ''retransmit_buffer_size'' (as_int y) (\<lambda>v sess. sess\<lparr>cfg_retransmit_buffer_size := v\<rparr>) sess
      })"

section \<open>Loading\<close>

datatype load_error = Yaml_exception | Validation ConfigValidationError

text \<open>The part of \<^verbatim>\<open>loadConfig\<close> between reading the file and validating.\<close>

definition parse_root :: "'n yaml \<Rightarrow> 'n \<Rightarrow> ExchangeConfig option" where
  "parse_root y root = do {
     cfg \<leftarrow> set_key y root ''network'' (parseNetwork y) (\<lambda>v cfg. cfg\<lparr>network := v\<rparr>) ExchangeConfig_default;
     cfg \<leftarrow> set_key y root ''engine'' (parseEngine y) (\<lambda>v cfg. cfg\<lparr>engine := v\<rparr>) cfg;
     cfg \<leftarrow> set_key y root ''risk'' (parseRisk y) (\<lambda>v cfg. cfg\<lparr>risk := v\<rparr>) cfg;
     cfg \<leftarrow> set_key y root ''session'' (parseSession y) (\<lambda>v cfg. cfg\<lparr>session_config := v\<rparr>) cfg;
     cfg \<leftarrow> set_key y root ''log_level'' (as_string y) (\<lambda>v cfg. cfg\<lparr>log_level := v\<rparr>) cfg;
     chs \<leftarrow> parse_list y root ''channels'' (parseChannel y) createDefaultChannels;
     ics \<leftarrow> parse_list y root ''instruments'' (parseInstrument y) createDefaultInstruments;
     Some (cfg\<lparr>channels := chs, instruments := ics\<rparr>)
   }"

text \<open>
  \<open>files path\<close> is \<open>None\<close> when there is no such file, \<open>Some None\<close> when \<^verbatim>\<open>YAML::LoadFile\<close> throws, and otherwise
  the root of the document.
\<close>

definition loadConfig :: "'n yaml \<Rightarrow> (string \<Rightarrow> 'n option option) \<Rightarrow> string \<Rightarrow> load_error + ExchangeConfig" where
  "loadConfig y files path =
     (case files path of
        None \<Rightarrow> Inr createDefaultConfig
      | Some None \<Rightarrow> Inl Yaml_exception
      | Some (Some root) \<Rightarrow>
          (case parse_root y root of
             None \<Rightarrow> Inl Yaml_exception
           | Some cfg \<Rightarrow> (case validateConfig cfg of Inl e \<Rightarrow> Inl (Validation e) | Inr _ \<Rightarrow> Inr cfg)))"

section \<open>What a document says\<close>

text \<open>
  A document says \<open>v\<close> under a key when the key is there and its node converts to \<open>v\<close>, or the key is missing and
  \<open>v\<close> is the default.
\<close>

definition reads :: "('n \<Rightarrow> 'v option) \<Rightarrow> 'n \<Rightarrow> 'v \<Rightarrow> bool" where
  "reads conv m v \<longleftrightarrow> conv m = Some v"

definition says :: "'n yaml \<Rightarrow> 'n \<Rightarrow> string \<Rightarrow> ('n \<Rightarrow> 'v \<Rightarrow> bool) \<Rightarrow> 'v \<Rightarrow> 'v \<Rightarrow> bool" where
  "says y n k R d v = (case y_get y n k of None \<Rightarrow> False | Some None \<Rightarrow> v = d | Some (Some m) \<Rightarrow> R m v)"

definition says_list :: "'n yaml \<Rightarrow> 'n \<Rightarrow> string \<Rightarrow> ('n \<Rightarrow> 'v \<Rightarrow> bool) \<Rightarrow> 'v list \<Rightarrow> 'v list \<Rightarrow> bool" where
  "says_list y n k R d vs =
     (case y_get y n k of
        None \<Rightarrow> False
      | Some None \<Rightarrow> vs = d
      | Some (Some m) \<Rightarrow> if y_is_sequence y m then list_all2 R (y_items y m) vs else vs = d)"

definition says_feed :: "'n yaml \<Rightarrow> 'n \<Rightarrow> FeedConfig \<Rightarrow> bool" where
  "says_feed y n c \<longleftrightarrow> (if y_is_map y n then
       says y n ''address_a'' (reads (as_string y)) '''' (address_a c) \<and> says y n ''port_a'' (reads (as_uint16 y)) 0 (port_a c) \<and>
       says y n ''address_b'' (reads (as_string y)) '''' (address_b c) \<and> says y n ''port_b'' (reads (as_uint16 y)) 0 (port_b c)
     else c = FeedConfig_default)"

definition says_instrument :: "'n yaml \<Rightarrow> 'n \<Rightarrow> InstrumentConfig \<Rightarrow> bool" where
  "says_instrument y n c \<longleftrightarrow> 
       says y n ''symbol'' (reads (as_string y)) (ic_symbol InstrumentConfig_default) (ic_symbol c) \<and>
       says y n ''security_id'' (reads (as_int y)) (ic_security_id InstrumentConfig_default) (ic_security_id c) \<and>
       says y n ''channel_id'' (reads (as_int y)) (ic_channel_id InstrumentConfig_default) (ic_channel_id c) \<and>
       says y n ''tick_size'' (reads (as_double y)) (ic_tick_size InstrumentConfig_default) (ic_tick_size c) \<and>
       says y n ''contract_multiplier'' (reads (as_double y)) (ic_contract_multiplier InstrumentConfig_default) (ic_contract_multiplier c) \<and>
       says y n ''min_price_increment_amount'' (reads (as_double y)) (ic_min_price_increment_amount InstrumentConfig_default) (ic_min_price_increment_amount c) \<and>
       says y n ''min_trade_vol'' (reads (as_int y)) (ic_min_trade_vol InstrumentConfig_default) (ic_min_trade_vol c) \<and>
       says y n ''max_trade_vol'' (reads (as_int y)) (ic_max_trade_vol InstrumentConfig_default) (ic_max_trade_vol c) \<and>
       says y n ''maturity_month_year'' (reads (as_string y)) (ic_maturity_month_year InstrumentConfig_default) (ic_maturity_month_year c) \<and>
       says y n ''display_factor'' (reads (as_double y)) (ic_display_factor InstrumentConfig_default) (ic_display_factor c)"

definition says_network :: "'n yaml \<Rightarrow> 'n \<Rightarrow> NetworkConfig \<Rightarrow> bool" where
  "says_network y n c \<longleftrightarrow> (if y_is_map y n then
       says y n ''tcp_listen_address'' (reads (as_string y)) (tcp_listen_address NetworkConfig_default) (tcp_listen_address c) \<and>
       says y n ''tcp_listen_port'' (reads (as_uint16 y)) (tcp_listen_port NetworkConfig_default) (tcp_listen_port c) \<and>
       says y n ''multicast_base_address'' (reads (as_string y)) (multicast_base_address NetworkConfig_default) (multicast_base_address c) \<and>
       says y n ''multicast_base_port'' (reads (as_uint16 y)) (multicast_base_port NetworkConfig_default) (multicast_base_port c) \<and>
       says y n ''io_threads'' (reads (as_int y)) (io_threads NetworkConfig_default) (io_threads c)
     else c = NetworkConfig_default)"

definition says_engine :: "'n yaml \<Rightarrow> 'n \<Rightarrow> EngineConfig \<Rightarrow> bool" where
  "says_engine y n c \<longleftrightarrow> (if y_is_map y n then
       says y n ''mode'' (reads (as_string y)) (mode EngineConfig_default) (mode c) \<and>
       says y n ''pcap_path'' (reads (as_string y)) (pcap_path EngineConfig_default) (pcap_path c) \<and>
       says y n ''synthetic_fill_probability'' (reads (as_double y)) (synthetic_fill_probability EngineConfig_default) (synthetic_fill_probability c) \<and>
       says y n ''synthetic_fill_latency_ns'' (reads (as_uint64 y)) (synthetic_fill_latency_ns EngineConfig_default) (synthetic_fill_latency_ns c)
     else c = EngineConfig_default)"

definition says_risk :: "'n yaml \<Rightarrow> 'n \<Rightarrow> RiskConfig \<Rightarrow> bool" where
  "says_risk y n c \<longleftrightarrow> (if y_is_map y n then
       says y n ''max_order_qty'' (reads (as_int y)) (max_order_qty RiskConfig_default) (max_order_qty c) \<and>
       says y n ''max_price_deviation_pct'' (reads (as_double y)) (max_price_deviation_pct RiskConfig_default) (max_price_deviation_pct c) \<and>
       says y n ''max_orders_per_second'' (reads (as_int y)) (max_orders_per_second RiskConfig_default) (max_orders_per_second c) \<and>
       says y n ''max_position_per_session'' (reads (as_int64 y)) (max_position_per_session RiskConfig_default) (max_position_per_session c)
     else c = RiskConfig_default)"

definition says_session :: "'n yaml \<Rightarrow> 'n \<Rightarrow> SessionConfig \<Rightarrow> bool" where
  "says_session y n c \<longleftrightarrow> (if y_is_map y n then
       says y n ''hmac_enabled'' (reads (as_bool y)) (cfg_hmac_enabled SessionConfig_default) (cfg_hmac_enabled c) \<and>
       says y n ''hmac_key'' (reads (as_string y)) (cfg_hmac_key SessionConfig_default) (cfg_hmac_key c) \<and>
       says y n ''keep_alive_interval_ms'' (reads (as_uint32 y)) (cfg_keep_alive_interval_ms SessionConfig_default) (cfg_keep_alive_interval_ms c) \<and>
       says y n ''max_sessions'' (reads (as_int y)) (cfg_max_sessions SessionConfig_default) (cfg_max_sessions c) \<and>
       says y n ''retransmit_buffer_size'' (reads (as_int y)) (cfg_retransmit_buffer_size SessionConfig_default) (cfg_retransmit_buffer_size c)
     else c = SessionConfig_default)"

definition says_channel :: "'n yaml \<Rightarrow> 'n \<Rightarrow> ChannelConfig \<Rightarrow> bool" where
  "says_channel y n c \<longleftrightarrow>
     says y n ''channel_id'' (reads (as_int y)) 0 (cc_channel_id c) \<and> says y n ''name'' (reads (as_string y)) '''' (cc_name c) \<and>
     says y n ''incremental_feed'' (says_feed y) FeedConfig_default (cc_incremental_feed c) \<and>
     says y n ''snapshot_feed'' (says_feed y) FeedConfig_default (cc_snapshot_feed c) \<and>
     says y n ''instrument_def_feed'' (says_feed y) FeedConfig_default (cc_instrument_def_feed c) \<and>
     says_list y n ''symbols'' (reads (as_string y)) [] (cc_symbols c)"

definition says_config :: "'n yaml \<Rightarrow> 'n \<Rightarrow> ExchangeConfig \<Rightarrow> bool" where
  "says_config y n c \<longleftrightarrow>
     says y n ''network'' (says_network y) NetworkConfig_default (network c) \<and>
     says y n ''engine'' (says_engine y) EngineConfig_default (engine c) \<and>
     says y n ''risk'' (says_risk y) RiskConfig_default (risk c) \<and>
     says y n ''session'' (says_session y) SessionConfig_default (session_config c) \<and>
     says y n ''log_level'' (reads (as_string y)) ''info'' (log_level c) \<and>
     says_list y n ''channels'' (says_channel y) createDefaultChannels (channels c) \<and>
     says_list y n ''instruments'' (says_instrument y) createDefaultInstruments (instruments c)"

lemma set_key_says:
  assumes "\<And>c. assign (field c) c = c"
  shows "set_key y n k conv assign c = Some c' \<longleftrightarrow> (\<exists>v. says y n k (reads conv) (field c) v \<and> c' = assign v c)"
  using assms by (auto simp: set_key_def says_def reads_def split: option.splits)

lemma set_key_bind:
  assumes "\<And>c. assign (field c) c = c"
  shows "Option.bind (set_key y n k conv assign c) f = Some r \<longleftrightarrow>
    (\<exists>v. says y n k (reads conv) (field c) v \<and> f (assign v c) = Some r)"
  unfolding Option.bind_eq_Some_conv set_key_says [where assign = assign and field = field, OF assms] by blast

lemma parse_all_iff: "parse_all conv ns = Some vs \<longleftrightarrow> list_all2 (reads conv) ns vs"
  by (induction ns arbitrary: vs) (auto simp: Option.bind_eq_Some_conv list_all2_Cons1 reads_def)

lemma parse_list_says: "parse_list y n k conv d = Some vs \<longleftrightarrow> says_list y n k (reads conv) d vs"
  by (auto simp: parse_list_def says_list_def parse_all_iff split: option.splits)

lemma parse_list_bind:
  "Option.bind (parse_list y n k conv d) f = Some r \<longleftrightarrow> (\<exists>vs. says_list y n k (reads conv) d vs \<and> f vs = Some r)"
  unfolding Option.bind_eq_Some_conv parse_list_says by blast

lemmas feed_keys = set_key_bind [where field = address_a] set_key_bind [where field = port_a]
  set_key_bind [where field = address_b] set_key_says [where field = port_b]

lemma parseFeed_iff: "parseFeed y n = Some c \<longleftrightarrow> says_feed y n c"
  by (cases c) (auto simp: parseFeed_def says_feed_def FeedConfig_default_def feed_keys)

lemmas instrument_keys = set_key_bind [where field = ic_symbol]
  set_key_bind [where field = ic_security_id]
  set_key_bind [where field = ic_channel_id]
  set_key_bind [where field = ic_tick_size]
  set_key_bind [where field = ic_contract_multiplier]
  set_key_bind [where field = ic_min_price_increment_amount]
  set_key_bind [where field = ic_min_trade_vol]
  set_key_bind [where field = ic_max_trade_vol]
  set_key_bind [where field = ic_maturity_month_year]
  set_key_says [where field = ic_display_factor]

lemma parseInstrument_iff: "parseInstrument y n = Some c \<longleftrightarrow> says_instrument y n c"
  by (cases c) (auto simp: parseInstrument_def says_instrument_def InstrumentConfig_default_def instrument_keys)

lemmas network_keys = set_key_bind [where field = tcp_listen_address]
  set_key_bind [where field = tcp_listen_port]
  set_key_bind [where field = multicast_base_address]
  set_key_bind [where field = multicast_base_port]
  set_key_says [where field = io_threads]

lemma parseNetwork_iff: "parseNetwork y n = Some c \<longleftrightarrow> says_network y n c"
  by (cases c) (auto simp: parseNetwork_def says_network_def NetworkConfig_default_def network_keys)

lemmas engine_keys = set_key_bind [where field = mode]
  set_key_bind [where field = pcap_path]
  set_key_bind [where field = synthetic_fill_probability]
  set_key_says [where field = synthetic_fill_latency_ns]

lemma parseEngine_iff: "parseEngine y n = Some c \<longleftrightarrow> says_engine y n c"
  by (cases c) (auto simp: parseEngine_def says_engine_def EngineConfig_default_def engine_keys)

lemmas risk_keys = set_key_bind [where field = max_order_qty]
  set_key_bind [where field = max_price_deviation_pct]
  set_key_bind [where field = max_orders_per_second]
  set_key_says [where field = max_position_per_session]

lemma parseRisk_iff: "parseRisk y n = Some c \<longleftrightarrow> says_risk y n c"
  by (cases c) (auto simp: parseRisk_def says_risk_def RiskConfig_default_def risk_keys)

lemmas session_keys = set_key_bind [where field = cfg_hmac_enabled]
  set_key_bind [where field = cfg_hmac_key]
  set_key_bind [where field = cfg_keep_alive_interval_ms]
  set_key_bind [where field = cfg_max_sessions]
  set_key_says [where field = cfg_retransmit_buffer_size]

lemma parseSession_iff: "parseSession y n = Some c \<longleftrightarrow> says_session y n c"
  by (cases c) (auto simp: parseSession_def says_session_def SessionConfig_default_def session_keys)

lemmas channel_keys = set_key_bind [where field = cc_channel_id] set_key_bind [where field = cc_name]
  set_key_bind [where field = cc_incremental_feed] set_key_bind [where field = cc_snapshot_feed]
  set_key_bind [where field = cc_instrument_def_feed]

lemma reads_parse:
  "reads (parseFeed y) = says_feed y" "reads (parseNetwork y) = says_network y" "reads (parseEngine y) = says_engine y"
  "reads (parseRisk y) = says_risk y" "reads (parseSession y) = says_session y"
  "reads (parseInstrument y) = says_instrument y"
  by (auto simp: fun_eq_iff reads_def parseFeed_iff parseNetwork_iff parseEngine_iff parseRisk_iff parseSession_iff
      parseInstrument_iff)

lemma parseChannel_iff: "parseChannel y n = Some c \<longleftrightarrow> says_channel y n c"
  by (cases c) (auto simp: parseChannel_def says_channel_def ChannelConfig_default_def channel_keys parse_list_bind reads_parse)

lemma reads_channel: "reads (parseChannel y) = says_channel y"
  by (auto simp: fun_eq_iff reads_def parseChannel_iff)

lemmas root_keys = set_key_bind [where field = network] set_key_bind [where field = engine] set_key_bind [where field = risk]
  set_key_bind [where field = session_config] set_key_bind [where field = log_level]

lemma parse_root_iff: "parse_root y n = Some c \<longleftrightarrow> says_config y n c"
  by (cases c)
    (auto simp: parse_root_def says_config_def ExchangeConfig_default_def root_keys parse_list_bind reads_parse reads_channel)

lemma loadConfig_iff:
  "loadConfig y files path = Inr cfg \<longleftrightarrow>
     (case files path of
        None \<Rightarrow> cfg = createDefaultConfig
      | Some None \<Rightarrow> False
      | Some (Some root) \<Rightarrow> says_config y root cfg \<and> validateConfig cfg = Inr ())"
  by (auto simp: loadConfig_def parse_root_iff [symmetric] split: option.splits sum.splits)

text \<open>
  C23.  Loading a configuration file does exactly what the document says: without a file the result is the
  built-in configuration; with one it is the configuration whose every field is the converted value of its
  key or, when the key is missing (or the section is not a map, or the list not a sequence), the
  field's default, provided it passes validation.  In every other case (a node that does not convert, a
  subscript of a scalar, a failed validation) loading fails.
\<close>

theorem config_loads_exactly:
  "loadConfig y files path = Inr cfg \<longleftrightarrow>
     (case files path of
        None \<Rightarrow> cfg = createDefaultConfig
      | Some None \<Rightarrow> False
      | Some (Some root) \<Rightarrow> says_config y root cfg \<and> validateConfig cfg = Inr ())"
  by (rule loadConfig_iff)

section \<open>A concrete document\<close>

text \<open>
  Documents as a datatype, to instantiate the parameter in examples; scalars are texts and numbers are
  plain decimal integers.
\<close>

datatype doc = Scalar string | Sequence "doc list" | Dict "(string \<times> doc) list"

definition digits_value :: "string \<Rightarrow> int option" where
  "digits_value s = (if s \<noteq> [] \<and> (\<forall>c\<in>set s. c \<in> set ''0123456789'')
     then Some (foldl (\<lambda>n c. 10 * n + (of_char c - 48)) 0 s) else None)"

fun doc_text :: "doc \<Rightarrow> string option" where
  "doc_text (Scalar s) = Some s"
| "doc_text _ = None"

definition doc_int :: "doc \<Rightarrow> int option" where
  "doc_int d = Option.bind (doc_text d) digits_value"

fun doc_get :: "doc \<Rightarrow> string \<Rightarrow> doc option option" where
  "doc_get (Scalar s) k = None"
| "doc_get (Sequence ds) k = Some None"
| "doc_get (Dict kvs) k = Some (map_of kvs k)"

fun doc_items :: "doc \<Rightarrow> doc list" where
  "doc_items (Sequence ds) = ds"
| "doc_items _ = []"

definition doc_yaml :: "doc yaml" where
  "doc_yaml = \<lparr>y_get = doc_get, y_is_map = (\<lambda>d. case d of Dict _ \<Rightarrow> True | _ \<Rightarrow> False),
     y_is_sequence = (\<lambda>d. case d of Sequence _ \<Rightarrow> True | _ \<Rightarrow> False), y_items = doc_items, as_string = doc_text,
     as_int = doc_int, as_uint16 = (\<lambda>d. map_option of_int (doc_int d)), as_uint32 = (\<lambda>d. map_option of_int (doc_int d)),
     as_uint64 = (\<lambda>d. map_option of_int (doc_int d)), as_int64 = doc_int,
     as_double = (\<lambda>d. map_option double_of_int (doc_int d)),
     as_bool = (\<lambda>d. if d = Scalar ''true'' then Some True else if d = Scalar ''false'' then Some False else None)\<rparr>"

text \<open>A file that changes two settings and lists one channel with one instrument.\<close>

definition feed_doc :: "string \<Rightarrow> string \<Rightarrow> doc" where
  "feed_doc a b = Dict [(''address_a'', Scalar a), (''port_a'', Scalar ''14310''), (''address_b'', Scalar b), (''port_b'', Scalar ''14311'')]"

definition example_doc :: "(string \<times> doc) list \<Rightarrow> doc" where
  "example_doc feeds = Dict
     [(''network'', Dict [(''tcp_listen_port'', Scalar ''9000'')]),
      (''risk'', Dict [(''max_order_qty'', Scalar ''50'')]),
      (''channels'', Sequence [Dict ([(''channel_id'', Scalar ''310''), (''symbols'', Sequence [Scalar ''ESH5''])] @ feeds)]),
      (''instruments'', Sequence [Dict [(''symbol'', Scalar ''ESH5''), (''security_id'', Scalar ''1''),
          (''channel_id'', Scalar ''310''), (''tick_size'', Scalar ''1''), (''contract_multiplier'', Scalar ''50'')]])]"

definition example_feeds :: "(string \<times> doc) list" where
  "example_feeds = [(''incremental_feed'', feed_doc ''239.1.1.1'' ''239.1.1.4''), (''snapshot_feed'', feed_doc ''239.1.1.2'' ''239.1.1.5''),
     (''instrument_def_feed'', feed_doc ''239.1.1.3'' ''239.1.1.6'')]"

definition example_channel :: ChannelConfig where
  "example_channel = ChannelConfig_default\<lparr>cc_channel_id := 310, cc_symbols := [''ESH5'']\<rparr>"

definition example_config_of :: "ChannelConfig \<Rightarrow> ExchangeConfig" where
  "example_config_of channel = ExchangeConfig_default\<lparr>
     network := NetworkConfig_default\<lparr>tcp_listen_port := 9000\<rparr>,
     channels := [channel],
     instruments := [InstrumentConfig_default\<lparr>ic_symbol := ''ESH5'', ic_security_id := 1, ic_channel_id := 310,
        ic_tick_size := double_of_int 1, ic_contract_multiplier := double_of_int 50\<rparr>],
     risk := RiskConfig_default\<lparr>max_order_qty := 50\<rparr>\<rparr>"

definition example_config :: ExchangeConfig where
  "example_config = example_config_of (example_channel
     \<lparr>cc_incremental_feed := \<lparr>address_a = ''239.1.1.1'', port_a = 14310, address_b = ''239.1.1.4'', port_b = 14311\<rparr>,
      cc_snapshot_feed := \<lparr>address_a = ''239.1.1.2'', port_a = 14310, address_b = ''239.1.1.5'', port_b = 14311\<rparr>,
      cc_instrument_def_feed := \<lparr>address_a = ''239.1.1.3'', port_a = 14310, address_b = ''239.1.1.6'', port_b = 14311\<rparr>\<rparr>)"

lemma example_loads:
  "loadConfig doc_yaml (\<lambda>p. Some (Some (example_doc example_feeds))) path = Inr example_config"
  "loadConfig doc_yaml (\<lambda>p. Some (Some (example_doc []))) path = Inr (example_config_of example_channel)"
proof -
  have "parse_root doc_yaml (example_doc example_feeds) = Some example_config"
    "parse_root doc_yaml (example_doc []) = Some (example_config_of example_channel)" by code_simp+
  moreover have "validateConfig example_config = Inr ()" "validateConfig (example_config_of example_channel) = Inr ()" by code_simp+
  ultimately show "loadConfig doc_yaml (\<lambda>p. Some (Some (example_doc example_feeds))) path = Inr example_config"
    "loadConfig doc_yaml (\<lambda>p. Some (Some (example_doc []))) path = Inr (example_config_of example_channel)"
    by (simp_all add: loadConfig_def)
qed

theorem config_loads_exactly_witness:
  "says_config doc_yaml (example_doc example_feeds) example_config \<and> validateConfig example_config = Inr ()"
  using config_loads_exactly [of doc_yaml "\<lambda>p. Some (Some (example_doc example_feeds))" "''x.yaml''" example_config]
  by (simp add: example_loads)

end
