(* ===== verification/Market_Types.thy ===== *)
theory Market_Types
  imports Prelude
begin

text \<open>
  \<^verbatim>\<open>src/common/types.h\<close>: the scalar types, the fixed-point price with its comparison operators,
  and the enumerations with their wire values.  An \<^verbatim>\<open>enum class\<close> with a fixed underlying type holds
  any value of that type after a \<^verbatim>\<open>static_cast\<close>, so the enumerations that are read from the wire
  (side, order type, time in force) have a constructor for the values the enumeration does not name.
\<close>

type_synonym OrderId = "64 word"
type_synonym ClOrdId = string
type_synonym SecurityId = int
type_synonym SeqNum = "32 word"
type_synonym Timestamp = "64 word"
type_synonym Quantity = int
type_synonym uuid_t = "64 word"

section \<open>Fixed-point prices\<close>

datatype Price = Price (mantissa: int)

definition Price_NULL_VALUE :: int where
  "Price_NULL_VALUE = 2 ^ 63 - 1"

definition Price_null :: Price where
  "Price_null = Price Price_NULL_VALUE"

definition Price_isNull :: "Price \<Rightarrow> bool" where
  "Price_isNull p \<longleftrightarrow> mantissa p = Price_NULL_VALUE"

text \<open>The six comparison operators compare mantissas.\<close>

instantiation Price :: linorder
begin

definition less_eq_Price :: "Price \<Rightarrow> Price \<Rightarrow> bool" where
  "less_eq_Price a b \<longleftrightarrow> mantissa a \<le> mantissa b"

definition less_Price :: "Price \<Rightarrow> Price \<Rightarrow> bool" where
  "less_Price a b \<longleftrightarrow> mantissa a < mantissa b"

instance
  by standard (auto simp: less_eq_Price_def less_Price_def intro: Price.expand)

end

lemma Price_less [simp]: "Price a < Price b \<longleftrightarrow> a < b"
  by (simp add: less_Price_def)

lemma Price_less_eq [simp]: "Price a \<le> Price b \<longleftrightarrow> a \<le> b"
  by (simp add: less_eq_Price_def)

lemma Price_isNull_iff: "Price_isNull p \<longleftrightarrow> p = Price_null"
  by (cases p) (simp add: Price_isNull_def Price_null_def)

text \<open>The two orders the book's maps use: \<^verbatim>\<open>std::less\<close> for asks, \<^verbatim>\<open>std::greater\<close> for bids.\<close>

interpretation ask_order: strict_order "(<) :: Price \<Rightarrow> Price \<Rightarrow> bool"
  by unfold_locales auto

interpretation bid_order: strict_order "(>) :: Price \<Rightarrow> Price \<Rightarrow> bool"
  by unfold_locales auto

section \<open>Enumerations\<close>

datatype Side = Buy | Sell | Side_other "8 word"

datatype OrderType = Market | Limit | StopLimit | StopMarket | OrderType_other "8 word"

datatype TimeInForce = Day | GTC | IOC | FOK | GTD | TimeInForce_other "8 word"

datatype OrdStatus = New | PartiallyFilled | Filled | Canceled | Replaced | Rejected

datatype MDUpdateAction = MD_New | MD_Change | MD_Delete | MD_DeleteThru | MD_DeleteFrom | MD_Overlay

datatype SecurityTradingStatus = PreOpen | Open | Halt | Close

end
