(* ===== verification/Instruments.thy ===== *)
theory Instruments
  imports Exchange_Config Market_Types
begin

text \<open>
  \<^verbatim>\<open>src/instruments/instrument.h\<close>, \<^verbatim>\<open>channel.h\<close> and \<^verbatim>\<open>instrument_manager.cpp\<close>: instruments with their tick
  arithmetic, and the manager that indexes them by security id, by symbol and by channel.  \<^verbatim>\<open>int64_t\<close>
  arithmetic on prices is exact here; \<open>roundToTick_nearest\<close> bounds it.
\<close>

section \<open>Instruments\<close>

record Instrument =
  inst_security_id :: SecurityId
  inst_symbol :: string
  inst_security_group :: string
  inst_asset :: string
  inst_channel_id :: int
  tick_size :: double
  contract_multiplier :: double
  min_price_increment_amount :: double
  display_factor :: double
  min_trade_vol :: Quantity
  max_trade_vol :: Quantity
  maturity_month_year :: string
  unit_of_measure :: string
  trading_status :: SecurityTradingStatus

definition tickMantissa :: "Instrument \<Rightarrow> int" where
  "tickMantissa inst = int64_of_double (times_double (tick_size inst) (double_of_int 1000000000))"

definition roundToTick :: "Instrument \<Rightarrow> Price \<Rightarrow> Price" where
  "roundToTick inst price =
     (let tm = tickMantissa inst
      in if tm = 0 then price
         else
           let remainder = mantissa price smod tm
           in if remainder = 0 then price
              else
                let remainder = (if remainder < 0 then remainder + tm else remainder)
                in if remainder > tm sdiv 2 then Price (mantissa price + (tm - remainder))
                   else Price (mantissa price - remainder))"

definition isValidTick :: "Instrument \<Rightarrow> Price \<Rightarrow> bool" where
  "isValidTick inst price =
     (let tm = tickMantissa inst in if tm = 0 then True else mantissa price smod tm = 0)"

definition ticksToPrice :: "Instrument \<Rightarrow> int \<Rightarrow> Price" where
  "ticksToPrice inst ticks = Price (ticks * tickMantissa inst)"

definition priceToTicks :: "Instrument \<Rightarrow> Price \<Rightarrow> int" where
  "priceToTicks inst price =
     (let tm = tickMantissa inst in if tm = 0 then 0 else mantissa price sdiv tm)"

subsection \<open>Tick arithmetic\<close>

lemma smod_pos: "0 < t \<Longrightarrow> 0 \<le> (m :: int) \<Longrightarrow> m smod t = m mod t"
  by (cases "m = 0") (auto simp: signed_modulo_int_def signed_divide_int_def sgn_if abs_if minus_div_mult_eq_mod)

lemma smod_neg: "0 < t \<Longrightarrow> (m :: int) < 0 \<Longrightarrow> m smod t = - ((- m) mod t)"
  by (auto simp: signed_modulo_int_def signed_divide_int_def sgn_if abs_if minus_mod_eq_mult_div [symmetric])

lemma smod_eq_0_iff:
  assumes "0 < t"
  shows "(m :: int) smod t = 0 \<longleftrightarrow> t dvd m"
proof (cases "0 \<le> m")
  case True
  with assms show ?thesis by (simp add: smod_pos dvd_eq_mod_eq_0)
next
  case False
  with assms have "m smod t = 0 \<longleftrightarrow> (- m) mod t = 0" by (simp add: smod_neg)
  also have "\<dots> \<longleftrightarrow> t dvd m" by (simp only: dvd_eq_mod_eq_0 [symmetric] dvd_minus_iff)
  finally show ?thesis .
qed

text \<open>The remainder after the correction for negative prices is the mathematical one.\<close>

lemma corrected_remainder:
  assumes "0 < t"
  shows "(if (m :: int) smod t < 0 then m smod t + t else m smod t) = m mod t"
proof (cases "0 \<le> m")
  case True
  then show ?thesis using assms by (simp add: smod_pos not_less)
next
  case False
  then have s: "m smod t = - ((- m) mod t)" using assms by (simp add: smod_neg)
  show ?thesis
  proof (cases "(- m) mod t = 0")
    case True
    then have "t dvd m" by (simp add: dvd_eq_mod_eq_0 [symmetric])
    with True s show ?thesis by simp
  next
    case nz: False
    then have "m mod t = t - (- m) mod t" using zmod_zminus1_eq_if [of "- m" t] by simp
    moreover have "0 < (- m) mod t" using nz assms pos_mod_sign [of t "- m"] by linarith
    ultimately show ?thesis using s by simp
  qed
qed

lemma sdiv_2: "0 < t \<Longrightarrow> (t :: int) sdiv 2 = t div 2"
  by (simp add: signed_divide_int_def)

lemma roundToTick_eq:
  assumes "0 < tickMantissa inst"
  shows "mantissa (roundToTick inst p) =
    (let tm = tickMantissa inst; r = mantissa p mod tm
     in if tm div 2 < r then mantissa p + (tm - r) else mantissa p - r)"
proof (cases "mantissa p smod tickMantissa inst = 0")
  case True
  then have "mantissa p mod tickMantissa inst = 0" using smod_eq_0_iff [OF assms] by auto
  then show ?thesis using True assms by (auto simp: roundToTick_def Let_def pos_imp_zdiv_nonneg_iff not_less)
next
  case False
  then show ?thesis
    using corrected_remainder [OF assms, of "mantissa p"] assms sdiv_2 [OF assms]
    by (simp add: roundToTick_def Let_def)
qed

text \<open>
  Rounding to a tick: for a positive tick mantissa, the rounded price is on a tick, no tick is nearer to
  the given price, a price on a tick is unchanged, negative prices included; and for prices at least one
  tick inside the 64-bit range the result stays inside it.
\<close>

theorem roundToTick_nearest:
  assumes "0 < tickMantissa inst"
  shows "isValidTick inst (roundToTick inst p) \<and>
    (\<forall>k. \<bar>mantissa p - mantissa (roundToTick inst p)\<bar> \<le> \<bar>mantissa p - k * tickMantissa inst\<bar>) \<and>
    (isValidTick inst p \<longrightarrow> roundToTick inst p = p) \<and>
    (- (2 ^ 63) + tickMantissa inst \<le> mantissa p \<and> mantissa p < 2 ^ 63 - tickMantissa inst \<longrightarrow>
       - (2 ^ 63) \<le> mantissa (roundToTick inst p) \<and> mantissa (roundToTick inst p) < 2 ^ 63)"
proof -
  define t m where "t = tickMantissa inst" and "m = mantissa p"
  define r where "r = m mod t"
  have t: "0 < t" using assms by (simp add: t_def)
  have r: "0 \<le> r" "r < t" "m = t * (m div t) + r" using t by (simp_all add: r_def)
  have v: "mantissa (roundToTick inst p) = (if t div 2 < r then m + (t - r) else m - r)"
    using roundToTick_eq [OF assms, of p] by (simp add: t_def m_def r_def Let_def)
  have valid: "isValidTick inst q \<longleftrightarrow> t dvd mantissa q" for q
    using smod_eq_0_iff [OF t] t by (simp add: isValidTick_def t_def Let_def)
  have mult: "t dvd m - r" using r(3) by (metis add_diff_cancel_right' dvd_triv_left)
  have "t dvd m + (t - r)" using mult by (metis add_diff_eq diff_add_eq dvd_add dvd_refl)
  with mult have on_tick: "isValidTick inst (roundToTick inst p)" by (simp add: valid v)
  have near: "\<bar>m - mantissa (roundToTick inst p)\<bar> = (if t div 2 < r then t - r else r)"
    using r by (simp add: v)
  have half: "t div 2 < r \<Longrightarrow> t - r \<le> r" "\<not> t div 2 < r \<Longrightarrow> r \<le> t - r" by presburger+
  have far: "(if t div 2 < r then t - r else r) \<le> \<bar>m - k * t\<bar>" for k
  proof (cases "k \<le> m div t")
    case True
    then have "k * t \<le> m div t * t" using t by (intro mult_right_mono) simp_all
    then have "r \<le> m - k * t" using r(3) by (simp add: mult.commute)
    then show ?thesis using half by (auto split: if_splits)
  next
    case False
    then have "(m div t + 1) * t \<le> k * t" using t by (intro mult_right_mono) simp_all
    then have "m + (t - r) \<le> k * t" using r(3) by (simp add: algebra_simps)
    then show ?thesis using r(2) half by (auto split: if_splits)
  qed
  have fixed: "roundToTick inst p = p" if "isValidTick inst p"
  proof -
    have "r = 0" using that by (simp add: valid r_def m_def)
    then have "mantissa (roundToTick inst p) = m" using t v by simp
    then show ?thesis by (simp add: m_def Price.expand)
  qed
  show ?thesis using on_tick near far fixed v r by (auto simp: t_def [symmetric] m_def [symmetric])
qed

definition ex_instrument :: Instrument where
  "ex_instrument = \<lparr>inst_security_id = 13, inst_symbol = ''RTYH5'', inst_security_group = ''RTY'', inst_asset = ''RTY'',
     inst_channel_id = 313, tick_size = double_0_10, contract_multiplier = double_of_int 50,
     min_price_increment_amount = double_of_int 5, display_factor = double_0_01, min_trade_vol = 1,
     max_trade_vol = 10000, maturity_month_year = ''202503'', unit_of_measure = ''Qty'', trading_status = Open\<rparr>"

lemma ex_instrument_tick: "tickMantissa ex_instrument = 100000000"
  using bit_length_eq [of 81 3602879701896397000000000] bit_length_le [of 6710886400000000 53]
  by (simp add: tickMantissa_def ex_instrument_def double_0_10_def double_of_int_def
      round_double_def Let_def)

theorem roundToTick_nearest_witness:
  "0 < tickMantissa ex_instrument \<and> isValidTick ex_instrument (roundToTick ex_instrument (Price (- 160000001))) \<and>
     roundToTick ex_instrument (Price (- 160000001)) = Price (- 200000000)"
proof -
  have "roundToTick ex_instrument (Price (- 160000001)) = Price (- 200000000)"
    by (simp add: roundToTick_def ex_instrument_tick signed_modulo_int_def signed_divide_int_def Let_def)
  with roundToTick_nearest [of ex_instrument "Price (- 160000001)"] show ?thesis by (simp add: ex_instrument_tick)
qed

lemma ticks_roundtrip: "0 < tickMantissa inst \<Longrightarrow> priceToTicks inst (ticksToPrice inst k) = k"
  by (auto simp: priceToTicks_def ticksToPrice_def signed_divide_int_def Let_def abs_mult sgn_mult mult_sgn_abs)

section \<open>The instrument manager\<close>

record Channel =
  ch_channel_id :: int
  ch_name :: string
  ch_security_ids :: "SecurityId list"
  ch_incremental_feed :: FeedConfig
  ch_snapshot_feed :: FeedConfig
  ch_instrument_def_feed :: FeedConfig

record InstrumentManager =
  im_instruments :: "Instrument list"
  by_security_id :: "SecurityId \<rightharpoonup> nat"
  by_symbol :: "string \<rightharpoonup> nat"
  im_channels :: "Channel list"
  channels_by_id :: "int \<rightharpoonup> nat"

text \<open>\<^verbatim>\<open>std::isdigit\<close> and \<^verbatim>\<open>std::isalpha\<close> of the C locale.\<close>

definition isdigit :: "char \<Rightarrow> bool" where
  "isdigit c \<longleftrightarrow> (48 :: nat) \<le> of_char c \<and> (of_char c :: nat) \<le> 57"

definition isalpha :: "char \<Rightarrow> bool" where
  "isalpha c \<longleftrightarrow> (65 :: nat) \<le> of_char c \<and> (of_char c :: nat) \<le> 90 \<or> (97 :: nat) \<le> of_char c \<and> (of_char c :: nat) \<le> 122"

fun skip_digits :: "string \<Rightarrow> nat \<Rightarrow> nat" where
  "skip_digits symbol 0 = 0"
| "skip_digits symbol (Suc pos) = (if isdigit (symbol ! pos) then skip_digits symbol pos else Suc pos)"

definition deriveSecurityGroup :: "string \<Rightarrow> string" where
  "deriveSecurityGroup symbol =
     (if symbol = [] then []
      else
        let pos = skip_digits symbol (length symbol);
            pos = (if pos > 0 \<and> isalpha (symbol ! (pos - 1)) then pos - 1 else pos)
        in if pos = 0 then symbol else take pos symbol)"

definition InstrumentManager_new :: InstrumentManager where
  "InstrumentManager_new = \<lparr>im_instruments = [], by_security_id = Map.empty, by_symbol = Map.empty,
     im_channels = [], channels_by_id = Map.empty\<rparr>"

definition load_channel :: "ChannelConfig \<Rightarrow> InstrumentManager \<Rightarrow> InstrumentManager" where
  "load_channel cc m =
     (let ch = \<lparr>ch_channel_id = cc_channel_id cc, ch_name = cc_name cc, ch_security_ids = [],
                ch_incremental_feed = cc_incremental_feed cc, ch_snapshot_feed = cc_snapshot_feed cc,
                ch_instrument_def_feed = cc_instrument_def_feed cc\<rparr>;
          idx = length (im_channels m)
      in m\<lparr>im_channels := im_channels m @ [ch],
           channels_by_id := (channels_by_id m)(cc_channel_id cc \<mapsto> idx)\<rparr>)"

definition instrument_of :: "InstrumentConfig \<Rightarrow> Instrument" where
  "instrument_of ic =
     \<lparr>inst_security_id = ic_security_id ic, inst_symbol = ic_symbol ic,
      inst_security_group = deriveSecurityGroup (ic_symbol ic), inst_asset = deriveSecurityGroup (ic_symbol ic),
      inst_channel_id = ic_channel_id ic, tick_size = ic_tick_size ic,
      contract_multiplier = ic_contract_multiplier ic,
      min_price_increment_amount = ic_min_price_increment_amount ic, display_factor = ic_display_factor ic,
      min_trade_vol = ic_min_trade_vol ic, max_trade_vol = ic_max_trade_vol ic,
      maturity_month_year = ic_maturity_month_year ic, unit_of_measure = ''Qty'', trading_status = PreOpen\<rparr>"

definition load_instrument :: "InstrumentConfig \<Rightarrow> InstrumentManager \<Rightarrow> InstrumentManager" where
  "load_instrument ic m =
     (let inst = instrument_of ic;
          idx = length (im_instruments m);
          m = m\<lparr>by_security_id := (by_security_id m)(inst_security_id inst \<mapsto> idx),
                by_symbol := (by_symbol m)(inst_symbol inst \<mapsto> idx)\<rparr>;
          m = (case channels_by_id m (ic_channel_id ic) of
                 None \<Rightarrow> m
               | Some c \<Rightarrow> m\<lparr>im_channels := (im_channels m)[c := (im_channels m ! c)
                     \<lparr>ch_security_ids := ch_security_ids (im_channels m ! c) @ [inst_security_id inst]\<rparr>]\<rparr>)
      in m\<lparr>im_instruments := im_instruments m @ [inst]\<rparr>)"

definition loadFromConfig :: "InstrumentConfig list \<Rightarrow> ChannelConfig list \<Rightarrow> InstrumentManager" where
  "loadFromConfig instrument_configs channel_configs =
     fold load_instrument instrument_configs (fold load_channel channel_configs InstrumentManager_new)"

definition findBySecurityId :: "SecurityId \<Rightarrow> InstrumentManager \<Rightarrow> Instrument option" where
  "findBySecurityId i m = map_option (\<lambda>idx. im_instruments m ! idx) (by_security_id m i)"

definition findBySymbol :: "string \<Rightarrow> InstrumentManager \<Rightarrow> Instrument option" where
  "findBySymbol symb m = map_option (\<lambda>idx. im_instruments m ! idx) (by_symbol m symb)"

definition getInstrumentsByChannel :: "int \<Rightarrow> InstrumentManager \<Rightarrow> Instrument list" where
  "getInstrumentsByChannel cid m = filter (\<lambda>inst. inst_channel_id inst = cid) (im_instruments m)"

definition findChannel :: "int \<Rightarrow> InstrumentManager \<Rightarrow> Channel option" where
  "findChannel cid m = map_option (\<lambda>idx. im_channels m ! idx) (channels_by_id m cid)"

definition setTradingStatus :: "SecurityId \<Rightarrow> SecurityTradingStatus \<Rightarrow> InstrumentManager \<Rightarrow> InstrumentManager" where
  "setTradingStatus i st m =
     (case by_security_id m i of
        None \<Rightarrow> m
      | Some idx \<Rightarrow> m\<lparr>im_instruments := (im_instruments m)[idx := (im_instruments m ! idx)\<lparr>trading_status := st\<rparr>]\<rparr>)"

subsection \<open>Security groups\<close>

lemma skip_digits_append: "\<forall>c\<in>set ds. isdigit c \<Longrightarrow> skip_digits (s @ ds) (length s + length ds) = skip_digits (s @ ds) (length s)"
proof (induction ds rule: rev_induct)
  case (snoc d ds)
  have "skip_digits (s @ ds @ [d]) n = skip_digits (s @ ds) n" if "n \<le> length s + length ds" for n
    using that by (induction n) (simp_all add: nth_append less_diff_conv2)
  with snoc show ?case by (simp add: nth_append)
qed simp

lemma deriveSecurityGroup_root:
  assumes "root \<noteq> []" and "isalpha month" and "\<forall>c\<in>set year. isdigit c"
  shows "deriveSecurityGroup (root @ [month] @ year) = root"
proof -
  have nd: "\<not> isdigit month" using assms(2) by (auto simp: isalpha_def isdigit_def)
  have "skip_digits ((root @ [month]) @ year) (length (root @ [month]) + length year) = length (root @ [month])"
    using skip_digits_append [OF assms(3), of "root @ [month]"] nd by (simp add: nth_append)
  then have "skip_digits (root @ [month] @ year) (length (root @ [month] @ year)) = Suc (length root)" by simp
  with assms show ?thesis by (simp add: deriveSecurityGroup_def Let_def nth_append)
qed

subsection \<open>The indexes\<close>

definition indexes :: "('k \<rightharpoonup> nat) \<Rightarrow> 'k list \<Rightarrow> bool" where
  "indexes ix ks \<longleftrightarrow> (\<forall>k i. ix k = Some i \<longleftrightarrow> i < length ks \<and> ks ! i = k)"

lemma indexes_Nil: "indexes Map.empty []"
  by (simp add: indexes_def)

lemma indexes_snoc: "indexes ix ks \<Longrightarrow> k \<notin> set ks \<Longrightarrow> indexes (ix(k \<mapsto> length ks)) (ks @ [k])"
  by (auto simp: indexes_def nth_append less_Suc_eq split: if_splits)

lemma indexes_mem:
  assumes "indexes ix ks"
  shows "ix k = None \<longleftrightarrow> k \<notin> set ks"
proof -
  have "k \<in> set ks \<longleftrightarrow> (\<exists>i. ix k = Some i)" using assms by (auto simp: indexes_def in_set_conv_nth)
  then show ?thesis by (cases "ix k") auto
qed

definition im_ok :: "InstrumentManager \<Rightarrow> bool" where
  "im_ok m \<longleftrightarrow> indexes (by_security_id m) (map inst_security_id (im_instruments m)) \<and>
     indexes (by_symbol m) (map inst_symbol (im_instruments m)) \<and>
     indexes (channels_by_id m) (map ch_channel_id (im_channels m)) \<and>
     (\<forall>ch\<in>set (im_channels m). ch_security_ids ch =
        map inst_security_id (filter (\<lambda>inst. inst_channel_id inst = ch_channel_id ch) (im_instruments m)))"

lemma load_channel_sel:
  "im_instruments (load_channel cc m) = im_instruments m" "by_security_id (load_channel cc m) = by_security_id m"
  "by_symbol (load_channel cc m) = by_symbol m"
  "channels_by_id (load_channel cc m) = (channels_by_id m)(cc_channel_id cc \<mapsto> length (im_channels m))"
  "map ch_channel_id (im_channels (load_channel cc m)) = map ch_channel_id (im_channels m) @ [cc_channel_id cc]"
  "set (im_channels (load_channel cc m)) = insert \<lparr>ch_channel_id = cc_channel_id cc, ch_name = cc_name cc,
      ch_security_ids = [], ch_incremental_feed = cc_incremental_feed cc, ch_snapshot_feed = cc_snapshot_feed cc,
      ch_instrument_def_feed = cc_instrument_def_feed cc\<rparr> (set (im_channels m))"
  by (simp_all add: load_channel_def Let_def)

lemma load_channels_ok:
  assumes "distinct (map cc_channel_id ccs)"
  shows "im_ok (fold load_channel ccs InstrumentManager_new) \<and> im_instruments (fold load_channel ccs InstrumentManager_new) = [] \<and>
    map ch_channel_id (im_channels (fold load_channel ccs InstrumentManager_new)) = map cc_channel_id ccs"
  using assms
proof (induction ccs rule: rev_induct)
  case Nil
  show ?case by (simp add: im_ok_def InstrumentManager_new_def indexes_Nil)
next
  case (snoc cc ccs)
  let ?m = "fold load_channel ccs InstrumentManager_new"
  from snoc have ok: "im_ok ?m" "im_instruments ?m = []" and ids: "map ch_channel_id (im_channels ?m) = map cc_channel_id ccs"
    by simp_all
  have "indexes ((channels_by_id ?m)(cc_channel_id cc \<mapsto> length (map cc_channel_id ccs))) (map cc_channel_id ccs @ [cc_channel_id cc])"
    by (rule indexes_snoc) (use ok ids snoc.prems in \<open>auto simp: im_ok_def\<close>)
  moreover have "length (im_channels ?m) = length ccs" using arg_cong [OF ids, of length] by simp
  ultimately show ?case using ok ids by (simp add: load_channel_sel im_ok_def)
qed

lemma load_instrument_sel:
  "im_instruments (load_instrument ic m) = im_instruments m @ [instrument_of ic]"
  "by_security_id (load_instrument ic m) = (by_security_id m)(ic_security_id ic \<mapsto> length (im_instruments m))"
  "by_symbol (load_instrument ic m) = (by_symbol m)(ic_symbol ic \<mapsto> length (im_instruments m))"
  "channels_by_id (load_instrument ic m) = channels_by_id m"
  by (auto simp: load_instrument_def instrument_of_def Let_def split: option.splits)

lemma update_unique:
  "c < length xs \<Longrightarrow> (\<And>k. k < length xs \<Longrightarrow> P (xs ! k) \<longleftrightarrow> k = c) \<Longrightarrow>
     xs[c := f (xs ! c)] = map (\<lambda>x. if P x then f x else x) xs"
  by (intro nth_equalityI) (auto simp: nth_list_update)

lemma load_instrument_channels:
  assumes "im_ok m"
  shows "im_channels (load_instrument ic m) =
    map (\<lambda>ch. if ch_channel_id ch = ic_channel_id ic
              then ch\<lparr>ch_security_ids := ch_security_ids ch @ [ic_security_id ic]\<rparr> else ch) (im_channels m)"
proof (cases "channels_by_id m (ic_channel_id ic)")
  case None
  then have "ic_channel_id ic \<notin> set (map ch_channel_id (im_channels m))"
    using assms indexes_mem by (force simp: im_ok_def)
  with None show ?thesis
    by (force simp: load_instrument_def instrument_of_def Let_def intro!: map_idI [symmetric])
next
  case (Some c)
  have ix: "indexes (channels_by_id m) (map ch_channel_id (im_channels m))" using assms by (simp add: im_ok_def)
  then have c: "c < length (im_channels m)" "ch_channel_id (im_channels m ! c) = ic_channel_id ic"
    using Some by (auto simp: indexes_def)
  have u: "k = c" if "k < length (im_channels m)" "ch_channel_id (im_channels m ! k) = ic_channel_id ic" for k
  proof -
    have "channels_by_id m (ic_channel_id ic) = Some k" using ix that by (simp add: indexes_def)
    with Some show ?thesis by simp
  qed
  have "(im_channels m)[c := (im_channels m ! c)\<lparr>ch_security_ids := ch_security_ids (im_channels m ! c) @ [ic_security_id ic]\<rparr>] =
    map (\<lambda>ch. if ch_channel_id ch = ic_channel_id ic
              then ch\<lparr>ch_security_ids := ch_security_ids ch @ [ic_security_id ic]\<rparr> else ch) (im_channels m)"
    by (rule update_unique [OF c(1)]) (use c u in blast)
  with Some show ?thesis by (simp add: load_instrument_def instrument_of_def Let_def)
qed

lemma load_instrument_ok:
  assumes "im_ok m" and "ic_security_id ic \<notin> set (map inst_security_id (im_instruments m))"
    and "ic_symbol ic \<notin> set (map inst_symbol (im_instruments m))"
  shows "im_ok (load_instrument ic m)"
proof -
  have i: "inst_security_id (instrument_of ic) = ic_security_id ic" "inst_symbol (instrument_of ic) = ic_symbol ic"
    "inst_channel_id (instrument_of ic) = ic_channel_id ic" by (simp_all add: instrument_of_def)
  have "map ch_channel_id (im_channels (load_instrument ic m)) = map ch_channel_id (im_channels m)"
    by (simp add: load_instrument_channels [OF assms(1)] comp_def if_distrib cong: if_cong)
  moreover have "indexes ((by_security_id m)(ic_security_id ic \<mapsto> length (im_instruments m)))
      (map inst_security_id (im_instruments m) @ [ic_security_id ic])"
    using indexes_snoc [OF _ assms(2)] assms(1) by (simp add: im_ok_def)
  moreover have "indexes ((by_symbol m)(ic_symbol ic \<mapsto> length (im_instruments m)))
      (map inst_symbol (im_instruments m) @ [ic_symbol ic])"
    using indexes_snoc [OF _ assms(3)] assms(1) by (simp add: im_ok_def)
  moreover have "ch_security_ids ch = map inst_security_id
      (filter (\<lambda>inst. inst_channel_id inst = ch_channel_id ch) (im_instruments (load_instrument ic m)))"
    if "ch \<in> set (im_channels (load_instrument ic m))" for ch
    using that assms(1) i by (auto simp: load_instrument_channels [OF assms(1)] load_instrument_sel im_ok_def)
  ultimately show ?thesis
    using assms(1) unfolding im_ok_def load_instrument_sel by (simp add: i)
qed

lemma loadFromConfig_ok:
  assumes "distinct (map cc_channel_id ccs)" and "distinct (map ic_symbol ics)" and "distinct (map ic_security_id ics)"
  shows "im_ok (loadFromConfig ics ccs) \<and> im_instruments (loadFromConfig ics ccs) = map instrument_of ics \<and>
    map ch_channel_id (im_channels (loadFromConfig ics ccs)) = map cc_channel_id ccs"
  using assms(2,3)
proof (induction ics rule: rev_induct)
  case Nil
  show ?case using load_channels_ok [OF assms(1)] by (simp add: loadFromConfig_def)
next
  case (snoc ic ics)
  let ?m = "loadFromConfig ics ccs"
  have IH: "im_ok ?m" "im_instruments ?m = map instrument_of ics" "map ch_channel_id (im_channels ?m) = map cc_channel_id ccs"
    using snoc by simp_all
  have step: "loadFromConfig (ics @ [ic]) ccs = load_instrument ic ?m" by (simp add: loadFromConfig_def)
  have "im_ok (load_instrument ic ?m)"
    by (rule load_instrument_ok) (use IH snoc.prems in \<open>auto simp: instrument_of_def\<close>)
  moreover have "map ch_channel_id (im_channels (load_instrument ic ?m)) = map ch_channel_id (im_channels ?m)"
    by (simp add: load_instrument_channels [OF IH(1)] comp_def if_distrib cong: if_cong)
  ultimately show ?case using IH by (simp add: step load_instrument_sel)
qed

lemma find_found:
  assumes "im_ok m"
  shows "findBySecurityId i m = Some inst \<longleftrightarrow> inst \<in> set (im_instruments m) \<and> inst_security_id inst = i"
proof -
  have ix: "indexes (by_security_id m) (map inst_security_id (im_instruments m))" using assms by (simp add: im_ok_def)
  have "inst = im_instruments m ! k"
    if "by_security_id m i = Some k" "inst \<in> set (im_instruments m)" "inst_security_id inst = i" for k
  proof -
    from that(2) obtain j where j: "j < length (im_instruments m)" "inst = im_instruments m ! j"
      by (auto simp: in_set_conv_nth)
    then have "by_security_id m i = Some j" using ix that(3) by (simp add: indexes_def)
    with that(1) j show ?thesis by simp
  qed
  moreover have "k < length (im_instruments m) \<and> inst_security_id (im_instruments m ! k) = i"
    if "by_security_id m i = Some k" for k using ix that by (auto simp: indexes_def)
  moreover have "inst \<notin> set (im_instruments m) \<or> inst_security_id inst \<noteq> i" if "by_security_id m i = None"
    using indexes_mem [OF ix, of i] that by auto
  ultimately show ?thesis
    by (cases "by_security_id m i") (auto simp: findBySecurityId_def)
qed

lemma symbol_found:
  assumes "im_ok m" and "inst \<in> set (im_instruments m)"
  shows "findBySymbol (inst_symbol inst) m = Some inst"
proof -
  from assms(2) obtain j where j: "j < length (im_instruments m)" "inst = im_instruments m ! j"
    by (auto simp: in_set_conv_nth)
  then have "by_symbol m (inst_symbol inst) = Some j" using assms(1) by (simp add: im_ok_def indexes_def)
  with j show ?thesis by (simp add: findBySymbol_def)
qed

text \<open>
  C37.  The instrument tables of a validated configuration: every configured instrument is found under its
  security id and under its symbol, with its configured data and status PreOpen, a lookup finds nothing
  else, and every configured channel is found and lists exactly the ids of its instruments, in order.
\<close>

theorem instruments_indexed:
  assumes "validateConfig config = Inr ()"
  defines "m \<equiv> loadFromConfig (instruments config) (channels config)"
  shows "(\<forall>ic\<in>set (instruments config). findBySecurityId (ic_security_id ic) m = Some (instrument_of ic) \<and>
      findBySymbol (ic_symbol ic) m = Some (instrument_of ic)) \<and>
    (\<forall>i inst. findBySecurityId i m = Some inst \<longrightarrow> inst_security_id inst = i \<and> inst \<in> instrument_of ` set (instruments config)) \<and>
    (\<forall>cc\<in>set (channels config). \<exists>ch. findChannel (cc_channel_id cc) m = Some ch \<and>
      ch_channel_id ch = cc_channel_id cc \<and>
      ch_security_ids ch = map inst_security_id (getInstrumentsByChannel (cc_channel_id cc) m))"
proof -
  have d: "distinct (map cc_channel_id (channels config))" "distinct (map ic_symbol (instruments config))"
    "distinct (map ic_security_id (instruments config))"
    using assms(1) valid_distinct by blast+
  note l = loadFromConfig_ok [OF d, folded m_def]
  have i: "inst_security_id (instrument_of ic) = ic_security_id ic" "inst_symbol (instrument_of ic) = ic_symbol ic" for ic
    by (simp_all add: instrument_of_def)
  have "findBySecurityId (ic_security_id ic) m = Some (instrument_of ic) \<and> findBySymbol (ic_symbol ic) m = Some (instrument_of ic)"
    if "ic \<in> set (instruments config)" for ic
    using find_found [of m "ic_security_id ic" "instrument_of ic"] symbol_found [of m "instrument_of ic"] l that i by simp
  moreover have "inst_security_id inst = i \<and> inst \<in> instrument_of ` set (instruments config)"
    if "findBySecurityId i m = Some inst" for i inst using find_found [of m i inst] l that by simp
  moreover have "\<exists>ch. findChannel (cc_channel_id cc) m = Some ch \<and> ch_channel_id ch = cc_channel_id cc \<and>
      ch_security_ids ch = map inst_security_id (getInstrumentsByChannel (cc_channel_id cc) m)"
    if "cc \<in> set (channels config)" for cc
  proof -
    have ix: "indexes (channels_by_id m) (map ch_channel_id (im_channels m))" using l by (auto simp: im_ok_def)
    have "cc_channel_id cc \<in> set (map ch_channel_id (im_channels m))" using l that by simp
    then obtain k where k: "k < length (im_channels m)" "ch_channel_id (im_channels m ! k) = cc_channel_id cc"
      by (auto simp: in_set_conv_nth)
    then have "channels_by_id m (cc_channel_id cc) = Some k" using ix by (simp add: indexes_def)
    then show ?thesis using k l by (auto simp: findChannel_def getInstrumentsByChannel_def im_ok_def)
  qed
  ultimately show ?thesis by blast
qed

theorem instruments_indexed_witness:
  "findBySecurityId 13 (loadFromConfig (instruments createDefaultConfig) (channels createDefaultConfig)) =
     Some (instrument_of (default_instrument ''RTYH5'' 13 313 double_0_10 (double_of_int 50) (double_of_int 5) ''202503''))"
proof -
  let ?ic = "default_instrument ''RTYH5'' 13 313 double_0_10 (double_of_int 50) (double_of_int 5) ''202503''"
  have "?ic \<in> set (instruments createDefaultConfig)" "ic_security_id ?ic = 13"
    by (simp_all add: createDefaultConfig_def createDefaultInstruments_def) (simp add: default_instrument_def)
  with instruments_indexed [OF default_config_valid] show ?thesis by metis
qed

subsection \<open>Trading status\<close>

lemma setTradingStatus_ok: "im_ok m \<Longrightarrow> im_ok (setTradingStatus i st m)"
proof (cases "by_security_id m i")
  case (Some k)
  assume ok: "im_ok m"
  let ?is = "(im_instruments m)[k := (im_instruments m ! k)\<lparr>trading_status := st\<rparr>]"
  have k: "k < length (im_instruments m)" using ok Some by (auto simp: im_ok_def indexes_def)
  have eq: "map f ?is = map f (im_instruments m)" if "\<And>x. f (x\<lparr>trading_status := st\<rparr>) = f x" for f :: "Instrument \<Rightarrow> 'a"
    using k that by (intro nth_equalityI) (auto simp: nth_list_update)
  have "map inst_security_id (filter (\<lambda>x. inst_channel_id x = c) ?is) =
      map inst_security_id (filter (\<lambda>x. inst_channel_id x = c) (im_instruments m))" for c
  proof -
    have "map inst_security_id (filter (\<lambda>x. inst_channel_id x = c) xs) =
        map fst (filter (\<lambda>(i, c'). c' = c) (map (\<lambda>x. (inst_security_id x, inst_channel_id x)) xs))" for xs :: "Instrument list"
      by (induction xs) auto
    with eq [of "\<lambda>x. (inst_security_id x, inst_channel_id x)"] show ?thesis by simp
  qed
  with ok Some show ?thesis by (simp add: setTradingStatus_def im_ok_def eq)
qed (simp add: setTradingStatus_def)

lemma setTradingStatus_find:
  assumes "im_ok m"
  shows "findBySecurityId j (setTradingStatus i st m) =
    (if j = i then map_option (\<lambda>x. x\<lparr>trading_status := st\<rparr>) (findBySecurityId i m) else findBySecurityId j m)"
proof (cases "by_security_id m i")
  case (Some k)
  have ix: "indexes (by_security_id m) (map inst_security_id (im_instruments m))" using assms by (simp add: im_ok_def)
  have k: "k < length (im_instruments m)" "inst_security_id (im_instruments m ! k) = i"
    using ix Some by (auto simp: indexes_def)
  have "l \<noteq> k" if "by_security_id m j = Some l" "j \<noteq> i" for l
    using ix that k(2) by (auto simp: indexes_def)
  with Some k show ?thesis
    by (cases "by_security_id m j") (auto simp: setTradingStatus_def findBySecurityId_def)
qed (simp add: setTradingStatus_def findBySecurityId_def)

end
