(* ===== verification/Engine_Types.thy ===== *)
theory Engine_Types
  imports Market_Types
begin

text \<open>
  The data of the matching engine: \<^verbatim>\<open>src/engine/order.h\<close>, \<^verbatim>\<open>trade.h\<close> and \<^verbatim>\<open>engine_event.h\<close>.
  The code shares \<^verbatim>\<open>Order\<close> objects through raw pointers (the price levels, the id index and the
  engine's ownership map all refer to one object), so orders live in an explicit heap addressed by
  \<open>OrderPtr\<close>.  Field names that several structs share carry the struct's initials in the event
  records.
\<close>

type_synonym OrderPtr = "64 word"

record Order =
  order_id :: OrderId
  cl_ord_id :: ClOrdId
  session_uuid :: uuid_t
  security_id :: SecurityId
  side :: Side
  order_type :: OrderType
  time_in_force :: TimeInForce
  price :: Price
  stop_price :: Price
  quantity :: Quantity
  filled_qty :: Quantity
  display_qty :: Quantity
  min_qty :: Quantity
  timestamp :: Timestamp
  status :: OrdStatus
  order_request_id :: "64 word"
  prev_in_level :: "OrderPtr option"
  next_in_level :: "OrderPtr option"

text \<open>An order as its default member initialisers leave it.\<close>

definition Order_default :: Order where
  "Order_default = \<lparr>order_id = 0, cl_ord_id = [], session_uuid = 0, security_id = 0, side = Buy,
     order_type = Limit, time_in_force = Day, price = Price 0, stop_price = Price 0, quantity = 0,
     filled_qty = 0, display_qty = 0, min_qty = 0, timestamp = 0, status = New,
     order_request_id = 0, prev_in_level = None, next_in_level = None\<rparr>"

text \<open>The memory the order pointers point into.\<close>

type_synonym heap = "OrderPtr \<Rightarrow> Order"

definition remainingQty :: "Order \<Rightarrow> Quantity" where
  "remainingQty o' = quantity o' - filled_qty o'"

definition isFullyFilled :: "Order \<Rightarrow> bool" where
  "isFullyFilled o' \<longleftrightarrow> quantity o' \<le> filled_qty o'"

lemma isFullyFilled_iff: "isFullyFilled o' \<longleftrightarrow> remainingQty o' \<le> 0"
  by (simp add: isFullyFilled_def remainingQty_def)

lemma remainingQty_updates [simp]:
  "remainingQty (o'\<lparr>status := x\<rparr>) = remainingQty o'"
  "remainingQty (o'\<lparr>filled_qty := y\<rparr>) = quantity o' - y"
  "remainingQty (o'\<lparr>prev_in_level := p\<rparr>) = remainingQty o'"
  "remainingQty (o'\<lparr>next_in_level := p\<rparr>) = remainingQty o'"
  by (simp_all add: remainingQty_def)

record Trade =
  tr_trade_id :: "64 word"
  tr_security_id :: SecurityId
  tr_price :: Price
  tr_quantity :: Quantity
  tr_aggressor_side :: Side
  tr_maker_order_id :: OrderId
  tr_taker_order_id :: OrderId
  tr_maker_session_uuid :: uuid_t
  tr_taker_session_uuid :: uuid_t
  tr_timestamp :: Timestamp

section \<open>Engine events\<close>

record OrderAccepted =
  acc_order_id :: OrderId
  acc_cl_ord_id :: ClOrdId
  acc_session_uuid :: uuid_t
  acc_security_id :: SecurityId
  acc_side :: Side
  acc_price :: Price
  acc_quantity :: Quantity
  acc_order_type :: OrderType
  acc_time_in_force :: TimeInForce

record OrderRejected =
  rej_cl_ord_id :: ClOrdId
  rej_session_uuid :: uuid_t
  rej_reason :: string
  rej_reject_reason_code :: "16 word"

record OrderFilled =
  trade_id :: "64 word"
  fill_security_id :: SecurityId
  trade_price :: Price
  trade_qty :: Quantity
  aggressor_side :: Side
  maker_order_id :: OrderId
  maker_cl_ord_id :: ClOrdId
  maker_session_uuid :: uuid_t
  maker_cum_qty :: Quantity
  maker_leaves_qty :: Quantity
  maker_ord_status :: OrdStatus
  taker_order_id :: OrderId
  taker_cl_ord_id :: ClOrdId
  taker_session_uuid :: uuid_t
  taker_cum_qty :: Quantity
  taker_leaves_qty :: Quantity
  taker_ord_status :: OrdStatus

record OrderCancelled =
  can_order_id :: OrderId
  can_cl_ord_id :: ClOrdId
  can_session_uuid :: uuid_t
  can_security_id :: SecurityId
  can_cum_qty :: Quantity
  can_ord_status :: OrdStatus

record OrderModified =
  mod_order_id :: OrderId
  mod_cl_ord_id :: ClOrdId
  mod_session_uuid :: uuid_t
  mod_security_id :: SecurityId
  mod_new_price :: Price
  mod_new_qty :: Quantity
  mod_cum_qty :: Quantity
  mod_leaves_qty :: Quantity

record OrderCancelRejected =
  cxr_order_id :: OrderId
  cxr_cl_ord_id :: ClOrdId
  cxr_session_uuid :: uuid_t
  cxr_reject_reason_code :: "16 word"
  cxr_reason :: string

record BookUpdate =
  bu_security_id :: SecurityId
  bu_side :: Side
  bu_price :: Price
  bu_new_qty :: Quantity
  bu_new_order_count :: int
  bu_update_action :: MDUpdateAction
  bu_price_level_index :: nat
  bu_rpt_seq :: "32 word"

datatype EngineEvent =
    EvAccepted OrderAccepted
  | EvRejected OrderRejected
  | EvFilled OrderFilled
  | EvCancelled OrderCancelled
  | EvModified OrderModified
  | EvCancelRejected OrderCancelRejected
  | EvBook BookUpdate

text \<open>The fills and the book updates of an event stream, in order.\<close>

fun fill_of :: "EngineEvent \<Rightarrow> OrderFilled option" where
  "fill_of (EvFilled f) = Some f"
| "fill_of _ = None"

fun update_of :: "EngineEvent \<Rightarrow> BookUpdate option" where
  "update_of (EvBook u) = Some u"
| "update_of _ = None"

definition fills :: "EngineEvent list \<Rightarrow> OrderFilled list" where
  "fills evs = List.map_filter fill_of evs"

definition updates :: "EngineEvent list \<Rightarrow> BookUpdate list" where
  "updates evs = List.map_filter update_of evs"

lemma fills_simps [simp, event_simps]:
  "fills [] = []"
  "fills (EvFilled f # evs) = f # fills evs"
  "fills (EvAccepted a # evs) = fills evs"
  "fills (EvRejected r # evs) = fills evs"
  "fills (EvCancelled c # evs) = fills evs"
  "fills (EvModified m # evs) = fills evs"
  "fills (EvCancelRejected x # evs) = fills evs"
  "fills (EvBook u # evs) = fills evs"
  "fills (evs @ evs') = fills evs @ fills evs'"
  by (simp_all add: fills_def List.map_filter_simps)

lemma updates_simps [simp, event_simps]:
  "updates [] = []"
  "updates (EvFilled f # evs) = updates evs"
  "updates (EvAccepted a # evs) = updates evs"
  "updates (EvRejected r # evs) = updates evs"
  "updates (EvCancelled c # evs) = updates evs"
  "updates (EvModified m # evs) = updates evs"
  "updates (EvCancelRejected x # evs) = updates evs"
  "updates (EvBook u # evs) = u # updates evs"
  "updates (evs @ evs') = updates evs @ updates evs'"
  by (simp_all add: updates_def List.map_filter_simps)

end
