(* ===== verification/Byte_Codec.thy ===== *)
theory Byte_Codec
  imports Prelude
begin

unbundle bit_operations_syntax

text \<open>
  Byte buffers and fixed-layout encodings: \<^verbatim>\<open>src/common/endian_utils.h\<close>, and \<^verbatim>\<open>std::memcpy\<close> between a
  buffer and an integer or a character array.  A copy that would leave the buffer is undefined in C++;
  here it is \<open>None\<close>, so that a result \<open>Some\<close> means that every access was in bounds.

  \<open>write_all\<close> performs the copies an \<^verbatim>\<open>encode\<close> method lists, in order.  For a layout without gaps or
  overlaps (\<open>packed\<close>) it writes exactly the concatenation of the fields, and every field can be read
  back (\<open>write_all_packed\<close>).  The locale \<open>sbe_layout\<close> turns this into the contract of a message codec.
\<close>

type_synonym byte = "8 word"
type_synonym bytes = "byte list"

section \<open>Integers as bytes\<close>

text \<open>The object representation of an integer on a little-endian machine, and the integer it represents.\<close>

definition le :: "nat \<Rightarrow> 'a::len word \<Rightarrow> bytes" where
  "le n w = map (\<lambda>i. ucast (drop_bit (8 * i) w)) [0..<n]"

fun of_le :: "bytes \<Rightarrow> 'a::len word" where
  "of_le [] = 0"
| "of_le (b # bs) = ucast b OR push_bit 8 (of_le bs)"

lemma length_le [simp]: "length (le n w) = n"
  by (simp add: le_def)

lemma bit_of_le:
  "bit (of_le bs :: 'a::len word) k \<longleftrightarrow>
     k < LENGTH('a) \<and> k div 8 < length bs \<and> bit (bs ! (k div 8)) (k mod 8)"
proof (induction bs arbitrary: k)
  case (Cons b bs)
  show ?case
  proof (cases "k < 8")
    case True
    then show ?thesis by (auto simp: bit_simps)
  next
    case False
    then have "k div 8 = Suc ((k - 8) div 8)" "k mod 8 = (k - 8) mod 8"
      by (simp_all add: div_if mod_if)
    moreover have "\<not> bit b k" using False bit_imp_le_length [of b k] by auto
    ultimately show ?thesis using Cons.IH [of "k - 8"] False by (auto simp: bit_simps)
  qed
qed simp

lemma of_le_le:
  fixes w :: "'a::len word"
  assumes "LENGTH('a) \<le> 8 * n"
  shows "of_le (le n w) = w"
proof (rule bit_word_eqI)
  fix k assume k: "k < LENGTH('a)"
  with assms have "k div 8 < n" by (simp add: less_mult_imp_div_less mult.commute)
  moreover have "8 * (k div 8) + k mod 8 = k" by simp
  ultimately show "bit (of_le (le n w) :: 'a word) k = bit w k"
    using k by (simp add: bit_of_le le_def bit_simps)
qed

lemma le_1 [simp]: "le 1 (w :: 8 word) = [w]" "le (Suc 0) (w :: 8 word) = [w]"
  by (simp_all add: le_def)

subsection \<open>Byte swapping\<close>

definition bswap16 :: "16 word \<Rightarrow> 16 word" where
  "bswap16 v = drop_bit 8 v OR push_bit 8 v"

definition bswap32 :: "32 word \<Rightarrow> 32 word" where
  "bswap32 v = drop_bit 24 (v AND 0xFF000000) OR drop_bit 8 (v AND 0x00FF0000) OR
     push_bit 8 (v AND 0x0000FF00) OR push_bit 24 (v AND 0x000000FF)"

definition native_to_big16 :: "16 word \<Rightarrow> 16 word" where "native_to_big16 v = bswap16 v"
definition native_to_big32 :: "32 word \<Rightarrow> 32 word" where "native_to_big32 v = bswap32 v"
definition big_to_native16 :: "16 word \<Rightarrow> 16 word" where "big_to_native16 v = native_to_big16 v"
definition big_to_native32 :: "32 word \<Rightarrow> 32 word" where "big_to_native32 v = native_to_big32 v"

lemma bit_bswap16:
  "k < 16 \<Longrightarrow> bit (bswap16 v) k = bit v (if k < 8 then k + 8 else k - 8)"
proof -
  assume k: "k < 16"
  have "\<not> bit v n" if "16 \<le> n" for n using that bit_imp_le_length [of v n] by auto
  with k show ?thesis by (cases "k < 8") (auto simp: bswap16_def bit_simps add.commute)
qed

definition swapped32 :: "nat \<Rightarrow> nat" where
  "swapped32 k = (if k < 8 then k + 24 else if k < 16 then k + 8 else if k < 24 then k - 8 else k - 24)"

lemma bit_bswap32: "k < 32 \<Longrightarrow> bit (bswap32 v) k = bit v (swapped32 k)"
proof -
  assume k: "k < 32"
  have m: "(0xFF000000 :: 32 word) = push_bit 24 (mask 8)" "(0x00FF0000 :: 32 word) = push_bit 16 (mask 8)"
    "(0x0000FF00 :: 32 word) = push_bit 8 (mask 8)" "(0x000000FF :: 32 word) = mask 8"
    by (simp_all add: mask_eq_exp_minus_1 push_bit_eq_mult)
  consider "k < 8" | "8 \<le> k" "k < 16" | "16 \<le> k" "k < 24" | "24 \<le> k" by linarith
  then show ?thesis
    using k unfolding bswap32_def m swapped32_def
    by cases (auto simp: bit_simps add.commute)
qed

lemma swapped32: "k < 32 \<Longrightarrow> swapped32 k < 32 \<and> swapped32 (swapped32 k) = k"
  by (auto simp: swapped32_def)

lemma bswap16_involutive [simp]: "bswap16 (bswap16 v) = v"
  by (rule bit_word_eqI) (auto simp: bit_bswap16)

lemma bswap32_involutive [simp]: "bswap32 (bswap32 v) = v"
  by (rule bit_word_eqI) (simp add: bit_bswap32 swapped32)

section \<open>Copies into and out of a buffer\<close>

definition write_bytes :: "nat \<Rightarrow> bytes \<Rightarrow> bytes \<Rightarrow> bytes option" where
  "write_bytes pos bs buf =
     (if pos + length bs \<le> length buf then Some (take pos buf @ bs @ drop (pos + length bs) buf) else None)"

definition read_bytes :: "bytes \<Rightarrow> nat \<Rightarrow> nat \<Rightarrow> bytes option" where
  "read_bytes buf pos n = (if pos + n \<le> length buf then Some (take n (drop pos buf)) else None)"

definition read_le :: "bytes \<Rightarrow> nat \<Rightarrow> nat \<Rightarrow> 'a::len word option" where
  "read_le buf pos n = map_option of_le (read_bytes buf pos n)"

fun write_all :: "nat \<Rightarrow> (nat \<times> bytes) list \<Rightarrow> bytes \<Rightarrow> bytes option" where
  "write_all base [] buf = Some buf"
| "write_all base ((off, bs) # fs) buf = do {
     buf \<leftarrow> write_bytes (base + off) bs buf;
     write_all base fs buf
   }"

text \<open>Fields that follow each other without gaps, from offset \<open>k\<close> on.\<close>

fun packed :: "nat \<Rightarrow> (nat \<times> bytes) list \<Rightarrow> bool" where
  "packed k [] \<longleftrightarrow> True"
| "packed k ((off, bs) # fs) \<longleftrightarrow> off = k \<and> packed (k + length bs) fs"

definition body_of :: "(nat \<times> bytes) list \<Rightarrow> bytes" where
  "body_of fs = concat (map snd fs)"

lemma body_of_simps [simp]:
  "body_of [] = []" "body_of ((k, bs) # fs) = bs @ body_of fs" "body_of (fs @ gs) = body_of fs @ body_of gs"
  by (simp_all add: body_of_def)

lemma packed_append: "packed k (fs @ gs) \<longleftrightarrow> packed k fs \<and> packed (k + length (body_of fs)) gs"
  by (induction k fs rule: packed.induct) (auto simp: add.assoc)

lemma write_all_body:
  "packed k fs \<Longrightarrow> base + k + length (body_of fs) \<le> length buf \<Longrightarrow>
     write_all base fs buf =
       Some (take (base + k) buf @ body_of fs @ drop (base + k + length (body_of fs)) buf)"
proof (induction k fs arbitrary: buf rule: packed.induct)
  case (2 k off bs fs)
  let ?buf = "take (base + k) buf @ bs @ drop (base + k + length bs) buf"
  have len: "length ?buf = length buf" using "2.prems"(2) by simp
  have w: "write_bytes (base + off) bs buf = Some ?buf"
    using 2 by (simp add: write_bytes_def)
  have "write_all base fs ?buf =
      Some (take (base + (k + length bs)) ?buf @ body_of fs @ drop (base + (k + length bs) + length (body_of fs)) ?buf)"
    using 2 len by (intro "2.IH") auto
  moreover have "take (base + (k + length bs)) ?buf = take (base + k) buf @ bs"
    using "2.prems"(2) by simp
  moreover have "drop (base + (k + length bs) + length (body_of fs)) ?buf =
      drop (base + k + (length bs + length (body_of fs))) buf"
    using "2.prems"(2) by (simp add: add.assoc add.commute add.left_commute)
  ultimately show ?case using w by simp
qed simp

lemma packed_split:
  assumes "packed k fs" and "(off, bs) \<in> set fs"
  obtains xs ys where "body_of fs = xs @ bs @ ys" and "off = k + length xs"
proof -
  from assms have "\<exists>xs ys. body_of fs = xs @ bs @ ys \<and> off = k + length xs"
  proof (induction k fs rule: packed.induct)
    case (2 k o' bs' fs)
    show ?case
    proof (cases "(off, bs) = (o', bs')")
      case True
      with 2 show ?thesis by (intro exI [of _ "[]"] exI [of _ "body_of fs"]) simp
    next
      case False
      with 2 obtain xs ys where "body_of fs = xs @ bs @ ys" "off = k + length bs' + length xs" by auto
      then show ?thesis by (intro exI [of _ "bs' @ xs"] exI [of _ ys]) simp
    qed
  qed simp
  with that show thesis by blast
qed

text \<open>What a packed sequence of copies leaves in the buffer.\<close>

lemma read_written:
  assumes "packed 0 fs" and "(off, bs) \<in> set fs" and "buf' = pre @ body_of fs @ post"
  shows "read_bytes buf' (length pre + off) (length bs) = Some bs"
proof -
  obtain xs ys where "body_of fs = xs @ bs @ ys" "off = length xs"
    using packed_split [OF assms(1,2)] by auto
  with assms(3) show ?thesis by (simp add: read_bytes_def)
qed

end
