(* ===== verification/Sbe_Framing.thy ===== *)
theory Sbe_Framing
  imports Byte_Codec
begin

text \<open>
  The envelopes of the two protocols: the SBE message header (\<^verbatim>\<open>src/sbe/message_header.h\<close>), the Simple
  Open Framing Header of iLink 3 (\<^verbatim>\<open>framing.h\<close>, big endian), the MDP 3.0 packet header
  (\<^verbatim>\<open>packet_header.h\<close>), the repeating-group header (\<^verbatim>\<open>GroupSize\<close> of \<^verbatim>\<open>mdp3_messages.h\<close>), the string
  helpers of \<^verbatim>\<open>ilink3_messages.h\<close>, and the locale \<open>sbe_message\<close> with the contract every message codec
  of \<^verbatim>\<open>src/sbe\<close> is shown to satisfy.
\<close>

section \<open>Message header\<close>

definition MessageHeader_SIZE :: nat where "MessageHeader_SIZE = 8"
definition ILINK3_SCHEMA_ID :: "16 word" where "ILINK3_SCHEMA_ID = 8"
definition ILINK3_VERSION :: "16 word" where "ILINK3_VERSION = 8"
definition MDP3_SCHEMA_ID :: "16 word" where "MDP3_SCHEMA_ID = 1"
definition MDP3_VERSION :: "16 word" where "MDP3_VERSION = 9"

definition MessageHeader_fields ::
  "16 word \<Rightarrow> 16 word \<Rightarrow> 16 word \<Rightarrow> 16 word \<Rightarrow> (nat \<times> bytes) list" where
  "MessageHeader_fields blockLength templateId schemaId version =
     [(0, le 2 blockLength), (2, le 2 templateId), (4, le 2 schemaId), (6, le 2 version)]"

definition MessageHeader_encode ::
  "nat \<Rightarrow> 16 word \<Rightarrow> 16 word \<Rightarrow> 16 word \<Rightarrow> 16 word \<Rightarrow> bytes \<Rightarrow> bytes option" where
  "MessageHeader_encode pos blockLength templateId schemaId version buf =
     write_all pos (MessageHeader_fields blockLength templateId schemaId version) buf"

definition encodeILink3 :: "nat \<Rightarrow> 16 word \<Rightarrow> 16 word \<Rightarrow> bytes \<Rightarrow> bytes option" where
  "encodeILink3 pos blockLength templateId buf =
     MessageHeader_encode pos blockLength templateId ILINK3_SCHEMA_ID ILINK3_VERSION buf"

definition encodeMDP3 :: "nat \<Rightarrow> 16 word \<Rightarrow> 16 word \<Rightarrow> bytes \<Rightarrow> bytes option" where
  "encodeMDP3 pos blockLength templateId buf =
     MessageHeader_encode pos blockLength templateId MDP3_SCHEMA_ID MDP3_VERSION buf"

definition decodeBlockLength :: "bytes \<Rightarrow> nat \<Rightarrow> 16 word option" where
  "decodeBlockLength buf pos = read_le buf pos 2"

definition decodeTemplateId :: "bytes \<Rightarrow> nat \<Rightarrow> 16 word option" where
  "decodeTemplateId buf pos = read_le buf (pos + 2) 2"

definition decodeSchemaId :: "bytes \<Rightarrow> nat \<Rightarrow> 16 word option" where
  "decodeSchemaId buf pos = read_le buf (pos + 4) 2"

definition decodeVersion :: "bytes \<Rightarrow> nat \<Rightarrow> 16 word option" where
  "decodeVersion buf pos = read_le buf (pos + 6) 2"

section \<open>Simple open framing header\<close>

definition SOFH_SIZE :: nat where "SOFH_SIZE = 6"
definition SBE_ENCODING_TYPE :: "16 word" where "SBE_ENCODING_TYPE = 0xCAFE"

definition SOFH_encode :: "nat \<Rightarrow> 32 word \<Rightarrow> bytes \<Rightarrow> bytes option" where
  "SOFH_encode pos message_length buf =
     write_all pos [(0, le 4 (native_to_big32 message_length)),
                    (4, le 2 (native_to_big16 SBE_ENCODING_TYPE))] buf"

definition decodeMessageLength :: "bytes \<Rightarrow> nat \<Rightarrow> 32 word option" where
  "decodeMessageLength buf pos = map_option big_to_native32 (read_le buf pos 4)"

definition decodeEncodingType :: "bytes \<Rightarrow> nat \<Rightarrow> 16 word option" where
  "decodeEncodingType buf pos = map_option big_to_native16 (read_le buf (pos + 4) 2)"

definition isValidSBE :: "bytes \<Rightarrow> nat \<Rightarrow> bool option" where
  "isValidSBE buf pos = map_option (\<lambda>e. e = SBE_ENCODING_TYPE) (decodeEncodingType buf pos)"

definition framedLength :: "32 word \<Rightarrow> 32 word" where
  "framedLength payload_length = of_nat SOFH_SIZE + payload_length"

section \<open>MDP 3.0 packet header and group header\<close>

definition PacketHeader_SIZE :: nat where "PacketHeader_SIZE = 12"

definition PacketHeader_encode :: "nat \<Rightarrow> 32 word \<Rightarrow> 64 word \<Rightarrow> bytes \<Rightarrow> bytes option" where
  "PacketHeader_encode pos msgSeqNum sendingTime buf =
     write_all pos [(0, le 4 msgSeqNum), (4, le 8 sendingTime)] buf"

definition decodeMsgSeqNum :: "bytes \<Rightarrow> nat \<Rightarrow> 32 word option" where
  "decodeMsgSeqNum buf pos = read_le buf pos 4"

definition decodeSendingTime :: "bytes \<Rightarrow> nat \<Rightarrow> 64 word option" where
  "decodeSendingTime buf pos = read_le buf (pos + 4) 8"

definition GroupSize_SIZE :: nat where "GroupSize_SIZE = 3"

definition GroupSize_fields :: "nat \<Rightarrow> 16 word \<Rightarrow> 8 word \<Rightarrow> (nat \<times> bytes) list" where
  "GroupSize_fields pos blockLength numInGroup = [(pos, le 2 blockLength), (pos + 2, le 1 numInGroup)]"

definition decodeGroupBlockLength :: "bytes \<Rightarrow> nat \<Rightarrow> 16 word option" where
  "decodeGroupBlockLength buf pos = read_le buf pos 2"

definition decodeNumInGroup :: "bytes \<Rightarrow> nat \<Rightarrow> 8 word option" where
  "decodeNumInGroup buf pos = read_le buf (pos + 2) 1"

section \<open>Fixed-size strings\<close>

text \<open>\<^verbatim>\<open>strlen\<close> and the copy with zero padding; a null source leaves zeros.\<close>

definition c_str :: "bytes \<Rightarrow> bytes" where
  "c_str bs = takeWhile (\<lambda>b. b \<noteq> 0) bs"

definition writeFixedString :: "bytes option \<Rightarrow> nat \<Rightarrow> bytes" where
  "writeFixedString src len =
     (case src of None \<Rightarrow> replicate len 0
      | Some s \<Rightarrow> let t = take len (c_str s) in t @ replicate (len - length t) 0)"

definition readFixedString :: "bytes \<Rightarrow> nat \<Rightarrow> nat \<Rightarrow> bytes option" where
  "readFixedString buf pos len = map_option (\<lambda>bs. bs @ [0]) (read_bytes buf pos len)"

lemma length_writeFixedString [simp]: "length (writeFixedString src len) = len"
  by (simp add: writeFixedString_def Let_def split: option.splits)

lemma c_str_writeFixedString: "c_str (writeFixedString (Some s) len) = take len (c_str s)"
proof -
  have "takeWhile (\<lambda>b. b \<noteq> 0) (take len (c_str s)) = take len (c_str s)"
    by (rule takeWhile_eq_all_conv [THEN iffD2])
      (auto simp: c_str_def dest!: in_set_takeD dest: set_takeWhileD)
  then show ?thesis
    by (simp add: writeFixedString_def c_str_def [of "_ @ _"] Let_def takeWhile_append takeWhile_replicate)
qed

section \<open>The contract of a message codec\<close>

text \<open>Header and body as the \<^verbatim>\<open>encode\<close> methods write them; they return the encoded size.\<close>

definition sbe_encode ::
  "16 word \<Rightarrow> 16 word \<Rightarrow> 16 word \<Rightarrow> 16 word \<Rightarrow> (nat \<times> bytes) list \<Rightarrow> nat \<Rightarrow> bytes \<Rightarrow> nat \<Rightarrow>
   (bytes \<times> nat) option"
where
  "sbe_encode schema version blockLength templateId fields len buf offset = do {
     buf \<leftarrow> MessageHeader_encode offset blockLength templateId schema version buf;
     buf \<leftarrow> write_all (offset + MessageHeader_SIZE) fields buf;
     Some (buf, MessageHeader_SIZE + len)
   }"

text \<open>A flat message: the block is the whole body.\<close>

definition ilink3_encode ::
  "16 word \<Rightarrow> 16 word \<Rightarrow> (nat \<times> bytes) list \<Rightarrow> bytes \<Rightarrow> nat \<Rightarrow> (bytes \<times> nat) option" where
  "ilink3_encode blockLength templateId fields buf offset =
     sbe_encode ILINK3_SCHEMA_ID ILINK3_VERSION blockLength templateId fields (unat blockLength) buf offset"

definition mdp3_encode ::
  "16 word \<Rightarrow> 16 word \<Rightarrow> (nat \<times> bytes) list \<Rightarrow> bytes \<Rightarrow> nat \<Rightarrow> (bytes \<times> nat) option" where
  "mdp3_encode blockLength templateId fields buf offset =
     sbe_encode MDP3_SCHEMA_ID MDP3_VERSION blockLength templateId fields (unat blockLength) buf offset"

definition reads_fields :: "bytes \<Rightarrow> nat \<Rightarrow> (nat \<times> bytes) list \<Rightarrow> bool" where
  "reads_fields buf b fs \<longleftrightarrow> (\<forall>(k, bs)\<in>set fs. read_bytes buf (b + k) (length bs) = Some bs)"

lemma reads_fields_simps [simp]:
  "reads_fields buf b []"
  "reads_fields buf b ((k, bs) # fs) \<longleftrightarrow> read_bytes buf (b + k) (length bs) = Some bs \<and> reads_fields buf b fs"
  "reads_fields buf b (fs @ gs) \<longleftrightarrow> reads_fields buf b fs \<and> reads_fields buf b gs"
  by (auto simp: reads_fields_def)

lemma reads_fields_body:
  assumes "packed 0 fs" and "buf' = pre @ body_of fs @ post" and "length pre = b"
  shows "reads_fields buf' b fs"
  using read_written [OF assms(1) _ assms(2)] assms(3) by (auto simp: reads_fields_def)

lemma MessageHeader_packed: "packed 0 (MessageHeader_fields bl t s v)" "length (body_of (MessageHeader_fields bl t s v)) = 8"
  by (simp_all add: MessageHeader_fields_def)

lemma read_leI: "read_bytes buf pos n = Some (le n w) \<Longrightarrow> LENGTH('a) \<le> 8 * n \<Longrightarrow>
    read_le buf pos n = Some (w :: 'a::len word)"
  by (simp add: read_le_def of_le_le)

lemma MessageHeader_decode:
  assumes "reads_fields buf pos (MessageHeader_fields bl t s v)"
  shows "decodeBlockLength buf pos = Some bl" "decodeTemplateId buf pos = Some t"
    "decodeSchemaId buf pos = Some s" "decodeVersion buf pos = Some v"
  using assms by (simp_all add: MessageHeader_fields_def decodeBlockLength_def decodeTemplateId_def
      decodeSchemaId_def decodeVersion_def read_leI)

text \<open>Writing header and body into any buffer that has room for them.\<close>

lemma sbe_encode_ok:
  assumes p: "packed 0 fields" and room: "off + 8 + length (body_of fields) \<le> length buf"
  shows "sbe_encode s v bl t fields msize buf off =
    Some (take off buf @ body_of (MessageHeader_fields bl t s v) @ body_of fields @
            drop (off + 8 + length (body_of fields)) buf, 8 + msize)"
proof -
  let ?h = "body_of (MessageHeader_fields bl t s v)"
  have lh: "length ?h = 8" by (rule MessageHeader_packed(2))
  let ?buf = "take off buf @ ?h @ drop (off + 8) buf"
  have h: "MessageHeader_encode off bl t s v buf = Some ?buf"
    using write_all_body [OF MessageHeader_packed(1), of off bl t s v buf] room lh
    by (simp add: MessageHeader_encode_def)
  have "write_all (off + 8) fields ?buf =
      Some (take (off + 8) ?buf @ body_of fields @ drop (off + 8 + length (body_of fields)) ?buf)"
    using write_all_body [OF p, of "off + 8" ?buf] room lh by simp
  moreover have "take (off + 8) ?buf = take off buf @ ?h" using room lh by simp
  moreover have "drop (off + 8 + length (body_of fields)) ?buf = drop (off + 8 + length (body_of fields)) buf"
    using room lh by (simp add: ac_simps)
  ultimately show ?thesis using h by (simp add: sbe_encode_def MessageHeader_SIZE_def)
qed

lemmas sbe_decode_simps = read_le_def of_le_le MessageHeader_SIZE_def Let_def

locale sbe_message =
  fixes schema version block tid :: "16 word"
    and fields :: "'m \<Rightarrow> (nat \<times> bytes) list" and msize :: "'m \<Rightarrow> nat"
    and encode :: "'m \<Rightarrow> bytes \<Rightarrow> nat \<Rightarrow> (bytes \<times> nat) option"
    and decode :: "bytes \<Rightarrow> nat \<Rightarrow> 'm option"
    and wf :: "'m \<Rightarrow> bool"
  assumes encode: "encode m buf off = sbe_encode schema version block tid (fields m) (msize m) buf off"
    and packed: "wf m \<Longrightarrow> packed 0 (fields m) \<and> length (body_of (fields m)) = msize m"
    and decode: "wf m \<Longrightarrow> reads_fields buf (off + 8) (fields m) \<Longrightarrow> decode buf off = Some m"
begin

text \<open>
  Encoding into a buffer with room succeeds, writes the message's bytes and no others, and decoding at
  the same place gives the message back; the header announces the message's template and block length.
\<close>

lemma roundtrip:
  assumes wf: "wf m" and room: "off + 8 + msize m \<le> length buf"
  obtains buf' where "encode m buf off = Some (buf', 8 + msize m)" and "length buf' = length buf"
    and "decode buf' off = Some m" and "decodeTemplateId buf' off = Some tid"
    and "decodeBlockLength buf' off = Some block" and "decodeSchemaId buf' off = Some schema"
    and "decodeVersion buf' off = Some version"
    and "take off buf' = take off buf" and "drop (off + 8 + msize m) buf' = drop (off + 8 + msize m) buf"
proof -
  let ?h = "body_of (MessageHeader_fields block tid schema version)" and ?b = "body_of (fields m)"
  note p = packed [OF wf] and lh = MessageHeader_packed(2) [of block tid schema version]
  define buf' where "buf' = take off buf @ ?h @ ?b @ drop (off + 8 + msize m) buf"
  have e: "encode m buf off = Some (buf', 8 + msize m)"
    using sbe_encode_ok [of "fields m" off buf schema version block tid "msize m"] p room
    by (simp add: encode buf'_def)
  have lo: "length (take off buf) = off" using room by simp
  have "reads_fields buf' (off + 8) (fields m)"
    using reads_fields_body [of "fields m" buf' "take off buf @ ?h"] p lo lh by (simp add: buf'_def)
  then have d: "decode buf' off = Some m" by (rule decode [OF wf])
  have hd: "reads_fields buf' off (MessageHeader_fields block tid schema version)"
    using reads_fields_body [OF MessageHeader_packed(1), of buf' "take off buf"] lo by (simp add: buf'_def)
  show thesis
    by (rule that [OF e _ d])
      (use p room lh lo MessageHeader_decode [OF hd] in \<open>simp_all add: buf'_def\<close>)
qed

text \<open>The bytes of a message on the wire.\<close>

definition wire :: "'m \<Rightarrow> bytes" where
  "wire m = body_of (MessageHeader_fields block tid schema version) @ body_of (fields m)"

lemma length_wire: "wf m \<Longrightarrow> length (wire m) = 8 + msize m"
  using packed MessageHeader_packed(2) by (simp add: wire_def)

lemma encode_wire:
  assumes "wf m" and "8 + msize m \<le> length buf"
  shows "encode m buf 0 = Some (wire m @ drop (8 + msize m) buf, 8 + msize m)"
  using sbe_encode_ok [of "fields m" 0 buf schema version block tid "msize m"] packed [OF assms(1)] assms(2)
  by (simp add: encode wire_def)

lemma encode_local:
  "wf m \<Longrightarrow> 8 + msize m \<le> n \<Longrightarrow>
     encode m (replicate n 0) 0 = Some (wire m @ replicate (n - (8 + msize m)) 0, length (wire m))"
  by (simp add: encode_wire length_wire)

text \<open>A message among other bytes.\<close>

lemma message_at:
  assumes "wf m"
  shows "decode (pre @ wire m @ post) (length pre) = Some m"
    and "decodeTemplateId (pre @ wire m @ post) (length pre) = Some tid"
    and "decodeBlockLength (pre @ wire m @ post) (length pre) = Some block"
proof -
  let ?h = "MessageHeader_fields block tid schema version" and ?buf = "pre @ wire m @ post"
  have "reads_fields ?buf (length pre + 8) (fields m)"
    by (rule reads_fields_body [of _ _ "pre @ body_of ?h" post])
      (use packed [OF assms] MessageHeader_packed(2) in \<open>simp_all add: wire_def\<close>)
  then show "decode ?buf (length pre) = Some m" by (rule decode [OF assms])
  have "reads_fields ?buf (length pre) ?h"
    by (rule reads_fields_body [OF MessageHeader_packed(1), of _ pre _ _ _ _ "body_of (fields m) @ post"])
      (simp_all add: wire_def)
  then show "decodeTemplateId ?buf (length pre) = Some tid" and "decodeBlockLength ?buf (length pre) = Some block"
    by (rule MessageHeader_decode(2), rule MessageHeader_decode(1))
qed

lemmas message_first = message_at [of _ "[]", simplified]

lemma decode_wire:
  assumes "wf m"
  shows "decode (wire m) 0 = Some m" and "decodeTemplateId (wire m) 0 = Some tid"
  using message_first [OF assms, of "[]"] by simp_all

end

end
