(* ===== verification/ILink3_Exec_Reports.thy ===== *)
theory ILink3_Exec_Reports
  imports Sbe_Framing
begin

text \<open>
  \<^verbatim>\<open>src/sbe/ilink3_messages.h\<close>, the execution reports (templates 522 to 534), in the same form as the
  session messages.
\<close>

subsection \<open>ExecutionReportNew522\<close>

record ExecutionReportNew522 =
  seqNum :: "32 word"
  uuid :: "64 word"
  execID :: bytes
  senderID :: bytes
  clOrdID :: bytes
  partyDetailsListReqID :: "64 word"
  orderID :: "64 word"
  price :: "64 word"
  stopPx :: "64 word"
  transactTime :: "64 word"
  sendingTimeEpoch :: "64 word"
  orderRequestID :: "64 word"
  location :: bytes
  securityID :: "32 word"
  orderQty :: "32 word"
  minQty :: "32 word"
  displayQty :: "32 word"
  ordType :: "8 word"
  side :: "8 word"
  timeInForce :: "8 word"
  manualOrderIndicator :: "8 word"
  execInst :: "8 word"
  executionMode :: "8 word"
  liquidityFlag :: "8 word"
  managedOrder :: "8 word"
  shortSaleType :: "8 word"
  expireDate :: "16 word"

definition ExecutionReportNew522_default :: ExecutionReportNew522 where
  "ExecutionReportNew522_default = \<lparr>ExecutionReportNew522.seqNum = 0,
     ExecutionReportNew522.uuid = 0,
     ExecutionReportNew522.execID = replicate 40 0,
     ExecutionReportNew522.senderID = replicate 20 0,
     ExecutionReportNew522.clOrdID = replicate 20 0,
     ExecutionReportNew522.partyDetailsListReqID = 0,
     ExecutionReportNew522.orderID = 0,
     ExecutionReportNew522.price = 0,
     ExecutionReportNew522.stopPx = 0,
     ExecutionReportNew522.transactTime = 0,
     ExecutionReportNew522.sendingTimeEpoch = 0,
     ExecutionReportNew522.orderRequestID = 0,
     ExecutionReportNew522.location = replicate 5 0,
     ExecutionReportNew522.securityID = 0,
     ExecutionReportNew522.orderQty = 0,
     ExecutionReportNew522.minQty = 0,
     ExecutionReportNew522.displayQty = 0,
     ExecutionReportNew522.ordType = 0,
     ExecutionReportNew522.side = 0,
     ExecutionReportNew522.timeInForce = 0,
     ExecutionReportNew522.manualOrderIndicator = 0,
     ExecutionReportNew522.execInst = 0,
     ExecutionReportNew522.executionMode = 0,
     ExecutionReportNew522.liquidityFlag = 0,
     ExecutionReportNew522.managedOrder = 0,
     ExecutionReportNew522.shortSaleType = 0,
     ExecutionReportNew522.expireDate = 0\<rparr>"

definition ExecutionReportNew522_TEMPLATE_ID :: "16 word" where "ExecutionReportNew522_TEMPLATE_ID = 522"
definition ExecutionReportNew522_BLOCK_LENGTH :: "16 word" where "ExecutionReportNew522_BLOCK_LENGTH = 180"

definition ExecutionReportNew522_fields :: "ExecutionReportNew522 \<Rightarrow> (nat \<times> bytes) list" where
  "ExecutionReportNew522_fields m = [
     (0, le 4 (ExecutionReportNew522.seqNum m)),
     (4, le 8 (ExecutionReportNew522.uuid m)),
     (12, ExecutionReportNew522.execID m),
     (52, ExecutionReportNew522.senderID m),
     (72, ExecutionReportNew522.clOrdID m),
     (92, le 8 (ExecutionReportNew522.partyDetailsListReqID m)),
     (100, le 8 (ExecutionReportNew522.orderID m)),
     (108, le 8 (ExecutionReportNew522.price m)),
     (116, le 8 (ExecutionReportNew522.stopPx m)),
     (124, le 8 (ExecutionReportNew522.transactTime m)),
     (132, le 8 (ExecutionReportNew522.sendingTimeEpoch m)),
     (140, le 8 (ExecutionReportNew522.orderRequestID m)),
     (148, ExecutionReportNew522.location m),
     (153, le 4 (ExecutionReportNew522.securityID m)),
     (157, le 4 (ExecutionReportNew522.orderQty m)),
     (161, le 4 (ExecutionReportNew522.minQty m)),
     (165, le 4 (ExecutionReportNew522.displayQty m)),
     (169, le 1 (ExecutionReportNew522.ordType m)),
     (170, le 1 (ExecutionReportNew522.side m)),
     (171, le 1 (ExecutionReportNew522.timeInForce m)),
     (172, le 1 (ExecutionReportNew522.manualOrderIndicator m)),
     (173, le 1 (ExecutionReportNew522.execInst m)),
     (174, le 1 (ExecutionReportNew522.executionMode m)),
     (175, le 1 (ExecutionReportNew522.liquidityFlag m)),
     (176, le 1 (ExecutionReportNew522.managedOrder m)),
     (177, le 1 (ExecutionReportNew522.shortSaleType m)),
     (178, le 2 (ExecutionReportNew522.expireDate m))]"

definition ExecutionReportNew522_encode :: "ExecutionReportNew522 \<Rightarrow> bytes \<Rightarrow> nat \<Rightarrow> (bytes \<times> nat) option" where
  "ExecutionReportNew522_encode m buf offset =
     ilink3_encode ExecutionReportNew522_BLOCK_LENGTH ExecutionReportNew522_TEMPLATE_ID (ExecutionReportNew522_fields m) buf offset"

definition ExecutionReportNew522_decode :: "bytes \<Rightarrow> nat \<Rightarrow> ExecutionReportNew522 option" where
  "ExecutionReportNew522_decode buf offset =
     (let b = offset + MessageHeader_SIZE in do {
        seqNum \<leftarrow> read_le buf (b + 0) 4;
        uuid \<leftarrow> read_le buf (b + 4) 8;
        execID \<leftarrow> read_bytes buf (b + 12) 40;
        senderID \<leftarrow> read_bytes buf (b + 52) 20;
        clOrdID \<leftarrow> read_bytes buf (b + 72) 20;
        partyDetailsListReqID \<leftarrow> read_le buf (b + 92) 8;
        orderID \<leftarrow> read_le buf (b + 100) 8;
        price \<leftarrow> read_le buf (b + 108) 8;
        stopPx \<leftarrow> read_le buf (b + 116) 8;
        transactTime \<leftarrow> read_le buf (b + 124) 8;
        sendingTimeEpoch \<leftarrow> read_le buf (b + 132) 8;
        orderRequestID \<leftarrow> read_le buf (b + 140) 8;
        location \<leftarrow> read_bytes buf (b + 148) 5;
        securityID \<leftarrow> read_le buf (b + 153) 4;
        orderQty \<leftarrow> read_le buf (b + 157) 4;
        minQty \<leftarrow> read_le buf (b + 161) 4;
        displayQty \<leftarrow> read_le buf (b + 165) 4;
        ordType \<leftarrow> read_le buf (b + 169) 1;
        side \<leftarrow> read_le buf (b + 170) 1;
        timeInForce \<leftarrow> read_le buf (b + 171) 1;
        manualOrderIndicator \<leftarrow> read_le buf (b + 172) 1;
        execInst \<leftarrow> read_le buf (b + 173) 1;
        executionMode \<leftarrow> read_le buf (b + 174) 1;
        liquidityFlag \<leftarrow> read_le buf (b + 175) 1;
        managedOrder \<leftarrow> read_le buf (b + 176) 1;
        shortSaleType \<leftarrow> read_le buf (b + 177) 1;
        expireDate \<leftarrow> read_le buf (b + 178) 2;
        Some \<lparr>ExecutionReportNew522.seqNum = seqNum,
          ExecutionReportNew522.uuid = uuid,
          ExecutionReportNew522.execID = execID,
          ExecutionReportNew522.senderID = senderID,
          ExecutionReportNew522.clOrdID = clOrdID,
          ExecutionReportNew522.partyDetailsListReqID = partyDetailsListReqID,
          ExecutionReportNew522.orderID = orderID,
          ExecutionReportNew522.price = price,
          ExecutionReportNew522.stopPx = stopPx,
          ExecutionReportNew522.transactTime = transactTime,
          ExecutionReportNew522.sendingTimeEpoch = sendingTimeEpoch,
          ExecutionReportNew522.orderRequestID = orderRequestID,
          ExecutionReportNew522.location = location,
          ExecutionReportNew522.securityID = securityID,
          ExecutionReportNew522.orderQty = orderQty,
          ExecutionReportNew522.minQty = minQty,
          ExecutionReportNew522.displayQty = displayQty,
          ExecutionReportNew522.ordType = ordType,
          ExecutionReportNew522.side = side,
          ExecutionReportNew522.timeInForce = timeInForce,
          ExecutionReportNew522.manualOrderIndicator = manualOrderIndicator,
          ExecutionReportNew522.execInst = execInst,
          ExecutionReportNew522.executionMode = executionMode,
          ExecutionReportNew522.liquidityFlag = liquidityFlag,
          ExecutionReportNew522.managedOrder = managedOrder,
          ExecutionReportNew522.shortSaleType = shortSaleType,
          ExecutionReportNew522.expireDate = expireDate\<rparr>
     })"

definition ExecutionReportNew522_wf :: "ExecutionReportNew522 \<Rightarrow> bool" where
  "ExecutionReportNew522_wf m \<longleftrightarrow> length (ExecutionReportNew522.execID m) = 40 \<and>
     length (ExecutionReportNew522.senderID m) = 20 \<and>
     length (ExecutionReportNew522.clOrdID m) = 20 \<and>
     length (ExecutionReportNew522.location m) = 5"

interpretation executionReportNew522: sbe_message ILINK3_SCHEMA_ID ILINK3_VERSION ExecutionReportNew522_BLOCK_LENGTH ExecutionReportNew522_TEMPLATE_ID
  ExecutionReportNew522_fields "\<lambda>_. unat ExecutionReportNew522_BLOCK_LENGTH" ExecutionReportNew522_encode ExecutionReportNew522_decode ExecutionReportNew522_wf
proof
  fix m buf off
  show "ExecutionReportNew522_encode m buf off = sbe_encode ILINK3_SCHEMA_ID ILINK3_VERSION ExecutionReportNew522_BLOCK_LENGTH
      ExecutionReportNew522_TEMPLATE_ID (ExecutionReportNew522_fields m) (unat ExecutionReportNew522_BLOCK_LENGTH) buf off"
    by (simp add: ExecutionReportNew522_encode_def ilink3_encode_def)
  show "ExecutionReportNew522_wf m \<Longrightarrow> packed 0 (ExecutionReportNew522_fields m) \<and> length (body_of (ExecutionReportNew522_fields m)) = unat ExecutionReportNew522_BLOCK_LENGTH"
    by (simp add: ExecutionReportNew522_wf_def ExecutionReportNew522_fields_def ExecutionReportNew522_BLOCK_LENGTH_def)
  show "ExecutionReportNew522_wf m \<Longrightarrow> reads_fields buf (off + 8) (ExecutionReportNew522_fields m) \<Longrightarrow> ExecutionReportNew522_decode buf off = Some m"
    by (cases m) (simp add: ExecutionReportNew522_wf_def ExecutionReportNew522_fields_def ExecutionReportNew522_decode_def sbe_decode_simps)
qed


subsection \<open>ExecutionReportReject523\<close>

record ExecutionReportReject523 =
  seqNum :: "32 word"
  uuid :: "64 word"
  execID :: bytes
  senderID :: bytes
  clOrdID :: bytes
  partyDetailsListReqID :: "64 word"
  orderID :: "64 word"
  price :: "64 word"
  stopPx :: "64 word"
  transactTime :: "64 word"
  sendingTimeEpoch :: "64 word"
  orderRequestID :: "64 word"
  location :: bytes
  securityID :: "32 word"
  orderQty :: "32 word"
  minQty :: "32 word"
  displayQty :: "32 word"
  ordRejReason :: "16 word"
  ordType :: "8 word"
  side :: "8 word"
  timeInForce :: "8 word"
  manualOrderIndicator :: "8 word"
  execInst :: "8 word"
  executionMode :: "8 word"
  liquidityFlag :: "8 word"
  managedOrder :: "8 word"
  shortSaleType :: "8 word"
  ordStatus :: "8 word"
  execType :: "8 word"
  expireDate :: "16 word"

definition ExecutionReportReject523_default :: ExecutionReportReject523 where
  "ExecutionReportReject523_default = \<lparr>ExecutionReportReject523.seqNum = 0,
     ExecutionReportReject523.uuid = 0,
     ExecutionReportReject523.execID = replicate 40 0,
     ExecutionReportReject523.senderID = replicate 20 0,
     ExecutionReportReject523.clOrdID = replicate 20 0,
     ExecutionReportReject523.partyDetailsListReqID = 0,
     ExecutionReportReject523.orderID = 0,
     ExecutionReportReject523.price = 0,
     ExecutionReportReject523.stopPx = 0,
     ExecutionReportReject523.transactTime = 0,
     ExecutionReportReject523.sendingTimeEpoch = 0,
     ExecutionReportReject523.orderRequestID = 0,
     ExecutionReportReject523.location = replicate 5 0,
     ExecutionReportReject523.securityID = 0,
     ExecutionReportReject523.orderQty = 0,
     ExecutionReportReject523.minQty = 0,
     ExecutionReportReject523.displayQty = 0,
     ExecutionReportReject523.ordRejReason = 0,
     ExecutionReportReject523.ordType = 0,
     ExecutionReportReject523.side = 0,
     ExecutionReportReject523.timeInForce = 0,
     ExecutionReportReject523.manualOrderIndicator = 0,
     ExecutionReportReject523.execInst = 0,
     ExecutionReportReject523.executionMode = 0,
     ExecutionReportReject523.liquidityFlag = 0,
     ExecutionReportReject523.managedOrder = 0,
     ExecutionReportReject523.shortSaleType = 0,
     ExecutionReportReject523.ordStatus = 0x38,
     ExecutionReportReject523.execType = 0x38,
     ExecutionReportReject523.expireDate = 0\<rparr>"

definition ExecutionReportReject523_TEMPLATE_ID :: "16 word" where "ExecutionReportReject523_TEMPLATE_ID = 523"
definition ExecutionReportReject523_BLOCK_LENGTH :: "16 word" where "ExecutionReportReject523_BLOCK_LENGTH = 184"

definition ExecutionReportReject523_fields :: "ExecutionReportReject523 \<Rightarrow> (nat \<times> bytes) list" where
  "ExecutionReportReject523_fields m = [
     (0, le 4 (ExecutionReportReject523.seqNum m)),
     (4, le 8 (ExecutionReportReject523.uuid m)),
     (12, ExecutionReportReject523.execID m),
     (52, ExecutionReportReject523.senderID m),
     (72, ExecutionReportReject523.clOrdID m),
     (92, le 8 (ExecutionReportReject523.partyDetailsListReqID m)),
     (100, le 8 (ExecutionReportReject523.orderID m)),
     (108, le 8 (ExecutionReportReject523.price m)),
     (116, le 8 (ExecutionReportReject523.stopPx m)),
     (124, le 8 (ExecutionReportReject523.transactTime m)),
     (132, le 8 (ExecutionReportReject523.sendingTimeEpoch m)),
     (140, le 8 (ExecutionReportReject523.orderRequestID m)),
     (148, ExecutionReportReject523.location m),
     (153, le 4 (ExecutionReportReject523.securityID m)),
     (157, le 4 (ExecutionReportReject523.orderQty m)),
     (161, le 4 (ExecutionReportReject523.minQty m)),
     (165, le 4 (ExecutionReportReject523.displayQty m)),
     (169, le 2 (ExecutionReportReject523.ordRejReason m)),
     (171, le 1 (ExecutionReportReject523.ordType m)),
     (172, le 1 (ExecutionReportReject523.side m)),
     (173, le 1 (ExecutionReportReject523.timeInForce m)),
     (174, le 1 (ExecutionReportReject523.manualOrderIndicator m)),
     (175, le 1 (ExecutionReportReject523.execInst m)),
     (176, le 1 (ExecutionReportReject523.executionMode m)),
     (177, le 1 (ExecutionReportReject523.liquidityFlag m)),
     (178, le 1 (ExecutionReportReject523.managedOrder m)),
     (179, le 1 (ExecutionReportReject523.shortSaleType m)),
     (180, le 1 (ExecutionReportReject523.ordStatus m)),
     (181, le 1 (ExecutionReportReject523.execType m)),
     (182, le 2 (ExecutionReportReject523.expireDate m))]"

definition ExecutionReportReject523_encode :: "ExecutionReportReject523 \<Rightarrow> bytes \<Rightarrow> nat \<Rightarrow> (bytes \<times> nat) option" where
  "ExecutionReportReject523_encode m buf offset =
     ilink3_encode ExecutionReportReject523_BLOCK_LENGTH ExecutionReportReject523_TEMPLATE_ID (ExecutionReportReject523_fields m) buf offset"

definition ExecutionReportReject523_decode :: "bytes \<Rightarrow> nat \<Rightarrow> ExecutionReportReject523 option" where
  "ExecutionReportReject523_decode buf offset =
     (let b = offset + MessageHeader_SIZE in do {
        seqNum \<leftarrow> read_le buf (b + 0) 4;
        uuid \<leftarrow> read_le buf (b + 4) 8;
        execID \<leftarrow> read_bytes buf (b + 12) 40;
        senderID \<leftarrow> read_bytes buf (b + 52) 20;
        clOrdID \<leftarrow> read_bytes buf (b + 72) 20;
        partyDetailsListReqID \<leftarrow> read_le buf (b + 92) 8;
        orderID \<leftarrow> read_le buf (b + 100) 8;
        price \<leftarrow> read_le buf (b + 108) 8;
        stopPx \<leftarrow> read_le buf (b + 116) 8;
        transactTime \<leftarrow> read_le buf (b + 124) 8;
        sendingTimeEpoch \<leftarrow> read_le buf (b + 132) 8;
        orderRequestID \<leftarrow> read_le buf (b + 140) 8;
        location \<leftarrow> read_bytes buf (b + 148) 5;
        securityID \<leftarrow> read_le buf (b + 153) 4;
        orderQty \<leftarrow> read_le buf (b + 157) 4;
        minQty \<leftarrow> read_le buf (b + 161) 4;
        displayQty \<leftarrow> read_le buf (b + 165) 4;
        ordRejReason \<leftarrow> read_le buf (b + 169) 2;
        ordType \<leftarrow> read_le buf (b + 171) 1;
        side \<leftarrow> read_le buf (b + 172) 1;
        timeInForce \<leftarrow> read_le buf (b + 173) 1;
        manualOrderIndicator \<leftarrow> read_le buf (b + 174) 1;
        execInst \<leftarrow> read_le buf (b + 175) 1;
        executionMode \<leftarrow> read_le buf (b + 176) 1;
        liquidityFlag \<leftarrow> read_le buf (b + 177) 1;
        managedOrder \<leftarrow> read_le buf (b + 178) 1;
        shortSaleType \<leftarrow> read_le buf (b + 179) 1;
        ordStatus \<leftarrow> read_le buf (b + 180) 1;
        execType \<leftarrow> read_le buf (b + 181) 1;
        expireDate \<leftarrow> read_le buf (b + 182) 2;
        Some \<lparr>ExecutionReportReject523.seqNum = seqNum,
          ExecutionReportReject523.uuid = uuid,
          ExecutionReportReject523.execID = execID,
          ExecutionReportReject523.senderID = senderID,
          ExecutionReportReject523.clOrdID = clOrdID,
          ExecutionReportReject523.partyDetailsListReqID = partyDetailsListReqID,
          ExecutionReportReject523.orderID = orderID,
          ExecutionReportReject523.price = price,
          ExecutionReportReject523.stopPx = stopPx,
          ExecutionReportReject523.transactTime = transactTime,
          ExecutionReportReject523.sendingTimeEpoch = sendingTimeEpoch,
          ExecutionReportReject523.orderRequestID = orderRequestID,
          ExecutionReportReject523.location = location,
          ExecutionReportReject523.securityID = securityID,
          ExecutionReportReject523.orderQty = orderQty,
          ExecutionReportReject523.minQty = minQty,
          ExecutionReportReject523.displayQty = displayQty,
          ExecutionReportReject523.ordRejReason = ordRejReason,
          ExecutionReportReject523.ordType = ordType,
          ExecutionReportReject523.side = side,
          ExecutionReportReject523.timeInForce = timeInForce,
          ExecutionReportReject523.manualOrderIndicator = manualOrderIndicator,
          ExecutionReportReject523.execInst = execInst,
          ExecutionReportReject523.executionMode = executionMode,
          ExecutionReportReject523.liquidityFlag = liquidityFlag,
          ExecutionReportReject523.managedOrder = managedOrder,
          ExecutionReportReject523.shortSaleType = shortSaleType,
          ExecutionReportReject523.ordStatus = ordStatus,
          ExecutionReportReject523.execType = execType,
          ExecutionReportReject523.expireDate = expireDate\<rparr>
     })"

definition ExecutionReportReject523_wf :: "ExecutionReportReject523 \<Rightarrow> bool" where
  "ExecutionReportReject523_wf m \<longleftrightarrow> length (ExecutionReportReject523.execID m) = 40 \<and>
     length (ExecutionReportReject523.senderID m) = 20 \<and>
     length (ExecutionReportReject523.clOrdID m) = 20 \<and>
     length (ExecutionReportReject523.location m) = 5"

interpretation executionReportReject523: sbe_message ILINK3_SCHEMA_ID ILINK3_VERSION ExecutionReportReject523_BLOCK_LENGTH ExecutionReportReject523_TEMPLATE_ID
  ExecutionReportReject523_fields "\<lambda>_. unat ExecutionReportReject523_BLOCK_LENGTH" ExecutionReportReject523_encode ExecutionReportReject523_decode ExecutionReportReject523_wf
proof
  fix m buf off
  show "ExecutionReportReject523_encode m buf off = sbe_encode ILINK3_SCHEMA_ID ILINK3_VERSION ExecutionReportReject523_BLOCK_LENGTH
      ExecutionReportReject523_TEMPLATE_ID (ExecutionReportReject523_fields m) (unat ExecutionReportReject523_BLOCK_LENGTH) buf off"
    by (simp add: ExecutionReportReject523_encode_def ilink3_encode_def)
  show "ExecutionReportReject523_wf m \<Longrightarrow> packed 0 (ExecutionReportReject523_fields m) \<and> length (body_of (ExecutionReportReject523_fields m)) = unat ExecutionReportReject523_BLOCK_LENGTH"
    by (simp add: ExecutionReportReject523_wf_def ExecutionReportReject523_fields_def ExecutionReportReject523_BLOCK_LENGTH_def)
  show "ExecutionReportReject523_wf m \<Longrightarrow> reads_fields buf (off + 8) (ExecutionReportReject523_fields m) \<Longrightarrow> ExecutionReportReject523_decode buf off = Some m"
    by (cases m) (simp add: ExecutionReportReject523_wf_def ExecutionReportReject523_fields_def ExecutionReportReject523_decode_def sbe_decode_simps)
qed


subsection \<open>ExecutionReportElimination524\<close>

record ExecutionReportElimination524 =
  seqNum :: "32 word"
  uuid :: "64 word"
  execID :: bytes
  senderID :: bytes
  clOrdID :: bytes
  partyDetailsListReqID :: "64 word"
  orderID :: "64 word"
  price :: "64 word"
  stopPx :: "64 word"
  transactTime :: "64 word"
  sendingTimeEpoch :: "64 word"
  orderRequestID :: "64 word"
  location :: bytes
  securityID :: "32 word"
  cumQty :: "32 word"
  orderQty :: "32 word"
  minQty :: "32 word"
  displayQty :: "32 word"
  ordType :: "8 word"
  side :: "8 word"
  timeInForce :: "8 word"
  manualOrderIndicator :: "8 word"
  execInst :: "8 word"
  executionMode :: "8 word"
  liquidityFlag :: "8 word"
  managedOrder :: "8 word"
  shortSaleType :: "8 word"
  ordStatus :: "8 word"
  execType :: "8 word"
  expireDate :: "16 word"

definition ExecutionReportElimination524_default :: ExecutionReportElimination524 where
  "ExecutionReportElimination524_default = \<lparr>ExecutionReportElimination524.seqNum = 0,
     ExecutionReportElimination524.uuid = 0,
     ExecutionReportElimination524.execID = replicate 40 0,
     ExecutionReportElimination524.senderID = replicate 20 0,
     ExecutionReportElimination524.clOrdID = replicate 20 0,
     ExecutionReportElimination524.partyDetailsListReqID = 0,
     ExecutionReportElimination524.orderID = 0,
     ExecutionReportElimination524.price = 0,
     ExecutionReportElimination524.stopPx = 0,
     ExecutionReportElimination524.transactTime = 0,
     ExecutionReportElimination524.sendingTimeEpoch = 0,
     ExecutionReportElimination524.orderRequestID = 0,
     ExecutionReportElimination524.location = replicate 5 0,
     ExecutionReportElimination524.securityID = 0,
     ExecutionReportElimination524.cumQty = 0,
     ExecutionReportElimination524.orderQty = 0,
     ExecutionReportElimination524.minQty = 0,
     ExecutionReportElimination524.displayQty = 0,
     ExecutionReportElimination524.ordType = 0,
     ExecutionReportElimination524.side = 0,
     ExecutionReportElimination524.timeInForce = 0,
     ExecutionReportElimination524.manualOrderIndicator = 0,
     ExecutionReportElimination524.execInst = 0,
     ExecutionReportElimination524.executionMode = 0,
     ExecutionReportElimination524.liquidityFlag = 0,
     ExecutionReportElimination524.managedOrder = 0,
     ExecutionReportElimination524.shortSaleType = 0,
     ExecutionReportElimination524.ordStatus = 0x43,
     ExecutionReportElimination524.execType = 0x43,
     ExecutionReportElimination524.expireDate = 0\<rparr>"

definition ExecutionReportElimination524_TEMPLATE_ID :: "16 word" where "ExecutionReportElimination524_TEMPLATE_ID = 524"
definition ExecutionReportElimination524_BLOCK_LENGTH :: "16 word" where "ExecutionReportElimination524_BLOCK_LENGTH = 186"

definition ExecutionReportElimination524_fields :: "ExecutionReportElimination524 \<Rightarrow> (nat \<times> bytes) list" where
  "ExecutionReportElimination524_fields m = [
     (0, le 4 (ExecutionReportElimination524.seqNum m)),
     (4, le 8 (ExecutionReportElimination524.uuid m)),
     (12, ExecutionReportElimination524.execID m),
     (52, ExecutionReportElimination524.senderID m),
     (72, ExecutionReportElimination524.clOrdID m),
     (92, le 8 (ExecutionReportElimination524.partyDetailsListReqID m)),
     (100, le 8 (ExecutionReportElimination524.orderID m)),
     (108, le 8 (ExecutionReportElimination524.price m)),
     (116, le 8 (ExecutionReportElimination524.stopPx m)),
     (124, le 8 (ExecutionReportElimination524.transactTime m)),
     (132, le 8 (ExecutionReportElimination524.sendingTimeEpoch m)),
     (140, le 8 (ExecutionReportElimination524.orderRequestID m)),
     (148, ExecutionReportElimination524.location m),
     (153, le 4 (ExecutionReportElimination524.securityID m)),
     (157, le 4 (ExecutionReportElimination524.cumQty m)),
     (161, le 4 (ExecutionReportElimination524.orderQty m)),
     (165, le 4 (ExecutionReportElimination524.minQty m)),
     (169, le 4 (ExecutionReportElimination524.displayQty m)),
     (173, le 1 (ExecutionReportElimination524.ordType m)),
     (174, le 1 (ExecutionReportElimination524.side m)),
     (175, le 1 (ExecutionReportElimination524.timeInForce m)),
     (176, le 1 (ExecutionReportElimination524.manualOrderIndicator m)),
     (177, le 1 (ExecutionReportElimination524.execInst m)),
     (178, le 1 (ExecutionReportElimination524.executionMode m)),
     (179, le 1 (ExecutionReportElimination524.liquidityFlag m)),
     (180, le 1 (ExecutionReportElimination524.managedOrder m)),
     (181, le 1 (ExecutionReportElimination524.shortSaleType m)),
     (182, le 1 (ExecutionReportElimination524.ordStatus m)),
     (183, le 1 (ExecutionReportElimination524.execType m)),
     (184, le 2 (ExecutionReportElimination524.expireDate m))]"

definition ExecutionReportElimination524_encode :: "ExecutionReportElimination524 \<Rightarrow> bytes \<Rightarrow> nat \<Rightarrow> (bytes \<times> nat) option" where
  "ExecutionReportElimination524_encode m buf offset =
     ilink3_encode ExecutionReportElimination524_BLOCK_LENGTH ExecutionReportElimination524_TEMPLATE_ID (ExecutionReportElimination524_fields m) buf offset"

definition ExecutionReportElimination524_decode :: "bytes \<Rightarrow> nat \<Rightarrow> ExecutionReportElimination524 option" where
  "ExecutionReportElimination524_decode buf offset =
     (let b = offset + MessageHeader_SIZE in do {
        seqNum \<leftarrow> read_le buf (b + 0) 4;
        uuid \<leftarrow> read_le buf (b + 4) 8;
        execID \<leftarrow> read_bytes buf (b + 12) 40;
        senderID \<leftarrow> read_bytes buf (b + 52) 20;
        clOrdID \<leftarrow> read_bytes buf (b + 72) 20;
        partyDetailsListReqID \<leftarrow> read_le buf (b + 92) 8;
        orderID \<leftarrow> read_le buf (b + 100) 8;
        price \<leftarrow> read_le buf (b + 108) 8;
        stopPx \<leftarrow> read_le buf (b + 116) 8;
        transactTime \<leftarrow> read_le buf (b + 124) 8;
        sendingTimeEpoch \<leftarrow> read_le buf (b + 132) 8;
        orderRequestID \<leftarrow> read_le buf (b + 140) 8;
        location \<leftarrow> read_bytes buf (b + 148) 5;
        securityID \<leftarrow> read_le buf (b + 153) 4;
        cumQty \<leftarrow> read_le buf (b + 157) 4;
        orderQty \<leftarrow> read_le buf (b + 161) 4;
        minQty \<leftarrow> read_le buf (b + 165) 4;
        displayQty \<leftarrow> read_le buf (b + 169) 4;
        ordType \<leftarrow> read_le buf (b + 173) 1;
        side \<leftarrow> read_le buf (b + 174) 1;
        timeInForce \<leftarrow> read_le buf (b + 175) 1;
        manualOrderIndicator \<leftarrow> read_le buf (b + 176) 1;
        execInst \<leftarrow> read_le buf (b + 177) 1;
        executionMode \<leftarrow> read_le buf (b + 178) 1;
        liquidityFlag \<leftarrow> read_le buf (b + 179) 1;
        managedOrder \<leftarrow> read_le buf (b + 180) 1;
        shortSaleType \<leftarrow> read_le buf (b + 181) 1;
        ordStatus \<leftarrow> read_le buf (b + 182) 1;
        execType \<leftarrow> read_le buf (b + 183) 1;
        expireDate \<leftarrow> read_le buf (b + 184) 2;
        Some \<lparr>ExecutionReportElimination524.seqNum = seqNum,
          ExecutionReportElimination524.uuid = uuid,
          ExecutionReportElimination524.execID = execID,
          ExecutionReportElimination524.senderID = senderID,
          ExecutionReportElimination524.clOrdID = clOrdID,
          ExecutionReportElimination524.partyDetailsListReqID = partyDetailsListReqID,
          ExecutionReportElimination524.orderID = orderID,
          ExecutionReportElimination524.price = price,
          ExecutionReportElimination524.stopPx = stopPx,
          ExecutionReportElimination524.transactTime = transactTime,
          ExecutionReportElimination524.sendingTimeEpoch = sendingTimeEpoch,
          ExecutionReportElimination524.orderRequestID = orderRequestID,
          ExecutionReportElimination524.location = location,
          ExecutionReportElimination524.securityID = securityID,
          ExecutionReportElimination524.cumQty = cumQty,
          ExecutionReportElimination524.orderQty = orderQty,
          ExecutionReportElimination524.minQty = minQty,
          ExecutionReportElimination524.displayQty = displayQty,
          ExecutionReportElimination524.ordType = ordType,
          ExecutionReportElimination524.side = side,
          ExecutionReportElimination524.timeInForce = timeInForce,
          ExecutionReportElimination524.manualOrderIndicator = manualOrderIndicator,
          ExecutionReportElimination524.execInst = execInst,
          ExecutionReportElimination524.executionMode = executionMode,
          ExecutionReportElimination524.liquidityFlag = liquidityFlag,
          ExecutionReportElimination524.managedOrder = managedOrder,
          ExecutionReportElimination524.shortSaleType = shortSaleType,
          ExecutionReportElimination524.ordStatus = ordStatus,
          ExecutionReportElimination524.execType = execType,
          ExecutionReportElimination524.expireDate = expireDate\<rparr>
     })"

definition ExecutionReportElimination524_wf :: "ExecutionReportElimination524 \<Rightarrow> bool" where
  "ExecutionReportElimination524_wf m \<longleftrightarrow> length (ExecutionReportElimination524.execID m) = 40 \<and>
     length (ExecutionReportElimination524.senderID m) = 20 \<and>
     length (ExecutionReportElimination524.clOrdID m) = 20 \<and>
     length (ExecutionReportElimination524.location m) = 5"

interpretation executionReportElimination524: sbe_message ILINK3_SCHEMA_ID ILINK3_VERSION ExecutionReportElimination524_BLOCK_LENGTH ExecutionReportElimination524_TEMPLATE_ID
  ExecutionReportElimination524_fields "\<lambda>_. unat ExecutionReportElimination524_BLOCK_LENGTH" ExecutionReportElimination524_encode ExecutionReportElimination524_decode ExecutionReportElimination524_wf
proof
  fix m buf off
  show "ExecutionReportElimination524_encode m buf off = sbe_encode ILINK3_SCHEMA_ID ILINK3_VERSION ExecutionReportElimination524_BLOCK_LENGTH
      ExecutionReportElimination524_TEMPLATE_ID (ExecutionReportElimination524_fields m) (unat ExecutionReportElimination524_BLOCK_LENGTH) buf off"
    by (simp add: ExecutionReportElimination524_encode_def ilink3_encode_def)
  show "ExecutionReportElimination524_wf m \<Longrightarrow> packed 0 (ExecutionReportElimination524_fields m) \<and> length (body_of (ExecutionReportElimination524_fields m)) = unat ExecutionReportElimination524_BLOCK_LENGTH"
    by (simp add: ExecutionReportElimination524_wf_def ExecutionReportElimination524_fields_def ExecutionReportElimination524_BLOCK_LENGTH_def)
  show "ExecutionReportElimination524_wf m \<Longrightarrow> reads_fields buf (off + 8) (ExecutionReportElimination524_fields m) \<Longrightarrow> ExecutionReportElimination524_decode buf off = Some m"
    by (cases m) (simp add: ExecutionReportElimination524_wf_def ExecutionReportElimination524_fields_def ExecutionReportElimination524_decode_def sbe_decode_simps)
qed


subsection \<open>ExecutionReportTradeOutright525\<close>

record ExecutionReportTradeOutright525 =
  seqNum :: "32 word"
  uuid :: "64 word"
  execID :: bytes
  senderID :: bytes
  clOrdID :: bytes
  partyDetailsListReqID :: "64 word"
  orderID :: "64 word"
  price :: "64 word"
  stopPx :: "64 word"
  transactTime :: "64 word"
  sendingTimeEpoch :: "64 word"
  orderRequestID :: "64 word"
  lastQty :: "32 word"
  lastPx :: "64 word"
  location :: bytes
  securityID :: "32 word"
  orderQty :: "32 word"
  cumQty :: "32 word"
  leavesQty :: "32 word"
  minQty :: "32 word"
  displayQty :: "32 word"
  sideTradeID :: "32 word"
  tradeDate :: "16 word"
  ordType :: "8 word"
  side :: "8 word"
  timeInForce :: "8 word"
  manualOrderIndicator :: "8 word"
  execInst :: "8 word"
  executionMode :: "8 word"
  liquidityFlag :: "8 word"
  managedOrder :: "8 word"
  shortSaleType :: "8 word"
  ordStatus :: "8 word"
  execType :: "8 word"
  aggressorIndicator :: "8 word"
  expireDate :: "16 word"
  fillPx :: "64 word"
  fillQty :: "32 word"

definition ExecutionReportTradeOutright525_default :: ExecutionReportTradeOutright525 where
  "ExecutionReportTradeOutright525_default = \<lparr>ExecutionReportTradeOutright525.seqNum = 0,
     ExecutionReportTradeOutright525.uuid = 0,
     ExecutionReportTradeOutright525.execID = replicate 40 0,
     ExecutionReportTradeOutright525.senderID = replicate 20 0,
     ExecutionReportTradeOutright525.clOrdID = replicate 20 0,
     ExecutionReportTradeOutright525.partyDetailsListReqID = 0,
     ExecutionReportTradeOutright525.orderID = 0,
     ExecutionReportTradeOutright525.price = 0,
     ExecutionReportTradeOutright525.stopPx = 0,
     ExecutionReportTradeOutright525.transactTime = 0,
     ExecutionReportTradeOutright525.sendingTimeEpoch = 0,
     ExecutionReportTradeOutright525.orderRequestID = 0,
     ExecutionReportTradeOutright525.lastQty = 0,
     ExecutionReportTradeOutright525.lastPx = 0,
     ExecutionReportTradeOutright525.location = replicate 5 0,
     ExecutionReportTradeOutright525.securityID = 0,
     ExecutionReportTradeOutright525.orderQty = 0,
     ExecutionReportTradeOutright525.cumQty = 0,
     ExecutionReportTradeOutright525.leavesQty = 0,
     ExecutionReportTradeOutright525.minQty = 0,
     ExecutionReportTradeOutright525.displayQty = 0,
     ExecutionReportTradeOutright525.sideTradeID = 0,
     ExecutionReportTradeOutright525.tradeDate = 0,
     ExecutionReportTradeOutright525.ordType = 0,
     ExecutionReportTradeOutright525.side = 0,
     ExecutionReportTradeOutright525.timeInForce = 0,
     ExecutionReportTradeOutright525.manualOrderIndicator = 0,
     ExecutionReportTradeOutright525.execInst = 0,
     ExecutionReportTradeOutright525.executionMode = 0,
     ExecutionReportTradeOutright525.liquidityFlag = 0,
     ExecutionReportTradeOutright525.managedOrder = 0,
     ExecutionReportTradeOutright525.shortSaleType = 0,
     ExecutionReportTradeOutright525.ordStatus = 0x30,
     ExecutionReportTradeOutright525.execType = 0x46,
     ExecutionReportTradeOutright525.aggressorIndicator = 0,
     ExecutionReportTradeOutright525.expireDate = 0,
     ExecutionReportTradeOutright525.fillPx = 0,
     ExecutionReportTradeOutright525.fillQty = 0\<rparr>"

definition ExecutionReportTradeOutright525_TEMPLATE_ID :: "16 word" where "ExecutionReportTradeOutright525_TEMPLATE_ID = 525"
definition ExecutionReportTradeOutright525_BLOCK_LENGTH :: "16 word" where "ExecutionReportTradeOutright525_BLOCK_LENGTH = 221"

definition ExecutionReportTradeOutright525_fields :: "ExecutionReportTradeOutright525 \<Rightarrow> (nat \<times> bytes) list" where
  "ExecutionReportTradeOutright525_fields m = [
     (0, le 4 (ExecutionReportTradeOutright525.seqNum m)),
     (4, le 8 (ExecutionReportTradeOutright525.uuid m)),
     (12, ExecutionReportTradeOutright525.execID m),
     (52, ExecutionReportTradeOutright525.senderID m),
     (72, ExecutionReportTradeOutright525.clOrdID m),
     (92, le 8 (ExecutionReportTradeOutright525.partyDetailsListReqID m)),
     (100, le 8 (ExecutionReportTradeOutright525.orderID m)),
     (108, le 8 (ExecutionReportTradeOutright525.price m)),
     (116, le 8 (ExecutionReportTradeOutright525.stopPx m)),
     (124, le 8 (ExecutionReportTradeOutright525.transactTime m)),
     (132, le 8 (ExecutionReportTradeOutright525.sendingTimeEpoch m)),
     (140, le 8 (ExecutionReportTradeOutright525.orderRequestID m)),
     (148, le 4 (ExecutionReportTradeOutright525.lastQty m)),
     (152, le 8 (ExecutionReportTradeOutright525.lastPx m)),
     (160, ExecutionReportTradeOutright525.location m),
     (165, le 4 (ExecutionReportTradeOutright525.securityID m)),
     (169, le 4 (ExecutionReportTradeOutright525.orderQty m)),
     (173, le 4 (ExecutionReportTradeOutright525.cumQty m)),
     (177, le 4 (ExecutionReportTradeOutright525.leavesQty m)),
     (181, le 4 (ExecutionReportTradeOutright525.minQty m)),
     (185, le 4 (ExecutionReportTradeOutright525.displayQty m)),
     (189, le 4 (ExecutionReportTradeOutright525.sideTradeID m)),
     (193, le 2 (ExecutionReportTradeOutright525.tradeDate m)),
     (195, le 1 (ExecutionReportTradeOutright525.ordType m)),
     (196, le 1 (ExecutionReportTradeOutright525.side m)),
     (197, le 1 (ExecutionReportTradeOutright525.timeInForce m)),
     (198, le 1 (ExecutionReportTradeOutright525.manualOrderIndicator m)),
     (199, le 1 (ExecutionReportTradeOutright525.execInst m)),
     (200, le 1 (ExecutionReportTradeOutright525.executionMode m)),
     (201, le 1 (ExecutionReportTradeOutright525.liquidityFlag m)),
     (202, le 1 (ExecutionReportTradeOutright525.managedOrder m)),
     (203, le 1 (ExecutionReportTradeOutright525.shortSaleType m)),
     (204, le 1 (ExecutionReportTradeOutright525.ordStatus m)),
     (205, le 1 (ExecutionReportTradeOutright525.execType m)),
     (206, le 1 (ExecutionReportTradeOutright525.aggressorIndicator m)),
     (207, le 2 (ExecutionReportTradeOutright525.expireDate m)),
     (209, le 8 (ExecutionReportTradeOutright525.fillPx m)),
     (217, le 4 (ExecutionReportTradeOutright525.fillQty m))]"

definition ExecutionReportTradeOutright525_encode :: "ExecutionReportTradeOutright525 \<Rightarrow> bytes \<Rightarrow> nat \<Rightarrow> (bytes \<times> nat) option" where
  "ExecutionReportTradeOutright525_encode m buf offset =
     ilink3_encode ExecutionReportTradeOutright525_BLOCK_LENGTH ExecutionReportTradeOutright525_TEMPLATE_ID (ExecutionReportTradeOutright525_fields m) buf offset"

definition ExecutionReportTradeOutright525_decode :: "bytes \<Rightarrow> nat \<Rightarrow> ExecutionReportTradeOutright525 option" where
  "ExecutionReportTradeOutright525_decode buf offset =
     (let b = offset + MessageHeader_SIZE in do {
        seqNum \<leftarrow> read_le buf (b + 0) 4;
        uuid \<leftarrow> read_le buf (b + 4) 8;
        execID \<leftarrow> read_bytes buf (b + 12) 40;
        senderID \<leftarrow> read_bytes buf (b + 52) 20;
        clOrdID \<leftarrow> read_bytes buf (b + 72) 20;
        partyDetailsListReqID \<leftarrow> read_le buf (b + 92) 8;
        orderID \<leftarrow> read_le buf (b + 100) 8;
        price \<leftarrow> read_le buf (b + 108) 8;
        stopPx \<leftarrow> read_le buf (b + 116) 8;
        transactTime \<leftarrow> read_le buf (b + 124) 8;
        sendingTimeEpoch \<leftarrow> read_le buf (b + 132) 8;
        orderRequestID \<leftarrow> read_le buf (b + 140) 8;
        lastQty \<leftarrow> read_le buf (b + 148) 4;
        lastPx \<leftarrow> read_le buf (b + 152) 8;
        location \<leftarrow> read_bytes buf (b + 160) 5;
        securityID \<leftarrow> read_le buf (b + 165) 4;
        orderQty \<leftarrow> read_le buf (b + 169) 4;
        cumQty \<leftarrow> read_le buf (b + 173) 4;
        leavesQty \<leftarrow> read_le buf (b + 177) 4;
        minQty \<leftarrow> read_le buf (b + 181) 4;
        displayQty \<leftarrow> read_le buf (b + 185) 4;
        sideTradeID \<leftarrow> read_le buf (b + 189) 4;
        tradeDate \<leftarrow> read_le buf (b + 193) 2;
        ordType \<leftarrow> read_le buf (b + 195) 1;
        side \<leftarrow> read_le buf (b + 196) 1;
        timeInForce \<leftarrow> read_le buf (b + 197) 1;
        manualOrderIndicator \<leftarrow> read_le buf (b + 198) 1;
        execInst \<leftarrow> read_le buf (b + 199) 1;
        executionMode \<leftarrow> read_le buf (b + 200) 1;
        liquidityFlag \<leftarrow> read_le buf (b + 201) 1;
        managedOrder \<leftarrow> read_le buf (b + 202) 1;
        shortSaleType \<leftarrow> read_le buf (b + 203) 1;
        ordStatus \<leftarrow> read_le buf (b + 204) 1;
        execType \<leftarrow> read_le buf (b + 205) 1;
        aggressorIndicator \<leftarrow> read_le buf (b + 206) 1;
        expireDate \<leftarrow> read_le buf (b + 207) 2;
        fillPx \<leftarrow> read_le buf (b + 209) 8;
        fillQty \<leftarrow> read_le buf (b + 217) 4;
        Some \<lparr>ExecutionReportTradeOutright525.seqNum = seqNum,
          ExecutionReportTradeOutright525.uuid = uuid,
          ExecutionReportTradeOutright525.execID = execID,
          ExecutionReportTradeOutright525.senderID = senderID,
          ExecutionReportTradeOutright525.clOrdID = clOrdID,
          ExecutionReportTradeOutright525.partyDetailsListReqID = partyDetailsListReqID,
          ExecutionReportTradeOutright525.orderID = orderID,
          ExecutionReportTradeOutright525.price = price,
          ExecutionReportTradeOutright525.stopPx = stopPx,
          ExecutionReportTradeOutright525.transactTime = transactTime,
          ExecutionReportTradeOutright525.sendingTimeEpoch = sendingTimeEpoch,
          ExecutionReportTradeOutright525.orderRequestID = orderRequestID,
          ExecutionReportTradeOutright525.lastQty = lastQty,
          ExecutionReportTradeOutright525.lastPx = lastPx,
          ExecutionReportTradeOutright525.location = location,
          ExecutionReportTradeOutright525.securityID = securityID,
          ExecutionReportTradeOutright525.orderQty = orderQty,
          ExecutionReportTradeOutright525.cumQty = cumQty,
          ExecutionReportTradeOutright525.leavesQty = leavesQty,
          ExecutionReportTradeOutright525.minQty = minQty,
          ExecutionReportTradeOutright525.displayQty = displayQty,
          ExecutionReportTradeOutright525.sideTradeID = sideTradeID,
          ExecutionReportTradeOutright525.tradeDate = tradeDate,
          ExecutionReportTradeOutright525.ordType = ordType,
          ExecutionReportTradeOutright525.side = side,
          ExecutionReportTradeOutright525.timeInForce = timeInForce,
          ExecutionReportTradeOutright525.manualOrderIndicator = manualOrderIndicator,
          ExecutionReportTradeOutright525.execInst = execInst,
          ExecutionReportTradeOutright525.executionMode = executionMode,
          ExecutionReportTradeOutright525.liquidityFlag = liquidityFlag,
          ExecutionReportTradeOutright525.managedOrder = managedOrder,
          ExecutionReportTradeOutright525.shortSaleType = shortSaleType,
          ExecutionReportTradeOutright525.ordStatus = ordStatus,
          ExecutionReportTradeOutright525.execType = execType,
          ExecutionReportTradeOutright525.aggressorIndicator = aggressorIndicator,
          ExecutionReportTradeOutright525.expireDate = expireDate,
          ExecutionReportTradeOutright525.fillPx = fillPx,
          ExecutionReportTradeOutright525.fillQty = fillQty\<rparr>
     })"

definition ExecutionReportTradeOutright525_wf :: "ExecutionReportTradeOutright525 \<Rightarrow> bool" where
  "ExecutionReportTradeOutright525_wf m \<longleftrightarrow> length (ExecutionReportTradeOutright525.execID m) = 40 \<and>
     length (ExecutionReportTradeOutright525.senderID m) = 20 \<and>
     length (ExecutionReportTradeOutright525.clOrdID m) = 20 \<and>
     length (ExecutionReportTradeOutright525.location m) = 5"

interpretation executionReportTradeOutright525: sbe_message ILINK3_SCHEMA_ID ILINK3_VERSION ExecutionReportTradeOutright525_BLOCK_LENGTH ExecutionReportTradeOutright525_TEMPLATE_ID
  ExecutionReportTradeOutright525_fields "\<lambda>_. unat ExecutionReportTradeOutright525_BLOCK_LENGTH" ExecutionReportTradeOutright525_encode ExecutionReportTradeOutright525_decode ExecutionReportTradeOutright525_wf
proof
  fix m buf off
  show "ExecutionReportTradeOutright525_encode m buf off = sbe_encode ILINK3_SCHEMA_ID ILINK3_VERSION ExecutionReportTradeOutright525_BLOCK_LENGTH
      ExecutionReportTradeOutright525_TEMPLATE_ID (ExecutionReportTradeOutright525_fields m) (unat ExecutionReportTradeOutright525_BLOCK_LENGTH) buf off"
    by (simp add: ExecutionReportTradeOutright525_encode_def ilink3_encode_def)
  show "ExecutionReportTradeOutright525_wf m \<Longrightarrow> packed 0 (ExecutionReportTradeOutright525_fields m) \<and> length (body_of (ExecutionReportTradeOutright525_fields m)) = unat ExecutionReportTradeOutright525_BLOCK_LENGTH"
    by (simp add: ExecutionReportTradeOutright525_wf_def ExecutionReportTradeOutright525_fields_def ExecutionReportTradeOutright525_BLOCK_LENGTH_def)
  show "ExecutionReportTradeOutright525_wf m \<Longrightarrow> reads_fields buf (off + 8) (ExecutionReportTradeOutright525_fields m) \<Longrightarrow> ExecutionReportTradeOutright525_decode buf off = Some m"
    by (cases m) (simp add: ExecutionReportTradeOutright525_wf_def ExecutionReportTradeOutright525_fields_def ExecutionReportTradeOutright525_decode_def sbe_decode_simps)
qed


subsection \<open>ExecutionReportCancel534\<close>

record ExecutionReportCancel534 =
  seqNum :: "32 word"
  uuid :: "64 word"
  execID :: bytes
  senderID :: bytes
  clOrdID :: bytes
  partyDetailsListReqID :: "64 word"
  orderID :: "64 word"
  price :: "64 word"
  stopPx :: "64 word"
  transactTime :: "64 word"
  sendingTimeEpoch :: "64 word"
  orderRequestID :: "64 word"
  location :: bytes
  securityID :: "32 word"
  cumQty :: "32 word"
  orderQty :: "32 word"
  minQty :: "32 word"
  displayQty :: "32 word"
  ordType :: "8 word"
  side :: "8 word"
  timeInForce :: "8 word"
  manualOrderIndicator :: "8 word"
  execInst :: "8 word"
  executionMode :: "8 word"
  liquidityFlag :: "8 word"
  managedOrder :: "8 word"
  shortSaleType :: "8 word"
  ordStatus :: "8 word"
  execType :: "8 word"
  expireDate :: "16 word"

definition ExecutionReportCancel534_default :: ExecutionReportCancel534 where
  "ExecutionReportCancel534_default = \<lparr>ExecutionReportCancel534.seqNum = 0,
     ExecutionReportCancel534.uuid = 0,
     ExecutionReportCancel534.execID = replicate 40 0,
     ExecutionReportCancel534.senderID = replicate 20 0,
     ExecutionReportCancel534.clOrdID = replicate 20 0,
     ExecutionReportCancel534.partyDetailsListReqID = 0,
     ExecutionReportCancel534.orderID = 0,
     ExecutionReportCancel534.price = 0,
     ExecutionReportCancel534.stopPx = 0,
     ExecutionReportCancel534.transactTime = 0,
     ExecutionReportCancel534.sendingTimeEpoch = 0,
     ExecutionReportCancel534.orderRequestID = 0,
     ExecutionReportCancel534.location = replicate 5 0,
     ExecutionReportCancel534.securityID = 0,
     ExecutionReportCancel534.cumQty = 0,
     ExecutionReportCancel534.orderQty = 0,
     ExecutionReportCancel534.minQty = 0,
     ExecutionReportCancel534.displayQty = 0,
     ExecutionReportCancel534.ordType = 0,
     ExecutionReportCancel534.side = 0,
     ExecutionReportCancel534.timeInForce = 0,
     ExecutionReportCancel534.manualOrderIndicator = 0,
     ExecutionReportCancel534.execInst = 0,
     ExecutionReportCancel534.executionMode = 0,
     ExecutionReportCancel534.liquidityFlag = 0,
     ExecutionReportCancel534.managedOrder = 0,
     ExecutionReportCancel534.shortSaleType = 0,
     ExecutionReportCancel534.ordStatus = 0x34,
     ExecutionReportCancel534.execType = 0x34,
     ExecutionReportCancel534.expireDate = 0\<rparr>"

definition ExecutionReportCancel534_TEMPLATE_ID :: "16 word" where "ExecutionReportCancel534_TEMPLATE_ID = 534"
definition ExecutionReportCancel534_BLOCK_LENGTH :: "16 word" where "ExecutionReportCancel534_BLOCK_LENGTH = 186"

definition ExecutionReportCancel534_fields :: "ExecutionReportCancel534 \<Rightarrow> (nat \<times> bytes) list" where
  "ExecutionReportCancel534_fields m = [
     (0, le 4 (ExecutionReportCancel534.seqNum m)),
     (4, le 8 (ExecutionReportCancel534.uuid m)),
     (12, ExecutionReportCancel534.execID m),
     (52, ExecutionReportCancel534.senderID m),
     (72, ExecutionReportCancel534.clOrdID m),
     (92, le 8 (ExecutionReportCancel534.partyDetailsListReqID m)),
     (100, le 8 (ExecutionReportCancel534.orderID m)),
     (108, le 8 (ExecutionReportCancel534.price m)),
     (116, le 8 (ExecutionReportCancel534.stopPx m)),
     (124, le 8 (ExecutionReportCancel534.transactTime m)),
     (132, le 8 (ExecutionReportCancel534.sendingTimeEpoch m)),
     (140, le 8 (ExecutionReportCancel534.orderRequestID m)),
     (148, ExecutionReportCancel534.location m),
     (153, le 4 (ExecutionReportCancel534.securityID m)),
     (157, le 4 (ExecutionReportCancel534.cumQty m)),
     (161, le 4 (ExecutionReportCancel534.orderQty m)),
     (165, le 4 (ExecutionReportCancel534.minQty m)),
     (169, le 4 (ExecutionReportCancel534.displayQty m)),
     (173, le 1 (ExecutionReportCancel534.ordType m)),
     (174, le 1 (ExecutionReportCancel534.side m)),
     (175, le 1 (ExecutionReportCancel534.timeInForce m)),
     (176, le 1 (ExecutionReportCancel534.manualOrderIndicator m)),
     (177, le 1 (ExecutionReportCancel534.execInst m)),
     (178, le 1 (ExecutionReportCancel534.executionMode m)),
     (179, le 1 (ExecutionReportCancel534.liquidityFlag m)),
     (180, le 1 (ExecutionReportCancel534.managedOrder m)),
     (181, le 1 (ExecutionReportCancel534.shortSaleType m)),
     (182, le 1 (ExecutionReportCancel534.ordStatus m)),
     (183, le 1 (ExecutionReportCancel534.execType m)),
     (184, le 2 (ExecutionReportCancel534.expireDate m))]"

definition ExecutionReportCancel534_encode :: "ExecutionReportCancel534 \<Rightarrow> bytes \<Rightarrow> nat \<Rightarrow> (bytes \<times> nat) option" where
  "ExecutionReportCancel534_encode m buf offset =
     ilink3_encode ExecutionReportCancel534_BLOCK_LENGTH ExecutionReportCancel534_TEMPLATE_ID (ExecutionReportCancel534_fields m) buf offset"

definition ExecutionReportCancel534_decode :: "bytes \<Rightarrow> nat \<Rightarrow> ExecutionReportCancel534 option" where
  "ExecutionReportCancel534_decode buf offset =
     (let b = offset + MessageHeader_SIZE in do {
        seqNum \<leftarrow> read_le buf (b + 0) 4;
        uuid \<leftarrow> read_le buf (b + 4) 8;
        execID \<leftarrow> read_bytes buf (b + 12) 40;
        senderID \<leftarrow> read_bytes buf (b + 52) 20;
        clOrdID \<leftarrow> read_bytes buf (b + 72) 20;
        partyDetailsListReqID \<leftarrow> read_le buf (b + 92) 8;
        orderID \<leftarrow> read_le buf (b + 100) 8;
        price \<leftarrow> read_le buf (b + 108) 8;
        stopPx \<leftarrow> read_le buf (b + 116) 8;
        transactTime \<leftarrow> read_le buf (b + 124) 8;
        sendingTimeEpoch \<leftarrow> read_le buf (b + 132) 8;
        orderRequestID \<leftarrow> read_le buf (b + 140) 8;
        location \<leftarrow> read_bytes buf (b + 148) 5;
        securityID \<leftarrow> read_le buf (b + 153) 4;
        cumQty \<leftarrow> read_le buf (b + 157) 4;
        orderQty \<leftarrow> read_le buf (b + 161) 4;
        minQty \<leftarrow> read_le buf (b + 165) 4;
        displayQty \<leftarrow> read_le buf (b + 169) 4;
        ordType \<leftarrow> read_le buf (b + 173) 1;
        side \<leftarrow> read_le buf (b + 174) 1;
        timeInForce \<leftarrow> read_le buf (b + 175) 1;
        manualOrderIndicator \<leftarrow> read_le buf (b + 176) 1;
        execInst \<leftarrow> read_le buf (b + 177) 1;
        executionMode \<leftarrow> read_le buf (b + 178) 1;
        liquidityFlag \<leftarrow> read_le buf (b + 179) 1;
        managedOrder \<leftarrow> read_le buf (b + 180) 1;
        shortSaleType \<leftarrow> read_le buf (b + 181) 1;
        ordStatus \<leftarrow> read_le buf (b + 182) 1;
        execType \<leftarrow> read_le buf (b + 183) 1;
        expireDate \<leftarrow> read_le buf (b + 184) 2;
        Some \<lparr>ExecutionReportCancel534.seqNum = seqNum,
          ExecutionReportCancel534.uuid = uuid,
          ExecutionReportCancel534.execID = execID,
          ExecutionReportCancel534.senderID = senderID,
          ExecutionReportCancel534.clOrdID = clOrdID,
          ExecutionReportCancel534.partyDetailsListReqID = partyDetailsListReqID,
          ExecutionReportCancel534.orderID = orderID,
          ExecutionReportCancel534.price = price,
          ExecutionReportCancel534.stopPx = stopPx,
          ExecutionReportCancel534.transactTime = transactTime,
          ExecutionReportCancel534.sendingTimeEpoch = sendingTimeEpoch,
          ExecutionReportCancel534.orderRequestID = orderRequestID,
          ExecutionReportCancel534.location = location,
          ExecutionReportCancel534.securityID = securityID,
          ExecutionReportCancel534.cumQty = cumQty,
          ExecutionReportCancel534.orderQty = orderQty,
          ExecutionReportCancel534.minQty = minQty,
          ExecutionReportCancel534.displayQty = displayQty,
          ExecutionReportCancel534.ordType = ordType,
          ExecutionReportCancel534.side = side,
          ExecutionReportCancel534.timeInForce = timeInForce,
          ExecutionReportCancel534.manualOrderIndicator = manualOrderIndicator,
          ExecutionReportCancel534.execInst = execInst,
          ExecutionReportCancel534.executionMode = executionMode,
          ExecutionReportCancel534.liquidityFlag = liquidityFlag,
          ExecutionReportCancel534.managedOrder = managedOrder,
          ExecutionReportCancel534.shortSaleType = shortSaleType,
          ExecutionReportCancel534.ordStatus = ordStatus,
          ExecutionReportCancel534.execType = execType,
          ExecutionReportCancel534.expireDate = expireDate\<rparr>
     })"

definition ExecutionReportCancel534_wf :: "ExecutionReportCancel534 \<Rightarrow> bool" where
  "ExecutionReportCancel534_wf m \<longleftrightarrow> length (ExecutionReportCancel534.execID m) = 40 \<and>
     length (ExecutionReportCancel534.senderID m) = 20 \<and>
     length (ExecutionReportCancel534.clOrdID m) = 20 \<and>
     length (ExecutionReportCancel534.location m) = 5"

interpretation executionReportCancel534: sbe_message ILINK3_SCHEMA_ID ILINK3_VERSION ExecutionReportCancel534_BLOCK_LENGTH ExecutionReportCancel534_TEMPLATE_ID
  ExecutionReportCancel534_fields "\<lambda>_. unat ExecutionReportCancel534_BLOCK_LENGTH" ExecutionReportCancel534_encode ExecutionReportCancel534_decode ExecutionReportCancel534_wf
proof
  fix m buf off
  show "ExecutionReportCancel534_encode m buf off = sbe_encode ILINK3_SCHEMA_ID ILINK3_VERSION ExecutionReportCancel534_BLOCK_LENGTH
      ExecutionReportCancel534_TEMPLATE_ID (ExecutionReportCancel534_fields m) (unat ExecutionReportCancel534_BLOCK_LENGTH) buf off"
    by (simp add: ExecutionReportCancel534_encode_def ilink3_encode_def)
  show "ExecutionReportCancel534_wf m \<Longrightarrow> packed 0 (ExecutionReportCancel534_fields m) \<and> length (body_of (ExecutionReportCancel534_fields m)) = unat ExecutionReportCancel534_BLOCK_LENGTH"
    by (simp add: ExecutionReportCancel534_wf_def ExecutionReportCancel534_fields_def ExecutionReportCancel534_BLOCK_LENGTH_def)
  show "ExecutionReportCancel534_wf m \<Longrightarrow> reads_fields buf (off + 8) (ExecutionReportCancel534_fields m) \<Longrightarrow> ExecutionReportCancel534_decode buf off = Some m"
    by (cases m) (simp add: ExecutionReportCancel534_wf_def ExecutionReportCancel534_fields_def ExecutionReportCancel534_decode_def sbe_decode_simps)
qed


subsection \<open>ExecutionReportModify531\<close>

record ExecutionReportModify531 =
  seqNum :: "32 word"
  uuid :: "64 word"
  execID :: bytes
  senderID :: bytes
  clOrdID :: bytes
  partyDetailsListReqID :: "64 word"
  orderID :: "64 word"
  price :: "64 word"
  stopPx :: "64 word"
  transactTime :: "64 word"
  sendingTimeEpoch :: "64 word"
  orderRequestID :: "64 word"
  location :: bytes
  securityID :: "32 word"
  cumQty :: "32 word"
  orderQty :: "32 word"
  minQty :: "32 word"
  displayQty :: "32 word"
  ordType :: "8 word"
  side :: "8 word"
  timeInForce :: "8 word"
  manualOrderIndicator :: "8 word"
  execInst :: "8 word"
  executionMode :: "8 word"
  liquidityFlag :: "8 word"
  managedOrder :: "8 word"
  shortSaleType :: "8 word"
  ordStatus :: "8 word"
  execType :: "8 word"
  expireDate :: "16 word"

definition ExecutionReportModify531_default :: ExecutionReportModify531 where
  "ExecutionReportModify531_default = \<lparr>ExecutionReportModify531.seqNum = 0,
     ExecutionReportModify531.uuid = 0,
     ExecutionReportModify531.execID = replicate 40 0,
     ExecutionReportModify531.senderID = replicate 20 0,
     ExecutionReportModify531.clOrdID = replicate 20 0,
     ExecutionReportModify531.partyDetailsListReqID = 0,
     ExecutionReportModify531.orderID = 0,
     ExecutionReportModify531.price = 0,
     ExecutionReportModify531.stopPx = 0,
     ExecutionReportModify531.transactTime = 0,
     ExecutionReportModify531.sendingTimeEpoch = 0,
     ExecutionReportModify531.orderRequestID = 0,
     ExecutionReportModify531.location = replicate 5 0,
     ExecutionReportModify531.securityID = 0,
     ExecutionReportModify531.cumQty = 0,
     ExecutionReportModify531.orderQty = 0,
     ExecutionReportModify531.minQty = 0,
     ExecutionReportModify531.displayQty = 0,
     ExecutionReportModify531.ordType = 0,
     ExecutionReportModify531.side = 0,
     ExecutionReportModify531.timeInForce = 0,
     ExecutionReportModify531.manualOrderIndicator = 0,
     ExecutionReportModify531.execInst = 0,
     ExecutionReportModify531.executionMode = 0,
     ExecutionReportModify531.liquidityFlag = 0,
     ExecutionReportModify531.managedOrder = 0,
     ExecutionReportModify531.shortSaleType = 0,
     ExecutionReportModify531.ordStatus = 0x30,
     ExecutionReportModify531.execType = 0x35,
     ExecutionReportModify531.expireDate = 0\<rparr>"

definition ExecutionReportModify531_TEMPLATE_ID :: "16 word" where "ExecutionReportModify531_TEMPLATE_ID = 531"
definition ExecutionReportModify531_BLOCK_LENGTH :: "16 word" where "ExecutionReportModify531_BLOCK_LENGTH = 186"

definition ExecutionReportModify531_fields :: "ExecutionReportModify531 \<Rightarrow> (nat \<times> bytes) list" where
  "ExecutionReportModify531_fields m = [
     (0, le 4 (ExecutionReportModify531.seqNum m)),
     (4, le 8 (ExecutionReportModify531.uuid m)),
     (12, ExecutionReportModify531.execID m),
     (52, ExecutionReportModify531.senderID m),
     (72, ExecutionReportModify531.clOrdID m),
     (92, le 8 (ExecutionReportModify531.partyDetailsListReqID m)),
     (100, le 8 (ExecutionReportModify531.orderID m)),
     (108, le 8 (ExecutionReportModify531.price m)),
     (116, le 8 (ExecutionReportModify531.stopPx m)),
     (124, le 8 (ExecutionReportModify531.transactTime m)),
     (132, le 8 (ExecutionReportModify531.sendingTimeEpoch m)),
     (140, le 8 (ExecutionReportModify531.orderRequestID m)),
     (148, ExecutionReportModify531.location m),
     (153, le 4 (ExecutionReportModify531.securityID m)),
     (157, le 4 (ExecutionReportModify531.cumQty m)),
     (161, le 4 (ExecutionReportModify531.orderQty m)),
     (165, le 4 (ExecutionReportModify531.minQty m)),
     (169, le 4 (ExecutionReportModify531.displayQty m)),
     (173, le 1 (ExecutionReportModify531.ordType m)),
     (174, le 1 (ExecutionReportModify531.side m)),
     (175, le 1 (ExecutionReportModify531.timeInForce m)),
     (176, le 1 (ExecutionReportModify531.manualOrderIndicator m)),
     (177, le 1 (ExecutionReportModify531.execInst m)),
     (178, le 1 (ExecutionReportModify531.executionMode m)),
     (179, le 1 (ExecutionReportModify531.liquidityFlag m)),
     (180, le 1 (ExecutionReportModify531.managedOrder m)),
     (181, le 1 (ExecutionReportModify531.shortSaleType m)),
     (182, le 1 (ExecutionReportModify531.ordStatus m)),
     (183, le 1 (ExecutionReportModify531.execType m)),
     (184, le 2 (ExecutionReportModify531.expireDate m))]"

definition ExecutionReportModify531_encode :: "ExecutionReportModify531 \<Rightarrow> bytes \<Rightarrow> nat \<Rightarrow> (bytes \<times> nat) option" where
  "ExecutionReportModify531_encode m buf offset =
     ilink3_encode ExecutionReportModify531_BLOCK_LENGTH ExecutionReportModify531_TEMPLATE_ID (ExecutionReportModify531_fields m) buf offset"

definition ExecutionReportModify531_decode :: "bytes \<Rightarrow> nat \<Rightarrow> ExecutionReportModify531 option" where
  "ExecutionReportModify531_decode buf offset =
     (let b = offset + MessageHeader_SIZE in do {
        seqNum \<leftarrow> read_le buf (b + 0) 4;
        uuid \<leftarrow> read_le buf (b + 4) 8;
        execID \<leftarrow> read_bytes buf (b + 12) 40;
        senderID \<leftarrow> read_bytes buf (b + 52) 20;
        clOrdID \<leftarrow> read_bytes buf (b + 72) 20;
        partyDetailsListReqID \<leftarrow> read_le buf (b + 92) 8;
        orderID \<leftarrow> read_le buf (b + 100) 8;
        price \<leftarrow> read_le buf (b + 108) 8;
        stopPx \<leftarrow> read_le buf (b + 116) 8;
        transactTime \<leftarrow> read_le buf (b + 124) 8;
        sendingTimeEpoch \<leftarrow> read_le buf (b + 132) 8;
        orderRequestID \<leftarrow> read_le buf (b + 140) 8;
        location \<leftarrow> read_bytes buf (b + 148) 5;
        securityID \<leftarrow> read_le buf (b + 153) 4;
        cumQty \<leftarrow> read_le buf (b + 157) 4;
        orderQty \<leftarrow> read_le buf (b + 161) 4;
        minQty \<leftarrow> read_le buf (b + 165) 4;
        displayQty \<leftarrow> read_le buf (b + 169) 4;
        ordType \<leftarrow> read_le buf (b + 173) 1;
        side \<leftarrow> read_le buf (b + 174) 1;
        timeInForce \<leftarrow> read_le buf (b + 175) 1;
        manualOrderIndicator \<leftarrow> read_le buf (b + 176) 1;
        execInst \<leftarrow> read_le buf (b + 177) 1;
        executionMode \<leftarrow> read_le buf (b + 178) 1;
        liquidityFlag \<leftarrow> read_le buf (b + 179) 1;
        managedOrder \<leftarrow> read_le buf (b + 180) 1;
        shortSaleType \<leftarrow> read_le buf (b + 181) 1;
        ordStatus \<leftarrow> read_le buf (b + 182) 1;
        execType \<leftarrow> read_le buf (b + 183) 1;
        expireDate \<leftarrow> read_le buf (b + 184) 2;
        Some \<lparr>ExecutionReportModify531.seqNum = seqNum,
          ExecutionReportModify531.uuid = uuid,
          ExecutionReportModify531.execID = execID,
          ExecutionReportModify531.senderID = senderID,
          ExecutionReportModify531.clOrdID = clOrdID,
          ExecutionReportModify531.partyDetailsListReqID = partyDetailsListReqID,
          ExecutionReportModify531.orderID = orderID,
          ExecutionReportModify531.price = price,
          ExecutionReportModify531.stopPx = stopPx,
          ExecutionReportModify531.transactTime = transactTime,
          ExecutionReportModify531.sendingTimeEpoch = sendingTimeEpoch,
          ExecutionReportModify531.orderRequestID = orderRequestID,
          ExecutionReportModify531.location = location,
          ExecutionReportModify531.securityID = securityID,
          ExecutionReportModify531.cumQty = cumQty,
          ExecutionReportModify531.orderQty = orderQty,
          ExecutionReportModify531.minQty = minQty,
          ExecutionReportModify531.displayQty = displayQty,
          ExecutionReportModify531.ordType = ordType,
          ExecutionReportModify531.side = side,
          ExecutionReportModify531.timeInForce = timeInForce,
          ExecutionReportModify531.manualOrderIndicator = manualOrderIndicator,
          ExecutionReportModify531.execInst = execInst,
          ExecutionReportModify531.executionMode = executionMode,
          ExecutionReportModify531.liquidityFlag = liquidityFlag,
          ExecutionReportModify531.managedOrder = managedOrder,
          ExecutionReportModify531.shortSaleType = shortSaleType,
          ExecutionReportModify531.ordStatus = ordStatus,
          ExecutionReportModify531.execType = execType,
          ExecutionReportModify531.expireDate = expireDate\<rparr>
     })"

definition ExecutionReportModify531_wf :: "ExecutionReportModify531 \<Rightarrow> bool" where
  "ExecutionReportModify531_wf m \<longleftrightarrow> length (ExecutionReportModify531.execID m) = 40 \<and>
     length (ExecutionReportModify531.senderID m) = 20 \<and>
     length (ExecutionReportModify531.clOrdID m) = 20 \<and>
     length (ExecutionReportModify531.location m) = 5"

interpretation executionReportModify531: sbe_message ILINK3_SCHEMA_ID ILINK3_VERSION ExecutionReportModify531_BLOCK_LENGTH ExecutionReportModify531_TEMPLATE_ID
  ExecutionReportModify531_fields "\<lambda>_. unat ExecutionReportModify531_BLOCK_LENGTH" ExecutionReportModify531_encode ExecutionReportModify531_decode ExecutionReportModify531_wf
proof
  fix m buf off
  show "ExecutionReportModify531_encode m buf off = sbe_encode ILINK3_SCHEMA_ID ILINK3_VERSION ExecutionReportModify531_BLOCK_LENGTH
      ExecutionReportModify531_TEMPLATE_ID (ExecutionReportModify531_fields m) (unat ExecutionReportModify531_BLOCK_LENGTH) buf off"
    by (simp add: ExecutionReportModify531_encode_def ilink3_encode_def)
  show "ExecutionReportModify531_wf m \<Longrightarrow> packed 0 (ExecutionReportModify531_fields m) \<and> length (body_of (ExecutionReportModify531_fields m)) = unat ExecutionReportModify531_BLOCK_LENGTH"
    by (simp add: ExecutionReportModify531_wf_def ExecutionReportModify531_fields_def ExecutionReportModify531_BLOCK_LENGTH_def)
  show "ExecutionReportModify531_wf m \<Longrightarrow> reads_fields buf (off + 8) (ExecutionReportModify531_fields m) \<Longrightarrow> ExecutionReportModify531_decode buf off = Some m"
    by (cases m) (simp add: ExecutionReportModify531_wf_def ExecutionReportModify531_fields_def ExecutionReportModify531_decode_def sbe_decode_simps)
qed


end
