(* ===== verification/ILink3_Orders.thy ===== *)
theory ILink3_Orders
  imports Sbe_Framing
begin

text \<open>
  \<^verbatim>\<open>src/sbe/ilink3_messages.h\<close>, the order-entry requests (templates 514 to 516) and the cancel reject
  (535), in the same form as the session messages.
\<close>

subsection \<open>NewOrderSingle514\<close>

record NewOrderSingle514 =
  price :: "64 word"
  orderQty :: "32 word"
  securityID :: "32 word"
  side :: "8 word"
  seqNum :: "32 word"
  senderID :: bytes
  clOrdID :: bytes
  partyDetailsListReqID :: "64 word"
  orderRequestID :: "64 word"
  sendingTimeEpoch :: "64 word"
  stopPx :: "64 word"
  location :: bytes
  minQty :: "32 word"
  displayQty :: "32 word"
  expireDate :: "16 word"
  ordType :: "8 word"
  timeInForce :: "8 word"
  manualOrderIndicator :: "8 word"
  execInst :: "8 word"
  executionMode :: "8 word"
  liquidityFlag :: "8 word"
  managedOrder :: "8 word"
  shortSaleType :: "8 word"

definition NewOrderSingle514_default :: NewOrderSingle514 where
  "NewOrderSingle514_default = \<lparr>NewOrderSingle514.price = 0,
     NewOrderSingle514.orderQty = 0,
     NewOrderSingle514.securityID = 0,
     NewOrderSingle514.side = 0,
     NewOrderSingle514.seqNum = 0,
     NewOrderSingle514.senderID = replicate 20 0,
     NewOrderSingle514.clOrdID = replicate 20 0,
     NewOrderSingle514.partyDetailsListReqID = 0,
     NewOrderSingle514.orderRequestID = 0,
     NewOrderSingle514.sendingTimeEpoch = 0,
     NewOrderSingle514.stopPx = 0,
     NewOrderSingle514.location = replicate 5 0,
     NewOrderSingle514.minQty = 0,
     NewOrderSingle514.displayQty = 0,
     NewOrderSingle514.expireDate = 0,
     NewOrderSingle514.ordType = 0,
     NewOrderSingle514.timeInForce = 0,
     NewOrderSingle514.manualOrderIndicator = 0,
     NewOrderSingle514.execInst = 0,
     NewOrderSingle514.executionMode = 0,
     NewOrderSingle514.liquidityFlag = 0,
     NewOrderSingle514.managedOrder = 0,
     NewOrderSingle514.shortSaleType = 0\<rparr>"

definition NewOrderSingle514_TEMPLATE_ID :: "16 word" where "NewOrderSingle514_TEMPLATE_ID = 514"
definition NewOrderSingle514_BLOCK_LENGTH :: "16 word" where "NewOrderSingle514_BLOCK_LENGTH = 116"

definition NewOrderSingle514_fields :: "NewOrderSingle514 \<Rightarrow> (nat \<times> bytes) list" where
  "NewOrderSingle514_fields m = [
     (0, le 8 (NewOrderSingle514.price m)),
     (8, le 4 (NewOrderSingle514.orderQty m)),
     (12, le 4 (NewOrderSingle514.securityID m)),
     (16, le 1 (NewOrderSingle514.side m)),
     (17, le 4 (NewOrderSingle514.seqNum m)),
     (21, NewOrderSingle514.senderID m),
     (41, NewOrderSingle514.clOrdID m),
     (61, le 8 (NewOrderSingle514.partyDetailsListReqID m)),
     (69, le 8 (NewOrderSingle514.orderRequestID m)),
     (77, le 8 (NewOrderSingle514.sendingTimeEpoch m)),
     (85, le 8 (NewOrderSingle514.stopPx m)),
     (93, NewOrderSingle514.location m),
     (98, le 4 (NewOrderSingle514.minQty m)),
     (102, le 4 (NewOrderSingle514.displayQty m)),
     (106, le 2 (NewOrderSingle514.expireDate m)),
     (108, le 1 (NewOrderSingle514.ordType m)),
     (109, le 1 (NewOrderSingle514.timeInForce m)),
     (110, le 1 (NewOrderSingle514.manualOrderIndicator m)),
     (111, le 1 (NewOrderSingle514.execInst m)),
     (112, le 1 (NewOrderSingle514.executionMode m)),
     (113, le 1 (NewOrderSingle514.liquidityFlag m)),
     (114, le 1 (NewOrderSingle514.managedOrder m)),
     (115, le 1 (NewOrderSingle514.shortSaleType m))]"

definition NewOrderSingle514_encode :: "NewOrderSingle514 \<Rightarrow> bytes \<Rightarrow> nat \<Rightarrow> (bytes \<times> nat) option" where
  "NewOrderSingle514_encode m buf offset =
     ilink3_encode NewOrderSingle514_BLOCK_LENGTH NewOrderSingle514_TEMPLATE_ID (NewOrderSingle514_fields m) buf offset"

definition NewOrderSingle514_decode :: "bytes \<Rightarrow> nat \<Rightarrow> NewOrderSingle514 option" where
  "NewOrderSingle514_decode buf offset =
     (let b = offset + MessageHeader_SIZE in do {
        price \<leftarrow> read_le buf (b + 0) 8;
        orderQty \<leftarrow> read_le buf (b + 8) 4;
        securityID \<leftarrow> read_le buf (b + 12) 4;
        side \<leftarrow> read_le buf (b + 16) 1;
        seqNum \<leftarrow> read_le buf (b + 17) 4;
        senderID \<leftarrow> read_bytes buf (b + 21) 20;
        clOrdID \<leftarrow> read_bytes buf (b + 41) 20;
        partyDetailsListReqID \<leftarrow> read_le buf (b + 61) 8;
        orderRequestID \<leftarrow> read_le buf (b + 69) 8;
        sendingTimeEpoch \<leftarrow> read_le buf (b + 77) 8;
        stopPx \<leftarrow> read_le buf (b + 85) 8;
        location \<leftarrow> read_bytes buf (b + 93) 5;
        minQty \<leftarrow> read_le buf (b + 98) 4;
        displayQty \<leftarrow> read_le buf (b + 102) 4;
        expireDate \<leftarrow> read_le buf (b + 106) 2;
        ordType \<leftarrow> read_le buf (b + 108) 1;
        timeInForce \<leftarrow> read_le buf (b + 109) 1;
        manualOrderIndicator \<leftarrow> read_le buf (b + 110) 1;
        execInst \<leftarrow> read_le buf (b + 111) 1;
        executionMode \<leftarrow> read_le buf (b + 112) 1;
        liquidityFlag \<leftarrow> read_le buf (b + 113) 1;
        managedOrder \<leftarrow> read_le buf (b + 114) 1;
        shortSaleType \<leftarrow> read_le buf (b + 115) 1;
        Some \<lparr>NewOrderSingle514.price = price,
          NewOrderSingle514.orderQty = orderQty,
          NewOrderSingle514.securityID = securityID,
          NewOrderSingle514.side = side,
          NewOrderSingle514.seqNum = seqNum,
          NewOrderSingle514.senderID = senderID,
          NewOrderSingle514.clOrdID = clOrdID,
          NewOrderSingle514.partyDetailsListReqID = partyDetailsListReqID,
          NewOrderSingle514.orderRequestID = orderRequestID,
          NewOrderSingle514.sendingTimeEpoch = sendingTimeEpoch,
          NewOrderSingle514.stopPx = stopPx,
          NewOrderSingle514.location = location,
          NewOrderSingle514.minQty = minQty,
          NewOrderSingle514.displayQty = displayQty,
          NewOrderSingle514.expireDate = expireDate,
          NewOrderSingle514.ordType = ordType,
          NewOrderSingle514.timeInForce = timeInForce,
          NewOrderSingle514.manualOrderIndicator = manualOrderIndicator,
          NewOrderSingle514.execInst = execInst,
          NewOrderSingle514.executionMode = executionMode,
          NewOrderSingle514.liquidityFlag = liquidityFlag,
          NewOrderSingle514.managedOrder = managedOrder,
          NewOrderSingle514.shortSaleType = shortSaleType\<rparr>
     })"

definition NewOrderSingle514_wf :: "NewOrderSingle514 \<Rightarrow> bool" where
  "NewOrderSingle514_wf m \<longleftrightarrow> length (NewOrderSingle514.senderID m) = 20 \<and>
     length (NewOrderSingle514.clOrdID m) = 20 \<and>
     length (NewOrderSingle514.location m) = 5"

interpretation newOrderSingle514: sbe_message ILINK3_SCHEMA_ID ILINK3_VERSION NewOrderSingle514_BLOCK_LENGTH NewOrderSingle514_TEMPLATE_ID
  NewOrderSingle514_fields "\<lambda>_. unat NewOrderSingle514_BLOCK_LENGTH" NewOrderSingle514_encode NewOrderSingle514_decode NewOrderSingle514_wf
proof
  fix m buf off
  show "NewOrderSingle514_encode m buf off = sbe_encode ILINK3_SCHEMA_ID ILINK3_VERSION NewOrderSingle514_BLOCK_LENGTH
      NewOrderSingle514_TEMPLATE_ID (NewOrderSingle514_fields m) (unat NewOrderSingle514_BLOCK_LENGTH) buf off"
    by (simp add: NewOrderSingle514_encode_def ilink3_encode_def)
  show "NewOrderSingle514_wf m \<Longrightarrow> packed 0 (NewOrderSingle514_fields m) \<and> length (body_of (NewOrderSingle514_fields m)) = unat NewOrderSingle514_BLOCK_LENGTH"
    by (simp add: NewOrderSingle514_wf_def NewOrderSingle514_fields_def NewOrderSingle514_BLOCK_LENGTH_def)
  show "NewOrderSingle514_wf m \<Longrightarrow> reads_fields buf (off + 8) (NewOrderSingle514_fields m) \<Longrightarrow> NewOrderSingle514_decode buf off = Some m"
    by (cases m) (simp add: NewOrderSingle514_wf_def NewOrderSingle514_fields_def NewOrderSingle514_decode_def sbe_decode_simps)
qed


subsection \<open>OrderCancelReplaceRequest515\<close>

record OrderCancelReplaceRequest515 =
  price :: "64 word"
  orderQty :: "32 word"
  securityID :: "32 word"
  side :: "8 word"
  seqNum :: "32 word"
  senderID :: bytes
  clOrdID :: bytes
  partyDetailsListReqID :: "64 word"
  orderID :: "64 word"
  stopPx :: "64 word"
  orderRequestID :: "64 word"
  sendingTimeEpoch :: "64 word"
  location :: bytes
  minQty :: "32 word"
  displayQty :: "32 word"
  expireDate :: "16 word"
  ordType :: "8 word"
  timeInForce :: "8 word"
  manualOrderIndicator :: "8 word"
  ofmOverride :: "8 word"
  execInst :: "8 word"
  executionMode :: "8 word"
  liquidityFlag :: "8 word"
  managedOrder :: "8 word"
  shortSaleType :: "8 word"

definition OrderCancelReplaceRequest515_default :: OrderCancelReplaceRequest515 where
  "OrderCancelReplaceRequest515_default = \<lparr>OrderCancelReplaceRequest515.price = 0,
     OrderCancelReplaceRequest515.orderQty = 0,
     OrderCancelReplaceRequest515.securityID = 0,
     OrderCancelReplaceRequest515.side = 0,
     OrderCancelReplaceRequest515.seqNum = 0,
     OrderCancelReplaceRequest515.senderID = replicate 20 0,
     OrderCancelReplaceRequest515.clOrdID = replicate 20 0,
     OrderCancelReplaceRequest515.partyDetailsListReqID = 0,
     OrderCancelReplaceRequest515.orderID = 0,
     OrderCancelReplaceRequest515.stopPx = 0,
     OrderCancelReplaceRequest515.orderRequestID = 0,
     OrderCancelReplaceRequest515.sendingTimeEpoch = 0,
     OrderCancelReplaceRequest515.location = replicate 5 0,
     OrderCancelReplaceRequest515.minQty = 0,
     OrderCancelReplaceRequest515.displayQty = 0,
     OrderCancelReplaceRequest515.expireDate = 0,
     OrderCancelReplaceRequest515.ordType = 0,
     OrderCancelReplaceRequest515.timeInForce = 0,
     OrderCancelReplaceRequest515.manualOrderIndicator = 0,
     OrderCancelReplaceRequest515.ofmOverride = 0,
     OrderCancelReplaceRequest515.execInst = 0,
     OrderCancelReplaceRequest515.executionMode = 0,
     OrderCancelReplaceRequest515.liquidityFlag = 0,
     OrderCancelReplaceRequest515.managedOrder = 0,
     OrderCancelReplaceRequest515.shortSaleType = 0\<rparr>"

definition OrderCancelReplaceRequest515_TEMPLATE_ID :: "16 word" where "OrderCancelReplaceRequest515_TEMPLATE_ID = 515"
definition OrderCancelReplaceRequest515_BLOCK_LENGTH :: "16 word" where "OrderCancelReplaceRequest515_BLOCK_LENGTH = 125"

definition OrderCancelReplaceRequest515_fields :: "OrderCancelReplaceRequest515 \<Rightarrow> (nat \<times> bytes) list" where
  "OrderCancelReplaceRequest515_fields m = [
     (0, le 8 (OrderCancelReplaceRequest515.price m)),
     (8, le 4 (OrderCancelReplaceRequest515.orderQty m)),
     (12, le 4 (OrderCancelReplaceRequest515.securityID m)),
     (16, le 1 (OrderCancelReplaceRequest515.side m)),
     (17, le 4 (OrderCancelReplaceRequest515.seqNum m)),
     (21, OrderCancelReplaceRequest515.senderID m),
     (41, OrderCancelReplaceRequest515.clOrdID m),
     (61, le 8 (OrderCancelReplaceRequest515.partyDetailsListReqID m)),
     (69, le 8 (OrderCancelReplaceRequest515.orderID m)),
     (77, le 8 (OrderCancelReplaceRequest515.stopPx m)),
     (85, le 8 (OrderCancelReplaceRequest515.orderRequestID m)),
     (93, le 8 (OrderCancelReplaceRequest515.sendingTimeEpoch m)),
     (101, OrderCancelReplaceRequest515.location m),
     (106, le 4 (OrderCancelReplaceRequest515.minQty m)),
     (110, le 4 (OrderCancelReplaceRequest515.displayQty m)),
     (114, le 2 (OrderCancelReplaceRequest515.expireDate m)),
     (116, le 1 (OrderCancelReplaceRequest515.ordType m)),
     (117, le 1 (OrderCancelReplaceRequest515.timeInForce m)),
     (118, le 1 (OrderCancelReplaceRequest515.manualOrderIndicator m)),
     (119, le 1 (OrderCancelReplaceRequest515.ofmOverride m)),
     (120, le 1 (OrderCancelReplaceRequest515.execInst m)),
     (121, le 1 (OrderCancelReplaceRequest515.executionMode m)),
     (122, le 1 (OrderCancelReplaceRequest515.liquidityFlag m)),
     (123, le 1 (OrderCancelReplaceRequest515.managedOrder m)),
     (124, le 1 (OrderCancelReplaceRequest515.shortSaleType m))]"

definition OrderCancelReplaceRequest515_encode :: "OrderCancelReplaceRequest515 \<Rightarrow> bytes \<Rightarrow> nat \<Rightarrow> (bytes \<times> nat) option" where
  "OrderCancelReplaceRequest515_encode m buf offset =
     ilink3_encode OrderCancelReplaceRequest515_BLOCK_LENGTH OrderCancelReplaceRequest515_TEMPLATE_ID (OrderCancelReplaceRequest515_fields m) buf offset"

definition OrderCancelReplaceRequest515_decode :: "bytes \<Rightarrow> nat \<Rightarrow> OrderCancelReplaceRequest515 option" where
  "OrderCancelReplaceRequest515_decode buf offset =
     (let b = offset + MessageHeader_SIZE in do {
        price \<leftarrow> read_le buf (b + 0) 8;
        orderQty \<leftarrow> read_le buf (b + 8) 4;
        securityID \<leftarrow> read_le buf (b + 12) 4;
        side \<leftarrow> read_le buf (b + 16) 1;
        seqNum \<leftarrow> read_le buf (b + 17) 4;
        senderID \<leftarrow> read_bytes buf (b + 21) 20;
        clOrdID \<leftarrow> read_bytes buf (b + 41) 20;
        partyDetailsListReqID \<leftarrow> read_le buf (b + 61) 8;
        orderID \<leftarrow> read_le buf (b + 69) 8;
        stopPx \<leftarrow> read_le buf (b + 77) 8;
        orderRequestID \<leftarrow> read_le buf (b + 85) 8;
        sendingTimeEpoch \<leftarrow> read_le buf (b + 93) 8;
        location \<leftarrow> read_bytes buf (b + 101) 5;
        minQty \<leftarrow> read_le buf (b + 106) 4;
        displayQty \<leftarrow> read_le buf (b + 110) 4;
        expireDate \<leftarrow> read_le buf (b + 114) 2;
        ordType \<leftarrow> read_le buf (b + 116) 1;
        timeInForce \<leftarrow> read_le buf (b + 117) 1;
        manualOrderIndicator \<leftarrow> read_le buf (b + 118) 1;
        ofmOverride \<leftarrow> read_le buf (b + 119) 1;
        execInst \<leftarrow> read_le buf (b + 120) 1;
        executionMode \<leftarrow> read_le buf (b + 121) 1;
        liquidityFlag \<leftarrow> read_le buf (b + 122) 1;
        managedOrder \<leftarrow> read_le buf (b + 123) 1;
        shortSaleType \<leftarrow> read_le buf (b + 124) 1;
        Some \<lparr>OrderCancelReplaceRequest515.price = price,
          OrderCancelReplaceRequest515.orderQty = orderQty,
          OrderCancelReplaceRequest515.securityID = securityID,
          OrderCancelReplaceRequest515.side = side,
          OrderCancelReplaceRequest515.seqNum = seqNum,
          OrderCancelReplaceRequest515.senderID = senderID,
          OrderCancelReplaceRequest515.clOrdID = clOrdID,
          OrderCancelReplaceRequest515.partyDetailsListReqID = partyDetailsListReqID,
          OrderCancelReplaceRequest515.orderID = orderID,
          OrderCancelReplaceRequest515.stopPx = stopPx,
          OrderCancelReplaceRequest515.orderRequestID = orderRequestID,
          OrderCancelReplaceRequest515.sendingTimeEpoch = sendingTimeEpoch,
          OrderCancelReplaceRequest515.location = location,
          OrderCancelReplaceRequest515.minQty = minQty,
          OrderCancelReplaceRequest515.displayQty = displayQty,
          OrderCancelReplaceRequest515.expireDate = expireDate,
          OrderCancelReplaceRequest515.ordType = ordType,
          OrderCancelReplaceRequest515.timeInForce = timeInForce,
          OrderCancelReplaceRequest515.manualOrderIndicator = manualOrderIndicator,
          OrderCancelReplaceRequest515.ofmOverride = ofmOverride,
          OrderCancelReplaceRequest515.execInst = execInst,
          OrderCancelReplaceRequest515.executionMode = executionMode,
          OrderCancelReplaceRequest515.liquidityFlag = liquidityFlag,
          OrderCancelReplaceRequest515.managedOrder = managedOrder,
          OrderCancelReplaceRequest515.shortSaleType = shortSaleType\<rparr>
     })"

definition OrderCancelReplaceRequest515_wf :: "OrderCancelReplaceRequest515 \<Rightarrow> bool" where
  "OrderCancelReplaceRequest515_wf m \<longleftrightarrow> length (OrderCancelReplaceRequest515.senderID m) = 20 \<and>
     length (OrderCancelReplaceRequest515.clOrdID m) = 20 \<and>
     length (OrderCancelReplaceRequest515.location m) = 5"

interpretation orderCancelReplaceRequest515: sbe_message ILINK3_SCHEMA_ID ILINK3_VERSION OrderCancelReplaceRequest515_BLOCK_LENGTH OrderCancelReplaceRequest515_TEMPLATE_ID
  OrderCancelReplaceRequest515_fields "\<lambda>_. unat OrderCancelReplaceRequest515_BLOCK_LENGTH" OrderCancelReplaceRequest515_encode OrderCancelReplaceRequest515_decode OrderCancelReplaceRequest515_wf
proof
  fix m buf off
  show "OrderCancelReplaceRequest515_encode m buf off = sbe_encode ILINK3_SCHEMA_ID ILINK3_VERSION OrderCancelReplaceRequest515_BLOCK_LENGTH
      OrderCancelReplaceRequest515_TEMPLATE_ID (OrderCancelReplaceRequest515_fields m) (unat OrderCancelReplaceRequest515_BLOCK_LENGTH) buf off"
    by (simp add: OrderCancelReplaceRequest515_encode_def ilink3_encode_def)
  show "OrderCancelReplaceRequest515_wf m \<Longrightarrow> packed 0 (OrderCancelReplaceRequest515_fields m) \<and> length (body_of (OrderCancelReplaceRequest515_fields m)) = unat OrderCancelReplaceRequest515_BLOCK_LENGTH"
    by (simp add: OrderCancelReplaceRequest515_wf_def OrderCancelReplaceRequest515_fields_def OrderCancelReplaceRequest515_BLOCK_LENGTH_def)
  show "OrderCancelReplaceRequest515_wf m \<Longrightarrow> reads_fields buf (off + 8) (OrderCancelReplaceRequest515_fields m) \<Longrightarrow> OrderCancelReplaceRequest515_decode buf off = Some m"
    by (cases m) (simp add: OrderCancelReplaceRequest515_wf_def OrderCancelReplaceRequest515_fields_def OrderCancelReplaceRequest515_decode_def sbe_decode_simps)
qed


subsection \<open>OrderCancelRequest516\<close>

record OrderCancelRequest516 =
  orderID :: "64 word"
  partyDetailsListReqID :: "64 word"
  manualOrderIndicator :: "8 word"
  seqNum :: "32 word"
  senderID :: bytes
  clOrdID :: bytes
  securityID :: "32 word"
  side :: "8 word"
  orderRequestID :: "64 word"
  sendingTimeEpoch :: "64 word"
  location :: bytes
  liquidityFlag :: "8 word"

definition OrderCancelRequest516_default :: OrderCancelRequest516 where
  "OrderCancelRequest516_default = \<lparr>OrderCancelRequest516.orderID = 0,
     OrderCancelRequest516.partyDetailsListReqID = 0,
     OrderCancelRequest516.manualOrderIndicator = 0,
     OrderCancelRequest516.seqNum = 0,
     OrderCancelRequest516.senderID = replicate 20 0,
     OrderCancelRequest516.clOrdID = replicate 20 0,
     OrderCancelRequest516.securityID = 0,
     OrderCancelRequest516.side = 0,
     OrderCancelRequest516.orderRequestID = 0,
     OrderCancelRequest516.sendingTimeEpoch = 0,
     OrderCancelRequest516.location = replicate 5 0,
     OrderCancelRequest516.liquidityFlag = 0\<rparr>"

definition OrderCancelRequest516_TEMPLATE_ID :: "16 word" where "OrderCancelRequest516_TEMPLATE_ID = 516"
definition OrderCancelRequest516_BLOCK_LENGTH :: "16 word" where "OrderCancelRequest516_BLOCK_LENGTH = 88"

definition OrderCancelRequest516_fields :: "OrderCancelRequest516 \<Rightarrow> (nat \<times> bytes) list" where
  "OrderCancelRequest516_fields m = [
     (0, le 8 (OrderCancelRequest516.orderID m)),
     (8, le 8 (OrderCancelRequest516.partyDetailsListReqID m)),
     (16, le 1 (OrderCancelRequest516.manualOrderIndicator m)),
     (17, le 4 (OrderCancelRequest516.seqNum m)),
     (21, OrderCancelRequest516.senderID m),
     (41, OrderCancelRequest516.clOrdID m),
     (61, le 4 (OrderCancelRequest516.securityID m)),
     (65, le 1 (OrderCancelRequest516.side m)),
     (66, le 8 (OrderCancelRequest516.orderRequestID m)),
     (74, le 8 (OrderCancelRequest516.sendingTimeEpoch m)),
     (82, OrderCancelRequest516.location m),
     (87, le 1 (OrderCancelRequest516.liquidityFlag m))]"

definition OrderCancelRequest516_encode :: "OrderCancelRequest516 \<Rightarrow> bytes \<Rightarrow> nat \<Rightarrow> (bytes \<times> nat) option" where
  "OrderCancelRequest516_encode m buf offset =
     ilink3_encode OrderCancelRequest516_BLOCK_LENGTH OrderCancelRequest516_TEMPLATE_ID (OrderCancelRequest516_fields m) buf offset"

definition OrderCancelRequest516_decode :: "bytes \<Rightarrow> nat \<Rightarrow> OrderCancelRequest516 option" where
  "OrderCancelRequest516_decode buf offset =
     (let b = offset + MessageHeader_SIZE in do {
        orderID \<leftarrow> read_le buf (b + 0) 8;
        partyDetailsListReqID \<leftarrow> read_le buf (b + 8) 8;
        manualOrderIndicator \<leftarrow> read_le buf (b + 16) 1;
        seqNum \<leftarrow> read_le buf (b + 17) 4;
        senderID \<leftarrow> read_bytes buf (b + 21) 20;
        clOrdID \<leftarrow> read_bytes buf (b + 41) 20;
        securityID \<leftarrow> read_le buf (b + 61) 4;
        side \<leftarrow> read_le buf (b + 65) 1;
        orderRequestID \<leftarrow> read_le buf (b + 66) 8;
        sendingTimeEpoch \<leftarrow> read_le buf (b + 74) 8;
        location \<leftarrow> read_bytes buf (b + 82) 5;
        liquidityFlag \<leftarrow> read_le buf (b + 87) 1;
        Some \<lparr>OrderCancelRequest516.orderID = orderID,
          OrderCancelRequest516.partyDetailsListReqID = partyDetailsListReqID,
          OrderCancelRequest516.manualOrderIndicator = manualOrderIndicator,
          OrderCancelRequest516.seqNum = seqNum,
          OrderCancelRequest516.senderID = senderID,
          OrderCancelRequest516.clOrdID = clOrdID,
          OrderCancelRequest516.securityID = securityID,
          OrderCancelRequest516.side = side,
          OrderCancelRequest516.orderRequestID = orderRequestID,
          OrderCancelRequest516.sendingTimeEpoch = sendingTimeEpoch,
          OrderCancelRequest516.location = location,
          OrderCancelRequest516.liquidityFlag = liquidityFlag\<rparr>
     })"

definition OrderCancelRequest516_wf :: "OrderCancelRequest516 \<Rightarrow> bool" where
  "OrderCancelRequest516_wf m \<longleftrightarrow> length (OrderCancelRequest516.senderID m) = 20 \<and>
     length (OrderCancelRequest516.clOrdID m) = 20 \<and>
     length (OrderCancelRequest516.location m) = 5"

interpretation orderCancelRequest516: sbe_message ILINK3_SCHEMA_ID ILINK3_VERSION OrderCancelRequest516_BLOCK_LENGTH OrderCancelRequest516_TEMPLATE_ID
  OrderCancelRequest516_fields "\<lambda>_. unat OrderCancelRequest516_BLOCK_LENGTH" OrderCancelRequest516_encode OrderCancelRequest516_decode OrderCancelRequest516_wf
proof
  fix m buf off
  show "OrderCancelRequest516_encode m buf off = sbe_encode ILINK3_SCHEMA_ID ILINK3_VERSION OrderCancelRequest516_BLOCK_LENGTH
      OrderCancelRequest516_TEMPLATE_ID (OrderCancelRequest516_fields m) (unat OrderCancelRequest516_BLOCK_LENGTH) buf off"
    by (simp add: OrderCancelRequest516_encode_def ilink3_encode_def)
  show "OrderCancelRequest516_wf m \<Longrightarrow> packed 0 (OrderCancelRequest516_fields m) \<and> length (body_of (OrderCancelRequest516_fields m)) = unat OrderCancelRequest516_BLOCK_LENGTH"
    by (simp add: OrderCancelRequest516_wf_def OrderCancelRequest516_fields_def OrderCancelRequest516_BLOCK_LENGTH_def)
  show "OrderCancelRequest516_wf m \<Longrightarrow> reads_fields buf (off + 8) (OrderCancelRequest516_fields m) \<Longrightarrow> OrderCancelRequest516_decode buf off = Some m"
    by (cases m) (simp add: OrderCancelRequest516_wf_def OrderCancelRequest516_fields_def OrderCancelRequest516_decode_def sbe_decode_simps)
qed


subsection \<open>OrderCancelReject535\<close>

record OrderCancelReject535 =
  seqNum :: "32 word"
  uuid :: "64 word"
  execID :: bytes
  senderID :: bytes
  clOrdID :: bytes
  partyDetailsListReqID :: "64 word"
  orderID :: "64 word"
  transactTime :: "64 word"
  sendingTimeEpoch :: "64 word"
  orderRequestID :: "64 word"
  location :: bytes
  cxlRejReason :: "16 word"
  manualOrderIndicator :: "8 word"

definition OrderCancelReject535_default :: OrderCancelReject535 where
  "OrderCancelReject535_default = \<lparr>OrderCancelReject535.seqNum = 0,
     OrderCancelReject535.uuid = 0,
     OrderCancelReject535.execID = replicate 40 0,
     OrderCancelReject535.senderID = replicate 20 0,
     OrderCancelReject535.clOrdID = replicate 20 0,
     OrderCancelReject535.partyDetailsListReqID = 0,
     OrderCancelReject535.orderID = 0,
     OrderCancelReject535.transactTime = 0,
     OrderCancelReject535.sendingTimeEpoch = 0,
     OrderCancelReject535.orderRequestID = 0,
     OrderCancelReject535.location = replicate 5 0,
     OrderCancelReject535.cxlRejReason = 0,
     OrderCancelReject535.manualOrderIndicator = 0\<rparr>"

definition OrderCancelReject535_TEMPLATE_ID :: "16 word" where "OrderCancelReject535_TEMPLATE_ID = 535"
definition OrderCancelReject535_BLOCK_LENGTH :: "16 word" where "OrderCancelReject535_BLOCK_LENGTH = 140"

definition OrderCancelReject535_fields :: "OrderCancelReject535 \<Rightarrow> (nat \<times> bytes) list" where
  "OrderCancelReject535_fields m = [
     (0, le 4 (OrderCancelReject535.seqNum m)),
     (4, le 8 (OrderCancelReject535.uuid m)),
     (12, OrderCancelReject535.execID m),
     (52, OrderCancelReject535.senderID m),
     (72, OrderCancelReject535.clOrdID m),
     (92, le 8 (OrderCancelReject535.partyDetailsListReqID m)),
     (100, le 8 (OrderCancelReject535.orderID m)),
     (108, le 8 (OrderCancelReject535.transactTime m)),
     (116, le 8 (OrderCancelReject535.sendingTimeEpoch m)),
     (124, le 8 (OrderCancelReject535.orderRequestID m)),
     (132, OrderCancelReject535.location m),
     (137, le 2 (OrderCancelReject535.cxlRejReason m)),
     (139, le 1 (OrderCancelReject535.manualOrderIndicator m))]"

definition OrderCancelReject535_encode :: "OrderCancelReject535 \<Rightarrow> bytes \<Rightarrow> nat \<Rightarrow> (bytes \<times> nat) option" where
  "OrderCancelReject535_encode m buf offset =
     ilink3_encode OrderCancelReject535_BLOCK_LENGTH OrderCancelReject535_TEMPLATE_ID (OrderCancelReject535_fields m) buf offset"

definition OrderCancelReject535_decode :: "bytes \<Rightarrow> nat \<Rightarrow> OrderCancelReject535 option" where
  "OrderCancelReject535_decode buf offset =
     (let b = offset + MessageHeader_SIZE in do {
        seqNum \<leftarrow> read_le buf (b + 0) 4;
        uuid \<leftarrow> read_le buf (b + 4) 8;
        execID \<leftarrow> read_bytes buf (b + 12) 40;
        senderID \<leftarrow> read_bytes buf (b + 52) 20;
        clOrdID \<leftarrow> read_bytes buf (b + 72) 20;
        partyDetailsListReqID \<leftarrow> read_le buf (b + 92) 8;
        orderID \<leftarrow> read_le buf (b + 100) 8;
        transactTime \<leftarrow> read_le buf (b + 108) 8;
        sendingTimeEpoch \<leftarrow> read_le buf (b + 116) 8;
        orderRequestID \<leftarrow> read_le buf (b + 124) 8;
        location \<leftarrow> read_bytes buf (b + 132) 5;
        cxlRejReason \<leftarrow> read_le buf (b + 137) 2;
        manualOrderIndicator \<leftarrow> read_le buf (b + 139) 1;
        Some \<lparr>OrderCancelReject535.seqNum = seqNum,
          OrderCancelReject535.uuid = uuid,
          OrderCancelReject535.execID = execID,
          OrderCancelReject535.senderID = senderID,
          OrderCancelReject535.clOrdID = clOrdID,
          OrderCancelReject535.partyDetailsListReqID = partyDetailsListReqID,
          OrderCancelReject535.orderID = orderID,
          OrderCancelReject535.transactTime = transactTime,
          OrderCancelReject535.sendingTimeEpoch = sendingTimeEpoch,
          OrderCancelReject535.orderRequestID = orderRequestID,
          OrderCancelReject535.location = location,
          OrderCancelReject535.cxlRejReason = cxlRejReason,
          OrderCancelReject535.manualOrderIndicator = manualOrderIndicator\<rparr>
     })"

definition OrderCancelReject535_wf :: "OrderCancelReject535 \<Rightarrow> bool" where
  "OrderCancelReject535_wf m \<longleftrightarrow> length (OrderCancelReject535.execID m) = 40 \<and>
     length (OrderCancelReject535.senderID m) = 20 \<and>
     length (OrderCancelReject535.clOrdID m) = 20 \<and>
     length (OrderCancelReject535.location m) = 5"

interpretation orderCancelReject535: sbe_message ILINK3_SCHEMA_ID ILINK3_VERSION OrderCancelReject535_BLOCK_LENGTH OrderCancelReject535_TEMPLATE_ID
  OrderCancelReject535_fields "\<lambda>_. unat OrderCancelReject535_BLOCK_LENGTH" OrderCancelReject535_encode OrderCancelReject535_decode OrderCancelReject535_wf
proof
  fix m buf off
  show "OrderCancelReject535_encode m buf off = sbe_encode ILINK3_SCHEMA_ID ILINK3_VERSION OrderCancelReject535_BLOCK_LENGTH
      OrderCancelReject535_TEMPLATE_ID (OrderCancelReject535_fields m) (unat OrderCancelReject535_BLOCK_LENGTH) buf off"
    by (simp add: OrderCancelReject535_encode_def ilink3_encode_def)
  show "OrderCancelReject535_wf m \<Longrightarrow> packed 0 (OrderCancelReject535_fields m) \<and> length (body_of (OrderCancelReject535_fields m)) = unat OrderCancelReject535_BLOCK_LENGTH"
    by (simp add: OrderCancelReject535_wf_def OrderCancelReject535_fields_def OrderCancelReject535_BLOCK_LENGTH_def)
  show "OrderCancelReject535_wf m \<Longrightarrow> reads_fields buf (off + 8) (OrderCancelReject535_fields m) \<Longrightarrow> OrderCancelReject535_decode buf off = Some m"
    by (cases m) (simp add: OrderCancelReject535_wf_def OrderCancelReject535_fields_def OrderCancelReject535_decode_def sbe_decode_simps)
qed


end
