(* ===== verification/Exec_Report_Builder.thy ===== *)
theory Exec_Report_Builder
  imports Engine_Types ILink3_Exec_Reports ILink3_Orders
begin

text \<open>
  \<^verbatim>\<open>src/gateway/exec_report_builder.cpp\<close>: the execution reports sent to the sessions.  Every builder takes
  the wall clock's reading and the event, allocates a buffer of \<^verbatim>\<open>encodedLength()\<close> zeros, and returns the
  builder (whose execution-id counter advances) with the encoded message; \<open>None\<close> would be a write
  outside the buffer, and never happens.  Strings of the engine are characters; on the wire they are
  bytes.
\<close>

section \<open>Conversions\<close>

definition bytes_of_string :: "string \<Rightarrow> bytes" where
  "bytes_of_string s = map of_char s"

definition string_of_bytes :: "bytes \<Rightarrow> string" where
  "string_of_bytes bs = map (\<lambda>b. char_of (unat b)) bs"

fun Side_code :: "Side \<Rightarrow> 8 word" where
  "Side_code Buy = 1"
| "Side_code Sell = 2"
| "Side_code (Side_other w) = w"

fun OrderType_code :: "OrderType \<Rightarrow> 8 word" where
  "OrderType_code Market = 1"
| "OrderType_code Limit = 2"
| "OrderType_code StopLimit = 3"
| "OrderType_code StopMarket = 4"
| "OrderType_code (OrderType_other w) = w"

fun TimeInForce_code :: "TimeInForce \<Rightarrow> 8 word" where
  "TimeInForce_code Day = 0"
| "TimeInForce_code GTC = 1"
| "TimeInForce_code IOC = 3"
| "TimeInForce_code FOK = 4"
| "TimeInForce_code GTD = 6"
| "TimeInForce_code (TimeInForce_other w) = w"

text \<open>\<^verbatim>\<open>static_cast\<close> from the wire's byte to the enumeration.\<close>

definition Side_of :: "8 word \<Rightarrow> Side" where
  "Side_of w = (if w = 1 then Buy else if w = 2 then Sell else Side_other w)"

definition OrderType_of :: "8 word \<Rightarrow> OrderType" where
  "OrderType_of w = (if w = 1 then Market else if w = 2 then Limit else if w = 3 then StopLimit
     else if w = 4 then StopMarket else OrderType_other w)"

definition TimeInForce_of :: "8 word \<Rightarrow> TimeInForce" where
  "TimeInForce_of w = (if w = 0 then Day else if w = 1 then GTC else if w = 3 then IOC
     else if w = 4 then FOK else if w = 6 then GTD else TimeInForce_other w)"

text \<open>The FIX characters of the order status.\<close>

fun ordStatusToChar :: "OrdStatus \<Rightarrow> 8 word" where
  "ordStatusToChar New = 48"
| "ordStatusToChar PartiallyFilled = 49"
| "ordStatusToChar Filled = 50"
| "ordStatusToChar Canceled = 52"
| "ordStatusToChar Replaced = 53"
| "ordStatusToChar Rejected = 56"

text \<open>\<^verbatim>\<open>std::to_string\<close> of an unsigned number.\<close>

fun to_string :: "nat \<Rightarrow> bytes" where
  "to_string n = (if n < 10 then [of_nat (48 + n)] else to_string (n div 10) @ [of_nat (48 + n mod 10)])"

declare to_string.simps [simp del]

section \<open>The builder\<close>

record ExecReportBuilder =
  next_exec_id :: "64 word"

definition ExecReportBuilder_new :: ExecReportBuilder where
  "ExecReportBuilder_new = \<lparr>next_exec_id = 1\<rparr>"

definition generateExecId :: "ExecReportBuilder \<Rightarrow> bytes \<times> ExecReportBuilder" where
  "generateExecId b = (to_string (unat (next_exec_id b)), b\<lparr>next_exec_id := next_exec_id b + 1\<rparr>)"

text \<open>A buffer of the encoded length, filled by \<^verbatim>\<open>encode\<close>.\<close>

definition encode_report :: "(bytes \<Rightarrow> nat \<Rightarrow> (bytes \<times> nat) option) \<Rightarrow> 16 word \<Rightarrow> bytes option" where
  "encode_report encode block_length =
     map_option fst (encode (replicate (MessageHeader_SIZE + unat block_length) 0) 0)"

definition buildExecutionReportNew ::
  "Timestamp \<Rightarrow> OrderAccepted \<Rightarrow> uuid_t \<Rightarrow> ExecReportBuilder \<Rightarrow> (ExecReportBuilder \<times> bytes) option" where
  "buildExecutionReportNew now event u b =
     (let (exec_id, b) = generateExecId b;
          msg = ExecutionReportNew522_default
            \<lparr>ExecutionReportNew522.uuid := u, ExecutionReportNew522.orderID := acc_order_id event,
             ExecutionReportNew522.price := of_int (mantissa (acc_price event)),
             ExecutionReportNew522.securityID := of_int (acc_security_id event),
             ExecutionReportNew522.orderQty := of_int (acc_quantity event),
             ExecutionReportNew522.side := Side_code (acc_side event),
             ExecutionReportNew522.ordType := OrderType_code (acc_order_type event),
             ExecutionReportNew522.timeInForce := TimeInForce_code (acc_time_in_force event),
             ExecutionReportNew522.transactTime := now, ExecutionReportNew522.sendingTimeEpoch := now,
             ExecutionReportNew522.execID := writeFixedString (Some exec_id) 40,
             ExecutionReportNew522.clOrdID := writeFixedString (Some (bytes_of_string (acc_cl_ord_id event))) 20\<rparr>
      in map_option (Pair b) (encode_report (ExecutionReportNew522_encode msg) ExecutionReportNew522_BLOCK_LENGTH))"

definition buildExecutionReportReject ::
  "Timestamp \<Rightarrow> OrderRejected \<Rightarrow> uuid_t \<Rightarrow> ExecReportBuilder \<Rightarrow> (ExecReportBuilder \<times> bytes) option" where
  "buildExecutionReportReject now event u b =
     (let (exec_id, b) = generateExecId b;
          msg = ExecutionReportReject523_default
            \<lparr>ExecutionReportReject523.uuid := u, ExecutionReportReject523.ordRejReason := rej_reject_reason_code event,
             ExecutionReportReject523.transactTime := now, ExecutionReportReject523.sendingTimeEpoch := now,
             ExecutionReportReject523.execID := writeFixedString (Some exec_id) 40,
             ExecutionReportReject523.clOrdID := writeFixedString (Some (bytes_of_string (rej_cl_ord_id event))) 20,
             ExecutionReportReject523.ordStatus := 56, ExecutionReportReject523.execType := 56\<rparr>
      in map_option (Pair b) (encode_report (ExecutionReportReject523_encode msg) ExecutionReportReject523_BLOCK_LENGTH))"

definition buildExecutionReportFill ::
  "Timestamp \<Rightarrow> OrderFilled \<Rightarrow> uuid_t \<Rightarrow> bool \<Rightarrow> ExecReportBuilder \<Rightarrow> (ExecReportBuilder \<times> bytes) option" where
  "buildExecutionReportFill now event u is_maker b =
     (let msg = ExecutionReportTradeOutright525_default\<lparr>ExecutionReportTradeOutright525.uuid := u\<rparr>;
          msg = (if is_maker then msg
              \<lparr>ExecutionReportTradeOutright525.orderID := maker_order_id event,
               ExecutionReportTradeOutright525.clOrdID := writeFixedString (Some (bytes_of_string (maker_cl_ord_id event))) 20,
               ExecutionReportTradeOutright525.cumQty := of_int (maker_cum_qty event),
               ExecutionReportTradeOutright525.leavesQty := of_int (maker_leaves_qty event),
               ExecutionReportTradeOutright525.side := (if aggressor_side event = Buy then Side_code Sell else Side_code Buy),
               ExecutionReportTradeOutright525.aggressorIndicator := 0,
               ExecutionReportTradeOutright525.ordStatus := ordStatusToChar (maker_ord_status event)\<rparr>
            else msg
              \<lparr>ExecutionReportTradeOutright525.orderID := taker_order_id event,
               ExecutionReportTradeOutright525.clOrdID := writeFixedString (Some (bytes_of_string (taker_cl_ord_id event))) 20,
               ExecutionReportTradeOutright525.cumQty := of_int (taker_cum_qty event),
               ExecutionReportTradeOutright525.leavesQty := of_int (taker_leaves_qty event),
               ExecutionReportTradeOutright525.side := Side_code (aggressor_side event),
               ExecutionReportTradeOutright525.aggressorIndicator := 1,
               ExecutionReportTradeOutright525.ordStatus := ordStatusToChar (taker_ord_status event)\<rparr>);
          (exec_id, b) = generateExecId b;
          msg = msg
            \<lparr>ExecutionReportTradeOutright525.securityID := of_int (fill_security_id event),
             ExecutionReportTradeOutright525.price := of_int (mantissa (trade_price event)),
             ExecutionReportTradeOutright525.lastPx := of_int (mantissa (trade_price event)),
             ExecutionReportTradeOutright525.lastQty := of_int (trade_qty event),
             ExecutionReportTradeOutright525.fillPx := of_int (mantissa (trade_price event)),
             ExecutionReportTradeOutright525.fillQty := of_int (trade_qty event),
             ExecutionReportTradeOutright525.execType := 70,
             ExecutionReportTradeOutright525.transactTime := now,
             ExecutionReportTradeOutright525.sendingTimeEpoch := now,
             ExecutionReportTradeOutright525.execID := writeFixedString (Some exec_id) 40\<rparr>
      in map_option (Pair b)
           (encode_report (ExecutionReportTradeOutright525_encode msg) ExecutionReportTradeOutright525_BLOCK_LENGTH))"

definition buildExecutionReportCancel ::
  "Timestamp \<Rightarrow> OrderCancelled \<Rightarrow> uuid_t \<Rightarrow> ExecReportBuilder \<Rightarrow> (ExecReportBuilder \<times> bytes) option" where
  "buildExecutionReportCancel now event u b =
     (let (exec_id, b) = generateExecId b;
          msg = ExecutionReportCancel534_default
            \<lparr>ExecutionReportCancel534.uuid := u, ExecutionReportCancel534.orderID := can_order_id event,
             ExecutionReportCancel534.securityID := of_int (can_security_id event),
             ExecutionReportCancel534.cumQty := of_int (can_cum_qty event),
             ExecutionReportCancel534.ordStatus := 52, ExecutionReportCancel534.execType := 52,
             ExecutionReportCancel534.transactTime := now, ExecutionReportCancel534.sendingTimeEpoch := now,
             ExecutionReportCancel534.execID := writeFixedString (Some exec_id) 40,
             ExecutionReportCancel534.clOrdID := writeFixedString (Some (bytes_of_string (can_cl_ord_id event))) 20\<rparr>
      in map_option (Pair b) (encode_report (ExecutionReportCancel534_encode msg) ExecutionReportCancel534_BLOCK_LENGTH))"

definition buildExecutionReportModify ::
  "Timestamp \<Rightarrow> OrderModified \<Rightarrow> uuid_t \<Rightarrow> ExecReportBuilder \<Rightarrow> (ExecReportBuilder \<times> bytes) option" where
  "buildExecutionReportModify now event u b =
     (let (exec_id, b) = generateExecId b;
          msg = ExecutionReportModify531_default
            \<lparr>ExecutionReportModify531.uuid := u, ExecutionReportModify531.orderID := mod_order_id event,
             ExecutionReportModify531.securityID := of_int (mod_security_id event),
             ExecutionReportModify531.price := of_int (mantissa (mod_new_price event)),
             ExecutionReportModify531.orderQty := of_int (mod_new_qty event),
             ExecutionReportModify531.cumQty := of_int (mod_cum_qty event),
             ExecutionReportModify531.ordStatus := 48, ExecutionReportModify531.execType := 53,
             ExecutionReportModify531.transactTime := now, ExecutionReportModify531.sendingTimeEpoch := now,
             ExecutionReportModify531.execID := writeFixedString (Some exec_id) 40,
             ExecutionReportModify531.clOrdID := writeFixedString (Some (bytes_of_string (mod_cl_ord_id event))) 20\<rparr>
      in map_option (Pair b) (encode_report (ExecutionReportModify531_encode msg) ExecutionReportModify531_BLOCK_LENGTH))"

definition buildExecutionReportElimination ::
  "Timestamp \<Rightarrow> OrderAccepted \<Rightarrow> uuid_t \<Rightarrow> ExecReportBuilder \<Rightarrow> (ExecReportBuilder \<times> bytes) option" where
  "buildExecutionReportElimination now event u b =
     (let (exec_id, b) = generateExecId b;
          msg = ExecutionReportElimination524_default
            \<lparr>ExecutionReportElimination524.uuid := u, ExecutionReportElimination524.orderID := acc_order_id event,
             ExecutionReportElimination524.securityID := of_int (acc_security_id event),
             ExecutionReportElimination524.price := of_int (mantissa (acc_price event)),
             ExecutionReportElimination524.orderQty := of_int (acc_quantity event),
             ExecutionReportElimination524.side := Side_code (acc_side event),
             ExecutionReportElimination524.ordType := OrderType_code (acc_order_type event),
             ExecutionReportElimination524.timeInForce := TimeInForce_code (acc_time_in_force event),
             ExecutionReportElimination524.cumQty := 0,
             ExecutionReportElimination524.ordStatus := 67, ExecutionReportElimination524.execType := 67,
             ExecutionReportElimination524.transactTime := now, ExecutionReportElimination524.sendingTimeEpoch := now,
             ExecutionReportElimination524.execID := writeFixedString (Some exec_id) 40,
             ExecutionReportElimination524.clOrdID := writeFixedString (Some (bytes_of_string (acc_cl_ord_id event))) 20\<rparr>
      in map_option (Pair b) (encode_report (ExecutionReportElimination524_encode msg) ExecutionReportElimination524_BLOCK_LENGTH))"

definition buildOrderCancelReject ::
  "Timestamp \<Rightarrow> OrderCancelRejected \<Rightarrow> uuid_t \<Rightarrow> ExecReportBuilder \<Rightarrow> (ExecReportBuilder \<times> bytes) option" where
  "buildOrderCancelReject now event u b =
     (let (exec_id, b) = generateExecId b;
          msg = OrderCancelReject535_default
            \<lparr>OrderCancelReject535.uuid := u, OrderCancelReject535.orderID := cxr_order_id event,
             OrderCancelReject535.cxlRejReason := cxr_reject_reason_code event,
             OrderCancelReject535.transactTime := now, OrderCancelReject535.sendingTimeEpoch := now,
             OrderCancelReject535.execID := writeFixedString (Some exec_id) 40,
             OrderCancelReject535.clOrdID := writeFixedString (Some (bytes_of_string (cxr_cl_ord_id event))) 20\<rparr>
      in map_option (Pair b) (encode_report (OrderCancelReject535_encode msg) OrderCancelReject535_BLOCK_LENGTH))"

definition buildFromEvent ::
  "Timestamp \<Rightarrow> EngineEvent \<Rightarrow> uuid_t \<Rightarrow> ExecReportBuilder \<Rightarrow> (ExecReportBuilder \<times> bytes) option" where
  "buildFromEvent now event u b =
     (case event of
        EvAccepted e \<Rightarrow> buildExecutionReportNew now e u b
      | EvRejected e \<Rightarrow> buildExecutionReportReject now e u b
      | EvFilled e \<Rightarrow> buildExecutionReportFill now e u (maker_session_uuid e = u) b
      | EvCancelled e \<Rightarrow> buildExecutionReportCancel now e u b
      | EvModified e \<Rightarrow> buildExecutionReportModify now e u b
      | EvCancelRejected e \<Rightarrow> buildOrderCancelReject now e u b
      | EvBook _ \<Rightarrow> Some (b, []))"

section \<open>What a client reads in a report\<close>

record Report =
  rp_template :: "16 word"
  rp_uuid :: uuid_t
  rp_exec_id :: bytes
  rp_cl_ord_id :: bytes
  rp_order_id :: OrderId
  rp_qty :: "32 word"
  rp_px :: "64 word"
  rp_cum :: "32 word"
  rp_leaves :: "32 word"
  rp_reason :: "16 word"

definition read_report :: "bytes \<Rightarrow> Report option" where
  "read_report bs =
     (case decodeTemplateId bs 0 of
        None \<Rightarrow> None
      | Some t \<Rightarrow>
          if t = ExecutionReportNew522_TEMPLATE_ID then
            map_option (\<lambda>m. \<lparr>rp_template = t, rp_uuid = ExecutionReportNew522.uuid m,
              rp_exec_id = c_str (ExecutionReportNew522.execID m), rp_cl_ord_id = c_str (ExecutionReportNew522.clOrdID m),
              rp_order_id = ExecutionReportNew522.orderID m, rp_qty = ExecutionReportNew522.orderQty m,
              rp_px = ExecutionReportNew522.price m, rp_cum = 0, rp_leaves = 0, rp_reason = 0\<rparr>) (ExecutionReportNew522_decode bs 0)
          else if t = ExecutionReportReject523_TEMPLATE_ID then
            map_option (\<lambda>m. \<lparr>rp_template = t, rp_uuid = ExecutionReportReject523.uuid m,
              rp_exec_id = c_str (ExecutionReportReject523.execID m), rp_cl_ord_id = c_str (ExecutionReportReject523.clOrdID m),
              rp_order_id = 0, rp_qty = 0, rp_px = 0, rp_cum = 0, rp_leaves = 0,
              rp_reason = ExecutionReportReject523.ordRejReason m\<rparr>) (ExecutionReportReject523_decode bs 0)
          else if t = ExecutionReportTradeOutright525_TEMPLATE_ID then
            map_option (\<lambda>m. \<lparr>rp_template = t, rp_uuid = ExecutionReportTradeOutright525.uuid m,
              rp_exec_id = c_str (ExecutionReportTradeOutright525.execID m),
              rp_cl_ord_id = c_str (ExecutionReportTradeOutright525.clOrdID m),
              rp_order_id = ExecutionReportTradeOutright525.orderID m, rp_qty = ExecutionReportTradeOutright525.lastQty m,
              rp_px = ExecutionReportTradeOutright525.lastPx m, rp_cum = ExecutionReportTradeOutright525.cumQty m,
              rp_leaves = ExecutionReportTradeOutright525.leavesQty m, rp_reason = 0\<rparr>) (ExecutionReportTradeOutright525_decode bs 0)
          else if t = ExecutionReportCancel534_TEMPLATE_ID then
            map_option (\<lambda>m. \<lparr>rp_template = t, rp_uuid = ExecutionReportCancel534.uuid m,
              rp_exec_id = c_str (ExecutionReportCancel534.execID m), rp_cl_ord_id = c_str (ExecutionReportCancel534.clOrdID m),
              rp_order_id = ExecutionReportCancel534.orderID m, rp_qty = 0, rp_px = 0,
              rp_cum = ExecutionReportCancel534.cumQty m, rp_leaves = 0, rp_reason = 0\<rparr>) (ExecutionReportCancel534_decode bs 0)
          else if t = ExecutionReportModify531_TEMPLATE_ID then
            map_option (\<lambda>m. \<lparr>rp_template = t, rp_uuid = ExecutionReportModify531.uuid m,
              rp_exec_id = c_str (ExecutionReportModify531.execID m), rp_cl_ord_id = c_str (ExecutionReportModify531.clOrdID m),
              rp_order_id = ExecutionReportModify531.orderID m, rp_qty = ExecutionReportModify531.orderQty m,
              rp_px = ExecutionReportModify531.price m, rp_cum = ExecutionReportModify531.cumQty m,
              rp_leaves = 0, rp_reason = 0\<rparr>) (ExecutionReportModify531_decode bs 0)
          else if t = OrderCancelReject535_TEMPLATE_ID then
            map_option (\<lambda>m. \<lparr>rp_template = t, rp_uuid = OrderCancelReject535.uuid m,
              rp_exec_id = c_str (OrderCancelReject535.execID m), rp_cl_ord_id = c_str (OrderCancelReject535.clOrdID m),
              rp_order_id = OrderCancelReject535.orderID m, rp_qty = 0, rp_px = 0, rp_cum = 0, rp_leaves = 0,
              rp_reason = OrderCancelReject535.cxlRejReason m\<rparr>) (OrderCancelReject535_decode bs 0)
          else None)"

text \<open>The client order id as the fixed field carries it.\<close>

definition wire_id :: "string \<Rightarrow> bytes" where
  "wire_id s = take 20 (c_str (bytes_of_string s))"

text \<open>What the report of an event should say, for the maker or the other side.\<close>

definition report_of :: "EngineEvent \<Rightarrow> uuid_t \<Rightarrow> bool \<Rightarrow> bytes \<Rightarrow> Report option" where
  "report_of ev u is_maker exec_id =
     (case ev of
        EvAccepted e \<Rightarrow> Some \<lparr>rp_template = 522, rp_uuid = u, rp_exec_id = exec_id, rp_cl_ord_id = wire_id (acc_cl_ord_id e),
          rp_order_id = acc_order_id e, rp_qty = of_int (acc_quantity e), rp_px = of_int (mantissa (acc_price e)),
          rp_cum = 0, rp_leaves = 0, rp_reason = 0\<rparr>
      | EvRejected e \<Rightarrow> Some \<lparr>rp_template = 523, rp_uuid = u, rp_exec_id = exec_id, rp_cl_ord_id = wire_id (rej_cl_ord_id e),
          rp_order_id = 0, rp_qty = 0, rp_px = 0, rp_cum = 0, rp_leaves = 0, rp_reason = rej_reject_reason_code e\<rparr>
      | EvFilled e \<Rightarrow> Some \<lparr>rp_template = 525, rp_uuid = u, rp_exec_id = exec_id,
          rp_cl_ord_id = wire_id (if is_maker then maker_cl_ord_id e else taker_cl_ord_id e),
          rp_order_id = (if is_maker then maker_order_id e else taker_order_id e),
          rp_qty = of_int (trade_qty e), rp_px = of_int (mantissa (trade_price e)),
          rp_cum = of_int (if is_maker then maker_cum_qty e else taker_cum_qty e),
          rp_leaves = of_int (if is_maker then maker_leaves_qty e else taker_leaves_qty e), rp_reason = 0\<rparr>
      | EvCancelled e \<Rightarrow> Some \<lparr>rp_template = 534, rp_uuid = u, rp_exec_id = exec_id, rp_cl_ord_id = wire_id (can_cl_ord_id e),
          rp_order_id = can_order_id e, rp_qty = 0, rp_px = 0, rp_cum = of_int (can_cum_qty e), rp_leaves = 0, rp_reason = 0\<rparr>
      | EvModified e \<Rightarrow> Some \<lparr>rp_template = 531, rp_uuid = u, rp_exec_id = exec_id, rp_cl_ord_id = wire_id (mod_cl_ord_id e),
          rp_order_id = mod_order_id e, rp_qty = of_int (mod_new_qty e), rp_px = of_int (mantissa (mod_new_price e)),
          rp_cum = of_int (mod_cum_qty e), rp_leaves = 0, rp_reason = 0\<rparr>
      | EvCancelRejected e \<Rightarrow> Some \<lparr>rp_template = 535, rp_uuid = u, rp_exec_id = exec_id, rp_cl_ord_id = wire_id (cxr_cl_ord_id e),
          rp_order_id = cxr_order_id e, rp_qty = 0, rp_px = 0, rp_cum = 0, rp_leaves = 0, rp_reason = cxr_reject_reason_code e\<rparr>
      | EvBook _ \<Rightarrow> None)"

section \<open>Execution ids\<close>

lemma to_string_nonzero: "0 \<notin> set (to_string n)"
proof (induction n rule: to_string.induct)
  case (1 n)
  have d: "(of_nat (48 + k) :: 8 word) \<noteq> 0" if "k < 10" for k
  proof -
    have "unat (of_nat (48 + k) :: 8 word) = 48 + k" using that by (simp only: unat_of_nat) simp
    then show ?thesis by auto
  qed
  show ?case using 1 d [of n] d [of "n mod 10"] by (simp add: to_string.simps [of n])
qed

lemma length_to_string: "n < 10 ^ k \<Longrightarrow> 0 < k \<Longrightarrow> length (to_string n) \<le> k"
proof (induction k arbitrary: n)
  case (Suc k)
  show ?case
  proof (cases "n < 10")
    case True
    then show ?thesis by (simp add: to_string.simps)
  next
    case False
    then have k: "0 < k" using Suc.prems(1) by (cases k) auto
    have "n div 10 < 10 ^ k" using Suc.prems(1) by auto
    from Suc.IH [OF this k] False show ?thesis by (simp add: to_string.simps [of n])
  qed
qed simp

text \<open>The number a decimal string denotes.\<close>

definition decimal :: "bytes \<Rightarrow> nat" where
  "decimal bs = fold (\<lambda>b n. 10 * n + (unat b - 48)) bs 0"

lemma decimal_to_string: "decimal (to_string n) = n"
proof (induction n rule: to_string.induct)
  case (1 n)
  have d: "unat (of_nat (48 + k) :: 8 word) - 48 = k" if "k < 10" for k
    using that by (simp only: unat_of_nat) simp
  show ?case
  proof (cases "n < 10")
    case True
    then show ?thesis using d [of n] by (simp add: to_string.simps [of n] decimal_def)
  next
    case False
    have "decimal (to_string n) = 10 * decimal (to_string (n div 10)) + n mod 10"
      using False d [of "n mod 10"] by (simp add: to_string.simps [of n] decimal_def)
    then show ?thesis using 1 [OF False] by simp
  qed
qed

lemma exec_id_fits: "c_str (writeFixedString (Some (to_string (unat (w :: 64 word)))) 40) = to_string (unat w)"
proof -
  have "unat w < 10 ^ 20" using unsigned_less [of w, where ?'a = nat] by simp
  then have "length (to_string (unat w)) \<le> 20" by (rule length_to_string) simp
  moreover have "c_str (to_string (unat w)) = to_string (unat w)"
    using to_string_nonzero by (metis (mono_tags, lifting) c_str_def takeWhile_eq_all_conv)
  ultimately show ?thesis by (simp add: c_str_writeFixedString)
qed

lemma cl_ord_id_wire: "c_str (writeFixedString (Some (bytes_of_string s)) 20) = wire_id s"
  by (simp add: c_str_writeFixedString wire_id_def)

section \<open>Every report is encoded and reads back\<close>

lemma encode_report_wire:
  assumes "encode (replicate (8 + unat bl) 0) 0 = Some (w @ drop (8 + unat bl) (replicate (8 + unat bl) 0), k)"
  shows "encode_report encode bl = Some w"
  using assms by (simp add: encode_report_def MessageHeader_SIZE_def)

definition reported :: "(ExecReportBuilder \<times> bytes) option \<Rightarrow> EngineEvent \<Rightarrow> uuid_t \<Rightarrow> bool \<Rightarrow> ExecReportBuilder \<Rightarrow> bool" where
  "reported r ev u is_maker b \<longleftrightarrow> (\<exists>bs. r = Some (b\<lparr>next_exec_id := next_exec_id b + 1\<rparr>, bs) \<and>
     read_report bs = report_of ev u is_maker (to_string (unat (next_exec_id b))))"

lemmas read_report_ids = ExecutionReportNew522_TEMPLATE_ID_def ExecutionReportReject523_TEMPLATE_ID_def
  ExecutionReportTradeOutright525_TEMPLATE_ID_def ExecutionReportCancel534_TEMPLATE_ID_def
  ExecutionReportModify531_TEMPLATE_ID_def OrderCancelReject535_TEMPLATE_ID_def

lemma ExecutionReportNew522_encode_report:
  "ExecutionReportNew522_wf m \<Longrightarrow> encode_report (ExecutionReportNew522_encode m) ExecutionReportNew522_BLOCK_LENGTH = Some (executionReportNew522.wire m)"
  by (rule encode_report_wire, rule executionReportNew522.encode_wire) simp_all

lemma buildExecutionReportNew_reported: "reported (buildExecutionReportNew now e u b) (EvAccepted e) u mk b"
proof -
  obtain m where b: "buildExecutionReportNew now e u b = map_option (Pair (b\<lparr>next_exec_id := next_exec_id b + 1\<rparr>))
      (encode_report (ExecutionReportNew522_encode m) ExecutionReportNew522_BLOCK_LENGTH)"
    and wf: "ExecutionReportNew522_wf m"
    and m: "\<And>bs. decodeTemplateId bs 0 = Some ExecutionReportNew522_TEMPLATE_ID \<Longrightarrow> ExecutionReportNew522_decode bs 0 = Some m \<Longrightarrow>
      read_report bs = report_of (EvAccepted e) u mk (to_string (unat (next_exec_id b)))"
    by (rule that, subst buildExecutionReportNew_def, simp only: generateExecId_def Let_def prod.case)
      (cases mk, auto simp: ExecutionReportNew522_wf_def ExecutionReportNew522_default_def read_report_def
        report_of_def read_report_ids exec_id_fits cl_ord_id_wire)
  show ?thesis
    unfolding reported_def b ExecutionReportNew522_encode_report [OF wf] using m executionReportNew522.decode_wire [OF wf] by simp
qed

lemma ExecutionReportReject523_encode_report:
  "ExecutionReportReject523_wf m \<Longrightarrow> encode_report (ExecutionReportReject523_encode m) ExecutionReportReject523_BLOCK_LENGTH = Some (executionReportReject523.wire m)"
  by (rule encode_report_wire, rule executionReportReject523.encode_wire) simp_all

lemma buildExecutionReportReject_reported: "reported (buildExecutionReportReject now e u b) (EvRejected e) u mk b"
proof -
  obtain m where b: "buildExecutionReportReject now e u b = map_option (Pair (b\<lparr>next_exec_id := next_exec_id b + 1\<rparr>))
      (encode_report (ExecutionReportReject523_encode m) ExecutionReportReject523_BLOCK_LENGTH)"
    and wf: "ExecutionReportReject523_wf m"
    and m: "\<And>bs. decodeTemplateId bs 0 = Some ExecutionReportReject523_TEMPLATE_ID \<Longrightarrow> ExecutionReportReject523_decode bs 0 = Some m \<Longrightarrow>
      read_report bs = report_of (EvRejected e) u mk (to_string (unat (next_exec_id b)))"
    by (rule that, subst buildExecutionReportReject_def, simp only: generateExecId_def Let_def prod.case)
      (cases mk, auto simp: ExecutionReportReject523_wf_def ExecutionReportReject523_default_def read_report_def
        report_of_def read_report_ids exec_id_fits cl_ord_id_wire)
  show ?thesis
    unfolding reported_def b ExecutionReportReject523_encode_report [OF wf] using m executionReportReject523.decode_wire [OF wf] by simp
qed

lemma ExecutionReportCancel534_encode_report:
  "ExecutionReportCancel534_wf m \<Longrightarrow> encode_report (ExecutionReportCancel534_encode m) ExecutionReportCancel534_BLOCK_LENGTH = Some (executionReportCancel534.wire m)"
  by (rule encode_report_wire, rule executionReportCancel534.encode_wire) simp_all

lemma buildExecutionReportCancel_reported: "reported (buildExecutionReportCancel now e u b) (EvCancelled e) u mk b"
proof -
  obtain m where b: "buildExecutionReportCancel now e u b = map_option (Pair (b\<lparr>next_exec_id := next_exec_id b + 1\<rparr>))
      (encode_report (ExecutionReportCancel534_encode m) ExecutionReportCancel534_BLOCK_LENGTH)"
    and wf: "ExecutionReportCancel534_wf m"
    and m: "\<And>bs. decodeTemplateId bs 0 = Some ExecutionReportCancel534_TEMPLATE_ID \<Longrightarrow> ExecutionReportCancel534_decode bs 0 = Some m \<Longrightarrow>
      read_report bs = report_of (EvCancelled e) u mk (to_string (unat (next_exec_id b)))"
    by (rule that, subst buildExecutionReportCancel_def, simp only: generateExecId_def Let_def prod.case)
      (cases mk, auto simp: ExecutionReportCancel534_wf_def ExecutionReportCancel534_default_def read_report_def
        report_of_def read_report_ids exec_id_fits cl_ord_id_wire)
  show ?thesis
    unfolding reported_def b ExecutionReportCancel534_encode_report [OF wf] using m executionReportCancel534.decode_wire [OF wf] by simp
qed

lemma ExecutionReportModify531_encode_report:
  "ExecutionReportModify531_wf m \<Longrightarrow> encode_report (ExecutionReportModify531_encode m) ExecutionReportModify531_BLOCK_LENGTH = Some (executionReportModify531.wire m)"
  by (rule encode_report_wire, rule executionReportModify531.encode_wire) simp_all

lemma buildExecutionReportModify_reported: "reported (buildExecutionReportModify now e u b) (EvModified e) u mk b"
proof -
  obtain m where b: "buildExecutionReportModify now e u b = map_option (Pair (b\<lparr>next_exec_id := next_exec_id b + 1\<rparr>))
      (encode_report (ExecutionReportModify531_encode m) ExecutionReportModify531_BLOCK_LENGTH)"
    and wf: "ExecutionReportModify531_wf m"
    and m: "\<And>bs. decodeTemplateId bs 0 = Some ExecutionReportModify531_TEMPLATE_ID \<Longrightarrow> ExecutionReportModify531_decode bs 0 = Some m \<Longrightarrow>
      read_report bs = report_of (EvModified e) u mk (to_string (unat (next_exec_id b)))"
    by (rule that, subst buildExecutionReportModify_def, simp only: generateExecId_def Let_def prod.case)
      (cases mk, auto simp: ExecutionReportModify531_wf_def ExecutionReportModify531_default_def read_report_def
        report_of_def read_report_ids exec_id_fits cl_ord_id_wire)
  show ?thesis
    unfolding reported_def b ExecutionReportModify531_encode_report [OF wf] using m executionReportModify531.decode_wire [OF wf] by simp
qed

lemma OrderCancelReject535_encode_report:
  "OrderCancelReject535_wf m \<Longrightarrow> encode_report (OrderCancelReject535_encode m) OrderCancelReject535_BLOCK_LENGTH = Some (orderCancelReject535.wire m)"
  by (rule encode_report_wire, rule orderCancelReject535.encode_wire) simp_all

lemma buildOrderCancelReject_reported: "reported (buildOrderCancelReject now e u b) (EvCancelRejected e) u mk b"
proof -
  obtain m where b: "buildOrderCancelReject now e u b = map_option (Pair (b\<lparr>next_exec_id := next_exec_id b + 1\<rparr>))
      (encode_report (OrderCancelReject535_encode m) OrderCancelReject535_BLOCK_LENGTH)"
    and wf: "OrderCancelReject535_wf m"
    and m: "\<And>bs. decodeTemplateId bs 0 = Some OrderCancelReject535_TEMPLATE_ID \<Longrightarrow> OrderCancelReject535_decode bs 0 = Some m \<Longrightarrow>
      read_report bs = report_of (EvCancelRejected e) u mk (to_string (unat (next_exec_id b)))"
    by (rule that, subst buildOrderCancelReject_def, simp only: generateExecId_def Let_def prod.case)
      (cases mk, auto simp: OrderCancelReject535_wf_def OrderCancelReject535_default_def read_report_def
        report_of_def read_report_ids exec_id_fits cl_ord_id_wire)
  show ?thesis
    unfolding reported_def b OrderCancelReject535_encode_report [OF wf] using m orderCancelReject535.decode_wire [OF wf] by simp
qed

lemma ExecutionReportTradeOutright525_encode_report:
  "ExecutionReportTradeOutright525_wf m \<Longrightarrow> encode_report (ExecutionReportTradeOutright525_encode m) ExecutionReportTradeOutright525_BLOCK_LENGTH = Some (executionReportTradeOutright525.wire m)"
  by (rule encode_report_wire, rule executionReportTradeOutright525.encode_wire) simp_all

lemma buildExecutionReportFill_reported: "reported (buildExecutionReportFill now e u mk b) (EvFilled e) u mk b"
proof -
  obtain m where b: "buildExecutionReportFill now e u mk b = map_option (Pair (b\<lparr>next_exec_id := next_exec_id b + 1\<rparr>))
      (encode_report (ExecutionReportTradeOutright525_encode m) ExecutionReportTradeOutright525_BLOCK_LENGTH)"
    and wf: "ExecutionReportTradeOutright525_wf m"
    and m: "\<And>bs. decodeTemplateId bs 0 = Some ExecutionReportTradeOutright525_TEMPLATE_ID \<Longrightarrow> ExecutionReportTradeOutright525_decode bs 0 = Some m \<Longrightarrow>
      read_report bs = report_of (EvFilled e) u mk (to_string (unat (next_exec_id b)))"
    by (rule that, subst buildExecutionReportFill_def, simp only: generateExecId_def Let_def prod.case)
      (cases mk, auto simp: ExecutionReportTradeOutright525_wf_def ExecutionReportTradeOutright525_default_def read_report_def
        report_of_def read_report_ids exec_id_fits cl_ord_id_wire)
  show ?thesis
    unfolding reported_def b ExecutionReportTradeOutright525_encode_report [OF wf] using m executionReportTradeOutright525.decode_wire [OF wf] by simp
qed

text \<open>
  Execution reports are faithful: for every engine event except a book update, the gateway's builder
  succeeds, uses the next execution id, and a client that decodes the message reads exactly the event:
  template, session UUID, execution id, client order id (cut to the 20-byte field), order id, quantity,
  price, cumulative and remaining quantity of its own side, and reject reason, each as the wire's
  integer type holds it.  A book update gives no message and uses no id.
\<close>

theorem reports_read_back:
  "case ev of
     EvBook u' \<Rightarrow> buildFromEvent now ev u b = Some (b, [])
   | _ \<Rightarrow> \<exists>bs. buildFromEvent now ev u b = Some (b\<lparr>next_exec_id := next_exec_id b + 1\<rparr>, bs) \<and>
       read_report bs = report_of ev u (case ev of EvFilled e \<Rightarrow> maker_session_uuid e = u | _ \<Rightarrow> False)
         (to_string (unat (next_exec_id b)))"
proof (cases ev)
  case (EvAccepted e)
  with buildExecutionReportNew_reported [of now e u b False] show ?thesis by (simp add: buildFromEvent_def reported_def)
next
  case (EvRejected e)
  with buildExecutionReportReject_reported [of now e u b False] show ?thesis by (simp add: buildFromEvent_def reported_def)
next
  case (EvFilled e)
  with buildExecutionReportFill_reported [of now e u "maker_session_uuid e = u" b]
  show ?thesis by (simp add: buildFromEvent_def reported_def)
next
  case (EvCancelled e)
  with buildExecutionReportCancel_reported [of now e u b False] show ?thesis by (simp add: buildFromEvent_def reported_def)
next
  case (EvModified e)
  with buildExecutionReportModify_reported [of now e u b False] show ?thesis by (simp add: buildFromEvent_def reported_def)
next
  case (EvCancelRejected e)
  with buildOrderCancelReject_reported [of now e u b False] show ?thesis by (simp add: buildFromEvent_def reported_def)
qed (simp add: buildFromEvent_def)

end
