(* ===== verification/Pre_Trade.thy ===== *)
theory Pre_Trade
  imports Instruments Exec_Report_Builder
begin

text \<open>
  The checks before an order reaches the engine: \<^verbatim>\<open>src/gateway/message_validator.cpp\<close> and
  \<^verbatim>\<open>risk_manager.cpp\<close>.  A dereferenced null instrument would be \<open>None\<close>; it does not occur.
\<close>

section \<open>Message validation\<close>

record ValidationResult =
  vr_valid :: bool
  vr_reason :: string
  vr_reject_reason :: "16 word"

definition vr_ok :: ValidationResult where
  "vr_ok = \<lparr>vr_valid = True, vr_reason = '''', vr_reject_reason = 0\<rparr>"

definition vr_reject :: "string \<Rightarrow> 16 word \<Rightarrow> ValidationResult" where
  "vr_reject reason code = \<lparr>vr_valid = False, vr_reason = reason, vr_reject_reason = code\<rparr>"

definition isValidInstrument :: "InstrumentManager \<Rightarrow> SecurityId \<Rightarrow> bool" where
  "isValidInstrument im i \<longleftrightarrow> findBySecurityId i im \<noteq> None"

definition isValidPrice :: "InstrumentManager \<Rightarrow> SecurityId \<Rightarrow> Price \<Rightarrow> bool" where
  "isValidPrice im i p = (case findBySecurityId i im of None \<Rightarrow> False | Some instr \<Rightarrow> isValidTick instr p)"

definition isValidQuantity :: "InstrumentManager \<Rightarrow> SecurityId \<Rightarrow> Quantity \<Rightarrow> bool" where
  "isValidQuantity im i qty =
     (if qty \<le> 0 then False
      else case findBySecurityId i im of
             None \<Rightarrow> False
           | Some instr \<Rightarrow> min_trade_vol instr \<le> qty \<and> qty \<le> max_trade_vol instr)"

fun isValidOrderType :: "OrderType \<Rightarrow> bool" where
  "isValidOrderType (OrderType_other w) = False"
| "isValidOrderType _ = True"

definition isValidTimeInForce :: "TimeInForce \<Rightarrow> OrderType \<Rightarrow> bool" where
  "isValidTimeInForce tif ty =
     (case tif of
        Day \<Rightarrow> True | GTC \<Rightarrow> True | GTD \<Rightarrow> True
      | IOC \<Rightarrow> ty = Limit \<or> ty = Market
      | FOK \<Rightarrow> ty = Limit \<or> ty = Market
      | TimeInForce_other w \<Rightarrow> False)"

definition validateNewOrder :: "InstrumentManager \<Rightarrow> Order \<Rightarrow> ValidationResult" where
  "validateNewOrder im ord =
     (case findBySecurityId (security_id ord) im of
        None \<Rightarrow> vr_reject ''Unknown instrument'' 2
      | Some instr \<Rightarrow>
          if trading_status instr \<noteq> Open \<and> trading_status instr \<noteq> PreOpen
            then vr_reject ''Instrument not available for trading'' 16
          else if \<not> isValidOrderType (order_type ord) then vr_reject ''Unsupported order type'' 11
          else if \<not> isValidTimeInForce (time_in_force ord) (order_type ord)
            then vr_reject ''Invalid TimeInForce for order type'' 11
          else if (order_type ord = Limit \<or> order_type ord = StopLimit) \<and> \<not> isValidPrice im (security_id ord) (Order.price ord)
            then vr_reject ''Price not on valid tick'' 15
          else if \<not> isValidQuantity im (security_id ord) (quantity ord)
            then vr_reject ''Quantity outside allowed range'' 13
          else vr_ok)"

definition validateCancel :: "InstrumentManager \<Rightarrow> OrderId \<Rightarrow> SecurityId \<Rightarrow> ValidationResult" where
  "validateCancel im oid i =
     (if oid = 0 then vr_reject ''OrderId required for cancel'' 99
      else if \<not> isValidInstrument im i then vr_reject ''Unknown instrument'' 2
      else vr_ok)"

definition validateModify :: "InstrumentManager \<Rightarrow> OrderId \<Rightarrow> SecurityId \<Rightarrow> Price \<Rightarrow> Quantity \<Rightarrow> ValidationResult" where
  "validateModify im oid i new_price new_qty =
     (if oid = 0 then vr_reject ''OrderId required for modify'' 99
      else if \<not> isValidInstrument im i then vr_reject ''Unknown instrument'' 2
      else if \<not> Price_isNull new_price \<and> \<not> isValidPrice im i new_price
        then vr_reject ''New price not on valid tick'' 15
      else if new_qty > 0 \<and> \<not> isValidQuantity im i new_qty
        then vr_reject ''New quantity outside allowed range'' 13
      else vr_ok)"

lemma vr_simps [simp]: "vr_valid vr_ok" "\<not> vr_valid (vr_reject r c)" "vr_reject_reason (vr_reject r c) = c"
  by (simp_all add: vr_ok_def vr_reject_def)

text \<open>What a valid order is.\<close>

definition tradable :: "InstrumentManager \<Rightarrow> Order \<Rightarrow> bool" where
  "tradable im ord \<longleftrightarrow> (\<exists>instr. findBySecurityId (security_id ord) im = Some instr \<and>
     trading_status instr \<in> {Open, PreOpen} \<and> order_type ord \<in> {Market, Limit, StopLimit, StopMarket} \<and>
     (time_in_force ord \<in> {Day, GTC, GTD} \<or> time_in_force ord \<in> {IOC, FOK} \<and> order_type ord \<in> {Limit, Market}) \<and>
     (order_type ord \<in> {Limit, StopLimit} \<longrightarrow> isValidTick instr (Order.price ord)) \<and>
     0 < quantity ord \<and> min_trade_vol instr \<le> quantity ord \<and> quantity ord \<le> max_trade_vol instr)"

lemma isValidOrderType_iff: "isValidOrderType ty \<longleftrightarrow> ty \<in> {Market, Limit, StopLimit, StopMarket}"
  by (cases ty) auto

lemma isValidTimeInForce_iff:
  "isValidTimeInForce tif ty \<longleftrightarrow> tif \<in> {Day, GTC, GTD} \<or> tif \<in> {IOC, FOK} \<and> ty \<in> {Limit, Market}"
  by (cases tif) (auto simp: isValidTimeInForce_def)

lemma validateNewOrder_iff: "vr_valid (validateNewOrder im ord) \<longleftrightarrow> tradable im ord"
  by (cases "findBySecurityId (security_id ord) im")
    (auto simp: validateNewOrder_def tradable_def isValidOrderType_iff isValidTimeInForce_iff isValidPrice_def
      isValidQuantity_def)

section \<open>Risk\<close>

record SessionRiskState =
  net_position :: int
  last_order_time :: int
  orders_this_second :: int

definition SessionRiskState_new :: SessionRiskState where
  "SessionRiskState_new = \<lparr>net_position = 0, last_order_time = 0, orders_this_second = 0\<rparr>"

record RiskManager =
  risk_config :: RiskConfig
  session_state :: "uuid_t \<rightharpoonup> SessionRiskState"

definition RiskManager_new :: "RiskConfig \<Rightarrow> RiskManager" where
  "RiskManager_new cfg = \<lparr>risk_config = cfg, session_state = Map.empty\<rparr>"

text \<open>\<^verbatim>\<open>session_state_[uuid]\<close> creates a missing entry.\<close>

definition risk_state :: "uuid_t \<Rightarrow> RiskManager \<Rightarrow> SessionRiskState" where
  "risk_state u r = (case session_state r u of None \<Rightarrow> SessionRiskState_new | Some st \<Rightarrow> st)"

definition put_risk_state :: "uuid_t \<Rightarrow> SessionRiskState \<Rightarrow> RiskManager \<Rightarrow> RiskManager" where
  "put_risk_state u st r = r\<lparr>session_state := (session_state r)(u \<mapsto> st)\<rparr>"

definition checkOrder :: "Order \<Rightarrow> RiskManager \<Rightarrow> bool" where
  "checkOrder ord r = (if quantity ord > max_order_qty (risk_config r) then False else True)"

text \<open>Whole seconds of a duration in nanoseconds, towards zero.\<close>

definition seconds :: "int \<Rightarrow> int" where
  "seconds ns = (if ns < 0 then - ((- ns) div 1000000000) else ns div 1000000000)"

definition checkRate :: "int \<Rightarrow> uuid_t \<Rightarrow> RiskManager \<Rightarrow> RiskManager \<times> bool" where
  "checkRate now u r =
     (let st = risk_state u r; elapsed = seconds (now - last_order_time st)
      in if elapsed \<ge> 1 then (put_risk_state u (st\<lparr>last_order_time := now, orders_this_second := 1\<rparr>) r, True)
         else
           let st = st\<lparr>orders_this_second := orders_this_second st + 1\<rparr>
           in (put_risk_state u st r, \<not> orders_this_second st > max_orders_per_second (risk_config r)))"

definition onFill :: "uuid_t \<Rightarrow> Side \<Rightarrow> Quantity \<Rightarrow> RiskManager \<Rightarrow> RiskManager" where
  "onFill u sd qty r =
     (let st = risk_state u r
      in put_risk_state u (st\<lparr>net_position := (if sd = Buy then net_position st + qty else net_position st - qty)\<rparr>) r)"

subsection \<open>The rate limit\<close>

text \<open>A sequence of rate checks, of any sessions.\<close>

fun rate_run :: "(int \<times> uuid_t) list \<Rightarrow> RiskManager \<Rightarrow> (uuid_t \<times> bool) list" where
  "rate_run [] r = []"
| "rate_run ((now, u) # calls) r = (let (r, ok) = checkRate now u r in (u, ok) # rate_run calls r)"

definition passed :: "uuid_t \<Rightarrow> (uuid_t \<times> bool) list \<Rightarrow> nat" where
  "passed u rs = length (filter (\<lambda>(v, ok). v = u \<and> ok) rs)"

lemma passed_simps [simp]: "passed u [] = 0" "passed u ((v, ok) # rs) = (if v = u \<and> ok then Suc (passed u rs) else passed u rs)"
  by (simp_all add: passed_def)

lemma put_risk_state_sel [simp]:
  "risk_state v (put_risk_state u st r) = (if v = u then st else risk_state v r)"
  "risk_config (put_risk_state u st r) = risk_config r"
  by (simp_all add: risk_state_def put_risk_state_def)

lemma seconds_less: "seconds ns < 1 \<longleftrightarrow> ns < 1000000000"
  by (auto simp: seconds_def)

lemma seconds_ge: "1 \<le> seconds ns \<longleftrightarrow> 1000000000 \<le> ns"
  using seconds_less [of ns] by linarith

text \<open>Within a window the remaining allowance bounds the orders that pass.\<close>

lemma window_passes:
  "\<forall>(x, v)\<in>set calls. v = u \<longrightarrow> x - last_order_time (risk_state u r) < 1000000000 \<Longrightarrow>
     int (passed u (rate_run calls r)) \<le> max 0 (max_orders_per_second (risk_config r) - orders_this_second (risk_state u r))"
proof (induction calls arbitrary: r)
  case (Cons c calls)
  obtain x v where c: "c = (x, v)" by (cases c)
  show ?case
  proof (cases "v = u")
    case True
    have lt: "\<not> 1 \<le> seconds (x - last_order_time (risk_state u r))" using Cons.prems c True by (simp add: seconds_ge)
    let ?st = "(risk_state u r)\<lparr>orders_this_second := orders_this_second (risk_state u r) + 1\<rparr>"
    have "int (passed u (rate_run calls (put_risk_state u ?st r))) \<le>
        max 0 (max_orders_per_second (risk_config r) - (orders_this_second (risk_state u r) + 1))"
      using Cons.IH [of "put_risk_state u ?st r"] Cons.prems by simp
    then show ?thesis using lt True by (auto simp: c checkRate_def Let_def max_def split: if_splits)
  next
    case False
    obtain r' ok where cr: "checkRate x v r = (r', ok)" by (cases "checkRate x v r")
    then have "risk_state u r' = risk_state u r" "risk_config r' = risk_config r"
      using False by (auto simp: checkRate_def Let_def split: if_splits)
    then show ?thesis using Cons.IH [of r'] Cons.prems False cr by (simp add: c)
  qed
qed simp

lemma second_passes:
  assumes "sorted (map fst calls)" and "\<forall>(x, v)\<in>set calls. t \<le> x \<and> x < t + 1000000000"
    and "0 \<le> orders_this_second (risk_state u r)" and "1 \<le> max_orders_per_second (risk_config r)"
  shows "int (passed u (rate_run calls r)) \<le> max_orders_per_second (risk_config r) +
    max 0 (max_orders_per_second (risk_config r) - orders_this_second (risk_state u r))"
  using assms
proof (induction calls arbitrary: r)
  case (Cons c calls)
  obtain x v where c: "c = (x, v)" by (cases c)
  obtain r' ok where cr: "checkRate x v r = (r', ok)" by (cases "checkRate x v r")
  show ?case
  proof (cases "v = u")
    case False
    with cr have "risk_state u r' = risk_state u r" "risk_config r' = risk_config r"
      by (auto simp: checkRate_def Let_def split: if_splits)
    then show ?thesis using Cons.IH [of r'] Cons.prems False cr by (simp add: c)
  next
    case v: True
    show ?thesis
    proof (cases "1 \<le> seconds (x - last_order_time (risk_state u r))")
      case True
      then have r': "ok" "risk_config r' = risk_config r" "risk_state u r' =
          (risk_state u r)\<lparr>last_order_time := x, orders_this_second := 1\<rparr>"
        using cr v by (auto simp: checkRate_def Let_def)
      have "int (passed u (rate_run calls r')) \<le> max 0 (max_orders_per_second (risk_config r) - 1)"
        using window_passes [of calls u r'] Cons.prems(1,2) r' c by force
      then show ?thesis using Cons.prems(4) cr v r' by (simp add: c)
    next
      case False
      then have r': "risk_config r' = risk_config r" "risk_state u r' =
          (risk_state u r)\<lparr>orders_this_second := orders_this_second (risk_state u r) + 1\<rparr>"
        "ok = (\<not> max_orders_per_second (risk_config r) < orders_this_second (risk_state u r) + 1)"
        using cr v by (auto simp: checkRate_def Let_def)
      have "int (passed u (rate_run calls r')) \<le> max_orders_per_second (risk_config r) +
          max 0 (max_orders_per_second (risk_config r) - (orders_this_second (risk_state u r) + 1))"
        using Cons.IH [of r'] Cons.prems r' by simp
      then show ?thesis using cr v r'(3) by (auto simp: c max_def split: if_splits)
    qed
  qed
qed simp

text \<open>
  C35.  The order rate limit: whatever the state of the limiter and whatever other sessions do, in any
  interval of one second at most twice the configured number of orders of a session pass the rate check.
  (The limiter counts fixed windows that open with the first order after a second, so the bound on a
  sliding second is twice the configured one.)
\<close>

theorem rate_limit_sliding_second:
  assumes "sorted (map fst calls)" and "\<forall>(x, v)\<in>set calls. t \<le> x \<and> x < t + 1000000000"
    and "0 \<le> orders_this_second (risk_state u r)" and "1 \<le> max_orders_per_second (risk_config r)"
  shows "int (passed u (rate_run calls r)) \<le> 2 * max_orders_per_second (risk_config r)"
  using second_passes [OF assms] assms(3,4) by linarith

theorem rate_limit_sliding_second_witness:
  "let r = put_risk_state 7 \<lparr>net_position = 0, last_order_time = 0, orders_this_second = 0\<rparr>
             (RiskManager_new (RiskConfig_default\<lparr>max_orders_per_second := 2\<rparr>));
       calls = [(600000000, 7), (600000001, 7), (600000002, 7), (1000000000, 7), (1000000001, 7), (1000000002, 7)]
   in passed 7 (rate_run calls r) = 4 \<and> int (passed 7 (rate_run calls r)) \<le> 2 * max_orders_per_second (risk_config r)"
proof -
  let ?r = "put_risk_state 7 \<lparr>net_position = 0, last_order_time = 0, orders_this_second = 0\<rparr>
             (RiskManager_new (RiskConfig_default\<lparr>max_orders_per_second := 2\<rparr>))"
  let ?calls = "[(600000000, 7), (600000001, 7), (600000002, 7), (1000000000, 7), (1000000001, 7), (1000000002, 7)]"
  have "passed 7 (rate_run ?calls ?r) = 4"
    by (simp add: checkRate_def seconds_def RiskManager_new_def RiskConfig_default_def Let_def)
  moreover have "int (passed 7 (rate_run ?calls ?r)) \<le> 2 * max_orders_per_second (risk_config ?r)"
    by (rule rate_limit_sliding_second [where t = 600000000]) (simp_all add: RiskManager_new_def)
  ultimately show ?thesis by (simp add: Let_def)
qed

subsection \<open>Positions\<close>

definition total_position :: "RiskManager \<Rightarrow> int" where
  "total_position r = (\<Sum>u\<in>dom (session_state r). net_position (risk_state u r))"

lemma total_put:
  assumes "finite (dom (session_state r))"
  shows "total_position (put_risk_state u st r) = total_position r - net_position (risk_state u r) + net_position st"
proof -
  let ?D = "dom (session_state r)"
  have d: "dom (session_state (put_risk_state u st r)) = insert u ?D" by (simp add: put_risk_state_def)
  have "(\<Sum>v\<in>?D - {u}. net_position (risk_state v (put_risk_state u st r))) = (\<Sum>v\<in>?D - {u}. net_position (risk_state v r))"
    by (rule sum.cong) auto
  then have "total_position (put_risk_state u st r) = net_position st + (\<Sum>v\<in>?D - {u}. net_position (risk_state v r))"
    using assms by (simp add: total_position_def d sum.insert_remove)
  moreover have "total_position r = net_position (risk_state u r) + (\<Sum>v\<in>?D - {u}. net_position (risk_state v r))"
  proof (cases "u \<in> ?D")
    case True
    then show ?thesis using assms by (simp add: total_position_def sum.remove)
  next
    case False
    then have "risk_state u r = SessionRiskState_new" by (simp add: risk_state_def domIff)
    then show ?thesis using False by (simp add: total_position_def SessionRiskState_new_def)
  qed
  ultimately show ?thesis by simp
qed

lemma total_onFill:
  "finite (dom (session_state r)) \<Longrightarrow> total_position (onFill u sd q r) = total_position r + (if sd = Buy then q else - q)"
  by (simp add: onFill_def total_put Let_def)

lemma finite_onFill: "finite (dom (session_state r)) \<Longrightarrow> finite (dom (session_state (onFill u sd q r)))"
  by (simp add: onFill_def put_risk_state_def Let_def)

lemma finite_checkRate: "finite (dom (session_state r)) \<Longrightarrow> finite (dom (session_state (fst (checkRate now u r))))"
  by (simp add: checkRate_def put_risk_state_def Let_def)

lemma total_checkRate: "finite (dom (session_state r)) \<Longrightarrow> total_position (fst (checkRate now u r)) = total_position r"
  by (simp add: checkRate_def total_put Let_def)

end
