(* ===== verification/Price_Level.thy ===== *)
theory Price_Level
  imports Engine_Types
begin

text \<open>
  \<^verbatim>\<open>src/engine/price_level.h\<close>.  A \<open>PriceLevel\<close> threads its orders on an intrusive doubly linked
  list: the links are fields of the orders in the heap, the level holds the first and the last
  pointer.  \<open>Level\<close> is the abstract level, which keeps the queue of pointers itself; the order book
  is modelled over it.  The refinement section proves that the linked list implements the queue:
  adding appends, removing deletes from any position, the walk visits the queue in order, and only
  the links of the level's own orders change.  Both are instances of the interface locale
  \<open>fifo_level\<close>.
\<close>

record LevelTotals =
  level_price :: Price
  total_quantity :: Quantity
  order_count :: int

section \<open>The intrusive list\<close>

record PriceLevel = LevelTotals +
  level_head :: "OrderPtr option"
  level_tail :: "OrderPtr option"

definition PriceLevel_new :: PriceLevel where
  "PriceLevel_new = \<lparr>level_price = Price 0, total_quantity = 0, order_count = 0,
     level_head = None, level_tail = None\<rparr>"

definition PriceLevel_addOrder :: "heap \<Rightarrow> OrderPtr \<Rightarrow> PriceLevel \<Rightarrow> heap \<times> PriceLevel" where
  "PriceLevel_addOrder h p l =
     (let h = h(p := (h p)\<lparr>prev_in_level := level_tail l, next_in_level := None\<rparr>);
          (h, l) = (case level_tail l of
                      Some t \<Rightarrow> (h(t := (h t)\<lparr>next_in_level := Some p\<rparr>), l)
                    | None \<Rightarrow> (h, l\<lparr>level_head := Some p\<rparr>));
          l = l\<lparr>level_tail := Some p\<rparr>
      in (h, l\<lparr>total_quantity := total_quantity l + remainingQty (h p),
               order_count := order_count l + 1\<rparr>))"

definition PriceLevel_removeOrder :: "heap \<Rightarrow> OrderPtr \<Rightarrow> PriceLevel \<Rightarrow> heap \<times> PriceLevel" where
  "PriceLevel_removeOrder h p l =
     (let (h, l) = (case prev_in_level (h p) of
                      Some a \<Rightarrow> (h(a := (h a)\<lparr>next_in_level := next_in_level (h p)\<rparr>), l)
                    | None \<Rightarrow> (h, l\<lparr>level_head := next_in_level (h p)\<rparr>));
          (h, l) = (case next_in_level (h p) of
                      Some b \<Rightarrow> (h(b := (h b)\<lparr>prev_in_level := prev_in_level (h p)\<rparr>), l)
                    | None \<Rightarrow> (h, l\<lparr>level_tail := prev_in_level (h p)\<rparr>));
          l = l\<lparr>total_quantity := total_quantity l - remainingQty (h p),
                order_count := order_count l - 1\<rparr>
      in (h(p := (h p)\<lparr>prev_in_level := None, next_in_level := None\<rparr>), l))"

definition PriceLevel_front :: "PriceLevel \<Rightarrow> OrderPtr option" where
  "PriceLevel_front l = level_head l"

definition PriceLevel_empty :: "PriceLevel \<Rightarrow> bool" where
  "PriceLevel_empty l \<longleftrightarrow> level_head l = None"

text \<open>
  \<^verbatim>\<open>begin()\<close> to \<^verbatim>\<open>end()\<close>: the iterator follows \<^verbatim>\<open>next_in_level\<close> until null.  The first argument
  bounds the number of steps; \<open>walk_queue\<close> below shows that the number of orders is enough.
\<close>

fun walk :: "nat \<Rightarrow> heap \<Rightarrow> OrderPtr option \<Rightarrow> OrderPtr list" where
  "walk n h None = []"
| "walk 0 h (Some p) = []"
| "walk (Suc n) h (Some p) = p # walk n h (next_in_level (h p))"

section \<open>The queue\<close>

record Level = LevelTotals +
  queue :: "OrderPtr list"

definition level_new :: Level where
  "level_new = \<lparr>level_price = Price 0, total_quantity = 0, order_count = 0, queue = []\<rparr>"

definition level_addOrder :: "heap \<Rightarrow> OrderPtr \<Rightarrow> Level \<Rightarrow> Level" where
  "level_addOrder h p l =
     l\<lparr>queue := queue l @ [p],
       total_quantity := total_quantity l + remainingQty (h p),
       order_count := order_count l + 1\<rparr>"

definition level_removeOrder :: "heap \<Rightarrow> OrderPtr \<Rightarrow> Level \<Rightarrow> Level" where
  "level_removeOrder h p l =
     l\<lparr>queue := remove1 p (queue l),
       total_quantity := total_quantity l - remainingQty (h p),
       order_count := order_count l - 1\<rparr>"

definition first_of :: "'a list \<Rightarrow> 'a option" where
  "first_of xs = (case xs of [] \<Rightarrow> None | x # _ \<Rightarrow> Some x)"

definition last_of :: "'a list \<Rightarrow> 'a option" where
  "last_of xs = (if xs = [] then None else Some (last xs))"

definition level_front :: "Level \<Rightarrow> OrderPtr option" where
  "level_front l = first_of (queue l)"

definition level_empty :: "Level \<Rightarrow> bool" where
  "level_empty l \<longleftrightarrow> queue l = []"

lemma first_of_simps [simp]:
  "first_of [] = None" "first_of (x # xs) = Some x" "first_of xs = None \<longleftrightarrow> xs = []"
  by (simp_all add: first_of_def split: list.splits)

lemma last_of_simps [simp]:
  "last_of [] = None" "last_of (xs @ [x]) = Some x" "last_of xs = None \<longleftrightarrow> xs = []"
  by (simp_all add: last_of_def)

lemma first_of_append: "first_of (xs @ ys) = (if xs = [] then first_of ys else first_of xs)"
  by (cases xs) simp_all

lemma last_of_Cons [simp]: "last_of (x # xs) = (if xs = [] then Some x else last_of xs)"
  by (simp add: last_of_def)

lemma first_of_eq_Some: "first_of xs = Some x \<longleftrightarrow> (\<exists>ys. xs = x # ys)"
  by (cases xs) auto

lemma level_ops_simps [simp, level_defs]:
  "queue (level_addOrder h p l) = queue l @ [p]"
  "total_quantity (level_addOrder h p l) = total_quantity l + remainingQty (h p)"
  "order_count (level_addOrder h p l) = order_count l + 1"
  "level_price (level_addOrder h p l) = level_price l"
  "queue (level_removeOrder h p l) = remove1 p (queue l)"
  "total_quantity (level_removeOrder h p l) = total_quantity l - remainingQty (h p)"
  "order_count (level_removeOrder h p l) = order_count l - 1"
  "level_price (level_removeOrder h p l) = level_price l"
  "queue level_new = []" "total_quantity level_new = 0" "order_count level_new = 0"
  by (simp_all add: level_addOrder_def level_removeOrder_def level_new_def)

section \<open>The intrusive list implements the queue\<close>

text \<open>
  \<open>chain h a ps z\<close>: the orders \<open>ps\<close> are linked in this order, the first one's predecessor is \<open>a\<close>
  and the last one's successor is \<open>z\<close>.
\<close>

fun chain :: "heap \<Rightarrow> OrderPtr option \<Rightarrow> OrderPtr list \<Rightarrow> OrderPtr option \<Rightarrow> bool" where
  "chain h a [] z = True"
| "chain h a (p # ps) z \<longleftrightarrow> prev_in_level (h p) = a \<and>
     next_in_level (h p) = (if ps = [] then z else first_of ps) \<and> chain h (Some p) ps z"

definition implements :: "heap \<Rightarrow> PriceLevel \<Rightarrow> Level \<Rightarrow> bool" where
  "implements h L l \<longleftrightarrow>
     LevelTotals.truncate L = LevelTotals.truncate l \<and>
     level_head L = first_of (queue l) \<and> level_tail L = last_of (queue l) \<and>
     chain h None (queue l) None \<and> distinct (queue l)"

text \<open>Two orders that differ in their links only.\<close>

definition same_order :: "Order \<Rightarrow> Order \<Rightarrow> bool" where
  "same_order x y \<longleftrightarrow>
     x\<lparr>prev_in_level := None, next_in_level := None\<rparr> = y\<lparr>prev_in_level := None, next_in_level := None\<rparr>"

lemma same_order_refl [simp]: "same_order x x"
  by (simp add: same_order_def)

lemma same_order_links [simp]:
  "same_order (x\<lparr>next_in_level := a\<rparr>) y \<longleftrightarrow> same_order x y"
  "same_order (x\<lparr>prev_in_level := a\<rparr>) y \<longleftrightarrow> same_order x y"
  by (simp_all add: same_order_def)

lemma same_order_remaining: "same_order x y \<Longrightarrow> remainingQty x = remainingQty y"
  unfolding same_order_def remainingQty_def
  by (metis Order.select_convs(10,11) Order.surjective Order.update_convs(17,18))

lemma chain_append:
  "chain h a (xs @ ys) z \<longleftrightarrow>
     chain h a xs (if ys = [] then z else first_of ys) \<and>
     chain h (if xs = [] then a else last_of xs) ys z"
  by (induction xs arbitrary: a) (auto simp: last_of_def first_of_def split: list.splits)

lemma chain_cong:
  "(\<And>p. p \<in> set ps \<Longrightarrow> prev_in_level (h p) = prev_in_level (h' p) \<and>
       next_in_level (h p) = next_in_level (h' p)) \<Longrightarrow> chain h a ps z = chain h' a ps z"
  by (induction ps arbitrary: a) auto

lemma chain_fun_upd_notin: "p \<notin> set ps \<Longrightarrow> chain (h(p := x)) a ps z = chain h a ps z"
  by (rule chain_cong) auto

lemma chain_set_next:
  assumes "chain h a xs z" and "distinct xs" and "xs \<noteq> []"
  shows "chain (h(last xs := (h (last xs))\<lparr>next_in_level := z'\<rparr>)) a xs z'"
proof -
  obtain ys y where xs: "xs = ys @ [y]" using assms(3) by (cases xs rule: rev_cases) auto
  with assms show ?thesis by (auto simp: chain_append chain_fun_upd_notin)
qed

lemma chain_set_prev:
  assumes "chain h a (y # ys) z" and "distinct (y # ys)"
  shows "chain (h(y := (h y)\<lparr>prev_in_level := a'\<rparr>)) a' (y # ys) z"
  using assms by (auto simp: chain_fun_upd_notin)

text \<open>What a level operation leaves alone: other orders, and everything but the links.\<close>

definition links_only :: "OrderPtr set \<Rightarrow> heap \<Rightarrow> heap \<Rightarrow> bool" where
  "links_only S h h' \<longleftrightarrow> (\<forall>q. same_order (h' q) (h q)) \<and> (\<forall>q. q \<notin> S \<longrightarrow> h' q = h q)"

lemma links_onlyD:
  "links_only S h h' \<Longrightarrow> remainingQty (h' q) = remainingQty (h q)"
  "links_only S h h' \<Longrightarrow> q \<notin> S \<Longrightarrow> h' q = h q"
  by (auto simp: links_only_def dest: same_order_remaining)

lemma truncate_Level:
  "LevelTotals.truncate (l :: Level) =
     \<lparr>level_price = level_price l, total_quantity = total_quantity l, order_count = order_count l\<rparr>"
  "LevelTotals.truncate (L :: PriceLevel) =
     \<lparr>level_price = level_price L, total_quantity = total_quantity L, order_count = order_count L\<rparr>"
  by (simp_all add: LevelTotals.defs)

lemma same_order_trans: "same_order x y \<Longrightarrow> same_order y z \<Longrightarrow> same_order x z"
  by (simp add: same_order_def)

lemma links_only_refl [simp]: "links_only S h h"
  by (simp add: links_only_def)

lemma links_only_upd:
  "links_only S h h' \<Longrightarrow> p \<in> S \<Longrightarrow> same_order x (h' p) \<Longrightarrow> links_only S h (h'(p := x))"
  unfolding links_only_def by (metis fun_upd_apply same_order_trans)

lemma addOrder_links_only:
  assumes "PriceLevel_addOrder h p L = (h', L')" and "level_tail L = last_of (queue l)"
  shows "links_only (insert p (set (queue l))) h h'"
proof (cases "queue l = []")
  case True
  with assms show ?thesis
    by (auto simp: PriceLevel_addOrder_def Let_def intro!: links_only_upd)
next
  case False
  with assms have "h' = (h(p := (h p)\<lparr>prev_in_level := level_tail L, next_in_level := None\<rparr>))
      (last (queue l) := ((h(p := (h p)\<lparr>prev_in_level := level_tail L, next_in_level := None\<rparr>))
         (last (queue l)))\<lparr>next_in_level := Some p\<rparr>)"
    by (simp add: PriceLevel_addOrder_def Let_def last_of_def del: fun_upd_apply)
  with False show ?thesis by (auto intro!: links_only_upd simp del: fun_upd_apply)
qed

lemma addOrder_implements:
  assumes imp: "implements h L l" and new: "p \<notin> set (queue l)"
    and add: "PriceLevel_addOrder h p L = (h', L')"
  shows "implements h' L' (level_addOrder h p l)"
proof (cases "queue l = []")
  case True
  with imp add show ?thesis
    by (auto simp: implements_def PriceLevel_addOrder_def truncate_Level Let_def)
next
  case False
  then have tl: "level_tail L = Some (last (queue l))"
    using imp by (simp add: implements_def last_of_def)
  let ?h1 = "h(p := (h p)\<lparr>prev_in_level := level_tail L, next_in_level := None\<rparr>)"
  let ?t = "last (queue l)"
  have "?t \<noteq> p" using False new by auto
  have "chain ?h1 None (queue l) None"
    using imp new by (simp add: implements_def chain_fun_upd_notin)
  then have "chain (?h1(?t := (?h1 ?t)\<lparr>next_in_level := Some p\<rparr>)) None (queue l) (Some p)"
    using imp False by (intro chain_set_next) (auto simp: implements_def)
  with False imp new add tl \<open>?t \<noteq> p\<close> show ?thesis
    by (auto simp: implements_def PriceLevel_addOrder_def truncate_Level Let_def chain_append
        last_of_def first_of_def split: list.splits)
qed

text \<open>Removing: the queue splits at the order, and its neighbours are joined.\<close>

lemma removeOrder_implements:
  assumes imp: "implements h L l" and mem: "p \<in> set (queue l)"
    and rem: "PriceLevel_removeOrder h p L = (h', L')"
  shows "implements h' L' (level_removeOrder h p l)" and "links_only (set (queue l)) h h'"
proof -
  obtain xs ys where q: "queue l = xs @ p # ys" using mem by (meson split_list)
  have d: "distinct (xs @ p # ys)" and c: "chain h None (xs @ p # ys) None"
    using imp q by (auto simp: implements_def)
  have r1: "remove1 p (queue l) = xs @ ys" using q d by (simp add: remove1_append)
  have pv: "prev_in_level (h p) = last_of xs" and nx: "next_in_level (h p) = first_of ys"
    using c by (auto simp: chain_append split: if_splits)
  have cx: "chain h None xs (Some p)" and cy: "chain h (Some p) ys None"
    using c by (auto simp: chain_append)
  have hd: "level_head L = first_of (xs @ [p])" and tl: "level_tail L = last_of (p # ys)"
    using imp q by (auto simp: implements_def first_of_append last_of_def)
  define h1 where "h1 = (if xs = [] then h else h(last xs := (h (last xs))\<lparr>next_in_level := first_of ys\<rparr>))"
  define h2 where "h2 = (if ys = [] then h1 else h1(hd ys := (h1 (hd ys))\<lparr>prev_in_level := last_of xs\<rparr>))"
  have px: "p \<noteq> last xs" if "xs \<noteq> []" using d last_in_set [OF that] by auto
  have lx: "last xs \<notin> set ys" if "xs \<noteq> []" using d last_in_set [OF that] by auto
  have py: "p \<noteq> hd ys" if "ys \<noteq> []" using d list.set_sel(1) [OF that] by auto
  have np1: "h1 p = h p"
  proof (cases "xs = []")
    case False
    then show ?thesis using px [OF False] by (simp add: h1_def)
  qed (simp add: h1_def)
  have np2: "h2 p = h p"
  proof (cases "ys = []")
    case False
    then show ?thesis using py [OF False] np1 by (simp add: h2_def)
  qed (simp add: h2_def np1)
  note np = np1 np2
  have "chain h1 None xs (first_of ys)"
    using cx d by (auto simp: h1_def intro: chain_set_next)
  moreover have cy1: "chain h1 (Some p) ys None"
    using cy d lx by (cases "xs = []") (simp_all add: h1_def chain_fun_upd_notin)
  ultimately have c2: "chain h2 None xs (first_of ys)"
    using d by (cases ys) (auto simp: h2_def chain_fun_upd_notin)
  have cy2: "chain h2 (last_of xs) ys None"
    using cy1 d by (cases ys) (auto simp: h2_def chain_fun_upd_notin)
  have e1: "(case prev_in_level (h p) of
        Some a \<Rightarrow> (h(a := (h a)\<lparr>next_in_level := next_in_level (h p)\<rparr>), L)
      | None \<Rightarrow> (h, L\<lparr>level_head := next_in_level (h p)\<rparr>)) =
      (h1, if xs = [] then L\<lparr>level_head := first_of ys\<rparr> else L)"
    by (simp add: pv nx h1_def last_of_def)
  have e2: "(case next_in_level (h1 p) of
        Some b \<Rightarrow> (h1(b := (h1 b)\<lparr>prev_in_level := prev_in_level (h1 p)\<rparr>), L1)
      | None \<Rightarrow> (h1, L1\<lparr>level_tail := prev_in_level (h1 p)\<rparr>)) =
      (h2, if ys = [] then L1\<lparr>level_tail := last_of xs\<rparr> else L1)" for L1
    by (cases ys) (simp_all add: pv nx np h2_def)
  have h': "h' = h2(p := (h p)\<lparr>prev_in_level := None, next_in_level := None\<rparr>)"
    using rem unfolding PriceLevel_removeOrder_def Let_def e1 prod.case e2
    by (simp add: np)
  have "chain h' None (xs @ ys) None"
    using c2 cy2 d by (auto simp: h' chain_append chain_fun_upd_notin last_of_def)
  moreover have "level_head L' = first_of (xs @ ys)" "level_tail L' = last_of (xs @ ys)"
    "LevelTotals.truncate L' = LevelTotals.truncate (level_removeOrder h p l)"
    using rem hd tl imp unfolding PriceLevel_removeOrder_def Let_def e1 prod.case e2
    by (auto simp: np implements_def truncate_Level first_of_append last_of_def)
  ultimately show "implements h' L' (level_removeOrder h p l)"
    using d r1 by (auto simp: implements_def)
  have "links_only (set (queue l)) h h1"
    using q by (auto simp: h1_def intro!: links_only_upd)
  then have "links_only (set (queue l)) h h2"
    using q by (auto simp: h2_def intro!: links_only_upd)
  then show "links_only (set (queue l)) h h'"
    using q by (auto simp: h' np2 intro!: links_only_upd)
qed

lemma front_implements: "implements h L l \<Longrightarrow> PriceLevel_front L = level_front l"
  by (simp add: implements_def PriceLevel_front_def level_front_def)

lemma empty_implements: "implements h L l \<Longrightarrow> PriceLevel_empty L = level_empty l"
  by (simp add: implements_def PriceLevel_empty_def level_empty_def)

lemma walk_chain: "chain h a ps None \<Longrightarrow> length ps \<le> n \<Longrightarrow> walk n h (first_of ps) = ps"
proof (induction ps arbitrary: a n)
  case (Cons p ps)
  then show ?case by (cases n) (auto simp: first_of_def split: list.splits)
qed simp

lemma walk_queue: "implements h L l \<Longrightarrow> walk (length (queue l)) h (level_head L) = queue l"
  by (auto simp: implements_def intro: walk_chain)

section \<open>The interface of a price level\<close>

text \<open>
  What the order book relies on: an abstraction to the list of waiting orders under which adding
  appends, removing deletes and the front is the longest waiting order.  The client lemma: a level
  that is filled with orders and then served from the front serves them in arrival order.
\<close>

locale fifo_level =
  fixes add :: "heap \<Rightarrow> OrderPtr \<Rightarrow> 'l \<Rightarrow> heap \<times> 'l"
    and remove :: "heap \<Rightarrow> OrderPtr \<Rightarrow> 'l \<Rightarrow> heap \<times> 'l"
    and front :: "'l \<Rightarrow> OrderPtr option"
    and waiting :: "heap \<Rightarrow> 'l \<Rightarrow> OrderPtr list \<Rightarrow> bool"
  assumes waiting_distinct: "waiting h l ps \<Longrightarrow> distinct ps"
    and front: "waiting h l ps \<Longrightarrow> front l = first_of ps"
    and add: "waiting h l ps \<Longrightarrow> p \<notin> set ps \<Longrightarrow> add h p l = (h', l') \<Longrightarrow> waiting h' l' (ps @ [p])"
    and remove: "waiting h l ps \<Longrightarrow> p \<in> set ps \<Longrightarrow> remove h p l = (h', l') \<Longrightarrow>
                   waiting h' l' (remove1 p ps)"
begin

fun add_all :: "heap \<Rightarrow> OrderPtr list \<Rightarrow> 'l \<Rightarrow> heap \<times> 'l" where
  "add_all h [] l = (h, l)"
| "add_all h (p # ps) l = (let (h, l) = add h p l in add_all h ps l)"

fun serve :: "nat \<Rightarrow> heap \<Rightarrow> 'l \<Rightarrow> OrderPtr list" where
  "serve 0 h l = []"
| "serve (Suc n) h l =
     (case front l of None \<Rightarrow> []
      | Some p \<Rightarrow> p # (let (h, l) = remove h p l in serve n h l))"

lemma add_all_waiting:
  "waiting h l qs \<Longrightarrow> distinct (qs @ ps) \<Longrightarrow> add_all h ps l = (h', l') \<Longrightarrow> waiting h' l' (qs @ ps)"
proof (induction ps arbitrary: h l qs)
  case (Cons p ps)
  obtain h1 l1 where a: "add h p l = (h1, l1)" by fastforce
  with Cons.prems have "waiting h1 l1 (qs @ [p])" by (auto intro: add)
  with Cons.IH [of h1 l1 "qs @ [p]"] Cons.prems a show ?case by simp
qed simp

lemma serve_waiting: "waiting h l ps \<Longrightarrow> length ps \<le> n \<Longrightarrow> serve n h l = ps"
proof (induction ps arbitrary: h l n)
  case Nil
  then show ?case by (cases n) (simp_all add: front)
next
  case (Cons p ps)
  obtain h1 l1 where r: "remove h p l = (h1, l1)" by fastforce
  with Cons.prems have "waiting h1 l1 ps" using remove [of h l "p # ps" p] by simp
  with Cons r show ?case by (cases n) (auto simp: front)
qed

lemma fifo_service:
  assumes "waiting h l []" and "distinct ps" and "add_all h ps l = (h', l')"
  shows "serve (length ps) h' l' = ps"
  using add_all_waiting [OF assms(1)] assms by (auto intro: serve_waiting)

end

interpretation level: fifo_level
  "\<lambda>h p l. (h, level_addOrder h p l)" "\<lambda>h p l. (h, level_removeOrder h p l)" level_front
  "\<lambda>h l ps. queue l = ps \<and> distinct ps"
  by unfold_locales (auto simp: level_front_def)

interpretation linked: fifo_level PriceLevel_addOrder PriceLevel_removeOrder PriceLevel_front
  "\<lambda>h L ps. \<exists>l. implements h L l \<and> queue l = ps"
proof (unfold_locales, goal_cases)
  case (1 h l ps)
  then show ?case by (auto simp: implements_def)
next
  case (2 h l ps)
  then show ?case by (auto simp: level_front_def dest: front_implements)
next
  case (3 h l ps p h' l')
  then show ?case by (metis addOrder_implements level_ops_simps(1))
next
  case (4 h l ps p h' l')
  then show ?case by (metis removeOrder_implements(1) level_ops_simps(5))
qed

text \<open>
  The intrusive doubly linked list of \<^verbatim>\<open>PriceLevel\<close> implements a queue: \<^verbatim>\<open>addOrder\<close> appends,
  \<^verbatim>\<open>removeOrder\<close> takes an order out wherever it stands, \<^verbatim>\<open>front\<close> and \<^verbatim>\<open>empty\<close> agree with the queue,
  the iterator visits the orders in queue order, the cached totals agree, and no order outside the
  level is written.
\<close>

theorem price_level_refines_queue:
  assumes imp: "implements h L l"
  shows "(p \<notin> set (queue l) \<longrightarrow>
      (case PriceLevel_addOrder h p L of (h', L') \<Rightarrow>
         implements h' L' (level_addOrder h p l) \<and> links_only (insert p (set (queue l))) h h')) \<and>
    (p \<in> set (queue l) \<longrightarrow>
      (case PriceLevel_removeOrder h p L of (h', L') \<Rightarrow>
         implements h' L' (level_removeOrder h p l) \<and> links_only (set (queue l)) h h')) \<and>
    PriceLevel_front L = level_front l \<and> PriceLevel_empty L = level_empty l \<and>
    walk (length (queue l)) h (level_head L) = queue l"
  using addOrder_implements [OF imp] addOrder_links_only [of h p L _ _ l] removeOrder_implements [OF imp]
    front_implements [OF imp] empty_implements [OF imp] walk_queue [OF imp] imp
  by (auto simp: implements_def split: prod.splits)

lemma PriceLevel_new_implements: "implements h PriceLevel_new level_new"
  by (simp add: implements_def PriceLevel_new_def level_new_def LevelTotals.truncate_def)

theorem price_level_refines_queue_witness:
  "implements (\<lambda>_. Order_default) PriceLevel_new level_new \<and>
   (case PriceLevel_addOrder (\<lambda>_. Order_default) 3 PriceLevel_new of (h', L') \<Rightarrow>
      implements h' L' (level_addOrder (\<lambda>_. Order_default) 3 level_new))"
  using price_level_refines_queue [OF PriceLevel_new_implements, of 3 "\<lambda>_. Order_default"]
    PriceLevel_new_implements
  by (auto split: prod.splits)

text \<open>
  First in, first out: orders added to an empty \<^verbatim>\<open>PriceLevel\<close> and then taken from its front, one after the
  other, come out in the order they were added.
\<close>

theorem price_level_fifo:
  assumes "distinct ps" and "linked.add_all h ps PriceLevel_new = (h', L)"
  shows "linked.serve (length ps) h' L = ps"
  using assms PriceLevel_new_implements [of h]
  by (intro linked.fifo_service [of h PriceLevel_new]) (auto intro!: exI [of _ level_new])

theorem price_level_fifo_witness:
  "distinct [4, 2, 7 :: OrderPtr] \<and>
   (case linked.add_all (\<lambda>_. Order_default) [4, 2, 7] PriceLevel_new of (h', L) \<Rightarrow>
      linked.serve 3 h' L = [4, 2, 7])"
  using price_level_fifo [of "[4, 2, 7]" "\<lambda>_. Order_default"]
  by (cases "linked.add_all (\<lambda>_. Order_default) [4, 2, 7] PriceLevel_new")
    (simp add: numeral_3_eq_3 del: linked.add_all.simps linked.serve.simps)

end
