(* ===== verification/Order_Book.thy ===== *)
theory Order_Book
  imports Price_Level
begin

text \<open>
  \<^verbatim>\<open>src/engine/order_book.h\<close> and \<^verbatim>\<open>order_book.cpp\<close>: the operations of the price-time priority book.
  Every operation takes the heap the order pointers point into and the book, and returns both with
  the events it emits, in order.  The members \<^verbatim>\<open>bid_levels_\<close> and \<^verbatim>\<open>ask_levels_\<close> are the entries of the
  two \<^verbatim>\<open>std::map\<close>s in iteration order (best price first).  Quantities are mathematical integers:
  the C++ \<^verbatim>\<open>int32_t\<close> arithmetic has no defined result on overflow, so a wrap-around has no place in
  the model; the totals of a level are the sums the invariant of \<^verbatim>\<open>Book_Invariant\<close> states.
\<close>

record OrderBook =
  book_security_id :: SecurityId
  bid_levels :: "(Price \<times> Level) list"
  ask_levels :: "(Price \<times> Level) list"
  orders_by_id :: "OrderId \<rightharpoonup> OrderPtr"
  next_trade_id :: "64 word"
  rpt_seq :: "32 word"

definition OrderBook_new :: "SecurityId \<Rightarrow> OrderBook" where
  "OrderBook_new sec = \<lparr>book_security_id = sec, bid_levels = [], ask_levels = [],
     orders_by_id = Map.empty, next_trade_id = 1, rpt_seq = 1\<rparr>"

text \<open>The map an order of the given side rests in, and its comparator.\<close>

definition levels :: "Side \<Rightarrow> OrderBook \<Rightarrow> (Price \<times> Level) list" where
  "levels s b = (if s = Buy then bid_levels b else ask_levels b)"

definition set_levels :: "Side \<Rightarrow> (Price \<times> Level) list \<Rightarrow> OrderBook \<Rightarrow> OrderBook" where
  "set_levels s ls b = (if s = Buy then b\<lparr>bid_levels := ls\<rparr> else b\<lparr>ask_levels := ls\<rparr>)"

definition better :: "Side \<Rightarrow> Price \<Rightarrow> Price \<Rightarrow> bool" where
  "better s p p' \<longleftrightarrow> (if s = Buy then p' < p else p < p')"

section \<open>Queries\<close>

definition bestBid :: "OrderBook \<Rightarrow> Price" where
  "bestBid b = (case bid_levels b of [] \<Rightarrow> Price_null | (p, _) # _ \<Rightarrow> p)"

definition bestAsk :: "OrderBook \<Rightarrow> Price" where
  "bestAsk b = (case ask_levels b of [] \<Rightarrow> Price_null | (p, _) # _ \<Rightarrow> p)"

definition bidLevelCount :: "OrderBook \<Rightarrow> nat" where
  "bidLevelCount b = length (bid_levels b)"

definition askLevelCount :: "OrderBook \<Rightarrow> nat" where
  "askLevelCount b = length (ask_levels b)"

text \<open>
  A counted scan over the map: the index of the first price that satisfies the test, and whether
  there is one (otherwise the index is one past the end).
\<close>

fun scan_index :: "(Price \<Rightarrow> bool) \<Rightarrow> nat \<Rightarrow> (Price \<times> Level) list \<Rightarrow> bool \<times> nat" where
  "scan_index t idx [] = (False, idx)"
| "scan_index t idx ((p, l) # ls) = (if t p then (True, idx) else scan_index t (idx + 1) ls)"

definition priceLevelIndex :: "Side \<Rightarrow> Price \<Rightarrow> OrderBook \<Rightarrow> nat" where
  "priceLevelIndex s p b =
     (case scan_index (\<lambda>p'. p' = p) 1 (levels s b) of
        (True, idx) \<Rightarrow> idx
      | (False, _) \<Rightarrow> snd (scan_index (\<lambda>p'. better s p p') 1 (levels s b)))"

section \<open>Trades and market-data events\<close>

definition generateBookUpdate ::
  "Side \<Rightarrow> Price \<Rightarrow> Quantity \<Rightarrow> int \<Rightarrow> MDUpdateAction \<Rightarrow> nat \<Rightarrow> OrderBook \<Rightarrow> OrderBook \<times> EngineEvent list"
where
  "generateBookUpdate s p new_qty new_count action level_idx b =
     (b\<lparr>rpt_seq := rpt_seq b + 1\<rparr>,
      [EvBook \<lparr>bu_security_id = book_security_id b, bu_side = s, bu_price = p, bu_new_qty = new_qty,
               bu_new_order_count = new_count, bu_update_action = action,
               bu_price_level_index = level_idx, bu_rpt_seq = rpt_seq b\<rparr>])"

definition executeTrade ::
  "OrderPtr \<Rightarrow> OrderPtr \<Rightarrow> Price \<Rightarrow> Quantity \<Rightarrow> heap \<Rightarrow> OrderBook \<Rightarrow> heap \<times> OrderBook \<times> Trade"
where
  "executeTrade maker taker p qty h b =
     (let h = h(maker := (h maker)\<lparr>filled_qty := filled_qty (h maker) + qty\<rparr>);
          h = h(taker := (h taker)\<lparr>filled_qty := filled_qty (h taker) + qty\<rparr>)
      in (h, b\<lparr>next_trade_id := next_trade_id b + 1\<rparr>,
          \<lparr>tr_trade_id = next_trade_id b, tr_security_id = book_security_id b, tr_price = p,
           tr_quantity = qty, tr_aggressor_side = side (h taker),
           tr_maker_order_id = order_id (h maker), tr_taker_order_id = order_id (h taker),
           tr_maker_session_uuid = session_uuid (h maker),
           tr_taker_session_uuid = session_uuid (h taker),
           tr_timestamp = timestamp (h taker)\<rparr>))"

section \<open>Matching\<close>

text \<open>
  The body of the inner loop of \<^verbatim>\<open>matchLimit\<close> and \<^verbatim>\<open>matchMarket\<close>, which the source writes out four
  times: one trade between the incoming order and the order at the front of the level.  \<open>ms\<close> is
  the side of the resting orders.  The level is the entry the iterator points to; it stays in the
  map while the loop runs, so \<open>priceLevelIndex\<close> finds its price there.
\<close>

definition fill_step ::
  "OrderPtr \<Rightarrow> Side \<Rightarrow> Price \<Rightarrow> OrderPtr \<Rightarrow> heap \<times> OrderBook \<times> Level \<times> EngineEvent list \<Rightarrow>
   heap \<times> OrderBook \<times> Level \<times> EngineEvent list"
where
  "fill_step order ms px maker = (\<lambda>(h, b, level, events).
     let qty = min (remainingQty (h order)) (remainingQty (h maker));
         (h, b, trade) = executeTrade maker order px qty h b;
         level = level\<lparr>total_quantity := total_quantity level - qty\<rparr>;
         (h, b, level) =
           (if isFullyFilled (h maker)
            then (h(maker := (h maker)\<lparr>status := Filled\<rparr>),
                  b\<lparr>orders_by_id := (orders_by_id b)(order_id (h maker) := None)\<rparr>,
                  level_removeOrder h maker level)
            else (h(maker := (h maker)\<lparr>status := PartiallyFilled\<rparr>), b, level));
         h = h(order := (h order)
               \<lparr>status := if isFullyFilled (h order) then Filled else PartiallyFilled\<rparr>);
         events = events @ [EvFilled
           \<lparr>trade_id = tr_trade_id trade, fill_security_id = tr_security_id trade,
            trade_price = tr_price trade, trade_qty = tr_quantity trade,
            aggressor_side = tr_aggressor_side trade,
            maker_order_id = order_id (h maker), maker_cl_ord_id = cl_ord_id (h maker),
            maker_session_uuid = session_uuid (h maker), maker_cum_qty = filled_qty (h maker),
            maker_leaves_qty = remainingQty (h maker), maker_ord_status = status (h maker),
            taker_order_id = order_id (h order), taker_cl_ord_id = cl_ord_id (h order),
            taker_session_uuid = session_uuid (h order), taker_cum_qty = filled_qty (h order),
            taker_leaves_qty = remainingQty (h order), taker_ord_status = status (h order)\<rparr>];
         level_idx = priceLevelIndex ms px b;
         (b, us) =
           (if level_empty level
            then generateBookUpdate ms px 0 0 MD_Delete level_idx b
            else generateBookUpdate ms px (total_quantity level) (order_count level)
                   MD_Change level_idx b)
     in (h, b, level, events @ us))"

text \<open>One step removes the front order or exhausts the incoming one, so the loop ends.\<close>

lemma fill_step_progress:
  assumes step: "fill_step t ms p m (h, b, l, evs) = (h', b', l', evs')"
    and front: "level_front l = Some m" and rem: "0 < remainingQty (h t)"
  shows "length (queue l') < length (queue l) \<or> (queue l' = queue l \<and> remainingQty (h' t) \<le> 0)"
proof -
  obtain qs where q: "queue l = m # qs"
    using front by (auto simp: level_front_def first_of_eq_Some)
  from step rem show ?thesis
    by (auto simp: fill_step_def executeTrade_def generateBookUpdate_def Let_def q
        isFullyFilled_iff level_removeOrder_def remainingQty_def min_def
        split: if_splits)
qed

function fill_level ::
  "OrderPtr \<Rightarrow> Side \<Rightarrow> Price \<Rightarrow> heap \<times> OrderBook \<times> Level \<times> EngineEvent list \<Rightarrow>
   heap \<times> OrderBook \<times> Level \<times> EngineEvent list"
where
  "fill_level order ms px (h, b, level, events) =
     (case level_front level of
        None \<Rightarrow> (h, b, level, events)
      | Some maker \<Rightarrow>
          if 0 < remainingQty (h order)
          then fill_level order ms px
                 (fill_step order ms px maker (h, b, level, events))
          else (h, b, level, events))"
  by pat_completeness auto
termination
proof (relation "measure (\<lambda>(t, ms, p, (h, b, l, evs)).
    length (queue l) + (if 0 < remainingQty (h t) then 1 else 0))", goal_cases)
  case 1
  show ?case by simp
next
  case (2 t ms p h b l evs m)
  obtain h' b' l' evs' where s: "fill_step t ms p m (h, b, l, evs) = (h', b', l', evs')"
    by (metis prod_cases4)
  from fill_step_progress [OF s] 2 show ?case by (auto simp: s)
qed

declare fill_level.simps [simp del]

text \<open>
  The outer loop: the iterator walks the map from the best price on.  \<open>beyond\<close> is the price check
  of \<^verbatim>\<open>matchLimit\<close> (\<^verbatim>\<open>matchMarket\<close> has none).  A level that the inner loop has emptied is erased,
  any other is written back.
\<close>

fun match_levels ::
  "OrderPtr \<Rightarrow> (Price \<Rightarrow> bool) \<Rightarrow> Side \<Rightarrow> (Price \<times> Level) list \<Rightarrow>
   heap \<times> OrderBook \<times> EngineEvent list \<Rightarrow> heap \<times> OrderBook \<times> EngineEvent list"
where
  "match_levels order beyond ms [] (h, b, events) = (h, b, events)"
| "match_levels order beyond ms ((p, level) # rest) (h, b, events) =
     (if 0 < remainingQty (h order) then
        if beyond p then (h, b, events)
        else let (h, b, level, events) = fill_level order ms p (h, b, level, events);
                 b = (if level_empty level
                      then set_levels ms (smap_erase p (levels ms b)) b
                      else set_levels ms (smap_put p level (levels ms b)) b)
             in match_levels order beyond ms rest (h, b, events)
      else (h, b, events))"

definition matchLimit :: "OrderPtr \<Rightarrow> heap \<Rightarrow> OrderBook \<Rightarrow> heap \<times> OrderBook \<times> EngineEvent list" where
  "matchLimit order h b =
     (if side (h order) = Buy
      then match_levels order (\<lambda>p. price (h order) < p) Sell (ask_levels b) (h, b, [])
      else match_levels order (\<lambda>p. p < price (h order)) Buy (bid_levels b) (h, b, []))"

definition matchMarket :: "OrderPtr \<Rightarrow> heap \<Rightarrow> OrderBook \<Rightarrow> heap \<times> OrderBook \<times> EngineEvent list" where
  "matchMarket order h b =
     (if side (h order) = Buy
      then match_levels order (\<lambda>p. False) Sell (ask_levels b) (h, b, [])
      else match_levels order (\<lambda>p. False) Buy (bid_levels b) (h, b, []))"

definition matchOrder :: "OrderPtr \<Rightarrow> heap \<Rightarrow> OrderBook \<Rightarrow> heap \<times> OrderBook \<times> EngineEvent list" where
  "matchOrder order h b =
     (if order_type (h order) = Market then matchMarket order h b else matchLimit order h b)"

fun fok_loop :: "(Price \<Rightarrow> bool) \<Rightarrow> Quantity \<Rightarrow> (Price \<times> Level) list \<Rightarrow> bool" where
  "fok_loop beyond needed [] \<longleftrightarrow> needed \<le> 0"
| "fok_loop beyond needed ((p, level) # rest) \<longleftrightarrow>
     (if beyond p then needed \<le> 0
      else let needed = needed - total_quantity level
           in if needed \<le> 0 then True else fok_loop beyond needed rest)"

definition canFillFOK :: "OrderPtr \<Rightarrow> heap \<Rightarrow> OrderBook \<Rightarrow> bool" where
  "canFillFOK order h b =
     (let needed = quantity (h order)
      in if side (h order) = Buy
         then fok_loop (\<lambda>p. order_type (h order) = Limit \<and> price (h order) < p) needed (ask_levels b)
         else fok_loop (\<lambda>p. order_type (h order) = Limit \<and> p < price (h order)) needed (bid_levels b))"

section \<open>Resting orders\<close>

definition insertResting :: "OrderPtr \<Rightarrow> heap \<Rightarrow> OrderBook \<Rightarrow> OrderBook \<times> EngineEvent list" where
  "insertResting order h b =
     (let b = b\<lparr>orders_by_id := (orders_by_id b)(order_id (h order) \<mapsto> order)\<rparr>;
          s = (if side (h order) = Buy then Buy else Sell);
          p = price (h order);
          inserted = (map_of (levels s b) p = None);
          ls = smap_emplace (better s) p level_new (levels s b);
          level = the (map_of ls p);
          level = (if inserted then level\<lparr>level_price := p\<rparr> else level);
          level = level_addOrder h order level;
          b = set_levels s (smap_put p level ls) b;
          level_idx = priceLevelIndex s p b;
          action = (if inserted then MD_New else MD_Change)
      in generateBookUpdate s p (total_quantity level) (order_count level) action level_idx b)"

definition removeFromBook :: "OrderPtr \<Rightarrow> heap \<Rightarrow> OrderBook \<Rightarrow> OrderBook \<times> EngineEvent list" where
  "removeFromBook order h b =
     (let b = b\<lparr>orders_by_id := (orders_by_id b)(order_id (h order) := None)\<rparr>;
          s = (if side (h order) = Buy then Buy else Sell);
          p = price (h order)
      in case map_of (levels s b) p of
           None \<Rightarrow> (b, [])
         | Some level \<Rightarrow>
             (let level_idx = priceLevelIndex s p b;
                  level = level_removeOrder h order level
              in if level_empty level
                 then generateBookUpdate s p 0 0 MD_Delete level_idx
                        (set_levels s (smap_erase p (levels s b)) b)
                 else generateBookUpdate s p (total_quantity level) (order_count level) MD_Change
                        level_idx (set_levels s (smap_put p level (levels s b)) b)))"

section \<open>The public operations\<close>

definition book_addOrder :: "OrderPtr \<Rightarrow> heap \<Rightarrow> OrderBook \<Rightarrow> heap \<times> OrderBook \<times> EngineEvent list" where
  "book_addOrder order h b =
     (if time_in_force (h order) = FOK \<and> \<not> canFillFOK order h b
      then (h, b, [EvRejected \<lparr>rej_cl_ord_id = cl_ord_id (h order),
                     rej_session_uuid = session_uuid (h order),
                     rej_reason = ''FOK order cannot be fully filled'',
                     rej_reject_reason_code = 0\<rparr>])
      else
        let accepted = EvAccepted
              \<lparr>acc_order_id = order_id (h order), acc_cl_ord_id = cl_ord_id (h order),
               acc_session_uuid = session_uuid (h order), acc_security_id = security_id (h order),
               acc_side = side (h order), acc_price = price (h order),
               acc_quantity = quantity (h order), acc_order_type = order_type (h order),
               acc_time_in_force = time_in_force (h order)\<rparr>;
            (h, b, match_events) = matchOrder order h b;
            events = accepted # match_events
        in if \<not> isFullyFilled (h order) then
             if time_in_force (h order) = IOC \<or> time_in_force (h order) = FOK then
               let h = h(order := (h order)\<lparr>status := Canceled\<rparr>)
               in (h, b, events @ [EvCancelled
                     \<lparr>can_order_id = order_id (h order), can_cl_ord_id = cl_ord_id (h order),
                      can_session_uuid = session_uuid (h order),
                      can_security_id = security_id (h order),
                      can_cum_qty = filled_qty (h order), can_ord_status = status (h order)\<rparr>])
             else if order_type (h order) = Limit then
               let (b, us) = insertResting order h b in (h, b, events @ us)
             else if order_type (h order) = Market then
               let h = h(order := (h order)\<lparr>status := Canceled\<rparr>)
               in (h, b, events @ [EvCancelled
                     \<lparr>can_order_id = order_id (h order), can_cl_ord_id = cl_ord_id (h order),
                      can_session_uuid = session_uuid (h order),
                      can_security_id = security_id (h order),
                      can_cum_qty = filled_qty (h order), can_ord_status = status (h order)\<rparr>])
             else (h, b, events)
           else (h, b, events))"

definition book_cancelOrder :: "OrderId \<Rightarrow> heap \<Rightarrow> OrderBook \<Rightarrow> heap \<times> OrderBook \<times> EngineEvent list" where
  "book_cancelOrder oid h b =
     (case orders_by_id b oid of
        None \<Rightarrow> (h, b, [EvCancelRejected \<lparr>cxr_order_id = oid, cxr_cl_ord_id = '''',
                   cxr_session_uuid = 0, cxr_reject_reason_code = 0,
                   cxr_reason = ''Order not found''\<rparr>])
      | Some order \<Rightarrow>
          let (b, us) = removeFromBook order h b;
              h = h(order := (h order)\<lparr>status := Canceled\<rparr>)
          in (h, b, us @ [EvCancelled
                \<lparr>can_order_id = order_id (h order), can_cl_ord_id = cl_ord_id (h order),
                 can_session_uuid = session_uuid (h order), can_security_id = security_id (h order),
                 can_cum_qty = filled_qty (h order), can_ord_status = status (h order)\<rparr>]))"

definition book_modifyOrder ::
  "OrderId \<Rightarrow> Price \<Rightarrow> Quantity \<Rightarrow> ClOrdId \<Rightarrow> heap \<Rightarrow> OrderBook \<Rightarrow> heap \<times> OrderBook \<times> EngineEvent list"
where
  "book_modifyOrder oid new_price new_qty new_cl_ord_id h b =
     (case orders_by_id b oid of
        None \<Rightarrow> (h, b, [EvCancelRejected \<lparr>cxr_order_id = oid, cxr_cl_ord_id = new_cl_ord_id,
                   cxr_session_uuid = 0, cxr_reject_reason_code = 0,
                   cxr_reason = ''Order not found''\<rparr>])
      | Some order \<Rightarrow>
          let (b, us) = removeFromBook order h b;
              h = h(order := (h order)\<lparr>price := new_price, quantity := new_qty\<rparr>);
              h = (if new_cl_ord_id \<noteq> [] then h(order := (h order)\<lparr>cl_ord_id := new_cl_ord_id\<rparr>)
                   else h);
              h = h(order := (h order)\<lparr>status := Replaced\<rparr>);
              modified = EvModified
                \<lparr>mod_order_id = order_id (h order), mod_cl_ord_id = cl_ord_id (h order),
                 mod_session_uuid = session_uuid (h order), mod_security_id = security_id (h order),
                 mod_new_price = new_price, mod_new_qty = new_qty,
                 mod_cum_qty = filled_qty (h order), mod_leaves_qty = remainingQty (h order)\<rparr>;
              (h, b, match_events) = matchOrder order h b;
              events = us @ modified # match_events
          in if \<not> isFullyFilled (h order) \<and> order_type (h order) = Limit
             then let (b, us) = insertResting order h b in (h, b, events @ us)
             else (h, b, events))"

end
