(* ===== verification/Book_Invariant.thy ===== *)
theory Book_Invariant
  imports Order_Book
begin

text \<open>
  The invariant of the order book.

  \<open>book_inv\<close> states what the code keeps between its fields: both maps are sorted and never hold an
  empty level, the cached totals of a level are the totals of its queue, every resting order is an
  open limit order filed under its own price and side, the id index is exact, and the book is not
  crossed.
\<close>

section \<open>The invariant\<close>

definition resting :: "Side \<Rightarrow> OrderBook \<Rightarrow> OrderPtr list" where
  "resting s b = concat (map (queue \<circ> snd) (levels s b))"

text \<open>An order that may wait at price \<open>p\<close> on side \<open>s\<close>.\<close>

definition open_at :: "Side \<Rightarrow> Price \<Rightarrow> Order \<Rightarrow> bool" where
  "open_at s p o' \<longleftrightarrow> 0 < remainingQty o' \<and> price o' = p \<and> (side o' = Buy \<longleftrightarrow> s = Buy) \<and>
     order_type o' = Limit"

definition level_ok :: "heap \<Rightarrow> Side \<Rightarrow> Price \<Rightarrow> Level \<Rightarrow> bool" where
  "level_ok h s p l \<longleftrightarrow> level_price l = p \<and> order_count l = int (length (queue l)) \<and>
     total_quantity l = (\<Sum>m\<leftarrow>queue l. remainingQty (h m)) \<and> distinct (queue l) \<and>
     (\<forall>m\<in>set (queue l). open_at s p (h m))"

definition side_ok :: "heap \<Rightarrow> Side \<Rightarrow> (Price \<times> Level) list \<Rightarrow> bool" where
  "side_ok h s ls \<longleftrightarrow> sorted_wrt (better s) (map fst ls) \<and>
     (\<forall>(p, l)\<in>set ls. level_ok h s p l \<and> queue l \<noteq> [])"

definition uncrossed :: "OrderBook \<Rightarrow> bool" where
  "uncrossed b \<longleftrightarrow> (\<forall>pb\<in>fst ` set (bid_levels b). \<forall>pa\<in>fst ` set (ask_levels b). pb < pa)"

definition index_ok :: "heap \<Rightarrow> OrderBook \<Rightarrow> bool" where
  "index_ok h b \<longleftrightarrow> (\<forall>i p. orders_by_id b i = Some p \<longleftrightarrow>
     p \<in> set (resting Buy b) \<union> set (resting Sell b) \<and> order_id (h p) = i)"

definition book_inv :: "heap \<Rightarrow> OrderBook \<Rightarrow> bool" where
  "book_inv h b \<longleftrightarrow> side_ok h Buy (bid_levels b) \<and> side_ok h Sell (ask_levels b) \<and>
     index_ok h b \<and> uncrossed b"

text \<open>An order that is not in the book, as the code assumes of the order it is about to match.\<close>

definition unbooked :: "OrderPtr \<Rightarrow> OrderBook \<Rightarrow> bool" where
  "unbooked t b \<longleftrightarrow> t \<notin> set (resting Buy b) \<union> set (resting Sell b)"

section \<open>Basic facts\<close>

lemma levels_simps [simp]:
  "levels Buy b = bid_levels b" "levels Sell b = ask_levels b"
  by (simp_all add: levels_def)

lemma levels_cong:
  "levels s (b\<lparr>next_trade_id := x\<rparr>) = levels s b"
  "levels s (b\<lparr>rpt_seq := y\<rparr>) = levels s b"
  "levels s (b\<lparr>orders_by_id := z\<rparr>) = levels s b"
  by (simp_all add: levels_def)

declare levels_cong [simp]

lemma levels_set_levels [simp]: "levels s (set_levels s ls b) = ls"
  by (simp add: levels_def set_levels_def)

lemma set_levels_same [simp]: "set_levels s (levels s b) b = b"
  by (simp add: levels_def set_levels_def)

lemma set_levels_twice [simp]: "set_levels s ls (set_levels s ls' b) = set_levels s ls b"
  by (simp add: set_levels_def)

lemma set_levels_fields [simp]:
  "orders_by_id (set_levels s ls b) = orders_by_id b"
  "next_trade_id (set_levels s ls b) = next_trade_id b"
  "rpt_seq (set_levels s ls b) = rpt_seq b"
  "book_security_id (set_levels s ls b) = book_security_id b"
  by (simp_all add: set_levels_def)

lemma set_levels_commute [simp]:
  "(set_levels s ls b)\<lparr>next_trade_id := x\<rparr> = set_levels s ls (b\<lparr>next_trade_id := x\<rparr>)"
  "(set_levels s ls b)\<lparr>rpt_seq := y\<rparr> = set_levels s ls (b\<lparr>rpt_seq := y\<rparr>)"
  "(set_levels s ls b)\<lparr>orders_by_id := z\<rparr> = set_levels s ls (b\<lparr>orders_by_id := z\<rparr>)"
  by (simp_all add: set_levels_def)

lemma levels_set_other:
  "(s = Buy) \<noteq> (s' = Buy) \<Longrightarrow> levels s (set_levels s' ls b) = levels s b"
  by (auto simp: levels_def set_levels_def)

interpretation better: strict_order "better s"
  by unfold_locales (auto simp: better_def)

lemma sum_remaining_cong:
  "(\<And>m. m \<in> set qs \<Longrightarrow> remainingQty (h' m) = remainingQty (h m)) \<Longrightarrow>
     (\<Sum>m\<leftarrow>qs. remainingQty (h' m)) = (\<Sum>m\<leftarrow>qs. remainingQty (h m))"
  by (rule sum_list_cong_set)

lemma level_ok_cong:
  "(\<And>m. m \<in> set (queue l) \<Longrightarrow> h' m = h m) \<Longrightarrow> level_ok h' s p l = level_ok h s p l"
  by (auto simp: level_ok_def intro!: arg_cong [where f = sum_list] map_cong)

lemma side_ok_cong:
  assumes "\<And>p l m. (p, l) \<in> set ls \<Longrightarrow> m \<in> set (queue l) \<Longrightarrow> h' m = h m"
  shows "side_ok h' s ls = side_ok h s ls"
proof -
  have "level_ok h' s p l = level_ok h s p l" if "(p, l) \<in> set ls" for p l
    using assms [OF that] by (rule level_ok_cong)
  then show ?thesis by (fastforce simp: side_ok_def)
qed

lemma side_okD:
  assumes "side_ok h s ls" and "(p, l) \<in> set ls"
  shows "level_ok h s p l" "queue l \<noteq> []"
  using assms by (auto simp: side_ok_def)

lemma side_ok_Cons:
  "side_ok h s ((p, l) # ls) \<longleftrightarrow>
     level_ok h s p l \<and> queue l \<noteq> [] \<and> (\<forall>p'\<in>fst ` set ls. better s p p') \<and> side_ok h s ls"
  by (auto simp: side_ok_def)

lemma side_ok_Nil [simp]: "side_ok h s []"
  by (simp add: side_ok_def)

lemma in_queues:
  "m \<in> set (concat (map (queue \<circ> snd) ls)) \<longleftrightarrow> (\<exists>p l. (p, l) \<in> set ls \<and> m \<in> set (queue l))"
  by (induction ls) (simp, fastforce)

lemma in_resting: "m \<in> set (resting s b) \<longleftrightarrow> (\<exists>p l. (p, l) \<in> set (levels s b) \<and> m \<in> set (queue l))"
  unfolding resting_def by (rule in_queues)

lemma resting_open:
  assumes "side_ok h s (levels s b)" and "m \<in> set (resting s b)"
  shows "open_at s (price (h m)) (h m)"
proof -
  obtain p l where "(p, l) \<in> set (levels s b)" "m \<in> set (queue l)"
    using assms(2) by (auto simp: in_resting)
  then show ?thesis using side_okD(1) [OF assms(1)]
    by (fastforce simp: level_ok_def open_at_def)
qed

text \<open>The level of a resting order is the one filed under its price.\<close>

lemma resting_level:
  assumes ok: "side_ok h s (levels s b)" and m: "m \<in> set (resting s b)"
  obtains l where "map_of (levels s b) (price (h m)) = Some l" and "m \<in> set (queue l)"
proof -
  obtain p l where pl: "(p, l) \<in> set (levels s b)" "m \<in> set (queue l)"
    using m by (auto simp: in_resting)
  moreover have "price (h m) = p"
    using side_okD(1) [OF ok pl(1)] pl(2) by (auto simp: level_ok_def open_at_def)
  moreover have "distinct (map fst (levels s b))"
    using ok by (auto simp: side_ok_def intro: better.sorted_distinct)
  ultimately show thesis using that by auto
qed

lemma level_queue_disjoint:
  assumes "level_ok h s p l" "level_ok h s p' l'" "p \<noteq> p'"
  shows "set (queue l) \<inter> set (queue l') = {}"
  using assms by (fastforce simp: level_ok_def open_at_def)

lemma side_ok_distinct: "side_ok h s ls \<Longrightarrow> distinct (concat (map (queue \<circ> snd) ls))"
proof (induction ls)
  case (Cons x ls)
  obtain p l where x: "x = (p, l)" by (cases x)
  have "set (queue l) \<inter> set (queue l') = {}" if "(p', l') \<in> set ls" for p' l'
  proof (rule level_queue_disjoint)
    show "level_ok h s p l" using Cons.prems x by (simp add: side_ok_Cons)
    show "level_ok h s p' l'" using Cons.prems x that by (auto simp: side_ok_Cons dest: side_okD)
    show "p \<noteq> p'" using Cons.prems x that better.irrefl by (force simp: side_ok_Cons)
  qed
  then have "set (queue l) \<inter> set (concat (map (queue \<circ> snd) ls)) = {}"
    unfolding in_queues disjoint_iff by blast
  moreover have "distinct (queue l)" "side_ok h s ls"
    using Cons.prems x by (auto simp: side_ok_Cons level_ok_def)
  ultimately show ?case using Cons.IH x by simp
qed simp

lemma resting_distinct: "side_ok h s (levels s b) \<Longrightarrow> distinct (resting s b)"
  unfolding resting_def by (rule side_ok_distinct)

lemma resting_sides_disjoint:
  assumes "book_inv h b"
  shows "set (resting Buy b) \<inter> set (resting Sell b) = {}"
proof -
  have "side (h m) = Buy" if "m \<in> set (resting Buy b)" for m
    using assms resting_open [of h Buy b m] that by (simp add: book_inv_def open_at_def)
  moreover have "side (h m) \<noteq> Buy" if "m \<in> set (resting Sell b)" for m
    using assms resting_open [of h Sell b m] that by (simp add: book_inv_def open_at_def)
  ultimately show ?thesis by blast
qed

text \<open>The scans of \<open>priceLevelIndex\<close>.\<close>

lemma scan_index_first [simp]: "t p \<Longrightarrow> scan_index t i ((p, l) # ls) = (True, i)"
  by simp

lemma scan_index_append:
  "(\<forall>p\<in>fst ` set xs. \<not> t p) \<Longrightarrow> scan_index t i (xs @ ys) = scan_index t (i + length xs) ys"
  by (induction xs arbitrary: i) auto

lemma priceLevelIndex_at:
  assumes "levels s b = xs @ (p, l) # ys" and "p \<notin> fst ` set xs"
  shows "priceLevelIndex s p b = length xs + 1"
proof -
  have "\<forall>p'\<in>fst ` set xs. p' \<noteq> p" using assms(2) by blast
  then show ?thesis using assms(1) by (simp add: priceLevelIndex_def scan_index_append)
qed

lemma priceLevelIndex_cong:
  "levels s b = levels s b' \<Longrightarrow> priceLevelIndex s p b = priceLevelIndex s p b'"
  unfolding priceLevelIndex_def by (simp only:)

end
