(* ===== verification/Book_Trades.thy ===== *)
theory Book_Trades
  imports Book_Invariant
begin

text \<open>
  The two nested loops of \<^verbatim>\<open>matchLimit\<close> and \<^verbatim>\<open>matchMarket\<close> as a sequence of single trades.

  \<open>trade_once\<close> is one trade between the incoming order and the first order of the best level, with
  the book brought up to date at once.  \<open>trade_step\<close> is the step relation it induces and
  \<open>match_levels_trades\<close> shows that the loops run it until the incoming order is filled, the side is
  empty, or the best price is beyond the limit.  The later theories prove their properties of
  matching for one trade and lift them along the relation.
\<close>

definition fillOrder :: "Quantity \<Rightarrow> Order \<Rightarrow> Order" where
  "fillOrder q o' = o'\<lparr>filled_qty := filled_qty o' + q,
     status := if quantity o' \<le> filled_qty o' + q then Filled else PartiallyFilled\<rparr>"

lemma fillOrder_sel [simp]:
  "order_id (fillOrder q x) = order_id x" "cl_ord_id (fillOrder q x) = cl_ord_id x"
  "session_uuid (fillOrder q x) = session_uuid x" "security_id (fillOrder q x) = security_id x"
  "side (fillOrder q x) = side x" "order_type (fillOrder q x) = order_type x"
  "time_in_force (fillOrder q x) = time_in_force x" "price (fillOrder q x) = price x"
  "quantity (fillOrder q x) = quantity x" "filled_qty (fillOrder q x) = filled_qty x + q"
  "timestamp (fillOrder q x) = timestamp x"
  "remainingQty (fillOrder q x) = remainingQty x - q"
  by (simp_all add: fillOrder_def remainingQty_def)

lemma fillOrder_status:
  "status (fillOrder q x) = (if remainingQty x \<le> q then Filled else PartiallyFilled)"
  by (auto simp: fillOrder_def remainingQty_def)

text \<open>The execution event of a trade of \<open>q\<close> lots between maker \<open>m\<close> and taker \<open>t\<close> (after the trade).\<close>

definition fill_event :: "OrderBook \<Rightarrow> Price \<Rightarrow> Quantity \<Rightarrow> Order \<Rightarrow> Order \<Rightarrow> OrderFilled" where
  "fill_event b p q m t =
     \<lparr>trade_id = next_trade_id b, fill_security_id = book_security_id b,
      trade_price = p, trade_qty = q, aggressor_side = side t,
      maker_order_id = order_id m, maker_cl_ord_id = cl_ord_id m,
      maker_session_uuid = session_uuid m, maker_cum_qty = filled_qty m,
      maker_leaves_qty = remainingQty m, maker_ord_status = status m,
      taker_order_id = order_id t, taker_cl_ord_id = cl_ord_id t,
      taker_session_uuid = session_uuid t, taker_cum_qty = filled_qty t,
      taker_leaves_qty = remainingQty t, taker_ord_status = status t\<rparr>"

definition level_event :: "OrderBook \<Rightarrow> Side \<Rightarrow> Price \<Rightarrow> Level \<Rightarrow> nat \<Rightarrow> BookUpdate" where
  "level_event b s p l idx =
     \<lparr>bu_security_id = book_security_id b, bu_side = s, bu_price = p,
      bu_new_qty = (if queue l = [] then 0 else total_quantity l),
      bu_new_order_count = (if queue l = [] then 0 else order_count l),
      bu_update_action = (if queue l = [] then MD_Delete else MD_Change),
      bu_price_level_index = idx, bu_rpt_seq = rpt_seq b\<rparr>"

definition level_trade :: "Quantity \<Rightarrow> bool \<Rightarrow> Level \<Rightarrow> Level" where
  "level_trade q gone l =
     (if gone then l\<lparr>total_quantity := total_quantity l - q, order_count := order_count l - 1,
                     queue := tl (queue l)\<rparr>
      else l\<lparr>total_quantity := total_quantity l - q\<rparr>)"

text \<open>The entries of a side after its best level became \<open>l\<close>.\<close>

definition upd_best :: "Price \<Rightarrow> Level \<Rightarrow> (Price \<times> Level) list \<Rightarrow> (Price \<times> Level) list" where
  "upd_best p l rest = (if queue l = [] then rest else (p, l) # rest)"

definition trade_once ::
  "OrderPtr \<Rightarrow> Side \<Rightarrow> heap \<times> OrderBook \<times> EngineEvent list \<Rightarrow> heap \<times> OrderBook \<times> EngineEvent list"
where
  "trade_once t ms = (\<lambda>(h, b, evs).
     (case levels ms b of
        [] \<Rightarrow> (h, b, evs)
      | (p, l) # rest \<Rightarrow>
          let m = hd (queue l);
              q = min (remainingQty (h t)) (remainingQty (h m));
              gone = (remainingQty (h m) \<le> q);
              h' = h(m := fillOrder q (h m), t := fillOrder q (h t));
              l' = level_trade q gone l;
              b' = (if gone then b\<lparr>orders_by_id := (orders_by_id b)(order_id (h m) := None)\<rparr> else b)
          in (h', set_levels ms (upd_best p l' rest)
                    (b'\<lparr>next_trade_id := next_trade_id b + 1, rpt_seq := rpt_seq b + 1\<rparr>),
              evs @ [EvFilled (fill_event b p q (h' m) (h' t)), EvBook (level_event b ms p l' 1)])))"

inductive trade_step ::
  "OrderPtr \<Rightarrow> (Price \<Rightarrow> bool) \<Rightarrow> Side \<Rightarrow> heap \<times> OrderBook \<times> EngineEvent list \<Rightarrow>
   heap \<times> OrderBook \<times> EngineEvent list \<Rightarrow> bool"
for t :: OrderPtr and beyond :: "Price \<Rightarrow> bool" and ms :: Side
where
  trade: "levels ms b = (p, l) # rest \<Longrightarrow> \<not> beyond p \<Longrightarrow> 0 < remainingQty (h t) \<Longrightarrow>
    trade_step t beyond ms (h, b, evs) (trade_once t ms (h, b, evs))"

inductive_cases trade_stepE: "trade_step t beyond ms s s'"

text \<open>The state in which the loops stop.\<close>

fun match_done :: "OrderPtr \<Rightarrow> (Price \<Rightarrow> bool) \<Rightarrow> Side \<Rightarrow> heap \<times> OrderBook \<times> EngineEvent list \<Rightarrow> bool" where
  "match_done t beyond ms (h, b, evs) \<longleftrightarrow>
     remainingQty (h t) \<le> 0 \<or> (case levels ms b of [] \<Rightarrow> True | (p, l) # _ \<Rightarrow> beyond p)"

section \<open>One trade\<close>

lemma trade_once_Cons:
  assumes "levels ms b = (p, l) # rest" and "queue l = m # qs"
  shows "trade_once t ms (h, b, evs) =
    (let q = min (remainingQty (h t)) (remainingQty (h m));
         gone = (remainingQty (h m) \<le> q);
         h' = h(m := fillOrder q (h m), t := fillOrder q (h t));
         l' = level_trade q gone l;
         b' = (if gone then b\<lparr>orders_by_id := (orders_by_id b)(order_id (h m) := None)\<rparr> else b)
     in (h', set_levels ms (upd_best p l' rest)
               (b'\<lparr>next_trade_id := next_trade_id b + 1, rpt_seq := rpt_seq b + 1\<rparr>),
         evs @ [EvFilled (fill_event b p q (h' m) (h' t)), EvBook (level_event b ms p l' 1)]))"
  using assms by (simp add: trade_once_def)

lemma level_trade_sel [simp]:
  "queue (level_trade q gone l) = (if gone then tl (queue l) else queue l)"
  "total_quantity (level_trade q gone l) = total_quantity l - q"
  "order_count (level_trade q gone l) = (if gone then order_count l - 1 else order_count l)"
  "level_price (level_trade q gone l) = level_price l"
  by (simp_all add: level_trade_def)

text \<open>One trade keeps the side it trades against in order.\<close>

lemma level_ok_trade:
  assumes ok: "level_ok h ms p l" and q: "queue l = m # qs"
    and qty: "qty = min r (remainingQty (h m))" "0 < r" and t: "t \<notin> set (queue l)"
  shows "level_ok (h(m := fillOrder qty (h m), t := x)) ms p
           (level_trade qty (remainingQty (h m) \<le> qty) l)"
proof -
  let ?h = "h(m := fillOrder qty (h m), t := x)"
  have m: "m \<notin> set qs" "m \<noteq> t" and d: "distinct qs" and tq: "t \<notin> set qs"
    using ok q t by (auto simp: level_ok_def)
  have sum: "(\<Sum>i\<leftarrow>qs. remainingQty (?h i)) = (\<Sum>i\<leftarrow>qs. remainingQty (h i))"
    using m tq by (intro sum_list_cong_set) auto
  have op: "\<forall>i\<in>set qs. open_at ms p (?h i)"
    using ok q m tq by (auto simp: level_ok_def)
  have tot: "total_quantity l = remainingQty (h m) + (\<Sum>i\<leftarrow>qs. remainingQty (h i))"
    using ok q by (simp add: level_ok_def)
  have om: "open_at ms p (h m)" using ok q by (simp add: level_ok_def)
  show ?thesis
  proof (cases "remainingQty (h m) \<le> qty")
    case True
    then have "qty = remainingQty (h m)" using qty by simp
    with ok q sum op tot d True show ?thesis by (simp add: level_ok_def)
  next
    case False
    moreover from False qty om have "open_at ms p (?h m)" using m by (simp add: open_at_def)
    ultimately show ?thesis using ok q sum op tot d m by (simp add: level_ok_def)
  qed
qed

text \<open>
  All there is to know of one trade: \<open>m\<close> is the oldest order of the best level \<open>(p, l)\<close>, \<open>q\<close> the
  traded quantity.
\<close>

lemma trade_step_cases:
  assumes ok: "side_ok h ms (levels ms b)" and t: "t \<notin> set (resting ms b)"
    and step: "trade_step t beyond ms (h, b, evs) (h', b', evs')"
  obtains p l rest m qs q gone l' where
    "levels ms b = (p, l) # rest" and "queue l = m # qs" and "\<not> beyond p"
    and "0 < remainingQty (h t)" and "level_ok h ms p l" and "open_at ms p (h m)" and "m \<noteq> t"
    and "m \<notin> set qs" and "m \<notin> set (concat (map (queue \<circ> snd) rest))"
    and "q = min (remainingQty (h t)) (remainingQty (h m))" and "0 < q"
    and "gone \<longleftrightarrow> q = remainingQty (h m)"
    and "h' = h(m := fillOrder q (h m), t := fillOrder q (h t))"
    and "l' = level_trade q gone l"
    and "b' = set_levels ms (upd_best p l' rest)
      ((if gone then b\<lparr>orders_by_id := (orders_by_id b)(order_id (h m) := None)\<rparr> else b)
         \<lparr>next_trade_id := next_trade_id b + 1, rpt_seq := rpt_seq b + 1\<rparr>)"
    and "evs' = evs @ [EvFilled (fill_event b p q (h' m) (h' t)), EvBook (level_event b ms p l' 1)]"
proof -
  from step obtain p l rest where L: "levels ms b = (p, l) # rest" "\<not> beyond p"
    and r: "0 < remainingQty (h t)"
    and eq: "trade_once t ms (h, b, evs) = (h', b', evs')"
    by (auto elim!: trade_stepE)
  obtain m qs where q: "queue l = m # qs"
    using ok L by (cases "queue l") (auto simp: side_ok_Cons)
  have l: "level_ok h ms p l" using ok L by (simp add: side_ok_Cons)
  then have m: "open_at ms p (h m)" "m \<notin> set qs" using q by (auto simp: level_ok_def)
  have "m \<noteq> t" using t L q by (auto simp: resting_def)
  moreover have "m \<notin> set (concat (map (queue \<circ> snd) rest))"
    using side_ok_distinct [OF ok] L q by auto
  moreover have "remainingQty (h m) \<le> min (remainingQty (h t)) (remainingQty (h m)) \<longleftrightarrow>
    min (remainingQty (h t)) (remainingQty (h m)) = remainingQty (h m)" by auto
  moreover have "0 < remainingQty (h m)" using m by (simp add: open_at_def)
  ultimately show thesis
    using that [OF L(1) q L(2) r l m(1) _ m(2) _ refl _ refl] eq r
    by (simp add: trade_once_Cons [OF L(1) q] Let_def)
qed

lemma trade_once_side_ok:
  assumes ok: "side_ok h ms (levels ms b)" and t: "t \<notin> set (resting ms b)"
    and step: "trade_step t beyond ms (h, b, evs) (h', b', evs')"
  shows "side_ok h' ms (levels ms b')" and "set (resting ms b') \<subseteq> set (resting ms b)"
proof -
  from ok t step obtain p l rest m qs q gone l' where
    L: "levels ms b = (p, l) # rest" and qs: "queue l = m # qs" and r: "0 < remainingQty (h t)"
    and lok: "level_ok h ms p l" and mrest: "m \<notin> set (concat (map (queue \<circ> snd) rest))"
    and q: "q = min (remainingQty (h t)) (remainingQty (h m))"
    and gone: "gone \<longleftrightarrow> q = remainingQty (h m)"
    and h': "h' = h(m := fillOrder q (h m), t := fillOrder q (h t))"
    and l': "l' = level_trade q gone l"
    and b': "b' = set_levels ms (upd_best p l' rest)
      ((if gone then b\<lparr>orders_by_id := (orders_by_id b)(order_id (h m) := None)\<rparr> else b)
         \<lparr>next_trade_id := next_trade_id b + 1, rpt_seq := rpt_seq b + 1\<rparr>)"
    by (rule trade_step_cases) blast
  have L': "levels ms b' = upd_best p l' rest" by (simp add: b')
  have tl: "t \<notin> set (queue l)" using t L by (simp add: resting_def)
  have "gone = (remainingQty (h m) \<le> q)" using q gone by auto
  then have lok': "level_ok h' ms p l'"
    unfolding h' l' using level_ok_trade [OF lok qs q r tl] by simp
  have "side_ok h' ms rest = side_ok h ms rest"
  proof (rule side_ok_cong)
    fix p' l1 i assume i: "(p', l1) \<in> set rest" "i \<in> set (queue l1)"
    then have "i \<in> set (concat (map (queue \<circ> snd) rest))" unfolding in_queues by blast
    with mrest t L have "i \<noteq> m" "i \<noteq> t" by (auto simp: resting_def)
    then show "h' i = h i" by (simp add: h')
  qed
  with ok L lok' show "side_ok h' ms (levels ms b')"
    by (simp add: L' upd_best_def side_ok_Cons)
  show "set (resting ms b') \<subseteq> set (resting ms b)"
    using L qs by (auto simp: resting_def L' upd_best_def l')
qed

text \<open>The body of the source's inner loop is this trade, on the entry the iterator holds.\<close>

lemma fill_step_closed:
  assumes idx: "\<And>b'. levels ms b' = levels ms b \<Longrightarrow> priceLevelIndex ms p b' = 1"
    and q: "queue l = m # qs" and mt: "m \<noteq> t"
    and qty: "qty = min (remainingQty (h t)) (remainingQty (h m))"
    and gone: "gone = (remainingQty (h m) \<le> qty)"
    and h': "h' = h(m := fillOrder qty (h m), t := fillOrder qty (h t))"
    and l': "l' = level_trade qty gone l"
    and b': "b' = (if gone then b\<lparr>orders_by_id := (orders_by_id b)(order_id (h m) := None)\<rparr> else b)"
  shows "fill_step t ms p m (h, b, l, evs) =
    (h', b'\<lparr>next_trade_id := next_trade_id b + 1, rpt_seq := rpt_seq b + 1\<rparr>, l',
     evs @ [EvFilled (fill_event b p qty (h' m) (h' t)), EvBook (level_event b ms p l' 1)])"
proof -
  have e: "min (quantity (h t) - filled_qty (h t)) (quantity (h m) - filled_qty (h m)) = qty"
    using qty by (simp add: remainingQty_def)
  have g: "gone \<longleftrightarrow> quantity (h m) \<le> filled_qty (h m) + qty"
    using gone by (auto simp: remainingQty_def)
  note defs = fill_step_def executeTrade_def generateBookUpdate_def Let_def idx
    isFullyFilled_def remainingQty_def h' l' b' level_trade_def fill_event_def level_event_def
    level_removeOrder_def level_empty_def fillOrder_def fun_upd_twist e
  show ?thesis
  proof (cases gone)
    case True
    then have "filled_qty (h m) + qty = quantity (h m)"
      using g qty by (auto simp: remainingQty_def)
    with True mt q g show ?thesis by (simp add: defs)
  next
    case False
    with mt q g show ?thesis by (simp add: defs)
  qed
qed

lemma fill_step_trade:
  assumes lv: "levels ms b = (p, l0) # rest" and q: "queue l = m # qs" and mt: "m \<noteq> t"
    and step: "fill_step t ms p m (h, b, l, evs) = (h', b', l', evs')"
  shows "levels ms b' = levels ms b" and
    "trade_once t ms (h, set_levels ms (upd_best p l rest) b, evs) =
       (h', set_levels ms (upd_best p l' rest) b', evs')"
proof -
  have idx: "priceLevelIndex ms p b'' = 1" if "levels ms b'' = levels ms b" for b''
    using priceLevelIndex_at [of ms b'' "[]"] that lv by simp
  note closed = fill_step_closed [OF idx q mt refl refl refl refl refl]
  show "levels ms b' = levels ms b"
    using step by (auto simp: closed)
  have lv': "levels ms (set_levels ms (upd_best p l rest) b) = (p, l) # rest"
    by (simp add: upd_best_def q)
  show "trade_once t ms (h, set_levels ms (upd_best p l rest) b, evs) =
       (h', set_levels ms (upd_best p l' rest) b', evs')"
    using step by (auto simp: closed trade_once_Cons [OF lv' q] Let_def fill_event_def level_event_def)
qed

section \<open>The loops\<close>

lemma fill_level_trades:
  assumes "fill_level t ms p (h, b, l, evs) = (h', b', l', evs')"
    and "levels ms b = (p, l0) # rest" and "\<not> beyond p"
    and "side_ok h ms (upd_best p l rest)"
    and "t \<notin> set (concat (map (queue \<circ> snd) (upd_best p l rest)))"
  shows "levels ms b' = levels ms b \<and> (queue l' = [] \<or> remainingQty (h' t) \<le> 0) \<and>
    (trade_step t beyond ms)\<^sup>*\<^sup>* (h, set_levels ms (upd_best p l rest) b, evs)
       (h', set_levels ms (upd_best p l' rest) b', evs')"
  using assms
proof (induction t ms p "(h, b, l, evs)" arbitrary: h b l evs rule: fill_level.induct)
  case (1 t ms p h b l evs)
  show ?case
  proof (cases "queue l = [] \<or> remainingQty (h t) \<le> 0")
    case True
    then have "fill_level t ms p (h, b, l, evs) = (h, b, l, evs)"
      by (auto simp: fill_level.simps [of t ms p h] level_front_def first_of_eq_Some split: option.splits)
    with 1 True show ?thesis by simp
  next
    case False
    then obtain m qs where q: "queue l = m # qs" by (cases "queue l") auto
    let ?s = "set_levels ms (upd_best p l rest) b"
    have lv: "levels ms ?s = (p, l) # rest" by (simp add: upd_best_def q)
    have mt: "m \<noteq> t" using "1.prems"(5) q by (auto simp: upd_best_def)
    obtain h1 b1 l1 evs1 where st: "fill_step t ms p m (h, b, l, evs) = (h1, b1, l1, evs1)"
      by (metis prod_cases4)
    note tr = fill_step_trade [OF "1.prems"(2) q mt st]
    have rec: "fill_level t ms p (h, b, l, evs) = fill_level t ms p (h1, b1, l1, evs1)"
      using False q st by (simp add: fill_level.simps [of t ms p h] level_front_def)
    have step: "trade_step t beyond ms (h, ?s, evs) (h1, set_levels ms (upd_best p l1 rest) b1, evs1)"
      using trade_step.trade [where beyond = beyond and h = h and t = t and evs = evs, OF lv]
        "1.prems"(3) False tr(2) by simp
    have ok: "side_ok h ms (levels ms ?s)" "t \<notin> set (resting ms ?s)"
      using "1.prems"(4,5) by (simp_all add: resting_def)
    from trade_once_side_ok [OF ok step]
    have ok1: "side_ok h1 ms (upd_best p l1 rest)"
      "t \<notin> set (concat (map (queue \<circ> snd) (upd_best p l1 rest)))"
      using ok(2) by (auto simp: resting_def)
    have "levels ms b' = levels ms b1 \<and> (queue l' = [] \<or> remainingQty (h' t) \<le> 0) \<and>
      (trade_step t beyond ms)\<^sup>*\<^sup>* (h1, set_levels ms (upd_best p l1 rest) b1, evs1)
         (h', set_levels ms (upd_best p l' rest) b', evs')"
    proof (rule "1.hyps")
      show "level_front l = Some m" using q by (simp add: level_front_def)
      show "0 < remainingQty (h t)" using False by simp
      show "fill_step t ms p m (h, b, l, evs) = (h1, b1, l1, evs1)" by (rule st)
      show "fill_level t ms p (h1, b1, l1, evs1) = (h', b', l', evs')" using "1.prems"(1) rec by simp
      show "levels ms b1 = (p, l0) # rest" using tr(1) "1.prems"(2) by simp
    qed (use "1.prems"(3) ok1 in simp_all)
    with tr(1) step show ?thesis by (auto intro: converse_rtranclp_into_rtranclp)
  qed
qed

lemmas rtranclp_state_induct =
  rtranclp_induct [of r "(h, b, e)" "(h', b', e')" for r h b e h' b' e', split_rule,
    consumes 1, case_names refl step]

lemma trades_side_ok:
  assumes "(trade_step t beyond ms)\<^sup>*\<^sup>* (h, b, evs) (h', b', evs')"
    and "side_ok h ms (levels ms b)" and "t \<notin> set (resting ms b)"
  shows "side_ok h' ms (levels ms b') \<and> set (resting ms b') \<subseteq> set (resting ms b)"
  using assms
proof (induction rule: rtranclp_state_induct)
  case (step h1 b1 evs1 h2 b2 evs2)
  then have ih: "side_ok h1 ms (levels ms b1)" "set (resting ms b1) \<subseteq> set (resting ms b)" by auto
  with step.prems(2) have "t \<notin> set (resting ms b1)" by auto
  from trade_once_side_ok [OF ih(1) this step.hyps(2)] ih(2) show ?case by auto
qed simp

theorem match_levels_trades:
  assumes "match_levels t beyond ms ls (h, b, evs) = (h', b', evs')"
    and "ls = levels ms b" and "side_ok h ms (levels ms b)" and "t \<notin> set (resting ms b)"
  shows "(trade_step t beyond ms)\<^sup>*\<^sup>* (h, b, evs) (h', b', evs') \<and> match_done t beyond ms (h', b', evs')"
  using assms
proof (induction t beyond ms ls "(h, b, evs)" arbitrary: h b evs rule: match_levels.induct)
  case (1 t beyond ms h b evs)
  then show ?case by auto
next
  case (2 t beyond ms p l rest h b evs)
  note lv = "2.prems"(2) [symmetric]
  show ?case
  proof (cases "0 < remainingQty (h t) \<and> \<not> beyond p")
    case False
    then have "match_levels t beyond ms ((p, l) # rest) (h, b, evs) = (h, b, evs)" by auto
    with "2.prems"(1) have "(h', b', evs') = (h, b, evs)" by simp
    with False lv show ?thesis by auto
  next
    case True
    obtain h1 b1 l1 evs1 where fl: "fill_level t ms p (h, b, l, evs) = (h1, b1, l1, evs1)"
      by (metis prod_cases4)
    have ne: "queue l \<noteq> []" using "2.prems"(3) lv by (simp add: side_ok_Cons)
    then have ub: "upd_best p l rest = levels ms b" by (simp add: upd_best_def lv)
    have fl': "levels ms b1 = levels ms b" "queue l1 = [] \<or> remainingQty (h1 t) \<le> 0"
      "(trade_step t beyond ms)\<^sup>*\<^sup>* (h, b, evs) (h1, set_levels ms (upd_best p l1 rest) b1, evs1)"
      using fill_level_trades [OF fl lv, of beyond] True "2.prems"(3,4) ub by (simp_all add: resting_def)
    have nin: "p \<notin> fst ` set rest"
      using "2.prems"(3) lv better.irrefl by (force simp: side_ok_Cons)
    let ?b1 = "set_levels ms (upd_best p l1 rest) b1"
    have upd: "(if level_empty l1 then set_levels ms (smap_erase p (levels ms b1)) b1
        else set_levels ms (smap_put p l1 (levels ms b1)) b1) = ?b1"
      using fl'(1) lv nin
      by (simp add: level_empty_def upd_best_def smap_erase_notin smap_put_notin)
    have eq: "match_levels t beyond ms rest (h1, ?b1, evs1) = (h', b', evs')"
      using "2.prems"(1) True by (simp add: fl upd)
    show ?thesis
    proof (cases "queue l1 = []")
      case True
      then have lv1: "levels ms ?b1 = rest" by (simp add: upd_best_def)
      from trades_side_ok [OF fl'(3) "2.prems"(3,4)] "2.prems"(4)
      have ok1: "side_ok h1 ms (levels ms ?b1)" "t \<notin> set (resting ms ?b1)" by auto
      have "(trade_step t beyond ms)\<^sup>*\<^sup>* (h1, ?b1, evs1) (h', b', evs') \<and>
        match_done t beyond ms (h', b', evs')"
        by (rule "2.hyps" [OF _ _ fl [symmetric] refl refl refl upd [symmetric] eq lv1 [symmetric] ok1])
          (use \<open>0 < remainingQty (h t) \<and> \<not> beyond p\<close> in simp_all)
      with fl'(3) show ?thesis by auto
    next
      case False
      then have "remainingQty (h1 t) \<le> 0" using fl'(2) by simp
      then have "match_levels t beyond ms rest (h1, ?b1, evs1) = (h1, ?b1, evs1)"
        by (cases rest) auto
      with eq fl'(3) \<open>remainingQty (h1 t) \<le> 0\<close> show ?thesis by simp
    qed
  qed
qed

end
