(* ===== verification/Book_Example.thy ===== *)
theory Book_Example
  imports Book_Invariant
begin

text \<open>
  A small book on which the properties of the order book are instantiated: three sell orders at two
  prices, one buy order, and incoming orders of every kind.
\<close>

definition ex_order :: "OrderId \<Rightarrow> Side \<Rightarrow> int \<Rightarrow> Quantity \<Rightarrow> OrderType \<Rightarrow> TimeInForce \<Rightarrow> Order" where
  "ex_order i s p q ot tif =
     \<lparr>order_id = i, cl_ord_id = ''A'', session_uuid = 7, security_id = 42, side = s,
      order_type = ot, time_in_force = tif, price = Price p, stop_price = Price_null,
      quantity = q, filled_qty = 0, display_qty = 0, min_qty = 0, timestamp = 0, status = New,
      order_request_id = 0, prev_in_level = None, next_in_level = None\<rparr>"

definition ex_heap :: heap where
  "ex_heap = (\<lambda>_. ex_order 9 Buy 101 10 Limit Day)
     (1 := ex_order 1 Sell 100 5 Limit Day,
      2 := ex_order 2 Sell 100 3 Limit Day,
      3 := ex_order 3 Sell 101 4 Limit Day,
      4 := ex_order 4 Buy 99 2 Limit Day,
      5 := ex_order 5 Buy 101 12 Limit FOK,
      6 := ex_order 6 Buy 100 11 Limit IOC,
      7 := ex_order 7 Sell 0 3 Market Day)"

definition ex_book :: OrderBook where
  "ex_book = \<lparr>book_security_id = 42,
     bid_levels = [(Price 99, \<lparr>level_price = Price 99, total_quantity = 2, order_count = 1, queue = [4]\<rparr>)],
     ask_levels = [(Price 100, \<lparr>level_price = Price 100, total_quantity = 8, order_count = 2, queue = [1, 2]\<rparr>),
                   (Price 101, \<lparr>level_price = Price 101, total_quantity = 4, order_count = 1, queue = [3]\<rparr>)],
     orders_by_id = Map.empty(1 \<mapsto> 1, 2 \<mapsto> 2, 3 \<mapsto> 3, 4 \<mapsto> 4),
     next_trade_id = 1, rpt_seq = 1\<rparr>"

lemma ex_heap_simps [simp]:
  "ex_heap 1 = ex_order 1 Sell 100 5 Limit Day"
  "ex_heap 2 = ex_order 2 Sell 100 3 Limit Day"
  "ex_heap 3 = ex_order 3 Sell 101 4 Limit Day"
  "ex_heap 4 = ex_order 4 Buy 99 2 Limit Day"
  "ex_heap 5 = ex_order 5 Buy 101 12 Limit FOK"
  "ex_heap 6 = ex_order 6 Buy 100 11 Limit IOC"
  "ex_heap 7 = ex_order 7 Sell 0 3 Market Day"
  "ex_heap 9 = ex_order 9 Buy 101 10 Limit Day"
  by (simp_all add: ex_heap_def)

lemma ex_order_sel [simp]:
  "order_id (ex_order i s p q ot tif) = i" "side (ex_order i s p q ot tif) = s"
  "order_type (ex_order i s p q ot tif) = ot" "time_in_force (ex_order i s p q ot tif) = tif"
  "price (ex_order i s p q ot tif) = Price p" "quantity (ex_order i s p q ot tif) = q"
  "filled_qty (ex_order i s p q ot tif) = 0" "remainingQty (ex_order i s p q ot tif) = q"
  by (simp_all add: ex_order_def remainingQty_def)

lemma ex_resting: "resting Buy ex_book = [4]" "resting Sell ex_book = [1, 2, 3]"
  by (simp_all add: resting_def ex_book_def)

lemma ex_inv: "book_inv ex_heap ex_book"
proof -
  have "side_ok ex_heap Buy (bid_levels ex_book)" "side_ok ex_heap Sell (ask_levels ex_book)"
    by (simp_all add: side_ok_def level_ok_def open_at_def better_def ex_book_def)
  moreover have "uncrossed ex_book" by (simp add: uncrossed_def ex_book_def)
  moreover have "index_ok ex_heap ex_book"
    by (auto simp: index_ok_def ex_resting) (auto simp: ex_book_def split: if_splits)
  ultimately show ?thesis by (simp add: book_inv_def)
qed

lemma ex_unbooked:
  "unbooked 5 ex_book" "unbooked 6 ex_book" "unbooked 7 ex_book" "unbooked 9 ex_book"
  by (simp_all add: unbooked_def ex_resting)

lemma ex_unindexed:
  "orders_by_id ex_book 5 = None" "orders_by_id ex_book 6 = None"
  "orders_by_id ex_book 7 = None" "orders_by_id ex_book 9 = None"
  by (simp_all add: ex_book_def)

end
