(* ===== verification/Book_Matching.thy ===== *)
theory Book_Matching
  imports Book_Trades Book_Example
begin

text \<open>
  What \<^verbatim>\<open>matchOrder\<close> does, against an abstract specification of price-time priority.

  \<open>eligible\<close> lists the resting orders the incoming order may trade with, best price first and
  oldest first within a price; \<open>alloc\<close> hands the incoming quantity out along such a list.  The
  fills of \<open>matchOrder\<close> are exactly the allocation.
\<close>

section \<open>Both directions of the match at once\<close>

definition maker_side :: "Order \<Rightarrow> Side" where
  "maker_side o' = (if side o' = Buy then Sell else Buy)"

definition beyond_limit :: "Order \<Rightarrow> Price \<Rightarrow> bool" where
  "beyond_limit o' p \<longleftrightarrow> order_type o' \<noteq> Market \<and> (if side o' = Buy then price o' < p else p < price o')"

lemma matchOrder_levels:
  "matchOrder t h b = match_levels t (beyond_limit (h t)) (maker_side (h t))
     (levels (maker_side (h t)) b) (h, b, [])"
proof -
  have "beyond_limit (h t) = (\<lambda>p. False)" if "order_type (h t) = Market"
    using that by (simp add: beyond_limit_def fun_eq_iff)
  moreover have "beyond_limit (h t) =
      (if side (h t) = Buy then (\<lambda>p. price (h t) < p) else (\<lambda>p. p < price (h t)))"
    if "order_type (h t) \<noteq> Market"
    using that by (simp add: beyond_limit_def fun_eq_iff)
  ultimately show ?thesis
    by (simp add: matchOrder_def matchLimit_def matchMarket_def maker_side_def)
qed

lemma unbooked_resting: "unbooked t b \<Longrightarrow> t \<notin> set (resting (maker_side x) b)"
  by (simp add: unbooked_def maker_side_def)

lemma book_inv_side: "book_inv h b \<Longrightarrow> side_ok h (maker_side x) (levels (maker_side x) b)"
  by (simp add: book_inv_def maker_side_def)

lemma matchOrder_trades:
  assumes "matchOrder t h b = (h', b', evs)" and "book_inv h b" and "unbooked t b"
  shows "(trade_step t (beyond_limit (h t)) (maker_side (h t)))\<^sup>*\<^sup>* (h, b, []) (h', b', evs)"
    and "match_done t (beyond_limit (h t)) (maker_side (h t)) (h', b', evs)"
proof -
  have "match_levels t (beyond_limit (h t)) (maker_side (h t))
     (levels (maker_side (h t)) b) (h, b, []) = (h', b', evs)"
    using assms(1) by (simp only: matchOrder_levels)
  from match_levels_trades [OF this refl book_inv_side [OF assms(2)] unbooked_resting [OF assms(3)]]
  show "(trade_step t (beyond_limit (h t)) (maker_side (h t)))\<^sup>*\<^sup>* (h, b, []) (h', b', evs)"
    and "match_done t (beyond_limit (h t)) (maker_side (h t)) (h', b', evs)" by auto
qed

text \<open>
  Invariants along the trades: the side in order and the incoming order outside it come for free.
\<close>

lemma trades_invariant [consumes 3, case_names start trade]:
  assumes "(trade_step t beyond ms)\<^sup>*\<^sup>* (h, b, evs) (h', b', evs')"
    and "side_ok h ms (levels ms b)" and "t \<notin> set (resting ms b)"
    and "P h b evs"
    and "\<And>h1 b1 evs1 h2 b2 evs2. P h1 b1 evs1 \<Longrightarrow> side_ok h1 ms (levels ms b1) \<Longrightarrow>
      t \<notin> set (resting ms b1) \<Longrightarrow> trade_step t beyond ms (h1, b1, evs1) (h2, b2, evs2) \<Longrightarrow> P h2 b2 evs2"
  shows "P h' b' evs'"
  using assms(1)
proof (induction rule: rtranclp_state_induct)
  case refl
  then show ?case by (rule assms(4))
next
  case (step h1 b1 evs1 h2 b2 evs2)
  from trades_side_ok [OF step.hyps(1) assms(2,3)] assms(3)
  have "side_ok h1 ms (levels ms b1)" "t \<notin> set (resting ms b1)" by auto
  with step.IH step.hyps(2) show ?case by (blast intro: assms(5))
qed

section \<open>Price-time priority\<close>

type_synonym claim = "OrderId \<times> Price \<times> Quantity"

fun alloc :: "Quantity \<Rightarrow> claim list \<Rightarrow> claim list" where
  "alloc r [] = []"
| "alloc r ((i, p, k) # xs) =
     (if 0 < r then (i, p, min r k) # alloc (r - min r k) xs else [])"

definition waiting_claims :: "heap \<Rightarrow> (Price \<times> Level) list \<Rightarrow> claim list" where
  "waiting_claims h ls =
     concat (map (\<lambda>(p, l). map (\<lambda>m. (order_id (h m), p, remainingQty (h m))) (queue l)) ls)"

definition eligible :: "(Price \<Rightarrow> bool) \<Rightarrow> heap \<Rightarrow> (Price \<times> Level) list \<Rightarrow> claim list" where
  "eligible beyond h ls = waiting_claims h (takeWhile (\<lambda>(p, l). \<not> beyond p) ls)"

definition claim_of :: "OrderFilled \<Rightarrow> claim" where
  "claim_of f = (maker_order_id f, trade_price f, trade_qty f)"

lemma waiting_claims_simps [simp]:
  "waiting_claims h [] = []"
  "waiting_claims h ((p, l) # ls) =
     map (\<lambda>m. (order_id (h m), p, remainingQty (h m))) (queue l) @ waiting_claims h ls"
  by (simp_all add: waiting_claims_def)

lemma waiting_claims_cong:
  "(\<And>i. i \<in> set (concat (map (queue \<circ> snd) ls)) \<Longrightarrow> h' i = h i) \<Longrightarrow>
     waiting_claims h' ls = waiting_claims h ls"
  by (induction ls) auto

lemma eligible_simps [simp]:
  "eligible beyond h [] = []"
  "eligible beyond h ((p, l) # ls) =
     (if beyond p then []
      else map (\<lambda>m. (order_id (h m), p, remainingQty (h m))) (queue l) @ eligible beyond h ls)"
  by (simp_all add: eligible_def)

lemma eligible_cong:
  assumes "\<And>i. i \<in> set (concat (map (queue \<circ> snd) ls)) \<Longrightarrow> h' i = h i"
  shows "eligible beyond h' ls = eligible beyond h ls"
  unfolding eligible_def
  by (rule waiting_claims_cong, rule assms) (auto dest!: set_takeWhileD)

lemma alloc_zero [simp]: "r \<le> 0 \<Longrightarrow> alloc r xs = []"
  by (cases xs) auto

lemma alloc_sum:
  "\<forall>(i, p, k)\<in>set xs. 0 < k \<Longrightarrow> 0 \<le> r \<Longrightarrow>
     (\<Sum>(i, p, k)\<leftarrow>alloc r xs. k) = min r (\<Sum>(i, p, k)\<leftarrow>xs. k)"
proof (induction r xs rule: alloc.induct)
  case (2 r i p k xs)
  have "0 \<le> (\<Sum>(i, p, k)\<leftarrow>xs. k)" using "2.prems"(1) by (intro sum_list_nonneg) force
  with 2 show ?case by (auto simp: min_def split: if_splits)
qed simp

text \<open>One trade serves the head of the eligible list.\<close>

lemma trade_step_alloc:
  assumes ok: "side_ok h ms (levels ms b)" and t: "t \<notin> set (resting ms b)"
    and step: "trade_step t beyond ms (h, b, evs) (h', b', evs')"
  obtains f where "fills evs' = fills evs @ [f]"
    and "alloc (remainingQty (h t)) (eligible beyond h (levels ms b)) =
      claim_of f # alloc (remainingQty (h' t)) (eligible beyond h' (levels ms b'))"
proof -
  from ok t step obtain p l rest m qs q gone l' where
    L: "levels ms b = (p, l) # rest" and qs: "queue l = m # qs" and nb: "\<not> beyond p"
    and r: "0 < remainingQty (h t)" and m: "m \<noteq> t" "m \<notin> set qs"
      "m \<notin> set (concat (map (queue \<circ> snd) rest))"
    and q: "q = min (remainingQty (h t)) (remainingQty (h m))"
    and gone: "gone \<longleftrightarrow> q = remainingQty (h m)"
    and h': "h' = h(m := fillOrder q (h m), t := fillOrder q (h t))"
    and l': "l' = level_trade q gone l"
    and b': "b' = set_levels ms (upd_best p l' rest)
      ((if gone then b\<lparr>orders_by_id := (orders_by_id b)(order_id (h m) := None)\<rparr> else b)
         \<lparr>next_trade_id := next_trade_id b + 1, rpt_seq := rpt_seq b + 1\<rparr>)"
    and evs': "evs' = evs @ [EvFilled (fill_event b p q (h' m) (h' t)), EvBook (level_event b ms p l' 1)]"
    by (rule trade_step_cases) blast
  let ?f = "fill_event b p q (h' m) (h' t)"
  have f: "claim_of ?f = (order_id (h m), p, q)"
    using m by (simp add: claim_of_def fill_event_def h')
  have rt: "remainingQty (h' t) = remainingQty (h t) - q" by (simp add: h')
  have rest: "eligible beyond h' rest = eligible beyond h rest"
    using m t L by (intro eligible_cong) (auto simp: h' resting_def)
  have same: "h' i = h i" if "i \<in> set qs" for i
    using m t L qs that by (auto simp: h' resting_def)
  have tail: "eligible beyond h' (levels ms b') =
      map (\<lambda>m. (order_id (h m), p, remainingQty (h m))) qs @ eligible beyond h rest" if gone
    using that qs nb rest same by (auto simp: b' l' upd_best_def)
  have "alloc (remainingQty (h t)) (eligible beyond h (levels ms b)) =
      claim_of ?f # alloc (remainingQty (h' t)) (eligible beyond h' (levels ms b'))"
  proof (cases gone)
    case True
    then show ?thesis using L qs nb r by (simp add: f rt tail q [symmetric])
  next
    case False
    then have "remainingQty (h' t) = 0" using q gone rt by auto
    then show ?thesis using L qs nb r by (simp add: f q [symmetric] rt [symmetric])
  qed
  with that [of ?f] evs' show thesis by simp
qed

lemma trades_alloc:
  assumes "(trade_step t beyond ms)\<^sup>*\<^sup>* (h, b, evs) (h', b', evs')"
    and "side_ok h ms (levels ms b)" and "t \<notin> set (resting ms b)"
  shows "\<exists>fs. fills evs' = fills evs @ fs \<and>
    alloc (remainingQty (h t)) (eligible beyond h (levels ms b)) =
      map claim_of fs @ alloc (remainingQty (h' t)) (eligible beyond h' (levels ms b'))"
  using assms
proof (induction rule: trades_invariant)
  case start
  then show ?case by simp
next
  case (trade h1 b1 evs1 h2 b2 evs2)
  obtain f where "fills evs2 = fills evs1 @ [f]"
    and "alloc (remainingQty (h1 t)) (eligible beyond h1 (levels ms b1)) =
      claim_of f # alloc (remainingQty (h2 t)) (eligible beyond h2 (levels ms b2))"
    using trade_step_alloc [OF trade(2-4)] by metis
  moreover obtain fs where "fills evs1 = fills evs @ fs"
    and "alloc (remainingQty (h t)) (eligible beyond h (levels ms b)) =
      map claim_of fs @ alloc (remainingQty (h1 t)) (eligible beyond h1 (levels ms b1))"
    using trade(1) by blast
  ultimately show ?case by (intro exI [of _ "fs @ [f]"]) simp
qed

lemma match_done_alloc:
  assumes "match_done t beyond ms (h, b, evs)"
  shows "alloc (remainingQty (h t)) (eligible beyond h (levels ms b)) = []"
  using assms by (cases "levels ms b") auto

text \<open>
  C1.  Price-time priority: the fills of \<^verbatim>\<open>matchOrder\<close>, as (maker order id, price, quantity) in the
  order they are emitted, are exactly the allocation of the incoming order's open quantity along the
  resting orders of the other side within its limit, best price first and oldest first within a
  price, each at the maker's price.
\<close>

theorem matchOrder_price_time_priority:
  assumes "matchOrder t h b = (h', b', evs)" and "book_inv h b" and "unbooked t b"
  shows "map claim_of (fills evs) =
    alloc (remainingQty (h t)) (eligible (beyond_limit (h t)) h (levels (maker_side (h t)) b))"
  using trades_alloc [OF matchOrder_trades(1) [OF assms] book_inv_side [OF assms(2)]
      unbooked_resting [OF assms(3)]]
    match_done_alloc [OF matchOrder_trades(2) [OF assms]] by auto

theorem matchOrder_price_time_priority_witness:
  "book_inv ex_heap ex_book \<and> unbooked 9 ex_book \<and>
   map claim_of (fills (snd (snd (matchOrder 9 ex_heap ex_book)))) =
     [(1, Price 100, 5), (2, Price 100, 3), (3, Price 101, 2)]"
  using matchOrder_price_time_priority [of 9 ex_heap ex_book, OF _ ex_inv ex_unbooked(4)] ex_inv ex_unbooked(4)
  by (cases "matchOrder 9 ex_heap ex_book")
    (simp add: maker_side_def beyond_limit_def ex_book_def)

section \<open>Conservation of quantity\<close>

definition traded :: "EngineEvent list \<Rightarrow> Quantity" where
  "traded evs = (\<Sum>f\<leftarrow>fills evs. trade_qty f)"

definition depth :: "(Price \<times> Level) list \<Rightarrow> Quantity" where
  "depth ls = (\<Sum>(p, l)\<leftarrow>ls. total_quantity l)"

lemma traded_simps [simp]:
  "traded [] = 0" "traded (evs @ evs') = traded evs + traded evs'"
  "traded (EvFilled f # evs) = trade_qty f + traded evs" "traded (EvBook u # evs) = traded evs"
  by (simp_all add: traded_def)

lemma depth_simps [simp]:
  "depth [] = 0" "depth ((p, l) # ls) = total_quantity l + depth ls"
  by (simp_all add: depth_def)

definition same_terms :: "Order \<Rightarrow> Order \<Rightarrow> bool" where
  "same_terms x y \<longleftrightarrow> x = y\<lparr>filled_qty := filled_qty x, status := status x\<rparr>"

lemma same_terms_refl [simp]: "same_terms x x"
  by (simp add: same_terms_def)

lemma same_terms_fill: "same_terms x y \<Longrightarrow> same_terms (fillOrder q x) y"
  by (cases x, cases y) (simp add: same_terms_def fillOrder_def)

lemma same_termsD:
  assumes "same_terms x y"
  shows "order_id x = order_id y" "cl_ord_id x = cl_ord_id y" "session_uuid x = session_uuid y"
    "security_id x = security_id y" "side x = side y" "order_type x = order_type y"
    "time_in_force x = time_in_force y" "price x = price y" "quantity x = quantity y"
  using assms by (cases x, cases y, simp add: same_terms_def)+

lemma depth_remaining:
  "side_ok h s ls \<Longrightarrow> depth ls = (\<Sum>m\<leftarrow>concat (map (queue \<circ> snd) ls). remainingQty (h m))"
  by (induction ls) (auto simp: side_ok_Cons level_ok_def)

lemma trades_conserve:
  assumes "(trade_step t beyond ms)\<^sup>*\<^sup>* (h, b, evs) (h', b', evs')"
    and "side_ok h ms (levels ms b)" and "t \<notin> set (resting ms b)"
  shows "filled_qty (h' t) + traded evs = filled_qty (h t) + traded evs' \<and>
    depth (levels ms b') + traded evs' = depth (levels ms b) + traded evs \<and>
    (\<forall>x. same_terms (h' x) (h x))"
  using assms
proof (induction rule: trades_invariant)
  case start
  then show ?case by simp
next
  case (trade h1 b1 evs1 h2 b2 evs2)
  from trade(2-4) obtain p l rest m qs q gone l' where
    L: "levels ms b1 = (p, l) # rest" and qs: "queue l = m # qs" and m: "m \<noteq> t"
    and lok: "level_ok h1 ms p l"
    and q: "q = min (remainingQty (h1 t)) (remainingQty (h1 m))"
    and gone: "gone \<longleftrightarrow> q = remainingQty (h1 m)"
    and h2: "h2 = h1(m := fillOrder q (h1 m), t := fillOrder q (h1 t))"
    and l': "l' = level_trade q gone l"
    and b2: "b2 = set_levels ms (upd_best p l' rest)
      ((if gone then b1\<lparr>orders_by_id := (orders_by_id b1)(order_id (h1 m) := None)\<rparr> else b1)
         \<lparr>next_trade_id := next_trade_id b1 + 1, rpt_seq := rpt_seq b1 + 1\<rparr>)"
    and evs2: "evs2 = evs1 @ [EvFilled (fill_event b1 p q (h2 m) (h2 t)), EvBook (level_event b1 ms p l' 1)]"
    by (rule trade_step_cases) blast
  have tr: "traded evs2 = traded evs1 + q" by (simp add: evs2 fill_event_def)
  have "total_quantity l = q" if "queue l' = []"
    using that lok qs gone by (auto simp: l' level_ok_def split: if_splits)
  then have dp: "depth (levels ms b2) = depth (levels ms b1) - q"
    using L by (auto simp: b2 upd_best_def l')
  from trade(1) m tr dp show ?case by (auto simp: h2 intro: same_terms_fill)
qed

text \<open>What the book offers within the limit, and how much of it is taken.\<close>

lemma eligible_depth:
  assumes "side_ok h s ls"
  shows "(\<Sum>(i, p, k)\<leftarrow>eligible beyond h ls. k) = depth (takeWhile (\<lambda>(p, l). \<not> beyond p) ls)"
  using assms
proof (induction ls)
  case (Cons x ls)
  have "(\<Sum>(i, p, k)\<leftarrow>map (\<lambda>m. (order_id (h m), p', remainingQty (h m))) qs. k) =
      (\<Sum>m\<leftarrow>qs. remainingQty (h m))" for p' qs
    by (induction qs) auto
  with Cons show ?case by (cases x) (auto simp: side_ok_Cons level_ok_def)
qed simp

lemma eligible_pos:
  assumes "side_ok h s ls"
  shows "\<forall>(i, p, k)\<in>set (eligible beyond h ls). 0 < k"
  using assms
proof (induction ls)
  case (Cons x ls)
  then show ?case by (cases x) (auto simp: side_ok_Cons level_ok_def open_at_def)
qed simp

lemma traded_claims: "traded evs = (\<Sum>(i, p, k)\<leftarrow>map claim_of (fills evs). k)"
  by (simp add: traded_def claim_of_def comp_def)

lemma other_side_trades:
  assumes "(trade_step t beyond (maker_side x))\<^sup>*\<^sup>* (h, b, evs) (h', b', evs')"
    and "side_ok h (maker_side x) (levels (maker_side x) b)"
    and "t \<notin> set (resting (maker_side x) b)"
  shows "levels (if side x = Buy then Buy else Sell) b' = levels (if side x = Buy then Buy else Sell) b"
  using assms
proof (induction rule: trades_invariant)
  case start
  then show ?case by simp
next
  case (trade h1 b1 evs1 h2 b2 evs2)
  from trade(2-4) show ?case
    by (rule trade_step_cases)
      (use trade(1) in \<open>auto simp: maker_side_def levels_def set_levels_def\<close>)
qed

lemma matchOrder_terms:
  assumes "matchOrder t h b = (h', b', evs)" and "book_inv h b" and "unbooked t b"
  shows "same_terms (h' x) (h x)"
  using trades_conserve [OF matchOrder_trades(1) [OF assms] book_inv_side [OF assms(2)]
      unbooked_resting [OF assms(3)]] by simp

lemma matchOrder_volume:
  assumes "matchOrder t h b = (h', b', evs)" and "book_inv h b" and "unbooked t b"
    and "0 \<le> remainingQty (h t)"
  shows "traded evs = min (remainingQty (h t))
    (depth (takeWhile (\<lambda>(p, l). \<not> beyond_limit (h t) p) (levels (maker_side (h t)) b)))"
proof -
  have ok: "side_ok h (maker_side (h t)) (levels (maker_side (h t)) b)"
    using assms(2) by (rule book_inv_side)
  have "map claim_of (fills evs) =
    alloc (remainingQty (h t)) (eligible (beyond_limit (h t)) h (levels (maker_side (h t)) b))"
    using trades_alloc [OF matchOrder_trades(1) [OF assms(1-3)] ok unbooked_resting [OF assms(3)]]
      match_done_alloc [OF matchOrder_trades(2) [OF assms(1-3)]] by auto
  with alloc_sum [OF eligible_pos [OF ok] assms(4)] eligible_depth [OF ok]
  show ?thesis by (simp add: traded_claims)
qed

text \<open>
  C7.  Conservation: matching moves quantity and creates none.  The incoming order's filled quantity
  grows by the sum of the trades, the depth of the other side shrinks by the same amount, the
  incoming order's own side is untouched, no order changes in anything but filled quantity and status,
  and the traded volume is the smaller of what the order wants and what the book offers within its
  limit.
\<close>

theorem matchOrder_conserves_quantity:
  assumes "matchOrder t h b = (h', b', evs)" and "book_inv h b" and "unbooked t b"
    and "0 \<le> remainingQty (h t)"
  shows "filled_qty (h' t) = filled_qty (h t) + traded evs \<and>
    depth (levels (maker_side (h t)) b') = depth (levels (maker_side (h t)) b) - traded evs \<and>
    levels (if side (h t) = Buy then Buy else Sell) b' = levels (if side (h t) = Buy then Buy else Sell) b \<and>
    (\<forall>x. same_terms (h' x) (h x)) \<and>
    traded evs = min (remainingQty (h t))
      (depth (takeWhile (\<lambda>(p, l). \<not> beyond_limit (h t) p) (levels (maker_side (h t)) b)))"
proof -
  note tr = matchOrder_trades(1) [OF assms(1-3)]
  note ok = book_inv_side [OF assms(2)] and out = unbooked_resting [OF assms(3)]
  from trades_conserve [OF tr ok out] other_side_trades [OF tr ok out] matchOrder_volume [OF assms]
  show ?thesis by simp
qed

theorem matchOrder_conserves_quantity_witness:
  "book_inv ex_heap ex_book \<and> unbooked 7 ex_book \<and> 0 \<le> remainingQty (ex_heap 7) \<and>
   (case matchOrder 7 ex_heap ex_book of (h', b', evs) \<Rightarrow>
      traded evs = 2 \<and> filled_qty (h' 7) = 2 \<and> depth (bid_levels b') = 0)"
  using matchOrder_conserves_quantity [of 7 ex_heap ex_book, OF _ ex_inv ex_unbooked(3)] ex_inv ex_unbooked(3)
  by (cases "matchOrder 7 ex_heap ex_book")
    (simp add: maker_side_def beyond_limit_def ex_book_def)

section \<open>The fill-or-kill test\<close>

lemma fok_loop_depth:
  assumes "\<forall>(p, l)\<in>set ls. 0 < total_quantity l"
  shows "fok_loop beyond n ls \<longleftrightarrow> n \<le> depth (takeWhile (\<lambda>(p, l). \<not> beyond p) ls)"
  using assms
proof (induction beyond n ls rule: fok_loop.induct)
  case (2 beyond n p l rest)
  have "0 \<le> depth (takeWhile (\<lambda>(p, l). \<not> beyond p) rest)"
    unfolding depth_def using "2.prems" by (intro sum_list_nonneg) (force dest: set_takeWhileD)
  with 2 show ?case by (auto simp: Let_def)
qed simp

lemma level_ok_qty_pos: "level_ok h s p l \<Longrightarrow> queue l \<noteq> [] \<Longrightarrow> 0 < total_quantity l"
proof -
  assume l: "level_ok h s p l" "queue l \<noteq> []"
  then obtain m qs where q: "queue l = m # qs" by (cases "queue l") auto
  with l have "0 < remainingQty (h m)" "0 \<le> (\<Sum>m\<leftarrow>qs. remainingQty (h m))"
    by (auto simp: level_ok_def open_at_def intro!: sum_list_pos)
  with l q show ?thesis by (simp add: level_ok_def)
qed

lemma canFillFOK_depth:
  assumes "book_inv h b" and "order_type (h t) \<in> {Limit, Market}"
  shows "canFillFOK t h b \<longleftrightarrow> quantity (h t) \<le>
    depth (takeWhile (\<lambda>(p, l). \<not> beyond_limit (h t) p) (levels (maker_side (h t)) b))"
proof -
  have pos: "\<forall>(p, l)\<in>set (levels (maker_side (h t)) b). 0 < total_quantity l"
    using book_inv_side [OF assms(1)] level_ok_qty_pos by (fastforce dest: side_okD)
  have "beyond_limit (h t) = (if side (h t) = Buy
      then (\<lambda>p. order_type (h t) = Limit \<and> price (h t) < p)
      else (\<lambda>p. order_type (h t) = Limit \<and> p < price (h t)))"
    using assms(2) by (auto simp: beyond_limit_def fun_eq_iff)
  then have "canFillFOK t h b = fok_loop (beyond_limit (h t)) (quantity (h t)) (levels (maker_side (h t)) b)"
    by (simp add: canFillFOK_def maker_side_def Let_def)
  with fok_loop_depth [OF pos] show ?thesis by simp
qed

end
