(* ===== verification/Book_Operations.thy ===== *)
theory Book_Operations
  imports Book_Matching
begin

text \<open>
  Inserting, removing, and the three public operations: each keeps \<open>book_inv\<close>, and each behaves on
  every branch as its order type and time in force promise.

  All changes of a side have one shape: the entries \<open>xs @ old @ ys\<close> become \<open>xs @ new @ ys\<close>, where
  \<open>old\<close> and \<open>new\<close> are the entry of one price, or nothing.
\<close>

definition own_side :: "Order \<Rightarrow> Side" where
  "own_side o' = (if side o' = Buy then Buy else Sell)"

definition queue_of :: "(Price \<times> Level) list \<Rightarrow> OrderPtr list" where
  "queue_of ls = concat (map (queue \<circ> snd) ls)"

section \<open>Editing a side\<close>

lemma side_ok_append:
  "side_ok h s (xs @ ys) \<longleftrightarrow> side_ok h s xs \<and> side_ok h s ys \<and>
     (\<forall>p\<in>fst ` set xs. \<forall>p'\<in>fst ` set ys. better s p p')"
  by (auto simp: side_ok_def sorted_wrt_append)

lemma side_ok_edit:
  assumes "side_ok h s (xs @ old @ ys)" and "fst ` set old \<subseteq> {p}"
    and "level_ok h s p l'" and "\<forall>y\<in>fst ` set xs. better s y p" and "\<forall>z\<in>fst ` set ys. better s p z"
  shows "side_ok h s (xs @ upd_best p l' ys)"
  using assms by (auto simp: side_ok_append side_ok_Cons upd_best_def)

lemma side_ok_split:
  assumes ok: "side_ok h s ls" and "map_of ls p = Some l"
  obtains xs ys where "ls = xs @ (p, l) # ys" and "\<forall>y\<in>fst ` set xs. better s y p"
    and "\<forall>z\<in>fst ` set ys. better s p z" and "level_ok h s p l" and "queue l \<noteq> []"
proof -
  obtain xs ys where "ls = xs @ (p, l) # ys" using assms(2) by (rule smap_split)
  with ok that show thesis by (simp add: side_ok_append side_ok_Cons)
qed

lemma not_better_mem:
  "\<forall>y\<in>fst ` set xs. better s y p \<Longrightarrow> p \<notin> fst ` set xs"
  "\<forall>z\<in>fst ` set ys. better s p z \<Longrightarrow> p \<notin> fst ` set ys"
  using better.irrefl by blast+

section \<open>removeFromBook\<close>

lemma removeFromBook_cases:
  assumes ok: "side_ok h (own_side (h t)) (levels (own_side (h t)) b)"
    and t: "t \<in> set (resting (own_side (h t)) b)"
  obtains xs l ys l' where
    "levels (own_side (h t)) b = xs @ (price (h t), l) # ys" and "t \<in> set (queue l)"
    and "\<forall>y\<in>fst ` set xs. better (own_side (h t)) y (price (h t))"
    and "\<forall>z\<in>fst ` set ys. better (own_side (h t)) (price (h t)) z"
    and "level_ok h (own_side (h t)) (price (h t)) l" and "l' = level_removeOrder h t l"
    and "removeFromBook t h b =
      (set_levels (own_side (h t)) (xs @ upd_best (price (h t)) l' ys)
         (b\<lparr>orders_by_id := (orders_by_id b)(order_id (h t) := None), rpt_seq := rpt_seq b + 1\<rparr>),
       [EvBook (level_event b (own_side (h t)) (price (h t)) l' (length xs + 1))])"
proof -
  let ?s = "own_side (h t)" and ?p = "price (h t)"
  obtain l where l: "map_of (levels ?s b) ?p = Some l" "t \<in> set (queue l)"
    using ok t by (rule resting_level)
  from ok l(1) obtain xs ys where L: "levels ?s b = xs @ (?p, l) # ys"
    and xs: "\<forall>y\<in>fst ` set xs. better ?s y ?p" and ys: "\<forall>z\<in>fst ` set ys. better ?s ?p z"
    and lok: "level_ok h ?s ?p l"
    by (rule side_ok_split)
  note nin = not_better_mem(1) [OF xs] not_better_mem(2) [OF ys]
  let ?b = "b\<lparr>orders_by_id := (orders_by_id b)(order_id (h t) := None)\<rparr>"
  have idx: "priceLevelIndex ?s ?p ?b = length xs + 1"
    using L nin by (intro priceLevelIndex_at) simp_all
  have "removeFromBook t h b =
      (set_levels ?s (xs @ upd_best ?p (level_removeOrder h t l) ys)
         (b\<lparr>orders_by_id := (orders_by_id b)(order_id (h t) := None), rpt_seq := rpt_seq b + 1\<rparr>),
       [EvBook (level_event b ?s ?p (level_removeOrder h t l) (length xs + 1))])"
    using L nin l(1) idx
    by (simp add: removeFromBook_def Let_def own_side_def [symmetric] generateBookUpdate_def
        level_event_def upd_best_def level_empty_def smap_erase_notin smap_put_notin)
  with that [OF L l(2) xs ys lok refl] show thesis by simp
qed

lemma level_ok_remove:
  assumes "level_ok h s p l" and "t \<in> set (queue l)"
  shows "level_ok h s p (level_removeOrder h t l)"
proof -
  have "int (length (remove1 t (queue l))) = int (length (queue l)) - 1"
    using assms(2) length_pos_if_in_set [OF assms(2)] by (simp add: length_remove1 of_nat_diff Suc_leI del: length_greater_0_conv)
  moreover have "set (remove1 t (queue l)) \<subseteq> set (queue l)" by (rule set_remove1_subset)
  ultimately show ?thesis using assms
    by (auto simp: level_ok_def sum_list_remove1)
qed

section \<open>insertResting\<close>

lemma insertResting_cases:
  assumes ok: "side_ok h (own_side (h t)) (levels (own_side (h t)) b)"
  obtains xs old ys l' where
    "levels (own_side (h t)) b = xs @ old @ ys"
    and "(old = [] \<and> l' = level_addOrder h t (level_new\<lparr>level_price := price (h t)\<rparr>)) \<or>
         (\<exists>l. old = [(price (h t), l)] \<and> level_ok h (own_side (h t)) (price (h t)) l \<and>
              l' = level_addOrder h t l)"
    and "\<forall>y\<in>fst ` set xs. better (own_side (h t)) y (price (h t))"
    and "\<forall>z\<in>fst ` set ys. better (own_side (h t)) (price (h t)) z"
    and "insertResting t h b =
      (set_levels (own_side (h t)) (xs @ (price (h t), l') # ys)
         (b\<lparr>orders_by_id := (orders_by_id b)(order_id (h t) \<mapsto> t), rpt_seq := rpt_seq b + 1\<rparr>),
       [EvBook ((level_event b (own_side (h t)) (price (h t)) l' (length xs + 1))
          \<lparr>bu_update_action := if old = [] then MD_New else MD_Change\<rparr>)])"
proof -
  let ?s = "own_side (h t)" and ?p = "price (h t)"
  let ?b = "b\<lparr>orders_by_id := (orders_by_id b)(order_id (h t) \<mapsto> t)\<rparr>"
  have sorted: "sorted_wrt (better ?s) (map fst (levels ?s b))" using ok by (simp add: side_ok_def)
  have add: "queue (level_addOrder h t l) \<noteq> []" for l by (simp add: level_addOrder_def)
  note defs = insertResting_def Let_def own_side_def [symmetric] generateBookUpdate_def
    level_event_def add
  show thesis
  proof (cases "map_of (levels ?s b) ?p")
    case None
    then have nin: "?p \<notin> fst ` set (levels ?s b)" by (simp add: map_of_eq_None_iff)
    obtain xs ys where L: "levels ?s b = xs @ ys"
      and E: "smap_emplace (better ?s) ?p level_new (levels ?s b) = xs @ (?p, level_new) # ys"
      and xs: "\<forall>y\<in>fst ` set xs. better ?s y ?p" and ys: "\<forall>z\<in>fst ` set ys. better ?s ?p z"
      using sorted nin by (rule better.emplace_split)
    note nin' = not_better_mem(1) [OF xs] not_better_mem(2) [OF ys]
    let ?l = "level_addOrder h t (level_new\<lparr>level_price := ?p\<rparr>)"
    have the: "map_of (xs @ (?p, level_new) # ys) ?p = Some level_new"
      by (simp only: map_of_append_notin [OF nin'(1)]) simp
    have idx: "priceLevelIndex ?s ?p (set_levels ?s (xs @ (?p, ?l) # ys) b') = length xs + 1" for b'
      using nin' by (intro priceLevelIndex_at) simp_all
    have "insertResting t h b =
      (set_levels ?s (xs @ (?p, ?l) # ys)
         (b\<lparr>orders_by_id := (orders_by_id b)(order_id (h t) \<mapsto> t), rpt_seq := rpt_seq b + 1\<rparr>),
       [EvBook ((level_event b ?s ?p ?l (length xs + 1))\<lparr>bu_update_action := MD_New\<rparr>)])"
      using None nin' by (simp add: defs E the idx smap_put_notin del: map_of_append)
    with that [of xs "[]" ys ?l] L xs ys show thesis by simp
  next
    case (Some l)
    from ok Some obtain xs ys where L: "levels ?s b = xs @ (?p, l) # ys"
      and xs: "\<forall>y\<in>fst ` set xs. better ?s y ?p" and ys: "\<forall>z\<in>fst ` set ys. better ?s ?p z"
      and lok: "level_ok h ?s ?p l" by (rule side_ok_split)
    note nin' = not_better_mem(1) [OF xs] not_better_mem(2) [OF ys]
    have E: "smap_emplace (better ?s) ?p level_new (levels ?s b) = levels ?s b"
      using sorted L by (intro better.emplace_existing) auto
    let ?l = "level_addOrder h t l"
    have idx: "priceLevelIndex ?s ?p (set_levels ?s (xs @ (?p, ?l) # ys) b') = length xs + 1" for b'
      using nin' by (intro priceLevelIndex_at) simp_all
    have the: "map_of (xs @ (?p, l) # ys) ?p = Some l" using Some L by simp
    have "insertResting t h b =
      (set_levels ?s (xs @ (?p, ?l) # ys)
         (b\<lparr>orders_by_id := (orders_by_id b)(order_id (h t) \<mapsto> t), rpt_seq := rpt_seq b + 1\<rparr>),
       [EvBook ((level_event b ?s ?p ?l (length xs + 1))\<lparr>bu_update_action := MD_Change\<rparr>)])"
      using nin' by (simp add: defs E [unfolded L] L the idx smap_put_notin del: map_of_append)
    with that [of xs "[(?p, l)]" ys ?l] L xs ys lok show thesis by simp
  qed
qed

lemma level_ok_add:
  assumes "level_ok h s p l" and "open_at s p (h t)" and "t \<notin> set (queue l)"
  shows "level_ok h s p (level_addOrder h t l)"
  using assms by (auto simp: level_ok_def)

lemma level_ok_new: "open_at s p (h t) \<Longrightarrow> level_ok h s p (level_addOrder h t (level_new\<lparr>level_price := p\<rparr>))"
  by (auto simp: level_ok_def)

section \<open>The invariant under edits\<close>

text \<open>
  The parts of the invariant that do not mention crossing.  Between the removal and the re-insertion
  of a modified order, and between matching and resting, the code relies on these alone.
\<close>

lemma resting_levels:
  "resting s (set_levels s ls b) = queue_of ls" "resting s b = queue_of (levels s b)"
  by (simp_all add: resting_def queue_of_def)

lemma queue_of_simps [simp]:
  "queue_of [] = []" "queue_of (xs @ ys) = queue_of xs @ queue_of ys"
  "queue_of ((p, l) # ls) = queue l @ queue_of ls"
  "queue_of (upd_best p l ls) = queue l @ queue_of ls"
  by (simp_all add: queue_of_def upd_best_def)

lemma index_ok_unique:
  assumes "index_ok h b" and "x \<in> set (resting Buy b) \<union> set (resting Sell b)"
    and "y \<in> set (resting Buy b) \<union> set (resting Sell b)" and "order_id (h x) = order_id (h y)"
  shows "x = y"
  using assms unfolding index_ok_def by (metis option.inject)

lemma index_ok_remove:
  assumes ix: "index_ok h b" and t: "t \<in> set (resting Buy b) \<union> set (resting Sell b)"
    and ids: "\<And>x. order_id (h' x) = order_id (h x)"
    and rest: "set (resting Buy b') \<union> set (resting Sell b') =
      set (resting Buy b) \<union> set (resting Sell b) - {t}"
    and "orders_by_id b' = (orders_by_id b)(order_id (h t) := None)"
  shows "index_ok h' b'"
  using index_ok_unique [OF ix _ t] ix t unfolding index_ok_def rest ids assms(5) by auto

lemma index_ok_insert:
  assumes ix: "index_ok h b" and t: "orders_by_id b (order_id (h t)) = None"
    and rest: "set (resting Buy b') \<union> set (resting Sell b') =
      insert t (set (resting Buy b) \<union> set (resting Sell b))"
    and "orders_by_id b' = (orders_by_id b)(order_id (h t) \<mapsto> t)"
  shows "index_ok h b'"
proof -
  have "order_id (h x) \<noteq> order_id (h t)" if "x \<in> set (resting Buy b) \<union> set (resting Sell b)" for x
    using ix t that unfolding index_ok_def by (metis option.distinct(1))
  with ix show ?thesis unfolding index_ok_def rest assms(4) by auto
qed

lemma index_ok_same:
  assumes ix: "index_ok h b" and ids: "\<And>x. order_id (h' x) = order_id (h x)"
    and rest: "set (resting Buy b') \<union> set (resting Sell b') =
      set (resting Buy b) \<union> set (resting Sell b)"
    and "orders_by_id b' = orders_by_id b"
  shows "index_ok h' b'"
  using ix unfolding index_ok_def rest ids assms(4) .

definition opposite :: "Side \<Rightarrow> Side" where
  "opposite s = (if s = Buy then Sell else Buy)"

lemma maker_side_opposite: "maker_side x = opposite (own_side x)"
  by (simp add: maker_side_def own_side_def opposite_def)

lemma levels_opposite [simp]:
  "levels (opposite s) (set_levels s ls b) = levels (opposite s) b"
  "levels s (set_levels (opposite s) ls b) = levels s b"
  by (simp_all add: levels_def set_levels_def opposite_def)

lemma resting_opposite [simp]:
  "resting (opposite s) (set_levels s ls b) = resting (opposite s) b"
  "resting s (set_levels (opposite s) ls b) = resting s b"
  by (simp_all add: resting_levels)

lemma resting_fields [simp]:
  "resting s (b\<lparr>orders_by_id := i\<rparr>) = resting s b" "resting s (b\<lparr>rpt_seq := r\<rparr>) = resting s b"
  "resting s (b\<lparr>next_trade_id := n\<rparr>) = resting s b"
  by (simp_all add: resting_levels)

lemma opposite_simps [simp]:
  "opposite Buy = Sell" "opposite Sell = Buy"
  by (simp_all add: opposite_def)

lemma own_side_cases: "own_side x = Buy \<or> own_side x = Sell"
  by (simp add: own_side_def)

lemma book_sides:
  assumes "s = Buy \<or> s = Sell"
  shows "book_inv h b \<longleftrightarrow> side_ok h s (levels s b) \<and> side_ok h (opposite s) (levels (opposite s) b) \<and>
    index_ok h b \<and> uncrossed b"
    and "set (resting Buy b) \<union> set (resting Sell b) = set (resting s b) \<union> set (resting (opposite s) b)"
    and "uncrossed b \<longleftrightarrow> (\<forall>p\<in>fst ` set (levels s b). \<forall>p'\<in>fst ` set (levels (opposite s) b). better s p' p)"
proof -
  show "book_inv h b \<longleftrightarrow> side_ok h s (levels s b) \<and> side_ok h (opposite s) (levels (opposite s) b) \<and>
      index_ok h b \<and> uncrossed b"
    and "set (resting Buy b) \<union> set (resting Sell b) = set (resting s b) \<union> set (resting (opposite s) b)"
    using assms by (auto simp: book_inv_def)
  show "uncrossed b \<longleftrightarrow> (\<forall>p\<in>fst ` set (levels s b). \<forall>p'\<in>fst ` set (levels (opposite s) b). better s p' p)"
    using assms unfolding uncrossed_def better_def by (elim disjE; simp; blast)
qed

section \<open>Every operation keeps the invariant\<close>

text \<open>Prices that are on a side.\<close>

definition prices :: "Side \<Rightarrow> OrderBook \<Rightarrow> Price set" where
  "prices s b = fst ` set (levels s b)"

lemma prices_simps [simp]:
  "prices s (set_levels s ls b) = fst ` set ls"
  "prices (opposite s) (set_levels s ls b) = prices (opposite s) b"
  "prices s (set_levels (opposite s) ls b) = prices s b"
  "prices s (b\<lparr>orders_by_id := i\<rparr>) = prices s b" "prices s (b\<lparr>rpt_seq := r\<rparr>) = prices s b"
  "prices s (b\<lparr>next_trade_id := n\<rparr>) = prices s b"
  by (simp_all add: prices_def)

lemma prices_upd_best: "fst ` set (upd_best p l ls) \<subseteq> insert p (fst ` set ls)"
  by (auto simp: upd_best_def)

lemma uncrossed_prices:
  "s = Buy \<or> s = Sell \<Longrightarrow>
     uncrossed b \<longleftrightarrow> (\<forall>p\<in>prices s b. \<forall>p'\<in>prices (opposite s) b. better s p' p)"
  unfolding prices_def by (rule book_sides(3))

lemma uncrossed_subset:
  assumes "uncrossed b" and "s = Buy \<or> s = Sell"
    and "prices s b' \<subseteq> prices s b" and "prices (opposite s) b' \<subseteq> prices (opposite s) b"
  shows "uncrossed b'"
  using assms unfolding uncrossed_prices [OF assms(2)] by blast

subsection \<open>Matching\<close>

lemma trade_step_book_inv:
  assumes inv: "book_inv h b" and t: "unbooked t b" and ms: "ms = Buy \<or> ms = Sell"
    and step: "trade_step t beyond ms (h, b, evs) (h', b', evs')"
  shows "book_inv h' b' \<and> unbooked t b'"
proof -
  have ok: "side_ok h ms (levels ms b)" and ok2: "side_ok h (opposite ms) (levels (opposite ms) b)"
    and ix: "index_ok h b" and un: "uncrossed b"
    using inv unfolding book_sides(1) [OF ms] by simp_all
  have tout: "t \<notin> set (resting ms b)" "t \<notin> set (resting (opposite ms) b)"
    using t unfolding unbooked_def book_sides(2) [OF ms] by simp_all
  from ok tout(1) step obtain p l rest m qs q gone l' where
    L: "levels ms b = (p, l) # rest" and qs: "queue l = m # qs" and m: "m \<noteq> t" "m \<notin> set qs"
      "m \<notin> set (concat (map (queue \<circ> snd) rest))"
    and h': "h' = h(m := fillOrder q (h m), t := fillOrder q (h t))"
    and l': "l' = level_trade q gone l"
    and b': "b' = set_levels ms (upd_best p l' rest)
      ((if gone then b\<lparr>orders_by_id := (orders_by_id b)(order_id (h m) := None)\<rparr> else b)
         \<lparr>next_trade_id := next_trade_id b + 1, rpt_seq := rpt_seq b + 1\<rparr>)"
    by (rule trade_step_cases) blast
  have r: "resting ms b = m # qs @ queue_of rest" "resting ms b' = queue l' @ queue_of rest"
    and r2: "resting (opposite ms) b' = resting (opposite ms) b"
    using L qs by (simp_all add: resting_levels b')
  have m2: "m \<notin> set (resting (opposite ms) b)"
    using resting_sides_disjoint [OF inv] r(1) ms by auto
  have same: "order_id (h' x) = order_id (h x)" for x by (simp add: h')
  have "side_ok h' (opposite ms) (levels (opposite ms) b') = side_ok h (opposite ms) (levels (opposite ms) b)"
  proof -
    have lv: "levels (opposite ms) b' = levels (opposite ms) b" by (simp add: b')
    show ?thesis unfolding lv
    proof (rule side_ok_cong)
      fix p1 l1 i assume "(p1, l1) \<in> set (levels (opposite ms) b)" "i \<in> set (queue l1)"
      then have "i \<in> set (resting (opposite ms) b)" by (auto simp: in_resting)
      with m2 tout(2) show "h' i = h i" by (auto simp: h')
    qed
  qed
  moreover have "side_ok h' ms (levels ms b')"
    using ok tout(1) step by (rule trade_once_side_ok(1))
  moreover have "index_ok h' b'"
  proof (cases gone)
    case True
    then have "set (resting Buy b') \<union> set (resting Sell b') = set (resting Buy b) \<union> set (resting Sell b) - {m}"
      using r r2 m m2 qs unfolding book_sides(2) [OF ms] by (auto simp: l' queue_of_def)
    moreover have "orders_by_id b' = (orders_by_id b)(order_id (h m) := None)" using True by (simp add: b')
    moreover have "m \<in> set (resting Buy b) \<union> set (resting Sell b)"
      unfolding book_sides(2) [OF ms] using r by simp
    ultimately show ?thesis using index_ok_remove [OF ix _ same] by blast
  next
    case False
    then have "set (resting Buy b') \<union> set (resting Sell b') = set (resting Buy b) \<union> set (resting Sell b)"
      using r r2 qs unfolding book_sides(2) [OF ms] by (auto simp: l')
    moreover have "orders_by_id b' = orders_by_id b" using False by (simp add: b')
    ultimately show ?thesis by (rule index_ok_same [OF ix same])
  qed
  moreover have "uncrossed b'"
    using un ms by (rule uncrossed_subset) (auto simp: b' prices_def L upd_best_def)
  moreover have "unbooked t b'"
    using tout trade_once_side_ok(2) [OF ok tout(1) step] r2
    unfolding unbooked_def book_sides(2) [OF ms] by auto
  ultimately show ?thesis using ok2 unfolding book_sides(1) [OF ms] by simp
qed

lemma matchOrder_book_inv:
  assumes "matchOrder t h b = (h', b', evs)" and "book_inv h b" and "unbooked t b"
  shows "book_inv h' b' \<and> unbooked t b'"
  using matchOrder_trades(1) [OF assms] book_inv_side [OF assms(2)] unbooked_resting [OF assms(3)]
proof (induction rule: trades_invariant)
  case start
  then show ?case using assms by simp
next
  case (trade h1 b1 evs1 h2 b2 evs2)
  moreover have "maker_side (h t) = Buy \<or> maker_side (h t) = Sell" by (simp add: maker_side_def)
  ultimately show ?case using trade_step_book_inv [of h1 b1 t "maker_side (h t)"] by blast
qed

subsection \<open>Insertion and removal\<close>

lemma book_inv_upd:
  assumes "unbooked t b"
  shows "book_inv (h(t := x)) b = book_inv h b"
proof -
  have out: "m \<noteq> t" if "m \<in> set (resting Buy b) \<union> set (resting Sell b)" for m
    using assms that by (auto simp: unbooked_def)
  have "side_ok (h(t := x)) s (levels s b) = side_ok h s (levels s b)" if "s = Buy \<or> s = Sell" for s
  proof (rule side_ok_cong)
    fix p l m assume "(p, l) \<in> set (levels s b)" "m \<in> set (queue l)"
    then have "m \<in> set (resting s b)" by (auto simp: in_resting)
    with out that show "(h(t := x)) m = h m" by auto
  qed
  from this [of Buy] this [of Sell] show ?thesis
    using out by (auto simp: book_inv_def index_ok_def)
qed

lemma insertResting_book_inv:
  assumes inv: "book_inv h b" and t: "unbooked t b" and i: "orders_by_id b (order_id (h t)) = None"
    and op: "order_type (h t) = Limit" "0 < remainingQty (h t)"
    and far: "\<forall>p'\<in>prices (opposite (own_side (h t))) b. better (own_side (h t)) p' (price (h t))"
    and ins: "insertResting t h b = (b', evs)"
  shows "book_inv h b'" and "set (resting (own_side (h t)) b') = insert t (set (resting (own_side (h t)) b))"
    and "resting (opposite (own_side (h t))) b' = resting (opposite (own_side (h t))) b"
proof -
  let ?s = "own_side (h t)" and ?p = "price (h t)"
  note s = own_side_cases [of "h t"]
  have ok: "side_ok h ?s (levels ?s b)" and ok2: "side_ok h (opposite ?s) (levels (opposite ?s) b)"
    and ix: "index_ok h b" and un: "uncrossed b"
    using inv unfolding book_sides(1) [OF s] by simp_all
  have tout: "t \<notin> set (resting ?s b)" using t s unfolding unbooked_def by auto
  from ok obtain xs old ys l' where L: "levels ?s b = xs @ old @ ys"
    and l': "(old = [] \<and> l' = level_addOrder h t (level_new\<lparr>level_price := ?p\<rparr>)) \<or>
         (\<exists>l. old = [(?p, l)] \<and> level_ok h ?s ?p l \<and> l' = level_addOrder h t l)"
    and xs: "\<forall>y\<in>fst ` set xs. better ?s y ?p" and ys: "\<forall>z\<in>fst ` set ys. better ?s ?p z"
    and eq: "insertResting t h b =
      (set_levels ?s (xs @ (?p, l') # ys)
         (b\<lparr>orders_by_id := (orders_by_id b)(order_id (h t) \<mapsto> t), rpt_seq := rpt_seq b + 1\<rparr>),
       [EvBook ((level_event b ?s ?p l' (length xs + 1))
          \<lparr>bu_update_action := if old = [] then MD_New else MD_Change\<rparr>)])"
    by (rule insertResting_cases) blast
  have b': "b' = set_levels ?s (xs @ (?p, l') # ys)
      (b\<lparr>orders_by_id := (orders_by_id b)(order_id (h t) \<mapsto> t), rpt_seq := rpt_seq b + 1\<rparr>)"
    using ins eq by simp
  have ot: "open_at ?s ?p (h t)" using op by (simp add: open_at_def own_side_def)
  have "level_ok h ?s ?p l'"
    using l'
  proof (elim disjE exE conjE)
    fix l assume l: "old = [(?p, l)]" "level_ok h ?s ?p l" "l' = level_addOrder h t l"
    have "t \<notin> set (queue l)" using tout L l(1) by (simp add: resting_levels)
    with l ot show ?thesis by (simp add: level_ok_add)
  qed (simp add: level_ok_new ot)
  moreover have "fst ` set old \<subseteq> {?p}" "queue l' = queue_of old @ [t]" using l' by auto
  ultimately have sok: "side_ok h ?s (xs @ (?p, l') # ys)"
    and q: "queue l' = queue_of old @ [t]"
    using side_ok_edit [OF ok [unfolded L] _ _ xs ys, of l'] by (simp_all add: upd_best_def)
  show r: "set (resting ?s b') = insert t (set (resting ?s b))"
    by (auto simp: b' resting_levels L q)
  show r2: "resting (opposite ?s) b' = resting (opposite ?s) b" by (simp add: b')
  have "index_ok h b'"
    using ix i
  proof (rule index_ok_insert)
    show "set (resting Buy b') \<union> set (resting Sell b') = insert t (set (resting Buy b) \<union> set (resting Sell b))"
      unfolding book_sides(2) [OF s] r r2 by blast
  qed (simp add: b')
  moreover have "uncrossed b'"
  proof -
    have "prices ?s b' = insert ?p (prices ?s b)" using l' by (auto simp: b' prices_def L)
    moreover have "prices (opposite ?s) b' = prices (opposite ?s) b" by (simp add: b')
    ultimately show ?thesis using un far unfolding uncrossed_prices [OF s] by auto
  qed
  ultimately show "book_inv h b'"
    using sok ok2 unfolding book_sides(1) [OF s] by (simp add: b')
qed

lemma removeFromBook_book_inv:
  assumes inv: "book_inv h b" and t: "orders_by_id b i = Some t"
    and rem: "removeFromBook t h b = (b', evs)"
  shows "book_inv h b'" and "unbooked t b'" and "orders_by_id b' = (orders_by_id b)(i := None)"
    and "order_id (h t) = i" and "t \<in> set (resting Buy b) \<union> set (resting Sell b)"
    and "set (resting Buy b') \<union> set (resting Sell b') = set (resting Buy b) \<union> set (resting Sell b) - {t}"
    and "book_security_id b' = book_security_id b"
proof -
  let ?s = "own_side (h t)" and ?p = "price (h t)"
  note s = own_side_cases [of "h t"]
  have ok: "side_ok h ?s (levels ?s b)" and ok2: "side_ok h (opposite ?s) (levels (opposite ?s) b)"
    and ix: "index_ok h b" and un: "uncrossed b"
    using inv unfolding book_sides(1) [OF s] by simp_all
  have tin: "t \<in> set (resting Buy b) \<union> set (resting Sell b)" and id: "order_id (h t) = i"
    using ix t unfolding index_ok_def by auto
  have tout: "t \<notin> set (resting (opposite ?s) b)"
  proof
    assume "t \<in> set (resting (opposite ?s) b)"
    from resting_open [OF ok2 this] s show False by (auto simp: open_at_def own_side_def)
  qed
  with tin have ts: "t \<in> set (resting ?s b)" unfolding book_sides(2) [OF s] by blast
  from ok ts obtain xs l ys l' where L: "levels ?s b = xs @ (?p, l) # ys" and tl: "t \<in> set (queue l)"
    and xs: "\<forall>y\<in>fst ` set xs. better ?s y ?p" and ys: "\<forall>z\<in>fst ` set ys. better ?s ?p z"
    and lok: "level_ok h ?s ?p l" and l': "l' = level_removeOrder h t l"
    and eq: "removeFromBook t h b =
      (set_levels ?s (xs @ upd_best ?p l' ys)
         (b\<lparr>orders_by_id := (orders_by_id b)(order_id (h t) := None), rpt_seq := rpt_seq b + 1\<rparr>),
       [EvBook (level_event b ?s ?p l' (length xs + 1))])"
    by (rule removeFromBook_cases)
  have b': "b' = set_levels ?s (xs @ upd_best ?p l' ys)
      (b\<lparr>orders_by_id := (orders_by_id b)(order_id (h t) := None), rpt_seq := rpt_seq b + 1\<rparr>)"
    using rem eq by simp
  have sok: "side_ok h ?s (xs @ upd_best ?p l' ys)"
    using ok xs ys level_ok_remove [OF lok tl]
    unfolding L l' by (intro side_ok_edit [of h ?s xs "[(?p, l)]" ys]) simp_all
  have "distinct (queue_of xs @ queue l @ queue_of ys)"
    using resting_distinct [OF ok] by (simp add: resting_levels L)
  then have r: "set (resting ?s b') = set (resting ?s b) - {t}"
    using tl by (auto simp: b' resting_levels L l')
  have r2: "resting (opposite ?s) b' = resting (opposite ?s) b" by (simp add: b')
  have all: "set (resting Buy b') \<union> set (resting Sell b') =
      set (resting Buy b) \<union> set (resting Sell b) - {t}"
    unfolding book_sides(2) [OF s] r r2 using tout by blast
  then show "unbooked t b'" unfolding unbooked_def by blast
  show "set (resting Buy b') \<union> set (resting Sell b') =
      set (resting Buy b) \<union> set (resting Sell b) - {t}" by (rule all)
  show "book_security_id b' = book_security_id b" by (simp add: b')
  show "t \<in> set (resting Buy b) \<union> set (resting Sell b)" by (rule tin)
  show id': "order_id (h t) = i" by (rule id)
  show ids: "orders_by_id b' = (orders_by_id b)(i := None)" by (simp add: b' id)
  have "index_ok h b'"
    using index_ok_remove [OF ix tin refl all] ids id by simp
  moreover have "uncrossed b'"
    using un s
    by (rule uncrossed_subset) (auto simp: b' prices_def L upd_best_def)
  ultimately show "book_inv h b'"
    using sok ok2 unfolding book_sides(1) [OF s] by (simp add: b')
qed

subsection \<open>The public operations\<close>

lemma matchOrder_index:
  assumes "matchOrder t h b = (h', b', evs)" and "book_inv h b" and "unbooked t b"
    and "orders_by_id b i = None"
  shows "orders_by_id b' i = None"
  using matchOrder_trades(1) [OF assms(1-3)] book_inv_side [OF assms(2)] unbooked_resting [OF assms(3)]
proof (induction rule: trades_invariant)
  case start
  then show ?case by (rule assms(4))
next
  case (trade h1 b1 evs1 h2 b2 evs2)
  from trade(2-4) show ?case
    by (rule trade_step_cases) (use trade(1) in simp)
qed

lemma own_side_terms: "same_terms x y \<Longrightarrow> own_side x = own_side y"
  by (simp add: own_side_def same_termsD)

lemma match_far:
  assumes m: "matchOrder t h b = (h', b', evs)" and inv: "book_inv h b" and t: "unbooked t b"
    and lim: "order_type (h t) = Limit" and rem: "0 < remainingQty (h' t)"
  shows "\<forall>p'\<in>prices (opposite (own_side (h' t))) b'. better (own_side (h' t)) p' (price (h' t))"
proof -
  note tm = matchOrder_terms [OF m inv t, of t]
  let ?s = "maker_side (h t)"
  have ok: "side_ok h' ?s (levels ?s b')"
    using book_inv_side matchOrder_book_inv [OF m inv t] by blast
  have "beyond_limit (h t) p" if p: "p \<in> fst ` set (levels ?s b')" for p
  proof -
    from p obtain p0 l0 rest where L: "levels ?s b' = (p0, l0) # rest" by (cases "levels ?s b'") auto
    with matchOrder_trades(2) [OF m inv t] rem have "beyond_limit (h t) p0" by simp
    moreover have "p = p0 \<or> better ?s p0 p" using ok L p by (auto simp: side_ok_Cons)
    ultimately show ?thesis
      by (auto simp: beyond_limit_def better_def maker_side_def split: if_splits)
  qed
  then show ?thesis
    using lim own_side_terms [OF tm] same_termsD(8) [OF tm]
    by (auto simp: prices_def maker_side_opposite beyond_limit_def better_def own_side_def
        split: if_splits)
qed

text \<open>Matching and, where the code says so, resting the remainder.\<close>

lemma match_then_rest:
  assumes m: "matchOrder t h b = (h', b', evs)" and inv: "book_inv h b" and t: "unbooked t b"
    and i: "orders_by_id b (order_id (h t)) = None"
    and lim: "order_type (h' t) = Limit" and rem: "\<not> isFullyFilled (h' t)"
    and ins: "insertResting t h' b' = (b'', us)"
  shows "book_inv h' b''"
proof -
  note inv' = matchOrder_book_inv [OF m inv t]
  note tm = same_termsD [OF matchOrder_terms [OF m inv t, of t]]
  have rem': "0 < remainingQty (h' t)" using rem by (simp add: isFullyFilled_iff)
  have i': "orders_by_id b' (order_id (h' t)) = None"
    using matchOrder_index [OF m inv t i] tm(1) by simp
  have "order_type (h t) = Limit" using lim tm(6) by simp
  note far = match_far [OF m inv t this rem']
  show ?thesis
    by (rule insertResting_book_inv(1) [OF conjunct1 [OF inv'] conjunct2 [OF inv'] i' lim rem' far ins])
qed

text \<open>
  C2.  \<^verbatim>\<open>OrderBook::addOrder\<close> keeps the invariant, whatever the order's type, side, quantity and time in
  force: sorted levels with no empty level, exact totals and counts, open limit orders filed under
  their own price and side, an exact id index, and a book that is never crossed.
\<close>

theorem book_addOrder_invariant:
  assumes inv: "book_inv h b" and t: "unbooked t b" and i: "orders_by_id b (order_id (h t)) = None"
    and add: "book_addOrder t h b = (h', b', evs)"
  shows "book_inv h' b'"
proof -
  obtain h1 b1 ev1 where m: "matchOrder t h b = (h1, b1, ev1)" by (metis prod_cases3)
  obtain b2 us where ins: "insertResting t h1 b1 = (b2, us)" by (metis prod.exhaust)
  note inv1 = matchOrder_book_inv [OF m inv t]
  from add inv show ?thesis
    using inv1 match_then_rest [OF m inv t i _ _ ins]
    by (auto simp: book_addOrder_def Let_def m ins book_inv_upd split: if_splits)
qed

theorem book_addOrder_invariant_witness:
  "book_inv ex_heap ex_book \<and> unbooked 6 ex_book \<and> orders_by_id ex_book (order_id (ex_heap 6)) = None \<and>
   (case book_addOrder 6 ex_heap ex_book of (h', b', evs) \<Rightarrow> book_inv h' b')"
  using book_addOrder_invariant [OF ex_inv ex_unbooked(2)] ex_inv ex_unbooked(2) ex_unindexed(2)
  by (cases "book_addOrder 6 ex_heap ex_book") simp

text \<open>\<^verbatim>\<open>OrderBook::cancelOrder\<close> keeps the invariant, and the cancelled order is in no queue of the book.\<close>

theorem book_cancelOrder_invariant:
  assumes inv: "book_inv h b" and can: "book_cancelOrder oid h b = (h', b', evs)"
  shows "book_inv h' b' \<and> orders_by_id b' oid = None \<and>
    (\<forall>t. orders_by_id b oid = Some t \<longrightarrow> unbooked t b' \<and> status (h' t) = Canceled)"
proof (cases "orders_by_id b oid")
  case None
  with assms show ?thesis by (simp add: book_cancelOrder_def)
next
  case (Some t)
  obtain b1 us where rem: "removeFromBook t h b = (b1, us)" by (metis prod.exhaust)
  note r = removeFromBook_book_inv [OF inv Some rem]
  from can Some rem have "h' = h(t := (h t)\<lparr>status := Canceled\<rparr>)" "b' = b1"
    by (simp_all add: book_cancelOrder_def Let_def)
  with r Some show ?thesis by (simp add: book_inv_upd)
qed

theorem book_cancelOrder_invariant_witness:
  "book_inv ex_heap ex_book \<and> orders_by_id ex_book 2 = Some 2 \<and>
   (case book_cancelOrder 2 ex_heap ex_book of (h', b', evs) \<Rightarrow>
      book_inv h' b' \<and> orders_by_id b' 2 = None \<and> unbooked 2 b' \<and> status (h' 2) = Canceled)"
proof -
  have "orders_by_id ex_book 2 = Some 2" by (simp add: ex_book_def)
  with book_cancelOrder_invariant [OF ex_inv, of 2] ex_inv show ?thesis
    by (cases "book_cancelOrder 2 ex_heap ex_book") simp
qed

text \<open>A modification of a resting order: out of the book, changed, matched and put back.\<close>

definition replaced :: "Price \<Rightarrow> Quantity \<Rightarrow> ClOrdId \<Rightarrow> Order \<Rightarrow> Order" where
  "replaced np nq ncl o' = o'\<lparr>price := np, quantity := nq,
     cl_ord_id := (if ncl \<noteq> [] then ncl else cl_ord_id o'), status := Replaced\<rparr>"

lemma book_modifyOrder_Some:
  assumes "orders_by_id b oid = Some t" and "removeFromBook t h b = (b1, us)"
    and x: "x = replaced np nq ncl (h t)"
    and m: "matchOrder t (h(t := x)) b1 = (h2, b2, ev2)" and "insertResting t h2 b2 = (b3, us3)"
    and rest: "rest \<longleftrightarrow> \<not> isFullyFilled (h2 t) \<and> order_type (h2 t) = Limit"
  shows "book_modifyOrder oid np nq ncl h b =
    (h2, if rest then b3 else b2,
     us @ EvModified \<lparr>mod_order_id = order_id x, mod_cl_ord_id = cl_ord_id x,
            mod_session_uuid = session_uuid x, mod_security_id = security_id x,
            mod_new_price = np, mod_new_qty = nq, mod_cum_qty = filled_qty x,
            mod_leaves_qty = remainingQty x\<rparr> # ev2 @ (if rest then us3 else []))"
proof -
  have upd: "h(t := (h t)\<lparr>price := np, quantity := nq, cl_ord_id := ncl, status := Replaced\<rparr>) = h(t := x)"
    if "ncl \<noteq> []" using that by (simp add: x replaced_def)
  have upd': "h(t := (h t)\<lparr>price := np, quantity := nq, status := Replaced\<rparr>) = h(t := x)"
    if "ncl = []" using that by (simp add: x replaced_def)
  from assms show ?thesis
    by (cases "ncl = []") (simp_all add: book_modifyOrder_def Let_def upd upd')
qed

text \<open>
  \<^verbatim>\<open>OrderBook::modifyOrder\<close> keeps the invariant for any new price and quantity, also a quantity at or
  below what is already filled (the order then leaves the book).
\<close>

theorem book_modifyOrder_invariant:
  assumes inv: "book_inv h b" and md: "book_modifyOrder oid np nq ncl h b = (h', b', evs)"
  shows "book_inv h' b'"
proof (cases "orders_by_id b oid")
  case None
  with assms show ?thesis by (simp add: book_modifyOrder_def)
next
  case (Some t)
  obtain b1 us where rem: "removeFromBook t h b = (b1, us)" by (metis prod.exhaust)
  note r = removeFromBook_book_inv [OF inv Some rem]
  let ?x = "replaced np nq ncl (h t)" and ?h = "h(t := replaced np nq ncl (h t))"
  have inv1: "book_inv ?h b1" using r by (simp add: book_inv_upd)
  have i1: "orders_by_id b1 (order_id (?h t)) = None" using r by (simp add: replaced_def)
  obtain h2 b2 ev2 where m: "matchOrder t ?h b1 = (h2, b2, ev2)" by (metis prod_cases3)
  obtain b3 us3 where ins: "insertResting t h2 b2 = (b3, us3)" by (metis prod.exhaust)
  from md matchOrder_book_inv [OF m inv1 r(2)] match_then_rest [OF m inv1 r(2) i1 _ _ ins]
  show ?thesis
    unfolding book_modifyOrder_Some [OF Some rem refl m ins refl] by (auto split: if_splits)
qed

theorem book_modifyOrder_invariant_witness:
  "book_inv ex_heap ex_book \<and>
   (case book_modifyOrder 4 (Price 101) 12 ''B'' ex_heap ex_book of (h', b', evs) \<Rightarrow> book_inv h' b')"
  using book_modifyOrder_invariant [OF ex_inv, of 4 "Price 101" 12 "''B''"] ex_inv
  by (cases "book_modifyOrder 4 (Price 101) 12 ''B'' ex_heap ex_book") simp

end
