(* ===== verification/Book_Policies.thy ===== *)
theory Book_Policies
  imports Book_Operations
begin

text \<open>
  What \<^verbatim>\<open>OrderBook::addOrder\<close> promises for each order type and time in force, and how adding,
  cancelling and modifying relate.
\<close>

definition cancels :: "EngineEvent list \<Rightarrow> OrderCancelled list" where
  "cancels evs = List.map_filter (\<lambda>e. case e of EvCancelled c \<Rightarrow> Some c | _ \<Rightarrow> None) evs"

lemma cancels_simps [simp]:
  "cancels [] = []" "cancels (evs @ evs') = cancels evs @ cancels evs'"
  "cancels (EvCancelled c # evs) = c # cancels evs" "cancels (EvAccepted a # evs) = cancels evs"
  "cancels (EvFilled f # evs) = cancels evs" "cancels (EvBook u # evs) = cancels evs"
  "cancels (EvModified m # evs) = cancels evs" "cancels (EvRejected r # evs) = cancels evs"
  by (simp_all add: cancels_def List.map_filter_simps)

lemma match_cancels:
  assumes "matchOrder t h b = (h', b', evs)" and "book_inv h b" and "unbooked t b"
  shows "cancels evs = []"
  using matchOrder_trades(1) [OF assms] book_inv_side [OF assms(2)] unbooked_resting [OF assms(3)]
proof (induction rule: trades_invariant)
  case start
  then show ?case by simp
next
  case (trade h1 b1 evs1 h2 b2 evs2)
  from trade(2-4) show ?case
    by (rule trade_step_cases) (use trade(1) in simp)
qed

lemma traded_other [simp]:
  "traded (EvAccepted a # evs) = traded evs" "traded (EvCancelled c # evs) = traded evs"
  "traded (EvRejected r # evs) = traded evs" "traded (EvModified m # evs) = traded evs"
  by (simp_all add: traded_def)

lemma matchOrder_filled:
  assumes "matchOrder t h b = (h', b', evs)" and "book_inv h b" and "unbooked t b"
  shows "filled_qty (h' t) = filled_qty (h t) + traded evs"
  using trades_conserve [OF matchOrder_trades(1) [OF assms] book_inv_side [OF assms(2)]
      unbooked_resting [OF assms(3)]] by simp

lemma matchOrder_own_side:
  assumes "matchOrder t h b = (h', b', evs)" and "book_inv h b" and "unbooked t b"
  shows "levels (own_side (h t)) b' = levels (own_side (h t)) b"
  using other_side_trades [OF matchOrder_trades(1) [OF assms] book_inv_side [OF assms(2)]
      unbooked_resting [OF assms(3)]] by (simp add: own_side_def)

section \<open>Fill or kill\<close>

text \<open>
  C9.  Fill or kill is all or nothing for limit and market orders: either the order is rejected, alone
  in the event stream and with no effect on any order or on the book, and then the book does not offer
  its quantity within the limit; or it is filled completely and nothing is cancelled.
\<close>

theorem fok_all_or_nothing:
  assumes inv: "book_inv h b" and t: "unbooked t b" and tif: "time_in_force (h t) = FOK"
    and ot: "order_type (h t) \<in> {Limit, Market}" and fresh: "filled_qty (h t) = 0" "0 \<le> quantity (h t)"
    and add: "book_addOrder t h b = (h', b', evs)"
  shows "if quantity (h t) \<le> depth (takeWhile (\<lambda>(p, l). \<not> beyond_limit (h t) p) (levels (maker_side (h t)) b))
    then filled_qty (h' t) = quantity (h t) \<and> traded evs = quantity (h t) \<and> cancels evs = []
    else h' = h \<and> b' = b \<and> (\<exists>r. evs = [EvRejected r] \<and> rej_session_uuid r = session_uuid (h t))"
proof -
  obtain h1 b1 ev1 where m: "matchOrder t h b = (h1, b1, ev1)" by (metis prod_cases3)
  note fok = canFillFOK_depth [OF inv ot]
  have rem: "remainingQty (h t) = quantity (h t)" using fresh by (simp add: remainingQty_def)
  show ?thesis
  proof (cases "canFillFOK t h b")
    case True
    then have tr: "traded ev1 = quantity (h t)"
      using matchOrder_volume [OF m inv t] fok rem fresh(2) by simp
    then have fl: "filled_qty (h1 t) = quantity (h t)" using matchOrder_filled [OF m inv t] fresh by simp
    moreover have "quantity (h1 t) = quantity (h t)" using same_termsD(9) [OF matchOrder_terms [OF m inv t]] .
    ultimately have "isFullyFilled (h1 t)" by (simp add: isFullyFilled_def)
    then show ?thesis
      using add True m tr fl fok match_cancels [OF m inv t] by (auto simp: book_addOrder_def Let_def)
  next
    case False
    then show ?thesis using add tif fok by (auto simp: book_addOrder_def)
  qed
qed

theorem fok_all_or_nothing_witness:
  "book_inv ex_heap ex_book \<and> unbooked 5 ex_book \<and> time_in_force (ex_heap 5) = FOK \<and>
   (case book_addOrder 5 ex_heap ex_book of (h', b', evs) \<Rightarrow>
      filled_qty (h' 5) = 12 \<and> traded evs = 12 \<and> cancels evs = [])"
  using fok_all_or_nothing [OF ex_inv ex_unbooked(1)] ex_inv ex_unbooked(1)
  by (cases "book_addOrder 5 ex_heap ex_book")
    (simp add: maker_side_def beyond_limit_def ex_book_def)

section \<open>Orders that never rest\<close>

lemma add_no_rest:
  assumes add: "book_addOrder t h b = (h', b', evs)" and inv: "book_inv h b" and t: "unbooked t b"
    and imm: "time_in_force (h t) \<in> {IOC, FOK} \<or> order_type (h t) \<noteq> Limit"
    and acc: "\<not> (time_in_force (h t) = FOK \<and> \<not> canFillFOK t h b)"
    and m: "matchOrder t h b = (h1, b1, ev1)"
  shows "b' = b1 \<and> filled_qty (h' t) = filled_qty (h1 t) \<and> quantity (h' t) = quantity (h t) \<and>
    (\<exists>a. evs = EvAccepted a # ev1 @
       (if \<not> isFullyFilled (h1 t) \<and> (time_in_force (h t) \<in> {IOC, FOK} \<or> order_type (h t) = Market)
        then [EvCancelled \<lparr>can_order_id = order_id (h t), can_cl_ord_id = cl_ord_id (h t),
                can_session_uuid = session_uuid (h t), can_security_id = security_id (h t),
                can_cum_qty = filled_qty (h1 t), can_ord_status = Canceled\<rparr>]
        else []))"
  using add imm acc m same_termsD [OF matchOrder_terms [OF m inv t, of t]]
  by (auto simp: book_addOrder_def Let_def split: if_splits)

text \<open>
  An immediate order (IOC, FOK, or any market order) never rests: it is in no queue and not in the id
  index afterwards, its own side of the book is as before, and unless it was filled completely or
  rejected by the FOK test it is cancelled by exactly one event that reports what it had filled.
\<close>

theorem immediate_orders_never_rest:
  assumes inv: "book_inv h b" and t: "unbooked t b" and i: "orders_by_id b (order_id (h t)) = None"
    and imm: "time_in_force (h t) \<in> {IOC, FOK} \<or> order_type (h t) = Market"
    and add: "book_addOrder t h b = (h', b', evs)"
  shows "unbooked t b' \<and> orders_by_id b' (order_id (h t)) = None \<and>
    levels (own_side (h t)) b' = levels (own_side (h t)) b \<and>
    ((\<exists>r. evs = [EvRejected r]) \<or> isFullyFilled (h' t) \<and> cancels evs = [] \<or>
     (\<exists>c. cancels evs = [c] \<and> can_order_id c = order_id (h t) \<and> can_cum_qty c = filled_qty (h' t)))"
proof (cases "time_in_force (h t) = FOK \<and> \<not> canFillFOK t h b")
  case True
  then show ?thesis using add t i by (auto simp: book_addOrder_def)
next
  case False
  obtain h1 b1 ev1 where m: "matchOrder t h b = (h1, b1, ev1)" by (metis prod_cases3)
  have "time_in_force (h t) \<in> {IOC, FOK} \<or> order_type (h t) \<noteq> Limit" using imm by auto
  note nr = add_no_rest [OF add inv t this False m]
  note q = same_termsD(9) [OF matchOrder_terms [OF m inv t, of t]]
  have "isFullyFilled (h' t) \<and> cancels evs = [] \<or>
     (\<exists>c. cancels evs = [c] \<and> can_order_id c = order_id (h t) \<and> can_cum_qty c = filled_qty (h' t))"
    using nr match_cancels [OF m inv t] imm q
    by (cases "isFullyFilled (h1 t)") (auto simp: isFullyFilled_def)
  with nr matchOrder_book_inv [OF m inv t] matchOrder_index [OF m inv t i]
    matchOrder_own_side [OF m inv t]
  show ?thesis by auto
qed

theorem immediate_orders_never_rest_witness:
  "book_inv ex_heap ex_book \<and> unbooked 6 ex_book \<and> time_in_force (ex_heap 6) = IOC \<and>
   (case book_addOrder 6 ex_heap ex_book of (h', b', evs) \<Rightarrow>
      unbooked 6 b' \<and> orders_by_id b' 6 = None \<and> bid_levels b' = bid_levels ex_book)"
  using immediate_orders_never_rest [OF ex_inv ex_unbooked(2)] ex_inv ex_unbooked(2) ex_unindexed(2)
  by (cases "book_addOrder 6 ex_heap ex_book") (simp add: own_side_def)

section \<open>Orders that rest\<close>

lemma insertResting_last:
  assumes ok: "side_ok h (own_side (h t)) (levels (own_side (h t)) b)"
    and ins: "insertResting t h b = (b', us)"
  shows "orders_by_id b' (order_id (h t)) = Some t \<and>
    (\<exists>l. map_of (levels (own_side (h t)) b') (price (h t)) = Some l \<and>
       queue l = (case map_of (levels (own_side (h t)) b) (price (h t)) of None \<Rightarrow> [] | Some l0 \<Rightarrow> queue l0) @ [t])"
  using ok
proof (rule insertResting_cases, goal_cases)
  case (1 xs old ys l')
  note nin = not_better_mem(1) [OF 1(3)] not_better_mem(2) [OF 1(4)]
  have old: "map_of (levels (own_side (h t)) b) (price (h t)) = map_of old (price (h t))"
    using 1(2) nin(2)
    by (auto simp: 1(1) map_of_append_notin [OF nin(1)] map_of_eq_None_iff simp del: map_of_append)
  have new: "map_of (xs @ (price (h t), l') # ys) (price (h t)) = Some l'"
    by (simp only: map_of_append_notin [OF nin(1)]) simp
  from 1(2) have "queue l' = (case map_of old (price (h t)) of None \<Rightarrow> [] | Some l0 \<Rightarrow> queue l0) @ [t]"
    by auto
  with old new 1(5) ins show ?case by (auto simp del: map_of_append)
qed

text \<open>
  A limit order with any other time in force that is not filled completely rests: it goes to the end of
  the queue at its limit price (time priority) and is found under its id, with the quantity that
  matching left open.
\<close>

theorem limit_order_rests:
  assumes inv: "book_inv h b" and t: "unbooked t b" and i: "orders_by_id b (order_id (h t)) = None"
    and lim: "order_type (h t) = Limit" "time_in_force (h t) \<notin> {IOC, FOK}"
    and add: "book_addOrder t h b = (h', b', evs)" and open': "\<not> isFullyFilled (h' t)"
  shows "orders_by_id b' (order_id (h t)) = Some t \<and>
    remainingQty (h' t) = remainingQty (h t) - traded evs \<and>
    (\<exists>l. map_of (levels (own_side (h t)) b') (price (h t)) = Some l \<and>
       queue l = (case map_of (levels (own_side (h t)) b) (price (h t)) of None \<Rightarrow> [] | Some l0 \<Rightarrow> queue l0) @ [t])"
proof -
  obtain h1 b1 ev1 where m: "matchOrder t h b = (h1, b1, ev1)" by (metis prod_cases3)
  obtain b2 us where ins: "insertResting t h1 b1 = (b2, us)" by (metis prod.exhaust)
  note tm = same_termsD [OF matchOrder_terms [OF m inv t, of t]]
  have own: "own_side (h1 t) = own_side (h t)" using tm by (simp add: own_side_def)
  have us: "traded us = 0"
    using ins by (auto simp: insertResting_def generateBookUpdate_def Let_def)
  have eq: "h' = h1" "b' = b2" "traded evs = traded ev1"
    using add lim open' m ins tm us by (auto simp: book_addOrder_def Let_def split: if_splits)
  have "side_ok h1 (own_side (h1 t)) (levels (own_side (h1 t)) b1)"
    using matchOrder_book_inv [OF m inv t] book_sides(1) [OF own_side_cases] by blast
  from insertResting_last [OF this ins]
  show ?thesis using eq own tm matchOrder_own_side [OF m inv t] matchOrder_filled [OF m inv t]
    by (simp add: remainingQty_def)
qed

theorem limit_order_rests_witness:
  "book_inv ex_heap ex_book \<and> unbooked 8 ex_book \<and>
   (let h = ex_heap(8 := ex_order 8 Buy 99 6 Limit GTC)
    in case book_addOrder 8 h ex_book of (h', b', evs) \<Rightarrow>
      orders_by_id b' 8 = Some 8 \<and> (\<exists>l. map_of (bid_levels b') (Price 99) = Some l \<and> queue l = [4, 8]))"
proof -
  let ?h = "ex_heap(8 := ex_order 8 Buy 99 6 Limit GTC)"
  have t: "unbooked 8 ex_book" by (simp add: unbooked_def ex_resting)
  have inv: "book_inv ?h ex_book" using ex_inv t by (simp add: book_inv_upd)
  have "\<not> isFullyFilled (fst (book_addOrder 8 ?h ex_book) 8)" by code_simp
  then show ?thesis
    using limit_order_rests [OF inv t] ex_inv t
    by (cases "book_addOrder 8 ?h ex_book") (simp add: own_side_def ex_book_def)
qed

section \<open>Adding and cancelling\<close>

lemma match_levels_done:
  "match_done t beyond ms (h, b, evs) \<Longrightarrow> match_levels t beyond ms (levels ms b) (h, b, evs) = (h, b, evs)"
  by (cases "levels ms b") auto

lemma matchOrder_done:
  "match_done t (beyond_limit (h t)) (maker_side (h t)) (h, b, []) \<Longrightarrow> matchOrder t h b = (h, b, [])"
  unfolding matchOrder_levels by (rule match_levels_done)

lemma remove_added_level:
  assumes "t \<notin> set (queue l)"
  shows "level_removeOrder h t (level_addOrder h t l) = l"
  using assms by (simp add: level_removeOrder_def level_addOrder_def remove1_append)

text \<open>Removing what was just inserted restores the book up to the report sequence number.\<close>

lemma insert_remove:
  assumes inv: "book_inv h b" and t: "unbooked t b" and i: "orders_by_id b (order_id (h t)) = None"
    and op: "order_type (h t) = Limit" "0 < remainingQty (h t)"
    and far: "\<forall>p'\<in>prices (opposite (own_side (h t))) b. better (own_side (h t)) p' (price (h t))"
    and ins: "insertResting t h b = (b1, us)" and rem: "removeFromBook t h b1 = (b2, us')"
  shows "b2 = b\<lparr>rpt_seq := rpt_seq b + 2\<rparr>"
proof -
  let ?s = "own_side (h t)" and ?p = "price (h t)"
  note inv1 = insertResting_book_inv(1) [OF inv t i op far ins]
    and r1 = insertResting_book_inv(2) [OF inv t i op far ins]
  have ok: "side_ok h ?s (levels ?s b)" and ok1: "side_ok h ?s (levels ?s b1)"
    using inv inv1 unfolding book_sides(1) [OF own_side_cases [of "h t"]] by simp_all
  have tout: "t \<notin> set (resting ?s b)" using t own_side_cases [of "h t"] unfolding unbooked_def by auto
  from ok obtain xs old ys l' where L: "levels ?s b = xs @ old @ ys"
    and l': "(old = [] \<and> l' = level_addOrder h t (level_new\<lparr>level_price := ?p\<rparr>)) \<or>
         (\<exists>l. old = [(?p, l)] \<and> level_ok h ?s ?p l \<and> l' = level_addOrder h t l)"
    and xs: "\<forall>y\<in>fst ` set xs. better ?s y ?p" and ys: "\<forall>z\<in>fst ` set ys. better ?s ?p z"
    and eq: "insertResting t h b =
      (set_levels ?s (xs @ (?p, l') # ys)
         (b\<lparr>orders_by_id := (orders_by_id b)(order_id (h t) \<mapsto> t), rpt_seq := rpt_seq b + 1\<rparr>),
       [EvBook ((level_event b ?s ?p l' (length xs + 1))
          \<lparr>bu_update_action := if old = [] then MD_New else MD_Change\<rparr>)])"
    by (rule insertResting_cases) blast
  have b1: "b1 = set_levels ?s (xs @ (?p, l') # ys)
      (b\<lparr>orders_by_id := (orders_by_id b)(order_id (h t) \<mapsto> t), rpt_seq := rpt_seq b + 1\<rparr>)"
    using ins eq by simp
  have ts: "t \<in> set (resting ?s b1)" using r1 by simp
  from ok1 ts obtain xs2 l2 ys2 l3 where L2: "levels ?s b1 = xs2 @ (?p, l2) # ys2"
    and l3: "l3 = level_removeOrder h t l2"
    and xs2: "\<forall>y\<in>fst ` set xs2. better ?s y ?p"
    and eq2: "removeFromBook t h b1 =
      (set_levels ?s (xs2 @ upd_best ?p l3 ys2)
         (b1\<lparr>orders_by_id := (orders_by_id b1)(order_id (h t) := None), rpt_seq := rpt_seq b1 + 1\<rparr>),
       [EvBook (level_event b1 ?s ?p l3 (length xs2 + 1))])"
    by (rule removeFromBook_cases)
  have "xs2 @ (?p, l2) # ys2 = xs @ (?p, l') # ys" using L2 by (simp add: b1)
  then have same: "xs2 = xs" "l2 = l'" "ys2 = ys"
    using smap_split_unique [OF _ not_better_mem(1) [OF xs2] not_better_mem(1) [OF xs]] by auto
  have "xs @ upd_best ?p l3 ys = levels ?s b"
    using l'
  proof (elim disjE exE conjE)
    fix l assume l: "old = [(?p, l)]" "level_ok h ?s ?p l" "l' = level_addOrder h t l"
    then have "t \<notin> set (queue l)" "queue l \<noteq> []"
      using tout L ok by (simp_all add: resting_levels side_ok_append side_ok_Cons)
    then show ?thesis using l L same l3 by (simp add: remove_added_level upd_best_def)
  qed (simp add: L same l3 upd_best_def)
  moreover have "(orders_by_id b)(order_id (h t) := None) = orders_by_id b" using i by auto
  moreover have "b\<lparr>orders_by_id := orders_by_id b, rpt_seq := r\<rparr> = b\<lparr>rpt_seq := r\<rparr>" for r by simp
  ultimately show ?thesis
    using rem eq2 same by (auto simp: b1 set_levels_def levels_def split: if_splits)
qed

text \<open>
  Round trip: adding a limit order that finds nothing to trade with and cancelling it again leaves the
  book exactly as it was, apart from the two market-data reports it cost, and the order ends cancelled
  with nothing filled.
\<close>

theorem add_cancel_roundtrip:
  assumes inv: "book_inv h b" and t: "unbooked t b" and i: "orders_by_id b (order_id (h t)) = None"
    and lim: "order_type (h t) = Limit" "time_in_force (h t) \<notin> {IOC, FOK}" "0 < remainingQty (h t)"
    and none: "match_done t (beyond_limit (h t)) (maker_side (h t)) (h, b, [])"
    and add: "book_addOrder t h b = (h1, b1, evs1)"
    and can: "book_cancelOrder (order_id (h t)) h1 b1 = (h2, b2, evs2)"
  shows "b2 = b\<lparr>rpt_seq := rpt_seq b + 2\<rparr> \<and> h2 = h(t := (h t)\<lparr>status := Canceled\<rparr>) \<and>
    (\<exists>c. cancels evs2 = [c] \<and> can_cum_qty c = filled_qty (h t))"
proof -
  note m = matchOrder_done [OF none]
  obtain b' us where ins: "insertResting t h b = (b', us)" by (metis prod.exhaust)
  have nf: "\<not> isFullyFilled (h t)" using lim by (simp add: isFullyFilled_iff)
  have h1: "h1 = h" "b1 = b'"
    using add lim nf m ins by (auto simp: book_addOrder_def Let_def split: if_splits)
  have ok: "side_ok h (own_side (h t)) (levels (own_side (h t)) b)"
    using inv book_sides(1) [OF own_side_cases] by blast
  have idx: "orders_by_id b1 (order_id (h t)) = Some t" using insertResting_last [OF ok ins] h1 by simp
  obtain b3 us' where rem: "removeFromBook t h b1 = (b3, us')" by (metis prod.exhaust)
  have us': "cancels us' = []"
    using rem by (auto simp: removeFromBook_def generateBookUpdate_def Let_def split: option.splits if_splits)
  have "b3 = b\<lparr>rpt_seq := rpt_seq b + 2\<rparr>"
    using insert_remove [OF inv t i lim(1,3) match_far [OF m inv t lim(1,3)]] ins rem h1 by simp
  with can idx rem us' h1 show ?thesis by (auto simp: book_cancelOrder_def Let_def)
qed

theorem add_cancel_roundtrip_witness:
  "book_inv ex_heap ex_book \<and>
   (let h = ex_heap(8 := ex_order 8 Sell 105 6 Limit Day)
    in case book_addOrder 8 h ex_book of (h1, b1, evs1) \<Rightarrow>
       case book_cancelOrder 8 h1 b1 of (h2, b2, evs2) \<Rightarrow>
         b2 = ex_book\<lparr>rpt_seq := rpt_seq ex_book + 2\<rparr> \<and> status (h2 8) = Canceled)"
proof -
  let ?h = "ex_heap(8 := ex_order 8 Sell 105 6 Limit Day)"
  have t: "unbooked 8 ex_book" by (simp add: unbooked_def ex_resting)
  have inv: "book_inv ?h ex_book" using ex_inv t by (simp add: book_inv_upd)
  have i: "orders_by_id ex_book (order_id (?h 8)) = None" by (simp add: ex_book_def)
  have d: "match_done 8 (beyond_limit (?h 8)) (maker_side (?h 8)) (?h, ex_book, [])"
    by (simp add: ex_book_def maker_side_def beyond_limit_def)
  obtain h1 b1 e1 where add: "book_addOrder 8 ?h ex_book = (h1, b1, e1)" by (metis prod_cases3)
  obtain h2 b2 e2 where can: "book_cancelOrder 8 h1 b1 = (h2, b2, e2)" by (metis prod_cases3)
  show ?thesis
    using add_cancel_roundtrip [OF inv t i _ _ _ d add] can add ex_inv by simp
qed

section \<open>Stop orders\<close>

text \<open>
  C39.  The book has no stop logic: a stop or stop-limit order is matched at once as if it were a limit order,
  and what is left of a day order is dropped: it is acknowledged, but neither rests nor is cancelled by
  any event, so its owner is never told that it is gone.
\<close>

theorem stop_order_remainder_dropped:
  assumes inv: "book_inv h b" and t: "unbooked t b" and i: "orders_by_id b (order_id (h t)) = None"
    and stop: "order_type (h t) \<in> {StopLimit, StopMarket}" "time_in_force (h t) \<notin> {IOC, FOK}"
    and add: "book_addOrder t h b = (h', b', evs)"
  shows "matchOrder t h b = (h', b', tl evs) \<and> (\<exists>a. hd evs = EvAccepted a) \<and> cancels evs = [] \<and>
    unbooked t b' \<and> orders_by_id b' (order_id (h t)) = None"
proof -
  obtain h1 b1 ev1 where m: "matchOrder t h b = (h1, b1, ev1)" by (metis prod_cases3)
  note tm = same_termsD [OF matchOrder_terms [OF m inv t, of t]]
  from add stop m tm obtain a where "h' = h1" "b' = b1" "evs = EvAccepted a # ev1"
    by (auto simp: book_addOrder_def Let_def split: if_splits)
  with m match_cancels [OF m inv t] matchOrder_book_inv [OF m inv t] matchOrder_index [OF m inv t i]
  show ?thesis by simp
qed

theorem stop_order_remainder_dropped_witness:
  "book_inv ex_heap ex_book \<and>
   (let h = ex_heap(8 := ex_order 8 Buy 99 6 StopLimit Day)
    in case book_addOrder 8 h ex_book of (h', b', evs) \<Rightarrow>
      cancels evs = [] \<and> unbooked 8 b' \<and> orders_by_id b' 8 = None)"
proof -
  let ?h = "ex_heap(8 := ex_order 8 Buy 99 6 StopLimit Day)"
  have t: "unbooked 8 ex_book" by (simp add: unbooked_def ex_resting)
  have inv: "book_inv ?h ex_book" using ex_inv t by (simp add: book_inv_upd)
  have i: "orders_by_id ex_book (order_id (?h 8)) = None" by (simp add: ex_book_def)
  obtain h1 b1 e1 where add: "book_addOrder 8 ?h ex_book = (h1, b1, e1)" by (metis prod_cases3)
  show ?thesis
    using stop_order_remainder_dropped [OF inv t i _ _ add] add ex_inv by simp
qed

text \<open>
  The FOK test applies the price limit to limit orders only while matching applies it to stop orders too,
  so fill-or-kill is not all-or-nothing for a stop-limit order: this one trades 8 of its 12 lots and
  the rest is cancelled.
\<close>

theorem stop_limit_fok_fills_partially:
  "let h = ex_heap(8 := ex_order 8 Buy 100 12 StopLimit FOK)
   in canFillFOK 8 h ex_book \<and>
      (case book_addOrder 8 h ex_book of (h', b', evs) \<Rightarrow>
        traded evs = 8 \<and> map can_cum_qty (cancels evs) = [8])"
proof -
  let ?h = "ex_heap(8 := ex_order 8 Buy 100 12 StopLimit FOK)"
  have t: "unbooked 8 ex_book" by (simp add: unbooked_def ex_resting)
  have inv: "book_inv ?h ex_book" using ex_inv t by (simp add: book_inv_upd)
  have ok: "canFillFOK 8 ?h ex_book" by (simp add: canFillFOK_def ex_book_def Let_def)
  obtain h1 b1 e1 where m: "matchOrder 8 ?h ex_book = (h1, b1, e1)" by (metis prod_cases3)
  have tr: "traded e1 = 8"
    using matchOrder_volume [OF m inv t]
    by (simp add: maker_side_def beyond_limit_def ex_book_def)
  obtain h2 b2 e2 where add: "book_addOrder 8 ?h ex_book = (h2, b2, e2)" by (metis prod_cases3)
  show ?thesis
    using add_no_rest [OF add inv t _ _ m] ok add tr match_cancels [OF m inv t] matchOrder_filled [OF m inv t]
      same_termsD(9) [OF matchOrder_terms [OF m inv t, of 8]]
    by (auto simp: isFullyFilled_def)
qed

end
