(* ===== verification/Book_Market_Data.thy ===== *)
theory Book_Market_Data
  imports Book_Policies
begin

text \<open>
  The \<^verbatim>\<open>BookUpdate\<close> events as a protocol: a client that keeps price levels by index and applies the
  updates of an operation in order has the book's levels again, and report and trade numbers are
  consecutive.
\<close>

section \<open>The client's side\<close>

type_synonym md_level = "Price \<times> Quantity \<times> int"
type_synonym md_book = "md_level list \<times> md_level list"

definition view :: "(Price \<times> Level) list \<Rightarrow> md_level list" where
  "view ls = map (\<lambda>(p, l). (p, total_quantity l, order_count l)) ls"

definition book_view :: "OrderBook \<Rightarrow> md_book" where
  "book_view b = (view (bid_levels b), view (ask_levels b))"

text \<open>What the actions mean to a client: insert at, overwrite at, or delete at a 1-based index.\<close>

definition apply_action :: "BookUpdate \<Rightarrow> md_level list \<Rightarrow> md_level list" where
  "apply_action u v =
     (let i = bu_price_level_index u - 1; e = (bu_price u, bu_new_qty u, bu_new_order_count u)
      in case bu_update_action u of
           MD_New \<Rightarrow> take i v @ e # drop i v
         | MD_Change \<Rightarrow> v[i := e]
         | MD_Delete \<Rightarrow> take i v @ drop (Suc i) v
         | _ \<Rightarrow> v)"

fun apply_update :: "BookUpdate \<Rightarrow> md_book \<Rightarrow> md_book" where
  "apply_update u (bids, asks) =
     (if bu_side u = Buy then (apply_action u bids, asks) else (bids, apply_action u asks))"

definition replay :: "BookUpdate list \<Rightarrow> md_book \<Rightarrow> md_book" where
  "replay us v = fold apply_update us v"

lemma replay_simps [simp]:
  "replay [] v = v" "replay (u # us) v = replay us (apply_update u v)"
  "replay (us @ us') v = replay us' (replay us v)"
  by (simp_all add: replay_def)

lemma view_simps [simp]:
  "view [] = []" "view (xs @ ys) = view xs @ view ys"
  "view ((p, l) # ls) = (p, total_quantity l, order_count l) # view ls" "length (view xs) = length xs"
  by (simp_all add: view_def)

text \<open>Applying an update to the side it names.\<close>

lemma apply_update_side:
  assumes "s = Buy \<or> s = Sell" and "bu_side u = s"
    and "apply_action u (view (levels s b)) = view ls" and "levels s b' = ls"
    and "levels (opposite s) b' = levels (opposite s) b"
  shows "apply_update u (book_view b) = book_view b'"
  using assms by (auto simp: book_view_def)

lemma apply_level_event:
  assumes "levels s b' = xs @ (p, l0) # ys"
  shows "apply_action (level_event b s p l (Suc (length xs))) (view (levels s b')) = view (xs @ upd_best p l ys)"
  using assms by (simp add: apply_action_def level_event_def upd_best_def list_update_append)

section \<open>Consecutive numbers\<close>

definition numbered :: "OrderBook \<Rightarrow> EngineEvent list \<Rightarrow> OrderBook \<Rightarrow> bool" where
  "numbered b evs b' \<longleftrightarrow>
     map bu_rpt_seq (updates evs) = map (\<lambda>k. rpt_seq b + of_nat k) [0..<length (updates evs)] \<and>
     rpt_seq b' = rpt_seq b + of_nat (length (updates evs)) \<and>
     map trade_id (fills evs) = map (\<lambda>k. next_trade_id b + of_nat k) [0..<length (fills evs)] \<and>
     next_trade_id b' = next_trade_id b + of_nat (length (fills evs))"

lemma seq_append:
  fixes r :: "'a :: len word"
  shows "map (\<lambda>k. r + of_nat k) [0..<m + n] =
    map (\<lambda>k. r + of_nat k) [0..<m] @ map (\<lambda>k. r + of_nat m + of_nat k) [0..<n]"
proof (induction n)
  case (Suc n)
  have "[0..<m + Suc n] = [0..<m + n] @ [m + n]" by simp
  with Suc show ?case by (simp add: algebra_simps)
qed simp

lemma numbered_Nil [simp]: "numbered b [] b"
  by (simp add: numbered_def)

lemma numbered_append:
  "numbered b evs b' \<Longrightarrow> numbered b' evs' b'' \<Longrightarrow> numbered b (evs @ evs') b''"
  by (simp add: numbered_def seq_append add.assoc)

lemma numbered_update:
  "bu_rpt_seq u = rpt_seq b \<Longrightarrow> rpt_seq b' = rpt_seq b + 1 \<Longrightarrow> next_trade_id b' = next_trade_id b \<Longrightarrow>
     numbered b [EvBook u] b'"
  by (simp add: numbered_def)

text \<open>An event that is neither a fill nor a book update.\<close>

definition silent :: "EngineEvent list \<Rightarrow> bool" where
  "silent evs \<longleftrightarrow> fills evs = [] \<and> updates evs = []"

lemma numbered_silent: "silent evs \<Longrightarrow> numbered b evs b"
  by (simp add: numbered_def silent_def)

section \<open>Faithful reporting\<close>

text \<open>Every market-data event names the security of its book.\<close>

definition labelled :: "OrderBook \<Rightarrow> EngineEvent list \<Rightarrow> OrderBook \<Rightarrow> bool" where
  "labelled b evs b' \<longleftrightarrow> book_security_id b' = book_security_id b \<and>
     (\<forall>u\<in>set (updates evs). bu_security_id u = book_security_id b) \<and>
     (\<forall>f\<in>set (fills evs). fill_security_id f = book_security_id b)"

lemma labelled_append: "labelled b evs b' \<Longrightarrow> labelled b' evs' b'' \<Longrightarrow> labelled b (evs @ evs') b''"
  by (auto simp: labelled_def)

definition reports :: "OrderBook \<Rightarrow> EngineEvent list \<Rightarrow> OrderBook \<Rightarrow> bool" where
  "reports b evs b' \<longleftrightarrow> replay (updates evs) (book_view b) = book_view b' \<and> numbered b evs b' \<and> labelled b evs b'"

lemma reports_Nil [simp]: "reports b [] b"
  by (simp add: reports_def labelled_def)

lemma reports_append: "reports b evs b' \<Longrightarrow> reports b' evs' b'' \<Longrightarrow> reports b (evs @ evs') b''"
  by (auto simp: reports_def intro: numbered_append labelled_append)

lemma reports_silent: "silent evs \<Longrightarrow> reports b evs b"
  by (simp add: reports_def numbered_silent silent_def labelled_def)

lemma reports_silent_Cons: "silent [e] \<Longrightarrow> reports b evs b' \<Longrightarrow> reports b (e # evs) b'"
  using reports_append [OF reports_silent, of "[e]" b evs b'] by simp

lemma silent_events [simp]:
  "silent [EvAccepted a]" "silent [EvRejected r]" "silent [EvCancelled c]" "silent [EvModified m]"
  "silent [EvCancelRejected x]"
  by (simp_all add: silent_def)

lemma trade_step_reports:
  assumes ok: "side_ok h ms (levels ms b)" and t: "t \<notin> set (resting ms b)" and ms: "ms = Buy \<or> ms = Sell"
    and step: "trade_step t beyond ms (h, b, evs) (h', b', evs')"
  shows "\<exists>new. evs' = evs @ new \<and> reports b new b'"
  using ok t step
proof (rule trade_step_cases, goal_cases)
  case (1 p l rest m qs q gone l')
  let ?u = "level_event b ms p l' 1" and ?f = "fill_event b p q (h' m) (h' t)"
  have "apply_update ?u (book_view b) = book_view b'"
    using ms
  proof (rule apply_update_side)
    show "apply_action ?u (view (levels ms b)) = view (upd_best p l' rest)"
      using apply_level_event [of ms b "[]" p l rest b l'] 1(1) by simp
  qed (simp_all add: 1(15) level_event_def)
  then have "reports b [EvFilled ?f, EvBook ?u] b'"
    by (simp add: reports_def labelled_def numbered_def 1(15) level_event_def fill_event_def)
  with 1(16) show ?case by blast
qed

lemma matchOrder_reports:
  assumes "matchOrder t h b = (h', b', evs)" and "book_inv h b" and "unbooked t b"
  shows "reports b evs b'"
  using matchOrder_trades(1) [OF assms] book_inv_side [OF assms(2)] unbooked_resting [OF assms(3)]
proof (induction rule: trades_invariant)
  case start
  then show ?case by simp
next
  case (trade h1 b1 evs1 h2 b2 evs2)
  have "maker_side (h t) = Buy \<or> maker_side (h t) = Sell" by (simp add: maker_side_def)
  from trade_step_reports [OF trade(2,3) this trade(4)] trade(1)
  show ?case by (auto intro: reports_append)
qed

lemma insertResting_reports:
  assumes inv: "book_inv h b" and ins: "insertResting t h b = (b', us)"
  shows "reports b us b'"
proof -
  have "side_ok h (own_side (h t)) (levels (own_side (h t)) b)"
    using inv book_sides(1) [OF own_side_cases] by blast
  then show ?thesis
  proof (rule insertResting_cases, goal_cases)
    case (1 xs old ys l')
    let ?s = "own_side (h t)" and ?p = "price (h t)"
    let ?u = "(level_event b ?s ?p l' (length xs + 1))\<lparr>bu_update_action := if old = [] then MD_New else MD_Change\<rparr>"
    have q: "queue l' \<noteq> []" using 1(2) by auto
    have b': "b' = set_levels ?s (xs @ (?p, l') # ys)
      (b\<lparr>orders_by_id := (orders_by_id b)(order_id (h t) \<mapsto> t), rpt_seq := rpt_seq b + 1\<rparr>)"
      and us: "us = [EvBook ?u]" using ins 1(5) by simp_all
    have "apply_update ?u (book_view b) = book_view b'"
      using own_side_cases
    proof (rule apply_update_side)
      show "apply_action ?u (view (levels ?s b)) = view (xs @ (?p, l') # ys)"
        using 1(1,2) q by (auto simp: apply_action_def level_event_def list_update_append)
    qed (simp_all add: b' level_event_def)
    moreover have "numbered b us b'"
      unfolding us by (rule numbered_update) (simp_all add: b' level_event_def)
    moreover have "labelled b us b'" by (simp add: labelled_def us b' level_event_def)
    ultimately show ?case by (simp add: reports_def us)
  qed
qed

lemma removeFromBook_reports:
  assumes inv: "book_inv h b" and i: "orders_by_id b i = Some t" and rem: "removeFromBook t h b = (b', us)"
  shows "reports b us b'"
proof -
  let ?s = "own_side (h t)" and ?p = "price (h t)"
  note s = own_side_cases [of "h t"]
  have ok: "side_ok h ?s (levels ?s b)" and ok2: "side_ok h (opposite ?s) (levels (opposite ?s) b)"
    and ix: "index_ok h b" using inv unfolding book_sides(1) [OF s] by simp_all
  have "t \<in> set (resting ?s b)"
    using ix i resting_open [OF ok2, of t] s unfolding index_ok_def book_sides(2) [OF s]
    by (auto simp: open_at_def own_side_def)
  with ok show ?thesis
  proof (rule removeFromBook_cases, goal_cases)
    case (1 xs l ys l')
    let ?u = "level_event b ?s ?p l' (length xs + 1)"
    have b': "b' = set_levels ?s (xs @ upd_best ?p l' ys)
      (b\<lparr>orders_by_id := (orders_by_id b)(order_id (h t) := None), rpt_seq := rpt_seq b + 1\<rparr>)"
      and us: "us = [EvBook ?u]" using rem 1(7) by simp_all
    have "apply_update ?u (book_view b) = book_view b'"
      using s
    proof (rule apply_update_side)
      show "apply_action ?u (view (levels ?s b)) = view (xs @ upd_best ?p l' ys)"
        using apply_level_event [OF 1(1)] by simp
    qed (simp_all add: b' level_event_def)
    moreover have "numbered b us b'"
      unfolding us by (rule numbered_update) (simp_all add: b' level_event_def)
    moreover have "labelled b us b'" by (simp add: labelled_def us b' level_event_def)
    ultimately show ?case by (simp add: reports_def us)
  qed
qed

lemma book_addOrder_reports:
  assumes inv: "book_inv h b" and t: "unbooked t b" and add: "book_addOrder t h b = (h', b', evs)"
  shows "reports b evs b'"
proof -
  obtain h1 b1 ev1 where m: "matchOrder t h b = (h1, b1, ev1)" by (metis prod_cases3)
  obtain b2 us where ins: "insertResting t h1 b1 = (b2, us)" by (metis prod.exhaust)
  note r = matchOrder_reports [OF m inv t]
  note r2 = insertResting_reports [OF conjunct1 [OF matchOrder_book_inv [OF m inv t]] ins]
  show ?thesis
    using add m ins r reports_append [OF r r2] reports_append [OF r reports_silent]
    by (auto simp: book_addOrder_def Let_def reports_silent
        intro!: reports_silent_Cons split: if_splits)
qed

lemma book_cancelOrder_reports:
  assumes "book_inv h b" and "book_cancelOrder oid h b = (h', b', evs)"
  shows "reports b evs b'"
proof (cases "orders_by_id b oid")
  case None
  with assms(2) show ?thesis by (auto simp: book_cancelOrder_def reports_silent)
next
  case (Some t)
  obtain b1 us where rem: "removeFromBook t h b = (b1, us)" by (metis prod.exhaust)
  from assms(2) Some rem reports_append [OF removeFromBook_reports [OF assms(1) Some rem] reports_silent]
  show ?thesis by (auto simp: book_cancelOrder_def Let_def)
qed

lemma book_modifyOrder_reports:
  assumes inv: "book_inv h b" and md: "book_modifyOrder oid np nq ncl h b = (h', b', evs)"
  shows "reports b evs b'"
proof (cases "orders_by_id b oid")
  case None
  with md show ?thesis by (auto simp: book_modifyOrder_def reports_silent)
next
  case (Some t)
  obtain b1 us where rem: "removeFromBook t h b = (b1, us)" by (metis prod.exhaust)
  note r = removeFromBook_book_inv [OF inv Some rem]
  note rr = removeFromBook_reports [OF inv Some rem]
  let ?h = "h(t := replaced np nq ncl (h t))"
  have inv1: "book_inv ?h b1" using r by (simp add: book_inv_upd)
  obtain h2 b2 ev2 where m: "matchOrder t ?h b1 = (h2, b2, ev2)" by (metis prod_cases3)
  obtain b3 us3 where ins: "insertResting t h2 b2 = (b3, us3)" by (metis prod.exhaust)
  note r2 = matchOrder_reports [OF m inv1 r(2)]
  note r3 = insertResting_reports [OF conjunct1 [OF matchOrder_book_inv [OF m inv1 r(2)]] ins]
  from md reports_append [OF r2 r3] r2 show ?thesis
    unfolding book_modifyOrder_Some [OF Some rem refl m ins refl]
    by (auto intro!: reports_append [OF rr] reports_silent_Cons split: if_splits)
qed

text \<open>
  C8.  The market-data updates of \<^verbatim>\<open>addOrder\<close> are a faithful incremental feed: a client that holds the
  book's levels (price, quantity, order count per level, best first) and applies the updates in the order
  they are emitted holds the new book's levels; the report numbers of the updates and the trade ids of
  the fills are consecutive and continue those of the book.
\<close>

theorem book_addOrder_feed:
  assumes inv: "book_inv h b" and t: "unbooked t b" and add: "book_addOrder t h b = (h', b', evs)"
  shows "replay (updates evs) (book_view b) = book_view b' \<and> numbered b evs b'"
  using book_addOrder_reports [OF assms] by (simp add: reports_def)

theorem book_addOrder_feed_witness:
  "book_inv ex_heap ex_book \<and> unbooked 9 ex_book \<and>
   (case book_addOrder 9 ex_heap ex_book of (h', b', evs) \<Rightarrow>
      replay (updates evs) (book_view ex_book) = book_view b')"
  using book_addOrder_feed [OF ex_inv ex_unbooked(4)] ex_inv ex_unbooked(4)
  by (cases "book_addOrder 9 ex_heap ex_book") simp

text \<open>The same holds for the updates of \<^verbatim>\<open>cancelOrder\<close> and \<^verbatim>\<open>modifyOrder\<close>.\<close>

theorem book_cancel_modify_feed:
  assumes inv: "book_inv h b"
  shows "(book_cancelOrder oid h b = (h', b', evs) \<longrightarrow>
      replay (updates evs) (book_view b) = book_view b' \<and> numbered b evs b') \<and>
    (book_modifyOrder oid np nq ncl h b = (h', b', evs) \<longrightarrow>
      replay (updates evs) (book_view b) = book_view b' \<and> numbered b evs b')"
  using book_cancelOrder_reports [OF inv, of oid h' b' evs] book_modifyOrder_reports [OF inv, of oid np nq ncl h' b' evs]
  by (simp add: reports_def)

theorem book_cancel_modify_feed_witness:
  "book_inv ex_heap ex_book \<and>
   (case book_cancelOrder 1 ex_heap ex_book of (h', b', evs) \<Rightarrow>
      replay (updates evs) (book_view ex_book) = book_view b') \<and>
   (case book_modifyOrder 4 (Price 100) 6 ''B'' ex_heap ex_book of (h', b', evs) \<Rightarrow>
      replay (updates evs) (book_view ex_book) = book_view b')"
  using book_cancel_modify_feed [OF ex_inv] ex_inv
  by (cases "book_cancelOrder 1 ex_heap ex_book";
      cases "book_modifyOrder 4 (Price 100) 6 ''B'' ex_heap ex_book") simp

section \<open>The market-data events of one security\<close>

fun event_security :: "EngineEvent \<Rightarrow> SecurityId option" where
  "event_security (EvBook u) = Some (bu_security_id u)"
| "event_security (EvFilled f) = Some (fill_security_id f)"
| "event_security _ = None"

definition events_for :: "SecurityId \<Rightarrow> EngineEvent list \<Rightarrow> EngineEvent list" where
  "events_for sec evs = filter (\<lambda>ev. event_security ev = Some sec) evs"

lemma events_for_append [simp]: "events_for sec (evs @ evs') = events_for sec evs @ events_for sec evs'"
  by (simp add: events_for_def)

lemma events_for_all:
  assumes "\<forall>u\<in>set (updates evs). bu_security_id u = sec" and "\<forall>f\<in>set (fills evs). fill_security_id f = sec"
  shows "updates (events_for sec evs) = updates evs \<and> fills (events_for sec evs) = fills evs \<and>
    (sec' \<noteq> sec \<longrightarrow> events_for sec' evs = [])"
  using assms
proof (induction evs)
  case (Cons ev evs)
  then show ?case by (cases ev) (auto simp: events_for_def)
qed (simp add: events_for_def)

lemma reports_for:
  assumes "reports b evs b'" and "book_security_id b = sec"
  shows "reports b (events_for sec evs) b'" and "sec' \<noteq> sec \<Longrightarrow> events_for sec' evs = []"
  using assms events_for_all [of evs sec sec'] by (auto simp: reports_def labelled_def numbered_def)

end
