(* ===== verification/Matching_Engine.thy ===== *)
theory Matching_Engine
  imports Book_Market_Data
begin

text \<open>
  \<^verbatim>\<open>src/engine/full_matching_engine.h\<close> and \<^verbatim>\<open>.cpp\<close>: one order book per security, an id counter, and
  the ownership of every order (\<^verbatim>\<open>owned_orders_\<close> holds \<^verbatim>\<open>unique_ptr\<close>s, the books raw pointers to the
  same objects).  The engine's state has the heap the pointers point into.  \<open>submitOrder\<close> gets the
  address of the caller's object and its contents, and the wall clock's reading.

  The central property is memory safety across the two: in every state the engine can reach, each
  pointer in a book is an order the engine still owns, and each book satisfies the book invariant.
\<close>

record Engine =
  order_books :: "SecurityId \<rightharpoonup> OrderBook"
  order_to_security :: "OrderId \<rightharpoonup> SecurityId"
  owned_orders :: "OrderId \<rightharpoonup> OrderPtr"
  next_order_id :: "64 word"
  objects :: heap

definition FullMatchingEngine_new :: "heap \<Rightarrow> Engine" where
  "FullMatchingEngine_new h = \<lparr>order_books = Map.empty, order_to_security = Map.empty,
     owned_orders = Map.empty, next_order_id = 1, objects = h\<rparr>"

definition addInstrument :: "SecurityId \<Rightarrow> Engine \<Rightarrow> Engine" where
  "addInstrument sec e =
     (case order_books e sec of
        None \<Rightarrow> e\<lparr>order_books := (order_books e)(sec \<mapsto> OrderBook_new sec)\<rparr>
      | Some _ \<Rightarrow> e)"

definition forget :: "OrderId \<Rightarrow> Engine \<Rightarrow> Engine" where
  "forget oid e = e\<lparr>order_to_security := (order_to_security e)(oid := None),
                    owned_orders := (owned_orders e)(oid := None)\<rparr>"

definition submitOrder :: "Timestamp \<Rightarrow> OrderPtr \<Rightarrow> Order \<Rightarrow> Engine \<Rightarrow> Engine \<times> EngineEvent list" where
  "submitOrder now ptr order e =
     (let order = order\<lparr>order_id := next_order_id e, timestamp := now\<rparr>;
          e = e\<lparr>next_order_id := next_order_id e + 1\<rparr>;
          sec_id = security_id order
      in case order_books e sec_id of
           None \<Rightarrow> (e, [EvRejected \<lparr>rej_cl_ord_id = cl_ord_id order,
                      rej_session_uuid = session_uuid order,
                      rej_reason = ''Unknown security ID'', rej_reject_reason_code = 0\<rparr>])
         | Some book \<Rightarrow>
             (let oid = order_id order;
                  e = e\<lparr>objects := (objects e)(ptr := order),
                        owned_orders := (owned_orders e)(oid \<mapsto> ptr),
                        order_to_security := (order_to_security e)(oid \<mapsto> sec_id)\<rparr>;
                  (h, book, events) = book_addOrder ptr (objects e) book;
                  e = e\<lparr>objects := h, order_books := (order_books e)(sec_id \<mapsto> book)\<rparr>
              in (if isFullyFilled (h ptr) \<or> status (h ptr) = Canceled \<or> status (h ptr) = Rejected
                  then forget oid e else e, events)))"

definition engine_cancelOrder ::
  "OrderId \<Rightarrow> SecurityId \<Rightarrow> uuid_t \<Rightarrow> Engine \<Rightarrow> Engine \<times> EngineEvent list" where
  "engine_cancelOrder oid security uuid e =
     (let sec_id = (case order_to_security e oid of Some s \<Rightarrow> s | None \<Rightarrow> security)
      in case order_books e sec_id of
           None \<Rightarrow> (e, [EvCancelRejected \<lparr>cxr_order_id = oid, cxr_cl_ord_id = '''',
                      cxr_session_uuid = uuid, cxr_reject_reason_code = 0,
                      cxr_reason = ''Unknown security ID''\<rparr>])
         | Some book \<Rightarrow>
             (let (h, book, events) = book_cancelOrder oid (objects e) book;
                  e = e\<lparr>objects := h, order_books := (order_books e)(sec_id \<mapsto> book)\<rparr>
              in (forget oid e, events)))"

definition engine_modifyOrder ::
  "OrderId \<Rightarrow> SecurityId \<Rightarrow> Price \<Rightarrow> Quantity \<Rightarrow> ClOrdId \<Rightarrow> Engine \<Rightarrow> Engine \<times> EngineEvent list" where
  "engine_modifyOrder oid security new_price new_qty new_cl_ord_id e =
     (let sec_id = (case order_to_security e oid of Some s \<Rightarrow> s | None \<Rightarrow> security)
      in case order_books e sec_id of
           None \<Rightarrow> (e, [EvCancelRejected \<lparr>cxr_order_id = oid, cxr_cl_ord_id = new_cl_ord_id,
                      cxr_session_uuid = 0, cxr_reject_reason_code = 0,
                      cxr_reason = ''Unknown security ID''\<rparr>])
         | Some book \<Rightarrow>
             (let (h, book, events) =
                    book_modifyOrder oid new_price new_qty new_cl_ord_id (objects e) book;
                  e = e\<lparr>objects := h, order_books := (order_books e)(sec_id \<mapsto> book)\<rparr>
              in (case owned_orders e oid of
                    None \<Rightarrow> e
                  | Some raw_ptr \<Rightarrow>
                      if isFullyFilled (h raw_ptr) \<or> status (h raw_ptr) = Canceled
                      then forget oid e else e, events)))"

definition getOrderBook :: "SecurityId \<Rightarrow> Engine \<Rightarrow> OrderBook option" where
  "getOrderBook sec e = order_books e sec"

section \<open>Components that share one heap\<close>

text \<open>
  The contract that lets one component be verified against the whole heap: its invariant depends only
  on the cells it refers to.  A table of such components with disjoint cells is then updated one entry
  at a time.
\<close>

locale heap_component =
  fixes inv :: "heap \<Rightarrow> 'b \<Rightarrow> bool" and cells :: "'b \<Rightarrow> OrderPtr set"
  assumes frame: "(\<And>p. p \<in> cells b \<Longrightarrow> h' p = h p) \<Longrightarrow> inv h b \<Longrightarrow> inv h' b"
begin

definition table_ok :: "heap \<Rightarrow> ('k \<rightharpoonup> 'b) \<Rightarrow> bool" where
  "table_ok h T \<longleftrightarrow> (\<forall>k b. T k = Some b \<longrightarrow> inv h b) \<and>
     (\<forall>k k' b b'. T k = Some b \<longrightarrow> T k' = Some b' \<longrightarrow> k \<noteq> k' \<longrightarrow> cells b \<inter> cells b' = {})"

lemma table_get: "table_ok h T \<Longrightarrow> T k = Some b \<Longrightarrow> inv h b"
  by (simp add: table_ok_def)

lemma table_empty: "table_ok h Map.empty"
  by (simp add: table_ok_def)

lemma table_update:
  assumes T: "table_ok h T" and new: "inv h' b'"
    and cells: "\<And>k'' b''. k'' \<noteq> k \<Longrightarrow> T k'' = Some b'' \<Longrightarrow> cells b' \<inter> cells b'' = {}"
    and other: "\<And>k'' b'' p. k'' \<noteq> k \<Longrightarrow> T k'' = Some b'' \<Longrightarrow> p \<in> cells b'' \<Longrightarrow> h' p = h p"
  shows "table_ok h' (T(k \<mapsto> b'))"
proof -
  have "inv h' b''" if "k'' \<noteq> k" "T k'' = Some b''" for k'' b''
    using frame [of b'' h' h] other [OF that] table_get [OF T that(2)] by blast
  moreover have "cells b'' \<inter> cells b' = {}" if "k'' \<noteq> k" "T k'' = Some b''" for k'' b''
    using cells [OF that] by blast
  ultimately show ?thesis using T new cells unfolding table_ok_def by (simp split: if_splits)
qed

end

definition book_cells :: "OrderBook \<Rightarrow> OrderPtr set" where
  "book_cells b = set (resting Buy b) \<union> set (resting Sell b)"

lemma book_inv_cong:
  assumes "\<And>p. p \<in> book_cells b \<Longrightarrow> h' p = h p"
  shows "book_inv h' b = book_inv h b"
proof -
  have sides: "side_ok h' s (levels s b) = side_ok h s (levels s b)" if "s = Buy \<or> s = Sell" for s
  proof (rule side_ok_cong)
    fix p l m assume "(p, l) \<in> set (levels s b)" "m \<in> set (queue l)"
    then have "m \<in> set (resting s b)" by (auto simp: in_resting)
    with assms that show "h' m = h m" by (auto simp: book_cells_def)
  qed
  have ix: "index_ok h' b = index_ok h b"
  proof -
    have "p \<in> book_cells b \<and> order_id (h' p) = i \<longleftrightarrow> p \<in> book_cells b \<and> order_id (h p) = i" for p i
      using assms by auto
    then show ?thesis unfolding index_ok_def book_cells_def by simp
  qed
  show ?thesis using sides [of Buy] sides [of Sell] ix by (simp add: book_inv_def)
qed

interpretation books: heap_component book_inv book_cells
  by unfold_locales (use book_inv_cong in blast)

section \<open>What a book operation does to the heap\<close>

text \<open>
  \<open>effect h b h' b' N\<close>: the operation leaves a sound book that refers to old cells of the book and
  the cells in \<open>N\<close> only, wrote to no other cell, and changed no order's id or security.
\<close>

definition effect :: "heap \<Rightarrow> OrderBook \<Rightarrow> heap \<Rightarrow> OrderBook \<Rightarrow> OrderPtr set \<Rightarrow> bool" where
  "effect h b h' b' N \<longleftrightarrow> book_inv h' b' \<and> book_cells b' \<subseteq> book_cells b \<union> N \<and>
     (\<forall>p. p \<notin> book_cells b \<union> N \<longrightarrow> h' p = h p) \<and>
     (\<forall>p. order_id (h' p) = order_id (h p) \<and> security_id (h' p) = security_id (h p)) \<and>
     book_security_id b' = book_security_id b"

lemma book_cells_side: "s = Buy \<or> s = Sell \<Longrightarrow> set (resting s b) \<subseteq> book_cells b"
  by (auto simp: book_cells_def)

lemma unbooked_cells: "unbooked t b \<longleftrightarrow> t \<notin> book_cells b"
  by (simp add: unbooked_def book_cells_def)

lemma matchOrder_cells:
  assumes "matchOrder t h b = (h', b', evs)" and "book_inv h b" and "unbooked t b"
  shows "book_cells b' \<subseteq> book_cells b \<and> (\<forall>p. p \<notin> insert t (book_cells b) \<longrightarrow> h' p = h p) \<and>
    book_security_id b' = book_security_id b"
  using matchOrder_trades(1) [OF assms] book_inv_side [OF assms(2)] unbooked_resting [OF assms(3)]
proof (induction rule: trades_invariant)
  case start
  then show ?case by simp
next
  case (trade h1 b1 evs1 h2 b2 evs2)
  let ?s = "maker_side (h t)"
  have s: "?s = Buy \<or> ?s = Sell" by (simp add: maker_side_def)
  from trade_once_side_ok(2) [OF trade(2-4)]
  have sub: "set (resting ?s b2) \<subseteq> set (resting ?s b1)" .
  from trade(2-4) show ?case
  proof (rule trade_step_cases, goal_cases)
    case (1 p l rest m qs q gone l')
    have "m \<in> book_cells b1"
      using 1(1,2) book_cells_side [OF s, of b1] by (auto simp: resting_levels)
    moreover have "resting (opposite ?s) b2 = resting (opposite ?s) b1" by (simp add: 1(15))
    ultimately show ?case
      using trade(1) sub 1(13,15) unfolding book_cells_def book_sides(2) [OF s] by auto
  qed
qed

lemma matchOrder_effect:
  assumes "matchOrder t h b = (h', b', evs)" and "book_inv h b" and "unbooked t b"
  shows "effect h b h' b' {t}"
  using matchOrder_cells [OF assms] matchOrder_book_inv [OF assms] matchOrder_terms [OF assms]
  by (auto simp: effect_def same_termsD)

lemma insertResting_effect:
  assumes "insertResting t h b = (b', us)" and "book_inv h b" and "book_inv h b'"
  shows "effect h b h b' {t}"
proof -
  have "side_ok h (own_side (h t)) (levels (own_side (h t)) b)"
    using assms(2) book_sides(1) [OF own_side_cases] by blast
  then show ?thesis
  proof (rule insertResting_cases, goal_cases)
    case (1 xs old ys l')
    let ?s = "own_side (h t)"
    have "set (resting ?s b') \<subseteq> insert t (set (resting ?s b))"
      using 1(1,2,5) assms(1) by (auto simp: resting_levels)
    moreover have "resting (opposite ?s) b' = resting (opposite ?s) b" "book_security_id b' = book_security_id b"
      using 1(5) assms(1) by auto
    ultimately show ?case
      using assms(3) unfolding effect_def book_cells_def book_sides(2) [OF own_side_cases [of "h t"]] by auto
  qed
qed

lemma removeFromBook_effect:
  assumes "book_inv h b" and "orders_by_id b i = Some t" and "removeFromBook t h b = (b', us)"
  shows "effect h b h b' {} \<and> t \<in> book_cells b \<and> book_cells b' = book_cells b - {t}"
  using removeFromBook_book_inv [OF assms] by (auto simp: effect_def book_cells_def)

lemma effect_trans:
  assumes "effect h b h1 b1 N" and "effect h1 b1 h2 b2 N" shows "effect h b h2 b2 N"
  using assms unfolding effect_def by (auto simp: subset_iff)

lemma effect_upd:
  assumes "effect h b h1 b1 N" and "t \<notin> book_cells b1" and "t \<in> book_cells b \<union> N"
    and "order_id x = order_id (h1 t)" and "security_id x = security_id (h1 t)"
  shows "effect h b (h1(t := x)) b1 N"
  using assms unfolding effect_def by (auto simp: book_inv_upd unbooked_cells)

lemma effect_mono: "effect h b h' b' N \<Longrightarrow> N \<subseteq> N' \<Longrightarrow> effect h b h' b' N'"
  unfolding effect_def by blast

lemma book_addOrder_effect:
  assumes inv: "book_inv h b" and t: "unbooked t b" and i: "orders_by_id b (order_id (h t)) = None"
    and add: "book_addOrder t h b = (h', b', evs)"
  shows "effect h b h' b' {t}"
proof -
  obtain h1 b1 ev1 where m: "matchOrder t h b = (h1, b1, ev1)" by (metis prod_cases3)
  obtain b2 us where ins: "insertResting t h1 b1 = (b2, us)" by (metis prod.exhaust)
  note e1 = matchOrder_effect [OF m inv t]
  have u1: "t \<notin> book_cells b1" using matchOrder_book_inv [OF m inv t] unbooked_cells by blast
  have "effect h b h1 b2 {t}" if "order_type (h1 t) = Limit" "\<not> isFullyFilled (h1 t)"
    using effect_trans [OF e1] insertResting_effect [OF ins] matchOrder_book_inv [OF m inv t]
      match_then_rest [OF m inv t i that ins] by blast
  moreover have "effect h b (h1(t := (h1 t)\<lparr>status := Canceled\<rparr>)) b1 {t}"
    using e1 u1 by (rule effect_upd) simp_all
  moreover have "effect h b h b {t}" using inv by (auto simp: effect_def)
  ultimately show ?thesis using add m ins e1
    by (auto simp: book_addOrder_def Let_def split: if_splits)
qed

lemma book_cancelOrder_effect:
  assumes inv: "book_inv h b" and can: "book_cancelOrder oid h b = (h', b', evs)"
  shows "effect h b h' b' {} \<and> (\<forall>p\<in>book_cells b'. order_id (h' p) \<noteq> oid)"
proof (cases "orders_by_id b oid")
  case None
  with can have eq: "h' = h" "b' = b" by (simp_all add: book_cancelOrder_def)
  have "order_id (h p) \<noteq> oid" if "p \<in> book_cells b" for p
    using inv None that unfolding book_inv_def index_ok_def book_cells_def by (metis option.distinct(1))
  with eq inv show ?thesis by (simp add: effect_def)
next
  case (Some t)
  obtain b1 us where rem: "removeFromBook t h b = (b1, us)" by (metis prod.exhaust)
  note r = removeFromBook_effect [OF inv Some rem]
  have eq: "h' = h(t := (h t)\<lparr>status := Canceled\<rparr>)" "b' = b1"
    using can Some rem by (simp_all add: book_cancelOrder_def Let_def)
  have "order_id (h p) \<noteq> oid" if "p \<in> book_cells b - {t}" for p
    using inv Some that unfolding book_inv_def index_ok_def book_cells_def
    by (metis DiffE insertI1 option.inject)
  moreover have "effect h b (h(t := (h t)\<lparr>status := Canceled\<rparr>)) b1 {}"
    using r by (intro effect_upd) auto
  ultimately show ?thesis using r eq by auto
qed

lemma matchOrder_status:
  assumes "matchOrder t h b = (h', b', evs)" and "book_inv h b" and "unbooked t b"
  shows "status (h' t) \<in> {status (h t), Filled, PartiallyFilled}"
  using matchOrder_trades(1) [OF assms] book_inv_side [OF assms(2)] unbooked_resting [OF assms(3)]
proof (induction rule: trades_invariant)
  case start
  then show ?case by simp
next
  case (trade h1 b1 evs1 h2 b2 evs2)
  from trade(2-4) show ?case
    by (rule trade_step_cases) (simp add: fillOrder_status)
qed

lemma book_cells_open:
  assumes "book_inv h b" and "p \<in> book_cells b"
  shows "\<not> isFullyFilled (h p)"
  using assms resting_open [of h Buy b p] resting_open [of h Sell b p]
  by (auto simp: book_inv_def book_cells_def open_at_def isFullyFilled_iff)

lemma book_cells_index:
  assumes "book_inv h b" and "p \<in> book_cells b"
  shows "orders_by_id b (order_id (h p)) = Some p"
  using assms unfolding book_inv_def index_ok_def book_cells_def by blast

lemma book_modifyOrder_effect:
  assumes inv: "book_inv h b" and md: "book_modifyOrder oid np nq ncl h b = (h', b', evs)"
  shows "effect h b h' b' {} \<and>
    (\<forall>p\<in>book_cells b'. order_id (h' p) = oid \<longrightarrow> \<not> isFullyFilled (h' p) \<and> status (h' p) \<noteq> Canceled)"
proof (cases "orders_by_id b oid")
  case None
  with md have "h' = h" "b' = b" by (simp_all add: book_modifyOrder_def)
  with inv None book_cells_index [OF inv] show ?thesis by (auto simp: effect_def)
next
  case (Some t)
  obtain b1 us where rem: "removeFromBook t h b = (b1, us)" by (metis prod.exhaust)
  note r = removeFromBook_book_inv [OF inv Some rem] and re = removeFromBook_effect [OF inv Some rem]
  let ?h = "h(t := replaced np nq ncl (h t))"
  have inv1: "book_inv ?h b1" using r by (simp add: book_inv_upd)
  have i1: "orders_by_id b1 (order_id (?h t)) = None" using r by (simp add: replaced_def)
  obtain h2 b2 ev2 where m: "matchOrder t ?h b1 = (h2, b2, ev2)" by (metis prod_cases3)
  obtain b3 us3 where ins: "insertResting t h2 b2 = (b3, us3)" by (metis prod.exhaust)
  have cells: "t \<in> book_cells b" using re by simp
  have "effect h b h b1 {t}" using re effect_mono by blast
  then have e1: "effect h b ?h b1 {t}"
    by (rule effect_upd) (use re in \<open>simp_all add: replaced_def\<close>)
  have e2: "effect h b h2 b2 {t}"
    using e1 matchOrder_effect [OF m inv1 r(2)] by (rule effect_trans)
  have e3: "effect h b h2 b3 {t}" if "order_type (h2 t) = Limit" "\<not> isFullyFilled (h2 t)"
    using effect_trans [OF e2] insertResting_effect [OF ins] matchOrder_book_inv [OF m inv1 r(2)]
      match_then_rest [OF m inv1 r(2) i1 that ins] by blast
  have "effect h b h' b' {t}" and h': "h' = h2"
    using md e2 e3 unfolding book_modifyOrder_Some [OF Some rem refl m ins refl] by (auto split: if_splits)
  then have eff: "effect h b h' b' {}" using cells by (auto simp: effect_def)
  have "p = t" if p: "p \<in> book_cells b'" "order_id (h' p) = oid" for p
  proof -
    have "p \<in> book_cells b" "order_id (h p) = oid" using eff p by (auto simp: effect_def)
    with book_cells_index [OF inv this(1)] Some show ?thesis by simp
  qed
  moreover have "status (h' t) \<noteq> Canceled"
    using matchOrder_status [OF m inv1 r(2)] h' by (auto simp: replaced_def)
  ultimately show ?thesis using eff book_cells_open [of h' b'] by (auto simp: effect_def)
qed

section \<open>The engine invariant\<close>

definition engine_inv :: "Engine \<Rightarrow> bool" where
  "engine_inv e \<longleftrightarrow> books.table_ok (objects e) (order_books e) \<and>
     (\<forall>sec b. order_books e sec = Some b \<longrightarrow> book_security_id b = sec) \<and>
     (\<forall>sec b p. order_books e sec = Some b \<longrightarrow> p \<in> book_cells b \<longrightarrow>
        owned_orders e (order_id (objects e p)) = Some p \<and>
        order_to_security e (order_id (objects e p)) = Some sec) \<and>
     (\<forall>i p. owned_orders e i = Some p \<longrightarrow> order_id (objects e p) = i \<and> i < next_order_id e)"

lemma engine_invD:
  assumes "engine_inv e"
  shows "books.table_ok (objects e) (order_books e)"
    and "order_books e sec = Some b \<Longrightarrow> book_security_id b = sec"
    and "order_books e sec = Some b \<Longrightarrow> p \<in> book_cells b \<Longrightarrow>
      owned_orders e (order_id (objects e p)) = Some p \<and>
      order_to_security e (order_id (objects e p)) = Some sec"
    and "owned_orders e i = Some p \<Longrightarrow> order_id (objects e p) = i \<and> i < next_order_id e"
  using assms unfolding engine_inv_def by blast+

text \<open>Cells of different books are different.\<close>

lemma engine_cells_disjoint:
  assumes "engine_inv e" "order_books e sec = Some b" "order_books e sec' = Some b'" "sec \<noteq> sec'"
    "p \<in> book_cells b" "p \<in> book_cells b'"
  shows False
  using engine_invD(3) [OF assms(1,2,5)] engine_invD(3) [OF assms(1,3,6)] assms(4) by simp

text \<open>One operation on the book of one security, as the engine performs it.\<close>

definition put_book :: "SecurityId \<Rightarrow> heap \<Rightarrow> OrderBook \<Rightarrow> Engine \<Rightarrow> Engine" where
  "put_book sec h b e = e\<lparr>objects := h, order_books := (order_books e)(sec \<mapsto> b)\<rparr>"

lemma put_book_inv:
  assumes inv: "engine_inv e" and b: "order_books e sec = Some b" and eff: "effect (objects e) b h' b' N"
    and own: "\<And>t. t \<in> N \<Longrightarrow> owned_orders e (order_id (objects e t)) = Some t \<and>
      order_to_security e (order_id (objects e t)) = Some sec"
  shows "engine_inv (put_book sec h' b' e)"
proof -
  let ?h = "objects e"
  have id: "order_id (h' p) = order_id (?h p)" for p using eff by (simp add: effect_def)
  have sec: "owned_orders e (order_id (?h p)) = Some p \<and> order_to_security e (order_id (?h p)) = Some sec"
    if "p \<in> book_cells b \<union> N" for p
    using engine_invD(3) [OF inv b] own that by blast
  have out: "p \<notin> book_cells b \<union> N"
    if "sec' \<noteq> sec" "order_books e sec' = Some b''" "p \<in> book_cells b''" for sec' b'' p
    using engine_invD(3) [OF inv that(2,3)] sec [of p] that(1) by auto
  have sub: "book_cells b' \<subseteq> book_cells b \<union> N" using eff by (simp add: effect_def)
  have same: "h' p = ?h p" if "p \<notin> book_cells b \<union> N" for p using eff that by (simp add: effect_def)
  have "books.table_ok h' ((order_books e)(sec \<mapsto> b'))"
    using engine_invD(1) [OF inv]
  proof (rule books.table_update)
    show "book_inv h' b'" using eff by (simp add: effect_def)
  qed (use out sub same in blast)+
  moreover have "book_security_id b' = sec"
    using eff engine_invD(2) [OF inv b] by (simp add: effect_def)
  ultimately show ?thesis
    using engine_invD(2-4) [OF inv] sec sub unfolding engine_inv_def put_book_def
    by (auto simp: id split: if_splits)
qed

lemma forget_inv:
  assumes inv: "engine_inv e"
    and gone: "\<And>sec b p. order_books e sec = Some b \<Longrightarrow> p \<in> book_cells b \<Longrightarrow> order_id (objects e p) \<noteq> oid"
  shows "engine_inv (forget oid e)"
  using inv gone unfolding engine_inv_def forget_def by auto

section \<open>Every operation of the engine keeps the invariant\<close>

lemma OrderBook_new_inv: "book_inv h (OrderBook_new sec)" "book_cells (OrderBook_new sec) = {}"
  by (simp_all add: book_inv_def OrderBook_new_def book_cells_def resting_def index_ok_def uncrossed_def)

lemma FullMatchingEngine_new_inv: "engine_inv (FullMatchingEngine_new h)"
  by (simp add: engine_inv_def FullMatchingEngine_new_def books.table_empty)

lemma addInstrument_inv:
  assumes inv: "engine_inv e"
  shows "engine_inv (addInstrument sec e)"
proof (cases "order_books e sec")
  case None
  have "books.table_ok (objects e) ((order_books e)(sec \<mapsto> OrderBook_new sec))"
    using engine_invD(1) [OF inv]
    by (rule books.table_update) (simp_all add: OrderBook_new_inv)
  moreover have "book_security_id (OrderBook_new sec) = sec" by (simp add: OrderBook_new_def)
  ultimately show ?thesis
    using engine_invD(2-4) [OF inv] None
    by (auto simp: engine_inv_def addInstrument_def OrderBook_new_inv split: if_splits)
qed (use inv in \<open>simp add: addInstrument_def\<close>)

lemma book_addOrder_status:
  assumes inv: "book_inv h b" and t: "unbooked t b" and add: "book_addOrder t h b = (h', b', evs)"
    and rests: "t \<in> book_cells b'"
  shows "status (h' t) \<in> {status (h t), Filled, PartiallyFilled}"
proof -
  obtain h1 b1 ev1 where m: "matchOrder t h b = (h1, b1, ev1)" by (metis prod_cases3)
  have "t \<notin> book_cells b" "t \<notin> book_cells b1"
    using t matchOrder_book_inv [OF m inv t] unbooked_cells by blast+
  with add rests m have "h' = h1" by (auto simp: book_addOrder_def Let_def split: if_splits prod.splits)
  with matchOrder_status [OF m inv t] show ?thesis by simp
qed

text \<open>
  The conditions on a submission: the caller's object is not one the engine already owns (it is a fresh
  allocation), it has not been cancelled or rejected before, and the id counter does not wrap.
\<close>

definition fresh_order :: "OrderPtr \<Rightarrow> Order \<Rightarrow> Engine \<Rightarrow> bool" where
  "fresh_order ptr order e \<longleftrightarrow> (\<forall>i. owned_orders e i \<noteq> Some ptr) \<and>
     status order = New \<and> next_order_id e + 1 \<noteq> 0"

definition take_order :: "OrderPtr \<Rightarrow> Order \<Rightarrow> Engine \<Rightarrow> Engine" where
  "take_order ptr order e = e\<lparr>next_order_id := next_order_id e + 1,
     objects := (objects e)(ptr := order),
     owned_orders := (owned_orders e)(order_id order \<mapsto> ptr),
     order_to_security := (order_to_security e)(order_id order \<mapsto> security_id order)\<rparr>"

lemma less_succ_word: "(i :: 64 word) \<le> n \<Longrightarrow> n + 1 \<noteq> 0 \<Longrightarrow> i < n + 1"
  using unatSuc [of n] by (simp add: word_less_nat_alt word_le_nat_alt add.commute)

lemma take_order_inv:
  assumes inv: "engine_inv e" and fresh: "fresh_order ptr order e"
    and id: "order_id order = next_order_id e"
  shows "engine_inv (take_order ptr order e)"
    and "\<And>sec b. order_books e sec = Some b \<Longrightarrow> ptr \<notin> book_cells b"
    and "\<And>sec b. order_books e sec = Some b \<Longrightarrow> orders_by_id b (next_order_id e) = None"
proof -
  show out: "ptr \<notin> book_cells b" if "order_books e sec = Some b" for sec b
    using engine_invD(3) [OF inv that] fresh unfolding fresh_order_def by blast
  have new: "i \<noteq> next_order_id e" if "owned_orders e i = Some p" for i p
    using engine_invD(4) [OF inv that] by auto
  show "orders_by_id b (next_order_id e) = None" if b: "order_books e sec = Some b" for sec b
  proof (rule ccontr)
    assume "orders_by_id b (next_order_id e) \<noteq> None"
    then obtain p where "p \<in> book_cells b" "order_id (objects e p) = next_order_id e"
      using books.table_get [OF engine_invD(1) [OF inv] b]
      unfolding book_inv_def index_ok_def book_cells_def by blast
    with engine_invD(3) [OF inv b] new show False by metis
  qed
  have n: "next_order_id e < next_order_id e + 1" "i < next_order_id e \<Longrightarrow> i < next_order_id e + 1" for i
    using fresh less_succ_word unfolding fresh_order_def by (auto simp: less_imp_le)
  have table: "books.table_ok ((objects e)(ptr := order)) (order_books e)"
    using engine_invD(1) [OF inv] out book_inv_upd unbooked_cells
    unfolding books.table_ok_def by (metis (no_types, lifting))
  have owned: "p \<noteq> ptr" if "owned_orders e i = Some p" for i p
    using fresh that unfolding fresh_order_def by blast
  show "engine_inv (take_order ptr order e)"
    unfolding engine_inv_def take_order_def
    using table engine_invD(2-4) [OF inv] out new n owned id
    by (auto split: if_splits)
qed

lemma submitOrder_known:
  assumes o': "o' = order\<lparr>order_id := next_order_id e, timestamp := now\<rparr>"
    and b: "order_books e (security_id order) = Some b"
    and add: "book_addOrder ptr ((objects e)(ptr := o')) b = (h, b', evs)"
  shows "submitOrder now ptr order e =
    (let e1 = put_book (security_id order) h b' (take_order ptr o' e)
     in (if isFullyFilled (h ptr) \<or> status (h ptr) = Canceled \<or> status (h ptr) = Rejected
         then forget (next_order_id e) e1 else e1, evs))"
  using assms by (simp add: submitOrder_def Let_def take_order_def put_book_def)

lemma submitOrder_inv:
  assumes inv: "engine_inv e" and fresh: "fresh_order ptr order e"
    and sub: "submitOrder now ptr order e = (e', evs)"
  shows "engine_inv e'"
proof (cases "order_books e (security_id order)")
  case None
  have "i < next_order_id e + 1" if "i < next_order_id e" for i
    using that fresh less_succ_word unfolding fresh_order_def by (simp add: less_imp_le)
  with None sub inv show ?thesis by (auto simp: submitOrder_def Let_def engine_inv_def)
next
  case (Some b)
  define o' where "o' = order\<lparr>order_id := next_order_id e, timestamp := now\<rparr>"
  let ?h = "(objects e)(ptr := o')"
  obtain h b' ev where add: "book_addOrder ptr ?h b = (h, b', ev)" by (metis prod_cases3)
  have fresh': "fresh_order ptr o' e" and id: "order_id o' = next_order_id e"
    using fresh by (simp_all add: fresh_order_def o'_def)
  note tk = take_order_inv [OF inv fresh' id]
  let ?e = "take_order ptr o' e"
  have e: "order_books ?e = order_books e" "objects ?e = ?h"
    "owned_orders ?e (next_order_id e) = Some ptr"
    "order_to_security ?e (next_order_id e) = Some (security_id order)"
    by (simp_all add: take_order_def id) (simp add: o'_def)
  have binv: "book_inv ?h b" using books.table_get [OF engine_invD(1) [OF tk(1)]] Some e by simp
  have un: "unbooked ptr b" using tk(2) Some unbooked_cells by blast
  have ni: "orders_by_id b (order_id (?h ptr)) = None" using tk(3) Some id by simp
  note eff = book_addOrder_effect [OF binv un ni add]
  have "effect (objects ?e) b h b' {ptr}" using eff e by simp
  then have inv1: "engine_inv (put_book (security_id order) h b' ?e)"
    using Some e id by (intro put_book_inv [OF tk(1)]) auto
  have gone: "order_id (h p) \<noteq> next_order_id e"
    if "order_books (put_book (security_id order) h b' ?e) sec = Some b2" "p \<in> book_cells b2"
      and "isFullyFilled (h ptr) \<or> status (h ptr) = Canceled \<or> status (h ptr) = Rejected" for sec b2 p
  proof
    assume eq: "order_id (h p) = next_order_id e"
    have "owned_orders ?e (order_id (h p)) = Some p \<and> order_to_security ?e (order_id (h p)) = Some sec"
      using engine_invD(3) [OF inv1 that(1,2)] by (simp add: put_book_def)
    with eq e have "p = ptr" "sec = security_id order" by simp_all
    with that(1,2) have "ptr \<in> book_cells b'" by (simp add: put_book_def)
    with book_addOrder_status [OF binv un add] book_cells_open [of h b' ptr] eff that(3) fresh
    show False by (auto simp: effect_def fresh_order_def o'_def)
  qed
  show ?thesis
    using sub inv1 forget_inv [OF inv1] gone
    unfolding submitOrder_known [OF o'_def Some add]
    by (auto simp: Let_def put_book_def split: if_splits)
qed

lemma engine_cancelOrder_inv:
  assumes inv: "engine_inv e" and can: "engine_cancelOrder oid security uuid e = (e', evs)"
  shows "engine_inv e'"
proof -
  define sec where "sec = (case order_to_security e oid of Some s \<Rightarrow> s | None \<Rightarrow> security)"
  show ?thesis
  proof (cases "order_books e sec")
    case None
    with can inv show ?thesis by (simp add: engine_cancelOrder_def Let_def sec_def)
  next
    case (Some b)
    obtain h b' ev where bc: "book_cancelOrder oid (objects e) b = (h, b', ev)" by (metis prod_cases3)
    note eff = book_cancelOrder_effect [OF books.table_get [OF engine_invD(1) [OF inv] Some] bc]
    have inv1: "engine_inv (put_book sec h b' e)"
      using put_book_inv [OF inv Some] eff by blast
    have "engine_inv (forget oid (put_book sec h b' e))"
      using inv1
    proof (rule forget_inv)
      fix sec2 b2 p assume b2: "order_books (put_book sec h b' e) sec2 = Some b2" "p \<in> book_cells b2"
      show "order_id (objects (put_book sec h b' e) p) \<noteq> oid"
      proof
        assume "order_id (objects (put_book sec h b' e) p) = oid"
        with engine_invD(3) [OF inv1 b2] have "sec2 = sec" "order_id (h p) = oid"
          by (simp_all add: put_book_def sec_def)
        with b2 eff show False by (simp add: put_book_def)
      qed
    qed
    with can Some bc show ?thesis
      by (simp add: engine_cancelOrder_def Let_def sec_def [symmetric] put_book_def)
  qed
qed

lemma engine_modifyOrder_inv:
  assumes inv: "engine_inv e" and md: "engine_modifyOrder oid security np nq ncl e = (e', evs)"
  shows "engine_inv e'"
proof -
  define sec where "sec = (case order_to_security e oid of Some s \<Rightarrow> s | None \<Rightarrow> security)"
  show ?thesis
  proof (cases "order_books e sec")
    case None
    with md inv show ?thesis by (simp add: engine_modifyOrder_def Let_def sec_def)
  next
    case (Some b)
    obtain h b' ev where bm: "book_modifyOrder oid np nq ncl (objects e) b = (h, b', ev)"
      by (metis prod_cases3)
    note eff = book_modifyOrder_effect [OF books.table_get [OF engine_invD(1) [OF inv] Some] bm]
    let ?e = "put_book sec h b' e"
    have inv1: "engine_inv ?e" using put_book_inv [OF inv Some] eff by blast
    have "engine_inv (forget oid ?e)"
      if own: "owned_orders e oid = Some ptr" and dead: "isFullyFilled (h ptr) \<or> status (h ptr) = Canceled"
      for ptr
      using inv1
    proof (rule forget_inv)
      fix sec2 b2 p assume b2: "order_books ?e sec2 = Some b2" "p \<in> book_cells b2"
      show "order_id (objects ?e p) \<noteq> oid"
      proof
        assume "order_id (objects ?e p) = oid"
        with engine_invD(3) [OF inv1 b2] own have "sec2 = sec" "order_id (h p) = oid" "p = ptr"
          by (simp_all add: put_book_def sec_def)
        with b2 eff dead show False by (auto simp: put_book_def)
      qed
    qed
    with md Some bm inv1 show ?thesis
      by (auto simp: engine_modifyOrder_def Let_def sec_def [symmetric] put_book_def
          split: option.splits if_splits)
  qed
qed

section \<open>Reachable states\<close>

inductive engine_reach :: "Engine \<Rightarrow> bool" where
  start: "engine_reach (FullMatchingEngine_new h)"
| instrument: "engine_reach e \<Longrightarrow> engine_reach (addInstrument sec e)"
| submit: "engine_reach e \<Longrightarrow> fresh_order ptr order e \<Longrightarrow>
    engine_reach (fst (submitOrder now ptr order e))"
| cancel: "engine_reach e \<Longrightarrow> engine_reach (fst (engine_cancelOrder oid sec uuid e))"
| modify: "engine_reach e \<Longrightarrow> engine_reach (fst (engine_modifyOrder oid sec np nq ncl e))"

lemma engine_reach_inv: "engine_reach e \<Longrightarrow> engine_inv e"
proof (induction rule: engine_reach.induct)
  case (submit e ptr order now)
  then show ?case using submitOrder_inv [of e ptr order now] by (metis prod.collapse)
next
  case (cancel e oid sec uuid)
  then show ?case using engine_cancelOrder_inv [of e oid sec uuid] by (metis prod.collapse)
next
  case (modify e oid sec np nq ncl)
  then show ?case using engine_modifyOrder_inv [of e oid sec np nq ncl] by (metis prod.collapse)
qed (simp_all add: FullMatchingEngine_new_inv addInstrument_inv)

text \<open>
  C3.  No use after free, and no corrupt book: in every state the engine reaches, through any sequence of
  submissions, cancels and modifications on any securities, each book satisfies the book invariant, and
  every order pointer in a book belongs to an order the engine still owns, under that order's id and
  security, so none of them dangles.
\<close>

theorem engine_memory_safe:
  assumes "engine_reach e" and "order_books e sec = Some b"
  shows "book_inv (objects e) b \<and>
    (\<forall>p\<in>book_cells b. owned_orders e (order_id (objects e p)) = Some p \<and>
       order_to_security e (order_id (objects e p)) = Some sec)"
  using engine_invD(1) [OF engine_reach_inv [OF assms(1)]] books.table_get [of _ _ sec b]
    engine_invD(3) [OF engine_reach_inv [OF assms(1)]] assms(2) by blast

definition ex_engine :: Engine where
  "ex_engine = fst (submitOrder 5 1 (ex_order 0 Sell 100 5 Limit Day)
     (addInstrument 42 (FullMatchingEngine_new ex_heap)))"

lemma ex_engine_start:
  "fresh_order 1 (ex_order 0 Sell 100 5 Limit Day) (addInstrument 42 (FullMatchingEngine_new ex_heap))"
  by (simp add: fresh_order_def addInstrument_def FullMatchingEngine_new_def ex_order_def)

lemma ex_engine_reach: "engine_reach ex_engine"
  unfolding ex_engine_def
  by (intro engine_reach.submit engine_reach.instrument engine_reach.start ex_engine_start)

lemma ex_engine_book:
  "\<exists>b. order_books ex_engine 42 = Some b \<and> book_cells b = {1}"
proof -
  have "map_option (\<lambda>b. (resting Buy b, resting Sell b)) (order_books ex_engine 42) = Some ([], [1])"
    by code_simp
  then show ?thesis by (auto simp: book_cells_def)
qed

lemma submit_keeps_owned:
  assumes "submitOrder now ptr order e = (e', evs)" and "i \<noteq> next_order_id e"
  shows "owned_orders e' i = owned_orders e i \<and> order_to_security e' i = order_to_security e i"
  using assms by (auto simp: submitOrder_def Let_def forget_def split: option.splits prod.splits if_splits)

lemma ex_engine_owned: "owned_orders ex_engine i = (if i = 1 then Some 1 else None)"
proof (cases "i = 1")
  case True
  have "owned_orders ex_engine 1 = Some 1" by code_simp
  with True show ?thesis by simp
next
  case False
  let ?e = "addInstrument 42 (FullMatchingEngine_new ex_heap)"
  have "next_order_id ?e = 1" "owned_orders ?e = Map.empty"
    by (simp_all add: addInstrument_def FullMatchingEngine_new_def)
  with False submit_keeps_owned [of 5 1 "ex_order 0 Sell 100 5 Limit Day" ?e ex_engine _ i] show ?thesis
    by (simp add: ex_engine_def prod_eq_iff)
qed

lemma ex_engine_fresh: "fresh_order 2 (ex_order 0 Buy 100 5 Limit Day) ex_engine"
proof -
  have "next_order_id ex_engine = 2" by code_simp
  then show ?thesis by (simp add: fresh_order_def ex_engine_owned ex_order_def)
qed

theorem engine_memory_safe_witness:
  "engine_reach ex_engine \<and> (\<exists>b. order_books ex_engine 42 = Some b \<and> 1 \<in> book_cells b \<and>
     book_inv (objects ex_engine) b \<and> owned_orders ex_engine (order_id (objects ex_engine 1)) = Some 1)"
  using engine_memory_safe [OF ex_engine_reach] ex_engine_book ex_engine_reach by fastforce

text \<open>
  Isolation of instruments: a submission touches no book but that of its own security and no order object
  of another book, and each accepted order gets the next id.
\<close>

theorem submit_isolated:
  assumes reach: "engine_reach e" and fresh: "fresh_order ptr order e"
    and sub: "submitOrder now ptr order e = (e', evs)" and other: "sec \<noteq> security_id order"
  shows "order_books e' sec = order_books e sec \<and> next_order_id e' = next_order_id e + 1 \<and>
    (\<forall>b. order_books e sec = Some b \<longrightarrow> (\<forall>p\<in>book_cells b. objects e' p = objects e p))"
proof (cases "order_books e (security_id order)")
  case None
  with sub show ?thesis by (auto simp: submitOrder_def Let_def)
next
  case (Some b)
  define o' where "o' = order\<lparr>order_id := next_order_id e, timestamp := now\<rparr>"
  let ?h = "(objects e)(ptr := o')"
  note inv = engine_reach_inv [OF reach]
  obtain h b' ev where add: "book_addOrder ptr ?h b = (h, b', ev)" by (metis prod_cases3)
  have fresh': "fresh_order ptr o' e" and id: "order_id o' = next_order_id e"
    using fresh by (simp_all add: fresh_order_def o'_def)
  note tk = take_order_inv [OF inv fresh' id]
  have un: "unbooked ptr b" using tk(2) Some unbooked_cells by blast
  have binv: "book_inv ?h b"
    using books.table_get [OF engine_invD(1) [OF inv] Some] un by (simp add: book_inv_upd)
  have ni: "orders_by_id b (order_id (?h ptr)) = None" using tk(3) Some id by simp
  have "h p = objects e p" if "order_books e sec = Some b2" "p \<in> book_cells b2" for b2 p
  proof -
    have "p \<notin> book_cells b" using engine_cells_disjoint [OF inv Some that(1) _ _ that(2)] other by metis
    moreover have "p \<noteq> ptr" using tk(2) that by blast
    ultimately show ?thesis using book_addOrder_effect [OF binv un ni add] by (simp add: effect_def)
  qed
  with sub other show ?thesis
    unfolding submitOrder_known [OF o'_def Some add]
    by (auto simp: Let_def put_book_def take_order_def forget_def split: if_splits)
qed

theorem submit_isolated_witness:
  "engine_reach ex_engine \<and> fresh_order 2 (ex_order 0 Buy 100 5 Limit Day) ex_engine \<and>
   order_books (fst (submitOrder 6 2 (ex_order 0 Buy 100 5 Limit Day) ex_engine)) 7 = order_books ex_engine 7"
proof -
  note f = ex_engine_fresh
  show ?thesis
    using submit_isolated [OF ex_engine_reach f surjective_pairing, of 7] f ex_engine_reach
    by (simp add: ex_order_def)
qed

text \<open>
  Filled makers are never released: when a submission fills a resting order completely, that order leaves
  every book but the engine keeps its ownership entries; nothing but a later (rejected) cancel of the
  same id removes them.
\<close>

theorem filled_makers_stay_owned:
  assumes reach: "engine_reach e" and fresh: "fresh_order ptr order e"
    and sub: "submitOrder now ptr order e = (e', evs)"
    and b: "order_books e sec = Some b" "p \<in> book_cells b" and filled: "isFullyFilled (objects e' p)"
  shows "owned_orders e' (order_id (objects e p)) = Some p \<and>
    order_to_security e' (order_id (objects e p)) = Some sec \<and>
    (\<forall>sec' b'. order_books e' sec' = Some b' \<longrightarrow> p \<notin> book_cells b')"
proof -
  note inv = engine_reach_inv [OF reach] and inv' = submitOrder_inv [OF engine_reach_inv [OF reach] fresh sub]
  note own = engine_invD(3) [OF inv b]
  have "order_id (objects e p) \<noteq> next_order_id e"
    using engine_invD(4) [OF inv conjunct1 [OF own]] by auto
  with submit_keeps_owned [OF sub] own
  have "owned_orders e' (order_id (objects e p)) = Some p \<and>
      order_to_security e' (order_id (objects e p)) = Some sec" by simp
  moreover have "p \<notin> book_cells b'" if "order_books e' sec' = Some b'" for sec' b'
    using book_cells_open books.table_get [OF engine_invD(1) [OF inv'] that] filled by blast
  ultimately show ?thesis by blast
qed

theorem filled_makers_stay_owned_witness:
  "engine_reach ex_engine \<and> fresh_order 2 (ex_order 0 Buy 100 5 Limit Day) ex_engine \<and>
   (case submitOrder 6 2 (ex_order 0 Buy 100 5 Limit Day) ex_engine of (e', evs) \<Rightarrow>
      isFullyFilled (objects e' 1) \<and> owned_orders e' 1 = Some 1 \<and>
      (\<forall>sec b. order_books e' sec = Some b \<longrightarrow> 1 \<notin> book_cells b))"
proof -
  let ?s = "submitOrder 6 2 (ex_order 0 Buy 100 5 Limit Day) ex_engine"
  obtain b where b: "order_books ex_engine 42 = Some b" "1 \<in> book_cells b"
    using ex_engine_book by auto
  have "isFullyFilled (objects (fst ?s) 1)" "order_id (objects ex_engine 1) = 1" by code_simp+
  with filled_makers_stay_owned [OF ex_engine_reach ex_engine_fresh surjective_pairing b, of 6]
    ex_engine_reach ex_engine_fresh
  show ?thesis by (simp add: case_prod_beta)
qed

text \<open>
  Cancelling checks neither the session nor the caller's security id: once the order's book is found, the
  result does not depend on who asks, so any session can cancel any order; and the reject for an order
  that is no longer in the book carries session 0.
\<close>

theorem cancel_ignores_session:
  assumes "order_to_security e oid = Some sec" and "order_books e sec = Some b"
  shows "engine_cancelOrder oid s u e = engine_cancelOrder oid s' u' e \<and>
    (orders_by_id b oid = None \<longrightarrow>
       (\<exists>r. snd (engine_cancelOrder oid s u e) = [EvCancelRejected r] \<and> cxr_session_uuid r = 0))"
  using assms by (auto simp: engine_cancelOrder_def Let_def book_cancelOrder_def split: prod.splits)

theorem cancel_ignores_session_witness:
  "order_to_security ex_engine 1 = Some 42 \<and>
   engine_cancelOrder 1 42 7 ex_engine = engine_cancelOrder 1 0 12345 ex_engine"
proof -
  have "order_to_security ex_engine 1 = Some 42" by code_simp
  with ex_engine_book cancel_ignores_session [of ex_engine 1 42] show ?thesis by blast
qed

end
