(* ===== verification/Order_Gateway.thy ===== *)
theory Order_Gateway
  imports Pre_Trade Matching_Engine
begin

text \<open>
  \<^verbatim>\<open>src/gateway/order_entry_gateway.cpp\<close>: decoding of the three order messages, the pre-trade checks, the
  command queue and its processing by the engine thread.

  The engine is a virtual interface (\<^verbatim>\<open>src/engine/matching_engine.h\<close>): the record \<open>IMatchingEngine\<close> holds
  its three methods, and the gateway is verified for any implementation.  An order travels as the address
  of its object and the object.  The queue is the list of commands in the order of their insertion
  (\<open>Mpsc_Queue\<close> shows that the lock-free queue behaves so).  Logging and the unused reason texts of the
  risk checks are left out.
\<close>

section \<open>The engine interface\<close>

record 'e IMatchingEngine =
  me_submitOrder :: "Timestamp \<Rightarrow> OrderPtr \<Rightarrow> Order \<Rightarrow> 'e \<Rightarrow> 'e \<times> EngineEvent list"
  me_cancelOrder :: "OrderId \<Rightarrow> SecurityId \<Rightarrow> uuid_t \<Rightarrow> 'e \<Rightarrow> 'e \<times> EngineEvent list"
  me_modifyOrder :: "OrderId \<Rightarrow> SecurityId \<Rightarrow> Price \<Rightarrow> Quantity \<Rightarrow> ClOrdId \<Rightarrow> 'e \<Rightarrow> 'e \<times> EngineEvent list"

definition FullMatchingEngine :: "Engine IMatchingEngine" where
  "FullMatchingEngine = \<lparr>me_submitOrder = submitOrder, me_cancelOrder = engine_cancelOrder,
     me_modifyOrder = engine_modifyOrder\<rparr>"

section \<open>Commands and responses\<close>

datatype CommandType = NewOrder | CancelOrder | ModifyOrder

record OrderCommand =
  cmd_type :: CommandType
  cmd_session_uuid :: uuid_t
  cmd_order :: "(OrderPtr \<times> Order) option"
  cancel_order_id :: OrderId
  cmd_security_id :: SecurityId
  cmd_cl_ord_id :: ClOrdId
  cmd_order_request_id :: "64 word"
  cmd_new_price :: Price
  cmd_new_qty :: Quantity
  cmd_new_cl_ord_id :: ClOrdId

definition OrderCommand_default :: OrderCommand where
  "OrderCommand_default = \<lparr>cmd_type = NewOrder, cmd_session_uuid = 0, cmd_order = None, cancel_order_id = 0,
     cmd_security_id = 0, cmd_cl_ord_id = [], cmd_order_request_id = 0, cmd_new_price = Price 0, cmd_new_qty = 0,
     cmd_new_cl_ord_id = []\<rparr>"

record OrderResponse =
  resp_session_uuid :: uuid_t
  resp_sbe_message :: bytes

record Gateway =
  gw_risk :: RiskManager
  gw_builder :: ExecReportBuilder
  command_queue :: "OrderCommand list"

definition OrderEntryGateway_new :: "RiskConfig \<Rightarrow> Gateway" where
  "OrderEntryGateway_new cfg =
     \<lparr>gw_risk = RiskManager_new cfg, gw_builder = ExecReportBuilder_new, command_queue = []\<rparr>"

section \<open>Decoding\<close>

text \<open>A 20-byte field read as a C string.\<close>

definition read_cl_ord_id :: "bytes \<Rightarrow> ClOrdId option" where
  "read_cl_ord_id field = map_option (\<lambda>buf. string_of_bytes (c_str buf)) (readFixedString field 0 20)"

definition decodeNewOrderSingle :: "OrderPtr \<Rightarrow> uuid_t \<Rightarrow> bytes \<Rightarrow> OrderCommand option" where
  "decodeNewOrderSingle ptr u data = do {
     m \<leftarrow> NewOrderSingle514_decode data 0;
     cl \<leftarrow> read_cl_ord_id (NewOrderSingle514.clOrdID m);
     let ord = Order_default
       \<lparr>session_uuid := u, security_id := sint (NewOrderSingle514.securityID m),
        Order.side := Side_of (NewOrderSingle514.side m),
        order_type := OrderType_of (NewOrderSingle514.ordType m),
        time_in_force := TimeInForce_of (NewOrderSingle514.timeInForce m),
        Order.price := Price (sint (NewOrderSingle514.price m)),
        stop_price := Price (sint (NewOrderSingle514.stopPx m)),
        quantity := sint (NewOrderSingle514.orderQty m),
        display_qty := sint (NewOrderSingle514.displayQty m),
        min_qty := sint (NewOrderSingle514.minQty m),
        order_request_id := NewOrderSingle514.orderRequestID m,
        cl_ord_id := cl\<rparr>;
     Some (OrderCommand_default\<lparr>cmd_type := NewOrder, cmd_session_uuid := u, cmd_order := Some (ptr, ord),
       cmd_security_id := sint (NewOrderSingle514.securityID m)\<rparr>)
   }"

definition decodeCancelRequest :: "uuid_t \<Rightarrow> bytes \<Rightarrow> OrderCommand option" where
  "decodeCancelRequest u data = do {
     m \<leftarrow> OrderCancelRequest516_decode data 0;
     cl \<leftarrow> read_cl_ord_id (OrderCancelRequest516.clOrdID m);
     Some (OrderCommand_default\<lparr>cmd_type := CancelOrder, cmd_session_uuid := u,
       cancel_order_id := OrderCancelRequest516.orderID m,
       cmd_security_id := sint (OrderCancelRequest516.securityID m),
       cmd_order_request_id := OrderCancelRequest516.orderRequestID m, cmd_cl_ord_id := cl\<rparr>)
   }"

definition decodeModifyRequest :: "uuid_t \<Rightarrow> bytes \<Rightarrow> OrderCommand option" where
  "decodeModifyRequest u data = do {
     m \<leftarrow> OrderCancelReplaceRequest515_decode data 0;
     cl \<leftarrow> read_cl_ord_id (OrderCancelReplaceRequest515.clOrdID m);
     Some (OrderCommand_default\<lparr>cmd_type := ModifyOrder, cmd_session_uuid := u,
       cancel_order_id := OrderCancelReplaceRequest515.orderID m,
       cmd_security_id := sint (OrderCancelReplaceRequest515.securityID m),
       cmd_new_price := Price (sint (OrderCancelReplaceRequest515.price m)),
       cmd_new_qty := sint (OrderCancelReplaceRequest515.orderQty m),
       cmd_order_request_id := OrderCancelReplaceRequest515.orderRequestID m,
       cmd_cl_ord_id := cl, cmd_new_cl_ord_id := cl\<rparr>)
   }"

section \<open>Receiving messages\<close>

definition push_command :: "OrderCommand \<Rightarrow> Gateway \<Rightarrow> Gateway" where
  "push_command cmd g = g\<lparr>command_queue := command_queue g @ [cmd]\<rparr>"

definition set_rejected :: "OrderCommand \<Rightarrow> OrderCommand" where
  "set_rejected cmd = cmd\<lparr>cmd_order := map_option (\<lambda>(p, ord). (p, ord\<lparr>status := Rejected\<rparr>)) (cmd_order cmd)\<rparr>"

text \<open>
  \<open>now\<close> is the steady clock's reading, \<open>ptr\<close> the address of the order object allocated for a new order.
  The results of the cancel and modify validations are computed and not used, as in the code.
\<close>

definition onApplicationMessage ::
  "InstrumentManager \<Rightarrow> int \<Rightarrow> OrderPtr \<Rightarrow> uuid_t \<Rightarrow> 16 word \<Rightarrow> bytes \<Rightarrow> Gateway \<Rightarrow> Gateway option" where
  "onApplicationMessage im now ptr u templateId data g =
     (if templateId = NewOrderSingle514_TEMPLATE_ID then do {
        cmd \<leftarrow> decodeNewOrderSingle ptr u data;
        (p, ord) \<leftarrow> cmd_order cmd;
        let cmd = (if \<not> vr_valid (validateNewOrder im ord) then set_rejected cmd else cmd);
        let (r, rate_ok) = checkRate now u (gw_risk g);
        let g = g\<lparr>gw_risk := r\<rparr>;
        let cmd = (if \<not> rate_ok then set_rejected cmd else cmd);
        let cmd = (if \<not> checkOrder ord (gw_risk g) then set_rejected cmd else cmd);
        Some (push_command cmd g)
      }
      else if templateId = OrderCancelRequest516_TEMPLATE_ID then do {
        cmd \<leftarrow> decodeCancelRequest u data;
        let val_result = validateCancel im (cancel_order_id cmd) (cmd_security_id cmd);
        let cmd = (if \<not> vr_valid val_result then cmd\<lparr>cmd_type := CancelOrder\<rparr> else cmd);
        Some (push_command cmd g)
      }
      else if templateId = OrderCancelReplaceRequest515_TEMPLATE_ID then do {
        cmd \<leftarrow> decodeModifyRequest u data;
        let val_result = validateModify im (cancel_order_id cmd) (cmd_security_id cmd) (cmd_new_price cmd) (cmd_new_qty cmd);
        Some (push_command cmd g)
      }
      else Some g)"

section \<open>Processing commands\<close>

definition respond :: "uuid_t \<Rightarrow> (ExecReportBuilder \<times> bytes) option \<Rightarrow> Gateway \<Rightarrow> (Gateway \<times> OrderResponse list) option" where
  "respond u built g = do {
     (b, bs) \<leftarrow> built;
     Some (g\<lparr>gw_builder := b\<rparr>, [\<lparr>resp_session_uuid = u, resp_sbe_message = bs\<rparr>])
   }"

definition respond_fill :: "Timestamp \<Rightarrow> OrderFilled \<Rightarrow> Gateway \<Rightarrow> (Gateway \<times> OrderResponse list) option" where
  "respond_fill now e g = do {
     (g, r1) \<leftarrow> respond (maker_session_uuid e) (buildExecutionReportFill now e (maker_session_uuid e) True (gw_builder g)) g;
     (g, r2) \<leftarrow> respond (taker_session_uuid e) (buildExecutionReportFill now e (taker_session_uuid e) False (gw_builder g)) g;
     let r = onFill (maker_session_uuid e) (if aggressor_side e = Buy then Sell else Buy) (trade_qty e) (gw_risk g);
     let r = onFill (taker_session_uuid e) (aggressor_side e) (trade_qty e) r;
     Some (g\<lparr>gw_risk := r\<rparr>, r1 @ r2)
   }"

definition visit_new :: "Timestamp \<Rightarrow> EngineEvent \<Rightarrow> Gateway \<Rightarrow> (Gateway \<times> OrderResponse list) option" where
  "visit_new now ev g =
     (case ev of
        EvAccepted e \<Rightarrow> respond (acc_session_uuid e) (buildExecutionReportNew now e (acc_session_uuid e) (gw_builder g)) g
      | EvRejected e \<Rightarrow> respond (rej_session_uuid e) (buildExecutionReportReject now e (rej_session_uuid e) (gw_builder g)) g
      | EvFilled e \<Rightarrow> respond_fill now e g
      | EvCancelled e \<Rightarrow> respond (can_session_uuid e) (buildExecutionReportCancel now e (can_session_uuid e) (gw_builder g)) g
      | EvModified e \<Rightarrow> respond (mod_session_uuid e) (buildExecutionReportModify now e (mod_session_uuid e) (gw_builder g)) g
      | EvCancelRejected e \<Rightarrow> respond (cxr_session_uuid e) (buildOrderCancelReject now e (cxr_session_uuid e) (gw_builder g)) g
      | EvBook _ \<Rightarrow> Some (g, []))"

definition visit_cancel :: "Timestamp \<Rightarrow> EngineEvent \<Rightarrow> Gateway \<Rightarrow> (Gateway \<times> OrderResponse list) option" where
  "visit_cancel now ev g =
     (case ev of
        EvCancelled e \<Rightarrow> respond (can_session_uuid e) (buildExecutionReportCancel now e (can_session_uuid e) (gw_builder g)) g
      | EvCancelRejected e \<Rightarrow> respond (cxr_session_uuid e) (buildOrderCancelReject now e (cxr_session_uuid e) (gw_builder g)) g
      | _ \<Rightarrow> Some (g, []))"

definition visit_modify :: "Timestamp \<Rightarrow> EngineEvent \<Rightarrow> Gateway \<Rightarrow> (Gateway \<times> OrderResponse list) option" where
  "visit_modify now ev g =
     (case ev of
        EvModified e \<Rightarrow> respond (mod_session_uuid e) (buildExecutionReportModify now e (mod_session_uuid e) (gw_builder g)) g
      | EvCancelRejected e \<Rightarrow> respond (cxr_session_uuid e) (buildOrderCancelReject now e (cxr_session_uuid e) (gw_builder g)) g
      | EvFilled e \<Rightarrow> respond_fill now e g
      | _ \<Rightarrow> Some (g, []))"

fun visit_all :: "(EngineEvent \<Rightarrow> Gateway \<Rightarrow> (Gateway \<times> OrderResponse list) option) \<Rightarrow> EngineEvent list \<Rightarrow> Gateway \<Rightarrow>
    (Gateway \<times> OrderResponse list) option" where
  "visit_all visit [] g = Some (g, [])"
| "visit_all visit (ev # evs) g = do {
     (g, rs) \<leftarrow> visit ev g;
     (g, rs') \<leftarrow> visit_all visit evs g;
     Some (g, rs @ rs')
   }"

definition process_command ::
  "'e IMatchingEngine \<Rightarrow> Timestamp \<Rightarrow> OrderCommand \<Rightarrow> 'e \<Rightarrow> Gateway \<Rightarrow> ('e \<times> Gateway \<times> OrderResponse list \<times> EngineEvent list) option" where
  "process_command eng now cmd e g =
     (case cmd_type cmd of
        NewOrder \<Rightarrow> do {
          (ptr, ord) \<leftarrow> cmd_order cmd;
          if status ord = Rejected then do {
            (g, rs) \<leftarrow> respond (cmd_session_uuid cmd) (buildExecutionReportReject now
               \<lparr>rej_cl_ord_id = cl_ord_id ord, rej_session_uuid = cmd_session_uuid cmd,
                rej_reason = ''Pre-trade risk check failed'', rej_reject_reason_code = 3\<rparr>
               (cmd_session_uuid cmd) (gw_builder g)) g;
            Some (e, g, rs, [])
          } else do {
            let (e, evs) = me_submitOrder eng now ptr ord e;
            (g, rs) \<leftarrow> visit_all (visit_new now) evs g;
            Some (e, g, rs, evs)
          }
        }
      | CancelOrder \<Rightarrow> do {
          let (e, evs) = me_cancelOrder eng (cancel_order_id cmd) (cmd_security_id cmd) (cmd_session_uuid cmd) e;
          (g, rs) \<leftarrow> visit_all (visit_cancel now) evs g;
          Some (e, g, rs, evs)
        }
      | ModifyOrder \<Rightarrow> do {
          let (e, evs) = me_modifyOrder eng (cancel_order_id cmd) (cmd_security_id cmd) (cmd_new_price cmd)
                           (cmd_new_qty cmd) (cmd_new_cl_ord_id cmd) e;
          (g, rs) \<leftarrow> visit_all (visit_modify now) evs g;
          Some (e, g, rs, evs)
        })"

text \<open>The drain loop: pops until the queue is empty.\<close>

fun process_queue ::
  "'e IMatchingEngine \<Rightarrow> Timestamp \<Rightarrow> OrderCommand list \<Rightarrow> 'e \<Rightarrow> Gateway \<Rightarrow>
   ('e \<times> Gateway \<times> OrderResponse list \<times> EngineEvent list) option" where
  "process_queue eng now [] e g = Some (e, g, [], [])"
| "process_queue eng now (cmd # cmds) e g = do {
     (e, g, rs, evs) \<leftarrow> process_command eng now cmd e g;
     (e, g, rs', evs') \<leftarrow> process_queue eng now cmds e g;
     Some (e, g, rs @ rs', evs @ evs')
   }"

definition processCommands ::
  "'e IMatchingEngine \<Rightarrow> Timestamp \<Rightarrow> 'e \<Rightarrow> Gateway \<Rightarrow> ('e \<times> Gateway \<times> OrderResponse list \<times> EngineEvent list) option" where
  "processCommands eng now e g = process_queue eng now (command_queue g) e (g\<lparr>command_queue := []\<rparr>)"

definition hasPendingCommands :: "Gateway \<Rightarrow> bool" where
  "hasPendingCommands g \<longleftrightarrow> command_queue g \<noteq> []"

definition buildResponse :: "Timestamp \<Rightarrow> EngineEvent \<Rightarrow> uuid_t \<Rightarrow> Gateway \<Rightarrow> (Gateway \<times> OrderResponse list) option" where
  "buildResponse now ev u g = respond u (buildFromEvent now ev u (gw_builder g)) g"

definition buildPreEngineReject ::
  "Timestamp \<Rightarrow> uuid_t \<Rightarrow> ClOrdId \<Rightarrow> 16 word \<Rightarrow> string \<Rightarrow> Gateway \<Rightarrow> (Gateway \<times> OrderResponse list) option" where
  "buildPreEngineReject now u cl reject_reason reason g =
     respond u (buildExecutionReportReject now \<lparr>rej_cl_ord_id = cl, rej_session_uuid = u, rej_reason = reason,
       rej_reject_reason_code = reject_reason\<rparr> u (gw_builder g)) g"

end
