(* ===== verification/Gateway_Example.thy ===== *)
theory Gateway_Example
  imports Order_Gateway
begin

text \<open>
  A small exchange on which the properties of the gateway are instantiated: one instrument, a sell and a
  buy order that match, sent as iLink3 messages by two sessions.
\<close>

definition ex_im :: InstrumentManager where
  "ex_im = InstrumentManager_new\<lparr>im_instruments := [ex_instrument], by_security_id := [13 \<mapsto> 0]\<rparr>"

definition ex_message :: "8 word \<Rightarrow> 32 word \<Rightarrow> NewOrderSingle514" where
  "ex_message sd qty = NewOrderSingle514_default\<lparr>NewOrderSingle514.securityID := 13, NewOrderSingle514.side := sd,
     NewOrderSingle514.price := 5000000000, NewOrderSingle514.orderQty := qty, NewOrderSingle514.ordType := 2,
     NewOrderSingle514.clOrdID := 65 # replicate 19 0\<rparr>"

definition ex_data :: "8 word \<Rightarrow> 32 word \<Rightarrow> bytes" where
  "ex_data sd qty = newOrderSingle514.wire (ex_message sd qty)"

definition ex_new_order :: "uuid_t \<Rightarrow> Side \<Rightarrow> Quantity \<Rightarrow> Order" where
  "ex_new_order u sd qty = Order_default\<lparr>session_uuid := u, security_id := 13, Order.side := sd,
     order_type := Limit, time_in_force := Day, Order.price := Price 5000000000, stop_price := Price 0,
     quantity := qty, display_qty := 0, min_qty := 0, order_request_id := 0, cl_ord_id := ''A''\<rparr>"

definition ex_command :: "OrderPtr \<Rightarrow> uuid_t \<Rightarrow> Order \<Rightarrow> OrderCommand" where
  "ex_command ptr u ord = OrderCommand_default\<lparr>cmd_type := NewOrder, cmd_session_uuid := u,
     cmd_order := Some (ptr, ord), cmd_security_id := 13\<rparr>"

lemma ex_data_decodes: "NewOrderSingle514_decode (ex_data sd qty) 0 = Some (ex_message sd qty)"
  unfolding ex_data_def by (rule newOrderSingle514.decode_wire(1))
    (simp add: NewOrderSingle514_wf_def ex_message_def NewOrderSingle514_default_def)

lemma ex_cl_ord_id: "read_cl_ord_id (65 # replicate 19 0) = Some ''A''"
  by code_simp

lemma ex_decodes:
  "decodeNewOrderSingle ptr u (ex_data 2 4) = Some (ex_command ptr u (ex_new_order u Sell 4))"
  "decodeNewOrderSingle ptr u (ex_data 1 4) = Some (ex_command ptr u (ex_new_order u Buy 4))"
  "decodeNewOrderSingle ptr u (ex_data 1 0) = Some (ex_command ptr u (ex_new_order u Buy 0))"
  by (simp_all add: decodeNewOrderSingle_def ex_data_decodes ex_message_def ex_command_def ex_new_order_def
      NewOrderSingle514_default_def ex_cl_ord_id Side_of_def OrderType_of_def TimeInForce_of_def)

lemma ex_tradable: "tradable ex_im (ex_new_order u sd qty) \<longleftrightarrow> 1 \<le> qty \<and> qty \<le> 10000"
proof -
  have "findBySecurityId 13 ex_im = Some ex_instrument"
    by (simp add: findBySecurityId_def ex_im_def InstrumentManager_new_def)
  moreover have "isValidTick ex_instrument (Price 5000000000)"
    by (simp add: isValidTick_def ex_instrument_tick signed_modulo_int_def signed_divide_int_def Let_def)
  ultimately show ?thesis by (auto simp: tradable_def ex_new_order_def ex_instrument_def)
qed

definition ex_gateway :: Gateway where
  "ex_gateway = OrderEntryGateway_new RiskConfig_default"

text \<open>The sell order of session 1, then the buy order of session 2.\<close>

definition ex_queue :: "OrderCommand list" where
  "ex_queue = [ex_command 1 1 (ex_new_order 1 Sell 4), ex_command 2 2 (ex_new_order 2 Buy 4)]"

definition ex_exchange :: Engine where
  "ex_exchange = addInstrument 13 (FullMatchingEngine_new ex_heap)"

end
