(* ===== verification/Gateway_Properties.thy ===== *)
theory Gateway_Properties
  imports Gateway_Example
begin

text \<open>
  What the gateway promises, for any engine behind the interface: it refines an abstract gateway that
  only says which event is reported to whom (\<open>gateway_refines\<close>), it never forwards an order that fails a
  pre-trade check (\<open>pretrade_gate\<close>), and it keeps the sessions' positions balanced
  (\<open>positions_balance\<close>).
\<close>

section \<open>The abstract gateway\<close>

text \<open>One report: an event, the session it goes to, and whether it is reported from the maker's side.\<close>

type_synonym delivery = "EngineEvent \<times> uuid_t \<times> bool"

definition both_sides :: "OrderFilled \<Rightarrow> delivery list" where
  "both_sides e = [(EvFilled e, maker_session_uuid e, True), (EvFilled e, taker_session_uuid e, False)]"

fun addressed :: "CommandType \<Rightarrow> EngineEvent \<Rightarrow> delivery list" where
  "addressed t (EvAccepted e) = (if t = NewOrder then [(EvAccepted e, acc_session_uuid e, False)] else [])"
| "addressed t (EvRejected e) = (if t = NewOrder then [(EvRejected e, rej_session_uuid e, False)] else [])"
| "addressed t (EvFilled e) = (if t = CancelOrder then [] else both_sides e)"
| "addressed t (EvCancelled e) = (if t = ModifyOrder then [] else [(EvCancelled e, can_session_uuid e, False)])"
| "addressed t (EvModified e) = (if t = CancelOrder then [] else [(EvModified e, mod_session_uuid e, False)])"
| "addressed t (EvCancelRejected e) = [(EvCancelRejected e, cxr_session_uuid e, False)]"
| "addressed t (EvBook u) = []"

definition pretrade_reject :: "OrderCommand \<Rightarrow> Order \<Rightarrow> delivery" where
  "pretrade_reject cmd ord = (EvRejected \<lparr>rej_cl_ord_id = cl_ord_id ord, rej_session_uuid = cmd_session_uuid cmd,
     rej_reason = ''Pre-trade risk check failed'', rej_reject_reason_code = 3\<rparr>, cmd_session_uuid cmd, False)"

definition spec_command ::
  "'e IMatchingEngine \<Rightarrow> Timestamp \<Rightarrow> OrderCommand \<Rightarrow> 'e \<Rightarrow> 'e \<times> delivery list \<times> EngineEvent list" where
  "spec_command eng now cmd e =
     (let answer = (\<lambda>(e, evs). (e, concat (map (addressed (cmd_type cmd)) evs), evs))
      in case cmd_type cmd of
           NewOrder \<Rightarrow>
             (case cmd_order cmd of
                None \<Rightarrow> (e, [], [])
              | Some (ptr, ord) \<Rightarrow>
                  if status ord = Rejected then (e, [pretrade_reject cmd ord], [])
                  else answer (me_submitOrder eng now ptr ord e))
         | CancelOrder \<Rightarrow> answer (me_cancelOrder eng (cancel_order_id cmd) (cmd_security_id cmd) (cmd_session_uuid cmd) e)
         | ModifyOrder \<Rightarrow> answer (me_modifyOrder eng (cancel_order_id cmd) (cmd_security_id cmd) (cmd_new_price cmd)
                                    (cmd_new_qty cmd) (cmd_new_cl_ord_id cmd) e))"

fun spec_queue ::
  "'e IMatchingEngine \<Rightarrow> Timestamp \<Rightarrow> OrderCommand list \<Rightarrow> 'e \<Rightarrow> 'e \<times> delivery list \<times> EngineEvent list" where
  "spec_queue eng now [] e = (e, [], [])"
| "spec_queue eng now (cmd # cmds) e =
     (let (e, ds, evs) = spec_command eng now cmd e; (e, ds', evs') = spec_queue eng now cmds e
      in (e, ds @ ds', evs @ evs'))"

text \<open>The responses carry the deliveries, with consecutive execution ids from \<open>n\<close> on.\<close>

fun carries :: "64 word \<Rightarrow> delivery list \<Rightarrow> OrderResponse list \<Rightarrow> bool" where
  "carries n [] [] \<longleftrightarrow> True"
| "carries n ((ev, u, mk) # ds) (r # rs) \<longleftrightarrow> resp_session_uuid r = u \<and>
     read_report (resp_sbe_message r) = report_of ev u mk (to_string (unat n)) \<and> carries (n + 1) ds rs"
| "carries n _ _ \<longleftrightarrow> False"

lemma carries_append:
  "carries n ds rs \<Longrightarrow> carries (n + of_nat (length ds)) ds' rs' \<Longrightarrow> carries n (ds @ ds') (rs @ rs')"
  by (induction n ds rs rule: carries.induct) (simp_all add: add.assoc add.commute add.left_commute)

lemma carries_length: "carries n ds rs \<Longrightarrow> length rs = length ds"
  by (induction n ds rs rule: carries.induct) simp_all

text \<open>A step of the gateway that answers \<open>ds\<close>.\<close>

definition answers :: "(Gateway \<times> OrderResponse list) option \<Rightarrow> delivery list \<Rightarrow> Gateway \<Rightarrow> bool" where
  "answers r ds g \<longleftrightarrow> (\<exists>g' rs. r = Some (g', rs) \<and> carries (next_exec_id (gw_builder g)) ds rs \<and>
     next_exec_id (gw_builder g') = next_exec_id (gw_builder g) + of_nat (length ds) \<and>
     command_queue g' = command_queue g)"

lemma respond_answers:
  assumes "reported (built (gw_builder g)) ev u mk (gw_builder g)"
  shows "answers (respond u (built (gw_builder g)) g) [(ev, u, mk)] g"
  using assms by (auto simp: reported_def respond_def answers_def)

lemma respond_fill_answers: "answers (respond_fill now e g) (both_sides e) g"
proof -
  let ?b = "gw_builder g"
  obtain m1 where 1: "buildExecutionReportFill now e (maker_session_uuid e) True ?b =
      Some (?b\<lparr>next_exec_id := next_exec_id ?b + 1\<rparr>, m1)"
    "read_report m1 = report_of (EvFilled e) (maker_session_uuid e) True (to_string (unat (next_exec_id ?b)))"
    using buildExecutionReportFill_reported [of now e "maker_session_uuid e" True ?b] by (auto simp: reported_def)
  let ?b1 = "?b\<lparr>next_exec_id := next_exec_id ?b + 1\<rparr>"
  obtain m2 where 2: "buildExecutionReportFill now e (taker_session_uuid e) False ?b1 =
      Some (?b1\<lparr>next_exec_id := next_exec_id ?b1 + 1\<rparr>, m2)"
    "read_report m2 = report_of (EvFilled e) (taker_session_uuid e) False (to_string (unat (next_exec_id ?b1)))"
    using buildExecutionReportFill_reported [of now e "taker_session_uuid e" False ?b1] by (auto simp: reported_def)
  show ?thesis using 1 2 by (simp add: respond_fill_def respond_def answers_def both_sides_def)
qed

lemma answers_nothing: "answers (Some (g, [])) [] g"
  by (simp add: answers_def)

lemmas build_reported = buildExecutionReportNew_reported buildExecutionReportReject_reported
  buildExecutionReportCancel_reported buildExecutionReportModify_reported buildOrderCancelReject_reported

lemma visit_answers:
  "answers (visit_new now ev g) (addressed NewOrder ev) g"
  "answers (visit_cancel now ev g) (addressed CancelOrder ev) g"
  "answers (visit_modify now ev g) (addressed ModifyOrder ev) g"
  by (cases ev; simp add: visit_new_def visit_cancel_def visit_modify_def answers_nothing respond_fill_answers
      respond_answers build_reported)+

lemma visit_all_answers:
  assumes "\<And>ev g. answers (visit ev g) (f ev) g"
  shows "answers (visit_all visit evs g) (concat (map f evs)) g"
proof (induction evs arbitrary: g)
  case Nil
  show ?case by (simp add: answers_nothing)
next
  case (Cons ev evs)
  from assms [of ev g] obtain g1 rs1 where 1: "visit ev g = Some (g1, rs1)"
    "carries (next_exec_id (gw_builder g)) (f ev) rs1"
    "next_exec_id (gw_builder g1) = next_exec_id (gw_builder g) + of_nat (length (f ev))"
    "command_queue g1 = command_queue g" by (auto simp: answers_def)
  from Cons.IH [of g1] obtain g2 rs2 where 2: "visit_all visit evs g1 = Some (g2, rs2)"
    "carries (next_exec_id (gw_builder g1)) (concat (map f evs)) rs2"
    "next_exec_id (gw_builder g2) = next_exec_id (gw_builder g1) + of_nat (length (concat (map f evs)))"
    "command_queue g2 = command_queue g1" by (auto simp: answers_def)
  show ?case using 1 2 carries_append by (simp add: answers_def add.assoc)
qed

definition cmd_ok :: "OrderCommand \<Rightarrow> bool" where
  "cmd_ok cmd \<longleftrightarrow> (cmd_type cmd = NewOrder \<longrightarrow> cmd_order cmd \<noteq> None)"

definition implements ::
  "('e \<times> Gateway \<times> OrderResponse list \<times> EngineEvent list) option \<Rightarrow> 'e \<times> delivery list \<times> EngineEvent list \<Rightarrow> Gateway \<Rightarrow> bool" where
  "implements r spec g \<longleftrightarrow> (case spec of (e', ds, evs) \<Rightarrow> \<exists>g' rs. r = Some (e', g', rs, evs) \<and>
     carries (next_exec_id (gw_builder g)) ds rs \<and>
     next_exec_id (gw_builder g') = next_exec_id (gw_builder g) + of_nat (length ds) \<and>
     command_queue g' = command_queue g)"

lemma process_command_implements:
  assumes "cmd_ok cmd"
  shows "implements (process_command eng now cmd e g) (spec_command eng now cmd e) g"
proof (cases "cmd_type cmd")
  case NewOrder
  then obtain ptr ord where o: "cmd_order cmd = Some (ptr, ord)" using assms by (auto simp: cmd_ok_def)
  show ?thesis
  proof (cases "status ord = Rejected")
    case True
    let ?r = "\<lparr>rej_cl_ord_id = cl_ord_id ord, rej_session_uuid = cmd_session_uuid cmd,
      rej_reason = ''Pre-trade risk check failed'', rej_reject_reason_code = 3\<rparr>"
    have "answers (respond (cmd_session_uuid cmd) (buildExecutionReportReject now ?r (cmd_session_uuid cmd) (gw_builder g)) g)
        [pretrade_reject cmd ord] g"
      unfolding pretrade_reject_def by (rule respond_answers) (rule buildExecutionReportReject_reported)
    with NewOrder o True show ?thesis
      by (auto simp: process_command_def spec_command_def implements_def answers_def)
  next
    case False
    obtain e' evs where s: "me_submitOrder eng now ptr ord e = (e', evs)" by (cases "me_submitOrder eng now ptr ord e")
    from visit_all_answers [of "visit_new now" "addressed NewOrder", OF visit_answers(1), of evs g] NewOrder o False s
    show ?thesis by (auto simp: process_command_def spec_command_def implements_def answers_def)
  qed
next
  case CancelOrder
  obtain e' evs where s: "me_cancelOrder eng (cancel_order_id cmd) (cmd_security_id cmd) (cmd_session_uuid cmd) e = (e', evs)"
    by (cases "me_cancelOrder eng (cancel_order_id cmd) (cmd_security_id cmd) (cmd_session_uuid cmd) e")
  from visit_all_answers [of "visit_cancel now" "addressed CancelOrder", OF visit_answers(2), of evs g] CancelOrder s
  show ?thesis by (auto simp: process_command_def spec_command_def implements_def answers_def)
next
  case ModifyOrder
  obtain e' evs where s: "me_modifyOrder eng (cancel_order_id cmd) (cmd_security_id cmd) (cmd_new_price cmd)
      (cmd_new_qty cmd) (cmd_new_cl_ord_id cmd) e = (e', evs)" by fastforce
  from visit_all_answers [of "visit_modify now" "addressed ModifyOrder", OF visit_answers(3), of evs g] ModifyOrder s
  show ?thesis by (auto simp: process_command_def spec_command_def implements_def answers_def)
qed

lemma process_queue_implements:
  "\<forall>cmd\<in>set cmds. cmd_ok cmd \<Longrightarrow> implements (process_queue eng now cmds e g) (spec_queue eng now cmds e) g"
proof (induction cmds arbitrary: e g)
  case Nil
  show ?case by (simp add: implements_def)
next
  case (Cons cmd cmds)
  obtain e1 ds1 evs1 where s1: "spec_command eng now cmd e = (e1, ds1, evs1)" by (metis prod_cases3)
  obtain e2 ds2 evs2 where s2: "spec_queue eng now cmds e1 = (e2, ds2, evs2)" by (metis prod_cases3)
  have "cmd_ok cmd" using Cons.prems by simp
  from process_command_implements [OF this, of eng now e g] s1 obtain g1 rs1 where
    1: "process_command eng now cmd e g = Some (e1, g1, rs1, evs1)" "carries (next_exec_id (gw_builder g)) ds1 rs1"
      "next_exec_id (gw_builder g1) = next_exec_id (gw_builder g) + of_nat (length ds1)" "command_queue g1 = command_queue g"
    by (auto simp: implements_def)
  from Cons.IH [of e1 g1] Cons.prems s2 obtain g2 rs2 where
    2: "process_queue eng now cmds e1 g1 = Some (e2, g2, rs2, evs2)" "carries (next_exec_id (gw_builder g1)) ds2 rs2"
      "next_exec_id (gw_builder g2) = next_exec_id (gw_builder g1) + of_nat (length ds2)" "command_queue g2 = command_queue g1"
    by (auto simp: implements_def)
  show ?case using 1 2 s1 s2 carries_append by (simp add: implements_def add.assoc)
qed

text \<open>Everything the gateway enqueues is well formed.\<close>

lemma decodes_ok:
  "decodeNewOrderSingle ptr u data = Some cmd \<Longrightarrow> cmd_ok cmd \<and> (\<exists>ord. cmd_order cmd = Some (ptr, ord) \<and> status ord = New \<and>
     session_uuid ord = u) \<and> cmd_type cmd = NewOrder \<and> cmd_session_uuid cmd = u"
  "decodeCancelRequest u data = Some cmd \<Longrightarrow> cmd_ok cmd"
  "decodeModifyRequest u data = Some cmd \<Longrightarrow> cmd_ok cmd"
  by (auto simp: decodeNewOrderSingle_def decodeCancelRequest_def decodeModifyRequest_def cmd_ok_def
      OrderCommand_default_def Order_default_def bind_eq_Some_conv)

lemma set_rejected_sel [simp]:
  "cmd_type (set_rejected cmd) = cmd_type cmd" "cmd_session_uuid (set_rejected cmd) = cmd_session_uuid cmd"
  "cmd_order (set_rejected cmd) = map_option (\<lambda>(p, ord). (p, ord\<lparr>status := Rejected\<rparr>)) (cmd_order cmd)"
  "cmd_ok (set_rejected cmd) = cmd_ok cmd"
  by (simp_all add: set_rejected_def cmd_ok_def)

text \<open>The three kinds of message, and any other.\<close>

lemma onApplicationMessage_new:
  assumes "decodeNewOrderSingle ptr u data = Some cmd" and "cmd_order cmd = Some (ptr, ord)"
  shows "onApplicationMessage im now ptr u 514 data g = Some (push_command
    (if vr_valid (validateNewOrder im ord) \<and> snd (checkRate now u (gw_risk g)) \<and> checkOrder ord (gw_risk g) then cmd
     else cmd\<lparr>cmd_order := Some (ptr, ord\<lparr>status := Rejected\<rparr>)\<rparr>)
    (g\<lparr>gw_risk := fst (checkRate now u (gw_risk g))\<rparr>))"
proof -
  obtain r ok where c: "checkRate now u (gw_risk g) = (r, ok)" by (cases "checkRate now u (gw_risk g)")
  have "risk_config r = risk_config (gw_risk g)" using c by (auto simp: checkRate_def Let_def split: if_splits)
  then have "checkOrder ord r = checkOrder ord (gw_risk g)" by (simp add: checkOrder_def)
  with assms c show ?thesis
    by (simp add: onApplicationMessage_def NewOrderSingle514_TEMPLATE_ID_def set_rejected_def Let_def)
qed

lemma enqueued_ok:
  assumes "onApplicationMessage im now ptr u t data g = Some g'" and "\<forall>cmd\<in>set (command_queue g). cmd_ok cmd"
  shows "\<forall>cmd\<in>set (command_queue g'). cmd_ok cmd"
proof -
  consider "t = 514" | "t = 516" | "t = 515" | "t \<notin> {514, 515, 516}" by blast
  then show ?thesis
  proof cases
    case 1
    with assms(1) obtain cmd where d: "decodeNewOrderSingle ptr u data = Some cmd"
      by (auto simp: onApplicationMessage_def NewOrderSingle514_TEMPLATE_ID_def bind_eq_Some_conv)
    from decodes_ok(1) [OF this] obtain ord where o: "cmd_ok cmd" "cmd_order cmd = Some (ptr, ord)" by blast
    from onApplicationMessage_new [OF d o(2), of im now g] assms 1 o(1) show ?thesis
      by (auto simp: push_command_def cmd_ok_def)
  next
    case 2
    with assms(1) obtain cmd where d: "decodeCancelRequest u data = Some cmd" and g': "g' = push_command cmd g \<or>
        g' = push_command (cmd\<lparr>cmd_type := CancelOrder\<rparr>) g"
      by (auto simp: onApplicationMessage_def NewOrderSingle514_TEMPLATE_ID_def OrderCancelRequest516_TEMPLATE_ID_def
          bind_eq_Some_conv)
    with decodes_ok(2) [OF d] assms(2) show ?thesis by (auto simp: push_command_def cmd_ok_def)
  next
    case 3
    with assms(1) obtain cmd where d: "decodeModifyRequest u data = Some cmd" and g': "g' = push_command cmd g"
      by (auto simp: onApplicationMessage_def NewOrderSingle514_TEMPLATE_ID_def OrderCancelRequest516_TEMPLATE_ID_def
          OrderCancelReplaceRequest515_TEMPLATE_ID_def bind_eq_Some_conv)
    with decodes_ok(3) [OF d] assms(2) show ?thesis by (auto simp: push_command_def cmd_ok_def)
  next
    case 4
    with assms show ?thesis
      by (simp add: onApplicationMessage_def NewOrderSingle514_TEMPLATE_ID_def OrderCancelRequest516_TEMPLATE_ID_def
          OrderCancelReplaceRequest515_TEMPLATE_ID_def)
  qed
qed

text \<open>
  C32.  The gateway refines the abstract one, for any engine: processing the queue always completes, empties
  the queue, makes exactly the engine calls of the abstract gateway in the order of the queue and passes
  on all their events; and its responses are, one by one and in order, the reports the abstract gateway
  addresses, each in a message for the session it is addressed to which a client reads as that event,
  with consecutive execution ids.
\<close>

theorem gateway_refines:
  assumes "\<forall>cmd\<in>set (command_queue g). cmd_ok cmd"
    and "spec_queue eng now (command_queue g) e = (e', ds, evs)"
  shows "\<exists>g' rs. processCommands eng now e g = Some (e', g', rs, evs) \<and>
    carries (next_exec_id (gw_builder g)) ds rs \<and>
    next_exec_id (gw_builder g') = next_exec_id (gw_builder g) + of_nat (length ds) \<and> \<not> hasPendingCommands g'"
  using process_queue_implements [OF assms(1), of eng now e "g\<lparr>command_queue := []\<rparr>"] assms(2)
  by (auto simp: implements_def processCommands_def hasPendingCommands_def)

lemma ex_queue_ok: "\<forall>cmd\<in>set ex_queue. cmd_ok cmd"
  by (simp add: ex_queue_def cmd_ok_def ex_command_def)

lemma ex_spec:
  "map (\<lambda>(ev, u, mk). (u, mk, case ev of EvFilled e \<Rightarrow> trade_qty e | _ \<Rightarrow> 0))
     (fst (snd (spec_queue FullMatchingEngine 5 ex_queue ex_exchange))) =
   [(1, False, 0), (2, False, 0), (1, True, 4), (2, False, 4)]"
  by code_simp

theorem gateway_refines_witness:
  "length ex_queue = 2 \<and> (\<exists>e g rs evs. processCommands FullMatchingEngine 5 ex_exchange (ex_gateway\<lparr>command_queue := ex_queue\<rparr>) =
     Some (e, g, rs, evs) \<and> length rs = 4 \<and> \<not> hasPendingCommands g)"
proof -
  obtain e ds evs where s: "spec_queue FullMatchingEngine 5 ex_queue ex_exchange = (e, ds, evs)" by (metis prod_cases3)
  have "length ds = 4" using arg_cong [OF ex_spec, of length] s by simp
  with s gateway_refines [of "ex_gateway\<lparr>command_queue := ex_queue\<rparr>" FullMatchingEngine 5 ex_exchange e ds evs]
    ex_queue_ok carries_length
  show ?thesis by (fastforce simp: ex_queue_def)
qed

section \<open>Execution ids are unique\<close>

lemma carries_exec_ids:
  assumes "carries n ds rs" and "unat n + length ds < 2 ^ 64" and "\<forall>(ev, u, mk)\<in>set ds. \<forall>b. ev \<noteq> EvBook b"
  shows "map (\<lambda>r. decimal (rp_exec_id (the (read_report (resp_sbe_message r))))) rs = [unat n..<unat n + length ds]"
  using assms
proof (induction n ds rs rule: carries.induct)
  case (2 n ev u mk ds r rs)
  have s: "unat (n + 1) = Suc (unat n)" using 2(3) by (simp only: unat_word_ariths) simp
  have "rp_exec_id (the (report_of ev u mk (to_string (unat n)))) = to_string (unat n)"
    using 2(4) by (cases ev) (auto simp: report_of_def)
  with 2 s show ?case by (simp add: decimal_to_string upt_conv_Cons del: upt_Suc)
qed simp_all

section \<open>The pre-trade gate\<close>

text \<open>
  C33.  The gate before the engine.  A new order from a session adds one command to the queue.  If the order satisfies the
  validator (known tradable instrument, supported type and time in force, price on a tick, quantity in
  range), the session's rate limit and the maximum order quantity, then the engine thread, coming to this command
  alone in the queue, hands exactly this order to the engine; otherwise it does not call the engine at all, and
  the only response is a reject to that session which carries the client's order id and the reason code 3.
  These are all the checks: of the two others that the README lists, the price deviation and the position limit,
  neither is made, for the command does not depend on the configured deviation, on the position limit, or on the
  session's position.
\<close>

theorem pretrade_gate:
  assumes "decodeNewOrderSingle ptr u data = Some cmd" and "cmd_order cmd = Some (ptr, ord)"
    and "onApplicationMessage im now ptr u 514 data g = Some g1"
  shows "(\<exists>cmd1. command_queue g1 = command_queue g @ [cmd1] \<and>
      (\<forall>g2. command_queue g2 = [cmd1] \<longrightarrow>
        (if tradable im ord \<and> snd (checkRate now u (gw_risk g)) \<and> quantity ord \<le> max_order_qty (risk_config (gw_risk g))
         then \<exists>g' rs. processCommands eng t e g2 =
           Some (fst (me_submitOrder eng t ptr ord e), g', rs, snd (me_submitOrder eng t ptr ord e))
         else \<exists>g' r rp. processCommands eng t e g2 = Some (e, g', [r], []) \<and> resp_session_uuid r = u \<and>
           read_report (resp_sbe_message r) = Some rp \<and> rp_template rp = 523 \<and> rp_uuid rp = u \<and>
           rp_cl_ord_id rp = wire_id (cl_ord_id ord) \<and> rp_reason rp = 3))) \<and>
    (\<forall>pct lim pos. map_option command_queue (onApplicationMessage im now ptr u 514 data
        (g\<lparr>gw_risk := put_risk_state u ((risk_state u (gw_risk g))\<lparr>net_position := pos\<rparr>)
            ((gw_risk g)\<lparr>risk_config := (risk_config (gw_risk g))\<lparr>max_price_deviation_pct := pct, max_position_per_session := lim\<rparr>\<rparr>)\<rparr>)) =
      Some (command_queue g1))"
proof
  note d = decodes_ok(1) [OF assms(1)]
  let ?pass = "tradable im ord \<and> snd (checkRate now u (gw_risk g)) \<and> quantity ord \<le> max_order_qty (risk_config (gw_risk g))"
  have ok: "(vr_valid (validateNewOrder im ord) \<and> snd (checkRate now u (gw_risk g)) \<and> checkOrder ord (gw_risk g)) \<longleftrightarrow> ?pass"
    by (auto simp: validateNewOrder_iff checkOrder_def)
  let ?cmd = "if ?pass then cmd else cmd\<lparr>cmd_order := Some (ptr, ord\<lparr>status := Rejected\<rparr>)\<rparr>"
  have "g1 = push_command ?cmd (g\<lparr>gw_risk := fst (checkRate now u (gw_risk g))\<rparr>)"
    using onApplicationMessage_new [OF assms(1,2), of im now g] ok assms(3) by (simp split: if_splits)
  then have q: "command_queue g1 = command_queue g @ [?cmd]" by (simp add: push_command_def)
  have once: "implements (process_queue eng t [?cmd] e (g2\<lparr>command_queue := []\<rparr>)) (spec_queue eng t [?cmd] e) (g2\<lparr>command_queue := []\<rparr>)" for g2
    by (rule process_queue_implements) (use d in \<open>auto simp: cmd_ok_def\<close>)
  have "if ?pass then \<exists>g' rs. processCommands eng t e g2 =
           Some (fst (me_submitOrder eng t ptr ord e), g', rs, snd (me_submitOrder eng t ptr ord e))
         else \<exists>g' r rp. processCommands eng t e g2 = Some (e, g', [r], []) \<and> resp_session_uuid r = u \<and>
           read_report (resp_sbe_message r) = Some rp \<and> rp_template rp = 523 \<and> rp_uuid rp = u \<and>
           rp_cl_ord_id rp = wire_id (cl_ord_id ord) \<and> rp_reason rp = 3" if g2: "command_queue g2 = [?cmd]" for g2
  proof (cases ?pass)
    case True
    obtain e' evs where s: "me_submitOrder eng t ptr ord e = (e', evs)" by (cases "me_submitOrder eng t ptr ord e")
    with True once [of g2] d assms(2) g2 show ?thesis
      by (auto simp: implements_def processCommands_def spec_command_def)
  next
    case False
    then obtain g' rs where p: "processCommands eng t e g2 = Some (e, g', rs, [])"
      and c: "carries (next_exec_id (gw_builder g2)) [pretrade_reject (cmd\<lparr>cmd_order := Some (ptr, ord\<lparr>status := Rejected\<rparr>)\<rparr>) (ord\<lparr>status := Rejected\<rparr>)] rs"
      using d g2 once [of g2] by (auto simp: implements_def processCommands_def spec_command_def)
    then obtain r where "rs = [r]" using carries_length [OF c] by (cases rs) auto
    with c d show ?thesis using p False by (auto simp: pretrade_reject_def report_of_def)
  qed
  with q show "\<exists>cmd1. command_queue g1 = command_queue g @ [cmd1] \<and> (\<forall>g2. command_queue g2 = [cmd1] \<longrightarrow>
        (if ?pass then \<exists>g' rs. processCommands eng t e g2 =
           Some (fst (me_submitOrder eng t ptr ord e), g', rs, snd (me_submitOrder eng t ptr ord e))
         else \<exists>g' r rp. processCommands eng t e g2 = Some (e, g', [r], []) \<and> resp_session_uuid r = u \<and>
           read_report (resp_sbe_message r) = Some rp \<and> rp_template rp = 523 \<and> rp_uuid rp = u \<and>
           rp_cl_ord_id rp = wire_id (cl_ord_id ord) \<and> rp_reason rp = 3))" by blast
  show "\<forall>pct lim pos. map_option command_queue (onApplicationMessage im now ptr u 514 data
        (g\<lparr>gw_risk := put_risk_state u ((risk_state u (gw_risk g))\<lparr>net_position := pos\<rparr>)
            ((gw_risk g)\<lparr>risk_config := (risk_config (gw_risk g))\<lparr>max_price_deviation_pct := pct, max_position_per_session := lim\<rparr>\<rparr>)\<rparr>)) =
      Some (command_queue g1)"
    using onApplicationMessage_new [OF assms(1,2), of im now] assms(3)
    by (auto simp: push_command_def checkRate_def checkOrder_def risk_state_def put_risk_state_def Let_def)
qed

text \<open>An order of the example passes, an order of quantity zero does not.\<close>

lemma ex_received:
  assumes "decodeNewOrderSingle ptr u data = Some (ex_command ptr u (ex_new_order u sd qty))"
    and "1 \<le> qty" "qty \<le> 10000" and "session_state (gw_risk g) u = None" and "risk_config (gw_risk g) = RiskConfig_default"
    and "1000000000 \<le> now"
  shows "onApplicationMessage ex_im now ptr u 514 data g =
    Some (push_command (ex_command ptr u (ex_new_order u sd qty)) (g\<lparr>gw_risk := fst (checkRate now u (gw_risk g))\<rparr>))"
proof -
  have "snd (checkRate now u (gw_risk g))"
    using assms(4,6) by (simp add: checkRate_def risk_state_def SessionRiskState_new_def seconds_ge Let_def)
  moreover have "checkOrder (ex_new_order u sd qty) (gw_risk g)"
    using assms(3,5) by (simp add: checkOrder_def ex_new_order_def RiskConfig_default_def)
  ultimately show ?thesis
    using onApplicationMessage_new [OF assms(1), of "ex_new_order u sd qty" ex_im now g] assms(2,3)
    by (simp add: ex_command_def validateNewOrder_iff ex_tradable)
qed

theorem pretrade_gate_witness:
  "\<not> tradable ex_im (ex_new_order 2 Buy 0) \<and>
   (\<exists>g1 g' r rp. onApplicationMessage ex_im 2000000000 2 2 514 (ex_data 1 0) ex_gateway = Some g1 \<and>
      processCommands FullMatchingEngine 5 ex_exchange g1 = Some (ex_exchange, g', [r], []) \<and>
      resp_session_uuid r = 2 \<and> read_report (resp_sbe_message r) = Some rp \<and> rp_reason rp = 3)"
proof -
  let ?ord = "ex_new_order 2 Buy 0"
  have nt: "\<not> tradable ex_im ?ord" by (simp add: ex_tradable)
  have o: "cmd_order (ex_command 2 2 ?ord) = Some (2, ?ord)" by (simp add: ex_command_def)
  obtain g1 where g1: "onApplicationMessage ex_im 2000000000 2 2 514 (ex_data 1 0) ex_gateway = Some g1"
    using onApplicationMessage_new [OF ex_decodes(3) o] by blast
  have "command_queue ex_gateway = []" by (simp add: ex_gateway_def OrderEntryGateway_new_def)
  with pretrade_gate [OF ex_decodes(3) o g1, of FullMatchingEngine 5 ex_exchange] nt
  obtain g' r rp where "processCommands FullMatchingEngine 5 ex_exchange g1 = Some (ex_exchange, g', [r], [])"
    "resp_session_uuid r = 2" "read_report (resp_sbe_message r) = Some rp" "rp_reason rp = 3"
    by (auto simp del: split_paired_Ex)
  with nt g1 show ?thesis by blast
qed

section \<open>Positions\<close>

text \<open>What a session's fill reports add up to: bought less sold.\<close>

fun delivery_qty :: "uuid_t \<Rightarrow> delivery \<Rightarrow> int" where
  "delivery_qty u (EvFilled e, v, mk) =
     (if v = u then (if (aggressor_side e = Buy) = mk then - trade_qty e else trade_qty e) else 0)"
| "delivery_qty u _ = 0"

definition booked :: "uuid_t \<Rightarrow> delivery list \<Rightarrow> int" where
  "booked u ds = sum_list (map (delivery_qty u) ds)"

text \<open>A step from \<open>g\<close> to \<open>g'\<close> that books the deliveries \<open>ds\<close>.\<close>

definition books :: "Gateway \<Rightarrow> delivery list \<Rightarrow> Gateway \<Rightarrow> bool" where
  "books g ds g' \<longleftrightarrow> (finite (dom (session_state (gw_risk g))) \<longrightarrow>
     finite (dom (session_state (gw_risk g'))) \<and> total_position (gw_risk g') = total_position (gw_risk g) \<and>
     (\<forall>u. net_position (risk_state u (gw_risk g')) = net_position (risk_state u (gw_risk g)) + booked u ds))"

lemma books_same: "gw_risk g' = gw_risk g \<Longrightarrow> books g [] g'"
  by (simp add: books_def booked_def)

lemma books_other: "gw_risk g' = gw_risk g \<Longrightarrow> \<forall>e. ev \<noteq> EvFilled e \<Longrightarrow> books g [(ev, u, mk)] g'"
  by (cases ev) (simp_all add: books_def booked_def)

lemma books_trans: "books g ds g' \<Longrightarrow> books g' ds' g'' \<Longrightarrow> books g (ds @ ds') g''"
  by (simp add: books_def booked_def)

lemma position_onFill:
  "net_position (risk_state v (onFill u sd q r)) =
     net_position (risk_state v r) + (if v = u then (if sd = Buy then q else - q) else 0)"
  by (simp add: onFill_def Let_def)

lemma fill_books:
  assumes "gw_risk g' = onFill (taker_session_uuid e) (aggressor_side e) (trade_qty e)
    (onFill (maker_session_uuid e) (if aggressor_side e = Buy then Sell else Buy) (trade_qty e) (gw_risk g))"
  shows "books g (both_sides e) g'"
  using assms by (cases "aggressor_side e")
    (simp_all add: books_def booked_def both_sides_def position_onFill total_onFill finite_onFill)

lemma respond_risk: "respond u b g = Some (g', rs) \<Longrightarrow> gw_risk g' = gw_risk g"
  by (auto simp: respond_def bind_eq_Some_conv)

lemma respond_fill_books: "respond_fill now e g = Some (g', rs) \<Longrightarrow> books g (both_sides e) g'"
  by (rule fill_books) (auto simp: respond_fill_def bind_eq_Some_conv Let_def dest!: respond_risk)

lemma visit_books:
  "visit_new now ev g = Some (g', rs) \<Longrightarrow> books g (addressed NewOrder ev) g'"
  "visit_cancel now ev g = Some (g', rs) \<Longrightarrow> books g (addressed CancelOrder ev) g'"
  "visit_modify now ev g = Some (g', rs) \<Longrightarrow> books g (addressed ModifyOrder ev) g'"
  by (cases ev; auto simp: visit_new_def visit_cancel_def visit_modify_def
      dest: respond_risk respond_fill_books intro!: books_same books_other)+

lemma visit_all_books:
  assumes "\<And>ev g g' rs. visit ev g = Some (g', rs) \<Longrightarrow> books g (f ev) g'"
  shows "visit_all visit evs g = Some (g', rs) \<Longrightarrow> books g (concat (map f evs)) g'"
proof (induction evs arbitrary: g rs)
  case Nil
  then show ?case by (simp add: books_same)
next
  case (Cons ev evs)
  then obtain g1 rs1 rs2 where "visit ev g = Some (g1, rs1)" "visit_all visit evs g1 = Some (g', rs2)"
    by (auto simp: bind_eq_Some_conv)
  then have "books g (f ev) g1" "books g1 (concat (map f evs)) g'" by (simp_all add: assms Cons.IH)
  then show ?case by (simp add: books_trans)
qed

lemma visit_all_kind_books:
  "visit_all (visit_new now) evs g = Some (g', rs) \<Longrightarrow> books g (concat (map (addressed NewOrder) evs)) g'"
  "visit_all (visit_cancel now) evs g = Some (g', rs) \<Longrightarrow> books g (concat (map (addressed CancelOrder) evs)) g'"
  "visit_all (visit_modify now) evs g = Some (g', rs) \<Longrightarrow> books g (concat (map (addressed ModifyOrder) evs)) g'"
  by - (erule visit_all_books [rotated], erule visit_books)+

lemma process_command_books:
  assumes "process_command eng now cmd e g = Some (e', g', rs, evs)" and "spec_command eng now cmd e = (e'', ds, evs')"
  shows "books g ds g'"
proof (cases "cmd_type cmd")
  case NewOrder
  then obtain ptr ord where o: "cmd_order cmd = Some (ptr, ord)"
    using assms(1) by (auto simp: process_command_def bind_eq_Some_conv)
  show ?thesis
  proof (cases "status ord = Rejected")
    case True
    with NewOrder o assms have "gw_risk g' = gw_risk g" "ds = [pretrade_reject cmd ord]"
      by (auto simp: process_command_def spec_command_def bind_eq_Some_conv dest: respond_risk)
    then show ?thesis by (simp add: pretrade_reject_def books_other)
  next
    case False
    with NewOrder o assms show ?thesis
      by (auto simp: process_command_def spec_command_def bind_eq_Some_conv Let_def
          split: prod.splits dest: visit_all_kind_books)
  qed
next
  case CancelOrder
  with assms show ?thesis
    by (auto simp: process_command_def spec_command_def bind_eq_Some_conv Let_def
        split: prod.splits dest: visit_all_kind_books)
next
  case ModifyOrder
  with assms show ?thesis
    by (auto simp: process_command_def spec_command_def bind_eq_Some_conv Let_def
        split: prod.splits dest: visit_all_kind_books)
qed

lemma process_queue_books:
  "process_queue eng now cmds e g = Some (e', g', rs, evs) \<Longrightarrow> spec_queue eng now cmds e = (e'', ds, evs') \<Longrightarrow>
     \<forall>cmd\<in>set cmds. cmd_ok cmd \<Longrightarrow> books g ds g'"
proof (induction cmds arbitrary: e g rs evs e'' ds evs')
  case Nil
  then show ?case by (simp add: books_same)
next
  case (Cons cmd cmds)
  obtain e1 g1 rs1 evs1 rs2 evs2 where 1: "process_command eng now cmd e g = Some (e1, g1, rs1, evs1)"
    and 2: "process_queue eng now cmds e1 g1 = Some (e', g', rs2, evs2)"
    using Cons.prems(1) by (auto simp: bind_eq_Some_conv)
  obtain ds1 evs1' where s1: "spec_command eng now cmd e = (e1, ds1, evs1')"
    using process_command_implements [of cmd eng now e g] 1 Cons.prems(3) by (auto simp: implements_def)
  obtain ds2 where s2: "spec_queue eng now cmds e1 = (e'', ds2, drop (length evs1') evs')" "ds = ds1 @ ds2"
    using Cons.prems(2) s1 by (auto split: prod.splits)
  show ?case using books_trans [OF process_command_books [OF 1 s1] Cons.IH [OF 2 s2(1)]] Cons.prems(3) s2(2) by simp
qed

text \<open>The runs of a gateway: messages arrive, and the engine thread processes the queue; \<open>ds\<close> are the reports sent.\<close>

inductive gateway_run :: "InstrumentManager \<Rightarrow> 'e IMatchingEngine \<Rightarrow> 'e \<Rightarrow> Gateway \<Rightarrow> 'e \<Rightarrow> Gateway \<Rightarrow> delivery list \<Rightarrow> bool"
  for im eng e0 g0 where
  gateway_start: "gateway_run im eng e0 g0 e0 g0 []"
| gateway_receive: "gateway_run im eng e0 g0 e g ds \<Longrightarrow> onApplicationMessage im now ptr u t data g = Some g' \<Longrightarrow>
    gateway_run im eng e0 g0 e g' ds"
| gateway_process: "gateway_run im eng e0 g0 e g ds \<Longrightarrow> processCommands eng now e g = Some (e', g', rs, evs) \<Longrightarrow>
    carries (next_exec_id (gw_builder g)) ds' rs \<Longrightarrow> spec_queue eng now (command_queue g) e = (e', ds', evs) \<Longrightarrow>
    gateway_run im eng e0 g0 e' g' (ds @ ds')"

lemma checkRate_books: "books g [] (push_command cmd (g\<lparr>gw_risk := fst (checkRate now u (gw_risk g))\<rparr>))"
proof -
  have "net_position (risk_state v (fst (checkRate now u r))) = net_position (risk_state v r)" for v r
    by (simp add: checkRate_def Let_def)
  then show ?thesis by (simp add: push_command_def books_def booked_def finite_checkRate total_checkRate)
qed

lemma onApplicationMessage_books:
  assumes "onApplicationMessage im now ptr u t data g = Some g'"
  shows "books g [] g'"
proof (cases "t = 514")
  case True
  with assms obtain cmd where d: "decodeNewOrderSingle ptr u data = Some cmd"
    by (auto simp: onApplicationMessage_def NewOrderSingle514_TEMPLATE_ID_def bind_eq_Some_conv)
  from decodes_ok(1) [OF this] obtain ord where "cmd_order cmd = Some (ptr, ord)" by blast
  from onApplicationMessage_new [OF d this, of im now g] assms True show ?thesis by (auto simp: checkRate_books)
next
  case False
  with assms show ?thesis
    by (auto simp: onApplicationMessage_def NewOrderSingle514_TEMPLATE_ID_def push_command_def bind_eq_Some_conv
        Let_def intro!: books_same split: if_splits)
qed

lemma gateway_run_books:
  assumes "gateway_run im eng e0 g0 e g ds" and "\<forall>cmd\<in>set (command_queue g0). cmd_ok cmd"
  shows "books g0 ds g \<and> (\<forall>cmd\<in>set (command_queue g). cmd_ok cmd)"
  using assms
proof induction
  case gateway_start
  then show ?case by (simp add: books_same)
next
  case (gateway_receive e g ds now ptr u t data g')
  have "books g [] g'" by (rule onApplicationMessage_books) fact
  with gateway_receive enqueued_ok show ?case using books_trans [of g0 ds g "[]" g'] by simp
next
  case (gateway_process e g ds now e' g' rs evs ds')
  then have ok: "\<forall>cmd\<in>set (command_queue g). cmd_ok cmd" and b: "books g0 ds g" by blast+
  have "books (g\<lparr>command_queue := []\<rparr>) ds' g'"
    using gateway_process.hyps(2,4) ok unfolding processCommands_def by (blast intro: process_queue_books)
  then have "books g0 (ds @ ds') g'" using b books_trans by (simp add: books_def)
  moreover have "command_queue g' = []"
    using process_queue_implements [OF ok, of eng now e "g\<lparr>command_queue := []\<rparr>"] gateway_process.hyps(2,4)
    by (auto simp: implements_def processCommands_def)
  ultimately show ?case by simp
qed

text \<open>
  C34.  The risk manager's positions are the sessions' fills.  After any run of the gateway with any engine,
  the position kept for a session is exactly what the fill reports sent to that session add up to (bought
  less sold, from the maker's or the taker's side), the positions of all sessions sum to zero, and the
  engine thread can always process what is queued, which empties the queue.
\<close>

theorem positions_balance:
  assumes "gateway_run im eng e0 (OrderEntryGateway_new cfg) e g ds"
  shows "net_position (risk_state u (gw_risk g)) = booked u ds \<and> total_position (gw_risk g) = 0 \<and>
    (\<exists>e' g' rs evs. processCommands eng now e g = Some (e', g', rs, evs) \<and> \<not> hasPendingCommands g')"
proof -
  have b: "books (OrderEntryGateway_new cfg) ds g" and ok: "\<forall>cmd\<in>set (command_queue g). cmd_ok cmd"
    using gateway_run_books [OF assms] by (auto simp: OrderEntryGateway_new_def)
  have z: "net_position (risk_state u (RiskManager_new cfg)) = 0" "total_position (RiskManager_new cfg) = 0"
    "finite (dom (session_state (RiskManager_new cfg)))"
    by (simp_all add: RiskManager_new_def risk_state_def SessionRiskState_new_def total_position_def)
  obtain e' ds' evs where "spec_queue eng now (command_queue g) e = (e', ds', evs)" by (metis prod_cases3)
  then have "\<exists>e' g' rs evs. processCommands eng now e g = Some (e', g', rs, evs) \<and> \<not> hasPendingCommands g'"
    using process_queue_implements [OF ok, of eng now e "g\<lparr>command_queue := []\<rparr>"]
    by (auto simp: implements_def processCommands_def hasPendingCommands_def)
  with b z show ?thesis by (simp add: books_def OrderEntryGateway_new_def)
qed

theorem positions_balance_witness:
  "\<exists>e g ds. gateway_run ex_im FullMatchingEngine ex_exchange ex_gateway e g ds \<and> booked 1 ds = - 4 \<and>
     net_position (risk_state 1 (gw_risk g)) = - 4 \<and> total_position (gw_risk g) = 0"
proof -
  let ?run = "gateway_run ex_im FullMatchingEngine ex_exchange ex_gateway"
  let ?c1 = "ex_command 1 1 (ex_new_order 1 Sell 4)" and ?c2 = "ex_command 2 2 (ex_new_order 2 Buy 4)"
  have new: "session_state (gw_risk ex_gateway) = Map.empty" "risk_config (gw_risk ex_gateway) = RiskConfig_default"
    "command_queue ex_gateway = []"
    by (simp_all add: ex_gateway_def OrderEntryGateway_new_def RiskManager_new_def)
  define g1 where "g1 = push_command ?c1 (ex_gateway\<lparr>gw_risk := fst (checkRate 2000000000 1 (gw_risk ex_gateway))\<rparr>)"
  have r1: "?run ex_exchange g1 []" unfolding g1_def
    by (rule gateway_receive [OF gateway_start ex_received [OF ex_decodes(1)]]) (simp_all add: new)
  have g1: "session_state (gw_risk g1) 2 = None" "risk_config (gw_risk g1) = RiskConfig_default"
    "command_queue g1 = [?c1]"
    by (simp_all add: g1_def push_command_def checkRate_def put_risk_state_def new Let_def)
  define g2 where "g2 = push_command ?c2 (g1\<lparr>gw_risk := fst (checkRate 2000000001 2 (gw_risk g1))\<rparr>)"
  have r2: "?run ex_exchange g2 []" unfolding g2_def
    by (rule gateway_receive [OF r1 ex_received [OF ex_decodes(2)]]) (simp_all add: g1)
  have q: "command_queue g2 = ex_queue" by (simp add: g2_def push_command_def g1 ex_queue_def)
  obtain e ds evs where s: "spec_queue FullMatchingEngine 5 ex_queue ex_exchange = (e, ds, evs)" by (metis prod_cases3)
  from process_queue_implements [OF ex_queue_ok, of FullMatchingEngine 5 ex_exchange "g2\<lparr>command_queue := []\<rparr>"] s
  obtain g rs where "processCommands FullMatchingEngine 5 ex_exchange g2 = Some (e, g, rs, evs)"
    "carries (next_exec_id (gw_builder g2)) ds rs"
    by (auto simp: implements_def processCommands_def q)
  then have run: "?run e g ([] @ ds)" by (rule gateway_process [OF r2]) (simp add: q s)
  moreover have "booked 1 ds = - 4"
  proof -
    have "booked 1 (fst (snd (spec_queue FullMatchingEngine 5 ex_queue ex_exchange))) = - 4" by code_simp
    with s show ?thesis by simp
  qed
  ultimately show ?thesis
    using positions_balance [of ex_im FullMatchingEngine ex_exchange RiskConfig_default e g ds 1]
    by (auto simp: ex_gateway_def)
qed

end
