(* ===== verification/Engine_Contract.thy ===== *)
theory Engine_Contract
  imports Gateway_Properties Book_Market_Data
begin

text \<open>
  The contract between the gateway and an engine, and the full matching engine as its provider: the
  gateway's command queue keeps the engine memory safe, and the market-data events it collects are a
  faithful feed of every book.
\<close>

section \<open>The feed of the engine's books\<close>

text \<open>Every book's changes are reported, and no book appears or disappears.\<close>

definition engine_feed :: "Engine \<Rightarrow> EngineEvent list \<Rightarrow> Engine \<Rightarrow> bool" where
  "engine_feed e evs e' \<longleftrightarrow> (\<forall>sec. case order_books e sec of
       None \<Rightarrow> order_books e' sec = None \<and> events_for sec evs = []
     | Some b \<Rightarrow> \<exists>b'. order_books e' sec = Some b' \<and> reports b (events_for sec evs) b')"

lemma engine_feed_refl: "engine_feed e [] e"
  by (simp add: engine_feed_def events_for_def split: option.splits)

lemma engine_feed_trans: "engine_feed e evs e' \<Longrightarrow> engine_feed e' evs' e'' \<Longrightarrow> engine_feed e (evs @ evs') e''"
  unfolding engine_feed_def by (fastforce split: option.splits intro: reports_append)

lemma engine_feed_silent:
  "\<forall>ev\<in>set evs. event_security ev = None \<Longrightarrow> order_books e' = order_books e \<Longrightarrow> engine_feed e evs e'"
proof -
  assume *: "\<forall>ev\<in>set evs. event_security ev = None" "order_books e' = order_books e"
  then have "events_for sec evs = []" for sec by (auto simp: events_for_def filter_empty_conv)
  with * show ?thesis by (simp add: engine_feed_def split: option.splits)
qed

lemma engine_feed_book:
  assumes "order_books e sec = Some b" and "order_books e' = (order_books e)(sec \<mapsto> b')"
    and "reports b evs b'" and "book_security_id b = sec"
  shows "engine_feed e evs e'"
  unfolding engine_feed_def using assms reports_for [OF assms(3,4)] by (auto split: option.splits)

section \<open>The contract\<close>

text \<open>
  \<open>inv n e\<close>: the engine is in order and has room for \<open>n\<close> more orders; \<open>used e\<close>: the order objects it may
  refer to; \<open>feed e evs e'\<close>: the events account for the change from \<open>e\<close> to \<open>e'\<close>.
\<close>

locale order_engine =
  fixes eng :: "'e IMatchingEngine" and inv :: "nat \<Rightarrow> 'e \<Rightarrow> bool" and used :: "'e \<Rightarrow> OrderPtr set"
    and feed :: "'e \<Rightarrow> EngineEvent list \<Rightarrow> 'e \<Rightarrow> bool"
  assumes submit: "inv (Suc n) e \<Longrightarrow> ptr \<notin> used e \<Longrightarrow> status ord = New \<Longrightarrow>
      me_submitOrder eng now ptr ord e = (e', evs) \<Longrightarrow> inv n e' \<and> used e' \<subseteq> insert ptr (used e) \<and> feed e evs e'"
    and cancel: "inv n e \<Longrightarrow> me_cancelOrder eng oid sec u e = (e', evs) \<Longrightarrow> inv n e' \<and> used e' \<subseteq> used e \<and> feed e evs e'"
    and modify: "inv n e \<Longrightarrow> me_modifyOrder eng oid sec np nq ncl e = (e', evs) \<Longrightarrow> inv n e' \<and> used e' \<subseteq> used e \<and> feed e evs e'"
    and less_room: "inv (Suc n) e \<Longrightarrow> inv n e"
    and feed_refl: "feed e [] e"
    and feed_trans: "feed e evs e' \<Longrightarrow> feed e' evs' e'' \<Longrightarrow> feed e (evs @ evs') e''"
begin

text \<open>The order objects a queue brings, each new and in none of the engine's books.\<close>

definition queued :: "OrderCommand list \<Rightarrow> OrderPtr list" where
  "queued cmds = map fst (List.map_filter cmd_order (filter (\<lambda>cmd. cmd_type cmd = NewOrder) cmds))"

definition new_orders :: "OrderCommand list \<Rightarrow> bool" where
  "new_orders cmds \<longleftrightarrow> (\<forall>cmd\<in>set cmds. \<forall>ptr ord. cmd_order cmd = Some (ptr, ord) \<longrightarrow> status ord = New \<or> status ord = Rejected)"

lemma spec_command_ok:
  assumes "inv (Suc n) e" and "new_orders [cmd]" and "set (queued [cmd]) \<inter> used e = {}"
    and "spec_command eng now cmd e = (e', ds, evs)"
  shows "inv n e' \<and> used e' \<subseteq> set (queued [cmd]) \<union> used e \<and> feed e evs e'"
proof (cases "cmd_type cmd")
  case NewOrder
  show ?thesis
  proof (cases "cmd_order cmd")
    case None
    then show ?thesis using assms NewOrder less_room feed_refl by (auto simp: spec_command_def)
  next
    case (Some a)
    then obtain ptr ord where o: "cmd_order cmd = Some (ptr, ord)" by (cases a) auto
    then have q: "queued [cmd] = [ptr]" using NewOrder by (simp add: queued_def List.map_filter_simps)
    show ?thesis
    proof (cases "status ord = Rejected")
      case True
      then show ?thesis using assms NewOrder o less_room feed_refl by (auto simp: spec_command_def)
    next
      case False
      obtain e1 ev1 where s: "me_submitOrder eng now ptr ord e = (e1, ev1)" by fastforce
      have "status ord = New" "ptr \<notin> used e" using assms(2,3) o False q by (auto simp: new_orders_def)
      from submit [OF assms(1) this(2,1) s] assms(4) NewOrder o False s q show ?thesis
        by (auto simp: spec_command_def)
    qed
  qed
next
  case CancelOrder
  then have "queued [cmd] = []" by (simp add: queued_def List.map_filter_simps)
  with CancelOrder assms cancel [OF less_room [OF assms(1)]] show ?thesis
    by (auto simp: spec_command_def split: prod.splits)
next
  case ModifyOrder
  then have "queued [cmd] = []" by (simp add: queued_def List.map_filter_simps)
  with ModifyOrder assms modify [OF less_room [OF assms(1)]] show ?thesis
    by (auto simp: spec_command_def split: prod.splits)
qed

lemma queued_Cons: "queued (cmd # cmds) = queued [cmd] @ queued cmds"
  by (cases "cmd_order cmd") (simp_all add: queued_def List.map_filter_simps)

lemma spec_queue_ok:
  "inv (length cmds + n) e \<Longrightarrow> new_orders cmds \<Longrightarrow> distinct (queued cmds) \<Longrightarrow> set (queued cmds) \<inter> used e = {} \<Longrightarrow>
     spec_queue eng now cmds e = (e', ds, evs) \<Longrightarrow>
   inv n e' \<and> used e' \<subseteq> set (queued cmds) \<union> used e \<and> feed e evs e'"
proof (induction cmds arbitrary: e ds evs)
  case Nil
  then show ?case by (simp add: feed_refl)
next
  case (Cons cmd cmds)
  obtain e1 ds1 ev1 where s: "spec_command eng now cmd e = (e1, ds1, ev1)" by (metis prod_cases3)
  obtain ds2 ev2 where s2: "spec_queue eng now cmds e1 = (e', ds2, ev2)" and evs: "evs = ev1 @ ev2"
    using Cons.prems(5) s by (auto split: prod.splits)
  have d: "distinct (queued [cmd] @ queued cmds)" "set (queued [cmd] @ queued cmds) \<inter> used e = {}"
    using Cons.prems(3,4) by (simp_all only: queued_Cons [of cmd cmds])
  have 1: "inv (length cmds + n) e1 \<and> used e1 \<subseteq> set (queued [cmd]) \<union> used e \<and> feed e ev1 e1"
    by (rule spec_command_ok [OF _ _ _ s]) (use Cons.prems(1,2) d in \<open>auto simp: new_orders_def\<close>)
  have 2: "inv n e' \<and> used e' \<subseteq> set (queued cmds) \<union> used e1 \<and> feed e1 ev2 e'"
    by (rule Cons.IH [OF _ _ _ _ s2]) (use 1 Cons.prems(2) d in \<open>auto simp: new_orders_def\<close>)
  have "feed e evs e'" unfolding evs by (rule feed_trans) (use 1 2 in blast)+
  moreover have "used e' \<subseteq> set (queued (cmd # cmds)) \<union> used e"
    unfolding queued_Cons [of cmd cmds] set_append using 1 2 by blast
  ultimately show ?case using 2 by blast
qed

end

section \<open>The full matching engine\<close>

definition engine_room :: "nat \<Rightarrow> Engine \<Rightarrow> bool" where
  "engine_room n e \<longleftrightarrow> engine_inv e \<and> unat (next_order_id e) + n < 2 ^ 64"

definition engine_used :: "Engine \<Rightarrow> OrderPtr set" where
  "engine_used e = ran (owned_orders e)"

lemma submitOrder_feed:
  assumes inv: "engine_inv e" and fresh: "fresh_order ptr order e" and sub: "submitOrder now ptr order e = (e', evs)"
  shows "engine_feed e evs e'"
proof (cases "order_books e (security_id order)")
  case None
  with sub show ?thesis by (intro engine_feed_silent) (auto simp: submitOrder_def Let_def)
next
  case (Some b)
  define o' where "o' = order\<lparr>order_id := next_order_id e, timestamp := now\<rparr>"
  let ?h = "(objects e)(ptr := o')"
  obtain h b' ev where add: "book_addOrder ptr ?h b = (h, b', ev)" by (metis prod_cases3)
  have "fresh_order ptr o' e" "order_id o' = next_order_id e"
    using fresh by (simp_all add: fresh_order_def o'_def)
  note tk = take_order_inv [OF inv this]
  have un: "unbooked ptr b" using tk(2) Some unbooked_cells by blast
  have binv: "book_inv ?h b"
    using books.table_get [OF engine_invD(1) [OF inv] Some] un by (simp add: book_inv_upd)
  have "reports b ev b'" by (rule book_addOrder_reports [OF binv un add])
  moreover have "ev = evs" "order_books e' = (order_books e)(security_id order \<mapsto> b')"
    using sub unfolding submitOrder_known [OF o'_def Some add]
    by (auto simp: Let_def put_book_def take_order_def forget_def split: if_splits)
  ultimately show ?thesis using engine_feed_book [OF Some] engine_invD(2) [OF inv Some] by blast
qed

lemma cancelOrder_feed:
  assumes inv: "engine_inv e" and c: "engine_cancelOrder oid security u e = (e', evs)"
  shows "engine_feed e evs e'"
proof -
  define sec where "sec = (case order_to_security e oid of Some s \<Rightarrow> s | None \<Rightarrow> security)"
  show ?thesis
  proof (cases "order_books e sec")
    case None
    with c show ?thesis by (intro engine_feed_silent) (auto simp: engine_cancelOrder_def Let_def sec_def)
  next
    case (Some b)
    obtain h b' ev where bc: "book_cancelOrder oid (objects e) b = (h, b', ev)" by (metis prod_cases3)
    have "reports b ev b'"
      by (rule book_cancelOrder_reports [OF books.table_get [OF engine_invD(1) [OF inv] Some] bc])
    moreover have "ev = evs" "order_books e' = (order_books e)(sec \<mapsto> b')"
      using c Some bc by (auto simp: engine_cancelOrder_def Let_def sec_def [symmetric] forget_def)
    ultimately show ?thesis using engine_feed_book [OF Some] engine_invD(2) [OF inv Some] by blast
  qed
qed

lemma modifyOrder_feed:
  assumes inv: "engine_inv e" and m: "engine_modifyOrder oid security np nq ncl e = (e', evs)"
  shows "engine_feed e evs e'"
proof -
  define sec where "sec = (case order_to_security e oid of Some s \<Rightarrow> s | None \<Rightarrow> security)"
  show ?thesis
  proof (cases "order_books e sec")
    case None
    with m show ?thesis by (intro engine_feed_silent) (auto simp: engine_modifyOrder_def Let_def sec_def)
  next
    case (Some b)
    obtain h b' ev where bm: "book_modifyOrder oid np nq ncl (objects e) b = (h, b', ev)" by (metis prod_cases3)
    have "reports b ev b'"
      by (rule book_modifyOrder_reports [OF books.table_get [OF engine_invD(1) [OF inv] Some] bm])
    moreover have "ev = evs" "order_books e' = (order_books e)(sec \<mapsto> b')"
      using m Some bm
      by (auto simp: engine_modifyOrder_def Let_def sec_def [symmetric] forget_def split: option.splits if_splits)
    ultimately show ?thesis using engine_feed_book [OF Some] engine_invD(2) [OF inv Some] by blast
  qed
qed

text \<open>Which orders an operation may keep, and how many ids it consumes.\<close>

lemma submitOrder_used:
  assumes "submitOrder now ptr order e = (e', evs)"
  shows "engine_used e' \<subseteq> insert ptr (engine_used e) \<and> next_order_id e' = next_order_id e + 1"
  using assms by (auto simp: submitOrder_def Let_def forget_def engine_used_def ran_def
      split: option.splits prod.splits if_splits)

lemma cancelOrder_used:
  assumes "engine_cancelOrder oid sec u e = (e', evs)"
  shows "engine_used e' \<subseteq> engine_used e \<and> next_order_id e' = next_order_id e"
  using assms by (auto simp: engine_cancelOrder_def Let_def forget_def engine_used_def ran_def
      split: option.splits prod.splits if_splits)

lemma modifyOrder_used:
  assumes "engine_modifyOrder oid sec np nq ncl e = (e', evs)"
  shows "engine_used e' \<subseteq> engine_used e \<and> next_order_id e' = next_order_id e"
  using assms by (auto simp: engine_modifyOrder_def Let_def forget_def engine_used_def ran_def
      split: option.splits prod.splits if_splits)

interpretation full: order_engine FullMatchingEngine engine_room engine_used engine_feed
proof
  fix n e ptr ord now e' evs
  assume r: "engine_room (Suc n) e" and p: "ptr \<notin> engine_used e" and st: "status ord = New"
    and s: "me_submitOrder FullMatchingEngine now ptr ord e = (e', evs)"
  have s': "submitOrder now ptr ord e = (e', evs)" using s by (simp add: FullMatchingEngine_def)
  have u: "unat (next_order_id e + 1) = unat (next_order_id e) + 1"
    using r unfolding engine_room_def by (simp only: unat_word_ariths) simp
  then have fresh: "fresh_order ptr ord e"
    using p st by (auto simp: fresh_order_def engine_used_def ran_def dest: arg_cong [where f = unat])
  have i: "engine_inv e" using r by (simp add: engine_room_def)
  show "engine_room n e' \<and> engine_used e' \<subseteq> insert ptr (engine_used e) \<and> engine_feed e evs e'"
    using submitOrder_inv [OF i fresh s'] submitOrder_used [OF s'] submitOrder_feed [OF i fresh s'] r u
    by (simp add: engine_room_def)
next
  fix n e oid sec u e' evs
  assume r: "engine_room n e" and s: "me_cancelOrder FullMatchingEngine oid sec u e = (e', evs)"
  have s': "engine_cancelOrder oid sec u e = (e', evs)" using s by (simp add: FullMatchingEngine_def)
  have i: "engine_inv e" using r by (simp add: engine_room_def)
  show "engine_room n e' \<and> engine_used e' \<subseteq> engine_used e \<and> engine_feed e evs e'"
    using engine_cancelOrder_inv [OF i s'] cancelOrder_used [OF s'] cancelOrder_feed [OF i s'] r
    by (simp add: engine_room_def)
next
  fix n e oid sec np nq ncl e' evs
  assume r: "engine_room n e" and s: "me_modifyOrder FullMatchingEngine oid sec np nq ncl e = (e', evs)"
  have s': "engine_modifyOrder oid sec np nq ncl e = (e', evs)" using s by (simp add: FullMatchingEngine_def)
  have i: "engine_inv e" using r by (simp add: engine_room_def)
  show "engine_room n e' \<and> engine_used e' \<subseteq> engine_used e \<and> engine_feed e evs e'"
    using engine_modifyOrder_inv [OF i s'] modifyOrder_used [OF s'] modifyOrder_feed [OF i s'] r
    by (simp add: engine_room_def)
qed (simp_all add: engine_room_def engine_feed_refl engine_feed_trans)

end
