(* ===== verification/Sbe_Groups.thy ===== *)
theory Sbe_Groups
  imports Sbe_Framing
begin

text \<open>
  Repeating groups of \<^verbatim>\<open>src/sbe/mdp3_messages.h\<close>: a group header (block length and an 8-bit count)
  followed by the entries.  The \<^verbatim>\<open>encode\<close> methods write the entries one after the other and cast the
  number of entries to \<^verbatim>\<open>uint8_t\<close>; the \<^verbatim>\<open>decode\<close> methods advance by the block length on the wire.
\<close>

section \<open>Writing and reading a group\<close>

definition shift :: "nat \<Rightarrow> (nat \<times> bytes) list \<Rightarrow> (nat \<times> bytes) list" where
  "shift pos fs = map (\<lambda>(k, bs). (pos + k, bs)) fs"

fun entries_fields :: "('e \<Rightarrow> (nat \<times> bytes) list) \<Rightarrow> nat \<Rightarrow> nat \<Rightarrow> 'e list \<Rightarrow> (nat \<times> bytes) list" where
  "entries_fields f blk pos [] = []"
| "entries_fields f blk pos (e # es) = shift pos (f e) @ entries_fields f blk (pos + blk) es"

definition group_fields :: "16 word \<Rightarrow> ('e \<Rightarrow> (nat \<times> bytes) list) \<Rightarrow> nat \<Rightarrow> 'e list \<Rightarrow> (nat \<times> bytes) list" where
  "group_fields blk f pos es =
     GroupSize_fields pos blk (of_nat (length es)) @ entries_fields f (unat blk) (pos + GroupSize_SIZE) es"

definition group_size :: "16 word \<Rightarrow> 'e list \<Rightarrow> nat" where
  "group_size blk es = GroupSize_SIZE + length es * unat blk"

fun read_entries :: "(bytes \<Rightarrow> nat \<Rightarrow> 'e option) \<Rightarrow> bytes \<Rightarrow> nat \<Rightarrow> nat \<Rightarrow> nat \<Rightarrow> 'e list option" where
  "read_entries d buf pos blk 0 = Some []"
| "read_entries d buf pos blk (Suc n) = do {
     e \<leftarrow> d buf pos;
     es \<leftarrow> read_entries d buf (pos + blk) blk n;
     Some (e # es)
   }"

definition read_group :: "(bytes \<Rightarrow> nat \<Rightarrow> 'e option) \<Rightarrow> bytes \<Rightarrow> nat \<Rightarrow> ('e list \<times> nat) option" where
  "read_group d buf pos = do {
     entryBlockLen \<leftarrow> decodeGroupBlockLength buf pos;
     numEntries \<leftarrow> decodeNumInGroup buf pos;
     let pos = pos + GroupSize_SIZE;
     es \<leftarrow> read_entries d buf pos (unat entryBlockLen) (unat numEntries);
     Some (es, pos + unat numEntries * unat entryBlockLen)
   }"

lemma packed_shift: "packed (pos + k) (shift pos fs) \<longleftrightarrow> packed k fs"
  by (induction k fs rule: packed.induct) (auto simp: shift_def add.assoc)

lemma body_of_shift [simp]: "body_of (shift pos fs) = body_of fs"
  by (simp add: shift_def body_of_def case_prod_unfold comp_def)

lemma reads_shift: "reads_fields buf b (shift pos fs) \<longleftrightarrow> reads_fields buf (b + pos) fs"
  by (auto simp: reads_fields_def shift_def add.assoc)

section \<open>The contract of a group entry\<close>

locale group_entry =
  fixes blk :: "16 word" and f :: "'e \<Rightarrow> (nat \<times> bytes) list" and d :: "bytes \<Rightarrow> nat \<Rightarrow> 'e option"
  assumes packed: "packed 0 (f e) \<and> length (body_of (f e)) = unat blk"
    and decode: "reads_fields buf pos (f e) \<Longrightarrow> d buf pos = Some e"
begin

lemma entries_packed:
  "packed pos (entries_fields f (unat blk) pos es) \<and>
   length (body_of (entries_fields f (unat blk) pos es)) = length es * unat blk"
proof (induction es arbitrary: pos)
  case (Cons e es)
  have "packed pos (shift pos (f e))" using packed_shift [of pos 0 "f e"] packed by simp
  with Cons packed show ?case by (simp add: packed_append)
qed simp

lemma group_packed:
  "packed pos (group_fields blk f pos es) \<and> length (body_of (group_fields blk f pos es)) = group_size blk es"
  using entries_packed [of "pos + 3" es]
  by (simp add: numeral_3_eq_3 group_fields_def GroupSize_fields_def GroupSize_SIZE_def group_size_def packed_append
      add.assoc)

lemma entries_decode:
  "reads_fields buf b (entries_fields f (unat blk) pos es) \<Longrightarrow> n \<le> length es \<Longrightarrow>
     read_entries d buf (b + pos) (unat blk) n = Some (take n es)"
proof (induction es arbitrary: pos n)
  case (Cons e es)
  show ?case
  proof (cases n)
    case (Suc m)
    have "d buf (b + pos) = Some e" using Cons.prems(1) by (simp add: reads_shift decode)
    moreover have "read_entries d buf (b + (pos + unat blk)) (unat blk) m = Some (take m es)"
      using Cons Suc by simp
    ultimately show ?thesis using Suc by (simp add: add.assoc)
  qed simp
qed simp

text \<open>
  What is read back: the entries up to the count that the 8-bit field holds, which is all of them when
  there are fewer than 256.
\<close>

lemma group_decode:
  assumes r: "reads_fields buf b (group_fields blk f pos es)"
  shows "read_group d buf (b + pos) =
    Some (take (length es mod 256) es, b + pos + 3 + (length es mod 256) * unat blk)"
proof -
  have n: "unat (of_nat (length es) :: 8 word) = length es mod 256"
    by (simp add: unat_of_nat)
  have "read_bytes buf (b + pos) 2 = Some (le 2 blk)"
    "read_bytes buf (b + (pos + 2)) 1 = Some [of_nat (length es)]"
    "reads_fields buf b (entries_fields f (unat blk) (pos + 3) es)"
    using r by (simp_all add: group_fields_def GroupSize_fields_def GroupSize_SIZE_def add.assoc)
  moreover from this(3) have "read_entries d buf (b + (pos + 3)) (unat blk) (length es mod 256) =
      Some (take (length es mod 256) es)"
    by (rule entries_decode) simp
  ultimately show ?thesis
    by (simp add: read_group_def decodeGroupBlockLength_def decodeNumInGroup_def read_le_def of_le_le
        GroupSize_SIZE_def n add.assoc)
qed

end

end
