(* ===== verification/Mdp3_Groups.thy ===== *)
theory Mdp3_Groups
  imports Sbe_Groups
begin

text \<open>
  \<^verbatim>\<open>src/sbe/mdp3_messages.h\<close>, the messages with repeating groups (templates 4, 46, 48 and 52).  A
  \<^verbatim>\<open>std::vector\<close> member is a list; \<open>wf\<close> asks that it fits the 8-bit group count.
\<close>

subsection \<open>ChannelReset4\<close>

record ChannelReset4_Entry =
  applID :: "16 word"

definition ChannelReset4_Entry_default :: ChannelReset4_Entry where
  "ChannelReset4_Entry_default = \<lparr>ChannelReset4_Entry.applID = 0\<rparr>"

definition ChannelReset4_Entry_BLOCK_LENGTH :: "16 word" where "ChannelReset4_Entry_BLOCK_LENGTH = 2"

definition ChannelReset4_Entry_fields :: "ChannelReset4_Entry \<Rightarrow> (nat \<times> bytes) list" where
  "ChannelReset4_Entry_fields e = [
     (0, le 2 (ChannelReset4_Entry.applID e))]"

definition ChannelReset4_Entry_decode :: "bytes \<Rightarrow> nat \<Rightarrow> ChannelReset4_Entry option" where
  "ChannelReset4_Entry_decode buf pos = do {
     applID \<leftarrow> read_le buf (pos + 0) 2;
     Some \<lparr>ChannelReset4_Entry.applID = applID\<rparr>
   }"

interpretation channelReset4_Entry: group_entry ChannelReset4_Entry_BLOCK_LENGTH ChannelReset4_Entry_fields ChannelReset4_Entry_decode
proof
  fix e :: ChannelReset4_Entry and buf pos
  show "packed 0 (ChannelReset4_Entry_fields e) \<and> length (body_of (ChannelReset4_Entry_fields e)) = unat ChannelReset4_Entry_BLOCK_LENGTH"
    by (simp add: ChannelReset4_Entry_fields_def ChannelReset4_Entry_BLOCK_LENGTH_def)
  show "reads_fields buf pos (ChannelReset4_Entry_fields e) \<Longrightarrow> ChannelReset4_Entry_decode buf pos = Some e"
    by (cases e) (simp add: ChannelReset4_Entry_fields_def ChannelReset4_Entry_decode_def sbe_decode_simps)
qed

record ChannelReset4 =
  transactTime :: "64 word"
  matchEventIndicator :: "8 word"
  entries :: "ChannelReset4_Entry list"

definition ChannelReset4_default :: ChannelReset4 where
  "ChannelReset4_default = \<lparr>ChannelReset4.transactTime = 0,
     ChannelReset4.matchEventIndicator = 0,
     ChannelReset4.entries = []\<rparr>"

definition ChannelReset4_TEMPLATE_ID :: "16 word" where "ChannelReset4_TEMPLATE_ID = 4"
definition ChannelReset4_BLOCK_LENGTH :: "16 word" where "ChannelReset4_BLOCK_LENGTH = 9"

definition ChannelReset4_fields :: "ChannelReset4 \<Rightarrow> (nat \<times> bytes) list" where
  "ChannelReset4_fields m = [
     (0, le 8 (ChannelReset4.transactTime m)),
     (8, le 1 (ChannelReset4.matchEventIndicator m))] @
     group_fields ChannelReset4_Entry_BLOCK_LENGTH ChannelReset4_Entry_fields 9 (ChannelReset4.entries m)"

definition ChannelReset4_size :: "ChannelReset4 \<Rightarrow> nat" where
  "ChannelReset4_size m = unat ChannelReset4_BLOCK_LENGTH + group_size ChannelReset4_Entry_BLOCK_LENGTH (ChannelReset4.entries m)"

definition ChannelReset4_encode :: "ChannelReset4 \<Rightarrow> bytes \<Rightarrow> nat \<Rightarrow> (bytes \<times> nat) option" where
  "ChannelReset4_encode m buf offset =
     sbe_encode MDP3_SCHEMA_ID MDP3_VERSION ChannelReset4_BLOCK_LENGTH ChannelReset4_TEMPLATE_ID (ChannelReset4_fields m)
       (ChannelReset4_size m) buf offset"

definition ChannelReset4_decode :: "bytes \<Rightarrow> nat \<Rightarrow> ChannelReset4 option" where
  "ChannelReset4_decode buf offset =
     (let b = offset + MessageHeader_SIZE in do {
        transactTime \<leftarrow> read_le buf (b + 0) 8;
        matchEventIndicator \<leftarrow> read_le buf (b + 8) 1;
        (entries, pos) \<leftarrow> read_group ChannelReset4_Entry_decode buf (b + 9);
        Some \<lparr>ChannelReset4.transactTime = transactTime,
          ChannelReset4.matchEventIndicator = matchEventIndicator,
          ChannelReset4.entries = entries\<rparr>
     })"

definition ChannelReset4_wf :: "ChannelReset4 \<Rightarrow> bool" where
  "ChannelReset4_wf m \<longleftrightarrow> length (ChannelReset4.entries m) < 256"

interpretation channelReset4: sbe_message MDP3_SCHEMA_ID MDP3_VERSION ChannelReset4_BLOCK_LENGTH ChannelReset4_TEMPLATE_ID
  ChannelReset4_fields ChannelReset4_size ChannelReset4_encode ChannelReset4_decode ChannelReset4_wf
proof
  fix m :: ChannelReset4 and buf off
  show "ChannelReset4_encode m buf off = sbe_encode MDP3_SCHEMA_ID MDP3_VERSION ChannelReset4_BLOCK_LENGTH
      ChannelReset4_TEMPLATE_ID (ChannelReset4_fields m) (ChannelReset4_size m) buf off"
    by (simp add: ChannelReset4_encode_def)
  show "packed 0 (ChannelReset4_fields m) \<and> length (body_of (ChannelReset4_fields m)) = ChannelReset4_size m"
    using channelReset4_Entry.group_packed [of 9 "ChannelReset4.entries m"]
    by (simp add: ChannelReset4_fields_def ChannelReset4_size_def ChannelReset4_BLOCK_LENGTH_def packed_append)
  assume wf: "ChannelReset4_wf m" and r: "reads_fields buf (off + 8) (ChannelReset4_fields m)"
  show "ChannelReset4_decode buf off = Some m"
  proof -
    have g1: "read_group ChannelReset4_Entry_decode buf (off + 8 + 9) =
        Some (ChannelReset4.entries m, off + 8 + (9 + group_size ChannelReset4_Entry_BLOCK_LENGTH (ChannelReset4.entries m)))"
      using channelReset4_Entry.group_decode [of buf "off + 8" 9 "ChannelReset4.entries m"] wf r
      by (simp add: ChannelReset4_wf_def ChannelReset4_fields_def group_size_def GroupSize_SIZE_def)
    have "reads_fields buf (off + 8) [(0, le 8 (ChannelReset4.transactTime m)), (8, le 1 (ChannelReset4.matchEventIndicator m))]"
      using r by (simp add: ChannelReset4_fields_def)
    with g1 show ?thesis
      by (cases m) (simp add: ChannelReset4_decode_def sbe_decode_simps)
  qed
qed


subsection \<open>MDIncrementalRefreshBook46\<close>

record MDIncrementalRefreshBook46_Entry =
  mdEntryPx :: "64 word"
  mdEntrySize :: "32 word"
  securityID :: "32 word"
  rptSeq :: "32 word"
  numberOfOrders :: "32 word"
  mdPriceLevel :: "8 word"
  mdUpdateAction :: "8 word"
  mdEntryType :: "8 word"

definition MDIncrementalRefreshBook46_Entry_default :: MDIncrementalRefreshBook46_Entry where
  "MDIncrementalRefreshBook46_Entry_default = \<lparr>MDIncrementalRefreshBook46_Entry.mdEntryPx = 0,
     MDIncrementalRefreshBook46_Entry.mdEntrySize = 0,
     MDIncrementalRefreshBook46_Entry.securityID = 0,
     MDIncrementalRefreshBook46_Entry.rptSeq = 0,
     MDIncrementalRefreshBook46_Entry.numberOfOrders = 0,
     MDIncrementalRefreshBook46_Entry.mdPriceLevel = 0,
     MDIncrementalRefreshBook46_Entry.mdUpdateAction = 0,
     MDIncrementalRefreshBook46_Entry.mdEntryType = 0\<rparr>"

definition MDIncrementalRefreshBook46_Entry_BLOCK_LENGTH :: "16 word" where "MDIncrementalRefreshBook46_Entry_BLOCK_LENGTH = 27"

definition MDIncrementalRefreshBook46_Entry_fields :: "MDIncrementalRefreshBook46_Entry \<Rightarrow> (nat \<times> bytes) list" where
  "MDIncrementalRefreshBook46_Entry_fields e = [
     (0, le 8 (MDIncrementalRefreshBook46_Entry.mdEntryPx e)),
     (8, le 4 (MDIncrementalRefreshBook46_Entry.mdEntrySize e)),
     (12, le 4 (MDIncrementalRefreshBook46_Entry.securityID e)),
     (16, le 4 (MDIncrementalRefreshBook46_Entry.rptSeq e)),
     (20, le 4 (MDIncrementalRefreshBook46_Entry.numberOfOrders e)),
     (24, le 1 (MDIncrementalRefreshBook46_Entry.mdPriceLevel e)),
     (25, le 1 (MDIncrementalRefreshBook46_Entry.mdUpdateAction e)),
     (26, le 1 (MDIncrementalRefreshBook46_Entry.mdEntryType e))]"

definition MDIncrementalRefreshBook46_Entry_decode :: "bytes \<Rightarrow> nat \<Rightarrow> MDIncrementalRefreshBook46_Entry option" where
  "MDIncrementalRefreshBook46_Entry_decode buf pos = do {
     mdEntryPx \<leftarrow> read_le buf (pos + 0) 8;
     mdEntrySize \<leftarrow> read_le buf (pos + 8) 4;
     securityID \<leftarrow> read_le buf (pos + 12) 4;
     rptSeq \<leftarrow> read_le buf (pos + 16) 4;
     numberOfOrders \<leftarrow> read_le buf (pos + 20) 4;
     mdPriceLevel \<leftarrow> read_le buf (pos + 24) 1;
     mdUpdateAction \<leftarrow> read_le buf (pos + 25) 1;
     mdEntryType \<leftarrow> read_le buf (pos + 26) 1;
     Some \<lparr>MDIncrementalRefreshBook46_Entry.mdEntryPx = mdEntryPx, MDIncrementalRefreshBook46_Entry.mdEntrySize = mdEntrySize, MDIncrementalRefreshBook46_Entry.securityID = securityID, MDIncrementalRefreshBook46_Entry.rptSeq = rptSeq, MDIncrementalRefreshBook46_Entry.numberOfOrders = numberOfOrders, MDIncrementalRefreshBook46_Entry.mdPriceLevel = mdPriceLevel, MDIncrementalRefreshBook46_Entry.mdUpdateAction = mdUpdateAction, MDIncrementalRefreshBook46_Entry.mdEntryType = mdEntryType\<rparr>
   }"

interpretation mDIncrementalRefreshBook46_Entry: group_entry MDIncrementalRefreshBook46_Entry_BLOCK_LENGTH MDIncrementalRefreshBook46_Entry_fields MDIncrementalRefreshBook46_Entry_decode
proof
  fix e :: MDIncrementalRefreshBook46_Entry and buf pos
  show "packed 0 (MDIncrementalRefreshBook46_Entry_fields e) \<and> length (body_of (MDIncrementalRefreshBook46_Entry_fields e)) = unat MDIncrementalRefreshBook46_Entry_BLOCK_LENGTH"
    by (simp add: MDIncrementalRefreshBook46_Entry_fields_def MDIncrementalRefreshBook46_Entry_BLOCK_LENGTH_def)
  show "reads_fields buf pos (MDIncrementalRefreshBook46_Entry_fields e) \<Longrightarrow> MDIncrementalRefreshBook46_Entry_decode buf pos = Some e"
    by (cases e) (simp add: MDIncrementalRefreshBook46_Entry_fields_def MDIncrementalRefreshBook46_Entry_decode_def sbe_decode_simps)
qed

record MDIncrementalRefreshBook46 =
  transactTime :: "64 word"
  matchEventIndicator :: "8 word"
  entries :: "MDIncrementalRefreshBook46_Entry list"

definition MDIncrementalRefreshBook46_default :: MDIncrementalRefreshBook46 where
  "MDIncrementalRefreshBook46_default = \<lparr>MDIncrementalRefreshBook46.transactTime = 0,
     MDIncrementalRefreshBook46.matchEventIndicator = 0,
     MDIncrementalRefreshBook46.entries = []\<rparr>"

definition MDIncrementalRefreshBook46_TEMPLATE_ID :: "16 word" where "MDIncrementalRefreshBook46_TEMPLATE_ID = 46"
definition MDIncrementalRefreshBook46_BLOCK_LENGTH :: "16 word" where "MDIncrementalRefreshBook46_BLOCK_LENGTH = 9"

definition MDIncrementalRefreshBook46_fields :: "MDIncrementalRefreshBook46 \<Rightarrow> (nat \<times> bytes) list" where
  "MDIncrementalRefreshBook46_fields m = [
     (0, le 8 (MDIncrementalRefreshBook46.transactTime m)),
     (8, le 1 (MDIncrementalRefreshBook46.matchEventIndicator m))] @
     group_fields MDIncrementalRefreshBook46_Entry_BLOCK_LENGTH MDIncrementalRefreshBook46_Entry_fields 9 (MDIncrementalRefreshBook46.entries m)"

definition MDIncrementalRefreshBook46_size :: "MDIncrementalRefreshBook46 \<Rightarrow> nat" where
  "MDIncrementalRefreshBook46_size m = unat MDIncrementalRefreshBook46_BLOCK_LENGTH + group_size MDIncrementalRefreshBook46_Entry_BLOCK_LENGTH (MDIncrementalRefreshBook46.entries m)"

definition MDIncrementalRefreshBook46_encode :: "MDIncrementalRefreshBook46 \<Rightarrow> bytes \<Rightarrow> nat \<Rightarrow> (bytes \<times> nat) option" where
  "MDIncrementalRefreshBook46_encode m buf offset =
     sbe_encode MDP3_SCHEMA_ID MDP3_VERSION MDIncrementalRefreshBook46_BLOCK_LENGTH MDIncrementalRefreshBook46_TEMPLATE_ID (MDIncrementalRefreshBook46_fields m)
       (MDIncrementalRefreshBook46_size m) buf offset"

definition MDIncrementalRefreshBook46_decode :: "bytes \<Rightarrow> nat \<Rightarrow> MDIncrementalRefreshBook46 option" where
  "MDIncrementalRefreshBook46_decode buf offset =
     (let b = offset + MessageHeader_SIZE in do {
        transactTime \<leftarrow> read_le buf (b + 0) 8;
        matchEventIndicator \<leftarrow> read_le buf (b + 8) 1;
        (entries, pos) \<leftarrow> read_group MDIncrementalRefreshBook46_Entry_decode buf (b + 9);
        Some \<lparr>MDIncrementalRefreshBook46.transactTime = transactTime,
          MDIncrementalRefreshBook46.matchEventIndicator = matchEventIndicator,
          MDIncrementalRefreshBook46.entries = entries\<rparr>
     })"

definition MDIncrementalRefreshBook46_wf :: "MDIncrementalRefreshBook46 \<Rightarrow> bool" where
  "MDIncrementalRefreshBook46_wf m \<longleftrightarrow> length (MDIncrementalRefreshBook46.entries m) < 256"

interpretation mDIncrementalRefreshBook46: sbe_message MDP3_SCHEMA_ID MDP3_VERSION MDIncrementalRefreshBook46_BLOCK_LENGTH MDIncrementalRefreshBook46_TEMPLATE_ID
  MDIncrementalRefreshBook46_fields MDIncrementalRefreshBook46_size MDIncrementalRefreshBook46_encode MDIncrementalRefreshBook46_decode MDIncrementalRefreshBook46_wf
proof
  fix m :: MDIncrementalRefreshBook46 and buf off
  show "MDIncrementalRefreshBook46_encode m buf off = sbe_encode MDP3_SCHEMA_ID MDP3_VERSION MDIncrementalRefreshBook46_BLOCK_LENGTH
      MDIncrementalRefreshBook46_TEMPLATE_ID (MDIncrementalRefreshBook46_fields m) (MDIncrementalRefreshBook46_size m) buf off"
    by (simp add: MDIncrementalRefreshBook46_encode_def)
  show "packed 0 (MDIncrementalRefreshBook46_fields m) \<and> length (body_of (MDIncrementalRefreshBook46_fields m)) = MDIncrementalRefreshBook46_size m"
    using mDIncrementalRefreshBook46_Entry.group_packed [of 9 "MDIncrementalRefreshBook46.entries m"]
    by (simp add: MDIncrementalRefreshBook46_fields_def MDIncrementalRefreshBook46_size_def MDIncrementalRefreshBook46_BLOCK_LENGTH_def packed_append)
  assume wf: "MDIncrementalRefreshBook46_wf m" and r: "reads_fields buf (off + 8) (MDIncrementalRefreshBook46_fields m)"
  show "MDIncrementalRefreshBook46_decode buf off = Some m"
  proof -
    have g1: "read_group MDIncrementalRefreshBook46_Entry_decode buf (off + 8 + 9) =
        Some (MDIncrementalRefreshBook46.entries m, off + 8 + (9 + group_size MDIncrementalRefreshBook46_Entry_BLOCK_LENGTH (MDIncrementalRefreshBook46.entries m)))"
      using mDIncrementalRefreshBook46_Entry.group_decode [of buf "off + 8" 9 "MDIncrementalRefreshBook46.entries m"] wf r
      by (simp add: MDIncrementalRefreshBook46_wf_def MDIncrementalRefreshBook46_fields_def group_size_def GroupSize_SIZE_def)
    have "reads_fields buf (off + 8) [(0, le 8 (MDIncrementalRefreshBook46.transactTime m)), (8, le 1 (MDIncrementalRefreshBook46.matchEventIndicator m))]"
      using r by (simp add: MDIncrementalRefreshBook46_fields_def)
    with g1 show ?thesis
      by (cases m) (simp add: MDIncrementalRefreshBook46_decode_def sbe_decode_simps)
  qed
qed


subsection \<open>MDIncrementalRefreshTradeSummary48\<close>

record MDIncrementalRefreshTradeSummary48_MDEntry =
  mdEntryPx :: "64 word"
  mdEntrySize :: "32 word"
  securityID :: "32 word"
  rptSeq :: "32 word"
  numberOfOrders :: "32 word"
  aggressorSide :: "8 word"
  mdUpdateAction :: "8 word"

definition MDIncrementalRefreshTradeSummary48_MDEntry_default :: MDIncrementalRefreshTradeSummary48_MDEntry where
  "MDIncrementalRefreshTradeSummary48_MDEntry_default = \<lparr>MDIncrementalRefreshTradeSummary48_MDEntry.mdEntryPx = 0,
     MDIncrementalRefreshTradeSummary48_MDEntry.mdEntrySize = 0,
     MDIncrementalRefreshTradeSummary48_MDEntry.securityID = 0,
     MDIncrementalRefreshTradeSummary48_MDEntry.rptSeq = 0,
     MDIncrementalRefreshTradeSummary48_MDEntry.numberOfOrders = 0,
     MDIncrementalRefreshTradeSummary48_MDEntry.aggressorSide = 0,
     MDIncrementalRefreshTradeSummary48_MDEntry.mdUpdateAction = 0\<rparr>"

definition MDIncrementalRefreshTradeSummary48_MDEntry_BLOCK_LENGTH :: "16 word" where "MDIncrementalRefreshTradeSummary48_MDEntry_BLOCK_LENGTH = 26"

definition MDIncrementalRefreshTradeSummary48_MDEntry_fields :: "MDIncrementalRefreshTradeSummary48_MDEntry \<Rightarrow> (nat \<times> bytes) list" where
  "MDIncrementalRefreshTradeSummary48_MDEntry_fields e = [
     (0, le 8 (MDIncrementalRefreshTradeSummary48_MDEntry.mdEntryPx e)),
     (8, le 4 (MDIncrementalRefreshTradeSummary48_MDEntry.mdEntrySize e)),
     (12, le 4 (MDIncrementalRefreshTradeSummary48_MDEntry.securityID e)),
     (16, le 4 (MDIncrementalRefreshTradeSummary48_MDEntry.rptSeq e)),
     (20, le 4 (MDIncrementalRefreshTradeSummary48_MDEntry.numberOfOrders e)),
     (24, le 1 (MDIncrementalRefreshTradeSummary48_MDEntry.aggressorSide e)),
     (25, le 1 (MDIncrementalRefreshTradeSummary48_MDEntry.mdUpdateAction e))]"

definition MDIncrementalRefreshTradeSummary48_MDEntry_decode :: "bytes \<Rightarrow> nat \<Rightarrow> MDIncrementalRefreshTradeSummary48_MDEntry option" where
  "MDIncrementalRefreshTradeSummary48_MDEntry_decode buf pos = do {
     mdEntryPx \<leftarrow> read_le buf (pos + 0) 8;
     mdEntrySize \<leftarrow> read_le buf (pos + 8) 4;
     securityID \<leftarrow> read_le buf (pos + 12) 4;
     rptSeq \<leftarrow> read_le buf (pos + 16) 4;
     numberOfOrders \<leftarrow> read_le buf (pos + 20) 4;
     aggressorSide \<leftarrow> read_le buf (pos + 24) 1;
     mdUpdateAction \<leftarrow> read_le buf (pos + 25) 1;
     Some \<lparr>MDIncrementalRefreshTradeSummary48_MDEntry.mdEntryPx = mdEntryPx, MDIncrementalRefreshTradeSummary48_MDEntry.mdEntrySize = mdEntrySize, MDIncrementalRefreshTradeSummary48_MDEntry.securityID = securityID, MDIncrementalRefreshTradeSummary48_MDEntry.rptSeq = rptSeq, MDIncrementalRefreshTradeSummary48_MDEntry.numberOfOrders = numberOfOrders, MDIncrementalRefreshTradeSummary48_MDEntry.aggressorSide = aggressorSide, MDIncrementalRefreshTradeSummary48_MDEntry.mdUpdateAction = mdUpdateAction\<rparr>
   }"

interpretation mDIncrementalRefreshTradeSummary48_MDEntry: group_entry MDIncrementalRefreshTradeSummary48_MDEntry_BLOCK_LENGTH MDIncrementalRefreshTradeSummary48_MDEntry_fields MDIncrementalRefreshTradeSummary48_MDEntry_decode
proof
  fix e :: MDIncrementalRefreshTradeSummary48_MDEntry and buf pos
  show "packed 0 (MDIncrementalRefreshTradeSummary48_MDEntry_fields e) \<and> length (body_of (MDIncrementalRefreshTradeSummary48_MDEntry_fields e)) = unat MDIncrementalRefreshTradeSummary48_MDEntry_BLOCK_LENGTH"
    by (simp add: MDIncrementalRefreshTradeSummary48_MDEntry_fields_def MDIncrementalRefreshTradeSummary48_MDEntry_BLOCK_LENGTH_def)
  show "reads_fields buf pos (MDIncrementalRefreshTradeSummary48_MDEntry_fields e) \<Longrightarrow> MDIncrementalRefreshTradeSummary48_MDEntry_decode buf pos = Some e"
    by (cases e) (simp add: MDIncrementalRefreshTradeSummary48_MDEntry_fields_def MDIncrementalRefreshTradeSummary48_MDEntry_decode_def sbe_decode_simps)
qed

record MDIncrementalRefreshTradeSummary48_OrderIDEntry =
  orderID :: "64 word"
  lastQty :: "32 word"

definition MDIncrementalRefreshTradeSummary48_OrderIDEntry_default :: MDIncrementalRefreshTradeSummary48_OrderIDEntry where
  "MDIncrementalRefreshTradeSummary48_OrderIDEntry_default = \<lparr>MDIncrementalRefreshTradeSummary48_OrderIDEntry.orderID = 0,
     MDIncrementalRefreshTradeSummary48_OrderIDEntry.lastQty = 0\<rparr>"

definition MDIncrementalRefreshTradeSummary48_OrderIDEntry_BLOCK_LENGTH :: "16 word" where "MDIncrementalRefreshTradeSummary48_OrderIDEntry_BLOCK_LENGTH = 12"

definition MDIncrementalRefreshTradeSummary48_OrderIDEntry_fields :: "MDIncrementalRefreshTradeSummary48_OrderIDEntry \<Rightarrow> (nat \<times> bytes) list" where
  "MDIncrementalRefreshTradeSummary48_OrderIDEntry_fields e = [
     (0, le 8 (MDIncrementalRefreshTradeSummary48_OrderIDEntry.orderID e)),
     (8, le 4 (MDIncrementalRefreshTradeSummary48_OrderIDEntry.lastQty e))]"

definition MDIncrementalRefreshTradeSummary48_OrderIDEntry_decode :: "bytes \<Rightarrow> nat \<Rightarrow> MDIncrementalRefreshTradeSummary48_OrderIDEntry option" where
  "MDIncrementalRefreshTradeSummary48_OrderIDEntry_decode buf pos = do {
     orderID \<leftarrow> read_le buf (pos + 0) 8;
     lastQty \<leftarrow> read_le buf (pos + 8) 4;
     Some \<lparr>MDIncrementalRefreshTradeSummary48_OrderIDEntry.orderID = orderID, MDIncrementalRefreshTradeSummary48_OrderIDEntry.lastQty = lastQty\<rparr>
   }"

interpretation mDIncrementalRefreshTradeSummary48_OrderIDEntry: group_entry MDIncrementalRefreshTradeSummary48_OrderIDEntry_BLOCK_LENGTH MDIncrementalRefreshTradeSummary48_OrderIDEntry_fields MDIncrementalRefreshTradeSummary48_OrderIDEntry_decode
proof
  fix e :: MDIncrementalRefreshTradeSummary48_OrderIDEntry and buf pos
  show "packed 0 (MDIncrementalRefreshTradeSummary48_OrderIDEntry_fields e) \<and> length (body_of (MDIncrementalRefreshTradeSummary48_OrderIDEntry_fields e)) = unat MDIncrementalRefreshTradeSummary48_OrderIDEntry_BLOCK_LENGTH"
    by (simp add: MDIncrementalRefreshTradeSummary48_OrderIDEntry_fields_def MDIncrementalRefreshTradeSummary48_OrderIDEntry_BLOCK_LENGTH_def)
  show "reads_fields buf pos (MDIncrementalRefreshTradeSummary48_OrderIDEntry_fields e) \<Longrightarrow> MDIncrementalRefreshTradeSummary48_OrderIDEntry_decode buf pos = Some e"
    by (cases e) (simp add: MDIncrementalRefreshTradeSummary48_OrderIDEntry_fields_def MDIncrementalRefreshTradeSummary48_OrderIDEntry_decode_def sbe_decode_simps)
qed

record MDIncrementalRefreshTradeSummary48 =
  transactTime :: "64 word"
  matchEventIndicator :: "8 word"
  mdEntries :: "MDIncrementalRefreshTradeSummary48_MDEntry list"
  orderIDEntries :: "MDIncrementalRefreshTradeSummary48_OrderIDEntry list"

definition MDIncrementalRefreshTradeSummary48_default :: MDIncrementalRefreshTradeSummary48 where
  "MDIncrementalRefreshTradeSummary48_default = \<lparr>MDIncrementalRefreshTradeSummary48.transactTime = 0,
     MDIncrementalRefreshTradeSummary48.matchEventIndicator = 0,
     MDIncrementalRefreshTradeSummary48.mdEntries = [],
     MDIncrementalRefreshTradeSummary48.orderIDEntries = []\<rparr>"

definition MDIncrementalRefreshTradeSummary48_TEMPLATE_ID :: "16 word" where "MDIncrementalRefreshTradeSummary48_TEMPLATE_ID = 48"
definition MDIncrementalRefreshTradeSummary48_BLOCK_LENGTH :: "16 word" where "MDIncrementalRefreshTradeSummary48_BLOCK_LENGTH = 9"

definition MDIncrementalRefreshTradeSummary48_fields :: "MDIncrementalRefreshTradeSummary48 \<Rightarrow> (nat \<times> bytes) list" where
  "MDIncrementalRefreshTradeSummary48_fields m = [
     (0, le 8 (MDIncrementalRefreshTradeSummary48.transactTime m)),
     (8, le 1 (MDIncrementalRefreshTradeSummary48.matchEventIndicator m))] @
     group_fields MDIncrementalRefreshTradeSummary48_MDEntry_BLOCK_LENGTH MDIncrementalRefreshTradeSummary48_MDEntry_fields 9 (MDIncrementalRefreshTradeSummary48.mdEntries m) @
     group_fields MDIncrementalRefreshTradeSummary48_OrderIDEntry_BLOCK_LENGTH MDIncrementalRefreshTradeSummary48_OrderIDEntry_fields (9 + group_size MDIncrementalRefreshTradeSummary48_MDEntry_BLOCK_LENGTH (MDIncrementalRefreshTradeSummary48.mdEntries m)) (MDIncrementalRefreshTradeSummary48.orderIDEntries m)"

definition MDIncrementalRefreshTradeSummary48_size :: "MDIncrementalRefreshTradeSummary48 \<Rightarrow> nat" where
  "MDIncrementalRefreshTradeSummary48_size m = unat MDIncrementalRefreshTradeSummary48_BLOCK_LENGTH + group_size MDIncrementalRefreshTradeSummary48_MDEntry_BLOCK_LENGTH (MDIncrementalRefreshTradeSummary48.mdEntries m) + group_size MDIncrementalRefreshTradeSummary48_OrderIDEntry_BLOCK_LENGTH (MDIncrementalRefreshTradeSummary48.orderIDEntries m)"

definition MDIncrementalRefreshTradeSummary48_encode :: "MDIncrementalRefreshTradeSummary48 \<Rightarrow> bytes \<Rightarrow> nat \<Rightarrow> (bytes \<times> nat) option" where
  "MDIncrementalRefreshTradeSummary48_encode m buf offset =
     sbe_encode MDP3_SCHEMA_ID MDP3_VERSION MDIncrementalRefreshTradeSummary48_BLOCK_LENGTH MDIncrementalRefreshTradeSummary48_TEMPLATE_ID (MDIncrementalRefreshTradeSummary48_fields m)
       (MDIncrementalRefreshTradeSummary48_size m) buf offset"

definition MDIncrementalRefreshTradeSummary48_decode :: "bytes \<Rightarrow> nat \<Rightarrow> MDIncrementalRefreshTradeSummary48 option" where
  "MDIncrementalRefreshTradeSummary48_decode buf offset =
     (let b = offset + MessageHeader_SIZE in do {
        transactTime \<leftarrow> read_le buf (b + 0) 8;
        matchEventIndicator \<leftarrow> read_le buf (b + 8) 1;
        (mdEntries, pos) \<leftarrow> read_group MDIncrementalRefreshTradeSummary48_MDEntry_decode buf (b + 9);
        (orderIDEntries, pos) \<leftarrow> read_group MDIncrementalRefreshTradeSummary48_OrderIDEntry_decode buf pos;
        Some \<lparr>MDIncrementalRefreshTradeSummary48.transactTime = transactTime,
          MDIncrementalRefreshTradeSummary48.matchEventIndicator = matchEventIndicator,
          MDIncrementalRefreshTradeSummary48.mdEntries = mdEntries,
          MDIncrementalRefreshTradeSummary48.orderIDEntries = orderIDEntries\<rparr>
     })"

definition MDIncrementalRefreshTradeSummary48_wf :: "MDIncrementalRefreshTradeSummary48 \<Rightarrow> bool" where
  "MDIncrementalRefreshTradeSummary48_wf m \<longleftrightarrow> length (MDIncrementalRefreshTradeSummary48.mdEntries m) < 256 \<and> length (MDIncrementalRefreshTradeSummary48.orderIDEntries m) < 256"

interpretation mDIncrementalRefreshTradeSummary48: sbe_message MDP3_SCHEMA_ID MDP3_VERSION MDIncrementalRefreshTradeSummary48_BLOCK_LENGTH MDIncrementalRefreshTradeSummary48_TEMPLATE_ID
  MDIncrementalRefreshTradeSummary48_fields MDIncrementalRefreshTradeSummary48_size MDIncrementalRefreshTradeSummary48_encode MDIncrementalRefreshTradeSummary48_decode MDIncrementalRefreshTradeSummary48_wf
proof
  fix m :: MDIncrementalRefreshTradeSummary48 and buf off
  show "MDIncrementalRefreshTradeSummary48_encode m buf off = sbe_encode MDP3_SCHEMA_ID MDP3_VERSION MDIncrementalRefreshTradeSummary48_BLOCK_LENGTH
      MDIncrementalRefreshTradeSummary48_TEMPLATE_ID (MDIncrementalRefreshTradeSummary48_fields m) (MDIncrementalRefreshTradeSummary48_size m) buf off"
    by (simp add: MDIncrementalRefreshTradeSummary48_encode_def)
  show "packed 0 (MDIncrementalRefreshTradeSummary48_fields m) \<and> length (body_of (MDIncrementalRefreshTradeSummary48_fields m)) = MDIncrementalRefreshTradeSummary48_size m"
    using mDIncrementalRefreshTradeSummary48_MDEntry.group_packed [of 9 "MDIncrementalRefreshTradeSummary48.mdEntries m"]
      mDIncrementalRefreshTradeSummary48_OrderIDEntry.group_packed [of "9 + group_size MDIncrementalRefreshTradeSummary48_MDEntry_BLOCK_LENGTH (MDIncrementalRefreshTradeSummary48.mdEntries m)" "MDIncrementalRefreshTradeSummary48.orderIDEntries m"]
    by (simp add: MDIncrementalRefreshTradeSummary48_fields_def MDIncrementalRefreshTradeSummary48_size_def MDIncrementalRefreshTradeSummary48_BLOCK_LENGTH_def packed_append)
  assume wf: "MDIncrementalRefreshTradeSummary48_wf m" and r: "reads_fields buf (off + 8) (MDIncrementalRefreshTradeSummary48_fields m)"
  show "MDIncrementalRefreshTradeSummary48_decode buf off = Some m"
  proof -
    have g1: "read_group MDIncrementalRefreshTradeSummary48_MDEntry_decode buf (off + 8 + 9) =
        Some (MDIncrementalRefreshTradeSummary48.mdEntries m, off + 8 + (9 + group_size MDIncrementalRefreshTradeSummary48_MDEntry_BLOCK_LENGTH (MDIncrementalRefreshTradeSummary48.mdEntries m)))"
      using mDIncrementalRefreshTradeSummary48_MDEntry.group_decode [of buf "off + 8" 9 "MDIncrementalRefreshTradeSummary48.mdEntries m"] wf r
      by (simp add: MDIncrementalRefreshTradeSummary48_wf_def MDIncrementalRefreshTradeSummary48_fields_def group_size_def GroupSize_SIZE_def)
    have g2: "read_group MDIncrementalRefreshTradeSummary48_OrderIDEntry_decode buf (off + 8 + (9 + group_size MDIncrementalRefreshTradeSummary48_MDEntry_BLOCK_LENGTH (MDIncrementalRefreshTradeSummary48.mdEntries m))) =
        Some (MDIncrementalRefreshTradeSummary48.orderIDEntries m, off + 8 + (9 + group_size MDIncrementalRefreshTradeSummary48_MDEntry_BLOCK_LENGTH (MDIncrementalRefreshTradeSummary48.mdEntries m)) + group_size MDIncrementalRefreshTradeSummary48_OrderIDEntry_BLOCK_LENGTH (MDIncrementalRefreshTradeSummary48.orderIDEntries m))"
      using mDIncrementalRefreshTradeSummary48_OrderIDEntry.group_decode [of buf "off + 8" "9 + group_size MDIncrementalRefreshTradeSummary48_MDEntry_BLOCK_LENGTH (MDIncrementalRefreshTradeSummary48.mdEntries m)" "MDIncrementalRefreshTradeSummary48.orderIDEntries m"] wf r
      by (simp add: MDIncrementalRefreshTradeSummary48_wf_def MDIncrementalRefreshTradeSummary48_fields_def) (simp add: group_size_def GroupSize_SIZE_def)
    have "reads_fields buf (off + 8) [(0, le 8 (MDIncrementalRefreshTradeSummary48.transactTime m)), (8, le 1 (MDIncrementalRefreshTradeSummary48.matchEventIndicator m))]"
      using r by (simp add: MDIncrementalRefreshTradeSummary48_fields_def)
    with g1 g2 show ?thesis
      by (cases m) (simp add: MDIncrementalRefreshTradeSummary48_decode_def sbe_decode_simps)
  qed
qed


subsection \<open>SnapshotFullRefresh52\<close>

record SnapshotFullRefresh52_Entry =
  mdEntryPx :: "64 word"
  mdEntrySize :: "32 word"
  numberOfOrders :: "32 word"
  mdPriceLevel :: "8 word"
  mdEntryType :: "8 word"

definition SnapshotFullRefresh52_Entry_default :: SnapshotFullRefresh52_Entry where
  "SnapshotFullRefresh52_Entry_default = \<lparr>SnapshotFullRefresh52_Entry.mdEntryPx = 0,
     SnapshotFullRefresh52_Entry.mdEntrySize = 0,
     SnapshotFullRefresh52_Entry.numberOfOrders = 0,
     SnapshotFullRefresh52_Entry.mdPriceLevel = 0,
     SnapshotFullRefresh52_Entry.mdEntryType = 0\<rparr>"

definition SnapshotFullRefresh52_Entry_BLOCK_LENGTH :: "16 word" where "SnapshotFullRefresh52_Entry_BLOCK_LENGTH = 18"

definition SnapshotFullRefresh52_Entry_fields :: "SnapshotFullRefresh52_Entry \<Rightarrow> (nat \<times> bytes) list" where
  "SnapshotFullRefresh52_Entry_fields e = [
     (0, le 8 (SnapshotFullRefresh52_Entry.mdEntryPx e)),
     (8, le 4 (SnapshotFullRefresh52_Entry.mdEntrySize e)),
     (12, le 4 (SnapshotFullRefresh52_Entry.numberOfOrders e)),
     (16, le 1 (SnapshotFullRefresh52_Entry.mdPriceLevel e)),
     (17, le 1 (SnapshotFullRefresh52_Entry.mdEntryType e))]"

definition SnapshotFullRefresh52_Entry_decode :: "bytes \<Rightarrow> nat \<Rightarrow> SnapshotFullRefresh52_Entry option" where
  "SnapshotFullRefresh52_Entry_decode buf pos = do {
     mdEntryPx \<leftarrow> read_le buf (pos + 0) 8;
     mdEntrySize \<leftarrow> read_le buf (pos + 8) 4;
     numberOfOrders \<leftarrow> read_le buf (pos + 12) 4;
     mdPriceLevel \<leftarrow> read_le buf (pos + 16) 1;
     mdEntryType \<leftarrow> read_le buf (pos + 17) 1;
     Some \<lparr>SnapshotFullRefresh52_Entry.mdEntryPx = mdEntryPx, SnapshotFullRefresh52_Entry.mdEntrySize = mdEntrySize, SnapshotFullRefresh52_Entry.numberOfOrders = numberOfOrders, SnapshotFullRefresh52_Entry.mdPriceLevel = mdPriceLevel, SnapshotFullRefresh52_Entry.mdEntryType = mdEntryType\<rparr>
   }"

interpretation snapshotFullRefresh52_Entry: group_entry SnapshotFullRefresh52_Entry_BLOCK_LENGTH SnapshotFullRefresh52_Entry_fields SnapshotFullRefresh52_Entry_decode
proof
  fix e :: SnapshotFullRefresh52_Entry and buf pos
  show "packed 0 (SnapshotFullRefresh52_Entry_fields e) \<and> length (body_of (SnapshotFullRefresh52_Entry_fields e)) = unat SnapshotFullRefresh52_Entry_BLOCK_LENGTH"
    by (simp add: SnapshotFullRefresh52_Entry_fields_def SnapshotFullRefresh52_Entry_BLOCK_LENGTH_def)
  show "reads_fields buf pos (SnapshotFullRefresh52_Entry_fields e) \<Longrightarrow> SnapshotFullRefresh52_Entry_decode buf pos = Some e"
    by (cases e) (simp add: SnapshotFullRefresh52_Entry_fields_def SnapshotFullRefresh52_Entry_decode_def sbe_decode_simps)
qed

record SnapshotFullRefresh52 =
  lastMsgSeqNumProcessed :: "32 word"
  totNumReports :: "32 word"
  securityID :: "32 word"
  rptSeq :: "32 word"
  transactTime :: "64 word"
  lastUpdateTime :: "64 word"
  tradeDate :: "16 word"
  mdSecurityTradingStatus :: "8 word"
  highLimitPrice :: "64 word"
  lowLimitPrice :: "64 word"
  maxPriceVariation :: "64 word"
  entries :: "SnapshotFullRefresh52_Entry list"

definition SnapshotFullRefresh52_default :: SnapshotFullRefresh52 where
  "SnapshotFullRefresh52_default = \<lparr>SnapshotFullRefresh52.lastMsgSeqNumProcessed = 0,
     SnapshotFullRefresh52.totNumReports = 0,
     SnapshotFullRefresh52.securityID = 0,
     SnapshotFullRefresh52.rptSeq = 0,
     SnapshotFullRefresh52.transactTime = 0,
     SnapshotFullRefresh52.lastUpdateTime = 0,
     SnapshotFullRefresh52.tradeDate = 0,
     SnapshotFullRefresh52.mdSecurityTradingStatus = 0,
     SnapshotFullRefresh52.highLimitPrice = 0,
     SnapshotFullRefresh52.lowLimitPrice = 0,
     SnapshotFullRefresh52.maxPriceVariation = 0,
     SnapshotFullRefresh52.entries = []\<rparr>"

definition SnapshotFullRefresh52_TEMPLATE_ID :: "16 word" where "SnapshotFullRefresh52_TEMPLATE_ID = 52"
definition SnapshotFullRefresh52_BLOCK_LENGTH :: "16 word" where "SnapshotFullRefresh52_BLOCK_LENGTH = 59"

definition SnapshotFullRefresh52_fields :: "SnapshotFullRefresh52 \<Rightarrow> (nat \<times> bytes) list" where
  "SnapshotFullRefresh52_fields m = [
     (0, le 4 (SnapshotFullRefresh52.lastMsgSeqNumProcessed m)),
     (4, le 4 (SnapshotFullRefresh52.totNumReports m)),
     (8, le 4 (SnapshotFullRefresh52.securityID m)),
     (12, le 4 (SnapshotFullRefresh52.rptSeq m)),
     (16, le 8 (SnapshotFullRefresh52.transactTime m)),
     (24, le 8 (SnapshotFullRefresh52.lastUpdateTime m)),
     (32, le 2 (SnapshotFullRefresh52.tradeDate m)),
     (34, le 1 (SnapshotFullRefresh52.mdSecurityTradingStatus m)),
     (35, le 8 (SnapshotFullRefresh52.highLimitPrice m)),
     (43, le 8 (SnapshotFullRefresh52.lowLimitPrice m)),
     (51, le 8 (SnapshotFullRefresh52.maxPriceVariation m))] @
     group_fields SnapshotFullRefresh52_Entry_BLOCK_LENGTH SnapshotFullRefresh52_Entry_fields 59 (SnapshotFullRefresh52.entries m)"

definition SnapshotFullRefresh52_size :: "SnapshotFullRefresh52 \<Rightarrow> nat" where
  "SnapshotFullRefresh52_size m = unat SnapshotFullRefresh52_BLOCK_LENGTH + group_size SnapshotFullRefresh52_Entry_BLOCK_LENGTH (SnapshotFullRefresh52.entries m)"

definition SnapshotFullRefresh52_encode :: "SnapshotFullRefresh52 \<Rightarrow> bytes \<Rightarrow> nat \<Rightarrow> (bytes \<times> nat) option" where
  "SnapshotFullRefresh52_encode m buf offset =
     sbe_encode MDP3_SCHEMA_ID MDP3_VERSION SnapshotFullRefresh52_BLOCK_LENGTH SnapshotFullRefresh52_TEMPLATE_ID (SnapshotFullRefresh52_fields m)
       (SnapshotFullRefresh52_size m) buf offset"

definition SnapshotFullRefresh52_decode :: "bytes \<Rightarrow> nat \<Rightarrow> SnapshotFullRefresh52 option" where
  "SnapshotFullRefresh52_decode buf offset =
     (let b = offset + MessageHeader_SIZE in do {
        lastMsgSeqNumProcessed \<leftarrow> read_le buf (b + 0) 4;
        totNumReports \<leftarrow> read_le buf (b + 4) 4;
        securityID \<leftarrow> read_le buf (b + 8) 4;
        rptSeq \<leftarrow> read_le buf (b + 12) 4;
        transactTime \<leftarrow> read_le buf (b + 16) 8;
        lastUpdateTime \<leftarrow> read_le buf (b + 24) 8;
        tradeDate \<leftarrow> read_le buf (b + 32) 2;
        mdSecurityTradingStatus \<leftarrow> read_le buf (b + 34) 1;
        highLimitPrice \<leftarrow> read_le buf (b + 35) 8;
        lowLimitPrice \<leftarrow> read_le buf (b + 43) 8;
        maxPriceVariation \<leftarrow> read_le buf (b + 51) 8;
        (entries, pos) \<leftarrow> read_group SnapshotFullRefresh52_Entry_decode buf (b + 59);
        Some \<lparr>SnapshotFullRefresh52.lastMsgSeqNumProcessed = lastMsgSeqNumProcessed,
          SnapshotFullRefresh52.totNumReports = totNumReports,
          SnapshotFullRefresh52.securityID = securityID,
          SnapshotFullRefresh52.rptSeq = rptSeq,
          SnapshotFullRefresh52.transactTime = transactTime,
          SnapshotFullRefresh52.lastUpdateTime = lastUpdateTime,
          SnapshotFullRefresh52.tradeDate = tradeDate,
          SnapshotFullRefresh52.mdSecurityTradingStatus = mdSecurityTradingStatus,
          SnapshotFullRefresh52.highLimitPrice = highLimitPrice,
          SnapshotFullRefresh52.lowLimitPrice = lowLimitPrice,
          SnapshotFullRefresh52.maxPriceVariation = maxPriceVariation,
          SnapshotFullRefresh52.entries = entries\<rparr>
     })"

definition SnapshotFullRefresh52_wf :: "SnapshotFullRefresh52 \<Rightarrow> bool" where
  "SnapshotFullRefresh52_wf m \<longleftrightarrow> length (SnapshotFullRefresh52.entries m) < 256"

interpretation snapshotFullRefresh52: sbe_message MDP3_SCHEMA_ID MDP3_VERSION SnapshotFullRefresh52_BLOCK_LENGTH SnapshotFullRefresh52_TEMPLATE_ID
  SnapshotFullRefresh52_fields SnapshotFullRefresh52_size SnapshotFullRefresh52_encode SnapshotFullRefresh52_decode SnapshotFullRefresh52_wf
proof
  fix m :: SnapshotFullRefresh52 and buf off
  show "SnapshotFullRefresh52_encode m buf off = sbe_encode MDP3_SCHEMA_ID MDP3_VERSION SnapshotFullRefresh52_BLOCK_LENGTH
      SnapshotFullRefresh52_TEMPLATE_ID (SnapshotFullRefresh52_fields m) (SnapshotFullRefresh52_size m) buf off"
    by (simp add: SnapshotFullRefresh52_encode_def)
  show "packed 0 (SnapshotFullRefresh52_fields m) \<and> length (body_of (SnapshotFullRefresh52_fields m)) = SnapshotFullRefresh52_size m"
    using snapshotFullRefresh52_Entry.group_packed [of 59 "SnapshotFullRefresh52.entries m"]
    by (simp add: SnapshotFullRefresh52_fields_def SnapshotFullRefresh52_size_def SnapshotFullRefresh52_BLOCK_LENGTH_def packed_append)
  assume wf: "SnapshotFullRefresh52_wf m" and r: "reads_fields buf (off + 8) (SnapshotFullRefresh52_fields m)"
  show "SnapshotFullRefresh52_decode buf off = Some m"
  proof -
    have g1: "read_group SnapshotFullRefresh52_Entry_decode buf (off + 8 + 59) =
        Some (SnapshotFullRefresh52.entries m, off + 8 + (59 + group_size SnapshotFullRefresh52_Entry_BLOCK_LENGTH (SnapshotFullRefresh52.entries m)))"
      using snapshotFullRefresh52_Entry.group_decode [of buf "off + 8" 59 "SnapshotFullRefresh52.entries m"] wf r
      by (simp add: SnapshotFullRefresh52_wf_def SnapshotFullRefresh52_fields_def group_size_def GroupSize_SIZE_def)
    have "reads_fields buf (off + 8) [(0, le 4 (SnapshotFullRefresh52.lastMsgSeqNumProcessed m)), (4, le 4 (SnapshotFullRefresh52.totNumReports m)), (8, le 4 (SnapshotFullRefresh52.securityID m)), (12, le 4 (SnapshotFullRefresh52.rptSeq m)), (16, le 8 (SnapshotFullRefresh52.transactTime m)), (24, le 8 (SnapshotFullRefresh52.lastUpdateTime m)), (32, le 2 (SnapshotFullRefresh52.tradeDate m)), (34, le 1 (SnapshotFullRefresh52.mdSecurityTradingStatus m)), (35, le 8 (SnapshotFullRefresh52.highLimitPrice m)), (43, le 8 (SnapshotFullRefresh52.lowLimitPrice m)), (51, le 8 (SnapshotFullRefresh52.maxPriceVariation m))]"
      using r by (simp add: SnapshotFullRefresh52_fields_def)
    with g1 show ?thesis
      by (cases m) (simp add: SnapshotFullRefresh52_decode_def sbe_decode_simps)
  qed
qed


end
