(* ===== verification/Mdp3_Flat.thy ===== *)
theory Mdp3_Flat
  imports Sbe_Framing
begin

text \<open>
  \<^verbatim>\<open>src/sbe/mdp3_messages.h\<close>, the messages without repeating groups (templates 30 and 54), in the same
  form as the iLink 3 messages.
\<close>

subsection \<open>SecurityStatus30\<close>

record SecurityStatus30 =
  transactTime :: "64 word"
  securityGroup :: bytes
  asset :: bytes
  securityID :: "32 word"
  tradeDate :: "16 word"
  matchEventIndicator :: "8 word"
  securityTradingStatus :: "8 word"
  haltReason :: "8 word"
  securityTradingEvent :: "8 word"

definition SecurityStatus30_default :: SecurityStatus30 where
  "SecurityStatus30_default = \<lparr>SecurityStatus30.transactTime = 0,
     SecurityStatus30.securityGroup = replicate 6 0,
     SecurityStatus30.asset = replicate 6 0,
     SecurityStatus30.securityID = 0,
     SecurityStatus30.tradeDate = 0,
     SecurityStatus30.matchEventIndicator = 0,
     SecurityStatus30.securityTradingStatus = 0,
     SecurityStatus30.haltReason = 0,
     SecurityStatus30.securityTradingEvent = 0\<rparr>"

definition SecurityStatus30_TEMPLATE_ID :: "16 word" where "SecurityStatus30_TEMPLATE_ID = 30"
definition SecurityStatus30_BLOCK_LENGTH :: "16 word" where "SecurityStatus30_BLOCK_LENGTH = 30"

definition SecurityStatus30_fields :: "SecurityStatus30 \<Rightarrow> (nat \<times> bytes) list" where
  "SecurityStatus30_fields m = [
     (0, le 8 (SecurityStatus30.transactTime m)),
     (8, SecurityStatus30.securityGroup m),
     (14, SecurityStatus30.asset m),
     (20, le 4 (SecurityStatus30.securityID m)),
     (24, le 2 (SecurityStatus30.tradeDate m)),
     (26, le 1 (SecurityStatus30.matchEventIndicator m)),
     (27, le 1 (SecurityStatus30.securityTradingStatus m)),
     (28, le 1 (SecurityStatus30.haltReason m)),
     (29, le 1 (SecurityStatus30.securityTradingEvent m))]"

definition SecurityStatus30_encode :: "SecurityStatus30 \<Rightarrow> bytes \<Rightarrow> nat \<Rightarrow> (bytes \<times> nat) option" where
  "SecurityStatus30_encode m buf offset =
     mdp3_encode SecurityStatus30_BLOCK_LENGTH SecurityStatus30_TEMPLATE_ID (SecurityStatus30_fields m) buf offset"

definition SecurityStatus30_decode :: "bytes \<Rightarrow> nat \<Rightarrow> SecurityStatus30 option" where
  "SecurityStatus30_decode buf offset =
     (let b = offset + MessageHeader_SIZE in do {
        transactTime \<leftarrow> read_le buf (b + 0) 8;
        securityGroup \<leftarrow> read_bytes buf (b + 8) 6;
        asset \<leftarrow> read_bytes buf (b + 14) 6;
        securityID \<leftarrow> read_le buf (b + 20) 4;
        tradeDate \<leftarrow> read_le buf (b + 24) 2;
        matchEventIndicator \<leftarrow> read_le buf (b + 26) 1;
        securityTradingStatus \<leftarrow> read_le buf (b + 27) 1;
        haltReason \<leftarrow> read_le buf (b + 28) 1;
        securityTradingEvent \<leftarrow> read_le buf (b + 29) 1;
        Some \<lparr>SecurityStatus30.transactTime = transactTime,
          SecurityStatus30.securityGroup = securityGroup,
          SecurityStatus30.asset = asset,
          SecurityStatus30.securityID = securityID,
          SecurityStatus30.tradeDate = tradeDate,
          SecurityStatus30.matchEventIndicator = matchEventIndicator,
          SecurityStatus30.securityTradingStatus = securityTradingStatus,
          SecurityStatus30.haltReason = haltReason,
          SecurityStatus30.securityTradingEvent = securityTradingEvent\<rparr>
     })"

definition SecurityStatus30_wf :: "SecurityStatus30 \<Rightarrow> bool" where
  "SecurityStatus30_wf m \<longleftrightarrow> length (SecurityStatus30.securityGroup m) = 6 \<and>
     length (SecurityStatus30.asset m) = 6"

interpretation securityStatus30: sbe_message MDP3_SCHEMA_ID MDP3_VERSION SecurityStatus30_BLOCK_LENGTH SecurityStatus30_TEMPLATE_ID
  SecurityStatus30_fields "\<lambda>_. unat SecurityStatus30_BLOCK_LENGTH" SecurityStatus30_encode SecurityStatus30_decode SecurityStatus30_wf
proof
  fix m buf off
  show "SecurityStatus30_encode m buf off = sbe_encode MDP3_SCHEMA_ID MDP3_VERSION SecurityStatus30_BLOCK_LENGTH
      SecurityStatus30_TEMPLATE_ID (SecurityStatus30_fields m) (unat SecurityStatus30_BLOCK_LENGTH) buf off"
    by (simp add: SecurityStatus30_encode_def mdp3_encode_def)
  show "SecurityStatus30_wf m \<Longrightarrow> packed 0 (SecurityStatus30_fields m) \<and> length (body_of (SecurityStatus30_fields m)) = unat SecurityStatus30_BLOCK_LENGTH"
    by (simp add: SecurityStatus30_wf_def SecurityStatus30_fields_def SecurityStatus30_BLOCK_LENGTH_def)
  show "SecurityStatus30_wf m \<Longrightarrow> reads_fields buf (off + 8) (SecurityStatus30_fields m) \<Longrightarrow> SecurityStatus30_decode buf off = Some m"
    by (cases m) (simp add: SecurityStatus30_wf_def SecurityStatus30_fields_def SecurityStatus30_decode_def sbe_decode_simps)
qed


subsection \<open>MDInstrumentDefinitionFuture54\<close>

record MDInstrumentDefinitionFuture54 =
  matchEventIndicator :: "8 word"
  totNumReports :: "32 word"
  securityUpdateAction :: "8 word"
  lastUpdateTime :: "64 word"
  mdSecurityTradingStatus :: "8 word"
  applID :: "16 word"
  marketSegmentID :: "8 word"
  underlyingProduct :: "8 word"
  securityExchange :: bytes
  securityGroup :: bytes
  asset :: bytes
  symbol :: bytes
  securityID :: "32 word"
  securityType :: bytes
  cfiCode :: bytes
  maturityMonthYear :: bytes
  currency :: bytes
  settlCurrency :: bytes
  matchAlgorithm :: "8 word"
  minTradeVol :: "32 word"
  maxTradeVol :: "32 word"
  minPriceIncrement :: "64 word"
  displayFactor :: "64 word"
  mainFraction :: "8 word"
  subFraction :: "8 word"
  priceDisplayFormat :: "8 word"
  unitOfMeasure :: bytes
  unitOfMeasureQty :: "64 word"
  tradingReferencePrice :: "64 word"
  settlPriceType :: "8 word"
  openInterestQty :: "32 word"
  clearedVolume :: "32 word"
  highLimitPrice :: "64 word"
  lowLimitPrice :: "64 word"
  maxPriceVariation :: "64 word"
  decayQuantity :: "32 word"
  decayStartDate :: "16 word"
  originalContractSize :: "32 word"
  contractMultiplier :: "32 word"
  contractMultiplierUnit :: "8 word"
  flowScheduleType :: "8 word"
  minPriceIncrementAmount :: "64 word"
  userDefinedInstrument :: "8 word"
  tradingReferenceDate :: "16 word"

definition MDInstrumentDefinitionFuture54_default :: MDInstrumentDefinitionFuture54 where
  "MDInstrumentDefinitionFuture54_default = \<lparr>MDInstrumentDefinitionFuture54.matchEventIndicator = 0,
     MDInstrumentDefinitionFuture54.totNumReports = 0,
     MDInstrumentDefinitionFuture54.securityUpdateAction = 0x41,
     MDInstrumentDefinitionFuture54.lastUpdateTime = 0,
     MDInstrumentDefinitionFuture54.mdSecurityTradingStatus = 0,
     MDInstrumentDefinitionFuture54.applID = 0,
     MDInstrumentDefinitionFuture54.marketSegmentID = 0,
     MDInstrumentDefinitionFuture54.underlyingProduct = 0,
     MDInstrumentDefinitionFuture54.securityExchange = replicate 4 0,
     MDInstrumentDefinitionFuture54.securityGroup = replicate 6 0,
     MDInstrumentDefinitionFuture54.asset = replicate 6 0,
     MDInstrumentDefinitionFuture54.symbol = replicate 20 0,
     MDInstrumentDefinitionFuture54.securityID = 0,
     MDInstrumentDefinitionFuture54.securityType = replicate 6 0,
     MDInstrumentDefinitionFuture54.cfiCode = replicate 6 0,
     MDInstrumentDefinitionFuture54.maturityMonthYear = replicate 5 0,
     MDInstrumentDefinitionFuture54.currency = replicate 3 0,
     MDInstrumentDefinitionFuture54.settlCurrency = replicate 3 0,
     MDInstrumentDefinitionFuture54.matchAlgorithm = 0x46,
     MDInstrumentDefinitionFuture54.minTradeVol = 1,
     MDInstrumentDefinitionFuture54.maxTradeVol = 10000,
     MDInstrumentDefinitionFuture54.minPriceIncrement = 0,
     MDInstrumentDefinitionFuture54.displayFactor = 0,
     MDInstrumentDefinitionFuture54.mainFraction = 0,
     MDInstrumentDefinitionFuture54.subFraction = 0,
     MDInstrumentDefinitionFuture54.priceDisplayFormat = 0,
     MDInstrumentDefinitionFuture54.unitOfMeasure = replicate 30 0,
     MDInstrumentDefinitionFuture54.unitOfMeasureQty = 0,
     MDInstrumentDefinitionFuture54.tradingReferencePrice = 0,
     MDInstrumentDefinitionFuture54.settlPriceType = 0,
     MDInstrumentDefinitionFuture54.openInterestQty = 0,
     MDInstrumentDefinitionFuture54.clearedVolume = 0,
     MDInstrumentDefinitionFuture54.highLimitPrice = 0,
     MDInstrumentDefinitionFuture54.lowLimitPrice = 0,
     MDInstrumentDefinitionFuture54.maxPriceVariation = 0,
     MDInstrumentDefinitionFuture54.decayQuantity = 0,
     MDInstrumentDefinitionFuture54.decayStartDate = 0,
     MDInstrumentDefinitionFuture54.originalContractSize = 0,
     MDInstrumentDefinitionFuture54.contractMultiplier = 0,
     MDInstrumentDefinitionFuture54.contractMultiplierUnit = 0,
     MDInstrumentDefinitionFuture54.flowScheduleType = 0,
     MDInstrumentDefinitionFuture54.minPriceIncrementAmount = 0,
     MDInstrumentDefinitionFuture54.userDefinedInstrument = 0x4e,
     MDInstrumentDefinitionFuture54.tradingReferenceDate = 0\<rparr>"

definition MDInstrumentDefinitionFuture54_TEMPLATE_ID :: "16 word" where "MDInstrumentDefinitionFuture54_TEMPLATE_ID = 54"
definition MDInstrumentDefinitionFuture54_BLOCK_LENGTH :: "16 word" where "MDInstrumentDefinitionFuture54_BLOCK_LENGTH = 216"

definition MDInstrumentDefinitionFuture54_fields :: "MDInstrumentDefinitionFuture54 \<Rightarrow> (nat \<times> bytes) list" where
  "MDInstrumentDefinitionFuture54_fields m = [
     (0, le 1 (MDInstrumentDefinitionFuture54.matchEventIndicator m)),
     (1, le 4 (MDInstrumentDefinitionFuture54.totNumReports m)),
     (5, le 1 (MDInstrumentDefinitionFuture54.securityUpdateAction m)),
     (6, le 8 (MDInstrumentDefinitionFuture54.lastUpdateTime m)),
     (14, le 1 (MDInstrumentDefinitionFuture54.mdSecurityTradingStatus m)),
     (15, le 2 (MDInstrumentDefinitionFuture54.applID m)),
     (17, le 1 (MDInstrumentDefinitionFuture54.marketSegmentID m)),
     (18, le 1 (MDInstrumentDefinitionFuture54.underlyingProduct m)),
     (19, MDInstrumentDefinitionFuture54.securityExchange m),
     (23, MDInstrumentDefinitionFuture54.securityGroup m),
     (29, MDInstrumentDefinitionFuture54.asset m),
     (35, MDInstrumentDefinitionFuture54.symbol m),
     (55, le 4 (MDInstrumentDefinitionFuture54.securityID m)),
     (59, MDInstrumentDefinitionFuture54.securityType m),
     (65, MDInstrumentDefinitionFuture54.cfiCode m),
     (71, MDInstrumentDefinitionFuture54.maturityMonthYear m),
     (76, MDInstrumentDefinitionFuture54.currency m),
     (79, MDInstrumentDefinitionFuture54.settlCurrency m),
     (82, le 1 (MDInstrumentDefinitionFuture54.matchAlgorithm m)),
     (83, le 4 (MDInstrumentDefinitionFuture54.minTradeVol m)),
     (87, le 4 (MDInstrumentDefinitionFuture54.maxTradeVol m)),
     (91, le 8 (MDInstrumentDefinitionFuture54.minPriceIncrement m)),
     (99, le 8 (MDInstrumentDefinitionFuture54.displayFactor m)),
     (107, le 1 (MDInstrumentDefinitionFuture54.mainFraction m)),
     (108, le 1 (MDInstrumentDefinitionFuture54.subFraction m)),
     (109, le 1 (MDInstrumentDefinitionFuture54.priceDisplayFormat m)),
     (110, MDInstrumentDefinitionFuture54.unitOfMeasure m),
     (140, le 8 (MDInstrumentDefinitionFuture54.unitOfMeasureQty m)),
     (148, le 8 (MDInstrumentDefinitionFuture54.tradingReferencePrice m)),
     (156, le 1 (MDInstrumentDefinitionFuture54.settlPriceType m)),
     (157, le 4 (MDInstrumentDefinitionFuture54.openInterestQty m)),
     (161, le 4 (MDInstrumentDefinitionFuture54.clearedVolume m)),
     (165, le 8 (MDInstrumentDefinitionFuture54.highLimitPrice m)),
     (173, le 8 (MDInstrumentDefinitionFuture54.lowLimitPrice m)),
     (181, le 8 (MDInstrumentDefinitionFuture54.maxPriceVariation m)),
     (189, le 4 (MDInstrumentDefinitionFuture54.decayQuantity m)),
     (193, le 2 (MDInstrumentDefinitionFuture54.decayStartDate m)),
     (195, le 4 (MDInstrumentDefinitionFuture54.originalContractSize m)),
     (199, le 4 (MDInstrumentDefinitionFuture54.contractMultiplier m)),
     (203, le 1 (MDInstrumentDefinitionFuture54.contractMultiplierUnit m)),
     (204, le 1 (MDInstrumentDefinitionFuture54.flowScheduleType m)),
     (205, le 8 (MDInstrumentDefinitionFuture54.minPriceIncrementAmount m)),
     (213, le 1 (MDInstrumentDefinitionFuture54.userDefinedInstrument m)),
     (214, le 2 (MDInstrumentDefinitionFuture54.tradingReferenceDate m))]"

definition MDInstrumentDefinitionFuture54_encode :: "MDInstrumentDefinitionFuture54 \<Rightarrow> bytes \<Rightarrow> nat \<Rightarrow> (bytes \<times> nat) option" where
  "MDInstrumentDefinitionFuture54_encode m buf offset =
     mdp3_encode MDInstrumentDefinitionFuture54_BLOCK_LENGTH MDInstrumentDefinitionFuture54_TEMPLATE_ID (MDInstrumentDefinitionFuture54_fields m) buf offset"

definition MDInstrumentDefinitionFuture54_decode :: "bytes \<Rightarrow> nat \<Rightarrow> MDInstrumentDefinitionFuture54 option" where
  "MDInstrumentDefinitionFuture54_decode buf offset =
     (let b = offset + MessageHeader_SIZE in do {
        matchEventIndicator \<leftarrow> read_le buf (b + 0) 1;
        totNumReports \<leftarrow> read_le buf (b + 1) 4;
        securityUpdateAction \<leftarrow> read_le buf (b + 5) 1;
        lastUpdateTime \<leftarrow> read_le buf (b + 6) 8;
        mdSecurityTradingStatus \<leftarrow> read_le buf (b + 14) 1;
        applID \<leftarrow> read_le buf (b + 15) 2;
        marketSegmentID \<leftarrow> read_le buf (b + 17) 1;
        underlyingProduct \<leftarrow> read_le buf (b + 18) 1;
        securityExchange \<leftarrow> read_bytes buf (b + 19) 4;
        securityGroup \<leftarrow> read_bytes buf (b + 23) 6;
        asset \<leftarrow> read_bytes buf (b + 29) 6;
        symbol \<leftarrow> read_bytes buf (b + 35) 20;
        securityID \<leftarrow> read_le buf (b + 55) 4;
        securityType \<leftarrow> read_bytes buf (b + 59) 6;
        cfiCode \<leftarrow> read_bytes buf (b + 65) 6;
        maturityMonthYear \<leftarrow> read_bytes buf (b + 71) 5;
        currency \<leftarrow> read_bytes buf (b + 76) 3;
        settlCurrency \<leftarrow> read_bytes buf (b + 79) 3;
        matchAlgorithm \<leftarrow> read_le buf (b + 82) 1;
        minTradeVol \<leftarrow> read_le buf (b + 83) 4;
        maxTradeVol \<leftarrow> read_le buf (b + 87) 4;
        minPriceIncrement \<leftarrow> read_le buf (b + 91) 8;
        displayFactor \<leftarrow> read_le buf (b + 99) 8;
        mainFraction \<leftarrow> read_le buf (b + 107) 1;
        subFraction \<leftarrow> read_le buf (b + 108) 1;
        priceDisplayFormat \<leftarrow> read_le buf (b + 109) 1;
        unitOfMeasure \<leftarrow> read_bytes buf (b + 110) 30;
        unitOfMeasureQty \<leftarrow> read_le buf (b + 140) 8;
        tradingReferencePrice \<leftarrow> read_le buf (b + 148) 8;
        settlPriceType \<leftarrow> read_le buf (b + 156) 1;
        openInterestQty \<leftarrow> read_le buf (b + 157) 4;
        clearedVolume \<leftarrow> read_le buf (b + 161) 4;
        highLimitPrice \<leftarrow> read_le buf (b + 165) 8;
        lowLimitPrice \<leftarrow> read_le buf (b + 173) 8;
        maxPriceVariation \<leftarrow> read_le buf (b + 181) 8;
        decayQuantity \<leftarrow> read_le buf (b + 189) 4;
        decayStartDate \<leftarrow> read_le buf (b + 193) 2;
        originalContractSize \<leftarrow> read_le buf (b + 195) 4;
        contractMultiplier \<leftarrow> read_le buf (b + 199) 4;
        contractMultiplierUnit \<leftarrow> read_le buf (b + 203) 1;
        flowScheduleType \<leftarrow> read_le buf (b + 204) 1;
        minPriceIncrementAmount \<leftarrow> read_le buf (b + 205) 8;
        userDefinedInstrument \<leftarrow> read_le buf (b + 213) 1;
        tradingReferenceDate \<leftarrow> read_le buf (b + 214) 2;
        Some \<lparr>MDInstrumentDefinitionFuture54.matchEventIndicator = matchEventIndicator,
          MDInstrumentDefinitionFuture54.totNumReports = totNumReports,
          MDInstrumentDefinitionFuture54.securityUpdateAction = securityUpdateAction,
          MDInstrumentDefinitionFuture54.lastUpdateTime = lastUpdateTime,
          MDInstrumentDefinitionFuture54.mdSecurityTradingStatus = mdSecurityTradingStatus,
          MDInstrumentDefinitionFuture54.applID = applID,
          MDInstrumentDefinitionFuture54.marketSegmentID = marketSegmentID,
          MDInstrumentDefinitionFuture54.underlyingProduct = underlyingProduct,
          MDInstrumentDefinitionFuture54.securityExchange = securityExchange,
          MDInstrumentDefinitionFuture54.securityGroup = securityGroup,
          MDInstrumentDefinitionFuture54.asset = asset,
          MDInstrumentDefinitionFuture54.symbol = symbol,
          MDInstrumentDefinitionFuture54.securityID = securityID,
          MDInstrumentDefinitionFuture54.securityType = securityType,
          MDInstrumentDefinitionFuture54.cfiCode = cfiCode,
          MDInstrumentDefinitionFuture54.maturityMonthYear = maturityMonthYear,
          MDInstrumentDefinitionFuture54.currency = currency,
          MDInstrumentDefinitionFuture54.settlCurrency = settlCurrency,
          MDInstrumentDefinitionFuture54.matchAlgorithm = matchAlgorithm,
          MDInstrumentDefinitionFuture54.minTradeVol = minTradeVol,
          MDInstrumentDefinitionFuture54.maxTradeVol = maxTradeVol,
          MDInstrumentDefinitionFuture54.minPriceIncrement = minPriceIncrement,
          MDInstrumentDefinitionFuture54.displayFactor = displayFactor,
          MDInstrumentDefinitionFuture54.mainFraction = mainFraction,
          MDInstrumentDefinitionFuture54.subFraction = subFraction,
          MDInstrumentDefinitionFuture54.priceDisplayFormat = priceDisplayFormat,
          MDInstrumentDefinitionFuture54.unitOfMeasure = unitOfMeasure,
          MDInstrumentDefinitionFuture54.unitOfMeasureQty = unitOfMeasureQty,
          MDInstrumentDefinitionFuture54.tradingReferencePrice = tradingReferencePrice,
          MDInstrumentDefinitionFuture54.settlPriceType = settlPriceType,
          MDInstrumentDefinitionFuture54.openInterestQty = openInterestQty,
          MDInstrumentDefinitionFuture54.clearedVolume = clearedVolume,
          MDInstrumentDefinitionFuture54.highLimitPrice = highLimitPrice,
          MDInstrumentDefinitionFuture54.lowLimitPrice = lowLimitPrice,
          MDInstrumentDefinitionFuture54.maxPriceVariation = maxPriceVariation,
          MDInstrumentDefinitionFuture54.decayQuantity = decayQuantity,
          MDInstrumentDefinitionFuture54.decayStartDate = decayStartDate,
          MDInstrumentDefinitionFuture54.originalContractSize = originalContractSize,
          MDInstrumentDefinitionFuture54.contractMultiplier = contractMultiplier,
          MDInstrumentDefinitionFuture54.contractMultiplierUnit = contractMultiplierUnit,
          MDInstrumentDefinitionFuture54.flowScheduleType = flowScheduleType,
          MDInstrumentDefinitionFuture54.minPriceIncrementAmount = minPriceIncrementAmount,
          MDInstrumentDefinitionFuture54.userDefinedInstrument = userDefinedInstrument,
          MDInstrumentDefinitionFuture54.tradingReferenceDate = tradingReferenceDate\<rparr>
     })"

definition MDInstrumentDefinitionFuture54_wf :: "MDInstrumentDefinitionFuture54 \<Rightarrow> bool" where
  "MDInstrumentDefinitionFuture54_wf m \<longleftrightarrow> length (MDInstrumentDefinitionFuture54.securityExchange m) = 4 \<and>
     length (MDInstrumentDefinitionFuture54.securityGroup m) = 6 \<and>
     length (MDInstrumentDefinitionFuture54.asset m) = 6 \<and>
     length (MDInstrumentDefinitionFuture54.symbol m) = 20 \<and>
     length (MDInstrumentDefinitionFuture54.securityType m) = 6 \<and>
     length (MDInstrumentDefinitionFuture54.cfiCode m) = 6 \<and>
     length (MDInstrumentDefinitionFuture54.maturityMonthYear m) = 5 \<and>
     length (MDInstrumentDefinitionFuture54.currency m) = 3 \<and>
     length (MDInstrumentDefinitionFuture54.settlCurrency m) = 3 \<and>
     length (MDInstrumentDefinitionFuture54.unitOfMeasure m) = 30"

interpretation mDInstrumentDefinitionFuture54: sbe_message MDP3_SCHEMA_ID MDP3_VERSION MDInstrumentDefinitionFuture54_BLOCK_LENGTH MDInstrumentDefinitionFuture54_TEMPLATE_ID
  MDInstrumentDefinitionFuture54_fields "\<lambda>_. unat MDInstrumentDefinitionFuture54_BLOCK_LENGTH" MDInstrumentDefinitionFuture54_encode MDInstrumentDefinitionFuture54_decode MDInstrumentDefinitionFuture54_wf
proof
  fix m buf off
  show "MDInstrumentDefinitionFuture54_encode m buf off = sbe_encode MDP3_SCHEMA_ID MDP3_VERSION MDInstrumentDefinitionFuture54_BLOCK_LENGTH
      MDInstrumentDefinitionFuture54_TEMPLATE_ID (MDInstrumentDefinitionFuture54_fields m) (unat MDInstrumentDefinitionFuture54_BLOCK_LENGTH) buf off"
    by (simp add: MDInstrumentDefinitionFuture54_encode_def mdp3_encode_def)
  show "MDInstrumentDefinitionFuture54_wf m \<Longrightarrow> packed 0 (MDInstrumentDefinitionFuture54_fields m) \<and> length (body_of (MDInstrumentDefinitionFuture54_fields m)) = unat MDInstrumentDefinitionFuture54_BLOCK_LENGTH"
    by (simp add: MDInstrumentDefinitionFuture54_wf_def MDInstrumentDefinitionFuture54_fields_def MDInstrumentDefinitionFuture54_BLOCK_LENGTH_def)
  show "MDInstrumentDefinitionFuture54_wf m \<Longrightarrow> reads_fields buf (off + 8) (MDInstrumentDefinitionFuture54_fields m) \<Longrightarrow> MDInstrumentDefinitionFuture54_decode buf off = Some m"
    by (cases m) (simp add: MDInstrumentDefinitionFuture54_wf_def MDInstrumentDefinitionFuture54_fields_def MDInstrumentDefinitionFuture54_decode_def sbe_decode_simps)
qed


end
