(* ===== verification/Md_Builders.thy ===== *)
theory Md_Builders
  imports Exec_Report_Builder Instruments Mdp3_Groups Mdp3_Flat
begin

text \<open>
  The MDP 3.0 message builders: \<^verbatim>\<open>src/market_data/incremental_builder.cpp\<close>, \<^verbatim>\<open>snapshot_builder.cpp\<close> and
  \<^verbatim>\<open>instrument_def_builder.cpp\<close>.  A builder fills a buffer of the message's encoded length; \<open>None\<close> would be a
  write past its end, or an exception of \<^verbatim>\<open>std::stoi\<close>.
\<close>

section \<open>Wire values\<close>

fun MDUpdateAction_code :: "MDUpdateAction \<Rightarrow> 8 word" where
  "MDUpdateAction_code MD_New = 0"
| "MDUpdateAction_code MD_Change = 1"
| "MDUpdateAction_code MD_Delete = 2"
| "MDUpdateAction_code MD_DeleteThru = 3"
| "MDUpdateAction_code MD_DeleteFrom = 4"
| "MDUpdateAction_code MD_Overlay = 5"

fun SecurityTradingStatus_code :: "SecurityTradingStatus \<Rightarrow> 8 word" where
  "SecurityTradingStatus_code PreOpen = 2"
| "SecurityTradingStatus_code Open = 17"
| "SecurityTradingStatus_code Halt = 18"
| "SecurityTradingStatus_code Close = 21"

text \<open>\<^verbatim>\<open>MDEntryType::Bid\<close> and \<^verbatim>\<open>MDEntryType::Offer\<close> are the characters 0 and 1.\<close>

definition MDEntryType_Bid :: "8 word" where "MDEntryType_Bid = 48"
definition MDEntryType_Offer :: "8 word" where "MDEntryType_Offer = 49"

definition LastTradeMsg :: "8 word" where "LastTradeMsg = 0x01"
definition LastVolumeMsg :: "8 word" where "LastVolumeMsg = 0x02"
definition LastQuoteMsg :: "8 word" where "LastQuoteMsg = 0x04"
definition EndOfEvent :: "8 word" where "EndOfEvent = 0x80"

definition to_buffer :: "(bytes \<Rightarrow> nat \<Rightarrow> (bytes \<times> nat) option) \<Rightarrow> nat \<Rightarrow> bytes option" where
  "to_buffer encode encodedLength = map_option fst (encode (replicate encodedLength 0) 0)"

section \<open>Incremental refresh\<close>

record IncrementalBuilder =
  rpt_seqs :: "SecurityId \<rightharpoonup> 32 word"

definition IncrementalBuilder_new :: IncrementalBuilder where
  "IncrementalBuilder_new = \<lparr>rpt_seqs = Map.empty\<rparr>"

definition getNextRptSeq :: "SecurityId \<Rightarrow> IncrementalBuilder \<Rightarrow> 32 word \<times> IncrementalBuilder" where
  "getNextRptSeq sec_id ib =
     (let n = (case rpt_seqs ib sec_id of None \<Rightarrow> 0 | Some n \<Rightarrow> n) + 1
      in (n, ib\<lparr>rpt_seqs := (rpt_seqs ib)(sec_id \<mapsto> n)\<rparr>))"

definition book_entry :: "BookUpdate \<Rightarrow> 32 word \<Rightarrow> MDIncrementalRefreshBook46_Entry" where
  "book_entry bu sn =
     \<lparr>MDIncrementalRefreshBook46_Entry.mdEntryPx = of_int (mantissa (bu_price bu)),
      MDIncrementalRefreshBook46_Entry.mdEntrySize = of_int (bu_new_qty bu),
      MDIncrementalRefreshBook46_Entry.securityID = of_int (bu_security_id bu),
      MDIncrementalRefreshBook46_Entry.rptSeq = sn,
      MDIncrementalRefreshBook46_Entry.numberOfOrders = of_int (bu_new_order_count bu),
      MDIncrementalRefreshBook46_Entry.mdPriceLevel = of_nat (bu_price_level_index bu),
      MDIncrementalRefreshBook46_Entry.mdUpdateAction = MDUpdateAction_code (bu_update_action bu),
      MDIncrementalRefreshBook46_Entry.mdEntryType = (if bu_side bu = Buy then MDEntryType_Bid else MDEntryType_Offer)\<rparr>"

fun book_entries :: "EngineEvent list \<Rightarrow> IncrementalBuilder \<Rightarrow> IncrementalBuilder \<times> MDIncrementalRefreshBook46_Entry list" where
  "book_entries [] ib = (ib, [])"
| "book_entries (EvBook bu # evs) ib =
     (let (sn, ib) = (if bu_rpt_seq bu \<noteq> 0 then (bu_rpt_seq bu, ib) else getNextRptSeq (bu_security_id bu) ib);
          (ib, es) = book_entries evs ib
      in (ib, book_entry bu sn # es))"
| "book_entries (_ # evs) ib = book_entries evs ib"

definition buildBookRefresh :: "EngineEvent list \<Rightarrow> Timestamp \<Rightarrow> IncrementalBuilder \<Rightarrow> (IncrementalBuilder \<times> bytes) option" where
  "buildBookRefresh book_updates transact_time ib =
     (let (ib, es) = book_entries book_updates ib;
          msg = \<lparr>MDIncrementalRefreshBook46.transactTime = transact_time,
                 MDIncrementalRefreshBook46.matchEventIndicator = or LastQuoteMsg EndOfEvent,
                 MDIncrementalRefreshBook46.entries = es\<rparr>
      in if es = [] then Some (ib, [])
         else map_option (Pair ib)
           (to_buffer (MDIncrementalRefreshBook46_encode msg) (MessageHeader_SIZE + MDIncrementalRefreshBook46_size msg)))"

definition trade_entry :: "OrderFilled \<Rightarrow> 32 word \<Rightarrow> MDIncrementalRefreshTradeSummary48_MDEntry" where
  "trade_entry f sn =
     \<lparr>MDIncrementalRefreshTradeSummary48_MDEntry.mdEntryPx = of_int (mantissa (trade_price f)),
      MDIncrementalRefreshTradeSummary48_MDEntry.mdEntrySize = of_int (trade_qty f),
      MDIncrementalRefreshTradeSummary48_MDEntry.securityID = of_int (fill_security_id f),
      MDIncrementalRefreshTradeSummary48_MDEntry.rptSeq = sn,
      MDIncrementalRefreshTradeSummary48_MDEntry.numberOfOrders = 2,
      MDIncrementalRefreshTradeSummary48_MDEntry.aggressorSide = Side_code (aggressor_side f),
      MDIncrementalRefreshTradeSummary48_MDEntry.mdUpdateAction = MDUpdateAction_code MD_New\<rparr>"

definition order_entries :: "OrderFilled \<Rightarrow> MDIncrementalRefreshTradeSummary48_OrderIDEntry list" where
  "order_entries f =
     [\<lparr>MDIncrementalRefreshTradeSummary48_OrderIDEntry.orderID = maker_order_id f,
       MDIncrementalRefreshTradeSummary48_OrderIDEntry.lastQty = of_int (trade_qty f)\<rparr>,
      \<lparr>MDIncrementalRefreshTradeSummary48_OrderIDEntry.orderID = taker_order_id f,
       MDIncrementalRefreshTradeSummary48_OrderIDEntry.lastQty = of_int (trade_qty f)\<rparr>]"

fun trade_entries :: "EngineEvent list \<Rightarrow> IncrementalBuilder \<Rightarrow> IncrementalBuilder \<times>
    MDIncrementalRefreshTradeSummary48_MDEntry list \<times> MDIncrementalRefreshTradeSummary48_OrderIDEntry list" where
  "trade_entries [] ib = (ib, [], [])"
| "trade_entries (EvFilled f # evs) ib =
     (let (sn, ib) = getNextRptSeq (fill_security_id f) ib; (ib, es, os) = trade_entries evs ib
      in (ib, trade_entry f sn # es, order_entries f @ os))"
| "trade_entries (_ # evs) ib = trade_entries evs ib"

definition buildTradeSummary :: "EngineEvent list \<Rightarrow> Timestamp \<Rightarrow> IncrementalBuilder \<Rightarrow> (IncrementalBuilder \<times> bytes) option" where
  "buildTradeSummary trade_events transact_time ib =
     (let (ib, es, os) = trade_entries trade_events ib;
          msg = \<lparr>MDIncrementalRefreshTradeSummary48.transactTime = transact_time,
                 MDIncrementalRefreshTradeSummary48.matchEventIndicator = or (or LastTradeMsg LastVolumeMsg) EndOfEvent,
                 MDIncrementalRefreshTradeSummary48.mdEntries = es,
                 MDIncrementalRefreshTradeSummary48.orderIDEntries = os\<rparr>
      in if es = [] then Some (ib, [])
         else map_option (Pair ib)
           (to_buffer (MDIncrementalRefreshTradeSummary48_encode msg) (MessageHeader_SIZE + MDIncrementalRefreshTradeSummary48_size msg)))"

definition buildIncrementalPacket :: "EngineEvent list \<Rightarrow> Timestamp \<Rightarrow> IncrementalBuilder \<Rightarrow> (IncrementalBuilder \<times> bytes) option" where
  "buildIncrementalPacket evs transact_time ib = do {
     let book_updates = filter (\<lambda>ev. update_of ev \<noteq> None) evs;
     let trades = filter (\<lambda>ev. update_of ev = None \<and> fill_of ev \<noteq> None) evs;
     (ib, book_msg) \<leftarrow> buildBookRefresh book_updates transact_time ib;
     (ib, trade_msg) \<leftarrow> buildTradeSummary trades transact_time ib;
     Some (ib, book_msg @ trade_msg)
   }"

section \<open>Snapshots\<close>

fun snapshot_levels :: "8 word \<Rightarrow> nat \<Rightarrow> (Price \<times> Quantity) list \<Rightarrow> int list \<Rightarrow> SnapshotFullRefresh52_Entry list" where
  "snapshot_levels ty i [] counts = []"
| "snapshot_levels ty i ((p, q) # ls) counts =
     \<lparr>SnapshotFullRefresh52_Entry.mdEntryPx = of_int (mantissa p),
      SnapshotFullRefresh52_Entry.mdEntrySize = of_int q,
      SnapshotFullRefresh52_Entry.numberOfOrders = (if i < length counts then of_int (counts ! i) else 0),
      SnapshotFullRefresh52_Entry.mdPriceLevel = of_nat (i + 1),
      SnapshotFullRefresh52_Entry.mdEntryType = ty\<rparr> # snapshot_levels ty (Suc i) ls counts"

definition buildSnapshot ::
  "SecurityId \<Rightarrow> 32 word \<Rightarrow> 32 word \<Rightarrow> (Price \<times> Quantity) list \<Rightarrow> (Price \<times> Quantity) list \<Rightarrow> int list \<Rightarrow> int list \<Rightarrow>
   32 word \<Rightarrow> Timestamp \<Rightarrow> bytes option" where
  "buildSnapshot security last_msg_seq_num_processed tot_num_reports bids asks bid_order_counts ask_order_counts
     rpt transact_time =
     (let msg = \<lparr>SnapshotFullRefresh52.lastMsgSeqNumProcessed = last_msg_seq_num_processed,
                 SnapshotFullRefresh52.totNumReports = tot_num_reports,
                 SnapshotFullRefresh52.securityID = of_int security,
                 SnapshotFullRefresh52.rptSeq = rpt,
                 SnapshotFullRefresh52.transactTime = transact_time,
                 SnapshotFullRefresh52.lastUpdateTime = transact_time,
                 SnapshotFullRefresh52.tradeDate = 0,
                 SnapshotFullRefresh52.mdSecurityTradingStatus = SecurityTradingStatus_code Open,
                 SnapshotFullRefresh52.highLimitPrice = of_int Price_NULL_VALUE,
                 SnapshotFullRefresh52.lowLimitPrice = of_int Price_NULL_VALUE,
                 SnapshotFullRefresh52.maxPriceVariation = of_int Price_NULL_VALUE,
                 SnapshotFullRefresh52.entries = snapshot_levels MDEntryType_Bid 0 bids bid_order_counts @
                   snapshot_levels MDEntryType_Offer 0 asks ask_order_counts\<rparr>
      in to_buffer (SnapshotFullRefresh52_encode msg) (MessageHeader_SIZE + SnapshotFullRefresh52_size msg))"

section \<open>Instrument definitions\<close>

text \<open>\<^verbatim>\<open>std::stoi\<close>: white space, a sign, digits; it throws when there are none or the value is no \<^verbatim>\<open>int\<close>.\<close>

definition isspace :: "char \<Rightarrow> bool" where
  "isspace c \<longleftrightarrow> of_char c = (32 :: nat) \<or> (9 :: nat) \<le> of_char c \<and> of_char c \<le> (13 :: nat)"

definition digits_value :: "string \<Rightarrow> int" where
  "digits_value ds = foldl (\<lambda>n c. 10 * n + (of_char c - 48)) 0 ds"

definition stoi :: "string \<Rightarrow> int option" where
  "stoi s =
     (let s = dropWhile isspace s;
          neg = (s \<noteq> [] \<and> hd s = CHR ''-'');
          s = (if s \<noteq> [] \<and> (hd s = CHR ''-'' \<or> hd s = CHR ''+'') then tl s else s);
          ds = takeWhile isdigit s;
          v = (if neg then - digits_value ds else digits_value ds)
      in if ds = [] \<or> v < - (2 ^ 31) \<or> 2 ^ 31 \<le> v then None else Some v)"

definition copyStr :: "nat \<Rightarrow> string \<Rightarrow> bytes" where
  "copyStr dst_len src =
     take (min (length src) dst_len) (bytes_of_string src) @ replicate (dst_len - min (length src) dst_len) 0"

definition maturity_bytes :: "string \<Rightarrow> bytes option" where
  "maturity_bytes mmy =
     (if length mmy \<ge> 6 then do {
        year \<leftarrow> stoi (take 4 mmy);
        month \<leftarrow> stoi (take 2 (drop 4 mmy));
        Some (le 2 (of_int year :: 16 word) @ [of_int month, 0, 0])
      } else Some (replicate 5 0))"

definition buildDefinition :: "Instrument \<Rightarrow> 32 word \<Rightarrow> bytes option" where
  "buildDefinition inst tot_num_reports = do {
     mmy \<leftarrow> maturity_bytes (maturity_month_year inst);
     let msg = MDInstrumentDefinitionFuture54_default
       \<lparr>MDInstrumentDefinitionFuture54.matchEventIndicator := EndOfEvent,
        MDInstrumentDefinitionFuture54.totNumReports := tot_num_reports,
        MDInstrumentDefinitionFuture54.securityUpdateAction := 0x41,
        MDInstrumentDefinitionFuture54.lastUpdateTime := 0,
        MDInstrumentDefinitionFuture54.mdSecurityTradingStatus := SecurityTradingStatus_code (trading_status inst),
        MDInstrumentDefinitionFuture54.applID := of_int (inst_channel_id inst),
        MDInstrumentDefinitionFuture54.marketSegmentID := of_int (inst_channel_id inst),
        MDInstrumentDefinitionFuture54.underlyingProduct := 14,
        MDInstrumentDefinitionFuture54.securityExchange := copyStr 4 ''XCME'',
        MDInstrumentDefinitionFuture54.securityGroup := copyStr 6 (inst_security_group inst),
        MDInstrumentDefinitionFuture54.asset := copyStr 6 (inst_asset inst),
        MDInstrumentDefinitionFuture54.symbol := copyStr 20 (inst_symbol inst),
        MDInstrumentDefinitionFuture54.securityID := of_int (inst_security_id inst),
        MDInstrumentDefinitionFuture54.securityType := copyStr 6 ''FUT'',
        MDInstrumentDefinitionFuture54.cfiCode := copyStr 6 ''FXXXXX'',
        MDInstrumentDefinitionFuture54.maturityMonthYear := mmy,
        MDInstrumentDefinitionFuture54.currency := copyStr 3 ''USD'',
        MDInstrumentDefinitionFuture54.settlCurrency := copyStr 3 ''USD'',
        MDInstrumentDefinitionFuture54.matchAlgorithm := 0x46,
        MDInstrumentDefinitionFuture54.minTradeVol := of_int (min_trade_vol inst),
        MDInstrumentDefinitionFuture54.maxTradeVol := of_int (max_trade_vol inst),
        MDInstrumentDefinitionFuture54.minPriceIncrement :=
          of_int (int64_of_double (times_double (tick_size inst) (double_of_int (10 ^ 9)))),
        MDInstrumentDefinitionFuture54.displayFactor :=
          of_int (int64_of_double (times_double (display_factor inst) (double_of_int (10 ^ 9)))),
        MDInstrumentDefinitionFuture54.minPriceIncrementAmount :=
          of_int (int64_of_double (times_double (min_price_increment_amount inst) (double_of_int (10 ^ 9)))),
        MDInstrumentDefinitionFuture54.contractMultiplier := of_int (int64_of_double (contract_multiplier inst)),
        MDInstrumentDefinitionFuture54.originalContractSize := of_int (int64_of_double (contract_multiplier inst)),
        MDInstrumentDefinitionFuture54.unitOfMeasure := copyStr 30 (unit_of_measure inst),
        MDInstrumentDefinitionFuture54.unitOfMeasureQty :=
          of_int (int64_of_double (times_double (contract_multiplier inst) (double_of_int (10 ^ 9)))),
        MDInstrumentDefinitionFuture54.tradingReferencePrice := of_int Price_NULL_VALUE,
        MDInstrumentDefinitionFuture54.highLimitPrice := of_int Price_NULL_VALUE,
        MDInstrumentDefinitionFuture54.lowLimitPrice := of_int Price_NULL_VALUE,
        MDInstrumentDefinitionFuture54.maxPriceVariation := of_int Price_NULL_VALUE,
        MDInstrumentDefinitionFuture54.userDefinedInstrument := 0x4e\<rparr>;
     to_buffer (MDInstrumentDefinitionFuture54_encode msg)
       (MessageHeader_SIZE + unat MDInstrumentDefinitionFuture54_BLOCK_LENGTH)
   }"

section \<open>What a client reads\<close>

text \<open>The meaning of the wire values.\<close>

definition action_of :: "8 word \<Rightarrow> MDUpdateAction" where
  "action_of w = (if w = 0 then MD_New else if w = 1 then MD_Change else if w = 2 then MD_Delete
     else if w = 3 then MD_DeleteThru else if w = 4 then MD_DeleteFrom else MD_Overlay)"

lemma action_of_code [simp]: "action_of (MDUpdateAction_code a) = a"
  by (cases a) (simp_all add: action_of_def)

definition entry_update :: "MDIncrementalRefreshBook46_Entry \<Rightarrow> BookUpdate" where
  "entry_update e =
     \<lparr>bu_security_id = sint (MDIncrementalRefreshBook46_Entry.securityID e),
      bu_side = (if MDIncrementalRefreshBook46_Entry.mdEntryType e = MDEntryType_Bid then Buy else Sell),
      bu_price = Price (sint (MDIncrementalRefreshBook46_Entry.mdEntryPx e)),
      bu_new_qty = sint (MDIncrementalRefreshBook46_Entry.mdEntrySize e),
      bu_new_order_count = sint (MDIncrementalRefreshBook46_Entry.numberOfOrders e),
      bu_update_action = action_of (MDIncrementalRefreshBook46_Entry.mdUpdateAction e),
      bu_price_level_index = unat (MDIncrementalRefreshBook46_Entry.mdPriceLevel e),
      bu_rpt_seq = MDIncrementalRefreshBook46_Entry.rptSeq e\<rparr>"

text \<open>Values that fit their C++ types and, for the level index, its 8-bit field.\<close>

definition int32 :: "int \<Rightarrow> bool" where
  "int32 x \<longleftrightarrow> - (2 ^ 31) \<le> x \<and> x < 2 ^ 31"

definition int64 :: "int \<Rightarrow> bool" where
  "int64 x \<longleftrightarrow> - (2 ^ 63) \<le> x \<and> x < 2 ^ 63"

definition wire_update :: "BookUpdate \<Rightarrow> bool" where
  "wire_update u \<longleftrightarrow> int64 (mantissa (bu_price u)) \<and> int32 (bu_new_qty u) \<and> int32 (bu_security_id u) \<and>
     int32 (bu_new_order_count u) \<and> bu_price_level_index u < 256 \<and> bu_side u \<in> {Buy, Sell} \<and> bu_rpt_seq u \<noteq> 0"

lemma sint_int32: "int32 x \<Longrightarrow> sint (of_int x :: 32 word) = x"
  by (simp add: int32_def sint_sbintrunc' signed_take_bit_int_eq_self)

lemma sint_int64: "int64 x \<Longrightarrow> sint (of_int x :: 64 word) = x"
  by (simp add: int64_def sint_sbintrunc' signed_take_bit_int_eq_self)

lemma entry_update_entry:
  assumes "wire_update u"
  shows "entry_update (book_entry u (bu_rpt_seq u)) = u"
proof -
  have "unat (of_nat (bu_price_level_index u) :: 8 word) = bu_price_level_index u"
    using assms by (simp add: wire_update_def unat_of_nat)
  then show ?thesis
    using assms by (cases u) (auto simp: wire_update_def entry_update_def book_entry_def sint_int32 sint_int64
        MDEntryType_Bid_def MDEntryType_Offer_def)
qed

text \<open>A trade as the client sees it: security, price, quantity and aggressor.\<close>

definition trade_view :: "OrderFilled \<Rightarrow> int \<times> Price \<times> int \<times> Side" where
  "trade_view f = (fill_security_id f, trade_price f, trade_qty f, aggressor_side f)"

definition entry_trade :: "MDIncrementalRefreshTradeSummary48_MDEntry \<Rightarrow> int \<times> Price \<times> int \<times> Side" where
  "entry_trade e = (sint (MDIncrementalRefreshTradeSummary48_MDEntry.securityID e),
     Price (sint (MDIncrementalRefreshTradeSummary48_MDEntry.mdEntryPx e)),
     sint (MDIncrementalRefreshTradeSummary48_MDEntry.mdEntrySize e),
     Side_of (MDIncrementalRefreshTradeSummary48_MDEntry.aggressorSide e))"

definition wire_fill :: "OrderFilled \<Rightarrow> bool" where
  "wire_fill f \<longleftrightarrow> int64 (mantissa (trade_price f)) \<and> int32 (trade_qty f) \<and> int32 (fill_security_id f) \<and>
     aggressor_side f \<in> {Buy, Sell}"

lemma entry_trade_entry: "wire_fill f \<Longrightarrow> entry_trade (trade_entry f n) = trade_view f"
  by (auto simp: wire_fill_def entry_trade_def trade_entry_def trade_view_def sint_int32 sint_int64 Side_of_def)

lemma book_entries_updates:
  "\<forall>u\<in>set (updates evs). bu_rpt_seq u \<noteq> 0 \<Longrightarrow>
     book_entries evs ib = (ib, map (\<lambda>u. book_entry u (bu_rpt_seq u)) (updates evs))"
  by (induction evs ib rule: book_entries.induct) simp_all

lemma trade_entries_fills:
  "\<exists>ib' sns. trade_entries evs ib = (ib', map2 trade_entry (fills evs) sns, concat (map order_entries (fills evs))) \<and>
     length sns = length (fills evs)"
proof (induction evs ib rule: trade_entries.induct)
  case (2 f evs ib)
  obtain sn ib1 where s: "getNextRptSeq (fill_security_id f) ib = (sn, ib1)" by (cases "getNextRptSeq (fill_security_id f) ib")
  from 2 [OF s [symmetric] refl] obtain ib' sns where
    "trade_entries evs ib1 = (ib', map2 trade_entry (fills evs) sns, concat (map order_entries (fills evs)))"
    "length sns = length (fills evs)" by blast
  with s have "trade_entries (EvFilled f # evs) ib = (ib', map2 trade_entry (fills (EvFilled f # evs)) (sn # sns),
      concat (map order_entries (fills (EvFilled f # evs))))" by simp
  with \<open>length sns = length (fills evs)\<close> show ?case by (metis fills_simps(2) length_Cons)
qed simp_all

text \<open>Messages one after the other.\<close>

context sbe_message
begin

lemma to_buffer_wire: "wf m \<Longrightarrow> to_buffer (encode m) (8 + msize m) = Some (wire m)"
  by (simp add: to_buffer_def encode_local)

end

definition read_packet :: "bytes \<Rightarrow> (MDIncrementalRefreshBook46_Entry list \<times>
    MDIncrementalRefreshTradeSummary48_MDEntry list \<times> MDIncrementalRefreshTradeSummary48_OrderIDEntry list) option" where
  "read_packet pkt = do {
     (es, pos) \<leftarrow> (if decodeTemplateId pkt 0 = Some MDIncrementalRefreshBook46_TEMPLATE_ID then do {
         m \<leftarrow> MDIncrementalRefreshBook46_decode pkt 0;
         Some (MDIncrementalRefreshBook46.entries m, MessageHeader_SIZE + MDIncrementalRefreshBook46_size m)
       } else Some ([], 0));
     if pos < length pkt then do {
       m \<leftarrow> MDIncrementalRefreshTradeSummary48_decode pkt pos;
       Some (es, MDIncrementalRefreshTradeSummary48.mdEntries m, MDIncrementalRefreshTradeSummary48.orderIDEntries m)
     } else Some (es, [], [])
   }"

lemma updates_filter: "updates (filter (\<lambda>ev. update_of ev \<noteq> None) evs) = updates evs"
  by (induction evs) (auto simp: updates_def List.map_filter_simps split: option.splits)

lemma fills_filter: "fills (filter (\<lambda>ev. update_of ev = None \<and> fill_of ev \<noteq> None) evs) = fills evs"
proof (induction evs)
  case (Cons ev evs)
  then show ?case by (cases ev) simp_all
qed simp

definition book_message :: "BookUpdate list \<Rightarrow> Timestamp \<Rightarrow> MDIncrementalRefreshBook46" where
  "book_message us t = \<lparr>MDIncrementalRefreshBook46.transactTime = t,
     MDIncrementalRefreshBook46.matchEventIndicator = or LastQuoteMsg EndOfEvent,
     MDIncrementalRefreshBook46.entries = map (\<lambda>u. book_entry u (bu_rpt_seq u)) us\<rparr>"

lemma buildBookRefresh_wire:
  assumes "\<forall>u\<in>set (updates evs). bu_rpt_seq u \<noteq> 0" and "length (updates evs) < 256"
  shows "buildBookRefresh evs t ib =
    Some (ib, if updates evs = [] then [] else mDIncrementalRefreshBook46.wire (book_message (updates evs) t))"
proof -
  have "MDIncrementalRefreshBook46_wf (book_message (updates evs) t)"
    using assms(2) by (simp add: MDIncrementalRefreshBook46_wf_def book_message_def)
  note w = mDIncrementalRefreshBook46.to_buffer_wire [OF this]
  show ?thesis using w
    by (simp add: buildBookRefresh_def book_entries_updates [OF assms(1)] MessageHeader_SIZE_def book_message_def)
qed

lemma buildTradeSummary_wire:
  assumes "length (fills evs) < 128"
  shows "\<exists>ib' m. buildTradeSummary evs t ib = Some (ib', if fills evs = [] then [] else mDIncrementalRefreshTradeSummary48.wire m) \<and>
    MDIncrementalRefreshTradeSummary48_wf m \<and> MDIncrementalRefreshTradeSummary48.transactTime m = t \<and>
    (\<exists>sns. length sns = length (fills evs) \<and> MDIncrementalRefreshTradeSummary48.mdEntries m = map2 trade_entry (fills evs) sns) \<and>
    MDIncrementalRefreshTradeSummary48.orderIDEntries m = concat (map order_entries (fills evs))"
proof -
  obtain ib' sns where e: "trade_entries evs ib = (ib', map2 trade_entry (fills evs) sns, concat (map order_entries (fills evs)))"
    and l: "length sns = length (fills evs)" using trade_entries_fills by blast
  define m where "m = \<lparr>MDIncrementalRefreshTradeSummary48.transactTime = t,
     MDIncrementalRefreshTradeSummary48.matchEventIndicator = or (or LastTradeMsg LastVolumeMsg) EndOfEvent,
     MDIncrementalRefreshTradeSummary48.mdEntries = map2 trade_entry (fills evs) sns,
     MDIncrementalRefreshTradeSummary48.orderIDEntries = concat (map order_entries (fills evs))\<rparr>"
  have "length (concat (map order_entries fs)) = 2 * length fs" for fs
    by (induction fs) (simp_all add: order_entries_def)
  then have wf: "MDIncrementalRefreshTradeSummary48_wf m"
    using assms l by (simp add: MDIncrementalRefreshTradeSummary48_wf_def m_def)
  have empty: "map2 trade_entry (fills evs) sns = [] \<longleftrightarrow> fills evs = []" using l by auto
  have "buildTradeSummary evs t ib = Some (ib', if fills evs = [] then [] else mDIncrementalRefreshTradeSummary48.wire m)"
    using mDIncrementalRefreshTradeSummary48.to_buffer_wire [OF wf] empty
    by (simp add: buildTradeSummary_def e MessageHeader_SIZE_def m_def [symmetric])
  moreover have "MDIncrementalRefreshTradeSummary48.transactTime m = t"
    "MDIncrementalRefreshTradeSummary48.mdEntries m = map2 trade_entry (fills evs) sns"
    "MDIncrementalRefreshTradeSummary48.orderIDEntries m = concat (map order_entries (fills evs))"
    by (simp_all add: m_def)
  ultimately show ?thesis using wf l by blast
qed

lemma map_entry_trade:
  "length sns = length fs \<Longrightarrow> \<forall>f\<in>set fs. wire_fill f \<Longrightarrow> map entry_trade (map2 trade_entry fs sns) = map trade_view fs"
  by (induction sns fs rule: list_induct2) (simp_all add: entry_trade_entry)

lemma map_entry_update:
  "\<forall>u\<in>set us. wire_update u \<Longrightarrow> map entry_update (map (\<lambda>u. book_entry u (bu_rpt_seq u)) us) = us"
  by (induction us) (simp_all add: entry_update_entry)

text \<open>Reading a packet of an optional book message and an optional trade message.\<close>

lemma read_packet_wires:
  assumes b: "length us < 256" and m: "MDIncrementalRefreshTradeSummary48_wf m"
  shows "read_packet ((if us = [] then [] else mDIncrementalRefreshBook46.wire (book_message us t)) @
      (if fs then mDIncrementalRefreshTradeSummary48.wire m else [])) =
    Some (map (\<lambda>u. book_entry u (bu_rpt_seq u)) us,
      if fs then MDIncrementalRefreshTradeSummary48.mdEntries m else [],
      if fs then MDIncrementalRefreshTradeSummary48.orderIDEntries m else [])"
proof -
  let ?b = "book_message us t" and ?w = "mDIncrementalRefreshTradeSummary48.wire m"
  let ?tw = "if fs then ?w else []"
  have wf: "MDIncrementalRefreshBook46_wf ?b" using b by (simp add: MDIncrementalRefreshBook46_wf_def book_message_def)
  note lw = mDIncrementalRefreshBook46.length_wire [OF wf] mDIncrementalRefreshTradeSummary48.length_wire [OF m]
  show ?thesis
  proof (cases "us = []")
    case True
    have "decodeTemplateId ?w 0 = Some MDIncrementalRefreshTradeSummary48_TEMPLATE_ID"
      "MDIncrementalRefreshTradeSummary48_decode ?w 0 = Some m"
      using mDIncrementalRefreshTradeSummary48.message_at [OF m, of "[]" "[]"] by simp_all
    moreover have "decodeTemplateId [] 0 \<noteq> Some MDIncrementalRefreshBook46_TEMPLATE_ID"
      by (simp add: decodeTemplateId_def read_le_def read_bytes_def)
    ultimately show ?thesis using True lw(2)
      by (auto simp: read_packet_def MDIncrementalRefreshTradeSummary48_TEMPLATE_ID_def MDIncrementalRefreshBook46_TEMPLATE_ID_def)
  next
    case False
    let ?p = "mDIncrementalRefreshBook46.wire ?b @ ?tw"
    have "MDIncrementalRefreshBook46_decode ?p 0 = Some ?b" "decodeTemplateId ?p 0 = Some MDIncrementalRefreshBook46_TEMPLATE_ID"
      using mDIncrementalRefreshBook46.message_at [OF wf, of "[]" ?tw] by simp_all
    moreover have "fs \<Longrightarrow> MDIncrementalRefreshTradeSummary48_decode ?p (8 + MDIncrementalRefreshBook46_size ?b) = Some m"
      using mDIncrementalRefreshTradeSummary48.message_at [OF m, of "mDIncrementalRefreshBook46.wire ?b" "[]"] lw(1) by simp
    moreover have "?w \<noteq> []" using lw(2) by auto
    ultimately show ?thesis using False lw
      by (simp add: read_packet_def MessageHeader_SIZE_def) (simp add: book_message_def)
  qed
qed

lemma incremental_packet_wires:
  assumes "\<forall>u\<in>set (updates evs). wire_update u" and "length (updates evs) < 256" and "length (fills evs) < 128"
  shows "\<exists>ib' m sns. buildIncrementalPacket evs t ib = Some (ib',
      (if updates evs = [] then [] else mDIncrementalRefreshBook46.wire (book_message (updates evs) t)) @
      (if fills evs \<noteq> [] then mDIncrementalRefreshTradeSummary48.wire m else [])) \<and>
    MDIncrementalRefreshTradeSummary48_wf m \<and> length sns = length (fills evs) \<and>
    MDIncrementalRefreshTradeSummary48.mdEntries m = map2 trade_entry (fills evs) sns \<and>
    MDIncrementalRefreshTradeSummary48.orderIDEntries m = concat (map order_entries (fills evs))"
proof -
  let ?us = "filter (\<lambda>ev. update_of ev \<noteq> None) evs" and ?fs = "filter (\<lambda>ev. update_of ev = None \<and> fill_of ev \<noteq> None) evs"
  have "\<forall>u\<in>set (updates ?us). bu_rpt_seq u \<noteq> 0"
    unfolding updates_filter using assms(1) by (simp add: wire_update_def)
  note b = buildBookRefresh_wire [OF this, of t ib]
  obtain ib' m sns where tr: "buildTradeSummary ?fs t ib =
      Some (ib', if fills ?fs = [] then [] else mDIncrementalRefreshTradeSummary48.wire m)"
    and rest: "MDIncrementalRefreshTradeSummary48_wf m" "length sns = length (fills evs)"
    "MDIncrementalRefreshTradeSummary48.mdEntries m = map2 trade_entry (fills evs) sns"
    "MDIncrementalRefreshTradeSummary48.orderIDEntries m = concat (map order_entries (fills evs))"
    using buildTradeSummary_wire [of ?fs t ib] assms(3) by (auto simp only: fills_filter)
  have "buildIncrementalPacket evs t ib = Some (ib',
      (if updates evs = [] then [] else mDIncrementalRefreshBook46.wire (book_message (updates evs) t)) @
      (if fills evs \<noteq> [] then mDIncrementalRefreshTradeSummary48.wire m else []))"
    unfolding buildIncrementalPacket_def using b tr assms(2)
    by (simp only: updates_filter fills_filter Let_def if_not_P [of "_ = _"]) simp
  with rest show ?thesis by blast
qed

lemma incremental_packet_ok:
  assumes "\<forall>u\<in>set (updates evs). wire_update u" and "\<forall>f\<in>set (fills evs). wire_fill f"
    and "length (updates evs) < 256" and "length (fills evs) < 128"
  shows "\<exists>ib' pkt es ts os. buildIncrementalPacket evs t ib = Some (ib', pkt) \<and> read_packet pkt = Some (es, ts, os) \<and>
    map entry_update es = updates evs \<and> map entry_trade ts = map trade_view (fills evs) \<and>
    os = concat (map order_entries (fills evs))"
proof -
  let ?pkt = "\<lambda>m. (if updates evs = [] then [] else mDIncrementalRefreshBook46.wire (book_message (updates evs) t)) @
      (if fills evs \<noteq> [] then mDIncrementalRefreshTradeSummary48.wire m else [])"
  obtain ib' m sns where p: "buildIncrementalPacket evs t ib = Some (ib', ?pkt m)"
    and tr: "MDIncrementalRefreshTradeSummary48_wf m" "length sns = length (fills evs)"
    "MDIncrementalRefreshTradeSummary48.mdEntries m = map2 trade_entry (fills evs) sns"
    "MDIncrementalRefreshTradeSummary48.orderIDEntries m = concat (map order_entries (fills evs))"
    using incremental_packet_wires [OF assms(1,3,4)] by blast
  have "read_packet (?pkt m) = Some (map (\<lambda>u. book_entry u (bu_rpt_seq u)) (updates evs),
      map2 trade_entry (fills evs) sns, concat (map order_entries (fills evs)))"
    using read_packet_wires [OF assms(3) tr(1), of t "fills evs \<noteq> []"] tr(2-4) by simp
  moreover note map_entry_update [OF assms(1)] map_entry_trade [OF tr(2) assms(2)]
  ultimately show ?thesis using p by blast
qed

text \<open>
  What the incremental feed says is what the engine did: for any events, the packet is always built, and
  a client that reads it gets exactly the book updates, in order and with their report numbers, and the
  trades, in order, each with both order ids (for values within their C++ types, level indexes below 256,
  and fewer than 256 updates and 128 trades, which is what the 8-bit counts of the format can hold).
\<close>

theorem incremental_packet_reads_back:
  assumes "\<forall>u\<in>set (updates evs). wire_update u" and "\<forall>f\<in>set (fills evs). wire_fill f"
    and "length (updates evs) < 256" and "length (fills evs) < 128"
  shows "\<exists>ib' pkt es ts os. buildIncrementalPacket evs t ib = Some (ib', pkt) \<and> read_packet pkt = Some (es, ts, os) \<and>
    map entry_update es = updates evs \<and> map entry_trade ts = map trade_view (fills evs) \<and>
    os = concat (map order_entries (fills evs))"
  using assms by (rule incremental_packet_ok)

definition ex_update :: BookUpdate where
  "ex_update = \<lparr>bu_security_id = 42, bu_side = Sell, bu_price = Price 70, bu_new_qty = 3, bu_new_order_count = 1,
     bu_update_action = MD_New, bu_price_level_index = 1, bu_rpt_seq = 9\<rparr>"

theorem incremental_packet_reads_back_witness:
  "\<exists>ib pkt e. buildIncrementalPacket [EvBook ex_update] 5 IncrementalBuilder_new = Some (ib, pkt) \<and>
     read_packet pkt = Some ([e], [], []) \<and> entry_update e = ex_update"
proof -
  have u: "updates [EvBook ex_update] = [ex_update]" "fills [EvBook ex_update] = []" by simp_all
  have "wire_update ex_update" by (simp add: wire_update_def ex_update_def int32_def int64_def)
  with incremental_packet_reads_back [of "[EvBook ex_update]" 5 IncrementalBuilder_new] show ?thesis
    unfolding u by (auto simp: map_eq_Cons_conv)
qed

text \<open>Building never fails, whatever the events: the buffer always has the size of what is written.\<close>

lemma to_buffer_fits:
  assumes "packed 0 fs" and "length (body_of fs) = n" and "\<And>buf. enc buf 0 = sbe_encode s v bl t fs k buf 0"
  shows "\<exists>bs. to_buffer enc (8 + n) = Some bs"
  using sbe_encode_ok [OF assms(1), of 0 "replicate (8 + n) 0" s v bl t k] assms(2,3) by (simp add: to_buffer_def)

lemma buildBookRefresh_total: "\<exists>ib' bs. buildBookRefresh evs t ib = Some (ib', bs)"
proof -
  obtain ib' es where e: "book_entries evs ib = (ib', es)" by (cases "book_entries evs ib")
  let ?m = "\<lparr>MDIncrementalRefreshBook46.transactTime = t,
     MDIncrementalRefreshBook46.matchEventIndicator = or LastQuoteMsg EndOfEvent, MDIncrementalRefreshBook46.entries = es\<rparr>"
  have "packed 0 (MDIncrementalRefreshBook46_fields ?m) \<and>
      length (body_of (MDIncrementalRefreshBook46_fields ?m)) = MDIncrementalRefreshBook46_size ?m"
    using mDIncrementalRefreshBook46_Entry.group_packed [of 9 es]
    by (simp add: MDIncrementalRefreshBook46_fields_def MDIncrementalRefreshBook46_size_def
        MDIncrementalRefreshBook46_BLOCK_LENGTH_def packed_append)
  then obtain bs where "to_buffer (MDIncrementalRefreshBook46_encode ?m) (8 + MDIncrementalRefreshBook46_size ?m) = Some bs"
    using to_buffer_fits [of "MDIncrementalRefreshBook46_fields ?m"] MDIncrementalRefreshBook46_encode_def by blast
  then show ?thesis using e by (simp add: buildBookRefresh_def MessageHeader_SIZE_def Let_def)
qed

lemma buildTradeSummary_total: "\<exists>ib' bs. buildTradeSummary evs t ib = Some (ib', bs)"
proof -
  obtain ib' es os where e: "trade_entries evs ib = (ib', es, os)" by (metis prod_cases3)
  let ?m = "\<lparr>MDIncrementalRefreshTradeSummary48.transactTime = t,
     MDIncrementalRefreshTradeSummary48.matchEventIndicator = or (or LastTradeMsg LastVolumeMsg) EndOfEvent,
     MDIncrementalRefreshTradeSummary48.mdEntries = es, MDIncrementalRefreshTradeSummary48.orderIDEntries = os\<rparr>"
  have "packed 0 (MDIncrementalRefreshTradeSummary48_fields ?m) \<and>
      length (body_of (MDIncrementalRefreshTradeSummary48_fields ?m)) = MDIncrementalRefreshTradeSummary48_size ?m"
    using mDIncrementalRefreshTradeSummary48_MDEntry.group_packed [of 9 es]
      mDIncrementalRefreshTradeSummary48_OrderIDEntry.group_packed
        [of "9 + group_size MDIncrementalRefreshTradeSummary48_MDEntry_BLOCK_LENGTH es" os]
    by (simp add: MDIncrementalRefreshTradeSummary48_fields_def MDIncrementalRefreshTradeSummary48_size_def
        MDIncrementalRefreshTradeSummary48_BLOCK_LENGTH_def packed_append)
  then obtain bs where "to_buffer (MDIncrementalRefreshTradeSummary48_encode ?m)
      (8 + MDIncrementalRefreshTradeSummary48_size ?m) = Some bs"
    using to_buffer_fits [of "MDIncrementalRefreshTradeSummary48_fields ?m"] MDIncrementalRefreshTradeSummary48_encode_def
    by blast
  then show ?thesis using e by (simp add: buildTradeSummary_def MessageHeader_SIZE_def Let_def)
qed

lemma buildIncrementalPacket_total: "\<exists>ib' bs. buildIncrementalPacket evs t ib = Some (ib', bs)"
proof -
  let ?us = "filter (\<lambda>ev. update_of ev \<noteq> None) evs" and ?fs = "filter (\<lambda>ev. update_of ev = None \<and> fill_of ev \<noteq> None) evs"
  obtain ib1 b1 where 1: "buildBookRefresh ?us t ib = Some (ib1, b1)" using buildBookRefresh_total by blast
  obtain ib2 b2 where 2: "buildTradeSummary ?fs t ib1 = Some (ib2, b2)" using buildTradeSummary_total by blast
  have "buildIncrementalPacket evs t ib = Some (ib2, b1 @ b2)"
    unfolding buildIncrementalPacket_def Let_def 1 bind.bind_lunit prod.case 2 by simp
  then show ?thesis by blast
qed

end
