(* ===== verification/Md_Publisher.thy ===== *)
theory Md_Publisher
  imports Md_Builders Book_Market_Data "HOL-Library.AList"
begin

text \<open>
  Publishing market data: \<^verbatim>\<open>src/market_data/feed_sender.cpp\<close>, \<^verbatim>\<open>snapshot_cycler.cpp\<close>,
  \<^verbatim>\<open>channel_publisher.cpp\<close>, \<^verbatim>\<open>market_data_publisher.cpp\<close> and the packet framing of
  \<^verbatim>\<open>src/network/udp_multicast_sender.cpp\<close>.

  \<open>sent\<close> is every packet handed to the socket, in order (a send error is only logged).  Clock readings are
  arguments; an operation that reads the clock in a loop takes the sequence of readings.  The background
  threads' bodies are operations, one call per iteration of their loops.
\<close>

section \<open>A feed\<close>

record FeedSender =
  next_seq_num :: "32 word"
  sent :: "bytes list"

definition FeedSender_new :: FeedSender where
  "FeedSender_new = \<lparr>next_seq_num = 1, sent = []\<rparr>"

definition udp_packet :: "32 word \<Rightarrow> 64 word \<Rightarrow> bytes \<Rightarrow> bytes" where
  "udp_packet seq_num sending_time sbe_messages = le 4 seq_num @ le 8 sending_time @ sbe_messages"

definition feed_send :: "Timestamp \<Rightarrow> bytes \<Rightarrow> FeedSender \<Rightarrow> FeedSender" where
  "feed_send now sbe_messages f =
     f\<lparr>sent := sent f @ [udp_packet (next_seq_num f) now sbe_messages], next_seq_num := next_seq_num f + 1\<rparr>"

definition sendWithSeqNum :: "32 word \<Rightarrow> Timestamp \<Rightarrow> bytes \<Rightarrow> FeedSender \<Rightarrow> FeedSender" where
  "sendWithSeqNum seq_num now sbe_messages f = f\<lparr>sent := sent f @ [udp_packet seq_num now sbe_messages]\<rparr>"

section \<open>Snapshot cycler\<close>

text \<open>What the provider leaves in the four vectors.\<close>

type_synonym book_levels = "(Price \<times> Quantity) list \<times> (Price \<times> Quantity) list \<times> int list \<times> int list"

record SnapshotCycler =
  cyc_instruments :: "SecurityId list"
  last_incr_seq :: "32 word"
  cycle_count :: "32 word"
  cyc_running :: bool

definition SnapshotCycler_new :: "SecurityId list \<Rightarrow> SnapshotCycler" where
  "SnapshotCycler_new insts = \<lparr>cyc_instruments = insts, last_incr_seq = 0, cycle_count = 0, cyc_running = False\<rparr>"

definition cycler_start :: "SnapshotCycler \<Rightarrow> SnapshotCycler" where
  "cycler_start c = (if cyc_running c then c else c\<lparr>cyc_running := True\<rparr>)"

definition cycler_stop :: "SnapshotCycler \<Rightarrow> SnapshotCycler" where
  "cycler_stop c = c\<lparr>cyc_running := False\<rparr>"

text \<open>The loop of \<^verbatim>\<open>runCycle\<close>; instrument \<open>k\<close> reads the clock three times.\<close>

fun run_cycle :: "(SecurityId \<Rightarrow> book_levels) \<Rightarrow> (nat \<Rightarrow> Timestamp) \<Rightarrow> nat \<Rightarrow> 32 word \<Rightarrow> 32 word \<Rightarrow> SecurityId list \<Rightarrow>
    32 word \<times> FeedSender \<times> FeedSender \<Rightarrow> (32 word \<times> FeedSender \<times> FeedSender) option" where
  "run_cycle provider clk k lseq tot [] st = Some st"
| "run_cycle provider clk k lseq tot (sec # secs) (count, a, b) = do {
     let (bids, asks, bid_counts, ask_counts) = provider sec;
     let count = count + 1;
     snapshot \<leftarrow> buildSnapshot sec lseq tot bids asks bid_counts ask_counts count (clk (3 * k));
     let (a, b) = (if snapshot \<noteq> [] then (feed_send (clk (3 * k + 1)) snapshot a, feed_send (clk (3 * k + 2)) snapshot b)
                   else (a, b));
     run_cycle provider clk (Suc k) lseq tot secs (count, a, b)
   }"

section \<open>Channel publisher\<close>

record ChannelPublisher =
  cp_channel_id :: int
  incremental_feed_a :: FeedSender
  incremental_feed_b :: FeedSender
  snapshot_feed_a :: FeedSender
  snapshot_feed_b :: FeedSender
  instdef_feed_a :: FeedSender
  instdef_feed_b :: FeedSender
  incremental_builder :: IncrementalBuilder
  snapshot_cycler :: "SnapshotCycler option"

definition ChannelPublisher_new :: "int \<Rightarrow> ChannelPublisher" where
  "ChannelPublisher_new cid =
     \<lparr>cp_channel_id = cid, incremental_feed_a = FeedSender_new, incremental_feed_b = FeedSender_new,
      snapshot_feed_a = FeedSender_new, snapshot_feed_b = FeedSender_new,
      instdef_feed_a = FeedSender_new, instdef_feed_b = FeedSender_new,
      incremental_builder = IncrementalBuilder_new, snapshot_cycler = None\<rparr>"

text \<open>Both feeds carry a packet under the same number, and the cycler learns it.\<close>

definition send_incremental :: "Timestamp \<Rightarrow> Timestamp \<Rightarrow> bytes \<Rightarrow> ChannelPublisher \<Rightarrow> ChannelPublisher" where
  "send_incremental ta tb packet cp =
     (let sn = next_seq_num (incremental_feed_a cp);
          cp = cp\<lparr>incremental_feed_a := feed_send ta packet (incremental_feed_a cp)\<rparr>;
          cp = cp\<lparr>incremental_feed_b := sendWithSeqNum sn tb packet (incremental_feed_b cp)\<rparr>
      in cp\<lparr>snapshot_cycler := map_option (\<lambda>c. c\<lparr>last_incr_seq := sn\<rparr>) (snapshot_cycler cp)\<rparr>)"

definition publishIncrementalUpdates ::
  "Timestamp \<Rightarrow> Timestamp \<Rightarrow> EngineEvent list \<Rightarrow> Timestamp \<Rightarrow> ChannelPublisher \<Rightarrow> ChannelPublisher option" where
  "publishIncrementalUpdates ta tb evs transact_time cp =
     (if evs = [] then Some cp
      else do {
        (ib, packet) \<leftarrow> buildIncrementalPacket evs transact_time (incremental_builder cp);
        let cp = cp\<lparr>incremental_builder := ib\<rparr>;
        Some (if packet = [] then cp else send_incremental ta tb packet cp)
      })"

definition publishSecurityStatus ::
  "Timestamp \<Rightarrow> Timestamp \<Rightarrow> SecurityId \<Rightarrow> SecurityTradingStatus \<Rightarrow> Timestamp \<Rightarrow> ChannelPublisher \<Rightarrow> ChannelPublisher option" where
  "publishSecurityStatus ta tb security st transact_time cp = do {
     let msg = SecurityStatus30_default
       \<lparr>SecurityStatus30.transactTime := transact_time, SecurityStatus30.securityID := of_int security,
        SecurityStatus30.securityTradingStatus := SecurityTradingStatus_code st,
        SecurityStatus30.matchEventIndicator := EndOfEvent\<rparr>;
     buf \<leftarrow> to_buffer (SecurityStatus30_encode msg) (MessageHeader_SIZE + unat SecurityStatus30_BLOCK_LENGTH);
     Some (send_incremental ta tb buf cp)
   }"

fun replay_definitions :: "(nat \<Rightarrow> Timestamp) \<Rightarrow> nat \<Rightarrow> 32 word \<Rightarrow> Instrument list \<Rightarrow> ChannelPublisher \<Rightarrow> ChannelPublisher option" where
  "replay_definitions clk k tot [] cp = Some cp"
| "replay_definitions clk k tot (inst # insts) cp = do {
     msg \<leftarrow> buildDefinition inst tot;
     replay_definitions clk (Suc k) tot insts
       (if msg = [] then cp
        else cp\<lparr>instdef_feed_a := feed_send (clk (2 * k)) msg (instdef_feed_a cp),
                instdef_feed_b := feed_send (clk (2 * k + 1)) msg (instdef_feed_b cp)\<rparr>)
   }"

definition replayInstrumentDefinitions :: "(nat \<Rightarrow> Timestamp) \<Rightarrow> Instrument list \<Rightarrow> ChannelPublisher \<Rightarrow> ChannelPublisher option" where
  "replayInstrumentDefinitions clk insts cp = replay_definitions clk 0 (of_nat (length insts)) insts cp"

definition initSnapshotCycler :: "SecurityId list \<Rightarrow> ChannelPublisher \<Rightarrow> ChannelPublisher" where
  "initSnapshotCycler insts cp = cp\<lparr>snapshot_cycler := Some (SnapshotCycler_new insts)\<rparr>"

definition currentIncrementalSeqNum :: "ChannelPublisher \<Rightarrow> 32 word" where
  "currentIncrementalSeqNum cp = next_seq_num (incremental_feed_a cp) - 1"

text \<open>One cycle of the snapshot thread.\<close>

definition runCycle :: "(SecurityId \<Rightarrow> book_levels) \<Rightarrow> (nat \<Rightarrow> Timestamp) \<Rightarrow> ChannelPublisher \<Rightarrow> ChannelPublisher option" where
  "runCycle provider clk cp =
     (case snapshot_cycler cp of
        None \<Rightarrow> Some cp
      | Some c \<Rightarrow> do {
          (count, a, b) \<leftarrow> run_cycle provider clk 0 (last_incr_seq c) (of_nat (length (cyc_instruments c)))
             (cyc_instruments c) (cycle_count c, snapshot_feed_a cp, snapshot_feed_b cp);
          Some (cp\<lparr>snapshot_cycler := Some (c\<lparr>cycle_count := count\<rparr>), snapshot_feed_a := a, snapshot_feed_b := b\<rparr>)
        })"

section \<open>Market data publisher\<close>

text \<open>The channels' publishers by channel id, in the order the hash map iterates.\<close>

record MarketDataPublisher =
  channel_publishers :: "(int \<times> ChannelPublisher) list"
  security_to_channel :: "SecurityId \<rightharpoonup> int"
  mdp_running :: bool

text \<open>
  The constructors.  Each channel publisher opens six senders in turn; \<open>opens\<close> says for which address and port the
  constructor of \<^verbatim>\<open>UdpMulticastSender\<close> succeeds (it throws when the address does not parse or the
  socket cannot be set up), and \<open>None\<close> is the exception passed on.
\<close>

definition ChannelPublisher_create :: "(string \<Rightarrow> 16 word \<Rightarrow> bool) \<Rightarrow> ChannelConfig \<Rightarrow> ChannelPublisher option" where
  "ChannelPublisher_create opens cc =
     (if opens (address_a (cc_incremental_feed cc)) (port_a (cc_incremental_feed cc)) \<and>
         opens (address_b (cc_incremental_feed cc)) (port_b (cc_incremental_feed cc)) \<and>
         opens (address_a (cc_snapshot_feed cc)) (port_a (cc_snapshot_feed cc)) \<and>
         opens (address_b (cc_snapshot_feed cc)) (port_b (cc_snapshot_feed cc)) \<and>
         opens (address_a (cc_instrument_def_feed cc)) (port_a (cc_instrument_def_feed cc)) \<and>
         opens (address_b (cc_instrument_def_feed cc)) (port_b (cc_instrument_def_feed cc))
      then Some (ChannelPublisher_new (cc_channel_id cc)) else None)"

definition MarketDataPublisher_new :: "ChannelConfig list \<Rightarrow> InstrumentManager \<Rightarrow> MarketDataPublisher" where
  "MarketDataPublisher_new chans im =
     \<lparr>channel_publishers = fold (\<lambda>cc ps. AList.update (cc_channel_id cc) (ChannelPublisher_new (cc_channel_id cc)) ps) chans [],
      security_to_channel = fold (\<lambda>inst m. m(inst_security_id inst \<mapsto> inst_channel_id inst)) (im_instruments im) Map.empty,
      mdp_running = False\<rparr>"

fun create_publishers :: "(string \<Rightarrow> 16 word \<Rightarrow> bool) \<Rightarrow> ChannelConfig list \<Rightarrow> (int \<times> ChannelPublisher) list \<Rightarrow>
    (int \<times> ChannelPublisher) list option" where
  "create_publishers opens [] ps = Some ps"
| "create_publishers opens (cc # ccs) ps = do {
     pub \<leftarrow> ChannelPublisher_create opens cc;
     create_publishers opens ccs (AList.update (cc_channel_id cc) pub ps)
   }"

definition MarketDataPublisher_create ::
  "(string \<Rightarrow> 16 word \<Rightarrow> bool) \<Rightarrow> ChannelConfig list \<Rightarrow> InstrumentManager \<Rightarrow> MarketDataPublisher option" where
  "MarketDataPublisher_create opens chans im = do {
     ps \<leftarrow> create_publishers opens chans [];
     Some \<lparr>channel_publishers = ps,
       security_to_channel = fold (\<lambda>inst m. m(inst_security_id inst \<mapsto> inst_channel_id inst)) (im_instruments im) Map.empty,
       mdp_running = False\<rparr>
   }"

lemma create_publishers_iff:
  "create_publishers opens ccs ps = Some ps' \<longleftrightarrow>
     (\<forall>cc\<in>set ccs. \<forall>f\<in>{cc_incremental_feed cc, cc_snapshot_feed cc, cc_instrument_def_feed cc}.
        opens (address_a f) (port_a f) \<and> opens (address_b f) (port_b f)) \<and>
     ps' = fold (\<lambda>cc ps. AList.update (cc_channel_id cc) (ChannelPublisher_new (cc_channel_id cc)) ps) ccs ps"
  by (induction ccs arbitrary: ps) (auto simp: ChannelPublisher_create_def split: if_splits)

lemma MarketDataPublisher_create_iff:
  "MarketDataPublisher_create opens chans im = Some p \<longleftrightarrow>
     (\<forall>cc\<in>set chans. \<forall>f\<in>{cc_incremental_feed cc, cc_snapshot_feed cc, cc_instrument_def_feed cc}.
        opens (address_a f) (port_a f) \<and> opens (address_b f) (port_b f)) \<and> p = MarketDataPublisher_new chans im"
  unfolding MarketDataPublisher_create_def bind_eq_Some_conv create_publishers_iff MarketDataPublisher_new_def by auto

definition getChannelForSecurity :: "SecurityId \<Rightarrow> MarketDataPublisher \<Rightarrow> int" where
  "getChannelForSecurity sec p = (case security_to_channel p sec of None \<Rightarrow> 0 | Some c \<Rightarrow> c)"

fun group_events :: "MarketDataPublisher \<Rightarrow> EngineEvent list \<Rightarrow> (int \<times> EngineEvent list) list \<Rightarrow> (int \<times> EngineEvent list) list" where
  "group_events p [] by_channel = by_channel"
| "group_events p (ev # evs) by_channel =
     group_events p evs
       (case event_security ev of
          None \<Rightarrow> by_channel
        | Some sec \<Rightarrow>
            let ch = getChannelForSecurity sec p
            in if ch \<noteq> 0
               then AList.update ch ((case map_of by_channel ch of None \<Rightarrow> [] | Some es \<Rightarrow> es) @ [ev]) by_channel
               else by_channel)"

fun publish_groups :: "(nat \<Rightarrow> Timestamp) \<Rightarrow> Timestamp \<Rightarrow> nat \<Rightarrow> (int \<times> EngineEvent list) list \<Rightarrow> MarketDataPublisher \<Rightarrow>
    MarketDataPublisher option" where
  "publish_groups clk ts k [] p = Some p"
| "publish_groups clk ts k ((ch, evs) # gs) p =
     (case map_of (channel_publishers p) ch of
        None \<Rightarrow> publish_groups clk ts (Suc k) gs p
      | Some cp \<Rightarrow> do {
          cp \<leftarrow> publishIncrementalUpdates (clk (2 * k)) (clk (2 * k + 1)) evs ts cp;
          publish_groups clk ts (Suc k) gs (p\<lparr>channel_publishers := AList.update ch cp (channel_publishers p)\<rparr>)
        })"

definition publishEvents :: "(nat \<Rightarrow> Timestamp) \<Rightarrow> Timestamp \<Rightarrow> EngineEvent list \<Rightarrow> MarketDataPublisher \<Rightarrow> MarketDataPublisher option" where
  "publishEvents clk ts evs p = (if evs = [] then Some p else publish_groups clk ts 0 (group_events p evs []) p)"

definition getChannelPublisher :: "int \<Rightarrow> MarketDataPublisher \<Rightarrow> ChannelPublisher option" where
  "getChannelPublisher ch p = map_of (channel_publishers p) ch"

text \<open>Starting and stopping the background threads; \<open>provided\<close>: a book provider has been set.\<close>

definition mdp_start :: "bool \<Rightarrow> InstrumentManager \<Rightarrow> MarketDataPublisher \<Rightarrow> MarketDataPublisher" where
  "mdp_start provided im p =
     (if mdp_running p then p
      else
        let p = p\<lparr>mdp_running := True\<rparr>
        in if provided
           then p\<lparr>channel_publishers := map (\<lambda>(ch, cp).
                let cp = initSnapshotCycler (map inst_security_id (getInstrumentsByChannel ch im)) cp
                in (ch, cp\<lparr>snapshot_cycler := map_option cycler_start (snapshot_cycler cp)\<rparr>)) (channel_publishers p)\<rparr>
           else p)"

definition mdp_stop :: "bool \<Rightarrow> MarketDataPublisher \<Rightarrow> MarketDataPublisher" where
  "mdp_stop provided p =
     (if \<not> mdp_running p then p
      else
        let p = p\<lparr>mdp_running := False\<rparr>
        in if provided
           then p\<lparr>channel_publishers := map (\<lambda>(ch, cp). (ch, cp\<lparr>snapshot_cycler :=
                map_option cycler_stop (snapshot_cycler cp)\<rparr>)) (channel_publishers p)\<rparr>
           else p)"

text \<open>One pass of the instrument definition thread over the channels; \<open>clk ch\<close> are its clock readings for a channel.\<close>

fun replay_channels :: "(int \<Rightarrow> nat \<Rightarrow> Timestamp) \<Rightarrow> InstrumentManager \<Rightarrow> (int \<times> ChannelPublisher) list \<Rightarrow>
    (int \<times> ChannelPublisher) list option" where
  "replay_channels clk im [] = Some []"
| "replay_channels clk im ((ch, cp) # ps) = do {
     cp \<leftarrow> replayInstrumentDefinitions (clk ch) (getInstrumentsByChannel ch im) cp;
     ps \<leftarrow> replay_channels clk im ps;
     Some ((ch, cp) # ps)
   }"

definition instdefReplay :: "(int \<Rightarrow> nat \<Rightarrow> Timestamp) \<Rightarrow> InstrumentManager \<Rightarrow> MarketDataPublisher \<Rightarrow> MarketDataPublisher option" where
  "instdefReplay clk im p = map_option (\<lambda>ps. p\<lparr>channel_publishers := ps\<rparr>) (replay_channels clk im (channel_publishers p))"

section \<open>What a receiver of a feed sees\<close>

definition numbered_payload :: "bytes \<Rightarrow> 32 word option \<times> bytes" where
  "numbered_payload pkt = (decodeMsgSeqNum pkt 0, drop PacketHeader_SIZE pkt)"

lemma numbered_payload_packet: "numbered_payload (udp_packet n t msgs) = (Some n, msgs)"
  by (simp add: numbered_payload_def udp_packet_def decodeMsgSeqNum_def read_le_def read_bytes_def of_le_le
      PacketHeader_SIZE_def)

text \<open>Packets numbered from 1 on.\<close>

definition consecutive :: "bytes list \<Rightarrow> bytes list \<Rightarrow> bool" where
  "consecutive pkts msgs \<longleftrightarrow> map numbered_payload pkts = map (\<lambda>(k, m). (Some (of_nat (Suc k)), m)) (enumerate 0 msgs)"

lemma consecutive_snoc:
  assumes "consecutive pkts msgs" and "n = of_nat (Suc (length msgs))"
  shows "consecutive (pkts @ [udp_packet n t m]) (msgs @ [m])"
  using assms by (simp add: consecutive_def numbered_payload_packet enumerate_append_eq)

definition feed_ok :: "FeedSender \<Rightarrow> bytes list \<Rightarrow> bool" where
  "feed_ok f msgs \<longleftrightarrow> consecutive (sent f) msgs \<and> next_seq_num f = of_nat (Suc (length msgs))"

lemma feed_ok_new: "feed_ok FeedSender_new []"
  by (simp add: feed_ok_def FeedSender_new_def consecutive_def)

lemma feed_ok_send: "feed_ok f msgs \<Longrightarrow> feed_ok (feed_send t m f) (msgs @ [m])"
  by (auto simp: feed_ok_def feed_send_def intro!: consecutive_snoc)

text \<open>
  The state of a channel: \<open>incs\<close>, \<open>snaps\<close> and \<open>defs\<close> are the messages published so far on the three pairs of
  feeds; the cycler knows the number of the last incremental packet since it was set up, if there was one.
\<close>

definition channel_ok :: "ChannelPublisher \<Rightarrow> bytes list \<Rightarrow> bytes list \<Rightarrow> bytes list \<Rightarrow> bool" where
  "channel_ok cp incs snaps defs \<longleftrightarrow>
     feed_ok (incremental_feed_a cp) incs \<and> consecutive (sent (incremental_feed_b cp)) incs \<and>
     feed_ok (snapshot_feed_a cp) snaps \<and> feed_ok (snapshot_feed_b cp) snaps \<and>
     feed_ok (instdef_feed_a cp) defs \<and> feed_ok (instdef_feed_b cp) defs \<and>
     (\<forall>c. snapshot_cycler cp = Some c \<longrightarrow> last_incr_seq c = 0 \<or> last_incr_seq c = of_nat (length incs))"

lemma channel_ok_new: "channel_ok (ChannelPublisher_new c) [] [] []"
  using feed_ok_new by (simp add: channel_ok_def ChannelPublisher_new_def) (simp add: FeedSender_new_def consecutive_def)

lemma send_incremental_ok:
  assumes "channel_ok cp incs snaps defs"
  shows "channel_ok (send_incremental ta tb m cp) (incs @ [m]) snaps defs"
proof -
  have "next_seq_num (incremental_feed_a cp) = of_nat (Suc (length incs))"
    using assms by (simp add: channel_ok_def feed_ok_def)
  then show ?thesis
    using assms by (auto simp: channel_ok_def send_incremental_def sendWithSeqNum_def Let_def feed_ok_send consecutive_snoc)
qed

lemma publishIncrementalUpdates_cases:
  assumes "publishIncrementalUpdates ta tb evs t cp = Some cp'"
  obtains "evs = []" "cp' = cp"
  | ib where "evs \<noteq> []" "buildIncrementalPacket evs t (incremental_builder cp) = Some (ib, [])"
      "cp' = cp\<lparr>incremental_builder := ib\<rparr>"
  | ib pkt where "evs \<noteq> []" "buildIncrementalPacket evs t (incremental_builder cp) = Some (ib, pkt)" "pkt \<noteq> []"
      "cp' = send_incremental ta tb pkt (cp\<lparr>incremental_builder := ib\<rparr>)"
  using assms by (auto simp: publishIncrementalUpdates_def bind_eq_Some_conv Let_def split: if_splits)

lemma publishIncrementalUpdates_ok:
  assumes "channel_ok cp incs snaps defs" and "publishIncrementalUpdates ta tb evs t cp = Some cp'"
  shows "\<exists>new. channel_ok cp' (incs @ new) snaps defs"
proof -
  have keep: "channel_ok (cp\<lparr>incremental_builder := ib\<rparr>) incs snaps defs" for ib
    using assms(1) by (simp add: channel_ok_def)
  from assms(2) show ?thesis
  proof (cases rule: publishIncrementalUpdates_cases)
    case 1
    then show ?thesis using assms(1) by (intro exI [where x = "[]"]) simp
  next
    case (2 ib)
    then show ?thesis using keep by (intro exI [where x = "[]"]) simp
  next
    case (3 ib pkt)
    then show ?thesis using send_incremental_ok [OF keep] by blast
  qed
qed

lemma publishSecurityStatus_ok:
  assumes "channel_ok cp incs snaps defs" and "publishSecurityStatus ta tb sec st t cp = Some cp'"
  shows "\<exists>m. channel_ok cp' (incs @ [m]) snaps defs"
  using assms send_incremental_ok by (fastforce simp: publishSecurityStatus_def bind_eq_Some_conv Let_def)

lemma replay_definitions_ok:
  "channel_ok cp incs snaps defs \<Longrightarrow> replay_definitions clk k tot insts cp = Some cp' \<Longrightarrow>
     \<exists>new. channel_ok cp' incs snaps (defs @ new)"
proof (induction insts arbitrary: k cp defs)
  case Nil
  then show ?case by (intro exI [where x = "[]"]) simp
next
  case (Cons inst insts)
  obtain msg where m: "buildDefinition inst tot = Some msg" using Cons.prems(2) by (auto simp: bind_eq_Some_conv)
  let ?cp = "cp\<lparr>instdef_feed_a := feed_send (clk (2 * k)) msg (instdef_feed_a cp),
                instdef_feed_b := feed_send (clk (2 * k + 1)) msg (instdef_feed_b cp)\<rparr>"
  show ?case
  proof (cases "msg = []")
    case True
    then show ?thesis using Cons.IH [OF Cons.prems(1)] Cons.prems(2) m by simp
  next
    case False
    have "channel_ok ?cp incs snaps (defs @ [msg])" using Cons.prems(1) by (simp add: channel_ok_def feed_ok_send)
    from Cons.IH [OF this] Cons.prems(2) m False obtain new where "channel_ok cp' incs snaps ((defs @ [msg]) @ new)" by auto
    then show ?thesis by (intro exI [where x = "msg # new"]) simp
  qed
qed

lemma run_cycle_ok:
  "feed_ok a snaps \<Longrightarrow> feed_ok b snaps \<Longrightarrow> run_cycle provider clk k lseq tot secs (count, a, b) = Some (count', a', b') \<Longrightarrow>
     \<exists>new. feed_ok a' (snaps @ new) \<and> feed_ok b' (snaps @ new)"
proof (induction secs arbitrary: k count a b snaps)
  case Nil
  then show ?case by (intro exI [where x = "[]"]) simp
next
  case (Cons sec secs)
  obtain bids asks bc ac where p: "provider sec = (bids, asks, bc, ac)" by (metis prod_cases4)
  obtain m where m: "buildSnapshot sec lseq tot bids asks bc ac (count + 1) (clk (3 * k)) = Some m"
    using Cons.prems(3) p by (auto simp: bind_eq_Some_conv Let_def)
  show ?case
  proof (cases "m = []")
    case True
    then show ?thesis using Cons.IH [OF Cons.prems(1,2)] Cons.prems(3) p m by (simp add: Let_def)
  next
    case False
    have "run_cycle provider clk (Suc k) lseq tot secs (count + 1, feed_send (clk (3 * k + 1)) m a,
        feed_send (clk (3 * k + 2)) m b) = Some (count', a', b')"
      using Cons.prems(3) p m False by (simp add: Let_def)
    from Cons.IH [OF feed_ok_send feed_ok_send this, OF Cons.prems(1,2)]
    obtain new where "feed_ok a' ((snaps @ [m]) @ new) \<and> feed_ok b' ((snaps @ [m]) @ new)" by blast
    then show ?thesis by (intro exI [where x = "m # new"]) simp
  qed
qed

lemma runCycle_ok:
  assumes ok: "channel_ok cp incs snaps defs" and r: "runCycle provider clk cp = Some cp'"
  shows "\<exists>new. channel_ok cp' incs (snaps @ new) defs"
proof (cases "snapshot_cycler cp")
  case None
  then show ?thesis using assms by (intro exI [where x = "[]"]) (simp add: runCycle_def)
next
  case (Some c)
  then obtain count a b where rc: "run_cycle provider clk 0 (last_incr_seq c) (of_nat (length (cyc_instruments c)))
      (cyc_instruments c) (cycle_count c, snapshot_feed_a cp, snapshot_feed_b cp) = Some (count, a, b)"
    and cp': "cp' = cp\<lparr>snapshot_cycler := Some (c\<lparr>cycle_count := count\<rparr>), snapshot_feed_a := a, snapshot_feed_b := b\<rparr>"
    using r by (auto simp: runCycle_def bind_eq_Some_conv)
  have "feed_ok (snapshot_feed_a cp) snaps" "feed_ok (snapshot_feed_b cp) snaps" using ok by (simp_all add: channel_ok_def)
  from run_cycle_ok [OF this rc] obtain new where "feed_ok a (snaps @ new)" "feed_ok b (snaps @ new)" by blast
  then have "channel_ok cp' incs (snaps @ new) defs" using ok Some by (simp add: channel_ok_def cp')
  then show ?thesis ..
qed

text \<open>Everything that can happen to a channel, by any of the threads that use it.\<close>

inductive channel_reach :: "ChannelPublisher \<Rightarrow> bool" where
  cp_start: "channel_reach (ChannelPublisher_new c)"
| cp_publish: "channel_reach cp \<Longrightarrow> publishIncrementalUpdates ta tb evs t cp = Some cp' \<Longrightarrow> channel_reach cp'"
| cp_status: "channel_reach cp \<Longrightarrow> publishSecurityStatus ta tb sec st t cp = Some cp' \<Longrightarrow> channel_reach cp'"
| cp_defs: "channel_reach cp \<Longrightarrow> replayInstrumentDefinitions clk insts cp = Some cp' \<Longrightarrow> channel_reach cp'"
| cp_init: "channel_reach cp \<Longrightarrow> channel_reach (initSnapshotCycler secs cp)"
| cp_cycle: "channel_reach cp \<Longrightarrow> runCycle provider clk cp = Some cp' \<Longrightarrow> channel_reach cp'"

lemma channel_reach_ok: "channel_reach cp \<Longrightarrow> \<exists>incs snaps defs. channel_ok cp incs snaps defs"
proof (induction rule: channel_reach.induct)
  case (cp_start c)
  then show ?case using channel_ok_new by blast
next
  case cp_publish
  then show ?case using publishIncrementalUpdates_ok by blast
next
  case cp_status
  then show ?case using publishSecurityStatus_ok by blast
next
  case cp_defs
  then show ?case using replay_definitions_ok unfolding replayInstrumentDefinitions_def by blast
next
  case (cp_init cp secs)
  then obtain incs snaps defs where "channel_ok cp incs snaps defs" by blast
  then have "channel_ok (initSnapshotCycler secs cp) incs snaps defs"
    by (simp add: channel_ok_def initSnapshotCycler_def SnapshotCycler_new_def)
  then show ?case by blast
next
  case cp_cycle
  then show ?case using runCycle_ok by blast
qed

text \<open>The two feeds of a pair, for a receiver that listens to both.\<close>

definition redundant :: "bytes list \<Rightarrow> bytes list \<Rightarrow> bool" where
  "redundant as bs \<longleftrightarrow> map numbered_payload as = map numbered_payload bs \<and>
     map (\<lambda>p. decodeMsgSeqNum p 0) as = map (\<lambda>k. Some (of_nat (Suc k))) [0..<length as]"

lemma consecutive_redundant:
  assumes "consecutive as msgs" and "consecutive bs msgs"
  shows "redundant as bs"
proof -
  have l: "length as = length msgs" using assms(1) unfolding consecutive_def by (metis length_map length_enumerate)
  have "map fst (map numbered_payload as) = map fst (map (\<lambda>(k, m). (Some (of_nat (Suc k)), m)) (enumerate 0 msgs))"
    using assms(1) by (simp only: consecutive_def)
  also have "\<dots> = map (\<lambda>k. Some (of_nat (Suc k))) (map fst (enumerate 0 msgs))"
    unfolding map_map by (rule map_cong) (auto simp: comp_def)
  also have "map fst (enumerate 0 msgs) = [0..<length as]" by (simp add: l)
  finally show ?thesis using assms by (simp add: redundant_def consecutive_def numbered_payload_def comp_def)
qed

text \<open>
  The redundant feeds of a channel: after any interleaving of incremental updates, status messages,
  definition replays, snapshot cycles and cycler restarts, the packets on feed A and feed B of each pair
  carry the same messages under the same numbers, numbered 1, 2, 3 and so on without a gap (modulo the
  32-bit counter), and a snapshot announces the number of the channel's last incremental packet (or 0 if
  none was sent since the cycler was set up).
\<close>

theorem feeds_redundant:
  assumes "channel_reach cp"
  shows "redundant (sent (incremental_feed_a cp)) (sent (incremental_feed_b cp)) \<and>
    redundant (sent (snapshot_feed_a cp)) (sent (snapshot_feed_b cp)) \<and>
    redundant (sent (instdef_feed_a cp)) (sent (instdef_feed_b cp)) \<and>
    (\<forall>c. snapshot_cycler cp = Some c \<longrightarrow> last_incr_seq c = 0 \<or> last_incr_seq c = currentIncrementalSeqNum cp)"
proof -
  obtain incs snaps defs where ok: "channel_ok cp incs snaps defs" using channel_reach_ok [OF assms] by blast
  then have "currentIncrementalSeqNum cp = of_nat (length incs)"
    by (simp add: channel_ok_def feed_ok_def currentIncrementalSeqNum_def)
  with ok consecutive_redundant show ?thesis unfolding channel_ok_def feed_ok_def by metis
qed

lemma publishSecurityStatus_succeeds:
  "\<exists>m. publishSecurityStatus ta tb sec st t cp = Some (send_incremental ta tb m cp)"
proof -
  let ?m = "SecurityStatus30_default
       \<lparr>SecurityStatus30.transactTime := t, SecurityStatus30.securityID := of_int sec,
        SecurityStatus30.securityTradingStatus := SecurityTradingStatus_code st,
        SecurityStatus30.matchEventIndicator := EndOfEvent\<rparr>"
  have "SecurityStatus30_wf ?m" by (simp add: SecurityStatus30_wf_def SecurityStatus30_default_def)
  from securityStatus30.to_buffer_wire [OF this] show ?thesis
    by (auto simp: publishSecurityStatus_def MessageHeader_SIZE_def Let_def)
qed

theorem feeds_redundant_witness:
  "\<exists>cp. channel_reach cp \<and> length (sent (incremental_feed_a cp)) = 2 \<and>
     redundant (sent (incremental_feed_a cp)) (sent (incremental_feed_b cp))"
proof -
  obtain m1 where 1: "publishSecurityStatus 5 6 1 Open 4 (ChannelPublisher_new 310) =
      Some (send_incremental 5 6 m1 (ChannelPublisher_new 310))" using publishSecurityStatus_succeeds by blast
  let ?c1 = "send_incremental 5 6 m1 (ChannelPublisher_new 310)"
  obtain m2 where 2: "publishSecurityStatus 8 9 1 Halt 7 ?c1 = Some (send_incremental 8 9 m2 ?c1)"
    using publishSecurityStatus_succeeds by blast
  let ?c2 = "send_incremental 8 9 m2 ?c1"
  have r: "channel_reach ?c2" by (rule cp_status [OF cp_status [OF cp_start 1] 2])
  moreover have "length (sent (incremental_feed_a ?c2)) = 2"
    by (simp add: send_incremental_def feed_send_def ChannelPublisher_new_def FeedSender_new_def Let_def)
  ultimately show ?thesis using feeds_redundant [OF r] by blast
qed

section \<open>Routing\<close>

definition channel_events :: "MarketDataPublisher \<Rightarrow> int \<Rightarrow> EngineEvent list \<Rightarrow> EngineEvent list" where
  "channel_events p ch evs = (if ch = 0 then []
     else filter (\<lambda>ev. \<exists>sec. event_security ev = Some sec \<and> getChannelForSecurity sec p = ch) evs)"

lemma channel_events_simps:
  "channel_events p ch [] = []"
  "event_security ev = None \<Longrightarrow> channel_events p ch (ev # evs) = channel_events p ch evs"
  "event_security ev = Some sec \<Longrightarrow> channel_events p ch (ev # evs) =
     (if ch \<noteq> 0 \<and> getChannelForSecurity sec p = ch then ev # channel_events p ch evs else channel_events p ch evs)"
  by (simp_all add: channel_events_def)

definition grouped :: "(int \<times> EngineEvent list) list \<Rightarrow> int \<Rightarrow> EngineEvent list" where
  "grouped m ch = (case map_of m ch of None \<Rightarrow> [] | Some es \<Rightarrow> es)"

lemma grouped_update: "grouped (AList.update c es m) ch = (if ch = c then es else grouped m ch)"
  by (simp add: grouped_def update_conv')

lemma group_events_grouped:
  "distinct (map fst m) \<Longrightarrow> distinct (map fst (group_events p evs m)) \<and>
     grouped (group_events p evs m) ch = grouped m ch @ channel_events p ch evs"
proof (induction p evs m rule: group_events.induct)
  case (1 p by_channel)
  then show ?case by (simp add: channel_events_simps)
next
  case (2 p ev evs m)
  show ?case
  proof (cases "event_security ev")
    case None
    then show ?thesis using 2 by (simp add: channel_events_simps)
  next
    case (Some sec)
    let ?c = "getChannelForSecurity sec p"
    show ?thesis
    proof (cases "?c = 0")
      case True
      then show ?thesis using 2 Some by (simp add: channel_events_simps Let_def)
    next
      case False
      have "(case map_of m ?c of None \<Rightarrow> [] | Some es \<Rightarrow> es) = grouped m ?c" by (simp add: grouped_def)
      with 2 Some False show ?thesis by (simp add: channel_events_simps grouped_update distinct_update Let_def)
    qed
  qed
qed

lemma publishIncrementalUpdates_none: "publishIncrementalUpdates ta tb [] ts cp = Some cp"
  by (simp add: publishIncrementalUpdates_def)

lemma publish_groups_routed:
  "publish_groups clk ts k gs p = Some p' \<Longrightarrow> distinct (map fst gs) \<Longrightarrow>
     security_to_channel p' = security_to_channel p \<and>
     (case map_of (channel_publishers p) ch of
        None \<Rightarrow> map_of (channel_publishers p') ch = None
      | Some cp \<Rightarrow> \<exists>ta tb cp'. publishIncrementalUpdates ta tb (grouped gs ch) ts cp = Some cp' \<and>
          map_of (channel_publishers p') ch = Some cp')"
proof (induction clk ts k gs p rule: publish_groups.induct)
  case (1 clk ts k p)
  then show ?case by (simp add: grouped_def publishIncrementalUpdates_none split: option.splits)
next
  case (2 clk ts k c evs gs p)
  have nin: "map_of gs c = None" using 2(4) by (simp add: map_of_eq_None_iff)
  have g: "grouped ((c, evs) # gs) ch = (if ch = c then evs else grouped gs ch)" for ch by (simp add: grouped_def)
  show ?case
  proof (cases "map_of (channel_publishers p) c")
    case None
    then show ?thesis using 2 by (cases "ch = c") (simp_all add: g split: option.splits)
  next
    case (Some cp)
    obtain cp1 where u: "publishIncrementalUpdates (clk (2 * k)) (clk (2 * k + 1)) evs ts cp = Some cp1"
      and r: "publish_groups clk ts (Suc k) gs (p\<lparr>channel_publishers := AList.update c cp1 (channel_publishers p)\<rparr>) = Some p'"
      using 2(3) Some by (auto simp: bind_eq_Some_conv)
    have IH: "security_to_channel p' = security_to_channel p \<and>
     (case map_of (AList.update c cp1 (channel_publishers p)) ch of
        None \<Rightarrow> map_of (channel_publishers p') ch = None
      | Some cp \<Rightarrow> \<exists>ta tb cp'. publishIncrementalUpdates ta tb (grouped gs ch) ts cp = Some cp' \<and>
          map_of (channel_publishers p') ch = Some cp')"
      using 2(2) [OF Some u r] 2(4) by simp
    show ?thesis
    proof (cases "ch = c")
      case True
      have "grouped gs c = []" using nin by (simp add: grouped_def)
      then have "map_of (channel_publishers p') c = Some cp1"
        using IH True by (simp add: update_conv' publishIncrementalUpdates_none)
      then show ?thesis using IH True u Some by (auto simp: g)
    next
      case False
      then show ?thesis using IH by (simp add: g update_conv' split: option.splits)
    qed
  qed
qed

text \<open>
  Routing of market data: publishing a batch of engine events gives every channel exactly the book
  updates and fills of the securities of that channel, in the order of the batch, and leaves the channels
  without such events as they were; no channel is added or lost.
\<close>

lemma events_routed:
  assumes "publishEvents clk ts evs p = Some p'"
  shows "case getChannelPublisher ch p of
      None \<Rightarrow> getChannelPublisher ch p' = None
    | Some cp \<Rightarrow> \<exists>ta tb cp'. getChannelPublisher ch p' = Some cp' \<and>
        publishIncrementalUpdates ta tb (channel_events p ch evs) ts cp = Some cp' \<and>
        (channel_events p ch evs = [] \<longrightarrow> cp' = cp)"
proof (cases "evs = []")
  case True
  then show ?thesis using assms
    by (simp add: publishEvents_def channel_events_simps publishIncrementalUpdates_none split: option.splits)
next
  case False
  have "publish_groups clk ts 0 (group_events p evs []) p = Some p'" using assms False by (simp add: publishEvents_def)
  from publish_groups_routed [OF this, of ch] group_events_grouped [of "[]" p evs ch]
  show ?thesis
    by (auto simp: getChannelPublisher_def grouped_def publishIncrementalUpdates_none split: option.splits)
qed

text \<open>Publishing never fails.\<close>

lemma publishIncrementalUpdates_total: "\<exists>cp'. publishIncrementalUpdates ta tb evs t cp = Some cp'"
  using buildIncrementalPacket_total [of evs t "incremental_builder cp"]
  by (auto simp: publishIncrementalUpdates_def Let_def)

lemma publish_groups_total: "\<exists>p'. publish_groups clk ts k gs p = Some p'"
proof (induction gs arbitrary: k p)
  case (Cons g gs)
  obtain ch evs where g: "g = (ch, evs)" by (cases g)
  show ?case
  proof (cases "map_of (channel_publishers p) ch")
    case None
    then show ?thesis using Cons g by simp
  next
    case (Some cp)
    obtain cp' where "publishIncrementalUpdates (clk (2 * k)) (clk (2 * k + 1)) evs ts cp = Some cp'"
      using publishIncrementalUpdates_total by blast
    then show ?thesis using Cons g Some by simp
  qed
qed simp

lemma publishEvents_total: "\<exists>p'. publishEvents clk ts evs p = Some p'"
  using publish_groups_total by (simp add: publishEvents_def)

end
