(* ===== verification/Retransmit_Buffer.thy ===== *)
theory Retransmit_Buffer
  imports Byte_Codec
begin

text \<open>
  \<^verbatim>\<open>src/fixp/retransmit_buffer.h\<close>: the ring of recent outbound messages, indexed by sequence number
  modulo the capacity.  A capacity of zero would divide by zero; the session uses 10000.
\<close>

record RetransmitEntry =
  entry_seq_num :: "32 word"
  entry_data :: bytes

record RetransmitBuffer =
  capacity :: nat
  ring_entries :: "RetransmitEntry list"

definition RetransmitBuffer_new :: "nat \<Rightarrow> RetransmitBuffer" where
  "RetransmitBuffer_new cap =
     \<lparr>capacity = cap, ring_entries = replicate cap \<lparr>entry_seq_num = 0, entry_data = []\<rparr>\<rparr>"

definition ring_store :: "32 word \<Rightarrow> bytes \<Rightarrow> RetransmitBuffer \<Rightarrow> RetransmitBuffer" where
  "ring_store seq_num data r =
     (let idx = unat seq_num mod capacity r
      in r\<lparr>ring_entries := (ring_entries r)[idx := \<lparr>entry_seq_num = seq_num, entry_data = data\<rparr>]\<rparr>)"

definition ring_retrieve :: "32 word \<Rightarrow> RetransmitBuffer \<Rightarrow> bytes option" where
  "ring_retrieve seq_num r =
     (let idx = unat seq_num mod capacity r; e = ring_entries r ! idx
      in if entry_seq_num e = seq_num \<and> entry_data e \<noteq> [] then Some (entry_data e) else None)"

definition ring_ok :: "RetransmitBuffer \<Rightarrow> bool" where
  "ring_ok r \<longleftrightarrow> 0 < capacity r \<and> length (ring_entries r) = capacity r"

lemma ring_new_ok: "0 < cap \<Longrightarrow> ring_ok (RetransmitBuffer_new cap)"
  by (simp add: ring_ok_def RetransmitBuffer_new_def)

lemma ring_store_ok: "ring_ok r \<Longrightarrow> ring_ok (ring_store n d r)"
  by (simp add: ring_ok_def ring_store_def Let_def)

lemma ring_store_capacity [simp]: "capacity (ring_store n d r) = capacity r"
  by (simp add: ring_store_def Let_def)

lemma ring_retrieve_new: "0 < cap \<Longrightarrow> ring_retrieve n (RetransmitBuffer_new cap) = None"
  by (simp add: ring_retrieve_def RetransmitBuffer_new_def Let_def)

lemma ring_retrieve_store:
  assumes "ring_ok r"
  shows "ring_retrieve n (ring_store m d r) =
    (if n = m then (if d = [] then None else Some d)
     else if unat n mod capacity r = unat m mod capacity r then None
     else ring_retrieve n r)"
  using assms by (auto simp: ring_retrieve_def ring_store_def ring_ok_def Let_def nth_list_update)

section \<open>The window of recent messages\<close>

text \<open>Storing a sequence of messages under consecutive numbers from \<open>n\<close> on.\<close>

fun store_all :: "nat \<Rightarrow> bytes list \<Rightarrow> RetransmitBuffer \<Rightarrow> RetransmitBuffer" where
  "store_all n [] r = r"
| "store_all n (d # ds) r = store_all (Suc n) ds (ring_store (of_nat n) d r)"

lemma store_all_ok: "ring_ok r \<Longrightarrow> ring_ok (store_all n ds r) \<and> capacity (store_all n ds r) = capacity r"
  by (induction n ds r rule: store_all.induct) (auto simp: ring_store_ok)

lemma store_all_append:
  "store_all n (ds @ [d]) r = ring_store (of_nat (n + length ds)) d (store_all n ds r)"
  by (induction n ds r rule: store_all.induct) auto

lemma mod_eq_close:
  fixes a b c :: nat
  assumes "a < b" and "a mod c = b mod c"
  shows "c \<le> b - a"
  using assms by (metis dvd_imp_le less_imp_le mod_eq_dvd_iff_nat zero_less_diff)

lemma store_all_retrieve:
  assumes "ring_ok r" and "n + length ds < 2 ^ 32" and "i < length ds"
    and "length ds \<le> i + capacity r" and "ds ! i \<noteq> []"
  shows "ring_retrieve (of_nat (n + i)) (store_all n ds r) = Some (ds ! i)"
  using assms
proof (induction ds rule: rev_induct)
  case (snoc d ds)
  let ?r = "store_all n ds r"
  note ok = store_all_ok [OF snoc.prems(1), of n ds]
  have u: "unat (of_nat (n + k) :: 32 word) = n + k" if "k \<le> length ds" for k
    using snoc.prems(2) that by (simp only: unat_of_nat) simp
  show ?case
  proof (cases "i = length ds")
    case True
    then show ?thesis using ok snoc.prems(5) by (simp add: store_all_append ring_retrieve_store)
  next
    case False
    then have i: "i < length ds" using snoc.prems(3) by simp
    have ne: "(of_nat (n + i) :: 32 word) \<noteq> of_nat (n + length ds)"
    proof
      assume "(of_nat (n + i) :: 32 word) = of_nat (n + length ds)"
      then have "n + i = n + length ds" using u [of i] u [of "length ds"] i by (metis less_imp_le order_refl)
      with i show False by simp
    qed
    have "(n + i) mod capacity r \<noteq> (n + length ds) mod capacity r"
      using mod_eq_close [of "n + i" "n + length ds" "capacity r"] i snoc.prems(4) by auto
    moreover have "ring_retrieve (of_nat (n + i)) ?r = Some (ds ! i)"
      using snoc i by (simp add: nth_append)
    ultimately show ?thesis
      using ok ne u [of i] u [of "length ds"] i
      by (simp add: store_all_append ring_retrieve_store nth_append)
  qed
qed simp

text \<open>
  The retransmission window: after any number of messages have been stored under consecutive sequence
  numbers from 1 on (without the 32-bit number wrapping), every one of the most recent \<open>capacity\<close>
  messages is retrieved under its number, byte for byte.
\<close>

theorem retransmit_window:
  assumes "0 < cap" and "1 + length ds < 2 ^ 32" and "i < length ds" and "length ds \<le> i + cap"
    and "ds ! i \<noteq> []"
  shows "ring_retrieve (of_nat (1 + i)) (store_all 1 ds (RetransmitBuffer_new cap)) = Some (ds ! i)"
  using store_all_retrieve [OF ring_new_ok [OF assms(1)], of 1 ds i] assms
  by (simp add: RetransmitBuffer_new_def)

theorem retransmit_window_witness:
  "ring_retrieve 3 (store_all 1 [[1], [2], [3], [4]] (RetransmitBuffer_new 2)) = Some [3]"
  using retransmit_window [of 2 "[[1], [2], [3], [4]]" 2] by simp

end
