(* ===== verification/ILink3_Session.thy ===== *)
theory ILink3_Session
  imports Sbe_Framing
begin

text \<open>
  \<^verbatim>\<open>src/sbe/ilink3_messages.h\<close>, the session-layer messages (templates 500 to 513): for each struct a
  record of its members, its defaults, the copies of \<^verbatim>\<open>encode\<close> as (offset, bytes) in source order, and
  \<^verbatim>\<open>decode\<close>.  A \<^verbatim>\<open>char x[n]\<close> member is a list whose length \<open>wf\<close> fixes; signed integers are words
  that their readers interpret with \<open>sint\<close>.  Each codec is an interpretation of \<open>sbe_message\<close>.
\<close>

subsection \<open>Negotiate500\<close>

record Negotiate500 =
  hmacSignature :: bytes
  accessKeyID :: bytes
  uuid :: "64 word"
  sendingTime :: "64 word"
  session :: bytes
  firm :: bytes
  cancelOnDisconnectIndicator :: "8 word"
  cancelOnRejectConID :: "64 word"

definition Negotiate500_default :: Negotiate500 where
  "Negotiate500_default = \<lparr>Negotiate500.hmacSignature = replicate 32 0,
     Negotiate500.accessKeyID = replicate 20 0,
     Negotiate500.uuid = 0,
     Negotiate500.sendingTime = 0,
     Negotiate500.session = replicate 3 0,
     Negotiate500.firm = replicate 5 0,
     Negotiate500.cancelOnDisconnectIndicator = 0,
     Negotiate500.cancelOnRejectConID = 0\<rparr>"

definition Negotiate500_TEMPLATE_ID :: "16 word" where "Negotiate500_TEMPLATE_ID = 500"
definition Negotiate500_BLOCK_LENGTH :: "16 word" where "Negotiate500_BLOCK_LENGTH = 85"

definition Negotiate500_fields :: "Negotiate500 \<Rightarrow> (nat \<times> bytes) list" where
  "Negotiate500_fields m = [
     (0, Negotiate500.hmacSignature m),
     (32, Negotiate500.accessKeyID m),
     (52, le 8 (Negotiate500.uuid m)),
     (60, le 8 (Negotiate500.sendingTime m)),
     (68, Negotiate500.session m),
     (71, Negotiate500.firm m),
     (76, le 1 (Negotiate500.cancelOnDisconnectIndicator m)),
     (77, le 8 (Negotiate500.cancelOnRejectConID m))]"

definition Negotiate500_encode :: "Negotiate500 \<Rightarrow> bytes \<Rightarrow> nat \<Rightarrow> (bytes \<times> nat) option" where
  "Negotiate500_encode m buf offset =
     ilink3_encode Negotiate500_BLOCK_LENGTH Negotiate500_TEMPLATE_ID (Negotiate500_fields m) buf offset"

definition Negotiate500_decode :: "bytes \<Rightarrow> nat \<Rightarrow> Negotiate500 option" where
  "Negotiate500_decode buf offset =
     (let b = offset + MessageHeader_SIZE in do {
        hmacSignature \<leftarrow> read_bytes buf (b + 0) 32;
        accessKeyID \<leftarrow> read_bytes buf (b + 32) 20;
        uuid \<leftarrow> read_le buf (b + 52) 8;
        sendingTime \<leftarrow> read_le buf (b + 60) 8;
        session \<leftarrow> read_bytes buf (b + 68) 3;
        firm \<leftarrow> read_bytes buf (b + 71) 5;
        cancelOnDisconnectIndicator \<leftarrow> read_le buf (b + 76) 1;
        cancelOnRejectConID \<leftarrow> read_le buf (b + 77) 8;
        Some \<lparr>Negotiate500.hmacSignature = hmacSignature,
          Negotiate500.accessKeyID = accessKeyID,
          Negotiate500.uuid = uuid,
          Negotiate500.sendingTime = sendingTime,
          Negotiate500.session = session,
          Negotiate500.firm = firm,
          Negotiate500.cancelOnDisconnectIndicator = cancelOnDisconnectIndicator,
          Negotiate500.cancelOnRejectConID = cancelOnRejectConID\<rparr>
     })"

definition Negotiate500_wf :: "Negotiate500 \<Rightarrow> bool" where
  "Negotiate500_wf m \<longleftrightarrow> length (Negotiate500.hmacSignature m) = 32 \<and>
     length (Negotiate500.accessKeyID m) = 20 \<and>
     length (Negotiate500.session m) = 3 \<and>
     length (Negotiate500.firm m) = 5"

interpretation negotiate500: sbe_message ILINK3_SCHEMA_ID ILINK3_VERSION Negotiate500_BLOCK_LENGTH Negotiate500_TEMPLATE_ID
  Negotiate500_fields "\<lambda>_. unat Negotiate500_BLOCK_LENGTH" Negotiate500_encode Negotiate500_decode Negotiate500_wf
proof
  fix m buf off
  show "Negotiate500_encode m buf off = sbe_encode ILINK3_SCHEMA_ID ILINK3_VERSION Negotiate500_BLOCK_LENGTH
      Negotiate500_TEMPLATE_ID (Negotiate500_fields m) (unat Negotiate500_BLOCK_LENGTH) buf off"
    by (simp add: Negotiate500_encode_def ilink3_encode_def)
  show "Negotiate500_wf m \<Longrightarrow> packed 0 (Negotiate500_fields m) \<and> length (body_of (Negotiate500_fields m)) = unat Negotiate500_BLOCK_LENGTH"
    by (simp add: Negotiate500_wf_def Negotiate500_fields_def Negotiate500_BLOCK_LENGTH_def)
  show "Negotiate500_wf m \<Longrightarrow> reads_fields buf (off + 8) (Negotiate500_fields m) \<Longrightarrow> Negotiate500_decode buf off = Some m"
    by (cases m) (simp add: Negotiate500_wf_def Negotiate500_fields_def Negotiate500_decode_def sbe_decode_simps)
qed


subsection \<open>NegotiationResponse501\<close>

record NegotiationResponse501 =
  uuid :: "64 word"
  requestTimestamp :: "64 word"
  secretKeySecureIDExpiration :: "16 word"
  faultToleranceIndicator :: "8 word"
  splitMsg :: "8 word"
  previousSeqNo :: "32 word"
  previousUUID :: "64 word"

definition NegotiationResponse501_default :: NegotiationResponse501 where
  "NegotiationResponse501_default = \<lparr>NegotiationResponse501.uuid = 0,
     NegotiationResponse501.requestTimestamp = 0,
     NegotiationResponse501.secretKeySecureIDExpiration = 0,
     NegotiationResponse501.faultToleranceIndicator = 0,
     NegotiationResponse501.splitMsg = 0,
     NegotiationResponse501.previousSeqNo = 0,
     NegotiationResponse501.previousUUID = 0\<rparr>"

definition NegotiationResponse501_TEMPLATE_ID :: "16 word" where "NegotiationResponse501_TEMPLATE_ID = 501"
definition NegotiationResponse501_BLOCK_LENGTH :: "16 word" where "NegotiationResponse501_BLOCK_LENGTH = 32"

definition NegotiationResponse501_fields :: "NegotiationResponse501 \<Rightarrow> (nat \<times> bytes) list" where
  "NegotiationResponse501_fields m = [
     (0, le 8 (NegotiationResponse501.uuid m)),
     (8, le 8 (NegotiationResponse501.requestTimestamp m)),
     (16, le 2 (NegotiationResponse501.secretKeySecureIDExpiration m)),
     (18, le 1 (NegotiationResponse501.faultToleranceIndicator m)),
     (19, le 1 (NegotiationResponse501.splitMsg m)),
     (20, le 4 (NegotiationResponse501.previousSeqNo m)),
     (24, le 8 (NegotiationResponse501.previousUUID m))]"

definition NegotiationResponse501_encode :: "NegotiationResponse501 \<Rightarrow> bytes \<Rightarrow> nat \<Rightarrow> (bytes \<times> nat) option" where
  "NegotiationResponse501_encode m buf offset =
     ilink3_encode NegotiationResponse501_BLOCK_LENGTH NegotiationResponse501_TEMPLATE_ID (NegotiationResponse501_fields m) buf offset"

definition NegotiationResponse501_decode :: "bytes \<Rightarrow> nat \<Rightarrow> NegotiationResponse501 option" where
  "NegotiationResponse501_decode buf offset =
     (let b = offset + MessageHeader_SIZE in do {
        uuid \<leftarrow> read_le buf (b + 0) 8;
        requestTimestamp \<leftarrow> read_le buf (b + 8) 8;
        secretKeySecureIDExpiration \<leftarrow> read_le buf (b + 16) 2;
        faultToleranceIndicator \<leftarrow> read_le buf (b + 18) 1;
        splitMsg \<leftarrow> read_le buf (b + 19) 1;
        previousSeqNo \<leftarrow> read_le buf (b + 20) 4;
        previousUUID \<leftarrow> read_le buf (b + 24) 8;
        Some \<lparr>NegotiationResponse501.uuid = uuid,
          NegotiationResponse501.requestTimestamp = requestTimestamp,
          NegotiationResponse501.secretKeySecureIDExpiration = secretKeySecureIDExpiration,
          NegotiationResponse501.faultToleranceIndicator = faultToleranceIndicator,
          NegotiationResponse501.splitMsg = splitMsg,
          NegotiationResponse501.previousSeqNo = previousSeqNo,
          NegotiationResponse501.previousUUID = previousUUID\<rparr>
     })"

definition NegotiationResponse501_wf :: "NegotiationResponse501 \<Rightarrow> bool" where
  "NegotiationResponse501_wf m \<longleftrightarrow> True"

interpretation negotiationResponse501: sbe_message ILINK3_SCHEMA_ID ILINK3_VERSION NegotiationResponse501_BLOCK_LENGTH NegotiationResponse501_TEMPLATE_ID
  NegotiationResponse501_fields "\<lambda>_. unat NegotiationResponse501_BLOCK_LENGTH" NegotiationResponse501_encode NegotiationResponse501_decode NegotiationResponse501_wf
proof
  fix m buf off
  show "NegotiationResponse501_encode m buf off = sbe_encode ILINK3_SCHEMA_ID ILINK3_VERSION NegotiationResponse501_BLOCK_LENGTH
      NegotiationResponse501_TEMPLATE_ID (NegotiationResponse501_fields m) (unat NegotiationResponse501_BLOCK_LENGTH) buf off"
    by (simp add: NegotiationResponse501_encode_def ilink3_encode_def)
  show "NegotiationResponse501_wf m \<Longrightarrow> packed 0 (NegotiationResponse501_fields m) \<and> length (body_of (NegotiationResponse501_fields m)) = unat NegotiationResponse501_BLOCK_LENGTH"
    by (simp add: NegotiationResponse501_wf_def NegotiationResponse501_fields_def NegotiationResponse501_BLOCK_LENGTH_def)
  show "NegotiationResponse501_wf m \<Longrightarrow> reads_fields buf (off + 8) (NegotiationResponse501_fields m) \<Longrightarrow> NegotiationResponse501_decode buf off = Some m"
    by (cases m) (simp add: NegotiationResponse501_wf_def NegotiationResponse501_fields_def NegotiationResponse501_decode_def sbe_decode_simps)
qed


subsection \<open>Establish503\<close>

record Establish503 =
  hmacSignature :: bytes
  accessKeyID :: bytes
  uuid :: "64 word"
  sendingTime :: "64 word"
  session :: bytes
  firm :: bytes
  keepAliveInterval :: "16 word"
  nextSeqNo :: "32 word"
  cancelOnDisconnectIndicator :: "8 word"

definition Establish503_default :: Establish503 where
  "Establish503_default = \<lparr>Establish503.hmacSignature = replicate 32 0,
     Establish503.accessKeyID = replicate 20 0,
     Establish503.uuid = 0,
     Establish503.sendingTime = 0,
     Establish503.session = replicate 3 0,
     Establish503.firm = replicate 5 0,
     Establish503.keepAliveInterval = 0,
     Establish503.nextSeqNo = 0,
     Establish503.cancelOnDisconnectIndicator = 0\<rparr>"

definition Establish503_TEMPLATE_ID :: "16 word" where "Establish503_TEMPLATE_ID = 503"
definition Establish503_BLOCK_LENGTH :: "16 word" where "Establish503_BLOCK_LENGTH = 83"

definition Establish503_fields :: "Establish503 \<Rightarrow> (nat \<times> bytes) list" where
  "Establish503_fields m = [
     (0, Establish503.hmacSignature m),
     (32, Establish503.accessKeyID m),
     (52, le 8 (Establish503.uuid m)),
     (60, le 8 (Establish503.sendingTime m)),
     (68, Establish503.session m),
     (71, Establish503.firm m),
     (76, le 2 (Establish503.keepAliveInterval m)),
     (78, le 4 (Establish503.nextSeqNo m)),
     (82, le 1 (Establish503.cancelOnDisconnectIndicator m))]"

definition Establish503_encode :: "Establish503 \<Rightarrow> bytes \<Rightarrow> nat \<Rightarrow> (bytes \<times> nat) option" where
  "Establish503_encode m buf offset =
     ilink3_encode Establish503_BLOCK_LENGTH Establish503_TEMPLATE_ID (Establish503_fields m) buf offset"

definition Establish503_decode :: "bytes \<Rightarrow> nat \<Rightarrow> Establish503 option" where
  "Establish503_decode buf offset =
     (let b = offset + MessageHeader_SIZE in do {
        hmacSignature \<leftarrow> read_bytes buf (b + 0) 32;
        accessKeyID \<leftarrow> read_bytes buf (b + 32) 20;
        uuid \<leftarrow> read_le buf (b + 52) 8;
        sendingTime \<leftarrow> read_le buf (b + 60) 8;
        session \<leftarrow> read_bytes buf (b + 68) 3;
        firm \<leftarrow> read_bytes buf (b + 71) 5;
        keepAliveInterval \<leftarrow> read_le buf (b + 76) 2;
        nextSeqNo \<leftarrow> read_le buf (b + 78) 4;
        cancelOnDisconnectIndicator \<leftarrow> read_le buf (b + 82) 1;
        Some \<lparr>Establish503.hmacSignature = hmacSignature,
          Establish503.accessKeyID = accessKeyID,
          Establish503.uuid = uuid,
          Establish503.sendingTime = sendingTime,
          Establish503.session = session,
          Establish503.firm = firm,
          Establish503.keepAliveInterval = keepAliveInterval,
          Establish503.nextSeqNo = nextSeqNo,
          Establish503.cancelOnDisconnectIndicator = cancelOnDisconnectIndicator\<rparr>
     })"

definition Establish503_wf :: "Establish503 \<Rightarrow> bool" where
  "Establish503_wf m \<longleftrightarrow> length (Establish503.hmacSignature m) = 32 \<and>
     length (Establish503.accessKeyID m) = 20 \<and>
     length (Establish503.session m) = 3 \<and>
     length (Establish503.firm m) = 5"

interpretation establish503: sbe_message ILINK3_SCHEMA_ID ILINK3_VERSION Establish503_BLOCK_LENGTH Establish503_TEMPLATE_ID
  Establish503_fields "\<lambda>_. unat Establish503_BLOCK_LENGTH" Establish503_encode Establish503_decode Establish503_wf
proof
  fix m buf off
  show "Establish503_encode m buf off = sbe_encode ILINK3_SCHEMA_ID ILINK3_VERSION Establish503_BLOCK_LENGTH
      Establish503_TEMPLATE_ID (Establish503_fields m) (unat Establish503_BLOCK_LENGTH) buf off"
    by (simp add: Establish503_encode_def ilink3_encode_def)
  show "Establish503_wf m \<Longrightarrow> packed 0 (Establish503_fields m) \<and> length (body_of (Establish503_fields m)) = unat Establish503_BLOCK_LENGTH"
    by (simp add: Establish503_wf_def Establish503_fields_def Establish503_BLOCK_LENGTH_def)
  show "Establish503_wf m \<Longrightarrow> reads_fields buf (off + 8) (Establish503_fields m) \<Longrightarrow> Establish503_decode buf off = Some m"
    by (cases m) (simp add: Establish503_wf_def Establish503_fields_def Establish503_decode_def sbe_decode_simps)
qed


subsection \<open>EstablishmentAck504\<close>

record EstablishmentAck504 =
  uuid :: "64 word"
  requestTimestamp :: "64 word"
  keepAliveInterval :: "16 word"
  nextSeqNo :: "32 word"
  previousSeqNo :: "32 word"
  previousUUID :: "64 word"

definition EstablishmentAck504_default :: EstablishmentAck504 where
  "EstablishmentAck504_default = \<lparr>EstablishmentAck504.uuid = 0,
     EstablishmentAck504.requestTimestamp = 0,
     EstablishmentAck504.keepAliveInterval = 0,
     EstablishmentAck504.nextSeqNo = 0,
     EstablishmentAck504.previousSeqNo = 0,
     EstablishmentAck504.previousUUID = 0\<rparr>"

definition EstablishmentAck504_TEMPLATE_ID :: "16 word" where "EstablishmentAck504_TEMPLATE_ID = 504"
definition EstablishmentAck504_BLOCK_LENGTH :: "16 word" where "EstablishmentAck504_BLOCK_LENGTH = 34"

definition EstablishmentAck504_fields :: "EstablishmentAck504 \<Rightarrow> (nat \<times> bytes) list" where
  "EstablishmentAck504_fields m = [
     (0, le 8 (EstablishmentAck504.uuid m)),
     (8, le 8 (EstablishmentAck504.requestTimestamp m)),
     (16, le 2 (EstablishmentAck504.keepAliveInterval m)),
     (18, le 4 (EstablishmentAck504.nextSeqNo m)),
     (22, le 4 (EstablishmentAck504.previousSeqNo m)),
     (26, le 8 (EstablishmentAck504.previousUUID m))]"

definition EstablishmentAck504_encode :: "EstablishmentAck504 \<Rightarrow> bytes \<Rightarrow> nat \<Rightarrow> (bytes \<times> nat) option" where
  "EstablishmentAck504_encode m buf offset =
     ilink3_encode EstablishmentAck504_BLOCK_LENGTH EstablishmentAck504_TEMPLATE_ID (EstablishmentAck504_fields m) buf offset"

definition EstablishmentAck504_decode :: "bytes \<Rightarrow> nat \<Rightarrow> EstablishmentAck504 option" where
  "EstablishmentAck504_decode buf offset =
     (let b = offset + MessageHeader_SIZE in do {
        uuid \<leftarrow> read_le buf (b + 0) 8;
        requestTimestamp \<leftarrow> read_le buf (b + 8) 8;
        keepAliveInterval \<leftarrow> read_le buf (b + 16) 2;
        nextSeqNo \<leftarrow> read_le buf (b + 18) 4;
        previousSeqNo \<leftarrow> read_le buf (b + 22) 4;
        previousUUID \<leftarrow> read_le buf (b + 26) 8;
        Some \<lparr>EstablishmentAck504.uuid = uuid,
          EstablishmentAck504.requestTimestamp = requestTimestamp,
          EstablishmentAck504.keepAliveInterval = keepAliveInterval,
          EstablishmentAck504.nextSeqNo = nextSeqNo,
          EstablishmentAck504.previousSeqNo = previousSeqNo,
          EstablishmentAck504.previousUUID = previousUUID\<rparr>
     })"

definition EstablishmentAck504_wf :: "EstablishmentAck504 \<Rightarrow> bool" where
  "EstablishmentAck504_wf m \<longleftrightarrow> True"

interpretation establishmentAck504: sbe_message ILINK3_SCHEMA_ID ILINK3_VERSION EstablishmentAck504_BLOCK_LENGTH EstablishmentAck504_TEMPLATE_ID
  EstablishmentAck504_fields "\<lambda>_. unat EstablishmentAck504_BLOCK_LENGTH" EstablishmentAck504_encode EstablishmentAck504_decode EstablishmentAck504_wf
proof
  fix m buf off
  show "EstablishmentAck504_encode m buf off = sbe_encode ILINK3_SCHEMA_ID ILINK3_VERSION EstablishmentAck504_BLOCK_LENGTH
      EstablishmentAck504_TEMPLATE_ID (EstablishmentAck504_fields m) (unat EstablishmentAck504_BLOCK_LENGTH) buf off"
    by (simp add: EstablishmentAck504_encode_def ilink3_encode_def)
  show "EstablishmentAck504_wf m \<Longrightarrow> packed 0 (EstablishmentAck504_fields m) \<and> length (body_of (EstablishmentAck504_fields m)) = unat EstablishmentAck504_BLOCK_LENGTH"
    by (simp add: EstablishmentAck504_wf_def EstablishmentAck504_fields_def EstablishmentAck504_BLOCK_LENGTH_def)
  show "EstablishmentAck504_wf m \<Longrightarrow> reads_fields buf (off + 8) (EstablishmentAck504_fields m) \<Longrightarrow> EstablishmentAck504_decode buf off = Some m"
    by (cases m) (simp add: EstablishmentAck504_wf_def EstablishmentAck504_fields_def EstablishmentAck504_decode_def sbe_decode_simps)
qed


subsection \<open>Sequence506\<close>

record Sequence506 =
  uuid :: "64 word"
  nextSeqNo :: "32 word"
  faultToleranceIndicator :: "8 word"
  keepAliveIntervalLapsed :: "8 word"

definition Sequence506_default :: Sequence506 where
  "Sequence506_default = \<lparr>Sequence506.uuid = 0,
     Sequence506.nextSeqNo = 0,
     Sequence506.faultToleranceIndicator = 0,
     Sequence506.keepAliveIntervalLapsed = 0\<rparr>"

definition Sequence506_TEMPLATE_ID :: "16 word" where "Sequence506_TEMPLATE_ID = 506"
definition Sequence506_BLOCK_LENGTH :: "16 word" where "Sequence506_BLOCK_LENGTH = 14"

definition Sequence506_fields :: "Sequence506 \<Rightarrow> (nat \<times> bytes) list" where
  "Sequence506_fields m = [
     (0, le 8 (Sequence506.uuid m)),
     (8, le 4 (Sequence506.nextSeqNo m)),
     (12, le 1 (Sequence506.faultToleranceIndicator m)),
     (13, le 1 (Sequence506.keepAliveIntervalLapsed m))]"

definition Sequence506_encode :: "Sequence506 \<Rightarrow> bytes \<Rightarrow> nat \<Rightarrow> (bytes \<times> nat) option" where
  "Sequence506_encode m buf offset =
     ilink3_encode Sequence506_BLOCK_LENGTH Sequence506_TEMPLATE_ID (Sequence506_fields m) buf offset"

definition Sequence506_decode :: "bytes \<Rightarrow> nat \<Rightarrow> Sequence506 option" where
  "Sequence506_decode buf offset =
     (let b = offset + MessageHeader_SIZE in do {
        uuid \<leftarrow> read_le buf (b + 0) 8;
        nextSeqNo \<leftarrow> read_le buf (b + 8) 4;
        faultToleranceIndicator \<leftarrow> read_le buf (b + 12) 1;
        keepAliveIntervalLapsed \<leftarrow> read_le buf (b + 13) 1;
        Some \<lparr>Sequence506.uuid = uuid,
          Sequence506.nextSeqNo = nextSeqNo,
          Sequence506.faultToleranceIndicator = faultToleranceIndicator,
          Sequence506.keepAliveIntervalLapsed = keepAliveIntervalLapsed\<rparr>
     })"

definition Sequence506_wf :: "Sequence506 \<Rightarrow> bool" where
  "Sequence506_wf m \<longleftrightarrow> True"

interpretation sequence506: sbe_message ILINK3_SCHEMA_ID ILINK3_VERSION Sequence506_BLOCK_LENGTH Sequence506_TEMPLATE_ID
  Sequence506_fields "\<lambda>_. unat Sequence506_BLOCK_LENGTH" Sequence506_encode Sequence506_decode Sequence506_wf
proof
  fix m buf off
  show "Sequence506_encode m buf off = sbe_encode ILINK3_SCHEMA_ID ILINK3_VERSION Sequence506_BLOCK_LENGTH
      Sequence506_TEMPLATE_ID (Sequence506_fields m) (unat Sequence506_BLOCK_LENGTH) buf off"
    by (simp add: Sequence506_encode_def ilink3_encode_def)
  show "Sequence506_wf m \<Longrightarrow> packed 0 (Sequence506_fields m) \<and> length (body_of (Sequence506_fields m)) = unat Sequence506_BLOCK_LENGTH"
    by (simp add: Sequence506_wf_def Sequence506_fields_def Sequence506_BLOCK_LENGTH_def)
  show "Sequence506_wf m \<Longrightarrow> reads_fields buf (off + 8) (Sequence506_fields m) \<Longrightarrow> Sequence506_decode buf off = Some m"
    by (cases m) (simp add: Sequence506_wf_def Sequence506_fields_def Sequence506_decode_def sbe_decode_simps)
qed


subsection \<open>Terminate507\<close>

record Terminate507 =
  uuid :: "64 word"
  requestTimestamp :: "64 word"
  errorCodes :: "16 word"
  splitMsg :: "8 word"

definition Terminate507_default :: Terminate507 where
  "Terminate507_default = \<lparr>Terminate507.uuid = 0,
     Terminate507.requestTimestamp = 0,
     Terminate507.errorCodes = 0,
     Terminate507.splitMsg = 0\<rparr>"

definition Terminate507_TEMPLATE_ID :: "16 word" where "Terminate507_TEMPLATE_ID = 507"
definition Terminate507_BLOCK_LENGTH :: "16 word" where "Terminate507_BLOCK_LENGTH = 19"

definition Terminate507_fields :: "Terminate507 \<Rightarrow> (nat \<times> bytes) list" where
  "Terminate507_fields m = [
     (0, le 8 (Terminate507.uuid m)),
     (8, le 8 (Terminate507.requestTimestamp m)),
     (16, le 2 (Terminate507.errorCodes m)),
     (18, le 1 (Terminate507.splitMsg m))]"

definition Terminate507_encode :: "Terminate507 \<Rightarrow> bytes \<Rightarrow> nat \<Rightarrow> (bytes \<times> nat) option" where
  "Terminate507_encode m buf offset =
     ilink3_encode Terminate507_BLOCK_LENGTH Terminate507_TEMPLATE_ID (Terminate507_fields m) buf offset"

definition Terminate507_decode :: "bytes \<Rightarrow> nat \<Rightarrow> Terminate507 option" where
  "Terminate507_decode buf offset =
     (let b = offset + MessageHeader_SIZE in do {
        uuid \<leftarrow> read_le buf (b + 0) 8;
        requestTimestamp \<leftarrow> read_le buf (b + 8) 8;
        errorCodes \<leftarrow> read_le buf (b + 16) 2;
        splitMsg \<leftarrow> read_le buf (b + 18) 1;
        Some \<lparr>Terminate507.uuid = uuid,
          Terminate507.requestTimestamp = requestTimestamp,
          Terminate507.errorCodes = errorCodes,
          Terminate507.splitMsg = splitMsg\<rparr>
     })"

definition Terminate507_wf :: "Terminate507 \<Rightarrow> bool" where
  "Terminate507_wf m \<longleftrightarrow> True"

interpretation terminate507: sbe_message ILINK3_SCHEMA_ID ILINK3_VERSION Terminate507_BLOCK_LENGTH Terminate507_TEMPLATE_ID
  Terminate507_fields "\<lambda>_. unat Terminate507_BLOCK_LENGTH" Terminate507_encode Terminate507_decode Terminate507_wf
proof
  fix m buf off
  show "Terminate507_encode m buf off = sbe_encode ILINK3_SCHEMA_ID ILINK3_VERSION Terminate507_BLOCK_LENGTH
      Terminate507_TEMPLATE_ID (Terminate507_fields m) (unat Terminate507_BLOCK_LENGTH) buf off"
    by (simp add: Terminate507_encode_def ilink3_encode_def)
  show "Terminate507_wf m \<Longrightarrow> packed 0 (Terminate507_fields m) \<and> length (body_of (Terminate507_fields m)) = unat Terminate507_BLOCK_LENGTH"
    by (simp add: Terminate507_wf_def Terminate507_fields_def Terminate507_BLOCK_LENGTH_def)
  show "Terminate507_wf m \<Longrightarrow> reads_fields buf (off + 8) (Terminate507_fields m) \<Longrightarrow> Terminate507_decode buf off = Some m"
    by (cases m) (simp add: Terminate507_wf_def Terminate507_fields_def Terminate507_decode_def sbe_decode_simps)
qed


subsection \<open>RetransmitRequest508\<close>

record RetransmitRequest508 =
  uuid :: "64 word"
  lastUUID :: "64 word"
  requestTimestamp :: "64 word"
  fromSeqNo :: "32 word"
  msgCount :: "16 word"

definition RetransmitRequest508_default :: RetransmitRequest508 where
  "RetransmitRequest508_default = \<lparr>RetransmitRequest508.uuid = 0,
     RetransmitRequest508.lastUUID = 0,
     RetransmitRequest508.requestTimestamp = 0,
     RetransmitRequest508.fromSeqNo = 0,
     RetransmitRequest508.msgCount = 0\<rparr>"

definition RetransmitRequest508_TEMPLATE_ID :: "16 word" where "RetransmitRequest508_TEMPLATE_ID = 508"
definition RetransmitRequest508_BLOCK_LENGTH :: "16 word" where "RetransmitRequest508_BLOCK_LENGTH = 30"

definition RetransmitRequest508_fields :: "RetransmitRequest508 \<Rightarrow> (nat \<times> bytes) list" where
  "RetransmitRequest508_fields m = [
     (0, le 8 (RetransmitRequest508.uuid m)),
     (8, le 8 (RetransmitRequest508.lastUUID m)),
     (16, le 8 (RetransmitRequest508.requestTimestamp m)),
     (24, le 4 (RetransmitRequest508.fromSeqNo m)),
     (28, le 2 (RetransmitRequest508.msgCount m))]"

definition RetransmitRequest508_encode :: "RetransmitRequest508 \<Rightarrow> bytes \<Rightarrow> nat \<Rightarrow> (bytes \<times> nat) option" where
  "RetransmitRequest508_encode m buf offset =
     ilink3_encode RetransmitRequest508_BLOCK_LENGTH RetransmitRequest508_TEMPLATE_ID (RetransmitRequest508_fields m) buf offset"

definition RetransmitRequest508_decode :: "bytes \<Rightarrow> nat \<Rightarrow> RetransmitRequest508 option" where
  "RetransmitRequest508_decode buf offset =
     (let b = offset + MessageHeader_SIZE in do {
        uuid \<leftarrow> read_le buf (b + 0) 8;
        lastUUID \<leftarrow> read_le buf (b + 8) 8;
        requestTimestamp \<leftarrow> read_le buf (b + 16) 8;
        fromSeqNo \<leftarrow> read_le buf (b + 24) 4;
        msgCount \<leftarrow> read_le buf (b + 28) 2;
        Some \<lparr>RetransmitRequest508.uuid = uuid,
          RetransmitRequest508.lastUUID = lastUUID,
          RetransmitRequest508.requestTimestamp = requestTimestamp,
          RetransmitRequest508.fromSeqNo = fromSeqNo,
          RetransmitRequest508.msgCount = msgCount\<rparr>
     })"

definition RetransmitRequest508_wf :: "RetransmitRequest508 \<Rightarrow> bool" where
  "RetransmitRequest508_wf m \<longleftrightarrow> True"

interpretation retransmitRequest508: sbe_message ILINK3_SCHEMA_ID ILINK3_VERSION RetransmitRequest508_BLOCK_LENGTH RetransmitRequest508_TEMPLATE_ID
  RetransmitRequest508_fields "\<lambda>_. unat RetransmitRequest508_BLOCK_LENGTH" RetransmitRequest508_encode RetransmitRequest508_decode RetransmitRequest508_wf
proof
  fix m buf off
  show "RetransmitRequest508_encode m buf off = sbe_encode ILINK3_SCHEMA_ID ILINK3_VERSION RetransmitRequest508_BLOCK_LENGTH
      RetransmitRequest508_TEMPLATE_ID (RetransmitRequest508_fields m) (unat RetransmitRequest508_BLOCK_LENGTH) buf off"
    by (simp add: RetransmitRequest508_encode_def ilink3_encode_def)
  show "RetransmitRequest508_wf m \<Longrightarrow> packed 0 (RetransmitRequest508_fields m) \<and> length (body_of (RetransmitRequest508_fields m)) = unat RetransmitRequest508_BLOCK_LENGTH"
    by (simp add: RetransmitRequest508_wf_def RetransmitRequest508_fields_def RetransmitRequest508_BLOCK_LENGTH_def)
  show "RetransmitRequest508_wf m \<Longrightarrow> reads_fields buf (off + 8) (RetransmitRequest508_fields m) \<Longrightarrow> RetransmitRequest508_decode buf off = Some m"
    by (cases m) (simp add: RetransmitRequest508_wf_def RetransmitRequest508_fields_def RetransmitRequest508_decode_def sbe_decode_simps)
qed


subsection \<open>Retransmission509\<close>

record Retransmission509 =
  uuid :: "64 word"
  lastUUID :: "64 word"
  requestTimestamp :: "64 word"
  fromSeqNo :: "32 word"
  msgCount :: "16 word"
  splitMsg :: "8 word"

definition Retransmission509_default :: Retransmission509 where
  "Retransmission509_default = \<lparr>Retransmission509.uuid = 0,
     Retransmission509.lastUUID = 0,
     Retransmission509.requestTimestamp = 0,
     Retransmission509.fromSeqNo = 0,
     Retransmission509.msgCount = 0,
     Retransmission509.splitMsg = 0\<rparr>"

definition Retransmission509_TEMPLATE_ID :: "16 word" where "Retransmission509_TEMPLATE_ID = 509"
definition Retransmission509_BLOCK_LENGTH :: "16 word" where "Retransmission509_BLOCK_LENGTH = 31"

definition Retransmission509_fields :: "Retransmission509 \<Rightarrow> (nat \<times> bytes) list" where
  "Retransmission509_fields m = [
     (0, le 8 (Retransmission509.uuid m)),
     (8, le 8 (Retransmission509.lastUUID m)),
     (16, le 8 (Retransmission509.requestTimestamp m)),
     (24, le 4 (Retransmission509.fromSeqNo m)),
     (28, le 2 (Retransmission509.msgCount m)),
     (30, le 1 (Retransmission509.splitMsg m))]"

definition Retransmission509_encode :: "Retransmission509 \<Rightarrow> bytes \<Rightarrow> nat \<Rightarrow> (bytes \<times> nat) option" where
  "Retransmission509_encode m buf offset =
     ilink3_encode Retransmission509_BLOCK_LENGTH Retransmission509_TEMPLATE_ID (Retransmission509_fields m) buf offset"

definition Retransmission509_decode :: "bytes \<Rightarrow> nat \<Rightarrow> Retransmission509 option" where
  "Retransmission509_decode buf offset =
     (let b = offset + MessageHeader_SIZE in do {
        uuid \<leftarrow> read_le buf (b + 0) 8;
        lastUUID \<leftarrow> read_le buf (b + 8) 8;
        requestTimestamp \<leftarrow> read_le buf (b + 16) 8;
        fromSeqNo \<leftarrow> read_le buf (b + 24) 4;
        msgCount \<leftarrow> read_le buf (b + 28) 2;
        splitMsg \<leftarrow> read_le buf (b + 30) 1;
        Some \<lparr>Retransmission509.uuid = uuid,
          Retransmission509.lastUUID = lastUUID,
          Retransmission509.requestTimestamp = requestTimestamp,
          Retransmission509.fromSeqNo = fromSeqNo,
          Retransmission509.msgCount = msgCount,
          Retransmission509.splitMsg = splitMsg\<rparr>
     })"

definition Retransmission509_wf :: "Retransmission509 \<Rightarrow> bool" where
  "Retransmission509_wf m \<longleftrightarrow> True"

interpretation retransmission509: sbe_message ILINK3_SCHEMA_ID ILINK3_VERSION Retransmission509_BLOCK_LENGTH Retransmission509_TEMPLATE_ID
  Retransmission509_fields "\<lambda>_. unat Retransmission509_BLOCK_LENGTH" Retransmission509_encode Retransmission509_decode Retransmission509_wf
proof
  fix m buf off
  show "Retransmission509_encode m buf off = sbe_encode ILINK3_SCHEMA_ID ILINK3_VERSION Retransmission509_BLOCK_LENGTH
      Retransmission509_TEMPLATE_ID (Retransmission509_fields m) (unat Retransmission509_BLOCK_LENGTH) buf off"
    by (simp add: Retransmission509_encode_def ilink3_encode_def)
  show "Retransmission509_wf m \<Longrightarrow> packed 0 (Retransmission509_fields m) \<and> length (body_of (Retransmission509_fields m)) = unat Retransmission509_BLOCK_LENGTH"
    by (simp add: Retransmission509_wf_def Retransmission509_fields_def Retransmission509_BLOCK_LENGTH_def)
  show "Retransmission509_wf m \<Longrightarrow> reads_fields buf (off + 8) (Retransmission509_fields m) \<Longrightarrow> Retransmission509_decode buf off = Some m"
    by (cases m) (simp add: Retransmission509_wf_def Retransmission509_fields_def Retransmission509_decode_def sbe_decode_simps)
qed


subsection \<open>NotApplied513\<close>

record NotApplied513 =
  uuid :: "64 word"
  fromSeqNo :: "32 word"
  msgCount :: "32 word"

definition NotApplied513_default :: NotApplied513 where
  "NotApplied513_default = \<lparr>NotApplied513.uuid = 0,
     NotApplied513.fromSeqNo = 0,
     NotApplied513.msgCount = 0\<rparr>"

definition NotApplied513_TEMPLATE_ID :: "16 word" where "NotApplied513_TEMPLATE_ID = 513"
definition NotApplied513_BLOCK_LENGTH :: "16 word" where "NotApplied513_BLOCK_LENGTH = 16"

definition NotApplied513_fields :: "NotApplied513 \<Rightarrow> (nat \<times> bytes) list" where
  "NotApplied513_fields m = [
     (0, le 8 (NotApplied513.uuid m)),
     (8, le 4 (NotApplied513.fromSeqNo m)),
     (12, le 4 (NotApplied513.msgCount m))]"

definition NotApplied513_encode :: "NotApplied513 \<Rightarrow> bytes \<Rightarrow> nat \<Rightarrow> (bytes \<times> nat) option" where
  "NotApplied513_encode m buf offset =
     ilink3_encode NotApplied513_BLOCK_LENGTH NotApplied513_TEMPLATE_ID (NotApplied513_fields m) buf offset"

definition NotApplied513_decode :: "bytes \<Rightarrow> nat \<Rightarrow> NotApplied513 option" where
  "NotApplied513_decode buf offset =
     (let b = offset + MessageHeader_SIZE in do {
        uuid \<leftarrow> read_le buf (b + 0) 8;
        fromSeqNo \<leftarrow> read_le buf (b + 8) 4;
        msgCount \<leftarrow> read_le buf (b + 12) 4;
        Some \<lparr>NotApplied513.uuid = uuid,
          NotApplied513.fromSeqNo = fromSeqNo,
          NotApplied513.msgCount = msgCount\<rparr>
     })"

definition NotApplied513_wf :: "NotApplied513 \<Rightarrow> bool" where
  "NotApplied513_wf m \<longleftrightarrow> True"

interpretation notApplied513: sbe_message ILINK3_SCHEMA_ID ILINK3_VERSION NotApplied513_BLOCK_LENGTH NotApplied513_TEMPLATE_ID
  NotApplied513_fields "\<lambda>_. unat NotApplied513_BLOCK_LENGTH" NotApplied513_encode NotApplied513_decode NotApplied513_wf
proof
  fix m buf off
  show "NotApplied513_encode m buf off = sbe_encode ILINK3_SCHEMA_ID ILINK3_VERSION NotApplied513_BLOCK_LENGTH
      NotApplied513_TEMPLATE_ID (NotApplied513_fields m) (unat NotApplied513_BLOCK_LENGTH) buf off"
    by (simp add: NotApplied513_encode_def ilink3_encode_def)
  show "NotApplied513_wf m \<Longrightarrow> packed 0 (NotApplied513_fields m) \<and> length (body_of (NotApplied513_fields m)) = unat NotApplied513_BLOCK_LENGTH"
    by (simp add: NotApplied513_wf_def NotApplied513_fields_def NotApplied513_BLOCK_LENGTH_def)
  show "NotApplied513_wf m \<Longrightarrow> reads_fields buf (off + 8) (NotApplied513_fields m) \<Longrightarrow> NotApplied513_decode buf off = Some m"
    by (cases m) (simp add: NotApplied513_wf_def NotApplied513_fields_def NotApplied513_decode_def sbe_decode_simps)
qed


end
