(* ===== verification/Fixp_Session.thy ===== *)
theory Fixp_Session
  imports Retransmit_Buffer ILink3_Session
begin

text \<open>
  \<^verbatim>\<open>src/fixp/session.h\<close>, \<^verbatim>\<open>session.cpp\<close> and \<^verbatim>\<open>hmac_authenticator.h\<close>: the server side of one FIXP
  session.

  Every handler takes the session and the environment's readings and returns the session with the
  outputs it produced, in order: bytes handed to \<^verbatim>\<open>send_cb_\<close> and messages handed to \<^verbatim>\<open>app_cb_\<close>.  The
  result is \<open>None\<close> when the code would read outside the received message.  Time points are nanoseconds;
  the clock readings within one event are one reading.  OpenSSL's HMAC is the parameter \<open>hmac\<close>.
\<close>

section \<open>State\<close>

datatype SessionState = Connected | Negotiated | Established | Terminated

record Session =
  sess_uuid :: "64 word"
  sess_state :: SessionState
  send_cb :: bool
  app_cb :: bool
  next_in_seq :: "32 word"
  next_out_seq :: "32 word"
  keep_alive_interval_ms :: "32 word"
  last_received :: int
  last_sent :: int
  hmac_enabled :: bool
  hmac_key :: bytes
  retransmit_buffer :: RetransmitBuffer

datatype SessionOutput = Send bytes | AppMessage "64 word" "16 word" bytes

text \<open>What an event reads of the environment.\<close>

record Env =
  steady_now :: int
  system_now :: "64 word"

definition Session_new :: "64 word \<Rightarrow> Env \<Rightarrow> Session" where
  "Session_new assigned_uuid env =
     \<lparr>sess_uuid = assigned_uuid, sess_state = Connected, send_cb = True, app_cb = True,
      next_in_seq = 1, next_out_seq = 1, keep_alive_interval_ms = 30000,
      last_received = steady_now env, last_sent = steady_now env,
      hmac_enabled = False, hmac_key = [], retransmit_buffer = RetransmitBuffer_new 10000\<rparr>"

definition setHmacKey :: "bytes \<Rightarrow> Session \<Rightarrow> Session" where
  "setHmacKey key s = s\<lparr>hmac_key := key\<rparr>"

definition setHmacEnabled :: "bool \<Rightarrow> Session \<Rightarrow> Session" where
  "setHmacEnabled enabled s = s\<lparr>hmac_enabled := enabled\<rparr>"

section \<open>HMAC\<close>

text \<open>The comparison accumulates the differing bits of all 32 bytes.\<close>

definition HmacAuthenticator_verify :: "(bytes \<Rightarrow> bytes \<Rightarrow> bytes) \<Rightarrow> bytes \<Rightarrow> bytes \<Rightarrow> bytes \<Rightarrow> bool" where
  "HmacAuthenticator_verify hmac key data expected_signature =
     (let computed = hmac key data
      in fold (\<lambda>i diff. diff OR (computed ! i XOR expected_signature ! i)) [0..<32] 0 = (0 :: 8 word))"

definition verifyHmac :: "(bytes \<Rightarrow> bytes \<Rightarrow> bytes) \<Rightarrow> bytes \<Rightarrow> bytes \<Rightarrow> Session \<Rightarrow> bool" where
  "verifyHmac hmac hmac_signature data s =
     (if \<not> hmac_enabled s then True
      else HmacAuthenticator_verify hmac (hmac_key s) data hmac_signature)"

section \<open>Sending\<close>

definition sendFramedMessage :: "Env \<Rightarrow> bytes \<Rightarrow> Session \<Rightarrow> Session \<times> SessionOutput list" where
  "sendFramedMessage env sbe_data s =
     (s\<lparr>last_sent := steady_now env\<rparr>, if send_cb s then [Send sbe_data] else [])"

text \<open>A message is encoded into a local array of the given size and its encoded bytes are sent.\<close>

definition send_encoded ::
  "Env \<Rightarrow> (bytes \<Rightarrow> nat \<Rightarrow> (bytes \<times> nat) option) \<Rightarrow> nat \<Rightarrow> Session \<Rightarrow> (Session \<times> SessionOutput list) option"
where
  "send_encoded env encode buf_size s = do {
     (buf, encoded_len) \<leftarrow> encode (replicate buf_size 0) 0;
     Some (sendFramedMessage env (take encoded_len buf) s)
   }"

definition sendNegotiationResponse :: "Env \<Rightarrow> 64 word \<Rightarrow> Session \<Rightarrow> (Session \<times> SessionOutput list) option" where
  "sendNegotiationResponse env request_timestamp s =
     (let resp = NegotiationResponse501_default
            \<lparr>NegotiationResponse501.uuid := sess_uuid s,
             NegotiationResponse501.requestTimestamp := request_timestamp,
             NegotiationResponse501.secretKeySecureIDExpiration := 0,
             NegotiationResponse501.faultToleranceIndicator := 0,
             NegotiationResponse501.splitMsg := 0,
             NegotiationResponse501.previousSeqNo := 0,
             NegotiationResponse501.previousUUID := 0\<rparr>
      in send_encoded env (NegotiationResponse501_encode resp) 256 s)"

definition sendEstablishmentAck ::
  "Env \<Rightarrow> 64 word \<Rightarrow> 16 word \<Rightarrow> Session \<Rightarrow> (Session \<times> SessionOutput list) option" where
  "sendEstablishmentAck env request_timestamp keep_alive_interval s =
     (let ack = EstablishmentAck504_default
            \<lparr>EstablishmentAck504.uuid := sess_uuid s,
             EstablishmentAck504.requestTimestamp := request_timestamp,
             EstablishmentAck504.keepAliveInterval := keep_alive_interval,
             EstablishmentAck504.nextSeqNo := next_out_seq s,
             EstablishmentAck504.previousSeqNo := 0,
             EstablishmentAck504.previousUUID := 0\<rparr>
      in send_encoded env (EstablishmentAck504_encode ack) 256 s)"

definition sendSequenceHeartbeat :: "Env \<Rightarrow> Session \<Rightarrow> (Session \<times> SessionOutput list) option" where
  "sendSequenceHeartbeat env s =
     (let seq = Sequence506_default
            \<lparr>Sequence506.uuid := sess_uuid s, Sequence506.nextSeqNo := next_out_seq s,
             Sequence506.faultToleranceIndicator := 0, Sequence506.keepAliveIntervalLapsed := 0\<rparr>
      in send_encoded env (Sequence506_encode seq) 64 s)"

definition sendTerminate :: "Env \<Rightarrow> 16 word \<Rightarrow> Session \<Rightarrow> (Session \<times> SessionOutput list) option" where
  "sendTerminate env error_code s =
     (let trm = Terminate507_default
            \<lparr>Terminate507.uuid := sess_uuid s, Terminate507.requestTimestamp := system_now env,
             Terminate507.errorCodes := error_code, Terminate507.splitMsg := 0\<rparr>
      in send_encoded env (Terminate507_encode trm) 64 s)"

definition sendNotApplied :: "Env \<Rightarrow> 32 word \<Rightarrow> 32 word \<Rightarrow> Session \<Rightarrow> (Session \<times> SessionOutput list) option" where
  "sendNotApplied env from_seq msg_count s =
     (let na = NotApplied513_default
            \<lparr>NotApplied513.uuid := sess_uuid s, NotApplied513.fromSeqNo := from_seq,
             NotApplied513.msgCount := msg_count\<rparr>
      in send_encoded env (NotApplied513_encode na) 64 s)"

definition sendRetransmission ::
  "Env \<Rightarrow> 64 word \<Rightarrow> 64 word \<Rightarrow> 32 word \<Rightarrow> 16 word \<Rightarrow> Session \<Rightarrow> (Session \<times> SessionOutput list) option" where
  "sendRetransmission env last_uuid request_timestamp from_seq msg_count s =
     (let rt = Retransmission509_default
            \<lparr>Retransmission509.uuid := sess_uuid s, Retransmission509.lastUUID := last_uuid,
             Retransmission509.requestTimestamp := request_timestamp,
             Retransmission509.fromSeqNo := from_seq, Retransmission509.msgCount := msg_count,
             Retransmission509.splitMsg := 0\<rparr>
      in send_encoded env (Retransmission509_encode rt) 64 s)"

definition session_terminate :: "Env \<Rightarrow> 16 word \<Rightarrow> Session \<Rightarrow> (Session \<times> SessionOutput list) option" where
  "session_terminate env error_code s =
     (if sess_state s = Terminated then Some (s, [])
      else do {
        (s, out) \<leftarrow> sendTerminate env error_code s;
        Some (s\<lparr>sess_state := Terminated\<rparr>, out)
      })"

definition sendApplicationMessage :: "Env \<Rightarrow> bytes \<Rightarrow> Session \<Rightarrow> Session \<times> SessionOutput list" where
  "sendApplicationMessage env sbe_data s =
     (if sess_state s \<noteq> Established then (s, [])
      else sendFramedMessage env sbe_data
             (s\<lparr>retransmit_buffer := ring_store (next_out_seq s) sbe_data (retransmit_buffer s),
                next_out_seq := next_out_seq s + 1\<rparr>))"

text \<open>\<^verbatim>\<open>frameMessage\<close>: the header's length field is a 32-bit number.\<close>

definition frameMessage :: "bytes \<Rightarrow> bytes option" where
  "frameMessage sbe_data =
     (let total_len = of_nat (SOFH_SIZE + length sbe_data) :: 32 word in do {
        framed \<leftarrow> SOFH_encode 0 total_len (replicate (unat total_len) 0);
        write_bytes SOFH_SIZE sbe_data framed
      })"

section \<open>Message handlers\<close>

definition handleNegotiate ::
  "(bytes \<Rightarrow> bytes \<Rightarrow> bytes) \<Rightarrow> Env \<Rightarrow> bytes \<Rightarrow> Session \<Rightarrow> (Session \<times> SessionOutput list) option" where
  "handleNegotiate hmac env data s =
     (if sess_state s \<noteq> Connected then Some (s, [])
      else do {
        neg \<leftarrow> Negotiate500_decode data 0;
        let hmac_sig = take 32 (drop MessageHeader_SIZE data);
        let hmac_data = drop (MessageHeader_SIZE + 32) data;
        if hmac_enabled s \<and> \<not> verifyHmac hmac hmac_sig hmac_data s then session_terminate env 8 s
        else sendNegotiationResponse env (Negotiate500.sendingTime neg) (s\<lparr>sess_state := Negotiated\<rparr>)
      })"

definition clamp_keep_alive :: "16 word \<Rightarrow> 32 word" where
  "clamp_keep_alive requested =
     (let k = ucast requested :: 32 word;
          k = (if k < 1000 then 1000 else k)
      in if k > 60000 then 60000 else k)"

definition handleEstablish ::
  "(bytes \<Rightarrow> bytes \<Rightarrow> bytes) \<Rightarrow> Env \<Rightarrow> bytes \<Rightarrow> Session \<Rightarrow> (Session \<times> SessionOutput list) option" where
  "handleEstablish hmac env data s =
     (if sess_state s \<noteq> Negotiated then Some (s, [])
      else do {
        est \<leftarrow> Establish503_decode data 0;
        let hmac_sig = take 32 (drop MessageHeader_SIZE data);
        let hmac_data = drop (MessageHeader_SIZE + 32) data;
        if hmac_enabled s \<and> \<not> verifyHmac hmac hmac_sig hmac_data s then session_terminate env 8 s
        else
          let s = s\<lparr>keep_alive_interval_ms := clamp_keep_alive (Establish503.keepAliveInterval est),
                    next_in_seq := Establish503.nextSeqNo est, sess_state := Established,
                    last_received := steady_now env, last_sent := steady_now env\<rparr>
          in sendEstablishmentAck env (Establish503.sendingTime est)
               (ucast (keep_alive_interval_ms s)) s
      })"

definition handleSequence :: "bytes \<Rightarrow> Session \<Rightarrow> (Session \<times> SessionOutput list) option" where
  "handleSequence data s =
     (if sess_state s \<noteq> Established then Some (s, [])
      else do { seq \<leftarrow> Sequence506_decode data 0; Some (s, []) })"

definition handleTerminate :: "Env \<Rightarrow> bytes \<Rightarrow> Session \<Rightarrow> (Session \<times> SessionOutput list) option" where
  "handleTerminate env data s = do {
     trm \<leftarrow> Terminate507_decode data 0;
     if sess_state s \<noteq> Terminated then do {
       (s, out) \<leftarrow> sendTerminate env 0 s;
       Some (s\<lparr>sess_state := Terminated\<rparr>, out)
     } else Some (s, [])
   }"

text \<open>The stored messages among the requested numbers, in order; numbers wrap at 32 bits.\<close>

definition requested_messages :: "32 word \<Rightarrow> 16 word \<Rightarrow> RetransmitBuffer \<Rightarrow> bytes list" where
  "requested_messages from_seq msg_count r =
     List.map_filter (\<lambda>i. ring_retrieve (from_seq + of_nat i) r) [0..<unat msg_count]"

fun resend_all :: "Env \<Rightarrow> bytes list \<Rightarrow> Session \<Rightarrow> Session \<times> SessionOutput list" where
  "resend_all env [] s = (s, [])"
| "resend_all env (d # ds) s =
     (let (s, out) = sendFramedMessage env d s; (s, out') = resend_all env ds s in (s, out @ out'))"

definition handleRetransmitRequest :: "Env \<Rightarrow> bytes \<Rightarrow> Session \<Rightarrow> (Session \<times> SessionOutput list) option" where
  "handleRetransmitRequest env data s =
     (if sess_state s \<noteq> Established then Some (s, [])
      else do {
        req \<leftarrow> RetransmitRequest508_decode data 0;
        if RetransmitRequest508.lastUUID req \<noteq> 0 \<and> RetransmitRequest508.lastUUID req \<noteq> sess_uuid s
        then sendRetransmission env (RetransmitRequest508.lastUUID req)
               (RetransmitRequest508.requestTimestamp req) (RetransmitRequest508.fromSeqNo req) 0 s
        else do {
          let found = requested_messages (RetransmitRequest508.fromSeqNo req)
                        (RetransmitRequest508.msgCount req) (retransmit_buffer s);
          (s, out) \<leftarrow> sendRetransmission env (RetransmitRequest508.lastUUID req)
             (RetransmitRequest508.requestTimestamp req) (RetransmitRequest508.fromSeqNo req)
             (of_nat (length found)) s;
          let (s, out') = resend_all env found s;
          Some (s, out @ out')
        }
      })"

text \<open>The client's sequence number: at offset 17 of the body, read unchecked for the three order messages.\<close>

definition client_seq_of :: "16 word \<Rightarrow> bytes \<Rightarrow> 32 word option" where
  "client_seq_of templateId data =
     (if templateId \<in> {514, 515, 516} then read_le data (MessageHeader_SIZE + 17) 4
      else if MessageHeader_SIZE + 21 \<le> length data then read_le data (MessageHeader_SIZE + 17) 4
      else Some 0)"

definition handleApplicationMessage ::
  "Env \<Rightarrow> 16 word \<Rightarrow> bytes \<Rightarrow> Session \<Rightarrow> (Session \<times> SessionOutput list) option" where
  "handleApplicationMessage env templateId data s =
     (if sess_state s \<noteq> Established then Some (s, [])
      else do {
        client_seq \<leftarrow> client_seq_of templateId data;
        (s, out) \<leftarrow>
          (if client_seq > next_in_seq s then do {
             (s', out) \<leftarrow> sendNotApplied env (next_in_seq s) (client_seq - next_in_seq s) s;
             Some (s'\<lparr>next_in_seq := client_seq\<rparr>, out)
           } else Some (s, []));
        let s = (if client_seq = next_in_seq s then s\<lparr>next_in_seq := next_in_seq s + 1\<rparr> else s);
        Some (s, out @ (if app_cb s then [AppMessage (sess_uuid s) templateId data] else []))
      })"

section \<open>Entry points\<close>

definition onMessage ::
  "(bytes \<Rightarrow> bytes \<Rightarrow> bytes) \<Rightarrow> Env \<Rightarrow> bytes \<Rightarrow> Session \<Rightarrow> (Session \<times> SessionOutput list) option" where
  "onMessage hmac env data s =
     (if length data < MessageHeader_SIZE then Some (s, [])
      else do {
        let s = s\<lparr>last_received := steady_now env\<rparr>;
        templateId \<leftarrow> decodeTemplateId data 0;
        if templateId = Negotiate500_TEMPLATE_ID then handleNegotiate hmac env data s
        else if templateId = Establish503_TEMPLATE_ID then handleEstablish hmac env data s
        else if templateId = Sequence506_TEMPLATE_ID then handleSequence data s
        else if templateId = Terminate507_TEMPLATE_ID then handleTerminate env data s
        else if templateId = RetransmitRequest508_TEMPLATE_ID then handleRetransmitRequest env data s
        else if templateId \<ge> 514 then handleApplicationMessage env templateId data s
        else Some (s, [])
      })"

text \<open>Whole milliseconds of a duration in nanoseconds, rounded towards zero as \<^verbatim>\<open>duration_cast\<close> does.\<close>

definition millis :: "int \<Rightarrow> int" where
  "millis ns = (if ns < 0 then - ((- ns) div 1000000) else ns div 1000000)"

definition session_onTimer :: "Env \<Rightarrow> Session \<Rightarrow> (Session \<times> SessionOutput list) option" where
  "session_onTimer env s =
     (if sess_state s \<noteq> Established then Some (s, [])
      else do {
        let since_sent = millis (steady_now env - last_sent s);
        let since_recv = millis (steady_now env - last_received s);
        (s, out) \<leftarrow> (if since_sent \<ge> uint (keep_alive_interval_ms s) then sendSequenceHeartbeat env s
                     else Some (s, []));
        if since_recv \<ge> uint (keep_alive_interval_ms s) * 2 then do {
          (s, out') \<leftarrow> session_terminate env 1 s;
          Some (s, out @ out')
        } else Some (s, out)
      })"

end
