(* ===== verification/Fixp_Properties.thy ===== *)
theory Fixp_Properties
  imports Fixp_Session
begin

text \<open>
  What a FIXP session promises: its life cycle, authentication, gap detection, retransmission and
  keep-alive.
\<close>

section \<open>Sending always succeeds\<close>

lemma send_encoded_wire:
  assumes "encode (replicate n 0) 0 = Some (w @ rest, length w)"
  shows "send_encoded env encode n s = Some (sendFramedMessage env w s)"
  using assms by (simp add: send_encoded_def)

definition resp501 :: "64 word \<Rightarrow> Session \<Rightarrow> NegotiationResponse501" where
  "resp501 t s = NegotiationResponse501_default
     \<lparr>NegotiationResponse501.uuid := sess_uuid s, NegotiationResponse501.requestTimestamp := t\<rparr>"

definition ack504 :: "64 word \<Rightarrow> 16 word \<Rightarrow> Session \<Rightarrow> EstablishmentAck504" where
  "ack504 t k s = EstablishmentAck504_default
     \<lparr>EstablishmentAck504.uuid := sess_uuid s, EstablishmentAck504.requestTimestamp := t,
      EstablishmentAck504.keepAliveInterval := k, EstablishmentAck504.nextSeqNo := next_out_seq s\<rparr>"

definition seq506 :: "Session \<Rightarrow> Sequence506" where
  "seq506 s = Sequence506_default
     \<lparr>Sequence506.uuid := sess_uuid s, Sequence506.nextSeqNo := next_out_seq s\<rparr>"

definition term507 :: "Env \<Rightarrow> 16 word \<Rightarrow> Session \<Rightarrow> Terminate507" where
  "term507 env c s = Terminate507_default
     \<lparr>Terminate507.uuid := sess_uuid s, Terminate507.requestTimestamp := system_now env,
      Terminate507.errorCodes := c\<rparr>"

definition na513 :: "32 word \<Rightarrow> 32 word \<Rightarrow> Session \<Rightarrow> NotApplied513" where
  "na513 f c s = NotApplied513_default
     \<lparr>NotApplied513.uuid := sess_uuid s, NotApplied513.fromSeqNo := f, NotApplied513.msgCount := c\<rparr>"

definition rt509 :: "64 word \<Rightarrow> 64 word \<Rightarrow> 32 word \<Rightarrow> 16 word \<Rightarrow> Session \<Rightarrow> Retransmission509" where
  "rt509 u t f c s = Retransmission509_default
     \<lparr>Retransmission509.uuid := sess_uuid s, Retransmission509.lastUUID := u,
      Retransmission509.requestTimestamp := t, Retransmission509.fromSeqNo := f,
      Retransmission509.msgCount := c\<rparr>"

lemma wf_all [simp]:
  "NegotiationResponse501_wf a" "EstablishmentAck504_wf b" "Sequence506_wf c" "NotApplied513_wf e"
  "Retransmission509_wf f"
  by (simp_all add: NegotiationResponse501_wf_def EstablishmentAck504_wf_def Sequence506_wf_def
      NotApplied513_wf_def Retransmission509_wf_def)

lemma wf_term: "Terminate507_wf (term507 env c s)"
  by (simp add: Terminate507_wf_def term507_def Terminate507_default_def)

lemma sendNegotiationResponse_ok [simp]:
  "sendNegotiationResponse env t s = Some (sendFramedMessage env (negotiationResponse501.wire (resp501 t s)) s)"
proof -
  have "sendNegotiationResponse env t s = send_encoded env (NegotiationResponse501_encode (resp501 t s)) 256 s"
    by (simp add: sendNegotiationResponse_def resp501_def NegotiationResponse501_default_def)
  also have "\<dots> = Some (sendFramedMessage env (negotiationResponse501.wire (resp501 t s)) s)"
    by (rule send_encoded_wire, rule negotiationResponse501.encode_local) (simp_all add: NegotiationResponse501_BLOCK_LENGTH_def)
  finally show ?thesis .
qed

lemma sendEstablishmentAck_ok [simp]:
  "sendEstablishmentAck env t k s = Some (sendFramedMessage env (establishmentAck504.wire (ack504 t k s)) s)"
proof -
  have "sendEstablishmentAck env t k s = send_encoded env (EstablishmentAck504_encode (ack504 t k s)) 256 s"
    by (simp add: sendEstablishmentAck_def ack504_def EstablishmentAck504_default_def)
  also have "\<dots> = Some (sendFramedMessage env (establishmentAck504.wire (ack504 t k s)) s)"
    by (rule send_encoded_wire, rule establishmentAck504.encode_local) (simp_all add: EstablishmentAck504_BLOCK_LENGTH_def)
  finally show ?thesis .
qed

lemma sendSequenceHeartbeat_ok [simp]:
  "sendSequenceHeartbeat env s = Some (sendFramedMessage env (sequence506.wire (seq506 s)) s)"
proof -
  have "sendSequenceHeartbeat env s = send_encoded env (Sequence506_encode (seq506 s)) 64 s"
    by (simp add: sendSequenceHeartbeat_def seq506_def Sequence506_default_def)
  also have "\<dots> = Some (sendFramedMessage env (sequence506.wire (seq506 s)) s)"
    by (rule send_encoded_wire, rule sequence506.encode_local) (simp_all add: Sequence506_BLOCK_LENGTH_def)
  finally show ?thesis .
qed

lemma sendTerminate_ok [simp]:
  "sendTerminate env c s = Some (sendFramedMessage env (terminate507.wire (term507 env c s)) s)"
proof -
  have "sendTerminate env c s = send_encoded env (Terminate507_encode (term507 env c s)) 64 s"
    by (simp add: sendTerminate_def term507_def Terminate507_default_def)
  also have "\<dots> = Some (sendFramedMessage env (terminate507.wire (term507 env c s)) s)"
    by (rule send_encoded_wire, rule terminate507.encode_local) (simp_all add: Terminate507_BLOCK_LENGTH_def wf_term)
  finally show ?thesis .
qed

lemma sendNotApplied_ok [simp]:
  "sendNotApplied env f c s = Some (sendFramedMessage env (notApplied513.wire (na513 f c s)) s)"
proof -
  have "sendNotApplied env f c s = send_encoded env (NotApplied513_encode (na513 f c s)) 64 s"
    by (simp add: sendNotApplied_def na513_def NotApplied513_default_def)
  also have "\<dots> = Some (sendFramedMessage env (notApplied513.wire (na513 f c s)) s)"
    by (rule send_encoded_wire, rule notApplied513.encode_local) (simp_all add: NotApplied513_BLOCK_LENGTH_def)
  finally show ?thesis .
qed

lemma sendRetransmission_ok [simp]:
  "sendRetransmission env u t f c s = Some (sendFramedMessage env (retransmission509.wire (rt509 u t f c s)) s)"
proof -
  have "sendRetransmission env u t f c s = send_encoded env (Retransmission509_encode (rt509 u t f c s)) 64 s"
    by (simp add: sendRetransmission_def rt509_def Retransmission509_default_def)
  also have "\<dots> = Some (sendFramedMessage env (retransmission509.wire (rt509 u t f c s)) s)"
    by (rule send_encoded_wire, rule retransmission509.encode_local) (simp_all add: Retransmission509_BLOCK_LENGTH_def)
  finally show ?thesis .
qed

section \<open>The HMAC comparison\<close>

lemma or_zero_iff: "(x :: 8 word) OR y = 0 \<longleftrightarrow> x = 0 \<and> y = 0"
  by (auto simp: bit_eq_iff bit_simps)

lemma xor_zero_iff: "(x :: 8 word) XOR y = 0 \<longleftrightarrow> x = y"
  by (auto simp: bit_eq_iff bit_simps)

lemma fold_or_zero: "fold (\<lambda>i d. d OR f i) xs a = (0 :: 8 word) \<longleftrightarrow> a = 0 \<and> (\<forall>i\<in>set xs. f i = 0)"
  by (induction xs arbitrary: a) (auto simp: or_zero_iff)

lemma verify_iff:
  assumes "length (hmac key d) = 32" and "length sig = 32"
  shows "HmacAuthenticator_verify hmac key d sig \<longleftrightarrow> sig = hmac key d"
  using assms
  by (auto simp: HmacAuthenticator_verify_def Let_def fold_or_zero xor_zero_iff intro!: nth_equalityI)

section \<open>Inputs and runs\<close>

datatype SessionInput = Receive Env bytes | Tick Env | SendApp Env bytes | Close Env "16 word"

definition session_input ::
  "(bytes \<Rightarrow> bytes \<Rightarrow> bytes) \<Rightarrow> SessionInput \<Rightarrow> Session \<Rightarrow> (Session \<times> SessionOutput list) option" where
  "session_input hmac i s =
     (case i of
        Receive env data \<Rightarrow> onMessage hmac env data s
      | Tick env \<Rightarrow> session_onTimer env s
      | SendApp env data \<Rightarrow> Some (sendApplicationMessage env data s)
      | Close env c \<Rightarrow> session_terminate env c s)"

fun session_run ::
  "(bytes \<Rightarrow> bytes \<Rightarrow> bytes) \<Rightarrow> SessionInput list \<Rightarrow> Session \<Rightarrow> (Session \<times> SessionOutput list) option" where
  "session_run hmac [] s = Some (s, [])"
| "session_run hmac (i # is) s = do {
     (s, out) \<leftarrow> session_input hmac i s;
     (s, out') \<leftarrow> session_run hmac is s;
     Some (s, out @ out')
   }"

lemma sendFramedMessage_eq: "sendFramedMessage env d s =
    (s\<lparr>last_sent := steady_now env\<rparr>, if send_cb s then [Send d] else [])"
  by (simp add: sendFramedMessage_def)

lemma resend_all_eq: "resend_all env ds s =
    (if ds = [] then s else s\<lparr>last_sent := steady_now env\<rparr>, if send_cb s then map Send ds else [])"
  by (induction ds arbitrary: s) (auto simp: sendFramedMessage_def)

lemma session_terminate_eq: "session_terminate env c s =
    Some (if sess_state s = Terminated then (s, [])
          else (s\<lparr>last_sent := steady_now env, sess_state := Terminated\<rparr>,
                if send_cb s then [Send (terminate507.wire (term507 env c s))] else []))"
  by (simp add: session_terminate_def sendFramedMessage_def)

lemmas handler_defs = handleNegotiate_def handleEstablish_def handleSequence_def handleTerminate_def
  handleRetransmitRequest_def handleApplicationMessage_def

text \<open>The transitions the protocol allows.\<close>

definition allowed :: "SessionState \<Rightarrow> SessionState \<Rightarrow> bool" where
  "allowed a b \<longleftrightarrow> b = a \<or> b = Terminated \<or> a = Connected \<and> b = Negotiated \<or>
     a = Negotiated \<and> b = Established"

text \<open>What never changes, and what each handler may do to the state.\<close>

definition keeps :: "Session \<Rightarrow> Session \<Rightarrow> bool" where
  "keeps s s' \<longleftrightarrow> sess_uuid s' = sess_uuid s \<and> hmac_enabled s' = hmac_enabled s \<and>
     hmac_key s' = hmac_key s \<and> send_cb s' = send_cb s \<and> app_cb s' = app_cb s"

definition quiet :: "SessionOutput list \<Rightarrow> bool" where
  "quiet out \<longleftrightarrow> (\<forall>u t d. AppMessage u t d \<notin> set out)"

lemma handlers_step:
  "handleNegotiate hmac env data s = Some (s', out) \<Longrightarrow>
     allowed (sess_state s) (sess_state s') \<and> keeps s s' \<and> quiet out \<and> (sess_state s = Terminated \<longrightarrow> s' = s \<and> out = [])"
  "handleEstablish hmac env data s = Some (s', out) \<Longrightarrow>
     allowed (sess_state s) (sess_state s') \<and> keeps s s' \<and> quiet out \<and> (sess_state s = Terminated \<longrightarrow> s' = s \<and> out = [])"
  "handleSequence data s = Some (s', out) \<Longrightarrow> s' = s \<and> out = []"
  "handleTerminate env data s = Some (s', out) \<Longrightarrow>
     sess_state s' = Terminated \<and> keeps s s' \<and> quiet out \<and> (sess_state s = Terminated \<longrightarrow> s' = s \<and> out = [])"
  "handleRetransmitRequest env data s = Some (s', out) \<Longrightarrow>
     sess_state s' = sess_state s \<and> keeps s s' \<and> quiet out \<and> (sess_state s = Terminated \<longrightarrow> s' = s \<and> out = [])"
  by (auto simp: handler_defs allowed_def keeps_def quiet_def sendFramedMessage_eq resend_all_eq
      session_terminate_eq bind_eq_Some_conv Let_def split: if_splits)

lemma app_message_step:
  assumes "handleApplicationMessage env t data s = Some (s', out)"
  shows "sess_state s' = sess_state s \<and> keeps s s' \<and>
    (sess_state s \<noteq> Established \<longrightarrow> s' = s \<and> out = []) \<and>
    (\<forall>u t' d. AppMessage u t' d \<in> set out \<longrightarrow> u = sess_uuid s \<and> t' = t \<and> d = data)"
  using assms
  by (auto simp: handleApplicationMessage_def keeps_def sendFramedMessage_eq bind_eq_Some_conv Let_def
      split: if_splits)

lemma app_message_state:
  "handleApplicationMessage env t data s = Some (s', out) \<Longrightarrow> sess_state s' = sess_state s"
  by (drule app_message_step) simp

lemmas template_ids = Negotiate500_TEMPLATE_ID_def Establish503_TEMPLATE_ID_def
  Sequence506_TEMPLATE_ID_def Terminate507_TEMPLATE_ID_def RetransmitRequest508_TEMPLATE_ID_def

lemma onMessage_cases:
  assumes om: "onMessage hmac env data s = Some (s', out)"
  obtains (Short) "s' = s" "out = []" "length data < 8"
  | (Negotiate) "decodeTemplateId data 0 = Some 500"
      "handleNegotiate hmac env data (s\<lparr>last_received := steady_now env\<rparr>) = Some (s', out)"
  | (Establish) "decodeTemplateId data 0 = Some 503"
      "handleEstablish hmac env data (s\<lparr>last_received := steady_now env\<rparr>) = Some (s', out)"
  | (Sequence) "handleSequence data (s\<lparr>last_received := steady_now env\<rparr>) = Some (s', out)"
  | (Terminate) "handleTerminate env data (s\<lparr>last_received := steady_now env\<rparr>) = Some (s', out)"
  | (Retransmit) "handleRetransmitRequest env data (s\<lparr>last_received := steady_now env\<rparr>) = Some (s', out)"
  | (Application) t where "decodeTemplateId data 0 = Some t"
      "handleApplicationMessage env t data (s\<lparr>last_received := steady_now env\<rparr>) = Some (s', out)"
  | (Unknown) "s' = s\<lparr>last_received := steady_now env\<rparr>" "out = []"
proof (cases "length data < 8")
  case True
  with om have "s' = s" "out = []" by (simp_all add: onMessage_def MessageHeader_SIZE_def)
  with True show thesis by (rule that(1) [rotated 2])
next
  case False
  then obtain t where t: "decodeTemplateId data 0 = Some t"
    using om by (cases "decodeTemplateId data 0") (simp_all add: onMessage_def MessageHeader_SIZE_def)
  note om = om [unfolded onMessage_def template_ids MessageHeader_SIZE_def Let_def, simplified False t if_False bind.bind_lunit]
  consider "t = 500" | "t = 503" | "t = 506" | "t = 507" | "t = 508"
    | "t \<notin> {500, 503, 506, 507, 508}" "514 \<le> t" | "t \<notin> {500, 503, 506, 507, 508}" "\<not> 514 \<le> t"
    by blast
  then show thesis
  proof cases
    case 1
    with om t show thesis by (intro that(2)) simp_all
  next
    case 2
    with om t show thesis by (intro that(3)) simp_all
  next
    case 3
    with om t show thesis by (intro that(4)) simp_all
  next
    case 4
    with om t show thesis by (intro that(5)) simp_all
  next
    case 5
    with om t show thesis by (intro that(6)) simp_all
  next
    case 6
    with om t show thesis by (intro that(7) [of t]) simp_all
  next
    case 7
    with om t show thesis by (intro that(8)) simp_all
  qed
qed

lemma onMessage_step:
  assumes "onMessage hmac env data s = Some (s', out)"
  shows "allowed (sess_state s) (sess_state s') \<and> keeps s s' \<and>
    (sess_state s = Terminated \<longrightarrow> out = [] \<and> s' \<in> {s, s\<lparr>last_received := steady_now env\<rparr>}) \<and>
    (\<forall>u t d. AppMessage u t d \<in> set out \<longrightarrow>
       sess_state s = Established \<and> u = sess_uuid s \<and> d = data \<and> decodeTemplateId data 0 = Some t)"
  using assms
proof (cases rule: onMessage_cases)
  case Negotiate
  from handlers_step(1) [OF Negotiate(2)] show ?thesis by (auto simp: keeps_def quiet_def)
next
  case Establish
  from handlers_step(2) [OF Establish(2)] show ?thesis by (auto simp: keeps_def quiet_def)
next
  case Sequence
  from handlers_step(3) [OF Sequence] show ?thesis by (auto simp: keeps_def allowed_def)
next
  case Terminate
  from handlers_step(4) [OF Terminate] show ?thesis by (auto simp: keeps_def quiet_def allowed_def)
next
  case Retransmit
  from handlers_step(5) [OF Retransmit] show ?thesis by (auto simp: keeps_def quiet_def allowed_def)
next
  case (Application t)
  from app_message_step [OF Application(2)] Application(1) show ?thesis
    by (cases "sess_state s = Established") (auto simp: keeps_def allowed_def)
qed (auto simp: allowed_def keeps_def)

lemma session_input_step:
  assumes "session_input hmac i s = Some (s', out)"
  shows "allowed (sess_state s) (sess_state s') \<and> keeps s s' \<and>
    (sess_state s = Terminated \<longrightarrow> out = []) \<and>
    (\<forall>u t d. AppMessage u t d \<in> set out \<longrightarrow> sess_state s = Established \<and> u = sess_uuid s \<and>
       (\<exists>env. i = Receive env d) \<and> decodeTemplateId d 0 = Some t)"
proof (cases i)
  case (Receive env data)
  then show ?thesis using assms onMessage_step [of hmac env data s s' out] by (auto simp: session_input_def)
next
  case (Tick env)
  then show ?thesis
    using assms by (auto simp: session_input_def session_onTimer_def sendFramedMessage_eq
        session_terminate_eq allowed_def keeps_def bind_eq_Some_conv Let_def split: if_splits)
next
  case (SendApp env data)
  then show ?thesis
    using assms by (auto simp: session_input_def sendApplicationMessage_def sendFramedMessage_eq
        allowed_def keeps_def split: if_splits)
next
  case (Close env c)
  then show ?thesis
    using assms by (auto simp: session_input_def session_terminate_eq allowed_def keeps_def split: if_splits)
qed

text \<open>
  C28.  The life cycle of a session: whatever is received, sent or timed, the state moves only from Connected to
  Negotiated to Established, or to Terminated, and never leaves Terminated, where nothing is sent any more;
  the identity and keys never change; and a message reaches the gateway only in an established session,
  unchanged and under the session's own UUID.
\<close>

theorem session_lifecycle:
  assumes "session_input hmac i s = Some (s', out)"
  shows "allowed (sess_state s) (sess_state s') \<and> keeps s s' \<and>
    (sess_state s = Terminated \<longrightarrow> out = []) \<and>
    (\<forall>u t d. AppMessage u t d \<in> set out \<longrightarrow> sess_state s = Established \<and> u = sess_uuid s \<and>
       (\<exists>env. i = Receive env d) \<and> decodeTemplateId d 0 = Some t)"
  using assms by (rule session_input_step)

definition ex_env :: Env where "ex_env = \<lparr>steady_now = 0, system_now = 7\<rparr>"

lemma ex_negotiate:
  "session_input (\<lambda>k d. replicate 32 0) (Receive ex_env (negotiate500.wire Negotiate500_default)) (Session_new 1 ex_env) =
     Some ((Session_new 1 ex_env)\<lparr>sess_state := Negotiated\<rparr>,
           [Send (negotiationResponse501.wire (resp501 0 (Session_new 1 ex_env)))])"
proof -
  have wf: "Negotiate500_wf Negotiate500_default" by (simp add: Negotiate500_wf_def Negotiate500_default_def)
  note dw = negotiate500.decode_wire [OF wf] and lw = negotiate500.length_wire [OF wf]
  show ?thesis
    using lw dw by (simp add: session_input_def onMessage_def handleNegotiate_def Session_new_def ex_env_def
        MessageHeader_SIZE_def sendFramedMessage_eq Negotiate500_default_def resp501_def)
qed

theorem session_lifecycle_witness:
  "case session_input (\<lambda>k d. replicate 32 0) (Receive ex_env (negotiate500.wire Negotiate500_default))
      (Session_new 1 ex_env) of
     None \<Rightarrow> False
   | Some (s', out) \<Rightarrow> sess_state s' = Negotiated \<and> allowed Connected (sess_state s') \<and> length out = 1"
proof -
  have "sess_state (Session_new 1 ex_env) = Connected" by (simp add: Session_new_def)
  with session_lifecycle [OF ex_negotiate] show ?thesis unfolding ex_negotiate by simp
qed

section \<open>Authentication\<close>

text \<open>A message whose signature field is the HMAC of what follows it.\<close>

definition signed :: "(bytes \<Rightarrow> bytes \<Rightarrow> bytes) \<Rightarrow> bytes \<Rightarrow> bytes \<Rightarrow> bool" where
  "signed hmac key data \<longleftrightarrow> take 32 (drop 8 data) = hmac key (drop 40 data)"

lemma Negotiate500_decode_long:
  assumes "Negotiate500_decode data 0 = Some m"
  shows "40 \<le> length data"
  using assms by (rule contrapos_pp) (simp add: Negotiate500_decode_def sbe_decode_simps read_bytes_def)

lemma Establish503_decode_long:
  assumes "Establish503_decode data 0 = Some m"
  shows "40 \<le> length data"
  using assms by (rule contrapos_pp) (simp add: Establish503_decode_def sbe_decode_simps read_bytes_def)

lemma step_negotiated:
  assumes "onMessage hmac env data s = Some (s', out)" and len: "\<And>k d. length (hmac k d) = 32"
    and "hmac_enabled s" and "sess_state s = Connected" and "sess_state s' \<notin> {Connected, Terminated}"
  shows "sess_state s' = Negotiated \<and> decodeTemplateId data 0 = Some 500 \<and> signed hmac (hmac_key s) data"
  using assms(1)
proof (cases rule: onMessage_cases)
  case Negotiate
  then obtain m where "Negotiate500_decode data 0 = Some m"
    using assms(4) by (auto simp: handleNegotiate_def bind_eq_Some_conv)
  then have "length (take 32 (drop 8 data)) = 32" using Negotiate500_decode_long by fastforce
  with Negotiate assms(3-5) show ?thesis
    by (auto simp: handleNegotiate_def bind_eq_Some_conv Let_def session_terminate_eq signed_def verifyHmac_def
        verify_iff len MessageHeader_SIZE_def sendFramedMessage_eq split: if_splits)
next
  case Terminate
  with handlers_step(4) [OF Terminate] assms(5) show ?thesis by auto
next
  case Retransmit
  with handlers_step(5) [OF Retransmit] assms(4,5) show ?thesis by auto
next
  case (Application t)
  from app_message_state [OF Application(2)] assms(4,5) show ?thesis by simp
qed (use assms(4,5) in \<open>auto simp: handleEstablish_def handleSequence_def\<close>)

lemma step_established:
  assumes "onMessage hmac env data s = Some (s', out)" and len: "\<And>k d. length (hmac k d) = 32"
    and "hmac_enabled s" and "sess_state s = Negotiated" and "sess_state s' = Established"
  shows "decodeTemplateId data 0 = Some 503 \<and> signed hmac (hmac_key s) data"
  using assms(1)
proof (cases rule: onMessage_cases)
  case Establish
  then obtain m where "Establish503_decode data 0 = Some m"
    using assms(4) by (auto simp: handleEstablish_def bind_eq_Some_conv)
  then have "length (take 32 (drop 8 data)) = 32" using Establish503_decode_long by fastforce
  with Establish assms(3-5) show ?thesis
    by (auto simp: handleEstablish_def bind_eq_Some_conv Let_def session_terminate_eq signed_def verifyHmac_def
        verify_iff len MessageHeader_SIZE_def sendFramedMessage_eq split: if_splits)
next
  case Terminate
  with handlers_step(4) [OF Terminate] assms(5) show ?thesis by auto
next
  case Retransmit
  with handlers_step(5) [OF Retransmit] assms(4,5) show ?thesis by auto
next
  case (Application t)
  from app_message_state [OF Application(2)] assms(4,5) show ?thesis by simp
qed (use assms(4,5) in \<open>auto simp: handleNegotiate_def handleSequence_def\<close>)

text \<open>Only a received message advances the state; anything else keeps it or ends the session.\<close>

lemma only_received_advance:
  assumes "session_input hmac i s = Some (s', out)" and "sess_state s' \<notin> {sess_state s, Terminated}"
  obtains env data where "i = Receive env data" and "onMessage hmac env data s = Some (s', out)"
proof (cases i)
  case (Receive env data)
  then show thesis using assms that by (simp add: session_input_def)
next
  case (Tick env)
  then show thesis
    using assms by (auto simp: session_input_def session_onTimer_def sendFramedMessage_eq
        session_terminate_eq bind_eq_Some_conv Let_def split: if_splits)
next
  case (SendApp env data)
  then show thesis
    using assms by (auto simp: session_input_def sendApplicationMessage_def sendFramedMessage_eq split: if_splits)
next
  case (Close env c)
  then show thesis using assms by (auto simp: session_input_def session_terminate_eq split: if_splits)
qed

lemma run_Cons:
  assumes "session_run hmac (i # is) s = Some (s', out)"
  obtains s1 o1 o2 where "session_input hmac i s = Some (s1, o1)" and "session_run hmac is s1 = Some (s', o2)"
    and "out = o1 @ o2"
  using assms by (auto simp: bind_eq_Some_conv)

lemma run_terminated:
  "session_run hmac is s = Some (s', out) \<Longrightarrow> sess_state s = Terminated \<Longrightarrow> sess_state s' = Terminated"
proof (induction "is" arbitrary: s out)
  case (Cons i "is")
  from Cons.prems(1) obtain s1 o1 o2 where
    1: "session_input hmac i s = Some (s1, o1)" and 2: "session_run hmac is s1 = Some (s', o2)"
    by (rule run_Cons)
  from session_input_step [OF 1] Cons.prems(2) have "sess_state s1 = Terminated" by (simp add: allowed_def)
  with Cons.IH [OF 2] show ?case .
qed simp

text \<open>A received message with the given template, signed under the key.\<close>

definition signed_input :: "(bytes \<Rightarrow> bytes \<Rightarrow> bytes) \<Rightarrow> bytes \<Rightarrow> 16 word \<Rightarrow> SessionInput \<Rightarrow> bool" where
  "signed_input hmac key t i \<longleftrightarrow>
     (\<exists>env data. i = Receive env data \<and> decodeTemplateId data 0 = Some t \<and> signed hmac key data)"

lemma established_signed:
  assumes len: "\<And>k d. length (hmac k d) = 32"
  shows "session_run hmac is s = Some (s', out) \<Longrightarrow> sess_state s = Negotiated \<Longrightarrow> hmac_enabled s \<Longrightarrow>
    sess_state s' = Established \<Longrightarrow> \<exists>a i b. is = a @ i # b \<and> signed_input hmac (hmac_key s) 503 i"
proof (induction "is" arbitrary: s out)
  case (Cons i "is")
  from Cons.prems(1) obtain s1 o1 o2 where
    1: "session_input hmac i s = Some (s1, o1)" and 2: "session_run hmac is s1 = Some (s', o2)"
    by (rule run_Cons)
  note st = session_input_step [OF 1]
  have "sess_state s1 \<noteq> Terminated" using run_terminated [OF 2] Cons.prems(4) by auto
  then consider "sess_state s1 = Negotiated" | "sess_state s1 = Established"
    using st Cons.prems(2) by (auto simp: allowed_def)
  then show ?case
  proof cases
    case 1
    have "hmac_enabled s1" "hmac_key s1 = hmac_key s" using st Cons.prems(3) by (simp_all add: keeps_def)
    with Cons.IH [OF 2 1 _ Cons.prems(4)] obtain a j b where "is = a @ j # b" "signed_input hmac (hmac_key s) 503 j"
      by auto
    then have "i # is = (i # a) @ j # b \<and> signed_input hmac (hmac_key s) 503 j" by simp
    then show ?thesis by blast
  next
    case 2
    with 1 Cons.prems(2) obtain env data where i: "i = Receive env data" and
      om: "onMessage hmac env data s = Some (s1, o1)" by (auto elim!: only_received_advance)
    from step_established [OF om len Cons.prems(3,2) 2] i have "signed_input hmac (hmac_key s) 503 i"
      by (auto simp: signed_input_def)
    then have "i # is = [] @ i # is \<and> signed_input hmac (hmac_key s) 503 i" by simp
    then show ?thesis by blast
  qed
qed auto

lemma negotiated_signed:
  assumes len: "\<And>k d. length (hmac k d) = 32"
  shows "session_run hmac is s = Some (s', out) \<Longrightarrow> sess_state s = Connected \<Longrightarrow> hmac_enabled s \<Longrightarrow>
    sess_state s' = Established \<Longrightarrow> \<exists>a i b j c. is = a @ i # b @ j # c \<and>
      signed_input hmac (hmac_key s) 500 i \<and> signed_input hmac (hmac_key s) 503 j"
proof (induction "is" arbitrary: s out)
  case (Cons i "is")
  from Cons.prems(1) obtain s1 o1 o2 where
    1: "session_input hmac i s = Some (s1, o1)" and 2: "session_run hmac is s1 = Some (s', o2)"
    by (rule run_Cons)
  note st = session_input_step [OF 1]
  have k: "hmac_enabled s1" "hmac_key s1 = hmac_key s" using st Cons.prems(3) by (simp_all add: keeps_def)
  have nt: "sess_state s1 \<noteq> Terminated" using run_terminated [OF 2] Cons.prems(4) by auto
  show ?case
  proof (cases "sess_state s1 = Connected")
    case True
    from Cons.IH [OF 2 True k(1) Cons.prems(4)] k(2) obtain a j b l c where
      "is = a @ j # b @ l # c" "signed_input hmac (hmac_key s) 500 j" "signed_input hmac (hmac_key s) 503 l"
      by auto
    then have "i # is = (i # a) @ j # b @ l # c \<and> signed_input hmac (hmac_key s) 500 j \<and>
      signed_input hmac (hmac_key s) 503 l" by simp
    then show ?thesis by blast
  next
    case False
    with nt 1 Cons.prems(2) obtain env data where i: "i = Receive env data" and
      om: "onMessage hmac env data s = Some (s1, o1)" by (auto elim!: only_received_advance)
    from step_negotiated [OF om len Cons.prems(3,2)] False nt
    have sn: "sess_state s1 = Negotiated" "decodeTemplateId data 0 = Some 500" "signed hmac (hmac_key s) data"
      by simp_all
    from established_signed [OF len 2 sn(1) k(1) Cons.prems(4)] k(2) obtain b j c where
      "is = b @ j # c" "signed_input hmac (hmac_key s) 503 j" by auto
    with i sn have "i # is = [] @ i # b @ j # c \<and> signed_input hmac (hmac_key s) 500 i \<and>
      signed_input hmac (hmac_key s) 503 j" by (simp add: signed_input_def)
    then show ?thesis by blast
  qed
qed simp

text \<open>
  C27.  Authentication: with HMAC enabled, a session that was Connected becomes Established only after a Negotiate
  and then an Establish have been received whose first 32 body bytes are the HMAC, under the session's
  key, of the bytes that follow them, whatever else arrives in between.  The HMAC function yields 32
  bytes.
\<close>

theorem session_authenticated:
  assumes "\<And>k d. length (hmac k d) = 32" and "session_run hmac is s = Some (s', out)"
    and "sess_state s = Connected" and "hmac_enabled s" and "sess_state s' = Established"
  shows "\<exists>a i b j c. is = a @ i # b @ j # c \<and>
    signed_input hmac (hmac_key s) Negotiate500_TEMPLATE_ID i \<and>
    signed_input hmac (hmac_key s) Establish503_TEMPLATE_ID j"
  using negotiated_signed [OF assms] by (simp add: template_ids)

definition ex_secure :: Session where
  "ex_secure = setHmacEnabled True (setHmacKey [1, 2, 3] (Session_new 1 ex_env))"

lemma ex_logon:
  "session_run (\<lambda>k d. replicate 32 0)
     [Receive ex_env (negotiate500.wire Negotiate500_default), Receive ex_env (establish503.wire Establish503_default)]
     ex_secure =
   Some (ex_secure\<lparr>sess_state := Established, keep_alive_interval_ms := 1000, next_in_seq := 0\<rparr>,
     [Send (negotiationResponse501.wire (resp501 0 ex_secure)),
      Send (establishmentAck504.wire (ack504 0 1000 ex_secure))])"
proof -
  have wf: "Negotiate500_wf Negotiate500_default" "Establish503_wf Establish503_default"
    by (simp_all add: Negotiate500_wf_def Negotiate500_default_def Establish503_wf_def Establish503_default_def)
  note dw = negotiate500.decode_wire [OF wf(1)] establish503.decode_wire [OF wf(2)]
    and lw = negotiate500.length_wire [OF wf(1)] establish503.length_wire [OF wf(2)]
  have hm: "take 32 (drop 8 (negotiate500.wire Negotiate500_default)) = replicate 32 0"
    "take 32 (drop 8 (establish503.wire Establish503_default)) = replicate 32 0"
    using MessageHeader_packed(2)
    by (simp_all add: negotiate500.wire_def establish503.wire_def Negotiate500_fields_def Establish503_fields_def
        Negotiate500_default_def Establish503_default_def)
  show ?thesis
    using lw dw hm by (simp add: session_input_def onMessage_def handleNegotiate_def handleEstablish_def
        ex_secure_def setHmacKey_def setHmacEnabled_def Session_new_def ex_env_def verifyHmac_def verify_iff
        MessageHeader_SIZE_def sendFramedMessage_eq Negotiate500_default_def Establish503_default_def
        resp501_def ack504_def clamp_keep_alive_def template_ids)
qed

theorem session_authenticated_witness:
  "\<exists>a i b j c. [Receive ex_env (negotiate500.wire Negotiate500_default),
      Receive ex_env (establish503.wire Establish503_default)] = a @ i # b @ j # c \<and>
    signed_input (\<lambda>k d. replicate 32 0) [1, 2, 3] Negotiate500_TEMPLATE_ID i \<and>
    signed_input (\<lambda>k d. replicate 32 0) [1, 2, 3] Establish503_TEMPLATE_ID j"
proof -
  have "hmac_key ex_secure = [1, 2, 3]" "sess_state ex_secure = Connected" "hmac_enabled ex_secure"
    by (simp_all add: ex_secure_def setHmacKey_def setHmacEnabled_def Session_new_def)
  with session_authenticated [OF _ ex_logon] show ?thesis by simp
qed

section \<open>Sequence numbers of received messages\<close>

text \<open>A message the gateway accepts, carrying the client's sequence number.\<close>

definition numbered_message :: "bytes \<Rightarrow> nat \<Rightarrow> bool" where
  "numbered_message data q \<longleftrightarrow> (case decodeTemplateId data 0 of
       None \<Rightarrow> False
     | Some t \<Rightarrow> 8 \<le> length data \<and> 514 \<le> t \<and> client_seq_of t data = Some (of_nat q))"

definition app_state :: "Env \<Rightarrow> 32 word \<Rightarrow> Session \<Rightarrow> Session" where
  "app_state env q s = s\<lparr>last_received := steady_now env,
     last_sent := (if next_in_seq s < q then steady_now env else last_sent s),
     next_in_seq := (if q < next_in_seq s then next_in_seq s else q + 1)\<rparr>"

lemma onMessage_application:
  assumes "sess_state s = Established" and "decodeTemplateId data 0 = Some t" and "514 \<le> t"
    and "client_seq_of t data = Some q" and "8 \<le> length data"
  shows "onMessage hmac env data s = Some (app_state env q s,
    (if next_in_seq s < q \<and> send_cb s then [Send (notApplied513.wire (na513 (next_in_seq s) (q - next_in_seq s) s))] else []) @
    (if app_cb s then [AppMessage (sess_uuid s) t data] else []))"
proof -
  have "t \<notin> {500, 503, 506, 507, 508}" using assms(3) by auto
  moreover have "na513 f c (s\<lparr>last_received := x\<rparr>) = na513 f c s" for f c x by (simp add: na513_def)
  ultimately show ?thesis
    using assms by (auto simp: onMessage_def template_ids MessageHeader_SIZE_def handleApplicationMessage_def
        sendFramedMessage_eq app_state_def Let_def)
qed

text \<open>The numbers a client is told were not applied, and the messages the gateway receives.\<close>

definition not_applied :: "SessionOutput list \<Rightarrow> nat list" where
  "not_applied out = concat (map (\<lambda>x. case x of
       Send b \<Rightarrow> (if decodeTemplateId b 0 = Some NotApplied513_TEMPLATE_ID
                  then (case NotApplied513_decode b 0 of
                          None \<Rightarrow> []
                        | Some m \<Rightarrow> [unat (NotApplied513.fromSeqNo m)..<
                             unat (NotApplied513.fromSeqNo m) + unat (NotApplied513.msgCount m)])
                  else [])
     | AppMessage u t d \<Rightarrow> []) out)"

definition forwarded :: "SessionOutput list \<Rightarrow> bytes list" where
  "forwarded out = concat (map (\<lambda>x. case x of Send b \<Rightarrow> [] | AppMessage u t d \<Rightarrow> [d]) out)"

lemma not_applied_simps [simp]:
  "not_applied [] = []" "not_applied (AppMessage u t d # out) = not_applied out"
  "not_applied (Send (notApplied513.wire (na513 f c s)) # out) = [unat f..<unat f + unat c] @ not_applied out"
  "not_applied (out @ out') = not_applied out @ not_applied out'"
  "forwarded [] = []" "forwarded (AppMessage u t d # out) = d # forwarded out"
  "forwarded (Send b # out) = forwarded out" "forwarded (out @ out') = forwarded out @ forwarded out'"
  using notApplied513.decode_wire [of "na513 f c s"]
  by (simp_all add: not_applied_def forwarded_def) (simp add: na513_def)

lemma unat_next: "Suc q < 2 ^ 32 \<Longrightarrow> unat (of_nat q + 1 :: 32 word) = Suc q"
proof -
  assume q: "Suc q < 2 ^ 32"
  have "of_nat q + 1 = (of_nat (Suc q) :: 32 word)" by simp
  also have "unat \<dots> = Suc q" using q by (simp only: unat_of_nat) simp
  finally show ?thesis .
qed

lemma one_numbered:
  assumes "sess_state s = Established" and "send_cb s" and "app_cb s" and "numbered_message data q"
    and "unat (next_in_seq s) \<le> q" and "Suc q < 2 ^ 32"
  obtains s1 o1 where "onMessage hmac env data s = Some (s1, o1)" and "sess_state s1 = Established"
    and "send_cb s1" and "app_cb s1" and "unat (next_in_seq s1) = Suc q"
    and "not_applied o1 = [unat (next_in_seq s)..<q]" and "forwarded o1 = [data]"
proof -
  from assms(4) obtain t where t: "decodeTemplateId data 0 = Some t" "514 \<le> t"
    "client_seq_of t data = Some (of_nat q)" "8 \<le> length data"
    by (auto simp: numbered_message_def split: option.splits)
  have q: "unat (of_nat q :: 32 word) = q" using assms(6) by (simp only: unat_of_nat) simp
  have lt: "next_in_seq s < of_nat q \<longleftrightarrow> unat (next_in_seq s) < q"
    by (simp add: word_less_nat_alt q)
  have d: "unat (of_nat q - next_in_seq s :: 32 word) = q - unat (next_in_seq s)"
    using assms(5) by (simp add: unat_sub word_le_nat_alt q)
  show thesis
    by (rule that [OF onMessage_application [OF assms(1) t]])
      (use assms q lt d in \<open>auto simp: app_state_def word_less_nat_alt unat_next\<close>)
qed

lemma upt_gap: "n \<le> q \<Longrightarrow> Suc q \<le> m \<Longrightarrow> \<forall>x\<in>set qs. q < x \<Longrightarrow>
    filter (\<lambda>k. k \<notin> set (q # qs)) [n..<m] = [n..<q] @ filter (\<lambda>k. k \<notin> set qs) [Suc q..<m]"
proof -
  assume a: "n \<le> q" "Suc q \<le> m" "\<forall>x\<in>set qs. q < x"
  then have u: "[n..<m] = [n..<q] @ q # [Suc q..<m]"
    using upt_add_eq_append [of n q "m - q"] upt_conv_Cons [of q m] by simp
  have "filter (\<lambda>k. k \<notin> set (q # qs)) [n..<q] = [n..<q]" using a(3) by (auto simp: filter_id_conv)
  moreover have "filter (\<lambda>k. k \<notin> set (q # qs)) [Suc q..<m] = filter (\<lambda>k. k \<notin> set qs) [Suc q..<m]"
    by (rule filter_cong) auto
  ultimately show ?thesis unfolding u by simp
qed

lemma gaps_run:
  assumes "list_all2 (\<lambda>(env, d) q. numbered_message d q) msgs qs" and "sorted_wrt (<) qs"
    and "\<forall>q\<in>set qs. unat (next_in_seq s) \<le> q \<and> Suc q < 2 ^ 32"
    and "sess_state s = Established" and "send_cb s" and "app_cb s"
  shows "\<exists>s' out. session_run hmac (map (\<lambda>(env, d). Receive env d) msgs) s = Some (s', out) \<and>
    forwarded out = map snd msgs \<and> (\<forall>q\<in>set qs. q < unat (next_in_seq s')) \<and>
    not_applied out = filter (\<lambda>k. k \<notin> set qs) [unat (next_in_seq s)..<unat (next_in_seq s')] \<and>
    unat (next_in_seq s') = (if qs = [] then unat (next_in_seq s) else Suc (last qs))"
  using assms
proof (induction msgs arbitrary: qs s)
  case Nil
  then show ?case by simp
next
  case (Cons m msgs)
  obtain env d where m: "m = (env, d)" by (cases m)
  from Cons.prems(1) m obtain q qs' where qs: "qs = q # qs'" and nm: "numbered_message d q"
    and rest: "list_all2 (\<lambda>(env, d) q. numbered_message d q) msgs qs'"
    by (auto simp: list_all2_Cons1)
  from Cons.prems(3) qs have qb: "unat (next_in_seq s) \<le> q" "Suc q < 2 ^ 32" by auto
  from one_numbered [OF Cons.prems(4-6) nm qb, of hmac env] obtain s1 o1 where
    1: "onMessage hmac env d s = Some (s1, o1)" "sess_state s1 = Established" "send_cb s1" "app_cb s1"
      "unat (next_in_seq s1) = Suc q" "not_applied o1 = [unat (next_in_seq s)..<q]" "forwarded o1 = [d]" .
  have "sorted_wrt (<) qs'" "\<forall>x\<in>set qs'. unat (next_in_seq s1) \<le> x \<and> Suc x < 2 ^ 32"
    using Cons.prems(2,3) qs 1(5) by (auto simp: Suc_le_eq)
  from Cons.IH [OF rest this 1(2-4)] obtain s' o2 where
    2: "session_run hmac (map (\<lambda>(env, d). Receive env d) msgs) s1 = Some (s', o2)"
      "forwarded o2 = map snd msgs" "\<forall>x\<in>set qs'. x < unat (next_in_seq s')"
      "not_applied o2 = filter (\<lambda>k. k \<notin> set qs') [Suc q..<unat (next_in_seq s')]"
      "unat (next_in_seq s') = (if qs' = [] then Suc q else Suc (last qs'))"
    unfolding 1(5) by blast
  have gt: "\<forall>x\<in>set qs'. q < x" using Cons.prems(2) qs by simp
  then have "Suc q \<le> unat (next_in_seq s')" using 2(5) by (auto simp: less_imp_le)
  with 1 2 qs m upt_gap [OF qb(1) _ gt] gt show ?case
    by (auto simp: session_input_def Suc_le_eq)
qed

text \<open>
  C29.  Gap detection over a whole stream: when an established session receives application messages whose
  sequence numbers increase, starting at or after the expected one, every message is forwarded to the
  gateway in order, the NotApplied messages report exactly the skipped numbers, each once and in
  order, and the next expected number is the successor of the last one received.
\<close>

theorem sequence_gaps_reported:
  assumes "list_all2 (\<lambda>(env, d) q. numbered_message d q) msgs qs" and "sorted_wrt (<) qs" and "qs \<noteq> []"
    and "\<forall>q\<in>set qs. unat (next_in_seq s) \<le> q \<and> Suc q < 2 ^ 32"
    and "sess_state s = Established" and "send_cb s" and "app_cb s"
  shows "\<exists>s' out. session_run hmac (map (\<lambda>(env, d). Receive env d) msgs) s = Some (s', out) \<and>
    forwarded out = map snd msgs \<and> unat (next_in_seq s') = Suc (last qs) \<and>
    not_applied out = filter (\<lambda>k. k \<notin> set qs) [unat (next_in_seq s)..<Suc (last qs)]"
  using gaps_run [OF assms(1,2,4-7), of hmac] assms(3) by auto

definition ex_app :: "8 word \<Rightarrow> bytes" where
  "ex_app q = body_of (MessageHeader_fields 21 600 8 8) @ replicate 17 0 @ [q, 0, 0, 0]"

definition ex_established :: Session where
  "ex_established = (Session_new 1 ex_env)\<lparr>sess_state := Established, next_in_seq := 3\<rparr>"

theorem sequence_gaps_reported_witness:
  "\<exists>s' out. session_run (\<lambda>k d. replicate 32 0) [Receive ex_env (ex_app 3), Receive ex_env (ex_app 6)] ex_established =
      Some (s', out) \<and> forwarded out = [ex_app 3, ex_app 6] \<and> unat (next_in_seq s') = 7 \<and> not_applied out = [4, 5]"
proof -
  have n: "numbered_message (ex_app 3) 3" "numbered_message (ex_app 6) 6" by code_simp+
  have e: "sess_state ex_established = Established" "send_cb ex_established" "app_cb ex_established"
    "unat (next_in_seq ex_established) = 3" by (simp_all add: ex_established_def Session_new_def)
  have f: "filter (\<lambda>k. k \<notin> set [3, 6]) [3..<Suc (last [3, 6])] = [4, 5 :: nat]" by code_simp
  from sequence_gaps_reported [of "[(ex_env, ex_app 3), (ex_env, ex_app 6)]" "[3, 6]" ex_established
      "\<lambda>k d. replicate 32 0", unfolded e f] n e show ?thesis
    by simp
qed

section \<open>Retransmission\<close>

text \<open>
  The sessions the server reaches: a new session, configured, and any inputs.  The list records the
  application messages sent so far.
\<close>

inductive session_reach :: "(bytes \<Rightarrow> bytes \<Rightarrow> bytes) \<Rightarrow> Session \<Rightarrow> bytes list \<Rightarrow> bool" for hmac where
  reach_new: "session_reach hmac (setHmacEnabled e (setHmacKey k (Session_new u env))) []"
| reach_app: "session_reach hmac s sent \<Longrightarrow> sess_state s = Established \<Longrightarrow>
    session_reach hmac (fst (sendApplicationMessage env d s)) (sent @ [d])"
| reach_input: "session_reach hmac s sent \<Longrightarrow> session_input hmac i s = Some (s', out) \<Longrightarrow>
    \<forall>env d. i = SendApp env d \<longrightarrow> sess_state s \<noteq> Established \<Longrightarrow> session_reach hmac s' sent"

definition same_log :: "Session \<Rightarrow> Session \<Rightarrow> bool" where
  "same_log s s' \<longleftrightarrow> next_out_seq s' = next_out_seq s \<and> retransmit_buffer s' = retransmit_buffer s \<and>
     (keep_alive_interval_ms s' = keep_alive_interval_ms s \<or> keep_alive_interval_ms s' \<in> range clamp_keep_alive)"

lemma handlers_same_log:
  "handleNegotiate hmac env data s = Some (s', out) \<Longrightarrow> same_log s s'"
  "handleEstablish hmac env data s = Some (s', out) \<Longrightarrow> same_log s s'"
  "handleTerminate env data s = Some (s', out) \<Longrightarrow> same_log s s'"
  "handleRetransmitRequest env data s = Some (s', out) \<Longrightarrow> same_log s s'"
  "handleApplicationMessage env t data s = Some (s', out) \<Longrightarrow> same_log s s'"
  by (auto simp: handler_defs same_log_def sendFramedMessage_eq resend_all_eq session_terminate_eq
      bind_eq_Some_conv Let_def split: if_splits)

lemma onMessage_same_log:
  assumes "onMessage hmac env data s = Some (s', out)"
  shows "same_log s s'"
  using assms
proof (cases rule: onMessage_cases)
  case Negotiate
  from handlers_same_log(1) [OF Negotiate(2)] show ?thesis by (simp add: same_log_def)
next
  case Establish
  from handlers_same_log(2) [OF Establish(2)] show ?thesis by (simp add: same_log_def)
next
  case Sequence
  from handlers_step(3) [OF Sequence] show ?thesis by (simp add: same_log_def)
next
  case Terminate
  from handlers_same_log(3) [OF Terminate] show ?thesis by (simp add: same_log_def)
next
  case Retransmit
  from handlers_same_log(4) [OF Retransmit] show ?thesis by (simp add: same_log_def)
next
  case (Application t)
  from handlers_same_log(5) [OF Application(2)] show ?thesis by (simp add: same_log_def)
qed (auto simp: same_log_def)

lemma input_same_log:
  assumes "session_input hmac i s = Some (s', out)" and "\<forall>env d. i = SendApp env d \<longrightarrow> sess_state s \<noteq> Established"
  shows "same_log s s'"
proof (cases i)
  case (Receive env data)
  then show ?thesis using assms onMessage_same_log by (auto simp: session_input_def)
next
  case (Tick env)
  then show ?thesis
    using assms by (auto simp: session_input_def session_onTimer_def sendFramedMessage_eq
        session_terminate_eq bind_eq_Some_conv Let_def same_log_def split: if_splits)
next
  case (SendApp env data)
  then show ?thesis
    using assms by (auto simp: session_input_def sendApplicationMessage_def same_log_def)
next
  case (Close env c)
  then show ?thesis using assms by (auto simp: session_input_def session_terminate_eq same_log_def split: if_splits)
qed

lemma reach_logged:
  assumes "session_reach hmac s sent"
  shows "next_out_seq s = of_nat (1 + length sent) \<and>
    retransmit_buffer s = store_all 1 sent (RetransmitBuffer_new 10000)"
  using assms
proof induction
  case (reach_new e k u env)
  show ?case by (simp add: setHmacEnabled_def setHmacKey_def Session_new_def)
next
  case (reach_app s sent env d)
  then show ?case
    by (simp add: sendApplicationMessage_def sendFramedMessage_eq store_all_append add.commute)
next
  case (reach_input s sent i s' out)
  from input_same_log [OF reach_input.hyps(2,3)] reach_input.IH show ?case by (simp add: same_log_def)
qed

lemma map_filter_total: "\<forall>x\<in>set xs. g x = Some (h x) \<Longrightarrow> List.map_filter g xs = map h xs"
  by (induction xs) (simp_all add: List.map_filter_simps)

lemma requested_recent:
  assumes "1 \<le> f" and "f - 1 + c \<le> length sent" and "length sent \<le> f - 1 + cap" and "0 < cap"
    and "1 + length sent < 2 ^ 32" and "[] \<notin> set sent" and "c < 2 ^ 16"
  shows "requested_messages (of_nat f) (of_nat c) (store_all 1 sent (RetransmitBuffer_new cap)) =
    take c (drop (f - 1) sent)"
proof -
  let ?r = "store_all 1 sent (RetransmitBuffer_new cap)"
  have c: "unat (of_nat c :: 16 word) = c" using assms(7) by (simp only: unat_of_nat) simp
  have "ring_retrieve (of_nat f + of_nat i) ?r = Some (sent ! (f - 1 + i))" if "i < c" for i
  proof -
    have "of_nat f + of_nat i = (of_nat (1 + (f - 1 + i)) :: 32 word)" using assms(1) by (simp flip: of_nat_add)
    moreover have "sent ! (f - 1 + i) \<noteq> []" using assms(2,6) that by (metis add_less_cancel_left less_le_trans nth_mem)
    ultimately show ?thesis
      using store_all_retrieve [OF ring_new_ok [OF assms(4)], of 1 sent "f - 1 + i"] assms(2,3,5) that
      by (simp add: RetransmitBuffer_new_def add.assoc)
  qed
  then have "requested_messages (of_nat f) (of_nat c) ?r = map (\<lambda>i. sent ! (f - 1 + i)) [0..<c]"
    unfolding requested_messages_def c by (intro map_filter_total) simp
  also have "\<dots> = take c (drop (f - 1) sent)" using assms(2) by (intro nth_equalityI) simp_all
  finally show ?thesis .
qed

text \<open>
  C30.  Retransmission, end to end: in any reachable established session, a RetransmitRequest for messages
  among the 10000 most recently sent ones is answered by a Retransmission message announcing exactly
  the requested number and count, followed by those messages, byte for byte and in order; the session
  is otherwise unchanged.
\<close>

theorem retransmission_complete:
  assumes "session_reach hmac s sent" and "sess_state s = Established" and "send_cb s"
    and "RetransmitRequest508_decode data 0 = Some req" and "decodeTemplateId data 0 = Some 508"
    and "RetransmitRequest508.lastUUID req \<in> {0, sess_uuid s}"
    and "RetransmitRequest508.fromSeqNo req = of_nat f" and "RetransmitRequest508.msgCount req = of_nat c"
    and "1 \<le> f" and "f - 1 + c \<le> length sent" and "length sent \<le> f - 1 + 10000" and "c < 2 ^ 16"
    and "1 + length sent < 2 ^ 32" and "[] \<notin> set sent" and "8 \<le> length data"
  shows "\<exists>b m. onMessage hmac env data s = Some
      (s\<lparr>last_received := steady_now env, last_sent := steady_now env\<rparr>, Send b # map Send (take c (drop (f - 1) sent))) \<and>
    decodeTemplateId b 0 = Some Retransmission509_TEMPLATE_ID \<and> Retransmission509_decode b 0 = Some m \<and>
    Retransmission509.uuid m = sess_uuid s \<and> Retransmission509.fromSeqNo m = of_nat f \<and>
    Retransmission509.msgCount m = of_nat c"
proof -
  let ?s = "s\<lparr>last_received := steady_now env\<rparr>"
  let ?m = "rt509 (RetransmitRequest508.lastUUID req) (RetransmitRequest508.requestTimestamp req) (of_nat f) (of_nat c) ?s"
  have rq: "requested_messages (of_nat f) (of_nat c) (retransmit_buffer s) = take c (drop (f - 1) sent)"
    using requested_recent [OF assms(9-11) _ assms(13,14,12)] reach_logged [OF assms(1)] by simp
  have len: "length (take c (drop (f - 1) sent)) = c" using assms(10) by simp
  have om: "onMessage hmac env data s = handleRetransmitRequest env data ?s"
    using assms(5,15) by (simp add: onMessage_def template_ids MessageHeader_SIZE_def)
  have "handleRetransmitRequest env data ?s = Some
      (s\<lparr>last_received := steady_now env, last_sent := steady_now env\<rparr>,
       Send (retransmission509.wire ?m) # map Send (take c (drop (f - 1) sent)))"
    using assms(2,3,6) rq len
    by (auto simp: handleRetransmitRequest_def assms(4,7,8) sendFramedMessage_eq resend_all_eq)
  with om retransmission509.decode_wire [of ?m] show ?thesis by (auto simp: rt509_def)
qed

lemma reach_run:
  "session_run hmac is s = Some (s', out) \<Longrightarrow> session_reach hmac s sent \<Longrightarrow>
     \<forall>i\<in>set is. \<forall>env d. i \<noteq> SendApp env d \<Longrightarrow> session_reach hmac s' sent"
proof (induction "is" arbitrary: s out)
  case (Cons i "is")
  from Cons.prems(1) obtain s1 o1 o2 where
    1: "session_input hmac i s = Some (s1, o1)" and 2: "session_run hmac is s1 = Some (s', o2)"
    by (rule run_Cons)
  have "session_reach hmac s1 sent"
    by (rule reach_input [OF Cons.prems(2) 1]) (use Cons.prems(3) in auto)
  with Cons.IH [OF 2] Cons.prems(3) show ?case by simp
qed simp

definition ex_logged_on :: Session where
  "ex_logged_on = ex_secure\<lparr>sess_state := Established, keep_alive_interval_ms := 1000, next_in_seq := 0\<rparr>"

definition ex_sent :: Session where
  "ex_sent = fst (sendApplicationMessage ex_env [8] (fst (sendApplicationMessage ex_env [9] ex_logged_on)))"

lemma ex_sent_reach: "session_reach (\<lambda>k d. replicate 32 0) ex_sent [[9], [8]]"
proof -
  have st: "sess_state ex_logged_on = Established" "sess_state (fst (sendApplicationMessage ex_env [9] ex_logged_on)) = Established"
    by (simp_all add: ex_logged_on_def sendApplicationMessage_def sendFramedMessage_eq)
  have "session_reach (\<lambda>k d. replicate 32 0) ex_logged_on []"
    by (rule reach_run [OF ex_logon [folded ex_logged_on_def]]) (simp_all add: ex_secure_def reach_new)
  from reach_app [OF reach_app [OF this st(1)] st(2)] show ?thesis by (simp add: ex_sent_def)
qed

theorem retransmission_complete_witness:
  "\<exists>b m. onMessage (\<lambda>k d. replicate 32 0) ex_env (retransmitRequest508.wire (RetransmitRequest508_default
        \<lparr>RetransmitRequest508.fromSeqNo := 2, RetransmitRequest508.msgCount := 1\<rparr>)) ex_sent =
      Some (ex_sent, [Send b, Send [8]]) \<and> Retransmission509_decode b 0 = Some m \<and>
    Retransmission509.fromSeqNo m = 2 \<and> Retransmission509.msgCount m = 1"
proof -
  let ?q = "RetransmitRequest508_default\<lparr>RetransmitRequest508.fromSeqNo := 2, RetransmitRequest508.msgCount := 1\<rparr>"
  have wf: "RetransmitRequest508_wf ?q" by (simp add: RetransmitRequest508_wf_def)
  have ex: "sess_state ex_sent = Established" "send_cb ex_sent"
    "ex_sent\<lparr>last_received := steady_now ex_env, last_sent := steady_now ex_env\<rparr> = ex_sent"
    by (simp_all add: ex_sent_def ex_logged_on_def sendApplicationMessage_def sendFramedMessage_eq ex_secure_def
        setHmacKey_def setHmacEnabled_def Session_new_def ex_env_def)
  note dw = retransmitRequest508.decode_wire [OF wf]
  have "decodeTemplateId (retransmitRequest508.wire ?q) 0 = Some 508" "8 \<le> length (retransmitRequest508.wire ?q)"
    using dw(2) retransmitRequest508.length_wire [OF wf] by (simp_all add: RetransmitRequest508_TEMPLATE_ID_def)
  from retransmission_complete [OF ex_sent_reach ex(1,2) dw(1) this(1), of 2 1 ex_env] this(2) show ?thesis
    unfolding ex(3) by (auto simp: RetransmitRequest508_default_def)
qed

section \<open>Keep-alive\<close>

lemma clamp_bounds: "1000 \<le> clamp_keep_alive k" "clamp_keep_alive k \<le> 60000"
  by (auto simp: clamp_keep_alive_def Let_def)

lemma ucast_clamp: "(ucast (ucast (clamp_keep_alive k) :: 16 word) :: 32 word) = clamp_keep_alive k"
proof (rule word_unat_eq_iff [THEN iffD2])
  have "unat (clamp_keep_alive k) \<le> 60000" using clamp_bounds(2) [of k] by (simp add: word_le_nat_alt)
  then show "unat (ucast (ucast (clamp_keep_alive k) :: 16 word) :: 32 word) = unat (clamp_keep_alive k)"
    by (simp add: unsigned_ucast_eq unsigned_take_bit_eq take_bit_nat_eq_self)
qed

lemma reach_interval:
  assumes "session_reach hmac s sent"
  shows "1000 \<le> keep_alive_interval_ms s \<and> keep_alive_interval_ms s \<le> 60000"
  using assms
proof induction
  case (reach_new e k u env)
  show ?case by (simp add: setHmacEnabled_def setHmacKey_def Session_new_def)
next
  case (reach_app s sent env d)
  then show ?case by (simp add: sendApplicationMessage_def sendFramedMessage_eq)
next
  case (reach_input s sent i s' out)
  from input_same_log [OF reach_input.hyps(2,3)] reach_input.IH clamp_bounds show ?case
    by (auto simp: same_log_def)
qed

lemma onTimer_eq:
  assumes "sess_state s = Established" and "send_cb s"
  shows "session_onTimer env s =
    (let late = uint (keep_alive_interval_ms s) \<le> millis (steady_now env - last_sent s);
         dead = uint (keep_alive_interval_ms s) * 2 \<le> millis (steady_now env - last_received s)
     in Some (s\<lparr>last_sent := (if late \<or> dead then steady_now env else last_sent s),
                sess_state := (if dead then Terminated else Established)\<rparr>,
              (if late then [Send (sequence506.wire (seq506 s))] else []) @
              (if dead then [Send (terminate507.wire (term507 env 1 s))] else [])))"
  using assms by (auto simp: session_onTimer_def sendFramedMessage_eq session_terminate_eq Let_def term507_def)

lemma millis_ge: "0 \<le> m \<Longrightarrow> m * 1000000 \<le> ns \<Longrightarrow> m \<le> millis ns"
  by (auto simp: millis_def)

lemma millis_less: "0 < m \<Longrightarrow> ns < m * 1000000 \<Longrightarrow> millis ns < m"
  by (auto simp: millis_def)

text \<open>
  Keep-alive: in a reachable established session a timer tick always returns.  It ends the session if
  the client has been silent for 120 seconds and does not if it was heard within the last two; it
  sends first a heartbeat with the next outbound sequence number if nothing was sent for 60 seconds;
  and it does nothing at all if the last message was sent less than one second and received less than
  two seconds ago.
\<close>

theorem session_keep_alive:
  assumes "session_reach hmac s sent" and "sess_state s = Established" and "send_cb s"
  shows "\<exists>s' out. session_onTimer env s = Some (s', out) \<and>
    (120 * 1000000000 \<le> steady_now env - last_received s \<longrightarrow> sess_state s' = Terminated) \<and>
    (steady_now env - last_received s < 2 * 1000000000 \<longrightarrow> sess_state s' = Established) \<and>
    (60 * 1000000000 \<le> steady_now env - last_sent s \<longrightarrow> (\<exists>b rest m. out = Send b # rest \<and>
       decodeTemplateId b 0 = Some Sequence506_TEMPLATE_ID \<and> Sequence506_decode b 0 = Some m \<and>
       Sequence506.uuid m = sess_uuid s \<and> Sequence506.nextSeqNo m = of_nat (1 + length sent))) \<and>
    (steady_now env - last_sent s < 1000000000 \<and> steady_now env - last_received s < 2 * 1000000000 \<longrightarrow>
       s' = s \<and> out = [])"
proof -
  have k: "1000 \<le> uint (keep_alive_interval_ms s)" "uint (keep_alive_interval_ms s) \<le> 60000"
    using reach_interval [OF assms(1)] by (simp_all add: word_le_def)
  have dead: "uint (keep_alive_interval_ms s) * 2 \<le> millis (steady_now env - last_received s)"
    if "120 * 1000000000 \<le> steady_now env - last_received s"
    by (rule millis_ge) (use k that in linarith)+
  have alive: "millis (steady_now env - last_received s) < uint (keep_alive_interval_ms s) * 2"
    if "steady_now env - last_received s < 2 * 1000000000"
    by (rule millis_less) (use k that in linarith)+
  have late: "uint (keep_alive_interval_ms s) \<le> millis (steady_now env - last_sent s)"
    if "60 * 1000000000 \<le> steady_now env - last_sent s"
    by (rule millis_ge) (use k that in linarith)+
  have busy: "millis (steady_now env - last_sent s) < uint (keep_alive_interval_ms s)"
    if "steady_now env - last_sent s < 1000000000"
    by (rule millis_less) (use k that in linarith)+
  have m: "Sequence506.uuid (seq506 s) = sess_uuid s" "Sequence506.nextSeqNo (seq506 s) = of_nat (1 + length sent)"
    using reach_logged [OF assms(1)] by (simp_all add: seq506_def)
  show ?thesis
    unfolding onTimer_eq [OF assms(2,3)] Let_def
    by (intro exI conjI impI, rule refl)
      (use dead alive late busy assms(2) sequence506.decode_wire [of "seq506 s"] m in \<open>auto simp: not_le\<close>)
qed

theorem session_keep_alive_witness:
  "\<exists>s' out. session_onTimer \<lparr>steady_now = 130 * 1000000000, system_now = 7\<rparr> ex_sent = Some (s', out) \<and>
     sess_state s' = Terminated \<and> out \<noteq> []"
proof -
  let ?env = "\<lparr>steady_now = 130 * 1000000000, system_now = 7\<rparr> :: Env"
  have ex: "sess_state ex_sent = Established" "send_cb ex_sent" "last_received ex_sent = 0" "last_sent ex_sent = 0"
    by (simp_all add: ex_sent_def ex_logged_on_def sendApplicationMessage_def sendFramedMessage_eq ex_secure_def
        setHmacKey_def setHmacEnabled_def Session_new_def ex_env_def)
  from session_keep_alive [OF ex_sent_reach ex(1,2), of ?env] ex(3,4) show ?thesis by auto
qed

text \<open>
  The keep-alive interval: whatever the client asks for, establishing sets an interval between 1000 and
  60000 milliseconds, and the EstablishmentAck announces exactly the interval the session uses, the
  client's timestamp and the next outbound sequence number.
\<close>

theorem establish_agrees_interval:
  assumes "sess_state s = Negotiated" and "\<not> hmac_enabled s" and "send_cb s"
    and "Establish503_decode data 0 = Some est" and "decodeTemplateId data 0 = Some 503" and "8 \<le> length data"
  shows "\<exists>s' b m. onMessage hmac env data s = Some (s', [Send b]) \<and> sess_state s' = Established \<and>
    1000 \<le> keep_alive_interval_ms s' \<and> keep_alive_interval_ms s' \<le> 60000 \<and>
    next_in_seq s' = Establish503.nextSeqNo est \<and>
    decodeTemplateId b 0 = Some EstablishmentAck504_TEMPLATE_ID \<and> EstablishmentAck504_decode b 0 = Some m \<and>
    ucast (EstablishmentAck504.keepAliveInterval m) = keep_alive_interval_ms s' \<and>
    EstablishmentAck504.requestTimestamp m = Establish503.sendingTime est \<and>
    EstablishmentAck504.nextSeqNo m = next_out_seq s"
proof -
  let ?k = "clamp_keep_alive (Establish503.keepAliveInterval est)"
  let ?s = "s\<lparr>keep_alive_interval_ms := ?k, next_in_seq := Establish503.nextSeqNo est, sess_state := Established,
    last_received := steady_now env, last_sent := steady_now env\<rparr>"
  let ?a = "ack504 (Establish503.sendingTime est) (ucast ?k) ?s"
  have "onMessage hmac env data s = Some (?s, [Send (establishmentAck504.wire ?a)])"
    using assms by (simp add: onMessage_def template_ids MessageHeader_SIZE_def handleEstablish_def sendFramedMessage_eq Let_def)
  moreover have "EstablishmentAck504.keepAliveInterval ?a = ucast ?k" "EstablishmentAck504.nextSeqNo ?a = next_out_seq s"
    "EstablishmentAck504.requestTimestamp ?a = Establish503.sendingTime est" by (simp_all add: ack504_def)
  ultimately show ?thesis
    using establishmentAck504.decode_wire [of ?a] clamp_bounds by (auto simp: ucast_clamp)
qed

theorem establish_agrees_interval_witness:
  "\<exists>s' b. onMessage (\<lambda>k d. []) ex_env (establish503.wire Establish503_default)
      ((Session_new 1 ex_env)\<lparr>sess_state := Negotiated\<rparr>) = Some (s', [Send b]) \<and> 1000 \<le> keep_alive_interval_ms s'"
proof -
  let ?s = "(Session_new 1 ex_env)\<lparr>sess_state := Negotiated\<rparr>"
  have wf: "Establish503_wf Establish503_default" by (simp add: Establish503_wf_def Establish503_default_def)
  note dw = establish503.decode_wire [OF wf]
  have t: "decodeTemplateId (establish503.wire Establish503_default) 0 = Some 503"
    "8 \<le> length (establish503.wire Establish503_default)"
    using dw(2) establish503.length_wire [OF wf] by (simp_all add: template_ids)
  have "sess_state ?s = Negotiated" "\<not> hmac_enabled ?s" "send_cb ?s" by (simp_all add: Session_new_def)
  from establish_agrees_interval [OF this dw(1) t] show ?thesis by blast
qed

section \<open>Forged logons\<close>

text \<open>
  A forged logon is refused: with HMAC enabled, a Negotiate in state Connected or an Establish in state
  Negotiated whose signature is not the HMAC of the rest ends the session with a single Terminate
  message carrying error code 8.
\<close>

theorem forged_logon_terminated:
  assumes "\<And>k d. length (hmac k d) = 32" and "hmac_enabled s" and "send_cb s" and "\<not> signed hmac (hmac_key s) data"
    and "8 \<le> length data"
    and "sess_state s = Connected \<and> decodeTemplateId data 0 = Some 500 \<and> Negotiate500_decode data 0 = Some neg \<or>
         sess_state s = Negotiated \<and> decodeTemplateId data 0 = Some 503 \<and> Establish503_decode data 0 = Some est"
  shows "\<exists>s' b m. onMessage hmac env data s = Some (s', [Send b]) \<and> sess_state s' = Terminated \<and>
    decodeTemplateId b 0 = Some Terminate507_TEMPLATE_ID \<and> Terminate507_decode b 0 = Some m \<and>
    Terminate507.uuid m = sess_uuid s \<and> Terminate507.errorCodes m = 8"
proof -
  let ?s = "s\<lparr>last_received := steady_now env\<rparr>" and ?m = "term507 env 8 (s\<lparr>last_received := steady_now env\<rparr>)"
  have "length (take 32 (drop 8 data)) = 32"
    using assms(6) Negotiate500_decode_long [of data neg] Establish503_decode_long [of data est] by auto
  then have v: "\<not> verifyHmac hmac (take 32 (drop 8 data)) (drop 40 data) ?s"
    using assms(1,2,4) by (simp add: verifyHmac_def verify_iff signed_def)
  have "onMessage hmac env data s = session_terminate env 8 ?s"
    using assms(2,5,6) v
    by (auto simp: onMessage_def template_ids MessageHeader_SIZE_def handleNegotiate_def handleEstablish_def)
  also have "\<dots> = Some (?s\<lparr>last_sent := steady_now env, sess_state := Terminated\<rparr>, [Send (terminate507.wire ?m)])"
    using assms(3,6) by (auto simp: session_terminate_eq)
  finally show ?thesis
    using terminate507.decode_wire [OF wf_term, of env 8 ?s] by (auto simp: term507_def)
qed

theorem forged_logon_terminated_witness:
  "\<exists>s' b. onMessage (\<lambda>k d. replicate 32 1) ex_env (negotiate500.wire Negotiate500_default) ex_secure = Some (s', [Send b]) \<and>
     sess_state s' = Terminated"
proof -
  let ?d = "negotiate500.wire Negotiate500_default"
  have wf: "Negotiate500_wf Negotiate500_default" by (simp add: Negotiate500_wf_def Negotiate500_default_def)
  note dw = negotiate500.decode_wire [OF wf] and lw = negotiate500.length_wire [OF wf]
  have ex: "sess_state ex_secure = Connected" "hmac_enabled ex_secure" "send_cb ex_secure"
    by (simp_all add: ex_secure_def setHmacKey_def setHmacEnabled_def Session_new_def)
  have "take 32 (drop 8 ?d) = replicate 32 0"
    using MessageHeader_packed(2)
    by (simp add: negotiate500.wire_def Negotiate500_fields_def Negotiate500_default_def)
  then have "\<not> signed (\<lambda>k d. replicate 32 1) (hmac_key ex_secure) ?d" by (simp add: signed_def)
  from forged_logon_terminated [OF _ ex(2,3) this, of Negotiate500_default Establish503_default ex_env] dw lw ex(1)
  show ?thesis by (simp add: template_ids) blast
qed

end
