(* ===== verification/Session_Manager.thy ===== *)
theory Session_Manager
  imports Fixp_Properties "HOL-Library.AList"
begin

text \<open>
  \<^verbatim>\<open>src/fixp/session_manager.cpp\<close>: the sessions of the server by UUID.  \<^verbatim>\<open>sessions_\<close> is an association
  list; its order stands for the unspecified iteration order of the hash map, and the outputs of a timer
  tick are kept per session, as each session sends on its own connection.
\<close>

record SessionManager =
  sm_sessions :: "(64 word \<times> Session) list"
  next_uuid :: "64 word"
  max_sessions :: nat

definition SessionManager_new :: "nat \<Rightarrow> SessionManager" where
  "SessionManager_new maximum = \<lparr>sm_sessions = [], next_uuid = 1, max_sessions = maximum\<rparr>"

definition createSession :: "Env \<Rightarrow> SessionManager \<Rightarrow> SessionManager \<times> Session option" where
  "createSession env m =
     (if max_sessions m \<le> length (sm_sessions m) then (m, None)
      else
        let session_uuid = next_uuid m;
            m = m\<lparr>next_uuid := session_uuid + 1\<rparr>;
            sess = Session_new session_uuid env
        in (m\<lparr>sm_sessions := AList.update session_uuid sess (sm_sessions m)\<rparr>, Some sess))"

definition removeSession :: "64 word \<Rightarrow> SessionManager \<Rightarrow> SessionManager" where
  "removeSession session_uuid m =
     (case map_of (sm_sessions m) session_uuid of
        Some s \<Rightarrow> m\<lparr>sm_sessions := AList.delete session_uuid (sm_sessions m)\<rparr>
      | None \<Rightarrow> m)"

definition findSession :: "64 word \<Rightarrow> SessionManager \<Rightarrow> Session option" where
  "findSession session_uuid m = map_of (sm_sessions m) session_uuid"

text \<open>The loop of a timer tick: every session is ticked, and the UUIDs of the terminated ones collected.\<close>

fun tick_sessions ::
  "Env \<Rightarrow> (64 word \<times> Session) list \<Rightarrow>
   ((64 word \<times> Session) list \<times> 64 word list \<times> (64 word \<times> SessionOutput list) list) option" where
  "tick_sessions env [] = Some ([], [], [])"
| "tick_sessions env ((session_uuid, s) # ss) = do {
     (s, out) \<leftarrow> session_onTimer env s;
     (ss, terminated, outs) \<leftarrow> tick_sessions env ss;
     Some ((session_uuid, s) # ss, (if sess_state s = Terminated then session_uuid # terminated else terminated), (session_uuid, out) # outs)
   }"

definition onTimerTick :: "Env \<Rightarrow> SessionManager \<Rightarrow> (SessionManager \<times> (64 word \<times> SessionOutput list) list) option" where
  "onTimerTick env m = do {
     (ss, terminated, outs) \<leftarrow> tick_sessions env (sm_sessions m);
     Some (m\<lparr>sm_sessions := fold AList.delete terminated ss\<rparr>, outs)
   }"

definition activeSessionCount :: "SessionManager \<Rightarrow> nat" where
  "activeSessionCount m = length (sm_sessions m)"

section \<open>The server's connection callbacks\<close>

text \<open>
  The callbacks \<^verbatim>\<open>src/main.cpp\<close> installs.  A session found in the manager is shared with its
  connection, whose inputs change it in place.
\<close>

definition put_session :: "64 word \<Rightarrow> Session \<Rightarrow> SessionManager \<Rightarrow> SessionManager" where
  "put_session session_uuid s m = m\<lparr>sm_sessions := AList.update session_uuid s (sm_sessions m)\<rparr>"

definition on_accept :: "bool \<Rightarrow> bytes \<Rightarrow> Env \<Rightarrow> SessionManager \<Rightarrow> SessionManager \<times> 64 word option" where
  "on_accept cfg_hmac_enabled cfg_hmac_key env m =
     (case createSession env m of
        (m, None) \<Rightarrow> (m, None)
      | (m, Some sess) \<Rightarrow>
          let sess = (if cfg_hmac_enabled then setHmacKey cfg_hmac_key (setHmacEnabled True sess) else sess)
          in (put_session (sess_uuid sess) sess m, Some (sess_uuid sess)))"

definition deliver :: "(bytes \<Rightarrow> bytes \<Rightarrow> bytes) \<Rightarrow> 64 word \<Rightarrow> SessionInput \<Rightarrow> SessionManager \<Rightarrow>
    (SessionManager \<times> SessionOutput list) option" where
  "deliver hmac session_uuid i m =
     (case findSession session_uuid m of
        None \<Rightarrow> Some (m, [])
      | Some s \<Rightarrow> do {
          (s, out) \<leftarrow> session_input hmac i s;
          Some (put_session session_uuid s m, out)
        })"

definition on_disconnect :: "Env \<Rightarrow> 64 word \<Rightarrow> SessionManager \<Rightarrow> (SessionManager \<times> SessionOutput list) option" where
  "on_disconnect env session_uuid m = do {
     (m, out) \<leftarrow>
       (case findSession session_uuid m of
          None \<Rightarrow> Some (m, [])
        | Some sess \<Rightarrow>
            if sess_state sess \<noteq> Terminated then do {
              (sess, out) \<leftarrow> session_terminate env 0 sess;
              Some (put_session session_uuid sess m, out)
            } else Some (m, []));
     Some (removeSession session_uuid m, out)
   }"

section \<open>Timer ticks\<close>

lemma onTimer_total: "\<exists>s' out. session_onTimer env s = Some (s', out) \<and> sess_uuid s' = sess_uuid s"
  by (auto simp: session_onTimer_def sendFramedMessage_eq session_terminate_eq Let_def)

definition ticked :: "Env \<Rightarrow> Session \<Rightarrow> Session" where
  "ticked env s = fst (the (session_onTimer env s))"

lemma ticked_uuid [simp]: "sess_uuid (ticked env s) = sess_uuid s"
  using onTimer_total [of env s] by (auto simp: ticked_def)

lemma tick_sessions_eq:
  "tick_sessions env ss = Some (map (apsnd (ticked env)) ss,
     map fst (filter (\<lambda>(u, s). sess_state (ticked env s) = Terminated) ss),
     map (apsnd (\<lambda>s. snd (the (session_onTimer env s)))) ss)"
proof (induction ss)
  case (Cons us ss)
  obtain u s where us: "us = (u, s)" by (cases us)
  obtain s' out where "session_onTimer env s = Some (s', out)" using onTimer_total by blast
  with Cons us show ?case by (simp add: ticked_def)
qed simp

lemma fold_delete: "fold AList.delete us ss = filter (\<lambda>(u, s). u \<notin> set us) ss"
  by (induction us arbitrary: ss) (auto simp: AList.delete_eq filter_filter case_prod_beta intro!: filter_cong)

lemma key_filter: "u \<in> set (map fst (filter (\<lambda>(u, s). P s) ss)) \<longleftrightarrow> (\<exists>s. (u, s) \<in> set ss \<and> P s)"
  by (induction ss) auto

lemma onTimerTick_eq:
  assumes "distinct (map fst (sm_sessions m))"
  shows "onTimerTick env m = Some (m\<lparr>sm_sessions :=
      filter (\<lambda>(u, s). sess_state s \<noteq> Terminated) (map (apsnd (ticked env)) (sm_sessions m))\<rparr>,
    map (apsnd (\<lambda>s. snd (the (session_onTimer env s)))) (sm_sessions m))"
proof -
  let ?ss = "sm_sessions m" and ?dead = "map fst (filter (\<lambda>(u, s). sess_state (ticked env s) = Terminated) (sm_sessions m))"
  have "(case x of (u, s) \<Rightarrow> u \<notin> set ?dead) = (case x of (u, s) \<Rightarrow> sess_state s \<noteq> Terminated)"
    if x: "x \<in> set (map (apsnd (ticked env)) ?ss)" for x
  proof -
    from x obtain u s where us: "(u, s) \<in> set ?ss" "x = (u, ticked env s)" by auto
    have "s' = s" if "(u, s') \<in> set ?ss" for s'
      using map_of_is_SomeI [OF assms that] map_of_is_SomeI [OF assms us(1)] by simp
    then have "u \<in> set ?dead \<longleftrightarrow> sess_state (ticked env s) = Terminated" 
      unfolding key_filter using us(1) by blast
    then show ?thesis unfolding us(2) by simp
  qed
  then have "filter (\<lambda>(u, s). u \<notin> set ?dead) (map (apsnd (ticked env)) ?ss) =
      filter (\<lambda>(u, s). sess_state s \<noteq> Terminated) (map (apsnd (ticked env)) ?ss)"
    by (rule filter_cong [OF refl])
  then show ?thesis by (simp add: onTimerTick_def tick_sessions_eq fold_delete del: set_map)
qed

section \<open>The invariant\<close>

definition served :: "(bytes \<Rightarrow> bytes \<Rightarrow> bytes) \<Rightarrow> Session \<Rightarrow> bool" where
  "served hmac s \<longleftrightarrow> (\<exists>sent. session_reach hmac s sent)"

lemma served_input:
  assumes "served hmac s" and i: "session_input hmac i s = Some (s', out)"
  shows "served hmac s'"
proof -
  from assms(1) obtain sent where r: "session_reach hmac s sent" by (auto simp: served_def)
  show ?thesis
  proof (cases "\<exists>env d. i = SendApp env d \<and> sess_state s = Established")
    case True
    then obtain env d where "i = SendApp env d" "sess_state s = Established" by blast
    with i reach_app [OF r, of env d] show ?thesis by (auto simp: session_input_def served_def)
  next
    case False
    with reach_input [OF r i] show ?thesis by (auto simp: served_def)
  qed
qed

lemma served_ticked: "served hmac s \<Longrightarrow> served hmac (ticked env s)"
  using onTimer_total [of env s] served_input [of hmac s "Tick env"] by (auto simp: session_input_def ticked_def)

lemma served_new: "served hmac (Session_new u env)"
  using reach_new [of hmac False "[]" u env]
  by (auto simp: served_def setHmacEnabled_def setHmacKey_def Session_new_def)

definition sm_ok :: "(bytes \<Rightarrow> bytes \<Rightarrow> bytes) \<Rightarrow> SessionManager \<Rightarrow> bool" where
  "sm_ok hmac m \<longleftrightarrow> distinct (map fst (sm_sessions m)) \<and> length (sm_sessions m) \<le> max_sessions m \<and>
     (\<forall>(u, s)\<in>set (sm_sessions m). sess_uuid s = u \<and> 0 < unat u \<and> unat u < unat (next_uuid m) \<and> served hmac s)"

lemma update_new: "u \<notin> fst ` set ss \<Longrightarrow> AList.update u s ss = ss @ [(u, s)]"
  by (induction ss) auto

lemma set_update_subset: "set (AList.update u s ss) \<subseteq> insert (u, s) (set ss)"
  by (induction ss) auto

lemma update_keys: "(u, s) \<in> set ss \<Longrightarrow> map fst (AList.update u s' ss) = map fst ss"
  by (induction ss) auto

lemma unat_Suc64: "Suc (unat u) < 2 ^ 64 \<Longrightarrow> unat (u + 1 :: 64 word) = Suc (unat u)"
  by (simp only: unat_word_ariths) simp

lemma create_ok:
  assumes "sm_ok hmac m" and "Suc (unat (next_uuid m)) < 2 ^ 64" and "0 < unat (next_uuid m)"
  shows "sm_ok hmac (fst (createSession env m))"
proof (cases "max_sessions m \<le> length (sm_sessions m)")
  case False
  have "next_uuid m \<notin> fst ` set (sm_sessions m)" using assms(1) by (auto simp: sm_ok_def)
  moreover have "sess_uuid (Session_new u env) = u" for u by (simp add: Session_new_def)
  ultimately show ?thesis
    using assms False by (auto simp: createSession_def sm_ok_def update_new unat_Suc64 less_Suc_eq Let_def served_new)
qed (simp add: createSession_def assms)

lemma create_cases:
  assumes "createSession env m = (m', r)"
  obtains "r = None" and "m' = m" | "r = Some (Session_new (next_uuid m) env)"
    and "findSession (next_uuid m) m' = Some (Session_new (next_uuid m) env)"
    and "next_uuid m' = next_uuid m + 1"
proof (cases "max_sessions m \<le> length (sm_sessions m)")
  case True
  with assms show thesis by (intro that(1)) (simp_all add: createSession_def)
next
  case False
  with assms show thesis
    by (intro that(2)) (auto simp: createSession_def Let_def findSession_def update_conv)
qed

lemma put_ok:
  assumes ok: "sm_ok hmac m" and "findSession u m = Some s" and "sess_uuid s' = u" and "served hmac s'"
  shows "sm_ok hmac (put_session u s' m)"
proof -
  have in_s: "(u, s) \<in> set (sm_sessions m)" using assms(2) by (simp add: findSession_def map_of_SomeD)
  have "length (AList.update u s' (sm_sessions m)) = length (sm_sessions m)"
    using arg_cong [OF update_keys [OF in_s, of s'], of length] by simp
  with ok in_s assms(3,4) set_update_subset [of u s' "sm_sessions m"] update_keys [OF in_s, of s'] show ?thesis
    by (auto simp: sm_ok_def put_session_def)
qed

lemma sm_ok_find: "sm_ok hmac m \<Longrightarrow> findSession u m = Some s \<Longrightarrow> sess_uuid s = u \<and> served hmac s"
  by (auto simp: sm_ok_def findSession_def dest!: map_of_SomeD)

lemma remove_ok:
  assumes ok: "sm_ok hmac m"
  shows "sm_ok hmac (removeSession u m)"
proof (cases "map_of (sm_sessions m) u")
  case (Some s)
  have d: "distinct (map fst (AList.delete u (sm_sessions m)))"
    using ok by (intro distinct_delete) (simp add: sm_ok_def)
  have "length (AList.delete u (sm_sessions m)) \<le> max_sessions m"
    unfolding AList.delete_eq using ok by (intro order_trans [OF length_filter_le]) (simp add: sm_ok_def)
  with Some ok d show ?thesis by (auto simp: removeSession_def sm_ok_def AList.delete_eq)
qed (simp add: removeSession_def ok)

lemma tick_ok:
  assumes "sm_ok hmac m" and "onTimerTick env m = Some (m', outs)"
  shows "sm_ok hmac m'"
proof -
  let ?ss = "map (apsnd (ticked env)) (sm_sessions m)"
  have d: "distinct (map fst ?ss)" using assms(1) by (simp add: sm_ok_def comp_def)
  have m': "m' = m\<lparr>sm_sessions := filter (\<lambda>(u, s). sess_state s \<noteq> Terminated) ?ss\<rparr>"
    using assms onTimerTick_eq [of m env] by (simp add: sm_ok_def)
  have "distinct (map fst (filter (\<lambda>(u, s). sess_state s \<noteq> Terminated) ?ss))"
    using d by (rule distinct_map_filter)
  moreover have "length (filter (\<lambda>(u, s). sess_state s \<noteq> Terminated) ?ss) \<le> max_sessions m"
    using assms(1) by (intro order_trans [OF length_filter_le]) (simp add: sm_ok_def)
  ultimately show ?thesis using assms(1) by (auto simp: m' sm_ok_def served_ticked)
qed

lemma deliver_ok:
  assumes "sm_ok hmac m" and "deliver hmac u i m = Some (m', out)"
  shows "sm_ok hmac m'"
proof (cases "findSession u m")
  case (Some s)
  with assms(2) obtain s' where i: "session_input hmac i s = Some (s', out)" and m': "m' = put_session u s' m"
    by (auto simp: deliver_def bind_eq_Some_conv)
  note s = sm_ok_find [OF assms(1) Some]
  have "sess_uuid s' = u" using session_input_step [OF i] s by (simp add: keeps_def)
  with put_ok [OF assms(1) Some] served_input [OF _ i] s show ?thesis by (simp add: m')
qed (use assms in \<open>simp add: deliver_def\<close>)

lemma accept_ok:
  assumes "sm_ok hmac m" and "Suc (unat (next_uuid m)) < 2 ^ 64" and "0 < unat (next_uuid m)"
  shows "sm_ok hmac (fst (on_accept e k env m))"
proof -
  obtain m' r where c: "createSession env m = (m', r)" by fastforce
  have ok: "sm_ok hmac m'" using create_ok [OF assms, of env] c by simp
  from c show ?thesis
  proof (cases rule: create_cases)
    case 2
    let ?s = "Session_new (next_uuid m) env"
    let ?s' = "if e then setHmacKey k (setHmacEnabled True ?s) else ?s"
    have "setHmacKey k (setHmacEnabled True ?s) = setHmacEnabled True (setHmacKey k ?s)"
      by (simp add: setHmacKey_def setHmacEnabled_def)
    then have "served hmac ?s'" using reach_new [of hmac True k "next_uuid m" env] served_new by (auto simp: served_def)
    moreover have "sess_uuid ?s' = next_uuid m" by (simp add: setHmacKey_def setHmacEnabled_def Session_new_def)
    ultimately show ?thesis using put_ok [OF ok 2(2), of ?s'] c 2(1) by (simp add: on_accept_def)
  qed (use ok c in \<open>simp add: on_accept_def\<close>)
qed

lemma disconnect_ok:
  assumes "sm_ok hmac m" and "on_disconnect env u m = Some (m', out)"
  shows "sm_ok hmac m'"
proof -
  obtain m1 where m': "m' = removeSession u m1" and m1: "m1 = m \<or> deliver hmac u (Close env 0) m = Some (m1, out)"
  proof (cases "findSession u m")
    case None
    with assms(2) show thesis by (intro that [of m]) (simp_all add: on_disconnect_def)
  next
    case (Some s)
    show thesis
    proof (cases "sess_state s = Terminated")
      case True
      with Some assms(2) show thesis by (intro that [of m]) (simp_all add: on_disconnect_def)
    next
      case False
      with Some assms(2) show thesis
        by (intro that [of "put_session u (fst (the (session_terminate env 0 s))) m"])
          (auto simp: on_disconnect_def deliver_def session_input_def session_terminate_eq)
    qed
  qed
  have "sm_ok hmac m1" using m1 deliver_ok [OF assms(1)] assms(1) by auto
  then show ?thesis unfolding m' by (rule remove_ok)
qed

text \<open>The states the server reaches, with fewer than \<open>2 ^ 64 - 2\<close> connections accepted.\<close>

inductive sm_reach :: "(bytes \<Rightarrow> bytes \<Rightarrow> bytes) \<Rightarrow> nat \<Rightarrow> SessionManager \<Rightarrow> bool" for hmac maximum where
  sm_new: "sm_reach hmac maximum (SessionManager_new maximum)"
| sm_accept: "sm_reach hmac maximum m \<Longrightarrow> Suc (unat (next_uuid m)) < 2 ^ 64 \<Longrightarrow>
    sm_reach hmac maximum (fst (on_accept e k env m))"
| sm_deliver: "sm_reach hmac maximum m \<Longrightarrow> deliver hmac u i m = Some (m', out) \<Longrightarrow> sm_reach hmac maximum m'"
| sm_tick: "sm_reach hmac maximum m \<Longrightarrow> onTimerTick env m = Some (m', outs) \<Longrightarrow> sm_reach hmac maximum m'"
| sm_disconnect: "sm_reach hmac maximum m \<Longrightarrow> on_disconnect env u m = Some (m', out) \<Longrightarrow> sm_reach hmac maximum m'"

lemma accept_next: "next_uuid (fst (on_accept e k env m)) \<in> {next_uuid m, next_uuid m + 1}"
  "max_sessions (fst (on_accept e k env m)) = max_sessions m"
  by (auto simp: on_accept_def createSession_def put_session_def Let_def)

lemma next_kept:
  "deliver hmac u i m = Some (m', out) \<Longrightarrow> next_uuid m' = next_uuid m \<and> max_sessions m' = max_sessions m"
  "onTimerTick env m = Some (m', outs) \<Longrightarrow> next_uuid m' = next_uuid m \<and> max_sessions m' = max_sessions m"
  by (auto simp: deliver_def onTimerTick_def put_session_def bind_eq_Some_conv split: option.splits)

lemma next_kept_disconnect:
  "on_disconnect env u m = Some (m', out) \<Longrightarrow> next_uuid m' = next_uuid m \<and> max_sessions m' = max_sessions m"
  by (cases "findSession u m")
    (auto simp: on_disconnect_def removeSession_def put_session_def session_terminate_eq split: option.splits if_splits)

lemma reach_ok: "sm_reach hmac maximum m \<Longrightarrow> sm_ok hmac m \<and> 0 < unat (next_uuid m) \<and> max_sessions m = maximum"
proof (induction rule: sm_reach.induct)
  case sm_new
  show ?case by (simp add: SessionManager_new_def sm_ok_def)
next
  case (sm_accept m e k env)
  have "0 < unat (next_uuid (fst (on_accept e k env m)))"
    using accept_next(1) [of e k env m] sm_accept.IH unat_Suc64 [OF sm_accept.hyps(2)] by auto
  with sm_accept accept_ok accept_next(2) show ?case by simp
next
  case (sm_deliver m u i m' out)
  with deliver_ok next_kept(1) show ?case by metis
next
  case (sm_tick m env m' outs)
  with tick_ok next_kept(2) show ?case by metis
next
  case (sm_disconnect m env u m' out)
  with disconnect_ok next_kept_disconnect show ?case by metis
qed

text \<open>
  The session table: in every state the server reaches, no two sessions share a UUID, there are never
  more than the configured maximum, a lookup returns the session that carries the UUID itself, its
  UUID is non-zero and below the next one to assign, and the session is in a state a single session
  can reach.
\<close>

theorem session_table_invariant:
  assumes "sm_reach hmac maximum m"
  shows "distinct (map fst (sm_sessions m)) \<and> activeSessionCount m \<le> maximum \<and>
    (\<forall>u s. findSession u m = Some s \<longrightarrow> sess_uuid s = u \<and> 0 < unat u \<and> unat u < unat (next_uuid m) \<and>
       (\<exists>sent. session_reach hmac s sent))"
  using reach_ok [OF assms]
  by (auto simp: sm_ok_def activeSessionCount_def findSession_def served_def dest!: map_of_SomeD)

definition ex_manager :: SessionManager where
  "ex_manager = fst (on_accept True [1, 2, 3] ex_env (SessionManager_new 2))"

lemma ex_manager: "sm_reach hmac 2 ex_manager" "findSession 1 ex_manager = Some ex_secure"
proof -
  show "sm_reach hmac 2 ex_manager"
    unfolding ex_manager_def by (rule sm_accept [OF sm_new]) (simp add: SessionManager_new_def)
  show "findSession 1 ex_manager = Some ex_secure"
    by (simp add: ex_manager_def on_accept_def createSession_def SessionManager_new_def put_session_def
        findSession_def Let_def ex_secure_def setHmacKey_def setHmacEnabled_def Session_new_def)
qed

theorem session_table_invariant_witness:
  "findSession 1 ex_manager = Some ex_secure \<and> sess_uuid ex_secure = 1 \<and> activeSessionCount ex_manager \<le> 2"
  using session_table_invariant [OF ex_manager(1) [of "\<lambda>k d. []"]] ex_manager(2) by auto

section \<open>Silent clients\<close>

lemma ticked_alive:
  assumes "served hmac s" and "sess_state (ticked env s) = Established"
  shows "steady_now env - last_received (ticked env s) < 120 * 1000000000"
proof (rule ccontr)
  assume silent: "\<not> ?thesis"
  from assms(1) obtain sent where r: "session_reach hmac s sent" by (auto simp: served_def)
  have e: "sess_state s = Established" and l: "last_received (ticked env s) = last_received s"
    using assms(2) by (auto simp: ticked_def session_onTimer_def sendFramedMessage_eq session_terminate_eq Let_def
        split: if_splits)
  have "uint (keep_alive_interval_ms s) \<le> 60000" using reach_interval [OF r] by (simp add: word_le_def)
  then have "uint (keep_alive_interval_ms s) * 2 \<le> millis (steady_now env - last_received s)"
    using silent l by (intro millis_ge) simp_all
  then have "sess_state (ticked env s) = Terminated"
    using e by (auto simp: ticked_def session_onTimer_def sendFramedMessage_eq session_terminate_eq Let_def)
  with assms(2) show False by simp
qed

text \<open>
  C31.  Silent clients are dropped: a timer tick of the server always completes, ticks every session once,
  and afterwards the table holds no terminated session and no established session whose client has been
  silent for 120 seconds; no session is added.
\<close>

theorem tick_drops_silent_sessions:
  assumes "sm_reach hmac maximum m"
  shows "\<exists>m' outs. onTimerTick env m = Some (m', outs) \<and> map fst outs = map fst (sm_sessions m) \<and>
    (\<forall>u s'. findSession u m' = Some s' \<longrightarrow> (\<exists>s. findSession u m = Some s) \<and> sess_state s' \<noteq> Terminated \<and>
       (sess_state s' = Established \<longrightarrow> steady_now env - last_received s' < 120 * 1000000000))"
proof -
  note ok = reach_ok [OF assms]
  then have d: "distinct (map fst (sm_sessions m))" by (simp add: sm_ok_def)
  have alive: "(\<exists>s. findSession u m = Some s) \<and> sess_state s' \<noteq> Terminated \<and>
      (sess_state s' = Established \<longrightarrow> steady_now env - last_received s' < 120 * 1000000000)"
    if "map_of (filter (\<lambda>(u, s). sess_state s \<noteq> Terminated) (map (apsnd (ticked env)) (sm_sessions m))) u = Some s'"
    for u s'
  proof -
    from map_of_SomeD [OF that] obtain s where s: "(u, s) \<in> set (sm_sessions m)" "s' = ticked env s"
      "sess_state s' \<noteq> Terminated" by auto
    have "served hmac s" using ok s(1) by (auto simp: sm_ok_def)
    with ticked_alive [of hmac s env] s map_of_is_SomeI [OF d s(1)] show ?thesis by (auto simp: findSession_def)
  qed
  let ?ss = "filter (\<lambda>(u, s). sess_state s \<noteq> Terminated) (map (apsnd (ticked env)) (sm_sessions m))"
  let ?m' = "m\<lparr>sm_sessions := ?ss\<rparr>" and ?outs = "map (apsnd (\<lambda>s. snd (the (session_onTimer env s)))) (sm_sessions m)"
  have f: "findSession u ?m' = map_of ?ss u" for u
    unfolding findSession_def by (rule arg_cong [where f = "\<lambda>ss. map_of ss u"]) (cases m, simp)
  have o: "map fst ?outs = map fst (sm_sessions m)" by simp
  show ?thesis
    by (rule exI [of _ ?m'], rule exI [of _ ?outs], rule conjI [OF onTimerTick_eq [OF d] conjI [OF o]])
      (unfold f, rule allI, rule allI, rule impI, rule alive)
qed

text \<open>A client that logs on at time 0 and is not heard of for 130 seconds.\<close>

lemma ex_silent:
  obtains m s where "sm_reach (\<lambda>k d. replicate 32 0) 2 m" and "sm_sessions m = [(1, s)]"
    and "sess_state s = Established" and "last_received s = 0"
proof -
  let ?hmac = "\<lambda>k d. replicate 32 (0 :: byte)"
  let ?s = "ex_secure\<lparr>sess_state := Established, keep_alive_interval_ms := 1000, next_in_seq := 0\<rparr>"
  let ?i = "Receive ex_env (negotiate500.wire Negotiate500_default)" and ?j = "Receive ex_env (establish503.wire Establish503_default)"
  from ex_logon obtain s1 o1 o2 where i: "session_input ?hmac ?i ex_secure = Some (s1, o1)" and j: "session_input ?hmac ?j s1 = Some (?s, o2)"
    by (auto simp: bind_eq_Some_conv)
  have l: "sm_sessions ex_manager = [(1, ex_secure)]"
    by (simp add: ex_manager_def on_accept_def createSession_def SessionManager_new_def put_session_def
        Let_def ex_secure_def setHmacKey_def setHmacEnabled_def Session_new_def)
  let ?m1 = "put_session 1 s1 ex_manager" and ?m2 = "put_session 1 ?s (put_session 1 s1 ex_manager)"
  have "deliver ?hmac 1 ?i ex_manager = Some (?m1, o1)" using i ex_manager(2) by (simp add: deliver_def)
  note 1 = sm_deliver [OF ex_manager(1) this]
  have "deliver ?hmac 1 ?j ?m1 = Some (?m2, o2)" using j l by (simp add: deliver_def findSession_def put_session_def)
  note 2 = sm_deliver [OF 1 this]
  moreover have "sm_sessions ?m2 = [(1, ?s)]" using l by (simp add: put_session_def)
  moreover have "last_received ?s = 0"
    by (simp add: ex_secure_def setHmacKey_def setHmacEnabled_def Session_new_def ex_env_def)
  ultimately show thesis by (intro that [of ?m2 ?s]) simp_all
qed

theorem tick_drops_silent_sessions_witness:
  "\<exists>m s m' outs. sm_reach (\<lambda>k d. replicate 32 0) 2 m \<and> findSession 1 m = Some s \<and> sess_state s = Established \<and>
     onTimerTick \<lparr>steady_now = 130 * 1000000000, system_now = 9\<rparr> m = Some (m', outs) \<and> map fst outs = [1] \<and> findSession 1 m' = None"
proof -
  let ?env = "\<lparr>steady_now = 130 * 1000000000, system_now = 9\<rparr>"
  obtain m s where m: "sm_reach (\<lambda>k d. replicate 32 0) 2 m" "sm_sessions m = [(1, s)]"
    and s: "sess_state s = Established" "last_received s = 0" using ex_silent .
  obtain m' outs where t: "onTimerTick ?env m = Some (m', outs)" "map fst outs = map fst (sm_sessions m)"
    "findSession 1 m' = Some s' \<Longrightarrow> sess_state s' = Established \<longrightarrow> steady_now ?env - last_received s' < 120 * 1000000000" for s'
    using tick_drops_silent_sessions [OF m(1), of ?env] by blast
  have f: "findSession 1 m' = (if sess_state (ticked ?env s) \<noteq> Terminated then Some (ticked ?env s) else None)"
    using t(1) onTimerTick_eq [of m ?env] m(2) by (auto simp: findSession_def)
  have "sess_state (ticked ?env s) = Terminated \<or> sess_state (ticked ?env s) = Established \<and> last_received (ticked ?env s) = 0"
    using s by (auto simp: ticked_def session_onTimer_def sendFramedMessage_eq session_terminate_eq Let_def)
  with f t(3) have "findSession 1 m' = None" by force
  with m s t(1,2) show ?thesis by (auto simp: findSession_def)
qed

end
