(* ===== verification/Server.thy ===== *)
theory Server
  imports Engine_Contract Md_Publisher Session_Manager
begin

text \<open>
  \<^verbatim>\<open>src/main.cpp\<close>: the exchange put together.  Its threads (network, engine, timer, market data) become
  steps on one state: start-up, an accepted connection, a received message with the callback into the
  gateway, a timer tick, a disconnect, one iteration of the engine thread, a snapshot cycle and a replay of
  the instrument definitions.  A step is one critical section or one loop body of the code; the data races
  on the risk manager and on the books that the snapshot thread reads are not modelled.  Start-up from the command line, connections and
  the shutdown are in theory \<open>Exchange_Main\<close>.
\<close>

section \<open>Command line\<close>

record AppArgs =
  config_path :: string
  arg_log_level :: string
  arg_mode :: string

definition AppArgs_default :: AppArgs where
  "AppArgs_default = \<lparr>config_path = ''config/exchange_config.yaml'', arg_log_level = [], arg_mode = []\<rparr>"

text \<open>The arguments after the program name; \<open>None\<close>: the usage text is printed and the program exits.\<close>

fun parseArgs :: "string list \<Rightarrow> AppArgs \<Rightarrow> AppArgs option" where
  "parseArgs [] args = Some args"
| "parseArgs (a # v # rest) args =
     (if a = ''--config'' then parseArgs rest (args\<lparr>config_path := v\<rparr>)
      else if a = ''--log-level'' then parseArgs rest (args\<lparr>arg_log_level := v\<rparr>)
      else if a = ''--mode'' then parseArgs rest (args\<lparr>arg_mode := v\<rparr>)
      else if a = ''--help'' \<or> a = ''-h'' then None
      else parseArgs (v # rest) args)"
| "parseArgs [a] args = (if a = ''--help'' \<or> a = ''-h'' then None else Some args)"

definition apply_overrides :: "AppArgs \<Rightarrow> ExchangeConfig \<Rightarrow> ExchangeConfig" where
  "apply_overrides args cfg =
     (let cfg = (if arg_log_level args \<noteq> [] then cfg\<lparr>log_level := arg_log_level args\<rparr> else cfg)
      in if arg_mode args \<noteq> [] then cfg\<lparr>engine := (engine cfg)\<lparr>mode := arg_mode args\<rparr>\<rparr> else cfg)"

section \<open>Start-up\<close>

record Server =
  sv_engine :: Engine
  sv_gateway :: Gateway
  sv_sessions :: SessionManager
  sv_md :: MarketDataPublisher
  sv_instruments :: InstrumentManager

definition set_all_status :: "SecurityTradingStatus \<Rightarrow> InstrumentManager \<Rightarrow> InstrumentManager" where
  "set_all_status st im = fold (\<lambda>inst. setTradingStatus (inst_security_id inst) st) (im_instruments im) im"

definition create_engine :: "heap \<Rightarrow> InstrumentManager \<Rightarrow> Engine" where
  "create_engine h im = fold (\<lambda>inst. addInstrument (inst_security_id inst)) (im_instruments im) (FullMatchingEngine_new h)"

definition server_start :: "heap \<Rightarrow> ExchangeConfig \<Rightarrow> Server option" where
  "server_start h cfg =
     (let im = loadFromConfig (instruments cfg) (channels cfg);
          im = set_all_status PreOpen im
      in if mode (engine cfg) = ''full_matching'' \<or> mode (engine cfg) = ''synthetic''
         then Some \<lparr>sv_engine = create_engine h im, sv_gateway = OrderEntryGateway_new (risk cfg),
                    sv_sessions = SessionManager_new (nat (cfg_max_sessions (session_config cfg))),
                    sv_md = mdp_start True im (MarketDataPublisher_new (channels cfg) im),
                    sv_instruments = set_all_status Open im\<rparr>
         else None)"

definition makeBookSnapshotProvider :: "Engine \<Rightarrow> SecurityId \<Rightarrow> book_levels" where
  "makeBookSnapshotProvider e sec =
     (case getOrderBook sec e of
        None \<Rightarrow> ([], [], [], [])
      | Some b \<Rightarrow> (map (\<lambda>(p, l). (p, total_quantity l)) (bid_levels b), map (\<lambda>(p, l). (p, total_quantity l)) (ask_levels b),
                   map (\<lambda>(p, l). order_count l) (bid_levels b), map (\<lambda>(p, l). order_count l) (ask_levels b)))"

section \<open>Network callbacks\<close>

text \<open>What a session hands to the gateway; \<open>ptr\<close> is the address of the order object allocated on the way.\<close>

fun app_messages :: "InstrumentManager \<Rightarrow> int \<Rightarrow> OrderPtr \<Rightarrow> SessionOutput list \<Rightarrow> Gateway \<Rightarrow> Gateway option" where
  "app_messages im now ptr [] g = Some g"
| "app_messages im now ptr (AppMessage u t data # outs) g = do {
     g \<leftarrow> onApplicationMessage im now ptr u t data g;
     app_messages im now ptr outs g
   }"
| "app_messages im now ptr (Send data # outs) g = app_messages im now ptr outs g"

definition server_receive ::
  "(bytes \<Rightarrow> bytes \<Rightarrow> bytes) \<Rightarrow> Env \<Rightarrow> OrderPtr \<Rightarrow> 64 word \<Rightarrow> bytes \<Rightarrow> Server \<Rightarrow> (Server \<times> SessionOutput list) option" where
  "server_receive hmac env ptr u data sv = do {
     (sm, out) \<leftarrow> deliver hmac u (Receive env data) (sv_sessions sv);
     g \<leftarrow> app_messages (sv_instruments sv) (steady_now env) ptr out (sv_gateway sv);
     Some (sv\<lparr>sv_sessions := sm, sv_gateway := g\<rparr>, out)
   }"

section \<open>The engine thread\<close>

fun route_responses :: "Env \<Rightarrow> OrderResponse list \<Rightarrow> SessionManager \<Rightarrow>
    SessionManager \<times> (64 word \<times> SessionOutput list) list" where
  "route_responses env [] m = (m, [])"
| "route_responses env (r # rs) m =
     (case findSession (resp_session_uuid r) m of
        None \<Rightarrow> route_responses env rs m
      | Some s \<Rightarrow>
          let (s, out) = sendApplicationMessage env (resp_sbe_message r) s;
              (m, outs) = route_responses env rs (put_session (resp_session_uuid r) s m)
          in (m, (resp_session_uuid r, out) # outs))"

definition engine_iteration ::
  "Env \<Rightarrow> Timestamp \<Rightarrow> (nat \<Rightarrow> Timestamp) \<Rightarrow> Timestamp \<Rightarrow> Server \<Rightarrow> (Server \<times> (64 word \<times> SessionOutput list) list) option" where
  "engine_iteration env now clk ts sv = do {
     (e, g, responses, md_events) \<leftarrow> processCommands FullMatchingEngine now (sv_engine sv) (sv_gateway sv);
     let (sm, outs) = route_responses env responses (sv_sessions sv);
     md \<leftarrow> (if md_events \<noteq> [] then publishEvents clk ts md_events (sv_md sv) else Some (sv_md sv));
     Some (sv\<lparr>sv_engine := e, sv_gateway := g, sv_sessions := sm, sv_md := md\<rparr>, outs)
   }"

section \<open>The market data threads\<close>

text \<open>One cycle of a channel's snapshot thread, and one pass of the instrument definition thread.\<close>

definition snapshot_iteration :: "(nat \<Rightarrow> Timestamp) \<Rightarrow> int \<Rightarrow> Server \<Rightarrow> Server option" where
  "snapshot_iteration clk ch sv =
     (case getChannelPublisher ch (sv_md sv) of
        None \<Rightarrow> Some sv
      | Some cp \<Rightarrow> do {
          cp \<leftarrow> runCycle (makeBookSnapshotProvider (sv_engine sv)) clk cp;
          Some (sv\<lparr>sv_md := (sv_md sv)\<lparr>channel_publishers := AList.update ch cp (channel_publishers (sv_md sv))\<rparr>\<rparr>)
        })"

definition instdef_iteration :: "(int \<Rightarrow> nat \<Rightarrow> Timestamp) \<Rightarrow> Server \<Rightarrow> Server option" where
  "instdef_iteration clk sv = map_option (\<lambda>md. sv\<lparr>sv_md := md\<rparr>) (instdefReplay clk (sv_instruments sv) (sv_md sv))"

section \<open>Reachable states\<close>

definition with_sessions :: "SessionManager \<Rightarrow> Server \<Rightarrow> Server" where
  "with_sessions sm sv = sv\<lparr>sv_sessions := sm\<rparr>"

text \<open>
  A received message allocates a new object: its address is none of the order objects in use.  The side
  conditions on the 64-bit counters hold for the first \<open>2 ^ 64 - 2\<close> orders and connections.
\<close>

inductive server_reach :: "(bytes \<Rightarrow> bytes \<Rightarrow> bytes) \<Rightarrow> heap \<Rightarrow> ExchangeConfig \<Rightarrow> Server \<Rightarrow> bool" for hmac h cfg where
  sv_start: "server_start h cfg = Some sv \<Longrightarrow> server_reach hmac h cfg sv"
| sv_accept: "server_reach hmac h cfg sv \<Longrightarrow> Suc (unat (next_uuid (sv_sessions sv))) < 2 ^ 64 \<Longrightarrow>
    server_reach hmac h cfg (with_sessions (fst (on_accept en key env (sv_sessions sv))) sv)"
| sv_receive: "server_reach hmac h cfg sv \<Longrightarrow> server_receive hmac env ptr u data sv = Some (sv', out) \<Longrightarrow>
    ptr \<notin> engine_used (sv_engine sv) \<Longrightarrow> ptr \<notin> set (full.queued (command_queue (sv_gateway sv))) \<Longrightarrow>
    unat (next_order_id (sv_engine sv)) + length (command_queue (sv_gateway sv)) + 1 < 2 ^ 64 \<Longrightarrow>
    server_reach hmac h cfg sv'"
| sv_tick: "server_reach hmac h cfg sv \<Longrightarrow> onTimerTick env (sv_sessions sv) = Some (sm, outs) \<Longrightarrow>
    server_reach hmac h cfg (with_sessions sm sv)"
| sv_disconnect: "server_reach hmac h cfg sv \<Longrightarrow> on_disconnect env u (sv_sessions sv) = Some (sm, out) \<Longrightarrow>
    server_reach hmac h cfg (with_sessions sm sv)"
| sv_iterate: "server_reach hmac h cfg sv \<Longrightarrow> engine_iteration env now clk ts sv = Some (sv', outs) \<Longrightarrow>
    server_reach hmac h cfg sv'"
| sv_snapshot: "server_reach hmac h cfg sv \<Longrightarrow> snapshot_iteration dclk ch sv = Some sv' \<Longrightarrow> server_reach hmac h cfg sv'"
| sv_instdef: "server_reach hmac h cfg sv \<Longrightarrow> instdef_iteration iclk sv = Some sv' \<Longrightarrow> server_reach hmac h cfg sv'"

end
