(* ===== verification/Server_Properties.thy ===== *)
theory Server_Properties
  imports Server
begin

text \<open>
  Properties of the composed exchange: an invariant over all its threads' steps, progress of the engine
  thread, delivery of the reports to the sessions, and a market-data feed from which a client
  reconstructs every book.
\<close>

section \<open>Shapes of what flows between the components\<close>

text \<open>A message makes a session call the gateway at most once.\<close>

fun is_app :: "SessionOutput \<Rightarrow> bool" where
  "is_app (AppMessage u t d) = True"
| "is_app (Send d) = False"

lemma quiet_is_app: "quiet out \<longleftrightarrow> filter is_app out = []"
proof -
  have "is_app x \<longleftrightarrow> (\<exists>u t d. x = AppMessage u t d)" for x by (cases x) auto
  then show ?thesis by (auto simp: quiet_def filter_empty_conv)
qed

lemma onMessage_one_app:
  assumes "onMessage hmac env data s = Some (s', out)"
  shows "length (filter is_app out) \<le> 1"
  using assms
proof (cases rule: onMessage_cases)
  case Negotiate
  then show ?thesis using handlers_step(1) quiet_is_app by fastforce
next
  case Establish
  then show ?thesis using handlers_step(2) quiet_is_app by fastforce
next
  case Sequence
  then show ?thesis using handlers_step(3) by fastforce
next
  case Terminate
  then show ?thesis using handlers_step(4) quiet_is_app by fastforce
next
  case Retransmit
  then show ?thesis using handlers_step(5) quiet_is_app by fastforce
next
  case (Application t)
  then show ?thesis
    by (auto simp: handleApplicationMessage_def sendFramedMessage_eq bind_eq_Some_conv Let_def split: if_splits)
qed auto

text \<open>What one call of the gateway appends to its queue.\<close>

lemma queued_snoc: "full.queued (cmds @ [cmd]) = full.queued cmds @ full.queued [cmd]"
  by (induction cmds) (simp_all add: full.queued_def List.map_filter_simps split: option.splits)

lemma onApplicationMessage_queue:
  assumes "onApplicationMessage im now ptr u t data g = Some g'"
  shows "\<exists>new. command_queue g' = command_queue g @ new \<and> length new \<le> 1 \<and> full.new_orders new \<and>
    (\<forall>cmd\<in>set new. cmd_ok cmd) \<and> full.queued new \<in> {[], [ptr]}"
proof -
  consider "t = 514" | "t = 516" | "t = 515" | "t \<notin> {514, 515, 516}" by blast
  then show ?thesis
  proof cases
    case 1
    with assms obtain cmd where d: "decodeNewOrderSingle ptr u data = Some cmd"
      by (auto simp: onApplicationMessage_def NewOrderSingle514_TEMPLATE_ID_def bind_eq_Some_conv)
    from decodes_ok(1) [OF this] obtain ord where o: "cmd_ok cmd" "cmd_order cmd = Some (ptr, ord)" "status ord = New"
      "cmd_type cmd = NewOrder" by blast
    from onApplicationMessage_new [OF d o(2), of im now g] assms 1
    obtain c where "command_queue g' = command_queue g @ [c]" "c = cmd \<or> c = cmd\<lparr>cmd_order := Some (ptr, ord\<lparr>status := Rejected\<rparr>)\<rparr>"
      by (auto simp: push_command_def)
    then show ?thesis using o
      by (intro exI [where x = "[c]"])
        (auto simp: full.new_orders_def full.queued_def cmd_ok_def List.map_filter_simps)
  next
    case 2
    with assms obtain cmd where d: "decodeCancelRequest u data = Some cmd" and g': "g' = push_command cmd g \<or>
        g' = push_command (cmd\<lparr>cmd_type := CancelOrder\<rparr>) g"
      by (auto simp: onApplicationMessage_def NewOrderSingle514_TEMPLATE_ID_def OrderCancelRequest516_TEMPLATE_ID_def
          bind_eq_Some_conv)
    from d have "cmd_type cmd = CancelOrder" "cmd_order cmd = None"
      by (auto simp: decodeCancelRequest_def OrderCommand_default_def bind_eq_Some_conv)
    with g' show ?thesis
      by (auto simp: push_command_def full.new_orders_def full.queued_def cmd_ok_def List.map_filter_simps)
  next
    case 3
    with assms obtain cmd where d: "decodeModifyRequest u data = Some cmd" and g': "g' = push_command cmd g"
      by (auto simp: onApplicationMessage_def NewOrderSingle514_TEMPLATE_ID_def OrderCancelRequest516_TEMPLATE_ID_def
          OrderCancelReplaceRequest515_TEMPLATE_ID_def bind_eq_Some_conv)
    from d have "cmd_type cmd = ModifyOrder" "cmd_order cmd = None"
      by (auto simp: decodeModifyRequest_def OrderCommand_default_def bind_eq_Some_conv)
    with g' show ?thesis
      by (auto simp: push_command_def full.new_orders_def full.queued_def cmd_ok_def List.map_filter_simps)
  next
    case 4
    with assms have "g' = g"
      by (simp add: onApplicationMessage_def NewOrderSingle514_TEMPLATE_ID_def OrderCancelRequest516_TEMPLATE_ID_def
          OrderCancelReplaceRequest515_TEMPLATE_ID_def)
    then show ?thesis by (intro exI [where x = "[]"]) (simp add: full.new_orders_def full.queued_def List.map_filter_simps)
  qed
qed

lemma app_messages_queue:
  assumes "app_messages im now ptr outs g = Some g'" and "length (filter is_app outs) \<le> 1"
  shows "\<exists>new. command_queue g' = command_queue g @ new \<and> length new \<le> 1 \<and> full.new_orders new \<and>
    (\<forall>cmd\<in>set new. cmd_ok cmd) \<and> full.queued new \<in> {[], [ptr]}"
proof -
  have none: "app_messages im now ptr outs g = Some g" if "filter is_app outs = []" for im now ptr outs g
    using that by (induction im now ptr outs g rule: app_messages.induct) auto
  show ?thesis
    using assms
  proof (induction im now ptr outs g rule: app_messages.induct)
    case (1 im now ptr g)
    then show ?case by (intro exI [where x = "[]"]) (simp add: full.new_orders_def full.queued_def List.map_filter_simps)
  next
    case (2 im now ptr u t data outs g)
    then obtain g1 where "onApplicationMessage im now ptr u t data g = Some g1" "app_messages im now ptr outs g1 = Some g'"
      by (auto simp: bind_eq_Some_conv)
    moreover have "filter is_app outs = []" using 2(3) by simp
    note none [OF this]
    ultimately have "onApplicationMessage im now ptr u t data g = Some g'" by simp
    then show ?case by (rule onApplicationMessage_queue)
  qed auto
qed

section \<open>The invariant\<close>

definition server_ok :: "(bytes \<Rightarrow> bytes \<Rightarrow> bytes) \<Rightarrow> Server \<Rightarrow> bool" where
  "server_ok hmac sv \<longleftrightarrow>
     (let q = command_queue (sv_gateway sv); e = sv_engine sv
      in engine_room (length q) e \<and> full.new_orders q \<and> distinct (full.queued q) \<and>
         set (full.queued q) \<inter> engine_used e = {} \<and> (\<forall>cmd\<in>set q. cmd_ok cmd)) \<and>
     sm_ok hmac (sv_sessions sv) \<and> 0 < unat (next_uuid (sv_sessions sv))"

lemma create_engine_ok: "engine_room 0 (create_engine h im) \<and> engine_used (create_engine h im) = {}"
proof -
  have "engine_inv (fold (\<lambda>inst. addInstrument (inst_security_id inst)) insts e) \<and>
      next_order_id (fold (\<lambda>inst. addInstrument (inst_security_id inst)) insts e) = next_order_id e \<and>
      owned_orders (fold (\<lambda>inst. addInstrument (inst_security_id inst)) insts e) = owned_orders e"
    if "engine_inv e" for insts e
    using that
  proof (induction insts arbitrary: e)
    case (Cons inst insts)
    have "next_order_id (addInstrument sec e) = next_order_id e \<and> owned_orders (addInstrument sec e) = owned_orders e" for sec
      by (simp add: addInstrument_def split: option.splits)
    with Cons.IH [OF addInstrument_inv [OF Cons.prems]] show ?case by simp
  qed simp
  from this [OF FullMatchingEngine_new_inv [of h], of "im_instruments im"] show ?thesis
    by (simp add: create_engine_def engine_room_def engine_used_def) (simp add: FullMatchingEngine_new_def)
qed

lemma server_start_ok: "server_start h cfg = Some sv \<Longrightarrow> server_ok hmac sv"
  using create_engine_ok
  by (auto simp: server_start_def server_ok_def OrderEntryGateway_new_def SessionManager_new_def sm_ok_def
      full.new_orders_def full.queued_def List.map_filter_simps Let_def split: if_splits)

lemma with_sessions_ok:
  "server_ok hmac sv \<Longrightarrow> sm_ok hmac sm \<Longrightarrow> 0 < unat (next_uuid sm) \<Longrightarrow> server_ok hmac (with_sessions sm sv)"
  by (simp add: server_ok_def with_sessions_def)

lemma route_responses_ok:
  "sm_ok hmac m \<Longrightarrow> route_responses env rs m = (m', outs) \<Longrightarrow>
     sm_ok hmac m' \<and> next_uuid m' = next_uuid m \<and> map fst (sm_sessions m') = map fst (sm_sessions m)"
proof (induction rs arbitrary: m outs)
  case (Cons r rs)
  show ?case
  proof (cases "findSession (resp_session_uuid r) m")
    case None
    then show ?thesis using Cons by simp
  next
    case (Some s)
    obtain s' out where sa: "sendApplicationMessage env (resp_sbe_message r) s = (s', out)" by fastforce
    let ?m = "put_session (resp_session_uuid r) s' m"
    have "deliver hmac (resp_session_uuid r) (SendApp env (resp_sbe_message r)) m = Some (?m, out)"
      using Some sa by (simp add: deliver_def session_input_def)
    then have "sm_ok hmac ?m" "next_uuid ?m = next_uuid m" using deliver_ok [OF Cons.prems(1)] next_kept(1) by blast+
    moreover have "map fst (sm_sessions ?m) = map fst (sm_sessions m)"
      unfolding put_session_def using update_keys Some by (fastforce simp: findSession_def dest: map_of_SomeD)
    moreover obtain outs' where "route_responses env rs ?m = (m', outs')"
      using Cons.prems(2) Some sa by (auto split: prod.splits)
    ultimately show ?thesis using Cons.IH [of ?m] by simp
  qed
qed simp

lemma server_receive_ok:
  assumes ok: "server_ok hmac sv" and r: "server_receive hmac env ptr u data sv = Some (sv', out)"
    and "ptr \<notin> engine_used (sv_engine sv)" and "ptr \<notin> set (full.queued (command_queue (sv_gateway sv)))"
    and room: "unat (next_order_id (sv_engine sv)) + length (command_queue (sv_gateway sv)) + 1 < 2 ^ 64"
  shows "server_ok hmac sv'"
proof -
  obtain sm g where d: "deliver hmac u (Receive env data) (sv_sessions sv) = Some (sm, out)"
    and a: "app_messages (sv_instruments sv) (steady_now env) ptr out (sv_gateway sv) = Some g"
    and sv': "sv' = sv\<lparr>sv_sessions := sm, sv_gateway := g\<rparr>"
    using r by (auto simp: server_receive_def bind_eq_Some_conv)
  have "length (filter is_app out) \<le> 1"
    using d onMessage_one_app
    by (auto simp: deliver_def session_input_def bind_eq_Some_conv simp del: One_nat_def split: option.splits)
  from app_messages_queue [OF a this] obtain new where
    q: "command_queue g = command_queue (sv_gateway sv) @ new" "length new \<le> 1" "full.new_orders new"
      "\<forall>cmd\<in>set new. cmd_ok cmd" "full.queued new \<in> {[], [ptr]}" by blast
  have qq: "full.queued (command_queue g) = full.queued (command_queue (sv_gateway sv)) @ full.queued new"
    unfolding q(1) full.queued_def by (simp add: List.map_filter_def)
  have "engine_room (length (command_queue g)) (sv_engine sv)"
    using ok room q(1,2) by (simp add: server_ok_def engine_room_def Let_def)
  moreover have "full.new_orders (command_queue g)" "\<forall>cmd\<in>set (command_queue g). cmd_ok cmd"
    using ok q by (auto simp: server_ok_def full.new_orders_def Let_def)
  moreover have "distinct (full.queued (command_queue g))" "set (full.queued (command_queue g)) \<inter> engine_used (sv_engine sv) = {}"
    using ok q(5) assms(3,4) unfolding qq by (auto simp: server_ok_def Let_def)
  moreover have "sm_ok hmac sm" "0 < unat (next_uuid sm)"
    using deliver_ok [OF _ d] next_kept(1) [OF d] ok by (simp_all add: server_ok_def)
  ultimately show ?thesis by (simp add: server_ok_def sv' Let_def)
qed

text \<open>An iteration of the engine thread always completes; what it does to each component.\<close>

lemma engine_iteration_ok:
  assumes ok: "server_ok hmac sv"
    and spec: "spec_queue FullMatchingEngine now (command_queue (sv_gateway sv)) (sv_engine sv) = (e, ds, evs)"
  obtains g rs sm outs md where "processCommands FullMatchingEngine now (sv_engine sv) (sv_gateway sv) = Some (e, g, rs, evs)"
    and "carries (next_exec_id (gw_builder (sv_gateway sv))) ds rs" and "command_queue g = []"
    and "route_responses env rs (sv_sessions sv) = (sm, outs)" and "publishEvents clk ts evs (sv_md sv) = Some md"
    and "engine_iteration env now clk ts sv =
      Some (sv\<lparr>sv_engine := e, sv_gateway := g, sv_sessions := sm, sv_md := md\<rparr>, outs)"
    and "server_ok hmac (sv\<lparr>sv_engine := e, sv_gateway := g, sv_sessions := sm, sv_md := md\<rparr>)"
    and "engine_feed (sv_engine sv) evs e"
proof -
  let ?q = "command_queue (sv_gateway sv)" and ?e = "sv_engine sv"
  have q: "engine_room (length ?q) ?e" "full.new_orders ?q" "distinct (full.queued ?q)"
    "set (full.queued ?q) \<inter> engine_used ?e = {}" "\<forall>cmd\<in>set ?q. cmd_ok cmd" and sok: "sm_ok hmac (sv_sessions sv)"
    "0 < unat (next_uuid (sv_sessions sv))"
    using ok by (auto simp: server_ok_def Let_def)
  from process_queue_implements [OF q(5), of FullMatchingEngine now ?e "(sv_gateway sv)\<lparr>command_queue := []\<rparr>"] spec
  obtain g rs where p: "processCommands FullMatchingEngine now ?e (sv_gateway sv) = Some (e, g, rs, evs)"
    and c: "carries (next_exec_id (gw_builder (sv_gateway sv))) ds rs" and g: "command_queue g = []"
    by (auto simp: implements_def processCommands_def)
  have eng: "engine_room 0 e" "engine_feed ?e evs e"
    using full.spec_queue_ok [of ?q 0 ?e now e ds evs] q(1-4) spec by simp_all
  obtain sm outs where r: "route_responses env rs (sv_sessions sv) = (sm, outs)" by fastforce
  obtain md where md: "publishEvents clk ts evs (sv_md sv) = Some md" using publishEvents_total by blast
  then have "(if evs \<noteq> [] then publishEvents clk ts evs (sv_md sv) else Some (sv_md sv)) = Some md"
    by (auto simp: publishEvents_def)
  then have it: "engine_iteration env now clk ts sv =
      Some (sv\<lparr>sv_engine := e, sv_gateway := g, sv_sessions := sm, sv_md := md\<rparr>, outs)"
    using p r by (simp add: engine_iteration_def)
  have "server_ok hmac (sv\<lparr>sv_engine := e, sv_gateway := g, sv_sessions := sm, sv_md := md\<rparr>)"
    using eng(1) g route_responses_ok [OF sok(1) r] sok(2)
    by (simp add: server_ok_def full.new_orders_def full.queued_def List.map_filter_simps)
  from that [OF p c g r md it this eng(2)] show thesis .
qed

lemma server_reach_ok: "server_reach hmac h cfg sv \<Longrightarrow> server_ok hmac sv"
proof (induction rule: server_reach.induct)
  case (sv_start sv)
  then show ?case by (rule server_start_ok)
next
  case (sv_accept sv en key env)
  then have sm: "sm_ok hmac (sv_sessions sv)" "0 < unat (next_uuid (sv_sessions sv))" by (simp_all add: server_ok_def)
  have "0 < unat (next_uuid (fst (on_accept en key env (sv_sessions sv))))"
    using accept_next(1) [of en key env "sv_sessions sv"] sm(2) unat_Suc64 [OF sv_accept.hyps(2)] by auto
  then show ?case using with_sessions_ok [OF sv_accept.IH accept_ok [OF sm(1) sv_accept.hyps(2) sm(2)]] by blast
next
  case (sv_receive sv env ptr u data sv' out)
  then show ?case using server_receive_ok by blast
next
  case (sv_tick sv env sm outs)
  then show ?case using tick_ok next_kept(2) by (intro with_sessions_ok) (auto simp: server_ok_def)
next
  case (sv_disconnect sv env u sm out)
  then show ?case using disconnect_ok next_kept_disconnect by (intro with_sessions_ok) (auto simp: server_ok_def)
next
  case (sv_iterate sv env now clk ts sv' outs)
  obtain e ds evs where "spec_queue FullMatchingEngine now (command_queue (sv_gateway sv)) (sv_engine sv) = (e, ds, evs)"
    by (metis prod_cases3)
  from engine_iteration_ok [OF sv_iterate.IH this, of env clk ts] sv_iterate.hyps(2) show ?case by (metis option.inject prod.inject)
next
  case (sv_snapshot sv dclk ch sv')
  then show ?case
    by (auto simp: server_ok_def snapshot_iteration_def bind_eq_Some_conv Let_def split: option.splits)
next
  case (sv_instdef sv iclk sv')
  then show ?case by (auto simp: server_ok_def instdef_iteration_def)
qed

text \<open>
  C4.  The exchange as a whole.  In every state reachable by any interleaving of connections, client messages,
  timer ticks, disconnects and iterations of the engine and market data threads: every book satisfies its invariant and
  every order in it is owned by the engine under its own id and security; the orders waiting in the
  command queue are distinct objects that no book refers to; session ids are unique and within the
  configured limit; and the engine thread can always complete an iteration, which empties the queue.
\<close>

theorem exchange_invariant:
  assumes "server_reach hmac h cfg sv"
  shows "server_ok hmac sv \<and> (\<forall>sec b. order_books (sv_engine sv) sec = Some b \<longrightarrow> book_inv (objects (sv_engine sv)) b \<and>
      (\<forall>p\<in>book_cells b. owned_orders (sv_engine sv) (order_id (objects (sv_engine sv) p)) = Some p \<and>
         order_to_security (sv_engine sv) (order_id (objects (sv_engine sv) p)) = Some sec \<and>
         p \<notin> set (full.queued (command_queue (sv_gateway sv))))) \<and>
    distinct (full.queued (command_queue (sv_gateway sv))) \<and>
    distinct (map fst (sm_sessions (sv_sessions sv))) \<and>
    activeSessionCount (sv_sessions sv) \<le> max_sessions (sv_sessions sv) \<and>
    (\<exists>sv' outs. engine_iteration env now clk ts sv = Some (sv', outs) \<and> \<not> hasPendingCommands (sv_gateway sv'))"
proof -
  have ok: "server_ok hmac sv" by (rule server_reach_ok) fact
  let ?e = "sv_engine sv" and ?q = "full.queued (command_queue (sv_gateway sv))"
  have inv: "engine_inv ?e" and d: "distinct ?q" "set ?q \<inter> engine_used ?e = {}" and sm: "sm_ok hmac (sv_sessions sv)"
    using ok by (auto simp: server_ok_def engine_room_def Let_def)
  have books: "book_inv (objects ?e) b \<and> (\<forall>p\<in>book_cells b. owned_orders ?e (order_id (objects ?e p)) = Some p \<and>
      order_to_security ?e (order_id (objects ?e p)) = Some sec \<and> p \<notin> set ?q)" if b: "order_books ?e sec = Some b" for sec b
  proof -
    have "p \<notin> set ?q" if "p \<in> book_cells b" for p
    proof -
      have "owned_orders ?e (order_id (objects ?e p)) = Some p" using engine_invD(3) [OF inv b that] by blast
      then have "p \<in> engine_used ?e" by (auto simp: engine_used_def ran_def)
      with d(2) show ?thesis by blast
    qed
    then show ?thesis using books.table_get [OF engine_invD(1) [OF inv] b] engine_invD(3) [OF inv b] by blast
  qed
  obtain e ds evs where "spec_queue FullMatchingEngine now (command_queue (sv_gateway sv)) ?e = (e, ds, evs)" by (metis prod_cases3)
  from engine_iteration_ok [OF ok this, of env clk ts] obtain g sm' md outs where
    "engine_iteration env now clk ts sv = Some (sv\<lparr>sv_engine := e, sv_gateway := g, sv_sessions := sm', sv_md := md\<rparr>, outs)"
    "command_queue g = []" by metis
  then have "\<exists>sv' outs. engine_iteration env now clk ts sv = Some (sv', outs) \<and> \<not> hasPendingCommands (sv_gateway sv')"
    by (auto simp: hasPendingCommands_def)
  with ok books d(1) sm show ?thesis by (auto simp: sm_ok_def activeSessionCount_def)
qed

definition ex_server :: Server where
  "ex_server = the (server_start ex_heap createDefaultConfig)"

lemma ex_server_start: "server_start ex_heap createDefaultConfig = Some ex_server"
  by (simp add: ex_server_def server_start_def createDefaultConfig_def ExchangeConfig_default_def EngineConfig_default_def Let_def)

text \<open>The server after a first connection.\<close>

definition ex_connected :: Server where
  "ex_connected = with_sessions (fst (on_accept True [1, 2, 3] ex_env (sv_sessions ex_server))) ex_server"

lemma ex_connected_reach: "server_reach (\<lambda>k d. []) ex_heap createDefaultConfig ex_connected"
  "activeSessionCount (sv_sessions ex_connected) = 1"
proof -
  have s: "sv_sessions ex_server = SessionManager_new 100"
    by (simp add: ex_server_def server_start_def Let_def createDefaultConfig_def ExchangeConfig_default_def
        SessionConfig_default_def EngineConfig_default_def)
  then show "server_reach (\<lambda>k d. []) ex_heap createDefaultConfig ex_connected" unfolding ex_connected_def
    by (intro sv_accept sv_start ex_server_start) (simp add: SessionManager_new_def)
  show "activeSessionCount (sv_sessions ex_connected) = 1"
    by (simp add: ex_connected_def with_sessions_def s on_accept_def createSession_def SessionManager_new_def put_session_def
        activeSessionCount_def Let_def setHmacKey_def setHmacEnabled_def Session_new_def)
qed

theorem exchange_invariant_witness:
  "server_reach (\<lambda>k d. []) ex_heap createDefaultConfig ex_connected \<and> activeSessionCount (sv_sessions ex_connected) = 1 \<and>
   (\<exists>sv' outs. engine_iteration ex_env 5 (\<lambda>_. 6) 7 ex_connected = Some (sv', outs) \<and> \<not> hasPendingCommands (sv_gateway sv'))"
  using exchange_invariant [OF ex_connected_reach(1)] ex_connected_reach by blast

section \<open>The market-data feed\<close>

text \<open>What a client takes from the packets of its channel's incremental feed for one security.\<close>

definition client_updates :: "SecurityId \<Rightarrow> bytes list \<Rightarrow> BookUpdate list" where
  "client_updates sec pkts = concat (map (\<lambda>pkt. case read_packet (drop PacketHeader_SIZE pkt) of
       None \<Rightarrow> [] | Some (es, ts, os) \<Rightarrow> filter (\<lambda>u. bu_security_id u = sec) (map entry_update es)) pkts)"

lemma updates_events_for:
  "updates (events_for sec evs) = filter (\<lambda>u. bu_security_id u = sec) (updates evs)"
proof (induction evs)
  case (Cons ev evs)
  then show ?case by (cases ev) (simp_all add: events_for_def)
qed (simp add: events_for_def)

lemma updates_channel_events:
  assumes "getChannelForSecurity sec p = ch" and "ch \<noteq> 0"
  shows "filter (\<lambda>u. bu_security_id u = sec) (updates (channel_events p ch evs)) = updates (events_for sec evs)"
proof (induction evs)
  case (Cons ev evs)
  then show ?case using assms by (cases ev) (auto simp: channel_events_simps events_for_def)
qed (simp add: channel_events_simps events_for_def)

lemma channel_events_sub:
  "set (updates (channel_events p ch evs)) \<subseteq> set (updates evs) \<and> length (updates (channel_events p ch evs)) \<le> length (updates evs) \<and>
   set (fills (channel_events p ch evs)) \<subseteq> set (fills evs) \<and> length (fills (channel_events p ch evs)) \<le> length (fills evs)"
proof (induction evs)
  case (Cons ev evs)
  then show ?case by (cases ev) (auto simp: channel_events_simps)
qed (simp add: channel_events_simps)

lemma published_updates:
  assumes pub: "publishIncrementalUpdates ta tb evs ts cp = Some cp'"
    and wire: "\<forall>u\<in>set (updates evs). wire_update u" "\<forall>f\<in>set (fills evs). wire_fill f"
      "length (updates evs) < 256" "length (fills evs) < 128"
  shows "\<exists>new. sent (incremental_feed_a cp') = sent (incremental_feed_a cp) @ new \<and>
    client_updates sec new = filter (\<lambda>u. bu_security_id u = sec) (updates evs)"
proof -
  obtain ib pkt es trs os where b: "buildIncrementalPacket evs ts (incremental_builder cp) = Some (ib, pkt)"
    and r: "read_packet pkt = Some (es, trs, os)" and es: "map entry_update es = updates evs"
    using incremental_packet_ok [OF wire, of ts "incremental_builder cp"] by blast
  from pub show ?thesis
  proof (cases rule: publishIncrementalUpdates_cases)
    case 1
    then show ?thesis by (intro exI [where x = "[]"]) (simp add: client_updates_def)
  next
    case (2 ib')
    have "read_packet [] = Some ([], [], [])"
      by (simp add: read_packet_def decodeTemplateId_def read_le_def read_bytes_def)
    with 2 b r es have "updates evs = []" by simp
    with 2 show ?thesis by (intro exI [where x = "[]"]) (simp add: client_updates_def)
  next
    case (3 ib' pkt')
    let ?p = "udp_packet (next_seq_num (incremental_feed_a cp)) ta pkt"
    have "sent (incremental_feed_a cp') = sent (incremental_feed_a cp) @ [?p]"
      using 3 b by (simp add: send_incremental_def feed_send_def Let_def)
    moreover have "drop PacketHeader_SIZE ?p = pkt" by (simp add: udp_packet_def PacketHeader_SIZE_def)
    ultimately show ?thesis using r es by (intro exI [where x = "[?p]"]) (simp add: client_updates_def)
  qed
qed

text \<open>
  C5.  Clients can follow the market.  In every state that satisfies the invariant of the exchange (so in
  every reachable state), one iteration of the engine thread makes channel feeds from which a client
  keeps its book: for each security with a book and a channel, the
  client that holds the book's price levels and applies, in order, the entries for that security in the
  packets newly sent on the channel's incremental feed holds the price levels of the book afterwards.
  (For values within their C++ types and at most 255 updates and 127 trades in the iteration, which the
  8-bit group counts can hold.)
\<close>

theorem clients_follow_books:
  assumes "server_ok hmac sv" and "engine_iteration env now clk ts sv = Some (sv', outs)"
    and "snd (snd (spec_queue FullMatchingEngine now (command_queue (sv_gateway sv)) (sv_engine sv))) = evs"
    and "\<forall>u\<in>set (updates evs). wire_update u" and "\<forall>f\<in>set (fills evs). wire_fill f"
    and "length (updates evs) < 256" and "length (fills evs) < 128"
    and "order_books (sv_engine sv) sec = Some b" and "getChannelForSecurity sec (sv_md sv) = ch" and "ch \<noteq> 0"
    and "getChannelPublisher ch (sv_md sv) = Some cp"
  shows "\<exists>b' cp' new. order_books (sv_engine sv') sec = Some b' \<and> getChannelPublisher ch (sv_md sv') = Some cp' \<and>
    sent (incremental_feed_a cp') = sent (incremental_feed_a cp) @ new \<and>
    replay (client_updates sec new) (book_view b) = book_view b'"
proof -
  obtain e ds where s: "spec_queue FullMatchingEngine now (command_queue (sv_gateway sv)) (sv_engine sv) = (e, ds, evs)"
    using assms(3) by (metis prod.collapse)
  from engine_iteration_ok [OF assms(1) s, of env clk ts] obtain g rs sm md where
    md: "publishEvents clk ts evs (sv_md sv) = Some md" and feed: "engine_feed (sv_engine sv) evs e"
    and sv': "sv' = sv\<lparr>sv_engine := e, sv_gateway := g, sv_sessions := sm, sv_md := md\<rparr>"
    using assms(2) by (metis option.inject prod.inject)
  obtain b' where b': "order_books e sec = Some b'" and rep: "reports b (events_for sec evs) b'"
    using spec [OF feed [unfolded engine_feed_def], of sec] assms(8) by auto
  let ?ce = "channel_events (sv_md sv) ch evs"
  obtain ta tb cp' where cp': "getChannelPublisher ch md = Some cp'"
    and pub: "publishIncrementalUpdates ta tb ?ce ts cp = Some cp'"
    using events_routed [OF md, of ch] assms(11) by auto
  note sub = channel_events_sub [of "sv_md sv" ch evs]
  obtain new where new: "sent (incremental_feed_a cp') = sent (incremental_feed_a cp) @ new"
    and cu: "client_updates sec new = filter (\<lambda>u. bu_security_id u = sec) (updates ?ce)"
    using published_updates [OF pub, of sec] sub assms(4-7) by (meson le_less_trans subset_iff)
  have "client_updates sec new = updates (events_for sec evs)"
    unfolding cu by (rule updates_channel_events) fact+
  then have "replay (client_updates sec new) (book_view b) = book_view b'" using rep by (simp add: reports_def)
  with b' cp' new show ?thesis by (auto simp: sv')
qed

text \<open>The default exchange with a sell and a matching buy order in the queue.\<close>

definition ex_busy :: Server where
  "ex_busy = ex_server\<lparr>sv_gateway := (sv_gateway ex_server)\<lparr>command_queue := ex_queue\<rparr>\<rparr>"

lemma ex_busy_parts:
  "\<exists>b. order_books (sv_engine ex_busy) 13 = Some b" "getChannelForSecurity 13 (sv_md ex_busy) = 313"
  "\<exists>cp. getChannelPublisher 313 (sv_md ex_busy) = Some cp"
proof -
  have "map_option book_security_id (order_books (sv_engine ex_busy) 13) = Some 13" by code_simp
  then show "\<exists>b. order_books (sv_engine ex_busy) 13 = Some b" by auto
  show "getChannelForSecurity 13 (sv_md ex_busy) = 313" by code_simp
  have "map_option cp_channel_id (getChannelPublisher 313 (sv_md ex_busy)) = Some 313" by code_simp
  then show "\<exists>cp. getChannelPublisher 313 (sv_md ex_busy) = Some cp" by auto
qed

lemma ex_busy_ok: "server_ok hmac ex_busy"
proof -
  have "server_ok hmac ex_server" by (rule server_start_ok [OF ex_server_start])
  moreover have "sv_engine ex_server = create_engine ex_heap
      (set_all_status PreOpen (loadFromConfig (instruments createDefaultConfig) (channels createDefaultConfig)))"
    by (simp add: ex_server_def server_start_def createDefaultConfig_def ExchangeConfig_default_def EngineConfig_default_def Let_def)
  then have "engine_used (sv_engine ex_server) = {}" using create_engine_ok by simp
  moreover have "next_order_id (sv_engine ex_server) = 1" by code_simp
  ultimately show ?thesis
    using ex_queue_ok by (simp add: server_ok_def ex_busy_def engine_room_def full.new_orders_def full.queued_def ex_queue_def
        ex_command_def ex_new_order_def Order_default_def List.map_filter_simps Let_def)
qed

lemma ex_busy_events:
  "let evs = snd (snd (spec_queue FullMatchingEngine 5 (command_queue (sv_gateway ex_busy)) (sv_engine ex_busy)))
   in (\<forall>u\<in>set (updates evs). wire_update u) \<and> (\<forall>f\<in>set (fills evs). wire_fill f) \<and> length (updates evs) = 2 \<and> length (fills evs) = 1"
  by code_simp

theorem clients_follow_books_witness:
  "\<exists>sv' outs b b' cp cp' new. engine_iteration ex_env 5 (\<lambda>_. 6) 7 ex_busy = Some (sv', outs) \<and>
     order_books (sv_engine ex_busy) 13 = Some b \<and> getChannelPublisher 313 (sv_md ex_busy) = Some cp \<and>
     order_books (sv_engine sv') 13 = Some b' \<and> getChannelPublisher 313 (sv_md sv') = Some cp' \<and>
     sent (incremental_feed_a cp') = sent (incremental_feed_a cp) @ new \<and>
     replay (client_updates 13 new) (book_view b) = book_view b'"
proof -
  let ?spec = "spec_queue FullMatchingEngine 5 (command_queue (sv_gateway ex_busy)) (sv_engine ex_busy)"
  obtain e ds evs where s: "?spec = (e, ds, evs)" by (metis prod_cases3)
  have ev: "\<forall>u\<in>set (updates evs). wire_update u" "\<forall>f\<in>set (fills evs). wire_fill f" "length (updates evs) < 256" "length (fills evs) < 128"
    using ex_busy_events unfolding s by (simp_all add: Let_def)
  obtain sv' outs where it: "engine_iteration ex_env 5 (\<lambda>_. 6) 7 ex_busy = Some (sv', outs)"
    using engine_iteration_ok [OF ex_busy_ok s] by metis
  obtain b cp where "order_books (sv_engine ex_busy) 13 = Some b" "getChannelPublisher 313 (sv_md ex_busy) = Some cp"
    using ex_busy_parts by blast
  with clients_follow_books [OF ex_busy_ok it _ ev this(1) ex_busy_parts(2) _ this(2)] it s show ?thesis by fastforce
qed

section \<open>Delivery of the reports\<close>

lemma served_send_cb:
  assumes "served hmac s"
  shows "send_cb s"
proof -
  have "session_reach hmac s sent \<Longrightarrow> send_cb s" for sent
  proof (induction rule: session_reach.induct)
    case (reach_new e k u env)
    show ?case by (simp add: setHmacEnabled_def setHmacKey_def Session_new_def)
  next
    case (reach_app s sent env d)
    then show ?case by (simp add: sendApplicationMessage_def sendFramedMessage_eq)
  next
    case (reach_input s sent i s' out)
    then show ?case using session_input_step [OF reach_input.hyps(2)] by (simp add: keeps_def)
  qed
  then show ?thesis using assms by (auto simp: served_def)
qed

definition sent_to :: "64 word \<Rightarrow> (64 word \<times> SessionOutput list) list \<Rightarrow> SessionOutput list" where
  "sent_to u outs = concat (map snd (filter (\<lambda>(v, out). v = u) outs))"

lemma route_responses_session:
  "findSession u m = Some s \<Longrightarrow> send_cb s \<Longrightarrow> route_responses env rs m = (m', outs) \<Longrightarrow>
   \<exists>s'. findSession u m' = Some s' \<and> sess_state s' = sess_state s \<and>
     (let msgs = map resp_sbe_message (filter (\<lambda>r. resp_session_uuid r = u) rs)
      in if sess_state s = Established then sent_to u outs = map Send msgs \<and> next_out_seq s' = next_out_seq s + of_nat (length msgs)
         else sent_to u outs = [] \<and> next_out_seq s' = next_out_seq s)"
proof (induction rs arbitrary: m s outs)
  case Nil
  then show ?case by (simp add: sent_to_def)
next
  case (Cons r rs)
  let ?v = "resp_session_uuid r"
  show ?case
  proof (cases "findSession ?v m")
    case None
    then have "?v \<noteq> u" using Cons.prems(1) by auto
    then have "filter (\<lambda>r. resp_session_uuid r = u) (r # rs) = filter (\<lambda>r. resp_session_uuid r = u) rs" by simp
    moreover have "route_responses env rs m = (m', outs)" using None Cons.prems(3) by simp
    ultimately show ?thesis using Cons.IH [OF Cons.prems(1,2)] by (simp only:)
  next
    case (Some t)
    obtain t' out where sa: "sendApplicationMessage env (resp_sbe_message r) t = (t', out)" by fastforce
    let ?m = "put_session ?v t' m"
    obtain outs' where rr: "route_responses env rs ?m = (m', outs')" and outs: "outs = (?v, out) # outs'"
      using Cons.prems(3) Some sa by (auto split: prod.splits)
    show ?thesis
    proof (cases "?v = u")
      case True
      then have t: "t = s" using Some Cons.prems(1) by simp
      have f: "findSession u ?m = Some t'" using True by (simp add: findSession_def put_session_def update_conv')
      have st: "sess_state t' = sess_state s" "send_cb t'"
        and es: "sess_state s = Established \<Longrightarrow> out = [Send (resp_sbe_message r)] \<and> next_out_seq t' = next_out_seq s + 1"
        and ns: "sess_state s \<noteq> Established \<Longrightarrow> out = [] \<and> t' = s"
        using sa t Cons.prems(2) by (auto simp: sendApplicationMessage_def sendFramedMessage_eq split: if_splits)
      have "sent_to u outs = out @ sent_to u outs'" using True outs by (simp add: sent_to_def)
      then show ?thesis using Cons.IH [OF f st(2) rr] st es ns True
        by (cases "sess_state s = Established") (auto simp: Let_def add.assoc)
    next
      case False
      have f: "findSession u ?m = Some s" using False Cons.prems(1) by (simp add: findSession_def put_session_def update_conv')
      have "sent_to u outs = sent_to u outs'" using False outs by (simp add: sent_to_def)
      moreover have "filter (\<lambda>r. resp_session_uuid r = u) (r # rs) = filter (\<lambda>r. resp_session_uuid r = u) rs"
        using False by simp
      ultimately show ?thesis using Cons.IH [OF f Cons.prems(2) rr] by (simp only:)
    qed
  qed
qed

lemma carries_to:
  "carries n ds rs \<Longrightarrow> list_all2 (\<lambda>(ev, v, mk) m. \<exists>x. read_report m = report_of ev u mk x)
     (filter (\<lambda>(ev, v, mk). v = u) ds) (map resp_sbe_message (filter (\<lambda>r. resp_session_uuid r = u) rs))"
  by (induction n ds rs rule: carries.induct) auto

text \<open>
  C6.  Reports reach the right client.  One iteration of the engine thread sends, on each established session,
  exactly the reports that the abstract gateway addresses to that session, in order, each in a message
  that the client reads as its event, and advances the session's outgoing sequence number by their
  number; on a session that is not established it sends nothing.
\<close>

theorem reports_delivered:
  assumes "server_ok hmac sv" and "engine_iteration env now clk ts sv = Some (sv', outs)"
    and "spec_queue FullMatchingEngine now (command_queue (sv_gateway sv)) (sv_engine sv) = (e, ds, evs)"
    and "findSession u (sv_sessions sv) = Some s"
  shows "\<exists>s' msgs. findSession u (sv_sessions sv') = Some s' \<and> sess_state s' = sess_state s \<and>
    list_all2 (\<lambda>(ev, v, mk) m. \<exists>x. read_report m = report_of ev u mk x) (filter (\<lambda>(ev, v, mk). v = u) ds) msgs \<and>
    (if sess_state s = Established then sent_to u outs = map Send msgs \<and> next_out_seq s' = next_out_seq s + of_nat (length msgs)
     else sent_to u outs = [] \<and> next_out_seq s' = next_out_seq s)"
proof -
  from engine_iteration_ok [OF assms(1,3), of env clk ts] obtain g rs sm md where
    c: "carries (next_exec_id (gw_builder (sv_gateway sv))) ds rs" and r: "route_responses env rs (sv_sessions sv) = (sm, outs)"
    and sv': "sv' = sv\<lparr>sv_engine := e, sv_gateway := g, sv_sessions := sm, sv_md := md\<rparr>"
    using assms(2) by (metis option.inject prod.inject)
  have "sm_ok hmac (sv_sessions sv)" using assms(1) by (simp add: server_ok_def)
  from sm_ok_find [OF this assms(4)] have "send_cb s" using served_send_cb by blast
  from route_responses_session [OF assms(4) this r, unfolded Let_def] obtain s' where
    "findSession u sm = Some s'" "sess_state s' = sess_state s"
    "if sess_state s = Established
     then sent_to u outs = map Send (map resp_sbe_message (filter (\<lambda>r. resp_session_uuid r = u) rs)) \<and>
          next_out_seq s' = next_out_seq s + of_nat (length (map resp_sbe_message (filter (\<lambda>r. resp_session_uuid r = u) rs)))
     else sent_to u outs = [] \<and> next_out_seq s' = next_out_seq s" by (elim exE conjE)
  moreover have "sv_sessions sv' = sm" by (simp add: sv')
  ultimately show ?thesis using carries_to [OF c, of u] by (intro exI conjI) (simp_all only:)
qed

definition ex_online :: Server where
  "ex_online = ex_busy\<lparr>sv_sessions := \<lparr>sm_sessions = [(1, ex_sent)], next_uuid = 2, max_sessions = 2\<rparr>\<rparr>"

lemma ex_sent_state: "sess_state ex_sent = Established" "sess_uuid ex_sent = 1"
  by (simp_all add: ex_sent_def ex_logged_on_def ex_secure_def setHmacEnabled_def setHmacKey_def Session_new_def
      sendApplicationMessage_def sendFramedMessage_eq)

lemma ex_online_ok: "server_ok (\<lambda>k d. replicate 32 0) ex_online"
  using ex_busy_ok [of "\<lambda>k d. replicate 32 0"] ex_sent_reach
  by (auto simp: server_ok_def ex_online_def sm_ok_def served_def ex_sent_state)

lemma ex_busy_reports:
  "map (\<lambda>(ev, v, mk). v) (fst (snd (spec_queue FullMatchingEngine 5 (command_queue (sv_gateway ex_busy)) (sv_engine ex_busy)))) = [1, 2, 1, 2]"
  by code_simp

theorem reports_delivered_witness:
  "\<exists>sv' outs m1 m2 s'. engine_iteration ex_env 5 (\<lambda>_. 6) 7 ex_online = Some (sv', outs) \<and>
     sent_to 1 outs = [Send m1, Send m2] \<and> findSession 1 (sv_sessions sv') = Some s' \<and>
     next_out_seq s' = next_out_seq ex_sent + 2"
proof -
  let ?spec = "spec_queue FullMatchingEngine 5 (command_queue (sv_gateway ex_online)) (sv_engine ex_online)"
  obtain e ds evs where s: "?spec = (e, ds, evs)" by (metis prod_cases3)
  have "map (\<lambda>(ev, v, mk). v) ds = [1, 2, 1, 2]" using ex_busy_reports s by (simp add: ex_online_def)
  then obtain ev1 mk1 d2 ev2 mk2 d4 where ds: "ds = [(ev1, 1, mk1), d2, (ev2, 1, mk2), d4]" "fst (snd d2) = 2" "fst (snd d4) = 2"
    by (auto simp: map_eq_Cons_conv split: prod.splits)
  then have f: "filter (\<lambda>(ev, v, mk). v = 1) ds = [(ev1, 1, mk1), (ev2, 1, mk2)]" by (auto split: prod.splits)
  obtain sv' outs where it: "engine_iteration ex_env 5 (\<lambda>_. 6) 7 ex_online = Some (sv', outs)"
    using engine_iteration_ok [OF ex_online_ok s] by metis
  have "findSession 1 (sv_sessions ex_online) = Some ex_sent" by (simp add: ex_online_def findSession_def)
  from reports_delivered [OF ex_online_ok it s this] it show ?thesis
    unfolding f by (auto simp: ex_sent_state list_all2_Cons1)
qed

end
