(* ===== verification/Tcp_Network.thy ===== *)
theory Tcp_Network
  imports Sbe_Framing
begin

text \<open>
  The network layer: \<^verbatim>\<open>src/network/tcp_connection.cpp\<close>, \<^verbatim>\<open>tcp_acceptor.cpp\<close> and \<^verbatim>\<open>io_context_pool.cpp\<close>.

  A connection is its state between completion handlers: the bytes that have arrived and are not yet read,
  whether it waits for a header or for a body of a given length, and what it has written.  The handler
  that completes when enough bytes are there is run as often as possible after each arrival
  (\<open>tcp_read\<close>); \<^verbatim>\<open>asio\<close> itself, the socket options and the logging are not modelled.

  \<^verbatim>\<open>send\<close> posts a function to the connection's strand which, when it runs, starts an \<^verbatim>\<open>async_write\<close> of the frame
  whether or not an earlier one has finished.  Each \<^verbatim>\<open>async_write\<close> writes its buffer in pieces of any size, and
  \<^verbatim>\<open>asio\<close> leaves the order of the pieces of different writes open: any write that is not complete
  may go on next.
\<close>

section \<open>Connections\<close>

definition kSofhSize :: nat where "kSofhSize = 6"
definition kSofhEncodingSbe :: "16 word" where "kSofhEncodingSbe = 0xCAFE"
definition kMaxBody :: "32 word" where "kMaxBody = 64 * 1024"

text \<open>
  \<open>tc_posted\<close>: frames whose function on the strand has not run yet; \<open>tc_writes\<close>: every write started so far, as what
  it has written and what it has not; \<open>tc_written\<close>: the bytes on the wire; \<open>tc_overlap\<close> records whether ever a
  write was started before the ones before it were complete.
\<close>

record TcpConnection =
  tc_inbox :: bytes
  tc_body :: "nat option"
  tc_posted :: "bytes list"
  tc_writes :: "(bytes \<times> bytes) list"
  tc_written :: bytes
  tc_overlap :: bool
  tc_closed :: bool

datatype TcpEvent = OnMessage bytes | OnDisconnect

definition TcpConnection_new :: TcpConnection where
  "TcpConnection_new = \<lparr>tc_inbox = [], tc_body = None, tc_posted = [], tc_writes = [], tc_written = [],
     tc_overlap = False, tc_closed = False\<rparr>"

definition tcp_frame :: "bytes \<Rightarrow> bytes" where
  "tcp_frame data =
     (let msg_length = of_nat (kSofhSize + length data) :: 32 word
      in le 4 (native_to_big32 msg_length) @ le 2 (native_to_big16 kSofhEncodingSbe) @ data)"

definition tcp_send :: "bytes \<Rightarrow> TcpConnection \<Rightarrow> TcpConnection" where
  "tcp_send data c = c\<lparr>tc_posted := tc_posted c @ [tcp_frame data]\<rparr>"

text \<open>The posted function.\<close>

definition start_write :: "TcpConnection \<Rightarrow> TcpConnection" where
  "start_write c =
     (case tc_posted c of
        [] \<Rightarrow> c
      | msg # msgs \<Rightarrow>
          let c = c\<lparr>tc_posted := msgs\<rparr>
          in if tc_closed c then c
             else c\<lparr>tc_overlap := tc_overlap c \<or> (\<exists>w\<in>set (tc_writes c). snd w \<noteq> []), tc_writes := tc_writes c @ [([], msg)]\<rparr>)"

text \<open>Write \<open>k\<close> puts its next \<open>n\<close> bytes on the wire.\<close>

definition write_some :: "nat \<Rightarrow> nat \<Rightarrow> TcpConnection \<Rightarrow> TcpConnection" where
  "write_some k n c =
     (if tc_closed c \<or> length (tc_writes c) \<le> k then c
      else case tc_writes c ! k of (done, todo) \<Rightarrow>
        c\<lparr>tc_writes := (tc_writes c)[k := (done @ take n todo, drop n todo)], tc_written := tc_written c @ take n todo\<rparr>)"

definition tcp_close :: "TcpConnection \<Rightarrow> TcpConnection \<times> TcpEvent list" where
  "tcp_close c = (if tc_closed c then (c, []) else (c\<lparr>tc_closed := True\<rparr>, [OnDisconnect]))"

text \<open>The checks on a header; \<open>None\<close>: the connection is closed.\<close>

definition read_header :: "bytes \<Rightarrow> nat option" where
  "read_header hdr =
     (let msg_length = big_to_native32 (of_le (take 4 hdr));
          enc_type = big_to_native16 (of_le (take 2 (drop 4 hdr)))
      in if enc_type \<noteq> kSofhEncodingSbe then None
         else if msg_length \<le> of_nat kSofhSize then None
         else let body_length = msg_length - of_nat kSofhSize
              in if kMaxBody < body_length then None else Some (unat body_length))"

function tcp_read :: "TcpConnection \<Rightarrow> TcpConnection \<times> TcpEvent list" where
  "tcp_read c =
     (if tc_closed c then (c, [])
      else case tc_body c of
        None \<Rightarrow>
          if kSofhSize \<le> length (tc_inbox c) then
            case read_header (take kSofhSize (tc_inbox c)) of
              None \<Rightarrow> tcp_close c
            | Some n \<Rightarrow> tcp_read (c\<lparr>tc_inbox := drop kSofhSize (tc_inbox c), tc_body := Some n\<rparr>)
          else (c, [])
      | Some n \<Rightarrow>
          if n \<le> length (tc_inbox c) then
            let (c', evs) = tcp_read (c\<lparr>tc_inbox := drop n (tc_inbox c), tc_body := None\<rparr>)
            in (c', OnMessage (take n (tc_inbox c)) # evs)
          else (c, []))"
  by pat_completeness auto

termination tcp_read
  by (relation "measure (\<lambda>c. 2 * length (tc_inbox c) + (case tc_body c of None \<Rightarrow> 0 | Some n \<Rightarrow> 1))")
    (auto simp: kSofhSize_def)

declare tcp_read.simps [simp del]

definition tcp_arrive :: "bytes \<Rightarrow> TcpConnection \<Rightarrow> TcpConnection \<times> TcpEvent list" where
  "tcp_arrive chunk c = tcp_read (c\<lparr>tc_inbox := tc_inbox c @ chunk\<rparr>)"

text \<open>A read or write that completes with an error.\<close>

definition tcp_error :: "TcpConnection \<Rightarrow> TcpConnection \<times> TcpEvent list" where
  "tcp_error c = (if \<not> tc_closed c then tcp_close c else (c, []))"

fun tcp_stream :: "bytes list \<Rightarrow> TcpConnection \<Rightarrow> TcpConnection \<times> TcpEvent list" where
  "tcp_stream [] c = (c, [])"
| "tcp_stream (chunk # chunks) c =
     (let (c, evs) = tcp_arrive chunk c; (c, evs') = tcp_stream chunks c in (c, evs @ evs'))"

section \<open>The pool of I/O contexts\<close>

record IoContextPool =
  io_contexts :: nat
  work_guards :: nat
  io_threads_running :: nat
  next_io_context :: nat

text \<open>\<open>hw\<close>: what \<^verbatim>\<open>std::thread::hardware_concurrency\<close> returns.\<close>

definition IoContextPool_new :: "nat \<Rightarrow> nat \<Rightarrow> IoContextPool" where
  "IoContextPool_new hw pool_size =
     (let pool_size = (if pool_size = 0 then if hw = 0 then 1 else hw else pool_size)
      in \<lparr>io_contexts = pool_size, work_guards = pool_size, io_threads_running = 0, next_io_context = 0\<rparr>)"

definition pool_start :: "IoContextPool \<Rightarrow> IoContextPool" where
  "pool_start p = (if io_threads_running p \<noteq> 0 then p else p\<lparr>io_threads_running := io_contexts p\<rparr>)"

definition pool_stop :: "IoContextPool \<Rightarrow> IoContextPool" where
  "pool_stop p = p\<lparr>work_guards := 0, io_threads_running := 0\<rparr>"

text \<open>\<open>None\<close>: an access outside the vector.\<close>

definition get_io_context :: "IoContextPool \<Rightarrow> (nat \<times> IoContextPool) option" where
  "get_io_context p =
     (if next_io_context p < io_contexts p
      then Some (next_io_context p, p\<lparr>next_io_context := (next_io_context p + 1) mod io_contexts p\<rparr>)
      else None)"

section \<open>The acceptor\<close>

text \<open>\<open>acc_waiting\<close>: the context for which an \<^verbatim>\<open>async_accept\<close> is outstanding.\<close>

record TcpAcceptor =
  acc_pool :: IoContextPool
  acc_connections :: "nat set"
  acc_waiting :: "nat option"
  acc_stopped :: bool

definition TcpAcceptor_new :: "IoContextPool \<Rightarrow> TcpAcceptor" where
  "TcpAcceptor_new p = \<lparr>acc_pool = p, acc_connections = {}, acc_waiting = None, acc_stopped = False\<rparr>"

definition do_accept :: "TcpAcceptor \<Rightarrow> TcpAcceptor option" where
  "do_accept a =
     (if acc_stopped a then Some a
      else map_option (\<lambda>(i, p). a\<lparr>acc_pool := p, acc_waiting := Some i\<rparr>) (get_io_context (acc_pool a)))"

definition acceptor_start :: "TcpAcceptor \<Rightarrow> TcpAcceptor option" where
  "acceptor_start a = do_accept a"

text \<open>
  The completion handler: \<open>None\<close> as its argument is an error, \<open>Some conn\<close> a new connection, which the
  callback is given with the context it runs on.
\<close>

definition on_accepted :: "nat option \<Rightarrow> TcpAcceptor \<Rightarrow> (TcpAcceptor \<times> (nat \<times> nat) option) option" where
  "on_accepted res a =
     (case (acc_waiting a, res) of
        (None, _) \<Rightarrow> Some (a, None)
      | (Some i, None) \<Rightarrow> Some (a\<lparr>acc_waiting := None\<rparr>, None)
      | (Some i, Some conn) \<Rightarrow> do {
          a \<leftarrow> do_accept (a\<lparr>acc_waiting := None, acc_connections := insert conn (acc_connections a)\<rparr>);
          Some (a, Some (i, conn))
        })"

definition remove_connection :: "nat \<Rightarrow> TcpAcceptor \<Rightarrow> TcpAcceptor" where
  "remove_connection conn a = a\<lparr>acc_connections := acc_connections a - {conn}\<rparr>"

definition connection_count :: "TcpAcceptor \<Rightarrow> nat" where
  "connection_count a = card (acc_connections a)"

text \<open>The connections that are closed by it, as a set.\<close>

definition acceptor_stop :: "TcpAcceptor \<Rightarrow> TcpAcceptor \<times> nat set" where
  "acceptor_stop a = (a\<lparr>acc_stopped := True, acc_waiting := None, acc_connections := {}\<rparr>, acc_connections a)"

section \<open>Reassembly\<close>

text \<open>Reading after one arrival and then after another is reading after both at once.\<close>

lemma inbox_body_comm: "c\<lparr>tc_inbox := z, tc_body := d\<rparr> = c\<lparr>tc_body := d, tc_inbox := z\<rparr>"
  by (cases c) simp

lemma tcp_read_append:
  "tcp_read c = (c', evs) \<Longrightarrow> \<not> tc_closed c' \<Longrightarrow>
     tcp_read (c\<lparr>tc_inbox := tc_inbox c @ b\<rparr>) =
       (fst (tcp_arrive b c'), evs @ snd (tcp_arrive b c'))"
proof (induction c arbitrary: c' evs rule: tcp_read.induct)
  case (1 c)
  show ?case
  proof (cases "tc_closed c")
    case True
    then show ?thesis using 1 by (simp add: tcp_read.simps [of c])
  next
    case open_c: False
    show ?thesis
    proof (cases "tc_body c")
      case None
      show ?thesis
      proof (cases "kSofhSize \<le> length (tc_inbox c)")
        case True
        show ?thesis
        proof (cases "read_header (take kSofhSize (tc_inbox c))")
          case hdr: None
          then have "tc_closed c'" using 1(3) open_c None True
            by (auto simp: tcp_read.simps [of c] tcp_close_def)
          with 1(4) show ?thesis by blast
        next
          case (Some n)
          let ?c = "c\<lparr>tc_inbox := drop kSofhSize (tc_inbox c), tc_body := Some n\<rparr>"
          have "tcp_read ?c = (c', evs)" using 1(3) open_c None True Some by (simp add: tcp_read.simps [of c])
          from 1(1) [OF open_c None True Some this 1(4)] show ?thesis using open_c None True Some
            by (simp add: tcp_read.simps [of "c\<lparr>tc_inbox := tc_inbox c @ b\<rparr>"] inbox_body_comm)
        qed
      next
        case False
        then show ?thesis using 1(3) open_c None by (auto simp: tcp_read.simps [of c] tcp_arrive_def)
      qed
    next
      case (Some n)
      show ?thesis
      proof (cases "n \<le> length (tc_inbox c)")
        case True
        let ?c = "c\<lparr>tc_inbox := drop n (tc_inbox c), tc_body := None\<rparr>"
        obtain evs' where r: "tcp_read ?c = (c', evs')" "evs = OnMessage (take n (tc_inbox c)) # evs'"
          using 1(3) open_c Some True by (auto simp: tcp_read.simps [of c] split: prod.splits)
        from 1(2) [OF open_c Some True this(1) 1(4)] show ?thesis using open_c Some True r
          by (simp add: tcp_read.simps [of "c\<lparr>tc_inbox := tc_inbox c @ b\<rparr>"] inbox_body_comm)
      next
        case False
        then show ?thesis using 1(3) open_c Some by (auto simp: tcp_read.simps [of c] tcp_arrive_def)
      qed
    qed
  qed
qed

lemma tcp_read_closed: "tc_closed c \<Longrightarrow> tcp_read c = (c, [])"
  by (simp add: tcp_read.simps)

text \<open>
  Bytes that arrive after the connection has been closed change nothing but the unread input, so only
  the state without it is compared.
\<close>

definition tcp_view :: "TcpConnection \<times> TcpEvent list \<Rightarrow> (bytes \<times> nat option) option \<times> bytes \<times> TcpEvent list" where
  "tcp_view r = (let (c, evs) = r
     in (if tc_closed c then None else Some (tc_inbox c, tc_body c), tc_written c, evs))"

lemma tcp_read_append_closed:
  "tcp_read c = (c', evs) \<Longrightarrow> tc_closed c' \<Longrightarrow>
     \<exists>rest. tcp_read (c\<lparr>tc_inbox := tc_inbox c @ b\<rparr>) = (c'\<lparr>tc_inbox := rest\<rparr>, evs)"
proof (induction c arbitrary: c' evs rule: tcp_read.induct)
  case (1 c)
  show ?case
  proof (cases "tc_closed c")
    case True
    then show ?thesis using 1 by (auto simp: tcp_read_closed)
  next
    case open_c: False
    show ?thesis
    proof (cases "tc_body c")
      case None
      then have len: "kSofhSize \<le> length (tc_inbox c)" using 1(3,4) open_c
        by (auto simp: tcp_read.simps [of c] split: if_splits)
      show ?thesis
      proof (cases "read_header (take kSofhSize (tc_inbox c))")
        case hdr: None
        then show ?thesis using 1(3) open_c None len
          by (intro exI [where x = "tc_inbox c @ b"])
            (auto simp: tcp_read.simps [of c] tcp_read.simps [of "c\<lparr>tc_inbox := tc_inbox c @ b\<rparr>"] tcp_close_def
              intro: TcpConnection.equality)
      next
        case (Some n)
        let ?c = "c\<lparr>tc_inbox := drop kSofhSize (tc_inbox c), tc_body := Some n\<rparr>"
        have "tcp_read ?c = (c', evs)" using 1(3) open_c None len Some by (simp add: tcp_read.simps [of c])
        from 1(1) [OF open_c None len Some this 1(4)] show ?thesis using open_c None len Some
          by (simp add: tcp_read.simps [of "c\<lparr>tc_inbox := tc_inbox c @ b\<rparr>"] inbox_body_comm)
      qed
    next
      case (Some n)
      then have len: "n \<le> length (tc_inbox c)" using 1(3,4) open_c
        by (auto simp: tcp_read.simps [of c] split: if_splits)
      let ?c = "c\<lparr>tc_inbox := drop n (tc_inbox c), tc_body := None\<rparr>"
      obtain evs' where r: "tcp_read ?c = (c', evs')" "evs = OnMessage (take n (tc_inbox c)) # evs'"
        using 1(3) open_c Some len by (auto simp: tcp_read.simps [of c] split: prod.splits)
      from 1(2) [OF open_c Some len this(1) 1(4)] show ?thesis using open_c Some len r
        by (auto simp: tcp_read.simps [of "c\<lparr>tc_inbox := tc_inbox c @ b\<rparr>"] inbox_body_comm)
    qed
  qed
qed

lemma tcp_stream_closed: "tc_closed c \<Longrightarrow> tcp_view (tcp_stream chunks c) = (None, tc_written c, [])"
  by (induction chunks arbitrary: c) (auto simp: tcp_view_def tcp_arrive_def tcp_read_closed Let_def split: prod.splits)

lemma tcp_view_append:
  "tcp_view (c, evs) = tcp_view (d, evs') \<Longrightarrow> tcp_view (c, es @ evs) = tcp_view (d, es @ evs')"
  by (auto simp: tcp_view_def)

lemma tcp_stream_arrive:
  "tcp_view (tcp_stream (chunk # chunks) c) = tcp_view (tcp_arrive (concat (chunk # chunks)) c)"
proof (induction chunks arbitrary: chunk c)
  case Nil
  then show ?case by (simp add: Let_def split: prod.splits)
next
  case (Cons b bs)
  obtain c1 evs where r: "tcp_read (c\<lparr>tc_inbox := tc_inbox c @ chunk\<rparr>) = (c1, evs)" by fastforce
  let ?all = "concat (b # bs)"
  show ?case
  proof (cases "tc_closed c1")
    case True
    from tcp_read_append_closed [OF r True, of ?all] obtain rest where
      "tcp_arrive (concat (chunk # b # bs)) c = (c1\<lparr>tc_inbox := rest\<rparr>, evs)" by (auto simp: tcp_arrive_def)
    moreover obtain c2 e2 where s: "tcp_stream (b # bs) c1 = (c2, e2)" by fastforce
    ultimately show ?thesis using tcp_stream_closed [OF True, of "b # bs"] True r
      by (auto simp: tcp_view_def tcp_arrive_def Let_def split: prod.splits if_splits)
  next
    case False
    obtain c2 e2 where s: "tcp_stream (b # bs) c1 = (c2, e2)" by fastforce
    obtain c3 e3 where a: "tcp_arrive ?all c1 = (c3, e3)" by fastforce
    have "tcp_arrive (concat (chunk # b # bs)) c = (c3, evs @ e3)"
      using tcp_read_append [OF r False, of ?all] a by (simp add: tcp_arrive_def)
    moreover have "tcp_stream (chunk # b # bs) c = (c2, evs @ e2)"
      by (subst tcp_stream.simps(2)) (simp only: tcp_arrive_def r Let_def prod.case s)
    moreover have "tcp_view (c2, e2) = tcp_view (c3, e3)" using Cons.IH [of b c1] unfolding s a .
    then have "tcp_view (c2, evs @ e2) = tcp_view (c3, evs @ e3)" by (rule tcp_view_append)
    ultimately show ?thesis by (simp only:)
  qed
qed

lemma read_header_frame:
  assumes "1 \<le> length m" and "length m \<le> 65536"
  shows "read_header (take kSofhSize (tcp_frame m @ rest)) = Some (length m)"
proof -
  let ?len = "of_nat (kSofhSize + length m) :: 32 word"
  have u: "unat ?len = 6 + length m" using assms(2) by (simp only: unat_of_nat) (simp add: kSofhSize_def)
  have hdr: "take kSofhSize (tcp_frame m @ rest) = le 4 (native_to_big32 ?len) @ le 2 (native_to_big16 kSofhEncodingSbe)"
    by (simp add: tcp_frame_def kSofhSize_def)
  have len: "big_to_native32 (of_le (take 4 (take kSofhSize (tcp_frame m @ rest)))) = ?len"
    unfolding hdr by (simp add: of_le_le big_to_native32_def native_to_big32_def)
  have enc: "big_to_native16 (of_le (take 2 (drop 4 (take kSofhSize (tcp_frame m @ rest))))) = kSofhEncodingSbe"
    unfolding hdr by (simp add: of_le_le big_to_native16_def native_to_big16_def)
  have "\<not> ?len \<le> of_nat kSofhSize" using u assms(1) by (auto simp: word_le_nat_alt kSofhSize_def)
  moreover have body: "?len - of_nat kSofhSize = of_nat (length m)" by (simp add: kSofhSize_def)
  moreover have "unat (of_nat (length m) :: 32 word) = length m" using assms(2) by (simp add: unat_of_nat)
  moreover have "\<not> kMaxBody < of_nat (length m)" using assms(2) by (simp add: kMaxBody_def word_less_nat_alt unat_of_nat)
  ultimately show ?thesis unfolding read_header_def len enc by simp
qed

lemma tcp_read_frames:
  "\<forall>m\<in>set ms. 1 \<le> length m \<and> length m \<le> 65536 \<Longrightarrow> \<not> tc_closed c \<Longrightarrow> tc_body c = None \<Longrightarrow>
     tc_inbox c = concat (map tcp_frame ms) @ rest \<Longrightarrow>
     tcp_read c = (let (c', evs) = tcp_read (c\<lparr>tc_inbox := rest\<rparr>) in (c', map OnMessage ms @ evs))"
proof (induction ms arbitrary: c)
  case Nil
  then have "c\<lparr>tc_inbox := rest\<rparr> = c" by (cases c) simp
  then show ?case by (simp split: prod.splits)
next
  case (Cons m ms)
  let ?more = "concat (map tcp_frame ms) @ rest"
  have inbox: "tc_inbox c = tcp_frame m @ ?more" using Cons.prems(4) by simp
  have m: "1 \<le> length m" "length m \<le> 65536" using Cons.prems(1) by simp_all
  have len: "kSofhSize \<le> length (tc_inbox c)" and rest: "drop kSofhSize (tc_inbox c) = m @ ?more"
    by (simp_all add: inbox tcp_frame_def kSofhSize_def)
  let ?c1 = "c\<lparr>tc_inbox := m @ ?more, tc_body := Some (length m)\<rparr>" and ?c2 = "c\<lparr>tc_inbox := ?more\<rparr>"
  have "tcp_read c = tcp_read ?c1"
    using Cons.prems(2,3) len read_header_frame [OF m, of ?more] rest inbox by (subst tcp_read.simps) simp
  moreover have "?c1\<lparr>tc_inbox := ?more, tc_body := None\<rparr> = ?c2" using Cons.prems(3) by (cases c) simp
  then have "tcp_read ?c1 = (let (c', evs) = tcp_read ?c2 in (c', OnMessage m # evs))"
    using Cons.prems(2) by (subst tcp_read.simps) simp
  moreover have "tcp_read ?c2 = (let (c', evs) = tcp_read (c\<lparr>tc_inbox := rest\<rparr>) in (c', map OnMessage ms @ evs))"
    using Cons.IH [of ?c2] Cons.prems by simp
  ultimately show ?case by (simp split: prod.splits)
qed

text \<open>
  C12.  The byte stream is cut into messages independently of how it arrives.  If the bytes are the frames of
  some messages (1 to 65536 bytes each) followed by others, then for every way of splitting them into
  arrivals exactly these messages are delivered, in order; an incomplete header after them waits in the
  input, and an invalid one (wrong encoding type, or a length of 6 or less or above the limit) closes
  the connection and reports the disconnect once.
\<close>

theorem tcp_reassembles:
  assumes "\<forall>m\<in>set ms. 1 \<le> length m \<and> length m \<le> 65536"
    and "concat chunks = concat (map tcp_frame ms) @ rest" and "chunks \<noteq> []"
  shows "(length rest < kSofhSize \<longrightarrow>
      tcp_view (tcp_stream chunks TcpConnection_new) = (Some (rest, None), [], map OnMessage ms)) \<and>
    (kSofhSize \<le> length rest \<and> read_header (take kSofhSize rest) = None \<longrightarrow>
      tcp_view (tcp_stream chunks TcpConnection_new) = (None, [], map OnMessage ms @ [OnDisconnect]))"
proof -
  obtain b bs where "chunks = b # bs" using assms(3) by (cases chunks) auto
  then have "tcp_view (tcp_stream chunks TcpConnection_new) = tcp_view (tcp_arrive (concat chunks) TcpConnection_new)"
    using tcp_stream_arrive by blast
  moreover let ?c = "TcpConnection_new\<lparr>tc_inbox := rest\<rparr>"
  have "tcp_arrive (concat chunks) TcpConnection_new = (let (c', evs) = tcp_read ?c in (c', map OnMessage ms @ evs))"
    unfolding tcp_arrive_def
    by (subst tcp_read_frames [OF assms(1), where rest = rest]) (simp_all add: TcpConnection_new_def assms(2))
  moreover have "tcp_read ?c = (?c, [])" if "length rest < kSofhSize"
    using that by (subst tcp_read.simps) (simp add: TcpConnection_new_def)
  moreover have "tcp_read ?c = (?c\<lparr>tc_closed := True\<rparr>, [OnDisconnect])"
    if "kSofhSize \<le> length rest" "read_header (take kSofhSize rest) = None"
    using that by (subst tcp_read.simps) (simp add: TcpConnection_new_def tcp_close_def)
  ultimately show ?thesis by (auto simp: tcp_view_def TcpConnection_new_def)
qed

theorem tcp_reassembles_witness:
  "tcp_view (tcp_stream [[0, 0, 0], [8, 0xCA, 0xFE, 1], [2, 0, 0, 0, 7], [0xCA, 0xFE, 9, 0, 0, 0, 9, 0, 0]] TcpConnection_new) =
     (None, [], [OnMessage [1, 2], OnMessage [9], OnDisconnect])"
proof -
  have f: "tcp_frame [1, 2] = [0, 0, 0, 8, 0xCA, 0xFE, 1, 2]" "tcp_frame [9] = [0, 0, 0, 7, 0xCA, 0xFE, 9]"
    by code_simp+
  have h: "read_header [0, 0, 0, 9, 0, 0] = None" by code_simp
  show ?thesis
    using tcp_reassembles [of "[[1, 2], [9]]"
        "[[0, 0, 0], [8, 0xCA, 0xFE, 1], [2, 0, 0, 0, 7], [0xCA, 0xFE, 9, 0, 0, 0, 9, 0, 0]]" "[0, 0, 0, 9, 0, 0]"] h
    by (simp add: f kSofhSize_def)
qed

section \<open>Writing\<close>

text \<open>The bytes are those of the lists, each byte once and the bytes of a list in its order.\<close>

fun interleaved :: "bytes list \<Rightarrow> bytes \<Rightarrow> bool" where
  "interleaved [] bs \<longleftrightarrow> bs = []"
| "interleaved (xs # xss) bs \<longleftrightarrow> (\<exists>ys. interleaved xss ys \<and> bs \<in> shuffles xs ys)"

lemma shuffles_snoc: "zs \<in> shuffles xs ys \<Longrightarrow> zs @ bs \<in> shuffles (xs @ bs) ys \<and> zs @ bs \<in> shuffles xs (ys @ bs)"
proof (induction xs ys arbitrary: zs rule: shuffles.induct)
  case (1 ys)
  then show ?case by (induction zs arbitrary: ys) (auto simp: Cons_in_shuffles_iff)
next
  case (2 xs)
  then show ?case by (induction zs arbitrary: xs) (auto simp: Cons_in_shuffles_iff)
next
  case (3 x xs y ys)
  then show ?case by auto
qed

lemma interleaved_start: "interleaved xss bs \<Longrightarrow> interleaved (xss @ [[]]) bs"
  by (induction xss arbitrary: bs) auto

lemma interleaved_write: "interleaved xss bs \<Longrightarrow> k < length xss \<Longrightarrow> interleaved (xss[k := xss ! k @ b]) (bs @ b)"
proof (induction xss arbitrary: bs k)
  case (Cons xs xss)
  then obtain ys where "interleaved xss ys" "bs \<in> shuffles xs ys" by auto
  with Cons.IH [of ys "k - 1"] Cons.prems(2) shuffles_snoc [of bs xs ys b] show ?case by (cases k) auto
qed simp

text \<open>
  The writes of a connection: each is of a frame; the wire holds what they have written; and without
  an overlap they have written one after the other, only the last one perhaps not to its end.
\<close>

definition writes_ok :: "TcpConnection \<Rightarrow> bool" where
  "writes_ok c \<longleftrightarrow> (\<forall>msg\<in>set (tc_posted c). \<exists>m. msg = tcp_frame m) \<and>
     (\<forall>w\<in>set (tc_writes c). \<exists>m. fst w @ snd w = tcp_frame m) \<and>
     interleaved (map fst (tc_writes c)) (tc_written c) \<and>
     (\<not> tc_overlap c \<longrightarrow> tc_written c = concat (map fst (tc_writes c)) \<and> (\<forall>w\<in>set (butlast (tc_writes c)). snd w = []))"

lemma writes_ok_new: "writes_ok TcpConnection_new"
  by (simp add: writes_ok_def TcpConnection_new_def)

lemma writes_ok_send: "writes_ok c \<Longrightarrow> writes_ok (tcp_send m c)"
  by (auto simp: writes_ok_def tcp_send_def)

lemma writes_ok_start: "writes_ok c \<Longrightarrow> writes_ok (start_write c)"
  by (auto simp: writes_ok_def start_write_def Let_def interleaved_start butlast_append in_set_butlast_appendI split: list.splits)

lemma writes_ok_some:
  assumes ok: "writes_ok c"
  shows "writes_ok (write_some k n c)"
proof (cases "tc_closed c \<or> length (tc_writes c) \<le> k")
  case True
  with ok show ?thesis by (auto simp: write_some_def)
next
  case False
  then have k: "k < length (tc_writes c)" by simp
  obtain d t where dt: "tc_writes c ! k = (d, t)" by fastforce
  let ?ws = "(tc_writes c)[k := (d @ take n t, drop n t)]" and ?b = "take n t"
  have c': "write_some k n c = c\<lparr>tc_writes := ?ws, tc_written := tc_written c @ ?b\<rparr>" using False dt by (simp add: write_some_def)
  have "\<exists>m. d @ t = tcp_frame m" using ok nth_mem [OF k] dt unfolding writes_ok_def by force
  then have fr: "\<exists>m. fst w @ snd w = tcp_frame m" if "w \<in> set ?ws" for w
  proof -
    have "w = (d @ take n t, drop n t) \<or> w \<in> set (tc_writes c)" using that set_update_subset_insert by fastforce
    with \<open>\<exists>m. d @ t = tcp_frame m\<close> ok show ?thesis by (auto simp: writes_ok_def)
  qed
  have "interleaved ((map fst (tc_writes c))[k := map fst (tc_writes c) ! k @ ?b]) (tc_written c @ ?b)"
    using interleaved_write [of "map fst (tc_writes c)"] ok k by (simp add: writes_ok_def)
  then have il: "interleaved (map fst ?ws) (tc_written c @ ?b)" using k dt by (simp add: map_update)
  have serial: "tc_written c @ ?b = concat (map fst ?ws) \<and> (\<forall>w\<in>set (butlast ?ws). snd w = [])" if "\<not> tc_overlap c"
  proof -
    from ok that have w: "tc_written c = concat (map fst (tc_writes c))" "\<forall>w\<in>set (butlast (tc_writes c)). snd w = []"
      by (simp_all add: writes_ok_def)
    show ?thesis
    proof (cases "Suc k = length (tc_writes c)")
      case True
      then obtain ws where l: "tc_writes c = ws @ [(d, t)]" "length ws = k" using dt by (cases "tc_writes c" rule: rev_cases) auto
      then have "?ws = ws @ [(d @ ?b, drop n t)]" by (metis list_update_length)
      with w l show ?thesis by simp
    next
      case False
      with k have "tc_writes c ! k \<in> set (butlast (tc_writes c))" by (metis Suc_lessI in_set_conv_nth length_butlast less_diff_conv nth_butlast Suc_eq_plus1)
      with w(2) dt have "t = []" by fastforce
      then have "?ws = tc_writes c" using dt by (metis append_Nil2 drop_Nil list_update_id take_Nil)
      with w \<open>t = []\<close> show ?thesis by simp
    qed
  qed
  show ?thesis using ok fr il serial unfolding c' by (auto simp: writes_ok_def)
qed

text \<open>
  What a peer finds on the wire: a part of each frame, interleaved; and without an overlap whole frames
  and then the first part of the next.
\<close>

lemma writes_ok_wire:
  assumes "writes_ok c"
  shows "\<exists>ms parts. list_all2 (\<lambda>part m. \<exists>rest. part @ rest = tcp_frame m) parts ms \<and> interleaved parts (tc_written c)"
    and "\<not> tc_overlap c \<Longrightarrow> \<exists>ms part m rest. tc_written c = concat (map tcp_frame ms) @ part \<and> part @ rest = tcp_frame m"
proof -
  let ?m = "\<lambda>w. SOME m. fst w @ snd w = tcp_frame m"
  have "\<exists>m. fst w @ snd w = tcp_frame m" if "w \<in> set (tc_writes c)" for w using assms that by (auto simp: writes_ok_def)
  then have m: "fst w @ snd w = tcp_frame (?m w)" if "w \<in> set (tc_writes c)" for w using that by (metis (mono_tags, lifting) someI_ex)
  then have "list_all2 (\<lambda>part m. \<exists>rest. part @ rest = tcp_frame m) (map fst (tc_writes c)) (map ?m (tc_writes c))"
    by (auto simp: list.rel_map list_all2_same)
  with assms show "\<exists>ms parts. list_all2 (\<lambda>part m. \<exists>rest. part @ rest = tcp_frame m) parts ms \<and> interleaved parts (tc_written c)"
    unfolding writes_ok_def by blast
  assume "\<not> tc_overlap c"
  with assms have w: "tc_written c = concat (map fst (tc_writes c))" "\<forall>w\<in>set (butlast (tc_writes c)). snd w = []"
    by (simp_all add: writes_ok_def)
  show "\<exists>ms part m rest. tc_written c = concat (map tcp_frame ms) @ part \<and> part @ rest = tcp_frame m"
  proof (cases "tc_writes c" rule: rev_cases)
    case Nil
    with w show ?thesis by (intro exI [where x = "[]"] exI [where x = "tcp_frame []"]) auto
  next
    case (snoc ws l)
    have "fst v = tcp_frame (?m v)" if "v \<in> set ws" for v using m [of v] w(2) that snoc by simp
    then have "map fst ws = map tcp_frame (map ?m ws)" by simp
    with w(1) snoc m [of l] show ?thesis by (intro exI [where x = "map ?m ws"]) auto
  qed
qed

text \<open>
  Two messages sent one after the other can reach the peer so mixed up that it delivers neither and closes
  the connection.
\<close>

definition ex_overlap :: TcpConnection where
  "ex_overlap = write_some 0 4 (write_some 1 8 (write_some 0 3 (start_write (start_write
     (tcp_send [3] (tcp_send [1, 2] TcpConnection_new))))))"

lemma overlapping_writes_corrupt:
  "tc_overlap ex_overlap \<and> snd (tcp_stream [tc_written ex_overlap] TcpConnection_new) = [OnDisconnect]"
  by code_simp

section \<open>Accepting\<close>

fun contexts_taken :: "nat \<Rightarrow> IoContextPool \<Rightarrow> nat list option" where
  "contexts_taken 0 p = Some []"
| "contexts_taken (Suc k) p = do { (i, p) \<leftarrow> get_io_context p; is \<leftarrow> contexts_taken k p; Some (i # is) }"

text \<open>Contexts are handed out in turn, and never one that does not exist.\<close>

lemma contexts_round_robin:
  assumes "0 < io_contexts p" and "next_io_context p < io_contexts p"
  shows "contexts_taken k p = Some (map (\<lambda>j. (next_io_context p + j) mod io_contexts p) [0..<k])"
  using assms
proof (induction k arbitrary: p)
  case (Suc k)
  let ?p = "p\<lparr>next_io_context := (next_io_context p + 1) mod io_contexts p\<rparr>"
  have "contexts_taken k ?p = Some (map (\<lambda>j. (next_io_context ?p + j) mod io_contexts ?p) [0..<k])"
    using Suc.IH [of ?p] Suc.prems by simp
  then have "contexts_taken (Suc k) p = Some (next_io_context p # map (\<lambda>j. (next_io_context ?p + j) mod io_contexts ?p) [0..<k])"
    using Suc.prems by (simp add: get_io_context_def)
  also have "map (\<lambda>j. (next_io_context ?p + j) mod io_contexts ?p) [0..<k] =
      map (\<lambda>j. (next_io_context p + j) mod io_contexts p) [1..<Suc k]"
    by (simp add: map_Suc_upt [symmetric] comp_def mod_add_left_eq del: upt_Suc)
  also have "next_io_context p # map (\<lambda>j. (next_io_context p + j) mod io_contexts p) [1..<Suc k] =
      map (\<lambda>j. (next_io_context p + j) mod io_contexts p) [0..<Suc k]"
    using Suc.prems by (simp add: upt_conv_Cons del: upt_Suc)
  finally show ?case .
qed simp

fun accept_all :: "nat option list \<Rightarrow> TcpAcceptor \<Rightarrow> (TcpAcceptor \<times> (nat \<times> nat) list) option" where
  "accept_all [] a = Some (a, [])"
| "accept_all (r # rs) a = do {
     (a, cb) \<leftarrow> on_accepted r a;
     (a, cbs) \<leftarrow> accept_all rs a;
     Some (a, (case cb of None \<Rightarrow> cbs | Some x \<Rightarrow> x # cbs))
   }"

text \<open>
  After an accept that fails (also for a passing reason such as a lack of descriptors) no connection is
  accepted any more: the handler returns without waiting for the next one.
\<close>

lemma accept_error_is_final:
  assumes "acc_waiting a = Some i"
  shows "\<exists>a'. accept_all (None # rs) a = Some (a', []) \<and> acc_connections a' = acc_connections a"
proof -
  have "accept_all rs b = Some (b, [])" if "acc_waiting b = None" for b
    using that by (induction rs) (simp_all add: on_accepted_def)
  then show ?thesis using assms by (simp add: on_accepted_def)
qed

end
