(* ===== verification/Exchange_Main.thy ===== *)
theory Exchange_Main
  imports Config_Loader Server_Properties Tcp_Network
begin

text \<open>
  \<^verbatim>\<open>main\<close> of \<^verbatim>\<open>src/main.cpp\<close> as a whole: start-up from the command line and the configuration file, the
  wiring of TCP connections to sessions, the threads, and the shutdown sequence.  The server of theory
  \<open>Server\<close> is extended by its network: the acceptor with its pool of I/O contexts, and the open and closed
  connections, each with the session it was given.  One step is one completion handler, one loop body of a
  thread, or one callback.
\<close>

section \<open>State\<close>

text \<open>
  A connection is kept under a number that stands for its address, with the UUID of the session its
  callbacks refer to (\<open>None\<close>: it was refused, and has no callbacks).
\<close>

record Exchange =
  xs_config :: ExchangeConfig
  xs_server :: Server
  xs_acceptor :: TcpAcceptor
  xs_conns :: "(nat \<times> TcpConnection \<times> 64 word option) list"
  xs_acceptor_thread :: bool
  xs_md_io_thread :: bool
  xs_engine_thread :: bool
  xs_timer_thread :: bool

datatype Startup =
    Usage | Configuration_error load_error | Unknown_mode | Listen_exception | Multicast_exception | Started Exchange

section \<open>Start-up\<close>

text \<open>The synthetic engine is not linked: the mode falls back.\<close>

definition fallback_mode :: "ExchangeConfig \<Rightarrow> ExchangeConfig" where
  "fallback_mode cfg =
     (if mode (engine cfg) = ''synthetic'' then cfg\<lparr>engine := (engine cfg)\<lparr>mode := ''full_matching''\<rparr>\<rparr> else cfg)"

text \<open>
  \<open>listens\<close>: whether the acceptor's constructor can resolve and bind the address and port, and \<open>multicasts\<close>:
  whether a multicast sender can be created for an address and port (both constructors throw otherwise, and
  nothing catches it); \<open>hw\<close>: the number of hardware threads; \<open>h\<close>: the heap of order objects.
\<close>

definition exchange_main ::
  "'n yaml \<Rightarrow> (string \<Rightarrow> 'n option option) \<Rightarrow> (string \<Rightarrow> 16 word \<Rightarrow> bool) \<Rightarrow> (string \<Rightarrow> 16 word \<Rightarrow> bool) \<Rightarrow>
   nat \<Rightarrow> heap \<Rightarrow> string list \<Rightarrow> Startup" where
  "exchange_main y files listens multicasts hw h argv =
     (case parseArgs argv AppArgs_default of
        None \<Rightarrow> Usage
      | Some args \<Rightarrow>
          (case loadConfig y files (config_path args) of
             Inl e \<Rightarrow> Configuration_error e
           | Inr cfg \<Rightarrow>
               (case validateConfig cfg of
                  Inl e \<Rightarrow> Configuration_error (Validation e)
                | Inr _ \<Rightarrow>
                    let cfg = apply_overrides args cfg
                    in case server_start h cfg of
                         None \<Rightarrow> Unknown_mode
                       | Some sv \<Rightarrow>
                           let pool = IoContextPool_new hw (nat (io_threads (network cfg)));
                               im = set_all_status PreOpen (loadFromConfig (instruments cfg) (channels cfg))
                           in if \<not> listens (tcp_listen_address (network cfg)) (tcp_listen_port (network cfg)) then Listen_exception
                              else case MarketDataPublisher_create multicasts (channels cfg) im of
                                None \<Rightarrow> Multicast_exception
                              | Some md \<Rightarrow>
                              (case acceptor_start (TcpAcceptor_new pool) of
                                None \<Rightarrow> Listen_exception
                              | Some acc \<Rightarrow>
                                  Started \<lparr>xs_config = fallback_mode cfg, xs_server = sv\<lparr>sv_md := mdp_start True im md\<rparr>,
                                    xs_acceptor = acc\<lparr>acc_pool := pool_start (acc_pool acc)\<rparr>, xs_conns = [],
                                    xs_acceptor_thread = True, xs_md_io_thread = True,
                                    xs_engine_thread = True, xs_timer_thread = True\<rparr>))))"

section \<open>Connections\<close>

text \<open>The send callback of a session writes to the connection it was created for.\<close>

definition sent_data :: "SessionOutput list \<Rightarrow> bytes list" where
  "sent_data out = List.map_filter (\<lambda>o'. case o' of Send d \<Rightarrow> Some d | AppMessage u t d \<Rightarrow> None) out"

definition write_out :: "64 word \<times> SessionOutput list \<Rightarrow> Exchange \<Rightarrow> Exchange" where
  "write_out uo x = x\<lparr>xs_conns := map (\<lambda>(conn, c, mu).
       (conn, if mu = Some (fst uo) then fold tcp_send (sent_data (snd uo)) c else c, mu)) (xs_conns x)\<rparr>"

definition put_conn :: "nat \<Rightarrow> TcpConnection \<Rightarrow> Exchange \<Rightarrow> Exchange" where
  "put_conn conn c x = x\<lparr>xs_conns := map (\<lambda>(conn', c', mu). (conn', if conn' = conn then c else c', mu)) (xs_conns x)\<rparr>"

definition with_sm :: "SessionManager \<Rightarrow> Exchange \<Rightarrow> Exchange" where
  "with_sm sm x = x\<lparr>xs_server := with_sessions sm (xs_server x)\<rparr>"

text \<open>\<^verbatim>\<open>close\<close> of a connection, with its disconnect callback.\<close>

definition close_conn :: "Env \<Rightarrow> nat \<Rightarrow> Exchange \<Rightarrow> Exchange option" where
  "close_conn env conn x =
     (case map_of (xs_conns x) conn of
        None \<Rightarrow> Some x
      | Some (c, mu) \<Rightarrow>
          (case tcp_close c of
             (_, []) \<Rightarrow> Some x
           | (c', OnDisconnect # _) \<Rightarrow>
               let x = put_conn conn c' x
               in case mu of
                    None \<Rightarrow> Some x
                  | Some u \<Rightarrow> do {
                      (sm, out) \<leftarrow> on_disconnect env u (sv_sessions (xs_server x));
                      Some (write_out (u, out) (with_sm sm x))
                    }
           | _ \<Rightarrow> Some x))"

definition hmac_key_bytes :: "ExchangeConfig \<Rightarrow> bytes" where
  "hmac_key_bytes cfg = map of_char (cfg_hmac_key (session_config cfg))"

text \<open>An accept completes; a connection beyond the session limit is closed again (it stays in the acceptor's set).\<close>

definition exchange_accept :: "Env \<Rightarrow> nat option \<Rightarrow> Exchange \<Rightarrow> Exchange option" where
  "exchange_accept env res x = do {
     (acc, new) \<leftarrow> on_accepted res (xs_acceptor x);
     let x = x\<lparr>xs_acceptor := acc\<rparr>;
     case new of
       None \<Rightarrow> Some x
     | Some (_, conn) \<Rightarrow>
         (let (sm, mu) = on_accept (cfg_hmac_enabled (session_config (xs_config x))) (hmac_key_bytes (xs_config x)) env
                (sv_sessions (xs_server x));
              c = (case mu of None \<Rightarrow> fst (tcp_close TcpConnection_new) | Some _ \<Rightarrow> TcpConnection_new)
          in Some ((with_sm sm x)\<lparr>xs_conns := xs_conns x @ [(conn, c, mu)]\<rparr>))
   }"

text \<open>
  One completion handler of a connection's reading: \<open>None\<close> when the bytes it waits for are not there yet, and
  then \<open>tcp_read\<close> is its repetition.
\<close>

datatype TcpStep = Header_read TcpConnection | Body_read TcpConnection bytes | Bad_header

definition tcp_handler :: "TcpConnection \<Rightarrow> TcpStep option" where
  "tcp_handler c =
     (if tc_closed c then None
      else case tc_body c of
        None \<Rightarrow>
          if kSofhSize \<le> length (tc_inbox c) then
            case read_header (take kSofhSize (tc_inbox c)) of
              None \<Rightarrow> Some Bad_header
            | Some n \<Rightarrow> Some (Header_read (c\<lparr>tc_inbox := drop kSofhSize (tc_inbox c), tc_body := Some n\<rparr>))
          else None
      | Some n \<Rightarrow>
          if n \<le> length (tc_inbox c)
          then Some (Body_read (c\<lparr>tc_inbox := drop n (tc_inbox c), tc_body := None\<rparr>) (take n (tc_inbox c)))
          else None)"

definition conn_arrive :: "nat \<Rightarrow> bytes \<Rightarrow> Exchange \<Rightarrow> Exchange" where
  "conn_arrive conn chunk x =
     (case map_of (xs_conns x) conn of
        None \<Rightarrow> x
      | Some (c, mu) \<Rightarrow> if tc_closed c then x else put_conn conn (c\<lparr>tc_inbox := tc_inbox c @ chunk\<rparr>) x)"

text \<open>The connection's strand runs a posted send, and one of its outstanding writes goes on.\<close>

definition conn_start_write :: "nat \<Rightarrow> Exchange \<Rightarrow> Exchange" where
  "conn_start_write conn x =
     (case map_of (xs_conns x) conn of None \<Rightarrow> x | Some (c, mu) \<Rightarrow> put_conn conn (start_write c) x)"

definition conn_write_some :: "nat \<Rightarrow> nat \<Rightarrow> nat \<Rightarrow> Exchange \<Rightarrow> Exchange" where
  "conn_write_some conn k n x =
     (case map_of (xs_conns x) conn of None \<Rightarrow> x | Some (c, mu) \<Rightarrow> put_conn conn (write_some k n c) x)"

definition conn_handler ::
  "(bytes \<Rightarrow> bytes \<Rightarrow> bytes) \<Rightarrow> Env \<Rightarrow> OrderPtr \<Rightarrow> nat \<Rightarrow> Exchange \<Rightarrow> Exchange option" where
  "conn_handler hmac env ptr conn x =
     (case map_of (xs_conns x) conn of
        None \<Rightarrow> Some x
      | Some (c, mu) \<Rightarrow>
          (case (tcp_handler c, mu) of
             (Some (Header_read c'), _) \<Rightarrow> Some (put_conn conn c' x)
           | (Some Bad_header, _) \<Rightarrow> close_conn env conn x
           | (Some (Body_read c' m), Some u) \<Rightarrow> do {
               (sv, out) \<leftarrow> server_receive hmac env ptr u m (xs_server x);
               Some (write_out (u, out) (put_conn conn c' (x\<lparr>xs_server := sv\<rparr>)))
             }
           | (Some (Body_read c' m), None) \<Rightarrow> Some (put_conn conn c' x)
           | (None, _) \<Rightarrow> Some x))"

section \<open>Threads\<close>

definition exchange_tick :: "Env \<Rightarrow> Exchange \<Rightarrow> Exchange option" where
  "exchange_tick env x = do {
     (sm, outs) \<leftarrow> onTimerTick env (sv_sessions (xs_server x));
     Some (fold write_out outs (with_sm sm x))
   }"

definition exchange_iterate ::
  "Env \<Rightarrow> Timestamp \<Rightarrow> (nat \<Rightarrow> Timestamp) \<Rightarrow> Timestamp \<Rightarrow> Exchange \<Rightarrow> Exchange option" where
  "exchange_iterate env now clk ts x = do {
     (sv, outs) \<leftarrow> engine_iteration env now clk ts (xs_server x);
     Some (fold write_out outs (x\<lparr>xs_server := sv\<rparr>))
   }"

section \<open>Shutdown\<close>

fun close_all :: "Env \<Rightarrow> nat list \<Rightarrow> Exchange \<Rightarrow> Exchange option" where
  "close_all env [] x = Some x"
| "close_all env (conn # conns) x = do { x \<leftarrow> close_conn env conn x; close_all env conns x }"

text \<open>
  The sequence after the signal.  The second component is the number the final banner shows.
\<close>

definition exchange_shutdown :: "Env \<Rightarrow> Exchange \<Rightarrow> (Exchange \<times> nat) option" where
  "exchange_shutdown env x = do {
     x \<leftarrow> close_all env (filter (\<lambda>conn. conn \<in> snd (acceptor_stop (xs_acceptor x))) (map fst (xs_conns x)))
            (x\<lparr>xs_acceptor := fst (acceptor_stop (xs_acceptor x))\<rparr>);
     let sv = xs_server x;
     let sv = sv\<lparr>sv_instruments := set_all_status SecurityTradingStatus.Close (sv_instruments sv)\<rparr>;
     let x = x\<lparr>xs_engine_thread := False, xs_timer_thread := False\<rparr>;
     let sv = sv\<lparr>sv_md := mdp_stop True (sv_md sv)\<rparr>;
     let x = x\<lparr>xs_server := sv, xs_md_io_thread := False\<rparr>;
     let acc = xs_acceptor x;
     let x = x\<lparr>xs_acceptor := acc\<lparr>acc_pool := pool_stop (acc_pool acc)\<rparr>, xs_acceptor_thread := False\<rparr>;
     Some (x, connection_count (xs_acceptor x))
   }"

section \<open>Reachable states\<close>

text \<open>The side conditions are those of \<open>server_reach\<close>; a new connection is a new object.\<close>

inductive exchange_reach ::
  "(bytes \<Rightarrow> bytes \<Rightarrow> bytes) \<Rightarrow> Exchange \<Rightarrow> Exchange \<Rightarrow> bool" for hmac x\<^sub>0 where
  x_start: "exchange_reach hmac x\<^sub>0 x\<^sub>0"
| x_accept: "exchange_reach hmac x\<^sub>0 x \<Longrightarrow> exchange_accept env res x = Some x' \<Longrightarrow>
    \<forall>conn. res = Some conn \<longrightarrow> conn \<notin> fst ` set (xs_conns x) \<Longrightarrow>
    Suc (unat (next_uuid (sv_sessions (xs_server x)))) < 2 ^ 64 \<Longrightarrow> exchange_reach hmac x\<^sub>0 x'"
| x_arrive: "exchange_reach hmac x\<^sub>0 x \<Longrightarrow> exchange_reach hmac x\<^sub>0 (conn_arrive conn chunk x)"
| x_handle: "exchange_reach hmac x\<^sub>0 x \<Longrightarrow> conn_handler hmac env ptr conn x = Some x' \<Longrightarrow>
    ptr \<notin> engine_used (sv_engine (xs_server x)) \<Longrightarrow>
    ptr \<notin> set (full.queued (command_queue (sv_gateway (xs_server x)))) \<Longrightarrow>
    unat (next_order_id (sv_engine (xs_server x))) + length (command_queue (sv_gateway (xs_server x))) + 1 < 2 ^ 64 \<Longrightarrow>
    exchange_reach hmac x\<^sub>0 x'"
| x_start_write: "exchange_reach hmac x\<^sub>0 x \<Longrightarrow> exchange_reach hmac x\<^sub>0 (conn_start_write conn x)"
| x_write_some: "exchange_reach hmac x\<^sub>0 x \<Longrightarrow> exchange_reach hmac x\<^sub>0 (conn_write_some conn k n x)"
| x_error: "exchange_reach hmac x\<^sub>0 x \<Longrightarrow> close_conn env conn x = Some x' \<Longrightarrow> exchange_reach hmac x\<^sub>0 x'"
| x_tick: "exchange_reach hmac x\<^sub>0 x \<Longrightarrow> exchange_tick env x = Some x' \<Longrightarrow> exchange_reach hmac x\<^sub>0 x'"
| x_iterate: "exchange_reach hmac x\<^sub>0 x \<Longrightarrow> exchange_iterate env now clk ts x = Some x' \<Longrightarrow> exchange_reach hmac x\<^sub>0 x'"
| x_snapshot: "exchange_reach hmac x\<^sub>0 x \<Longrightarrow> snapshot_iteration dclk ch (xs_server x) = Some sv \<Longrightarrow>
    exchange_reach hmac x\<^sub>0 (x\<lparr>xs_server := sv\<rparr>)"
| x_instdef: "exchange_reach hmac x\<^sub>0 x \<Longrightarrow> instdef_iteration iclk (xs_server x) = Some sv \<Longrightarrow>
    exchange_reach hmac x\<^sub>0 (x\<lparr>xs_server := sv\<rparr>)"

section \<open>Handlers and streams\<close>

lemma tcp_read_handler:
  "tcp_read c = (case tcp_handler c of
      None \<Rightarrow> (c, [])
    | Some (Header_read c') \<Rightarrow> tcp_read c'
    | Some (Body_read c' m) \<Rightarrow> (let (c'', evs) = tcp_read c' in (c'', OnMessage m # evs))
    | Some Bad_header \<Rightarrow> tcp_close c)"
  by (subst tcp_read.simps) (simp add: tcp_handler_def split: option.splits)

section \<open>The network is the server's environment\<close>

lemma write_out_server [simp]: "xs_server (write_out uo x) = xs_server x" "xs_config (write_out uo x) = xs_config x"
    "xs_acceptor (write_out uo x) = xs_acceptor x"
  by (simp_all add: write_out_def)

lemma write_outs_server [simp]: "xs_server (fold write_out outs x) = xs_server x" "xs_config (fold write_out outs x) = xs_config x"
    "xs_acceptor (fold write_out outs x) = xs_acceptor x"
  by (induction outs arbitrary: x) simp_all

lemma put_conn_server [simp]: "xs_server (put_conn conn c x) = xs_server x" "xs_config (put_conn conn c x) = xs_config x"
    "xs_acceptor (put_conn conn c x) = xs_acceptor x"
  by (simp_all add: put_conn_def)

lemma with_sm_server [simp]: "xs_server (with_sm sm x) = with_sessions sm (xs_server x)" "xs_config (with_sm sm x) = xs_config x"
    "xs_acceptor (with_sm sm x) = xs_acceptor x" "xs_conns (with_sm sm x) = xs_conns x"
  by (simp_all add: with_sm_def)

lemma close_conn_cases:
  assumes "close_conn env conn x = Some x'"
  obtains "x' = x"
  | c mu where "map_of (xs_conns x) conn = Some (c, mu)" and "mu = None" and "\<not> tc_closed c"
      and "x' = put_conn conn (c\<lparr>tc_closed := True\<rparr>) x"
  | c u sm out where "map_of (xs_conns x) conn = Some (c, Some u)" and "\<not> tc_closed c"
      and "on_disconnect env u (sv_sessions (xs_server x)) = Some (sm, out)"
      and "x' = write_out (u, out) (with_sm sm (put_conn conn (c\<lparr>tc_closed := True\<rparr>) x))"
proof (cases "map_of (xs_conns x) conn")
  case None
  with assms show thesis by (intro that(1)) (simp add: close_conn_def)
next
  case (Some cm)
  obtain c mu where cm: "cm = (c, mu)" by (cases cm)
  show thesis
  proof (cases "tc_closed c")
    case True
    with assms Some cm show thesis by (intro that(1)) (simp add: close_conn_def tcp_close_def)
  next
    case False
    show thesis
    proof (cases mu)
      case None
      with False Some cm assms show thesis by (intro that(2) [of c mu]) (simp_all add: close_conn_def tcp_close_def)
    next
      case (Some u)
      with False \<open>map_of (xs_conns x) conn = Some cm\<close> cm assms obtain sm out where
        "on_disconnect env u (sv_sessions (xs_server x)) = Some (sm, out)"
        "x' = write_out (u, out) (with_sm sm (put_conn conn (c\<lparr>tc_closed := True\<rparr>) x))"
        by (auto simp: close_conn_def tcp_close_def bind_eq_Some_conv)
      with False Some \<open>map_of (xs_conns x) conn = Some cm\<close> cm show thesis by (intro that(3) [of c u sm out]) simp_all
    qed
  qed
qed

text \<open>The sending side of a connection.\<close>

definition tc_out :: "TcpConnection \<Rightarrow> bytes list \<times> (bytes \<times> bytes) list \<times> bytes \<times> bool" where
  "tc_out c = (tc_posted c, tc_writes c, tc_written c, tc_overlap c)"

lemma conn_handler_cases:
  assumes "conn_handler hmac env ptr conn x = Some x'"
  obtains "x' = x"
  | c c' mu where "map_of (xs_conns x) conn = Some (c, mu)" and "\<not> tc_closed c" and "tc_closed c' = tc_closed c"
      and "tc_out c' = tc_out c" and "x' = put_conn conn c' x"
  | "close_conn env conn x = Some x'"
  | c c' u m sv out where "map_of (xs_conns x) conn = Some (c, Some u)" and "\<not> tc_closed c" and "tc_closed c' = tc_closed c"
      and "tc_out c' = tc_out c" and "server_receive hmac env ptr u m (xs_server x) = Some (sv, out)"
      and "x' = write_out (u, out) (put_conn conn c' (x\<lparr>xs_server := sv\<rparr>))"
proof (cases "map_of (xs_conns x) conn")
  case None
  with assms show thesis by (intro that(1)) (simp add: conn_handler_def)
next
  case (Some cm)
  obtain c mu where cm: "cm = (c, mu)" by (cases cm)
  show thesis
  proof (cases "tcp_handler c")
    case None
    with assms Some cm show thesis by (intro that(1)) (simp add: conn_handler_def)
  next
    case st: (Some st)
    then have op: "\<not> tc_closed c" by (auto simp: tcp_handler_def split: if_splits)
    show thesis
    proof (cases st)
      case (Header_read c')
      with assms Some cm st show thesis
        by (intro that(2) [of c mu c'])
          (auto simp: conn_handler_def tcp_handler_def tc_out_def split: if_splits option.splits)
    next
      case Bad_header
      with assms Some cm st show thesis by (intro that(3)) (simp add: conn_handler_def)
    next
      case (Body_read c' m)
      then have c': "tc_closed c' = tc_closed c" "tc_out c' = tc_out c"
        using st by (auto simp: tcp_handler_def tc_out_def split: if_splits option.splits)
      show thesis
      proof (cases mu)
        case None
        with assms Some cm st Body_read op c' show thesis by (intro that(2) [of c mu c']) (simp_all add: conn_handler_def)
      next
        case (Some u)
        then obtain sv out where "server_receive hmac env ptr u m (xs_server x) = Some (sv, out)"
          "x' = write_out (u, out) (put_conn conn c' (x\<lparr>xs_server := sv\<rparr>))"
          using assms \<open>map_of (xs_conns x) conn = Some cm\<close> cm st Body_read
          by (auto simp: conn_handler_def bind_eq_Some_conv)
        with Some \<open>map_of (xs_conns x) conn = Some cm\<close> cm op c' show thesis by (intro that(4)) simp_all
      qed
    qed
  qed
qed

lemma close_conn_reach:
  assumes "close_conn env conn x = Some x'" and "server_reach hmac h cfg (xs_server x)"
  shows "server_reach hmac h cfg (xs_server x')"
  using assms(1)
proof (cases rule: close_conn_cases)
  case (3 c u sm out)
  then show ?thesis using sv_disconnect [OF assms(2) 3(3)] by simp
qed (use assms(2) in simp_all)

lemma exchange_accept_cases:
  assumes "exchange_accept env res x = Some x'"
  obtains acc where "on_accepted res (xs_acceptor x) = Some (acc, None)" and "x' = x\<lparr>xs_acceptor := acc\<rparr>"
  | acc i conn sm mu where "on_accepted res (xs_acceptor x) = Some (acc, Some (i, conn))"
      and "on_accept (cfg_hmac_enabled (session_config (xs_config x))) (hmac_key_bytes (xs_config x)) env
                (sv_sessions (xs_server x)) = (sm, mu)"
      and "x' = (with_sm sm (x\<lparr>xs_acceptor := acc\<rparr>))\<lparr>xs_conns := xs_conns x @
         [(conn, case mu of None \<Rightarrow> fst (tcp_close TcpConnection_new) | Some _ \<Rightarrow> TcpConnection_new, mu)]\<rparr>"
proof -
  obtain acc new where a: "on_accepted res (xs_acceptor x) = Some (acc, new)"
    using assms by (auto simp: exchange_accept_def bind_eq_Some_conv)
  show thesis
  proof (cases new)
    case None
    with a assms show thesis by (intro that(1) [of acc]) (simp_all add: exchange_accept_def)
  next
    case (Some ic)
    obtain i conn where ic: "ic = (i, conn)" by (cases ic)
    obtain sm mu where s: "on_accept (cfg_hmac_enabled (session_config (xs_config x))) (hmac_key_bytes (xs_config x)) env
                (sv_sessions (xs_server x)) = (sm, mu)" by fastforce
    with a Some ic assms show thesis
      by (intro that(2) [of acc i conn sm mu]) (simp_all add: exchange_accept_def)
  qed
qed

lemma exchange_server_reach:
  assumes "exchange_reach hmac x\<^sub>0 x" and start: "server_reach hmac h cfg (xs_server x\<^sub>0)"
  shows "server_reach hmac h cfg (xs_server x)"
  using assms(1)
proof (induction rule: exchange_reach.induct)
  case x_start
  show ?case by (rule start)
next
  case (x_accept x env res x')
  from x_accept.hyps(2) show ?case
  proof (cases rule: exchange_accept_cases)
    case (2 acc i conn sm mu)
    have "sm = fst (on_accept (cfg_hmac_enabled (session_config (xs_config x))) (hmac_key_bytes (xs_config x)) env
                (sv_sessions (xs_server x)))" using 2(2) by simp
    then show ?thesis unfolding 2(3) using sv_accept [OF x_accept.IH x_accept.hyps(4)] by simp
  qed (use x_accept.IH in simp)
next
  case (x_arrive x conn chunk)
  then show ?case by (auto simp: conn_arrive_def split: option.splits)
next
  case (x_start_write x conn)
  then show ?case by (auto simp: conn_start_write_def split: option.splits)
next
  case (x_write_some x conn k n)
  then show ?case by (auto simp: conn_write_some_def split: option.splits)
next
  case (x_handle x env ptr conn x')
  from x_handle.hyps(2) show ?case
  proof (cases rule: conn_handler_cases)
    case 3
    then show ?thesis using x_handle.IH by (rule close_conn_reach)
  next
    case (4 c c' u m sv out)
    from sv_receive [OF x_handle.IH 4(5) x_handle.hyps(3-5)] 4(6) show ?thesis by simp
  qed (use x_handle.IH in simp_all)
next
  case (x_error x env conn x')
  from x_error.hyps(2) x_error.IH show ?case by (rule close_conn_reach)
next
  case (x_tick x env x')
  then show ?case using sv_tick by (fastforce simp: exchange_tick_def bind_eq_Some_conv)
next
  case (x_iterate x env now clk ts x')
  then show ?case using sv_iterate by (fastforce simp: exchange_iterate_def bind_eq_Some_conv)
next
  case (x_snapshot x dclk ch sv)
  then show ?case using sv_snapshot [OF x_snapshot.IH] by simp
next
  case (x_instdef x iclk sv)
  then show ?case using sv_instdef [OF x_instdef.IH] by simp
qed

end
