(* ===== verification/Exchange_Lifecycle.thy ===== *)
theory Exchange_Lifecycle
  imports Exchange_Main
begin

text \<open>
  The life of the whole program: what it takes to start, that every session has an open connection of its
  own as long as it lives, and what the shutdown sequence leaves behind.
\<close>

section \<open>Session ids under the session manager's operations\<close>

definition session_ids :: "SessionManager \<Rightarrow> 64 word set" where
  "session_ids m = fst ` set (sm_sessions m)"

lemma ids_put: "findSession u m = Some s \<Longrightarrow> session_ids (put_session u s' m) = session_ids m"
  unfolding session_ids_def put_session_def findSession_def
  by (metis SessionManager.select_convs(1) SessionManager.surjective SessionManager.update_convs(1) map_of_SomeD set_map update_keys)

lemma ids_deliver: "deliver hmac u i m = Some (m', out) \<Longrightarrow> session_ids m' = session_ids m"
  by (cases "findSession u m") (auto simp: deliver_def bind_eq_Some_conv ids_put)

lemma ids_remove: "session_ids (removeSession u m) = session_ids m - {u}"
proof (cases "map_of (sm_sessions m) u")
  case None
  then have "removeSession u m = m" by (simp add: removeSession_def)
  moreover have "u \<notin> session_ids m" using None by (simp add: session_ids_def map_of_eq_None_iff)
  ultimately show ?thesis by simp
next
  case (Some s)
  then show ?thesis by (auto simp: removeSession_def session_ids_def AList.delete_eq image_iff)
qed

lemma disconnect_total:
  "\<exists>m' out. on_disconnect env u m = Some (m', out) \<and> session_ids m' = session_ids m - {u} \<and> next_uuid m' = next_uuid m"
proof (cases "findSession u m")
  case None
  then show ?thesis by (simp add: on_disconnect_def ids_remove) (simp add: removeSession_def split: option.splits)
next
  case (Some s)
  have n: "next_uuid (removeSession u m1) = next_uuid m1" for m1 by (simp add: removeSession_def split: option.splits)
  show ?thesis
    using Some ids_put [OF Some] by (simp add: on_disconnect_def session_terminate_eq ids_remove n)
      (simp add: put_session_def)
qed

lemma ids_disconnect:
  "on_disconnect env u m = Some (m', out) \<Longrightarrow> session_ids m' = session_ids m - {u} \<and> next_uuid m' = next_uuid m"
  using disconnect_total [of env u m] by auto

lemma ids_tick: "onTimerTick env m = Some (m', outs) \<Longrightarrow> session_ids m' \<subseteq> session_ids m"
  by (force simp: onTimerTick_def tick_sessions_eq session_ids_def fold_delete)

lemma ids_accept:
  assumes "on_accept en key env m = (m', mu)"
  shows "mu = None \<and> m' = m \<or> mu = Some (next_uuid m) \<and> session_ids m' = insert (next_uuid m) (session_ids m) \<and>
    next_uuid m' = next_uuid m + 1"
proof -
  obtain m1 r where c: "createSession env m = (m1, r)" by fastforce
  show ?thesis
  proof (cases "max_sessions m \<le> length (sm_sessions m)")
    case True
    then show ?thesis using assms by (simp add: on_accept_def createSession_def)
  next
    case False
    then have m1: "m1 = m\<lparr>next_uuid := next_uuid m + 1, sm_sessions := AList.update (next_uuid m) (Session_new (next_uuid m) env) (sm_sessions m)\<rparr>"
      and r: "r = Some (Session_new (next_uuid m) env)"
      using c by (auto simp: createSession_def Let_def)
    let ?s = "if en then setHmacKey key (setHmacEnabled True (Session_new (next_uuid m) env)) else Session_new (next_uuid m) env"
    have u: "sess_uuid ?s = next_uuid m" by (simp add: setHmacKey_def setHmacEnabled_def Session_new_def)
    then have m': "m' = put_session (next_uuid m) ?s m1" "mu = Some (next_uuid m)"
      using assms c r by (auto simp: on_accept_def Let_def)
    have "findSession (next_uuid m) m1 = Some (Session_new (next_uuid m) env)" by (simp add: findSession_def m1 update_conv)
    then have "session_ids m' = session_ids m1" unfolding m' by (rule ids_put)
    also have "\<dots> = insert (next_uuid m) (session_ids m)" by (simp add: session_ids_def m1 dom_update)
    finally show ?thesis using m' by (simp add: put_session_def m1)
  qed
qed

section \<open>The table of connections\<close>

text \<open>Of a connection only its number, whether it is closed, and its session matter here.\<close>

definition shape :: "Exchange \<Rightarrow> (nat \<times> bool \<times> 64 word option) list" where
  "shape x = map (\<lambda>(conn, c, mu). (conn, tc_closed c, mu)) (xs_conns x)"

lemma shape_keys: "map fst (shape x) = map fst (xs_conns x)"
  by (simp add: shape_def comp_def case_prod_beta)

lemma sends_closed [simp]: "tc_closed (fold tcp_send ds c) = tc_closed c"
  by (induction ds arbitrary: c) (simp_all add: tcp_send_def)

lemma shape_write [simp]: "shape (write_out uo x) = shape x"
  by (auto simp: shape_def write_out_def split: if_split_asm)

lemma shape_writes [simp]: "shape (fold write_out outs x) = shape x"
  by (induction outs arbitrary: x) simp_all

lemma shape_server [simp]: "shape (x\<lparr>xs_server := sv\<rparr>) = shape x" "shape (with_sm sm x) = shape x"
  "shape (x\<lparr>xs_acceptor := acc\<rparr>) = shape x"
  by (simp_all add: shape_def with_sm_def)

lemma shape_put:
  "shape (put_conn conn c x) = map (\<lambda>(k, b, mu). (k, if k = conn then tc_closed c else b, mu)) (shape x)"
  by (auto simp: shape_def put_conn_def)

lemma shape_put_same:
  assumes "distinct (map fst (shape x))" and "map_of (xs_conns x) conn = Some (c, mu)" and "tc_closed c' = tc_closed c"
  shows "shape (put_conn conn c' x) = shape x"
proof -
  have "tc_closed c' = b" if "(conn, b, mu') \<in> set (shape x)" for b mu'
  proof -
    from assms(2) have "(conn, tc_closed c, mu) \<in> set (shape x)" by (force simp: shape_def dest: map_of_SomeD)
    with that assms(1,3) show ?thesis by (metis eq_key_imp_eq_value prod.inject)
  qed
  then have "(case e of (k, b, mu) \<Rightarrow> (k, if k = conn then tc_closed c' else b, mu)) = e" if "e \<in> set (shape x)" for e
    using that by (cases e) auto
  then show ?thesis unfolding shape_put by (intro map_idI)
qed

text \<open>
  Connections have distinct numbers and distinct sessions, whose UUIDs have been given out; and every
  session that is alive belongs to an open connection.
\<close>

definition owns :: "(nat \<times> bool \<times> 64 word option) list \<Rightarrow> nat \<Rightarrow> 64 word \<Rightarrow> bool" where
  "owns S k u \<longleftrightarrow> (\<exists>b. (k, b, Some u) \<in> set S)"

definition conns_inv :: "(nat \<times> bool \<times> 64 word option) list \<Rightarrow> 64 word set \<Rightarrow> 64 word \<Rightarrow> bool" where
  "conns_inv S K n \<longleftrightarrow> distinct (map fst S) \<and> (\<forall>k k' u. owns S k u \<and> owns S k' u \<longrightarrow> k = k') \<and>
     (\<forall>k u. owns S k u \<longrightarrow> unat u < unat n) \<and> (\<forall>u\<in>K. \<exists>k. (k, False, Some u) \<in> set S)"

lemma conns_invD:
  assumes "conns_inv S K n"
  shows "distinct (map fst S)" and "owns S k u \<Longrightarrow> owns S k' u \<Longrightarrow> k = k'" and "owns S k u \<Longrightarrow> unat u < unat n"
    and "u \<in> K \<Longrightarrow> \<exists>k. (k, False, Some u) \<in> set S"
  using assms unfolding conns_inv_def by blast+

lemma conns_inv_mono: "conns_inv S K n \<Longrightarrow> K' \<subseteq> K \<Longrightarrow> conns_inv S K' n"
  unfolding conns_inv_def by blast

definition mark_closed :: "nat \<Rightarrow> (nat \<times> bool \<times> 64 word option) list \<Rightarrow> (nat \<times> bool \<times> 64 word option) list" where
  "mark_closed conn S = map (\<lambda>(k, b, mu). (k, k = conn \<or> b, mu)) S"

lemma mark_closed_keys: "map fst (mark_closed conn S) = map fst S"
  by (simp add: mark_closed_def comp_def case_prod_beta)

lemma mark_closed_mem:
  "(k, b', mu) \<in> set (mark_closed conn S) \<longleftrightarrow> (\<exists>b. (k, b, mu) \<in> set S \<and> b' = (k = conn \<or> b))"
  by (force simp: mark_closed_def)

lemma mark_closed_owns: "owns (mark_closed conn S) k u = owns S k u"
  by (auto simp: owns_def mark_closed_mem)

lemma conns_inv_close:
  assumes inv: "conns_inv S K n" and "(conn, False, mu) \<in> set S" and "K' = (case mu of None \<Rightarrow> K | Some u \<Rightarrow> K - {u})"
  shows "conns_inv (mark_closed conn S) K' n"
proof -
  have uniq: "mu' = mu" if "(conn, b, mu') \<in> set S" for b mu'
    using eq_key_imp_eq_value [OF conns_invD(1) [OF inv] that assms(2)] by simp
  have "\<exists>k. (k, False, Some u) \<in> set (mark_closed conn S)" if u: "u \<in> K'" for u
  proof -
    from u assms(3) have "u \<in> K" "mu \<noteq> Some u" by (auto split: option.splits)
    then obtain k where k: "(k, False, Some u) \<in> set S" using conns_invD(4) [OF inv] by blast
    with uniq \<open>mu \<noteq> Some u\<close> have "k \<noteq> conn" by blast
    with k show ?thesis unfolding mark_closed_mem by auto
  qed
  then show ?thesis using conns_invD(1-3) [OF inv] unfolding conns_inv_def mark_closed_owns mark_closed_keys by blast
qed

lemma owns_snoc: "owns (S @ [(conn, b, mu)]) k u \<longleftrightarrow> owns S k u \<or> k = conn \<and> mu = Some u"
  by (auto simp: owns_def)

lemma conns_inv_accept:
  assumes inv: "conns_inv S K n" and "conn \<notin> fst ` set S" and "Suc (unat n) < 2 ^ 64"
  shows "conns_inv (S @ [(conn, b, None)]) K n" and "conns_inv (S @ [(conn, False, Some n)]) (insert n K) (n + 1)"
proof -
  have new: "\<not> owns S k n" for k using conns_invD(3) [OF inv, of k n] by blast
  have k: "distinct (map fst (S @ [(conn, c, mu)]))" for c mu using conns_invD(1) [OF inv] assms(2) by simp
  show "conns_inv (S @ [(conn, b, None)]) K n"
    unfolding conns_inv_def owns_snoc using k conns_invD(2-4) [OF inv] by (simp only: set_append) blast
  have "unat (n + 1) = Suc (unat n)" using assms(3) by (rule unat_Suc64)
  moreover have "\<exists>k. (k, False, Some u) \<in> set (S @ [(conn, False, Some n)])" if "u \<in> insert n K" for u
    using that conns_invD(4) [OF inv, of u] by auto
  ultimately show "conns_inv (S @ [(conn, False, Some n)]) (insert n K) (n + 1)"
    unfolding conns_inv_def owns_snoc using k conns_invD(2,3) [OF inv] new by (auto simp: less_Suc_eq)
qed

section \<open>The invariant of the exchange\<close>

abbreviation live_sessions :: "Exchange \<Rightarrow> 64 word set" where
  "live_sessions x \<equiv> session_ids (sv_sessions (xs_server x))"

abbreviation uuid_counter :: "Exchange \<Rightarrow> 64 word" where
  "uuid_counter x \<equiv> next_uuid (sv_sessions (xs_server x))"

definition wires_ok :: "Exchange \<Rightarrow> bool" where
  "wires_ok x \<longleftrightarrow> (\<forall>conn c mu. (conn, c, mu) \<in> set (xs_conns x) \<longrightarrow> writes_ok c)"

definition exchange_inv :: "Exchange \<Rightarrow> bool" where
  "exchange_inv x \<longleftrightarrow> conns_inv (shape x) (live_sessions x) (uuid_counter x) \<and>
     acc_connections (xs_acceptor x) = fst ` set (xs_conns x) \<and> wires_ok x"

lemma writes_ok_sends: "writes_ok c \<Longrightarrow> writes_ok (fold tcp_send ds c)"
  by (induction ds arbitrary: c) (simp_all add: writes_ok_send)

lemma writes_ok_out: "tc_out c' = tc_out c \<Longrightarrow> writes_ok c' = writes_ok c"
  by (simp add: tc_out_def writes_ok_def)

lemma frames_write: "wires_ok x \<Longrightarrow> wires_ok (write_out uo x)"
  by (fastforce simp: wires_ok_def write_out_def intro: writes_ok_sends)

lemma frames_put:
  assumes "wires_ok x" and "map_of (xs_conns x) conn = Some (c, mu)" and "writes_ok c \<Longrightarrow> writes_ok c'"
  shows "wires_ok (put_conn conn c' x)"
proof -
  have "writes_ok c'" using assms(1,3) map_of_SomeD [OF assms(2)] by (auto simp: wires_ok_def)
  with assms(1) show ?thesis by (fastforce simp: wires_ok_def put_conn_def)
qed

lemma frames_sm: "wires_ok (with_sm sm x) = wires_ok x"
  by (simp add: wires_ok_def)

lemma inv_write: "exchange_inv x \<Longrightarrow> exchange_inv (write_out uo x)"
  by (simp add: exchange_inv_def frames_write) (force simp: write_out_def)

lemma inv_writes: "exchange_inv x \<Longrightarrow> exchange_inv (fold write_out outs x)"
  by (induction outs arbitrary: x) (simp_all add: inv_write)

lemma inv_put:
  assumes "exchange_inv x" and "map_of (xs_conns x) conn = Some (c, mu)" and "tc_closed c' = tc_closed c" and "writes_ok c \<Longrightarrow> writes_ok c'"
  shows "exchange_inv (put_conn conn c' x)"
proof -
  have "shape (put_conn conn c' x) = shape x"
    using shape_put_same [OF _ assms(2,3)] conns_invD(1) assms(1) unfolding exchange_inv_def by blast
  moreover have "fst ` set (xs_conns (put_conn conn c' x)) = fst ` set (xs_conns x)" by (force simp: put_conn_def)
  ultimately show ?thesis using assms(1) frames_put [OF _ assms(2,4)] by (simp add: exchange_inv_def)
qed

lemma inv_server:
  assumes "exchange_inv x" and "session_ids (sv_sessions sv) \<subseteq> live_sessions x" and "next_uuid (sv_sessions sv) = uuid_counter x"
  shows "exchange_inv (x\<lparr>xs_server := sv\<rparr>)"
  using assms conns_inv_mono by (auto simp: exchange_inv_def wires_ok_def)

lemma with_sm_update: "with_sm sm x = x\<lparr>xs_server := with_sessions sm (xs_server x)\<rparr>"
  by (simp add: with_sm_def)

lemma with_sessions_sel [simp]: "sv_sessions (with_sessions sm sv) = sm"
  by (simp add: with_sessions_def)

text \<open>Closing a connection, its session's disconnect included.\<close>

lemma close_conn_step:
  assumes inv: "conns_inv (shape x) (live_sessions x) (uuid_counter x)"
  shows "\<exists>x'. close_conn env conn x = Some x' \<and> conns_inv (shape x') (live_sessions x') (uuid_counter x') \<and>
    xs_acceptor x' = xs_acceptor x \<and> map fst (xs_conns x') = map fst (xs_conns x) \<and>
    shape x' = mark_closed conn (shape x) \<and> (wires_ok x \<longrightarrow> wires_ok x')"
proof -
  have idle: "mark_closed conn (shape x) = shape x"
    if "\<And>b mu. (conn, b, mu) \<in> set (shape x) \<Longrightarrow> b"
    unfolding mark_closed_def using that by (intro map_idI) (auto split: if_split_asm)
  have in_shape: "(k, b, mu) \<in> set (shape x) \<longleftrightarrow> (\<exists>c. (k, c, mu) \<in> set (xs_conns x) \<and> b = tc_closed c)" for k b mu
    by (force simp: shape_def)
  have dist: "distinct (map fst (xs_conns x))" using conns_invD(1) [OF inv] by (simp add: shape_keys)
  have put_keys: "map fst (xs_conns (put_conn conn c x)) = map fst (xs_conns x)" for c
    by (simp add: put_conn_def comp_def case_prod_beta)
  have write_keys: "map fst (xs_conns (write_out uo y)) = map fst (xs_conns y)" for uo y
    by (simp add: write_out_def comp_def case_prod_beta)
  show ?thesis
  proof (cases "map_of (xs_conns x) conn")
    case None
    then have "b" if "(conn, b, mu) \<in> set (shape x)" for b mu using that unfolding in_shape by (force simp: map_of_eq_None_iff)
    then have "mark_closed conn (shape x) = shape x" by (rule idle)
    with None inv show ?thesis by (simp add: close_conn_def)
  next
    case (Some cm)
    obtain c mu where cm: "cm = (c, mu)" by (cases cm)
    have uniq: "c' = c \<and> mu' = mu" if "(conn, c', mu') \<in> set (xs_conns x)" for c' mu'
      using map_of_is_SomeI [OF dist that] Some cm by simp
    show ?thesis
    proof (cases "tc_closed c")
      case True
      then have "b" if "(conn, b, mu) \<in> set (shape x)" for b mu using that uniq unfolding in_shape by blast
      then have "mark_closed conn (shape x) = shape x" by (rule idle)
      with Some cm True inv show ?thesis by (simp add: close_conn_def tcp_close_def)
    next
      case False
      let ?y = "put_conn conn (c\<lparr>tc_closed := True\<rparr>) x"
      have y: "shape ?y = mark_closed conn (shape x)" by (auto simp: shape_put mark_closed_def split: if_split_asm)
      have "writes_ok (c\<lparr>tc_closed := True\<rparr>) = writes_ok c" by (rule writes_ok_out) (simp add: tc_out_def)
      then have fr: "wires_ok x \<longrightarrow> wires_ok ?y" using frames_put Some cm by blast
      have at: "(conn, False, mu) \<in> set (shape x)" unfolding in_shape using map_of_SomeD [OF Some] cm False by auto
      show ?thesis
      proof (cases mu)
        case None
        with conns_inv_close [OF inv at refl] Some cm False y put_keys fr show ?thesis
          by (simp add: close_conn_def tcp_close_def)
      next
        case mu: (Some u)
        obtain sm out where d: "on_disconnect env u (sv_sessions (xs_server x)) = Some (sm, out)"
          "session_ids sm = live_sessions x - {u}" "next_uuid sm = uuid_counter x" using disconnect_total by blast
        let ?z = "write_out (u, out) (with_sm sm ?y)"
        have "close_conn env conn x = Some ?z" using Some cm False mu d(1) by (simp add: close_conn_def tcp_close_def)
        moreover have "wires_ok x \<longrightarrow> wires_ok ?z" using fr frames_write [of "with_sm sm ?y" "(u, out)"] unfolding frames_sm by blast
        moreover have "shape ?z = mark_closed conn (shape x)" using y by simp
        moreover have "conns_inv (mark_closed conn (shape x)) (live_sessions ?z) (uuid_counter ?z)"
          using conns_inv_close [OF inv at refl] mu d(2,3) by simp
        moreover have "map fst (xs_conns ?z) = map fst (xs_conns x)" by (simp only: write_keys with_sm_server put_keys)
        ultimately show ?thesis by (intro exI [where x = ?z]) simp
      qed
    qed
  qed
qed

lemma inv_close:
  assumes "exchange_inv x" and "close_conn env conn x = Some x'"
  shows "exchange_inv x'"
proof -
  have "conns_inv (shape x) (live_sessions x) (uuid_counter x)" using assms(1) by (simp add: exchange_inv_def)
  from close_conn_step [OF this, of env conn] assms show ?thesis
    by (auto simp: exchange_inv_def simp flip: set_map)
qed

lemma accepted_conns:
  assumes "on_accepted res a = Some (a', new)"
  shows "acc_connections a' = (case new of None \<Rightarrow> acc_connections a | Some (i, conn) \<Rightarrow> insert conn (acc_connections a))"
    and "new = Some (i, conn) \<Longrightarrow> res = Some conn"
  using assms by (auto simp: on_accepted_def do_accept_def bind_eq_Some_conv split: option.splits if_splits)

lemma inv_accept:
  assumes inv: "exchange_inv x" and "exchange_accept env res x = Some x'"
    and fresh: "\<forall>conn. res = Some conn \<longrightarrow> conn \<notin> fst ` set (xs_conns x)" and "Suc (unat (uuid_counter x)) < 2 ^ 64"
  shows "exchange_inv x'"
  using assms(2)
proof (cases rule: exchange_accept_cases)
  case (1 acc)
  with inv accepted_conns(1) [OF 1(1)] show ?thesis by (simp add: exchange_inv_def wires_ok_def)
next
  case (2 acc i conn sm mu)
  have res: "res = Some conn" using accepted_conns(2) [OF 2(1) refl] .
  let ?c = "case mu of None \<Rightarrow> fst (tcp_close TcpConnection_new) | Some _ \<Rightarrow> TcpConnection_new"
  have sh: "shape x' = shape x @ [(conn, tc_closed ?c, mu)]" by (simp add: 2(3) shape_def with_sm_def)
  have new: "conn \<notin> fst ` set (shape x)" using fresh res shape_keys [of x] by (metis set_map)
  have "tc_out ?c = tc_out TcpConnection_new" by (simp add: tc_out_def tcp_close_def split: option.splits)
  then have "writes_ok ?c" using writes_ok_new writes_ok_out by blast
  moreover have "xs_conns x' = xs_conns x @ [(conn, ?c, mu)]" "sv_sessions (xs_server x') = sm" "xs_acceptor x' = acc"
    by (simp_all add: 2(3))
  moreover have cl: "tc_closed ?c = (mu = None)" by (simp add: tcp_close_def TcpConnection_new_def split: option.splits)
  have "conns_inv (shape x') (session_ids sm) (next_uuid sm)"
    using ids_accept [OF 2(2)] conns_inv_accept [OF _ new assms(4)] inv
    unfolding sh cl exchange_inv_def by auto
  ultimately show ?thesis using inv accepted_conns(1) [OF 2(1)] by (auto simp: exchange_inv_def wires_ok_def)
qed

lemma iteration_ids:
  assumes "engine_iteration env now clk ts sv = Some (sv', outs)" and "server_ok hmac sv"
  shows "session_ids (sv_sessions sv') = session_ids (sv_sessions sv) \<and> next_uuid (sv_sessions sv') = next_uuid (sv_sessions sv)"
proof -
  obtain e ds evs where "spec_queue FullMatchingEngine now (command_queue (sv_gateway sv)) (sv_engine sv) = (e, ds, evs)"
    by (metis prod_cases3)
  from engine_iteration_ok [OF assms(2) this, of env clk ts] assms(1) obtain rs sm where
    r: "route_responses env rs (sv_sessions sv) = (sm, outs)" and "sv_sessions sv' = sm" by fastforce
  moreover have "sm_ok hmac (sv_sessions sv)" using assms(2) by (simp add: server_ok_def)
  from route_responses_ok [OF this r] have "next_uuid sm = next_uuid (sv_sessions sv)"
    "set (map fst (sm_sessions sm)) = set (map fst (sm_sessions (sv_sessions sv)))" by simp_all
  ultimately show ?thesis by (simp add: session_ids_def)
qed

lemma exchange_reach_inv:
  assumes "exchange_reach hmac x\<^sub>0 x" and start: "server_reach hmac h cfg (xs_server x\<^sub>0)" "exchange_inv x\<^sub>0"
  shows "exchange_inv x"
  using assms(1)
proof (induction rule: exchange_reach.induct)
  case x_start
  show ?case by (rule start(2))
next
  case (x_accept x env res x')
  from inv_accept [OF x_accept.IH x_accept.hyps(2-4)] show ?case .
next
  case (x_arrive x conn chunk)
  have "writes_ok (c\<lparr>tc_inbox := b\<rparr>) = writes_ok c" for c b by (rule writes_ok_out) (simp add: tc_out_def)
  with x_arrive show ?case using inv_put by (auto simp: conn_arrive_def split: option.splits)
next
  case (x_start_write x conn)
  have "tc_closed (start_write c) = tc_closed c" for c by (simp add: start_write_def Let_def split: list.splits)
  with x_start_write show ?case using inv_put writes_ok_start by (auto simp: conn_start_write_def split: option.splits)
next
  case (x_write_some x conn k n)
  have "tc_closed (write_some k n c) = tc_closed c" for c by (simp add: write_some_def split: prod.splits)
  with x_write_some show ?case using inv_put writes_ok_some by (auto simp: conn_write_some_def split: option.splits)
next
  case (x_handle x env ptr conn x')
  from x_handle.hyps(2) show ?case
  proof (cases rule: conn_handler_cases)
    case 1
    with x_handle.IH show ?thesis by simp
  next
    case (2 c c' mu)
    from inv_put [OF x_handle.IH 2(1,3)] writes_ok_out [OF 2(4)] 2(5) show ?thesis by simp
  next
    case 3
    from inv_close [OF x_handle.IH 3] show ?thesis .
  next
    case (4 c c' u m sv out)
    then have "session_ids (sv_sessions sv) = live_sessions x" "next_uuid (sv_sessions sv) = uuid_counter x"
      using ids_deliver next_kept(1) by (fastforce simp: server_receive_def bind_eq_Some_conv)+
    then have i: "exchange_inv (x\<lparr>xs_server := sv\<rparr>)" by (intro inv_server [OF x_handle.IH]) simp_all
    from inv_put [OF i _ 4(3)] writes_ok_out [OF 4(4)] 4(1) have "exchange_inv (put_conn conn c' (x\<lparr>xs_server := sv\<rparr>))" by simp
    from inv_write [OF this] show ?thesis by (simp add: 4(6))
  qed
next
  case (x_error x env conn x')
  from inv_close [OF x_error.IH x_error.hyps(2)] show ?case .
next
  case (x_tick x env x')
  then obtain sm outs where t: "onTimerTick env (sv_sessions (xs_server x)) = Some (sm, outs)"
    and x': "x' = fold write_out outs (with_sm sm x)" by (auto simp: exchange_tick_def bind_eq_Some_conv)
  have "exchange_inv (with_sm sm x)" unfolding with_sm_update
    using ids_tick [OF t] next_kept(2) [OF t] by (intro inv_server [OF x_tick.IH]) simp_all
  then show ?case unfolding x' by (rule inv_writes)
next
  case (x_iterate x env now clk ts x')
  then obtain sv outs where t: "engine_iteration env now clk ts (xs_server x) = Some (sv, outs)"
    and x': "x' = fold write_out outs (x\<lparr>xs_server := sv\<rparr>)" by (auto simp: exchange_iterate_def bind_eq_Some_conv)
  have "server_ok hmac (xs_server x)" using exchange_server_reach [OF x_iterate.hyps(1) start(1)] by (rule server_reach_ok)
  from iteration_ids [OF t this] have "exchange_inv (x\<lparr>xs_server := sv\<rparr>)" by (intro inv_server [OF x_iterate.IH]) simp_all
  then show ?case unfolding x' by (rule inv_writes)
next
  case (x_snapshot x dclk ch sv)
  then have "sv_sessions sv = sv_sessions (xs_server x)"
    by (auto simp: snapshot_iteration_def bind_eq_Some_conv split: option.splits)
  then show ?case by (intro inv_server [OF x_snapshot.IH]) simp_all
next
  case (x_instdef x iclk sv)
  then have "sv_sessions sv = sv_sessions (xs_server x)" by (auto simp: instdef_iteration_def)
  then show ?case by (intro inv_server [OF x_instdef.IH]) simp_all
qed

section \<open>Trading status of all instruments\<close>

lemma fold_status_find:
  "im_ok m \<Longrightarrow> im_ok (fold (\<lambda>inst. setTradingStatus (inst_security_id inst) st) insts m) \<and>
     findBySecurityId j (fold (\<lambda>inst. setTradingStatus (inst_security_id inst) st) insts m) =
       (if j \<in> inst_security_id ` set insts then map_option (\<lambda>i. i\<lparr>trading_status := st\<rparr>) (findBySecurityId j m)
        else findBySecurityId j m)"
proof (induction insts arbitrary: m)
  case (Cons i insts)
  let ?m = "setTradingStatus (inst_security_id i) st m"
  have "im_ok ?m" using Cons.prems by (rule setTradingStatus_ok)
  from Cons.IH [OF this] setTradingStatus_find [OF Cons.prems, of j "inst_security_id i" st]
  show ?case by (auto simp: option.map_comp comp_def)
qed simp

lemma set_all_status_ok: "im_ok m \<Longrightarrow> im_ok (set_all_status st m)"
  unfolding set_all_status_def using fold_status_find by blast

lemma set_all_status_all:
  assumes ok: "im_ok m" and "inst \<in> set (im_instruments (set_all_status st m))"
  shows "trading_status inst = st"
proof -
  let ?j = "inst_security_id inst"
  have "findBySecurityId ?j (set_all_status st m) = Some inst"
    using find_found [OF set_all_status_ok [OF ok]] assms(2) by blast
  moreover have "findBySecurityId ?j (set_all_status st m) = (if ?j \<in> inst_security_id ` set (im_instruments m)
      then map_option (\<lambda>i. i\<lparr>trading_status := st\<rparr>) (findBySecurityId ?j m) else findBySecurityId ?j m)"
    unfolding set_all_status_def using fold_status_find [OF ok] by blast
  moreover have "?j \<in> inst_security_id ` set (im_instruments m)" if "findBySecurityId ?j m = Some i" for i
    using find_found [OF ok] that by (metis imageI)
  ultimately show ?thesis by (auto split: if_splits)
qed

lemma reach_instruments:
  "server_reach hmac h cfg sv \<Longrightarrow>
     sv_instruments sv = set_all_status Open (set_all_status PreOpen (loadFromConfig (instruments cfg) (channels cfg)))"
proof (induction rule: server_reach.induct)
  case (sv_iterate sv env now clk ts sv' outs)
  then show ?case by (auto simp: engine_iteration_def bind_eq_Some_conv Let_def case_prod_beta split: if_splits)
qed (auto simp: server_start_def with_sessions_def server_receive_def snapshot_iteration_def instdef_iteration_def
    bind_eq_Some_conv Let_def split: if_splits option.splits)

section \<open>Starting\<close>

lemma overrides_keep [simp]:
  "network (apply_overrides args cfg) = network cfg" "instruments (apply_overrides args cfg) = instruments cfg"
  "channels (apply_overrides args cfg) = channels cfg" "session_config (apply_overrides args cfg) = session_config cfg"
  by (simp_all add: apply_overrides_def Let_def)

lemma fallback_keep [simp]:
  "network (fallback_mode cfg) = network cfg" "instruments (fallback_mode cfg) = instruments cfg"
  "channels (fallback_mode cfg) = channels cfg" "session_config (fallback_mode cfg) = session_config cfg"
  by (simp_all add: fallback_mode_def)

lemma server_start_fallback: "server_start h (fallback_mode cfg) = server_start h cfg"
  by (simp add: server_start_def fallback_mode_def)

lemma loaded_valid: "loadConfig y files path = Inr cfg \<Longrightarrow> validateConfig cfg = Inr ()"
  by (auto simp: loadConfig_iff default_config_valid split: option.splits)

lemma started_instruments_ok:
  assumes "validateConfig cfg = Inr ()"
  shows "im_ok (loadFromConfig (instruments cfg) (channels cfg))"
  using loadFromConfig_ok [OF valid_distinct [OF assms]] by blast

definition known_mode :: "ExchangeConfig \<Rightarrow> bool" where
  "known_mode cfg \<longleftrightarrow> mode (engine cfg) \<in> {''full_matching'', ''synthetic''}"

lemma server_start_mode: "(\<exists>sv. server_start h cfg = Some sv) \<longleftrightarrow> known_mode cfg"
  by (auto simp: server_start_def known_mode_def Let_def)

lemma main_started:
  "exchange_main y files listens multicasts hw h argv = Started x \<longleftrightarrow>
     (\<exists>args cfg sv. parseArgs argv AppArgs_default = Some args \<and> loadConfig y files (config_path args) = Inr cfg \<and>
        server_start h (apply_overrides args cfg) = Some sv \<and>
        listens (tcp_listen_address (network cfg)) (tcp_listen_port (network cfg)) \<and>
        (\<forall>cc\<in>set (channels cfg). \<forall>f\<in>{cc_incremental_feed cc, cc_snapshot_feed cc, cc_instrument_def_feed cc}.
           multicasts (address_a f) (port_a f) \<and> multicasts (address_b f) (port_b f)) \<and>
        x = \<lparr>xs_config = fallback_mode (apply_overrides args cfg), xs_server = sv,
             xs_acceptor = \<lparr>acc_pool = \<lparr>io_contexts = nat (io_threads (network cfg)), work_guards = nat (io_threads (network cfg)),
                  io_threads_running = nat (io_threads (network cfg)), next_io_context = 1 mod nat (io_threads (network cfg))\<rparr>,
                acc_connections = {}, acc_waiting = Some 0, acc_stopped = False\<rparr>,
             xs_conns = [], xs_acceptor_thread = True, xs_md_io_thread = True, xs_engine_thread = True, xs_timer_thread = True\<rparr>)"
proof (cases "parseArgs argv AppArgs_default")
  case None
  then show ?thesis by (simp add: exchange_main_def)
next
  case (Some args)
  show ?thesis
  proof (cases "loadConfig y files (config_path args)")
    case (Inl e)
    with Some show ?thesis by (simp add: exchange_main_def)
  next
    case (Inr cfg)
    then have v: "validateConfig cfg = Inr ()" by (rule loaded_valid)
    then have t: "1 \<le> io_threads (network cfg)" unfolding validateConfig_iff by blast
    then have n: "nat (io_threads (network cfg)) \<noteq> 0" by simp
    let ?im = "set_all_status PreOpen (loadFromConfig (instruments cfg) (channels cfg))"
    let ?open = "\<forall>cc\<in>set (channels cfg). \<forall>f\<in>{cc_incremental_feed cc, cc_snapshot_feed cc, cc_instrument_def_feed cc}.
           multicasts (address_a f) (port_a f) \<and> multicasts (address_b f) (port_b f)"
    have md: "MarketDataPublisher_create multicasts (channels cfg) ?im =
        (if ?open then Some (MarketDataPublisher_new (channels cfg) ?im) else None)"
      using MarketDataPublisher_create_iff [of multicasts "channels cfg" ?im] by (cases "MarketDataPublisher_create multicasts (channels cfg) ?im") auto
    have sv: "sv\<lparr>sv_md := mdp_start True ?im (MarketDataPublisher_new (channels cfg) ?im)\<rparr> = sv"
      if "server_start h (apply_overrides args cfg) = Some sv" for sv
      using that by (auto simp: server_start_def Let_def split: if_splits)
    show ?thesis
    proof (cases ?open)
      case True
      with Some Inr v n md sv show ?thesis
        by (cases "server_start h (apply_overrides args cfg)")
          (auto simp: exchange_main_def Let_def acceptor_start_def do_accept_def TcpAcceptor_new_def IoContextPool_new_def
             get_io_context_def pool_start_def)
    next
      case False
      with Some Inr v md show ?thesis
        by (cases "server_start h (apply_overrides args cfg)") (auto simp: exchange_main_def Let_def simp del: ball_simps)
    qed
  qed
qed

lemma server_start_sessions:
  "server_start h cfg = Some sv \<Longrightarrow> sv_sessions sv = SessionManager_new (nat (cfg_max_sessions (session_config cfg)))"
  by (auto simp: server_start_def Let_def split: if_splits)

lemma started_server_reach:
  assumes "exchange_main y files listens multicasts hw h argv = Started x"
  shows "server_reach hmac h (xs_config x) (xs_server x)" and "exchange_inv x"
    and "im_ok (loadFromConfig (instruments (xs_config x)) (channels (xs_config x)))"
proof -
  from assms obtain args cfg sv where m: "loadConfig y files (config_path args) = Inr cfg"
    "server_start h (apply_overrides args cfg) = Some sv" "xs_config x = fallback_mode (apply_overrides args cfg)" "xs_server x = sv"
    "xs_conns x = []" "acc_connections (xs_acceptor x) = {}"
    unfolding main_started by auto
  show "server_reach hmac h (xs_config x) (xs_server x)" using sv_start m(2-4) server_start_fallback by metis
  have "sm_sessions (sv_sessions sv) = []"
    using server_start_sessions [OF m(2)] by (simp add: SessionManager_new_def)
  then show "exchange_inv x"
    using m(4-6) by (simp add: exchange_inv_def conns_inv_def owns_def shape_def session_ids_def wires_ok_def)
  show "im_ok (loadFromConfig (instruments (xs_config x)) (channels (xs_config x)))"
    using started_instruments_ok [OF loaded_valid [OF m(1)]] m(3) by simp
qed

text \<open>
  C21.  When the program starts.  It gets past start-up exactly when the command line does not ask for help, the
  configuration file loads (or is missing), the engine mode after the command-line override is a known one,
  the address and port can be bound, and a multicast sender can be created for both addresses of all three feeds
  of every channel.  It then runs one I/O thread per configured thread, waits for a connection on
  the first context, has no session, and every instrument is open for trading.  The override itself is
  not validated: with \<^verbatim>\<open>--mode synthetic\<close> the program starts although no capture file is configured; nor
  are the feed addresses, so a valid configuration with a feed left out ends in an uncaught exception.
\<close>

theorem exchange_starts:
  "((\<exists>x. exchange_main y files listens multicasts hw h argv = Started x) \<longleftrightarrow>
     (\<exists>args cfg. parseArgs argv AppArgs_default = Some args \<and> loadConfig y files (config_path args) = Inr cfg \<and>
        known_mode (apply_overrides args cfg) \<and> listens (tcp_listen_address (network cfg)) (tcp_listen_port (network cfg)) \<and>
        (\<forall>cc\<in>set (channels cfg). \<forall>f\<in>{cc_incremental_feed cc, cc_snapshot_feed cc, cc_instrument_def_feed cc}.
           multicasts (address_a f) (port_a f) \<and> multicasts (address_b f) (port_b f)))) \<and>
   (\<forall>x. exchange_main y files listens multicasts hw h argv = Started x \<longrightarrow>
      server_start h (xs_config x) = Some (xs_server x) \<and>
      int (io_threads_running (acc_pool (xs_acceptor x))) = io_threads (network (xs_config x)) \<and>
      acc_waiting (xs_acceptor x) = Some 0 \<and> activeSessionCount (sv_sessions (xs_server x)) = 0 \<and>
      (\<forall>inst\<in>set (im_instruments (sv_instruments (xs_server x))). trading_status inst = Open))"
proof (intro conjI allI impI)
  show "(\<exists>x. exchange_main y files listens multicasts hw h argv = Started x) \<longleftrightarrow>
     (\<exists>args cfg. parseArgs argv AppArgs_default = Some args \<and> loadConfig y files (config_path args) = Inr cfg \<and>
        known_mode (apply_overrides args cfg) \<and> listens (tcp_listen_address (network cfg)) (tcp_listen_port (network cfg)) \<and>
        (\<forall>cc\<in>set (channels cfg). \<forall>f\<in>{cc_incremental_feed cc, cc_snapshot_feed cc, cc_instrument_def_feed cc}.
           multicasts (address_a f) (port_a f) \<and> multicasts (address_b f) (port_b f)))"
    unfolding main_started server_start_mode [of h, symmetric] by blast
next
  fix x assume st: "exchange_main y files listens multicasts hw h argv = Started x"
  then obtain args cfg sv where m: "loadConfig y files (config_path args) = Inr cfg"
    "server_start h (apply_overrides args cfg) = Some sv" "xs_config x = fallback_mode (apply_overrides args cfg)" "xs_server x = sv"
    "io_threads_running (acc_pool (xs_acceptor x)) = nat (io_threads (network cfg))" "acc_waiting (xs_acceptor x) = Some 0"
    unfolding main_started by auto
  show "server_start h (xs_config x) = Some (xs_server x)" "acc_waiting (xs_acceptor x) = Some 0" using m by (simp_all add: server_start_fallback)
  have "1 \<le> io_threads (network cfg)" using loaded_valid [OF m(1)] unfolding validateConfig_iff by blast
  then show "int (io_threads_running (acc_pool (xs_acceptor x))) = io_threads (network (xs_config x))" using m(3,5) by simp
  show "activeSessionCount (sv_sessions (xs_server x)) = 0"
    using server_start_sessions [OF m(2)] m(4) by (simp add: SessionManager_new_def activeSessionCount_def)
  show "\<forall>inst\<in>set (im_instruments (sv_instruments (xs_server x))). trading_status inst = Open"
    unfolding reach_instruments [OF started_server_reach(1) [OF st]]
    using set_all_status_all set_all_status_ok [OF started_server_reach(3) [OF st]] by blast
qed

text \<open>The example configuration, started without arguments.\<close>

definition ex_main :: "heap \<Rightarrow> Startup" where
  "ex_main h = exchange_main doc_yaml (\<lambda>p. Some (Some (example_doc example_feeds))) (\<lambda>addr port. port = 9000) (\<lambda>addr port. addr \<noteq> []) 4 h []"

lemma ex_main_started: "\<exists>x. ex_main h = Started x"
proof -
  have "known_mode example_config" "tcp_listen_port (network example_config) = 9000"
    "\<forall>cc\<in>set (channels example_config). \<forall>f\<in>{cc_incremental_feed cc, cc_snapshot_feed cc, cc_instrument_def_feed cc}.
       address_a f \<noteq> [] \<and> address_b f \<noteq> []" by code_simp+
  moreover have "parseArgs [] AppArgs_default = Some AppArgs_default" "apply_overrides AppArgs_default example_config = example_config"
    by (simp_all add: apply_overrides_def AppArgs_default_def)
  ultimately show ?thesis
    unfolding ex_main_def main_started using example_loads(1) server_start_mode [of h example_config] by fastforce
qed

theorem exchange_starts_witness:
  "\<exists>x. ex_main ex_heap = Started x \<and> acc_waiting (xs_acceptor x) = Some 0 \<and>
     int (io_threads_running (acc_pool (xs_acceptor x))) = io_threads (network (xs_config x))"
proof -
  from ex_main_started [of ex_heap] obtain x where "ex_main ex_heap = Started x" by blast
  with exchange_starts [of doc_yaml "\<lambda>p. Some (Some (example_doc example_feeds))" "\<lambda>addr port. port = 9000" "\<lambda>addr port. addr \<noteq> []" 4 ex_heap "[]"] show ?thesis
    unfolding ex_main_def by blast
qed

text \<open>
  The same configuration without feeds is loaded and validated, but the program ends in the constructor of the
  first multicast sender, if there is none for an empty address.
\<close>

lemma missing_feeds_abort:
  assumes "\<And>port. \<not> multicasts [] port"
  shows "validateConfig (example_config_of example_channel) = Inr () \<and>
    exchange_main doc_yaml (\<lambda>p. Some (Some (example_doc []))) (\<lambda>addr port. True) multicasts hw h [] = Multicast_exception"
proof -
  let ?cfg = "example_config_of example_channel"
  have v: "validateConfig ?cfg = Inr ()" by code_simp
  have "known_mode ?cfg" by code_simp
  then obtain sv where "server_start h ?cfg = Some sv" using server_start_mode by blast
  moreover have "channels ?cfg = [example_channel]" "address_a (cc_incremental_feed example_channel) = []"
    by (simp_all add: example_config_of_def example_channel_def ChannelConfig_default_def FeedConfig_default_def)
  moreover have "apply_overrides AppArgs_default ?cfg = ?cfg" by (simp add: apply_overrides_def AppArgs_default_def)
  ultimately show ?thesis
    using v assms by (simp add: exchange_main_def example_loads(2) Let_def MarketDataPublisher_create_def ChannelPublisher_create_def)
qed

section \<open>Running\<close>


text \<open>A run that accepts one connection.\<close>

lemma ex_main_parts:
  assumes "ex_main h = Started x"
  shows "xs_config x = example_config" and "sv_sessions (xs_server x) = SessionManager_new 100"
    and "xs_acceptor x = \<lparr>acc_pool = \<lparr>io_contexts = 2, work_guards = 2, io_threads_running = 2, next_io_context = 1\<rparr>,
                acc_connections = {}, acc_waiting = Some 0, acc_stopped = False\<rparr>" and "xs_conns x = []"
proof -
  have o: "apply_overrides AppArgs_default example_config = example_config" by (simp add: apply_overrides_def AppArgs_default_def)
  have f: "fallback_mode example_config = example_config" by code_simp
  have n: "io_threads (network example_config) = 2" "cfg_max_sessions (session_config example_config) = 100" by code_simp+
  from assms o example_loads(1) obtain sv where sv: "server_start h example_config = Some sv" "xs_server x = sv"
    and x: "xs_config x = example_config" "xs_conns x = []"
    "xs_acceptor x = \<lparr>acc_pool = \<lparr>io_contexts = 2, work_guards = 2, io_threads_running = 2, next_io_context = 1\<rparr>,
                acc_connections = {}, acc_waiting = Some 0, acc_stopped = False\<rparr>"
    unfolding ex_main_def main_started by (auto simp: n f)
  then show "xs_config x = example_config" "xs_conns x = []"
    "xs_acceptor x = \<lparr>acc_pool = \<lparr>io_contexts = 2, work_guards = 2, io_threads_running = 2, next_io_context = 1\<rparr>,
                acc_connections = {}, acc_waiting = Some 0, acc_stopped = False\<rparr>" by simp_all
  show "sv_sessions (xs_server x) = SessionManager_new 100"
    using server_start_sessions [OF sv(1)] sv(2) n(2) by simp
qed

lemma ex_accepting:
  assumes "ex_main h = Started x\<^sub>0"
  obtains x where "exchange_reach hmac x\<^sub>0 x" and "findSession 1 (sv_sessions (xs_server x)) = Some (Session_new 1 env)"
    and "xs_conns x = [(7, TcpConnection_new, Some 1)]"
proof -
  note x0 = ex_main_parts [OF assms]
  have hm: "\<not> cfg_hmac_enabled (session_config example_config)" by code_simp
  obtain x where x: "exchange_accept env (Some 7) x\<^sub>0 = Some x" "findSession 1 (sv_sessions (xs_server x)) = Some (Session_new 1 env)"
    "xs_conns x = [(7, TcpConnection_new, Some 1)]"
    using hm by (simp add: exchange_accept_def on_accepted_def do_accept_def get_io_context_def x0 on_accept_def
        createSession_def SessionManager_new_def put_session_def findSession_def Let_def) (simp add: Session_new_def)
  have "exchange_reach hmac x\<^sub>0 x"
    using x_accept [OF x_start x(1)] by (simp add: x0 SessionManager_new_def)
  with x(2,3) show thesis by (intro that)
qed


section \<open>Shutting down\<close>

lemma close_all_step:
  "conns_inv (shape x) (live_sessions x) (uuid_counter x) \<Longrightarrow>
     \<exists>x'. close_all env conns x = Some x' \<and> conns_inv (shape x') (live_sessions x') (uuid_counter x') \<and>
       xs_acceptor x' = xs_acceptor x \<and> shape x' = fold mark_closed conns (shape x)"
proof (induction conns arbitrary: x)
  case (Cons conn conns)
  from close_conn_step [OF Cons.prems, of env conn] obtain x1 where
    x1: "close_conn env conn x = Some x1" "conns_inv (shape x1) (live_sessions x1) (uuid_counter x1)"
      "xs_acceptor x1 = xs_acceptor x" "shape x1 = mark_closed conn (shape x)" by blast
  from Cons.IH [OF x1(2)] x1 show ?case by simp
qed simp

lemma close_all_server:
  "close_all env conns x = Some x' \<Longrightarrow> \<exists>sm. xs_server x' = with_sessions sm (xs_server x)"
proof (induction conns arbitrary: x)
  case Nil
  then show ?case by (intro exI [where x = "sv_sessions (xs_server x)"]) (simp add: with_sessions_def)
next
  case (Cons conn conns)
  then obtain x1 where x1: "close_conn env conn x = Some x1" "close_all env conns x1 = Some x'" by (auto simp: bind_eq_Some_conv)
  have "\<exists>sm. xs_server x1 = with_sessions sm (xs_server x)"
    using x1(1)
  proof (cases rule: close_conn_cases)
    case 1
    then show ?thesis by (intro exI [where x = "sv_sessions (xs_server x)"]) (simp add: with_sessions_def)
  next
    case (2 c mu)
    then show ?thesis by (intro exI [where x = "sv_sessions (xs_server x)"]) (simp add: with_sessions_def)
  next
    case (3 c u sm out)
    then show ?thesis by auto
  qed
  with Cons.IH [OF x1(2)] show ?case by (auto simp: with_sessions_def)
qed

lemma fold_mark_closed:
  "(k, b, mu) \<in> set (fold mark_closed conns S) \<longleftrightarrow> (\<exists>b'. (k, b', mu) \<in> set S \<and> b = (k \<in> set conns \<or> b'))"
proof (induction conns arbitrary: S)
  case (Cons conn conns)
  have "(k, b, mu) \<in> set (fold mark_closed (conn # conns) S) \<longleftrightarrow>
      (\<exists>b1. (\<exists>b'. (k, b', mu) \<in> set S \<and> b1 = (k = conn \<or> b')) \<and> b = (k \<in> set conns \<or> b1))"
    using Cons.IH [of "mark_closed conn S"] by (simp add: mark_closed_mem)
  then show ?case by auto
qed simp

lemma set_map_fst_shape: "fst ` set (shape x) = fst ` set (xs_conns x)"
  using shape_keys [of x] by (metis set_map)

text \<open>After all connections have been closed there is no session left.\<close>

lemma closed_down:
  assumes inv: "exchange_inv x"
  shows "\<exists>x2. close_all env (map fst (xs_conns x)) (x\<lparr>xs_acceptor := acc\<rparr>) = Some x2 \<and> xs_acceptor x2 = acc \<and>
    activeSessionCount (sv_sessions (xs_server x2)) = 0 \<and> map fst (xs_conns x2) = map fst (xs_conns x) \<and>
    (\<forall>conn c mu. (conn, c, mu) \<in> set (xs_conns x2) \<longrightarrow> tc_closed c) \<and>
    (\<exists>sm. xs_server x2 = with_sessions sm (xs_server x))"
proof -
  let ?all = "map fst (xs_conns x)" and ?x1 = "x\<lparr>xs_acceptor := acc\<rparr>"
  have "conns_inv (shape ?x1) (live_sessions ?x1) (uuid_counter ?x1)" using inv by (simp add: exchange_inv_def)
  from close_all_step [OF this, of env ?all] obtain x2 where
    c: "close_all env ?all ?x1 = Some x2" and ci: "conns_inv (shape x2) (live_sessions x2) (uuid_counter x2)"
    and acc: "xs_acceptor x2 = acc" and sh: "shape x2 = fold mark_closed ?all (shape x)" by auto
  have closed: "b" if "(k, b, mu) \<in> set (shape x2)" for k b mu
  proof -
    from that obtain b' where b': "(k, b', mu) \<in> set (shape x)" "b = (k \<in> set ?all \<or> b')" unfolding sh fold_mark_closed by blast
    have "k \<in> fst ` set (shape x)" using b'(1) by force
    then show ?thesis using b'(2) unfolding set_map_fst_shape by simp
  qed
  have "live_sessions x2 = {}" using conns_invD(4) [OF ci] closed by blast
  then have "activeSessionCount (sv_sessions (xs_server x2)) = 0" by (simp add: session_ids_def activeSessionCount_def)
  moreover have "map fst (fold mark_closed cs S) = map fst S" for cs S
    by (induction cs arbitrary: S) (simp_all add: mark_closed_keys)
  then have "map fst (xs_conns x2) = map fst (xs_conns x)" by (simp only: shape_keys [symmetric] sh)
  moreover have "tc_closed cc" if "(conn, cc, mu) \<in> set (xs_conns x2)" for conn cc mu
    using closed [of conn "tc_closed cc" mu] that by (force simp: shape_def)
  ultimately show ?thesis using c acc close_all_server [OF c] by auto
qed

text \<open>
  C22.  The shutdown sequence always completes.  Afterwards no session is left, every connection is closed,
  the acceptor has stopped, all instruments are closed for trading, and no thread runs any more; the order
  books and the commands still in the gateway's queue are untouched, so orders that were queued when the
  signal came are never answered.  The number of sessions the final banner reports is always zero.
\<close>

theorem exchange_shuts_down:
  assumes "exchange_main y files listens multicasts hw h argv = Started x\<^sub>0" and "exchange_reach hmac x\<^sub>0 x"
  shows "\<exists>x'. exchange_shutdown env x = Some (x', 0) \<and> activeSessionCount (sv_sessions (xs_server x')) = 0 \<and>
    (\<forall>conn c mu. (conn, c, mu) \<in> set (xs_conns x') \<longrightarrow> tc_closed c) \<and> map fst (xs_conns x') = map fst (xs_conns x) \<and>
    acc_stopped (xs_acceptor x') \<and> io_threads_running (acc_pool (xs_acceptor x')) = 0 \<and> \<not> xs_acceptor_thread x' \<and>
    \<not> xs_engine_thread x' \<and> \<not> xs_timer_thread x' \<and> \<not> xs_md_io_thread x' \<and> \<not> mdp_running (sv_md (xs_server x')) \<and>
    (\<forall>inst\<in>set (im_instruments (sv_instruments (xs_server x'))). trading_status inst = SecurityTradingStatus.Close) \<and>
    sv_engine (xs_server x') = sv_engine (xs_server x) \<and> sv_gateway (xs_server x') = sv_gateway (xs_server x)"
proof -
  note r = exchange_server_reach [OF assms(2) started_server_reach(1) [OF assms(1)]]
  have inv: "exchange_inv x" using exchange_reach_inv [OF assms(2) started_server_reach(1,2) [OF assms(1)]] .
  let ?acc = "fst (acceptor_stop (xs_acceptor x))"
  have all: "filter (\<lambda>conn. conn \<in> snd (acceptor_stop (xs_acceptor x))) (map fst (xs_conns x)) = map fst (xs_conns x)"
    using inv by (auto simp: acceptor_stop_def exchange_inv_def intro!: filter_True)
  from closed_down [OF inv, of env ?acc] obtain x2 sm where c: "close_all env (map fst (xs_conns x)) (x\<lparr>xs_acceptor := ?acc\<rparr>) = Some x2"
    and x2: "xs_acceptor x2 = ?acc" "activeSessionCount (sv_sessions (xs_server x2)) = 0" "map fst (xs_conns x2) = map fst (xs_conns x)"
      "\<forall>conn c mu. (conn, c, mu) \<in> set (xs_conns x2) \<longrightarrow> tc_closed c" and sv: "xs_server x2 = with_sessions sm (xs_server x)" by blast
  have im: "sv_instruments (xs_server x2) = sv_instruments (xs_server x)" "sv_engine (xs_server x2) = sv_engine (xs_server x)"
    "sv_gateway (xs_server x2) = sv_gateway (xs_server x)"
    by (simp_all add: sv with_sessions_def)
  have "im_ok (sv_instruments (xs_server x))"
    unfolding reach_instruments [OF r] using started_server_reach(3) [OF assms(1)] set_all_status_ok by blast
  note status = set_all_status_all [OF this]
  have md: "\<not> mdp_running (mdp_stop True p)" for p by (simp add: mdp_stop_def)
  let ?sv = "(xs_server x2)\<lparr>sv_instruments := set_all_status SecurityTradingStatus.Close (sv_instruments (xs_server x2)),
        sv_md := mdp_stop True (sv_md (xs_server x2))\<rparr>"
  have "exchange_shutdown env x = Some (x2\<lparr>xs_engine_thread := False, xs_timer_thread := False, xs_server := ?sv,
      xs_md_io_thread := False, xs_acceptor := (xs_acceptor x2)\<lparr>acc_pool := pool_stop (acc_pool (xs_acceptor x2))\<rparr>,
      xs_acceptor_thread := False\<rparr>, 0)"
    unfolding exchange_shutdown_def all c by (simp add: connection_count_def x2(1) Let_def) (simp add: acceptor_stop_def)
  then show ?thesis
    by (intro exI conjI, assumption) (use x2 im status md in \<open>auto simp: pool_stop_def acceptor_stop_def\<close>)
qed

theorem exchange_shuts_down_witness:
  "\<exists>x\<^sub>0 x x'. ex_main ex_heap = Started x\<^sub>0 \<and> exchange_reach (\<lambda>k d. []) x\<^sub>0 x \<and>
     activeSessionCount (sv_sessions (xs_server x)) \<noteq> 0 \<and>
     exchange_shutdown \<lparr>steady_now = 5, system_now = 5\<rparr> x = Some (x', 0) \<and> activeSessionCount (sv_sessions (xs_server x')) = 0"
proof -
  obtain x\<^sub>0 where s: "ex_main ex_heap = Started x\<^sub>0" using ex_main_started by blast
  obtain x where x: "exchange_reach (\<lambda>k d. []) x\<^sub>0 x"
    "findSession 1 (sv_sessions (xs_server x)) = Some (Session_new 1 \<lparr>steady_now = 0, system_now = 0\<rparr>)"
    using ex_accepting [OF s] by blast
  have "activeSessionCount (sv_sessions (xs_server x)) \<noteq> 0" using x(2) by (auto simp: findSession_def activeSessionCount_def)
  with exchange_shuts_down [OF s [unfolded ex_main_def] x(1), of "\<lparr>steady_now = 5, system_now = 5\<rparr>"] s x show ?thesis by blast
qed

end
