(* ===== verification/Pcap_Reader.thy ===== *)
theory Pcap_Reader
  imports Byte_Codec
begin

text \<open>
  \<^verbatim>\<open>src/engine/pcap_reader.cpp\<close>: reading the UDP payloads of a packet capture.  The file is its contents
  (\<open>None\<close>: it cannot be opened) with a read position and the stream's failure flag; the structs are read in the
  byte order of a little-endian machine.  An access outside the packet would be \<open>None\<close> in the outer option
  of \<open>stripHeaders\<close>; the inner \<open>None\<close> is its result \<open>-1\<close>.
\<close>

unbundle bit_operations_syntax

definition PCAP_MAGIC_MICROSEC :: "32 word" where "PCAP_MAGIC_MICROSEC = 0xA1B2C3D4"
definition PCAP_MAGIC_NANOSEC :: "32 word" where "PCAP_MAGIC_NANOSEC = 0xA1B23C4D"
definition ETHERNET_HEADER_LEN :: nat where "ETHERNET_HEADER_LEN = 14"
definition UDP_HEADER_LEN :: nat where "UDP_HEADER_LEN = 8"
definition IP_PROTOCOL_UDP :: "8 word" where "IP_PROTOCOL_UDP = 17"
definition LINKTYPE_ETHERNET :: "32 word" where "LINKTYPE_ETHERNET = 1"

record PcapPacket =
  timestamp_us :: "64 word"
  pkt_data :: bytes

record PcapReader =
  path_contents :: "bytes option"
  file_is_open :: bool
  file_pos :: nat
  file_failed :: bool
  pcap_is_open :: bool
  is_nanosecond :: bool

definition PcapReader_new :: "bytes option \<Rightarrow> PcapReader" where
  "PcapReader_new contents = \<lparr>path_contents = contents, file_is_open = False, file_pos = 0, file_failed = False,
     pcap_is_open = False, is_nanosecond = False\<rparr>"

section \<open>The file\<close>

definition file_bytes :: "PcapReader \<Rightarrow> bytes" where
  "file_bytes r = (case path_contents r of None \<Rightarrow> [] | Some bs \<Rightarrow> bs)"

text \<open>\<^verbatim>\<open>ifstream::read\<close>: all of the bytes, or a failure that stays.\<close>

definition file_read :: "nat \<Rightarrow> PcapReader \<Rightarrow> bytes option \<times> PcapReader" where
  "file_read n r =
     (if file_failed r then (None, r)
      else case read_bytes (file_bytes r) (file_pos r) n of
        None \<Rightarrow> (None, r\<lparr>file_failed := True\<rparr>)
      | Some bs \<Rightarrow> (Some bs, r\<lparr>file_pos := file_pos r + n\<rparr>))"

definition file_open :: "PcapReader \<Rightarrow> PcapReader" where
  "file_open r = (if file_is_open r then r\<lparr>file_failed := True\<rparr>
     else case path_contents r of
       None \<Rightarrow> r\<lparr>file_failed := True\<rparr>
     | Some bs \<Rightarrow> r\<lparr>file_is_open := True, file_pos := 0, file_failed := False\<rparr>)"

section \<open>The reader\<close>

definition pcap_open :: "PcapReader \<Rightarrow> bool \<times> PcapReader" where
  "pcap_open r =
     (let r = file_open r
      in if \<not> file_is_open r then (False, r)
         else case file_read 24 r of
           (None, r) \<Rightarrow> (False, r\<lparr>file_is_open := False\<rparr>)
         | (Some hdr, r) \<Rightarrow>
             let magic_number = of_le (take 4 hdr) :: 32 word; network = of_le (take 4 (drop 20 hdr)) :: 32 word
             in if magic_number \<noteq> PCAP_MAGIC_MICROSEC \<and> magic_number \<noteq> PCAP_MAGIC_NANOSEC
                then (False, r\<lparr>file_is_open := False\<rparr>)
                else
                  let r = r\<lparr>is_nanosecond := (magic_number = PCAP_MAGIC_NANOSEC)\<rparr>
                  in if network \<noteq> LINKTYPE_ETHERNET then (False, r\<lparr>file_is_open := False\<rparr>)
                     else (True, r\<lparr>pcap_is_open := True\<rparr>))"

definition byte_at :: "bytes \<Rightarrow> nat \<Rightarrow> byte option" where
  "byte_at bs i = (if i < length bs then Some (bs ! i) else None)"

definition ether_type_at :: "bytes \<Rightarrow> nat \<Rightarrow> 16 word option" where
  "ether_type_at data i = do {
     a \<leftarrow> byte_at data i;
     b \<leftarrow> byte_at data (i + 1);
     Some (push_bit 8 (ucast a) OR ucast b)
   }"

definition strip_ip :: "bytes \<Rightarrow> nat \<Rightarrow> nat option option" where
  "strip_ip data eth_header_len =
     (if length data < eth_header_len + 20 then Some None
      else do {
        ip0 \<leftarrow> byte_at data eth_header_len;
        if drop_bit 4 ip0 AND 0x0F \<noteq> 4 then Some None
        else
          let ip_header_len = unat (ip0 AND 0x0F) * 4
          in if ip_header_len < 20 \<or> length data < eth_header_len + ip_header_len then Some None
             else do {
               protocol \<leftarrow> byte_at data (eth_header_len + 9);
               if protocol \<noteq> IP_PROTOCOL_UDP then Some None
               else
                 let udp_start = eth_header_len + ip_header_len
                 in if length data < udp_start + UDP_HEADER_LEN then Some None
                    else Some (Some (udp_start + UDP_HEADER_LEN))
             }
      })"

definition stripHeaders :: "bytes \<Rightarrow> nat option option" where
  "stripHeaders data =
     (if length data < ETHERNET_HEADER_LEN then Some None
      else do {
        ether_type \<leftarrow> ether_type_at data 12;
        if ether_type = 0x8100 then
          let eth_header_len = ETHERNET_HEADER_LEN + 4
          in if length data < eth_header_len then Some None
             else do {
               ether_type \<leftarrow> ether_type_at data (eth_header_len - 2);
               if ether_type \<noteq> 0x0800 then Some None else strip_ip data eth_header_len
             }
        else if ether_type \<noteq> 0x0800 then Some None
        else strip_ip data ETHERNET_HEADER_LEN
      })"

definition pcap_timestamp :: "bool \<Rightarrow> 32 word \<Rightarrow> 32 word \<Rightarrow> 64 word" where
  "pcap_timestamp nano sec usec =
     (if nano then ucast sec * 1000000 + ucast (usec div 1000) else ucast sec * 1000000 + ucast usec)"

lemma file_read_pos:
  "file_read n r = (Some bs, r') \<Longrightarrow> r' = r\<lparr>file_pos := file_pos r + n\<rparr> \<and> file_pos r + n \<le> length (file_bytes r) \<and>
     length bs = n"
  by (auto simp: file_read_def read_bytes_def split: if_splits)

text \<open>Reading the next packet; the call on itself for a packet that is not UDP ends because the file does.\<close>

function readNext :: "PcapReader \<Rightarrow> PcapPacket option \<times> PcapReader" where
  "readNext r =
     (if \<not> pcap_is_open r then (None, r)
      else case file_read 16 r of
        (None, r1) \<Rightarrow> (None, r1)
      | (Some hdr, r1) \<Rightarrow>
          let ts = pcap_timestamp (is_nanosecond r1) (of_le (take 4 hdr)) (of_le (take 4 (drop 4 hdr)));
              incl_len = unat (of_le (take 4 (drop 8 hdr)) :: 32 word)
          in case file_read incl_len r1 of
               (None, r2) \<Rightarrow> (None, r2)
             | (Some raw, r2) \<Rightarrow>
                 (case stripHeaders raw of
                    Some (Some payload_offset) \<Rightarrow> (Some \<lparr>timestamp_us = ts, pkt_data = drop payload_offset raw\<rparr>, r2)
                  | _ \<Rightarrow> readNext r2))"
  by pat_completeness auto

termination readNext
  by (relation "measure (\<lambda>r. length (file_bytes r) - file_pos r)")
    (auto simp: file_bytes_def dest!: file_read_pos [OF sym])

declare readNext.simps [simp del]

lemma readNext_pos:
  "readNext r = (Some p, r') \<Longrightarrow> file_bytes r' = file_bytes r \<and> file_pos r < file_pos r' \<and> file_pos r' \<le> length (file_bytes r)"
proof (induction r arbitrary: p r' rule: readNext.induct)
  case (1 r)
  from 1(3) obtain hdr r1 where h: "pcap_is_open r" "file_read 16 r = (Some hdr, r1)"
    by (subst (asm) readNext.simps) (auto split: if_splits prod.splits option.splits)
  let ?n = "unat (of_le (take 4 (drop 8 hdr)) :: 32 word)"
  from 1(3) h obtain raw r2 where d: "file_read ?n r1 = (Some raw, r2)"
    by (subst (asm) readNext.simps) (auto simp: Let_def split: prod.splits option.splits)
  note p1 = file_read_pos [OF h(2)] and p2 = file_read_pos [OF d]
  have b: "file_bytes r2 = file_bytes r" using p1 p2 by (simp add: file_bytes_def)
  show ?case
  proof (cases "\<exists>off. stripHeaders raw = Some (Some off)")
    case True
    then have "r' = r2" using 1(3) h d by (subst (asm) readNext.simps) (auto simp: Let_def)
    then show ?thesis using p1 p2 b by (simp add: file_bytes_def)
  next
    case False
    then have "readNext r2 = (Some p, r')"
      using 1(3) h d by (subst (asm) readNext.simps) (auto simp: Let_def split: option.splits)
    moreover have "stripHeaders raw = None \<or> stripHeaders raw = Some None" using False by (metis option.exhaust)
    ultimately have "file_bytes r' = file_bytes r2 \<and> file_pos r2 < file_pos r' \<and> file_pos r' \<le> length (file_bytes r2)"
      using 1(1,2) h d by (metis prod.inject)
    then show ?thesis using p1 p2 b by (simp add: file_bytes_def)
  qed
qed

function readAll :: "PcapReader \<Rightarrow> PcapPacket list \<times> PcapReader" where
  "readAll r =
     (case readNext r of
        (None, r') \<Rightarrow> ([], r')
      | (Some p, r') \<Rightarrow> let (ps, r'') = readAll r' in (p # ps, r''))"
  by pat_completeness auto

termination readAll
  by (relation "measure (\<lambda>r. length (file_bytes r) - file_pos r)") (auto dest!: readNext_pos [OF sym])

declare readAll.simps [simp del]

definition pcap_reset :: "PcapReader \<Rightarrow> PcapReader" where
  "pcap_reset r = (if file_is_open r then r\<lparr>file_failed := False, file_pos := 24\<rparr> else r)"

section \<open>Bounds\<close>

text \<open>Every byte that is looked at lies within the packet, and so does the payload that is found.\<close>

lemma strip_ip_bounds: "\<exists>res. strip_ip data n = Some res \<and> (\<forall>off. res = Some off \<longrightarrow> n < off \<and> off \<le> length data)"
  by (auto simp: strip_ip_def byte_at_def UDP_HEADER_LEN_def Let_def)

lemma stripHeaders_bounds:
  "\<exists>res. stripHeaders data = Some res \<and> (\<forall>off. res = Some off \<longrightarrow> off \<le> length data)"
  using strip_ip_bounds [of data 14] strip_ip_bounds [of data 18]
  by (auto simp: stripHeaders_def ether_type_at_def byte_at_def ETHERNET_HEADER_LEN_def Let_def)

section \<open>What a capture holds\<close>

text \<open>
  The layout of a captured Ethernet frame with a UDP datagram: two addresses, perhaps a VLAN tag, the type of
  IPv4, an IPv4 header of 5 to 15 words whose first byte is its version and length and whose tenth is the
  protocol number of UDP, the UDP header, and the payload.
\<close>

definition ipv4_udp :: "bytes \<Rightarrow> bool" where
  "ipv4_udp ip \<longleftrightarrow> (\<exists>n. 5 \<le> n \<and> n \<le> 15 \<and> length ip = 4 * n \<and> unat (ip ! 0) = 64 + n) \<and> ip ! 9 = 17"

definition carries_udp :: "bytes \<Rightarrow> bytes \<Rightarrow> bool" where
  "carries_udp raw payload \<longleftrightarrow> (\<exists>macs tag ip udp. raw = macs @ tag @ [8, 0] @ ip @ udp @ payload \<and> length macs = 12 \<and>
     (tag = [] \<or> (\<exists>a b. tag = [0x81, 0, a, b])) \<and> ipv4_udp ip \<and> length udp = 8)"

text \<open>A record's time in microseconds; the fraction of the second is in nano- or microseconds.\<close>

definition capture_us :: "bool \<Rightarrow> 32 word \<Rightarrow> 32 word \<Rightarrow> nat" where
  "capture_us nano sec frac = unat sec * 10 ^ 6 + (if nano then unat frac div 10 ^ 3 else unat frac)"

text \<open>
  A record: its time, the length the packet had on the wire (of which perhaps only the first part was
  captured), and the bytes captured.
\<close>

type_synonym capture = "32 word \<times> 32 word \<times> 32 word \<times> bytes"

fun pcap_record :: "capture \<Rightarrow> bytes" where
  "pcap_record (sec, frac, orig_len, raw) = le 4 sec @ le 4 frac @ le 4 (of_nat (length raw) :: 32 word) @ le 4 orig_len @ raw"

text \<open>A record that the file does not hold completely.\<close>

definition incomplete :: "bytes \<Rightarrow> bool" where
  "incomplete tail \<longleftrightarrow> length tail < 16 \<or>
     (\<exists>times part. \<exists>(len :: 32 word) (orig_len :: 32 word).
        tail = times @ le 4 len @ le 4 orig_len @ part \<and> length times = 8 \<and> length part < unat len)"

text \<open>The packets that records show.\<close>

fun shows_packets :: "bool \<Rightarrow> capture list \<Rightarrow> PcapPacket list \<Rightarrow> bool" where
  "shows_packets nano [] ps \<longleftrightarrow> ps = []"
| "shows_packets nano ((sec, frac, orig_len, raw) # rs) ps \<longleftrightarrow>
     (if \<exists>payload. carries_udp raw payload
      then \<exists>p ps'. ps = p # ps' \<and> carries_udp raw (pkt_data p) \<and> unat (timestamp_us p) = capture_us nano sec frac \<and>
        shows_packets nano rs ps'
      else shows_packets nano rs ps)"

section \<open>Finding the payload\<close>

lemma nibbles:
  fixes b :: byte
  shows "drop_bit 4 b AND 0x0F = 4 \<longleftrightarrow> unat b div 16 = 4" and "unat (b AND 0x0F) = unat b mod 16"
proof -
  have m: "(0x0F :: byte) = mask 4" by (simp add: mask_eq_exp_minus_1)
  have u: "unat (c AND 0x0F) = unat c mod 16" for c :: byte
    unfolding m by (simp flip: take_bit_eq_mask add: unsigned_take_bit_eq) (simp add: take_bit_eq_mod unat_mod)
  show "unat (b AND 0x0F) = unat b mod 16" by (rule u)
  have "unat b div 16 < 16" using unsigned_less [of b, where ?'a = nat] by simp
  then have "unat (drop_bit 4 b AND 0x0F) = unat b div 16" by (simp add: u drop_bit_eq_div unat_div)
  then show "drop_bit 4 b AND 0x0F = 4 \<longleftrightarrow> unat b div 16 = 4" by (auto simp: word_unat_eq_iff)
qed

lemma ether_type_bytes:
  fixes a b :: byte
  assumes "push_bit 8 (ucast a) OR ucast b = (w :: 16 word)"
  shows "a = ucast (drop_bit 8 w)" and "b = ucast w"
proof -
  have hi: "\<not> bit c k" if "8 \<le> k" for c :: byte and k using that bit_imp_le_length [of c k] by auto
  show "a = ucast (drop_bit 8 w)" unfolding assms [symmetric] by (rule bit_word_eqI) (auto simp: bit_simps hi)
  show "b = ucast w" unfolding assms [symmetric] by (rule bit_word_eqI) (auto simp: bit_simps)
qed

lemma ether_type_iff:
  fixes a b :: byte
  shows "push_bit 8 (ucast a) OR ucast b = (0x8100 :: 16 word) \<longleftrightarrow> a = 0x81 \<and> b = 0"
    and "push_bit 8 (ucast a) OR ucast b = (0x0800 :: 16 word) \<longleftrightarrow> a = 8 \<and> b = 0"
  using ether_type_bytes [of a b "0x8100"] ether_type_bytes [of a b "0x0800"] by auto

text \<open>The IPv4 part, from offset \<open>n\<close> on.\<close>

lemma strip_ip_iff:
  "strip_ip (pre @ d) (length pre) = Some (Some off) \<longleftrightarrow>
     (\<exists>ip udp rest. d = ip @ udp @ rest \<and> ipv4_udp ip \<and> length udp = 8 \<and> off = length pre + length ip + 8)"
  (is "?l \<longleftrightarrow> ?r")
proof
  assume ?l
  then have len: "20 \<le> length d" and v: "drop_bit 4 (d ! 0) AND 0x0F = 4" and p: "d ! 9 = 17"
    and h: "20 \<le> unat (d ! 0 AND 0x0F) * 4" "unat (d ! 0 AND 0x0F) * 4 + 8 \<le> length d"
    and off: "off = length pre + unat (d ! 0 AND 0x0F) * 4 + 8"
    by (auto simp: strip_ip_def byte_at_def nth_append UDP_HEADER_LEN_def IP_PROTOCOL_UDP_def Let_def split: if_splits)
  let ?n = "unat (d ! 0 AND 0x0F)"
  let ?ip = "take (4 * ?n) d"
  have "unat (d ! 0) = 64 + ?n" using v unfolding nibbles by presburger
  moreover have "?n \<le> 15" unfolding nibbles by presburger
  ultimately have "ipv4_udp ?ip" using h p unfolding ipv4_udp_def by (intro conjI exI [where x = ?n]) auto
  moreover have "d = ?ip @ take 8 (drop (4 * ?n) d) @ drop 8 (drop (4 * ?n) d)" by (simp only: append_take_drop_id)
  moreover have "length ?ip = 4 * ?n" "length (take 8 (drop (4 * ?n) d)) = 8" using h(2) by simp_all
  ultimately show ?r using off by (metis mult.commute)
next
  assume ?r
  then obtain ip udp rest n where d: "d = ip @ udp @ rest" "length udp = 8" "off = length pre + length ip + 8"
    and n: "5 \<le> n" "n \<le> 15" "length ip = 4 * n" "unat (ip ! 0) = 64 + n" "ip ! 9 = 17" by (auto simp: ipv4_udp_def)
  then have "drop_bit 4 (ip ! 0) AND 0x0F = 4" "unat (ip ! 0 AND 0x0F) = n" unfolding nibbles by presburger+
  then show ?l using d n
    by (simp add: strip_ip_def byte_at_def nth_append UDP_HEADER_LEN_def IP_PROTOCOL_UDP_def Let_def)
qed

text \<open>The Ethernet part.\<close>

lemma stripHeaders_cases:
  "stripHeaders raw = Some (Some off) \<longleftrightarrow>
     14 \<le> length raw \<and> raw ! 12 = 8 \<and> raw ! 13 = 0 \<and> strip_ip raw 14 = Some (Some off) \<or>
     18 \<le> length raw \<and> raw ! 12 = 0x81 \<and> raw ! 13 = 0 \<and> raw ! 16 = 8 \<and> raw ! 17 = 0 \<and> strip_ip raw 18 = Some (Some off)"
  by (auto simp: stripHeaders_def ether_type_at_def byte_at_def ETHERNET_HEADER_LEN_def Let_def ether_type_iff split: if_splits)

lemma two_bytes_at:
  "k + 2 \<le> length raw \<and> raw ! k = a \<and> raw ! (k + 1) = b \<longleftrightarrow> (\<exists>pre d. raw = pre @ [a, b] @ d \<and> length pre = k)"
proof
  assume "k + 2 \<le> length raw \<and> raw ! k = a \<and> raw ! (k + 1) = b"
  then have "raw = take k raw @ [a, b] @ drop (k + 2) raw"
    by (metis (no_types, lifting) Cons_nth_drop_Suc One_nat_def Suc_eq_plus1 Suc_le_lessD add_2_eq_Suc' append_Cons append_Nil append_take_drop_id less_Suc_eq
        less_le_trans not_less)
  moreover have "length (take k raw) = k" using \<open>k + 2 \<le> length raw \<and> _\<close> by simp
  ultimately show "\<exists>pre d. raw = pre @ [a, b] @ d \<and> length pre = k" by blast
qed (auto simp: nth_append)

lemma stripHeaders_iff:
  "(\<exists>off. stripHeaders raw = Some (Some off) \<and> drop off raw = payload) \<longleftrightarrow> carries_udp raw payload" (is "?l \<longleftrightarrow> ?r")
proof
  have strip: "\<exists>ip udp. d = ip @ udp @ payload \<and> ipv4_udp ip \<and> length udp = 8"
    if raw: "raw = pre @ d" and some: "strip_ip raw (length pre) = Some (Some off)" and rest: "drop off raw = payload" for pre d off
  proof -
    from some obtain ip udp rest where d: "d = ip @ udp @ rest" "ipv4_udp ip" "length udp = 8" "off = length pre + length ip + 8"
      unfolding raw strip_ip_iff by blast
    with raw rest have "rest = payload" by simp
    with d show ?thesis by blast
  qed
  assume ?l
  then obtain off where off: "stripHeaders raw = Some (Some off)" "drop off raw = payload" by blast
  from off(1) [unfolded stripHeaders_cases] show ?r
  proof (elim disjE conjE)
    assume h: "14 \<le> length raw" "raw ! 12 = 8" "raw ! 13 = 0" "strip_ip raw 14 = Some (Some off)"
    then obtain macs d where r: "raw = macs @ [8, 0] @ d" "length macs = 12" using two_bytes_at [of 12 raw 8 0] by auto
    with h(4) off(2) strip [of "macs @ [8, 0]" d off] obtain ip udp where
      "d = ip @ udp @ payload" "ipv4_udp ip" "length udp = 8" by auto
    with r show ?r unfolding carries_udp_def by (intro exI [where x = macs] exI [where x = "[]"] exI conjI) auto
  next
    assume h: "18 \<le> length raw" "raw ! 12 = 0x81" "raw ! 13 = 0" "raw ! 16 = 8" "raw ! 17 = 0" "strip_ip raw 18 = Some (Some off)"
    then obtain macs e where r: "raw = macs @ [0x81, 0] @ e" "length macs = 12" using two_bytes_at [of 12 raw "0x81" 0] by auto
    with h have "2 + 2 \<le> length e \<and> e ! 2 = 8 \<and> e ! (2 + 1) = 0" by (simp add: nth_append)
    then obtain ab d where e: "e = ab @ [8, 0] @ d" "length ab = 2" unfolding two_bytes_at by blast
    then obtain a b where "ab = [a, b]" by (auto simp: length_Suc_conv numeral_2_eq_2)
    with e r have r: "raw = macs @ [0x81, 0, a, b] @ [8, 0] @ d" "length macs = 12" by simp_all
    with h(6) off(2) strip [of "macs @ [0x81, 0, a, b, 8, 0]" d off] obtain ip udp where
      "d = ip @ udp @ payload" "ipv4_udp ip" "length udp = 8" by auto
    with r show ?r unfolding carries_udp_def by (intro exI [where x = macs] exI [where x = "[0x81, 0, a, b]"] exI conjI) auto
  qed
next
  assume ?r
  then obtain macs tag ip udp where raw: "raw = macs @ tag @ [8, 0] @ ip @ udp @ payload" and l: "length macs = 12" "length udp = 8"
    and tag: "tag = [] \<or> (\<exists>a b. tag = [0x81, 0, a, b])" and ip: "ipv4_udp ip" unfolding carries_udp_def by blast
  let ?pre = "macs @ tag @ [8, 0]" let ?off = "length ?pre + length ip + 8"
  have "strip_ip (?pre @ ip @ udp @ payload) (length ?pre) = Some (Some ?off)" unfolding strip_ip_iff using ip l by blast
  then have "stripHeaders raw = Some (Some ?off)" using tag l unfolding raw stripHeaders_cases by (auto simp: nth_append)
  moreover have "raw = (?pre @ ip @ udp) @ payload" "length (?pre @ ip @ udp) = ?off" using l by (simp_all add: raw)
  then have "drop ?off raw = payload" by (metis append_eq_conv_conj)
  ultimately show ?l by blast
qed

lemma no_udp: "(\<exists>payload. carries_udp raw payload) \<longleftrightarrow> (\<exists>off. stripHeaders raw = Some (Some off))"
  unfolding stripHeaders_iff [symmetric] by blast

lemma carries_udp_unique: "carries_udp raw p \<Longrightarrow> carries_udp raw q \<Longrightarrow> p = q"
  unfolding stripHeaders_iff [symmetric] by auto

lemma shows_packets_unique: "shows_packets nano rs ps \<Longrightarrow> shows_packets nano rs qs \<Longrightarrow> ps = qs"
proof (induction nano rs ps arbitrary: qs rule: shows_packets.induct)
  case (2 nano sec frac orig_len raw rs ps)
  show ?case
  proof (cases "\<exists>payload. carries_udp raw payload")
    case True
    then obtain p ps' q qs' where p: "ps = p # ps'" "carries_udp raw (pkt_data p)" "unat (timestamp_us p) = capture_us nano sec frac" "shows_packets nano rs ps'"
      and q: "qs = q # qs'" "carries_udp raw (pkt_data q)" "unat (timestamp_us q) = capture_us nano sec frac" "shows_packets nano rs qs'"
      using 2(3,4) by auto
    have "timestamp_us p = timestamp_us q" using p(3) q(3) by (intro word_unat_eq_iff [THEN iffD2]) simp
    moreover have "pkt_data p = pkt_data q" using p(2) q(2) by (rule carries_udp_unique)
    ultimately have "p = q" by (rule PcapPacket.equality) simp
    with 2(1) [OF True p(4)] p q show ?thesis by blast
  qed (use 2 in auto)
qed simp

lemma timestamp_capture: "unat (pcap_timestamp nano sec frac) = capture_us nano sec frac"
proof -
  have u: "unat (ucast w :: 64 word) = unat w" for w :: "32 word" 
    using unsigned_less [of w, where ?'a = nat] by (simp add: unsigned_ucast_eq take_bit_nat_eq_self)
  have b: "unat sec < 2 ^ 32" "unat frac < 2 ^ 32" using unsigned_less [of sec, where ?'a = nat] unsigned_less [of frac, where ?'a = nat] by simp_all
  have "unat (ucast sec * 1000000 + ucast w :: 64 word) = unat sec * 1000000 + unat w" if "unat w < 2 ^ 32" for w :: "32 word"
    using b(1) that by (simp add: unat_word_ariths u)
  moreover have "unat (frac div 1000) = unat frac div 1000" by (simp add: unat_div)
  ultimately show ?thesis using b(2) by (simp add: pcap_timestamp_def capture_us_def)
qed

section \<open>Reading a capture\<close>

definition reading :: "PcapReader \<Rightarrow> bytes \<Rightarrow> bool" where
  "reading r rest \<longleftrightarrow> pcap_is_open r \<and> \<not> file_failed r \<and> file_pos r \<le> length (file_bytes r) \<and> drop (file_pos r) (file_bytes r) = rest"

lemma reading_file_read:
  assumes "reading r (bs @ rest)" and "length bs = n"
  shows "file_read n r = (Some bs, r\<lparr>file_pos := file_pos r + n\<rparr>)" and "reading (r\<lparr>file_pos := file_pos r + n\<rparr>) rest"
proof -
  have d: "drop (file_pos r) (file_bytes r) = bs @ rest" "file_pos r \<le> length (file_bytes r)" "\<not> file_failed r" "pcap_is_open r"
    using assms(1) by (simp_all add: reading_def)
  then have l: "length (file_bytes r) - file_pos r = n + length rest" using assms(2) by (metis length_append length_drop)
  then have "file_pos r + n \<le> length (file_bytes r)" using d(2) by simp
  moreover have "take n (drop (file_pos r) (file_bytes r)) = bs" using d(1) assms(2) by simp
  ultimately show "file_read n r = (Some bs, r\<lparr>file_pos := file_pos r + n\<rparr>)" using d by (simp add: file_read_def read_bytes_def)
  have "drop (file_pos r + n) (file_bytes r) = rest" using d(1) assms(2) by (simp add: add.commute flip: drop_drop)
  then show "reading (r\<lparr>file_pos := file_pos r + n\<rparr>) rest" using d l by (simp add: reading_def file_bytes_def)
qed

lemma reading_short:
  assumes "reading r rest" and "length rest < n"
  shows "file_read n r = (None, r\<lparr>file_failed := True\<rparr>)"
  using assms by (auto simp: reading_def file_read_def read_bytes_def)

lemma reading_end:
  assumes "reading r tail" and "incomplete tail"
  shows "\<exists>r'. readNext r = (None, r')"
proof (cases "length tail < 16")
  case True
  with reading_short [OF assms(1)] assms(1) show ?thesis by (subst readNext.simps) (simp add: reading_def)
next
  case False
  with assms(2) obtain times part and len orig_len :: "32 word" where
    tl: "tail = times @ le 4 len @ le 4 orig_len @ part" "length times = 8" "length part < unat len"
    unfolding incomplete_def by blast
  let ?hdr = "times @ le 4 len @ le 4 orig_len"
  have "reading r (?hdr @ part)" using assms(1) tl(1) by simp
  note h = reading_file_read [OF this, of 16, simplified tl(2), simplified]
  have "of_le (take 4 (drop 8 ?hdr)) = len" using tl(2) by (simp add: of_le_le)
  with h(1) reading_short [OF h(2) tl(3)] assms(1) tl(2) show ?thesis
    by (subst readNext.simps) (simp add: reading_def Let_def)
qed

lemma readNext_record:
  assumes "reading r (pcap_record (sec, frac, orig_len, raw) @ rest)" and "length raw < 2 ^ 32"
  shows "\<exists>r'. reading r' rest \<and> is_nanosecond r' = is_nanosecond r \<and>
    readNext r = (case stripHeaders raw of
      Some (Some off) \<Rightarrow> (Some \<lparr>timestamp_us = pcap_timestamp (is_nanosecond r) sec frac, pkt_data = drop off raw\<rparr>, r')
    | _ \<Rightarrow> readNext r')"
proof -
  let ?len = "of_nat (length raw) :: 32 word"
  let ?hdr = "le 4 sec @ le 4 frac @ le 4 ?len @ le 4 orig_len"
  have "reading r (?hdr @ raw @ rest)" using assms(1) by simp
  note 1 = reading_file_read [OF this, of 16, simplified]
  let ?r1 = "r\<lparr>file_pos := file_pos r + 16\<rparr>"
  note 2 = reading_file_read [OF 1(2) refl]
  let ?r2 = "?r1\<lparr>file_pos := file_pos ?r1 + length raw\<rparr>"
  have n: "unat (of_le (take 4 (drop 8 ?hdr)) :: 32 word) = length raw" using assms(2) by (simp add: of_le_le unat_of_nat)
  have ts: "of_le (take 4 ?hdr) = sec" "of_le (take 4 (drop 4 ?hdr)) = frac" by (simp_all add: of_le_le)
  have o: "pcap_is_open r" using assms(1) by (simp add: reading_def)
  have "readNext r = (case stripHeaders raw of
      Some (Some off) \<Rightarrow> (Some \<lparr>timestamp_us = pcap_timestamp (is_nanosecond r) sec frac, pkt_data = drop off raw\<rparr>, ?r2)
    | _ \<Rightarrow> readNext ?r2)"
    using o 1(1) 2(1) by (subst readNext.simps) (simp add: Let_def n [simplified] ts [simplified] cong: option.case_cong)
  then show ?thesis using 2(2) by (intro exI [where x = ?r2]) simp
qed

abbreviation captured :: "capture \<Rightarrow> bytes" where
  "captured x \<equiv> snd (snd (snd x))"

lemma readAll_records:
  "reading r (concat (map pcap_record rs) @ tail) \<Longrightarrow> \<forall>x\<in>set rs. length (captured x) < 2 ^ 32 \<Longrightarrow> incomplete tail \<Longrightarrow>
     shows_packets (is_nanosecond r) rs (fst (readAll r))"
proof (induction rs arbitrary: r)
  case Nil
  then show ?case using reading_end [of r tail] by (subst readAll.simps) auto
next
  case (Cons x rs)
  obtain sec frac orig_len raw where x: "x = (sec, frac, orig_len, raw)" by (metis prod_cases4)
  have "reading r (pcap_record (sec, frac, orig_len, raw) @ concat (map pcap_record rs) @ tail)" using Cons.prems(1) x by simp
  moreover have "length raw < 2 ^ 32" using Cons.prems(2) x by simp
  ultimately obtain r' where r': "reading r' (concat (map pcap_record rs) @ tail)" "is_nanosecond r' = is_nanosecond r"
    "readNext r = (case stripHeaders raw of
      Some (Some off) \<Rightarrow> (Some \<lparr>timestamp_us = pcap_timestamp (is_nanosecond r) sec frac, pkt_data = drop off raw\<rparr>, r')
    | _ \<Rightarrow> readNext r')"
    using readNext_record by blast
  have IH: "shows_packets (is_nanosecond r) rs (fst (readAll r'))"
    using Cons.IH [OF r'(1)] Cons.prems(2,3) r'(2) by simp
  show ?case
  proof (cases "\<exists>off. stripHeaders raw = Some (Some off)")
    case False
    then have "readNext r = readNext r'" using r'(3) by (auto split: option.splits)
    then have "readAll r = readAll r'" by (simp add: readAll.simps [of r] readAll.simps [of r'])
    then show ?thesis using IH False by (simp add: x no_udp)
  next
    case True
    then obtain off where off: "stripHeaders raw = Some (Some off)" by blast
    then have "carries_udp raw (drop off raw)" unfolding stripHeaders_iff [symmetric] by blast
    moreover have "fst (readAll r) = \<lparr>timestamp_us = pcap_timestamp (is_nanosecond r) sec frac, pkt_data = drop off raw\<rparr> # fst (readAll r')"
      using r'(3) off by (subst readAll.simps) (simp split: prod.splits)
    ultimately show ?thesis using IH unfolding x by (auto simp: timestamp_capture)
  qed
qed

section \<open>Opening\<close>

lemma le_of_le: "length bs = 4 \<Longrightarrow> le 4 (of_le bs :: 32 word) = bs"
proof (rule nth_equalityI)
  fix i assume l: "length bs = 4" and i: "i < length (le 4 (of_le bs :: 32 word))"
  then have "bit (le 4 (of_le bs :: 32 word) ! i) j = bit (bs ! i) j" if "j < 8" for j
    using that by (simp add: le_def bit_simps bit_of_le)
  then show "le 4 (of_le bs :: 32 word) ! i = bs ! i" by (intro bit_word_eqI) simp
qed simp

lemma of_le_iff: "length bs = 4 \<Longrightarrow> (of_le bs :: 32 word) = w \<longleftrightarrow> bs = le 4 w"
  using le_of_le [of bs] by (auto simp: of_le_le)

text \<open>The magic numbers of files with microseconds and nanoseconds, and the link type of Ethernet, as they are in the file.\<close>

definition magic_us :: bytes where "magic_us = [0xD4, 0xC3, 0xB2, 0xA1]"
definition magic_ns :: bytes where "magic_ns = [0x4D, 0x3C, 0xB2, 0xA1]"

lemma magic_bytes: "le 4 PCAP_MAGIC_MICROSEC = magic_us" "le 4 PCAP_MAGIC_NANOSEC = magic_ns" "le 4 LINKTYPE_ETHERNET = [1, 0, 0, 0]"
  by code_simp+

lemma pcap_open_header:
  assumes "length hdr = 24"
  shows "if take 4 hdr \<in> {magic_us, magic_ns} \<and> drop 20 hdr = [1, 0, 0, 0]
    then \<exists>r. pcap_open (PcapReader_new (Some (hdr @ rest))) = (True, r) \<and> reading r rest \<and> is_nanosecond r = (take 4 hdr = magic_ns)
    else \<exists>r. pcap_open (PcapReader_new (Some (hdr @ rest))) = (False, r) \<and> \<not> file_is_open r"
proof -
  have m: "of_le (take 4 hdr) = PCAP_MAGIC_MICROSEC \<longleftrightarrow> take 4 hdr = magic_us"
    "of_le (take 4 hdr) = PCAP_MAGIC_NANOSEC \<longleftrightarrow> take 4 hdr = magic_ns"
    "of_le (drop 20 hdr) = (1 :: 32 word) \<longleftrightarrow> drop 20 hdr = [1, 0, 0, 0]"
    using assms by (simp_all add: of_le_iff magic_bytes flip: LINKTYPE_ETHERNET_def)
  have w: "of_le magic_us = PCAP_MAGIC_MICROSEC" "of_le magic_ns = PCAP_MAGIC_NANOSEC" "PCAP_MAGIC_MICROSEC \<noteq> PCAP_MAGIC_NANOSEC"
    by code_simp+
  have d: "take 4 (drop 20 hdr) = drop 20 hdr" using assms by simp
  have "magic_us \<noteq> magic_ns" "magic_ns \<noteq> magic_us" by (simp_all add: magic_us_def magic_ns_def)
  with assms show ?thesis
    by (simp add: pcap_open_def PcapReader_new_def file_open_def file_read_def read_bytes_def file_bytes_def reading_def Let_def d m w LINKTYPE_ETHERNET_def)
qed

text \<open>
  C13.  Reading a capture.  A file whose 24-byte header has one of the two magic numbers and the link type of Ethernet is
  opened, and any other is refused and closed.  Reading then ends, and for any records (each shorter than 2 to the 32)
  and any incomplete record after them it returns exactly the payloads of the records that are UDP
  datagrams in IPv4, with or without a VLAN tag and IP options, in their order, with their times in
  microseconds whatever the resolution of the file, and cut to what was captured; other records are skipped.
\<close>

theorem pcap_reads_all:
  assumes "length hdr = 24" and "\<forall>x\<in>set rs. length (captured x) < 2 ^ 32" and "incomplete tail"
  shows "if take 4 hdr \<in> {magic_us, magic_ns} \<and> drop 20 hdr = [1, 0, 0, 0]
    then \<exists>r. pcap_open (PcapReader_new (Some (hdr @ concat (map pcap_record rs) @ tail))) = (True, r) \<and>
      shows_packets (take 4 hdr = magic_ns) rs (fst (readAll r))
    else \<exists>r. pcap_open (PcapReader_new (Some (hdr @ concat (map pcap_record rs) @ tail))) = (False, r) \<and> \<not> file_is_open r"
  using pcap_open_header [OF assms(1), of "concat (map pcap_record rs) @ tail"] readAll_records [OF _ assms(2,3)]
  by (fastforce split: if_splits)

text \<open>A file with nanoseconds: a datagram with a VLAN tag and an IP option of which the last byte is cut off, one of TCP, and half a record.\<close>

definition ex_frame :: "byte \<Rightarrow> bytes" where
  "ex_frame protocol = replicate 12 0 @ [0x81, 0, 0, 7] @ [8, 0] @ [0x46, 0, 0, 0, 0, 0, 0, 0, 64, protocol] @ replicate 14 0 @
     replicate 8 0 @ [6, 7]"

theorem pcap_reads_all_witness:
  "\<exists>r. pcap_open (PcapReader_new (Some ((magic_ns @ replicate 16 0 @ [1, 0, 0, 0]) @
       concat (map pcap_record [(4, 5999, 53, ex_frame 17), (4, 7000, 53, ex_frame 6)]) @ replicate 8 0 @ le 4 (3 :: 32 word) @ le 4 (3 :: 32 word) @ [9]))) = (True, r) \<and>
     fst (readAll r) = [\<lparr>timestamp_us = 4000005, pkt_data = [6, 7]\<rparr>]"
proof -
  let ?rs = "[(4, 5999, 53, ex_frame 17), (4, 7000, 53, ex_frame 6)]"
  have s: "stripHeaders (ex_frame 17) = Some (Some 50)" "stripHeaders (ex_frame 6) = Some None" "drop 50 (ex_frame 17) = [6, 7]" by code_simp+
  have "carries_udp (ex_frame 17) [6, 7]" unfolding stripHeaders_iff [symmetric] using s by blast
  then have p: "shows_packets True ?rs [\<lparr>timestamp_us = 4000005, pkt_data = [6, 7]\<rparr>]"
    using s(1,2) by (auto simp: no_udp capture_us_def)
  have t: "incomplete (replicate 8 0 @ le 4 (3 :: 32 word) @ le 4 (3 :: 32 word) @ [9])"
    unfolding incomplete_def 
    by (intro disjI2 exI [where x = "replicate 8 0"] exI [where x = "[9]"] exI [where x = 3] conjI) simp_all
  have "length (magic_ns @ replicate 16 0 @ [1, 0, 0, 0]) = 24" "take 4 (magic_ns @ replicate 16 0 @ [1, 0, 0, 0]) = magic_ns"
    "drop 20 (magic_ns @ replicate 16 0 @ [1, 0, 0, 0]) = [1, 0, 0, 0]" "\<forall>x\<in>set ?rs. length (captured x) < 2 ^ 32"
    by (simp_all add: magic_ns_def ex_frame_def)
  with pcap_reads_all [OF _ _ t, of "magic_ns @ replicate 16 0 @ [1, 0, 0, 0]" ?rs] shows_packets_unique [OF p] show ?thesis
    by fastforce
qed

end
