(* ===== verification/Synthetic_Engine.thy ===== *)
theory Synthetic_Engine
  imports Engine_Contract Md_Builders Pcap_Reader
begin

text \<open>
  \<^verbatim>\<open>src/engine/synthetic_engine.cpp\<close>: the engine that fills orders against a replayed market data capture.
  Orders rest in a map by id and in a list of ids per security; the replay thread tracks the best bid
  and offer of each security and fills resting orders on replayed trades.  The engine's mutexes make each
  operation one step.  The draws of the random generator are an argument, consumed one by one; the
  pacing of the replay is not modelled.
\<close>

section \<open>State\<close>

record BBO =
  best_bid :: Price
  bid_size :: Quantity
  best_ask :: Price
  ask_size :: Quantity

definition BBO_default :: BBO where
  "BBO_default = \<lparr>best_bid = Price 0, bid_size = 0, best_ask = Price 0, ask_size = 0\<rparr>"

record RestingOrder =
  resting_order :: Order
  submit_time :: Timestamp

record SynEngine =
  fill_probability :: double
  fill_latency_ns :: "64 word"
  bbos :: "SecurityId \<rightharpoonup> BBO"
  resting_orders :: "OrderId \<rightharpoonup> RestingOrder"
  orders_by_security :: "SecurityId \<rightharpoonup> OrderId list"
  syn_next_order_id :: "64 word"
  syn_next_trade_id :: "64 word"
  pending_events :: "EngineEvent list"
  syn_running :: bool
  draws :: "double list"

definition SyntheticEngine_new :: "double list \<Rightarrow> SynEngine" where
  "SyntheticEngine_new rng = \<lparr>fill_probability = double_of_int 1, fill_latency_ns = 1000, bbos = Map.empty,
     resting_orders = Map.empty, orders_by_security = Map.empty, syn_next_order_id = 1, syn_next_trade_id = 1,
     pending_events = [], syn_running = False, draws = rng\<rparr>"

definition setFillProbability :: "double \<Rightarrow> SynEngine \<Rightarrow> SynEngine" where
  "setFillProbability prob e =
     (let m = (if less_double prob (double_of_int 1) then prob else double_of_int 1)
      in e\<lparr>fill_probability := (if less_double (double_of_int 0) m then m else double_of_int 0)\<rparr>)"

definition setFillLatencyNs :: "64 word \<Rightarrow> SynEngine \<Rightarrow> SynEngine" where
  "setFillLatencyNs latency_ns e = e\<lparr>fill_latency_ns := latency_ns\<rparr>"

definition getBBO :: "SecurityId \<Rightarrow> SynEngine \<Rightarrow> BBO" where
  "getBBO sec e = (case bbos e sec of Some b \<Rightarrow> b | None \<Rightarrow> BBO_default)"

text \<open>\<open>None\<close>: the draws given are used up.\<close>

definition shouldFill :: "SynEngine \<Rightarrow> (bool \<times> SynEngine) option" where
  "shouldFill e =
     (if less_eq_double (double_of_int 1) (fill_probability e) then Some (True, e)
      else if less_eq_double (fill_probability e) (double_of_int 0) then Some (False, e)
      else case draws e of [] \<Rightarrow> None | d # ds \<Rightarrow> Some (less_double d (fill_probability e), e\<lparr>draws := ds\<rparr>))"

section \<open>Fills\<close>

definition isMarketable :: "Order \<Rightarrow> BBO \<Rightarrow> bool" where
  "isMarketable order bbo =
     (if order_type order = Market then
        if Order.side order = Buy then \<not> Price_isNull (best_ask bbo) \<and> 0 < ask_size bbo
        else \<not> Price_isNull (best_bid bbo) \<and> 0 < bid_size bbo
      else if Order.side order = Buy then \<not> Price_isNull (best_ask bbo) \<and> 0 < ask_size bbo \<and> best_ask bbo \<le> Order.price order
      else \<not> Price_isNull (best_bid bbo) \<and> 0 < bid_size bbo \<and> Order.price order \<le> best_bid bbo)"

definition generateFill :: "Order \<Rightarrow> Price \<Rightarrow> Quantity \<Rightarrow> SynEngine \<Rightarrow> Order \<times> SynEngine \<times> EngineEvent" where
  "generateFill order fill_price fill_qty e =
     (let order = order\<lparr>filled_qty := filled_qty order + fill_qty\<rparr>;
          order = order\<lparr>status := if isFullyFilled order then Filled else PartiallyFilled\<rparr>
      in (order, e\<lparr>syn_next_trade_id := syn_next_trade_id e + 1\<rparr>,
          EvFilled \<lparr>trade_id = syn_next_trade_id e, fill_security_id = security_id order, trade_price = fill_price,
            trade_qty = fill_qty, aggressor_side = Order.side order,
            maker_order_id = 0, maker_cl_ord_id = ''MARKET'', maker_session_uuid = 0, maker_cum_qty = fill_qty,
            maker_leaves_qty = 0, maker_ord_status = Filled,
            taker_order_id = order_id order, taker_cl_ord_id = cl_ord_id order, taker_session_uuid = session_uuid order,
            taker_cum_qty = filled_qty order, taker_leaves_qty = remainingQty order, taker_ord_status = status order\<rparr>))"

section \<open>The engine interface\<close>

definition ids_of :: "SecurityId \<Rightarrow> SynEngine \<Rightarrow> OrderId list" where
  "ids_of sec e = (case orders_by_security e sec of None \<Rightarrow> [] | Some ids \<Rightarrow> ids)"

definition syn_cancelled :: "Order \<Rightarrow> EngineEvent" where
  "syn_cancelled order = EvCancelled
     \<lparr>can_order_id = order_id order, can_cl_ord_id = cl_ord_id order, can_session_uuid = session_uuid order,
      can_security_id = security_id order, can_cum_qty = filled_qty order, can_ord_status = Canceled\<rparr>"

definition syn_submitOrder :: "Timestamp \<Rightarrow> OrderPtr \<Rightarrow> Order \<Rightarrow> SynEngine \<Rightarrow> SynEngine \<times> EngineEvent list" where
  "syn_submitOrder now ptr order e =
     (let order = order\<lparr>order_id := syn_next_order_id e, timestamp := now, status := New\<rparr>;
          e = e\<lparr>syn_next_order_id := syn_next_order_id e + 1\<rparr>;
          sec_id = security_id order;
          oid = order_id order;
          accepted = EvAccepted
            \<lparr>acc_order_id = order_id order, acc_cl_ord_id = cl_ord_id order, acc_session_uuid = session_uuid order,
             acc_security_id = security_id order, acc_side = Order.side order, acc_price = Order.price order,
             acc_quantity = quantity order, acc_order_type = order_type order, acc_time_in_force = time_in_force order\<rparr>;
          bbo = getBBO sec_id e
      in if isMarketable order bbo then
           let fill_price = (if Order.side order = Buy then best_ask bbo else best_bid bbo);
               fill_qty = remainingQty order;
               (order, e, fill) = generateFill order fill_price fill_qty e
           in (e, [accepted, fill])
         else if time_in_force order = IOC \<or> time_in_force order = FOK then
           let order = order\<lparr>status := Canceled\<rparr> in (e, [accepted, syn_cancelled order])
         else
           let e = e\<lparr>orders_by_security := (orders_by_security e)(sec_id \<mapsto> ids_of sec_id e @ [oid])\<rparr>;
               resting = \<lparr>resting_order = order, submit_time = now\<rparr>;
               e = (if resting_orders e oid = None
                    then e\<lparr>resting_orders := (resting_orders e)(oid \<mapsto> resting)\<rparr> else e)
           in (e, [accepted]))"

definition syn_cancelOrder :: "OrderId \<Rightarrow> SecurityId \<Rightarrow> uuid_t \<Rightarrow> SynEngine \<Rightarrow> SynEngine \<times> EngineEvent list" where
  "syn_cancelOrder oid sec u e =
     (case resting_orders e oid of
        None \<Rightarrow> (e, [EvCancelRejected \<lparr>cxr_order_id = oid, cxr_cl_ord_id = [], cxr_session_uuid = u,
                      cxr_reject_reason_code = 1, cxr_reason = ''Unknown order''\<rparr>])
      | Some r \<Rightarrow>
          let order = (resting_order r)\<lparr>status := Canceled\<rparr>;
              e = e\<lparr>orders_by_security := (orders_by_security e)(sec \<mapsto> removeAll oid (ids_of sec e)),
                    resting_orders := (resting_orders e)(oid := None)\<rparr>
          in (e, [syn_cancelled order]))"

definition syn_modifyOrder ::
  "OrderId \<Rightarrow> SecurityId \<Rightarrow> Price \<Rightarrow> Quantity \<Rightarrow> ClOrdId \<Rightarrow> SynEngine \<Rightarrow> SynEngine \<times> EngineEvent list" where
  "syn_modifyOrder oid sec np nq ncl e =
     (case resting_orders e oid of
        None \<Rightarrow> (e, [EvCancelRejected \<lparr>cxr_order_id = oid, cxr_cl_ord_id = [], cxr_session_uuid = 0,
                      cxr_reject_reason_code = 1, cxr_reason = ''Unknown order''\<rparr>])
      | Some r \<Rightarrow>
          let order = (resting_order r)\<lparr>Order.price := np, quantity := nq, cl_ord_id := ncl, status := Replaced\<rparr>
          in (e\<lparr>resting_orders := (resting_orders e)(oid \<mapsto> r\<lparr>resting_order := order\<rparr>)\<rparr>,
              [EvModified \<lparr>mod_order_id = order_id order, mod_cl_ord_id = cl_ord_id order,
                 mod_session_uuid = session_uuid order, mod_security_id = security_id order, mod_new_price = np,
                 mod_new_qty = nq, mod_cum_qty = filled_qty order, mod_leaves_qty = remainingQty order\<rparr>]))"

definition SyntheticEngine :: "SynEngine IMatchingEngine" where
  "SyntheticEngine = \<lparr>me_submitOrder = syn_submitOrder, me_cancelOrder = syn_cancelOrder, me_modifyOrder = syn_modifyOrder\<rparr>"

section \<open>Replay\<close>

definition is_update :: "MDUpdateAction \<Rightarrow> bool" where
  "is_update a \<longleftrightarrow> a = MD_New \<or> a = MD_Change \<or> a = MD_Overlay"

definition update_bbo_entry :: "MDIncrementalRefreshBook46_Entry \<Rightarrow> SynEngine \<Rightarrow> SynEngine" where
  "update_bbo_entry entry e =
     (let sec_id = sint (MDIncrementalRefreshBook46_Entry.securityID entry);
          w = MDIncrementalRefreshBook46_Entry.mdUpdateAction entry;
          px = Price (sint (MDIncrementalRefreshBook46_Entry.mdEntryPx entry));
          sz = sint (MDIncrementalRefreshBook46_Entry.mdEntrySize entry);
          bbo = getBBO sec_id e;
          top = (MDIncrementalRefreshBook46_Entry.mdPriceLevel entry = 1);
          set = (w < 6 \<and> is_update (action_of w));
          bbo =
            (if MDIncrementalRefreshBook46_Entry.mdEntryType entry = MDEntryType_Bid then
               if top \<and> set then bbo\<lparr>best_bid := px, bid_size := sz\<rparr>
               else if top \<and> w = 2 then bbo\<lparr>best_bid := Price_null, bid_size := 0\<rparr>
               else bbo
             else if MDIncrementalRefreshBook46_Entry.mdEntryType entry = MDEntryType_Offer then
               if top \<and> set then bbo\<lparr>best_ask := px, ask_size := sz\<rparr>
               else if top \<and> w = 2 then bbo\<lparr>best_ask := Price_null, ask_size := 0\<rparr>
               else bbo
             else bbo)
      in e\<lparr>bbos := (bbos e)(sec_id \<mapsto> bbo)\<rparr>)"

definition updateBBO :: "MDIncrementalRefreshBook46 \<Rightarrow> SynEngine \<Rightarrow> SynEngine" where
  "updateBBO msg e = fold update_bbo_entry (MDIncrementalRefreshBook46.entries msg) e"

text \<open>The loop over the ids; \<open>filled\<close> collects the orders to remove.\<close>

fun fill_resting :: "Price \<Rightarrow> Quantity \<Rightarrow> OrderId list \<Rightarrow> SynEngine \<times> EngineEvent list \<times> OrderId list \<Rightarrow>
    (SynEngine \<times> EngineEvent list \<times> OrderId list) option" where
  "fill_resting tp tq [] st = Some st"
| "fill_resting tp tq (oid # ids) (e, evs, filled) =
     (case resting_orders e oid of
        None \<Rightarrow> fill_resting tp tq ids (e, evs, filled)
      | Some r \<Rightarrow>
          let order = resting_order r
          in if (Order.side order = Buy \<and> tp \<le> Order.price order) \<or>
                (Order.side order \<noteq> Buy \<and> Order.side order = Sell \<and> Order.price order \<le> tp) then
               do {
                 (yes, e) \<leftarrow> shouldFill e;
                 let fill_qty = min (remainingQty order) tq;
                 if \<not> yes \<or> fill_qty \<le> 0 then fill_resting tp tq ids (e, evs, filled)
                 else
                   let (order, e, ev) = generateFill order tp fill_qty e;
                       e = e\<lparr>resting_orders := (resting_orders e)(oid \<mapsto> r\<lparr>resting_order := order\<rparr>)\<rparr>
                   in fill_resting tp tq ids (e, evs @ [ev], if isFullyFilled order then filled @ [oid] else filled)
               }
             else fill_resting tp tq ids (e, evs, filled))"

definition remove_filled :: "SecurityId \<Rightarrow> OrderId \<Rightarrow> SynEngine \<Rightarrow> SynEngine" where
  "remove_filled sec oid e = e\<lparr>resting_orders := (resting_orders e)(oid := None),
     orders_by_security := (orders_by_security e)(sec \<mapsto> removeAll oid (ids_of sec e))\<rparr>"

definition checkFillsOnTrade ::
  "SecurityId \<Rightarrow> Price \<Rightarrow> Quantity \<Rightarrow> Side \<Rightarrow> SynEngine \<Rightarrow> (SynEngine \<times> EngineEvent list) option" where
  "checkFillsOnTrade sec tp tq aggressor e =
     (case orders_by_security e sec of
        None \<Rightarrow> Some (e, [])
      | Some order_ids \<Rightarrow> do {
          (e, evs, filled_ids) \<leftarrow> fill_resting tp tq order_ids (e, [], []);
          Some (fold (remove_filled sec) filled_ids e, evs)
        })"

fun replay_trades :: "MDIncrementalRefreshTradeSummary48_MDEntry list \<Rightarrow> SynEngine \<Rightarrow> SynEngine option" where
  "replay_trades [] e = Some e"
| "replay_trades (entry # rest) e = do {
     let aggressor = (if MDIncrementalRefreshTradeSummary48_MDEntry.aggressorSide entry = 1 then Buy else Sell);
     (e, fill_events) \<leftarrow> checkFillsOnTrade (sint (MDIncrementalRefreshTradeSummary48_MDEntry.securityID entry))
        (Price (sint (MDIncrementalRefreshTradeSummary48_MDEntry.mdEntryPx entry)))
        (sint (MDIncrementalRefreshTradeSummary48_MDEntry.mdEntrySize entry)) aggressor e;
     replay_trades rest (e\<lparr>pending_events := pending_events e @ fill_events\<rparr>)
   }"

definition MDP3_PACKET_HEADER_SIZE :: nat where "MDP3_PACKET_HEADER_SIZE = 12"

text \<open>The loop over the messages of a packet; \<open>None\<close>: a read past its end (or no draws left).\<close>

function replay_messages :: "bytes \<Rightarrow> nat \<Rightarrow> SynEngine \<Rightarrow> SynEngine option" where
  "replay_messages data offset e =
     (if offset + MessageHeader_SIZE \<le> length data then do {
        template_id \<leftarrow> decodeTemplateId data offset;
        block_length \<leftarrow> decodeBlockLength data offset;
        if template_id = MDIncrementalRefreshBook46_TEMPLATE_ID then do {
          msg \<leftarrow> MDIncrementalRefreshBook46_decode data offset;
          replay_messages data (offset + (MessageHeader_SIZE + MDIncrementalRefreshBook46_size msg)) (updateBBO msg e)
        }
        else if template_id = MDIncrementalRefreshTradeSummary48_TEMPLATE_ID then do {
          msg \<leftarrow> MDIncrementalRefreshTradeSummary48_decode data offset;
          e \<leftarrow> replay_trades (MDIncrementalRefreshTradeSummary48.mdEntries msg) e;
          replay_messages data (offset + (MessageHeader_SIZE + MDIncrementalRefreshTradeSummary48_size msg)) e
        }
        else replay_messages data (offset + (MessageHeader_SIZE + unat (block_length :: 16 word))) e
      }
      else Some e)"
  by pat_completeness auto

termination replay_messages
  by (relation "measure (\<lambda>(data, offset, e). length data + 8 - offset)") (auto simp: MessageHeader_SIZE_def)

declare replay_messages.simps [simp del]

definition processReplayedPacket :: "bytes \<Rightarrow> SynEngine \<Rightarrow> SynEngine option" where
  "processReplayedPacket data e =
     (if length data < MDP3_PACKET_HEADER_SIZE then Some e else replay_messages data MDP3_PACKET_HEADER_SIZE e)"

text \<open>
  The replay loop over the capture, as long as the engine is running; the second component is what the
  market data callback is given.
\<close>

fun replayLoop :: "PcapPacket list \<Rightarrow> SynEngine \<Rightarrow> (SynEngine \<times> bytes list) option" where
  "replayLoop [] e = Some (e\<lparr>syn_running := False\<rparr>, [])"
| "replayLoop (packet # packets) e =
     (if \<not> syn_running e then Some (e, [])
      else if pkt_data packet = [] then replayLoop packets e
      else do {
        e \<leftarrow> processReplayedPacket (pkt_data packet) e;
        (e, fwd) \<leftarrow> replayLoop packets e;
        Some (e, pkt_data packet # fwd)
      })"

text \<open>\<open>reader\<close> is the engine's reader; the capture is read to its end.\<close>

definition startReplay :: "PcapReader \<Rightarrow> SynEngine \<Rightarrow> bool \<times> PcapReader \<times> SynEngine" where
  "startReplay reader e =
     (if syn_running e then (False, reader, e)
      else
        let (ok, reader) = (if pcap_is_open reader then (True, reader) else pcap_open reader)
        in if \<not> ok then (False, reader, e) else (True, reader, e\<lparr>syn_running := True\<rparr>))"

definition stopReplay :: "SynEngine \<Rightarrow> SynEngine" where
  "stopReplay e = e\<lparr>syn_running := False\<rparr>"

end
