(* ===== verification/Synthetic_Properties.thy ===== *)
theory Synthetic_Properties
  imports Synthetic_Engine
begin

text \<open>
  Properties of the synthetic engine: its tables stay consistent, its events account for every change of
  the resting orders, its fills respect limit prices and remaining quantities, and it fulfils the
  engine contract of the gateway.
\<close>

section \<open>The tables\<close>

definition syn_inv :: "SynEngine \<Rightarrow> bool" where
  "syn_inv e \<longleftrightarrow>
     (\<forall>oid r. resting_orders e oid = Some r \<longrightarrow> order_id (resting_order r) = oid \<and>
        oid \<in> set (ids_of (security_id (resting_order r)) e)) \<and>
     (\<forall>sec. distinct (ids_of sec e) \<and> (\<forall>oid\<in>set (ids_of sec e). unat oid < unat (syn_next_order_id e) \<and>
        (\<forall>r. resting_orders e oid = Some r \<longrightarrow> security_id (resting_order r) = sec)))"

lemma syn_invD:
  assumes "syn_inv e"
  shows "resting_orders e oid = Some r \<Longrightarrow> order_id (resting_order r) = oid"
    and "resting_orders e oid = Some r \<Longrightarrow> oid \<in> set (ids_of (security_id (resting_order r)) e)"
    and "distinct (ids_of sec e)"
    and "oid \<in> set (ids_of sec e) \<Longrightarrow> unat oid < unat (syn_next_order_id e)"
    and "oid \<in> set (ids_of sec e) \<Longrightarrow> resting_orders e oid = Some r \<Longrightarrow> security_id (resting_order r) = sec"
  using assms unfolding syn_inv_def by blast+

lemma syn_inv_fresh: "syn_inv e \<Longrightarrow> resting_orders e (syn_next_order_id e) = None"
  using syn_invD(2,4) by (metis less_irrefl not_Some_eq)

lemma syn_inv_new: "syn_inv (SyntheticEngine_new rng)"
  by (simp add: syn_inv_def SyntheticEngine_new_def ids_of_def)

section \<open>Following the orders by the events\<close>

type_synonym order_view = "ClOrdId \<times> uuid_t \<times> SecurityId \<times> Side \<times> Price \<times> Quantity"

definition view_of :: "Order \<Rightarrow> order_view" where
  "view_of o' = (cl_ord_id o', session_uuid o', security_id o', Order.side o', Order.price o', quantity o')"

definition open_orders :: "SynEngine \<Rightarrow> OrderId \<rightharpoonup> order_view" where
  "open_orders e oid = map_option (\<lambda>r. view_of (resting_order r)) (resting_orders e oid)"

fun apply_event :: "EngineEvent \<Rightarrow> (OrderId \<rightharpoonup> order_view) \<Rightarrow> (OrderId \<rightharpoonup> order_view)" where
  "apply_event (EvAccepted a) m = m(acc_order_id a \<mapsto> (acc_cl_ord_id a, acc_session_uuid a, acc_security_id a,
     acc_side a, acc_price a, acc_quantity a))"
| "apply_event (EvFilled f) m = (if taker_leaves_qty f \<le> 0 then m(taker_order_id f := None) else m)"
| "apply_event (EvCancelled c) m = m(can_order_id c := None)"
| "apply_event (EvModified x) m = m(mod_order_id x := map_option (\<lambda>(cl, u, sec, sd, p, q).
     (mod_cl_ord_id x, u, sec, sd, mod_new_price x, mod_new_qty x)) (m (mod_order_id x)))"
| "apply_event _ m = m"

definition syn_feed :: "SynEngine \<Rightarrow> EngineEvent list \<Rightarrow> SynEngine \<Rightarrow> bool" where
  "syn_feed e evs e' \<longleftrightarrow> fold apply_event evs (open_orders e) = open_orders e'"

definition syn_room :: "nat \<Rightarrow> SynEngine \<Rightarrow> bool" where
  "syn_room n e \<longleftrightarrow> syn_inv e \<and> unat (syn_next_order_id e) + n < 2 ^ 64"

section \<open>The operations of the interface\<close>

lemma open_orders_upd:
  "open_orders (e\<lparr>resting_orders := (resting_orders e)(oid \<mapsto> r)\<rparr>) = (open_orders e)(oid \<mapsto> view_of (resting_order r))"
  "open_orders (e\<lparr>resting_orders := (resting_orders e)(oid := None)\<rparr>) = (open_orders e)(oid := None)"
  by (auto simp: open_orders_def)

lemma open_orders_other [simp]:
  "open_orders (e\<lparr>orders_by_security := x\<rparr>) = open_orders e" "open_orders (e\<lparr>syn_next_order_id := i\<rparr>) = open_orders e"
  "open_orders (e\<lparr>syn_next_trade_id := i\<rparr>) = open_orders e" "open_orders (e\<lparr>draws := ds\<rparr>) = open_orders e"
  "open_orders (e\<lparr>pending_events := evs\<rparr>) = open_orders e" "open_orders (e\<lparr>bbos := bs\<rparr>) = open_orders e"
  "open_orders (e\<lparr>syn_running := b\<rparr>) = open_orders e"
  by (simp_all add: open_orders_def fun_eq_iff)

lemma ids_of_other [simp]:
  "ids_of sec (e\<lparr>resting_orders := x\<rparr>) = ids_of sec e" "ids_of sec (e\<lparr>syn_next_order_id := i\<rparr>) = ids_of sec e"
  "ids_of sec (e\<lparr>syn_next_trade_id := i\<rparr>) = ids_of sec e" "ids_of sec (e\<lparr>draws := ds\<rparr>) = ids_of sec e"
  "ids_of sec (e\<lparr>orders_by_security := (orders_by_security e)(sec' \<mapsto> ids)\<rparr>) = (if sec = sec' then ids else ids_of sec e)"
  by (simp_all add: ids_of_def)

text \<open>What neither table sees.\<close>

lemma syn_inv_other [simp]:
  "syn_inv (e\<lparr>syn_next_trade_id := i\<rparr>) = syn_inv e" "syn_inv (e\<lparr>draws := ds\<rparr>) = syn_inv e"
  "syn_inv (e\<lparr>pending_events := evs\<rparr>) = syn_inv e" "syn_inv (e\<lparr>bbos := bs\<rparr>) = syn_inv e"
  "syn_inv (e\<lparr>syn_running := b\<rparr>) = syn_inv e"
  by (simp_all add: syn_inv_def ids_of_def)

lemma syn_inv_next:
  assumes "syn_inv e" and "unat (syn_next_order_id e) < unat n"
  shows "syn_inv (e\<lparr>syn_next_order_id := n\<rparr>)"
  using assms unfolding syn_inv_def by (simp add: less_trans [OF _ assms(2)])

lemma syn_inv_rest:
  assumes inv: "syn_inv e" and fresh: "resting_orders e oid = None" "\<forall>sec. oid \<notin> set (ids_of sec e)"
    and oid: "unat oid < unat (syn_next_order_id e)" "order_id ord = oid"
  shows "syn_inv (e\<lparr>orders_by_security := (orders_by_security e)(security_id ord \<mapsto> ids_of (security_id ord) e @ [oid]),
     resting_orders := (resting_orders e)(oid \<mapsto> \<lparr>resting_order = ord, submit_time = now\<rparr>)\<rparr>)"
  using syn_invD [OF inv] fresh oid unfolding syn_inv_def by (auto split: if_splits) metis

lemma syn_inv_remove:
  assumes inv: "syn_inv e"
  shows "syn_inv (e\<lparr>orders_by_security := (orders_by_security e)(sec \<mapsto> removeAll oid (ids_of sec e)),
     resting_orders := (resting_orders e)(oid := None)\<rparr>)"
  using syn_invD [OF inv] unfolding syn_inv_def by (auto simp: distinct_removeAll split: if_splits)

lemma syn_inv_update:
  assumes inv: "syn_inv e" and "resting_orders e oid = Some r" and "order_id ord = oid"
    and "security_id ord = security_id (resting_order r)"
  shows "syn_inv (e\<lparr>resting_orders := (resting_orders e)(oid \<mapsto> r\<lparr>resting_order := ord\<rparr>)\<rparr>)"
  using syn_invD [OF inv] assms(2-4) unfolding syn_inv_def by (auto split: if_splits)

lemma syn_submit_ok:
  assumes room: "syn_room (Suc n) e" and s: "syn_submitOrder now ptr ord e = (e', evs)"
  shows "syn_room n e' \<and> syn_feed e evs e'"
proof -
  have inv: "syn_inv e" and b: "unat (syn_next_order_id e) + Suc n < 2 ^ 64" using room by (simp_all add: syn_room_def)
  have u: "unat (syn_next_order_id e + 1) = Suc (unat (syn_next_order_id e))"
    using b by (simp only: unat_word_ariths) simp
  let ?oid = "syn_next_order_id e" let ?e = "e\<lparr>syn_next_order_id := ?oid + 1\<rparr>"
  let ?o = "ord\<lparr>order_id := ?oid, timestamp := now, status := New\<rparr>"
  have inv': "syn_inv ?e" by (rule syn_inv_next [OF inv]) (simp add: u)
  have fresh: "resting_orders e ?oid = None" by (rule syn_inv_fresh [OF inv])
  have ids: "\<forall>sec. ?oid \<notin> set (ids_of sec ?e)" using syn_invD(4) [OF inv] by auto
  have view: "(open_orders e)(?oid := None) = open_orders e" using fresh by (auto simp: open_orders_def)
  show ?thesis
  proof (cases "isMarketable ?o (getBBO (security_id ord) ?e)")
    case True
    then have e': "e' = ?e\<lparr>syn_next_trade_id := syn_next_trade_id e + 1\<rparr>"
      and "\<exists>a f. evs = [EvAccepted a, EvFilled f] \<and> acc_order_id a = ?oid \<and> taker_order_id f = ?oid \<and> taker_leaves_qty f = 0"
      using s by (auto simp: syn_submitOrder_def generateFill_def Let_def remainingQty_def)
    then show ?thesis using inv' b u view by (auto simp: syn_room_def syn_feed_def)
  next
    case no: False
    show ?thesis
    proof (cases "time_in_force ord = IOC \<or> time_in_force ord = FOK")
      case True
      then show ?thesis using no s inv' b u view
        by (auto simp: syn_submitOrder_def Let_def syn_cancelled_def syn_room_def syn_feed_def)
    next
      case False
      let ?r = "\<lparr>resting_order = ?o, submit_time = now\<rparr>"
      let ?f = "?e\<lparr>orders_by_security := (orders_by_security e)(security_id ord \<mapsto> ids_of (security_id ord) e @ [?oid]),
          resting_orders := (resting_orders e)(?oid \<mapsto> ?r)\<rparr>"
      have "e' = ?f" and evs: "\<exists>a. evs = [EvAccepted a] \<and> (acc_order_id a, acc_cl_ord_id a, acc_session_uuid a, acc_security_id a,
           acc_side a, acc_price a, acc_quantity a) = (?oid, view_of ?o)"
        using no False s fresh by (auto simp: syn_submitOrder_def Let_def view_of_def)
      moreover have "syn_inv ?f"
        using syn_inv_rest [OF inv', of ?oid ?o now] fresh ids u by simp
      moreover have "open_orders ?f = (open_orders e)(?oid \<mapsto> view_of ?o)" by (auto simp: open_orders_def)
      ultimately show ?thesis using b u by (auto simp: syn_room_def syn_feed_def)
    qed
  qed
qed

lemma syn_cancel_ok:
  assumes room: "syn_room n e" and s: "syn_cancelOrder oid sec u e = (e', evs)"
  shows "syn_room n e' \<and> syn_feed e evs e'"
proof (cases "resting_orders e oid")
  case None
  then show ?thesis using assms by (auto simp: syn_cancelOrder_def syn_feed_def)
next
  case (Some r)
  let ?f = "e\<lparr>orders_by_security := (orders_by_security e)(sec \<mapsto> removeAll oid (ids_of sec e)),
     resting_orders := (resting_orders e)(oid := None)\<rparr>"
  have inv: "syn_inv e" using room by (simp add: syn_room_def)
  have "e' = ?f" "evs = [syn_cancelled ((resting_order r)\<lparr>status := Canceled\<rparr>)]"
    using s Some by (simp_all add: syn_cancelOrder_def Let_def)
  moreover have "order_id (resting_order r) = oid" using syn_invD(1) [OF inv Some] .
  moreover have "open_orders ?f = (open_orders e)(oid := None)" by (auto simp: open_orders_def)
  ultimately show ?thesis using room syn_inv_remove [OF inv, where sec = sec and oid = oid]
    by (simp add: syn_room_def syn_feed_def syn_cancelled_def)
qed

lemma syn_modify_ok:
  assumes room: "syn_room n e" and s: "syn_modifyOrder oid sec np nq ncl e = (e', evs)"
  shows "syn_room n e' \<and> syn_feed e evs e'"
proof (cases "resting_orders e oid")
  case None
  then show ?thesis using assms by (auto simp: syn_modifyOrder_def syn_feed_def)
next
  case (Some r)
  let ?o = "(resting_order r)\<lparr>Order.price := np, quantity := nq, cl_ord_id := ncl, status := Replaced\<rparr>"
  let ?f = "e\<lparr>resting_orders := (resting_orders e)(oid \<mapsto> r\<lparr>resting_order := ?o\<rparr>)\<rparr>"
  have inv: "syn_inv e" using room by (simp add: syn_room_def)
  have id: "order_id (resting_order r) = oid" using syn_invD(1) [OF inv Some] .
  have "e' = ?f" and "\<exists>x. evs = [EvModified x] \<and> mod_order_id x = oid \<and> mod_cl_ord_id x = ncl \<and> mod_new_price x = np \<and> mod_new_qty x = nq"
    using s Some id by (auto simp: syn_modifyOrder_def Let_def)
  moreover have "syn_inv ?f" using syn_inv_update [OF inv Some, of ?o] id by simp
  moreover have "open_orders e oid = Some (view_of (resting_order r))" using Some by (simp add: open_orders_def)
  ultimately show ?thesis using room by (auto simp: syn_room_def syn_feed_def open_orders_upd view_of_def)
qed

interpretation synthetic: order_engine SyntheticEngine syn_room "\<lambda>e. {}" syn_feed
proof
  fix n e ptr ord now e' evs
  assume "syn_room (Suc n) e" "me_submitOrder SyntheticEngine now ptr ord e = (e', evs)"
  then show "syn_room n e' \<and> {} \<subseteq> insert ptr {} \<and> syn_feed e evs e'"
    using syn_submit_ok by (simp add: SyntheticEngine_def)
next
  fix n e oid sec u e' evs
  assume "syn_room n e" "me_cancelOrder SyntheticEngine oid sec u e = (e', evs)"
  then show "syn_room n e' \<and> {} \<subseteq> {} \<and> syn_feed e evs e'"
    using syn_cancel_ok by (simp add: SyntheticEngine_def)
next
  fix n e oid sec np nq ncl e' evs
  assume "syn_room n e" "me_modifyOrder SyntheticEngine oid sec np nq ncl e = (e', evs)"
  then show "syn_room n e' \<and> {} \<subseteq> {} \<and> syn_feed e evs e'"
    using syn_modify_ok by (simp add: SyntheticEngine_def)
qed (auto simp: syn_room_def syn_feed_def)

section \<open>Fills on replayed trades\<close>

text \<open>A fill of a resting order by a trade at \<open>tp\<close> of size \<open>tq\<close>.\<close>

definition trade_fill_ok :: "Price \<Rightarrow> Quantity \<Rightarrow> SynEngine \<Rightarrow> OrderFilled \<Rightarrow> bool" where
  "trade_fill_ok tp tq e f \<longleftrightarrow> (case resting_orders e (taker_order_id f) of
     None \<Rightarrow> False
   | Some r \<Rightarrow> let ord = resting_order r in
       trade_price f = tp \<and> 0 < trade_qty f \<and> trade_qty f \<le> tq \<and> trade_qty f \<le> remainingQty ord \<and>
       taker_cum_qty f = filled_qty ord + trade_qty f \<and> taker_leaves_qty f = remainingQty ord - trade_qty f \<and>
       taker_session_uuid f = session_uuid ord \<and>
       (Order.side ord = Buy \<and> tp \<le> Order.price ord \<or> Order.side ord = Sell \<and> Order.price ord \<le> tp))"

lemma trade_fill_ok_cong:
  "resting_orders e' (taker_order_id f) = resting_orders e (taker_order_id f) \<Longrightarrow> trade_fill_ok tp tq e' f = trade_fill_ok tp tq e f"
  by (simp add: trade_fill_ok_def)

lemma shouldFill_state: "shouldFill e = Some (b, e') \<Longrightarrow> \<exists>ds. e' = e\<lparr>draws := ds\<rparr>"
proof -
  assume "shouldFill e = Some (b, e')"
  then consider "e' = e" | ds where "e' = e\<lparr>draws := ds\<rparr>"
    by (auto simp: shouldFill_def split: if_splits list.splits)
  then show ?thesis by cases (auto intro: exI [where x = "draws e"])
qed

text \<open>One filled order: its entry changes, its view does not.\<close>

lemma generateFill_step:
  assumes inv: "syn_inv e" and r: "resting_orders e oid = Some r"
    and g: "generateFill (resting_order r) tp q e = (ord, e1, ev)"
  defines "e2 \<equiv> e1\<lparr>resting_orders := (resting_orders e1)(oid \<mapsto> r\<lparr>resting_order := ord\<rparr>)\<rparr>"
  shows "syn_inv e2" "open_orders e2 = open_orders e"
    "e1 = e\<lparr>syn_next_trade_id := syn_next_trade_id e + 1\<rparr>"
    "\<exists>f. ev = EvFilled f \<and> taker_order_id f = oid \<and> trade_price f = tp \<and> trade_qty f = q \<and>
       taker_cum_qty f = filled_qty (resting_order r) + q \<and> taker_leaves_qty f = remainingQty (resting_order r) - q \<and>
       taker_session_uuid f = session_uuid (resting_order r) \<and> (taker_leaves_qty f \<le> 0 \<longleftrightarrow> isFullyFilled ord)"
proof -
  let ?o = "(resting_order r)\<lparr>filled_qty := filled_qty (resting_order r) + q,
    status := if isFullyFilled ((resting_order r)\<lparr>filled_qty := filled_qty (resting_order r) + q\<rparr>) then Filled else PartiallyFilled\<rparr>"
  have o: "ord = ?o" and e1: "e1 = e\<lparr>syn_next_trade_id := syn_next_trade_id e + 1\<rparr>"
    using g by (simp_all add: generateFill_def Let_def)
  have id: "order_id (resting_order r) = oid" using syn_invD(1) [OF inv r] .
  have "syn_inv e1" "resting_orders e1 oid = Some r" using inv r by (simp_all add: e1)
  from syn_inv_update [OF this, of ord] show "syn_inv e2" using id by (simp add: e2_def o)
  show "e1 = e\<lparr>syn_next_trade_id := syn_next_trade_id e + 1\<rparr>" by (fact e1)
  have "view_of ord = view_of (resting_order r)" by (simp add: o view_of_def)
  then show "open_orders e2 = open_orders e" using r by (auto simp: e2_def e1 open_orders_def)
  show "\<exists>f. ev = EvFilled f \<and> taker_order_id f = oid \<and> trade_price f = tp \<and> trade_qty f = q \<and>
       taker_cum_qty f = filled_qty (resting_order r) + q \<and> taker_leaves_qty f = remainingQty (resting_order r) - q \<and>
       taker_session_uuid f = session_uuid (resting_order r) \<and> (taker_leaves_qty f \<le> 0 \<longleftrightarrow> isFullyFilled ord)"
    using g id by (auto simp: generateFill_def Let_def remainingQty_def isFullyFilled_def)
qed

definition same_tables :: "SynEngine \<Rightarrow> SynEngine \<Rightarrow> bool" where
  "same_tables e e' \<longleftrightarrow> orders_by_security e' = orders_by_security e \<and> syn_next_order_id e' = syn_next_order_id e \<and>
     pending_events e' = pending_events e"

lemma restrict_remove: "(m |` (- set xs))(k := None) = m |` (- set (xs @ [k]))"
  by (auto simp: restrict_map_def)

lemma fill_resting_ok:
  "fill_resting tp tq ids (e, evs, filled) = Some (e', evs', filled') \<Longrightarrow> syn_inv e \<Longrightarrow> distinct ids \<Longrightarrow>
     fold apply_event evs m0 = open_orders e |` (- set filled) \<Longrightarrow>
   syn_inv e' \<and> same_tables e e' \<and> fold apply_event evs' m0 = open_orders e' |` (- set filled') \<and>
   (\<exists>fs. evs' = evs @ map EvFilled fs \<and> (\<forall>f\<in>set fs. taker_order_id f \<in> set ids \<and> trade_fill_ok tp tq e f) \<and>
      distinct (map taker_order_id fs))"
proof (induction ids arbitrary: e evs filled)
  case Nil
  then show ?case by (auto simp: same_tables_def)
next
  case (Cons oid ids)
  have dist: "distinct ids" "oid \<notin> set ids" using Cons.prems(3) by simp_all
  have skip: ?case if "fill_resting tp tq ids (e\<lparr>draws := ds\<rparr>, evs, filled) = Some (e', evs', filled')" for ds
  proof -
    have "trade_fill_ok tp tq (e\<lparr>draws := ds\<rparr>) f = trade_fill_ok tp tq e f" for f by (simp add: trade_fill_ok_def)
    then show ?thesis using Cons.IH [OF that _ dist(1)] Cons.prems(2,4) by (simp add: same_tables_def) blast
  qed
  have same: "e\<lparr>draws := draws e\<rparr> = e" by simp
  show ?case
  proof (cases "resting_orders e oid")
    case None
    then show ?thesis using Cons.prems(1) skip [of "draws e"] by simp
  next
    case (Some r)
    let ?o = "resting_order r"
    let ?cross = "Order.side ?o = Buy \<and> tp \<le> Order.price ?o \<or> Order.side ?o = Sell \<and> Order.price ?o \<le> tp"
    show ?thesis
    proof (cases ?cross)
      case False
      then have "fill_resting tp tq ids (e, evs, filled) = Some (e', evs', filled')"
        using Cons.prems(1) Some by (auto simp: Let_def split: if_splits)
      then show ?thesis using skip [of "draws e"] by simp
    next
      case True
      then obtain yes e1 where y: "shouldFill e = Some (yes, e1)"
        using Cons.prems(1) Some by (auto simp: Let_def bind_eq_Some_conv split: if_splits)
      then obtain ds where e1: "e1 = e\<lparr>draws := ds\<rparr>" using shouldFill_state by blast
      let ?q = "min (remainingQty ?o) tq"
      show ?thesis
      proof (cases "\<not> yes \<or> ?q \<le> 0")
        case no: True
        then have "fill_resting tp tq ids (e1, evs, filled) = Some (e', evs', filled')"
          using Cons.prems(1) Some True y by (auto simp: Let_def)
        then show ?thesis using skip e1 by blast
      next
        case fill: False
        obtain ord e2 ev where g: "generateFill ?o tp ?q e1 = (ord, e2, ev)" by (metis prod_cases3)
        let ?e3 = "e2\<lparr>resting_orders := (resting_orders e2)(oid \<mapsto> r\<lparr>resting_order := ord\<rparr>)\<rparr>"
        let ?filled = "if isFullyFilled ord then filled @ [oid] else filled"
        have rec: "fill_resting tp tq ids (?e3, evs @ [ev], ?filled) = Some (e', evs', filled')"
          using Cons.prems(1) Some True y fill g by (auto simp: Let_def)
        have "syn_inv e1" "resting_orders e1 oid = Some r" using Cons.prems(2) Some by (simp_all add: e1)
        note s = generateFill_step [OF this g]
        obtain f where f: "ev = EvFilled f" "taker_order_id f = oid" "trade_price f = tp" "trade_qty f = ?q"
          "taker_cum_qty f = filled_qty ?o + ?q" "taker_leaves_qty f = remainingQty ?o - ?q"
          "taker_session_uuid f = session_uuid ?o" "taker_leaves_qty f \<le> 0 \<longleftrightarrow> isFullyFilled ord"
          using s(4) by blast
        have "apply_event ev (open_orders e |` (- set filled)) = open_orders ?e3 |` (- set ?filled)"
          using f(1,2,8) s(2) restrict_remove [of "open_orders e" filled oid] by (simp add: e1)
        then have m: "fold apply_event (evs @ [ev]) m0 = open_orders ?e3 |` (- set ?filled)" using Cons.prems(4) by simp
        obtain fs where IH: "syn_inv e'" "same_tables ?e3 e'" "fold apply_event evs' m0 = open_orders e' |` (- set filled')"
          "evs' = (evs @ [ev]) @ map EvFilled fs" "\<forall>f\<in>set fs. taker_order_id f \<in> set ids \<and> trade_fill_ok tp tq ?e3 f"
          "distinct (map taker_order_id fs)"
          using Cons.IH [OF rec s(1) dist(1) m] by blast
        have "resting_orders ?e3 i = resting_orders e i" if "i \<noteq> oid" for i using that by (simp add: s(3) e1)
        then have "\<forall>f\<in>set fs. trade_fill_ok tp tq e f" using IH(5) dist(2) trade_fill_ok_cong by (metis)
        moreover have "0 < ?q" using fill by linarith
        with f Some True have "trade_fill_ok tp tq e f" by (simp add: trade_fill_ok_def)
        moreover have "same_tables e e'" using IH(2) by (simp add: same_tables_def s(3) e1)
        ultimately show ?thesis using IH f(1,2) dist(2)
          by (intro conjI exI [where x = "f # fs"]) auto
      qed
    qed
  qed
qed

lemma remove_filled_all:
  "syn_inv e \<Longrightarrow> syn_inv (fold (remove_filled sec) filled e) \<and>
     open_orders (fold (remove_filled sec) filled e) = open_orders e |` (- set filled) \<and>
     syn_next_order_id (fold (remove_filled sec) filled e) = syn_next_order_id e \<and>
     pending_events (fold (remove_filled sec) filled e) = pending_events e"
proof (induction filled arbitrary: e)
  case Nil
  then show ?case by (simp add: restrict_map_def)
next
  case (Cons oid filled)
  have "remove_filled sec oid e = e\<lparr>orders_by_security := (orders_by_security e)(sec \<mapsto> removeAll oid (ids_of sec e)),
     resting_orders := (resting_orders e)(oid := None)\<rparr>" by (simp add: remove_filled_def)
  then have "syn_inv (remove_filled sec oid e)" using syn_inv_remove [OF Cons.prems, where sec = sec and oid = oid] by simp
  moreover have "open_orders (remove_filled sec oid e) = (open_orders e)(oid := None)" by (auto simp: remove_filled_def open_orders_def)
  ultimately show ?case using Cons.IH [of "remove_filled sec oid e"]
    by (auto simp: restrict_map_def remove_filled_def)
qed

lemma checkFillsOnTrade_ok:
  assumes inv: "syn_inv e" and c: "checkFillsOnTrade sec tp tq agg e = Some (e', evs)"
  shows "syn_inv e' \<and> syn_feed e evs e' \<and> syn_next_order_id e' = syn_next_order_id e \<and> pending_events e' = pending_events e \<and>
    (\<exists>fs. evs = map EvFilled fs \<and> (\<forall>f\<in>set fs. trade_fill_ok tp tq e f) \<and> distinct (map taker_order_id fs))"
proof (cases "orders_by_security e sec")
  case None
  then show ?thesis using assms by (auto simp: checkFillsOnTrade_def syn_feed_def)
next
  case (Some ids)
  then obtain e1 filled where f: "fill_resting tp tq ids (e, [], []) = Some (e1, evs, filled)"
    and e': "e' = fold (remove_filled sec) filled e1"
    using c by (auto simp: checkFillsOnTrade_def bind_eq_Some_conv)
  have "ids = ids_of sec e" using Some by (simp add: ids_of_def)
  then have d: "distinct ids" using syn_invD(3) [OF inv] by simp
  have "fold apply_event [] (open_orders e) = open_orders e |` (- set [])" by (simp add: restrict_map_def)
  note r = fill_resting_ok [OF f inv d this]
  with remove_filled_all [of e1 sec filled] show ?thesis by (auto simp: e' syn_feed_def same_tables_def)
qed

section \<open>Reachable states\<close>

lemma update_bbo_tables: "\<exists>bs. updateBBO msg e = e\<lparr>bbos := bs\<rparr>"
proof -
  have "\<exists>bs. fold update_bbo_entry es e = e\<lparr>bbos := bs\<rparr>" for es
  proof (induction es arbitrary: e)
    case Nil
    then show ?case by (intro exI [where x = "bbos e"]) simp
  next
    case (Cons x es)
    obtain bs where 1: "update_bbo_entry x e = e\<lparr>bbos := bs\<rparr>" by (auto simp: update_bbo_entry_def Let_def)
    obtain bs' where "fold update_bbo_entry es (e\<lparr>bbos := bs\<rparr>) = e\<lparr>bbos := bs'\<rparr>" using Cons.IH [of "e\<lparr>bbos := bs\<rparr>"] by auto
    with 1 show ?case by auto
  qed
  then show ?thesis by (simp add: updateBBO_def)
qed

text \<open>
  What a stretch of replay does to the engine: the new pending events are fills, and they account for the
  change of the resting orders.
\<close>

definition replayed :: "SynEngine \<Rightarrow> SynEngine \<Rightarrow> bool" where
  "replayed e e' \<longleftrightarrow> (\<exists>new. pending_events e' = pending_events e @ new \<and> syn_feed e new e' \<and>
     syn_next_order_id e' = syn_next_order_id e)"

lemma replayed_refl: "replayed e e"
  by (auto simp: replayed_def syn_feed_def)

lemma replayed_trans: "replayed e e' \<Longrightarrow> replayed e' e'' \<Longrightarrow> replayed e e''"
  unfolding replayed_def syn_feed_def by (metis append.assoc fold_append comp_apply)

lemma replay_trades_ok: "syn_inv e \<Longrightarrow> replay_trades ents e = Some e' \<Longrightarrow> syn_inv e' \<and> replayed e e'"
proof (induction ents e rule: replay_trades.induct)
  case (1 e)
  then show ?case by (simp add: replayed_refl)
next
  case (2 entry ents e)
  obtain agg sec tp tq e1 evs where c: "checkFillsOnTrade sec tp tq agg e = Some (e1, evs)"
    and r: "replay_trades ents (e1\<lparr>pending_events := pending_events e1 @ evs\<rparr>) = Some e'"
    and IH: "syn_inv (e1\<lparr>pending_events := pending_events e1 @ evs\<rparr>) \<Longrightarrow>
      syn_inv e' \<and> replayed (e1\<lparr>pending_events := pending_events e1 @ evs\<rparr>) e'"
    using 2 by (auto simp: bind_eq_Some_conv Let_def)
  note ok = checkFillsOnTrade_ok [OF 2(2) c]
  then have "replayed e (e1\<lparr>pending_events := pending_events e1 @ evs\<rparr>)" by (auto simp: replayed_def syn_feed_def)
  with IH ok show ?case using replayed_trans by auto
qed

lemma replay_messages_ok: "syn_inv e \<Longrightarrow> replay_messages data offset e = Some e' \<Longrightarrow> syn_inv e' \<and> replayed e e'"
proof (induction data offset e rule: replay_messages.induct)
  case (1 data offset e)
  show ?case
  proof (cases "offset + MessageHeader_SIZE \<le> length data")
    case False
    then show ?thesis using 1(4,5) by (subst (asm) replay_messages.simps) (simp add: replayed_refl)
  next
    case True
    then obtain t bl where h: "decodeTemplateId data offset = Some t" "decodeBlockLength data offset = Some bl"
      using 1(5) by (subst (asm) replay_messages.simps) (auto simp: bind_eq_Some_conv)
    consider (book) "t = MDIncrementalRefreshBook46_TEMPLATE_ID"
      | (trade) "t \<noteq> MDIncrementalRefreshBook46_TEMPLATE_ID" "t = MDIncrementalRefreshTradeSummary48_TEMPLATE_ID"
      | (other) "t \<noteq> MDIncrementalRefreshBook46_TEMPLATE_ID" "t \<noteq> MDIncrementalRefreshTradeSummary48_TEMPLATE_ID" by blast
    then show ?thesis
    proof cases
      case book
      then obtain msg where m: "MDIncrementalRefreshBook46_decode data offset = Some msg"
        and r: "replay_messages data (offset + (MessageHeader_SIZE + MDIncrementalRefreshBook46_size msg)) (updateBBO msg e) = Some e'"
        using 1(5) True h by (subst (asm) replay_messages.simps) (auto simp: bind_eq_Some_conv)
      obtain bs where "updateBBO msg e = e\<lparr>bbos := bs\<rparr>" using update_bbo_tables by blast
      then have "syn_inv (updateBBO msg e)" "replayed e (updateBBO msg e)"
        using 1(4) by (simp_all add: replayed_def syn_feed_def)
      with 1(1) [OF True h book m this(1) r] show ?thesis using replayed_trans by blast
    next
      case trade
      then obtain msg e1 where m: "MDIncrementalRefreshTradeSummary48_decode data offset = Some msg"
        and e1: "replay_trades (MDIncrementalRefreshTradeSummary48.mdEntries msg) e = Some e1"
        and r: "replay_messages data (offset + (MessageHeader_SIZE + MDIncrementalRefreshTradeSummary48_size msg)) e1 = Some e'"
        using 1(5) True h by (subst (asm) replay_messages.simps) (auto simp: bind_eq_Some_conv)
      note ok = replay_trades_ok [OF 1(4) e1]
      with 1(2) [OF True h trade m] e1 r show ?thesis using replayed_trans by blast
    next
      case other
      then have "replay_messages data (offset + (MessageHeader_SIZE + unat bl)) e = Some e'"
        using 1(5) True h by (subst (asm) replay_messages.simps) simp
      with 1(3) [OF True h other 1(4)] show ?thesis by blast
    qed
  qed
qed

lemma processReplayedPacket_ok:
  "syn_inv e \<Longrightarrow> processReplayedPacket data e = Some e' \<Longrightarrow> syn_inv e' \<and> replayed e e'"
  using replay_messages_ok replayed_refl by (auto simp: processReplayedPacket_def split: if_splits)

text \<open>
  A history of the engine; each event is marked with whether an operation returned it to the gateway
  (\<open>True\<close>) or the replay thread put it aside (\<open>False\<close>).
\<close>

inductive syn_reach :: "SynEngine \<Rightarrow> (bool \<times> EngineEvent) list \<Rightarrow> bool" where
  syn_start: "syn_reach (SyntheticEngine_new rng) []"
| syn_submit: "syn_reach e hist \<Longrightarrow> unat (syn_next_order_id e) + 1 < 2 ^ 64 \<Longrightarrow> syn_submitOrder now ptr ord e = (e', evs) \<Longrightarrow>
    syn_reach e' (hist @ map (Pair True) evs)"
| syn_cancel: "syn_reach e hist \<Longrightarrow> syn_cancelOrder oid sec u e = (e', evs) \<Longrightarrow> syn_reach e' (hist @ map (Pair True) evs)"
| syn_modify: "syn_reach e hist \<Longrightarrow> syn_modifyOrder oid sec np nq ncl e = (e', evs) \<Longrightarrow> syn_reach e' (hist @ map (Pair True) evs)"
| syn_packet: "syn_reach e hist \<Longrightarrow> processReplayedPacket data e = Some e' \<Longrightarrow> pending_events e' = pending_events e @ new \<Longrightarrow>
    syn_reach e' (hist @ map (Pair False) new)"
| syn_probability: "syn_reach e hist \<Longrightarrow> syn_reach (setFillProbability prob e) hist"
| syn_latency: "syn_reach e hist \<Longrightarrow> syn_reach (setFillLatencyNs ns e) hist"

lemma interface_pending:
  "syn_submitOrder now ptr ord e = (e', evs) \<Longrightarrow> pending_events e' = pending_events e"
  "syn_cancelOrder oid sec u e = (e', evs) \<Longrightarrow> pending_events e' = pending_events e"
  "syn_modifyOrder oid sec np nq ncl e = (e', evs) \<Longrightarrow> pending_events e' = pending_events e"
  by (auto simp: syn_submitOrder_def syn_cancelOrder_def syn_modifyOrder_def generateFill_def Let_def
      split: if_splits option.splits)

definition history_ok :: "SynEngine \<Rightarrow> (bool \<times> EngineEvent) list \<Rightarrow> bool" where
  "history_ok e hist \<longleftrightarrow> syn_inv e \<and> fold apply_event (map snd hist) Map.empty = open_orders e \<and>
     map snd (filter (\<lambda>x. \<not> fst x) hist) = pending_events e"

lemma history_step:
  assumes "history_ok e hist" and "syn_inv e'" and "syn_feed e evs e'"
    and "pending_events e' = pending_events e @ (if told then [] else evs)"
  shows "history_ok e' (hist @ map (Pair told) evs)"
  using assms by (cases told) (auto simp: history_ok_def syn_feed_def comp_def filter_map)

lemma unat_less64: "unat (w :: 64 word) < 2 ^ 64"
  using unsigned_less [of w] by simp

lemma syn_reach_ok: "syn_reach e hist \<Longrightarrow> history_ok e hist"
proof (induction rule: syn_reach.induct)
  case (syn_start rng)
  have "open_orders (SyntheticEngine_new rng) = Map.empty" by (simp add: open_orders_def fun_eq_iff SyntheticEngine_new_def)
  then show ?case using syn_inv_new by (simp add: history_ok_def) (simp add: SyntheticEngine_new_def)
next
  case (syn_submit e hist now ptr ord e' evs)
  then have "syn_room (Suc 0) e" by (simp add: syn_room_def history_ok_def)
  from syn_submit_ok [OF this syn_submit.hyps(3)] have "syn_inv e'" "syn_feed e evs e'" by (simp_all add: syn_room_def)
  with syn_submit.IH interface_pending(1) [OF syn_submit.hyps(3)] show ?case by (intro history_step) simp_all
next
  case (syn_cancel e hist oid sec u e' evs)
  have room: "syn_room 0 e" using syn_cancel.IH unat_less64 [of "syn_next_order_id e"] by (simp add: syn_room_def history_ok_def)
  then have "syn_inv e'" "syn_feed e evs e'" using syn_cancel_ok [OF room syn_cancel.hyps(2)] by (simp_all add: syn_room_def)
  with syn_cancel.IH interface_pending(2) [OF syn_cancel.hyps(2)] show ?case by (intro history_step) simp_all
next
  case (syn_modify e hist oid sec np nq ncl e' evs)
  have room: "syn_room 0 e" using syn_modify.IH unat_less64 [of "syn_next_order_id e"] by (simp add: syn_room_def history_ok_def)
  then have "syn_inv e'" "syn_feed e evs e'" using syn_modify_ok [OF room syn_modify.hyps(2)] by (simp_all add: syn_room_def)
  with syn_modify.IH interface_pending(3) [OF syn_modify.hyps(2)] show ?case by (intro history_step) simp_all
next
  case (syn_packet e hist data e' new)
  from processReplayedPacket_ok [OF _ syn_packet.hyps(2)] syn_packet.IH syn_packet.hyps(3)
  have "syn_inv e'" "syn_feed e new e'" by (auto simp: replayed_def history_ok_def)
  with syn_packet.IH syn_packet.hyps(3) show ?case by (intro history_step) simp_all
qed (simp_all add: history_ok_def syn_inv_def open_orders_def fun_eq_iff ids_of_def setFillProbability_def setFillLatencyNs_def Let_def)

text \<open>
  C14.  The synthetic engine's books are its events: in every state reachable by any orders, cancels, modifies,
  replayed packets and changes of the fill probability and latency, the resting orders are exactly those one gets by applying all events, returned or set
  aside by the replay, in their order; the tables by id and by security agree; and a replayed trade in that
  state fills each resting order at most once, at the trade's price, never beyond the order's limit, its
  remaining quantity or the size of the trade.
\<close>

theorem synthetic_orders_follow_events:
  assumes "syn_reach e hist"
  shows "fold apply_event (map snd hist) Map.empty = open_orders e \<and> syn_inv e \<and>
    (\<forall>sec tp tq agg e' evs. checkFillsOnTrade sec tp tq agg e = Some (e', evs) \<longrightarrow>
      (\<exists>fs. evs = map EvFilled fs \<and> (\<forall>f\<in>set fs. trade_fill_ok tp tq e f) \<and> distinct (map taker_order_id fs)))"
  using syn_reach_ok [OF assms] checkFillsOnTrade_ok [of e] unfolding history_ok_def by blast

text \<open>
  The gateway on the synthetic engine: processing a queue completes, and the events it collects account for
  every change of the engine's resting orders.
\<close>

theorem synthetic_gateway:
  assumes "\<forall>cmd\<in>set (command_queue g). cmd_ok cmd" and "synthetic.new_orders (command_queue g)"
    and "distinct (synthetic.queued (command_queue g))" and "syn_room (length (command_queue g)) e"
  shows "\<exists>e' g' rs evs. processCommands SyntheticEngine now e g = Some (e', g', rs, evs) \<and> \<not> hasPendingCommands g' \<and>
    syn_inv e' \<and> fold apply_event evs (open_orders e) = open_orders e'"
proof -
  obtain e' ds evs where s: "spec_queue SyntheticEngine now (command_queue g) e = (e', ds, evs)" by (metis prod_cases3)
  have "syn_room 0 e'" "syn_feed e evs e'"
    using synthetic.spec_queue_ok [of "command_queue g" 0 e now e' ds evs] assms(2-4) s by simp_all
  moreover have "\<exists>g' rs. processCommands SyntheticEngine now e g = Some (e', g', rs, evs) \<and> \<not> hasPendingCommands g'"
    using process_queue_implements [OF assms(1), of SyntheticEngine now e "g\<lparr>command_queue := []\<rparr>"] s
    by (auto simp: implements_def processCommands_def hasPendingCommands_def)
  ultimately show ?thesis by (auto simp: syn_room_def syn_feed_def)
qed

section \<open>Fills that nobody hears of\<close>

definition ex_syn_order :: Order where
  "ex_syn_order = ex_order 0 Buy 100 5 Limit Day"

definition ex_rests :: SynEngine where
  "ex_rests = fst (syn_submitOrder 7 1 ex_syn_order (SyntheticEngine_new []))"


definition ex_told :: "(bool \<times> EngineEvent) list" where
  "ex_told = map (Pair True) (snd (syn_submitOrder 7 1 ex_syn_order (SyntheticEngine_new [])))"

lemma ex_rests_reach: "syn_reach ex_rests ([] @ ex_told)"
  unfolding ex_told_def
  by (rule syn_submit [OF syn_start, of "[]" 7 1 ex_syn_order]) (simp_all add: ex_rests_def SyntheticEngine_new_def)



theorem synthetic_orders_follow_events_witness:
  "syn_reach ex_rests ([] @ ex_told) \<and> fold apply_event (map snd ex_told) Map.empty = open_orders ex_rests"
  using synthetic_orders_follow_events [OF ex_rests_reach] ex_rests_reach by simp

theorem synthetic_gateway_witness:
  "length ex_queue = 2 \<and> (\<exists>e g rs evs. processCommands SyntheticEngine 5 (SyntheticEngine_new []) (ex_gateway\<lparr>command_queue := ex_queue\<rparr>) =
     Some (e, g, rs, evs) \<and> fold apply_event evs (open_orders (SyntheticEngine_new [])) = open_orders e)"
proof -
  let ?g = "ex_gateway\<lparr>command_queue := ex_queue\<rparr>"
  have "synthetic.new_orders (command_queue ?g)" "distinct (synthetic.queued (command_queue ?g))"
    by (simp_all add: synthetic.new_orders_def synthetic.queued_def ex_queue_def ex_command_def ex_new_order_def
        Order_default_def List.map_filter_simps)
  moreover have "syn_room (length (command_queue ?g)) (SyntheticEngine_new [])"
    using syn_inv_new by (simp add: syn_room_def) (simp add: SyntheticEngine_new_def ex_queue_def)
  ultimately show ?thesis using synthetic_gateway [of ?g "SyntheticEngine_new []" 5] ex_queue_ok
    by (auto simp: ex_queue_def)
qed

end
