(* ===== verification/Sbe_Dispatch.thy ===== *)
theory Sbe_Dispatch
  imports ILink3_Session ILink3_Orders ILink3_Exec_Reports Mdp3_Flat Mdp3_Groups
begin

text \<open>
  \<^verbatim>\<open>src/sbe/dispatcher.h\<close>: the choice of the message type by template id.  The result is \<open>None\<close> when a
  read leaves the buffer, \<open>Some None\<close> when the function returns false, and otherwise the message the
  handler is called with.  The theorems cover every message of both protocols at once.
\<close>

section \<open>Heartbeat\<close>

text \<open>\<^verbatim>\<open>AdminHeartbeat12\<close> has no members and no body.\<close>

datatype AdminHeartbeat12 = AdminHeartbeat12

definition AdminHeartbeat12_TEMPLATE_ID :: "16 word" where "AdminHeartbeat12_TEMPLATE_ID = 12"
definition AdminHeartbeat12_BLOCK_LENGTH :: "16 word" where "AdminHeartbeat12_BLOCK_LENGTH = 0"

definition AdminHeartbeat12_encode :: "AdminHeartbeat12 \<Rightarrow> bytes \<Rightarrow> nat \<Rightarrow> (bytes \<times> nat) option" where
  "AdminHeartbeat12_encode m buf offset =
     mdp3_encode AdminHeartbeat12_BLOCK_LENGTH AdminHeartbeat12_TEMPLATE_ID [] buf offset"

definition AdminHeartbeat12_decode :: "bytes \<Rightarrow> nat \<Rightarrow> AdminHeartbeat12 option" where
  "AdminHeartbeat12_decode buf offset = Some AdminHeartbeat12"

definition AdminHeartbeat12_wf :: "AdminHeartbeat12 \<Rightarrow> bool" where "AdminHeartbeat12_wf m \<longleftrightarrow> True"
definition AdminHeartbeat12_size :: "AdminHeartbeat12 \<Rightarrow> nat" where "AdminHeartbeat12_size m = 0"

interpretation adminHeartbeat12: sbe_message MDP3_SCHEMA_ID MDP3_VERSION AdminHeartbeat12_BLOCK_LENGTH
  AdminHeartbeat12_TEMPLATE_ID "\<lambda>_. []" AdminHeartbeat12_size AdminHeartbeat12_encode
  AdminHeartbeat12_decode AdminHeartbeat12_wf
proof
  fix m :: AdminHeartbeat12 and buf off
  show "AdminHeartbeat12_encode m buf off = sbe_encode MDP3_SCHEMA_ID MDP3_VERSION
      AdminHeartbeat12_BLOCK_LENGTH AdminHeartbeat12_TEMPLATE_ID [] (AdminHeartbeat12_size m) buf off"
    by (simp add: AdminHeartbeat12_encode_def mdp3_encode_def AdminHeartbeat12_size_def
        AdminHeartbeat12_BLOCK_LENGTH_def)
  show "packed 0 [] \<and> length (body_of []) = AdminHeartbeat12_size m"
    by (simp add: AdminHeartbeat12_size_def)
  show "AdminHeartbeat12_decode buf off = Some m"
    by (cases m) (simp add: AdminHeartbeat12_decode_def)
qed

section \<open>iLink 3\<close>

datatype ILink3Message =
    MsgNegotiate Negotiate500
  | MsgNegotiationResponse NegotiationResponse501
  | MsgEstablish Establish503
  | MsgEstablishmentAck EstablishmentAck504
  | MsgSequence Sequence506
  | MsgTerminate Terminate507
  | MsgRetransmitRequest RetransmitRequest508
  | MsgRetransmission Retransmission509
  | MsgNotApplied NotApplied513
  | MsgNewOrderSingle NewOrderSingle514
  | MsgOrderCancelReplaceRequest OrderCancelReplaceRequest515
  | MsgOrderCancelRequest OrderCancelRequest516
  | MsgExecutionReportNew ExecutionReportNew522
  | MsgExecutionReportReject ExecutionReportReject523
  | MsgExecutionReportElimination ExecutionReportElimination524
  | MsgExecutionReportTradeOutright ExecutionReportTradeOutright525
  | MsgExecutionReportModify ExecutionReportModify531
  | MsgExecutionReportCancel ExecutionReportCancel534
  | MsgOrderCancelReject OrderCancelReject535

fun ILink3Message_encode :: "ILink3Message \<Rightarrow> bytes \<Rightarrow> nat \<Rightarrow> (bytes \<times> nat) option" where
  "ILink3Message_encode (MsgNegotiate m) = Negotiate500_encode m"
| "ILink3Message_encode (MsgNegotiationResponse m) = NegotiationResponse501_encode m"
| "ILink3Message_encode (MsgEstablish m) = Establish503_encode m"
| "ILink3Message_encode (MsgEstablishmentAck m) = EstablishmentAck504_encode m"
| "ILink3Message_encode (MsgSequence m) = Sequence506_encode m"
| "ILink3Message_encode (MsgTerminate m) = Terminate507_encode m"
| "ILink3Message_encode (MsgRetransmitRequest m) = RetransmitRequest508_encode m"
| "ILink3Message_encode (MsgRetransmission m) = Retransmission509_encode m"
| "ILink3Message_encode (MsgNotApplied m) = NotApplied513_encode m"
| "ILink3Message_encode (MsgNewOrderSingle m) = NewOrderSingle514_encode m"
| "ILink3Message_encode (MsgOrderCancelReplaceRequest m) = OrderCancelReplaceRequest515_encode m"
| "ILink3Message_encode (MsgOrderCancelRequest m) = OrderCancelRequest516_encode m"
| "ILink3Message_encode (MsgExecutionReportNew m) = ExecutionReportNew522_encode m"
| "ILink3Message_encode (MsgExecutionReportReject m) = ExecutionReportReject523_encode m"
| "ILink3Message_encode (MsgExecutionReportElimination m) = ExecutionReportElimination524_encode m"
| "ILink3Message_encode (MsgExecutionReportTradeOutright m) = ExecutionReportTradeOutright525_encode m"
| "ILink3Message_encode (MsgExecutionReportModify m) = ExecutionReportModify531_encode m"
| "ILink3Message_encode (MsgExecutionReportCancel m) = ExecutionReportCancel534_encode m"
| "ILink3Message_encode (MsgOrderCancelReject m) = OrderCancelReject535_encode m"

fun ILink3Message_wf :: "ILink3Message \<Rightarrow> bool" where
  "ILink3Message_wf (MsgNegotiate m) \<longleftrightarrow> Negotiate500_wf m"
| "ILink3Message_wf (MsgNegotiationResponse m) \<longleftrightarrow> NegotiationResponse501_wf m"
| "ILink3Message_wf (MsgEstablish m) \<longleftrightarrow> Establish503_wf m"
| "ILink3Message_wf (MsgEstablishmentAck m) \<longleftrightarrow> EstablishmentAck504_wf m"
| "ILink3Message_wf (MsgSequence m) \<longleftrightarrow> Sequence506_wf m"
| "ILink3Message_wf (MsgTerminate m) \<longleftrightarrow> Terminate507_wf m"
| "ILink3Message_wf (MsgRetransmitRequest m) \<longleftrightarrow> RetransmitRequest508_wf m"
| "ILink3Message_wf (MsgRetransmission m) \<longleftrightarrow> Retransmission509_wf m"
| "ILink3Message_wf (MsgNotApplied m) \<longleftrightarrow> NotApplied513_wf m"
| "ILink3Message_wf (MsgNewOrderSingle m) \<longleftrightarrow> NewOrderSingle514_wf m"
| "ILink3Message_wf (MsgOrderCancelReplaceRequest m) \<longleftrightarrow> OrderCancelReplaceRequest515_wf m"
| "ILink3Message_wf (MsgOrderCancelRequest m) \<longleftrightarrow> OrderCancelRequest516_wf m"
| "ILink3Message_wf (MsgExecutionReportNew m) \<longleftrightarrow> ExecutionReportNew522_wf m"
| "ILink3Message_wf (MsgExecutionReportReject m) \<longleftrightarrow> ExecutionReportReject523_wf m"
| "ILink3Message_wf (MsgExecutionReportElimination m) \<longleftrightarrow> ExecutionReportElimination524_wf m"
| "ILink3Message_wf (MsgExecutionReportTradeOutright m) \<longleftrightarrow> ExecutionReportTradeOutright525_wf m"
| "ILink3Message_wf (MsgExecutionReportModify m) \<longleftrightarrow> ExecutionReportModify531_wf m"
| "ILink3Message_wf (MsgExecutionReportCancel m) \<longleftrightarrow> ExecutionReportCancel534_wf m"
| "ILink3Message_wf (MsgOrderCancelReject m) \<longleftrightarrow> OrderCancelReject535_wf m"

fun ILink3Message_size :: "ILink3Message \<Rightarrow> nat" where
  "ILink3Message_size (MsgNegotiate m) = unat Negotiate500_BLOCK_LENGTH"
| "ILink3Message_size (MsgNegotiationResponse m) = unat NegotiationResponse501_BLOCK_LENGTH"
| "ILink3Message_size (MsgEstablish m) = unat Establish503_BLOCK_LENGTH"
| "ILink3Message_size (MsgEstablishmentAck m) = unat EstablishmentAck504_BLOCK_LENGTH"
| "ILink3Message_size (MsgSequence m) = unat Sequence506_BLOCK_LENGTH"
| "ILink3Message_size (MsgTerminate m) = unat Terminate507_BLOCK_LENGTH"
| "ILink3Message_size (MsgRetransmitRequest m) = unat RetransmitRequest508_BLOCK_LENGTH"
| "ILink3Message_size (MsgRetransmission m) = unat Retransmission509_BLOCK_LENGTH"
| "ILink3Message_size (MsgNotApplied m) = unat NotApplied513_BLOCK_LENGTH"
| "ILink3Message_size (MsgNewOrderSingle m) = unat NewOrderSingle514_BLOCK_LENGTH"
| "ILink3Message_size (MsgOrderCancelReplaceRequest m) = unat OrderCancelReplaceRequest515_BLOCK_LENGTH"
| "ILink3Message_size (MsgOrderCancelRequest m) = unat OrderCancelRequest516_BLOCK_LENGTH"
| "ILink3Message_size (MsgExecutionReportNew m) = unat ExecutionReportNew522_BLOCK_LENGTH"
| "ILink3Message_size (MsgExecutionReportReject m) = unat ExecutionReportReject523_BLOCK_LENGTH"
| "ILink3Message_size (MsgExecutionReportElimination m) = unat ExecutionReportElimination524_BLOCK_LENGTH"
| "ILink3Message_size (MsgExecutionReportTradeOutright m) = unat ExecutionReportTradeOutright525_BLOCK_LENGTH"
| "ILink3Message_size (MsgExecutionReportModify m) = unat ExecutionReportModify531_BLOCK_LENGTH"
| "ILink3Message_size (MsgExecutionReportCancel m) = unat ExecutionReportCancel534_BLOCK_LENGTH"
| "ILink3Message_size (MsgOrderCancelReject m) = unat OrderCancelReject535_BLOCK_LENGTH"

definition dispatchILink3Message :: "bytes \<Rightarrow> nat \<Rightarrow> ILink3Message option option" where
  "dispatchILink3Message buf len =
     (if len < MessageHeader_SIZE then Some None
      else do {
        templateId \<leftarrow> decodeTemplateId buf 0;
        if templateId = Negotiate500_TEMPLATE_ID then map_option (Some \<circ> MsgNegotiate) (Negotiate500_decode buf 0)
        else if templateId = NegotiationResponse501_TEMPLATE_ID then map_option (Some \<circ> MsgNegotiationResponse) (NegotiationResponse501_decode buf 0)
        else if templateId = Establish503_TEMPLATE_ID then map_option (Some \<circ> MsgEstablish) (Establish503_decode buf 0)
        else if templateId = EstablishmentAck504_TEMPLATE_ID then map_option (Some \<circ> MsgEstablishmentAck) (EstablishmentAck504_decode buf 0)
        else if templateId = Sequence506_TEMPLATE_ID then map_option (Some \<circ> MsgSequence) (Sequence506_decode buf 0)
        else if templateId = Terminate507_TEMPLATE_ID then map_option (Some \<circ> MsgTerminate) (Terminate507_decode buf 0)
        else if templateId = RetransmitRequest508_TEMPLATE_ID then map_option (Some \<circ> MsgRetransmitRequest) (RetransmitRequest508_decode buf 0)
        else if templateId = Retransmission509_TEMPLATE_ID then map_option (Some \<circ> MsgRetransmission) (Retransmission509_decode buf 0)
        else if templateId = NotApplied513_TEMPLATE_ID then map_option (Some \<circ> MsgNotApplied) (NotApplied513_decode buf 0)
        else if templateId = NewOrderSingle514_TEMPLATE_ID then map_option (Some \<circ> MsgNewOrderSingle) (NewOrderSingle514_decode buf 0)
        else if templateId = OrderCancelReplaceRequest515_TEMPLATE_ID then map_option (Some \<circ> MsgOrderCancelReplaceRequest) (OrderCancelReplaceRequest515_decode buf 0)
        else if templateId = OrderCancelRequest516_TEMPLATE_ID then map_option (Some \<circ> MsgOrderCancelRequest) (OrderCancelRequest516_decode buf 0)
        else if templateId = ExecutionReportNew522_TEMPLATE_ID then map_option (Some \<circ> MsgExecutionReportNew) (ExecutionReportNew522_decode buf 0)
        else if templateId = ExecutionReportReject523_TEMPLATE_ID then map_option (Some \<circ> MsgExecutionReportReject) (ExecutionReportReject523_decode buf 0)
        else if templateId = ExecutionReportElimination524_TEMPLATE_ID then map_option (Some \<circ> MsgExecutionReportElimination) (ExecutionReportElimination524_decode buf 0)
        else if templateId = ExecutionReportTradeOutright525_TEMPLATE_ID then map_option (Some \<circ> MsgExecutionReportTradeOutright) (ExecutionReportTradeOutright525_decode buf 0)
        else if templateId = ExecutionReportModify531_TEMPLATE_ID then map_option (Some \<circ> MsgExecutionReportModify) (ExecutionReportModify531_decode buf 0)
        else if templateId = ExecutionReportCancel534_TEMPLATE_ID then map_option (Some \<circ> MsgExecutionReportCancel) (ExecutionReportCancel534_decode buf 0)
        else if templateId = OrderCancelReject535_TEMPLATE_ID then map_option (Some \<circ> MsgOrderCancelReject) (OrderCancelReject535_decode buf 0)
        else Some None
      })"

lemmas ILink3Message_ids =
  Negotiate500_TEMPLATE_ID_def
  NegotiationResponse501_TEMPLATE_ID_def
  Establish503_TEMPLATE_ID_def
  EstablishmentAck504_TEMPLATE_ID_def
  Sequence506_TEMPLATE_ID_def
  Terminate507_TEMPLATE_ID_def
  RetransmitRequest508_TEMPLATE_ID_def
  Retransmission509_TEMPLATE_ID_def
  NotApplied513_TEMPLATE_ID_def
  NewOrderSingle514_TEMPLATE_ID_def
  OrderCancelReplaceRequest515_TEMPLATE_ID_def
  OrderCancelRequest516_TEMPLATE_ID_def
  ExecutionReportNew522_TEMPLATE_ID_def
  ExecutionReportReject523_TEMPLATE_ID_def
  ExecutionReportElimination524_TEMPLATE_ID_def
  ExecutionReportTradeOutright525_TEMPLATE_ID_def
  ExecutionReportModify531_TEMPLATE_ID_def
  ExecutionReportCancel534_TEMPLATE_ID_def
  OrderCancelReject535_TEMPLATE_ID_def

text \<open>A dispatcher that finds a message by its template id and decodes it gives back what was encoded.\<close>

context sbe_message
begin

lemma dispatched:
  assumes "wf m" and "8 + msize m \<le> length buf"
    and D: "\<And>b. decodeTemplateId b 0 = Some tid \<Longrightarrow> decode b 0 = Some m \<Longrightarrow> D b = r"
  shows "\<exists>buf'. encode m buf 0 = Some (buf', 8 + msize m) \<and> length buf' = length buf \<and> D buf' = r \<and>
    drop (8 + msize m) buf' = drop (8 + msize m) buf"
proof -
  have "0 + 8 + msize m \<le> length buf" using assms(2) by simp
  from roundtrip [OF assms(1) this] obtain buf' where "encode m buf 0 = Some (buf', 8 + msize m)" "length buf' = length buf"
    "decode buf' 0 = Some m" "decodeTemplateId buf' 0 = Some tid" "drop (8 + msize m) buf' = drop (8 + msize m) buf"
    by (metis add_0)
  with D show ?thesis by blast
qed

end

lemmas dispatchILink3Message_simps = dispatchILink3Message_def ILink3Message_ids MessageHeader_SIZE_def

lemma ILink3Message_roundtrip:
  assumes "ILink3Message_wf m" and "8 + ILink3Message_size m \<le> length buf" and "8 \<le> len"
  shows "\<exists>buf'. ILink3Message_encode m buf 0 = Some (buf', 8 + ILink3Message_size m) \<and> length buf' = length buf \<and>
    dispatchILink3Message buf' len = Some (Some m) \<and> drop (8 + ILink3Message_size m) buf' = drop (8 + ILink3Message_size m) buf"
proof (cases m)
  case (MsgNegotiate x)
  show ?thesis unfolding MsgNegotiate ILink3Message_encode.simps ILink3Message_size.simps
    by (rule negotiate500.dispatched) (use assms MsgNegotiate in \<open>simp_all add: dispatchILink3Message_simps\<close>)
next
  case (MsgNegotiationResponse x)
  show ?thesis unfolding MsgNegotiationResponse ILink3Message_encode.simps ILink3Message_size.simps
    by (rule negotiationResponse501.dispatched) (use assms MsgNegotiationResponse in \<open>simp_all add: dispatchILink3Message_simps\<close>)
next
  case (MsgEstablish x)
  show ?thesis unfolding MsgEstablish ILink3Message_encode.simps ILink3Message_size.simps
    by (rule establish503.dispatched) (use assms MsgEstablish in \<open>simp_all add: dispatchILink3Message_simps\<close>)
next
  case (MsgEstablishmentAck x)
  show ?thesis unfolding MsgEstablishmentAck ILink3Message_encode.simps ILink3Message_size.simps
    by (rule establishmentAck504.dispatched) (use assms MsgEstablishmentAck in \<open>simp_all add: dispatchILink3Message_simps\<close>)
next
  case (MsgSequence x)
  show ?thesis unfolding MsgSequence ILink3Message_encode.simps ILink3Message_size.simps
    by (rule sequence506.dispatched) (use assms MsgSequence in \<open>simp_all add: dispatchILink3Message_simps\<close>)
next
  case (MsgTerminate x)
  show ?thesis unfolding MsgTerminate ILink3Message_encode.simps ILink3Message_size.simps
    by (rule terminate507.dispatched) (use assms MsgTerminate in \<open>simp_all add: dispatchILink3Message_simps\<close>)
next
  case (MsgRetransmitRequest x)
  show ?thesis unfolding MsgRetransmitRequest ILink3Message_encode.simps ILink3Message_size.simps
    by (rule retransmitRequest508.dispatched) (use assms MsgRetransmitRequest in \<open>simp_all add: dispatchILink3Message_simps\<close>)
next
  case (MsgRetransmission x)
  show ?thesis unfolding MsgRetransmission ILink3Message_encode.simps ILink3Message_size.simps
    by (rule retransmission509.dispatched) (use assms MsgRetransmission in \<open>simp_all add: dispatchILink3Message_simps\<close>)
next
  case (MsgNotApplied x)
  show ?thesis unfolding MsgNotApplied ILink3Message_encode.simps ILink3Message_size.simps
    by (rule notApplied513.dispatched) (use assms MsgNotApplied in \<open>simp_all add: dispatchILink3Message_simps\<close>)
next
  case (MsgNewOrderSingle x)
  show ?thesis unfolding MsgNewOrderSingle ILink3Message_encode.simps ILink3Message_size.simps
    by (rule newOrderSingle514.dispatched) (use assms MsgNewOrderSingle in \<open>simp_all add: dispatchILink3Message_simps\<close>)
next
  case (MsgOrderCancelReplaceRequest x)
  show ?thesis unfolding MsgOrderCancelReplaceRequest ILink3Message_encode.simps ILink3Message_size.simps
    by (rule orderCancelReplaceRequest515.dispatched) (use assms MsgOrderCancelReplaceRequest in \<open>simp_all add: dispatchILink3Message_simps\<close>)
next
  case (MsgOrderCancelRequest x)
  show ?thesis unfolding MsgOrderCancelRequest ILink3Message_encode.simps ILink3Message_size.simps
    by (rule orderCancelRequest516.dispatched) (use assms MsgOrderCancelRequest in \<open>simp_all add: dispatchILink3Message_simps\<close>)
next
  case (MsgExecutionReportNew x)
  show ?thesis unfolding MsgExecutionReportNew ILink3Message_encode.simps ILink3Message_size.simps
    by (rule executionReportNew522.dispatched) (use assms MsgExecutionReportNew in \<open>simp_all add: dispatchILink3Message_simps\<close>)
next
  case (MsgExecutionReportReject x)
  show ?thesis unfolding MsgExecutionReportReject ILink3Message_encode.simps ILink3Message_size.simps
    by (rule executionReportReject523.dispatched) (use assms MsgExecutionReportReject in \<open>simp_all add: dispatchILink3Message_simps\<close>)
next
  case (MsgExecutionReportElimination x)
  show ?thesis unfolding MsgExecutionReportElimination ILink3Message_encode.simps ILink3Message_size.simps
    by (rule executionReportElimination524.dispatched) (use assms MsgExecutionReportElimination in \<open>simp_all add: dispatchILink3Message_simps\<close>)
next
  case (MsgExecutionReportTradeOutright x)
  show ?thesis unfolding MsgExecutionReportTradeOutright ILink3Message_encode.simps ILink3Message_size.simps
    by (rule executionReportTradeOutright525.dispatched) (use assms MsgExecutionReportTradeOutright in \<open>simp_all add: dispatchILink3Message_simps\<close>)
next
  case (MsgExecutionReportModify x)
  show ?thesis unfolding MsgExecutionReportModify ILink3Message_encode.simps ILink3Message_size.simps
    by (rule executionReportModify531.dispatched) (use assms MsgExecutionReportModify in \<open>simp_all add: dispatchILink3Message_simps\<close>)
next
  case (MsgExecutionReportCancel x)
  show ?thesis unfolding MsgExecutionReportCancel ILink3Message_encode.simps ILink3Message_size.simps
    by (rule executionReportCancel534.dispatched) (use assms MsgExecutionReportCancel in \<open>simp_all add: dispatchILink3Message_simps\<close>)
next
  case (MsgOrderCancelReject x)
  show ?thesis unfolding MsgOrderCancelReject ILink3Message_encode.simps ILink3Message_size.simps
    by (rule orderCancelReject535.dispatched) (use assms MsgOrderCancelReject in \<open>simp_all add: dispatchILink3Message_simps\<close>)
qed

section \<open>MDP 3.0\<close>

datatype MDP3Message =
    MsgChannelReset ChannelReset4
  | MsgAdminHeartbeat AdminHeartbeat12
  | MsgSecurityStatus SecurityStatus30
  | MsgMDIncrementalRefreshBook MDIncrementalRefreshBook46
  | MsgMDIncrementalRefreshTradeSummary MDIncrementalRefreshTradeSummary48
  | MsgSnapshotFullRefresh SnapshotFullRefresh52
  | MsgMDInstrumentDefinitionFuture MDInstrumentDefinitionFuture54

fun MDP3Message_encode :: "MDP3Message \<Rightarrow> bytes \<Rightarrow> nat \<Rightarrow> (bytes \<times> nat) option" where
  "MDP3Message_encode (MsgChannelReset m) = ChannelReset4_encode m"
| "MDP3Message_encode (MsgAdminHeartbeat m) = AdminHeartbeat12_encode m"
| "MDP3Message_encode (MsgSecurityStatus m) = SecurityStatus30_encode m"
| "MDP3Message_encode (MsgMDIncrementalRefreshBook m) = MDIncrementalRefreshBook46_encode m"
| "MDP3Message_encode (MsgMDIncrementalRefreshTradeSummary m) = MDIncrementalRefreshTradeSummary48_encode m"
| "MDP3Message_encode (MsgSnapshotFullRefresh m) = SnapshotFullRefresh52_encode m"
| "MDP3Message_encode (MsgMDInstrumentDefinitionFuture m) = MDInstrumentDefinitionFuture54_encode m"

fun MDP3Message_wf :: "MDP3Message \<Rightarrow> bool" where
  "MDP3Message_wf (MsgChannelReset m) \<longleftrightarrow> ChannelReset4_wf m"
| "MDP3Message_wf (MsgAdminHeartbeat m) \<longleftrightarrow> AdminHeartbeat12_wf m"
| "MDP3Message_wf (MsgSecurityStatus m) \<longleftrightarrow> SecurityStatus30_wf m"
| "MDP3Message_wf (MsgMDIncrementalRefreshBook m) \<longleftrightarrow> MDIncrementalRefreshBook46_wf m"
| "MDP3Message_wf (MsgMDIncrementalRefreshTradeSummary m) \<longleftrightarrow> MDIncrementalRefreshTradeSummary48_wf m"
| "MDP3Message_wf (MsgSnapshotFullRefresh m) \<longleftrightarrow> SnapshotFullRefresh52_wf m"
| "MDP3Message_wf (MsgMDInstrumentDefinitionFuture m) \<longleftrightarrow> MDInstrumentDefinitionFuture54_wf m"

fun MDP3Message_size :: "MDP3Message \<Rightarrow> nat" where
  "MDP3Message_size (MsgChannelReset m) = ChannelReset4_size m"
| "MDP3Message_size (MsgAdminHeartbeat m) = AdminHeartbeat12_size m"
| "MDP3Message_size (MsgSecurityStatus m) = unat SecurityStatus30_BLOCK_LENGTH"
| "MDP3Message_size (MsgMDIncrementalRefreshBook m) = MDIncrementalRefreshBook46_size m"
| "MDP3Message_size (MsgMDIncrementalRefreshTradeSummary m) = MDIncrementalRefreshTradeSummary48_size m"
| "MDP3Message_size (MsgSnapshotFullRefresh m) = SnapshotFullRefresh52_size m"
| "MDP3Message_size (MsgMDInstrumentDefinitionFuture m) = unat MDInstrumentDefinitionFuture54_BLOCK_LENGTH"

definition dispatchMDP3Message :: "bytes \<Rightarrow> nat \<Rightarrow> MDP3Message option option" where
  "dispatchMDP3Message buf len =
     (if len < MessageHeader_SIZE then Some None
      else do {
        templateId \<leftarrow> decodeTemplateId buf 0;
        if templateId = ChannelReset4_TEMPLATE_ID then map_option (Some \<circ> MsgChannelReset) (ChannelReset4_decode buf 0)
        else if templateId = AdminHeartbeat12_TEMPLATE_ID then map_option (Some \<circ> MsgAdminHeartbeat) (AdminHeartbeat12_decode buf 0)
        else if templateId = SecurityStatus30_TEMPLATE_ID then map_option (Some \<circ> MsgSecurityStatus) (SecurityStatus30_decode buf 0)
        else if templateId = MDIncrementalRefreshBook46_TEMPLATE_ID then map_option (Some \<circ> MsgMDIncrementalRefreshBook) (MDIncrementalRefreshBook46_decode buf 0)
        else if templateId = MDIncrementalRefreshTradeSummary48_TEMPLATE_ID then map_option (Some \<circ> MsgMDIncrementalRefreshTradeSummary) (MDIncrementalRefreshTradeSummary48_decode buf 0)
        else if templateId = SnapshotFullRefresh52_TEMPLATE_ID then map_option (Some \<circ> MsgSnapshotFullRefresh) (SnapshotFullRefresh52_decode buf 0)
        else if templateId = MDInstrumentDefinitionFuture54_TEMPLATE_ID then map_option (Some \<circ> MsgMDInstrumentDefinitionFuture) (MDInstrumentDefinitionFuture54_decode buf 0)
        else Some None
      })"

lemmas MDP3Message_ids =
  ChannelReset4_TEMPLATE_ID_def
  AdminHeartbeat12_TEMPLATE_ID_def
  SecurityStatus30_TEMPLATE_ID_def
  MDIncrementalRefreshBook46_TEMPLATE_ID_def
  MDIncrementalRefreshTradeSummary48_TEMPLATE_ID_def
  SnapshotFullRefresh52_TEMPLATE_ID_def
  MDInstrumentDefinitionFuture54_TEMPLATE_ID_def

lemmas dispatchMDP3Message_simps = dispatchMDP3Message_def MDP3Message_ids MessageHeader_SIZE_def

lemma MDP3Message_roundtrip:
  assumes "MDP3Message_wf m" and "8 + MDP3Message_size m \<le> length buf" and "8 \<le> len"
  shows "\<exists>buf'. MDP3Message_encode m buf 0 = Some (buf', 8 + MDP3Message_size m) \<and> length buf' = length buf \<and>
    dispatchMDP3Message buf' len = Some (Some m) \<and> drop (8 + MDP3Message_size m) buf' = drop (8 + MDP3Message_size m) buf"
proof (cases m)
  case (MsgChannelReset x)
  show ?thesis unfolding MsgChannelReset MDP3Message_encode.simps MDP3Message_size.simps
    by (rule channelReset4.dispatched) (use assms MsgChannelReset in \<open>simp_all add: dispatchMDP3Message_simps\<close>)
next
  case (MsgAdminHeartbeat x)
  show ?thesis unfolding MsgAdminHeartbeat MDP3Message_encode.simps MDP3Message_size.simps
    by (rule adminHeartbeat12.dispatched) (use assms MsgAdminHeartbeat in \<open>simp_all add: dispatchMDP3Message_simps\<close>)
next
  case (MsgSecurityStatus x)
  show ?thesis unfolding MsgSecurityStatus MDP3Message_encode.simps MDP3Message_size.simps
    by (rule securityStatus30.dispatched) (use assms MsgSecurityStatus in \<open>simp_all add: dispatchMDP3Message_simps\<close>)
next
  case (MsgMDIncrementalRefreshBook x)
  show ?thesis unfolding MsgMDIncrementalRefreshBook MDP3Message_encode.simps MDP3Message_size.simps
    by (rule mDIncrementalRefreshBook46.dispatched) (use assms MsgMDIncrementalRefreshBook in \<open>simp_all add: dispatchMDP3Message_simps\<close>)
next
  case (MsgMDIncrementalRefreshTradeSummary x)
  show ?thesis unfolding MsgMDIncrementalRefreshTradeSummary MDP3Message_encode.simps MDP3Message_size.simps
    by (rule mDIncrementalRefreshTradeSummary48.dispatched) (use assms MsgMDIncrementalRefreshTradeSummary in \<open>simp_all add: dispatchMDP3Message_simps\<close>)
next
  case (MsgSnapshotFullRefresh x)
  show ?thesis unfolding MsgSnapshotFullRefresh MDP3Message_encode.simps MDP3Message_size.simps
    by (rule snapshotFullRefresh52.dispatched) (use assms MsgSnapshotFullRefresh in \<open>simp_all add: dispatchMDP3Message_simps\<close>)
next
  case (MsgMDInstrumentDefinitionFuture x)
  show ?thesis unfolding MsgMDInstrumentDefinitionFuture MDP3Message_encode.simps MDP3Message_size.simps
    by (rule mDInstrumentDefinitionFuture54.dispatched) (use assms MsgMDInstrumentDefinitionFuture in \<open>simp_all add: dispatchMDP3Message_simps\<close>)
qed

section \<open>Properties\<close>

lemma c_str_terminated: "c_str (bs @ [0]) = c_str bs"
  by (induction bs) (simp_all add: c_str_def)

text \<open>
  C25.  Every iLink 3 message survives the wire: encoding any of the 19 message types into a buffer with room
  succeeds, reports the size of header and block, touches no byte after it, and dispatching the buffer
  hands the handler the very same message.
\<close>

theorem ilink3_wire_roundtrip:
  assumes "ILink3Message_wf m" and "8 + ILink3Message_size m \<le> length buf" and "8 \<le> len"
  shows "\<exists>buf'. ILink3Message_encode m buf 0 = Some (buf', 8 + ILink3Message_size m) \<and>
    length buf' = length buf \<and> dispatchILink3Message buf' len = Some (Some m) \<and>
    drop (8 + ILink3Message_size m) buf' = drop (8 + ILink3Message_size m) buf"
  using assms by (rule ILink3Message_roundtrip)

theorem ilink3_wire_roundtrip_witness:
  "ILink3Message_wf (MsgNewOrderSingle NewOrderSingle514_default) \<and>
   (\<exists>buf'. ILink3Message_encode (MsgNewOrderSingle NewOrderSingle514_default) (replicate 200 0) 0 = Some (buf', 124) \<and>
      dispatchILink3Message buf' 124 = Some (Some (MsgNewOrderSingle NewOrderSingle514_default)))"
proof -
  let ?m = "MsgNewOrderSingle NewOrderSingle514_default"
  have "ILink3Message_wf ?m" by (simp add: NewOrderSingle514_wf_def NewOrderSingle514_default_def)
  then show ?thesis
    using ilink3_wire_roundtrip [of ?m "replicate 200 0" 124]
    by (auto simp: NewOrderSingle514_BLOCK_LENGTH_def)
qed

text \<open>
  C26.  The same for the seven MDP 3.0 messages, as long as every repeating group has fewer than 256 entries.
\<close>

theorem mdp3_wire_roundtrip:
  assumes "MDP3Message_wf m" and "8 + MDP3Message_size m \<le> length buf" and "8 \<le> len"
  shows "\<exists>buf'. MDP3Message_encode m buf 0 = Some (buf', 8 + MDP3Message_size m) \<and>
    length buf' = length buf \<and> dispatchMDP3Message buf' len = Some (Some m) \<and>
    drop (8 + MDP3Message_size m) buf' = drop (8 + MDP3Message_size m) buf"
  using assms by (rule MDP3Message_roundtrip)

theorem mdp3_wire_roundtrip_witness:
  "(let m = MsgMDIncrementalRefreshBook (MDIncrementalRefreshBook46_default
        \<lparr>MDIncrementalRefreshBook46.entries := replicate 2 MDIncrementalRefreshBook46_Entry_default\<rparr>)
    in MDP3Message_wf m \<and>
      (\<exists>buf'. MDP3Message_encode m (replicate 100 0) 0 = Some (buf', 74) \<and>
         dispatchMDP3Message buf' 74 = Some (Some m)))"
proof -
  let ?m = "MsgMDIncrementalRefreshBook (MDIncrementalRefreshBook46_default
        \<lparr>MDIncrementalRefreshBook46.entries := replicate 2 MDIncrementalRefreshBook46_Entry_default\<rparr>)"
  have "MDP3Message_wf ?m" "MDP3Message_size ?m = 66"
    by (simp_all add: MDIncrementalRefreshBook46_wf_def MDIncrementalRefreshBook46_size_def group_size_def
        GroupSize_SIZE_def MDIncrementalRefreshBook46_BLOCK_LENGTH_def
        MDIncrementalRefreshBook46_Entry_BLOCK_LENGTH_def)
  then show ?thesis
    using mdp3_wire_roundtrip [of ?m "replicate 100 0" 74] by (auto simp: Let_def)
qed

text \<open>
  The group count is cast to 8 bits: what a receiver reads of a book refresh with any number of entries is
  the first \<open>n mod 256\<close> of them, so a refresh with 256 entries arrives empty.
\<close>

theorem mdp3_group_count_truncated:
  assumes "reads_fields buf (off + 8) (MDIncrementalRefreshBook46_fields m)"
  shows "\<exists>m'. MDIncrementalRefreshBook46_decode buf off = Some m' \<and>
    MDIncrementalRefreshBook46.entries m' =
      take (length (MDIncrementalRefreshBook46.entries m) mod 256) (MDIncrementalRefreshBook46.entries m)"
proof -
  let ?es = "MDIncrementalRefreshBook46.entries m"
  have "read_group MDIncrementalRefreshBook46_Entry_decode buf (off + 8 + 9) =
      Some (take (length ?es mod 256) ?es,
            off + 8 + 9 + 3 + (length ?es mod 256) * unat MDIncrementalRefreshBook46_Entry_BLOCK_LENGTH)"
    by (rule mDIncrementalRefreshBook46_Entry.group_decode)
      (use assms in \<open>simp add: MDIncrementalRefreshBook46_fields_def\<close>)
  then show ?thesis
    using assms by (simp add: MDIncrementalRefreshBook46_decode_def MDIncrementalRefreshBook46_fields_def
        sbe_decode_simps)
qed

theorem mdp3_group_count_truncated_witness:
  "(let m = MDIncrementalRefreshBook46_default
        \<lparr>MDIncrementalRefreshBook46.entries := replicate 256 MDIncrementalRefreshBook46_Entry_default\<rparr>;
        buf = replicate 8 0 @ body_of (MDIncrementalRefreshBook46_fields m)
    in reads_fields buf 8 (MDIncrementalRefreshBook46_fields m) \<and>
       (\<exists>m'. MDIncrementalRefreshBook46_decode buf 0 = Some m' \<and> MDIncrementalRefreshBook46.entries m' = []))"
proof -
  let ?m = "MDIncrementalRefreshBook46_default
        \<lparr>MDIncrementalRefreshBook46.entries := replicate 256 MDIncrementalRefreshBook46_Entry_default\<rparr>"
  let ?buf = "replicate 8 0 @ body_of (MDIncrementalRefreshBook46_fields ?m)"
  have "packed 0 (MDIncrementalRefreshBook46_fields ?m)"
    using mDIncrementalRefreshBook46_Entry.group_packed [of 9 "MDIncrementalRefreshBook46.entries ?m"]
    by (simp add: MDIncrementalRefreshBook46_fields_def packed_append)
  then have r: "reads_fields ?buf (0 + 8) (MDIncrementalRefreshBook46_fields ?m)"
    by (rule reads_fields_body [where pre = "replicate 8 0" and post = "[]"]) simp_all
  show ?thesis using mdp3_group_count_truncated [OF r] r by (simp add: Let_def)
qed

text \<open>
  The dispatcher checks the length of the header only: a buffer that holds the header of a new order but not
  its whole block makes \<^verbatim>\<open>decode\<close> read past the end, whatever the length argument says.
\<close>

theorem short_new_order_reads_past_end:
  assumes "decodeTemplateId buf 0 = Some NewOrderSingle514_TEMPLATE_ID" and "length buf < 8 + 116" and "8 \<le> len"
  shows "dispatchILink3Message buf len = None"
proof -
  have "read_bytes buf (8 + 115) 1 = None" using assms(2) by (simp add: read_bytes_def)
  then have "NewOrderSingle514_decode buf 0 = None"
    by (simp add: NewOrderSingle514_decode_def sbe_decode_simps)
  with assms(1,3) show ?thesis
    by (simp add: dispatchILink3Message_def ILink3Message_ids MessageHeader_SIZE_def)
qed

theorem short_new_order_reads_past_end_witness:
  "(let buf = body_of (MessageHeader_fields 116 514 8 8) @ replicate 20 0
    in decodeTemplateId buf 0 = Some NewOrderSingle514_TEMPLATE_ID \<and> dispatchILink3Message buf (length buf) = None)"
proof -
  let ?buf = "body_of (MessageHeader_fields 116 514 8 8) @ replicate 20 0"
  have "decodeTemplateId ?buf 0 = Some NewOrderSingle514_TEMPLATE_ID" "length ?buf = 28" by code_simp+
  with short_new_order_reads_past_end [of ?buf "length ?buf"] show ?thesis by (simp add: Let_def)
qed

text \<open>
  The open framing header round-trips, in network byte order: the first byte on the wire is the most
  significant byte of the length, the length and the SBE encoding type are read back, and the rest of the
  buffer is untouched.
\<close>

theorem sofh_roundtrip:
  assumes "off + 6 \<le> length buf"
  shows "\<exists>buf'. SOFH_encode off len buf = Some buf' \<and> length buf' = length buf \<and>
    decodeMessageLength buf' off = Some len \<and> isValidSBE buf' off = Some True \<and>
    buf' ! off = ucast (drop_bit 24 len) \<and>
    take off buf' = take off buf \<and> drop (off + 6) buf' = drop (off + 6) buf"
proof -
  let ?fs = "[(0, le 4 (native_to_big32 len)), (4, le 2 (native_to_big16 SBE_ENCODING_TYPE))]"
  let ?buf = "take off buf @ body_of ?fs @ drop (off + 6) buf"
  have e: "SOFH_encode off len buf = Some ?buf"
    using write_all_body [of 0 ?fs off buf] assms by (simp add: SOFH_encode_def)
  have "reads_fields ?buf off ?fs"
    by (rule reads_fields_body [of _ _ "take off buf"]) (use assms in simp_all)
  then have d: "decodeMessageLength ?buf off = Some len" "isValidSBE ?buf off = Some True"
    by (simp_all add: decodeMessageLength_def isValidSBE_def decodeEncodingType_def read_le_def of_le_le
        big_to_native32_def native_to_big32_def big_to_native16_def native_to_big16_def)
  have "body_of ?fs ! 0 = ucast (drop_bit 24 len)"
    by (rule bit_word_eqI)
      (simp add: le_def native_to_big32_def bit_simps bit_bswap32 swapped32_def nth_append add.commute)
  then have b: "?buf ! off = ucast (drop_bit 24 len)" using assms by (simp add: nth_append)
  show ?thesis by (rule exI [of _ ?buf]) (use e d b assms in simp)
qed

theorem sofh_roundtrip_witness:
  "\<exists>buf'. SOFH_encode 0 0x102 (replicate 6 0) = Some buf' \<and> decodeMessageLength buf' 0 = Some 0x102 \<and>
     isValidSBE buf' 0 = Some True"
  using sofh_roundtrip [of 0 "replicate 6 0" "0x102"] by auto

text \<open>
  Fixed-size strings: a string written into a field of \<open>len\<close> bytes and read back as a C string is the
  string cut to the field, and the field is always exactly \<open>len\<close> bytes with a terminator appended on
  reading.
\<close>

theorem fixed_string_roundtrip:
  assumes "pos + len \<le> length buf"
    and "write_bytes pos (writeFixedString (Some s) len) buf = Some buf'"
  shows "\<exists>bs. readFixedString buf' pos len = Some bs \<and> length bs = len + 1 \<and>
    c_str bs = take len (c_str s)"
proof -
  let ?w = "writeFixedString (Some s) len"
  have "read_bytes buf' pos len = Some ?w"
    using assms by (auto simp: write_bytes_def read_bytes_def)
  moreover have "c_str (?w @ [0]) = c_str ?w"
    by (rule c_str_terminated)
  ultimately show ?thesis by (simp add: readFixedString_def c_str_writeFixedString)
qed

theorem fixed_string_roundtrip_witness:
  "\<exists>buf'. write_bytes 2 (writeFixedString (Some [65, 66, 67]) 5) (replicate 10 0) = Some buf' \<and>
     (\<exists>bs. readFixedString buf' 2 5 = Some bs \<and> c_str bs = [65, 66, 67])"
proof -
  have "write_bytes 2 (writeFixedString (Some [65, 66, 67]) 5) (replicate 10 0) \<noteq> None"
    by (simp add: write_bytes_def)
  moreover have "take 5 (c_str [65, 66, 67 :: 8 word]) = [65, 66, 67]" by (simp add: c_str_def)
  ultimately show ?thesis using fixed_string_roundtrip [of 2 5 "replicate 10 0" "[65, 66, 67]"] by auto
qed

end
