(* ===== verification/Mdp3_Listener.thy ===== *)
theory Mdp3_Listener
  imports Sbe_Dispatch Md_Publisher "HOL-Library.Sublist"
begin

text \<open>
  \<^verbatim>\<open>tools/mdp3_listener.cpp\<close>: the market data listener.  It receives packets into a buffer of 64 KB that it
  never clears, checks their numbers, decodes and prints their messages and keeps statistics.

  The result \<open>None\<close> is a read outside the buffer.  A line of output is a value that holds what is printed;
  the text that the streams make of numbers, prices and times is not modelled.  The clock's readings (in
  nanoseconds) and the outcomes of the socket's receive calls are arguments; the list of outcomes ends when
  a signal clears \<^verbatim>\<open>g_running\<close>.
\<close>

section \<open>Options\<close>

datatype FeedType = IncrementalFeed | SnapshotFeed | InstrumentDefFeed

record ListenerChannel =
  incrementalAddr :: string
  incrementalPort :: "16 word"
  snapshotAddr :: string
  snapshotPort :: "16 word"
  instdefAddr :: string
  instdefPort :: "16 word"

definition getDefaultChannel :: "int \<Rightarrow> ListenerChannel" where
  "getDefaultChannel channelId = \<lparr>
     incrementalAddr = ''239.1.1.1'', incrementalPort = of_int (14000 + channelId),
     snapshotAddr = ''239.1.1.2'', snapshotPort = of_int (15000 + channelId),
     instdefAddr = ''239.1.1.3'', instdefPort = of_int (16000 + channelId)\<rparr>"

record ListenerArgs =
  channelId :: int
  feedType :: FeedType
  overrideGroup :: string
  overridePort :: "16 word"
  listenIface :: string
  statsInterval :: int

definition ListenerArgs_default :: ListenerArgs where
  "ListenerArgs_default = \<lparr>channelId = 310, feedType = IncrementalFeed, overrideGroup = [], overridePort = 0,
     listenIface = ''0.0.0.0'', statsInterval = 10\<rparr>"

text \<open>Arguments end in a run, in the usage text, in an unknown feed type, or in an exception of \<^verbatim>\<open>std::stoi\<close>.\<close>

datatype ListenerCommand = Listen ListenerArgs | ListenerUsage | UnknownFeed string | ListenerThrows

fun parse_listener_args :: "string list \<Rightarrow> ListenerArgs \<Rightarrow> ListenerCommand" where
  "parse_listener_args [] a = Listen a"
| "parse_listener_args [arg] a = (if arg = ''--help'' \<or> arg = ''-h'' then ListenerUsage else Listen a)"
| "parse_listener_args (arg # v # rest) a =
     (if arg = ''--channel'' then (case stoi v of None \<Rightarrow> ListenerThrows
        | Some c \<Rightarrow> parse_listener_args rest (a\<lparr>channelId := c\<rparr>))
      else if arg = ''--feed'' then
        (if v = ''incremental'' then parse_listener_args rest (a\<lparr>feedType := IncrementalFeed\<rparr>)
         else if v = ''snapshot'' then parse_listener_args rest (a\<lparr>feedType := SnapshotFeed\<rparr>)
         else if v = ''instdef'' then parse_listener_args rest (a\<lparr>feedType := InstrumentDefFeed\<rparr>)
         else UnknownFeed v)
      else if arg = ''--group'' then parse_listener_args rest (a\<lparr>overrideGroup := v\<rparr>)
      else if arg = ''--port'' then (case stoi v of None \<Rightarrow> ListenerThrows
        | Some p \<Rightarrow> parse_listener_args rest (a\<lparr>overridePort := of_int p\<rparr>))
      else if arg = ''--iface'' then parse_listener_args rest (a\<lparr>listenIface := v\<rparr>)
      else if arg = ''--stats'' then (case stoi v of None \<Rightarrow> ListenerThrows
        | Some n \<Rightarrow> parse_listener_args rest (a\<lparr>statsInterval := n\<rparr>))
      else if arg = ''--help'' \<or> arg = ''-h'' then ListenerUsage
      else parse_listener_args (v # rest) a)"

definition listen_endpoint :: "ListenerArgs \<Rightarrow> string \<times> 16 word" where
  "listen_endpoint a =
     (let cfg = getDefaultChannel (channelId a);
          (addr, port) = (case feedType a of
             IncrementalFeed \<Rightarrow> (incrementalAddr cfg, incrementalPort cfg)
           | SnapshotFeed \<Rightarrow> (snapshotAddr cfg, snapshotPort cfg)
           | InstrumentDefFeed \<Rightarrow> (instdefAddr cfg, instdefPort cfg))
      in (if overrideGroup a = [] then addr else overrideGroup a,
          if overridePort a \<noteq> 0 then overridePort a else port))"

section \<open>Output\<close>

definition updateActionStr :: "8 word \<Rightarrow> string" where
  "updateActionStr action =
     (if action = 0 then ''New'' else if action = 1 then ''Change'' else if action = 2 then ''Delete''
      else if action = 3 then ''DeleteThru'' else if action = 4 then ''DeleteFrom''
      else if action = 5 then ''Overlay'' else ''Unknown'')"

definition entryTypeStr :: "8 word \<Rightarrow> string" where
  "entryTypeStr et =
     (if et = 48 then ''Bid'' else if et = 49 then ''Offer'' else if et = 50 then ''Trade'' else ''?'')"

definition aggressorSideStr :: "8 word \<Rightarrow> string" where
  "aggressorSideStr s = (if s = 1 then ''Buy'' else if s = 2 then ''Sell'' else ''None'')"

definition tradingStatusStr :: "8 word \<Rightarrow> string" where
  "tradingStatusStr st =
     (if st = 2 then ''PreOpen'' else if st = 17 then ''Open'' else if st = 18 then ''Halt''
      else if st = 21 then ''Close'' else ''Unknown'')"

datatype ListenerLine =
    PacketTooShort nat
  | GapDetected "32 word" "32 word" "32 word"
  | PktLine "32 word" Timestamp
  | Book46Line Timestamp nat
  | BookEntryLine string string int nat Price int int nat
  | Trade48Line Timestamp nat
  | TradeEntryLine int Price int string nat
  | Snapshot52Line int nat string nat
  | SnapshotEntryLine string nat Price int int
  | InstrDef54Line bytes int bytes bytes string Price
  | SecStatus30Line int bytes string nat
  | Heartbeat12Line
  | ChannelReset4Line nat "int list"
  | UnknownLine "16 word" "16 word"
  | StatisticsLine int "64 word" "64 word" "64 word" "32 word"
  | ReceiveErrorLine

definition book46_lines :: "MDIncrementalRefreshBook46 \<Rightarrow> ListenerLine list" where
  "book46_lines msg =
     Book46Line (MDIncrementalRefreshBook46.transactTime msg) (length (MDIncrementalRefreshBook46.entries msg)) #
     map (\<lambda>e. BookEntryLine (entryTypeStr (MDIncrementalRefreshBook46_Entry.mdEntryType e))
        (updateActionStr (MDIncrementalRefreshBook46_Entry.mdUpdateAction e))
        (sint (MDIncrementalRefreshBook46_Entry.securityID e)) (unat (MDIncrementalRefreshBook46_Entry.mdPriceLevel e))
        (Price (sint (MDIncrementalRefreshBook46_Entry.mdEntryPx e))) (sint (MDIncrementalRefreshBook46_Entry.mdEntrySize e))
        (sint (MDIncrementalRefreshBook46_Entry.numberOfOrders e)) (unat (MDIncrementalRefreshBook46_Entry.rptSeq e)))
       (MDIncrementalRefreshBook46.entries msg)"

definition trade48_lines :: "MDIncrementalRefreshTradeSummary48 \<Rightarrow> ListenerLine list" where
  "trade48_lines msg =
     Trade48Line (MDIncrementalRefreshTradeSummary48.transactTime msg) (length (MDIncrementalRefreshTradeSummary48.mdEntries msg)) #
     map (\<lambda>e. TradeEntryLine (sint (MDIncrementalRefreshTradeSummary48_MDEntry.securityID e))
        (Price (sint (MDIncrementalRefreshTradeSummary48_MDEntry.mdEntryPx e)))
        (sint (MDIncrementalRefreshTradeSummary48_MDEntry.mdEntrySize e))
        (aggressorSideStr (MDIncrementalRefreshTradeSummary48_MDEntry.aggressorSide e))
        (unat (MDIncrementalRefreshTradeSummary48_MDEntry.rptSeq e)))
       (MDIncrementalRefreshTradeSummary48.mdEntries msg)"

definition snapshot52_lines :: "SnapshotFullRefresh52 \<Rightarrow> ListenerLine list" where
  "snapshot52_lines msg =
     Snapshot52Line (sint (SnapshotFullRefresh52.securityID msg)) (unat (SnapshotFullRefresh52.rptSeq msg))
        (tradingStatusStr (SnapshotFullRefresh52.mdSecurityTradingStatus msg)) (length (SnapshotFullRefresh52.entries msg)) #
     map (\<lambda>e. SnapshotEntryLine (entryTypeStr (SnapshotFullRefresh52_Entry.mdEntryType e))
        (unat (SnapshotFullRefresh52_Entry.mdPriceLevel e)) (Price (sint (SnapshotFullRefresh52_Entry.mdEntryPx e)))
        (sint (SnapshotFullRefresh52_Entry.mdEntrySize e)) (sint (SnapshotFullRefresh52_Entry.numberOfOrders e)))
       (SnapshotFullRefresh52.entries msg)"

text \<open>The fixed-size strings are copied into local arrays with a terminator and printed as C strings.\<close>

definition instrDef54_lines :: "MDInstrumentDefinitionFuture54 \<Rightarrow> ListenerLine list option" where
  "instrDef54_lines msg = do {
     sym \<leftarrow> readFixedString (MDInstrumentDefinitionFuture54.symbol msg) 0 20;
     grp \<leftarrow> readFixedString (MDInstrumentDefinitionFuture54.securityGroup msg) 0 6;
     ast \<leftarrow> readFixedString (MDInstrumentDefinitionFuture54.asset msg) 0 6;
     Some [InstrDef54Line (c_str sym) (sint (MDInstrumentDefinitionFuture54.securityID msg)) (c_str grp) (c_str ast)
        (tradingStatusStr (MDInstrumentDefinitionFuture54.mdSecurityTradingStatus msg))
        (Price (sint (MDInstrumentDefinitionFuture54.minPriceIncrement msg)))]
   }"

definition secStatus30_lines :: "SecurityStatus30 \<Rightarrow> ListenerLine list option" where
  "secStatus30_lines msg = do {
     grp \<leftarrow> readFixedString (SecurityStatus30.securityGroup msg) 0 6;
     ast \<leftarrow> readFixedString (SecurityStatus30.asset msg) 0 6;
     Some [SecStatus30Line (sint (SecurityStatus30.securityID msg)) (c_str grp)
        (tradingStatusStr (SecurityStatus30.securityTradingStatus msg)) (unat (SecurityStatus30.securityTradingEvent msg))]
   }"

definition channelReset4_lines :: "ChannelReset4 \<Rightarrow> ListenerLine list" where
  "channelReset4_lines msg =
     [ChannelReset4Line (length (ChannelReset4.entries msg)) (map (\<lambda>e. sint (ChannelReset4_Entry.applID e)) (ChannelReset4.entries msg))]"

section \<open>Packets\<close>

record Stats =
  packetsReceived :: "64 word"
  messagesDecoded :: "64 word"
  gaps :: "64 word"
  lastSeqNum :: "32 word"
  startTime :: int
  lastPrintTime :: int

definition Stats_new :: "int \<Rightarrow> Stats" where
  "Stats_new now = \<lparr>packetsReceived = 0, messagesDecoded = 0, gaps = 0, lastSeqNum = 0, startTime = now, lastPrintTime = now\<rparr>"

definition printStats :: "int \<Rightarrow> Stats \<Rightarrow> Stats \<times> ListenerLine list" where
  "printStats now stats =
     (stats\<lparr>lastPrintTime := now\<rparr>,
      [StatisticsLine ((now - startTime stats) div 10 ^ 9) (packetsReceived stats) (messagesDecoded stats) (gaps stats) (lastSeqNum stats)])"

definition decodeMessage :: "bytes \<Rightarrow> nat \<Rightarrow> nat \<Rightarrow> Stats \<Rightarrow> (Stats \<times> ListenerLine list) option" where
  "decodeMessage data offset totalLen stats =
     (if offset + MessageHeader_SIZE > totalLen then Some (stats, [])
      else do {
        templateId \<leftarrow> decodeTemplateId data offset;
        blockLength \<leftarrow> decodeBlockLength data offset;
        ls \<leftarrow>
          (if templateId = MDIncrementalRefreshBook46_TEMPLATE_ID then map_option book46_lines (MDIncrementalRefreshBook46_decode data offset)
           else if templateId = MDIncrementalRefreshTradeSummary48_TEMPLATE_ID then
             map_option trade48_lines (MDIncrementalRefreshTradeSummary48_decode data offset)
           else if templateId = SnapshotFullRefresh52_TEMPLATE_ID then map_option snapshot52_lines (SnapshotFullRefresh52_decode data offset)
           else if templateId = MDInstrumentDefinitionFuture54_TEMPLATE_ID then
             Option.bind (MDInstrumentDefinitionFuture54_decode data offset) instrDef54_lines
           else if templateId = SecurityStatus30_TEMPLATE_ID then Option.bind (SecurityStatus30_decode data offset) secStatus30_lines
           else if templateId = AdminHeartbeat12_TEMPLATE_ID then Some [Heartbeat12Line]
           else if templateId = ChannelReset4_TEMPLATE_ID then map_option channelReset4_lines (ChannelReset4_decode data offset)
           else Some [UnknownLine templateId blockLength]);
        Some (stats\<lparr>messagesDecoded := messagesDecoded stats + 1\<rparr>, ls)
      })"

definition listener_msgSize :: "bytes \<Rightarrow> nat \<Rightarrow> 16 word \<Rightarrow> 16 word \<Rightarrow> nat option" where
  "listener_msgSize data offset templateId blockLength =
     (if templateId = MDIncrementalRefreshBook46_TEMPLATE_ID then
        map_option (\<lambda>m. MessageHeader_SIZE + MDIncrementalRefreshBook46_size m) (MDIncrementalRefreshBook46_decode data offset)
      else if templateId = MDIncrementalRefreshTradeSummary48_TEMPLATE_ID then
        map_option (\<lambda>m. MessageHeader_SIZE + MDIncrementalRefreshTradeSummary48_size m) (MDIncrementalRefreshTradeSummary48_decode data offset)
      else if templateId = SnapshotFullRefresh52_TEMPLATE_ID then
        map_option (\<lambda>m. MessageHeader_SIZE + SnapshotFullRefresh52_size m) (SnapshotFullRefresh52_decode data offset)
      else if templateId = ChannelReset4_TEMPLATE_ID then
        map_option (\<lambda>m. MessageHeader_SIZE + ChannelReset4_size m) (ChannelReset4_decode data offset)
      else Some (MessageHeader_SIZE + unat blockLength))"

function decode_messages :: "bytes \<Rightarrow> nat \<Rightarrow> nat \<Rightarrow> Stats \<Rightarrow> (Stats \<times> ListenerLine list) option" where
  "decode_messages data len offset stats =
     (if offset + MessageHeader_SIZE \<le> len then do {
        blockLength \<leftarrow> decodeBlockLength data offset;
        templateId \<leftarrow> decodeTemplateId data offset;
        (stats, ls) \<leftarrow> decodeMessage data offset len stats;
        msgSize \<leftarrow> listener_msgSize data offset templateId blockLength;
        if msgSize = 0 then Some (stats, ls)
        else do {
          (stats, ls') \<leftarrow> decode_messages data len (offset + msgSize) stats;
          Some (stats, ls @ ls')
        }
      } else Some (stats, []))"
  by pat_completeness auto
termination
  by (relation "measure (\<lambda>(data, len, offset, stats). len - offset)") (auto simp: MessageHeader_SIZE_def)

declare decode_messages.simps [simp del]

definition processPacket :: "bytes \<Rightarrow> nat \<Rightarrow> Stats \<Rightarrow> (Stats \<times> ListenerLine list) option" where
  "processPacket data len stats =
     (if len < PacketHeader_SIZE then Some (stats, [PacketTooShort len])
      else do {
        seqNum \<leftarrow> decodeMsgSeqNum data 0;
        sendingTime \<leftarrow> decodeSendingTime data 0;
        let gap = seqNum - lastSeqNum stats - 1;
        let (stats1, ls) = (if lastSeqNum stats > 0 \<and> seqNum \<noteq> lastSeqNum stats + 1
          then (stats\<lparr>gaps := gaps stats + ucast gap\<rparr>, [GapDetected (lastSeqNum stats + 1) seqNum gap])
          else (stats, []));
        (stats2, ls') \<leftarrow> decode_messages data len PacketHeader_SIZE
          (stats1\<lparr>lastSeqNum := seqNum, packetsReceived := packetsReceived stats1 + 1\<rparr>);
        Some (stats2, ls @ PktLine seqNum sendingTime # ls')
      })"

section \<open>The receive loop\<close>

definition RECV_BUF_SIZE :: nat where "RECV_BUF_SIZE = 65536"

text \<open>What a receive call returns, and the clock afterwards.\<close>

datatype Receive = WouldBlock int | ReceiveError | Datagram bytes int

text \<open>A datagram overwrites the beginning of the buffer; the rest keeps what was there.\<close>

definition receive_into :: "bytes \<Rightarrow> bytes \<Rightarrow> bytes" where
  "receive_into pkt recvBuf = take RECV_BUF_SIZE (take RECV_BUF_SIZE pkt @ drop (length pkt) recvBuf)"

definition periodic_stats :: "int \<Rightarrow> bool \<Rightarrow> int \<Rightarrow> Stats \<Rightarrow> Stats \<times> ListenerLine list" where
  "periodic_stats interval wanted now stats =
     (if interval \<le> (now - lastPrintTime stats) div 10 ^ 9 \<and> wanted then printStats now stats else (stats, []))"

fun listen_loop :: "int \<Rightarrow> Receive list \<Rightarrow> bytes \<Rightarrow> Stats \<Rightarrow> (Stats \<times> ListenerLine list) option" where
  "listen_loop interval [] recvBuf stats = Some (stats, [])"
| "listen_loop interval (ReceiveError # rs) recvBuf stats = Some (stats, [ReceiveErrorLine])"
| "listen_loop interval (WouldBlock now # rs) recvBuf stats =
     (let (stats, ls) = periodic_stats interval (packetsReceived stats > 0) now stats
      in map_option (apsnd (append ls)) (listen_loop interval rs recvBuf stats))"
| "listen_loop interval (Datagram pkt now # rs) recvBuf stats =
     (let recvBuf = receive_into pkt recvBuf
      in do {
        (stats, ls) \<leftarrow> processPacket recvBuf (min (length pkt) RECV_BUF_SIZE) stats;
        let (stats, ls') = periodic_stats interval True now stats;
        map_option (apsnd (append (ls @ ls'))) (listen_loop interval rs recvBuf stats)
      })"

definition run_listener :: "int \<Rightarrow> int \<Rightarrow> Receive list \<Rightarrow> int \<Rightarrow> bytes \<Rightarrow> ListenerLine list option" where
  "run_listener start interval rs fin recvBuf =
     map_option (\<lambda>(stats, ls). ls @ snd (printStats fin stats)) (listen_loop interval rs recvBuf (Stats_new start))"

end
