(* ===== verification/Listener_Properties.thy ===== *)
theory Listener_Properties
  imports Mdp3_Listener
begin

text \<open>
  What the market data listener prints and counts, for any packets made of well-formed messages, in whatever
  of them arrive, and for the packets a channel publisher sends.
\<close>

section \<open>One message\<close>

definition mdp3_wire :: "MDP3Message \<Rightarrow> bytes" where
  "mdp3_wire m = the (to_buffer (MDP3Message_encode m) (8 + MDP3Message_size m))"

fun message_lines :: "MDP3Message \<Rightarrow> ListenerLine list" where
  "message_lines (MsgChannelReset m) = channelReset4_lines m"
| "message_lines (MsgAdminHeartbeat m) = [Heartbeat12Line]"
| "message_lines (MsgSecurityStatus m) =
     [SecStatus30Line (sint (SecurityStatus30.securityID m)) (c_str (SecurityStatus30.securityGroup m))
        (tradingStatusStr (SecurityStatus30.securityTradingStatus m)) (unat (SecurityStatus30.securityTradingEvent m))]"
| "message_lines (MsgMDIncrementalRefreshBook m) = book46_lines m"
| "message_lines (MsgMDIncrementalRefreshTradeSummary m) = trade48_lines m"
| "message_lines (MsgSnapshotFullRefresh m) = snapshot52_lines m"
| "message_lines (MsgMDInstrumentDefinitionFuture m) =
     [InstrDef54Line (c_str (MDInstrumentDefinitionFuture54.symbol m)) (sint (MDInstrumentDefinitionFuture54.securityID m))
        (c_str (MDInstrumentDefinitionFuture54.securityGroup m)) (c_str (MDInstrumentDefinitionFuture54.asset m))
        (tradingStatusStr (MDInstrumentDefinitionFuture54.mdSecurityTradingStatus m))
        (Price (sint (MDInstrumentDefinitionFuture54.minPriceIncrement m)))]"

lemma readFixedString_all: "length bs = n \<Longrightarrow> readFixedString bs 0 n = Some (bs @ [0])"
  by (simp add: readFixedString_def read_bytes_def)

definition decodes_at :: "bytes \<Rightarrow> nat \<Rightarrow> MDP3Message \<Rightarrow> bool" where
  "decodes_at data off m \<longleftrightarrow>
     (\<forall>len stats. off + 8 \<le> len \<longrightarrow>
        decodeMessage data off len stats = Some (stats\<lparr>messagesDecoded := messagesDecoded stats + 1\<rparr>, message_lines m)) \<and>
     (\<exists>tid bl. decodeTemplateId data off = Some tid \<and> decodeBlockLength data off = Some bl \<and>
        listener_msgSize data off tid bl = Some (8 + MDP3Message_size m))"

lemmas listener_decode_simps =
  decodes_at_def decodeMessage_def listener_msgSize_def MDP3Message_ids MessageHeader_SIZE_def

lemma message_decodes:
  assumes "MDP3Message_wf m"
  shows "length (mdp3_wire m) = 8 + MDP3Message_size m \<and> decodes_at (pre @ mdp3_wire m @ post) (length pre) m"
proof (cases m)
  case (MsgChannelReset x)
  with assms have wf: "ChannelReset4_wf x" by simp
  have "mdp3_wire m = channelReset4.wire x"
    using channelReset4.to_buffer_wire [OF wf] by (simp add: mdp3_wire_def MsgChannelReset)
  then show ?thesis using channelReset4.length_wire [OF wf] channelReset4.message_at [OF wf, of pre post]
    by (simp add: listener_decode_simps MsgChannelReset)
next
  case (MsgAdminHeartbeat x)
  with assms have wf: "AdminHeartbeat12_wf x" by simp
  have "mdp3_wire m = adminHeartbeat12.wire x"
    using adminHeartbeat12.encode_local [OF wf, of "8 + AdminHeartbeat12_size x"]
    by (simp add: mdp3_wire_def to_buffer_def MsgAdminHeartbeat)
  then show ?thesis using adminHeartbeat12.length_wire [OF wf] adminHeartbeat12.message_at [OF wf, of pre post]
    by (simp add: listener_decode_simps MsgAdminHeartbeat AdminHeartbeat12_BLOCK_LENGTH_def AdminHeartbeat12_size_def)
next
  case (MsgSecurityStatus x)
  with assms have wf: "SecurityStatus30_wf x" by simp
  have "mdp3_wire m = securityStatus30.wire x"
    using securityStatus30.to_buffer_wire [OF wf] by (simp add: mdp3_wire_def MsgSecurityStatus)
  moreover have "secStatus30_lines x = Some (message_lines m)"
    using wf by (simp add: secStatus30_lines_def SecurityStatus30_wf_def readFixedString_all c_str_terminated MsgSecurityStatus)
  ultimately show ?thesis using securityStatus30.length_wire [OF wf] securityStatus30.message_at [OF wf, of pre post]
    by (simp add: listener_decode_simps MsgSecurityStatus)
next
  case (MsgMDIncrementalRefreshBook x)
  with assms have wf: "MDIncrementalRefreshBook46_wf x" by simp
  have "mdp3_wire m = mDIncrementalRefreshBook46.wire x"
    using mDIncrementalRefreshBook46.to_buffer_wire [OF wf] by (simp add: mdp3_wire_def MsgMDIncrementalRefreshBook)
  then show ?thesis using mDIncrementalRefreshBook46.length_wire [OF wf] mDIncrementalRefreshBook46.message_at [OF wf, of pre post]
    by (simp add: listener_decode_simps MsgMDIncrementalRefreshBook)
next
  case (MsgMDIncrementalRefreshTradeSummary x)
  with assms have wf: "MDIncrementalRefreshTradeSummary48_wf x" by simp
  have "mdp3_wire m = mDIncrementalRefreshTradeSummary48.wire x"
    using mDIncrementalRefreshTradeSummary48.to_buffer_wire [OF wf] by (simp add: mdp3_wire_def MsgMDIncrementalRefreshTradeSummary)
  then show ?thesis using mDIncrementalRefreshTradeSummary48.length_wire [OF wf]
      mDIncrementalRefreshTradeSummary48.message_at [OF wf, of pre post]
    by (simp add: listener_decode_simps MsgMDIncrementalRefreshTradeSummary)
next
  case (MsgSnapshotFullRefresh x)
  with assms have wf: "SnapshotFullRefresh52_wf x" by simp
  have "mdp3_wire m = snapshotFullRefresh52.wire x"
    using snapshotFullRefresh52.to_buffer_wire [OF wf] by (simp add: mdp3_wire_def MsgSnapshotFullRefresh)
  then show ?thesis using snapshotFullRefresh52.length_wire [OF wf] snapshotFullRefresh52.message_at [OF wf, of pre post]
    by (simp add: listener_decode_simps MsgSnapshotFullRefresh)
next
  case (MsgMDInstrumentDefinitionFuture x)
  with assms have wf: "MDInstrumentDefinitionFuture54_wf x" by simp
  have "mdp3_wire m = mDInstrumentDefinitionFuture54.wire x"
    using mDInstrumentDefinitionFuture54.to_buffer_wire [OF wf] by (simp add: mdp3_wire_def MsgMDInstrumentDefinitionFuture)
  moreover have "instrDef54_lines x = Some (message_lines m)"
    using wf by (simp add: instrDef54_lines_def MDInstrumentDefinitionFuture54_wf_def readFixedString_all c_str_terminated
        MsgMDInstrumentDefinitionFuture)
  ultimately show ?thesis using mDInstrumentDefinitionFuture54.length_wire [OF wf]
      mDInstrumentDefinitionFuture54.message_at [OF wf, of pre post]
    by (simp add: listener_decode_simps MsgMDInstrumentDefinitionFuture)
qed

section \<open>One packet\<close>

definition payload :: "MDP3Message list \<Rightarrow> bytes" where
  "payload ms = concat (map mdp3_wire ms)"

lemma decode_messages_payload:
  assumes "\<forall>m\<in>set ms. MDP3Message_wf m"
  shows "decode_messages (pre @ payload ms @ post) (length pre + length (payload ms)) (length pre) stats =
    Some (stats\<lparr>messagesDecoded := messagesDecoded stats + of_nat (length ms)\<rparr>, concat (map message_lines ms))"
  using assms
proof (induction ms arbitrary: pre stats)
  case Nil
  then show ?case by (simp add: payload_def MessageHeader_SIZE_def decode_messages.simps)
next
  case (Cons m ms)
  let ?data = "pre @ payload (m # ms) @ post" and ?len = "length pre + length (payload (m # ms))"
  let ?stats = "stats\<lparr>messagesDecoded := messagesDecoded stats + 1\<rparr>"
  have p: "payload (m # ms) = mdp3_wire m @ payload ms" by (simp add: payload_def)
  have l: "length (mdp3_wire m) = 8 + MDP3Message_size m" and d: "decodes_at ?data (length pre) m"
    using message_decodes [of m pre "payload ms @ post"] Cons.prems by (simp_all add: p)
  from d obtain tid bl where h: "decodeTemplateId ?data (length pre) = Some tid" "decodeBlockLength ?data (length pre) = Some bl"
    "listener_msgSize ?data (length pre) tid bl = Some (8 + MDP3Message_size m)"
    "decodeMessage ?data (length pre) ?len stats = Some (?stats, message_lines m)"
    using l by (auto simp: decodes_at_def p)
  have "decode_messages ?data ?len (length pre + (8 + MDP3Message_size m)) ?stats =
      Some (?stats\<lparr>messagesDecoded := messagesDecoded ?stats + of_nat (length ms)\<rparr>, concat (map message_lines ms))"
    using Cons.IH [of "pre @ mdp3_wire m" ?stats] Cons.prems l by (simp add: p add.assoc)
  with h l show ?case
    by (subst decode_messages.simps) (simp add: MessageHeader_SIZE_def p add.assoc)
qed

section \<open>The feed, with losses\<close>

text \<open>A packet of the feed: its number, its sending time and its messages.\<close>

type_synonym feed_packet = "nat \<times> Timestamp \<times> MDP3Message list"

fun packet_bytes :: "feed_packet \<Rightarrow> bytes" where
  "packet_bytes (n, t, ms) = udp_packet (of_nat n) t (payload ms)"

fun feed_packet_ok :: "feed_packet \<Rightarrow> bool" where
  "feed_packet_ok (n, t, ms) \<longleftrightarrow> 0 < n \<and> n < 2 ^ 32 \<and> (\<forall>m\<in>set ms. MDP3Message_wf m) \<and> 12 + length (payload ms) \<le> RECV_BUF_SIZE"

fun packet_lines :: "nat \<Rightarrow> feed_packet \<Rightarrow> ListenerLine list" where
  "packet_lines l (n, t, ms) =
     (if 0 < l \<and> n \<noteq> Suc l then [GapDetected (of_nat (Suc l)) (of_nat n) (of_nat (n - Suc l))] else []) @
     PktLine (of_nat n) t # concat (map message_lines ms)"

definition missed :: "nat \<Rightarrow> nat \<Rightarrow> nat" where
  "missed l n = (if l = 0 then 0 else n - Suc l)"

lemma of_nat_pos32: "n < 2 ^ 32 \<Longrightarrow> 0 < (of_nat n :: 32 word) \<longleftrightarrow> 0 < n"
  by (simp add: word_less_nat_alt unat_of_nat)

lemma word_gap:
  assumes "l < n" and "n < 2 ^ 32"
  shows "(of_nat n :: 32 word) - of_nat l - 1 = of_nat (n - Suc l)"
    and "(of_nat n :: 32 word) = of_nat l + 1 \<longleftrightarrow> n = Suc l"
    and "0 < (of_nat l :: 32 word) \<longleftrightarrow> 0 < l"
    and "(ucast (of_nat (n - Suc l) :: 32 word) :: 64 word) = of_nat (n - Suc l)"
proof -
  show "(of_nat n :: 32 word) - of_nat l - 1 = of_nat (n - Suc l)" using assms by (simp add: of_nat_diff)
  have inj: "(of_nat a :: 32 word) = of_nat b \<longleftrightarrow> a = b" if "a < 2 ^ 32" "b < 2 ^ 32" for a b
    using that by (simp add: word_of_nat_eq_iff take_bit_nat_eq_self)
  have "(of_nat n :: 32 word) = of_nat (Suc l) \<longleftrightarrow> n = Suc l" using assms by (intro inj) simp_all
  then show "(of_nat n :: 32 word) = of_nat l + 1 \<longleftrightarrow> n = Suc l" by (simp add: add.commute)
  show "0 < (of_nat l :: 32 word) \<longleftrightarrow> 0 < l" using assms by (intro of_nat_pos32) simp
  show "(ucast (of_nat (n - Suc l) :: 32 word) :: 64 word) = of_nat (n - Suc l)"
    using assms by (simp add: unsigned_of_nat take_bit_nat_eq_self del: of_nat_diff)
qed

definition counters :: "Stats \<Rightarrow> 64 word \<times> 64 word \<times> 64 word \<times> 32 word" where
  "counters st = (packetsReceived st, messagesDecoded st, gaps st, lastSeqNum st)"

lemma processPacket_ok:
  assumes "feed_packet_ok (n, t, ms)" and "l < n" and "lastSeqNum stats = of_nat l"
  shows "\<exists>stats'. processPacket (packet_bytes (n, t, ms) @ stale) (12 + length (payload ms)) stats =
      Some (stats', packet_lines l (n, t, ms)) \<and>
    counters stats' = (packetsReceived stats + 1, messagesDecoded stats + of_nat (length ms),
      gaps stats + of_nat (missed l n), of_nat n)"
proof -
  let ?data = "packet_bytes (n, t, ms) @ stale"
  have h: "decodeMsgSeqNum ?data 0 = Some (of_nat n)" "decodeSendingTime ?data 0 = Some t"
    by (simp_all add: udp_packet_def decodeMsgSeqNum_def decodeSendingTime_def read_le_def read_bytes_def of_le_le)
  have m: "decode_messages ?data (12 + length (payload ms)) 12 st =
      Some (st\<lparr>messagesDecoded := messagesDecoded st + of_nat (length ms)\<rparr>, concat (map message_lines ms))" for st
    using decode_messages_payload [of ms "le 4 (of_nat n :: 32 word) @ le 8 t" stale st] assms(1) by (simp add: udp_packet_def)
  have n: "n < 2 ^ 32" using assms(1) by simp
  note g = word_gap [OF assms(2) n]
  show ?thesis
  proof (cases "0 < l \<and> n \<noteq> Suc l")
    case True
    then show ?thesis using m h g assms(3)
      by (simp add: processPacket_def PacketHeader_SIZE_def counters_def missed_def Let_def add.commute
          del: packet_bytes.simps of_nat_diff)
  next
    case False
    then have "missed l n = 0" by (auto simp: missed_def)
    with False show ?thesis using m h g assms(3)
      by (auto simp: processPacket_def PacketHeader_SIZE_def counters_def Let_def simp del: packet_bytes.simps of_nat_diff)
  qed
qed

section \<open>A run\<close>

fun datagrams :: "Receive list \<Rightarrow> bytes list" where
  "datagrams [] = []"
| "datagrams (Datagram pkt now # rs) = pkt # datagrams rs"
| "datagrams (_ # rs) = datagrams rs"

fun feed_lines :: "nat \<Rightarrow> feed_packet list \<Rightarrow> ListenerLine list" where
  "feed_lines l [] = []"
| "feed_lines l (p # ps) = packet_lines l p @ feed_lines (fst p) ps"

fun total_missed :: "nat \<Rightarrow> nat list \<Rightarrow> nat" where
  "total_missed l [] = 0"
| "total_missed l (n # ns) = missed l n + total_missed n ns"

definition is_data :: "ListenerLine \<Rightarrow> bool" where
  "is_data line \<longleftrightarrow> (case line of StatisticsLine _ _ _ _ _ \<Rightarrow> False | _ \<Rightarrow> True)"

lemma message_lines_data: "filter is_data (message_lines m) = message_lines m"
  by (cases m) (simp_all add: is_data_def channelReset4_lines_def book46_lines_def trade48_lines_def snapshot52_lines_def
      filter_map comp_def)

lemma packet_lines_data: "filter is_data (packet_lines l p) = packet_lines l p"
proof -
  have "filter is_data (concat (map message_lines ms)) = concat (map message_lines ms)" for ms
    by (induction ms) (simp_all add: message_lines_data)
  then show ?thesis by (cases p) (simp add: is_data_def)
qed

lemma periodic_stats_data:
  assumes "periodic_stats iv w now st = (st', ls)"
  shows "counters st' = counters st" and "lastSeqNum st' = lastSeqNum st" and "filter is_data ls = []"
  using assms by (auto simp: periodic_stats_def printStats_def counters_def is_data_def split: if_splits)

lemma receive_into_packet:
  assumes "length pkt \<le> RECV_BUF_SIZE" and "length buf = RECV_BUF_SIZE"
  shows "receive_into pkt buf = pkt @ drop (length pkt) buf" and "length (receive_into pkt buf) = RECV_BUF_SIZE"
  using assms by (simp_all add: receive_into_def)

text \<open>The loop on packets with increasing numbers.\<close>

lemma listen_loop_ok:
  assumes "datagrams rs = map packet_bytes ps" and "ReceiveError \<notin> set rs" and "\<forall>p\<in>set ps. feed_packet_ok p"
    and "sorted_wrt (<) (l # map fst ps)" and "length buf = RECV_BUF_SIZE" and "lastSeqNum st = of_nat l"
  shows "\<exists>st' ls. listen_loop iv rs buf st = Some (st', ls) \<and> filter is_data ls = feed_lines l ps \<and>
    counters st' = (packetsReceived st + of_nat (length ps), messagesDecoded st + of_nat (\<Sum>(n, t, ms)\<leftarrow>ps. length ms),
      gaps st + of_nat (total_missed l (map fst ps)), of_nat (last (l # map fst ps)))"
  using assms
proof (induction rs arbitrary: ps l buf st)
  case Nil
  then show ?case by (simp add: counters_def)
next
  case (Cons r rs)
  show ?case
  proof (cases r)
    case (WouldBlock now)
    obtain st1 ls1 where s: "periodic_stats iv (packetsReceived st > 0) now st = (st1, ls1)" by (cases "periodic_stats iv (packetsReceived st > 0) now st")
    note d = periodic_stats_data [OF s]
    obtain st' ls where "listen_loop iv rs buf st1 = Some (st', ls)" "filter is_data ls = feed_lines l ps"
      "counters st' = (packetsReceived st1 + of_nat (length ps), messagesDecoded st1 + of_nat (\<Sum>(n, t, ms)\<leftarrow>ps. length ms),
        gaps st1 + of_nat (total_missed l (map fst ps)), of_nat (last (l # map fst ps)))"
      using Cons.IH [of ps l buf st1] Cons.prems WouldBlock d by auto
    then show ?thesis using WouldBlock s d by (simp add: counters_def)
  next
    case ReceiveError
    then show ?thesis using Cons.prems by simp
  next
    case (Datagram pkt now)
    then obtain n t ms ps' where ps: "ps = (n, t, ms) # ps'" and pkt: "pkt = packet_bytes (n, t, ms)"
      and rest: "datagrams rs = map packet_bytes ps'" using Cons.prems(1) by (cases ps) auto
    have ok: "feed_packet_ok (n, t, ms)" and l: "l < n" using Cons.prems(3,4) by (simp_all add: ps)
    have len: "length pkt = 12 + length (payload ms)" by (simp add: pkt udp_packet_def)
    then have fits: "length pkt \<le> RECV_BUF_SIZE" using ok by simp
    note buf = receive_into_packet [OF fits Cons.prems(5)]
    obtain st1 where 1: "processPacket (receive_into pkt buf) (min (length pkt) RECV_BUF_SIZE) st = Some (st1, packet_lines l (n, t, ms))"
      "counters st1 = (packetsReceived st + 1, messagesDecoded st + of_nat (length ms), gaps st + of_nat (missed l n), of_nat n)"
      using processPacket_ok [OF ok l Cons.prems(6), of "drop (length pkt) buf"] buf(1) fits len by (auto simp: pkt min_def)
    obtain st2 ls2 where s: "periodic_stats iv True now st1 = (st2, ls2)" by (cases "periodic_stats iv True now st1")
    note d = periodic_stats_data [OF s]
    have "lastSeqNum st2 = of_nat n" using 1(2) d(1) by (simp add: counters_def)
    then obtain st' ls where 2: "listen_loop iv rs (receive_into pkt buf) st2 = Some (st', ls)" "filter is_data ls = feed_lines n ps'"
      "counters st' = (packetsReceived st2 + of_nat (length ps'), messagesDecoded st2 + of_nat (\<Sum>(n, t, ms)\<leftarrow>ps'. length ms),
        gaps st2 + of_nat (total_missed n (map fst ps')), of_nat (last (n # map fst ps')))"
      using Cons.IH [of ps' n "receive_into pkt buf" st2] rest Cons.prems(2-4) buf(2) by (auto simp: ps)
    have "listen_loop iv (r # rs) buf st = Some (st', (packet_lines l (n, t, ms) @ ls2) @ ls)"
      using 1(1) 2(1) s by (simp add: Datagram)
    moreover have "filter is_data ((packet_lines l (n, t, ms) @ ls2) @ ls) = feed_lines l ps"
      using 2(2) d(3) packet_lines_data [of l "(n, t, ms)"] by (simp add: ps del: packet_lines.simps)
    ultimately show ?thesis using 1(2) 2(3) d(1) by (simp add: counters_def ps)
  qed
qed

text \<open>The numbers missed are those between the first and the last packet that did not arrive.\<close>

lemma interval_split:
  assumes "(l :: nat) < n" and "n \<le> e" and "\<forall>k\<in>S. n \<le> k"
  shows "{l..e} - insert l S = {Suc l..<n} \<union> ({n..e} - S)"
proof (rule set_eqI)
  fix k
  show "k \<in> {l..e} - insert l S \<longleftrightarrow> k \<in> {Suc l..<n} \<union> ({n..e} - S)"
    using assms by (cases "k < n") auto
qed

lemma total_missed_card:
  "sorted_wrt (<) (l # ns) \<Longrightarrow> 0 < l \<Longrightarrow> total_missed l ns = card ({l..last (l # ns)} - set (l # ns))"
proof (induction ns arbitrary: l)
  case (Cons n ns)
  then have s: "sorted_wrt (<) (n # ns)" and l: "l < n" by simp_all
  let ?e = "last (n # ns)"
  have e: "n \<le> ?e" "\<forall>k\<in>set (n # ns). l < k" "\<forall>k\<in>set (n # ns). n \<le> k" using s l by (auto simp: less_imp_le)
  have "{l..?e} - set (l # n # ns) = {Suc l..<n} \<union> ({n..?e} - set (n # ns))"
    using interval_split [OF l e(1,3)] by (simp only: list.set(2))
  moreover have "card ({Suc l..<n} \<union> ({n..?e} - set (n # ns))) = card {Suc l..<n} + card ({n..?e} - set (n # ns))"
    by (rule card_Un_disjoint) auto
  ultimately show ?case using Cons.IH [OF s] Cons.prems(2) l by (simp add: missed_def)
qed simp

definition lost_numbers :: "nat list \<Rightarrow> nat set" where
  "lost_numbers ns = (if ns = [] then {} else {hd ns..last ns} - set ns)"

lemma total_missed_lost: "sorted_wrt (<) ns \<Longrightarrow> \<forall>n\<in>set ns. 0 < n \<Longrightarrow> total_missed 0 ns = card (lost_numbers ns)"
  using total_missed_card [of "hd ns" "tl ns"] by (cases ns) (simp_all add: lost_numbers_def missed_def)

section \<open>From the engine's events to the screen\<close>

text \<open>The lines that show book updates and trades, and what they should show.\<close>

fun action_name :: "MDUpdateAction \<Rightarrow> string" where
  "action_name MD_New = ''New''"
| "action_name MD_Change = ''Change''"
| "action_name MD_Delete = ''Delete''"
| "action_name MD_DeleteThru = ''DeleteThru''"
| "action_name MD_DeleteFrom = ''DeleteFrom''"
| "action_name MD_Overlay = ''Overlay''"

definition update_line :: "BookUpdate \<Rightarrow> ListenerLine" where
  "update_line u = BookEntryLine (if bu_side u = Buy then ''Bid'' else ''Offer'') (action_name (bu_update_action u))
     (bu_security_id u) (bu_price_level_index u) (bu_price u) (bu_new_qty u) (bu_new_order_count u) (unat (bu_rpt_seq u))"

definition trade_shown :: "OrderFilled \<Rightarrow> int \<times> Price \<times> int \<times> string" where
  "trade_shown f = (fill_security_id f, trade_price f, trade_qty f, if aggressor_side f = Buy then ''Buy'' else ''Sell'')"

definition is_book_line :: "ListenerLine \<Rightarrow> bool" where
  "is_book_line line \<longleftrightarrow> (case line of BookEntryLine _ _ _ _ _ _ _ _ \<Rightarrow> True | _ \<Rightarrow> False)"

definition trade_on_line :: "ListenerLine \<Rightarrow> (int \<times> Price \<times> int \<times> string) option" where
  "trade_on_line line = (case line of TradeEntryLine sec px q aggr rpt \<Rightarrow> Some (sec, px, q, aggr) | _ \<Rightarrow> None)"

abbreviation trades_on :: "ListenerLine list \<Rightarrow> (int \<times> Price \<times> int \<times> string) list" where
  "trades_on ls \<equiv> List.map_filter trade_on_line ls"

lemma updateActionStr_code: "updateActionStr (MDUpdateAction_code a) = action_name a"
  by (cases a) (simp_all add: updateActionStr_def)

lemma book_message_lines:
  assumes "\<forall>u\<in>set us. wire_update u"
  shows "filter is_book_line (message_lines (MsgMDIncrementalRefreshBook (book_message us t))) = map update_line us"
    and "trades_on (message_lines (MsgMDIncrementalRefreshBook (book_message us t))) = []"
proof -
  have "unat (of_nat (bu_price_level_index u) :: 8 word) = bu_price_level_index u" if "wire_update u" for u
    using that by (simp add: wire_update_def unat_of_nat)
  then have "map (\<lambda>e. BookEntryLine (entryTypeStr (MDIncrementalRefreshBook46_Entry.mdEntryType e))
        (updateActionStr (MDIncrementalRefreshBook46_Entry.mdUpdateAction e))
        (sint (MDIncrementalRefreshBook46_Entry.securityID e)) (unat (MDIncrementalRefreshBook46_Entry.mdPriceLevel e))
        (Price (sint (MDIncrementalRefreshBook46_Entry.mdEntryPx e))) (sint (MDIncrementalRefreshBook46_Entry.mdEntrySize e))
        (sint (MDIncrementalRefreshBook46_Entry.numberOfOrders e)) (unat (MDIncrementalRefreshBook46_Entry.rptSeq e)))
       (MDIncrementalRefreshBook46.entries (book_message us t)) = map update_line us"
    using assms by (auto simp: book_message_def book_entry_def update_line_def updateActionStr_code entryTypeStr_def
        MDEntryType_Bid_def MDEntryType_Offer_def wire_update_def sint_int32 sint_int64)
  then have "message_lines (MsgMDIncrementalRefreshBook (book_message us t)) = Book46Line t (length us) # map update_line us"
    by (simp only: message_lines.simps book46_lines_def) (simp add: book_message_def)
  moreover have "filter is_book_line (map update_line us) = map update_line us" "trades_on (map update_line us) = []"
    by (induction us) (simp_all add: is_book_line_def update_line_def trade_on_line_def List.map_filter_simps)
  ultimately show "filter is_book_line (message_lines (MsgMDIncrementalRefreshBook (book_message us t))) = map update_line us"
    and "trades_on (message_lines (MsgMDIncrementalRefreshBook (book_message us t))) = []"
    by (simp_all add: is_book_line_def trade_on_line_def List.map_filter_simps)
qed

lemma trade_message_lines:
  assumes "\<forall>f\<in>set fs. wire_fill f" and "length sns = length fs"
    and "MDIncrementalRefreshTradeSummary48.mdEntries m = map2 trade_entry fs sns"
  shows "filter is_book_line (message_lines (MsgMDIncrementalRefreshTradeSummary m)) = []"
    and "trades_on (message_lines (MsgMDIncrementalRefreshTradeSummary m)) = map trade_shown fs"
proof -
  let ?line = "\<lambda>e. TradeEntryLine (sint (MDIncrementalRefreshTradeSummary48_MDEntry.securityID e))
        (Price (sint (MDIncrementalRefreshTradeSummary48_MDEntry.mdEntryPx e)))
        (sint (MDIncrementalRefreshTradeSummary48_MDEntry.mdEntrySize e))
        (aggressorSideStr (MDIncrementalRefreshTradeSummary48_MDEntry.aggressorSide e))
        (unat (MDIncrementalRefreshTradeSummary48_MDEntry.rptSeq e))"
  have line: "trade_on_line (?line (trade_entry f n)) = Some (trade_shown f)" if "wire_fill f" for f n
    using that by (auto simp: trade_on_line_def trade_entry_def trade_shown_def wire_fill_def sint_int32 sint_int64 aggressorSideStr_def)
  from assms(2,1) have "trades_on (map ?line (map2 trade_entry fs sns)) = map trade_shown fs"
    by (induction sns fs rule: list_induct2) (simp_all add: line List.map_filter_simps)
  moreover have "filter is_book_line (map ?line es) = []" for es
    by (induction es) (simp_all add: is_book_line_def)
  ultimately show "filter is_book_line (message_lines (MsgMDIncrementalRefreshTradeSummary m)) = []"
    and "trades_on (message_lines (MsgMDIncrementalRefreshTradeSummary m)) = map trade_shown fs"
    using assms(3) by (simp_all add: trade48_lines_def is_book_line_def trade_on_line_def List.map_filter_simps)
qed

text \<open>A batch of events, with the clock's readings when its packets are sent and its transaction time.\<close>

type_synonym batch = "Timestamp \<times> Timestamp \<times> Timestamp \<times> EngineEvent list"

abbreviation batch_events :: "batch \<Rightarrow> EngineEvent list" where
  "batch_events b \<equiv> snd (snd (snd b))"

definition batch_ok :: "batch \<Rightarrow> bool" where
  "batch_ok b \<longleftrightarrow> (let evs = batch_events b in (\<forall>u\<in>set (updates evs). wire_update u) \<and> (\<forall>f\<in>set (fills evs). wire_fill f) \<and>
     length (updates evs) < 256 \<and> length (fills evs) < 128 \<and> (updates evs \<noteq> [] \<or> fills evs \<noteq> []))"

definition shows_events :: "EngineEvent list \<Rightarrow> MDP3Message list \<Rightarrow> bool" where
  "shows_events evs ms \<longleftrightarrow> (\<forall>m\<in>set ms. MDP3Message_wf m) \<and> 12 + length (payload ms) \<le> RECV_BUF_SIZE \<and>
     filter is_book_line (concat (map message_lines ms)) = map update_line (updates evs) \<and>
     trades_on (concat (map message_lines ms)) = map trade_shown (fills evs)"

lemma batch_message:
  assumes "\<forall>u\<in>set (updates evs). wire_update u" and "\<forall>f\<in>set (fills evs). wire_fill f"
    and "length (updates evs) < 256" and "length (fills evs) < 128"
  shows "\<exists>ib' ms. buildIncrementalPacket evs t ib = Some (ib', payload ms) \<and> shows_events evs ms \<and>
    (payload ms = [] \<longleftrightarrow> updates evs = [] \<and> fills evs = [])"
proof -
  let ?b = "MsgMDIncrementalRefreshBook (book_message (updates evs) t)"
  obtain ib' m sns where p: "buildIncrementalPacket evs t ib = Some (ib',
      (if updates evs = [] then [] else mDIncrementalRefreshBook46.wire (book_message (updates evs) t)) @
      (if fills evs \<noteq> [] then mDIncrementalRefreshTradeSummary48.wire m else []))"
    and wf: "MDIncrementalRefreshTradeSummary48_wf m" and sns: "length sns = length (fills evs)"
    and es: "MDIncrementalRefreshTradeSummary48.mdEntries m = map2 trade_entry (fills evs) sns"
    and os: "MDIncrementalRefreshTradeSummary48.orderIDEntries m = concat (map order_entries (fills evs))"
    using incremental_packet_wires [OF assms(1,3,4), of t ib] by blast
  let ?m = "MsgMDIncrementalRefreshTradeSummary m"
  define ms where "ms = (if updates evs = [] then [] else [?b]) @ (if fills evs = [] then [] else [?m])"
  have wfb: "MDIncrementalRefreshBook46_wf (book_message (updates evs) t)"
    using assms(3) by (simp add: MDIncrementalRefreshBook46_wf_def book_message_def)
  have w: "mdp3_wire ?b = mDIncrementalRefreshBook46.wire (book_message (updates evs) t)"
    "mdp3_wire ?m = mDIncrementalRefreshTradeSummary48.wire m"
    using mDIncrementalRefreshBook46.to_buffer_wire [OF wfb] mDIncrementalRefreshTradeSummary48.to_buffer_wire [OF wf]
    by (simp_all add: mdp3_wire_def)
  have l: "length (mdp3_wire ?b) = 20 + 27 * length (updates evs)" "length (mdp3_wire ?m) = 23 + 50 * length (fills evs)"
  proof -
    have "MDIncrementalRefreshBook46_size (book_message (updates evs) t) = 12 + 27 * length (updates evs)"
      by (simp add: MDIncrementalRefreshBook46_size_def MDIncrementalRefreshBook46_BLOCK_LENGTH_def group_size_def
          GroupSize_SIZE_def MDIncrementalRefreshBook46_Entry_BLOCK_LENGTH_def book_message_def)
    then show "length (mdp3_wire ?b) = 20 + 27 * length (updates evs)"
      using mDIncrementalRefreshBook46.length_wire [OF wfb] by (simp add: w)
    have "length (concat (map order_entries fs)) = 2 * length fs" for fs
      by (induction fs) (simp_all add: order_entries_def)
    then have "MDIncrementalRefreshTradeSummary48_size m = 15 + 50 * length (fills evs)"
      using sns by (simp add: MDIncrementalRefreshTradeSummary48_size_def MDIncrementalRefreshTradeSummary48_BLOCK_LENGTH_def
          group_size_def GroupSize_SIZE_def MDIncrementalRefreshTradeSummary48_MDEntry_BLOCK_LENGTH_def
          MDIncrementalRefreshTradeSummary48_OrderIDEntry_BLOCK_LENGTH_def es os)
    then show "length (mdp3_wire ?m) = 23 + 50 * length (fills evs)"
      using mDIncrementalRefreshTradeSummary48.length_wire [OF wf] by (simp add: w)
  qed
  have "payload ms = (if updates evs = [] then [] else mDIncrementalRefreshBook46.wire (book_message (updates evs) t)) @
      (if fills evs \<noteq> [] then mDIncrementalRefreshTradeSummary48.wire m else [])"
    using w by (simp add: payload_def ms_def)
  moreover have "12 + length (payload ms) \<le> RECV_BUF_SIZE" and e: "payload ms = [] \<longleftrightarrow> updates evs = [] \<and> fills evs = []"
    using l assms(3,4) by (auto simp: payload_def ms_def RECV_BUF_SIZE_def)
  moreover have "\<forall>m\<in>set ms. MDP3Message_wf m" using wf wfb by (simp add: ms_def)
  moreover have "filter is_book_line (concat (map message_lines ms)) = map update_line (updates evs)"
    "trades_on (concat (map message_lines ms)) = map trade_shown (fills evs)"
    using book_message_lines [OF assms(1), of t] trade_message_lines [OF assms(2) sns es]
    by (simp_all add: ms_def List.map_filter_simps map_filter_append del: message_lines.simps)
  ultimately show ?thesis using p unfolding shows_events_def by metis
qed

fun publish_batches :: "batch list \<Rightarrow> ChannelPublisher \<Rightarrow> ChannelPublisher option" where
  "publish_batches [] cp = Some cp"
| "publish_batches ((ta, tb, t, evs) # bs) cp = Option.bind (publishIncrementalUpdates ta tb evs t cp) (publish_batches bs)"

lemma publish_batches_total: "\<exists>cp'. publish_batches bs cp = Some cp'"
proof (induction bs cp rule: publish_batches.induct)
  case (2 ta tb t evs bs cp)
  then show ?case using publishIncrementalUpdates_total [of ta tb evs t cp] by auto
qed simp

lemma publish_batches_feed:
  assumes "publish_batches bs cp = Some cp'" and "\<forall>b\<in>set bs. batch_ok b"
    and "next_seq_num (incremental_feed_a cp) = of_nat (Suc k)"
  shows "\<exists>ps. sent (incremental_feed_a cp') = sent (incremental_feed_a cp) @ map packet_bytes ps \<and>
    map fst ps = [Suc k..<Suc k + length bs] \<and> list_all2 (\<lambda>b p. shows_events (batch_events b) (snd (snd p))) bs ps"
  using assms
proof (induction bs cp arbitrary: k rule: publish_batches.induct)
  case (2 ta tb t evs bs cp)
  have ok: "\<forall>u\<in>set (updates evs). wire_update u" "\<forall>f\<in>set (fills evs). wire_fill f" "length (updates evs) < 256"
    "length (fills evs) < 128" "updates evs \<noteq> [] \<or> fills evs \<noteq> []" using "2.prems"(2) by (simp_all add: batch_ok_def)
  obtain ib ms where b: "buildIncrementalPacket evs t (incremental_builder cp) = Some (ib, payload ms)" "shows_events evs ms" "payload ms \<noteq> []"
    using batch_message [OF ok(1-4)] ok(5) by blast
  let ?c = "send_incremental ta tb (payload ms) (cp\<lparr>incremental_builder := ib\<rparr>)"
  have "evs \<noteq> []" using ok(5) by auto
  then have 1: "publishIncrementalUpdates ta tb evs t cp = Some ?c" using b by (simp add: publishIncrementalUpdates_def)
  have a: "incremental_feed_a ?c = feed_send ta (payload ms) (incremental_feed_a cp)" by (simp add: send_incremental_def Let_def)
  have "publish_batches bs ?c = Some cp'" "\<forall>b\<in>set bs. batch_ok b" "next_seq_num (incremental_feed_a ?c) = of_nat (Suc (Suc k))"
    using "2.prems" 1 by (simp_all add: a feed_send_def)
  from "2.IH" [OF 1 this] obtain ps where ps: "sent (incremental_feed_a cp') = sent (incremental_feed_a ?c) @ map packet_bytes ps"
    "map fst ps = [Suc (Suc k)..<Suc (Suc k) + length bs]" "list_all2 (\<lambda>b p. shows_events (batch_events b) (snd (snd p))) bs ps" by blast
  then show ?case using "2.prems"(3) b(2)
    by (intro exI [where x = "(Suc k, ta, ms) # ps"]) (simp add: a feed_send_def upt_conv_Cons del: upt_Suc)
qed simp

definition packet_number :: "bytes \<Rightarrow> nat" where
  "packet_number pkt = unat (the (decodeMsgSeqNum pkt 0))"

lemma packet_number_bytes: "feed_packet_ok p \<Longrightarrow> packet_number (packet_bytes p) = fst p"
  by (cases p) (simp add: packet_number_def udp_packet_def decodeMsgSeqNum_def read_le_def read_bytes_def of_le_le unat_of_nat)

lemma sorted_wrt_subseq: "subseq xs ys \<Longrightarrow> sorted_wrt P ys \<Longrightarrow> sorted_wrt P xs"
proof (induction rule: list_emb.induct)
  case (list_emb_Cons2 x y xs ys)
  then show ?case using subseq_order.order_trans list_emb_set [of "(=)" xs ys] by fastforce
qed simp_all

lemma header_lines:
  "\<not> is_book_line (GapDetected e n g)" "\<not> is_book_line (PktLine n t)"
  "trade_on_line (GapDetected e n g) = None" "trade_on_line (PktLine n t) = None"
  by (simp_all add: is_book_line_def trade_on_line_def)

lemma feed_lines_shown:
  assumes "list_all2 (\<lambda>b p. shows_events (batch_events b) (snd (snd p))) bs ps"
  shows "filter is_book_line (feed_lines l ps) = map update_line (concat (map (\<lambda>b. updates (batch_events b)) bs))"
    and "trades_on (feed_lines l ps) = map trade_shown (concat (map (\<lambda>b. fills (batch_events b)) bs))"
  using assms
proof (induction arbitrary: l rule: list_all2_induct)
  case (Cons b bs p ps)
  obtain n t ms where p: "p = (n, t, ms)" by (cases p)
  {
    case 1
    show ?case using Cons.IH(1) [of n] Cons.hyps(1) by (simp add: p shows_events_def header_lines)
  next
    case 2
    show ?case using Cons.IH(2) [of n] Cons.hyps(1)
      by (simp add: p shows_events_def header_lines List.map_filter_simps map_filter_append)
  }
qed (simp_all add: List.map_filter_simps)

text \<open>
  C16.  From the engine to the screen: a channel publishes any sequence of event batches (within the limits of the
  format), any of its packets are lost, and the listener receives the others in order with pauses in between,
  into a buffer with arbitrary old contents.  It never reads outside its buffer; the book updates and trades
  it prints are exactly those of the batches that arrived, in order; and it counts the packets, and as gaps
  exactly the packets between the first and the last received that did not arrive.
\<close>

theorem listener_shows_feed:
  assumes "publish_batches batches (ChannelPublisher_new c) = Some cp" and "\<forall>b\<in>set batches. batch_ok b"
    and "length batches < 2 ^ 32 - 1" and "subseq arrived (zip batches (sent (incremental_feed_a cp)))"
    and "datagrams rs = map snd arrived" and "ReceiveError \<notin> set rs" and "length recvBuf = RECV_BUF_SIZE"
  shows "\<exists>st ls. listen_loop interval rs recvBuf (Stats_new start) = Some (st, ls) \<and>
    filter is_book_line ls = map update_line (concat (map (\<lambda>(b, pkt). updates (batch_events b)) arrived)) \<and>
    trades_on ls = map trade_shown (concat (map (\<lambda>(b, pkt). fills (batch_events b)) arrived)) \<and>
    packetsReceived st = of_nat (length arrived) \<and>
    gaps st = of_nat (card (lost_numbers (map (packet_number \<circ> snd) arrived)))"
proof -
  have "next_seq_num (incremental_feed_a (ChannelPublisher_new c)) = of_nat (Suc 0)" "sent (incremental_feed_a (ChannelPublisher_new c)) = []"
    by (simp_all add: ChannelPublisher_new_def FeedSender_new_def)
  then obtain ps where sent: "sent (incremental_feed_a cp) = map packet_bytes ps"
    and nums: "map fst ps = [Suc 0..<Suc 0 + length batches]"
    and shown: "list_all2 (\<lambda>b p. shows_events (batch_events b) (snd (snd p))) batches ps"
    using publish_batches_feed [OF assms(1,2), of 0] by auto
  have "zip batches (sent (incremental_feed_a cp)) = map (apsnd packet_bytes) (zip batches ps)"
    by (simp add: sent zip_map2 apsnd_def map_prod_def)
  with assms(4) obtain zs where zs: "subseq zs (zip batches ps)" and arr: "arrived = map (apsnd packet_bytes) zs"
    by (auto simp: subseq_conv_nths nths_map)
  let ?bs = "map fst zs" and ?ps = "map snd zs"
  have sub: "set zs \<subseteq> set (zip batches ps)" using zs by (auto simp: subseq_conv_nths dest: in_set_nthsD)
  have rel: "list_all2 (\<lambda>b p. shows_events (batch_events b) (snd (snd p))) ?bs ?ps"
    unfolding list_all2_iff
  proof (intro conjI ballI)
    fix x assume "x \<in> set (zip ?bs ?ps)"
    then have "x \<in> set (zip batches ps)" using sub by (auto simp: zip_map_fst_snd)
    then show "case x of (b, p) \<Rightarrow> shows_events (batch_events b) (snd (snd p))" using shown unfolding list_all2_iff by blast
  qed simp
  have ok: "\<forall>p\<in>set ?ps. feed_packet_ok p"
  proof
    fix p assume "p \<in> set ?ps"
    then obtain b where "(b, p) \<in> set zs" by force
    then have "shows_events (batch_events b) (snd (snd p))" "fst p \<in> set (map fst ps)"
      using sub shown by (auto simp: list_all2_iff dest: set_zip_rightD)
    then show "feed_packet_ok p" using assms(3) unfolding nums by (cases p) (auto simp: shows_events_def)
  qed
  have "subseq (map fst ?ps) (map fst ps)"
    using subseq_map [OF zs, of "fst \<circ> snd"] list_all2_lengthD [OF shown] by (simp flip: map_map)
  then have "sorted_wrt (<) (map fst ?ps)" unfolding nums by (rule sorted_wrt_subseq) (rule sorted_wrt_upt)
  then have srt: "sorted_wrt (<) (0 # map fst ?ps)" "sorted_wrt (<) (map fst ?ps)" using ok by fastforce+
  obtain st ls where run: "listen_loop interval rs recvBuf (Stats_new start) = Some (st, ls)" "filter is_data ls = feed_lines 0 ?ps"
    "counters st = (of_nat (length ?ps), of_nat (\<Sum>(n, t, ms)\<leftarrow>?ps. length ms), of_nat (total_missed 0 (map fst ?ps)), of_nat (last (0 # map fst ?ps)))"
    using listen_loop_ok [OF _ assms(6) ok srt(1) assms(7), of "Stats_new start" interval] assms(5)
    by (auto simp: arr Stats_new_def comp_def)
  have data: "filter is_book_line ls = filter is_book_line (filter is_data ls)" "trades_on ls = trades_on (filter is_data ls)" for ls
    by (induction ls) (auto simp: is_book_line_def is_data_def trade_on_line_def List.map_filter_simps split: ListenerLine.splits)
  have "map (packet_number \<circ> snd) arrived = map fst ?ps" using ok packet_number_bytes by (auto simp: arr)
  moreover have "\<forall>n\<in>set (map fst ?ps). 0 < n" using ok by fastforce
  ultimately have "gaps st = of_nat (card (lost_numbers (map (packet_number \<circ> snd) arrived)))" "packetsReceived st = of_nat (length arrived)"
    using run(3) total_missed_lost [OF srt(2)] by (simp_all only: counters_def prod.inject) (simp add: arr)
  with run(1) feed_lines_shown [OF rel, of 0] data [of ls] run(2) show ?thesis by (simp add: arr comp_def case_prod_beta)
qed

definition ex_batches :: "batch list" where
  "ex_batches = [(5, 6, 4, [EvBook ex_update]), (8, 9, 7, [EvBook ex_update]), (11, 12, 10, [EvBook ex_update])]"

text \<open>The second of three packets is lost.\<close>

theorem listener_shows_feed_witness:
  "\<exists>cp st ls. publish_batches ex_batches (ChannelPublisher_new 310) = Some cp \<and>
     listen_loop 10 [Datagram (sent (incremental_feed_a cp) ! 0) 1, WouldBlock 2, Datagram (sent (incremental_feed_a cp) ! 2) 3]
       (replicate RECV_BUF_SIZE 7) (Stats_new 0) = Some (st, ls) \<and>
     filter is_book_line ls = [update_line ex_update, update_line ex_update] \<and> gaps st = 1"
proof -
  have ok: "\<forall>b\<in>set ex_batches. batch_ok b"
    by (simp add: ex_batches_def batch_ok_def ex_update_def wire_update_def int32_def int64_def)
  obtain cp where cp: "publish_batches ex_batches (ChannelPublisher_new 310) = Some cp"
    using publish_batches_total by blast
  have "next_seq_num (incremental_feed_a (ChannelPublisher_new 310)) = of_nat (Suc 0)" "sent (incremental_feed_a (ChannelPublisher_new 310)) = []"
    by (simp_all add: ChannelPublisher_new_def FeedSender_new_def)
  then obtain ps where sent: "sent (incremental_feed_a cp) = map packet_bytes ps" and nums: "map fst ps = [Suc 0..<Suc 0 + length ex_batches]"
    using publish_batches_feed [OF cp ok, of 0] by auto
  then obtain p q r where ps: "ps = [p, q, r]" "fst p = 1" "fst r = 3" by (auto simp: upt_rec map_eq_Cons_conv ex_batches_def)
  let ?b = "(5, 6, 4, [EvBook ex_update]) :: batch" and ?c = "(11, 12, 10, [EvBook ex_update]) :: batch"
  let ?arr = "[(?b, packet_bytes p), (?c, packet_bytes r)]"
  let ?rs = "[Datagram (packet_bytes p) 1, WouldBlock 2, Datagram (packet_bytes r) 3]"
  have sub: "subseq ?arr (zip ex_batches (sent (incremental_feed_a cp)))" by (simp add: sent ps ex_batches_def)
  have num: "packet_number (packet_bytes p) = 1" "packet_number (packet_bytes r) = 3"
    using ps(2,3) by (cases p; cases r; simp add: packet_number_def udp_packet_def decodeMsgSeqNum_def read_le_def read_bytes_def of_le_le)+
  have lost: "lost_numbers [1, 3] = {2}" by (auto simp: lost_numbers_def)
  have "\<exists>st ls. listen_loop 10 ?rs (replicate RECV_BUF_SIZE 7) (Stats_new 0) = Some (st, ls) \<and>
      filter is_book_line ls = [update_line ex_update, update_line ex_update] \<and> gaps st = 1"
    using listener_shows_feed [OF cp ok _ sub, of ?rs "replicate RECV_BUF_SIZE 7" 10 0] num lost
    by (simp add: ex_batches_def del: listen_loop.simps) blast
  then show ?thesis using cp by (intro exI [where x = cp]) (simp add: sent ps(1) del: listen_loop.simps publish_batches.simps)
qed

text \<open>
  A packet received twice counts as 4294967295 missing packets: the difference of the numbers wraps.
\<close>

lemma duplicate_counts_as_gap:
  assumes "feed_packet_ok (n, t, ms)" and "lastSeqNum stats = of_nat n"
  shows "\<exists>stats' ls. processPacket (packet_bytes (n, t, ms)) (12 + length (payload ms)) stats = Some (stats', ls) \<and>
    gaps stats' = gaps stats + 4294967295"
proof -
  let ?data = "packet_bytes (n, t, ms)"
  have h: "decodeMsgSeqNum ?data 0 = Some (of_nat n)" "decodeSendingTime ?data 0 = Some t"
    by (simp_all add: udp_packet_def decodeMsgSeqNum_def decodeSendingTime_def read_le_def read_bytes_def of_le_le)
  have m: "decode_messages ?data (12 + length (payload ms)) 12 st =
      Some (st\<lparr>messagesDecoded := messagesDecoded st + of_nat (length ms)\<rparr>, concat (map message_lines ms))" for st
    using decode_messages_payload [of ms "le 4 (of_nat n :: 32 word) @ le 8 t" "[]" st] assms(1) by (simp add: udp_packet_def)
  have "0 < (of_nat n :: 32 word)" using of_nat_pos32 [of n] assms(1) by simp
  moreover have "(ucast (- 1 :: 32 word) :: 64 word) = 4294967295" by code_simp
  ultimately show ?thesis using h m assms(2)
    by (simp add: processPacket_def PacketHeader_SIZE_def Let_def del: packet_bytes.simps)
qed

end
