(* ===== verification/ILink3_Client.thy ===== *)
theory ILink3_Client
  imports Fixp_Session Order_Gateway Sbe_Dispatch Md_Builders
begin

text \<open>
  \<^verbatim>\<open>tools/ilink3_client.cpp\<close>: the order entry client.  It logs on over TCP, sends orders, cancels, modifies and
  heartbeats, and reads the server's reports.

  The socket is the bytes the peer will have sent, the bytes written, and whether writes still succeed.  A
  read takes exactly the requested bytes or fails at the end of the input.  \<open>None\<close> is an access outside a
  buffer.  Clock readings are arguments.  Of the console output, the lines for received messages are
  values; the parsing of console input by the stream library is left out: \<open>ClientInput\<close> is a parsed line.
\<close>

section \<open>State\<close>

record ClientSession =
  c_uuid :: "64 word"
  nextOutSeqNo :: "32 word"
  nextInSeqNo :: "32 word"
  keepAliveIntervalMs :: "16 word"
  c_state :: string
  nextOrderRequestID :: "64 word"
  nextClOrdCounter :: "32 word"
  orderMap :: "64 word \<rightharpoonup> bytes"
  ordersSent :: "32 word"
  ordersAccepted :: "32 word"
  ordersRejected :: "32 word"
  ordersCancelled :: "32 word"
  ordersModified :: "32 word"
  c_fills :: "32 word"

definition ClientSession_new :: ClientSession where
  "ClientSession_new = \<lparr>c_uuid = 0, nextOutSeqNo = 1, nextInSeqNo = 1, keepAliveIntervalMs = 30000, c_state = ''Disconnected'',
     nextOrderRequestID = 1, nextClOrdCounter = 1, orderMap = Map.empty, ordersSent = 0, ordersAccepted = 0,
     ordersRejected = 0, ordersCancelled = 0, ordersModified = 0, c_fills = 0\<rparr>"

record ClientSock =
  incoming :: bytes
  outgoing :: bytes
  writable :: bool

definition sock_read :: "nat \<Rightarrow> ClientSock \<Rightarrow> ClientSock \<times> bytes option" where
  "sock_read n sock =
     (if n \<le> length (incoming sock) then (sock\<lparr>incoming := drop n (incoming sock)\<rparr>, Some (take n (incoming sock)))
      else (sock\<lparr>incoming := []\<rparr>, None))"

section \<open>Sending\<close>

definition sendFramed :: "bytes \<Rightarrow> ClientSock \<Rightarrow> ClientSock option" where
  "sendFramed sbe_data sock = do {
     sofh \<leftarrow> SOFH_encode 0 (framedLength (of_nat (length sbe_data))) (replicate SOFH_SIZE 0);
     Some (if writable sock then sock\<lparr>outgoing := outgoing sock @ sofh @ sbe_data\<rparr> else sock)
   }"

definition client_send :: "(bytes \<Rightarrow> nat \<Rightarrow> (bytes \<times> nat) option) \<Rightarrow> nat \<Rightarrow> ClientSock \<Rightarrow> ClientSock option" where
  "client_send encode buf_size sock = do {
     (buf, sbeLen) \<leftarrow> encode (replicate buf_size 0) 0;
     sendFramed (take sbeLen buf) sock
   }"

definition Price_fromDouble :: "double \<Rightarrow> Price" where
  "Price_fromDouble d = Price (int64_of_double (times_double d (double_of_int (10 ^ 9))))"

definition client_id :: "string \<Rightarrow> ClientSession \<Rightarrow> bytes" where
  "client_id prefix s = bytes_of_string prefix @ to_string (unat (nextClOrdCounter s))"

definition bump :: "ClientSession \<Rightarrow> ClientSession" where
  "bump s = s\<lparr>nextOutSeqNo := nextOutSeqNo s + 1, nextOrderRequestID := nextOrderRequestID s + 1,
     nextClOrdCounter := nextClOrdCounter s + 1\<rparr>"

definition client_new_order :: "64 word \<Rightarrow> 8 word \<Rightarrow> int \<Rightarrow> 32 word \<Rightarrow> double \<Rightarrow> ClientSession \<Rightarrow> NewOrderSingle514" where
  "client_new_order nowNanos side_code sec qty px s = NewOrderSingle514_default
     \<lparr>NewOrderSingle514.price := of_int (mantissa (Price_fromDouble px)),
      NewOrderSingle514.orderQty := qty,
      NewOrderSingle514.securityID := of_int sec,
      NewOrderSingle514.side := side_code,
      NewOrderSingle514.seqNum := nextOutSeqNo s,
      NewOrderSingle514.orderRequestID := nextOrderRequestID s,
      NewOrderSingle514.sendingTimeEpoch := nowNanos,
      NewOrderSingle514.ordType := OrderType_code Limit,
      NewOrderSingle514.timeInForce := TimeInForce_code Day,
      NewOrderSingle514.manualOrderIndicator := 0,
      NewOrderSingle514.displayQty := qty,
      NewOrderSingle514.clOrdID := writeFixedString (Some (client_id ''ORD-'' s)) 20,
      NewOrderSingle514.senderID := writeFixedString (Some (bytes_of_string ''TestClient'')) 20,
      NewOrderSingle514.location := writeFixedString (Some (bytes_of_string ''US,NY'')) 5\<rparr>"

definition sendOrder ::
  "64 word \<Rightarrow> 8 word \<Rightarrow> int \<Rightarrow> 32 word \<Rightarrow> double \<Rightarrow> ClientSession \<Rightarrow> ClientSock \<Rightarrow> (ClientSession \<times> ClientSock) option" where
  "sendOrder nowNanos side_code sec qty px s sock = do {
     sock \<leftarrow> client_send (NewOrderSingle514_encode (client_new_order nowNanos side_code sec qty px s)) 4096 sock;
     Some ((bump s)\<lparr>ordersSent := ordersSent s + 1\<rparr>, sock)
   }"

definition client_cancel :: "64 word \<Rightarrow> 64 word \<Rightarrow> ClientSession \<Rightarrow> OrderCancelRequest516" where
  "client_cancel nowNanos oid s = OrderCancelRequest516_default
     \<lparr>OrderCancelRequest516.orderID := oid,
      OrderCancelRequest516.seqNum := nextOutSeqNo s,
      OrderCancelRequest516.sendingTimeEpoch := nowNanos,
      OrderCancelRequest516.orderRequestID := nextOrderRequestID s,
      OrderCancelRequest516.side := Side_code Buy,
      OrderCancelRequest516.manualOrderIndicator := 0,
      OrderCancelRequest516.clOrdID := writeFixedString (Some (client_id ''CXL-'' s)) 20,
      OrderCancelRequest516.senderID := writeFixedString (Some (bytes_of_string ''TestClient'')) 20,
      OrderCancelRequest516.location := writeFixedString (Some (bytes_of_string ''US,NY'')) 5\<rparr>"

definition sendCancel :: "64 word \<Rightarrow> 64 word \<Rightarrow> ClientSession \<Rightarrow> ClientSock \<Rightarrow> (ClientSession \<times> ClientSock) option" where
  "sendCancel nowNanos oid s sock = do {
     sock \<leftarrow> client_send (OrderCancelRequest516_encode (client_cancel nowNanos oid s)) 4096 sock;
     Some (bump s, sock)
   }"

definition client_modify :: "64 word \<Rightarrow> 64 word \<Rightarrow> 32 word \<Rightarrow> double \<Rightarrow> ClientSession \<Rightarrow> OrderCancelReplaceRequest515" where
  "client_modify nowNanos oid newQty newPrice s = OrderCancelReplaceRequest515_default
     \<lparr>OrderCancelReplaceRequest515.orderID := oid,
      OrderCancelReplaceRequest515.price := of_int (mantissa (Price_fromDouble newPrice)),
      OrderCancelReplaceRequest515.orderQty := newQty,
      OrderCancelReplaceRequest515.seqNum := nextOutSeqNo s,
      OrderCancelReplaceRequest515.sendingTimeEpoch := nowNanos,
      OrderCancelReplaceRequest515.orderRequestID := nextOrderRequestID s,
      OrderCancelReplaceRequest515.side := Side_code Buy,
      OrderCancelReplaceRequest515.ordType := OrderType_code Limit,
      OrderCancelReplaceRequest515.timeInForce := TimeInForce_code Day,
      OrderCancelReplaceRequest515.manualOrderIndicator := 0,
      OrderCancelReplaceRequest515.displayQty := newQty,
      OrderCancelReplaceRequest515.clOrdID := writeFixedString (Some (client_id ''MOD-'' s)) 20,
      OrderCancelReplaceRequest515.senderID := writeFixedString (Some (bytes_of_string ''TestClient'')) 20,
      OrderCancelReplaceRequest515.location := writeFixedString (Some (bytes_of_string ''US,NY'')) 5\<rparr>"

definition sendModify ::
  "64 word \<Rightarrow> 64 word \<Rightarrow> 32 word \<Rightarrow> double \<Rightarrow> ClientSession \<Rightarrow> ClientSock \<Rightarrow> (ClientSession \<times> ClientSock) option" where
  "sendModify nowNanos oid newQty newPrice s sock = do {
     sock \<leftarrow> client_send (OrderCancelReplaceRequest515_encode (client_modify nowNanos oid newQty newPrice s)) 4096 sock;
     Some (bump s, sock)
   }"

definition client_sendSequenceHeartbeat :: "ClientSession \<Rightarrow> ClientSock \<Rightarrow> ClientSock option" where
  "client_sendSequenceHeartbeat s sock =
     (let seq = Sequence506_default
            \<lparr>Sequence506.uuid := c_uuid s, Sequence506.nextSeqNo := nextOutSeqNo s,
             Sequence506.faultToleranceIndicator := 0, Sequence506.keepAliveIntervalLapsed := 0\<rparr>
      in client_send (Sequence506_encode seq) 256 sock)"

definition client_sendTerminate :: "64 word \<Rightarrow> ClientSession \<Rightarrow> ClientSock \<Rightarrow> (ClientSession \<times> ClientSock) option" where
  "client_sendTerminate nowNanos s sock =
     (let trm = Terminate507_default
            \<lparr>Terminate507.uuid := c_uuid s, Terminate507.requestTimestamp := nowNanos, Terminate507.errorCodes := 0\<rparr>
      in do {
        sock \<leftarrow> client_send (Terminate507_encode trm) 256 sock;
        Some (s\<lparr>c_state := ''Terminated''\<rparr>, sock)
      })"

section \<open>Logging on\<close>

text \<open>
  Reading one framed message into the local array, whose remaining bytes keep their old values; \<open>None\<close> when
  the connection ends or the announced message is larger than the array.
\<close>

definition handshake_read :: "bytes \<Rightarrow> ClientSock \<Rightarrow> ClientSock \<times> bytes option" where
  "handshake_read buf sock =
     (case sock_read SOFH_SIZE sock of
        (sock, None) \<Rightarrow> (sock, None)
      | (sock, Some sofhBuf) \<Rightarrow>
          case decodeMessageLength sofhBuf 0 of
            None \<Rightarrow> (sock, None)
          | Some msgLen \<Rightarrow>
              let payloadLen = msgLen - of_nat SOFH_SIZE
              in if unat payloadLen > length buf then (sock, None)
                 else case sock_read (unat payloadLen) sock of
                   (sock, None) \<Rightarrow> (sock, None)
                 | (sock, Some payload) \<Rightarrow> (sock, Some (payload @ drop (length payload) buf)))"

definition client_negotiate :: "64 word \<Rightarrow> 64 word \<Rightarrow> Negotiate500" where
  "client_negotiate u now = Negotiate500_default
     \<lparr>Negotiate500.uuid := u, Negotiate500.sendingTime := now,
      Negotiate500.accessKeyID := writeFixedString (Some (bytes_of_string ''TestClient'')) 20,
      Negotiate500.session := writeFixedString (Some (bytes_of_string ''T01'')) 3,
      Negotiate500.firm := writeFixedString (Some (bytes_of_string ''TEST'')) 5,
      Negotiate500.cancelOnDisconnectIndicator := 1\<rparr>"

definition client_establish :: "64 word \<Rightarrow> 64 word \<Rightarrow> 32 word \<Rightarrow> Establish503" where
  "client_establish u now seq = Establish503_default
     \<lparr>Establish503.uuid := u, Establish503.sendingTime := now,
      Establish503.accessKeyID := writeFixedString (Some (bytes_of_string ''TestClient'')) 20,
      Establish503.session := writeFixedString (Some (bytes_of_string ''T01'')) 3,
      Establish503.firm := writeFixedString (Some (bytes_of_string ''TEST'')) 5,
      Establish503.keepAliveInterval := 30000, Establish503.nextSeqNo := seq\<rparr>"

text \<open>The second half, once negotiation is answered.\<close>

definition establish_handshake ::
  "64 word \<Rightarrow> bytes \<Rightarrow> ClientSession \<Rightarrow> ClientSock \<Rightarrow> (bool \<times> ClientSession \<times> ClientSock) option" where
  "establish_handshake now2 buf s sock = do {
     (buf, sbeLen) \<leftarrow> Establish503_encode (client_establish (c_uuid s) now2 (nextOutSeqNo s)) buf 0;
     sock \<leftarrow> sendFramed (take sbeLen buf) sock;
     let s = s\<lparr>c_state := ''EstablishSent''\<rparr>;
     case handshake_read buf sock of
       (sock, None) \<Rightarrow> Some (False, s, sock)
     | (sock, Some buf) \<Rightarrow> do {
         templateId \<leftarrow> decodeTemplateId buf 0;
         if templateId \<noteq> EstablishmentAck504_TEMPLATE_ID then Some (False, s, sock)
         else do {
           estAck \<leftarrow> EstablishmentAck504_decode buf 0;
           Some (True, s\<lparr>keepAliveIntervalMs := EstablishmentAck504.keepAliveInterval estAck,
                  nextInSeqNo := EstablishmentAck504.nextSeqNo estAck, c_state := ''Established''\<rparr>, sock)
         }
       }
   }"

definition performHandshake ::
  "64 word \<Rightarrow> 64 word \<Rightarrow> 64 word \<Rightarrow> bytes \<Rightarrow> ClientSession \<Rightarrow> ClientSock \<Rightarrow> (bool \<times> ClientSession \<times> ClientSock) option" where
  "performHandshake steady now1 now2 buf s sock = do {
     let s = s\<lparr>c_uuid := steady\<rparr>;
     (buf, sbeLen) \<leftarrow> Negotiate500_encode (client_negotiate (c_uuid s) now1) buf 0;
     sock \<leftarrow> sendFramed (take sbeLen buf) sock;
     let s = s\<lparr>c_state := ''NegotiateSent''\<rparr>;
     case handshake_read buf sock of
       (sock, None) \<Rightarrow> Some (False, s, sock)
     | (sock, Some buf) \<Rightarrow> do {
         templateId \<leftarrow> decodeTemplateId buf 0;
         if templateId \<noteq> NegotiationResponse501_TEMPLATE_ID then Some (False, s, sock)
         else do {
           negResp \<leftarrow> NegotiationResponse501_decode buf 0;
           establish_handshake now2 buf (s\<lparr>c_state := ''Negotiated''\<rparr>) sock
         }
       }
   }"

section \<open>Receiving\<close>

datatype ClientLine =
    MessageTooShort nat
  | OrderAccepted "64 word" bytes int "8 word" "32 word" Price
  | OrderRejected bytes "16 word"
  | FillLine "64 word" "32 word" Price "32 word" "32 word" bool
  | OrderCancelled "64 word" "32 word"
  | OrderModified "64 word" "32 word" Price
  | OrderEliminated "64 word" "32 word"
  | CancelRejected "64 word" "16 word"
  | KeepAliveLapsed
  | ServerTerminated "16 word"
  | NotAppliedLine "32 word" "32 word"
  | UnknownMessage "16 word" "16 word"

text \<open>\<open>processMessage\<close>: the session, the flag \<^verbatim>\<open>g_running\<close> and the lines printed.\<close>

definition processMessage ::
  "bytes \<Rightarrow> nat \<Rightarrow> ClientSession \<Rightarrow> bool \<Rightarrow> (ClientSession \<times> bool \<times> ClientLine list) option" where
  "processMessage data len s g_running =
     (if len < MessageHeader_SIZE then Some (s, g_running, [MessageTooShort len])
      else do {
        templateId \<leftarrow> decodeTemplateId data 0;
        blockLength \<leftarrow> decodeBlockLength data 0;
        if templateId = ExecutionReportNew522_TEMPLATE_ID then do {
          er \<leftarrow> ExecutionReportNew522_decode data 0;
          cl \<leftarrow> readFixedString (ExecutionReportNew522.clOrdID er) 0 20;
          Some (s\<lparr>orderMap := (orderMap s)(ExecutionReportNew522.orderID er \<mapsto> c_str cl), ordersAccepted := ordersAccepted s + 1\<rparr>, g_running,
            [OrderAccepted (ExecutionReportNew522.orderID er) (c_str cl) (sint (ExecutionReportNew522.securityID er))
               (ExecutionReportNew522.side er) (ExecutionReportNew522.orderQty er) (Price (sint (ExecutionReportNew522.price er)))])
        }
        else if templateId = ExecutionReportReject523_TEMPLATE_ID then do {
          er \<leftarrow> ExecutionReportReject523_decode data 0;
          cl \<leftarrow> readFixedString (ExecutionReportReject523.clOrdID er) 0 20;
          Some (s\<lparr>ordersRejected := ordersRejected s + 1\<rparr>, g_running, [OrderRejected (c_str cl) (ExecutionReportReject523.ordRejReason er)])
        }
        else if templateId = ExecutionReportTradeOutright525_TEMPLATE_ID then do {
          er \<leftarrow> ExecutionReportTradeOutright525_decode data 0;
          Some (s\<lparr>c_fills := c_fills s + 1\<rparr>, g_running,
            [FillLine (ExecutionReportTradeOutright525.orderID er) (ExecutionReportTradeOutright525.lastQty er)
               (Price (sint (ExecutionReportTradeOutright525.lastPx er))) (ExecutionReportTradeOutright525.cumQty er)
               (ExecutionReportTradeOutright525.leavesQty er) (ExecutionReportTradeOutright525.aggressorIndicator er \<noteq> 0)])
        }
        else if templateId = ExecutionReportCancel534_TEMPLATE_ID then do {
          er \<leftarrow> ExecutionReportCancel534_decode data 0;
          Some (s\<lparr>ordersCancelled := ordersCancelled s + 1, orderMap := (orderMap s)(ExecutionReportCancel534.orderID er := None)\<rparr>, g_running,
            [OrderCancelled (ExecutionReportCancel534.orderID er) (ExecutionReportCancel534.cumQty er)])
        }
        else if templateId = ExecutionReportModify531_TEMPLATE_ID then do {
          er \<leftarrow> ExecutionReportModify531_decode data 0;
          Some (s\<lparr>ordersModified := ordersModified s + 1\<rparr>, g_running,
            [OrderModified (ExecutionReportModify531.orderID er) (ExecutionReportModify531.orderQty er)
               (Price (sint (ExecutionReportModify531.price er)))])
        }
        else if templateId = ExecutionReportElimination524_TEMPLATE_ID then do {
          er \<leftarrow> ExecutionReportElimination524_decode data 0;
          Some (s, g_running, [OrderEliminated (ExecutionReportElimination524.orderID er) (ExecutionReportElimination524.cumQty er)])
        }
        else if templateId = OrderCancelReject535_TEMPLATE_ID then do {
          cr \<leftarrow> OrderCancelReject535_decode data 0;
          Some (s, g_running, [CancelRejected (OrderCancelReject535.orderID cr) (OrderCancelReject535.cxlRejReason cr)])
        }
        else if templateId = Sequence506_TEMPLATE_ID then do {
          seq \<leftarrow> Sequence506_decode data 0;
          Some (s, g_running, if Sequence506.keepAliveIntervalLapsed seq \<noteq> 0 then [KeepAliveLapsed] else [])
        }
        else if templateId = NegotiationResponse501_TEMPLATE_ID \<or> templateId = EstablishmentAck504_TEMPLATE_ID then
          Some (s, g_running, [])
        else if templateId = Terminate507_TEMPLATE_ID then do {
          trm \<leftarrow> Terminate507_decode data 0;
          Some (s\<lparr>c_state := ''Terminated''\<rparr>, False, [ServerTerminated (Terminate507.errorCodes trm)])
        }
        else if templateId = NotApplied513_TEMPLATE_ID then do {
          na \<leftarrow> NotApplied513_decode data 0;
          Some (s, g_running, [NotAppliedLine (NotApplied513.fromSeqNo na) (NotApplied513.msgCount na)])
        }
        else Some (s, g_running, [UnknownMessage templateId blockLength])
      })"

text \<open>
  The reader thread.  The payload vector grows when a longer message is announced and keeps old bytes
  behind shorter ones.
\<close>

definition read_into :: "bytes \<Rightarrow> bytes \<Rightarrow> bytes" where
  "read_into msg payload = msg @ drop (length msg) payload"

function readerThread ::
  "bytes \<Rightarrow> ClientSession \<Rightarrow> bool \<Rightarrow> ClientSock \<Rightarrow> (ClientSession \<times> bool \<times> ClientLine list) option" where
  "readerThread payload s g_running sock =
     (if g_running \<and> c_state s \<noteq> ''Terminated'' then
        case sock_read SOFH_SIZE sock of
          (_, None) \<Rightarrow> Some (s, False, [])
        | (sock', Some sofhBuf) \<Rightarrow>
            Option.bind (decodeMessageLength sofhBuf 0) (\<lambda>msgLen.
              let payloadLen = unat (msgLen - of_nat SOFH_SIZE);
                  payload = payload @ replicate (payloadLen - length payload) 0
              in case sock_read payloadLen sock' of
                   (_, None) \<Rightarrow> Some (s, False, [])
                 | (sock'', Some msg) \<Rightarrow>
                     Option.bind (processMessage (read_into msg payload) payloadLen s g_running) (\<lambda>(s, g_running, ls).
                       map_option (\<lambda>(s, g_running, ls'). (s, g_running, ls @ ls'))
                         (readerThread (read_into msg payload) s g_running sock'')))
      else Some (s, g_running, []))"
  by pat_completeness auto
termination
  by (relation "measure (\<lambda>(payload, s, g_running, sock). length (incoming sock))")
    (auto simp: sock_read_def SOFH_SIZE_def split: if_splits)

declare readerThread.simps [simp del]

section \<open>The other threads\<close>

text \<open>One round of the keep-alive thread, after its sleep.\<close>

definition keepalive_round :: "ClientSession \<Rightarrow> bool \<Rightarrow> ClientSock \<Rightarrow> ClientSock option" where
  "keepalive_round s g_running sock =
     (if g_running \<and> c_state s = ''Established'' then client_sendSequenceHeartbeat s sock else Some sock)"

datatype ClientInput =
    InBuy int "32 word" double
  | InSell int "32 word" double
  | InCancel "64 word"
  | InModify "64 word" "32 word" double
  | InStatus | InOrders | InQuit | InUsage | InUnknown | InEmpty

text \<open>One line of the interactive loop: the new session, \<^verbatim>\<open>g_running\<close> and the socket.\<close>

fun interactive_line ::
  "64 word \<Rightarrow> ClientInput \<Rightarrow> ClientSession \<Rightarrow> bool \<Rightarrow> ClientSock \<Rightarrow> (ClientSession \<times> bool \<times> ClientSock) option" where
  "interactive_line now (InBuy sec qty px) s g sock =
     map_option (\<lambda>(s, sock). (s, g, sock)) (sendOrder now (Side_code Buy) sec qty px s sock)"
| "interactive_line now (InSell sec qty px) s g sock =
     map_option (\<lambda>(s, sock). (s, g, sock)) (sendOrder now (Side_code Sell) sec qty px s sock)"
| "interactive_line now (InCancel oid) s g sock = map_option (\<lambda>(s, sock). (s, g, sock)) (sendCancel now oid s sock)"
| "interactive_line now (InModify oid qty px) s g sock =
     map_option (\<lambda>(s, sock). (s, g, sock)) (sendModify now oid qty px s sock)"
| "interactive_line now InQuit s g sock = map_option (\<lambda>(s, sock). (s, False, sock)) (client_sendTerminate now s sock)"
| "interactive_line now _ s g sock = Some (s, g, sock)"

fun interactiveLoop ::
  "(64 word \<times> ClientInput) list \<Rightarrow> ClientSession \<Rightarrow> bool \<Rightarrow> ClientSock \<Rightarrow> (ClientSession \<times> bool \<times> ClientSock) option" where
  "interactiveLoop [] s g sock = Some (s, g, sock)"
| "interactiveLoop ((now, i) # is) s g sock =
     (if g \<and> c_state s = ''Established'' then do {
        (s, g, sock) \<leftarrow> interactive_line now i s g sock;
        interactiveLoop is s g sock
      } else Some (s, g, sock))"

text \<open>The automatic mode's prices \<^verbatim>\<open>5000.0 + (i % 10) * 0.25\<close> are exact in binary.\<close>

definition auto_price :: "nat \<Rightarrow> double" where
  "auto_price i = Double (20000 + int (i mod 10)) (- 2)"

definition auto_side :: "nat \<Rightarrow> 8 word" where
  "auto_side i = (if i mod 2 = 0 then Side_code Buy else Side_code Sell)"

text \<open>\<open>running i\<close> is what the loop reads of \<^verbatim>\<open>g_running\<close> before order \<open>i\<close>.\<close>

fun auto_orders ::
  "(nat \<Rightarrow> 64 word) \<Rightarrow> (nat \<Rightarrow> bool) \<Rightarrow> nat \<Rightarrow> nat \<Rightarrow> ClientSession \<Rightarrow> ClientSock \<Rightarrow> (ClientSession \<times> ClientSock) option" where
  "auto_orders clk running i 0 s sock = Some (s, sock)"
| "auto_orders clk running i (Suc n) s sock =
     (if running i then do {
        (s, sock) \<leftarrow> sendOrder (clk i) (auto_side i) 1 1 (auto_price i) s sock;
        auto_orders clk running (Suc i) n s sock
      } else Some (s, sock))"

definition autoTest ::
  "(nat \<Rightarrow> 64 word) \<Rightarrow> (nat \<Rightarrow> bool) \<Rightarrow> int \<Rightarrow> ClientSession \<Rightarrow> ClientSock \<Rightarrow> (ClientSession \<times> ClientSock) option" where
  "autoTest clk running numOrders s sock = do {
     (s, sock) \<leftarrow> auto_orders clk running 0 (nat numOrders) s sock;
     client_sendTerminate (clk (nat numOrders)) s sock
   }"

section \<open>Options\<close>

record ClientArgs =
  ca_host :: string
  ca_port :: string
  ca_interactive :: bool
  ca_autoOrders :: int

definition ClientArgs_default :: ClientArgs where
  "ClientArgs_default = \<lparr>ca_host = ''127.0.0.1'', ca_port = ''19000'', ca_interactive = True, ca_autoOrders = 0\<rparr>"

datatype ClientCommand = RunClient ClientArgs | ClientUsage | ClientThrows

fun parse_client_args :: "string list \<Rightarrow> ClientArgs \<Rightarrow> ClientCommand" where
  "parse_client_args [] a = RunClient a"
| "parse_client_args [arg] a =
     (if arg = ''--interactive'' then RunClient (a\<lparr>ca_interactive := True\<rparr>)
      else if arg = ''--help'' \<or> arg = ''-h'' then ClientUsage else RunClient a)"
| "parse_client_args (arg # v # rest) a =
     (if arg = ''--host'' then parse_client_args rest (a\<lparr>ca_host := v\<rparr>)
      else if arg = ''--port'' then parse_client_args rest (a\<lparr>ca_port := v\<rparr>)
      else if arg = ''--auto'' then (case stoi v of None \<Rightarrow> ClientThrows
        | Some n \<Rightarrow> parse_client_args rest (a\<lparr>ca_autoOrders := n, ca_interactive := False\<rparr>))
      else if arg = ''--interactive'' then parse_client_args (v # rest) (a\<lparr>ca_interactive := True\<rparr>)
      else if arg = ''--help'' \<or> arg = ''-h'' then ClientUsage
      else parse_client_args (v # rest) a)"

end
