(* ===== verification/Client_Properties.thy ===== *)
theory Client_Properties
  imports ILink3_Client Fixp_Properties Tcp_Network
begin

text \<open>
  The order entry client against the server's session, connection and gateway: the frames the two sides
  exchange, the log-on, and what becomes of the client's orders.
\<close>

section \<open>Frames\<close>

text \<open>The client's framing is the one of the server's connections.\<close>

lemma sendFramed_frame:
  "sendFramed data sock = Some (if writable sock then sock\<lparr>outgoing := outgoing sock @ tcp_frame data\<rparr> else sock)"
proof -
  let ?len = "framedLength (of_nat (length data))"
  let ?h = "[(0, le 4 (native_to_big32 ?len)), (4, le 2 (native_to_big16 SBE_ENCODING_TYPE))]"
  have "SOFH_encode 0 ?len (replicate SOFH_SIZE 0) = Some (body_of ?h)"
    using write_all_body [of 0 ?h 0 "replicate SOFH_SIZE 0"] by (simp add: SOFH_encode_def SOFH_SIZE_def)
  moreover have "body_of ?h @ data = tcp_frame data"
    by (simp add: tcp_frame_def framedLength_def SOFH_SIZE_def kSofhSize_def SBE_ENCODING_TYPE_def kSofhEncodingSbe_def)
  ultimately show ?thesis by (auto simp: sendFramed_def)
qed

context sbe_message
begin

lemma client_send_wire:
  "wf m \<Longrightarrow> 8 + msize m \<le> n \<Longrightarrow> client_send (encode m) n sock = sendFramed (wire m) sock"
  by (simp add: client_send_def encode_local)

end

lemma frame_header:
  assumes "length m < 2 ^ 32 - 6"
  shows "take 6 (tcp_frame m @ rest) = take 6 (tcp_frame m)" and "drop 6 (tcp_frame m @ rest) = m @ rest"
    and "decodeMessageLength (take 6 (tcp_frame m)) 0 = Some (of_nat (6 + length m))"
    and "unat (of_nat (6 + length m) - of_nat SOFH_SIZE :: 32 word) = length m"
proof -
  show "take 6 (tcp_frame m @ rest) = take 6 (tcp_frame m)" "drop 6 (tcp_frame m @ rest) = m @ rest"
    by (simp_all add: tcp_frame_def)
  show "decodeMessageLength (take 6 (tcp_frame m)) 0 = Some (of_nat (6 + length m))"
    by (simp add: tcp_frame_def kSofhSize_def decodeMessageLength_def read_le_def read_bytes_def of_le_le
        big_to_native32_def native_to_big32_def)
  show "unat (of_nat (6 + length m) - of_nat SOFH_SIZE :: 32 word) = length m"
    using assms by (simp add: SOFH_SIZE_def unat_of_nat)
qed

lemma handshake_read_frame:
  assumes "length m \<le> length buf" and "length buf < 2 ^ 32 - 6" and "incoming sock = tcp_frame m @ rest"
  shows "handshake_read buf sock = (sock\<lparr>incoming := rest\<rparr>, Some (m @ drop (length m) buf))"
proof -
  have l: "length m < 2 ^ 32 - 6" using assms by simp
  note h = frame_header [OF l]
  have "6 \<le> length (incoming sock)" by (simp add: assms(3) tcp_frame_def)
  then have r: "sock_read SOFH_SIZE sock = (sock\<lparr>incoming := m @ rest\<rparr>, Some (take 6 (tcp_frame m)))"
    using h(1,2) by (simp add: sock_read_def SOFH_SIZE_def assms(3))
  have "sock_read (length m) (sock\<lparr>incoming := m @ rest\<rparr>) = (sock\<lparr>incoming := rest\<rparr>, Some m)" by (simp add: sock_read_def)
  then show ?thesis using r h(3,4) assms(1) by (simp add: handshake_read_def Let_def)
qed

section \<open>Logging on\<close>

lemma wf_client_negotiate: "Negotiate500_wf (client_negotiate u t)"
  by (simp add: Negotiate500_wf_def client_negotiate_def Negotiate500_default_def)

lemma wf_client_establish: "Establish503_wf (client_establish u t q)"
  by (simp add: Establish503_wf_def client_establish_def Establish503_default_def)

lemma wire_lengths:
  "length (negotiate500.wire (client_negotiate u t)) = 93" "length (establish503.wire (client_establish u t q)) = 91"
  "length (negotiationResponse501.wire a) = 40" "length (establishmentAck504.wire b) = 42"
  using negotiate500.length_wire [OF wf_client_negotiate, of u t] establish503.length_wire [OF wf_client_establish, of u t q]
    negotiationResponse501.length_wire [of a] establishmentAck504.length_wire [of b]
  by (simp_all add: Negotiate500_BLOCK_LENGTH_def Establish503_BLOCK_LENGTH_def NegotiationResponse501_BLOCK_LENGTH_def
      EstablishmentAck504_BLOCK_LENGTH_def)

lemma server_negotiates:
  assumes "sess_state s = Connected" and "\<not> hmac_enabled s" and "send_cb s"
  shows "onMessage hmac env (negotiate500.wire (client_negotiate u t)) s =
    Some (s\<lparr>last_received := steady_now env, sess_state := Negotiated, last_sent := steady_now env\<rparr>,
      [Send (negotiationResponse501.wire (resp501 t s))])"
proof -
  let ?m = "negotiate500.wire (client_negotiate u t)"
  have l: "length ?m = 93" by (rule wire_lengths)
  have "Negotiate500.sendingTime (client_negotiate u t) = t" by (simp add: client_negotiate_def Negotiate500_default_def)
  moreover have "resp501 t (s\<lparr>last_received := x, sess_state := y\<rparr>) = resp501 t s" for x y by (simp add: resp501_def)
  ultimately show ?thesis using assms l negotiate500.decode_wire [OF wf_client_negotiate, of u t]
    by (simp add: onMessage_def handleNegotiate_def template_ids MessageHeader_SIZE_def sendFramedMessage_eq Let_def)
qed

lemma server_establishes:
  assumes "sess_state s = Negotiated" and "\<not> hmac_enabled s" and "send_cb s"
  shows "onMessage hmac env (establish503.wire (client_establish u t q)) s =
    Some (s\<lparr>last_received := steady_now env, keep_alive_interval_ms := 30000, next_in_seq := q, sess_state := Established,
        last_sent := steady_now env\<rparr>,
      [Send (establishmentAck504.wire (ack504 t 30000 s))])"
proof -
  let ?m = "establish503.wire (client_establish u t q)"
  have l: "length ?m = 91" by (rule wire_lengths)
  have "Establish503.sendingTime (client_establish u t q) = t" "Establish503.nextSeqNo (client_establish u t q) = q"
    "Establish503.keepAliveInterval (client_establish u t q) = 30000"
    by (simp_all add: client_establish_def Establish503_default_def)
  moreover have "clamp_keep_alive 30000 = 30000" "(ucast (30000 :: 32 word) :: 16 word) = 30000" by code_simp+
  ultimately show ?thesis using assms l establish503.decode_wire [OF wf_client_establish, of u t q]
    by (simp add: onMessage_def handleEstablish_def template_ids MessageHeader_SIZE_def sendFramedMessage_eq Let_def)
      (simp add: ack504_def)
qed

lemma client_handshake_ok:
  fixes s :: Session and u now1 now2 :: "64 word"
  defines "neg \<equiv> negotiate500.wire (client_negotiate u now1)" and "est \<equiv> establish503.wire (client_establish u now2 1)"
    and "r1 \<equiv> negotiationResponse501.wire (resp501 now1 s)" and "r2 \<equiv> establishmentAck504.wire (ack504 now2 30000 s)"
  assumes buf: "length buf = 4096"
  shows "performHandshake u now1 now2 buf ClientSession_new
      \<lparr>incoming = tcp_frame r1 @ tcp_frame r2 @ rest, outgoing = [], writable = True\<rparr> =
    Some (True, ClientSession_new\<lparr>c_uuid := u, keepAliveIntervalMs := 30000, nextInSeqNo := next_out_seq s, c_state := ''Established''\<rparr>,
      \<lparr>incoming = rest, outgoing = tcp_frame neg @ tcp_frame est, writable = True\<rparr>)"
proof -
  let ?c = "ClientSession_new\<lparr>c_uuid := u, c_state := ''Negotiated''\<rparr>"
  have lr: "length r1 \<le> 4096" "length r2 \<le> 4096"
    by (simp_all add: r1_def r2_def wire_lengths)
  have enc: "\<exists>b. Negotiate500_encode (client_negotiate u now1) buf 0 = Some (b, length neg) \<and> take (length neg) b = neg \<and> length b = 4096"
    using negotiate500.encode_wire [OF wf_client_negotiate [of u now1], of buf] wire_lengths(1) [of u now1] buf
    by (simp add: neg_def Negotiate500_BLOCK_LENGTH_def)
  then obtain b1 where b1: "Negotiate500_encode (client_negotiate u now1) buf 0 = Some (b1, length neg)" "take (length neg) b1 = neg"
    "length b1 = 4096" by blast
  define b2 where "b2 = r1 @ drop (length r1) b1"
  have l2: "length b2 = 4096" using lr(1) b1(3) by (simp add: b2_def)
  have "\<exists>b. Establish503_encode (client_establish u now2 1) b2 0 = Some (b, length est) \<and> take (length est) b = est \<and> length b = 4096"
    using establish503.encode_wire [OF wf_client_establish [of u now2 1], of b2] wire_lengths(2) [of u now2 1] l2
    by (simp add: est_def Establish503_BLOCK_LENGTH_def)
  then obtain b3 where b3: "Establish503_encode (client_establish u now2 1) b2 0 = Some (b3, length est)" "take (length est) b3 = est"
    "length b3 = 4096" by blast
  have d1: "decodeTemplateId b2 0 = Some NegotiationResponse501_TEMPLATE_ID" "NegotiationResponse501_decode b2 0 = Some (resp501 now1 s)"
    using negotiationResponse501.message_first [of "resp501 now1 s"] by (simp_all add: b2_def r1_def)
  define b4 where "b4 = r2 @ drop (length r2) b3"
  have d2: "decodeTemplateId b4 0 = Some EstablishmentAck504_TEMPLATE_ID" "EstablishmentAck504_decode b4 0 = Some (ack504 now2 30000 s)"
    using establishmentAck504.message_first [of "ack504 now2 30000 s"] by (simp_all add: b4_def r2_def)
  have a: "EstablishmentAck504.keepAliveInterval (ack504 now2 30000 s) = 30000" "EstablishmentAck504.nextSeqNo (ack504 now2 30000 s) = next_out_seq s"
    by (simp_all add: ack504_def EstablishmentAck504_default_def)
  let ?k1 = "\<lparr>incoming = tcp_frame r1 @ tcp_frame r2 @ rest, outgoing = tcp_frame neg, writable = True\<rparr>"
  let ?k2 = "\<lparr>incoming = tcp_frame r2 @ rest, outgoing = tcp_frame neg, writable = True\<rparr>"
  let ?k3 = "\<lparr>incoming = tcp_frame r2 @ rest, outgoing = tcp_frame neg @ tcp_frame est, writable = True\<rparr>"
  have rd1: "handshake_read b1 ?k1 = (?k2, Some b2)"
    using handshake_read_frame [of r1 b1 ?k1 "tcp_frame r2 @ rest"] lr(1) b1(3) by (simp add: b2_def)
  have rd2: "handshake_read b3 ?k3 = (?k3\<lparr>incoming := rest\<rparr>, Some b4)"
    using handshake_read_frame [of r2 b3 ?k3 rest] lr(2) b3(3) by (simp add: b4_def)
  have "establish_handshake now2 b2 ?c ?k2 = Some (True, ?c\<lparr>keepAliveIntervalMs := 30000, nextInSeqNo := next_out_seq s, c_state := ''Established''\<rparr>,
      ?k3\<lparr>incoming := rest\<rparr>)"
    using b3 rd2 d2 a by (simp add: establish_handshake_def sendFramed_frame ClientSession_new_def)
  then show ?thesis
    using b1 rd1 d1 by (simp add: performHandshake_def sendFramed_frame ClientSession_new_def)
qed

text \<open>
  C17.  The client logs on to the server: with authentication off, what the client writes is two frames, which
  the server's connection delivers as two messages; the server's session answers each with one message;
  and reading the frames of these answers (and whatever follows them), the client's handshake succeeds.
  Both sides are then established and agree on the keep-alive interval and on both sequence numbers.
\<close>

theorem client_logs_on:
  assumes "length buf = 4096" and "\<not> hmac_enabled s" and "sess_state s = Connected" and "send_cb s"
  shows "\<exists>neg est r1 r2 s1 s2 c sock.
    performHandshake u now1 now2 buf ClientSession_new
      \<lparr>incoming = tcp_frame r1 @ tcp_frame r2 @ rest, outgoing = [], writable = True\<rparr> = Some (True, c, sock) \<and>
    incoming sock = rest \<and> outgoing sock = tcp_frame neg @ tcp_frame est \<and>
    tcp_arrive (outgoing sock) TcpConnection_new = (TcpConnection_new, [OnMessage neg, OnMessage est]) \<and>
    onMessage hmac env1 neg s = Some (s1, [Send r1]) \<and> onMessage hmac env2 est s1 = Some (s2, [Send r2]) \<and>
    sess_state s2 = Established \<and> c_state c = ''Established'' \<and> next_in_seq s2 = nextOutSeqNo c \<and>
    nextInSeqNo c = next_out_seq s2 \<and> keep_alive_interval_ms s2 = ucast (keepAliveIntervalMs c)"
proof -
  let ?neg = "negotiate500.wire (client_negotiate u now1)" and ?est = "establish503.wire (client_establish u now2 1)"
  let ?s1 = "s\<lparr>last_received := steady_now env1, sess_state := Negotiated, last_sent := steady_now env1\<rparr>"
  let ?s2 = "?s1\<lparr>last_received := steady_now env2, keep_alive_interval_ms := 30000, next_in_seq := 1, sess_state := Established, last_sent := steady_now env2\<rparr>"
  have 1: "onMessage hmac env1 ?neg s = Some (?s1, [Send (negotiationResponse501.wire (resp501 now1 s))])"
    using server_negotiates assms(2-4) by blast
  have "ack504 now2 30000 ?s1 = ack504 now2 30000 s" by (simp add: ack504_def)
  then have 2: "onMessage hmac env2 ?est ?s1 = Some (?s2, [Send (establishmentAck504.wire (ack504 now2 30000 s))])"
    using server_establishes [of ?s1 hmac env2 u now2 1] assms(2-4) by simp
  have l: "\<forall>m\<in>set [?neg, ?est]. 1 \<le> length m \<and> length m \<le> 65536"
    by (simp add: wire_lengths)
  have "TcpConnection_new\<lparr>tc_inbox := []\<rparr> = TcpConnection_new" by (simp add: TcpConnection_new_def)
  moreover have "tcp_read TcpConnection_new = (TcpConnection_new, [])"
    by (subst tcp_read.simps) (simp add: TcpConnection_new_def kSofhSize_def)
  ultimately have t: "tcp_arrive (tcp_frame ?neg @ tcp_frame ?est) TcpConnection_new = (TcpConnection_new, [OnMessage ?neg, OnMessage ?est])"
    unfolding tcp_arrive_def
    by (subst tcp_read_frames [OF l, where rest = "[]"]) (simp_all add: TcpConnection_new_def)
  from client_handshake_ok [OF assms(1), of u now1 now2 s rest] 1 2 t show ?thesis
    by (intro exI conjI) (assumption | simp add: ClientSession_new_def)+
qed

definition ex_client_session :: Session where
  "ex_client_session = Session_new 7 \<lparr>steady_now = 0, system_now = 0\<rparr>"

theorem client_logs_on_witness:
  "\<exists>r1 r2 c sock. performHandshake 5 10 11 (replicate 4096 0) ClientSession_new
     \<lparr>incoming = tcp_frame r1 @ tcp_frame r2 @ [], outgoing = [], writable = True\<rparr> = Some (True, c, sock) \<and>
     c_state c = ''Established'' \<and> nextInSeqNo c = 1"
proof -
  have s: "\<not> hmac_enabled ex_client_session" "sess_state ex_client_session = Connected" "send_cb ex_client_session"
    by (simp_all add: ex_client_session_def Session_new_def)
  let ?env = "\<lparr>steady_now = 3, system_now = 4\<rparr>"
  obtain neg est r1 r2 s1 s2 c sock where h: "performHandshake 5 10 11 (replicate 4096 0) ClientSession_new
      \<lparr>incoming = tcp_frame r1 @ tcp_frame r2 @ [], outgoing = [], writable = True\<rparr> = Some (True, c, sock)"
    and o: "onMessage (\<lambda>k d. []) ?env neg ex_client_session = Some (s1, [Send r1])" "onMessage (\<lambda>k d. []) ?env est s1 = Some (s2, [Send r2])"
    and c: "c_state c = ''Established''" "nextInSeqNo c = next_out_seq s2"
    using client_logs_on [OF _ s, of "replicate 4096 0" 5 10 11 "[]" "\<lambda>k d. []" ?env ?env] by auto
  have "next_out_seq s2 = 1"
    using onMessage_same_log [OF o(1)] onMessage_same_log [OF o(2)] by (simp add: same_log_def ex_client_session_def Session_new_def)
  with h c show ?thesis by auto
qed

section \<open>Orders\<close>

datatype ClientOp =
    OpOrder Side int "32 word" double
  | OpCancel "64 word"
  | OpModify "64 word" "32 word" double
  | OpHeartbeat

fun client_op :: "64 word \<Rightarrow> ClientOp \<Rightarrow> ClientSession \<Rightarrow> ClientSock \<Rightarrow> (ClientSession \<times> ClientSock) option" where
  "client_op now (OpOrder sd sec qty px) s sock = sendOrder now (Side_code sd) sec qty px s sock"
| "client_op now (OpCancel oid) s sock = sendCancel now oid s sock"
| "client_op now (OpModify oid qty px) s sock = sendModify now oid qty px s sock"
| "client_op now OpHeartbeat s sock = map_option (Pair s) (client_sendSequenceHeartbeat s sock)"

fun client_ops :: "(64 word \<times> ClientOp) list \<Rightarrow> ClientSession \<Rightarrow> ClientSock \<Rightarrow> (ClientSession \<times> ClientSock) option" where
  "client_ops [] s sock = Some (s, sock)"
| "client_ops ((now, op) # ops) s sock = Option.bind (client_op now op s sock) (\<lambda>(s, sock). client_ops ops s sock)"

fun op_message :: "64 word \<Rightarrow> ClientOp \<Rightarrow> ClientSession \<Rightarrow> bytes" where
  "op_message now (OpOrder sd sec qty px) s = newOrderSingle514.wire (client_new_order now (Side_code sd) sec qty px s)"
| "op_message now (OpCancel oid) s = orderCancelRequest516.wire (client_cancel now oid s)"
| "op_message now (OpModify oid qty px) s = orderCancelReplaceRequest515.wire (client_modify now oid qty px s)"
| "op_message now OpHeartbeat s = sequence506.wire (Sequence506_default\<lparr>Sequence506.uuid := c_uuid s, Sequence506.nextSeqNo := nextOutSeqNo s\<rparr>)"

fun op_session :: "ClientOp \<Rightarrow> ClientSession \<Rightarrow> ClientSession" where
  "op_session (OpOrder sd sec qty px) s = (bump s)\<lparr>ordersSent := ordersSent s + 1\<rparr>"
| "op_session OpHeartbeat s = s"
| "op_session _ s = bump s"

lemma wf_client_messages:
  "NewOrderSingle514_wf (client_new_order now sd sec qty px s)" "OrderCancelRequest516_wf (client_cancel now oid s)"
  "OrderCancelReplaceRequest515_wf (client_modify now oid qty px s)"
  by (simp_all add: NewOrderSingle514_wf_def client_new_order_def NewOrderSingle514_default_def
      OrderCancelRequest516_wf_def client_cancel_def OrderCancelRequest516_default_def
      OrderCancelReplaceRequest515_wf_def client_modify_def OrderCancelReplaceRequest515_default_def)

lemma client_op_sends:
  "client_op now op s sock = Some (op_session op s,
     if writable sock then sock\<lparr>outgoing := outgoing sock @ tcp_frame (op_message now op s)\<rparr> else sock)"
proof (cases op)
  case (OpOrder sd sec qty px)
  then show ?thesis
    using newOrderSingle514.client_send_wire [OF wf_client_messages(1) [of now "Side_code sd" sec qty px s], of 4096 sock]
    by (simp add: sendOrder_def sendFramed_frame NewOrderSingle514_BLOCK_LENGTH_def)
next
  case (OpCancel oid)
  then show ?thesis
    using orderCancelRequest516.client_send_wire [OF wf_client_messages(2) [of now oid s], of 4096 sock]
    by (simp add: sendCancel_def sendFramed_frame OrderCancelRequest516_BLOCK_LENGTH_def)
next
  case (OpModify oid qty px)
  then show ?thesis
    using orderCancelReplaceRequest515.client_send_wire [OF wf_client_messages(3) [of now oid qty px s], of 4096 sock]
    by (simp add: sendModify_def sendFramed_frame OrderCancelReplaceRequest515_BLOCK_LENGTH_def)
next
  case OpHeartbeat
  let ?m = "Sequence506_default\<lparr>Sequence506.uuid := c_uuid s, Sequence506.nextSeqNo := nextOutSeqNo s\<rparr>"
  have "client_sendSequenceHeartbeat s sock = client_send (Sequence506_encode ?m) 256 sock"
    by (simp add: client_sendSequenceHeartbeat_def Sequence506_default_def)
  also have "\<dots> = sendFramed (sequence506.wire ?m) sock"
    by (rule sequence506.client_send_wire) (simp_all add: Sequence506_BLOCK_LENGTH_def)
  finally show ?thesis using OpHeartbeat by (simp add: sendFramed_frame)
qed

context sbe_message
begin

lemma wire_fields: "wf m \<Longrightarrow> reads_fields (wire m) 8 (fields m)"
  by (rule reads_fields_body [of _ _ "body_of (MessageHeader_fields block tid schema version)" "[]"])
    (use packed MessageHeader_packed(2) in \<open>auto simp: wire_def\<close>)

end

text \<open>The order messages carry the client's next number where the session looks for it.\<close>

lemma op_numbered:
  assumes "op \<noteq> OpHeartbeat"
  shows "numbered_message (op_message now op s) (unat (nextOutSeqNo s))"
proof (cases op)
  case (OpOrder sd sec qty px)
  let ?m = "client_new_order now (Side_code sd) sec qty px s"
  note wf = wf_client_messages(1) [of now "Side_code sd" sec qty px s]
  have "read_bytes (newOrderSingle514.wire ?m) 25 4 = Some (le 4 (nextOutSeqNo s))"
    using newOrderSingle514.wire_fields [OF wf] by (simp add: NewOrderSingle514_fields_def) (simp add: client_new_order_def NewOrderSingle514_default_def)
  then show ?thesis using newOrderSingle514.decode_wire(2) [OF wf] newOrderSingle514.length_wire [OF wf] OpOrder
    by (simp add: numbered_message_def NewOrderSingle514_TEMPLATE_ID_def client_seq_of_def read_le_def of_le_le MessageHeader_SIZE_def)
next
  case (OpCancel oid)
  let ?m = "client_cancel now oid s"
  note wf = wf_client_messages(2) [of now oid s]
  have "read_bytes (orderCancelRequest516.wire ?m) 25 4 = Some (le 4 (nextOutSeqNo s))"
    using orderCancelRequest516.wire_fields [OF wf]
    by (simp add: OrderCancelRequest516_fields_def) (simp add: client_cancel_def OrderCancelRequest516_default_def)
  then show ?thesis using orderCancelRequest516.decode_wire(2) [OF wf] orderCancelRequest516.length_wire [OF wf] OpCancel
    by (simp add: numbered_message_def OrderCancelRequest516_TEMPLATE_ID_def client_seq_of_def read_le_def of_le_le MessageHeader_SIZE_def)
next
  case (OpModify oid qty px)
  let ?m = "client_modify now oid qty px s"
  note wf = wf_client_messages(3) [of now oid qty px s]
  have "read_bytes (orderCancelReplaceRequest515.wire ?m) 25 4 = Some (le 4 (nextOutSeqNo s))"
    using orderCancelReplaceRequest515.wire_fields [OF wf]
    by (simp add: OrderCancelReplaceRequest515_fields_def) (simp add: client_modify_def OrderCancelReplaceRequest515_default_def)
  then show ?thesis using orderCancelReplaceRequest515.decode_wire(2) [OF wf] orderCancelReplaceRequest515.length_wire [OF wf] OpModify
    by (simp add: numbered_message_def OrderCancelReplaceRequest515_TEMPLATE_ID_def client_seq_of_def read_le_def of_le_le MessageHeader_SIZE_def)
qed (use assms in simp)

text \<open>What the gateway makes of a forwarded message, and what the client meant.\<close>

definition gateway_command :: "OrderPtr \<Rightarrow> uuid_t \<Rightarrow> bytes \<Rightarrow> OrderCommand option" where
  "gateway_command ptr u data =
     (case decodeTemplateId data 0 of
        None \<Rightarrow> None
      | Some t \<Rightarrow> if t = NewOrderSingle514_TEMPLATE_ID then decodeNewOrderSingle ptr u data
          else if t = OrderCancelRequest516_TEMPLATE_ID then decodeCancelRequest u data
          else if t = OrderCancelReplaceRequest515_TEMPLATE_ID then decodeModifyRequest u data else None)"

abbreviation client_label :: "string \<Rightarrow> ClientSession \<Rightarrow> string" where
  "client_label prefix c \<equiv> string_of_bytes (client_id prefix c)"

fun op_command :: "uuid_t \<Rightarrow> OrderPtr \<Rightarrow> ClientSession \<Rightarrow> ClientOp \<Rightarrow> OrderCommand list" where
  "op_command u ptr c (OpOrder sd sec qty px) =
     [OrderCommand_default\<lparr>cmd_type := NewOrder, cmd_session_uuid := u,
        cmd_order := Some (ptr, Order_default\<lparr>session_uuid := u, security_id := sec, Order.side := sd, order_type := Limit,
          time_in_force := Day, Order.price := Price_fromDouble px, quantity := sint qty, display_qty := sint qty,
          order_request_id := nextOrderRequestID c, cl_ord_id := client_label ''ORD-'' c\<rparr>),
        cmd_security_id := sec\<rparr>]"
| "op_command u ptr c (OpCancel oid) =
     [OrderCommand_default\<lparr>cmd_type := CancelOrder, cmd_session_uuid := u, cancel_order_id := oid,
        cmd_order_request_id := nextOrderRequestID c, cmd_cl_ord_id := client_label ''CXL-'' c\<rparr>]"
| "op_command u ptr c (OpModify oid qty px) =
     [OrderCommand_default\<lparr>cmd_type := ModifyOrder, cmd_session_uuid := u, cancel_order_id := oid,
        cmd_new_price := Price_fromDouble px, cmd_new_qty := sint qty, cmd_order_request_id := nextOrderRequestID c,
        cmd_cl_ord_id := client_label ''MOD-'' c, cmd_new_cl_ord_id := client_label ''MOD-'' c\<rparr>]"
| "op_command u ptr c OpHeartbeat = []"

fun op_in_range :: "ClientOp \<Rightarrow> bool" where
  "op_in_range (OpOrder sd sec qty px) \<longleftrightarrow> sd \<in> {Buy, Sell} \<and> int32 sec \<and> int64 (mantissa (Price_fromDouble px))"
| "op_in_range (OpModify oid qty px) \<longleftrightarrow> int64 (mantissa (Price_fromDouble px))"
| "op_in_range _ \<longleftrightarrow> True"

lemma client_label_read:
  assumes "length prefix \<le> 10" and "0 \<notin> set (bytes_of_string prefix)"
  shows "read_cl_ord_id (writeFixedString (Some (client_id prefix c)) 20) = Some (client_label prefix c)"
proof -
  let ?n = "unat (nextClOrdCounter c)"
  have "?n < 10 ^ 10" using unsigned_less [where ?'a = nat, of "nextClOrdCounter c"] by simp
  then have l: "length (client_id prefix c) \<le> 20"
    using length_to_string [of ?n 10] assms(1) by (simp add: client_id_def bytes_of_string_def)
  have "0 \<notin> set (client_id prefix c)" using assms(2) to_string_nonzero by (auto simp: client_id_def)
  then have "c_str (client_id prefix c) = client_id prefix c" unfolding c_str_def by (intro takeWhile_eq_all_conv [THEN iffD2]) metis
  then show ?thesis
    using l by (simp add: read_cl_ord_id_def readFixedString_def read_bytes_def c_str_terminated c_str_writeFixedString)
qed

lemma client_labels:
  "read_cl_ord_id (writeFixedString (Some (client_id ''ORD-'' c)) 20) = Some (client_label ''ORD-'' c)"
  "read_cl_ord_id (writeFixedString (Some (client_id ''CXL-'' c)) 20) = Some (client_label ''CXL-'' c)"
  "read_cl_ord_id (writeFixedString (Some (client_id ''MOD-'' c)) 20) = Some (client_label ''MOD-'' c)"
  by (rule client_label_read; simp add: bytes_of_string_def; code_simp)+

lemma op_decoded:
  assumes "op_in_range op"
  shows "op \<noteq> OpHeartbeat \<Longrightarrow> map Some (op_command u ptr c op) = [gateway_command ptr u (op_message now op c)]"
proof (cases op)
  case (OpOrder sd sec qty px)
  let ?m = "client_new_order now (Side_code sd) sec qty px c"
  note wf = wf_client_messages(1) [of now "Side_code sd" sec qty px c]
  have "gateway_command ptr u (newOrderSingle514.wire ?m) = decodeNewOrderSingle ptr u (newOrderSingle514.wire ?m)"
    using newOrderSingle514.decode_wire(2) [OF wf] by (simp add: gateway_command_def)
  moreover have "decodeNewOrderSingle ptr u (newOrderSingle514.wire ?m) = Some (hd (op_command u ptr c op))"
    using newOrderSingle514.decode_wire(1) [OF wf] assms client_labels(1) [of c]
    by (auto simp: OpOrder decodeNewOrderSingle_def client_new_order_def NewOrderSingle514_default_def sint_int32 sint_int64
        Side_of_def OrderType_of_def TimeInForce_of_def Order_default_def)
  ultimately show ?thesis by (simp add: OpOrder)
next
  case (OpCancel oid)
  let ?m = "client_cancel now oid c"
  note wf = wf_client_messages(2) [of now oid c]
  have "gateway_command ptr u (orderCancelRequest516.wire ?m) = decodeCancelRequest u (orderCancelRequest516.wire ?m)"
    using orderCancelRequest516.decode_wire(2) [OF wf]
    by (simp add: gateway_command_def NewOrderSingle514_TEMPLATE_ID_def OrderCancelRequest516_TEMPLATE_ID_def)
  moreover have "decodeCancelRequest u (orderCancelRequest516.wire ?m) = Some (hd (op_command u ptr c op))"
    using orderCancelRequest516.decode_wire(1) [OF wf] client_labels(2) [of c]
    by (simp add: OpCancel decodeCancelRequest_def client_cancel_def OrderCancelRequest516_default_def OrderCommand_default_def)
  ultimately show ?thesis by (simp add: OpCancel)
next
  case (OpModify oid qty px)
  let ?m = "client_modify now oid qty px c"
  note wf = wf_client_messages(3) [of now oid qty px c]
  have "gateway_command ptr u (orderCancelReplaceRequest515.wire ?m) = decodeModifyRequest u (orderCancelReplaceRequest515.wire ?m)"
    using orderCancelReplaceRequest515.decode_wire(2) [OF wf]
    by (simp add: gateway_command_def NewOrderSingle514_TEMPLATE_ID_def OrderCancelRequest516_TEMPLATE_ID_def
        OrderCancelReplaceRequest515_TEMPLATE_ID_def)
  moreover have "decodeModifyRequest u (orderCancelReplaceRequest515.wire ?m) = Some (hd (op_command u ptr c op))"
    using orderCancelReplaceRequest515.decode_wire(1) [OF wf] assms client_labels(3) [of c]
    by (simp add: OpModify decodeModifyRequest_def client_modify_def OrderCancelReplaceRequest515_default_def OrderCommand_default_def sint_int64)
  ultimately show ?thesis by (simp add: OpModify)
qed simp

fun op_commands :: "uuid_t \<Rightarrow> OrderPtr \<Rightarrow> (64 word \<times> ClientOp) list \<Rightarrow> ClientSession \<Rightarrow> OrderCommand list" where
  "op_commands u ptr [] c = []"
| "op_commands u ptr ((now, op) # ops) c = op_command u ptr c op @ op_commands u ptr ops (op_session op c)"

lemma heartbeat_received:
  assumes "sess_state s = Established"
  shows "onMessage hmac env (op_message now OpHeartbeat c) s = Some (s\<lparr>last_received := steady_now env\<rparr>, [])"
proof -
  let ?m = "Sequence506_default\<lparr>Sequence506.uuid := c_uuid c, Sequence506.nextSeqNo := nextOutSeqNo c\<rparr>"
  show ?thesis using assms sequence506.decode_wire [of ?m] sequence506.length_wire [of ?m]
    by (simp add: onMessage_def handleSequence_def template_ids MessageHeader_SIZE_def Let_def)
qed

lemma client_ops_ok:
  assumes "sess_state s = Established" and "send_cb s" and "app_cb s" and "next_in_seq s = nextOutSeqNo c"
    and "unat (nextOutSeqNo c) + length ops < 2 ^ 32" and "writable sock" and "\<forall>(now, op)\<in>set ops. op_in_range op"
    and "length envs = length ops"
  shows "\<exists>c' sock' msgs s' out. client_ops ops c sock = Some (c', sock') \<and> length msgs = length ops \<and>
    outgoing sock' = outgoing sock @ concat (map tcp_frame msgs) \<and>
    session_run hmac (map2 Receive envs msgs) s = Some (s', out) \<and> not_applied out = [] \<and>
    sess_state s' = Established \<and> next_in_seq s' = nextOutSeqNo c' \<and>
    map (gateway_command ptr (sess_uuid s)) (forwarded out) = map Some (op_commands (sess_uuid s) ptr ops c)"
  using assms
proof (induction ops arbitrary: c sock s envs)
  case Nil
  then show ?case by simp
next
  case (Cons x ops)
  obtain now op where x: "x = (now, op)" by (cases x)
  obtain env envs' where envs: "envs = env # envs'" using Cons.prems(8) by (cases envs) auto
  let ?m = "op_message now op c" and ?c = "op_session op c"
  let ?sock = "sock\<lparr>outgoing := outgoing sock @ tcp_frame ?m\<rparr>"
  have op: "client_op now op c sock = Some (?c, ?sock)" using client_op_sends Cons.prems(6) by simp
  have range: "op_in_range op" using Cons.prems(7) x by simp
  have "\<exists>s1 o1. onMessage hmac env ?m s = Some (s1, o1) \<and> sess_state s1 = Established \<and> send_cb s1 \<and> app_cb s1 \<and>
      next_in_seq s1 = nextOutSeqNo ?c \<and> sess_uuid s1 = sess_uuid s \<and> not_applied o1 = [] \<and>
      map (gateway_command ptr (sess_uuid s)) (forwarded o1) = map Some (op_command (sess_uuid s) ptr c op)"
  proof (cases "op = OpHeartbeat")
    case True
    then show ?thesis using heartbeat_received [OF Cons.prems(1), of hmac env now c] Cons.prems(1-4) by simp
  next
    case False
    have q: "Suc (unat (nextOutSeqNo c)) < 2 ^ 32" using Cons.prems(5) by simp
    obtain s1 o1 where 1: "onMessage hmac env ?m s = Some (s1, o1)" "sess_state s1 = Established" "send_cb s1" "app_cb s1"
      "unat (next_in_seq s1) = Suc (unat (nextOutSeqNo c))" "not_applied o1 = [unat (next_in_seq s)..<unat (nextOutSeqNo c)]" "forwarded o1 = [?m]"
      using one_numbered [OF Cons.prems(1-3) op_numbered [OF False, of now c] _ q, of hmac env] Cons.prems(4) by auto
    have "nextOutSeqNo ?c = nextOutSeqNo c + 1" using False by (cases op) (simp_all add: bump_def)
    moreover have "unat (nextOutSeqNo c + 1) = Suc (unat (nextOutSeqNo c))" using q unat_next [of "unat (nextOutSeqNo c)"] by simp
    ultimately have "next_in_seq s1 = nextOutSeqNo ?c" using 1(5) by (intro word_unat_eq_iff [THEN iffD2]) simp
    moreover have "sess_uuid s1 = sess_uuid s" using onMessage_step [OF 1(1)] by (simp add: keeps_def)
    ultimately show ?thesis using 1 op_decoded [OF range False] Cons.prems(4) by simp
  qed
  then obtain s1 o1 where 1: "onMessage hmac env ?m s = Some (s1, o1)" "sess_state s1 = Established" "send_cb s1" "app_cb s1"
      "next_in_seq s1 = nextOutSeqNo ?c" "sess_uuid s1 = sess_uuid s" "not_applied o1 = []"
      "map (gateway_command ptr (sess_uuid s)) (forwarded o1) = map Some (op_command (sess_uuid s) ptr c op)" by blast
  have "unat (nextOutSeqNo ?c) \<le> Suc (unat (nextOutSeqNo c))"
    by (cases op) (auto simp: bump_def unat_plus_if')
  then have "unat (nextOutSeqNo ?c) + length ops < 2 ^ 32" using Cons.prems(5) by simp
  from Cons.IH [OF 1(2-5) this, of ?sock envs'] Cons.prems(6-8) obtain c' sock' msgs s' out where
    2: "client_ops ops ?c ?sock = Some (c', sock')" "length msgs = length ops"
      "outgoing sock' = outgoing ?sock @ concat (map tcp_frame msgs)" "session_run hmac (map2 Receive envs' msgs) s1 = Some (s', out)"
      "not_applied out = []" "sess_state s' = Established" "next_in_seq s' = nextOutSeqNo c'"
      "map (gateway_command ptr (sess_uuid s1)) (forwarded out) = map Some (op_commands (sess_uuid s1) ptr ops ?c)"
    by (auto simp: x envs)
  show ?case
    by (intro exI [where x = c'] exI [where x = sock'] exI [where x = "?m # msgs"] exI [where x = s'] exI [where x = "o1 @ out"])
      (use op 1 2 in \<open>simp add: x envs session_input_def\<close>)
qed

text \<open>
  C18.  The client's orders reach the gateway: after the log-on, whatever orders, cancels, modifies and heartbeats
  the client sends, each is written as one frame; the server's session, fed these messages, never reports a
  gap, stays established and in step with the client's numbering, and forwards exactly the order messages, in
  order; and the gateway decodes each into the command the client meant, with its quantity, price, request
  number and client order id intact.
\<close>

theorem client_orders_reach_gateway:
  assumes "sess_state s = Established" and "send_cb s" and "app_cb s" and "next_in_seq s = nextOutSeqNo c"
    and "unat (nextOutSeqNo c) + length ops < 2 ^ 32" and "writable sock" and "\<forall>(now, op)\<in>set ops. op_in_range op"
    and "length envs = length ops"
  shows "\<exists>c' sock' msgs s' out. client_ops ops c sock = Some (c', sock') \<and> length msgs = length ops \<and>
    outgoing sock' = outgoing sock @ concat (map tcp_frame msgs) \<and>
    session_run hmac (map2 Receive envs msgs) s = Some (s', out) \<and> not_applied out = [] \<and>
    sess_state s' = Established \<and> next_in_seq s' = nextOutSeqNo c' \<and>
    map (gateway_command ptr (sess_uuid s)) (forwarded out) = map Some (op_commands (sess_uuid s) ptr ops c)"
  using assms by (rule client_ops_ok)

definition ex_ops :: "(64 word \<times> ClientOp) list" where
  "ex_ops = [(1, OpOrder Buy 42 3 (Double 5 0)), (2, OpHeartbeat), (3, OpCancel 9)]"

theorem client_orders_reach_gateway_witness:
  "\<exists>c sock msgs s' out. client_ops ex_ops (ClientSession_new\<lparr>c_state := ''Established''\<rparr>)
       \<lparr>incoming = [], outgoing = [], writable = True\<rparr> = Some (c, sock) \<and>
     session_run (\<lambda>k d. []) (map2 Receive (replicate 3 \<lparr>steady_now = 3, system_now = 4\<rparr>) msgs)
       (ex_client_session\<lparr>sess_state := Established\<rparr>) = Some (s', out) \<and>
     not_applied out = [] \<and> length (forwarded out) = 2"
proof -
  let ?s = "ex_client_session\<lparr>sess_state := Established\<rparr>" and ?c = "ClientSession_new\<lparr>c_state := ''Established''\<rparr>"
  let ?sock = "\<lparr>incoming = [], outgoing = [], writable = True\<rparr>" and ?envs = "replicate 3 \<lparr>steady_now = 3, system_now = 4\<rparr>"
  have "times_double (Double 5 0) (double_of_int (10 ^ 9)) = Double (5 * 10 ^ 9) 0"
    unfolding double_of_int_def by (subst times_double_exact) simp_all
  then have r: "op_in_range (OpOrder Buy 42 3 (Double 5 0))"
    by (simp add: Price_fromDouble_def int32_def int64_def)
  have "sess_state ?s = Established" "send_cb ?s" "app_cb ?s" "next_in_seq ?s = nextOutSeqNo ?c"
    "unat (nextOutSeqNo ?c) + length ex_ops < 2 ^ 32" "writable ?sock" "\<forall>(now, op)\<in>set ex_ops. op_in_range op"
    "length ?envs = length ex_ops"
    using r by (simp_all add: ex_client_session_def Session_new_def ClientSession_new_def ex_ops_def del: op_in_range.simps(1))
  from client_orders_reach_gateway [OF this, of "\<lambda>k d. []" 0] obtain c sock msgs s' out where
    "client_ops ex_ops ?c ?sock = Some (c, sock)" "session_run (\<lambda>k d. []) (map2 Receive ?envs msgs) ?s = Some (s', out)"
    "not_applied out = []" "map (gateway_command 0 (sess_uuid ?s)) (forwarded out) = map Some (op_commands (sess_uuid ?s) 0 ex_ops ?c)"
    by blast
  moreover from this(4) have "length (forwarded out) = length (op_commands (sess_uuid ?s) 0 ex_ops ?c)" by (metis length_map)
  then have "length (forwarded out) = 2" by (simp add: ex_ops_def)
  ultimately show ?thesis by blast
qed

end
