(* ===== verification/Client_Reader.thy ===== *)
theory Client_Reader
  imports Client_Properties
begin

text \<open>What the client's reader thread makes of the server's messages.\<close>

section \<open>One message\<close>

text \<open>The messages a server sends after the log-on, and their effect on the client.\<close>

fun report_wire :: "ILink3Message \<Rightarrow> bytes" where
  "report_wire (MsgExecutionReportNew m) = executionReportNew522.wire m"
| "report_wire (MsgExecutionReportReject m) = executionReportReject523.wire m"
| "report_wire (MsgExecutionReportElimination m) = executionReportElimination524.wire m"
| "report_wire (MsgExecutionReportTradeOutright m) = executionReportTradeOutright525.wire m"
| "report_wire (MsgExecutionReportModify m) = executionReportModify531.wire m"
| "report_wire (MsgExecutionReportCancel m) = executionReportCancel534.wire m"
| "report_wire (MsgOrderCancelReject m) = orderCancelReject535.wire m"
| "report_wire (MsgSequence m) = sequence506.wire m"
| "report_wire (MsgNotApplied m) = notApplied513.wire m"
| "report_wire (MsgTerminate m) = terminate507.wire m"
| "report_wire _ = []"

fun is_report :: "ILink3Message \<Rightarrow> bool" where
  "is_report (MsgExecutionReportNew m) = True"
| "is_report (MsgExecutionReportReject m) = True"
| "is_report (MsgExecutionReportElimination m) = True"
| "is_report (MsgExecutionReportTradeOutright m) = True"
| "is_report (MsgExecutionReportModify m) = True"
| "is_report (MsgExecutionReportCancel m) = True"
| "is_report (MsgOrderCancelReject m) = True"
| "is_report (MsgSequence m) = True"
| "is_report (MsgNotApplied m) = True"
| "is_report (MsgTerminate m) = True"
| "is_report _ = False"

fun is_terminate :: "ILink3Message \<Rightarrow> bool" where
  "is_terminate (MsgTerminate m) = True"
| "is_terminate _ = False"

fun note_report :: "ILink3Message \<Rightarrow> ClientSession \<Rightarrow> ClientSession" where
  "note_report (MsgExecutionReportNew m) c = c\<lparr>orderMap := (orderMap c)(ExecutionReportNew522.orderID m \<mapsto> c_str (ExecutionReportNew522.clOrdID m)),
     ordersAccepted := ordersAccepted c + 1\<rparr>"
| "note_report (MsgExecutionReportReject m) c = c\<lparr>ordersRejected := ordersRejected c + 1\<rparr>"
| "note_report (MsgExecutionReportTradeOutright m) c = c\<lparr>c_fills := c_fills c + 1\<rparr>"
| "note_report (MsgExecutionReportModify m) c = c\<lparr>ordersModified := ordersModified c + 1\<rparr>"
| "note_report (MsgExecutionReportCancel m) c = c\<lparr>ordersCancelled := ordersCancelled c + 1,
     orderMap := (orderMap c)(ExecutionReportCancel534.orderID m := None)\<rparr>"
| "note_report (MsgTerminate m) c = c\<lparr>c_state := ''Terminated''\<rparr>"
| "note_report _ c = c"

lemmas report_ids = ILink3Message_ids MessageHeader_SIZE_def

lemma report_processed:
  assumes "ILink3Message_wf m" and "is_report m"
  shows "8 \<le> length (report_wire m) \<and> length (report_wire m) < 2 ^ 16 \<and>
    (\<exists>ls. processMessage (report_wire m @ stale) (length (report_wire m)) c g = Some (note_report m c, g \<and> \<not> is_terminate m, ls))"
proof (cases m)
  case (MsgExecutionReportNew x)
  with assms(1) have wf: "ExecutionReportNew522_wf x" by simp
  have "length (ExecutionReportNew522.clOrdID x) = 20" using wf by (simp add: ExecutionReportNew522_wf_def)
  then have "readFixedString (ExecutionReportNew522.clOrdID x) 0 20 = Some (ExecutionReportNew522.clOrdID x @ [0])"
    by (simp add: readFixedString_def read_bytes_def)
  then show ?thesis using MsgExecutionReportNew executionReportNew522.message_first [OF wf, of stale] executionReportNew522.length_wire [OF wf]
    by (simp add: processMessage_def report_ids ExecutionReportNew522_BLOCK_LENGTH_def c_str_terminated)
next
  case (MsgExecutionReportReject x)
  with assms(1) have wf: "ExecutionReportReject523_wf x" by simp
  have "length (ExecutionReportReject523.clOrdID x) = 20" using wf by (simp add: ExecutionReportReject523_wf_def)
  then have "readFixedString (ExecutionReportReject523.clOrdID x) 0 20 = Some (ExecutionReportReject523.clOrdID x @ [0])"
    by (simp add: readFixedString_def read_bytes_def)
  then show ?thesis using MsgExecutionReportReject executionReportReject523.message_first [OF wf, of stale] executionReportReject523.length_wire [OF wf]
    by (simp add: processMessage_def report_ids ExecutionReportReject523_BLOCK_LENGTH_def)
next
  case (MsgExecutionReportElimination x)
  with assms(1) have wf: "ExecutionReportElimination524_wf x" by simp
  then show ?thesis using MsgExecutionReportElimination executionReportElimination524.message_first [OF wf, of stale]
      executionReportElimination524.length_wire [OF wf]
    by (simp add: processMessage_def report_ids ExecutionReportElimination524_BLOCK_LENGTH_def)
next
  case (MsgExecutionReportTradeOutright x)
  with assms(1) have wf: "ExecutionReportTradeOutright525_wf x" by simp
  then show ?thesis using MsgExecutionReportTradeOutright executionReportTradeOutright525.message_first [OF wf, of stale]
      executionReportTradeOutright525.length_wire [OF wf]
    by (simp add: processMessage_def report_ids ExecutionReportTradeOutright525_BLOCK_LENGTH_def)
next
  case (MsgExecutionReportModify x)
  with assms(1) have wf: "ExecutionReportModify531_wf x" by simp
  then show ?thesis using MsgExecutionReportModify executionReportModify531.message_first [OF wf, of stale]
      executionReportModify531.length_wire [OF wf]
    by (simp add: processMessage_def report_ids ExecutionReportModify531_BLOCK_LENGTH_def)
next
  case (MsgExecutionReportCancel x)
  with assms(1) have wf: "ExecutionReportCancel534_wf x" by simp
  then show ?thesis using MsgExecutionReportCancel executionReportCancel534.message_first [OF wf, of stale]
      executionReportCancel534.length_wire [OF wf]
    by (simp add: processMessage_def report_ids ExecutionReportCancel534_BLOCK_LENGTH_def)
next
  case (MsgOrderCancelReject x)
  with assms(1) have wf: "OrderCancelReject535_wf x" by simp
  then show ?thesis using MsgOrderCancelReject orderCancelReject535.message_first [OF wf, of stale] orderCancelReject535.length_wire [OF wf]
    by (simp add: processMessage_def report_ids OrderCancelReject535_BLOCK_LENGTH_def)
next
  case (MsgSequence x)
  then show ?thesis using sequence506.message_first [of x stale] sequence506.length_wire [of x]
    by (simp add: processMessage_def report_ids Sequence506_BLOCK_LENGTH_def)
next
  case (MsgNotApplied x)
  then show ?thesis using notApplied513.message_first [of x stale] notApplied513.length_wire [of x]
    by (simp add: processMessage_def report_ids NotApplied513_BLOCK_LENGTH_def)
next
  case (MsgTerminate x)
  with assms(1) have wf: "Terminate507_wf x" by simp
  then show ?thesis using MsgTerminate terminate507.message_first [OF wf, of stale] terminate507.length_wire [OF wf]
    by (simp add: processMessage_def report_ids Terminate507_BLOCK_LENGTH_def)
qed (use assms(2) in simp_all)

section \<open>A stream of messages\<close>

lemma read_into_grown:
  "read_into msg (payload @ replicate (length msg - length payload) 0) = msg @ drop (length msg) payload"
  by (cases "length msg \<le> length payload") (simp_all add: read_into_def)

lemma reader_frame:
  assumes "ILink3Message_wf m" and "is_report m" and "incoming sock = tcp_frame (report_wire m) @ rest" and "c_state c \<noteq> ''Terminated''"
  shows "\<exists>payload' ls. readerThread payload c True sock =
    map_option (\<lambda>(s, g, ls'). (s, g, ls @ ls')) (readerThread payload' (note_report m c) (\<not> is_terminate m) (sock\<lparr>incoming := rest\<rparr>))"
proof -
  let ?w = "report_wire m"
  let ?p = "?w @ drop (length ?w) payload"
  obtain ls where pm: "processMessage ?p (length ?w) c True = Some (note_report m c, \<not> is_terminate m, ls)"
    and l: "length ?w < 2 ^ 16" using report_processed [OF assms(1,2), of "drop (length ?w) payload" c True] by auto
  have l32: "length ?w < 2 ^ 32 - 6" using l by simp
  note h = frame_header [OF l32]
  have r: "sock_read SOFH_SIZE sock = (sock\<lparr>incoming := ?w @ rest\<rparr>, Some (take 6 (tcp_frame ?w)))"
    using h(1,2) by (simp add: sock_read_def SOFH_SIZE_def assms(3)) (simp add: tcp_frame_def)
  have r2: "sock_read (length ?w) (sock\<lparr>incoming := ?w @ rest\<rparr>) = (sock\<lparr>incoming := rest\<rparr>, Some ?w)" by (simp add: sock_read_def)
  have "readerThread payload c True sock =
      map_option (\<lambda>(s, g, ls'). (s, g, ls @ ls')) (readerThread ?p (note_report m c) (\<not> is_terminate m) (sock\<lparr>incoming := rest\<rparr>))"
    using r r2 h(3,4) pm assms(4) by (subst readerThread.simps) (simp add: Let_def read_into_grown)
  then show ?thesis by blast
qed

lemma note_report_state: "\<not> is_terminate m \<Longrightarrow> c_state (note_report m c) = c_state c"
  by (cases m) simp_all

lemma reader_stream:
  assumes "\<forall>m\<in>set ms. ILink3Message_wf m \<and> is_report m \<and> \<not> is_terminate m" and "c_state c \<noteq> ''Terminated''"
    and "incoming sock = concat (map (\<lambda>m. tcp_frame (report_wire m)) ms) @ rest"
  shows "\<exists>payload' ls. readerThread payload c True sock =
    map_option (\<lambda>(s, g, ls'). (s, g, ls @ ls')) (readerThread payload' (fold note_report ms c) True (sock\<lparr>incoming := rest\<rparr>))"
  using assms
proof (induction ms arbitrary: c sock payload)
  case Nil
  then have "sock\<lparr>incoming := rest\<rparr> = sock" by (cases sock) simp
  then show ?case by (intro exI [where x = payload] exI [where x = "[]"]) (simp add: option.map_ident)
next
  case (Cons m ms)
  let ?rest = "concat (map (\<lambda>m. tcp_frame (report_wire m)) ms) @ rest"
  have m: "ILink3Message_wf m" "is_report m" "\<not> is_terminate m" using Cons.prems(1) by simp_all
  obtain p1 l1 where 1: "readerThread payload c True sock =
      map_option (\<lambda>(s, g, ls'). (s, g, l1 @ ls')) (readerThread p1 (note_report m c) True (sock\<lparr>incoming := ?rest\<rparr>))"
    using reader_frame [OF m(1,2) _ Cons.prems(2), of sock ?rest payload] Cons.prems(3) m(3) by auto
  have "c_state (note_report m c) \<noteq> ''Terminated''" using note_report_state [OF m(3), of c] Cons.prems(2) by (simp only:) simp
  then obtain p2 l2 where 2: "readerThread p1 (note_report m c) True (sock\<lparr>incoming := ?rest\<rparr>) =
      map_option (\<lambda>(s, g, ls'). (s, g, l2 @ ls')) (readerThread p2 (fold note_report ms (note_report m c)) True (sock\<lparr>incoming := rest\<rparr>))"
    using Cons.IH [of "note_report m c" "sock\<lparr>incoming := ?rest\<rparr>" p1] Cons.prems(1) by auto
  show ?case using 1 2
    by (intro exI [where x = p2] exI [where x = "l1 @ l2"]) (simp add: option.map_comp comp_def case_prod_beta)
qed

lemma reader_end: "incoming sock = [] \<Longrightarrow> c_state c \<noteq> ''Terminated'' \<Longrightarrow> readerThread payload c True sock = Some (c, False, [])"
  by (subst readerThread.simps) (simp add: sock_read_def SOFH_SIZE_def)

text \<open>The orders a client should think are open: accepted, and not reported cancelled since.\<close>

definition accepted_open :: "ILink3Message list \<Rightarrow> 64 word set" where
  "accepted_open ms = {oid. \<exists>pre m post. ms = pre @ MsgExecutionReportNew m # post \<and> ExecutionReportNew522.orderID m = oid \<and>
     (\<forall>x. MsgExecutionReportCancel x \<in> set post \<longrightarrow> ExecutionReportCancel534.orderID x \<noteq> oid)}"

lemma snoc_split:
  "ms @ [m] = pre @ y # post \<longleftrightarrow> post = [] \<and> pre = ms \<and> y = m \<or> (\<exists>post'. post = post' @ [m] \<and> ms = pre @ y # post')"
  by (cases post rule: rev_cases) auto

lemma accepted_open_snoc_iff:
  "oid \<in> accepted_open (ms @ [m]) \<longleftrightarrow> (\<exists>x. m = MsgExecutionReportNew x \<and> ExecutionReportNew522.orderID x = oid) \<or>
     oid \<in> accepted_open ms \<and> (\<forall>x. m = MsgExecutionReportCancel x \<longrightarrow> ExecutionReportCancel534.orderID x \<noteq> oid)"
  (is "?l \<longleftrightarrow> ?new \<or> ?old")
proof
  assume ?l
  then obtain pre x post where p: "ms @ [m] = pre @ MsgExecutionReportNew x # post" "ExecutionReportNew522.orderID x = oid"
    "\<forall>x. MsgExecutionReportCancel x \<in> set post \<longrightarrow> ExecutionReportCancel534.orderID x \<noteq> oid" unfolding accepted_open_def by blast
  from p(1) consider "m = MsgExecutionReportNew x" | post' where "post = post' @ [m]" "ms = pre @ MsgExecutionReportNew x # post'"
    unfolding snoc_split by blast
  then show "?new \<or> ?old"
  proof cases
    case 2
    then have "oid \<in> accepted_open ms" using p(2,3) unfolding accepted_open_def by auto
    with 2 p(3) show ?thesis by auto
  qed (use p(2) in blast)
next
  assume "?new \<or> ?old"
  then show ?l
  proof
    assume ?new
    then show ?l unfolding accepted_open_def by fastforce
  next
    assume ?old
    then obtain pre x post where "ms = pre @ MsgExecutionReportNew x # post" "ExecutionReportNew522.orderID x = oid"
      "\<forall>x. MsgExecutionReportCancel x \<in> set (post @ [m]) \<longrightarrow> ExecutionReportCancel534.orderID x \<noteq> oid" unfolding accepted_open_def by auto
    then show ?l unfolding accepted_open_def by (intro CollectI exI [where x = pre] exI [where x = x] exI [where x = "post @ [m]"]) simp
  qed
qed

lemma noted_orders: "dom (orderMap (fold note_report ms ClientSession_new)) = accepted_open ms"
proof (induction ms rule: rev_induct)
  case Nil
  then show ?case by (simp add: accepted_open_def ClientSession_new_def)
next
  case (snoc m ms)
  show ?case
  proof (rule set_eqI)
    fix oid
    show "oid \<in> dom (orderMap (fold note_report (ms @ [m]) ClientSession_new)) \<longleftrightarrow> oid \<in> accepted_open (ms @ [m])"
      unfolding accepted_open_snoc_iff snoc.IH [symmetric] by (cases m) auto
  qed
qed

fun report_kind :: "ILink3Message \<Rightarrow> nat" where
  "report_kind (MsgExecutionReportNew m) = 522"
| "report_kind (MsgExecutionReportReject m) = 523"
| "report_kind (MsgExecutionReportTradeOutright m) = 525"
| "report_kind (MsgExecutionReportModify m) = 531"
| "report_kind (MsgExecutionReportCancel m) = 534"
| "report_kind _ = 0"

definition counted :: "nat \<Rightarrow> ILink3Message list \<Rightarrow> 32 word" where
  "counted k ms = of_nat (length (filter (\<lambda>m. report_kind m = k) ms))"

lemma noted_counts:
  defines "c \<equiv> \<lambda>ms. fold note_report ms ClientSession_new"
  shows "ordersAccepted (c ms) = counted 522 ms \<and> ordersRejected (c ms) = counted 523 ms \<and> c_fills (c ms) = counted 525 ms \<and>
    ordersModified (c ms) = counted 531 ms \<and> ordersCancelled (c ms) = counted 534 ms"
proof (induction ms rule: rev_induct)
  case Nil
  then show ?case by (simp add: c_def counted_def ClientSession_new_def)
next
  case (snoc m ms)
  then show ?case by (cases m) (simp_all add: c_def counted_def)
qed

lemma note_report_keeps: "note_report m (c\<lparr>c_state := x\<rparr>) = (if is_terminate m then note_report m c else (note_report m c)\<lparr>c_state := x\<rparr>)"
  by (cases m) simp_all

lemma fold_note_keeps:
  "\<forall>m\<in>set ms. \<not> is_terminate m \<Longrightarrow> fold note_report ms (c\<lparr>c_state := x\<rparr>) = (fold note_report ms c)\<lparr>c_state := x\<rparr>"
  by (induction ms arbitrary: c) (simp_all add: note_report_keeps)

text \<open>
  C19.  The client accounts for every report: when the server sends any reports, heartbeats and gap notices, in any
  order, and then terminates the session or closes the connection, the reader thread reads them all, whatever
  its buffer held, and stops; its counters are the numbers of reports of each kind, and the orders it
  tracks are those accepted and not reported cancelled since (a filled order stays tracked).
\<close>

theorem client_counts_reports:
  assumes "\<forall>m\<in>set ms. ILink3Message_wf m \<and> is_report m \<and> \<not> is_terminate m" and "Terminate507_wf trm"
    and "rest \<in> {[], tcp_frame (report_wire (MsgTerminate trm))}"
    and "incoming sock = concat (map (\<lambda>m. tcp_frame (report_wire m)) ms) @ rest"
  shows "\<exists>c ls. readerThread payload (ClientSession_new\<lparr>c_state := ''Established''\<rparr>) True sock = Some (c, False, ls) \<and>
    c_state c = (if rest = [] then ''Established'' else ''Terminated'') \<and>
    dom (orderMap c) = accepted_open ms \<and> ordersAccepted c = counted 522 ms \<and> ordersRejected c = counted 523 ms \<and>
    c_fills c = counted 525 ms \<and> ordersModified c = counted 531 ms \<and> ordersCancelled c = counted 534 ms"
proof -
  let ?ini = "ClientSession_new\<lparr>c_state := ''Established''\<rparr>" and ?c = "fold note_report ms ClientSession_new"
  have f: "fold note_report ms ?ini = ?c\<lparr>c_state := ''Established''\<rparr>" using assms(1) by (intro fold_note_keeps) blast
  obtain p ls where r: "readerThread payload ?ini True sock =
      map_option (\<lambda>(s, g, ls'). (s, g, ls @ ls')) (readerThread p (?c\<lparr>c_state := ''Established''\<rparr>) True (sock\<lparr>incoming := rest\<rparr>))"
    using reader_stream [OF assms(1) _ assms(4), of ?ini payload] by (auto simp: f)
  have "\<exists>c ls. readerThread p (?c\<lparr>c_state := ''Established''\<rparr>) True (sock\<lparr>incoming := rest\<rparr>) = Some (c, False, ls) \<and>
      c = ?c\<lparr>c_state := if rest = [] then ''Established'' else ''Terminated''\<rparr>"
  proof (cases "rest = []")
    case True
    then show ?thesis using reader_end [of "sock\<lparr>incoming := rest\<rparr>" "?c\<lparr>c_state := ''Established''\<rparr>" p] by simp
  next
    case False
    then have rest: "incoming (sock\<lparr>incoming := rest\<rparr>) = tcp_frame (report_wire (MsgTerminate trm)) @ []" using assms(3) by simp
    obtain p' ls' where "readerThread p (?c\<lparr>c_state := ''Established''\<rparr>) True (sock\<lparr>incoming := rest\<rparr>) =
        map_option (\<lambda>(s, g, l). (s, g, ls' @ l)) (readerThread p' (?c\<lparr>c_state := ''Terminated''\<rparr>) False (sock\<lparr>incoming := []\<rparr>))"
      using reader_frame [OF _ _ rest, of "?c\<lparr>c_state := ''Established''\<rparr>" p] assms(2) by auto
    then show ?thesis using False by (simp add: readerThread.simps)
  qed
  with r noted_orders [of ms] noted_counts [of ms] show ?thesis by auto
qed

definition ex_reports :: "ILink3Message list" where
  "ex_reports = [MsgExecutionReportNew (ExecutionReportNew522_default\<lparr>ExecutionReportNew522.orderID := 5\<rparr>),
     MsgExecutionReportNew (ExecutionReportNew522_default\<lparr>ExecutionReportNew522.orderID := 6\<rparr>),
     MsgExecutionReportCancel (ExecutionReportCancel534_default\<lparr>ExecutionReportCancel534.orderID := 5\<rparr>)]"

theorem client_counts_reports_witness:
  "\<exists>c ls. readerThread (replicate 65536 0) (ClientSession_new\<lparr>c_state := ''Established''\<rparr>) True
     \<lparr>incoming = concat (map (\<lambda>m. tcp_frame (report_wire m)) ex_reports) @ [], outgoing = [], writable = True\<rparr> = Some (c, False, ls) \<and>
     ordersAccepted c = 2 \<and> ordersCancelled c = 1 \<and> 5 \<notin> dom (orderMap c)"
proof -
  have wf: "\<forall>m\<in>set ex_reports. ILink3Message_wf m \<and> is_report m \<and> \<not> is_terminate m"
    by (simp add: ex_reports_def ExecutionReportNew522_wf_def ExecutionReportCancel534_wf_def
        ExecutionReportNew522_default_def ExecutionReportCancel534_default_def)
  have t: "Terminate507_wf Terminate507_default" by (simp add: Terminate507_wf_def Terminate507_default_def)
  have n: "counted 522 ex_reports = 2" "counted 534 ex_reports = 1" by (simp_all add: counted_def ex_reports_def)
  have "5 \<notin> accepted_open ex_reports"
    unfolding ex_reports_def accepted_open_def
    by (auto simp: Cons_eq_append_conv ExecutionReportNew522_default_def ExecutionReportCancel534_default_def)
  with client_counts_reports [OF wf t, of "[]" "\<lparr>incoming = concat (map (\<lambda>m. tcp_frame (report_wire m)) ex_reports) @ [], outgoing = [], writable = True\<rparr>"
      "replicate 65536 0"] n show ?thesis by auto
qed

end
