(* ===== verification/Security_Status.thy ===== *)
theory Security_Status
  imports Market_Types "HOL-Library.AList"
begin

text \<open>
  \<^verbatim>\<open>src/instruments/security_status_machine.cpp\<close>: the trading-status machine of the instruments.
  \<^verbatim>\<open>states_\<close> is an association list whose order stands for the hash map's iteration order; a registered
  callback is modelled by the list of events it receives.  A run of any operations of the class, seen by one
  instrument, is the life of a four-state automaton given by its table of moves.
\<close>

record SecurityStatusEvent =
  sse_security_id :: SecurityId
  sse_old_status :: SecurityTradingStatus
  sse_new_status :: SecurityTradingStatus
  sse_timestamp :: Timestamp

record SecurityStatusMachine =
  ssm_states :: "(SecurityId \<times> SecurityTradingStatus) list"
  ssm_callback :: bool

definition ssm_addInstrument :: "SecurityId \<Rightarrow> SecurityTradingStatus \<Rightarrow> SecurityStatusMachine \<Rightarrow> SecurityStatusMachine" where
  "ssm_addInstrument i initial m = m\<lparr>ssm_states := AList.update i initial (ssm_states m)\<rparr>"

definition getStatus :: "SecurityId \<Rightarrow> SecurityStatusMachine \<Rightarrow> SecurityTradingStatus" where
  "getStatus i m = (case map_of (ssm_states m) i of None \<Rightarrow> PreOpen | Some st \<Rightarrow> st)"

fun isValidTransition :: "SecurityTradingStatus \<Rightarrow> SecurityTradingStatus \<Rightarrow> bool" where
  "isValidTransition PreOpen to = (to = Open)"
| "isValidTransition Open to = (to = Halt \<or> to = Close)"
| "isValidTransition Halt to = (to = Open \<or> to = Close)"
| "isValidTransition Close to = False"

definition status_transition ::
  "Timestamp \<Rightarrow> SecurityId \<Rightarrow> SecurityTradingStatus \<Rightarrow> SecurityStatusMachine \<Rightarrow>
   SecurityStatusMachine \<times> SecurityStatusEvent list \<times> bool" where
  "status_transition now i new_status m =
     (case map_of (ssm_states m) i of
        None \<Rightarrow> (m, [], False)
      | Some old_status \<Rightarrow>
          if old_status = new_status then (m, [], True)
          else if \<not> isValidTransition old_status new_status then (m, [], False)
          else (m\<lparr>ssm_states := AList.update i new_status (ssm_states m)\<rparr>,
                if ssm_callback m
                then [\<lparr>sse_security_id = i, sse_old_status = old_status, sse_new_status = new_status, sse_timestamp = now\<rparr>]
                else [],
                True))"

definition openMarket :: "Timestamp \<Rightarrow> SecurityId \<Rightarrow> SecurityStatusMachine \<Rightarrow>
    SecurityStatusMachine \<times> SecurityStatusEvent list \<times> bool" where
  "openMarket now i m = status_transition now i Open m"

definition haltTrading :: "Timestamp \<Rightarrow> SecurityId \<Rightarrow> SecurityStatusMachine \<Rightarrow>
    SecurityStatusMachine \<times> SecurityStatusEvent list \<times> bool" where
  "haltTrading now i m = status_transition now i Halt m"

definition resumeTrading :: "Timestamp \<Rightarrow> SecurityId \<Rightarrow> SecurityStatusMachine \<Rightarrow>
    SecurityStatusMachine \<times> SecurityStatusEvent list \<times> bool" where
  "resumeTrading now i m = status_transition now i Open m"

definition closeMarket :: "Timestamp \<Rightarrow> SecurityId \<Rightarrow> SecurityStatusMachine \<Rightarrow>
    SecurityStatusMachine \<times> SecurityStatusEvent list \<times> bool" where
  "closeMarket now i m = status_transition now i Close m"


text \<open>A bulk operation visits the registered instruments in turn; \<open>clk i\<close> is the clock's reading at instrument \<open>i\<close>.\<close>

fun transition_all ::
  "(SecurityId \<Rightarrow> Timestamp) \<Rightarrow> SecurityTradingStatus \<Rightarrow> SecurityId list \<Rightarrow> SecurityStatusMachine \<Rightarrow>
   SecurityStatusMachine \<times> SecurityStatusEvent list" where
  "transition_all clk st [] m = (m, [])"
| "transition_all clk st (i # is) m =
     (let (m, evs, ok) = status_transition (clk i) i st m; (m, evs') = transition_all clk st is m in (m, evs @ evs'))"

definition openAll :: "(SecurityId \<Rightarrow> Timestamp) \<Rightarrow> SecurityStatusMachine \<Rightarrow> SecurityStatusMachine \<times> SecurityStatusEvent list" where
  "openAll clk m = transition_all clk Open (map fst (ssm_states m)) m"

definition closeAll :: "(SecurityId \<Rightarrow> Timestamp) \<Rightarrow> SecurityStatusMachine \<Rightarrow> SecurityStatusMachine \<times> SecurityStatusEvent list" where
  "closeAll clk m = transition_all clk Close (map fst (ssm_states m)) m"

definition setCallback :: "bool \<Rightarrow> SecurityStatusMachine \<Rightarrow> SecurityStatusMachine" where
  "setCallback cb m = m\<lparr>ssm_callback := cb\<rparr>"

section \<open>Runs\<close>

text \<open>What can be seen of the machine: the callback's events and the results of the calls.\<close>

datatype StatusOp =
    AddInstrument SecurityId SecurityTradingStatus | SetCallback bool
  | Transition Timestamp SecurityId SecurityTradingStatus
  | OpenMarket Timestamp SecurityId | HaltTrading Timestamp SecurityId
  | ResumeTrading Timestamp SecurityId | CloseMarket Timestamp SecurityId
  | OpenAll "SecurityId \<Rightarrow> Timestamp" | CloseAll "SecurityId \<Rightarrow> Timestamp"

datatype StatusTrace = Notified SecurityStatusEvent | Returned SecurityId bool

definition single_op :: "SecurityId \<Rightarrow> SecurityStatusMachine \<times> SecurityStatusEvent list \<times> bool \<Rightarrow>
    SecurityStatusMachine \<times> StatusTrace list" where
  "single_op i r = (let (m, evs, ok) = r in (m, map Notified evs @ [Returned i ok]))"

fun status_op :: "StatusOp \<Rightarrow> SecurityStatusMachine \<Rightarrow> SecurityStatusMachine \<times> StatusTrace list" where
  "status_op (AddInstrument i st) m = (ssm_addInstrument i st m, [])"
| "status_op (SetCallback cb) m = (setCallback cb m, [])"
| "status_op (Transition now i st) m = single_op i (status_transition now i st m)"
| "status_op (OpenMarket now i) m = single_op i (openMarket now i m)"
| "status_op (HaltTrading now i) m = single_op i (haltTrading now i m)"
| "status_op (ResumeTrading now i) m = single_op i (resumeTrading now i m)"
| "status_op (CloseMarket now i) m = single_op i (closeMarket now i m)"
| "status_op (OpenAll clk) m = (let (m, evs) = openAll clk m in (m, map Notified evs))"
| "status_op (CloseAll clk) m = (let (m, evs) = closeAll clk m in (m, map Notified evs))"

fun status_run :: "StatusOp list \<Rightarrow> SecurityStatusMachine \<Rightarrow> SecurityStatusMachine \<times> StatusTrace list" where
  "status_run [] m = (m, [])"
| "status_run (op # ops) m = (let (m, tr) = status_op op m; (m, tr') = status_run ops m in (m, tr @ tr'))"

section \<open>The life of one instrument\<close>

text \<open>The table of moves, as the trading day has them.\<close>

definition status_moves :: "(SecurityTradingStatus \<times> SecurityTradingStatus) set" where
  "status_moves = {(PreOpen, Open), (Open, Halt), (Halt, Open), (Open, Close), (Halt, Close)}"

text \<open>
  One instrument (\<open>None\<close>: not registered) is asked to move; it does so if the table has the move, and then
  the callback, if there is one, is notified.
\<close>

definition asked :: "bool \<Rightarrow> SecurityId \<Rightarrow> Timestamp \<Rightarrow> SecurityTradingStatus \<Rightarrow> SecurityTradingStatus option \<Rightarrow>
    SecurityTradingStatus option \<times> StatusTrace list" where
  "asked cb i now to st =
     (case st of
        Some a \<Rightarrow>
          if (a, to) \<in> status_moves
          then (Some to, if cb then [Notified \<lparr>sse_security_id = i, sse_old_status = a, sse_new_status = to, sse_timestamp = now\<rparr>] else [])
          else (Some a, [])
      | None \<Rightarrow> (None, []))"

definition answer :: "SecurityId \<Rightarrow> SecurityTradingStatus \<Rightarrow> SecurityTradingStatus option \<Rightarrow> StatusTrace" where
  "answer i to st = Returned i (st = Some to \<or> (\<exists>a. st = Some a \<and> (a, to) \<in> status_moves))"

fun asks :: "StatusOp \<Rightarrow> (Timestamp \<times> SecurityId \<times> SecurityTradingStatus) option" where
  "asks (Transition now i st) = Some (now, i, st)"
| "asks (OpenMarket now i) = Some (now, i, Open)"
| "asks (HaltTrading now i) = Some (now, i, Halt)"
| "asks (ResumeTrading now i) = Some (now, i, Open)"
| "asks (CloseMarket now i) = Some (now, i, Close)"
| "asks _ = None"

fun asks_all :: "StatusOp \<Rightarrow> ((SecurityId \<Rightarrow> Timestamp) \<times> SecurityTradingStatus) option" where
  "asks_all (OpenAll clk) = Some (clk, Open)"
| "asks_all (CloseAll clk) = Some (clk, Close)"
| "asks_all _ = None"

text \<open>What an operation does to instrument \<open>i\<close>: it knows nothing of the other instruments.\<close>

definition life_step :: "SecurityId \<Rightarrow> StatusOp \<Rightarrow> bool \<Rightarrow> SecurityTradingStatus option \<Rightarrow>
    SecurityTradingStatus option \<times> StatusTrace list" where
  "life_step i op cb st =
     (case (asks op, asks_all op) of
        (Some (now, j, to), _) \<Rightarrow>
          if j = i then (fst (asked cb i now to st), snd (asked cb i now to st) @ [answer i to st]) else (st, [])
      | (None, Some (clk, to)) \<Rightarrow> asked cb i (clk i) to st
      | (None, None) \<Rightarrow> (case op of AddInstrument j s \<Rightarrow> (if j = i then Some s else st, []) | _ \<Rightarrow> (st, [])))"

fun callback_after :: "StatusOp \<Rightarrow> bool \<Rightarrow> bool" where
  "callback_after (SetCallback b) cb = b"
| "callback_after _ cb = cb"

fun life :: "SecurityId \<Rightarrow> StatusOp list \<Rightarrow> bool \<Rightarrow> SecurityTradingStatus option \<Rightarrow>
    SecurityTradingStatus option \<times> StatusTrace list" where
  "life i [] cb st = (st, [])"
| "life i (op # ops) cb st =
     (let (st, tr) = life_step i op cb st; (st, tr') = life i ops (callback_after op cb) st in (st, tr @ tr'))"

fun trace_id :: "StatusTrace \<Rightarrow> SecurityId" where
  "trace_id (Notified e) = sse_security_id e"
| "trace_id (Returned i ok) = i"

definition trace_of :: "SecurityId \<Rightarrow> StatusTrace list \<Rightarrow> StatusTrace list" where
  "trace_of i = filter (\<lambda>t. trace_id t = i)"

lemma trace_of_simps [simp]: "trace_of i [] = []" "trace_of i (a @ b) = trace_of i a @ trace_of i b"
  "trace_of i (t # ts) = (if trace_id t = i then t # trace_of i ts else trace_of i ts)"
  by (simp_all add: trace_of_def)

section \<open>The machine is its instruments' lives\<close>

lemma isValidTransition_moves: "isValidTransition a b \<longleftrightarrow> (a, b) \<in> status_moves"
  by (cases a; cases b) (simp_all add: status_moves_def)

lemma status_moves_irrefl: "(a, a) \<notin> status_moves"
  by (auto simp: status_moves_def)

lemma asked_twice: "asked cb i now to (fst (asked cb' i now' to st)) = (fst (asked cb' i now' to st), [])"
  by (auto simp: asked_def status_moves_irrefl split: option.splits)

lemma status_transition_seen:
  assumes "status_transition now j to m = (m', evs, ok)"
  shows "map_of (ssm_states m') i = (if i = j then fst (asked (ssm_callback m) i now to (map_of (ssm_states m) i)) else map_of (ssm_states m) i)"
    and "trace_of i (map Notified evs) = (if i = j then snd (asked (ssm_callback m) i now to (map_of (ssm_states m) i)) else [])"
    and "answer j to (map_of (ssm_states m) j) = Returned j ok" and "ssm_callback m' = ssm_callback m"
  using assms
  by (auto simp: status_transition_def asked_def answer_def isValidTransition_moves status_moves_irrefl update_conv
      split: option.splits if_splits)

lemma transition_all_seen:
  "transition_all clk to js m = (m', evs) \<Longrightarrow>
     map_of (ssm_states m') i = (if i \<in> set js then fst (asked (ssm_callback m) i (clk i) to (map_of (ssm_states m) i)) else map_of (ssm_states m) i) \<and>
     trace_of i (map Notified evs) = (if i \<in> set js then snd (asked (ssm_callback m) i (clk i) to (map_of (ssm_states m) i)) else []) \<and>
     ssm_callback m' = ssm_callback m"
proof (induction js arbitrary: m m' evs)
  case (Cons j js)
  obtain m1 e1 ok where 1: "status_transition (clk j) j to m = (m1, e1, ok)" by (cases "status_transition (clk j) j to m")
  obtain m2 e2 where 2: "transition_all clk to js m1 = (m2, e2)" by (cases "transition_all clk to js m1")
  have r: "m' = m2" "evs = e1 @ e2" using Cons.prems 1 2 by simp_all
  note s = status_transition_seen [OF 1]
  show ?case using Cons.IH [OF 2] s(1,2) [of i] s(4) by (auto simp: r asked_twice)
qed simp

lemma bulk_seen:
  assumes "transition_all clk to (map fst (ssm_states m)) m = (m', evs)"
  shows "(map_of (ssm_states m') i, trace_of i (map Notified evs)) = asked (ssm_callback m) i (clk i) to (map_of (ssm_states m) i)"
    and "ssm_callback m' = ssm_callback m"
proof -
  note t = transition_all_seen [OF assms, of i]
  have "map_of (ssm_states m) i = None" if "i \<notin> fst ` set (ssm_states m)" using that by (simp add: map_of_eq_None_iff)
  with t show "(map_of (ssm_states m') i, trace_of i (map Notified evs)) = asked (ssm_callback m) i (clk i) to (map_of (ssm_states m) i)"
    by (auto simp: prod_eq_iff asked_def)
  show "ssm_callback m' = ssm_callback m" using t by blast
qed

lemma single_seen:
  assumes "single_op j (status_transition now j to m) = (m', tr)"
  shows "(map_of (ssm_states m') i, trace_of i tr) =
      (if j = i then (fst (asked (ssm_callback m) i now to (map_of (ssm_states m) i)),
         snd (asked (ssm_callback m) i now to (map_of (ssm_states m) i)) @ [answer i to (map_of (ssm_states m) i)])
       else (map_of (ssm_states m) i, []))"
    and "ssm_callback m' = ssm_callback m"
proof -
  obtain m1 evs ok where t: "status_transition now j to m = (m1, evs, ok)" by (cases "status_transition now j to m")
  with assms have r: "m' = m1" "tr = map Notified evs @ [Returned j ok]" by (simp_all add: single_op_def)
  note s = status_transition_seen [OF t]
  show "(map_of (ssm_states m') i, trace_of i tr) =
      (if j = i then (fst (asked (ssm_callback m) i now to (map_of (ssm_states m) i)),
         snd (asked (ssm_callback m) i now to (map_of (ssm_states m) i)) @ [answer i to (map_of (ssm_states m) i)])
       else (map_of (ssm_states m) i, []))"
    using s(1,2) [of i] s(3) by (auto simp: r)
  show "ssm_callback m' = ssm_callback m" using s(4) r by simp
qed

lemmas market_ops = openMarket_def haltTrading_def resumeTrading_def closeMarket_def openAll_def closeAll_def

lemma status_op_seen:
  assumes "status_op op m = (m', tr)"
  shows "(map_of (ssm_states m') i, trace_of i tr) = life_step i op (ssm_callback m) (map_of (ssm_states m) i) \<and>
    ssm_callback m' = callback_after op (ssm_callback m)"
  using assms
proof (cases op)
  case (AddInstrument j st)
  with assms show ?thesis by (auto simp: life_step_def ssm_addInstrument_def update_conv)
next
  case (SetCallback cb)
  with assms show ?thesis by (auto simp: life_step_def setCallback_def)
next
  case (OpenAll clk)
  with assms obtain evs where "transition_all clk Open (map fst (ssm_states m)) m = (m', evs)" "tr = map Notified evs"
    by (auto simp: market_ops split: prod.splits)
  with OpenAll bulk_seen [of clk Open m m' evs] show ?thesis by (simp add: life_step_def)
next
  case (CloseAll clk)
  with assms obtain evs where "transition_all clk Close (map fst (ssm_states m)) m = (m', evs)" "tr = map Notified evs"
    by (auto simp: market_ops split: prod.splits)
  with CloseAll bulk_seen [of clk Close m m' evs] show ?thesis by (simp add: life_step_def)
qed (use assms single_seen in \<open>auto simp: life_step_def market_ops\<close>)

lemma status_run_seen:
  "status_run ops m = (m', tr) \<Longrightarrow>
     (map_of (ssm_states m') i, trace_of i tr) = life i ops (ssm_callback m) (map_of (ssm_states m) i)"
proof (induction ops arbitrary: m m' tr)
  case (Cons op ops)
  obtain m1 t1 where 1: "status_op op m = (m1, t1)" by (cases "status_op op m")
  obtain m2 t2 where 2: "status_run ops m1 = (m2, t2)" by (cases "status_run ops m1")
  note s = status_op_seen [OF 1, of i] and IH = Cons.IH [OF 2]
  from Cons.prems 1 2 have r: "m' = m2" "tr = t1 @ t2" by simp_all
  from s IH show ?case by (auto simp: r case_prod_beta prod_eq_iff Let_def simp del: split_paired_Ex)
qed simp

text \<open>Facts of a single life.\<close>

lemma life_step_moves:
  "life_step i op cb st = (st', tr) \<Longrightarrow> Notified e \<in> set tr \<Longrightarrow> (sse_old_status e, sse_new_status e) \<in> status_moves"
  by (auto simp: life_step_def asked_def answer_def split: option.splits if_splits prod.splits StatusOp.splits)

lemma life_moves:
  "life i ops cb st = (st', tr) \<Longrightarrow> Notified e \<in> set tr \<Longrightarrow> (sse_old_status e, sse_new_status e) \<in> status_moves"
  by (induction ops arbitrary: cb st st' tr) (auto split: prod.splits dest: life_step_moves)

lemma closed_step:
  "life_step i op cb (Some Close) = (st', tr) \<Longrightarrow> (\<forall>s. op \<noteq> AddInstrument i s) \<Longrightarrow> st' = Some Close \<and> (\<forall>e. Notified e \<notin> set tr)"
  by (auto simp: life_step_def asked_def answer_def status_moves_def split: option.splits if_splits prod.splits StatusOp.splits)

lemma closed_life:
  "life i ops cb (Some Close) = (st', tr) \<Longrightarrow> (\<forall>s. AddInstrument i s \<notin> set ops) \<Longrightarrow> st' = Some Close \<and> (\<forall>e. Notified e \<notin> set tr)"
proof (induction ops arbitrary: cb st' tr)
  case (Cons op ops)
  obtain s1 t1 where 1: "life_step i op cb (Some Close) = (s1, t1)" by (cases "life_step i op cb (Some Close)")
  have c: "s1 = Some Close \<and> (\<forall>e. Notified e \<notin> set t1)" using closed_step [OF 1] Cons.prems(2) by auto
  with Cons.IH [of "callback_after op cb"] Cons.prems 1 show ?case by (auto split: prod.splits)
qed simp

text \<open>
  C38.  The status machine is its instruments' independent lives.  Over any sequence of operations of the class
  (registrations, a callback set or removed, single and bulk transitions), what is seen of an instrument, its final status,
  the events the callback receives for it and the results of the calls for it, in their order, is exactly
  the run of the automaton with the five moves PreOpen to Open, Open to Halt, Halt to Open, Open to Close and Halt to Close,
  in which a request for the current status succeeds without an event and any other request changes nothing.  An instrument
  that is closed stays closed without an event until it is registered anew.
\<close>

theorem status_events_replay:
  assumes "status_run ops m = (m', tr)"
  shows "(map_of (ssm_states m') i, trace_of i tr) = life i ops (ssm_callback m) (map_of (ssm_states m) i) \<and>
    (\<forall>e. Notified e \<in> set (trace_of i tr) \<longrightarrow> (sse_old_status e, sse_new_status e) \<in> status_moves) \<and>
    (getStatus i m = Close \<and> (\<forall>s. AddInstrument i s \<notin> set ops) \<longrightarrow>
      getStatus i m' = Close \<and> (\<forall>e. Notified e \<notin> set (trace_of i tr)))"
proof -
  note s = status_run_seen [OF assms, of i]
  have "map_of (ssm_states m) i = Some Close" if "getStatus i m = Close"
    using that by (simp add: getStatus_def split: option.splits)
  with closed_life s have "getStatus i m' = Close \<and> (\<forall>e. Notified e \<notin> set (trace_of i tr))"
    if "getStatus i m = Close" "\<forall>s. AddInstrument i s \<notin> set ops" using that by (metis getStatus_def option.simps(5))
  with s life_moves [OF s [symmetric]] show ?thesis by blast
qed

definition ex_status_ops :: "StatusOp list" where
  "ex_status_ops = [CloseMarket 3 1, OpenAll (\<lambda>i. 5), HaltTrading 6 1, CloseAll (\<lambda>i. 7), OpenMarket 8 1]"

theorem status_events_replay_witness:
  "let m = \<lparr>ssm_states = [(1, PreOpen), (2, Halt)], ssm_callback = True\<rparr>; (m', tr) = status_run ex_status_ops m
   in trace_of 1 tr = snd (life 1 ex_status_ops True (Some PreOpen)) \<and> getStatus 1 m' = Close \<and>
     filter (\<lambda>t. t = Returned 1 True \<or> t = Returned 1 False) (trace_of 1 tr) = [Returned 1 False, Returned 1 True, Returned 1 False]"
proof -
  let ?m = "\<lparr>ssm_states = [(1, PreOpen), (2, Halt)], ssm_callback = True\<rparr>"
  obtain m' tr where r: "status_run ex_status_ops ?m = (m', tr)" by (cases "status_run ex_status_ops ?m")
  have "getStatus 1 (fst (status_run ex_status_ops ?m)) = Close \<and>
      filter (\<lambda>t. t = Returned 1 True \<or> t = Returned 1 False) (trace_of 1 (snd (status_run ex_status_ops ?m))) =
        [Returned 1 False, Returned 1 True, Returned 1 False]" by code_simp
  with status_events_replay [OF r, of 1] r show ?thesis by (auto simp: prod_eq_iff)
qed

text \<open>Registering a closed instrument anew opens it, and the callback does not hear of it.\<close>

lemma registration_reopens:
  "getStatus i (ssm_addInstrument i Open m) = Open \<and> status_op (AddInstrument i Open) m = (ssm_addInstrument i Open m, [])"
  by (simp add: getStatus_def ssm_addInstrument_def update_conv)

end
