(* ===== verification/Snapshot_Recovery.thy ===== *)
theory Snapshot_Recovery
  imports Server
begin

text \<open>
  What a client that joins late reads on a channel's snapshot feed: one cycle of the snapshot thread with
  the book provider of \<^verbatim>\<open>src/main.cpp\<close> sends, for each instrument of the channel, the book's price levels
  and the number of the incremental packet from which to go on.
\<close>

definition snapshot_view :: "8 word \<Rightarrow> SnapshotFullRefresh52_Entry list \<Rightarrow> md_level list" where
  "snapshot_view ty es = map (\<lambda>e. (Price (sint (SnapshotFullRefresh52_Entry.mdEntryPx e)),
       sint (SnapshotFullRefresh52_Entry.mdEntrySize e), sint (SnapshotFullRefresh52_Entry.numberOfOrders e)))
     (filter (\<lambda>e. SnapshotFullRefresh52_Entry.mdEntryType e = ty) es)"

definition snapshot_book :: "SnapshotFullRefresh52 \<Rightarrow> md_book" where
  "snapshot_book m = (snapshot_view MDEntryType_Bid (SnapshotFullRefresh52.entries m),
     snapshot_view MDEntryType_Offer (SnapshotFullRefresh52.entries m))"

definition wire_level :: "md_level \<Rightarrow> bool" where
  "wire_level l \<longleftrightarrow> (case l of (p, q, n) \<Rightarrow> int64 (mantissa p) \<and> int32 q \<and> int32 n)"

text \<open>The levels of a security in the engine; none if it has no book.\<close>

definition market_of :: "Engine \<Rightarrow> SecurityId \<Rightarrow> md_book" where
  "market_of e sec = (case order_books e sec of None \<Rightarrow> ([], []) | Some b \<Rightarrow> book_view b)"

definition wire_market :: "md_book \<Rightarrow> bool" where
  "wire_market v \<longleftrightarrow> list_all wire_level (fst v) \<and> list_all wire_level (snd v) \<and> length (fst v) + length (snd v) < 256"

text \<open>The levels that a security's client holds after a snapshot packet, with where to go on.\<close>

definition read_snapshot :: "bytes \<Rightarrow> (SecurityId \<times> 32 word \<times> md_book) option" where
  "read_snapshot pkt = map_option (\<lambda>m. (sint (SnapshotFullRefresh52.securityID m),
      SnapshotFullRefresh52.lastMsgSeqNumProcessed m, snapshot_book m))
     (SnapshotFullRefresh52_decode (drop PacketHeader_SIZE pkt) 0)"

definition level_price_qty :: "md_level \<Rightarrow> Price \<times> Quantity" where "level_price_qty l = (fst l, fst (snd l))"
definition level_orders :: "md_level \<Rightarrow> int" where "level_orders l = snd (snd l)"

lemma provider_market:
  "makeBookSnapshotProvider e sec =
     (map level_price_qty (fst (market_of e sec)), map level_price_qty (snd (market_of e sec)),
      map level_orders (fst (market_of e sec)), map level_orders (snd (market_of e sec)))"
  by (auto simp: makeBookSnapshotProvider_def getOrderBook_def market_of_def book_view_def view_def level_price_qty_def
      level_orders_def split: option.splits)

lemma snapshot_levels_view:
  "list_all wire_level ls \<Longrightarrow>
     snapshot_view ty' (snapshot_levels ty (length pre) (map level_price_qty ls) (pre @ map level_orders ls)) =
     (if ty' = ty then ls else [])"
proof (induction ls arbitrary: pre)
  case (Cons l ls)
  obtain p q n where l: "l = (p, q, n)" by (metis prod_cases3)
  have "snapshot_view ty' (snapshot_levels ty (Suc (length pre)) (map level_price_qty ls) (pre @ n # map level_orders ls)) =
      (if ty' = ty then ls else [])"
    using Cons.IH [of "pre @ [n]"] Cons.prems by simp
  moreover have "level_price_qty l = (p, q)" "level_orders l = n" "int64 (mantissa p)" "int32 q" "int32 n"
    using Cons.prems by (simp_all add: l level_price_qty_def level_orders_def wire_level_def)
  ultimately show ?case
    by (cases p) (auto simp: snapshot_view_def l sint_int32 sint_int64 nth_append)
qed (simp add: snapshot_view_def)

lemma length_snapshot_levels: "length (snapshot_levels ty i ls cs) = length ls"
  by (induction ty i ls cs rule: snapshot_levels.induct) simp_all

lemma snapshot_view_append: "snapshot_view ty (xs @ ys) = snapshot_view ty xs @ snapshot_view ty ys"
  by (simp add: snapshot_view_def)

lemma buildSnapshot_reads_back:
  assumes "wire_market v" and "int32 sec"
  shows "\<exists>msg. buildSnapshot sec lseq tot (map level_price_qty (fst v)) (map level_price_qty (snd v))
      (map level_orders (fst v)) (map level_orders (snd v)) rpt t = Some msg \<and> msg \<noteq> [] \<and>
      read_snapshot (udp_packet n tm msg) = Some (sec, lseq, v)"
proof -
  define m where "m = \<lparr>SnapshotFullRefresh52.lastMsgSeqNumProcessed = lseq, SnapshotFullRefresh52.totNumReports = tot,
     SnapshotFullRefresh52.securityID = of_int sec, SnapshotFullRefresh52.rptSeq = rpt, SnapshotFullRefresh52.transactTime = t,
     SnapshotFullRefresh52.lastUpdateTime = t, SnapshotFullRefresh52.tradeDate = 0,
     SnapshotFullRefresh52.mdSecurityTradingStatus = SecurityTradingStatus_code Open,
     SnapshotFullRefresh52.highLimitPrice = of_int Price_NULL_VALUE, SnapshotFullRefresh52.lowLimitPrice = of_int Price_NULL_VALUE,
     SnapshotFullRefresh52.maxPriceVariation = of_int Price_NULL_VALUE,
     SnapshotFullRefresh52.entries =
       snapshot_levels MDEntryType_Bid 0 (map level_price_qty (fst v)) (map level_orders (fst v)) @
       snapshot_levels MDEntryType_Offer 0 (map level_price_qty (snd v)) (map level_orders (snd v))\<rparr>"
  have wf: "SnapshotFullRefresh52_wf m"
    using assms(1) by (simp add: SnapshotFullRefresh52_wf_def m_def length_snapshot_levels wire_market_def)
  have "snapshot_book m = v"
    using assms(1) snapshot_levels_view [of _ _ _ "[]"]
    by (simp add: snapshot_book_def m_def snapshot_view_append wire_market_def MDEntryType_Bid_def MDEntryType_Offer_def)
  moreover have "sint (SnapshotFullRefresh52.securityID m) = sec" "SnapshotFullRefresh52.lastMsgSeqNumProcessed m = lseq"
    using assms(2) by (simp_all add: m_def sint_int32)
  moreover have "drop PacketHeader_SIZE (udp_packet n tm msg) = msg" for msg
    by (simp add: udp_packet_def PacketHeader_SIZE_def)
  ultimately have "read_snapshot (udp_packet n tm (snapshotFullRefresh52.wire m)) = Some (sec, lseq, v)"
    using snapshotFullRefresh52.decode_wire(1) [OF wf] by (simp add: read_snapshot_def)
  moreover have "snapshotFullRefresh52.wire m \<noteq> []" using snapshotFullRefresh52.length_wire [OF wf] by auto
  moreover have "buildSnapshot sec lseq tot (map level_price_qty (fst v)) (map level_price_qty (snd v))
      (map level_orders (fst v)) (map level_orders (snd v)) rpt t = Some (snapshotFullRefresh52.wire m)"
    using snapshotFullRefresh52.to_buffer_wire [OF wf] by (simp add: buildSnapshot_def MessageHeader_SIZE_def m_def)
  ultimately show ?thesis by blast
qed

lemma run_cycle_snapshots:
  "\<forall>sec\<in>set secs. int32 sec \<and> wire_market (market_of e sec) \<Longrightarrow>
     \<exists>count' a' b' new. run_cycle (makeBookSnapshotProvider e) clk k lseq tot secs (count, a, b) = Some (count', a', b') \<and>
       sent a' = sent a @ new \<and> map read_snapshot new = map (\<lambda>sec. Some (sec, lseq, market_of e sec)) secs"
proof (induction secs arbitrary: k count a b)
  case (Cons sec secs)
  obtain msg where msg: "buildSnapshot sec lseq tot (map level_price_qty (fst (market_of e sec)))
      (map level_price_qty (snd (market_of e sec))) (map level_orders (fst (market_of e sec)))
      (map level_orders (snd (market_of e sec))) (count + 1) (clk (3 * k)) = Some msg" "msg \<noteq> []"
    "read_snapshot (udp_packet (next_seq_num a) (clk (3 * k + 1)) msg) = Some (sec, lseq, market_of e sec)"
    using buildSnapshot_reads_back [of "market_of e sec" sec lseq tot "count + 1" "clk (3 * k)"] Cons.prems by fastforce
  let ?a = "feed_send (clk (3 * k + 1)) msg a" and ?b = "feed_send (clk (3 * k + 2)) msg b"
  have "\<forall>sec\<in>set secs. int32 sec \<and> wire_market (market_of e sec)" using Cons.prems by simp
  from Cons.IH [OF this, of "Suc k" "count + 1" ?a ?b] obtain count' a' b' new where
    r: "run_cycle (makeBookSnapshotProvider e) clk (Suc k) lseq tot secs (count + 1, ?a, ?b) = Some (count', a', b')"
    "sent a' = sent ?a @ new" "map read_snapshot new = map (\<lambda>sec. Some (sec, lseq, market_of e sec)) secs" by blast
  have "run_cycle (makeBookSnapshotProvider e) clk k lseq tot (sec # secs) (count, a, b) = Some (count', a', b')"
    using msg(1,2) r(1) by (simp add: provider_market Let_def)
  moreover have "sent a' = sent a @ udp_packet (next_seq_num a) (clk (3 * k + 1)) msg # new"
    using r(2) by (simp add: feed_send_def)
  ultimately show ?case using msg(3) r(3) by fastforce
qed simp

text \<open>
  C40.  A late joiner finds the market: one cycle of the snapshot thread returns, and the packets it adds to the
  channel's snapshot feed are, one for each instrument of the channel in order, read as the price levels
  of that instrument's book (price, quantity and number of orders on both sides), together with the number
  of the last incremental packet the cycler was told of.  (For values within their C++ types and at most
  255 levels per book, which is what the 8-bit count of the format can hold.)
\<close>

theorem snapshot_shows_books:
  assumes "snapshot_cycler cp = Some c"
    and "\<forall>sec\<in>set (cyc_instruments c). int32 sec \<and> wire_market (market_of e sec)"
  shows "\<exists>cp' new. runCycle (makeBookSnapshotProvider e) clk cp = Some cp' \<and>
    sent (snapshot_feed_a cp') = sent (snapshot_feed_a cp) @ new \<and>
    map read_snapshot new = map (\<lambda>sec. Some (sec, last_incr_seq c, market_of e sec)) (cyc_instruments c)"
  using run_cycle_snapshots [OF assms(2), of clk 0 "last_incr_seq c" "of_nat (length (cyc_instruments c))" "cycle_count c"
      "snapshot_feed_a cp" "snapshot_feed_b cp"] assms(1)
  by (fastforce simp: runCycle_def)

definition ex_resting :: Engine where
  "ex_resting = fst (submitOrder 5 1 (ex_order 0 Sell 70 3 Limit Day) (addInstrument 42 (FullMatchingEngine_new ex_heap)))"

definition ex_cycled :: ChannelPublisher where
  "ex_cycled = initSnapshotCycler [42] (ChannelPublisher_new 310)"

lemma ex_resting_market: "market_of ex_resting 42 = ([], [(Price 70, 3, 1)])"
  by code_simp

theorem snapshot_shows_books_witness:
  "\<exists>cp' pkt. runCycle (makeBookSnapshotProvider ex_resting) (\<lambda>_. 6) ex_cycled = Some cp' \<and>
     sent (snapshot_feed_a cp') = [pkt] \<and> read_snapshot pkt = Some (42, 0, ([], [(Price 70, 3, 1)]))"
proof -
  have c: "snapshot_cycler ex_cycled = Some (SnapshotCycler_new [42])" "sent (snapshot_feed_a ex_cycled) = []"
    by (simp_all add: ex_cycled_def initSnapshotCycler_def ChannelPublisher_new_def FeedSender_new_def)
  have "\<forall>sec\<in>set (cyc_instruments (SnapshotCycler_new [42])). int32 sec \<and> wire_market (market_of ex_resting sec)"
    by (simp add: SnapshotCycler_new_def ex_resting_market wire_market_def wire_level_def int32_def int64_def)
  from snapshot_shows_books [OF c(1) this, of "\<lambda>_. 6"] show ?thesis
    by (auto simp: c(2) SnapshotCycler_new_def ex_resting_market map_eq_Cons_conv)
qed

end
