(* ===== verification/Spec2Isabelle.thy ===== *)
theory Spec2Isabelle
  imports Mpsc_Queue Buffer_Pool Exchange_Lifecycle Synthetic_Properties Listener_Properties Client_Reader Security_Status
    Snapshot_Recovery
begin

text \<open>
  \<^bold>\<open>A verification development of the exchange simulator.\<close>

  The program is an exchange for futures.  Clients log on over TCP with the FIXP session protocol
  (\<^verbatim>\<open>src/fixp\<close>) and send orders as SBE messages (\<^verbatim>\<open>src/sbe\<close>).  A gateway (\<^verbatim>\<open>src/gateway\<close>) decodes and checks
  them and queues commands for one engine thread, which matches them in price-time priority order books
  (\<^verbatim>\<open>src/engine\<close>).  The engine's events go back to the sessions as execution reports and out on
  multicast channels as market data (\<^verbatim>\<open>src/market_data\<close>).  \<^verbatim>\<open>src/main.cpp\<close> wires the parts together, from a
  configuration (\<^verbatim>\<open>src/config\<close>) and the instrument tables (\<^verbatim>\<open>src/instruments\<close>), on the network layer of
  \<^verbatim>\<open>src/network\<close>.  Two tools, \<^verbatim>\<open>tools/ilink3_client.cpp\<close> and \<^verbatim>\<open>tools/mdp3_listener.cpp\<close>, are its clients.

  \<^bold>\<open>How code becomes definitions.\<close>  A struct or class is a \<open>record\<close>, an enumeration or variant a \<open>datatype\<close>, and an
  operation a function from the old state to the new one.  Unsigned integers that the code lets wrap are
  words of their width; quantities, prices and times are integers, with bounds stated where they matter.
  Order objects live on an explicit heap, because price levels link them through their own fields; byte
  buffers are lists.  \<open>None\<close> stands for an access outside a buffer or to freed memory and for an exception;
  a theorem that an operation returns \<open>Some\<close> therefore says that it is safe.  Clock readings, addresses of
  new objects, the keyed hash and the YAML library are arguments.  A thread is the sequence of its loop
  bodies, and threads interleave as steps of an inductive relation.

  \<^bold>\<open>The theories, and what they show.\<close>

  \<^item> \<open>Prelude\<close>, \<open>Market_Types\<close>, \<open>Double\<close>: shared lemmas, sorted maps over any strict order (locale
    \<open>strict_order\<close>), prices as a linear order (\<^verbatim>\<open>types.h\<close>), and the double arithmetic the configuration needs.

  \<^item> \<open>Engine_Types\<close>, \<open>Price_Level\<close>: orders and events (\<^verbatim>\<open>order.h\<close>, \<^verbatim>\<open>engine_event.h\<close>), and the intrusive list of
    \<^verbatim>\<open>price_level.h\<close>, which refines a queue (locale \<open>fifo_level\<close>).

  \<^item> \<open>Order_Book\<close> models \<^verbatim>\<open>order_book.cpp\<close>.  \<open>Book_Invariant\<close>, \<open>Book_Trades\<close> and \<open>Book_Matching\<close> reduce its matching
    loops to single trades and compare them with an allocation by price-time priority; \<open>Book_Operations\<close>
    has the invariant through add, cancel and modify; \<open>Book_Policies\<close> the order types and times in force;
    \<open>Book_Market_Data\<close> shows that the update events rebuild the book; \<open>Book_Example\<close> is the running example.

  \<^item> \<open>Matching_Engine\<close> models \<^verbatim>\<open>full_matching_engine.cpp\<close> over all books at once (locale \<open>heap_component\<close>: books on
    disjoint parts of one heap), and shows that no freed order is reachable.  \<open>Synthetic_Engine\<close> and
    \<open>Synthetic_Properties\<close> do the same for \<^verbatim>\<open>synthetic_engine.cpp\<close>; \<open>Pcap_Reader\<close> compares what is read from a capture with
    the layout of its records and frames.
    \<open>Engine_Contract\<close> states what the gateway expects of an engine (locale \<open>order_engine\<close>); both are instances.

  \<^item> \<open>Byte_Codec\<close>, \<open>Sbe_Framing\<close>, \<open>Sbe_Groups\<close>, \<open>ILink3_Session\<close>, \<open>ILink3_Orders\<close>, \<open>ILink3_Exec_Reports\<close>, \<open>Mdp3_Flat\<close>,
    \<open>Mdp3_Groups\<close>, \<open>Sbe_Dispatch\<close>: every message of \<^verbatim>\<open>ilink3_messages.h\<close> and \<^verbatim>\<open>mdp3_messages.h\<close> with its encoder and
    decoder.  The locales \<open>sbe_message\<close> and \<open>group_entry\<close> hold the round trip, proved once and interpreted
    for each message.

  \<^item> \<open>Retransmit_Buffer\<close>, \<open>Fixp_Session\<close>, \<open>Fixp_Properties\<close>, \<open>Session_Manager\<close>: the session state machine
    (\<^verbatim>\<open>session.cpp\<close>) with authentication, gap detection, retransmission and keep-alive, and the table of
    sessions.

  \<^item> \<open>Exchange_Config\<close>, \<open>Config_Loader\<close>, \<open>Instruments\<close>, \<open>Security_Status\<close>: what validation accepts, what loading a
    document yields, the instrument tables and tick rounding, and the trading status machine, which is the product of
    its instruments' automata.

  \<^item> \<open>Exec_Report_Builder\<close>, \<open>Pre_Trade\<close>, \<open>Order_Gateway\<close>, \<open>Gateway_Properties\<close>, \<open>Gateway_Example\<close>: the gateway refines an
    abstract one that says which event is reported to whom; an order passes exactly when it passes the
    three checks that are made, and the two others the README names do not matter; positions are those of the
    reported fills.

  \<^item> \<open>Md_Builders\<close>, \<open>Md_Publisher\<close>, \<open>Snapshot_Recovery\<close>: packets, the redundant feeds, and what a late client reads
    on the snapshot feed.

  \<^item> \<open>Mpsc_Queue\<close>, \<open>Buffer_Pool\<close>: the lock-free structures of \<^verbatim>\<open>src/common\<close> as interleaved atomic actions.

  \<^item> \<open>Tcp_Network\<close>, \<open>Server\<close>, \<open>Server_Properties\<close>, \<open>Exchange_Main\<close>, \<open>Exchange_Lifecycle\<close>: connections, and the composed
    exchange.  \<open>server_reach\<close> is the exchange at the level of messages, \<open>exchange_reach\<close> at the level of bytes on
    connections; the second refines the first, so the invariant, the delivery of reports and the market
    data feed hold for any input.  Writes overlap as the code lets them: frames are whole only where they do not.
    Start-up, with its exceptions, and shutdown complete the picture.

  \<^item> \<open>ILink3_Client\<close>, \<open>Client_Properties\<close>, \<open>Client_Reader\<close>, \<open>Mdp3_Listener\<close>, \<open>Listener_Properties\<close>: the two tools against the
    server: log-on, orders, reports, and the display of the feed under packet loss.

  \<^bold>\<open>Bounds.\<close>  The counters of orders, connections and sequence numbers are words; where a theorem needs that they do
  not wrap, the bound is a side condition of the step or a hypothesis.  No definition uses fuel: loops
  over buffers and lists are total functions with a measure, and the two loops that need not end in the
  code (\<open>mpsc_drain\<close>, \<open>drain_free\<close>) are partial functions that are shown to return.

  \<^bold>\<open>Simplifications.\<close>  A step is one critical section, handler or loop body; accesses to the risk manager from two kinds of threads
  and to the books from the snapshot thread, which the code does not synchronise, are steps of their own.
  The atomic operations of the lock-free structures are sequentially consistent.  A batch of commands is processed at one
  reading of the clock, and the shutdown sequence is one step.  Totals of quantities do not overflow.
  Doubles have NaN and the infinities, but small products keep their precision where a double becomes
  subnormal; a conversion to an integer that C++ leaves undefined yields a number that is not of 64 bits.

  \<^bold>\<open>Not modelled.\<close>  Sockets, their options and \<^verbatim>\<open>asio\<close>; the log and the texts of banners and messages; signal handlers;
  \<^verbatim>\<open>clock.h\<close>, \<^verbatim>\<open>logger.h\<close> and \<^verbatim>\<open>asio_compat.h\<close>; \<^verbatim>\<open>spsc_queue.h\<close>, a wrapper of a third-party queue that nothing uses; the
  connection set-up of the client's \<^verbatim>\<open>main\<close>; OpenSSL's hash and the YAML parser, which are parameters; the stub of
  \<^verbatim>\<open>hmac_authenticator.h\<close> for builds without OpenSSL, which accepts every signature; an accept handler that is already
  queued when the acceptor stops.  Whether a port can be bound and a multicast sender be created is a parameter of
  start-up.
\<close>

end
